(* ===== verification/TCP_Prelude.thy ===== *)
theory TCP_Prelude
  imports Complex_Main "HOL-Library.Word" "HOL-Library.Multiset"
begin

text \<open>
  Shared vocabulary of the development: the machine types of the C++ sources,
  the errors an operation can end in, the two sequencing operators with which the
  models of the C++ member functions are written, and a small calculus of
  weakest preconditions over them.

  An operation that may throw (an \<open>opp_error\<close>, a failed \<open>ASSERT\<close>, a
  null pointer, a message scheduled twice) returns \<open>tcp_error + 'a\<close>: \<open>Inl\<close> the
  error, \<open>Inr\<close> the new state.  A C++ loop that would run forever in some states returns
  \<open>Inl Nontermination\<close> there, so that returning is a claim to be proved.  \<open>wpE m Q\<close> says that if \<open>m\<close> returns, its result
  satisfies \<open>Q\<close>; \<open>wtE m Q\<close> says that \<open>m\<close> does return and its result satisfies \<open>Q\<close>.
\<close>

named_theorems wp_simps \<open>weakest preconditions of the sequencing operators\<close>
named_theorems tcp_ops \<open>definitions of operations that proofs may unfold freely\<close>

section \<open>Machine types\<close>

type_synonym u32 = "32 word"
type_synonym u64 = "64 word"
type_synonym simtime = rat

text \<open>Conversion to the C types \<open>short\<close> and \<open>int\<close>: two's complement truncation.\<close>

definition c_short :: "int \<Rightarrow> int" where
  "c_short n = signed_take_bit 15 n"

definition c_int :: "int \<Rightarrow> int" where
  "c_int n = signed_take_bit 31 n"

lemma c_short_id [simp]: "- 32768 \<le> n \<Longrightarrow> n < 32768 \<Longrightarrow> c_short n = n"
  by (simp add: c_short_def signed_take_bit_int_eq_self)

lemma c_int_id [simp]: "- 2147483648 \<le> n \<Longrightarrow> n < 2147483648 \<Longrightarrow> c_int n = n"
  by (simp add: c_int_def signed_take_bit_int_eq_self)

lemma c_short_bounds: "- 32768 \<le> c_short n" "c_short n < 32768"
  using signed_take_bit_int_greater_eq_minus_exp [of 15 n] signed_take_bit_int_less_exp [of 15 n]
  by (simp_all add: c_short_def)

section \<open>Errors and sequencing\<close>

datatype tcp_error =
    AssertFailed string
  | RuntimeError string
  | NullPointer
  | TimerAlreadyScheduled
  | DivisionByZero
  | Nontermination

type_synonym 'a res = "tcp_error + 'a"

definition bindE :: "'a res \<Rightarrow> ('a \<Rightarrow> 'b res) \<Rightarrow> 'b res" where
  "bindE m f = (case m of Inl e \<Rightarrow> Inl e | Inr x \<Rightarrow> f x)"

lemma bindE_simps [simp]:
  "bindE (Inl e) f = Inl e"
  "bindE (Inr x) f = f x"
  by (simp_all add: bindE_def)

lemma bindE_assoc: "bindE (bindE m f) g = bindE m (\<lambda>x. bindE (f x) g)"
  by (simp add: bindE_def split: sum.split)

lemma bindE_eq_Inr: "bindE m f = Inr y \<longleftrightarrow> (\<exists>x. m = Inr x \<and> f x = Inr y)"
  by (cases m) auto

lemma bindE_Inr_right [simp]: "bindE m Inr = m"
  by (cases m) auto

text \<open>A C++ statement list, run until the first error.\<close>

fun seqE :: "('s \<Rightarrow> 's res) list \<Rightarrow> 's \<Rightarrow> 's res" where
  "seqE [] s = Inr s"
| "seqE (f # fs) s = bindE (f s) (seqE fs)"

definition whenE :: "bool \<Rightarrow> ('s \<Rightarrow> 's res) \<Rightarrow> 's \<Rightarrow> 's res" where
  "whenE b f s = (if b then f s else Inr s)"

definition assertE :: "string \<Rightarrow> bool \<Rightarrow> 's \<Rightarrow> 's res" where
  "assertE l b s = (if b then Inr s else Inl (AssertFailed l))"

definition updE :: "('s \<Rightarrow> 's) \<Rightarrow> 's \<Rightarrow> 's res" where
  "updE f s = Inr (f s)"

lemma whenE_simps [simp]: "whenE True f s = f s" "whenE False f s = Inr s"
  by (simp_all add: whenE_def)

lemma assertE_simps [simp]: "assertE l True s = Inr s" "assertE l False s = Inl (AssertFailed l)"
  by (simp_all add: assertE_def)

lemma updE_simp [simp]: "updE f s = Inr (f s)"
  by (simp add: updE_def)

lemma seqE_append: "seqE (fs @ gs) s = bindE (seqE fs s) (seqE gs)"
  by (induction fs arbitrary: s) (auto simp: bindE_def split: sum.split)

section \<open>Weakest preconditions\<close>

definition wpE :: "'a res \<Rightarrow> ('a \<Rightarrow> bool) \<Rightarrow> bool" where
  "wpE m Q = (case m of Inl e \<Rightarrow> True | Inr x \<Rightarrow> Q x)"

definition wtE :: "'a res \<Rightarrow> ('a \<Rightarrow> bool) \<Rightarrow> bool" where
  "wtE m Q = (case m of Inl e \<Rightarrow> False | Inr x \<Rightarrow> Q x)"

lemma wpE_Inl [simp, wp_simps]: "wpE (Inl e) Q"
  by (simp add: wpE_def)

lemma wpE_Inr [simp, wp_simps]: "wpE (Inr x) Q = Q x"
  by (simp add: wpE_def)

lemma wtE_Inl [simp, wp_simps]: "\<not> wtE (Inl e) Q"
  by (simp add: wtE_def)

lemma wtE_Inr [simp, wp_simps]: "wtE (Inr x) Q = Q x"
  by (simp add: wtE_def)

lemma wpE_bindE [wp_simps]: "wpE (bindE m f) Q = wpE m (\<lambda>x. wpE (f x) Q)"
  by (cases m) auto

lemma wtE_bindE [wp_simps]: "wtE (bindE m f) Q = wtE m (\<lambda>x. wtE (f x) Q)"
  by (cases m) auto

lemma wpE_seqE [wp_simps]:
  "wpE (seqE [] s) Q = Q s"
  "wpE (seqE (f # fs) s) Q = wpE (f s) (\<lambda>t. wpE (seqE fs t) Q)"
  by (simp_all add: wpE_bindE)

lemma wtE_seqE [wp_simps]:
  "wtE (seqE [] s) Q = Q s"
  "wtE (seqE (f # fs) s) Q = wtE (f s) (\<lambda>t. wtE (seqE fs t) Q)"
  by (simp_all add: wtE_bindE)

lemma wpE_whenE [wp_simps]: "wpE (whenE b f s) Q = (if b then wpE (f s) Q else Q s)"
  by (simp add: whenE_def)

lemma wtE_whenE [wp_simps]: "wtE (whenE b f s) Q = (if b then wtE (f s) Q else Q s)"
  by (simp add: whenE_def)

lemma wpE_assertE [wp_simps]: "wpE (assertE l b s) Q = (b \<longrightarrow> Q s)"
  by (simp add: assertE_def)

lemma wtE_assertE [wp_simps]: "wtE (assertE l b s) Q = (b \<and> Q s)"
  by (simp add: assertE_def)

lemma wpE_updE [wp_simps]: "wpE (updE f s) Q = Q (f s)"
  by simp

lemma wtE_updE [wp_simps]: "wtE (updE f s) Q = Q (f s)"
  by simp

lemma wpE_if [wp_simps]: "wpE (if b then m else m') Q = (if b then wpE m Q else wpE m' Q)"
  by simp

lemma wtE_if [wp_simps]: "wtE (if b then m else m') Q = (if b then wtE m Q else wtE m' Q)"
  by simp

lemma wpE_mono: "wpE m P \<Longrightarrow> (\<And>x. P x \<Longrightarrow> Q x) \<Longrightarrow> wpE m Q"
  by (cases m) auto

lemma wtE_mono: "wtE m P \<Longrightarrow> (\<And>x. P x \<Longrightarrow> Q x) \<Longrightarrow> wtE m Q"
  by (cases m) auto

lemma wtE_imp_wpE: "wtE m Q \<Longrightarrow> wpE m Q"
  by (cases m) auto

lemma wpE_conj: "wpE m (\<lambda>x. P x \<and> Q x) \<longleftrightarrow> wpE m P \<and> wpE m Q"
  by (cases m) auto

lemma wtE_iff: "wtE m Q \<longleftrightarrow> (\<exists>x. m = Inr x \<and> Q x)"
  by (cases m) auto

lemma wpE_iff: "wpE m Q \<longleftrightarrow> (\<forall>x. m = Inr x \<longrightarrow> Q x)"
  by (cases m) auto

lemma wpED: "wpE m Q \<Longrightarrow> m = Inr x \<Longrightarrow> Q x"
  by simp

text \<open>
  \<open>keepsE P f\<close>: the operation \<open>f\<close> keeps the predicate \<open>P\<close>.  The combinators keep what
  their parts keep.
\<close>

definition keepsE :: "('s \<Rightarrow> bool) \<Rightarrow> ('s \<Rightarrow> 's res) \<Rightarrow> bool" where
  "keepsE P f \<longleftrightarrow> (\<forall>s. P s \<longrightarrow> wpE (f s) P)"

lemma keepsE_I: "(\<And>s. P s \<Longrightarrow> wpE (f s) P) \<Longrightarrow> keepsE P f"
  by (simp add: keepsE_def)

lemma keepsE_D: "keepsE P f \<Longrightarrow> P s \<Longrightarrow> wpE (f s) P"
  by (simp add: keepsE_def)

lemma keepsE_seqE: "list_all (keepsE P) fs \<Longrightarrow> keepsE P (seqE fs)"
proof (induction fs)
  case Nil
  then show ?case by (simp add: keepsE_def)
next
  case (Cons f fs)
  then show ?case
    by (auto simp: keepsE_def wpE_bindE intro: wpE_mono)
qed

lemma keepsE_whenE: "keepsE P f \<Longrightarrow> keepsE P (whenE b f)"
  by (simp add: keepsE_def whenE_def)

lemma keepsE_assertE: "keepsE P (assertE l b)"
  by (simp add: keepsE_def assertE_def)

lemma keepsE_updE: "(\<And>s. P s \<Longrightarrow> P (f s)) \<Longrightarrow> keepsE P (updE f)"
  by (simp add: keepsE_def)

end
