(* ===== verification/TCP_Seq.thy ===== *)
theory TCP_Seq
  imports TCP_Prelude
begin

text \<open>
  Comparison of 32-bit sequence numbers (\<open>TCPConnection.h\<close>).  The four inline
  functions compare by the sign of a wrapped difference.  The lemmas relate them to
  the order of the offsets from a common base: inside any half of the sequence space
  they are the usual linear order, at a distance of exactly \<open>2 ^ 31\<close> all four fail.
\<close>

section \<open>The four comparisons\<close>

definition seqLess :: "u32 \<Rightarrow> u32 \<Rightarrow> bool" where
  "seqLess a b \<longleftrightarrow> a \<noteq> b \<and> b - a < 2 ^ 31"

definition seqLE :: "u32 \<Rightarrow> u32 \<Rightarrow> bool" where
  "seqLE a b \<longleftrightarrow> b - a < 2 ^ 31"

definition seqGreater :: "u32 \<Rightarrow> u32 \<Rightarrow> bool" where
  "seqGreater a b \<longleftrightarrow> a \<noteq> b \<and> a - b < 2 ^ 31"

definition seqGE :: "u32 \<Rightarrow> u32 \<Rightarrow> bool" where
  "seqGE a b \<longleftrightarrow> a - b < 2 ^ 31"

lemmas seq_defs = seqLess_def seqLE_def seqGreater_def seqGE_def

section \<open>Offsets from a base\<close>

definition soff :: "u32 \<Rightarrow> u32 \<Rightarrow> nat" where
  "soff base x = unat (x - base)"

abbreviation half :: nat where
  "half \<equiv> 2147483648"

abbreviation full :: nat where
  "full \<equiv> 4294967296"

lemma word_less_half: "(w :: u32) < 2 ^ 31 \<longleftrightarrow> unat w < half"
  by (simp add: word_less_nat_alt)

lemma word_less_half' [simp]: "(w :: u32) < 0x80000000 \<longleftrightarrow> unat w < half"
  by (simp add: word_less_nat_alt)

lemma unat_u32_lt [simp]: "unat (w :: u32) < full"
  using unsigned_less [of w] by simp

lemma soff_self [simp]: "soff b b = 0"
  by (simp add: soff_def)

lemma soff_lt [simp]: "soff b x < full"
  by (simp add: soff_def)

lemma soff_inject: "soff b x = soff b y \<longleftrightarrow> x = y"
  by (auto simp: soff_def dest: word_unat_eq_iff [THEN iffD2])

lemma soff_0_iff [simp]: "soff b x = 0 \<longleftrightarrow> x = b"
  using soff_inject [of b x b] by simp

lemma soff_plus: "soff b (b + w) = unat w"
  by (simp add: soff_def)

lemma soff_add: "soff b (x + w) = (soff b x + unat w) mod full"
proof -
  have e: "x + w - b = (x - b) + w" by simp
  show ?thesis
    unfolding soff_def e by (simp only: unat_word_ariths) simp
qed

lemma soff_add_no_wrap: "soff b x + unat w < full \<Longrightarrow> soff b (x + w) = soff b x + unat w"
  by (simp add: soff_add)

lemma soff_of_nat: "soff b x + n < full \<Longrightarrow> soff b (x + of_nat n) = soff b x + n"
proof -
  assume a: "soff b x + n < full"
  then have "unat (of_nat n :: u32) = n"
    by (simp add: unat_of_nat)
  with a show ?thesis by (simp add: soff_add)
qed

lemma soff_diff: "unat (y - x) =
  (if soff b x \<le> soff b y then soff b y - soff b x else soff b y + full - soff b x)"
proof -
  have e: "y - x = (y - b) - (x - b)" by simp
  show ?thesis
    unfolding soff_def e by (subst unat_sub_if') simp
qed

lemma soff_diff_le: "soff b x \<le> soff b y \<Longrightarrow> unat (y - x) = soff b y - soff b x"
  by (simp add: soff_diff [of y x b])

lemma add_soff: "b + of_nat (soff b x) = x"
  by (simp add: soff_def)

lemma soff_shift: "soff b c \<le> soff b x \<Longrightarrow> soff c x = soff b x - soff b c"
  using soff_diff [of x c b] by (simp add: soff_def)

section \<open>The order inside a half of the sequence space\<close>

text \<open>Two numbers are \<open>near\<close> each other (seen from a base) when their offsets differ by
  less than half of the space; all comparisons then agree with the offsets.\<close>

definition near :: "u32 \<Rightarrow> u32 \<Rightarrow> u32 \<Rightarrow> bool" where
  "near b x y \<longleftrightarrow> soff b x < soff b y + half \<and> soff b y < soff b x + half"

lemma nearI: "soff b x < half \<Longrightarrow> soff b y < half \<Longrightarrow> near b x y"
  by (simp add: near_def)

lemma seqLE_off: "near b x y \<Longrightarrow> seqLE x y \<longleftrightarrow> soff b x \<le> soff b y"
  unfolding seqLE_def near_def using soff_diff [of y x b] by (auto simp: word_less_half)

lemma seqGE_off: "near b x y \<Longrightarrow> seqGE x y \<longleftrightarrow> soff b y \<le> soff b x"
  unfolding seqGE_def near_def using soff_diff [of x y b] by (auto simp: word_less_half)

lemma seqLess_off: "near b x y \<Longrightarrow> seqLess x y \<longleftrightarrow> soff b x < soff b y"
  using seqLE_off [of b x y] soff_inject [of b x y]
  by (auto simp: seqLess_def seqLE_def)

lemma seqGreater_off: "near b x y \<Longrightarrow> seqGreater x y \<longleftrightarrow> soff b y < soff b x"
  using seqGE_off [of b x y] soff_inject [of b x y]
  by (auto simp: seqGreater_def seqGE_def)

lemmas seq_off = seqLE_off seqGE_off seqLess_off seqGreater_off

lemma seqLE_refl [simp]: "seqLE a a"
  by (simp add: seqLE_def)

lemma seqGE_refl [simp]: "seqGE a a"
  by (simp add: seqGE_def)

lemma seqLess_irrefl [simp]: "\<not> seqLess a a"
  by (simp add: seqLess_def)

lemma seqGreater_irrefl [simp]: "\<not> seqGreater a a"
  by (simp add: seqGreater_def)

lemma seqLE_unat: "seqLE x y \<longleftrightarrow> soff x y < half"
  by (simp add: seqLE_def soff_def word_less_half)

lemma seqLess_unat: "seqLess x y \<longleftrightarrow> 0 < soff x y \<and> soff x y < half"
  by (auto simp: seqLess_def soff_def word_less_half unat_0_iff intro!: Nat.gr0I)

lemma seqGE_LE: "seqGE x y = seqLE y x"
  by (simp add: seqGE_def seqLE_def)

lemma seqGreater_Less: "seqGreater x y = seqLess y x"
  by (auto simp: seqGreater_def seqLess_def)

lemma seqLess_add: "0 < n \<Longrightarrow> n < half \<Longrightarrow> seqLess x (x + of_nat n)"
  using soff_of_nat [of x x n] by (simp add: seqLess_unat)

lemma seqLE_add: "n < half \<Longrightarrow> seqLE x (x + of_nat n)"
  using soff_of_nat [of x x n] by (simp add: seqLE_unat)

text \<open>
  Exactly half a space apart, neither number is below, above or equal to the other:
  the comparisons are not total.
\<close>

lemma seq_antipodal:
  assumes "y = x + 2 ^ 31"
  shows "\<not> seqLE x y" "\<not> seqLE y x" "\<not> seqGE x y" "\<not> seqGreater y x"
proof -
  have 1: "y - x = 2 ^ 31" and 2: "x - y = 2 ^ 31"
    using assms by simp_all
  show "\<not> seqLE x y" "\<not> seqLE y x" "\<not> seqGE x y" "\<not> seqGreater y x"
    unfolding seqLE_def seqGE_def seqGreater_def 1 2 by simp_all
qed

lemma not_seqLE: "\<not> seqLE x y \<longleftrightarrow> seqGreater x y \<or> x = y + 2 ^ 31"
proof -
  let ?d = "y - x"
  have e: "x - y = - ?d" by simp
  have "\<not> ?d < 2 ^ 31 \<longleftrightarrow> (?d \<noteq> 0 \<and> - ?d < 2 ^ 31) \<or> ?d = 2 ^ 31"
  proof -
    have "unat (- ?d) = (if ?d = 0 then 0 else full - unat ?d)"
      using unat_sub_if' [of 0 "?d"] unat_u32_lt [of "?d"] by (auto simp: unat_0_iff)
    moreover have "?d = 2 ^ 31 \<longleftrightarrow> unat ?d = half"
      by (simp add: word_unat_eq_iff)
    ultimately show ?thesis
      by (auto simp: word_less_half unat_eq_0)
  qed
  moreover have "?d = 2 ^ 31 \<longleftrightarrow> x = y + 2 ^ 31"
  proof
    assume "?d = 2 ^ 31"
    then have "x = y - 2 ^ 31" by (simp add: algebra_simps)
    then show "x = y + 2 ^ 31" by simp
  qed simp
  ultimately show ?thesis
    unfolding seqLE_def seqGreater_def e by auto
qed

end
