(* ===== verification/TCP_Segment.thy ===== *)
theory TCP_Segment
  imports TCP_Seq
begin

text \<open>
  The data the TCP module exchanges: addresses (\<open>IPvXAddress\<close>), packets of the
  application (\<open>cPacket\<close>, of which TCP uses the length and the identity) and
  TCP segments (\<open>TCPSegment.msg\<close>, \<open>TCPSegment.cc\<close>).
\<close>

section \<open>Addresses\<close>

text \<open>
  \<open>IPvXAddress\<close> holds four 32-bit words and a flag; for an IPv4 address only
  the first word is ever set, so it is the only one the model keeps.  Two comparisons of
  the source look at words that are not set (an IPv6 address compared with an
  IPv4 one); the model takes such a comparison to fail.
\<close>

datatype IPvXAddress = IPv4 u32 | IPv6 u32 u32 u32 u32

fun addr_d0 :: "IPvXAddress \<Rightarrow> u32" where
  "addr_d0 (IPv4 a) = a"
| "addr_d0 (IPv6 a b c d) = a"

fun isIPv6 :: "IPvXAddress \<Rightarrow> bool" where
  "isIPv6 (IPv4 a) = False"
| "isIPv6 (IPv6 a b c d) = True"

fun isUnspecified :: "IPvXAddress \<Rightarrow> bool" where
  "isUnspecified (IPv4 a) \<longleftrightarrow> a = 0"
| "isUnspecified (IPv6 a b c d) = False"

text \<open>The default constructor, and the setter from an IPv6 address, which represents the
  null address as the IPv4 one.\<close>

definition unspecifiedAddr :: IPvXAddress where
  "unspecifiedAddr = IPv4 0"

definition setIPv6 :: "u32 \<Rightarrow> u32 \<Rightarrow> u32 \<Rightarrow> u32 \<Rightarrow> IPvXAddress" where
  "setIPv6 a b c d = (if a = 0 \<and> b = 0 \<and> c = 0 \<and> d = 0 then IPv4 0 else IPv6 a b c d)"

fun get4 :: "IPvXAddress \<Rightarrow> u32 res" where
  "get4 (IPv4 a) = Inr a"
| "get4 (IPv6 a b c d) = Inl (RuntimeError ''IPvXAddress: cannot return IPv6 address as IPv4'')"

fun get6 :: "IPvXAddress \<Rightarrow> (u32 \<times> u32 \<times> u32 \<times> u32) res" where
  "get6 (IPv4 a) =
     (if a = 0 then Inr (0, 0, 0, 0)
      else Inl (RuntimeError ''IPvXAddress: cannot return IPv4 address as IPv6''))"
| "get6 (IPv6 a b c d) = Inr (a, b, c, d)"

fun addr_equals :: "IPvXAddress \<Rightarrow> IPvXAddress \<Rightarrow> bool" where
  "addr_equals (IPv4 a) y \<longleftrightarrow> a = addr_d0 y"
| "addr_equals (IPv6 a b c d) (IPv6 a' b' c' d') \<longleftrightarrow> a = a' \<and> b = b' \<and> c = c' \<and> d = d'"
| "addr_equals (IPv6 a b c d) (IPv4 a') = False"

lemma addr_equals_refl [simp]: "addr_equals a a"
  by (cases a) simp_all

lemma addr_equals_same_family: "isIPv6 a = isIPv6 b \<Longrightarrow> addr_equals a b \<longleftrightarrow> a = b"
  by (cases a; cases b) auto

lemma unspecifiedAddr_iff: "isUnspecified a \<longleftrightarrow> a = unspecifiedAddr"
  by (cases a) (auto simp: unspecifiedAddr_def)

text \<open>
  The order of \<open>IPvXAddress\<close>: IPv4 before IPv6, IPv4 by value, IPv6 by \<open>memcmp\<close>, which
  compares the words byte by byte as they lie in memory (least significant byte first,
  as on the little-endian machines the simulator is built for).
\<close>

definition bswap32 :: "u32 \<Rightarrow> nat" where
  "bswap32 w = (let n = unat w in
     ((n mod 256 * 256 + n div 256 mod 256) * 256 + n div 65536 mod 256) * 256 + n div 16777216)"

lemma byte_step: "(x::nat) * 256 + e = x' * 256 + e' \<Longrightarrow> e < 256 \<Longrightarrow> e' < 256 \<Longrightarrow> x = x' \<and> e = e'"
proof -
  assume "x * 256 + e = x' * 256 + e'" "e < 256" "e' < 256"
  moreover have "(y * 256 + f) div 256 = y" "(y * 256 + f) mod 256 = f" if "f < 256" for y f :: nat
    using that by simp_all
  ultimately show ?thesis by metis
qed

lemma unat_bytes_eqI:
  fixes m n :: nat
  assumes "m mod 256 = n mod 256" "m div 256 mod 256 = n div 256 mod 256"
    and "m div 65536 mod 256 = n div 65536 mod 256" "m div 16777216 = n div 16777216"
  shows "m = n"
proof -
  have eqI: "k = l" if "k div 256 = l div 256" "k mod 256 = l mod 256" for k l :: nat
    using that div_mult_mod_eq [of k 256] div_mult_mod_eq [of l 256] by metis
  have dd: "k div 65536 div 256 = k div 16777216" "k div 256 div 256 = k div 65536" for k :: nat
    using div_mult2_eq [of k 65536 256] div_mult2_eq [of k 256 256] by simp_all
  have "m div 65536 = n div 65536"
    by (rule eqI) (simp_all only: dd assms(3,4))
  then have "m div 256 = n div 256"
    by - (rule eqI, simp_all only: dd assms(2))
  then show ?thesis
    using assms(1) by (rule eqI)
qed

lemma bswap32_inj: "bswap32 v = bswap32 w \<longleftrightarrow> v = w"
proof
  assume eq: "bswap32 v = bswap32 w"
  let ?m = "unat v" and ?n = "unat w"
  have lt: "unat x div 16777216 < 256" for x :: u32
    using unat_u32_lt [of x] by (simp add: less_mult_imp_div_less)
  note b1 = byte_step [OF eq [unfolded bswap32_def Let_def] lt lt]
  then have b2: "?m mod 256 * 256 + ?m div 256 mod 256 = ?n mod 256 * 256 + ?n div 256 mod 256 \<and>
      ?m div 65536 mod 256 = ?n div 65536 mod 256"
    by (intro byte_step) simp_all
  then have b3: "?m mod 256 = ?n mod 256 \<and> ?m div 256 mod 256 = ?n div 256 mod 256"
    by (intro byte_step) simp_all
  from b1 b2 b3 have "?m = ?n"
    using unat_bytes_eqI [of ?m ?n] by blast
  then show "v = w" by (rule word_unat_eq_iff [THEN iffD2])
qed simp

fun addr_less :: "IPvXAddress \<Rightarrow> IPvXAddress \<Rightarrow> bool" where
  "addr_less (IPv4 a) (IPv4 b) \<longleftrightarrow> a < b"
| "addr_less (IPv4 a) (IPv6 b0 b1 b2 b3) \<longleftrightarrow> True"
| "addr_less (IPv6 a0 a1 a2 a3) (IPv4 b) \<longleftrightarrow> False"
| "addr_less (IPv6 a0 a1 a2 a3) (IPv6 b0 b1 b2 b3) \<longleftrightarrow>
     bswap32 a0 < bswap32 b0 \<or> bswap32 a0 = bswap32 b0 \<and>
     (bswap32 a1 < bswap32 b1 \<or> bswap32 a1 = bswap32 b1 \<and>
      (bswap32 a2 < bswap32 b2 \<or> bswap32 a2 = bswap32 b2 \<and> bswap32 a3 < bswap32 b3))"

instantiation IPvXAddress :: linorder
begin

definition less_IPvXAddress :: "IPvXAddress \<Rightarrow> IPvXAddress \<Rightarrow> bool" where
  "less_IPvXAddress x y \<longleftrightarrow> addr_less x y"

definition less_eq_IPvXAddress :: "IPvXAddress \<Rightarrow> IPvXAddress \<Rightarrow> bool" where
  "less_eq_IPvXAddress x y \<longleftrightarrow> x < y \<or> x = y"

lemmas less_addr_simps [simp] = addr_less.simps [folded less_IPvXAddress_def]

instance
proof
  fix x y z :: IPvXAddress
  show "x < y \<longleftrightarrow> x \<le> y \<and> \<not> y \<le> x"
    by (cases x; cases y) (auto simp: less_eq_IPvXAddress_def bswap32_inj)
  show "x \<le> x" by (simp add: less_eq_IPvXAddress_def)
  show "x \<le> y \<Longrightarrow> y \<le> z \<Longrightarrow> x \<le> z"
    by (cases x; cases y; cases z) (auto simp: less_eq_IPvXAddress_def bswap32_inj)
  show "x \<le> y \<Longrightarrow> y \<le> x \<Longrightarrow> x = y"
    by (cases x; cases y) (auto simp: less_eq_IPvXAddress_def bswap32_inj)
  show "x \<le> y \<or> y \<le> x"
    using bswap32_inj by (cases x; cases y) (auto simp: less_eq_IPvXAddress_def not_less_iff_gr_or_eq)
qed

end

section \<open>Packets and segments\<close>

record cPacket =
  pkName :: string
  byteLength :: nat

record TCPPayloadMessage =
  endSequenceNo :: u32
  payloadMsg :: cPacket

record TCPSegment =
  srcPort :: int
  destPort :: int
  sequenceNo :: u32
  ackNo :: u32
  urgBit :: bool
  ackBit :: bool
  pshBit :: bool
  rstBit :: bool
  synBit :: bool
  finBit :: bool
  seg_window :: u64
  urgentPointer :: u64
  payloadLength :: int
  payloadList :: "TCPPayloadMessage list"

definition createTCPSegment :: TCPSegment where
  "createTCPSegment = \<lparr>srcPort = 0, destPort = 0, sequenceNo = 0, ackNo = 0, urgBit = False,
     ackBit = False, pshBit = False, rstBit = False, synBit = False, finBit = False,
     seg_window = 0, urgentPointer = 0, payloadLength = 0, payloadList = []\<rparr>"

text \<open>The number after the last octet of a segment: unsigned addition of the length.\<close>

definition seg_end :: "TCPSegment \<Rightarrow> u32" where
  "seg_end s = sequenceNo s + word_of_int (payloadLength s)"

definition getPayloadArraySize :: "TCPSegment \<Rightarrow> nat" where
  "getPayloadArraySize s = length (payloadList s)"

text \<open>\<open>getPayload\<close> dereferences the end iterator when the index is out of range.\<close>

definition getPayload :: "TCPSegment \<Rightarrow> nat \<Rightarrow> TCPPayloadMessage res" where
  "getPayload s k = (if k < length (payloadList s) then Inr (payloadList s ! k) else Inl NullPointer)"

definition setPayloadArraySize :: "TCPSegment \<Rightarrow> nat \<Rightarrow> TCPSegment res" where
  "setPayloadArraySize s n = Inl (RuntimeError ''setPayloadArraySize() not supported'')"

definition setPayload :: "TCPSegment \<Rightarrow> nat \<Rightarrow> TCPPayloadMessage \<Rightarrow> TCPSegment res" where
  "setPayload s k p = Inl (RuntimeError ''setPayload() not supported'')"

definition addPayloadMessage :: "cPacket \<Rightarrow> u32 \<Rightarrow> TCPSegment \<Rightarrow> TCPSegment" where
  "addPayloadMessage m e s =
     s\<lparr>payloadList := payloadList s @ [\<lparr>endSequenceNo = e, payloadMsg = m\<rparr>]\<rparr>"

definition removeFirstPayloadMessage :: "TCPSegment \<Rightarrow> (TCPPayloadMessage \<times> TCPSegment) option" where
  "removeFirstPayloadMessage s =
     (case payloadList s of [] \<Rightarrow> None | p # ps \<Rightarrow> Some (p, s\<lparr>payloadList := ps\<rparr>))"

text \<open>\<open>operator=\<close>: the base fields are assigned, then the payload messages of the other
  segment are appended one by one.\<close>

definition assignSegment :: "TCPSegment \<Rightarrow> TCPSegment \<Rightarrow> TCPSegment" where
  "assignSegment this other =
     fold (\<lambda>p s. addPayloadMessage (payloadMsg p) (endSequenceNo p) s) (payloadList other)
       (other\<lparr>payloadList := payloadList this\<rparr>)"

definition dupSegment :: "TCPSegment \<Rightarrow> TCPSegment" where
  "dupSegment s = assignSegment createTCPSegment s"

lemma fold_addPayloadMessage:
  "fold (\<lambda>p s. addPayloadMessage (payloadMsg p) (endSequenceNo p) s) ps s =
     s\<lparr>payloadList := payloadList s @ ps\<rparr>"
  by (induction ps arbitrary: s) (simp_all add: addPayloadMessage_def)

text \<open>A copied segment is equal to the original, payload included.\<close>

lemma dupSegment_eq: "dupSegment s = s"
  by (simp add: dupSegment_def assignSegment_def fold_addPayloadMessage createTCPSegment_def)

text \<open>Messages leave a segment in the order in which they were added.\<close>

lemma removeFirst_add:
  "removeFirstPayloadMessage (addPayloadMessage m e s) =
     (case payloadList s of
        [] \<Rightarrow> Some (\<lparr>endSequenceNo = e, payloadMsg = m\<rparr>, s)
      | p # ps \<Rightarrow> Some (p, addPayloadMessage m e (s\<lparr>payloadList := ps\<rparr>)))"
  by (simp add: removeFirstPayloadMessage_def addPayloadMessage_def split: list.split)

end
