(* ===== verification/TCP_SendQueue.thy ===== *)
theory TCP_SendQueue
  imports TCP_Segment
begin

text \<open>
  The send queues: the interface \<open>TCPSendQueue\<close>, and its two implementations,
  \<open>TCPVirtualDataSendQueue\<close> (byte counts only) and \<open>TCPMsgBasedSendQueue\<close> (message
  objects mapped to ranges of sequence numbers).  The locale \<open>send_queue\<close> states what
  \<open>TCPConnection\<close> relies on; both implementations are shown to satisfy it.  For the message
  based queue the messages are related to the stream of octets: every segment carries exactly the messages that end in it.
\<close>

section \<open>TCPVirtualDataSendQueue\<close>

record VirtualSQ =
  sq_begin :: u32
  sq_end :: u32

definition vsq_new :: VirtualSQ where
  "vsq_new = \<lparr>sq_begin = 0, sq_end = 0\<rparr>"

definition vsq_init :: "u32 \<Rightarrow> VirtualSQ \<Rightarrow> VirtualSQ" where
  "vsq_init startSeq q = q\<lparr>sq_begin := startSeq, sq_end := startSeq\<rparr>"

definition vsq_enqueueAppData :: "cPacket \<Rightarrow> VirtualSQ \<Rightarrow> VirtualSQ" where
  "vsq_enqueueAppData m q = q\<lparr>sq_end := sq_end q + of_nat (byteLength m)\<rparr>"

definition vsq_getBufferEndSeq :: "VirtualSQ \<Rightarrow> u32" where
  "vsq_getBufferEndSeq q = sq_end q"

definition vsq_createSegmentWithBytes :: "u32 \<Rightarrow> int \<Rightarrow> VirtualSQ \<Rightarrow> TCPSegment res" where
  "vsq_createSegmentWithBytes fromSeq numBytes q =
     (if seqLE (sq_begin q) fromSeq \<and> seqLE (fromSeq + word_of_int numBytes) (sq_end q)
      then Inr (createTCPSegment\<lparr>sequenceNo := fromSeq, payloadLength := c_int numBytes\<rparr>)
      else Inl (AssertFailed ''createSegmentWithBytes''))"

definition vsq_discardUpTo :: "u32 \<Rightarrow> VirtualSQ \<Rightarrow> VirtualSQ res" where
  "vsq_discardUpTo seqNum q =
     (if seqLE (sq_begin q) seqNum \<and> seqLE seqNum (sq_end q)
      then Inr (q\<lparr>sq_begin := seqNum\<rparr>)
      else Inl (AssertFailed ''discardUpTo''))"

section \<open>TCPMsgBasedSendQueue\<close>

record MsgSQ =
  mq_begin :: u32
  mq_end :: u32
  payloadQueue :: "TCPPayloadMessage list"

definition msq_new :: MsgSQ where
  "msq_new = \<lparr>mq_begin = 0, mq_end = 0, payloadQueue = []\<rparr>"

definition msq_init :: "u32 \<Rightarrow> MsgSQ \<Rightarrow> MsgSQ" where
  "msq_init startSeq q = q\<lparr>mq_begin := startSeq, mq_end := startSeq\<rparr>"

definition msq_enqueueAppData :: "cPacket \<Rightarrow> MsgSQ \<Rightarrow> MsgSQ" where
  "msq_enqueueAppData m q =
     (let e = mq_end q + of_nat (byteLength m)
      in q\<lparr>mq_end := e, payloadQueue := payloadQueue q @ [\<lparr>endSequenceNo = e, payloadMsg = m\<rparr>]\<rparr>)"

definition msq_getBufferEndSeq :: "MsgSQ \<Rightarrow> u32" where
  "msq_getBufferEndSeq q = mq_end q"

text \<open>The two loops over the payload queue: skip what ends at or before \<open>fromSeq\<close>, then add
  what ends at or before \<open>toSeq\<close>.\<close>

fun skip_payload :: "u32 \<Rightarrow> TCPPayloadMessage list \<Rightarrow> TCPPayloadMessage list" where
  "skip_payload fromSeq [] = []"
| "skip_payload fromSeq (p # ps) =
     (if seqLE (endSequenceNo p) fromSeq then skip_payload fromSeq ps else p # ps)"

fun add_payload :: "u32 \<Rightarrow> TCPPayloadMessage list \<Rightarrow> TCPSegment \<Rightarrow> TCPSegment" where
  "add_payload toSeq [] s = s"
| "add_payload toSeq (p # ps) s =
     (if seqLE (endSequenceNo p) toSeq
      then add_payload toSeq ps (addPayloadMessage (payloadMsg p) (endSequenceNo p) s)
      else s)"

definition msq_createSegmentWithBytes :: "u32 \<Rightarrow> int \<Rightarrow> MsgSQ \<Rightarrow> TCPSegment res" where
  "msq_createSegmentWithBytes fromSeq numBytes q =
     (if seqLE (mq_begin q) fromSeq \<and> seqLE (fromSeq + word_of_int numBytes) (mq_end q)
      then let toSeq = fromSeq + word_of_int numBytes;
               s = createTCPSegment\<lparr>sequenceNo := fromSeq, payloadLength := c_int numBytes\<rparr>
           in Inr (add_payload toSeq (skip_payload fromSeq (payloadQueue q)) s)
      else Inl (AssertFailed ''createSegmentWithBytes''))"

definition msq_discardUpTo :: "u32 \<Rightarrow> MsgSQ \<Rightarrow> MsgSQ res" where
  "msq_discardUpTo seqNum q =
     (if seqLE (mq_begin q) seqNum \<and> seqLE seqNum (mq_end q)
      then Inr (q\<lparr>mq_begin := seqNum, payloadQueue := skip_payload seqNum (payloadQueue q)\<rparr>)
      else Inl (AssertFailed ''discardUpTo''))"

section \<open>The interface\<close>

text \<open>\<open>getBytesAvailable\<close> is not virtual: it is computed from \<open>getBufferEndSeq\<close>.\<close>

definition bytesAvailable :: "u32 \<Rightarrow> u32 \<Rightarrow> nat" where
  "bytesAvailable bufEndSeq fromSeq =
     (if seqLess fromSeq bufEndSeq then unat (bufEndSeq - fromSeq) else 0)"

text \<open>
  What \<open>TCPConnection\<close> relies on.  \<open>qbegin q\<close> is the first buffered number, \<open>qend q\<close> the one
  after the last; \<open>invar\<close> holds while the buffer is shorter than half of the sequence space.
\<close>

locale send_queue =
  fixes init :: "u32 \<Rightarrow> 'q \<Rightarrow> 'q"
    and enqueue :: "cPacket \<Rightarrow> 'q \<Rightarrow> 'q"
    and bufEnd :: "'q \<Rightarrow> u32"
    and createSeg :: "u32 \<Rightarrow> int \<Rightarrow> 'q \<Rightarrow> TCPSegment res"
    and discard :: "u32 \<Rightarrow> 'q \<Rightarrow> 'q res"
    and qbegin :: "'q \<Rightarrow> u32"
    and invar :: "'q \<Rightarrow> bool"
  assumes invar_len: "invar q \<Longrightarrow> soff (qbegin q) (bufEnd q) < half"
    and init_begin: "qbegin (init s q) = s"
    and init_end: "bufEnd (init s q) = s"
    and enqueue_begin: "qbegin (enqueue m q) = qbegin q"
    and enqueue_end: "bufEnd (enqueue m q) = bufEnd q + of_nat (byteLength m)"
    and enqueue_invar: "invar q \<Longrightarrow> soff (qbegin q) (bufEnd q) + byteLength m < half \<Longrightarrow>
      invar (enqueue m q)"
    and createSeg_ok: "seqLE (qbegin q) f \<Longrightarrow> seqLE (f + word_of_int n) (bufEnd q) \<Longrightarrow>
      \<exists>s. createSeg f n q = Inr s \<and> sequenceNo s = f \<and> payloadLength s = c_int n \<and>
          \<not> synBit s \<and> \<not> finBit s \<and> \<not> rstBit s"
    and createSeg_assert: "\<not> (seqLE (qbegin q) f \<and> seqLE (f + word_of_int n) (bufEnd q)) \<Longrightarrow>
      createSeg f n q = Inl (AssertFailed ''createSegmentWithBytes'')"
    and discard_ok: "invar q \<Longrightarrow> seqLE (qbegin q) u \<Longrightarrow> seqLE u (bufEnd q) \<Longrightarrow>
      \<exists>q'. discard u q = Inr q' \<and> qbegin q' = u \<and> bufEnd q' = bufEnd q \<and> invar q'"
    and discard_assert: "\<not> (seqLE (qbegin q) u \<and> seqLE u (bufEnd q)) \<Longrightarrow>
      discard u q = Inl (AssertFailed ''discardUpTo'')"
begin

text \<open>The available bytes are those between the requested number and the end.\<close>

lemma available_eq:
  assumes "invar q" "soff (qbegin q) f \<le> soff (qbegin q) (bufEnd q)"
  shows "bytesAvailable (bufEnd q) f = soff (qbegin q) (bufEnd q) - soff (qbegin q) f"
proof -
  have n: "near (qbegin q) f (bufEnd q)"
    using invar_len [OF assms(1)] assms(2) by (intro nearI) auto
  show ?thesis
    using assms(2) soff_diff_le [OF assms(2)]
    by (simp add: bytesAvailable_def seqLess_off [OF n])
qed

text \<open>Every request for at most the available bytes is served.\<close>

lemma createSeg_available:
  assumes "invar q" "soff (qbegin q) f \<le> soff (qbegin q) (bufEnd q)"
    and "n \<le> bytesAvailable (bufEnd q) f"
  shows "\<exists>s. createSeg f (int n) q = Inr s \<and> sequenceNo s = f \<and> payloadLength s = int n \<and>
    \<not> synBit s \<and> \<not> finBit s \<and> \<not> rstBit s"
proof -
  let ?b = "qbegin q" and ?e = "bufEnd q"
  have le: "soff ?b f + n \<le> soff ?b ?e" and lt: "soff ?b ?e < half"
    using assms available_eq [OF assms(1,2)] invar_len by auto
  have fn: "soff ?b (f + word_of_int (int n)) = soff ?b f + n"
    using soff_of_nat [of ?b f n] le lt by simp
  have "seqLE ?b f"
    using le lt by (simp add: seqLE_unat)
  moreover have "seqLE (f + word_of_int (int n)) ?e"
    using fn le lt by (subst seqLE_off [of ?b]) (auto intro: nearI)
  moreover have "c_int (int n) = int n"
    using le lt by simp
  ultimately show ?thesis
    using createSeg_ok [of q f "int n"] by auto
qed

text \<open>Enqueued bytes become available.\<close>

lemma enqueue_available:
  assumes "invar q" "soff (qbegin q) (bufEnd q) + byteLength m < half"
    and "soff (qbegin q) f \<le> soff (qbegin q) (bufEnd q)"
  shows "bytesAvailable (bufEnd (enqueue m q)) f = bytesAvailable (bufEnd q) f + byteLength m"
proof -
  let ?b = "qbegin q"
  have e: "soff ?b (bufEnd (enqueue m q)) = soff ?b (bufEnd q) + byteLength m"
    using assms(2) by (simp add: enqueue_end soff_of_nat)
  have i: "invar (enqueue m q)"
    using enqueue_invar assms by blast
  have le: "soff (qbegin (enqueue m q)) f \<le> soff (qbegin (enqueue m q)) (bufEnd (enqueue m q))"
    using assms(3) e by (simp add: enqueue_begin)
  show ?thesis
    using available_eq [OF i le] available_eq [OF assms(1,3)] assms(3) e
    by (simp add: enqueue_begin)
qed

end

section \<open>The virtual data queue implements the interface\<close>

definition vsq_invar :: "VirtualSQ \<Rightarrow> bool" where
  "vsq_invar q \<longleftrightarrow> soff (sq_begin q) (sq_end q) < half"

lemmas vsq_defs = vsq_init_def vsq_enqueueAppData_def vsq_getBufferEndSeq_def
  vsq_createSegmentWithBytes_def vsq_discardUpTo_def vsq_invar_def

lemma discard_len:
  assumes "soff b e < half" "seqLE b n" "seqLE n e"
  shows "soff b n \<le> soff b e" "soff n e < half" "soff n e \<le> soff b e"
proof -
  have nb: "near b n e"
    using assms by (intro nearI) (auto simp: seqLE_unat)
  show le: "soff b n \<le> soff b e"
    using assms(3) seqLE_off [OF nb] by simp
  show "soff n e \<le> soff b e" "soff n e < half"
    using soff_shift [OF le] assms(1) by simp_all
qed

interpretation vsq: send_queue vsq_init vsq_enqueueAppData vsq_getBufferEndSeq
  vsq_createSegmentWithBytes vsq_discardUpTo sq_begin vsq_invar
  by unfold_locales (auto simp: vsq_defs createTCPSegment_def soff_of_nat discard_len)

section \<open>The message based queue\<close>

text \<open>
  The payload records end at non-decreasing offsets from the begin of the queue, none
  beyond its end.
\<close>

definition pl_off :: "u32 \<Rightarrow> TCPPayloadMessage \<Rightarrow> nat" where
  "pl_off b p = soff b (endSequenceNo p)"

definition msq_invar :: "MsgSQ \<Rightarrow> bool" where
  "msq_invar q \<longleftrightarrow> soff (mq_begin q) (mq_end q) < half \<and>
     sorted (map (pl_off (mq_begin q)) (payloadQueue q)) \<and>
     (\<forall>p \<in> set (payloadQueue q). pl_off (mq_begin q) p \<le> soff (mq_begin q) (mq_end q))"

lemmas msq_defs = msq_init_def msq_enqueueAppData_def msq_getBufferEndSeq_def
  msq_createSegmentWithBytes_def msq_discardUpTo_def

lemma skip_payload_set: "set (skip_payload f ps) \<subseteq> set ps"
  by (induction ps) auto

lemma skip_payload_filter:
  assumes "sorted (map (pl_off b) ps)" "\<forall>p \<in> set ps. pl_off b p < half" "soff b f < half"
  shows "skip_payload f ps = filter (\<lambda>p. soff b f < pl_off b p) ps"
  using assms
proof (induction ps)
  case Nil
  then show ?case by simp
next
  case (Cons p ps)
  have n: "near b (endSequenceNo p) f"
    using Cons.prems by (intro nearI) (auto simp: pl_off_def)
  have c: "seqLE (endSequenceNo p) f \<longleftrightarrow> pl_off b p \<le> soff b f"
    using seqLE_off [OF n] by (simp add: pl_off_def)
  show ?case
  proof (cases "pl_off b p \<le> soff b f")
    case True
    then show ?thesis using c Cons by simp
  next
    case False
    then have "\<forall>q \<in> set ps. soff b f < pl_off b q"
      using Cons.prems(1) by fastforce
    then show ?thesis using c False by simp
  qed
qed

lemma add_payload_filter:
  assumes "sorted (map (pl_off b) ps)" "\<forall>p \<in> set ps. pl_off b p < half" "soff b t < half"
  shows "add_payload t ps s =
    s\<lparr>payloadList := payloadList s @ filter (\<lambda>p. pl_off b p \<le> soff b t) ps\<rparr>"
  using assms
proof (induction ps arbitrary: s)
  case Nil
  then show ?case by simp
next
  case (Cons p ps)
  have n: "near b (endSequenceNo p) t"
    using Cons.prems by (intro nearI) (auto simp: pl_off_def)
  have c: "seqLE (endSequenceNo p) t \<longleftrightarrow> pl_off b p \<le> soff b t"
    using seqLE_off [OF n] by (simp add: pl_off_def)
  show ?case
  proof (cases "pl_off b p \<le> soff b t")
    case True
    then show ?thesis using c Cons by (simp add: addPayloadMessage_def)
  next
    case False
    then have "filter (\<lambda>q. pl_off b q \<le> soff b t) ps = []"
      using Cons.prems(1) by (fastforce simp: filter_empty_conv)
    then show ?thesis using c False by simp
  qed
qed

lemma filter_range_split:
  assumes "sorted (map g ps)" "(x :: nat) \<le> y" "y \<le> z"
  shows "filter (\<lambda>p. x < g p \<and> g p \<le> z) ps =
    filter (\<lambda>p. x < g p \<and> g p \<le> y) ps @ filter (\<lambda>p. y < g p \<and> g p \<le> z) ps"
  using assms
proof (induction ps)
  case (Cons p ps)
  show ?case
  proof (cases "y < g p")
    case True
    then have "\<forall>q \<in> set ps. y < g q"
      using Cons.prems(1) by fastforce
    then have "filter (\<lambda>p. x < g p \<and> g p \<le> y) ps = []"
      by (fastforce simp: filter_empty_conv)
    then show ?thesis using True Cons by simp
  next
    case False
    then show ?thesis using Cons by simp
  qed
qed simp

text \<open>The segment holds exactly the messages whose last octet it carries.\<close>

lemma msq_createSegment_payload:
  assumes inv: "msq_invar q" and f: "seqLE (mq_begin q) f"
    and t: "seqLE (f + word_of_int n) (mq_end q)"
    and ft: "soff (mq_begin q) f \<le> soff (mq_begin q) (f + word_of_int n)"
    and tl: "soff (mq_begin q) (f + word_of_int n) < half"
  shows "msq_createSegmentWithBytes f n q =
    Inr (createTCPSegment\<lparr>sequenceNo := f, payloadLength := c_int n,
      payloadList := filter (\<lambda>p. soff (mq_begin q) f < pl_off (mq_begin q) p \<and>
        pl_off (mq_begin q) p \<le> soff (mq_begin q) (f + word_of_int n)) (payloadQueue q)\<rparr>)"
proof -
  let ?b = "mq_begin q" and ?ps = "payloadQueue q"
  have s: "sorted (map (pl_off ?b) ?ps)" and h: "\<forall>p \<in> set ?ps. pl_off ?b p < half"
    using inv by (auto simp: msq_invar_def)
  have fh: "soff ?b f < half" using ft tl by linarith
  have sk: "skip_payload f ?ps = filter (\<lambda>p. soff ?b f < pl_off ?b p) ?ps"
    by (rule skip_payload_filter [OF s h fh])
  have s': "sorted (map (pl_off ?b) (filter (\<lambda>p. soff ?b f < pl_off ?b p) ?ps))"
    using s by (rule sorted_filter)
  have h': "\<forall>p \<in> set (filter (\<lambda>p. soff ?b f < pl_off ?b p) ?ps). pl_off ?b p < half"
    using h by auto
  show ?thesis
    using f t
    by (simp add: msq_createSegmentWithBytes_def Let_def sk add_payload_filter [OF s' h' tl]
        createTCPSegment_def conj_commute)
qed

lemma pl_off_shift: "soff b n \<le> pl_off b p \<Longrightarrow> pl_off n p = pl_off b p - soff b n"
  unfolding pl_off_def by (rule soff_shift)

lemma sorted_map_minus: "sorted (xs :: nat list) \<Longrightarrow> sorted (map (\<lambda>x. x - k) xs)"
  by (induction xs) (auto intro: diff_le_mono)

lemma msq_discard_invar:
  assumes inv: "msq_invar q" and n: "seqLE (mq_begin q) n" "seqLE n (mq_end q)"
  shows "msq_invar (q\<lparr>mq_begin := n, payloadQueue := skip_payload n (payloadQueue q)\<rparr>)"
proof -
  let ?b = "mq_begin q" and ?e = "mq_end q" and ?ps = "payloadQueue q"
  have len: "soff ?b ?e < half" and s: "sorted (map (pl_off ?b) ?ps)"
    and h: "\<forall>p \<in> set ?ps. pl_off ?b p \<le> soff ?b ?e"
    using inv by (auto simp: msq_invar_def)
  note d = discard_len [OF len n]
  have sk: "skip_payload n ?ps = filter (\<lambda>p. soff ?b n < pl_off ?b p) ?ps"
    using h len d by (intro skip_payload_filter [OF s]) fastforce+
  let ?qs = "filter (\<lambda>p. soff ?b n < pl_off ?b p) ?ps"
  have sh: "\<forall>p \<in> set ?qs. pl_off n p = pl_off ?b p - soff ?b n"
    by (auto intro: pl_off_shift)
  then have "map (pl_off n) ?qs = map (\<lambda>o1. o1 - soff ?b n) (map (pl_off ?b) ?qs)"
    by simp
  moreover have "sorted (map (pl_off ?b) ?qs)"
    using s by (rule sorted_filter)
  ultimately have "sorted (map (pl_off n) ?qs)"
    by (metis sorted_map_minus)
  moreover have "\<forall>p \<in> set ?qs. pl_off n p \<le> soff n ?e"
    using sh h d soff_shift [OF d(1)] by (auto simp: diff_le_mono)
  ultimately show ?thesis
    using d by (simp add: msq_invar_def sk)
qed

lemma msq_enqueue_invar:
  assumes "msq_invar q" "soff (mq_begin q) (mq_end q) + byteLength m < half"
  shows "msq_invar (msq_enqueueAppData m q)"
proof -
  have "soff (mq_begin q) (mq_end q + of_nat (byteLength m)) =
      soff (mq_begin q) (mq_end q) + byteLength m"
    using assms(2) by (simp add: soff_of_nat)
  then show ?thesis
    using assms by (force simp: msq_invar_def msq_enqueueAppData_def Let_def sorted_append pl_off_def)
qed

lemma add_payload_keeps:
  "sequenceNo (add_payload t ps s) = sequenceNo s"
  "payloadLength (add_payload t ps s) = payloadLength s"
  "synBit (add_payload t ps s) = synBit s" "finBit (add_payload t ps s) = finBit s"
  "rstBit (add_payload t ps s) = rstBit s" "ackBit (add_payload t ps s) = ackBit s"
  by (induction ps arbitrary: s) (simp_all add: addPayloadMessage_def)

interpretation msq: send_queue msq_init msq_enqueueAppData msq_getBufferEndSeq
  msq_createSegmentWithBytes msq_discardUpTo mq_begin msq_invar
proof unfold_locales
  fix q :: MsgSQ and m :: cPacket and n :: u32
  show "msq_invar q \<Longrightarrow> soff (mq_begin q) (msq_getBufferEndSeq q) < half"
    by (simp add: msq_invar_def msq_getBufferEndSeq_def)
  show "msq_invar q \<Longrightarrow> soff (mq_begin q) (msq_getBufferEndSeq q) + byteLength m < half \<Longrightarrow>
      msq_invar (msq_enqueueAppData m q)"
    by (simp add: msq_enqueue_invar msq_getBufferEndSeq_def)
  show "msq_invar q \<Longrightarrow> seqLE (mq_begin q) n \<Longrightarrow> seqLE n (msq_getBufferEndSeq q) \<Longrightarrow>
      \<exists>q'. msq_discardUpTo n q = Inr q' \<and> mq_begin q' = n \<and>
        msq_getBufferEndSeq q' = msq_getBufferEndSeq q \<and> msq_invar q'"
    by (simp add: msq_defs msq_discard_invar)
qed (auto simp: msq_defs Let_def add_payload_keeps createTCPSegment_def)

definition res_map :: "('a \<Rightarrow> 'b) \<Rightarrow> 'a res \<Rightarrow> 'b res" where
  "res_map f m = (case m of Inl e \<Rightarrow> Inl e | Inr x \<Rightarrow> Inr (f x))"

lemma res_map_simps [simp]: "res_map f (Inl e) = Inl e" "res_map f (Inr x) = Inr (f x)"
  by (simp_all add: res_map_def)

section \<open>Messages and the stream\<close>

text \<open>
  The octets that the application has written are a stream, and every message ends at a position in it.  The
  specification knows only the messages and their lengths: sequence numbers, the window of the queue and
  the loops over it do not occur in it.
\<close>

fun message_ends :: "nat \<Rightarrow> cPacket list \<Rightarrow> (nat \<times> cPacket) list" where
  "message_ends p [] = []"
| "message_ends p (m # ms) = (p + byteLength m, m) # message_ends (p + byteLength m) ms"

definition stream_length :: "cPacket list \<Rightarrow> nat" where
  "stream_length ms = sum_list (map byteLength ms)"

definition ending_in :: "nat \<Rightarrow> nat \<Rightarrow> cPacket list \<Rightarrow> (nat \<times> cPacket) list" where
  "ending_in x y ms = filter (\<lambda>(e, m). x < e \<and> e \<le> y) (message_ends 0 ms)"

definition numbered :: "u32 \<Rightarrow> nat \<times> cPacket \<Rightarrow> TCPPayloadMessage" where
  "numbered s = (\<lambda>(e, m). \<lparr>endSequenceNo = s + of_nat e, payloadMsg = m\<rparr>)"

text \<open>
  The states of a queue with start number \<open>s\<close> after the messages \<open>ms\<close> have been written and \<open>a\<close> octets
  acknowledged.  Less than half of the sequence space is buffered at a time; the stream may be longer.
\<close>

inductive msq_reach :: "u32 \<Rightarrow> cPacket list \<Rightarrow> nat \<Rightarrow> MsgSQ \<Rightarrow> bool" for s where
  start: "msq_reach s [] 0 (msq_init s msq_new)"
| enqueue: "msq_reach s ms a q \<Longrightarrow> stream_length ms - a + byteLength m < half \<Longrightarrow> msq_reach s (ms @ [m]) a (msq_enqueueAppData m q)"
| discard: "msq_reach s ms a q \<Longrightarrow> msq_discardUpTo n q = Inr q' \<Longrightarrow> msq_reach s ms (a + soff (mq_begin q) n) q'"

lemma message_ends_append: "message_ends p (ms @ [m]) = message_ends p ms @ [(p + stream_length ms + byteLength m, m)]"
  by (induction ms arbitrary: p) (simp_all add: stream_length_def)

lemma message_ends_le: "(e, m) \<in> set (message_ends p ms) \<Longrightarrow> e \<le> p + stream_length ms"
  by (induction ms arbitrary: p) (fastforce simp: stream_length_def)+

lemma message_ends_sorted: "sorted (map fst (message_ends p ms)) \<and> (\<forall>e \<in> set (map fst (message_ends p ms)). p \<le> e)"
  by (induction ms arbitrary: p) (auto intro: order_trans [OF le_add1])

lemma dropWhile_sorted: "sorted (map f xs) \<Longrightarrow> dropWhile (\<lambda>x. f x \<le> (k :: nat)) xs = filter (\<lambda>x. k < f x) xs"
proof (induction xs)
  case (Cons x xs)
  show ?case
  proof (cases "f x \<le> k")
    case False
    then have "\<forall>y \<in> set xs. k < f y" using Cons.prems by fastforce
    then show ?thesis using False by (simp add: filter_id_conv)
  qed (use Cons in simp)
qed simp

text \<open>What the queue holds: the records of the messages that are not acknowledged completely.\<close>

definition msq_holds :: "u32 \<Rightarrow> cPacket list \<Rightarrow> nat \<Rightarrow> MsgSQ \<Rightarrow> bool" where
  "msq_holds s ms a q \<longleftrightarrow> msq_invar q \<and> a \<le> stream_length ms \<and> mq_begin q = s + of_nat a \<and> mq_end q = s + of_nat (stream_length ms) \<and>
     stream_length ms - a < half \<and>
     (\<exists>ds ps. message_ends 0 ms = ds @ ps \<and> payloadQueue q = map (numbered s) ps \<and> (\<forall>p \<in> set ds. fst p \<le> a) \<and> (\<forall>p \<in> set ps. a \<le> fst p))"

lemma stream_soff: "a \<le> y \<Longrightarrow> y - a < half \<Longrightarrow> soff (s + of_nat a) (s + of_nat y) = y - a"
  using soff_of_nat [of "s + of_nat a" "s + of_nat a" "y - a"] by (simp add: of_nat_diff)

lemma numbered_off: "a \<le> fst p \<Longrightarrow> fst p - a < half \<Longrightarrow> pl_off (s + of_nat a) (numbered s p) = fst p - a"
  by (cases p) (simp add: pl_off_def numbered_def stream_soff)

lemma msq_holds_enqueue:
  assumes h: "msq_holds s ms a q" and m: "stream_length ms - a + byteLength m < half"
  shows "msq_holds s (ms @ [m]) a (msq_enqueueAppData m q)"
proof -
  obtain ds ps where p: "message_ends 0 ms = ds @ ps" "payloadQueue q = map (numbered s) ps" "\<forall>p \<in> set ds. fst p \<le> a" "\<forall>p \<in> set ps. a \<le> fst p"
    and a: "a \<le> stream_length ms" "mq_begin q = s + of_nat a" "mq_end q = s + of_nat (stream_length ms)" "msq_invar q"
    using h by (auto simp: msq_holds_def)
  have "soff (mq_begin q) (mq_end q) = stream_length ms - a" using a m by (simp add: stream_soff)
  then have "msq_invar (msq_enqueueAppData m q)" using msq_enqueue_invar [OF a(4)] m by simp
  moreover have "message_ends 0 (ms @ [m]) = ds @ (ps @ [(stream_length ms + byteLength m, m)])"
    using p(1) by (simp add: message_ends_append)
  ultimately show ?thesis
    using a m p by (simp add: msq_holds_def msq_enqueueAppData_def Let_def numbered_def stream_length_def add.assoc) fastforce
qed

lemma msq_holds_discard:
  assumes h: "msq_holds s ms a q" and d: "msq_discardUpTo n q = Inr q'"
  shows "msq_holds s ms (a + soff (mq_begin q) n) q'"
proof -
  let ?k = "soff (mq_begin q) n"
  obtain ds ps where p: "message_ends 0 ms = ds @ ps" "payloadQueue q = map (numbered s) ps" "\<forall>p \<in> set ds. fst p \<le> a" "\<forall>p \<in> set ps. a \<le> fst p"
    and a: "a \<le> stream_length ms" "mq_begin q = s + of_nat a" "mq_end q = s + of_nat (stream_length ms)" "msq_invar q" "stream_length ms - a < half"
    using h by (auto simp: msq_holds_def)
  have n: "seqLE (mq_begin q) n" "seqLE n (mq_end q)" and q': "q' = q\<lparr>mq_begin := n, payloadQueue := skip_payload n (payloadQueue q)\<rparr>"
    using d by (auto simp: msq_discardUpTo_def split: if_splits)
  have len: "soff (mq_begin q) (mq_end q) = stream_length ms - a" using a by (simp add: stream_soff)
  have k: "?k \<le> stream_length ms - a" using discard_len(1) [OF _ n] len a(5) by simp
  have nb: "n = s + of_nat (a + ?k)" using a(2) by (simp add: soff_def add.assoc)
  have off: "pl_off (mq_begin q) (numbered s p) = fst p - a" if "p \<in> set ps" for p
    using numbered_off [of a p s] p(1,4) a(2,5) message_ends_le [of "fst p" "snd p" 0 ms] that by (fastforce simp: a(2))
  have srt: "sorted (map (pl_off (mq_begin q)) (payloadQueue q))" and lim: "\<forall>p \<in> set (payloadQueue q). pl_off (mq_begin q) p < half"
    using a(4,5) len by (auto simp: msq_invar_def)
  have "skip_payload n (payloadQueue q) = filter (\<lambda>p. ?k < pl_off (mq_begin q) p) (payloadQueue q)"
    by (rule skip_payload_filter [OF srt lim]) (use k a(5) in simp)
  also have "\<dots> = map (numbered s) (filter (\<lambda>p. ?k < fst p - a) ps)"
    unfolding p(2) filter_map comp_def by (rule arg_cong [where f = "map _"]) (rule filter_cong, use off in auto)
  finally have sk: "skip_payload n (payloadQueue q) = map (numbered s) (filter (\<lambda>p. a + ?k < fst p) ps)"
    by (simp add: less_diff_conv add.commute)
  have so: "sorted (map fst ps)" using message_ends_sorted [of 0 ms] p(1) by (simp add: sorted_append)
  have "ps = takeWhile (\<lambda>p. fst p \<le> a + ?k) ps @ dropWhile (\<lambda>p. fst p \<le> a + ?k) ps" by simp
  moreover have "dropWhile (\<lambda>p. fst p \<le> a + ?k) ps = filter (\<lambda>p. a + ?k < fst p) ps"
    by (rule dropWhile_sorted [OF so])
  ultimately have 1: "message_ends 0 ms = (ds @ takeWhile (\<lambda>p. fst p \<le> a + ?k) ps) @ filter (\<lambda>p. a + ?k < fst p) ps" using p(1) by simp
  have 2: "\<forall>p \<in> set (ds @ takeWhile (\<lambda>p. fst p \<le> a + ?k) ps). fst p \<le> a + ?k" using p(3) by (auto dest!: set_takeWhileD)
  have 3: "\<forall>p \<in> set (filter (\<lambda>p. a + ?k < fst p) ps). a + ?k \<le> fst p" by simp
  have 4: "msq_invar q'" unfolding q' using msq_discard_invar [OF a(4) n] .
  have 5: "mq_begin q' = s + of_nat (a + ?k)" "mq_end q' = s + of_nat (stream_length ms)" using nb a(3) by (simp_all add: q')
  have 6: "payloadQueue q' = map (numbered s) (filter (\<lambda>p. a + ?k < fst p) ps)" using sk by (simp add: q')
  have "a + ?k \<le> stream_length ms" "stream_length ms - (a + ?k) < half" using k a(1,5) by simp_all
  then show ?thesis unfolding msq_holds_def using 1 2 3 4 5 6 by blast
qed

lemma msq_reach_holds: "msq_reach s ms a q \<Longrightarrow> msq_holds s ms a q"
proof (induction rule: msq_reach.induct)
  case start
  show ?case by (simp add: msq_holds_def msq_init_def msq_new_def msq_invar_def stream_length_def soff_def)
qed (blast intro: msq_holds_enqueue msq_holds_discard)+

lemma msq_segment:
  assumes "msq_holds s ms a q" "a \<le> x" "x + n \<le> stream_length ms"
  shows "msq_createSegmentWithBytes (s + of_nat x) (int n) q =
    Inr (createTCPSegment\<lparr>sequenceNo := s + of_nat x, payloadLength := int n, payloadList := map (numbered s) (ending_in x (x + n) ms)\<rparr>)"
proof -
  obtain ds ps where p: "message_ends 0 ms = ds @ ps" "payloadQueue q = map (numbered s) ps" "\<forall>p \<in> set ds. fst p \<le> a" "\<forall>p \<in> set ps. a \<le> fst p"
    and a: "mq_begin q = s + of_nat a" "mq_end q = s + of_nat (stream_length ms)" "msq_invar q" "stream_length ms - a < half"
    using assms(1) by (auto simp: msq_holds_def)
  let ?b = "mq_begin q" and ?f = "s + of_nat x"
  have f: "soff ?b ?f = x - a" using stream_soff [of a x s] a assms(2,3) by simp
  have t: "soff ?b (?f + word_of_int (int n)) = x + n - a"
    using stream_soff [of a "x + n" s] a assms(2,3) by (simp add: add.assoc)
  have e: "soff ?b (mq_end q) = stream_length ms - a" using stream_soff [of a "stream_length ms" s] a assms(2,3) by simp
  have le: "seqLE ?b ?f" "seqLE (?f + word_of_int (int n)) (mq_end q)"
    using f t e a(4) assms(2,3) by (simp add: seqLE_unat, subst seqLE_off [of ?b]) (auto intro: nearI)
  have off: "pl_off ?b (numbered s p) = fst p - a" if "p \<in> set ps" for p
    using numbered_off [of a p s] p(1,4) a(1,4) message_ends_le [of "fst p" "snd p" 0 ms] that by fastforce
  have "x - a < pl_off ?b (numbered s p) \<and> pl_off ?b (numbered s p) \<le> x + n - a \<longleftrightarrow> x < fst p \<and> fst p \<le> x + n" if "p \<in> set ps" for p
    using off [OF that] p(4) that assms(2) by auto
  then have "filter (\<lambda>p. x - a < pl_off ?b (numbered s p) \<and> pl_off ?b (numbered s p) \<le> x + n - a) ps =
      filter (\<lambda>p. x < fst p \<and> fst p \<le> x + n) ps" by (intro filter_cong) simp_all
  then have "filter (\<lambda>p. soff ?b ?f < pl_off ?b p \<and> pl_off ?b p \<le> soff ?b (?f + word_of_int (int n))) (payloadQueue q) =
      map (numbered s) (filter (\<lambda>p. x < fst p \<and> fst p \<le> x + n) ps)"
    unfolding p(2) filter_map comp_def f t by simp
  moreover have "filter (\<lambda>p. x < fst p \<and> fst p \<le> x + n) ds = []" using p(3) assms(2) by (fastforce simp: filter_empty_conv)
  ultimately have "filter (\<lambda>p. soff ?b ?f < pl_off ?b p \<and> pl_off ?b p \<le> soff ?b (?f + word_of_int (int n))) (payloadQueue q) =
      map (numbered s) (ending_in x (x + n) ms)" by (simp add: ending_in_def p(1) case_prod_unfold)
  moreover have "c_int (int n) = int n" using a(4) assms(2,3) by simp
  ultimately show ?thesis
    using msq_createSegment_payload [OF a(3) le] f t e a(4) assms(2,3) by simp
qed

text \<open>The segments that cover consecutive ranges of the given lengths.\<close>

fun cutSegments :: "u32 \<Rightarrow> nat list \<Rightarrow> MsgSQ \<Rightarrow> TCPSegment list res" where
  "cutSegments f [] q = Inr []"
| "cutSegments f (n # ns) q =
     bindE (msq_createSegmentWithBytes f (int n) q) (\<lambda>s. bindE (cutSegments (f + of_nat n) ns q) (\<lambda>ss. Inr (s # ss)))"

lemma ending_in_split: "x \<le> y \<Longrightarrow> y \<le> z \<Longrightarrow> ending_in x z ms = ending_in x y ms @ ending_in y z ms"
  using filter_range_split [of fst "message_ends 0 ms" x y z] message_ends_sorted [of 0 ms] by (simp add: ending_in_def case_prod_unfold)

lemma cutSegments_messages:
  assumes "msq_holds s ms a q" "a \<le> x" "x + sum_list ns \<le> stream_length ms"
  shows "\<exists>ss. cutSegments (s + of_nat x) ns q = Inr ss \<and> map payloadLength ss = map int ns \<and>
    concat (map payloadList ss) = map (numbered s) (ending_in x (x + sum_list ns) ms)"
  using assms(2,3)
proof (induction ns arbitrary: x)
  case Nil
  then show ?case by (auto simp: ending_in_def filter_empty_conv)
next
  case (Cons n ns)
  obtain ss where ss: "cutSegments (s + of_nat (x + n)) ns q = Inr ss" "map payloadLength ss = map int ns"
    "concat (map payloadList ss) = map (numbered s) (ending_in (x + n) (x + n + sum_list ns) ms)"
    using Cons.IH [of "x + n"] Cons.prems by auto
  have "msq_createSegmentWithBytes (s + of_nat x) (int n) q =
    Inr (createTCPSegment\<lparr>sequenceNo := s + of_nat x, payloadLength := int n, payloadList := map (numbered s) (ending_in x (x + n) ms)\<rparr>)"
    using msq_segment [OF assms(1) Cons.prems(1)] Cons.prems(2) by simp
  then show ?case
    using ss ending_in_split [of x "x + n" "x + n + sum_list ns" ms] by (simp add: add.assoc createTCPSegment_def)
qed

section \<open>Dispatch\<close>

datatype TCPSendQueue = VirtualDataSendQueue VirtualSQ | MsgBasedSendQueue MsgSQ

fun sq_init :: "u32 \<Rightarrow> TCPSendQueue \<Rightarrow> TCPSendQueue" where
  "sq_init s (VirtualDataSendQueue q) = VirtualDataSendQueue (vsq_init s q)"
| "sq_init s (MsgBasedSendQueue q) = MsgBasedSendQueue (msq_init s q)"

fun sq_enqueueAppData :: "cPacket \<Rightarrow> TCPSendQueue \<Rightarrow> TCPSendQueue" where
  "sq_enqueueAppData m (VirtualDataSendQueue q) = VirtualDataSendQueue (vsq_enqueueAppData m q)"
| "sq_enqueueAppData m (MsgBasedSendQueue q) = MsgBasedSendQueue (msq_enqueueAppData m q)"

fun sq_getBufferEndSeq :: "TCPSendQueue \<Rightarrow> u32" where
  "sq_getBufferEndSeq (VirtualDataSendQueue q) = vsq_getBufferEndSeq q"
| "sq_getBufferEndSeq (MsgBasedSendQueue q) = msq_getBufferEndSeq q"

fun sq_createSegmentWithBytes :: "u32 \<Rightarrow> int \<Rightarrow> TCPSendQueue \<Rightarrow> TCPSegment res" where
  "sq_createSegmentWithBytes f n (VirtualDataSendQueue q) = vsq_createSegmentWithBytes f n q"
| "sq_createSegmentWithBytes f n (MsgBasedSendQueue q) = msq_createSegmentWithBytes f n q"

fun sq_discardUpTo :: "u32 \<Rightarrow> TCPSendQueue \<Rightarrow> TCPSendQueue res" where
  "sq_discardUpTo n (VirtualDataSendQueue q) = res_map VirtualDataSendQueue (vsq_discardUpTo n q)"
| "sq_discardUpTo n (MsgBasedSendQueue q) = res_map MsgBasedSendQueue (msq_discardUpTo n q)"

definition sq_getBytesAvailable :: "u32 \<Rightarrow> TCPSendQueue \<Rightarrow> nat" where
  "sq_getBytesAvailable fromSeq q = bytesAvailable (sq_getBufferEndSeq q) fromSeq"

fun sq_qbegin :: "TCPSendQueue \<Rightarrow> u32" where
  "sq_qbegin (VirtualDataSendQueue q) = sq_begin q"
| "sq_qbegin (MsgBasedSendQueue q) = mq_begin q"

fun sq_invar :: "TCPSendQueue \<Rightarrow> bool" where
  "sq_invar (VirtualDataSendQueue q) = vsq_invar q"
| "sq_invar (MsgBasedSendQueue q) = msq_invar q"

interpretation sq: send_queue sq_init sq_enqueueAppData sq_getBufferEndSeq
  sq_createSegmentWithBytes sq_discardUpTo sq_qbegin sq_invar
proof unfold_locales
  fix q :: TCPSendQueue and f s n :: u32 and k :: int and m :: cPacket
  show "sq_invar q \<Longrightarrow> soff (sq_qbegin q) (sq_getBufferEndSeq q) < half"
    by (cases q) (simp_all add: vsq.invar_len msq.invar_len)
  show "sq_qbegin (sq_init s q) = s"
    by (cases q) (simp_all add: vsq.init_begin msq.init_begin)
  show "sq_getBufferEndSeq (sq_init s q) = s"
    by (cases q) (simp_all add: vsq.init_end msq.init_end)
  show "sq_qbegin (sq_enqueueAppData m q) = sq_qbegin q"
    by (cases q) (simp_all add: vsq.enqueue_begin msq.enqueue_begin)
  show "sq_getBufferEndSeq (sq_enqueueAppData m q) = sq_getBufferEndSeq q + of_nat (byteLength m)"
    by (cases q) (simp_all add: vsq.enqueue_end msq.enqueue_end)
  show "sq_invar q \<Longrightarrow> soff (sq_qbegin q) (sq_getBufferEndSeq q) + byteLength m < half \<Longrightarrow>
      sq_invar (sq_enqueueAppData m q)"
    by (cases q) (simp_all add: vsq.enqueue_invar msq.enqueue_invar)
  show "seqLE (sq_qbegin q) f \<Longrightarrow> seqLE (f + word_of_int k) (sq_getBufferEndSeq q) \<Longrightarrow>
      \<exists>s. sq_createSegmentWithBytes f k q = Inr s \<and> sequenceNo s = f \<and> payloadLength s = c_int k \<and>
          \<not> synBit s \<and> \<not> finBit s \<and> \<not> rstBit s"
    by (cases q) (simp_all add: vsq.createSeg_ok msq.createSeg_ok)
  show "\<not> (seqLE (sq_qbegin q) f \<and> seqLE (f + word_of_int k) (sq_getBufferEndSeq q)) \<Longrightarrow>
      sq_createSegmentWithBytes f k q = Inl (AssertFailed ''createSegmentWithBytes'')"
    using vsq.createSeg_assert msq.createSeg_assert by (cases q) simp_all
  show "sq_invar q \<Longrightarrow> seqLE (sq_qbegin q) n \<Longrightarrow> seqLE n (sq_getBufferEndSeq q) \<Longrightarrow>
      \<exists>q'. sq_discardUpTo n q = Inr q' \<and> sq_qbegin q' = n \<and>
        sq_getBufferEndSeq q' = sq_getBufferEndSeq q \<and> sq_invar q'"
    using vsq.discard_ok msq.discard_ok by (cases q) fastforce+
  show "\<not> (seqLE (sq_qbegin q) n \<and> seqLE n (sq_getBufferEndSeq q)) \<Longrightarrow>
      sq_discardUpTo n q = Inl (AssertFailed ''discardUpTo'')"
    using vsq.discard_assert msq.discard_assert by (cases q) simp_all
qed

section \<open>Properties\<close>

text \<open>
  Cutting a stretch of the stream into two segments loses no message and duplicates
  none.  For a message based queue in its invariant and two adjacent byte ranges inside
  the buffer, the segments created for the ranges succeed, carry exactly the requested
  lengths, and their message lists concatenate to the one of the segment over both ranges.
\<close>

theorem msq_segments_partition:
  assumes inv: "msq_invar q" and f: "soff (mq_begin q) f + n + k \<le> soff (mq_begin q) (mq_end q)"
  shows "\<exists>s1 s2 s. msq_createSegmentWithBytes f (int n) q = Inr s1 \<and>
    msq_createSegmentWithBytes (f + of_nat n) (int k) q = Inr s2 \<and>
    msq_createSegmentWithBytes f (int (n + k)) q = Inr s \<and>
    payloadList s = payloadList s1 @ payloadList s2 \<and>
    payloadLength s1 = int n \<and> payloadLength s2 = int k \<and> payloadLength s = int (n + k) \<and>
    sequenceNo s1 = f \<and> sequenceNo s2 = f + of_nat n"
proof -
  let ?b = "mq_begin q" and ?e = "mq_end q" and ?ps = "payloadQueue q"
  have h: "soff ?b ?e < half" and srt: "sorted (map (pl_off ?b) ?ps)"
    using inv by (auto simp: msq_invar_def)
  have o1: "soff ?b (f + of_nat n) = soff ?b f + n"
    and o2: "soff ?b (f + of_nat (n + k)) = soff ?b f + (n + k)"
    using f h by (simp_all only: soff_of_nat)
  have o3: "soff ?b ((f + of_nat n) + of_nat k) = soff ?b f + (n + k)"
    using o2 by (simp add: add.assoc)
  have lo: "seqLE ?b x" if "soff ?b x \<le> soff ?b ?e" for x
    using that h by (simp add: seqLE_unat)
  have hi: "seqLE x ?e" if "soff ?b x \<le> soff ?b ?e" for x
    using that h by (subst seqLE_off [of ?b]) (auto intro: nearI)
  have create: "msq_createSegmentWithBytes x (int m) q =
    Inr (createTCPSegment\<lparr>sequenceNo := x, payloadLength := c_int (int m),
      payloadList := filter (\<lambda>p. soff ?b x < pl_off ?b p \<and> pl_off ?b p \<le> y) ?ps\<rparr>)"
    if "soff ?b (x + of_nat m) = y" "soff ?b x \<le> y" "y \<le> soff ?b ?e" for x m y
    using msq_createSegment_payload [OF inv, of x "int m"] that h lo hi by simp
  have split: "filter (\<lambda>p. x < pl_off ?b p \<and> pl_off ?b p \<le> z) ?ps =
      filter (\<lambda>p. x < pl_off ?b p \<and> pl_off ?b p \<le> y) ?ps @ filter (\<lambda>p. y < pl_off ?b p \<and> pl_off ?b p \<le> z) ?ps"
    if "x \<le> y" "y \<le> z" for x y z
    using srt that by (rule filter_range_split)
  have lens: "int n < 2147483648" "int k < 2147483648" "int (n + k) < 2147483648"
    using f h by auto
  show ?thesis
    using create [OF o1] create [OF o3] create [OF o2] f lens
      split [of "soff ?b f" "soff ?b f + n" "soff ?b f + (n + k)"]
    by (simp add: o1 createTCPSegment_def)
qed

theorem msq_segments_partition_witness:
  "\<exists>s1 s2 s. msq_createSegmentWithBytes 11 (int 7)
      (msq_enqueueAppData \<lparr>pkName = ''b'', byteLength = 9\<rparr>
        (msq_enqueueAppData \<lparr>pkName = ''a'', byteLength = 5\<rparr> (msq_init 11 msq_new))) = Inr s1 \<and>
    msq_createSegmentWithBytes (11 + of_nat 7) (int 7)
      (msq_enqueueAppData \<lparr>pkName = ''b'', byteLength = 9\<rparr>
        (msq_enqueueAppData \<lparr>pkName = ''a'', byteLength = 5\<rparr> (msq_init 11 msq_new))) = Inr s2 \<and>
    msq_createSegmentWithBytes 11 (int (7 + 7))
      (msq_enqueueAppData \<lparr>pkName = ''b'', byteLength = 9\<rparr>
        (msq_enqueueAppData \<lparr>pkName = ''a'', byteLength = 5\<rparr> (msq_init 11 msq_new))) = Inr s \<and>
    payloadList s = payloadList s1 @ payloadList s2 \<and>
    payloadLength s1 = int 7 \<and> payloadLength s2 = int 7 \<and> payloadLength s = int (7 + 7) \<and>
    sequenceNo s1 = 11 \<and> sequenceNo s2 = 11 + of_nat 7"
  by (rule msq_segments_partition)
    (simp_all add: msq_invar_def msq_enqueueAppData_def msq_init_def msq_new_def Let_def pl_off_def soff_def)

text \<open>
  Property C21: the message based send queue puts every message on the wire once.  Whatever has been written and acknowledged
  before, the segment for octets \<open>x\<close> to \<open>x + n\<close> of the stream succeeds, and it carries exactly the messages whose
  last octet lies in this range, in order and with their end numbers modulo \<open>2 ^ 32\<close>; so when the stream
  from \<open>x\<close> on is cut into segments of any lengths, these carry together each of its messages once,
  in the order in which they were written.
\<close>

theorem msq_carries_messages:
  assumes "msq_reach s ms a q" "a \<le> x" "x + n \<le> stream_length ms" "x + sum_list ns \<le> stream_length ms"
  shows "msq_createSegmentWithBytes (s + of_nat x) (int n) q =
      Inr (createTCPSegment\<lparr>sequenceNo := s + of_nat x, payloadLength := int n, payloadList := map (numbered s) (ending_in x (x + n) ms)\<rparr>) \<and>
    (\<exists>ss. cutSegments (s + of_nat x) ns q = Inr ss \<and> map payloadLength ss = map int ns \<and>
      concat (map payloadList ss) = map (numbered s) (ending_in x (x + sum_list ns) ms))"
  using msq_segment [OF msq_reach_holds [OF assms(1)] assms(2,3)]
    cutSegments_messages [OF msq_reach_holds [OF assms(1)] assms(2,4)] by blast

theorem msq_carries_messages_witness:
  "\<exists>ss. cutSegments (0xFFFFFFFE + of_nat 5) [7, 2]
      (msq_enqueueAppData \<lparr>pkName = ''b'', byteLength = 9\<rparr> (msq_enqueueAppData \<lparr>pkName = ''a'', byteLength = 5\<rparr> (msq_init 0xFFFFFFFE msq_new))) = Inr ss \<and>
    map payloadLength ss = [7, 2] \<and>
    concat (map payloadList ss) = [\<lparr>endSequenceNo = 12, payloadMsg = \<lparr>pkName = ''b'', byteLength = 9\<rparr>\<rparr>]"
proof -
  let ?a = "\<lparr>pkName = ''a'', byteLength = 5\<rparr>" and ?b = "\<lparr>pkName = ''b'', byteLength = 9\<rparr>"
  have "msq_reach 0xFFFFFFFE ([] @ [?a]) 0 (msq_enqueueAppData ?a (msq_init 0xFFFFFFFE msq_new))"
    by (rule msq_reach.enqueue [OF msq_reach.start]) (simp add: stream_length_def)
  then have "msq_reach 0xFFFFFFFE (([] @ [?a]) @ [?b]) 0 (msq_enqueueAppData ?b (msq_enqueueAppData ?a (msq_init 0xFFFFFFFE msq_new)))"
    by (rule msq_reach.enqueue) (simp add: stream_length_def)
  from msq_carries_messages [OF this, of 5 0 "[7, 2]"] show ?thesis
    by (fastforce simp: stream_length_def ending_in_def numbered_def)
qed

end
