(* ===== verification/TCP_RcvQueue.thy ===== *)
theory TCP_RcvQueue
  imports TCP_SendQueue
begin

text \<open>
  The receive queues: \<open>TCPVirtualDataRcvQueue\<close>, which keeps the received octets as a list of
  regions, and \<open>TCPMsgBasedRcvQueue\<close>, which adds the message objects.  The region list
  is related to the set of the octets it stands for: \<open>merge\<close> is set union and keeps
  the list sorted, disjoint and without touching regions; \<open>insertBytesFromSegment\<close> returns
  the first octet that is missing; \<open>extractTo\<close> removes what is below a number.
\<close>

section \<open>TCPVirtualDataRcvQueue\<close>

record Region =
  rbegin :: u32
  rend :: u32

record VirtualRQ =
  rq_rcv_nxt :: u32
  regionList :: "Region list"

definition vrq_new :: "u32 \<Rightarrow> VirtualRQ" where
  \<comment> \<open>the constructor does not initialise \<open>rcv_nxt\<close>: its value is the argument\<close>
  "vrq_new garbage = \<lparr>rq_rcv_nxt = garbage, regionList = []\<rparr>"

definition vrq_init :: "u32 \<Rightarrow> VirtualRQ \<Rightarrow> VirtualRQ" where
  "vrq_init startSeq q = q\<lparr>rq_rcv_nxt := startSeq\<rparr>"

text \<open>The inner loop of \<open>merge\<close>: region \<open>i\<close> swallows the regions it reaches.\<close>

fun absorb :: "Region \<Rightarrow> Region list \<Rightarrow> Region list" where
  "absorb i [] = [i]"
| "absorb i (j # js) =
     (if seqGE (rend i) (rbegin j)
      then absorb (if seqLess (rend i) (rend j) then i\<lparr>rend := rend j\<rparr> else i) js
      else i # j # js)"

fun merge_region :: "Region \<Rightarrow> Region list \<Rightarrow> Region list" where
  "merge_region seg [] = [seg]"
| "merge_region seg (i # is) =
     (if seqLess (rend i) (rbegin seg) then i # merge_region seg is
      else if seqLess (rend seg) (rbegin i) then seg # i # is
      else let i1 = (if seqLess (rbegin seg) (rbegin i) then i\<lparr>rbegin := rbegin seg\<rparr> else i)
           in if seqLess (rend i1) (rend seg) then absorb (i1\<lparr>rend := rend seg\<rparr>) is
              else i1 # is)"

definition vrq_merge :: "u32 \<Rightarrow> u32 \<Rightarrow> VirtualRQ \<Rightarrow> VirtualRQ" where
  "vrq_merge segmentBegin segmentEnd q =
     q\<lparr>regionList := merge_region \<lparr>rbegin = segmentBegin, rend = segmentEnd\<rparr> (regionList q)\<rparr>"

definition vrq_insertBytesFromSegment :: "TCPSegment \<Rightarrow> VirtualRQ \<Rightarrow> u32 \<times> VirtualRQ" where
  "vrq_insertBytesFromSegment s q =
     (let q1 = vrq_merge (sequenceNo s) (seg_end s) q;
          q2 = (case regionList q1 of
                  [] \<Rightarrow> q1
                | r # rs \<Rightarrow> if seqGE (rq_rcv_nxt q1) (rbegin r) then q1\<lparr>rq_rcv_nxt := rend r\<rparr> else q1)
      in (rq_rcv_nxt q2, q2))"

definition vrq_extractTo :: "u32 \<Rightarrow> VirtualRQ \<Rightarrow> (nat \<times> VirtualRQ) res" where
  "vrq_extractTo seq q =
     (if \<not> seqLE seq (rq_rcv_nxt q) then Inl (AssertFailed ''extractTo: seqLE(seq,rcv_nxt)'')
      else case regionList q of
        [] \<Rightarrow> Inr (0, q)
      | r # rs \<Rightarrow>
          if \<not> rbegin r < rend r then Inl (AssertFailed ''extractTo: i->begin<i->end'')
          else if seqLE seq (rbegin r) then Inr (0, q)
          else if seqLess seq (rend r)
               then Inr (unat (seq - rbegin r), q\<lparr>regionList := r\<lparr>rbegin := seq\<rparr> # rs\<rparr>)
               else Inr (unat (rend r - rbegin r), q\<lparr>regionList := rs\<rparr>))"

definition vrq_extractBytesUpTo :: "u32 \<Rightarrow> VirtualRQ \<Rightarrow> (cPacket option \<times> VirtualRQ) res" where
  "vrq_extractBytesUpTo seq q =
     bindE (vrq_extractTo seq q) (\<lambda>(n, q').
       Inr (if n = 0 then None else Some \<lparr>pkName = ''data'', byteLength = n\<rparr>, q'))"

section \<open>TCPMsgBasedRcvQueue\<close>

record MsgRQ =
  mr_base :: VirtualRQ
  payloadMap :: "(u32 \<times> cPacket) list"

definition mrq_new :: "u32 \<Rightarrow> MsgRQ" where
  "mrq_new garbage = \<lparr>mr_base = vrq_new garbage, payloadMap = []\<rparr>"

definition mrq_init :: "u32 \<Rightarrow> MsgRQ \<Rightarrow> MsgRQ" where
  "mrq_init startSeq q = q\<lparr>mr_base := vrq_init startSeq (mr_base q)\<rparr>"

text \<open>\<open>payloadList\<close> is a \<open>std::map\<close> from \<open>uint32\<close>: kept in the order of unsigned keys; an entry
  that exists is not replaced.\<close>

fun pm_insert :: "u32 \<Rightarrow> cPacket \<Rightarrow> (u32 \<times> cPacket) list \<Rightarrow> (u32 \<times> cPacket) list" where
  "pm_insert k m [] = [(k, m)]"
| "pm_insert k m ((k', m') # xs) =
     (if k = k' then (k', m') # xs
      else if k < k' then (k, m) # (k', m') # xs
      else (k', m') # pm_insert k m xs)"

definition mrq_insertBytesFromSegment :: "TCPSegment \<Rightarrow> MsgRQ \<Rightarrow> u32 \<times> MsgRQ" where
  "mrq_insertBytesFromSegment s q =
     (let base = snd (vrq_insertBytesFromSegment s (mr_base q));
          pm = fold (\<lambda>p. pm_insert (endSequenceNo p) (payloadMsg p)) (payloadList s) (payloadMap q)
      in (rq_rcv_nxt base, q\<lparr>mr_base := base, payloadMap := pm\<rparr>))"

definition mrq_extractBytesUpTo :: "u32 \<Rightarrow> MsgRQ \<Rightarrow> (cPacket option \<times> MsgRQ) res" where
  "mrq_extractBytesUpTo seq q =
     bindE (vrq_extractTo seq (mr_base q)) (\<lambda>(n, base).
       let q1 = q\<lparr>mr_base := base\<rparr> in
       case payloadMap q1 of
         [] \<Rightarrow> Inr (None, q1)
       | (k, m) # xs \<Rightarrow>
           if seqGreater k seq then Inr (None, q1)
           else Inr (Some m, q1\<lparr>payloadMap := xs\<rparr>))"

section \<open>Regions as sets of octets\<close>

text \<open>
  Seen from a base \<open>b\<close>, a well-formed list has its regions in increasing order, each
  non-empty, each past the end of the one before (not even touching it), none reaching
  half of the sequence space.
\<close>

fun wf_regions :: "u32 \<Rightarrow> nat \<Rightarrow> Region list \<Rightarrow> bool" where
  "wf_regions b lo [] = True"
| "wf_regions b lo (r # rs) \<longleftrightarrow>
     lo \<le> soff b (rbegin r) \<and> soff b (rbegin r) < soff b (rend r) \<and> soff b (rend r) < half \<and>
     wf_regions b (Suc (soff b (rend r))) rs"

definition region_octets :: "u32 \<Rightarrow> Region \<Rightarrow> nat set" where
  "region_octets b r = {soff b (rbegin r) ..< soff b (rend r)}"

fun octets :: "u32 \<Rightarrow> Region list \<Rightarrow> nat set" where
  "octets b [] = {}"
| "octets b (r # rs) = region_octets b r \<union> octets b rs"

lemma wf_regions_mono: "wf_regions b lo rs \<Longrightarrow> lo' \<le> lo \<Longrightarrow> wf_regions b lo' rs"
  by (cases rs) auto

lemma octets_ge: "wf_regions b lo rs \<Longrightarrow> n \<in> octets b rs \<Longrightarrow> lo \<le> n"
  by (induction rs arbitrary: lo) (auto simp: region_octets_def dest!: spec, fastforce)

lemma octets_lt_half: "wf_regions b lo rs \<Longrightarrow> n \<in> octets b rs \<Longrightarrow> n < half"
  by (induction rs arbitrary: lo) (auto simp: region_octets_def)

lemma absorb_correct:
  assumes "lo \<le> soff b (rbegin i)" "soff b (rbegin i) < soff b (rend i)" "soff b (rend i) < half"
    and "wf_regions b k js" "soff b (rbegin i) < k"
  shows "wf_regions b lo (absorb i js) \<and> octets b (absorb i js) = region_octets b i \<union> octets b js"
  using assms
proof (induction js arbitrary: i k)
  case Nil
  then show ?case by simp
next
  case (Cons j js)
  let ?bi = "soff b (rbegin i)" and ?ei = "soff b (rend i)"
  let ?bj = "soff b (rbegin j)" and ?ej = "soff b (rend j)"
  have j: "?bi < ?bj" "?bj < ?ej" "?ej < half" "wf_regions b (Suc ?ej) js"
    using Cons.prems by auto
  have ge: "seqGE (rend i) (rbegin j) \<longleftrightarrow> ?bj \<le> ?ei"
    using Cons.prems j by (intro seqGE_off nearI) auto
  have lt: "seqLess (rend i) (rend j) \<longleftrightarrow> ?ei < ?ej"
    using Cons.prems j by (intro seqLess_off nearI) auto
  show ?case
  proof (cases "?bj \<le> ?ei")
    case True
    let ?i = "if ?ei < ?ej then i\<lparr>rend := rend j\<rparr> else i"
    have "wf_regions b lo (absorb ?i js) \<and>
        octets b (absorb ?i js) = region_octets b ?i \<union> octets b js"
      using Cons.prems j by (intro Cons.IH [where k = "Suc ?ej"]) auto
    moreover have "region_octets b ?i = region_octets b i \<union> region_octets b j"
      using True Cons.prems j by (auto simp: region_octets_def)
    ultimately show ?thesis
      using True by (simp add: ge lt Un_assoc)
  next
    case False
    then show ?thesis
      using Cons.prems j by (simp add: ge)
  qed
qed

lemma merge_region_correct:
  assumes "wf_regions b lo rs" "lo \<le> soff b (rbegin seg)"
    and "soff b (rbegin seg) < soff b (rend seg)" "soff b (rend seg) < half"
  shows "wf_regions b lo (merge_region seg rs) \<and>
    octets b (merge_region seg rs) = region_octets b seg \<union> octets b rs"
  using assms
proof (induction rs arbitrary: lo)
  case Nil
  then show ?case by simp
next
  case (Cons i rs)
  let ?bs = "soff b (rbegin seg)" and ?es = "soff b (rend seg)"
  let ?bi = "soff b (rbegin i)" and ?ei = "soff b (rend i)"
  have i: "lo \<le> ?bi" "?bi < ?ei" "?ei < half" "wf_regions b (Suc ?ei) rs"
    using Cons.prems(1) by simp_all
  note s = Cons.prems(2-4)
  have c1: "seqLess (rend i) (rbegin seg) \<longleftrightarrow> ?ei < ?bs"
    using i s by (intro seqLess_off nearI) auto
  have c2: "seqLess (rend seg) (rbegin i) \<longleftrightarrow> ?es < ?bi"
    using i s by (intro seqLess_off nearI) auto
  have c3: "seqLess (rbegin seg) (rbegin i) \<longleftrightarrow> ?bs < ?bi"
    using i s by (intro seqLess_off nearI) auto
  have c4: "seqLess (rend i) (rend seg) \<longleftrightarrow> ?ei < ?es"
    using i s by (intro seqLess_off nearI) auto
  consider (before) "?ei < ?bs" | (after) "\<not> ?ei < ?bs" "?es < ?bi"
    | (meet) "\<not> ?ei < ?bs" "\<not> ?es < ?bi" by blast
  then show ?case
  proof cases
    case before
    then have "wf_regions b (Suc ?ei) (merge_region seg rs) \<and>
        octets b (merge_region seg rs) = region_octets b seg \<union> octets b rs"
      using i s by (intro Cons.IH) auto
    then show ?thesis using before i by (auto simp: c1)
  next
    case after
    then show ?thesis using i s by (simp add: c1 c2)
  next
    case meet
    let ?i1 = "if ?bs < ?bi then i\<lparr>rbegin := rbegin seg\<rparr> else i"
    let ?m = "if ?ei < ?es then absorb (?i1\<lparr>rend := rend seg\<rparr>) rs else ?i1 # rs"
    have m: "merge_region seg (i # rs) = ?m"
      using meet by (simp add: c1 c2 c3 c4 Let_def)
    show ?thesis
    proof (cases "?ei < ?es")
      case True
      have "wf_regions b lo (absorb (?i1\<lparr>rend := rend seg\<rparr>) rs) \<and>
          octets b (absorb (?i1\<lparr>rend := rend seg\<rparr>) rs) =
            region_octets b (?i1\<lparr>rend := rend seg\<rparr>) \<union> octets b rs"
        using i s True by (intro absorb_correct [where k = "Suc ?ei"]) auto
      moreover have "region_octets b (?i1\<lparr>rend := rend seg\<rparr>) =
          region_octets b seg \<union> region_octets b i"
        using meet True i s by (auto simp: region_octets_def)
      ultimately show ?thesis unfolding m using True by (simp add: Un_assoc)
    next
      case False
      have "region_octets b ?i1 = region_octets b seg \<union> region_octets b i"
        using meet False i s by (auto simp: region_octets_def)
      then show ?thesis unfolding m using False i s by auto
    qed
  qed
qed

section \<open>The queue invariant and insertion\<close>

lemma first_region_end: "wf_regions b lo (r # rs) \<Longrightarrow> soff b (rend r) \<notin> octets b (r # rs)"
  using octets_ge [of b "Suc (soff b (rend r))" rs "soff b (rend r)"]
  by (auto simp: region_octets_def)

lemma first_region_least:
  assumes "wf_regions b lo (r # rs)" "n \<in> octets b (r # rs)"
  shows "soff b (rbegin r) \<le> n"
  using assms octets_ge [of b "Suc (soff b (rend r))" rs n] by (auto simp: region_octets_def)

lemma first_region_begin: "wf_regions b lo (r # rs) \<Longrightarrow> soff b (rbegin r) \<in> octets b (r # rs)"
  by (simp add: region_octets_def)

text \<open>
  \<open>rcv_nxt\<close> lies before every region, or at the end of the first one (data that was received
  in sequence and not extracted yet).
\<close>

definition vrq_inv :: "u32 \<Rightarrow> VirtualRQ \<Rightarrow> bool" where
  "vrq_inv b q \<longleftrightarrow> wf_regions b 0 (regionList q) \<and> soff b (rq_rcv_nxt q) < half \<and>
     (case regionList q of
        [] \<Rightarrow> True
      | r # rs \<Rightarrow> soff b (rq_rcv_nxt q) < soff b (rbegin r) \<or> rq_rcv_nxt q = rend r)"

text \<open>The first number from \<open>n\<close> on that is not in the set.\<close>

definition first_missing :: "nat \<Rightarrow> nat set \<Rightarrow> nat \<Rightarrow> bool" where
  "first_missing n A m \<longleftrightarrow> n \<le> m \<and> {n ..< m} \<subseteq> A \<and> m \<notin> A"

lemma first_missing_unique: "first_missing n A m \<Longrightarrow> first_missing n A m' \<Longrightarrow> m = m'"
  unfolding first_missing_def by (meson atLeastLessThan_iff linorder_neqE_nat subsetD)

definition seg_octets :: "u32 \<Rightarrow> TCPSegment \<Rightarrow> nat set" where
  "seg_octets b s = {soff b (sequenceNo s) ..< soff b (seg_end s)}"

lemma first_region_reaches:
  assumes "wf_regions b lo (r # rs)" "{x ..< y} \<subseteq> octets b (r # rs)" "x \<le> soff b (rend r)"
  shows "y \<le> soff b (rend r)"
proof (rule ccontr)
  assume "\<not> y \<le> soff b (rend r)"
  then have "soff b (rend r) \<in> {x ..< y}"
    using assms(3) by simp
  then show False
    using assms(2) first_region_end [OF assms(1)] by blast
qed

text \<open>Whatever the regions were, after the insertion \<open>rcv_nxt\<close> is not past the first one
  that begins at or before it.\<close>

lemma rcv_nxt_le_first_end:
  assumes inv: "vrq_inv b q" and n: "soff b (rq_rcv_nxt q) \<le> x"
    and wf': "wf_regions b 0 (r # rs)" and oct: "octets b (r # rs) = {x ..< y} \<union> octets b (regionList q)"
    and a: "soff b (rbegin r) \<le> soff b (rq_rcv_nxt q)"
  shows "soff b (rq_rcv_nxt q) \<le> soff b (rend r)"
proof -
  let ?n = "soff b (rq_rcv_nxt q)"
  have r: "soff b (rbegin r) < soff b (rend r)" using wf' by simp
  have mem: "soff b (rbegin r) \<in> {x ..< y} \<union> octets b (regionList q)"
    using first_region_begin [OF wf'] unfolding oct .
  show ?thesis
  proof (cases "regionList q")
    case Nil
    then show ?thesis using mem n r by simp
  next
    case (Cons r0 rs0)
    have wf0: "wf_regions b 0 (r0 # rs0)" using inv by (simp add: vrq_inv_def Cons)
    have least: "soff b (rbegin r0) \<le> k" if "k \<in> octets b (regionList q)" for k
      using first_region_least [OF wf0] that by (simp add: Cons)
    consider "?n < soff b (rbegin r0)" | "rq_rcv_nxt q = rend r0"
      using inv by (auto simp: vrq_inv_def Cons)
    then show ?thesis
    proof cases
      case 1
      then have "?n \<le> soff b (rbegin r)"
        using mem n least by fastforce
      then show ?thesis using r by simp
    next
      case 2
      have "soff b (rbegin r0) \<le> soff b (rbegin r)"
        using mem n least wf0 2 by fastforce
      moreover have "{soff b (rbegin r0) ..< ?n} \<subseteq> octets b (r # rs)"
        unfolding oct by (auto simp: Cons 2 region_octets_def)
      ultimately show ?thesis
        using first_region_reaches [OF wf', of "soff b (rbegin r0)" ?n] r by simp
    qed
  qed
qed

lemma vrq_insert_correct:
  assumes inv: "vrq_inv b q" and acc: "soff b (rq_rcv_nxt q) \<le> soff b (sequenceNo s)"
    and seg: "soff b (sequenceNo s) < soff b (seg_end s)" "soff b (seg_end s) < half"
    and ins: "vrq_insertBytesFromSegment s q = (n', q')"
  shows "vrq_inv b q'" "n' = rq_rcv_nxt q'"
    and "octets b (regionList q') = octets b (regionList q) \<union> seg_octets b s"
    and "first_missing (soff b (rq_rcv_nxt q)) (octets b (regionList q')) (soff b n')"
proof -
  let ?seg = "\<lparr>rbegin = sequenceNo s, rend = seg_end s\<rparr>"
  let ?rl = "regionList q" and ?n = "soff b (rq_rcv_nxt q)"
  have wf: "wf_regions b 0 ?rl" and nh: "?n < half"
    using inv by (simp_all add: vrq_inv_def)
  have m: "wf_regions b 0 (merge_region ?seg ?rl)"
    "octets b (merge_region ?seg ?rl) = seg_octets b s \<union> octets b ?rl"
    using merge_region_correct [OF wf, of ?seg] seg
    by (simp_all add: region_octets_def seg_octets_def)
  have "soff b (sequenceNo s) \<in> octets b (merge_region ?seg ?rl)"
    using m(2) seg by (simp add: seg_octets_def)
  then obtain r rs where rl': "merge_region ?seg ?rl = r # rs"
    by (cases "merge_region ?seg ?rl") auto
  note m' = m [unfolded rl']
  have r: "soff b (rbegin r) < soff b (rend r)" "soff b (rend r) < half"
    using m'(1) by simp_all
  have ge: "seqGE (rq_rcv_nxt q) (rbegin r) \<longleftrightarrow> soff b (rbegin r) \<le> ?n"
    using r nh by (intro seqGE_off nearI) auto
  have q': "q' = q\<lparr>regionList := r # rs, rq_rcv_nxt :=
      (if soff b (rbegin r) \<le> ?n then rend r else rq_rcv_nxt q)\<rparr>" and n': "n' = rq_rcv_nxt q'"
    using ins by (auto simp: vrq_insertBytesFromSegment_def vrq_merge_def rl' Let_def ge)
  show "n' = rq_rcv_nxt q'" by (rule n')
  show "octets b (regionList q') = octets b ?rl \<union> seg_octets b s"
    using m'(2) by (auto simp: q')
  show "vrq_inv b q'"
    using m'(1) r nh by (auto simp: vrq_inv_def q')
  show "first_missing ?n (octets b (regionList q')) (soff b n')"
  proof (cases "soff b (rbegin r) \<le> ?n")
    case True
    then show ?thesis
      using rcv_nxt_le_first_end [OF inv acc m'(1) m'(2) [unfolded seg_octets_def]]
        first_region_end [OF m'(1)]
      by (auto simp: first_missing_def n' q' region_octets_def)
  next
    case False
    then show ?thesis
      using first_region_least [OF m'(1), of ?n] by (auto simp: first_missing_def n' q')
  qed
qed

section \<open>Extraction\<close>

text \<open>
  The second assertion of \<open>extractTo\<close> compares the bounds of the first region as plain unsigned
  numbers.  \<open>no_wrap\<close> says that no region spans the point where sequence numbers wrap.
\<close>

definition no_wrap :: "Region list \<Rightarrow> bool" where
  "no_wrap rl \<longleftrightarrow> (\<forall>r \<in> set rl. rbegin r < rend r)"

lemma octets_finite [simp]: "finite (octets b rl)"
  by (induction rl) (simp_all add: region_octets_def)

lemma between_no_wrap:
  assumes "soff b B < soff b s" "soff b s < soff b E" "B < E"
  shows "s < E"
proof -
  have "unat (s - B) < unat (E - B)"
    using assms by (simp add: soff_diff_le [of b])
  moreover have "unat (E - B) = unat E - unat B"
    using unat_sub_if' [of E B] assms(3) by (simp add: word_less_nat_alt)
  ultimately show ?thesis
    using unat_sub_if' [of s B] unat_u32_lt [of E] assms(3)
    by (simp add: word_less_nat_alt split: if_splits)
qed

lemma vrq_extractTo_correct:
  assumes inv: "vrq_inv b q" and seq: "soff b seq \<le> soff b (rq_rcv_nxt q)"
    and nw: "no_wrap (regionList q)"
  shows "\<exists>q'. vrq_extractTo seq q = Inr (card (octets b (regionList q) \<inter> {..< soff b seq}), q') \<and>
    vrq_inv b q' \<and> rq_rcv_nxt q' = rq_rcv_nxt q \<and> no_wrap (regionList q') \<and>
    octets b (regionList q') = octets b (regionList q) \<inter> {soff b seq ..}"
proof -
  let ?s = "soff b seq" and ?n = "soff b (rq_rcv_nxt q)"
  have wf: "wf_regions b 0 (regionList q)" and nh: "?n < half"
    using inv by (simp_all add: vrq_inv_def)
  have le: "seqLE seq (rq_rcv_nxt q)"
    using seq nh by (subst seqLE_off [of b]) (auto intro: nearI)
  show ?thesis
  proof (cases "regionList q")
    case Nil
    then show ?thesis using le inv nw by (simp add: vrq_extractTo_def)
  next
    case (Cons r rs)
    let ?B = "soff b (rbegin r)" and ?E = "soff b (rend r)"
    have r: "?B < ?E" "?E < half" "wf_regions b (Suc ?E) rs"
      using wf by (simp_all add: Cons)
    have rs: "\<forall>k \<in> octets b rs. ?E < k"
      using octets_ge [OF r(3)] by (simp add: Suc_le_eq)
    have c1: "seqLE seq (rbegin r) \<longleftrightarrow> ?s \<le> ?B"
      using r seq nh by (intro seqLE_off nearI) auto
    have c2: "seqLess seq (rend r) \<longleftrightarrow> ?s < ?E"
      using r seq nh by (intro seqLess_off nearI) auto
    have w: "rbegin r < rend r" "no_wrap rs" using nw by (simp_all add: Cons no_wrap_def)
    consider (none) "?s \<le> ?B" | (part) "?B < ?s" "?s < ?E" | (whole) "?E \<le> ?s" by linarith
    then show ?thesis
    proof cases
      case none
      then have "octets b (r # rs) \<inter> {..< ?s} = {}" "octets b (r # rs) \<inter> {?s ..} = octets b (r # rs)"
        using r rs by (auto simp: region_octets_def)
      then show ?thesis
        using none le c1 w inv nw by (simp add: vrq_extractTo_def Cons)
    next
      case part
      then have n: "rq_rcv_nxt q = rend r" using inv seq by (auto simp: vrq_inv_def Cons)
      have "octets b (r # rs) \<inter> {..< ?s} = {?B ..< ?s}"
        using part rs by (fastforce simp: region_octets_def)
      moreover have "octets b (r # rs) \<inter> {?s ..} = {?s ..< ?E} \<union> octets b rs"
        using part rs by (fastforce simp: region_octets_def)
      moreover have "unat (seq - rbegin r) = ?s - ?B"
        using part by (simp add: soff_diff_le)
      moreover have "seq < rend r"
        by (rule between_no_wrap [OF part w(1)])
      ultimately show ?thesis
        using part le c1 c2 w r n nh wf
        by (auto simp: vrq_extractTo_def Cons vrq_inv_def region_octets_def no_wrap_def)
    next
      case whole
      then have n: "rq_rcv_nxt q = rend r" using inv seq r by (auto simp: vrq_inv_def Cons)
      then have s: "?s = ?E" using seq whole by simp
      have "octets b (r # rs) \<inter> {..< ?s} = {?B ..< ?E}" "octets b (r # rs) \<inter> {?s ..} = octets b rs"
        using rs r s by (fastforce simp: region_octets_def)+
      moreover have "unat (rend r - rbegin r) = ?E - ?B"
        using r by (simp add: soff_diff_le)
      moreover have "vrq_inv b (q\<lparr>regionList := rs\<rparr>)"
        using r n nh wf_regions_mono [OF r(3), of 0] by (cases rs) (auto simp: vrq_inv_def)
      ultimately show ?thesis
        using whole le c1 c2 w r by (auto simp: vrq_extractTo_def Cons)
    qed
  qed
qed

section \<open>The interface\<close>

text \<open>
  A receive queue is a virtual data queue (its \<open>view\<close>) plus whatever its class adds: the
  operations commute with the view, and an extraction fails exactly when the
  extraction of the view does.
\<close>

locale recv_queue =
  fixes init :: "u32 \<Rightarrow> 'q \<Rightarrow> 'q"
    and insertBytes :: "TCPSegment \<Rightarrow> 'q \<Rightarrow> u32 \<times> 'q"
    and extractBytes :: "u32 \<Rightarrow> 'q \<Rightarrow> (cPacket option \<times> 'q) res"
    and view :: "'q \<Rightarrow> VirtualRQ"
  assumes init_view: "view (init n q) = vrq_init n (view q)"
    and insert_view: "view (snd (insertBytes s q)) = snd (vrq_insertBytesFromSegment s (view q))"
    and insert_ret: "fst (insertBytes s q) = fst (vrq_insertBytesFromSegment s (view q))"
    and extract_view: "res_map (view \<circ> snd) (extractBytes n q) = res_map snd (vrq_extractTo n (view q))"
begin

lemma insert_octets:
  assumes "vrq_inv b (view q)" "soff b (rq_rcv_nxt (view q)) \<le> soff b (sequenceNo s)"
    and "soff b (sequenceNo s) < soff b (seg_end s)" "soff b (seg_end s) < half"
  shows "vrq_inv b (view (snd (insertBytes s q)))"
    and "fst (insertBytes s q) = rq_rcv_nxt (view (snd (insertBytes s q)))"
    and "octets b (regionList (view (snd (insertBytes s q)))) =
      octets b (regionList (view q)) \<union> seg_octets b s"
    and "first_missing (soff b (rq_rcv_nxt (view q)))
      (octets b (regionList (view (snd (insertBytes s q))))) (soff b (fst (insertBytes s q)))"
  using vrq_insert_correct [OF assms prod.collapse [symmetric]]
  unfolding insert_view insert_ret by simp_all

lemma extract_ok:
  assumes "vrq_inv b (view q)" "soff b n \<le> soff b (rq_rcv_nxt (view q))" "no_wrap (regionList (view q))"
  shows "\<exists>m q'. extractBytes n q = Inr (m, q') \<and> vrq_inv b (view q') \<and>
    rq_rcv_nxt (view q') = rq_rcv_nxt (view q) \<and> no_wrap (regionList (view q')) \<and>
    octets b (regionList (view q')) = octets b (regionList (view q)) \<inter> {soff b n ..}"
proof -
  obtain v k where v: "vrq_extractTo n (view q) = Inr (k, v)" "vrq_inv b v"
    "rq_rcv_nxt v = rq_rcv_nxt (view q)" "no_wrap (regionList v)"
    "octets b (regionList v) = octets b (regionList (view q)) \<inter> {soff b n ..}"
    using vrq_extractTo_correct [OF assms] by blast
  have "res_map (view \<circ> snd) (extractBytes n q) = Inr v"
    using extract_view [of n q] v(1) by simp
  then obtain m q' where "extractBytes n q = Inr (m, q')" "view q' = v"
    by (cases "extractBytes n q") auto
  then show ?thesis using v by auto
qed

end

interpretation vrq: recv_queue vrq_init vrq_insertBytesFromSegment vrq_extractBytesUpTo "\<lambda>q. q"
  by unfold_locales
    (auto simp: vrq_extractBytesUpTo_def bindE_def res_map_def split: sum.splits prod.splits)

interpretation mrq: recv_queue mrq_init mrq_insertBytesFromSegment mrq_extractBytesUpTo mr_base
proof unfold_locales
  fix s :: TCPSegment and q :: MsgRQ and n :: u32
  show "mr_base (mrq_init n q) = vrq_init n (mr_base q)"
    by (simp add: mrq_init_def)
  show "mr_base (snd (mrq_insertBytesFromSegment s q)) = snd (vrq_insertBytesFromSegment s (mr_base q))"
    by (simp add: mrq_insertBytesFromSegment_def Let_def)
  show "fst (mrq_insertBytesFromSegment s q) = fst (vrq_insertBytesFromSegment s (mr_base q))"
    by (simp add: mrq_insertBytesFromSegment_def vrq_insertBytesFromSegment_def Let_def)
  show "res_map (mr_base \<circ> snd) (mrq_extractBytesUpTo n q) = res_map snd (vrq_extractTo n (mr_base q))"
    by (auto simp: mrq_extractBytesUpTo_def bindE_def res_map_def Let_def
        split: sum.splits prod.splits list.splits)
qed

section \<open>Dispatch and the delivery loop\<close>

datatype TCPReceiveQueue = VirtualDataRcvQueue VirtualRQ | MsgBasedRcvQueue MsgRQ

fun rq_init :: "u32 \<Rightarrow> TCPReceiveQueue \<Rightarrow> TCPReceiveQueue" where
  "rq_init n (VirtualDataRcvQueue q) = VirtualDataRcvQueue (vrq_init n q)"
| "rq_init n (MsgBasedRcvQueue q) = MsgBasedRcvQueue (mrq_init n q)"

fun rq_insertBytesFromSegment :: "TCPSegment \<Rightarrow> TCPReceiveQueue \<Rightarrow> u32 \<times> TCPReceiveQueue" where
  "rq_insertBytesFromSegment s (VirtualDataRcvQueue q) =
     map_prod id VirtualDataRcvQueue (vrq_insertBytesFromSegment s q)"
| "rq_insertBytesFromSegment s (MsgBasedRcvQueue q) =
     map_prod id MsgBasedRcvQueue (mrq_insertBytesFromSegment s q)"

fun rq_extractBytesUpTo :: "u32 \<Rightarrow> TCPReceiveQueue \<Rightarrow> (cPacket option \<times> TCPReceiveQueue) res" where
  "rq_extractBytesUpTo n (VirtualDataRcvQueue q) =
     res_map (map_prod id VirtualDataRcvQueue) (vrq_extractBytesUpTo n q)"
| "rq_extractBytesUpTo n (MsgBasedRcvQueue q) =
     res_map (map_prod id MsgBasedRcvQueue) (mrq_extractBytesUpTo n q)"

fun rq_view :: "TCPReceiveQueue \<Rightarrow> VirtualRQ" where
  "rq_view (VirtualDataRcvQueue q) = q"
| "rq_view (MsgBasedRcvQueue q) = mr_base q"

interpretation rq: recv_queue rq_init rq_insertBytesFromSegment rq_extractBytesUpTo rq_view
proof unfold_locales
  fix s :: TCPSegment and q :: TCPReceiveQueue and n :: u32
  show "rq_view (rq_init n q) = vrq_init n (rq_view q)"
    by (cases q) (simp_all add: mrq.init_view)
  show "rq_view (snd (rq_insertBytesFromSegment s q)) = snd (vrq_insertBytesFromSegment s (rq_view q))"
    by (cases q) (simp_all add: mrq.insert_view)
  show "fst (rq_insertBytesFromSegment s q) = fst (vrq_insertBytesFromSegment s (rq_view q))"
    by (cases q) (simp_all add: mrq.insert_ret)
  have c: "res_map f (res_map g x) = res_map (f \<circ> g) x" for f :: "'b \<Rightarrow> 'c" and g :: "'a \<Rightarrow> 'b" and x
    by (cases x) simp_all
  have e: "(rq_view \<circ> snd) \<circ> map_prod id VirtualDataRcvQueue = (\<lambda>q. q) \<circ> snd"
    "(rq_view \<circ> snd) \<circ> map_prod id MsgBasedRcvQueue = mr_base \<circ> snd"
    by (auto simp: fun_eq_iff)
  show "res_map (rq_view \<circ> snd) (rq_extractBytesUpTo n q) = res_map snd (vrq_extractTo n (rq_view q))"
    using vrq.extract_view mrq.extract_view by (cases q) (simp_all add: c e del: comp_apply)
qed

text \<open>
  The loop of \<open>processSegment1stThru8th\<close> that passes data up:
  \<open>while ((msg = receiveQueue->extractBytesUpTo(seq)) != NULL)\<close>.  It terminates because
  each extraction that returns a message removes a region or a message, or leaves the
  first region starting at \<open>seq\<close>.
\<close>

fun rq_measure :: "u32 \<Rightarrow> TCPReceiveQueue \<Rightarrow> nat" where
  "rq_measure n (VirtualDataRcvQueue q) = 2 * length (regionList q) +
     (case regionList q of [] \<Rightarrow> 0 | r # rs \<Rightarrow> if seqLE n (rbegin r) then 0 else 1)"
| "rq_measure n (MsgBasedRcvQueue q) = length (payloadMap q)"

lemma extract_decreases:
  "rq_extractBytesUpTo n q = Inr (Some m, q') \<Longrightarrow> rq_measure n q' < rq_measure n q"
  by (cases q)
    (auto simp: vrq_extractBytesUpTo_def vrq_extractTo_def mrq_extractBytesUpTo_def bindE_def
      res_map_def Let_def split: sum.splits if_splits list.splits prod.splits)

function rq_drain :: "u32 \<Rightarrow> TCPReceiveQueue \<Rightarrow> (cPacket list \<times> TCPReceiveQueue) res" where
  "rq_drain n q =
     (case rq_extractBytesUpTo n q of
        Inl e \<Rightarrow> Inl e
      | Inr (None, q') \<Rightarrow> Inr ([], q')
      | Inr (Some m, q') \<Rightarrow> bindE (rq_drain n q') (\<lambda>(ms, q''). Inr (m # ms, q'')))"
  by pat_completeness auto
termination
  by (relation "measure (\<lambda>(n, q). rq_measure n q)") (auto simp: extract_decreases)

declare rq_drain.simps [simp del]

lemma vrq_extract_all:
  assumes "vrq_inv b q" "no_wrap (regionList q)"
  defines "n \<equiv> rq_rcv_nxt q"
  shows "\<exists>q'. vrq_extractTo n q = Inr (card (octets b (regionList q) \<inter> {..< soff b n}), q') \<and>
    vrq_extractTo n q' = Inr (0, q') \<and> vrq_inv b q' \<and> rq_rcv_nxt q' = n \<and> no_wrap (regionList q') \<and>
    octets b (regionList q') = octets b (regionList q) \<inter> {soff b n ..}"
proof -
  obtain q' where q': "vrq_extractTo n q = Inr (card (octets b (regionList q) \<inter> {..< soff b n}), q')"
    "vrq_inv b q'" "rq_rcv_nxt q' = n" "no_wrap (regionList q')"
    "octets b (regionList q') = octets b (regionList q) \<inter> {soff b n ..}"
    using vrq_extractTo_correct [OF assms(1) _ assms(2), of n] by (auto simp: n_def)
  have "seqLE n n" by simp
  moreover have "seqLE n (rbegin r)" if "regionList q' = r # rs" for r rs
  proof -
    have "soff b (rbegin r) \<in> octets b (regionList q')"
      using q'(2) first_region_begin [of b 0 r rs] by (simp add: vrq_inv_def that)
    then have "soff b n \<le> soff b (rbegin r)" "soff b (rbegin r) < half" "soff b n < half"
      using q' octets_lt_half [of b 0 "regionList q'"] by (auto simp: vrq_inv_def)
    then show ?thesis by (subst seqLE_off [of b]) (auto intro: nearI)
  qed
  ultimately have "vrq_extractTo n q' = Inr (0, q')"
    using q'(3,4) by (auto simp: vrq_extractTo_def no_wrap_def split: list.split)
  then show ?thesis using q' by blast
qed

lemma vrq_drain:
  assumes "vrq_inv b q" "no_wrap (regionList q)"
  defines "n \<equiv> rq_rcv_nxt q"
  defines "k \<equiv> card (octets b (regionList q) \<inter> {..< soff b n})"
  shows "\<exists>q'. rq_drain n (VirtualDataRcvQueue q) =
      Inr (if k = 0 then [] else [\<lparr>pkName = ''data'', byteLength = k\<rparr>], VirtualDataRcvQueue q') \<and>
    vrq_inv b q' \<and> rq_rcv_nxt q' = n \<and>
    octets b (regionList q') = octets b (regionList q) \<inter> {soff b n ..}"
proof -
  obtain q' where q': "vrq_extractTo n q = Inr (k, q')" "vrq_extractTo n q' = Inr (0, q')"
    "vrq_inv b q'" "rq_rcv_nxt q' = n"
    "octets b (regionList q') = octets b (regionList q) \<inter> {soff b n ..}"
    using vrq_extract_all [OF assms(1,2)] by (auto simp: n_def k_def)
  have d: "rq_drain n (VirtualDataRcvQueue q') = Inr ([], VirtualDataRcvQueue q')"
    by (subst rq_drain.simps) (simp add: vrq_extractBytesUpTo_def q')
  have "rq_drain n (VirtualDataRcvQueue q) =
      Inr (if k = 0 then [] else [\<lparr>pkName = ''data'', byteLength = k\<rparr>], VirtualDataRcvQueue q')"
    by (subst rq_drain.simps) (simp add: vrq_extractBytesUpTo_def q' d)
  then show ?thesis using q' by blast
qed

text \<open>
  The message based queue passes up the messages at the front of its map whose last octet is
  not above \<open>rcv_nxt\<close>.
\<close>

lemma mrq_drain_settled:
  assumes "vrq_extractTo n (mr_base q) = Inr (0, mr_base q)"
  shows "rq_drain n (MsgBasedRcvQueue q) =
    Inr (map snd (takeWhile (\<lambda>(e, m). \<not> seqGreater e n) (payloadMap q)),
         MsgBasedRcvQueue (q\<lparr>payloadMap := dropWhile (\<lambda>(e, m). \<not> seqGreater e n) (payloadMap q)\<rparr>))"
  using assms
proof (induction "payloadMap q" arbitrary: q)
  case Nil
  then show ?case
    by (subst rq_drain.simps) (simp add: mrq_extractBytesUpTo_def Let_def)
next
  case (Cons x xs)
  obtain e m where x: "x = (e, m)" by (cases x)
  have pm: "payloadMap q = (e, m) # xs" using Cons.hyps(2) x by simp
  show ?case
  proof (cases "seqGreater e n")
    case True
    then show ?thesis
      using Cons.prems
      by (subst rq_drain.simps) (simp add: mrq_extractBytesUpTo_def Let_def pm)
  next
    case False
    have "rq_drain n (MsgBasedRcvQueue (q\<lparr>payloadMap := xs\<rparr>)) =
      Inr (map snd (takeWhile (\<lambda>(e, m). \<not> seqGreater e n) xs),
         MsgBasedRcvQueue (q\<lparr>payloadMap := dropWhile (\<lambda>(e, m). \<not> seqGreater e n) xs\<rparr>))"
      using Cons.hyps(1) [of "q\<lparr>payloadMap := xs\<rparr>"] Cons.prems by simp
    then show ?thesis
      using False Cons.prems
      by (subst rq_drain.simps) (simp add: mrq_extractBytesUpTo_def Let_def pm)
  qed
qed

lemma mrq_drain:
  assumes "vrq_inv b (mr_base q)" "no_wrap (regionList (mr_base q))"
  defines "n \<equiv> rq_rcv_nxt (mr_base q)"
  shows "\<exists>q'. rq_drain n (MsgBasedRcvQueue q) =
      Inr (map snd (takeWhile (\<lambda>(e, m). \<not> seqGreater e n) (payloadMap q)), MsgBasedRcvQueue q') \<and>
    vrq_inv b (mr_base q') \<and> rq_rcv_nxt (mr_base q') = n \<and>
    payloadMap q' = dropWhile (\<lambda>(e, m). \<not> seqGreater e n) (payloadMap q) \<and>
    octets b (regionList (mr_base q')) = octets b (regionList (mr_base q)) \<inter> {soff b n ..}"
proof -
  obtain k v where v: "vrq_extractTo n (mr_base q) = Inr (k, v)" "vrq_extractTo n v = Inr (0, v)"
    "vrq_inv b v" "rq_rcv_nxt v = n"
    "octets b (regionList v) = octets b (regionList (mr_base q)) \<inter> {soff b n ..}"
    using vrq_extract_all [OF assms(1,2)] by (auto simp: n_def)
  let ?p = "\<lambda>(e, m). \<not> seqGreater e n"
  have s: "rq_drain n (MsgBasedRcvQueue (q\<lparr>mr_base := v, payloadMap := xs\<rparr>)) =
      Inr (map snd (takeWhile ?p xs), MsgBasedRcvQueue (q\<lparr>mr_base := v, payloadMap := dropWhile ?p xs\<rparr>))"
    for xs
    using mrq_drain_settled [of n "q\<lparr>mr_base := v, payloadMap := xs\<rparr>"] v(2) by simp
  have "rq_drain n (MsgBasedRcvQueue q) =
      Inr (map snd (takeWhile ?p (payloadMap q)),
        MsgBasedRcvQueue (q\<lparr>mr_base := v, payloadMap := dropWhile ?p (payloadMap q)\<rparr>))"
  proof (cases "payloadMap q")
    case Nil
    then show ?thesis
      by (subst rq_drain.simps) (simp add: mrq_extractBytesUpTo_def Let_def v(1))
  next
    case (Cons x xs)
    then show ?thesis
      by (cases x, subst rq_drain.simps)
        (simp add: mrq_extractBytesUpTo_def Let_def v(1) s)
  qed
  then show ?thesis using v by auto
qed

text \<open>With keys that do not wrap, the map order is the sequence order.\<close>

lemma pm_insert_keys: "fst ` set (pm_insert k m xs) = insert k (fst ` set xs)"
  by (induction k m xs rule: pm_insert.induct) auto

lemma pm_insert_sorted:
  assumes "sorted_wrt (<) (map fst xs)"
  shows "sorted_wrt (<) (map fst (pm_insert k m xs))"
  using assms
proof (induction k m xs rule: pm_insert.induct)
  case (2 k m k' m' xs)
  then show ?case
    using pm_insert_keys [of k m xs] by (auto simp: image_iff)
qed simp

text \<open>The end numbers of the messages are in order and compare with \<open>n\<close> as plain numbers: none is beyond the wrap.\<close>

definition plain_keys :: "u32 \<Rightarrow> (u32 \<times> cPacket) list \<Rightarrow> bool" where
  "plain_keys n xs \<longleftrightarrow> sorted_wrt (<) (map fst xs) \<and> (\<forall>e \<in> fst ` set xs. seqGreater e n \<longleftrightarrow> n < e)"

lemma plain_keys_split:
  assumes "plain_keys n xs"
  shows "takeWhile (\<lambda>(e, m). \<not> seqGreater e n) xs = filter (\<lambda>(e, m). e \<le> n) xs \<and>
    dropWhile (\<lambda>(e, m). \<not> seqGreater e n) xs = filter (\<lambda>(e, m). n < e) xs"
  using assms
proof (induction xs)
  case (Cons x xs)
  obtain e m where x: "x = (e, m)" by (cases x)
  have xs: "plain_keys n xs" "\<forall>y \<in> set xs. e < fst y" and e: "seqGreater e n \<longleftrightarrow> n < e"
    using Cons.prems x by (auto simp: plain_keys_def)
  show ?case
  proof (cases "n < e")
    case True
    then have "\<forall>y \<in> set xs. n < fst y" using xs(2) by (blast intro: less_trans)
    then have "filter (\<lambda>(e, m). e \<le> n) xs = []" "filter (\<lambda>(e, m). n < e) xs = xs"
      by (auto simp: filter_empty_conv filter_id_conv)
    then show ?thesis using True e x by simp
  next
    case False
    then show ?thesis using Cons.IH [OF xs(1)] e x by simp
  qed
qed simp

section \<open>Properties\<close>

text \<open>
  Property C20: \<open>merge\<close> of the receive queue is set union on octets, and it keeps the region
  list sorted, disjoint and free of touching regions, in whatever way the new range
  overlaps, bridges or precedes the stored ones.
\<close>

theorem merge_is_union:
  assumes "wf_regions b 0 (regionList q)"
    and "soff b x < soff b y" "soff b y < half"
  shows "wf_regions b 0 (regionList (vrq_merge x y q)) \<and>
    octets b (regionList (vrq_merge x y q)) = {soff b x ..< soff b y} \<union> octets b (regionList q)"
  using merge_region_correct [OF assms(1), of "\<lparr>rbegin = x, rend = y\<rparr>"] assms(2,3)
  by (simp add: vrq_merge_def region_octets_def)

theorem merge_is_union_witness:
  "wf_regions 100 0 (regionList (vrq_merge 109 131
      \<lparr>rq_rcv_nxt = 100, regionList = [\<lparr>rbegin = 105, rend = 110\<rparr>, \<lparr>rbegin = 120, rend = 125\<rparr>,
        \<lparr>rbegin = 130, rend = 140\<rparr>]\<rparr>)) \<and>
   octets 100 (regionList (vrq_merge 109 131
      \<lparr>rq_rcv_nxt = 100, regionList = [\<lparr>rbegin = 105, rend = 110\<rparr>, \<lparr>rbegin = 120, rend = 125\<rparr>,
        \<lparr>rbegin = 130, rend = 140\<rparr>]\<rparr>)) =
     {soff 100 109 ..< soff 100 131} \<union>
     octets 100 (regionList \<lparr>rq_rcv_nxt = 100, regionList = [\<lparr>rbegin = 105, rend = 110\<rparr>,
        \<lparr>rbegin = 120, rend = 125\<rparr>, \<lparr>rbegin = 130, rend = 140\<rparr>]\<rparr>)"
  by (rule merge_is_union) (simp_all add: soff_def)

text \<open>
  \<open>insertBytesFromSegment\<close> returns the number of the first octet that has not
  arrived.  For a queue (of either class) in its invariant and an acceptable non-empty segment, the
  octets of the queue grow by exactly those of the segment, the invariant is kept, and
  the value returned and stored as \<open>rcv_nxt\<close> is the first number from the old
  \<open>rcv_nxt\<close> on that is missing: it moves over all data that is now contiguous and over nothing else.
\<close>

theorem insert_returns_first_missing:
  assumes "vrq_inv b (rq_view q)" "soff b (rq_rcv_nxt (rq_view q)) \<le> soff b (sequenceNo s)"
    and "soff b (sequenceNo s) < soff b (seg_end s)" "soff b (seg_end s) < half"
    and "rq_insertBytesFromSegment s q = (n, q')"
  shows "vrq_inv b (rq_view q') \<and> n = rq_rcv_nxt (rq_view q') \<and>
    octets b (regionList (rq_view q')) = octets b (regionList (rq_view q)) \<union> seg_octets b s \<and>
    first_missing (soff b (rq_rcv_nxt (rq_view q))) (octets b (regionList (rq_view q'))) (soff b n)"
  using rq.insert_octets [OF assms(1-4)] assms(5) by simp

theorem insert_returns_first_missing_witness:
  "vrq_inv 1000 (rq_view (VirtualDataRcvQueue \<lparr>rq_rcv_nxt = 1040, regionList = [\<lparr>rbegin = 1000, rend = 1040\<rparr>]\<rparr>)) \<and>
   (1040 :: u32) = rq_rcv_nxt (rq_view (VirtualDataRcvQueue
      \<lparr>rq_rcv_nxt = 1040, regionList = [\<lparr>rbegin = 1000, rend = 1040\<rparr>]\<rparr>)) \<and>
   octets 1000 (regionList (rq_view (VirtualDataRcvQueue
      \<lparr>rq_rcv_nxt = 1040, regionList = [\<lparr>rbegin = 1000, rend = 1040\<rparr>]\<rparr>))) =
     octets 1000 (regionList (rq_view (VirtualDataRcvQueue
      \<lparr>rq_rcv_nxt = 1000, regionList = [\<lparr>rbegin = 1010, rend = 1040\<rparr>]\<rparr>))) \<union>
     seg_octets 1000 (createTCPSegment\<lparr>sequenceNo := 1000, payloadLength := 10\<rparr>) \<and>
   first_missing (soff 1000 (rq_rcv_nxt (rq_view (VirtualDataRcvQueue
      \<lparr>rq_rcv_nxt = 1000, regionList = [\<lparr>rbegin = 1010, rend = 1040\<rparr>]\<rparr>))))
     (octets 1000 (regionList (rq_view (VirtualDataRcvQueue
      \<lparr>rq_rcv_nxt = 1040, regionList = [\<lparr>rbegin = 1000, rend = 1040\<rparr>]\<rparr>)))) (soff 1000 1040)"
  by (rule insert_returns_first_missing [where q = "VirtualDataRcvQueue
        \<lparr>rq_rcv_nxt = 1000, regionList = [\<lparr>rbegin = 1010, rend = 1040\<rparr>]\<rparr>"])
    (simp_all add: vrq_inv_def soff_def seg_end_def createTCPSegment_def
      vrq_insertBytesFromSegment_def vrq_merge_def Let_def seq_defs)

text \<open>
  Property C22: the delivery loop passes up everything below \<open>rcv_nxt\<close>, once.  For a queue of either class in its invariant, whose
  regions and message ends do not span the wrap of sequence numbers at \<open>2 ^ 32\<close>, the loop over \<open>extractBytesUpTo\<close> ends
  without an assertion failure, and exactly the stored octets below \<open>rcv_nxt\<close> leave the queue.  The packets from a virtual data
  queue hold as many bytes as these octets; a message based queue hands over exactly the messages that end at
  or before \<open>rcv_nxt\<close>, in the order of their ends, and keeps the others.
\<close>

theorem drain_delivers_all:
  assumes "vrq_inv b (rq_view q)" "no_wrap (regionList (rq_view q))" "n = rq_rcv_nxt (rq_view q)"
    and "case q of VirtualDataRcvQueue v \<Rightarrow> True | MsgBasedRcvQueue v \<Rightarrow> plain_keys n (payloadMap v)"
  shows "\<exists>ms q'. rq_drain n q = Inr (ms, q') \<and> vrq_inv b (rq_view q') \<and> rq_rcv_nxt (rq_view q') = n \<and>
    octets b (regionList (rq_view q')) = octets b (regionList (rq_view q)) \<inter> {soff b n ..} \<and>
    (case q of
       VirtualDataRcvQueue v \<Rightarrow> sum_list (map byteLength ms) = card (octets b (regionList v) \<inter> {..< soff b n})
     | MsgBasedRcvQueue v \<Rightarrow> ms = map snd (filter (\<lambda>(e, m). e \<le> n) (payloadMap v)) \<and>
         (\<exists>v'. q' = MsgBasedRcvQueue v' \<and> payloadMap v' = filter (\<lambda>(e, m). n < e) (payloadMap v)))"
proof (cases q)
  case (VirtualDataRcvQueue v)
  obtain v' where "rq_drain n q =
      Inr (if card (octets b (regionList v) \<inter> {..< soff b n}) = 0 then []
           else [\<lparr>pkName = ''data'', byteLength = card (octets b (regionList v) \<inter> {..< soff b n})\<rparr>],
           VirtualDataRcvQueue v')" "vrq_inv b v'" "rq_rcv_nxt v' = n"
    "octets b (regionList v') = octets b (regionList v) \<inter> {soff b n ..}"
    using vrq_drain [of b v] assms VirtualDataRcvQueue by auto
  then show ?thesis using VirtualDataRcvQueue by (auto split: if_splits)
next
  case (MsgBasedRcvQueue v)
  obtain v' where v': "rq_drain n q = Inr (map snd (takeWhile (\<lambda>(e, m). \<not> seqGreater e n) (payloadMap v)), MsgBasedRcvQueue v')"
    "vrq_inv b (mr_base v')" "rq_rcv_nxt (mr_base v') = n" "payloadMap v' = dropWhile (\<lambda>(e, m). \<not> seqGreater e n) (payloadMap v)"
    "octets b (regionList (mr_base v')) = octets b (regionList (mr_base v)) \<inter> {soff b n ..}"
    using mrq_drain [of b v] assms MsgBasedRcvQueue by auto
  then show ?thesis
    using plain_keys_split [of n "payloadMap v"] assms(4) MsgBasedRcvQueue by auto
qed

theorem drain_delivers_all_witness:
  "\<exists>q'. rq_drain 40 (MsgBasedRcvQueue \<lparr>mr_base = \<lparr>rq_rcv_nxt = 40, regionList = [\<lparr>rbegin = 10, rend = 40\<rparr>, \<lparr>rbegin = 60, rend = 70\<rparr>]\<rparr>,
      payloadMap = [(25, \<lparr>pkName = ''a'', byteLength = 15\<rparr>), (40, \<lparr>pkName = ''b'', byteLength = 15\<rparr>), (70, \<lparr>pkName = ''d'', byteLength = 10\<rparr>)]\<rparr>) =
    Inr ([\<lparr>pkName = ''a'', byteLength = 15\<rparr>, \<lparr>pkName = ''b'', byteLength = 15\<rparr>], q')"
proof -
  let ?v = "\<lparr>mr_base = \<lparr>rq_rcv_nxt = 40, regionList = [\<lparr>rbegin = 10, rend = 40\<rparr>, \<lparr>rbegin = 60, rend = 70\<rparr>]\<rparr>,
      payloadMap = [(25, \<lparr>pkName = ''a'', byteLength = 15\<rparr>), (40, \<lparr>pkName = ''b'', byteLength = 15\<rparr>), (70, \<lparr>pkName = ''d'', byteLength = 10\<rparr>)]\<rparr>"
  have "vrq_inv 10 (mr_base ?v)" "no_wrap (regionList (mr_base ?v))" "plain_keys 40 (payloadMap ?v)"
    by (simp_all add: vrq_inv_def no_wrap_def soff_def plain_keys_def seq_defs)
  then show ?thesis using drain_delivers_all [of 10 "MsgBasedRcvQueue ?v" 40] by auto
qed

text \<open>
  Extraction fails on data that spans the wrap of the sequence space.  The second assertion of
  \<open>extractTo\<close> compares the bounds of the first region as plain numbers: for every queue
  whose first region is well-formed but crosses \<open>2 ^ 32\<close>, every extraction ends in
  \<open>AssertFailed\<close>, although the octets are there.
\<close>

theorem extract_fails_across_wrap:
  assumes "regionList q = r # rs" "seqLess (rbegin r) (rend r)" "rend r < rbegin r"
    and "seqLE n (rq_rcv_nxt q)"
  shows "vrq_extractBytesUpTo n q = Inl (AssertFailed ''extractTo: i->begin<i->end'')"
  using assms by (simp add: vrq_extractBytesUpTo_def vrq_extractTo_def)

theorem extract_fails_across_wrap_witness:
  "vrq_extractBytesUpTo 6 \<lparr>rq_rcv_nxt = 6, regionList = [\<lparr>rbegin = 0xFFFFFFFC, rend = 6\<rparr>]\<rparr> =
     Inl (AssertFailed ''extractTo: i->begin<i->end'')"
  by (rule extract_fails_across_wrap [of _ "\<lparr>rbegin = 0xFFFFFFFC, rend = 6\<rparr>" "[]"])
    (simp_all add: seq_defs)

text \<open>
  Messages are delivered out of order across the wrap.  The message map is ordered by the
  plain value of the keys: when a message that ends before the wrap and one that ends after it are
  both complete, the later one is handed to the application first.
\<close>

theorem payload_order_across_wrap:
  assumes "payloadMap q = [(k1, m1), (k2, m2)]" "k1 < k2" "seqLess k2 k1"
    and "\<not> seqGreater k1 n" "\<not> seqGreater k2 n"
    and "vrq_extractTo n (mr_base q) = Inr (0, mr_base q)"
  shows "\<exists>q'. rq_drain n (MsgBasedRcvQueue q) = Inr ([m1, m2], MsgBasedRcvQueue q')"
  using mrq_drain_settled [OF assms(6)] assms(1,4,5) by simp

theorem payload_order_across_wrap_witness:
  "\<exists>q'. rq_drain 6 (MsgBasedRcvQueue \<lparr>mr_base = \<lparr>rq_rcv_nxt = 6, regionList = []\<rparr>,
      payloadMap = [(6, \<lparr>pkName = ''second'', byteLength = 10\<rparr>), (0xFFFFFFFC, \<lparr>pkName = ''first'', byteLength = 10\<rparr>)]\<rparr>) =
    Inr ([\<lparr>pkName = ''second'', byteLength = 10\<rparr>, \<lparr>pkName = ''first'', byteLength = 10\<rparr>], MsgBasedRcvQueue q')"
  by (rule payload_order_across_wrap [of _ 6 _ "0xFFFFFFFC"])
    (simp_all add: seq_defs vrq_extractTo_def)

end
