(* ===== verification/TCP_State.thy ===== *)
theory TCP_State
  imports TCP_RcvQueue
begin

text \<open>
  The state of a TCP connection (\<open>TCPConnection.h\<close>, the constructors in
  \<open>TCPConnectionBase.cc\<close> and in the \<open>flavours\<close> directory): the state variables with the
  extensions of the TCP flavours, the FSM states and events, the timers, and the messages
  a connection sends.

  The C++ connection object points to a block of state variables, to its queues and to its
  algorithm object; here they are fields of one record, which extends the
  record of the state variables as the C++ classes extend each other.  Two fields are
  not in the source: \<open>now\<close>, the simulation time of the event being processed, and
  \<open>outbox\<close>, the messages sent while processing it, in order.
\<close>

section \<open>States, events, indications\<close>

datatype TcpState =
    TCP_S_INIT | TCP_S_CLOSED | TCP_S_LISTEN | TCP_S_SYN_SENT | TCP_S_SYN_RCVD
  | TCP_S_ESTABLISHED | TCP_S_CLOSE_WAIT | TCP_S_LAST_ACK | TCP_S_FIN_WAIT_1
  | TCP_S_FIN_WAIT_2 | TCP_S_CLOSING | TCP_S_TIME_WAIT

datatype TCPEventCode =
    TCP_E_IGNORE
  | TCP_E_OPEN_ACTIVE | TCP_E_OPEN_PASSIVE | TCP_E_SEND | TCP_E_CLOSE | TCP_E_ABORT | TCP_E_STATUS
  | TCP_E_RCV_DATA | TCP_E_RCV_ACK | TCP_E_RCV_SYN | TCP_E_RCV_SYN_ACK | TCP_E_RCV_FIN
  | TCP_E_RCV_FIN_ACK | TCP_E_RCV_RST | TCP_E_RCV_UNEXP_SYN
  | TCP_E_TIMEOUT_2MSL | TCP_E_TIMEOUT_CONN_ESTAB | TCP_E_TIMEOUT_FIN_WAIT_2

datatype TcpStatusInd =
    TCP_I_DATA | TCP_I_URGENT_DATA | TCP_I_ESTABLISHED | TCP_I_PEER_CLOSED | TCP_I_CLOSED
  | TCP_I_CONNECTION_REFUSED | TCP_I_CONNECTION_RESET | TCP_I_TIMED_OUT | TCP_I_STATUS

definition TCP_TIMEOUT_CONN_ESTAB :: simtime where "TCP_TIMEOUT_CONN_ESTAB = 75"
definition TCP_TIMEOUT_FIN_WAIT_2 :: simtime where "TCP_TIMEOUT_FIN_WAIT_2 = 600"
definition TCP_TIMEOUT_2MSL :: simtime where "TCP_TIMEOUT_2MSL = 240"
definition TCP_TIMEOUT_SYN_REXMIT :: simtime where "TCP_TIMEOUT_SYN_REXMIT = 3"
definition TCP_TIMEOUT_SYN_REXMIT_MAX :: simtime where "TCP_TIMEOUT_SYN_REXMIT_MAX = 240"
definition MAX_SYN_REXMIT_COUNT :: int where "MAX_SYN_REXMIT_COUNT = 12"

lemmas timeout_consts = TCP_TIMEOUT_CONN_ESTAB_def TCP_TIMEOUT_FIN_WAIT_2_def TCP_TIMEOUT_2MSL_def
  TCP_TIMEOUT_SYN_REXMIT_def TCP_TIMEOUT_SYN_REXMIT_MAX_def MAX_SYN_REXMIT_COUNT_def

fun stateName :: "TcpState \<Rightarrow> string" where
  "stateName TCP_S_INIT = ''INIT''"
| "stateName TCP_S_CLOSED = ''CLOSED''"
| "stateName TCP_S_LISTEN = ''LISTEN''"
| "stateName TCP_S_SYN_SENT = ''SYN_SENT''"
| "stateName TCP_S_SYN_RCVD = ''SYN_RCVD''"
| "stateName TCP_S_ESTABLISHED = ''ESTABLISHED''"
| "stateName TCP_S_CLOSE_WAIT = ''CLOSE_WAIT''"
| "stateName TCP_S_LAST_ACK = ''LAST_ACK''"
| "stateName TCP_S_FIN_WAIT_1 = ''FIN_WAIT_1''"
| "stateName TCP_S_FIN_WAIT_2 = ''FIN_WAIT_2''"
| "stateName TCP_S_CLOSING = ''CLOSING''"
| "stateName TCP_S_TIME_WAIT = ''TIME_WAIT''"

fun eventName :: "TCPEventCode \<Rightarrow> string" where
  "eventName TCP_E_IGNORE = ''IGNORE''"
| "eventName TCP_E_OPEN_ACTIVE = ''OPEN_ACTIVE''"
| "eventName TCP_E_OPEN_PASSIVE = ''OPEN_PASSIVE''"
| "eventName TCP_E_SEND = ''SEND''"
| "eventName TCP_E_CLOSE = ''CLOSE''"
| "eventName TCP_E_ABORT = ''ABORT''"
| "eventName TCP_E_STATUS = ''STATUS''"
| "eventName TCP_E_RCV_DATA = ''RCV_DATA''"
| "eventName TCP_E_RCV_ACK = ''RCV_ACK''"
| "eventName TCP_E_RCV_SYN = ''RCV_SYN''"
| "eventName TCP_E_RCV_SYN_ACK = ''RCV_SYN_ACK''"
| "eventName TCP_E_RCV_FIN = ''RCV_FIN''"
| "eventName TCP_E_RCV_FIN_ACK = ''RCV_FIN_ACK''"
| "eventName TCP_E_RCV_RST = ''RCV_RST''"
| "eventName TCP_E_RCV_UNEXP_SYN = ''RCV_UNEXP_SYN''"
| "eventName TCP_E_TIMEOUT_2MSL = ''TIMEOUT_2MSL''"
| "eventName TCP_E_TIMEOUT_CONN_ESTAB = ''TIMEOUT_CONN_ESTAB''"
| "eventName TCP_E_TIMEOUT_FIN_WAIT_2 = ''TIMEOUT_FIN_WAIT_2''"

fun indicationName :: "TcpStatusInd \<Rightarrow> string" where
  "indicationName TCP_I_DATA = ''DATA''"
| "indicationName TCP_I_URGENT_DATA = ''URGENT_DATA''"
| "indicationName TCP_I_ESTABLISHED = ''ESTABLISHED''"
| "indicationName TCP_I_PEER_CLOSED = ''PEER_CLOSED''"
| "indicationName TCP_I_CLOSED = ''CLOSED''"
| "indicationName TCP_I_CONNECTION_REFUSED = ''CONNECTION_REFUSED''"
| "indicationName TCP_I_CONNECTION_RESET = ''CONNECTION_RESET''"
| "indicationName TCP_I_TIMED_OUT = ''TIMED_OUT''"
| "indicationName TCP_I_STATUS = ''STATUS''"

section \<open>Timers\<close>

text \<open>
  A timer is a \<open>cMessage\<close> owned by the connection: deleted (a null pointer), idle, or in the
  event queue of the simulator.  Scheduling a message that is already scheduled is an error
  of the simulation kernel; cancelling an idle one does nothing.
\<close>

datatype timer_id =
    The2MSL | ConnEstab | FinWait2 | SynRexmit | Rexmit | Persist | DelayedAck | KeepAlive

datatype timer = Deleted | Idle | Scheduled simtime

fun isScheduled :: "timer \<Rightarrow> bool" where
  "isScheduled (Scheduled t) = True"
| "isScheduled _ = False"

section \<open>The state variables\<close>

record TCPStateVariables =
  active :: bool
  fork :: bool
  snd_mss :: u32
  snd_una :: u32
  snd_nxt :: u32
  snd_max :: u32
  snd_wnd :: u32
  snd_up :: u32
  snd_wl1 :: u32
  snd_wl2 :: u32
  iss :: u32
  rcv_nxt :: u32
  rcv_wnd :: u32
  rcv_up :: u32
  irs :: u32
  dupacks :: int
  syn_rexmit_count :: int
  syn_rexmit_timeout :: simtime
  fin_ack_rcvd :: bool
  send_fin :: bool
  snd_fin_seq :: u32
  fin_rcvd :: bool
  rcv_fin_seq :: u32

record TCPBaseAlgStateVariables = TCPStateVariables +
  delayed_acks_enabled :: bool
  nagle_enabled :: bool
  rexmit_count :: int
  rexmit_timeout :: simtime
  snd_cwnd :: u32
  rtseq :: u32
  rtseq_sendtime :: simtime
  srtt :: simtime
  rttvar :: simtime

record TCPTahoeRenoFamilyStateVariables = TCPBaseAlgStateVariables +
  ssthresh :: u32

section \<open>Messages sent by a connection\<close>

record TCPStatusInfo =
  st_state :: TcpState
  st_stateName :: string
  st_localAddr :: IPvXAddress
  st_remoteAddr :: IPvXAddress
  st_localPort :: int
  st_remotePort :: int
  st_snd_mss :: int
  st_snd_una :: u32
  st_snd_nxt :: u32
  st_snd_max :: u32
  st_snd_wnd :: u32
  st_snd_up :: u32
  st_snd_wl1 :: u32
  st_snd_wl2 :: u32
  st_iss :: u32
  st_rcv_nxt :: u32
  st_rcv_wnd :: u32
  st_rcv_up :: u32
  st_irs :: u32
  st_fin_ack_rcvd :: bool

datatype tcp_out =
    ToIPv4 TCPSegment u32 u32
  | ToIPv6 TCPSegment "u32 \<times> u32 \<times> u32 \<times> u32" "u32 \<times> u32 \<times> u32 \<times> u32"
  | ToAppIndication int int TcpStatusInd
  | ToAppEstablished int int IPvXAddress IPvXAddress int int
  | ToAppData int int cPacket
  | ToAppStatus int TCPStatusInfo

section \<open>The connection\<close>

datatype TCPAlgorithmClass = DumbTCP | TCPNoCongestionControl | TCPTahoe | TCPReno

record TCPConnection = TCPTahoeRenoFamilyStateVariables +
  self :: nat
  appGateIndex :: int
  connId :: int
  localAddr :: IPvXAddress
  remoteAddr :: IPvXAddress
  localPort :: int
  remotePort :: int
  fsm :: TcpState
  sendQueue :: TCPSendQueue
  receiveQueue :: TCPReceiveQueue
  tcpAlgorithm :: TCPAlgorithmClass
  timers :: "timer_id \<Rightarrow> timer"
  now :: simtime
  outbox :: "tcp_out list"

abbreviation is_scheduled :: "timer_id \<Rightarrow> TCPConnection \<Rightarrow> bool" where
  "is_scheduled tm c \<equiv> isScheduled (timers c tm)"

definition scheduleTimeout :: "timer_id \<Rightarrow> simtime \<Rightarrow> TCPConnection \<Rightarrow> TCPConnection res" where
  "scheduleTimeout tm dt c =
     (case timers c tm of
        Deleted \<Rightarrow> Inl NullPointer
      | Scheduled t \<Rightarrow> Inl TimerAlreadyScheduled
      | Idle \<Rightarrow> Inr (c\<lparr>timers := (timers c)(tm := Scheduled (now c + dt))\<rparr>))"

definition cancelEvent :: "timer_id \<Rightarrow> TCPConnection \<Rightarrow> TCPConnection res" where
  "cancelEvent tm c =
     (case timers c tm of
        Deleted \<Rightarrow> Inl NullPointer
      | _ \<Rightarrow> Inr (c\<lparr>timers := (timers c)(tm := Idle)\<rparr>))"

text \<open>\<open>if (timer) cancelEvent(timer)\<close> and \<open>delete cancelEvent(timer); timer = NULL\<close>.\<close>

definition cancelIfSet :: "timer_id \<Rightarrow> TCPConnection \<Rightarrow> TCPConnection res" where
  "cancelIfSet tm c = (if timers c tm = Deleted then Inr c else cancelEvent tm c)"

definition deleteTimer :: "timer_id \<Rightarrow> TCPConnection \<Rightarrow> TCPConnection res" where
  "deleteTimer tm c = bindE (cancelEvent tm c) (\<lambda>c. Inr (c\<lparr>timers := (timers c)(tm := Deleted)\<rparr>))"

lemmas timer_defs = scheduleTimeout_def cancelEvent_def cancelIfSet_def deleteTimer_def

text \<open>The constructor of \<open>TCPStateVariables\<close> and of its extensions.\<close>

definition initStateVariables :: "TCPConnection \<Rightarrow> TCPConnection" where
  "initStateVariables c = c\<lparr>active := False, fork := False, snd_mss := - 1, snd_una := 0,
     snd_nxt := 0, snd_max := 0, snd_wnd := 0, snd_up := 0, snd_wl1 := 0, snd_wl2 := 0, iss := 0,
     rcv_nxt := 0, rcv_wnd := - 1, rcv_up := 0, irs := 0, dupacks := 0, syn_rexmit_count := 0,
     syn_rexmit_timeout := 0, fin_ack_rcvd := False, send_fin := False, snd_fin_seq := 0,
     fin_rcvd := False, rcv_fin_seq := 0\<rparr>"

definition initBaseAlgStateVariables :: "TCPConnection \<Rightarrow> TCPConnection" where
  "initBaseAlgStateVariables c = c\<lparr>delayed_acks_enabled := False, nagle_enabled := True,
     rexmit_count := 0, rexmit_timeout := 3, snd_cwnd := 0, rtseq := 0, rtseq_sendtime := 0,
     srtt := 0, rttvar := 3 / 4\<rparr>"

definition initTahoeRenoStateVariables :: "TCPConnection \<Rightarrow> TCPConnection" where
  "initTahoeRenoStateVariables c = c\<lparr>ssthresh := 65535\<rparr>"

definition createStateVariables :: "TCPConnection \<Rightarrow> TCPConnection" where
  "createStateVariables c =
     initTahoeRenoStateVariables (initBaseAlgStateVariables (initStateVariables c))"

text \<open>
  The constructor of a live connection.  Queues, algorithm and state variables are null
  pointers until the connection is opened; the model gives the state variables the values of
  their constructors and the queues and the algorithm default values, and every
  operation that would dereference one of these pointers in state \<open>TCP_S_INIT\<close> is an error there.
\<close>

definition newTCPConnection :: "nat \<Rightarrow> simtime \<Rightarrow> int \<Rightarrow> int \<Rightarrow> TCPConnection" where
  "newTCPConnection ptr t gate cid =
     \<lparr>active = False, fork = False, snd_mss = - 1, snd_una = 0, snd_nxt = 0, snd_max = 0,
      snd_wnd = 0, snd_up = 0, snd_wl1 = 0, snd_wl2 = 0, iss = 0, rcv_nxt = 0, rcv_wnd = - 1,
      rcv_up = 0, irs = 0, dupacks = 0, syn_rexmit_count = 0, syn_rexmit_timeout = 0,
      fin_ack_rcvd = False, send_fin = False, snd_fin_seq = 0, fin_rcvd = False, rcv_fin_seq = 0,
      delayed_acks_enabled = False, nagle_enabled = True, rexmit_count = 0, rexmit_timeout = 3,
      snd_cwnd = 0, rtseq = 0, rtseq_sendtime = 0, srtt = 0, rttvar = 3 / 4, ssthresh = 65535,
      self = ptr, appGateIndex = gate, connId = cid,
      localAddr = unspecifiedAddr, remoteAddr = unspecifiedAddr,
      localPort = - 1, remotePort = - 1, fsm = TCP_S_INIT,
      sendQueue = VirtualDataSendQueue vsq_new, receiveQueue = VirtualDataRcvQueue (vrq_new 0),
      tcpAlgorithm = DumbTCP,
      timers = (\<lambda>_. Deleted)(The2MSL := Idle, ConnEstab := Idle, FinWait2 := Idle, SynRexmit := Idle),
      now = t, outbox = []\<rparr>"

lemma newTCPConnection_state [simp]:
  "createStateVariables (newTCPConnection ptr t gate cid) = newTCPConnection ptr t gate cid"
  by (simp add: newTCPConnection_def createStateVariables_def initStateVariables_def
      initBaseAlgStateVariables_def initTahoeRenoStateVariables_def)

end
