(* ===== verification/TCP_Util.thy ===== *)
theory TCP_Util
  imports TCP_State
begin

text \<open>
  \<open>TCPConnectionUtil.cc\<close>: sending segments and indications, opening the
  connection's state block, choosing the initial sequence number, and the transmission of data:
  \<open>sendSegment\<close>, \<open>sendData\<close>, \<open>sendProbe\<close>, \<open>retransmitOneSegment\<close>, \<open>retransmitData\<close>.  These
  call back into the algorithm object (\<open>ackSent\<close>, \<open>dataSent\<close>), so the hooks of
  \<open>TCPBaseAlg\<close> and \<open>DumbTCP\<close> that only touch timers come first.

  Statistics (\<open>cOutVector\<close>) and log output are left out.  The byte length of a packet is
  a function of its payload length and is not kept.
\<close>

section \<open>Sending\<close>

definition emit :: "tcp_out \<Rightarrow> TCPConnection \<Rightarrow> TCPConnection" where
  "emit m c = c\<lparr>outbox := outbox c @ [m]\<rparr>"

text \<open>The static \<open>sendToIP\<close>, and the member function, which fills in the ports first.\<close>

definition sendToIP_addr :: "TCPSegment \<Rightarrow> IPvXAddress \<Rightarrow> IPvXAddress \<Rightarrow> TCPConnection \<Rightarrow> TCPConnection res" where
  "sendToIP_addr seg src dest c =
     (if \<not> isIPv6 dest
      then bindE (get4 src) (\<lambda>s. bindE (get4 dest) (\<lambda>d. Inr (emit (ToIPv4 seg s d) c)))
      else bindE (get6 src) (\<lambda>s. bindE (get6 dest) (\<lambda>d. Inr (emit (ToIPv6 seg s d) c))))"

definition sendToIP :: "TCPSegment \<Rightarrow> TCPConnection \<Rightarrow> TCPConnection res" where
  "sendToIP seg c =
     (let seg = seg\<lparr>srcPort := c_short (localPort c), destPort := c_short (remotePort c)\<rparr>
      in if \<not> isIPv6 (remoteAddr c)
         then bindE (get4 (localAddr c)) (\<lambda>s. bindE (get4 (remoteAddr c)) (\<lambda>d. Inr (emit (ToIPv4 seg s d) c)))
         else bindE (get6 (localAddr c)) (\<lambda>s. bindE (get6 (remoteAddr c)) (\<lambda>d. Inr (emit (ToIPv6 seg s d) c))))"

definition sendIndicationToApp :: "TcpStatusInd \<Rightarrow> TCPConnection \<Rightarrow> TCPConnection res" where
  "sendIndicationToApp code c = Inr (emit (ToAppIndication (appGateIndex c) (connId c) code) c)"

definition signalConnectionTimeout :: "TCPConnection \<Rightarrow> TCPConnection res" where
  "signalConnectionTimeout c = sendIndicationToApp TCP_I_TIMED_OUT c"

definition sendEstabIndicationToApp :: "TCPConnection \<Rightarrow> TCPConnection res" where
  "sendEstabIndicationToApp c = Inr (emit (ToAppEstablished (appGateIndex c) (connId c)
     (localAddr c) (remoteAddr c) (localPort c) (remotePort c)) c)"

text \<open>\<open>sendToApp\<close> of a data packet, with the connection id attached as control info.\<close>

definition sendToApp :: "cPacket \<Rightarrow> TCPConnection \<Rightarrow> TCPConnection res" where
  "sendToApp pk c = Inr (emit (ToAppData (appGateIndex c) (connId c) pk) c)"

section \<open>Hooks of the algorithms that touch timers only\<close>

definition REXMIT_TIMEOUT :: simtime where "REXMIT_TIMEOUT = 2"

definition base_startRexmitTimer :: "TCPConnection \<Rightarrow> TCPConnection res" where
  "base_startRexmitTimer c = scheduleTimeout Rexmit (rexmit_timeout c) (c\<lparr>rexmit_count := 0\<rparr>)"

definition base_ackSent :: "TCPConnection \<Rightarrow> TCPConnection res" where
  "base_ackSent c =
     (if timers c DelayedAck = Deleted then Inl NullPointer
      else whenE (is_scheduled DelayedAck c) (cancelEvent DelayedAck) c)"

definition base_dataSent :: "u32 \<Rightarrow> TCPConnection \<Rightarrow> TCPConnection res" where
  "base_dataSent fromseq c =
     (if timers c Rexmit = Deleted then Inl NullPointer
      else bindE (whenE (\<not> is_scheduled Rexmit c) base_startRexmitTimer c)
        (\<lambda>c. Inr (if rtseq_sendtime c = 0 then c\<lparr>rtseq := fromseq, rtseq_sendtime := now c\<rparr> else c)))"

definition dumb_ackSent :: "TCPConnection \<Rightarrow> TCPConnection res" where
  "dumb_ackSent c = Inr c"

definition dumb_dataSent :: "u32 \<Rightarrow> TCPConnection \<Rightarrow> TCPConnection res" where
  "dumb_dataSent fromseq c =
     (if timers c Rexmit = Deleted then Inl NullPointer
      else bindE (whenE (is_scheduled Rexmit c) (cancelEvent Rexmit) c)
        (scheduleTimeout Rexmit REXMIT_TIMEOUT))"

text \<open>Dynamic dispatch: only \<open>DumbTCP\<close> overrides the versions of \<open>TCPBaseAlg\<close>.\<close>

definition ackSent :: "TCPConnection \<Rightarrow> TCPConnection res" where
  "ackSent c = (if tcpAlgorithm c = DumbTCP then dumb_ackSent c else base_ackSent c)"

definition dataSent :: "u32 \<Rightarrow> TCPConnection \<Rightarrow> TCPConnection res" where
  "dataSent fromseq c = (if tcpAlgorithm c = DumbTCP then dumb_dataSent fromseq c else base_dataSent fromseq c)"

section \<open>Opening\<close>

record TCPParams =
  par_mss :: int
  par_advertisedWindow :: int
  par_sendQueueClass :: string
  par_receiveQueueClass :: string
  par_tcpAlgorithmClass :: string

record TCPOpenCommand =
  oc_localAddr :: IPvXAddress
  oc_remoteAddr :: IPvXAddress
  oc_localPort :: int
  oc_remotePort :: int
  oc_fork :: bool
  oc_sendQueueClass :: string
  oc_receiveQueueClass :: string
  oc_tcpAlgorithmClass :: string

text \<open>
  \<open>createOne\<close> looks a class up by name; the classes of the repository are known, any other
  name is an error.
\<close>

definition createSendQueue :: "string \<Rightarrow> TCPSendQueue res" where
  "createSendQueue cls =
     (if cls = ''TCPVirtualDataSendQueue'' then Inr (VirtualDataSendQueue vsq_new)
      else if cls = ''TCPMsgBasedSendQueue'' then Inr (MsgBasedSendQueue msq_new)
      else Inl (RuntimeError ''class not found''))"

definition createReceiveQueue :: "string \<Rightarrow> TCPReceiveQueue res" where
  "createReceiveQueue cls =
     (if cls = ''TCPVirtualDataRcvQueue'' then Inr (VirtualDataRcvQueue (vrq_new 0))
      else if cls = ''TCPMsgBasedRcvQueue'' then Inr (MsgBasedRcvQueue (mrq_new 0))
      else Inl (RuntimeError ''class not found''))"

definition createAlgorithm :: "string \<Rightarrow> TCPAlgorithmClass res" where
  "createAlgorithm cls =
     (if cls = ''DumbTCP'' then Inr DumbTCP
      else if cls = ''TCPNoCongestionControl'' then Inr TCPNoCongestionControl
      else if cls = ''TCPTahoe'' then Inr TCPTahoe
      else if cls = ''TCPReno'' then Inr TCPReno
      else Inl (RuntimeError ''class not found''))"

definition configureStateVariables :: "TCPParams \<Rightarrow> TCPConnection \<Rightarrow> TCPConnection" where
  "configureStateVariables p c =
     c\<lparr>snd_mss := word_of_int (par_mss p), rcv_wnd := word_of_int (par_advertisedWindow p)\<rparr>"

text \<open>\<open>initialize\<close> of the algorithms: their timers come into being.\<close>

definition dumb_initialize :: "TCPConnection \<Rightarrow> TCPConnection" where
  "dumb_initialize c = c\<lparr>timers := (timers c)(Rexmit := Idle)\<rparr>"

definition base_initialize :: "TCPConnection \<Rightarrow> TCPConnection" where
  "base_initialize c =
     c\<lparr>timers := (timers c)(Rexmit := Idle, Persist := Idle, DelayedAck := Idle, KeepAlive := Idle)\<rparr>"

definition nocc_initialize :: "TCPConnection \<Rightarrow> TCPConnection" where
  "nocc_initialize c = (base_initialize c)\<lparr>snd_cwnd := 0x7fffffff\<rparr>"

definition alg_initialize :: "TCPConnection \<Rightarrow> TCPConnection" where
  "alg_initialize c = (case tcpAlgorithm c of
       DumbTCP \<Rightarrow> dumb_initialize c
     | TCPNoCongestionControl \<Rightarrow> nocc_initialize c
     | _ \<Rightarrow> base_initialize c)"

definition initConnection :: "TCPParams \<Rightarrow> TCPOpenCommand \<Rightarrow> TCPConnection \<Rightarrow> TCPConnection res" where
  "initConnection p cmd c =
     (let sqc = if oc_sendQueueClass cmd = [] then par_sendQueueClass p else oc_sendQueueClass cmd;
          rqc = if oc_receiveQueueClass cmd = [] then par_receiveQueueClass p else oc_receiveQueueClass cmd;
          algc = if oc_tcpAlgorithmClass cmd = [] then par_tcpAlgorithmClass p else oc_tcpAlgorithmClass cmd
      in bindE (createSendQueue sqc) (\<lambda>sq.
         bindE (createReceiveQueue rqc) (\<lambda>rq.
         bindE (createAlgorithm algc) (\<lambda>alg.
           Inr (alg_initialize (configureStateVariables p (createStateVariables
             (c\<lparr>sendQueue := sq, receiveQueue := rq, tcpAlgorithm := alg\<rparr>))))))))"

fun emptyLike_sq :: "TCPSendQueue \<Rightarrow> TCPSendQueue" where
  "emptyLike_sq (VirtualDataSendQueue q) = VirtualDataSendQueue vsq_new"
| "emptyLike_sq (MsgBasedSendQueue q) = MsgBasedSendQueue msq_new"

fun emptyLike_rq :: "TCPReceiveQueue \<Rightarrow> TCPReceiveQueue" where
  "emptyLike_rq (VirtualDataRcvQueue q) = VirtualDataRcvQueue (vrq_new 0)"
| "emptyLike_rq (MsgBasedRcvQueue q) = MsgBasedRcvQueue (mrq_new 0)"

text \<open>
  \<open>cloneListeningConnection\<close> returns the clone, and changes this connection too:
  it calls \<open>configureStateVariables\<close> without \<open>conn->\<close>, so on itself.
\<close>

definition cloneListeningConnection ::
    "TCPParams \<Rightarrow> nat \<Rightarrow> TCPConnection \<Rightarrow> TCPConnection \<times> TCPConnection" where
  "cloneListeningConnection p ptr c =
     (let conn = (newTCPConnection ptr (now c) (appGateIndex c) (connId c))
            \<lparr>sendQueue := emptyLike_sq (sendQueue c), receiveQueue := emptyLike_rq (receiveQueue c),
             tcpAlgorithm := tcpAlgorithm c\<rparr>;
          c = configureStateVariables p c;
          conn = alg_initialize conn
      in (conn\<lparr>active := False, fork := True, localAddr := localAddr c, localPort := localPort c,
               fsm := TCP_S_LISTEN\<rparr>, c))"

text \<open>
  The clock is read in doubles: \<open>fmod(t * 250000, 2^32)\<close>, then truncated.  The model reads
  it in exact rationals, for a time that is not negative.
\<close>

definition selectInitialSeqNum :: "TCPConnection \<Rightarrow> TCPConnection" where
  "selectInitialSeqNum c =
     (let i = word_of_int \<lfloor>now c * 250000\<rfloor>
      in c\<lparr>iss := i, snd_una := i, snd_nxt := i, snd_max := i,
           sendQueue := sq_init (i + 1) (sendQueue c)\<rparr>)"

section \<open>Acceptability\<close>

definition isSegmentAcceptable :: "TCPSegment \<Rightarrow> TCPConnection \<Rightarrow> bool" where
  "isSegmentAcceptable seg c \<longleftrightarrow>
     seqGE (sequenceNo seg) (rcv_nxt c) \<and> seqLE (seg_end seg) (rcv_nxt c + rcv_wnd c)"

section \<open>Control segments\<close>

definition sendSyn :: "TCPConnection \<Rightarrow> TCPConnection res" where
  "sendSyn c =
     (if isUnspecified (remoteAddr c) \<or> remotePort c = - 1
      then Inl (RuntimeError ''Error processing command OPEN_ACTIVE: foreign socket unspecified'')
      else if localPort c = - 1
      then Inl (RuntimeError ''Error processing command OPEN_ACTIVE: local port unspecified'')
      else sendToIP (createTCPSegment\<lparr>sequenceNo := iss c, synBit := True, seg_window := ucast (rcv_wnd c)\<rparr>)
             (c\<lparr>snd_max := iss c + 1, snd_nxt := iss c + 1\<rparr>))"

definition sendSynAck :: "TCPConnection \<Rightarrow> TCPConnection res" where
  "sendSynAck c =
     sendToIP (createTCPSegment\<lparr>sequenceNo := iss c, ackNo := rcv_nxt c, synBit := True,
         ackBit := True, seg_window := ucast (rcv_wnd c)\<rparr>)
       (c\<lparr>snd_max := iss c + 1, snd_nxt := iss c + 1\<rparr>)"

definition sendRst_addr ::
    "u32 \<Rightarrow> IPvXAddress \<Rightarrow> IPvXAddress \<Rightarrow> int \<Rightarrow> int \<Rightarrow> TCPConnection \<Rightarrow> TCPConnection res" where
  "sendRst_addr seq src dest sport dport c =
     sendToIP_addr (createTCPSegment\<lparr>srcPort := c_short sport, destPort := c_short dport, rstBit := True,
       sequenceNo := seq\<rparr>) src dest c"

definition sendRst :: "u32 \<Rightarrow> TCPConnection \<Rightarrow> TCPConnection res" where
  "sendRst seqNo c = sendRst_addr seqNo (localAddr c) (remoteAddr c) (localPort c) (remotePort c) c"

definition sendRstAck ::
    "u32 \<Rightarrow> u32 \<Rightarrow> IPvXAddress \<Rightarrow> IPvXAddress \<Rightarrow> int \<Rightarrow> int \<Rightarrow> TCPConnection \<Rightarrow> TCPConnection res" where
  "sendRstAck seq ack src dest sport dport c =
     sendToIP_addr (createTCPSegment\<lparr>srcPort := c_short sport, destPort := c_short dport, rstBit := True,
       ackBit := True, sequenceNo := seq, ackNo := ack\<rparr>) src dest c"

definition sendAck :: "TCPConnection \<Rightarrow> TCPConnection res" where
  "sendAck c =
     bindE (sendToIP (createTCPSegment\<lparr>ackBit := True, sequenceNo := snd_nxt c, ackNo := rcv_nxt c,
         seg_window := ucast (rcv_wnd c)\<rparr>) c) ackSent"

definition sendFin :: "TCPConnection \<Rightarrow> TCPConnection res" where
  "sendFin c =
     bindE (sendToIP (createTCPSegment\<lparr>finBit := True, ackBit := True, ackNo := rcv_nxt c,
         sequenceNo := snd_nxt c, seg_window := ucast (rcv_wnd c)\<rparr>) c) ackSent"

section \<open>Data\<close>

definition sendSegment :: "int \<Rightarrow> TCPConnection \<Rightarrow> TCPConnection res" where
  "sendSegment bytes c =
     bindE (sq_createSegmentWithBytes (snd_nxt c) bytes (sendQueue c)) (\<lambda>seg.
       let seg = seg\<lparr>ackNo := rcv_nxt c, ackBit := True, seg_window := ucast (rcv_wnd c)\<rparr>
       in if bytes \<noteq> payloadLength seg then Inl (AssertFailed ''bytes==tcpseg->getPayloadLength()'')
          else let c = c\<lparr>snd_nxt := snd_nxt c + word_of_int bytes\<rparr>
               in if send_fin c \<and> snd_nxt c = snd_fin_seq c
                  then sendToIP (seg\<lparr>finBit := True\<rparr>) (c\<lparr>snd_nxt := snd_fin_seq c + 1\<rparr>)
                  else sendToIP seg c)"

text \<open>
  The loop that sends whole segments.  With a zero \<open>snd_mss\<close> it never ends:
  the first round may still set the FIN and move \<open>snd_nxt\<close>, and the second one finds the state
  in which all the others repeat.
\<close>

lemma mss_progress: "m \<noteq> 0 \<Longrightarrow> unat (m :: u32) \<le> n \<Longrightarrow> n - unat m < n"
  using unat_gt_0 [of m] by linarith

function sendWholeSegments :: "nat \<Rightarrow> TCPConnection \<Rightarrow> TCPConnection res" where
  "sendWholeSegments bytesToSend c =
     (if snd_mss c = 0
      then bindE (sendSegment 0 c) (\<lambda>c. bindE (sendSegment 0 c) (\<lambda>_. Inl Nontermination))
      else if unat (snd_mss c) \<le> bytesToSend
      then (case sendSegment (c_int (uint (snd_mss c))) c of
              Inl e \<Rightarrow> Inl e
            | Inr c' \<Rightarrow> sendWholeSegments (bytesToSend - unat (snd_mss c)) c')
      else Inr c)"
  by pat_completeness auto
termination
  by (relation "measure fst") (auto dest: mss_progress)

text \<open>The second half of \<open>sendData\<close>: \<open>bytesToSend\<close> octets go out, and the algorithm is told.\<close>

definition sendBytes :: "nat \<Rightarrow> TCPConnection \<Rightarrow> (bool \<times> TCPConnection) res" where
  "sendBytes bytesToSend c =
     (let old_snd_nxt = snd_nxt c
      in bindE (assertE ''bytesToSend>0'' (bytesToSend > 0) c) (\<lambda>c.
         bindE (if bytesToSend \<le> unat (snd_mss c)
                then sendSegment (c_int (int bytesToSend)) c
                else sendWholeSegments bytesToSend c) (\<lambda>c.
         let c = c\<lparr>snd_max := snd_nxt c\<rparr>
         in bindE (ackSent c) (\<lambda>c. bindE (dataSent old_snd_nxt c) (\<lambda>c. Inr (True, c))))))"

definition sendData :: "bool \<Rightarrow> int \<Rightarrow> TCPConnection \<Rightarrow> (bool \<times> TCPConnection) res" where
  "sendData fullSegmentsOnly congestionWindow c =
     (let c = c\<lparr>snd_nxt := snd_max c\<rparr>;
          buffered = sq_getBytesAvailable (snd_nxt c) (sendQueue c);
          wnd = uint (snd_wnd c);
          maxWindow = (if 0 \<le> congestionWindow \<and> congestionWindow < wnd then congestionWindow else wnd);
          effectiveWin = maxWindow - uint (snd_nxt c - snd_una c);
          bytesToSend = (if nat effectiveWin > buffered then buffered else nat effectiveWin)
      in if buffered = 0 then Inr (False, c)
         else if effectiveWin \<le> 0 then Inr (False, c)
         else if fullSegmentsOnly \<and> bytesToSend < unat (snd_mss c) then Inr (False, c)
         else sendBytes bytesToSend c)"

definition sendProbe :: "TCPConnection \<Rightarrow> (bool \<times> TCPConnection) res" where
  "sendProbe c =
     (let c = c\<lparr>snd_nxt := snd_max c\<rparr>; old_snd_nxt = snd_nxt c
      in if sq_getBytesAvailable (snd_nxt c) (sendQueue c) = 0 then Inr (False, c)
         else bindE (sendSegment 1 c) (\<lambda>c.
              let c = c\<lparr>snd_max := snd_nxt c\<rparr>
              in bindE (ackSent c) (\<lambda>c. bindE (dataSent old_snd_nxt c) (\<lambda>c. Inr (True, c)))))"

definition retransmitOneSegment :: "TCPConnection \<Rightarrow> TCPConnection res" where
  "retransmitOneSegment c =
     (let c = c\<lparr>snd_nxt := snd_una c\<rparr>;
          bytes = unat (min (snd_mss c) (snd_max c - snd_nxt c))
      in bindE (assertE ''bytes!=0'' (bytes \<noteq> 0) c) (\<lambda>c.
         bindE (sendSegment (c_int (int bytes)) c) ackSent))"

text \<open>
  The loop of \<open>retransmitData\<close>.  A round that sends no byte and no FIN leaves \<open>snd_nxt\<close> and
  \<open>bytesToSend\<close> as they are and is repeated forever.
\<close>

function retransmitLoop :: "nat \<Rightarrow> TCPConnection \<Rightarrow> TCPConnection res" where
  "retransmitLoop bytesToSend c =
     (if bytesToSend = 0 then Inr c
      else let bytes = min (min bytesToSend (unat (snd_mss c)))
                         (sq_getBytesAvailable (snd_nxt c) (sendQueue c))
           in case sendSegment (c_int (int bytes)) c of
                Inl e \<Rightarrow> Inl e
              | Inr c' \<Rightarrow>
                  if send_fin c' \<and> snd_nxt c' = snd_fin_seq c' + 1 then Inr c'
                  else if bytes = 0 then Inl Nontermination
                  else retransmitLoop (bytesToSend - bytes) c')"
  by pat_completeness auto
termination
  by (relation "measure fst") auto

definition retransmitData :: "TCPConnection \<Rightarrow> TCPConnection res" where
  "retransmitData c =
     (let c = c\<lparr>snd_nxt := snd_una c\<rparr>;
          bytesToSend = unat (snd_max c - snd_nxt c)
      in bindE (assertE ''bytesToSend!=0'' (bytesToSend \<noteq> 0) c) (retransmitLoop bytesToSend))"

declare sendWholeSegments.simps [simp del] retransmitLoop.simps [simp del]

section \<open>The frame of the sending operations\<close>

text \<open>
  What sending and the hooks of the algorithms may touch: \<open>snd_nxt\<close> and \<open>snd_max\<close>, the
  variables of the algorithm, its timers, and the list of messages sent, which only grows.
  \<open>hook_view\<close> blanks these fields.
\<close>

definition hook_view :: "TCPConnection \<Rightarrow> TCPConnection" where
  "hook_view c = c\<lparr>snd_nxt := 0, snd_max := 0, rexmit_count := 0, rexmit_timeout := 0, snd_cwnd := 0,
     rtseq := 0, rtseq_sendtime := 0, srtt := 0, rttvar := 0, ssthresh := 0,
     timers := (timers c)(Rexmit := Deleted, Persist := Deleted, DelayedAck := Deleted, KeepAlive := Deleted),
     outbox := []\<rparr>"

definition hook_frame :: "TCPConnection \<Rightarrow> TCPConnection \<Rightarrow> bool" where
  "hook_frame c c' \<longleftrightarrow> hook_view c' = hook_view c \<and> (\<exists>ms. outbox c' = outbox c @ ms)"

lemma hook_frame_refl [simp]: "hook_frame c c"
  by (simp add: hook_frame_def)

lemma hook_frame_trans: "hook_frame a b \<Longrightarrow> hook_frame b c \<Longrightarrow> hook_frame a c"
  by (auto simp: hook_frame_def)

text \<open>The fields of \<open>hook_view\<close> that are not blanked are those of the connection.\<close>

lemma hook_view_sel:
    "fsm (hook_view c) = fsm c" "rcv_nxt (hook_view c) = rcv_nxt c"
    "rcv_wnd (hook_view c) = rcv_wnd c" "snd_una (hook_view c) = snd_una c"
    "snd_wnd (hook_view c) = snd_wnd c" "snd_mss (hook_view c) = snd_mss c"
    "iss (hook_view c) = iss c" "irs (hook_view c) = irs c" "sendQueue (hook_view c) = sendQueue c"
    "receiveQueue (hook_view c) = receiveQueue c" "tcpAlgorithm (hook_view c) = tcpAlgorithm c"
    "send_fin (hook_view c) = send_fin c" "snd_fin_seq (hook_view c) = snd_fin_seq c"
    "fin_ack_rcvd (hook_view c) = fin_ack_rcvd c" "fin_rcvd (hook_view c) = fin_rcvd c"
    "rcv_fin_seq (hook_view c) = rcv_fin_seq c" "active (hook_view c) = active c"
    "fork (hook_view c) = fork c" "self (hook_view c) = self c" "connId (hook_view c) = connId c"
    "appGateIndex (hook_view c) = appGateIndex c" "localAddr (hook_view c) = localAddr c"
    "remoteAddr (hook_view c) = remoteAddr c" "localPort (hook_view c) = localPort c"
    "remotePort (hook_view c) = remotePort c" "now (hook_view c) = now c"
    "dupacks (hook_view c) = dupacks c" "syn_rexmit_count (hook_view c) = syn_rexmit_count c"
    "syn_rexmit_timeout (hook_view c) = syn_rexmit_timeout c" "snd_wl1 (hook_view c) = snd_wl1 c"
    "snd_wl2 (hook_view c) = snd_wl2 c"
    "delayed_acks_enabled (hook_view c) = delayed_acks_enabled c"
    "nagle_enabled (hook_view c) = nagle_enabled c"
  by (simp_all add: hook_view_def)

lemma hook_frame_fields:
  assumes "hook_frame c c'"
  shows "fsm c' = fsm c" "rcv_nxt c' = rcv_nxt c" "rcv_wnd c' = rcv_wnd c" "snd_una c' = snd_una c"
    "snd_wnd c' = snd_wnd c" "snd_mss c' = snd_mss c" "iss c' = iss c" "irs c' = irs c"
    "sendQueue c' = sendQueue c" "receiveQueue c' = receiveQueue c"
    "tcpAlgorithm c' = tcpAlgorithm c" "send_fin c' = send_fin c" "snd_fin_seq c' = snd_fin_seq c"
    "fin_ack_rcvd c' = fin_ack_rcvd c" "fin_rcvd c' = fin_rcvd c" "rcv_fin_seq c' = rcv_fin_seq c"
    "active c' = active c" "fork c' = fork c" "self c' = self c" "connId c' = connId c"
    "appGateIndex c' = appGateIndex c" "localAddr c' = localAddr c" "remoteAddr c' = remoteAddr c"
    "localPort c' = localPort c" "remotePort c' = remotePort c" "now c' = now c"
    "dupacks c' = dupacks c" "syn_rexmit_count c' = syn_rexmit_count c"
    "syn_rexmit_timeout c' = syn_rexmit_timeout c" "snd_wl1 c' = snd_wl1 c" "snd_wl2 c' = snd_wl2 c"
    "delayed_acks_enabled c' = delayed_acks_enabled c" "nagle_enabled c' = nagle_enabled c"
  using assms unfolding hook_frame_def by (metis hook_view_sel)+

text \<open>The timers that belong to the connection itself are outside the frame.\<close>

lemma hook_frame_timers:
  assumes "hook_frame c c'" "tm \<in> {The2MSL, ConnEstab, FinWait2, SynRexmit}"
  shows "timers c' tm = timers c tm"
proof -
  have "timers (hook_view c') tm = timers (hook_view c) tm"
    using assms(1) by (simp add: hook_frame_def)
  then show ?thesis using assms(2) by (auto simp: hook_view_def)
qed

named_theorems frame_intros \<open>operations stay inside the frame\<close>

lemma hook_frame_upd [frame_intros]:
  "hook_frame a c \<Longrightarrow> hook_frame a (c\<lparr>snd_nxt := x\<rparr>)"
  "hook_frame a c \<Longrightarrow> hook_frame a (c\<lparr>snd_max := x\<rparr>)"
  "hook_frame a c \<Longrightarrow> hook_frame a (c\<lparr>rexmit_count := i\<rparr>)"
  "hook_frame a c \<Longrightarrow> hook_frame a (c\<lparr>rexmit_timeout := t\<rparr>)"
  "hook_frame a c \<Longrightarrow> hook_frame a (c\<lparr>snd_cwnd := x\<rparr>)"
  "hook_frame a c \<Longrightarrow> hook_frame a (c\<lparr>rtseq := x\<rparr>)"
  "hook_frame a c \<Longrightarrow> hook_frame a (c\<lparr>rtseq_sendtime := t\<rparr>)"
  "hook_frame a c \<Longrightarrow> hook_frame a (c\<lparr>srtt := t\<rparr>)"
  "hook_frame a c \<Longrightarrow> hook_frame a (c\<lparr>rttvar := t\<rparr>)"
  "hook_frame a c \<Longrightarrow> hook_frame a (c\<lparr>ssthresh := x\<rparr>)"
  by (auto simp: hook_frame_def hook_view_def)

lemma hook_frame_emit [frame_intros]: "hook_frame a c \<Longrightarrow> hook_frame a (emit m c)"
  by (auto simp: hook_frame_def hook_view_def emit_def)

abbreviation alg_timer :: "timer_id \<Rightarrow> bool" where
  "alg_timer tm \<equiv> tm \<in> {Rexmit, Persist, DelayedAck, KeepAlive}"

lemma hook_frame_timer_upd [frame_intros]:
  "hook_frame a c \<Longrightarrow> alg_timer tm \<Longrightarrow> hook_frame a (c\<lparr>timers := (timers c)(tm := x)\<rparr>)"
  by (auto simp: hook_frame_def hook_view_def fun_upd_twist)

lemma scheduleTimeout_frame [frame_intros]:
  "hook_frame a c \<Longrightarrow> alg_timer tm \<Longrightarrow> wpE (scheduleTimeout tm dt c) (hook_frame a)"
  by (auto simp: scheduleTimeout_def intro!: frame_intros split: timer.split)

lemma cancelEvent_frame [frame_intros]:
  "hook_frame a c \<Longrightarrow> alg_timer tm \<Longrightarrow> wpE (cancelEvent tm c) (hook_frame a)"
  by (auto simp: cancelEvent_def intro!: frame_intros split: timer.split)

text \<open>Sequencing, for operations that return a connection or a pair with one.\<close>

abbreviation snd_frame :: "TCPConnection \<Rightarrow> 'a \<times> TCPConnection \<Rightarrow> bool" where
  "snd_frame a p \<equiv> hook_frame a (snd p)"

lemma frame_bind [frame_intros]:
  "wpE m (hook_frame a) \<Longrightarrow> (\<And>x. hook_frame a x \<Longrightarrow> wpE (f x) (hook_frame a)) \<Longrightarrow>
     wpE (bindE m f) (hook_frame a)"
  "wpE m (hook_frame a) \<Longrightarrow> (\<And>x. hook_frame a x \<Longrightarrow> wpE (g x) (snd_frame a)) \<Longrightarrow>
     wpE (bindE m g) (snd_frame a)"
  "wpE m' (snd_frame a) \<Longrightarrow> (\<And>b x. hook_frame a x \<Longrightarrow> wpE (f' (b, x)) (hook_frame a)) \<Longrightarrow>
     wpE (bindE m' f') (hook_frame a)"
  "wpE m' (snd_frame a) \<Longrightarrow> (\<And>b x. hook_frame a x \<Longrightarrow> wpE (g' (b, x)) (snd_frame a)) \<Longrightarrow>
     wpE (bindE m' g') (snd_frame a)"
  by (auto simp: wpE_bindE elim!: wpE_mono)

lemma frame_when [frame_intros]:
  "hook_frame a c \<Longrightarrow> (b \<Longrightarrow> wpE (f c) (hook_frame a)) \<Longrightarrow> wpE (whenE b f c) (hook_frame a)"
  by (simp add: whenE_def)

lemma frame_assert [frame_intros]: "hook_frame a c \<Longrightarrow> wpE (assertE l b c) (hook_frame a)"
  by (simp add: assertE_def)

lemma sendToIP_frame [frame_intros]: "hook_frame a c \<Longrightarrow> wpE (sendToIP seg c) (hook_frame a)"
  by (auto simp: sendToIP_def Let_def wpE_iff bindE_eq_Inr intro!: frame_intros)

lemma sendToIP_addr_frame [frame_intros]: "hook_frame a c \<Longrightarrow> wpE (sendToIP_addr seg s d c) (hook_frame a)"
  by (auto simp: sendToIP_addr_def wpE_iff bindE_eq_Inr intro!: frame_intros)

lemma sendIndicationToApp_frame [frame_intros]: "hook_frame a c \<Longrightarrow> wpE (sendIndicationToApp i c) (hook_frame a)"
  by (simp add: sendIndicationToApp_def frame_intros)

lemma sendEstabIndicationToApp_frame [frame_intros]: "hook_frame a c \<Longrightarrow> wpE (sendEstabIndicationToApp c) (hook_frame a)"
  by (simp add: sendEstabIndicationToApp_def frame_intros)

lemma base_startRexmitTimer_frame [frame_intros]: "hook_frame a c \<Longrightarrow> wpE (base_startRexmitTimer c) (hook_frame a)"
  by (auto simp: base_startRexmitTimer_def intro!: frame_intros)

lemma ackSent_frame [frame_intros]: "hook_frame a c \<Longrightarrow> wpE (ackSent c) (hook_frame a)"
  by (auto simp: ackSent_def dumb_ackSent_def base_ackSent_def intro!: frame_intros)

lemma dataSent_frame [frame_intros]: "hook_frame a c \<Longrightarrow> wpE (dataSent s c) (hook_frame a)"
  by (auto simp: dataSent_def dumb_dataSent_def base_dataSent_def intro!: frame_intros)

lemma sendRst_addr_frame [frame_intros]: "hook_frame a c \<Longrightarrow> wpE (sendRst_addr q s d i j c) (hook_frame a)"
  by (auto simp: sendRst_addr_def intro!: frame_intros)

lemma sendRst_frame [frame_intros]: "hook_frame a c \<Longrightarrow> wpE (sendRst q c) (hook_frame a)"
  by (auto simp: sendRst_def intro!: frame_intros)

lemma sendAck_frame [frame_intros]: "hook_frame a c \<Longrightarrow> wpE (sendAck c) (hook_frame a)"
  by (auto simp: sendAck_def intro!: frame_intros)

lemma sendFin_frame [frame_intros]: "hook_frame a c \<Longrightarrow> wpE (sendFin c) (hook_frame a)"
  by (auto simp: sendFin_def intro!: frame_intros)

lemma sendSegment_frame [frame_intros]: "hook_frame a c \<Longrightarrow> wpE (sendSegment n c) (hook_frame a)"
  by (cases "sq_createSegmentWithBytes (snd_nxt c) n (sendQueue c)")
    (auto simp: sendSegment_def Let_def intro!: frame_intros)

lemma sendWholeSegments_frame [frame_intros]:
  "hook_frame a c \<Longrightarrow> wpE (sendWholeSegments n c) (hook_frame a)"
proof (induction n c rule: sendWholeSegments.induct)
  case (1 n c)
  have step: "wpE (sendSegment k c) (hook_frame a)" for k
    using "1.prems" by (rule sendSegment_frame)
  show ?case
    using 1 wpED [OF step]
    by (subst sendWholeSegments.simps) (auto intro!: frame_intros split: sum.split)
qed

lemma sendBytes_frame [frame_intros]: "hook_frame a c \<Longrightarrow> wpE (sendBytes n c) (snd_frame a)"
  by (auto simp: sendBytes_def Let_def intro!: frame_intros)

lemma sendData_frame [frame_intros]: "hook_frame a c \<Longrightarrow> wpE (sendData fs cw c) (snd_frame a)"
  by (auto simp: sendData_def Let_def intro!: frame_intros)

lemma sendProbe_frame [frame_intros]: "hook_frame a c \<Longrightarrow> wpE (sendProbe c) (snd_frame a)"
  by (auto simp: sendProbe_def Let_def intro!: frame_intros)

lemma retransmitOneSegment_frame [frame_intros]: "hook_frame a c \<Longrightarrow> wpE (retransmitOneSegment c) (hook_frame a)"
  by (auto simp: retransmitOneSegment_def Let_def intro!: frame_intros)

lemma retransmitLoop_frame [frame_intros]: "hook_frame a c \<Longrightarrow> wpE (retransmitLoop n c) (hook_frame a)"
proof (induction n c rule: retransmitLoop.induct)
  case (1 n c)
  have step: "wpE (sendSegment k c) (hook_frame a)" for k
    using "1.prems" by (rule sendSegment_frame)
  show ?case
    using 1 wpED [OF step]
    by (subst retransmitLoop.simps) (auto simp: Let_def intro!: frame_intros split: sum.split)
qed

lemma retransmitData_frame [frame_intros]: "hook_frame a c \<Longrightarrow> wpE (retransmitData c) (hook_frame a)"
  by (auto simp: retransmitData_def Let_def intro!: frame_intros)

end
