(* ===== verification/TCP_Transmit.thy ===== *)
theory TCP_Transmit
  imports TCP_Util
begin

text \<open>
  Correctness of the transmission of data: which segments \<open>sendSegment\<close>, \<open>sendData\<close>,
  \<open>retransmitOneSegment\<close> and \<open>retransmitData\<close> send, that the assertions of the
  queues hold while they do, and that their loops end.
\<close>

section \<open>Sending to IP\<close>

text \<open>Source and destination are of one family, or the source is not known yet.\<close>

definition ip_ok :: "TCPConnection \<Rightarrow> bool" where
  "ip_ok c \<longleftrightarrow> (isIPv6 (localAddr c) = isIPv6 (remoteAddr c) \<or>
      isIPv6 (remoteAddr c) \<and> isUnspecified (localAddr c))"

fun addr_words :: "IPvXAddress \<Rightarrow> u32 \<times> u32 \<times> u32 \<times> u32" where
  "addr_words (IPv4 a) = (0, 0, 0, 0)"
| "addr_words (IPv6 a b c d) = (a, b, c, d)"

text \<open>What \<open>sendToIP\<close> hands to IP for a segment.\<close>

definition ip_out :: "TCPConnection \<Rightarrow> TCPSegment \<Rightarrow> tcp_out" where
  "ip_out c seg =
     (let seg = seg\<lparr>srcPort := c_short (localPort c), destPort := c_short (remotePort c)\<rparr>
      in if \<not> isIPv6 (remoteAddr c) then ToIPv4 seg (addr_d0 (localAddr c)) (addr_d0 (remoteAddr c))
         else ToIPv6 seg (addr_words (localAddr c)) (addr_words (remoteAddr c)))"

lemma sendToIP_ok: "ip_ok c \<Longrightarrow> sendToIP seg c = Inr (emit (ip_out c seg) c)"
  by (cases "localAddr c"; cases "remoteAddr c")
    (auto simp: ip_ok_def ip_out_def sendToIP_def Let_def)

lemma ip_ok_cong [simp]:
  "ip_ok (c\<lparr>snd_nxt := x\<rparr>) = ip_ok c" "ip_ok (c\<lparr>snd_max := x\<rparr>) = ip_ok c"
  "ip_ok (c\<lparr>snd_una := x\<rparr>) = ip_ok c" "ip_ok (c\<lparr>outbox := ms\<rparr>) = ip_ok c"
  "ip_ok (emit m c) = ip_ok c" "ip_ok (c\<lparr>timers := ts\<rparr>) = ip_ok c"
  by (simp_all add: ip_ok_def emit_def)

lemma ip_out_cong [simp]:
  "ip_out (c\<lparr>snd_nxt := x\<rparr>) = ip_out c" "ip_out (c\<lparr>snd_max := x\<rparr>) = ip_out c"
  "ip_out (c\<lparr>snd_una := x\<rparr>) = ip_out c" "ip_out (c\<lparr>outbox := ms\<rparr>) = ip_out c"
  "ip_out (emit m c) = ip_out c"
  by (simp_all add: ip_out_def emit_def fun_eq_iff Let_def)

section \<open>Runs of segments\<close>

text \<open>A run of segments that carries the octets from one number up to another, each
  segment at most \<open>mss\<close> octets long.\<close>

fun run_of :: "nat \<Rightarrow> u32 \<Rightarrow> TCPSegment list \<Rightarrow> u32 \<Rightarrow> bool" where
  "run_of mss s [] e \<longleftrightarrow> s = e"
| "run_of mss s (g # gs) e \<longleftrightarrow>
     sequenceNo g = s \<and> 0 \<le> payloadLength g \<and> payloadLength g \<le> int mss \<and> run_of mss (seg_end g) gs e"

lemma run_of_append: "run_of k s (gs @ hs) e \<longleftrightarrow> (\<exists>m. run_of k s gs m \<and> run_of k m hs e)"
  by (induction gs arbitrary: s) auto

definition plain_ack :: "TCPConnection \<Rightarrow> TCPSegment \<Rightarrow> bool" where
  "plain_ack c g \<longleftrightarrow> ackBit g \<and> ackNo g = rcv_nxt c \<and> seg_window g = ucast (rcv_wnd c) \<and>
     \<not> synBit g \<and> \<not> rstBit g"

section \<open>One segment\<close>

text \<open>The position of a number in the send buffer, and the length of the buffer.\<close>

abbreviation boff :: "TCPConnection \<Rightarrow> u32 \<Rightarrow> nat" where
  "boff c x \<equiv> soff (sq_qbegin (sendQueue c)) x"

abbreviation bend :: "TCPConnection \<Rightarrow> u32" where
  "bend c \<equiv> sq_getBufferEndSeq (sendQueue c)"

abbreviation blen :: "TCPConnection \<Rightarrow> nat" where
  "blen c \<equiv> boff c (bend c)"

definition reaches_fin :: "TCPConnection \<Rightarrow> u32 \<Rightarrow> bool" where
  "reaches_fin c x \<longleftrightarrow> send_fin c \<and> x = snd_fin_seq c"

lemma sendSegment_ok:
  assumes q: "sq_invar (sendQueue c)" and n: "boff c (snd_nxt c) + n \<le> blen c" and ip: "ip_ok c"
  obtains g where "sendSegment (c_int (int n)) c =
      Inr (c\<lparr>snd_nxt := (let x = snd_nxt c + of_nat n in if reaches_fin c x then x + 1 else x),
             outbox := outbox c @ [ip_out c g]\<rparr>)"
    "sequenceNo g = snd_nxt c" "payloadLength g = int n" "plain_ack c g"
    "finBit g = reaches_fin c (snd_nxt c + of_nat n)"
proof -
  have nle: "n \<le> bytesAvailable (bend c) (snd_nxt c)"
    using sq.available_eq [OF q] n by simp
  have nlt: "n < half"
    using n sq.invar_len [OF q] by simp
  obtain s where s: "sq_createSegmentWithBytes (snd_nxt c) (int n) (sendQueue c) = Inr s"
      "sequenceNo s = snd_nxt c" "payloadLength s = int n" "\<not> synBit s" "\<not> finBit s" "\<not> rstBit s"
    using sq.createSeg_available [OF q _ nle] n by auto
  let ?g = "s\<lparr>ackNo := rcv_nxt c, ackBit := True, seg_window := ucast (rcv_wnd c),
      finBit := reaches_fin c (snd_nxt c + of_nat n)\<rparr>"
  have "sendSegment (c_int (int n)) c =
      Inr (c\<lparr>snd_nxt := (let x = snd_nxt c + of_nat n in if reaches_fin c x then x + 1 else x),
             outbox := outbox c @ [ip_out c ?g]\<rparr>)"
  proof (cases "reaches_fin c (snd_nxt c + of_nat n)")
    case True
    then have "send_fin c" "snd_nxt c + of_nat n = snd_fin_seq c" by (simp_all add: reaches_fin_def)
    then show ?thesis
      using nlt s ip by (simp add: sendSegment_def reaches_fin_def sendToIP_ok emit_def)
  next
    case False
    then have f: "\<not> (send_fin c \<and> snd_nxt c + of_nat n = snd_fin_seq c)" by (simp add: reaches_fin_def)
    have fb: "s\<lparr>ackNo := a, ackBit := True, seg_window := w, finBit := False\<rparr> =
        s\<lparr>ackNo := a, ackBit := True, seg_window := w\<rparr>" for a w
      using s(5) by (cases s) simp
    show ?thesis
      using nlt s ip f
      by (simp add: sendSegment_def reaches_fin_def sendToIP_ok emit_def fb del: de_Morgan_conj)
  qed
  then show thesis
    using s by (intro that [of ?g]) (simp_all add: plain_ack_def)
qed

lemma sent_cong [simp]:
  "plain_ack (c\<lparr>snd_nxt := x, outbox := ms\<rparr>) = plain_ack c"
  "reaches_fin (c\<lparr>snd_nxt := x, outbox := ms\<rparr>) = reaches_fin c"
  "plain_ack (c\<lparr>snd_nxt := x\<rparr>) = plain_ack c" "reaches_fin (c\<lparr>snd_nxt := x\<rparr>) = reaches_fin c"
  by (simp_all add: plain_ack_def reaches_fin_def fun_eq_iff)

section \<open>Whole segments\<close>

definition fin_at_end :: "TCPConnection \<Rightarrow> bool" where
  "fin_at_end c \<longleftrightarrow> (send_fin c \<longrightarrow> snd_fin_seq c = bend c)"

lemma boff_add: "sq_invar (sendQueue c) \<Longrightarrow> boff c x + n \<le> blen c \<Longrightarrow> boff c (x + of_nat n) = boff c x + n"
  using sq.invar_len [of "sendQueue c"] by (intro soff_of_nat) simp

lemma reaches_fin_end:
  assumes "fin_at_end c" "reaches_fin c (x + of_nat n)" "sq_invar (sendQueue c)" "boff c x + n \<le> blen c"
  shows "boff c x + n = blen c"
  using assms boff_add [OF assms(3,4)] by (simp add: fin_at_end_def reaches_fin_def)

text \<open>Where the loop ends: after \<open>n div mss\<close> segments, or one beyond when the FIN went along.\<close>

definition after_run :: "TCPConnection \<Rightarrow> u32 \<Rightarrow> u32" where
  "after_run c x = (if reaches_fin c x then x + 1 else x)"

lemma sendWholeSegments_ok:
  assumes "sq_invar (sendQueue c)" "boff c (snd_nxt c) + n \<le> blen c" "ip_ok c" "snd_mss c \<noteq> 0"
    and "fin_at_end c"
  shows "\<exists>gs. sendWholeSegments n c =
      Inr (c\<lparr>snd_nxt := (let x = snd_nxt c + of_nat (n div unat (snd_mss c) * unat (snd_mss c))
                         in if gs = [] then x else after_run c x),
             outbox := outbox c @ map (ip_out c) gs\<rparr>) \<and>
    length gs = n div unat (snd_mss c) \<and>
    run_of (unat (snd_mss c)) (snd_nxt c) gs
      (snd_nxt c + of_nat (n div unat (snd_mss c) * unat (snd_mss c))) \<and>
    (\<forall>g \<in> set gs. plain_ack c g \<and> payloadLength g = int (unat (snd_mss c)))"
  using assms
proof (induction n c rule: sendWholeSegments.induct)
  case (1 n c)
  let ?m = "unat (snd_mss c)" and ?x = "snd_nxt c + of_nat (unat (snd_mss c))"
  have m0: "0 < ?m" using "1.prems"(4) by (simp add: unat_gt_0)
  show ?case
  proof (cases "?m \<le> n")
    case False
    then have "n div ?m = 0" by simp
    then show ?thesis
      using "1.prems"(4) False by (intro exI [of _ "[]"]) (simp add: sendWholeSegments.simps)
  next
    case True
    have le: "boff c (snd_nxt c) + ?m \<le> blen c" using True "1.prems"(2) by simp
    obtain g where g: "sendSegment (c_int (int ?m)) c =
          Inr (c\<lparr>snd_nxt := after_run c ?x, outbox := outbox c @ [ip_out c g]\<rparr>)"
        "sequenceNo g = snd_nxt c" "payloadLength g = int ?m" "plain_ack c g"
      using sendSegment_ok [OF "1.prems"(1) le "1.prems"(3)] unfolding after_run_def Let_def by metis
    have ge: "seg_end g = ?x" using g by (simp add: seg_end_def)
    let ?c = "c\<lparr>snd_nxt := after_run c ?x, outbox := outbox c @ [ip_out c g]\<rparr>"
    have unf: "sendWholeSegments n c = sendWholeSegments (n - ?m) ?c"
      using True "1.prems"(4) g(1) by (subst sendWholeSegments.simps) simp
    have dv: "n div ?m = Suc ((n - ?m) div ?m)" using True m0 by (simp add: le_div_geq)
    show ?thesis
    proof (cases "reaches_fin c ?x")
      case fin: True
      then have nm: "n = ?m"
        using reaches_fin_end [OF "1.prems"(5) fin "1.prems"(1) le] "1.prems"(2) True by simp
      have "sendWholeSegments (n - ?m) ?c = Inr ?c"
        using nm m0 "1.prems"(4) by (simp add: sendWholeSegments.simps)
      moreover have "n div ?m = 1" using nm m0 by simp
      ultimately show ?thesis
        using unf g ge by (intro exI [of _ "[g]"]) simp
    next
      case False
      then have ax: "after_run c ?x = ?x" by (simp add: after_run_def)
      have "boff c ?x = boff c (snd_nxt c) + ?m" by (rule boff_add [OF "1.prems"(1) le])
      then obtain gs where gs: "sendWholeSegments (n - ?m) ?c =
          Inr (?c\<lparr>snd_nxt := (let x = ?x + of_nat ((n - ?m) div ?m * ?m)
                             in if gs = [] then x else after_run ?c x),
                 outbox := outbox ?c @ map (ip_out ?c) gs\<rparr>)"
          "length gs = (n - ?m) div ?m" "run_of ?m ?x gs (?x + of_nat ((n - ?m) div ?m * ?m))"
          "\<forall>g \<in> set gs. plain_ack c g \<and> payloadLength g = int ?m"
        using "1.IH" [of ?c] g(1) True "1.prems" ax by (auto simp: fin_at_end_def)
      define y where "y = snd_nxt c + of_nat (n div ?m * ?m)"
      have eq: "?x + of_nat ((n - ?m) div ?m * ?m) = y"
        unfolding y_def dv by (simp add: algebra_simps)
      have fz: "gs = [] \<Longrightarrow> after_run c y = y"
        using gs(2) dv ax by (simp add: y_def)
      have "after_run ?c = after_run c" by (simp add: after_run_def fun_eq_iff)
      then have "sendWholeSegments n c =
          Inr (c\<lparr>snd_nxt := after_run c y, outbox := outbox c @ map (ip_out c) (g # gs)\<rparr>)"
        using unf gs(1) [unfolded eq] fz by (cases "gs = []") simp_all
      moreover have "run_of ?m (snd_nxt c) (g # gs) y"
        using gs(3) [unfolded eq] g(2,3) ge by simp
      ultimately show ?thesis
        unfolding y_def [symmetric] using gs(2,4) g(3,4) dv
        by (intro exI [of _ "g # gs"]) simp
    qed
  qed
qed

section \<open>Hooks that follow a transmission\<close>

definition alg_timers_ok :: "TCPConnection \<Rightarrow> bool" where
  "alg_timers_ok c \<longleftrightarrow> timers c Rexmit \<noteq> Deleted \<and>
     (tcpAlgorithm c \<noteq> DumbTCP \<longrightarrow>
        timers c DelayedAck \<noteq> Deleted \<and> timers c Persist \<noteq> Deleted \<and> timers c KeepAlive \<noteq> Deleted)"

text \<open>A quiet operation sends nothing and leaves the sequence numbers alone.\<close>

definition quiet :: "TCPConnection \<Rightarrow> TCPConnection \<Rightarrow> bool" where
  "quiet c c' \<longleftrightarrow> hook_frame c c' \<and> outbox c' = outbox c \<and> snd_nxt c' = snd_nxt c \<and> snd_max c' = snd_max c \<and>
     alg_timers_ok c'"

lemma quiet_trans: "quiet a b \<Longrightarrow> quiet b c \<Longrightarrow> quiet a c"
  by (auto simp: quiet_def intro: hook_frame_trans)

lemma ackSent_quiet: "alg_timers_ok c \<Longrightarrow> wtE (ackSent c) (quiet c)"
  by (cases "timers c DelayedAck")
    (auto simp: ackSent_def dumb_ackSent_def base_ackSent_def cancelEvent_def alg_timers_ok_def quiet_def
      intro!: frame_intros)

lemma dataSent_quiet: "alg_timers_ok c \<Longrightarrow> wtE (dataSent s c) (\<lambda>c'. quiet c c' \<and> is_scheduled Rexmit c')"
  by (cases "timers c Rexmit")
    (auto simp: dataSent_def dumb_dataSent_def base_dataSent_def base_startRexmitTimer_def
      scheduleTimeout_def cancelEvent_def alg_timers_ok_def quiet_def hook_frame_def hook_view_def)

section \<open>sendData\<close>

text \<open>
  The state in which a connection transmits: the buffer reaches from \<open>snd_una\<close> (or
  before) to its end, \<open>snd_max\<close> lies inside, or one beyond the end when the FIN has been sent.
\<close>

definition snd_inv :: "TCPConnection \<Rightarrow> bool" where
  "snd_inv c \<longleftrightarrow> sq_invar (sendQueue c) \<and> ip_ok c \<and> snd_mss c \<noteq> 0 \<and> fin_at_end c \<and> blen c + 1 < half \<and>
     boff c (snd_una c) \<le> boff c (snd_max c) \<and>
     (if send_fin c then boff c (snd_max c) < blen c \<or> snd_max c = bend c + 1
      else boff c (snd_max c) \<le> blen c)"

definition usable_window :: "int \<Rightarrow> TCPConnection \<Rightarrow> nat" where
  "usable_window cw c =
     nat ((if 0 \<le> cw \<and> cw < uint (snd_wnd c) then cw else uint (snd_wnd c)) - uint (snd_max c - snd_una c))"

definition sendable :: "int \<Rightarrow> TCPConnection \<Rightarrow> nat" where
  "sendable cw c = min (sq_getBytesAvailable (snd_max c) (sendQueue c)) (usable_window cw c)"

lemma snd_inv_available:
  assumes "snd_inv c"
  shows "sq_getBytesAvailable (snd_max c) (sendQueue c) = blen c - boff c (snd_max c)"
proof (cases "boff c (snd_max c) \<le> blen c")
  case True
  then show ?thesis
    using assms sq.available_eq by (simp add: snd_inv_def sq_getBytesAvailable_def)
next
  case False
  then have m: "snd_max c = bend c + 1" "blen c + 1 < half"
    using assms by (auto simp: snd_inv_def split: if_splits)
  have "unat (bend c - (bend c + 1)) = 4294967295"
    by (simp add: unsigned_minus_1_eq_mask mask_eq_exp_minus_1)
  then have "\<not> seqLess (snd_max c) (bend c)"
    unfolding m(1) by (simp add: seqLess_unat soff_def)
  then show ?thesis
    using False by (simp add: sq_getBytesAvailable_def bytesAvailable_def)
qed

text \<open>How many octets go out: all that is sendable when it fits one segment, whole segments only
  otherwise.\<close>

definition amount :: "int \<Rightarrow> TCPConnection \<Rightarrow> nat" where
  "amount cw c = (let n = sendable cw c; m = unat (snd_mss c) in if n \<le> m then n else n div m * m)"

lemma transmit_ok:
  assumes inv: "snd_inv c" and n: "0 < sendable cw c" and nxt: "snd_nxt c = snd_max c"
  shows "\<exists>gs. gs \<noteq> [] \<and>
    (if sendable cw c \<le> unat (snd_mss c) then sendSegment (c_int (int (sendable cw c))) c
     else sendWholeSegments (sendable cw c) c) =
      Inr (c\<lparr>snd_nxt := after_run c (snd_max c + of_nat (amount cw c)),
             outbox := outbox c @ map (ip_out c) gs\<rparr>) \<and>
    run_of (unat (snd_mss c)) (snd_max c) gs (snd_max c + of_nat (amount cw c)) \<and>
    (\<forall>g \<in> set gs. plain_ack c g \<and>
       payloadLength g = int (min (sendable cw c) (unat (snd_mss c))))"
proof -
  let ?n = "sendable cw c" and ?m = "unat (snd_mss c)"
  have q: "sq_invar (sendQueue c)" "ip_ok c" "snd_mss c \<noteq> 0" "fin_at_end c"
    using inv by (auto simp: snd_inv_def)
  have le: "boff c (snd_nxt c) + ?n \<le> blen c"
    using n snd_inv_available [OF inv] by (simp add: nxt sendable_def min_def split: if_splits)
  show ?thesis
  proof (cases "?n \<le> ?m")
    case True
    obtain g where g: "sendSegment (c_int (int ?n)) c =
          Inr (c\<lparr>snd_nxt := after_run c (snd_nxt c + of_nat ?n), outbox := outbox c @ [ip_out c g]\<rparr>)"
        "sequenceNo g = snd_nxt c" "payloadLength g = int ?n" "plain_ack c g"
      using sendSegment_ok [OF q(1) le q(2)] unfolding after_run_def Let_def by metis
    moreover have "seg_end g = snd_nxt c + of_nat ?n" using g by (simp add: seg_end_def)
    moreover have "int ?n \<le> int ?m" using True by (simp only: of_nat_le_iff)
    ultimately show ?thesis
      using True by (intro exI [of _ "[g]"]) (simp add: amount_def nxt)
  next
    case False
    have am: "amount cw c = ?n div ?m * ?m" using False by (simp add: amount_def Let_def)
    have pos: "0 < ?n div ?m" using False q(3) by (simp add: div_greater_zero_iff unat_gt_0)
    obtain gs where gs: "sendWholeSegments ?n c =
        Inr (c\<lparr>snd_nxt := (let x = snd_nxt c + of_nat (?n div ?m * ?m)
                           in if gs = [] then x else after_run c x),
               outbox := outbox c @ map (ip_out c) gs\<rparr>)"
        "length gs = ?n div ?m" "run_of ?m (snd_nxt c) gs (snd_nxt c + of_nat (?n div ?m * ?m))"
        "\<forall>g \<in> set gs. plain_ack c g \<and> payloadLength g = int ?m"
      using sendWholeSegments_ok [OF q(1) le q(2,3,4)] by blast
    have ne: "gs \<noteq> []" using gs(2) pos by auto
    show ?thesis
      unfolding am using False ne gs(1,3,4)
      by (intro exI [of _ gs]) (simp add: nxt Let_def min_def)
  qed
qed

lemma amount_le: "amount cw c \<le> sendable cw c"
  by (simp add: amount_def Let_def)

lemma amount_pos: "snd_mss c \<noteq> 0 \<Longrightarrow> 0 < sendable cw c \<Longrightarrow> 0 < amount cw c"
  by (auto simp: amount_def Let_def div_greater_zero_iff unat_gt_0)

lemma amount_window:
  assumes "0 < sendable cw c"
  shows "uint (snd_max c - snd_una c) + int (amount cw c) \<le> uint (snd_wnd c)"
    and "0 \<le> cw \<Longrightarrow> uint (snd_max c - snd_una c) + int (amount cw c) \<le> cw"
proof -
  have "amount cw c \<le> usable_window cw c" "0 < usable_window cw c"
    using amount_le [of cw c] assms by (auto simp: sendable_def)
  then show "uint (snd_max c - snd_una c) + int (amount cw c) \<le> uint (snd_wnd c)"
    and "0 \<le> cw \<Longrightarrow> uint (snd_max c - snd_una c) + int (amount cw c) \<le> cw"
    by (auto simp: usable_window_def split: if_splits)
qed

text \<open>The invariant survives: \<open>snd_max\<close> moves inside the buffer, or over the FIN.\<close>

lemma snd_inv_advance:
  assumes inv: "snd_inv c" and n: "0 < n" "n \<le> sq_getBytesAvailable (snd_max c) (sendQueue c)"
    and c': "hook_frame c c'" "snd_max c' = after_run c (snd_max c + of_nat n)"
  shows "snd_inv c'"
proof -
  note fr = hook_frame_fields [OF c'(1)]
  have q: "sq_invar (sendQueue c)" "fin_at_end c" "blen c + 1 < half"
    using inv by (auto simp: snd_inv_def)
  have le: "boff c (snd_max c) + n \<le> blen c"
    using n snd_inv_available [OF inv] by simp
  have b: "boff c (snd_max c + of_nat n) = boff c (snd_max c) + n"
    by (rule boff_add [OF q(1) le])
  have "boff c (snd_max c) \<le> boff c (snd_max c')" and
    "if send_fin c then boff c (snd_max c') < blen c \<or> snd_max c' = bend c + 1
     else boff c (snd_max c') \<le> blen c"
  proof -
    show "if send_fin c then boff c (snd_max c') < blen c \<or> snd_max c' = bend c + 1
        else boff c (snd_max c') \<le> blen c"
      using le b q(2) soff_inject [of "sq_qbegin (sendQueue c)" "snd_max c + of_nat n" "bend c"]
      by (auto simp: c'(2) after_run_def reaches_fin_def fin_at_end_def)
    have e1: "boff c (bend c + 1) = blen c + 1"
      using soff_of_nat [of "sq_qbegin (sendQueue c)" "bend c" 1] q(3) by simp
    show "boff c (snd_max c) \<le> boff c (snd_max c')"
      using b le e1 q(2) by (auto simp: c'(2) after_run_def reaches_fin_def fin_at_end_def)
  qed
  then show ?thesis
    using inv fr by (auto simp: snd_inv_def fin_at_end_def ip_ok_def)
qed

text \<open>The whole of \<open>sendData\<close>, when something can be sent.\<close>

definition sends :: "bool \<Rightarrow> int \<Rightarrow> TCPConnection \<Rightarrow> bool" where
  "sends fso cw c \<longleftrightarrow> 0 < sendable cw c \<and> (fso \<longrightarrow> unat (snd_mss c) \<le> sendable cw c)"

lemma sendData_nothing:
  assumes "\<not> sends fso cw c"
  shows "sendData fso cw c = Inr (False, c\<lparr>snd_nxt := snd_max c\<rparr>)"
  using assms
  by (auto simp: sendData_def sends_def sendable_def usable_window_def Let_def split: if_splits)

lemma sendData_something:
  assumes "sends fso cw c"
  shows "sendData fso cw c = sendBytes (sendable cw c) (c\<lparr>snd_nxt := snd_max c\<rparr>)"
  using assms
  by (auto simp: sendData_def sends_def sendable_def usable_window_def Let_def min_def)

lemma sendBytes_ok:
  assumes inv: "snd_inv c" and t: "alg_timers_ok c" and n: "0 < sendable cw c" and nxt: "snd_nxt c = snd_max c"
  obtains gs c' where "sendBytes (sendable cw c) c = Inr (True, c')" "gs \<noteq> []"
    "outbox c' = outbox c @ map (ip_out c) gs"
    "run_of (unat (snd_mss c)) (snd_max c) gs (snd_max c + of_nat (amount cw c))"
    "\<forall>g \<in> set gs. plain_ack c g \<and> payloadLength g = int (min (sendable cw c) (unat (snd_mss c)))"
    "snd_max c' = after_run c (snd_max c + of_nat (amount cw c))" "snd_nxt c' = snd_max c'"
    "hook_frame c c'" "alg_timers_ok c'" "is_scheduled Rexmit c'"
proof -
  let ?x = "after_run c (snd_max c + of_nat (amount cw c))"
  obtain gs where gs: "gs \<noteq> []"
    "(if sendable cw c \<le> unat (snd_mss c) then sendSegment (c_int (int (sendable cw c))) c
     else sendWholeSegments (sendable cw c) c) =
      Inr (c\<lparr>snd_nxt := ?x, outbox := outbox c @ map (ip_out c) gs\<rparr>)"
    "run_of (unat (snd_mss c)) (snd_max c) gs (snd_max c + of_nat (amount cw c))"
    "\<forall>g \<in> set gs. plain_ack c g \<and> payloadLength g = int (min (sendable cw c) (unat (snd_mss c)))"
    using transmit_ok [OF inv n nxt] by blast
  let ?c = "c\<lparr>snd_nxt := ?x, outbox := outbox c @ map (ip_out c) gs, snd_max := ?x\<rparr>"
  have tc: "alg_timers_ok ?c" using t by (simp add: alg_timers_ok_def)
  have fr: "hook_frame c ?c" by (simp add: hook_frame_def hook_view_def)
  obtain c1 where c1: "ackSent ?c = Inr c1" "quiet ?c c1"
    using ackSent_quiet [OF tc] by (auto simp: wtE_iff)
  obtain c2 where c2: "dataSent (snd_max c) c1 = Inr c2" "quiet c1 c2" "is_scheduled Rexmit c2"
    using dataSent_quiet [of c1 "snd_max c"] c1(2) by (auto simp: wtE_iff quiet_def)
  have "sendBytes (sendable cw c) c = Inr (True, c2)"
    using n nxt gs(2) c1(1) c2(1) by (simp add: sendBytes_def Let_def split del: if_split)
  moreover have "quiet ?c c2" using c1(2) c2(2) by (rule quiet_trans)
  ultimately show thesis
    using gs c2(3) fr by (intro that [of c2 gs]) (auto simp: quiet_def intro: hook_frame_trans)
qed

section \<open>retransmitOneSegment and retransmitData\<close>

text \<open>
  The loop of \<open>retransmitData\<close>, for a stretch that begins inside the buffer.  \<open>n\<close>
  counts the FIN as one octet when the stretch ends with it.
\<close>

definition stretch :: "bool \<Rightarrow> nat \<Rightarrow> TCPConnection \<Rightarrow> bool" where
  "stretch fin n c \<longleftrightarrow>
     (if fin then send_fin c \<and> boff c (snd_nxt c) + n = blen c + 1
      else boff c (snd_nxt c) + n \<le> blen c \<and> (send_fin c \<longrightarrow> boff c (snd_nxt c) + n < blen c))"

text \<open>One round: the next \<open>b\<close> octets go out, with the FIN when they are the last ones.\<close>

lemma retransmit_round:
  assumes q: "sq_invar (sendQueue c)" "ip_ok c" "snd_mss c \<noteq> 0" "fin_at_end c"
    and st: "stretch fin n c" "0 < n"
  defines "b \<equiv> min (min n (unat (snd_mss c))) (sq_getBytesAvailable (snd_nxt c) (sendQueue c))"
  defines "k \<equiv> if fin then n - 1 else n"
  shows "b \<le> k" "fin \<or> 0 < b" "b = 0 \<Longrightarrow> k = 0"
    "\<exists>g. sendSegment (c_int (int b)) c =
        Inr (c\<lparr>snd_nxt := snd_nxt c + of_nat (if fin \<and> b = k then n else b),
               outbox := outbox c @ [ip_out c g]\<rparr>) \<and>
      sequenceNo g = snd_nxt c \<and> payloadLength g = int b \<and> plain_ack c g \<and> finBit g = (fin \<and> b = k)"
    "boff c (snd_nxt c + of_nat b) = boff c (snd_nxt c) + b"
    "send_fin c \<Longrightarrow> snd_nxt c + of_nat b \<noteq> snd_fin_seq c + 1"
    "fin \<and> b = k \<Longrightarrow> snd_nxt c + of_nat n = snd_fin_seq c + 1"
proof -
  have m0: "0 < unat (snd_mss c)" using q(3) by (simp add: unat_gt_0)
  have kle: "boff c (snd_nxt c) + k \<le> blen c" using st by (auto simp: stretch_def k_def split: if_splits)
  have av: "sq_getBytesAvailable (snd_nxt c) (sendQueue c) = blen c - boff c (snd_nxt c)"
    using sq.available_eq [OF q(1)] kle by (simp add: sq_getBytesAvailable_def)
  show bk: "b \<le> k" using st(1) av by (auto simp: b_def k_def stretch_def split: if_splits)
  show "b = 0 \<Longrightarrow> k = 0" using av m0 kle by (auto simp: b_def k_def min_def split: if_splits)
  then show "fin \<or> 0 < b" using st(2) by (auto simp: k_def split: if_splits)
  have le: "boff c (snd_nxt c) + b \<le> blen c" using bk kle by linarith
  show bx: "boff c (snd_nxt c + of_nat b) = boff c (snd_nxt c) + b" by (rule boff_add [OF q(1) le])
  have e1: "boff c (bend c + 1) = blen c + 1"
    using soff_of_nat [of "sq_qbegin (sendQueue c)" "bend c" 1] sq.invar_len [OF q(1)] by simp
  show "send_fin c \<Longrightarrow> snd_nxt c + of_nat b \<noteq> snd_fin_seq c + 1"
    using bx le e1 q(4) by (auto simp: fin_at_end_def)
  have rf: "reaches_fin c (snd_nxt c + of_nat b) \<longleftrightarrow> fin \<and> b = k"
  proof -
    have "reaches_fin c (snd_nxt c + of_nat b) \<longleftrightarrow> send_fin c \<and> boff c (snd_nxt c) + b = blen c"
      using q(4) bx soff_inject [of "sq_qbegin (sendQueue c)" "snd_nxt c + of_nat b" "bend c"]
      by (auto simp: reaches_fin_def fin_at_end_def)
    then show ?thesis using bk st by (auto simp: stretch_def k_def split: if_splits)
  qed
  have last: "fin \<and> b = k \<Longrightarrow> snd_nxt c + of_nat n = snd_nxt c + of_nat b + 1"
    using st(2) by (auto simp: k_def of_nat_diff)
  then show "fin \<and> b = k \<Longrightarrow> snd_nxt c + of_nat n = snd_fin_seq c + 1"
    using rf by (simp add: reaches_fin_def)
  obtain g where g: "sendSegment (c_int (int b)) c =
        Inr (c\<lparr>snd_nxt := after_run c (snd_nxt c + of_nat b), outbox := outbox c @ [ip_out c g]\<rparr>)"
      "sequenceNo g = snd_nxt c" "payloadLength g = int b" "plain_ack c g"
      "finBit g = reaches_fin c (snd_nxt c + of_nat b)"
    using sendSegment_ok [OF q(1) le q(2)] unfolding after_run_def Let_def by metis
  show "\<exists>g. sendSegment (c_int (int b)) c =
        Inr (c\<lparr>snd_nxt := snd_nxt c + of_nat (if fin \<and> b = k then n else b),
               outbox := outbox c @ [ip_out c g]\<rparr>) \<and>
      sequenceNo g = snd_nxt c \<and> payloadLength g = int b \<and> plain_ack c g \<and> finBit g = (fin \<and> b = k)"
    using g rf last by (intro exI [of _ g]) (auto simp: after_run_def)
qed

lemma retransmitLoop_ok:
  assumes "sq_invar (sendQueue c)" "ip_ok c" "snd_mss c \<noteq> 0" "fin_at_end c" "stretch fin n c" "0 < n"
  shows "\<exists>gs. gs \<noteq> [] \<and> retransmitLoop n c =
      Inr (c\<lparr>snd_nxt := snd_nxt c + of_nat n, outbox := outbox c @ map (ip_out c) gs\<rparr>) \<and>
    run_of (unat (snd_mss c)) (snd_nxt c) gs (snd_nxt c + of_nat (if fin then n - 1 else n)) \<and>
    (\<forall>g \<in> set gs. plain_ack c g) \<and> map finBit gs = replicate (length gs - 1) False @ [fin]"
  using assms
proof (induction n c rule: retransmitLoop.induct)
  case (1 n c)
  define b where "b = min (min n (unat (snd_mss c))) (sq_getBytesAvailable (snd_nxt c) (sendQueue c))"
  define k where "k = (if fin then n - 1 else n)"
  note r = retransmit_round [OF "1.prems", folded b_def, folded k_def]
  obtain g where g: "sendSegment (c_int (int b)) c =
        Inr (c\<lparr>snd_nxt := snd_nxt c + of_nat (if fin \<and> b = k then n else b),
               outbox := outbox c @ [ip_out c g]\<rparr>)"
      "sequenceNo g = snd_nxt c" "payloadLength g = int b" "plain_ack c g" "finBit g = (fin \<and> b = k)"
    using r(4) by blast
  have ge: "seg_end g = snd_nxt c + of_nat b" using g(2,3) by (simp add: seg_end_def)
  have gm: "int b \<le> int (unat (snd_mss c))" by (simp only: of_nat_le_iff b_def)
  let ?c = "c\<lparr>snd_nxt := snd_nxt c + of_nat b, outbox := outbox c @ [ip_out c g]\<rparr>"
  have unf: "retransmitLoop n c = (case sendSegment (c_int (int b)) c of Inl e \<Rightarrow> Inl e
      | Inr c' \<Rightarrow> if send_fin c' \<and> snd_nxt c' = snd_fin_seq c' + 1 then Inr c'
                 else if b = 0 then Inl Nontermination else retransmitLoop (n - b) c')"
    unfolding b_def using "1.prems"(6) by (subst retransmitLoop.simps) (simp add: Let_def)
  show ?case
  proof (cases "b = k")
    case True
    have "retransmitLoop n c = Inr (c\<lparr>snd_nxt := snd_nxt c + of_nat n, outbox := outbox c @ [ip_out c g]\<rparr>)"
      using True r(2,6,7) "1.prems"(5) g(1) unfolding unf
      by (auto simp: retransmitLoop.simps k_def stretch_def)
    then show ?thesis
      unfolding k_def [symmetric] using True g ge gm by (intro exI [of _ "[g]"]) simp
  next
    case False
    have lt: "0 < b" "b < k" using False r(1,3) by auto
    have nb: "k - b = (if fin then n - b - 1 else n - b)" "0 < n - b" "b \<le> n"
      using lt by (auto simp: k_def split: if_splits)
    have st: "stretch fin (n - b) ?c"
      using "1.prems"(5) r(5) nb(3) by (auto simp: stretch_def split: if_splits)
    have go: "sendSegment (c_int (int b)) c = Inr ?c" "\<not> (send_fin ?c \<and> snd_nxt ?c = snd_fin_seq ?c + 1)"
      using g(1) False r(6) by auto
    have "\<exists>gs. gs \<noteq> [] \<and> retransmitLoop (n - b) ?c =
          Inr (?c\<lparr>snd_nxt := snd_nxt ?c + of_nat (n - b), outbox := outbox ?c @ map (ip_out ?c) gs\<rparr>) \<and>
        run_of (unat (snd_mss ?c)) (snd_nxt ?c) gs (snd_nxt ?c + of_nat (if fin then n - b - 1 else n - b)) \<and>
        (\<forall>g \<in> set gs. plain_ack ?c g) \<and> map finBit gs = replicate (length gs - 1) False @ [fin]"
      by (rule "1.IH" [OF _ b_def go])
        (use "1.prems" lt nb st in \<open>simp_all add: fin_at_end_def\<close>)
    then obtain gs where gs: "gs \<noteq> []" "retransmitLoop (n - b) ?c =
          Inr (c\<lparr>snd_nxt := snd_nxt c + of_nat b + of_nat (n - b),
                 outbox := outbox c @ ip_out c g # map (ip_out c) gs\<rparr>)"
        "run_of (unat (snd_mss c)) (snd_nxt c + of_nat b) gs (snd_nxt c + of_nat b + of_nat (k - b))"
        "\<forall>g \<in> set gs. plain_ack c g" "map finBit gs = replicate (length gs - 1) False @ [fin]"
      unfolding nb(1) by auto
    have "retransmitLoop n c = retransmitLoop (n - b) ?c"
      using unf g(1) False lt r(6) by auto
    moreover have "(of_nat b :: u32) + of_nat (n - b) = of_nat n" "(of_nat b :: u32) + of_nat (k - b) = of_nat k"
      using nb(3) lt by (simp_all add: of_nat_diff)
    ultimately show ?thesis
      unfolding k_def [symmetric] using gs g ge gm False
      by (intro exI [of _ "g # gs"]) (simp add: add.assoc Cons_replicate_eq; cases gs; simp)
  qed
qed

text \<open>What there is to retransmit: the stretch from \<open>snd_una\<close> to \<open>snd_max\<close>.\<close>

lemma snd_inv_stretch:
  assumes inv: "snd_inv c" and ne: "snd_una c \<noteq> snd_max c"
  shows "stretch (snd_max c = bend c + 1) (unat (snd_max c - snd_una c)) (c\<lparr>snd_nxt := snd_una c\<rparr>)"
    and "0 < unat (snd_max c - snd_una c)"
proof -
  have le: "boff c (snd_una c) \<le> boff c (snd_max c)" and q: "sq_invar (sendQueue c)" "blen c + 1 < half"
    using inv by (auto simp: snd_inv_def)
  have d: "unat (snd_max c - snd_una c) = boff c (snd_max c) - boff c (snd_una c)"
    by (rule soff_diff_le [OF le])
  have e1: "boff c (bend c + 1) = blen c + 1"
    using soff_of_nat [of "sq_qbegin (sendQueue c)" "bend c" 1] q(2) by simp
  show "stretch (snd_max c = bend c + 1) (unat (snd_max c - snd_una c)) (c\<lparr>snd_nxt := snd_una c\<rparr>)"
    using inv le e1 unfolding stretch_def d by (auto simp: snd_inv_def split: if_splits)
  show "0 < unat (snd_max c - snd_una c)"
    using ne by (simp add: unat_gt_0)
qed

text \<open>One segment, when it does not have to end with the FIN.\<close>

definition ack_timers :: "TCPConnection \<Rightarrow> timer_id \<Rightarrow> timer" where
  "ack_timers c = (if tcpAlgorithm c \<noteq> DumbTCP \<and> is_scheduled DelayedAck c
     then (timers c)(DelayedAck := Idle) else timers c)"

lemma ackSent_eq: "alg_timers_ok c \<Longrightarrow> ackSent c = Inr (c\<lparr>timers := ack_timers c\<rparr>)"
  by (cases "timers c DelayedAck")
    (auto simp: ackSent_def dumb_ackSent_def base_ackSent_def cancelEvent_def alg_timers_ok_def ack_timers_def)

lemma retransmitOneSegment_ok:
  assumes inv: "snd_inv c" and ne: "snd_una c \<noteq> snd_max c" and t: "alg_timers_ok c"
    and nofin: "\<not> (snd_max c = bend c + 1 \<and> snd_max c - snd_una c \<le> snd_mss c)"
  defines "n \<equiv> unat (min (snd_mss c) (snd_max c - snd_una c))"
  obtains g where "retransmitOneSegment c =
      Inr (c\<lparr>snd_nxt := after_run c (snd_una c + of_nat n), outbox := outbox c @ [ip_out c g],
             timers := ack_timers c\<rparr>)"
    "sequenceNo g = snd_una c" "payloadLength g = int n" "plain_ack c g" "0 < n"
proof -
  let ?c = "c\<lparr>snd_nxt := snd_una c\<rparr>"
  have q: "sq_invar (sendQueue ?c)" "ip_ok ?c" "snd_mss c \<noteq> 0"
    using inv by (simp_all add: snd_inv_def)
  have n0: "0 < n" using ne q(3) by (auto simp: n_def min_def unat_gt_0)
  have st: "stretch (snd_max c = bend c + 1) (unat (snd_max c - snd_una c)) ?c"
    by (rule snd_inv_stretch(1) [OF inv ne])
  have "n \<le> unat (snd_max c - snd_una c)"
    by (simp add: n_def min_def word_le_nat_alt)
  moreover have "n < unat (snd_max c - snd_una c)" if "snd_max c = bend c + 1"
    using nofin that by (auto simp: n_def min_def word_le_nat_alt)
  ultimately have le: "boff ?c (snd_nxt ?c) + n \<le> blen ?c"
    using st by (auto simp: stretch_def split: if_splits)
  obtain g where g: "sendSegment (c_int (int n)) ?c =
      Inr (?c\<lparr>snd_nxt := after_run c (snd_una c + of_nat n), outbox := outbox c @ [ip_out c g]\<rparr>)"
    "sequenceNo g = snd_una c" "payloadLength g = int n" "plain_ack c g"
    by (rule sendSegment_ok [OF q(1) le q(2)]) (auto simp: after_run_def Let_def)
  have "retransmitOneSegment c = bindE (sendSegment (c_int (int n)) ?c) ackSent"
    using n0 unfolding n_def by (simp add: retransmitOneSegment_def Let_def)
  then show thesis
    using g n0 t by (intro that [of g]) (simp_all add: ackSent_eq alg_timers_ok_def ack_timers_def)
qed

text \<open>Everything outstanding is sent again.\<close>

lemma retransmitData_all:
  assumes "snd_inv c" "snd_una c \<noteq> snd_max c"
  shows "\<exists>gs. retransmitData c = Inr (c\<lparr>snd_nxt := snd_max c, outbox := outbox c @ map (ip_out c) gs\<rparr>) \<and>
    run_of (unat (snd_mss c)) (snd_una c) gs (if snd_max c = bend c + 1 then bend c else snd_max c) \<and>
    (\<forall>g \<in> set gs. plain_ack c g) \<and>
    map finBit gs = replicate (length gs - 1) False @ [snd_max c = bend c + 1]"
proof -
  let ?c = "c\<lparr>snd_nxt := snd_una c\<rparr>" and ?n = "unat (snd_max c - snd_una c)" and ?fin = "snd_max c = bend c + 1"
  note st = snd_inv_stretch [OF assms]
  have q: "sq_invar (sendQueue ?c)" "ip_ok ?c" "snd_mss ?c \<noteq> 0" "fin_at_end ?c"
    using assms(1) by (simp_all add: snd_inv_def fin_at_end_def)
  obtain gs where gs: "retransmitLoop ?n ?c =
      Inr (?c\<lparr>snd_nxt := snd_nxt ?c + of_nat ?n, outbox := outbox ?c @ map (ip_out ?c) gs\<rparr>)"
    "run_of (unat (snd_mss ?c)) (snd_nxt ?c) gs (snd_nxt ?c + of_nat (if ?fin then ?n - 1 else ?n))"
    "\<forall>g \<in> set gs. plain_ack ?c g" "map finBit gs = replicate (length gs - 1) False @ [?fin]"
    using retransmitLoop_ok [OF q st] by blast
  have "snd_una c + of_nat (if ?fin then ?n - 1 else ?n) = (if ?fin then bend c else snd_max c)"
    using st(2) by (auto simp: of_nat_diff)
  then show ?thesis
    using gs st(2) by (intro exI [of _ gs]) (simp add: retransmitData_def)
qed

text \<open>All of \<open>sendData\<close>.\<close>

lemma sendData_all:
  assumes "snd_inv c" "alg_timers_ok c"
  shows "\<exists>sent c' gs. sendData fso cw c = Inr (sent, c') \<and>
    (sent \<longleftrightarrow> 0 < sendable cw c \<and> (fso \<longrightarrow> unat (snd_mss c) \<le> sendable cw c)) \<and>
    outbox c' = outbox c @ map (ip_out c) gs \<and> snd_nxt c' = snd_max c' \<and> snd_inv c' \<and> alg_timers_ok c' \<and>
    (if sent
     then run_of (unat (snd_mss c)) (snd_max c) gs (snd_max c + of_nat (amount cw c)) \<and>
       (\<forall>g \<in> set gs. plain_ack c g \<and> 0 < payloadLength g \<and> (fso \<longrightarrow> payloadLength g = uint (snd_mss c))) \<and>
       uint (snd_max c - snd_una c) + int (amount cw c) \<le> uint (snd_wnd c) \<and>
       (0 \<le> cw \<longrightarrow> uint (snd_max c - snd_una c) + int (amount cw c) \<le> cw) \<and>
       snd_max c' = after_run c (snd_max c + of_nat (amount cw c)) \<and> is_scheduled Rexmit c'
     else gs = [] \<and> snd_max c' = snd_max c)"
proof (cases "sends fso cw c")
  case False
  have "snd_inv (c\<lparr>snd_nxt := snd_max c\<rparr>)" "alg_timers_ok (c\<lparr>snd_nxt := snd_max c\<rparr>)"
    using assms by (simp_all add: snd_inv_def fin_at_end_def alg_timers_ok_def)
  then show ?thesis
    using sendData_nothing [OF False] False by (fastforce simp: sends_def)
next
  case True
  let ?c = "c\<lparr>snd_nxt := snd_max c\<rparr>"
  have e: "sendable cw ?c = sendable cw c"
    by (simp add: sendable_def usable_window_def)
  have n: "0 < sendable cw ?c" "sendable cw ?c = sendable cw c" "amount cw ?c = amount cw c"
    using True by (simp_all add: sends_def amount_def Let_def e)
  have i: "snd_inv ?c" "alg_timers_ok ?c"
    using assms by (simp_all add: snd_inv_def fin_at_end_def alg_timers_ok_def)
  obtain gs c' where r: "sendBytes (sendable cw ?c) ?c = Inr (True, c')" "gs \<noteq> []"
    "outbox c' = outbox ?c @ map (ip_out ?c) gs"
    "run_of (unat (snd_mss ?c)) (snd_max ?c) gs (snd_max ?c + of_nat (amount cw ?c))"
    "\<forall>g \<in> set gs. plain_ack ?c g \<and> payloadLength g = int (min (sendable cw ?c) (unat (snd_mss ?c)))"
    "snd_max c' = after_run ?c (snd_max ?c + of_nat (amount cw ?c))" "snd_nxt c' = snd_max c'"
    "hook_frame ?c c'" "alg_timers_ok c'" "is_scheduled Rexmit c'"
    by (rule sendBytes_ok [OF i n(1)]) simp
  have m: "0 < unat (snd_mss c)" using assms(1) by (simp add: snd_inv_def unat_gt_0)
  have "snd_inv c'"
    by (rule snd_inv_advance [OF i(1) amount_pos _ r(8,6)])
      (use assms(1) n amount_le [of cw ?c] in \<open>auto simp: snd_inv_def sendable_def\<close>)
  moreover have "after_run ?c = after_run c" by (simp add: after_run_def fun_eq_iff)
  moreover have "int (min (sendable cw c) (unat (snd_mss c))) = uint (snd_mss c)" if fso
    using that True by (simp add: sends_def min_absorb2)
  ultimately show ?thesis
    using sendData_something [OF True] True r amount_window [of cw c] n m
    by (intro exI [of _ True] exI [of _ c'] exI [of _ gs]) (auto simp: sends_def)
qed

section \<open>Properties\<close>

text \<open>A connection in data transfer, for the concrete instances below: 3000 octets
  from number 101 on are buffered, none is in flight.\<close>

definition demo_conn :: TCPConnection where
  "demo_conn = (newTCPConnection 0 1 0 7)\<lparr>localAddr := IPv4 0x0a000001, remoteAddr := IPv4 0x0a000002,
     localPort := 1025, remotePort := 80, fsm := TCP_S_ESTABLISHED, tcpAlgorithm := TCPReno,
     sendQueue := VirtualDataSendQueue \<lparr>sq_begin = 101, sq_end = 3101\<rparr>,
     receiveQueue := VirtualDataRcvQueue \<lparr>rq_rcv_nxt = 501, regionList = []\<rparr>,
     iss := 100, irs := 500, snd_mss := 1000, rcv_wnd := 4000, rcv_nxt := 501, snd_una := 101, snd_nxt := 101,
     snd_max := 101, snd_wnd := 4000, snd_cwnd := 2500,
     timers := (\<lambda>_. Deleted)(The2MSL := Idle, FinWait2 := Idle, Rexmit := Idle, Persist := Idle,
        DelayedAck := Idle, KeepAlive := Idle)\<rparr>"

lemmas demo_simps = demo_conn_def newTCPConnection_def ip_ok_def snd_inv_def fin_at_end_def alg_timers_ok_def
  vsq_invar_def vsq_getBufferEndSeq_def soff_def

text \<open>
  Property C6: \<open>sendData\<close> sends what the window allows and nothing else.  In every
  state that meets the sending invariant it returns; it reports sending exactly when the
  buffer and the smaller of the advertised and the congestion window leave room (and, when only
  full segments are wanted, room for one).  What goes out is a gapless run of segments from
  \<open>snd_max\<close>, each within the maximum segment size, and only full ones when asked for; the octets
  in flight stay within both windows; \<open>snd_max\<close> ends after the last octet sent, or after
  the FIN when that went along; the retransmission timer runs; the invariant is kept.
\<close>

theorem sendData_correct:
  assumes "snd_inv c" "alg_timers_ok c"
  shows "\<exists>sent c' gs. sendData fso cw c = Inr (sent, c') \<and>
    (sent \<longleftrightarrow> 0 < sendable cw c \<and> (fso \<longrightarrow> unat (snd_mss c) \<le> sendable cw c)) \<and>
    outbox c' = outbox c @ map (ip_out c) gs \<and> snd_nxt c' = snd_max c' \<and> snd_inv c' \<and>
    (if sent
     then run_of (unat (snd_mss c)) (snd_max c) gs (snd_max c + of_nat (amount cw c)) \<and>
       (\<forall>g \<in> set gs. plain_ack c g \<and> 0 < payloadLength g \<and> (fso \<longrightarrow> payloadLength g = uint (snd_mss c))) \<and>
       uint (snd_max c - snd_una c) + int (amount cw c) \<le> uint (snd_wnd c) \<and>
       (0 \<le> cw \<longrightarrow> uint (snd_max c - snd_una c) + int (amount cw c) \<le> cw) \<and>
       snd_max c' = after_run c (snd_max c + of_nat (amount cw c)) \<and> is_scheduled Rexmit c'
     else gs = [] \<and> snd_max c' = snd_max c)"
  using sendData_all [OF assms, of fso cw] by (elim exE conjE) (intro exI conjI; assumption)

lemma demo_conn_inv: "snd_inv demo_conn" "alg_timers_ok demo_conn"
  by (simp_all add: demo_simps)

theorem sendData_correct_witness:
  "\<exists>c' gs. sendData False 2500 demo_conn = Inr (True, c') \<and> run_of 1000 101 gs 2101 \<and> snd_max c' = 2101"
proof -
  have s: "sendable 2500 demo_conn = 2500"
    by (simp add: sendable_def usable_window_def sq_getBytesAvailable_def bytesAvailable_def seqLess_unat demo_simps)
  have a: "amount 2500 demo_conn = 2000" "unat (snd_mss demo_conn) = 1000" "snd_max demo_conn = 101"
    "after_run demo_conn 2101 = 2101"
    by (simp_all add: amount_def s Let_def after_run_def reaches_fin_def, simp_all add: demo_simps)
  show ?thesis
    using sendData_correct [OF demo_conn_inv, of False 2500] s a by fastforce
qed

text \<open>
  Property C23: \<open>retransmitData\<close> ends and resends exactly what is outstanding.  When
  something is unacknowledged it returns with \<open>snd_nxt\<close> back at \<open>snd_max\<close>, having
  sent a gapless run of segments from \<open>snd_una\<close> up to \<open>snd_max\<close>, none longer than the maximum
  segment size; when a FIN is outstanding the run stops before its number and the last segment,
  and only that one, carries the FIN.
\<close>

theorem retransmitData_correct:
  assumes "snd_inv c" "snd_una c \<noteq> snd_max c"
  shows "\<exists>gs. retransmitData c = Inr (c\<lparr>snd_nxt := snd_max c, outbox := outbox c @ map (ip_out c) gs\<rparr>) \<and>
    run_of (unat (snd_mss c)) (snd_una c) gs (if snd_max c = bend c + 1 then bend c else snd_max c) \<and>
    (\<forall>g \<in> set gs. plain_ack c g) \<and>
    map finBit gs = replicate (length gs - 1) False @ [snd_max c = bend c + 1]"
  using assms by (rule retransmitData_all)

text \<open>The connection of the example after its two full segments and, later, the rest with the FIN.\<close>

definition demo_closing :: TCPConnection where
  "demo_closing = demo_conn\<lparr>send_fin := True, snd_fin_seq := 3101, snd_max := 3102, snd_nxt := 3102,
     fsm := TCP_S_FIN_WAIT_1\<rparr>"

lemma demo_closing_inv: "snd_inv demo_closing" "snd_una demo_closing \<noteq> snd_max demo_closing"
  by (simp_all add: demo_closing_def demo_simps)

theorem retransmitData_correct_witness:
  "\<exists>c' gs. retransmitData demo_closing = Inr c' \<and> snd_nxt c' = 3102 \<and> run_of 1000 101 gs 3101 \<and> finBit (last gs)"
proof -
  have a: "bend demo_closing = 3101" "snd_max demo_closing = 3102" "snd_una demo_closing = 101"
    "unat (snd_mss demo_closing) = 1000"
    by (simp_all add: demo_closing_def demo_simps)
  have l: "finBit (last gs)" if "map finBit gs = xs @ [True]" for gs xs
    using that last_map [of gs finBit] by (cases gs) auto
  show ?thesis
    using retransmitData_correct [OF demo_closing_inv] l by (force simp: a)
qed

text \<open>
  \<open>retransmitOneSegment\<close> cannot resend a FIN.  It counts the FIN as an octet of
  data; when what is outstanding fits one segment and ends with the FIN, the send queue is
  asked for one octet more than it holds and its assertion fails.
\<close>

theorem retransmitOneSegment_fails_on_fin:
  assumes "snd_inv c" "snd_una c \<noteq> snd_max c" "snd_max c = bend c + 1"
    and "snd_max c - snd_una c \<le> snd_mss c"
  shows "retransmitOneSegment c = Inl (AssertFailed ''createSegmentWithBytes'')"
proof -
  define n where "n = unat (snd_max c - snd_una c)"
  have q: "sq_invar (sendQueue c)" "blen c + 1 < half" and le: "boff c (snd_una c) \<le> boff c (snd_max c)"
    using assms(1) by (auto simp: snd_inv_def)
  have u: "uint (snd_max c - snd_una c) = int n" by (simp add: n_def)
  have pos: "0 < n" using assms(2) by (simp add: unat_gt_0 n_def)
  have e1: "boff c (bend c + 1) = blen c + 1"
    using soff_of_nat [of "sq_qbegin (sendQueue c)" "bend c" 1] q(2) by simp
  have lt: "n < half"
    using soff_diff_le [OF le] e1 q(2) assms(3) by (simp add: n_def)
  have "unat (bend c - (bend c + 1)) = 4294967295"
    by (simp add: unsigned_minus_1_eq_mask mask_eq_exp_minus_1)
  then have "\<not> seqLE (snd_una c + word_of_int (int n)) (bend c)"
    by (simp add: assms(3) seqLE_unat soff_def n_def)
  then have "sq_createSegmentWithBytes (snd_una c) (int n) (sendQueue c) =
      Inl (AssertFailed ''createSegmentWithBytes'')"
    by (intro sq.createSeg_assert) blast
  then have "sendSegment (c_int (int n)) (c\<lparr>snd_nxt := snd_una c\<rparr>) =
      Inl (AssertFailed ''createSegmentWithBytes'')"
    using lt by (simp add: sendSegment_def)
  then show ?thesis
    using pos [unfolded n_def] assms(4) u by (simp add: retransmitOneSegment_def Let_def min_absorb2)
qed

text \<open>All data acknowledged, the FIN not yet.\<close>

definition demo_last_fin :: TCPConnection where
  "demo_last_fin = demo_closing\<lparr>snd_una := 3101, sendQueue := VirtualDataSendQueue \<lparr>sq_begin = 3101, sq_end = 3101\<rparr>\<rparr>"

theorem retransmitOneSegment_fails_on_fin_witness:
  "retransmitOneSegment demo_last_fin = Inl (AssertFailed ''createSegmentWithBytes'')"
  by (rule retransmitOneSegment_fails_on_fin)
    (simp_all add: demo_last_fin_def demo_closing_def demo_simps word_le_nat_alt)

end
