(* ===== verification/TCP_Flavours.thy ===== *)
theory TCP_Flavours
  imports TCP_Transmit
begin

text \<open>
  The TCP flavours (\<open>flavours\<close> directory): the hooks of \<open>TCPAlgorithm\<close> as implemented by
  \<open>DumbTCP\<close>, \<open>TCPBaseAlg\<close> (retransmission timer, round-trip time measurement, Nagle's
  algorithm) and its subclasses \<open>TCPNoCongestionControl\<close>, \<open>TCPTahoe\<close>, \<open>TCPReno\<close>.  A hook
  that its class does not override is the one of the base class.
\<close>

section \<open>DumbTCP\<close>

definition dumb_established :: "bool \<Rightarrow> TCPConnection \<Rightarrow> TCPConnection res" where
  "dumb_established act c =
     (if act
      then bindE (sendData False (- 1) c) (\<lambda>(sent, c). whenE (\<not> sent) sendAck c)
      else Inr c)"

definition dumb_connectionClosed :: "TCPConnection \<Rightarrow> TCPConnection res" where
  "dumb_connectionClosed c = cancelEvent Rexmit c"

definition dumb_processTimer :: "timer_id \<Rightarrow> TCPConnection \<Rightarrow> (TCPEventCode \<times> TCPConnection) res" where
  "dumb_processTimer tm c =
     (if tm \<noteq> Rexmit then Inl (RuntimeError ''unrecognized timer'')
      else bindE (retransmitData c) (\<lambda>c.
           bindE (scheduleTimeout Rexmit REXMIT_TIMEOUT c) (\<lambda>c. Inr (TCP_E_IGNORE, c))))"

definition dumb_sendCommandInvoked :: "TCPConnection \<Rightarrow> TCPConnection res" where
  "dumb_sendCommandInvoked c = bindE (sendData False (- 1) c) (\<lambda>(sent, c). Inr c)"

definition dumb_receivedOutOfOrderSegment :: "TCPConnection \<Rightarrow> TCPConnection res" where
  "dumb_receivedOutOfOrderSegment c = sendAck c"

definition dumb_receiveSeqChanged :: "TCPConnection \<Rightarrow> TCPConnection res" where
  "dumb_receiveSeqChanged c = sendAck c"

definition dumb_receivedDataAck :: "u32 \<Rightarrow> TCPConnection \<Rightarrow> TCPConnection res" where
  "dumb_receivedDataAck firstSeqAcked c = bindE (sendData False (- 1) c) (\<lambda>(sent, c). Inr c)"

definition dumb_receivedDuplicateAck :: "TCPConnection \<Rightarrow> TCPConnection res" where
  "dumb_receivedDuplicateAck c = Inr c"

definition dumb_receivedAckForDataNotYetSent :: "u32 \<Rightarrow> TCPConnection \<Rightarrow> TCPConnection res" where
  "dumb_receivedAckForDataNotYetSent seq c = sendAck c"

section \<open>TCPBaseAlg\<close>

definition DELAYED_ACK_TIMEOUT :: simtime where "DELAYED_ACK_TIMEOUT = 1 / 5"
definition MAX_REXMIT_COUNT :: int where "MAX_REXMIT_COUNT = 12"
definition MIN_REXMIT_TIMEOUT :: simtime where "MIN_REXMIT_TIMEOUT = 1"
definition MAX_REXMIT_TIMEOUT :: simtime where "MAX_REXMIT_TIMEOUT = 240"

lemmas rexmit_consts = MAX_REXMIT_COUNT_def MIN_REXMIT_TIMEOUT_def MAX_REXMIT_TIMEOUT_def

text \<open>The congestion window is passed as an \<open>int\<close>: a value of \<open>2^31\<close> or more turns negative.\<close>

definition base_sendData :: "TCPConnection \<Rightarrow> (bool \<times> TCPConnection) res" where
  "base_sendData c = sendData (nagle_enabled c \<and> snd_una c \<noteq> snd_max c) (c_int (uint (snd_cwnd c))) c"

definition base_established :: "bool \<Rightarrow> TCPConnection \<Rightarrow> TCPConnection res" where
  "base_established act c =
     (let c = c\<lparr>snd_cwnd := snd_mss c\<rparr>
      in if act then bindE (base_sendData c) (\<lambda>(sent, c). whenE (\<not> sent) sendAck c) else Inr c)"

definition base_connectionClosed :: "TCPConnection \<Rightarrow> TCPConnection res" where
  "base_connectionClosed c =
     seqE [cancelEvent Rexmit, cancelEvent Persist, cancelEvent DelayedAck, cancelEvent KeepAlive] c"

text \<open>The counter is incremented in the state before the comparison with the limit.\<close>

definition base_processRexmitTimer :: "TCPEventCode \<Rightarrow> TCPConnection \<Rightarrow> (TCPEventCode \<times> TCPConnection) res" where
  "base_processRexmitTimer ev c =
     (let c = c\<lparr>rexmit_count := rexmit_count c + 1\<rparr>
      in if rexmit_count c > MAX_REXMIT_COUNT
         then bindE (signalConnectionTimeout c) (\<lambda>c. Inr (TCP_E_ABORT, c))
         else let rto = rexmit_timeout c + rexmit_timeout c;
                  rto = (if rto > MAX_REXMIT_TIMEOUT then MAX_REXMIT_TIMEOUT else rto);
                  c = c\<lparr>rexmit_timeout := rto\<rparr>
              in bindE (scheduleTimeout Rexmit (rexmit_timeout c) c) (\<lambda>c.
                 Inr (ev, c\<lparr>rtseq_sendtime := 0\<rparr>)))"

definition base_processPersistTimer :: "TCPEventCode \<Rightarrow> TCPConnection \<Rightarrow> (TCPEventCode \<times> TCPConnection) res" where
  "base_processPersistTimer ev c = bindE (sendProbe c) (\<lambda>(sent, c). Inr (ev, c))"

definition base_processDelayedAckTimer :: "TCPEventCode \<Rightarrow> TCPConnection \<Rightarrow> (TCPEventCode \<times> TCPConnection) res" where
  "base_processDelayedAckTimer ev c = bindE (sendAck c) (\<lambda>c. Inr (ev, c))"

definition base_processKeepAliveTimer :: "TCPEventCode \<Rightarrow> TCPConnection \<Rightarrow> (TCPEventCode \<times> TCPConnection) res" where
  "base_processKeepAliveTimer ev c = Inr (ev, c)"

text \<open>Jacobson's estimator, in exact rationals where the source computes in simulation time.\<close>

definition rttMeasurementComplete :: "simtime \<Rightarrow> simtime \<Rightarrow> TCPConnection \<Rightarrow> TCPConnection" where
  "rttMeasurementComplete tSent tAcked c =
     (let g = 1 / 8;
          newRTT = tAcked - tSent;
          err = newRTT - srtt c;
          srtt' = srtt c + g * err;
          rttvar' = rttvar c + g * (\<bar>err\<bar> - rttvar c);
          rto = srtt' + 4 * rttvar';
          rto = (if rto > MAX_REXMIT_TIMEOUT then MAX_REXMIT_TIMEOUT
                 else if rto < MIN_REXMIT_TIMEOUT then MIN_REXMIT_TIMEOUT else rto)
      in c\<lparr>srtt := srtt', rttvar := rttvar', rexmit_timeout := rto\<rparr>)"

definition base_sendCommandInvoked :: "TCPConnection \<Rightarrow> TCPConnection res" where
  "base_sendCommandInvoked c = bindE (base_sendData c) (\<lambda>(sent, c). Inr c)"

definition base_receivedOutOfOrderSegment :: "TCPConnection \<Rightarrow> TCPConnection res" where
  "base_receivedOutOfOrderSegment c = sendAck c"

definition base_receiveSeqChanged :: "TCPConnection \<Rightarrow> TCPConnection res" where
  "base_receiveSeqChanged c =
     (if \<not> delayed_acks_enabled c then sendAck c
      else if timers c DelayedAck = Deleted then Inl NullPointer
      else whenE (\<not> is_scheduled DelayedAck c) (scheduleTimeout DelayedAck DELAYED_ACK_TIMEOUT) c)"

definition base_receivedDataAck :: "u32 \<Rightarrow> TCPConnection \<Rightarrow> TCPConnection res" where
  "base_receivedDataAck firstSeqAcked c =
     (let c = (if rtseq_sendtime c \<noteq> 0 \<and> seqLess (rtseq c) (snd_una c)
               then (rttMeasurementComplete (rtseq_sendtime c) (now c) c)\<lparr>rtseq_sendtime := 0\<rparr>
               else c)
      in if snd_una c = snd_max c
         then if timers c Rexmit = Deleted then Inl NullPointer
              else whenE (is_scheduled Rexmit c) (cancelEvent Rexmit) c
         else seqE [cancelEvent Rexmit, base_startRexmitTimer] c)"

definition base_receivedDuplicateAck :: "TCPConnection \<Rightarrow> TCPConnection res" where
  "base_receivedDuplicateAck c = Inr c"

definition base_receivedAckForDataNotYetSent :: "u32 \<Rightarrow> TCPConnection \<Rightarrow> TCPConnection res" where
  "base_receivedAckForDataNotYetSent seq c = sendAck c"

section \<open>TCPNoCongestionControl\<close>

definition nocc_processRexmitTimer :: "TCPEventCode \<Rightarrow> TCPConnection \<Rightarrow> (TCPEventCode \<times> TCPConnection) res" where
  "nocc_processRexmitTimer ev c =
     bindE (base_processRexmitTimer ev c) (\<lambda>(ev, c).
       if ev = TCP_E_ABORT then Inr (ev, c)
       else bindE (retransmitOneSegment c) (\<lambda>c. Inr (ev, c)))"

definition nocc_receivedDataAck :: "u32 \<Rightarrow> TCPConnection \<Rightarrow> TCPConnection res" where
  "nocc_receivedDataAck firstSeqAcked c =
     bindE (base_receivedDataAck firstSeqAcked c) (\<lambda>c. bindE (base_sendData c) (\<lambda>(sent, c). Inr c))"

section \<open>TCPTahoe\<close>

definition tahoe_recalculateSlowStartThreshold :: "TCPConnection \<Rightarrow> TCPConnection" where
  "tahoe_recalculateSlowStartThreshold c =
     (let flight_size = min (snd_cwnd c) (snd_wnd c)
      in c\<lparr>ssthresh := max (flight_size div 2) (2 * snd_mss c)\<rparr>)"

definition tahoe_processRexmitTimer :: "TCPEventCode \<Rightarrow> TCPConnection \<Rightarrow> (TCPEventCode \<times> TCPConnection) res" where
  "tahoe_processRexmitTimer ev c =
     bindE (base_processRexmitTimer ev c) (\<lambda>(ev, c).
       if ev = TCP_E_ABORT then Inr (ev, c)
       else let c = tahoe_recalculateSlowStartThreshold c;
                c = c\<lparr>snd_cwnd := snd_mss c\<rparr>
            in bindE (retransmitOneSegment c) (\<lambda>c. Inr (ev, c)))"

text \<open>
  Slow start and congestion avoidance.  The product of the two \<open>uint32\<close> values wraps, and
  the quotient is assigned to an \<open>int\<close> and added back, which is addition of the same word.
\<close>

definition tahoe_growWindow :: "TCPConnection \<Rightarrow> TCPConnection res" where
  "tahoe_growWindow c =
     (if snd_cwnd c < ssthresh c then Inr (c\<lparr>snd_cwnd := snd_cwnd c + snd_mss c\<rparr>)
      else if snd_cwnd c = 0 then Inl DivisionByZero
      else let incr = snd_mss c * snd_mss c div snd_cwnd c;
               incr = (if incr = 0 then 1 else incr)
           in Inr (c\<lparr>snd_cwnd := snd_cwnd c + incr\<rparr>))"

definition tahoe_receivedDataAck :: "u32 \<Rightarrow> TCPConnection \<Rightarrow> TCPConnection res" where
  "tahoe_receivedDataAck firstSeqAcked c =
     bindE (base_receivedDataAck firstSeqAcked c) (\<lambda>c.
     bindE (tahoe_growWindow c) (\<lambda>c.
     bindE (base_sendData c) (\<lambda>(sent, c). Inr c)))"

definition tahoe_receivedDuplicateAck :: "TCPConnection \<Rightarrow> TCPConnection res" where
  "tahoe_receivedDuplicateAck c =
     bindE (base_receivedDuplicateAck c) (\<lambda>c.
       if dupacks c = 3
       then bindE (retransmitOneSegment c) (\<lambda>c.
            let c = tahoe_recalculateSlowStartThreshold c;
                c = c\<lparr>snd_cwnd := snd_mss c\<rparr>
            in bindE (seqE [cancelEvent Rexmit, base_startRexmitTimer] c) (\<lambda>c.
               Inr (c\<lparr>rtseq_sendtime := 0\<rparr>)))
       else Inr c)"

section \<open>TCPReno\<close>

definition reno_recalculateSlowStartThreshold :: "TCPConnection \<Rightarrow> TCPConnection" where
  "reno_recalculateSlowStartThreshold c =
     (let flight_size = min (snd_cwnd c) (snd_wnd c)
      in c\<lparr>ssthresh := max (flight_size div 2) (2 * snd_mss c)\<rparr>)"

definition reno_processRexmitTimer :: "TCPEventCode \<Rightarrow> TCPConnection \<Rightarrow> (TCPEventCode \<times> TCPConnection) res" where
  "reno_processRexmitTimer ev c =
     bindE (base_processRexmitTimer ev c) (\<lambda>(ev, c).
       if ev = TCP_E_ABORT then Inr (ev, c)
       else let c = reno_recalculateSlowStartThreshold c;
                c = c\<lparr>snd_cwnd := snd_mss c\<rparr>
            in bindE (retransmitData c) (\<lambda>c. Inr (ev, c)))"

definition reno_growWindow :: "TCPConnection \<Rightarrow> TCPConnection res" where
  "reno_growWindow c =
     (if dupacks c \<ge> 3 then Inr (c\<lparr>snd_cwnd := ssthresh c\<rparr>)
      else if snd_cwnd c < ssthresh c then Inr (c\<lparr>snd_cwnd := snd_cwnd c + snd_mss c\<rparr>)
      else if snd_cwnd c = 0 then Inl DivisionByZero
      else let incr = snd_mss c * snd_mss c div snd_cwnd c;
               incr = (if incr = 0 then 1 else incr)
           in Inr (c\<lparr>snd_cwnd := snd_cwnd c + incr\<rparr>))"

definition reno_receivedDataAck :: "u32 \<Rightarrow> TCPConnection \<Rightarrow> TCPConnection res" where
  "reno_receivedDataAck firstSeqAcked c =
     bindE (base_receivedDataAck firstSeqAcked c) (\<lambda>c.
     bindE (reno_growWindow c) (\<lambda>c.
     bindE (base_sendData c) (\<lambda>(sent, c). Inr c)))"

definition reno_receivedDuplicateAck :: "TCPConnection \<Rightarrow> TCPConnection res" where
  "reno_receivedDuplicateAck c =
     bindE (base_receivedDuplicateAck c) (\<lambda>c.
       if dupacks c = 3
       then bindE (retransmitOneSegment c) (\<lambda>c.
            let c = reno_recalculateSlowStartThreshold c;
                c = c\<lparr>snd_cwnd := ssthresh c + 3 * snd_mss c\<rparr>
            in bindE (seqE [cancelEvent Rexmit, base_startRexmitTimer] c) (\<lambda>c.
               Inr (c\<lparr>rtseq_sendtime := 0\<rparr>)))
       else if dupacks c > 3
       then let c = c\<lparr>snd_cwnd := snd_cwnd c + snd_mss c\<rparr>
            in bindE (base_sendData c) (\<lambda>(sent, c). Inr c)
       else Inr c)"

section \<open>Dynamic dispatch\<close>

definition alg_established :: "bool \<Rightarrow> TCPConnection \<Rightarrow> TCPConnection res" where
  "alg_established act c = (if tcpAlgorithm c = DumbTCP then dumb_established act c else base_established act c)"

definition alg_connectionClosed :: "TCPConnection \<Rightarrow> TCPConnection res" where
  "alg_connectionClosed c =
     (if tcpAlgorithm c = DumbTCP then dumb_connectionClosed c else base_connectionClosed c)"

definition alg_processRexmitTimer :: "TCPEventCode \<Rightarrow> TCPConnection \<Rightarrow> (TCPEventCode \<times> TCPConnection) res" where
  "alg_processRexmitTimer ev c = (case tcpAlgorithm c of
       TCPTahoe \<Rightarrow> tahoe_processRexmitTimer ev c
     | TCPReno \<Rightarrow> reno_processRexmitTimer ev c
     | _ \<Rightarrow> nocc_processRexmitTimer ev c)"

text \<open>\<open>TCPBaseAlg::processTimer\<close>, with the virtual call of \<open>processRexmitTimer\<close>.\<close>

definition base_processTimer :: "timer_id \<Rightarrow> TCPConnection \<Rightarrow> (TCPEventCode \<times> TCPConnection) res" where
  "base_processTimer tm c = (case tm of
       Rexmit \<Rightarrow> alg_processRexmitTimer TCP_E_IGNORE c
     | Persist \<Rightarrow> base_processPersistTimer TCP_E_IGNORE c
     | DelayedAck \<Rightarrow> base_processDelayedAckTimer TCP_E_IGNORE c
     | KeepAlive \<Rightarrow> base_processKeepAliveTimer TCP_E_IGNORE c
     | _ \<Rightarrow> Inl (RuntimeError ''unrecognized timer''))"

definition alg_processTimer :: "timer_id \<Rightarrow> TCPConnection \<Rightarrow> (TCPEventCode \<times> TCPConnection) res" where
  "alg_processTimer tm c =
     (if tcpAlgorithm c = DumbTCP then dumb_processTimer tm c else base_processTimer tm c)"

definition alg_sendCommandInvoked :: "TCPConnection \<Rightarrow> TCPConnection res" where
  "alg_sendCommandInvoked c =
     (if tcpAlgorithm c = DumbTCP then dumb_sendCommandInvoked c else base_sendCommandInvoked c)"

definition alg_receivedOutOfOrderSegment :: "TCPConnection \<Rightarrow> TCPConnection res" where
  "alg_receivedOutOfOrderSegment c =
     (if tcpAlgorithm c = DumbTCP then dumb_receivedOutOfOrderSegment c
      else base_receivedOutOfOrderSegment c)"

definition alg_receiveSeqChanged :: "TCPConnection \<Rightarrow> TCPConnection res" where
  "alg_receiveSeqChanged c =
     (if tcpAlgorithm c = DumbTCP then dumb_receiveSeqChanged c else base_receiveSeqChanged c)"

definition alg_receivedDataAck :: "u32 \<Rightarrow> TCPConnection \<Rightarrow> TCPConnection res" where
  "alg_receivedDataAck firstSeqAcked c = (case tcpAlgorithm c of
       DumbTCP \<Rightarrow> dumb_receivedDataAck firstSeqAcked c
     | TCPNoCongestionControl \<Rightarrow> nocc_receivedDataAck firstSeqAcked c
     | TCPTahoe \<Rightarrow> tahoe_receivedDataAck firstSeqAcked c
     | TCPReno \<Rightarrow> reno_receivedDataAck firstSeqAcked c)"

definition alg_receivedDuplicateAck :: "TCPConnection \<Rightarrow> TCPConnection res" where
  "alg_receivedDuplicateAck c = (case tcpAlgorithm c of
       DumbTCP \<Rightarrow> dumb_receivedDuplicateAck c
     | TCPNoCongestionControl \<Rightarrow> base_receivedDuplicateAck c
     | TCPTahoe \<Rightarrow> tahoe_receivedDuplicateAck c
     | TCPReno \<Rightarrow> reno_receivedDuplicateAck c)"

definition alg_receivedAckForDataNotYetSent :: "u32 \<Rightarrow> TCPConnection \<Rightarrow> TCPConnection res" where
  "alg_receivedAckForDataNotYetSent seq c =
     (if tcpAlgorithm c = DumbTCP then dumb_receivedAckForDataNotYetSent seq c
      else base_receivedAckForDataNotYetSent seq c)"

section \<open>The contract of the hooks\<close>

text \<open>
  What \<open>TCPConnection\<close> relies on when it calls its algorithm object: a hook stays inside the
  frame, that is, it may send segments, move \<open>snd_nxt\<close> and \<open>snd_max\<close>, and use its own variables
  and timers; it does not touch the state of the FSM, the receive side, \<open>snd_una\<close>, the queues or
  the socket pair.
\<close>

locale tcp_algorithm =
  fixes established :: "bool \<Rightarrow> TCPConnection \<Rightarrow> TCPConnection res"
    and sendCommand :: "TCPConnection \<Rightarrow> TCPConnection res"
    and outOfOrder :: "TCPConnection \<Rightarrow> TCPConnection res"
    and seqChanged :: "TCPConnection \<Rightarrow> TCPConnection res"
    and dataAck :: "u32 \<Rightarrow> TCPConnection \<Rightarrow> TCPConnection res"
    and dupAck :: "TCPConnection \<Rightarrow> TCPConnection res"
    and notYetSent :: "u32 \<Rightarrow> TCPConnection \<Rightarrow> TCPConnection res"
    and timerHook :: "timer_id \<Rightarrow> TCPConnection \<Rightarrow> (TCPEventCode \<times> TCPConnection) res"
  assumes established_frame: "hook_frame a c \<Longrightarrow> wpE (established act c) (hook_frame a)"
    and sendCommand_frame: "hook_frame a c \<Longrightarrow> wpE (sendCommand c) (hook_frame a)"
    and outOfOrder_frame: "hook_frame a c \<Longrightarrow> wpE (outOfOrder c) (hook_frame a)"
    and seqChanged_frame: "hook_frame a c \<Longrightarrow> wpE (seqChanged c) (hook_frame a)"
    and dataAck_frame: "hook_frame a c \<Longrightarrow> wpE (dataAck s c) (hook_frame a)"
    and dupAck_frame: "hook_frame a c \<Longrightarrow> wpE (dupAck c) (hook_frame a)"
    and notYetSent_frame: "hook_frame a c \<Longrightarrow> wpE (notYetSent s c) (hook_frame a)"
    and timerHook_frame: "hook_frame a c \<Longrightarrow> wpE (timerHook tm c) (\<lambda>p. snd_frame a p \<and> fst p \<in> {TCP_E_IGNORE, TCP_E_ABORT})"
begin

text \<open>The calls \<open>TCPConnection\<close> makes, as one type, and any sequence of them.\<close>

lemmas hook_frames = established_frame sendCommand_frame outOfOrder_frame seqChanged_frame
  dataAck_frame dupAck_frame notYetSent_frame

lemma hooks_compose:
  assumes "\<forall>f \<in> set fs. f \<in> {established True, established False, sendCommand, outOfOrder, seqChanged, dupAck} \<union>
      range dataAck \<union> range notYetSent"
  shows "wpE (seqE fs c) (hook_frame c)"
proof -
  have "hook_frame a c \<Longrightarrow> wpE (seqE fs c) (hook_frame a)" for a
    using assms
  proof (induction fs arbitrary: c)
    case (Cons f fs)
    then have "wpE (f c) (hook_frame a)"
      by (auto intro: hook_frames)
    then show ?case
      using Cons by (auto simp: wpE_bindE elim!: wpE_mono)
  qed simp
  then show ?thesis by simp
qed

text \<open>No hook acknowledges or delivers anything by itself, and none moves the FSM.\<close>

lemma hooks_keep:
  assumes "\<forall>f \<in> set fs. f \<in> {established True, established False, sendCommand, outOfOrder, seqChanged, dupAck} \<union>
      range dataAck \<union> range notYetSent"
    and "seqE fs c = Inr c'"
  shows "fsm c' = fsm c" "snd_una c' = snd_una c" "rcv_nxt c' = rcv_nxt c"
    "sendQueue c' = sendQueue c" "receiveQueue c' = receiveQueue c"
  using hook_frame_fields [OF wpED [OF hooks_compose [OF assms(1)] assms(2)]] by simp_all

end

section \<open>The flavours keep the contract\<close>

named_theorems hook_defs \<open>definitions of the hooks\<close>

lemmas [hook_defs] = dumb_established_def dumb_sendCommandInvoked_def dumb_receivedOutOfOrderSegment_def
  dumb_receiveSeqChanged_def dumb_receivedDataAck_def dumb_receivedDuplicateAck_def
  dumb_receivedAckForDataNotYetSent_def dumb_processTimer_def
  base_established_def base_sendCommandInvoked_def base_receivedOutOfOrderSegment_def
  base_receiveSeqChanged_def base_receivedDuplicateAck_def base_receivedAckForDataNotYetSent_def

lemma base_sendData_frame [frame_intros]: "hook_frame a c \<Longrightarrow> wpE (base_sendData c) (snd_frame a)"
  by (simp add: base_sendData_def frame_intros)

lemma rttMeasurementComplete_frame [frame_intros]:
  "hook_frame a c \<Longrightarrow> hook_frame a (rttMeasurementComplete t u c)"
  by (auto simp: rttMeasurementComplete_def Let_def intro!: frame_intros)

lemma base_receivedDataAck_frame [frame_intros]: "hook_frame a c \<Longrightarrow> wpE (base_receivedDataAck s c) (hook_frame a)"
  by (auto simp: base_receivedDataAck_def Let_def intro!: frame_intros)

lemma recalculate_frame [frame_intros]:
  "hook_frame a c \<Longrightarrow> hook_frame a (tahoe_recalculateSlowStartThreshold c)"
  "hook_frame a c \<Longrightarrow> hook_frame a (reno_recalculateSlowStartThreshold c)"
  by (auto simp: tahoe_recalculateSlowStartThreshold_def reno_recalculateSlowStartThreshold_def Let_def
      intro!: frame_intros)

lemma growWindow_frame [frame_intros]:
  "hook_frame a c \<Longrightarrow> wpE (tahoe_growWindow c) (hook_frame a)"
  "hook_frame a c \<Longrightarrow> wpE (reno_growWindow c) (hook_frame a)"
  by (auto simp: tahoe_growWindow_def reno_growWindow_def Let_def intro!: frame_intros)

lemma receivedDataAck_frame [frame_intros]:
  "hook_frame a c \<Longrightarrow> wpE (nocc_receivedDataAck s c) (hook_frame a)"
  "hook_frame a c \<Longrightarrow> wpE (tahoe_receivedDataAck s c) (hook_frame a)"
  "hook_frame a c \<Longrightarrow> wpE (reno_receivedDataAck s c) (hook_frame a)"
  by (auto simp: nocc_receivedDataAck_def tahoe_receivedDataAck_def reno_receivedDataAck_def intro!: frame_intros)

lemma receivedDuplicateAck_frame [frame_intros]:
  "hook_frame a c \<Longrightarrow> wpE (tahoe_receivedDuplicateAck c) (hook_frame a)"
  "hook_frame a c \<Longrightarrow> wpE (reno_receivedDuplicateAck c) (hook_frame a)"
  by (auto simp: tahoe_receivedDuplicateAck_def reno_receivedDuplicateAck_def base_receivedDuplicateAck_def
      Let_def intro!: frame_intros)

lemma signalConnectionTimeout_frame [frame_intros]: "hook_frame a c \<Longrightarrow> wpE (signalConnectionTimeout c) (hook_frame a)"
  by (simp add: signalConnectionTimeout_def frame_intros)

lemma base_processRexmitTimer_frame [frame_intros]:
  "hook_frame a c \<Longrightarrow> wpE (base_processRexmitTimer ev c) (snd_frame a)"
  by (auto simp: base_processRexmitTimer_def Let_def intro!: frame_intros)

lemma processRexmitTimer_frame [frame_intros]:
  "hook_frame a c \<Longrightarrow> wpE (nocc_processRexmitTimer ev c) (snd_frame a)"
  "hook_frame a c \<Longrightarrow> wpE (tahoe_processRexmitTimer ev c) (snd_frame a)"
  "hook_frame a c \<Longrightarrow> wpE (reno_processRexmitTimer ev c) (snd_frame a)"
  by (auto simp: nocc_processRexmitTimer_def tahoe_processRexmitTimer_def reno_processRexmitTimer_def Let_def
      intro!: frame_intros)

lemma base_processTimer_frame [frame_intros]:
  "hook_frame a c \<Longrightarrow> wpE (base_processTimer tm c) (snd_frame a)"
  by (cases tm; cases "tcpAlgorithm c")
    (auto simp: base_processTimer_def alg_processRexmitTimer_def base_processPersistTimer_def
      base_processDelayedAckTimer_def base_processKeepAliveTimer_def intro!: frame_intros)

text \<open>A timer of the algorithm changes the event to \<open>TCP_E_ABORT\<close> or leaves it.\<close>

lemma base_processRexmitTimer_event:
  "wpE (base_processRexmitTimer ev c) (\<lambda>p. fst p \<in> {ev, TCP_E_ABORT})"
  by (auto simp: base_processRexmitTimer_def Let_def wpE_iff bindE_eq_Inr)

lemma processRexmitTimer_event:
  "wpE (nocc_processRexmitTimer ev c) (\<lambda>p. fst p \<in> {ev, TCP_E_ABORT})"
  "wpE (tahoe_processRexmitTimer ev c) (\<lambda>p. fst p \<in> {ev, TCP_E_ABORT})"
  "wpE (reno_processRexmitTimer ev c) (\<lambda>p. fst p \<in> {ev, TCP_E_ABORT})"
  unfolding nocc_processRexmitTimer_def tahoe_processRexmitTimer_def reno_processRexmitTimer_def wpE_bindE
  by (rule wpE_mono [OF base_processRexmitTimer_event];
      auto simp: Let_def wpE_iff bindE_eq_Inr split: if_splits)+

lemma processTimer_event:
  "wpE (base_processTimer tm c) (\<lambda>p. fst p \<in> {TCP_E_IGNORE, TCP_E_ABORT})"
  "wpE (dumb_processTimer tm c) (\<lambda>p. fst p \<in> {TCP_E_IGNORE, TCP_E_ABORT})"
proof -
  show "wpE (dumb_processTimer tm c) (\<lambda>p. fst p \<in> {TCP_E_IGNORE, TCP_E_ABORT})"
    by (auto simp: dumb_processTimer_def wpE_iff bindE_eq_Inr)
  show "wpE (base_processTimer tm c) (\<lambda>p. fst p \<in> {TCP_E_IGNORE, TCP_E_ABORT})"
    using processRexmitTimer_event [of TCP_E_IGNORE c]
    by (cases tm; cases "tcpAlgorithm c")
      (auto simp: base_processTimer_def alg_processRexmitTimer_def base_processPersistTimer_def
        base_processDelayedAckTimer_def base_processKeepAliveTimer_def wpE_iff bindE_eq_Inr)
qed

interpretation dumb: tcp_algorithm dumb_established dumb_sendCommandInvoked dumb_receivedOutOfOrderSegment
  dumb_receiveSeqChanged dumb_receivedDataAck dumb_receivedDuplicateAck dumb_receivedAckForDataNotYetSent
  dumb_processTimer
proof unfold_locales
  show "hook_frame a c \<Longrightarrow>
      wpE (dumb_processTimer tm c) (\<lambda>p. snd_frame a p \<and> fst p \<in> {TCP_E_IGNORE, TCP_E_ABORT})" for a c tm
    using processTimer_event(2) [of tm c]
    by (auto simp: wpE_conj, auto simp: dumb_processTimer_def intro!: frame_intros)
qed (auto simp: hook_defs intro!: frame_intros)

text \<open>The three subclasses of \<open>TCPBaseAlg\<close> differ in two hooks and in the retransmission timer.\<close>

lemma base_hooks_frame:
  assumes "hook_frame a c"
  shows "wpE (base_established act c) (hook_frame a)" "wpE (base_sendCommandInvoked c) (hook_frame a)"
    "wpE (base_receivedOutOfOrderSegment c) (hook_frame a)" "wpE (base_receiveSeqChanged c) (hook_frame a)"
    "wpE (base_receivedDuplicateAck c) (hook_frame a)" "wpE (base_receivedAckForDataNotYetSent s c) (hook_frame a)"
    "wpE (base_processTimer tm c) (\<lambda>p. snd_frame a p \<and> fst p \<in> {TCP_E_IGNORE, TCP_E_ABORT})"
  using assms processTimer_event(1) [of tm c]
  by (auto simp: hook_defs Let_def wpE_conj intro!: frame_intros)

interpretation nocc: tcp_algorithm base_established base_sendCommandInvoked base_receivedOutOfOrderSegment
  base_receiveSeqChanged nocc_receivedDataAck base_receivedDuplicateAck base_receivedAckForDataNotYetSent
  base_processTimer
  by unfold_locales (erule base_hooks_frame receivedDataAck_frame)+

interpretation tahoe: tcp_algorithm base_established base_sendCommandInvoked base_receivedOutOfOrderSegment
  base_receiveSeqChanged tahoe_receivedDataAck tahoe_receivedDuplicateAck base_receivedAckForDataNotYetSent
  base_processTimer
  by unfold_locales (erule base_hooks_frame receivedDataAck_frame receivedDuplicateAck_frame)+

interpretation reno: tcp_algorithm base_established base_sendCommandInvoked base_receivedOutOfOrderSegment
  base_receiveSeqChanged reno_receivedDataAck reno_receivedDuplicateAck base_receivedAckForDataNotYetSent
  base_processTimer
  by unfold_locales (erule base_hooks_frame receivedDataAck_frame receivedDuplicateAck_frame)+

text \<open>And so does the virtual dispatch.\<close>

interpretation alg: tcp_algorithm alg_established alg_sendCommandInvoked alg_receivedOutOfOrderSegment
  alg_receiveSeqChanged alg_receivedDataAck alg_receivedDuplicateAck alg_receivedAckForDataNotYetSent
  alg_processTimer
proof unfold_locales
  fix a c :: TCPConnection and act s tm
  assume h: "hook_frame a c"
  show "wpE (alg_established act c) (hook_frame a)"
    using dumb.established_frame [OF h] base_hooks_frame [OF h] by (simp add: alg_established_def)
  show "wpE (alg_sendCommandInvoked c) (hook_frame a)"
    using dumb.sendCommand_frame [OF h] base_hooks_frame [OF h] by (simp add: alg_sendCommandInvoked_def)
  show "wpE (alg_receivedOutOfOrderSegment c) (hook_frame a)"
    using dumb.outOfOrder_frame [OF h] base_hooks_frame [OF h] by (simp add: alg_receivedOutOfOrderSegment_def)
  show "wpE (alg_receiveSeqChanged c) (hook_frame a)"
    using dumb.seqChanged_frame [OF h] base_hooks_frame [OF h] by (simp add: alg_receiveSeqChanged_def)
  show "wpE (alg_receivedDataAck s c) (hook_frame a)"
    using dumb.dataAck_frame [OF h] receivedDataAck_frame [OF h]
    by (cases "tcpAlgorithm c") (simp_all add: alg_receivedDataAck_def)
  show "wpE (alg_receivedDuplicateAck c) (hook_frame a)"
    using dumb.dupAck_frame [OF h] receivedDuplicateAck_frame [OF h] base_hooks_frame(5) [OF h]
    by (cases "tcpAlgorithm c") (simp_all add: alg_receivedDuplicateAck_def)
  show "wpE (alg_receivedAckForDataNotYetSent s c) (hook_frame a)"
    using dumb.notYetSent_frame [OF h] base_hooks_frame(6) [OF h] by (simp add: alg_receivedAckForDataNotYetSent_def)
  show "wpE (alg_processTimer tm c) (\<lambda>p. snd_frame a p \<and> fst p \<in> {TCP_E_IGNORE, TCP_E_ABORT})"
    using dumb.timerHook_frame [OF h] base_hooks_frame(7) [OF h] by (simp add: alg_processTimer_def)
qed

section \<open>Properties\<close>

text \<open>
  The round-trip time estimator is stable.  Whatever the measurement,
  the smoothed round-trip time ends between its old value and the measured one, the deviation
  stays non-negative, and the new retransmission timeout lies between one second and
  four minutes.
\<close>

theorem rtt_estimator_bounds:
  assumes "0 \<le> rttvar c"
  shows "let c' = rttMeasurementComplete tSent tAcked c in
    min (srtt c) (tAcked - tSent) \<le> srtt c' \<and> srtt c' \<le> max (srtt c) (tAcked - tSent) \<and>
    0 \<le> rttvar c' \<and> 1 \<le> rexmit_timeout c' \<and> rexmit_timeout c' \<le> 240"
proof -
  define c' where "c' = rttMeasurementComplete tSent tAcked c"
  let ?e = "tAcked - tSent - srtt c"
  have s: "srtt c' = srtt c + ?e / 8"
    by (simp add: c'_def rttMeasurementComplete_def Let_def field_simps)
  have v: "rttvar c' = 7 / 8 * rttvar c + \<bar>?e\<bar> / 8"
    by (simp add: c'_def rttMeasurementComplete_def Let_def field_simps)
  have "min (srtt c) (tAcked - tSent) \<le> srtt c'" "srtt c' \<le> max (srtt c) (tAcked - tSent)"
    unfolding s by (simp_all add: min_def max_def field_simps)
  moreover have "0 \<le> rttvar c'" using assms(1) unfolding v by simp
  moreover have "1 \<le> rexmit_timeout c'" "rexmit_timeout c' \<le> 240"
    by (simp_all add: c'_def rttMeasurementComplete_def Let_def rexmit_consts)
  ultimately show ?thesis by (simp add: c'_def Let_def)
qed

theorem rtt_estimator_bounds_witness:
  "rexmit_timeout (rttMeasurementComplete 1 (3 / 2) demo_conn) \<le> 240 \<and>
   srtt (rttMeasurementComplete 1 (3 / 2) demo_conn) \<le> 1 / 2"
proof -
  have "srtt demo_conn = 0" "rttvar demo_conn = 3 / 4"
    by (simp_all add: demo_conn_def newTCPConnection_def)
  then show ?thesis
    using rtt_estimator_bounds [of demo_conn 1 "3 / 2"] by (simp add: Let_def)
qed

text \<open>The retransmission timer that has just expired is idle; the base class backs off.\<close>

lemma base_processRexmitTimer_backoff:
  assumes "timers c Rexmit = Idle" "rexmit_count c < 12"
  shows "base_processRexmitTimer ev c = Inr (ev, c\<lparr>rexmit_count := rexmit_count c + 1,
     rexmit_timeout := min 240 (2 * rexmit_timeout c),
     timers := (timers c)(Rexmit := Scheduled (now c + min 240 (2 * rexmit_timeout c))),
     rtseq_sendtime := 0\<rparr>)"
  using assms
  by (simp add: base_processRexmitTimer_def Let_def rexmit_consts scheduleTimeout_def min_def)

lemma base_processRexmitTimer_abort:
  assumes "12 \<le> rexmit_count c"
  shows "base_processRexmitTimer ev c = Inr (TCP_E_ABORT,
     emit (ToAppIndication (appGateIndex c) (connId c) TCP_I_TIMED_OUT) (c\<lparr>rexmit_count := rexmit_count c + 1\<rparr>))"
  using assms
  by (simp add: base_processRexmitTimer_def Let_def rexmit_consts signalConnectionTimeout_def
      sendIndicationToApp_def)

text \<open>
  Reno's reaction to a retransmission timeout.  With data outstanding and at most
  eleven retransmissions so far, the timer is restarted with twice the timeout, at most 240 seconds;
  the slow start threshold becomes half of the smaller window but at least two segments,
  the congestion window one segment; the round-trip measurement is dropped; and
  everything from \<open>snd_una\<close> on is sent again, without a gap.  Nothing else changes.
\<close>

theorem reno_timeout:
  assumes "snd_inv c" "snd_una c \<noteq> snd_max c" "timers c Rexmit = Idle" "rexmit_count c < 12"
  shows "\<exists>gs. reno_processRexmitTimer TCP_E_IGNORE c = Inr (TCP_E_IGNORE,
      c\<lparr>rexmit_count := rexmit_count c + 1,
        rexmit_timeout := min 240 (2 * rexmit_timeout c),
        timers := (timers c)(Rexmit := Scheduled (now c + min 240 (2 * rexmit_timeout c))),
        rtseq_sendtime := 0,
        ssthresh := max (min (snd_cwnd c) (snd_wnd c) div 2) (2 * snd_mss c),
        snd_cwnd := snd_mss c,
        snd_nxt := snd_max c, outbox := outbox c @ map (ip_out c) gs\<rparr>) \<and>
    run_of (unat (snd_mss c)) (snd_una c) gs (if snd_max c = bend c + 1 then bend c else snd_max c)"
proof -
  let ?c = "c\<lparr>rexmit_count := rexmit_count c + 1,
        rexmit_timeout := min 240 (2 * rexmit_timeout c),
        timers := (timers c)(Rexmit := Scheduled (now c + min 240 (2 * rexmit_timeout c))),
        rtseq_sendtime := 0,
        ssthresh := max (min (snd_cwnd c) (snd_wnd c) div 2) (2 * snd_mss c),
        snd_cwnd := snd_mss c\<rparr>"
  have i: "snd_inv ?c" "snd_una ?c \<noteq> snd_max ?c"
    using assms(1,2) by (simp_all add: snd_inv_def fin_at_end_def ip_ok_def)
  have o: "ip_out ?c = ip_out c" by (simp add: ip_out_def fun_eq_iff Let_def)
  obtain gs where "retransmitData ?c = Inr (?c\<lparr>snd_nxt := snd_max ?c, outbox := outbox ?c @ map (ip_out ?c) gs\<rparr>)"
    "run_of (unat (snd_mss ?c)) (snd_una ?c) gs (if snd_max ?c = bend ?c + 1 then bend ?c else snd_max ?c)"
    using retransmitData_all [OF i] by blast
  then have gs: "retransmitData ?c = Inr (?c\<lparr>snd_nxt := snd_max c, outbox := outbox c @ map (ip_out c) gs\<rparr>)"
    "run_of (unat (snd_mss c)) (snd_una c) gs (if snd_max c = bend c + 1 then bend c else snd_max c)"
    by (simp_all add: o cong: if_cong)
  have "reno_processRexmitTimer TCP_E_IGNORE c = bindE (retransmitData ?c) (\<lambda>c. Inr (TCP_E_IGNORE, c))"
    by (simp add: reno_processRexmitTimer_def base_processRexmitTimer_backoff [OF assms(3,4)]
        reno_recalculateSlowStartThreshold_def Let_def)
  then show ?thesis
    using gs by (intro exI [of _ gs]) simp
qed

text \<open>The closing connection of the example, its timer expired.\<close>

theorem reno_timeout_witness:
  "\<exists>c'. reno_processRexmitTimer TCP_E_IGNORE demo_closing = Inr (TCP_E_IGNORE, c') \<and>
     rexmit_timeout c' = 6 \<and> snd_cwnd c' = 1000 \<and> ssthresh c' = 2000 \<and> snd_nxt c' = 3102"
proof -
  have f: "timers demo_closing Rexmit = Idle" "rexmit_count demo_closing = 0" "rexmit_timeout demo_closing = 3"
    "snd_cwnd demo_closing = 2500" "snd_wnd demo_closing = 4000" "snd_mss demo_closing = 1000"
    "snd_max demo_closing = 3102"
    by (simp_all add: demo_closing_def demo_conn_def newTCPConnection_def)
  have "max (min (2500 :: u32) 4000 div 2) (2 * 1000) = 2000"
    by (simp add: min_def max_def word_le_nat_alt unat_div)
  then show ?thesis
    using reno_timeout [OF demo_closing_inv f(1)] f by fastforce
qed

text \<open>
  The growth of the window outside fast recovery, which Tahoe and Reno share: below the threshold
  by one segment, from the threshold on by \<open>mss * mss / cwnd\<close>, and by at least one octet.
\<close>

definition grown :: "TCPConnection \<Rightarrow> u32" where
  "grown c = (if snd_cwnd c < ssthresh c then snd_cwnd c + snd_mss c
     else snd_cwnd c + max 1 (snd_mss c * snd_mss c div snd_cwnd c))"

lemma max_1_u32: "max 1 (x :: u32) = (if x = 0 then 1 else x)"
  by (auto simp: max_def word_le_nat_alt unat_gt_0 Suc_le_eq)

lemma growWindow_eq:
  assumes "snd_cwnd c \<noteq> 0"
  shows "tahoe_growWindow c = Inr (c\<lparr>snd_cwnd := grown c\<rparr>)"
    and "dupacks c < 3 \<Longrightarrow> reno_growWindow c = Inr (c\<lparr>snd_cwnd := grown c\<rparr>)"
  using assms by (simp_all add: tahoe_growWindow_def reno_growWindow_def grown_def Let_def max_1_u32)

lemma grown_bounds:
  assumes "0 < unat (snd_mss c)" "unat (snd_mss c) \<le> unat (snd_cwnd c)"
    and "unat (snd_cwnd c) + unat (snd_mss c) < full" "unat (snd_mss c) * unat (snd_mss c) < full"
  shows "unat (snd_cwnd c) < unat (grown c)" "unat (grown c) \<le> unat (snd_cwnd c) + unat (snd_mss c)"
proof -
  let ?m = "unat (snd_mss c)" and ?w = "unat (snd_cwnd c)"
  let ?q = "unat (snd_mss c * snd_mss c div snd_cwnd c)"
  have q: "?q = ?m * ?m div ?w"
    using assms(4) by (simp add: unat_div unat_word_ariths)
  have "?m * ?m \<le> ?m * ?w" using assms(2) by simp
  then have "?q \<le> ?m"
    using div_le_mono [of "?m * ?m" "?m * ?w" ?w] assms(1,2) unfolding q by simp
  moreover have "unat (max 1 (snd_mss c * snd_mss c div snd_cwnd c)) = max 1 ?q"
    unfolding max_1_u32 using unat_gt_0 [of "snd_mss c * snd_mss c div snd_cwnd c"] by auto
  ultimately have "unat (snd_cwnd c + max 1 (snd_mss c * snd_mss c div snd_cwnd c)) = ?w + max 1 ?q"
    using assms(1,3) by (simp add: unat_word_ariths max_def)
  moreover have "unat (snd_cwnd c + snd_mss c) = ?w + ?m"
    using assms(3) by (simp add: unat_word_ariths)
  ultimately show "?w < unat (grown c)" "unat (grown c) \<le> ?w + ?m"
    using assms(1) \<open>?q \<le> ?m\<close> by (auto simp: grown_def max_def)
qed

text \<open>
  An acknowledgement lets the congestion window of Tahoe and of Reno
  (outside fast recovery) grow, by at least one octet and at most one segment: by exactly one
  segment below the slow start threshold, by \<open>mss * mss / cwnd\<close> from there on.  The products
  and sums are assumed to fit 32 bits, and the window to hold at least one segment.
\<close>

theorem window_growth:
  assumes "0 < unat (snd_mss c)" "unat (snd_mss c) \<le> unat (snd_cwnd c)"
    and "unat (snd_cwnd c) + unat (snd_mss c) < full" "unat (snd_mss c) * unat (snd_mss c) < full"
    and "dupacks c < 3"
  shows "\<exists>w. tahoe_growWindow c = Inr (c\<lparr>snd_cwnd := w\<rparr>) \<and> reno_growWindow c = Inr (c\<lparr>snd_cwnd := w\<rparr>) \<and>
    snd_cwnd c < w \<and> unat w \<le> unat (snd_cwnd c) + unat (snd_mss c) \<and>
    (snd_cwnd c < ssthresh c \<longrightarrow> w = snd_cwnd c + snd_mss c)"
proof (intro exI [of _ "grown c"] conjI impI)
  have "snd_cwnd c \<noteq> 0" using assms(1,2) by (metis less_le_not_le unat_0)
  then show "tahoe_growWindow c = Inr (c\<lparr>snd_cwnd := grown c\<rparr>)" "reno_growWindow c = Inr (c\<lparr>snd_cwnd := grown c\<rparr>)"
    using growWindow_eq assms(5) by simp_all
  show "snd_cwnd c < grown c" "unat (grown c) \<le> unat (snd_cwnd c) + unat (snd_mss c)"
    using grown_bounds [OF assms(1-4)] by (simp_all add: word_less_nat_alt)
  show "snd_cwnd c < ssthresh c \<Longrightarrow> grown c = snd_cwnd c + snd_mss c"
    by (simp add: grown_def)
qed

theorem window_growth_witness:
  "\<exists>w. reno_growWindow demo_conn = Inr (demo_conn\<lparr>snd_cwnd := w\<rparr>) \<and> w = 3500"
proof -
  have "snd_mss demo_conn = 1000" "snd_cwnd demo_conn = 2500" "ssthresh demo_conn = 65535" "dupacks demo_conn = 0"
    by (simp_all add: demo_conn_def newTCPConnection_def)
  then show ?thesis
    using window_growth [of demo_conn] by (auto simp: word_less_nat_alt)
qed

text \<open>
  Fast retransmit.  On the third duplicate acknowledgement both Tahoe and Reno send the
  segment at \<open>snd_una\<close> again at once, set the threshold to half of the smaller window but
  at least two segments, and restart the retransmission timer with its counter reset;
  Tahoe shrinks its window to one segment, Reno to the threshold plus three.  The
  outstanding data must not end with a FIN inside that segment.
\<close>

theorem fast_retransmit:
  assumes "snd_inv c" "snd_una c \<noteq> snd_max c" "alg_timers_ok c" "dupacks c = 3"
    and "\<not> (snd_max c = bend c + 1 \<and> snd_max c - snd_una c \<le> snd_mss c)"
  shows "\<exists>g th c1 c2. tahoe_receivedDuplicateAck c = Inr c1 \<and> reno_receivedDuplicateAck c = Inr c2 \<and>
    th = max (min (snd_cwnd c) (snd_wnd c) div 2) (2 * snd_mss c) \<and>
    sequenceNo g = snd_una c \<and> 0 < payloadLength g \<and> payloadLength g \<le> uint (snd_mss c) \<and> plain_ack c g \<and>
    outbox c1 = outbox c @ [ip_out c g] \<and> outbox c2 = outbox c @ [ip_out c g] \<and>
    ssthresh c1 = th \<and> ssthresh c2 = th \<and> snd_cwnd c1 = snd_mss c \<and> snd_cwnd c2 = th + 3 * snd_mss c \<and>
    timers c1 Rexmit = Scheduled (now c + rexmit_timeout c) \<and> rexmit_count c1 = 0 \<and>
    timers c2 Rexmit = Scheduled (now c + rexmit_timeout c) \<and> rexmit_count c2 = 0"
proof -
  let ?n = "unat (min (snd_mss c) (snd_max c - snd_una c))"
  obtain g where g: "retransmitOneSegment c =
      Inr (c\<lparr>snd_nxt := after_run c (snd_una c + of_nat ?n), outbox := outbox c @ [ip_out c g],
             timers := ack_timers c\<rparr>)"
    "sequenceNo g = snd_una c" "payloadLength g = int ?n" "plain_ack c g" "0 < ?n"
    by (rule retransmitOneSegment_ok [OF assms(1,2,3,5)])
  have t: "ack_timers c Rexmit \<noteq> Deleted" using assms(3) by (simp add: ack_timers_def alg_timers_ok_def)
  have "?n \<le> unat (snd_mss c)" by (simp add: min_def word_le_nat_alt)
  then have "int ?n \<le> int (unat (snd_mss c))" by (simp only: of_nat_le_iff)
  moreover have "0 < int ?n" using g(5) by (simp only: of_nat_0_less_iff)
  ultimately have "0 < payloadLength g" "payloadLength g \<le> uint (snd_mss c)" using g(3) by simp_all
  then show ?thesis
    using g(1,2,4) t assms(4)
    by (cases "ack_timers c Rexmit")
      (auto simp: tahoe_receivedDuplicateAck_def reno_receivedDuplicateAck_def base_receivedDuplicateAck_def
        tahoe_recalculateSlowStartThreshold_def reno_recalculateSlowStartThreshold_def Let_def
        base_startRexmitTimer_def scheduleTimeout_def cancelEvent_def)
qed

text \<open>Two segments of the example in flight, and the third duplicate acknowledgement.\<close>

definition demo_dup :: TCPConnection where
  "demo_dup = demo_conn\<lparr>snd_max := 2101, snd_nxt := 2101, dupacks := 3\<rparr>"

theorem fast_retransmit_witness:
  "\<exists>g c2. reno_receivedDuplicateAck demo_dup = Inr c2 \<and> outbox c2 = [ip_out demo_dup g] \<and> sequenceNo g = 101"
proof -
  have "snd_inv demo_dup" "alg_timers_ok demo_dup" "dupacks demo_dup = 3" "snd_una demo_dup = 101"
    "snd_max demo_dup = 2101" "bend demo_dup = 3101" "outbox demo_dup = []"
    by (simp_all add: demo_dup_def demo_simps)
  then show ?thesis
    using fast_retransmit [of demo_dup] by auto
qed

text \<open>
  Sending does not change the congestion variables; the rules mirror those of the frame.
\<close>

definition cc_vars :: "TCPConnection \<Rightarrow> u32 \<times> u32 \<times> simtime \<times> simtime \<times> simtime" where
  "cc_vars c = (snd_cwnd c, ssthresh c, rexmit_timeout c, srtt c, rttvar c)"

abbreviation cc_is :: "u32 \<times> u32 \<times> simtime \<times> simtime \<times> simtime \<Rightarrow> TCPConnection \<Rightarrow> bool" where
  "cc_is v c \<equiv> cc_vars c = v"

named_theorems cc_intros \<open>operations keep the congestion variables\<close>

lemma cc_upd [cc_intros]:
  "cc_is v c \<Longrightarrow> cc_is v (c\<lparr>snd_nxt := x\<rparr>)" "cc_is v c \<Longrightarrow> cc_is v (c\<lparr>snd_max := x\<rparr>)"
  "cc_is v c \<Longrightarrow> cc_is v (c\<lparr>rexmit_count := i\<rparr>)" "cc_is v c \<Longrightarrow> cc_is v (c\<lparr>rtseq := x\<rparr>)"
  "cc_is v c \<Longrightarrow> cc_is v (c\<lparr>rtseq_sendtime := t\<rparr>)" "cc_is v c \<Longrightarrow> cc_is v (c\<lparr>timers := ts\<rparr>)"
  "cc_is v c \<Longrightarrow> cc_is v (emit m c)"
  by (simp_all add: cc_vars_def emit_def)

lemma cc_bind [cc_intros]:
  "wpE m (cc_is v) \<Longrightarrow> (\<And>x. cc_is v x \<Longrightarrow> wpE (f x) (cc_is v)) \<Longrightarrow> wpE (bindE m f) (cc_is v)"
  "wpE m (cc_is v) \<Longrightarrow> (\<And>x. cc_is v x \<Longrightarrow> wpE (g x) (\<lambda>p. cc_is v (snd p))) \<Longrightarrow> wpE (bindE m g) (\<lambda>p. cc_is v (snd p))"
  "wpE m' (\<lambda>p. cc_is v (snd p)) \<Longrightarrow> (\<And>b x. cc_is v x \<Longrightarrow> wpE (f' (b, x)) (cc_is v)) \<Longrightarrow> wpE (bindE m' f') (cc_is v)"
  by (auto simp: wpE_bindE elim!: wpE_mono)

lemma cc_basic [cc_intros]:
  "cc_is v c \<Longrightarrow> (b \<Longrightarrow> wpE (f c) (cc_is v)) \<Longrightarrow> wpE (whenE b f c) (cc_is v)"
  "cc_is v c \<Longrightarrow> wpE (assertE l b c) (cc_is v)"
  "cc_is v c \<Longrightarrow> wpE (scheduleTimeout tm dt c) (cc_is v)"
  "cc_is v c \<Longrightarrow> wpE (cancelEvent tm c) (cc_is v)"
  by (auto simp: whenE_def assertE_def scheduleTimeout_def cancelEvent_def intro!: cc_intros split: timer.split)

lemma cc_sendToIP [cc_intros]: "cc_is v c \<Longrightarrow> wpE (sendToIP seg c) (cc_is v)"
  by (auto simp: sendToIP_def Let_def wpE_iff bindE_eq_Inr intro!: cc_intros)

lemma cc_hooks [cc_intros]:
  "cc_is v c \<Longrightarrow> wpE (base_startRexmitTimer c) (cc_is v)"
  "cc_is v c \<Longrightarrow> wpE (ackSent c) (cc_is v)"
  "cc_is v c \<Longrightarrow> wpE (dataSent s c) (cc_is v)"
  by (auto simp: ackSent_def dumb_ackSent_def base_ackSent_def dataSent_def dumb_dataSent_def
      base_dataSent_def base_startRexmitTimer_def intro!: cc_intros)

lemma cc_sendAck [cc_intros]: "cc_is v c \<Longrightarrow> wpE (sendAck c) (cc_is v)"
  by (auto simp: sendAck_def intro!: cc_intros)

lemma cc_sendSegment [cc_intros]: "cc_is v c \<Longrightarrow> wpE (sendSegment n c) (cc_is v)"
  by (cases "sq_createSegmentWithBytes (snd_nxt c) n (sendQueue c)")
    (auto simp: sendSegment_def Let_def intro!: cc_intros)

lemma cc_sendWholeSegments [cc_intros]: "cc_is v c \<Longrightarrow> wpE (sendWholeSegments n c) (cc_is v)"
proof (induction n c rule: sendWholeSegments.induct)
  case (1 n c)
  have step: "wpE (sendSegment k c) (cc_is v)" for k
    using "1.prems" by (rule cc_sendSegment)
  show ?case
    using 1 wpED [OF step]
    by (subst sendWholeSegments.simps) (auto intro!: cc_intros split: sum.split)
qed

lemma cc_sendData [cc_intros]: "cc_is v c \<Longrightarrow> wpE (sendData fs cw c) (\<lambda>p. cc_is v (snd p))"
  by (auto simp: sendData_def sendBytes_def Let_def intro!: cc_intros)

lemma cwnd_of_cc:
  assumes "wpE m (cc_is (cc_vars d))" "snd_cwnd d = w"
  shows "wpE m (\<lambda>c. snd_cwnd c = w)"
  using assms(1) by (rule wpE_mono) (use assms(2) in \<open>simp add: cc_vars_def\<close>)

lemma base_established_cwnd: "wpE (base_established act c) (\<lambda>c'. snd_cwnd c' = snd_mss c)"
  by (rule cwnd_of_cc [where d = "c\<lparr>snd_cwnd := snd_mss c\<rparr>"])
    (auto simp: base_established_def base_sendData_def Let_def intro!: cc_intros)

lemma base_receivedDataAck_cwnd: "wpE (base_receivedDataAck s c) (\<lambda>c'. snd_cwnd c' = snd_cwnd c)"
proof -
  let ?d = "if rtseq_sendtime c \<noteq> 0 \<and> seqLess (rtseq c) (snd_una c)
     then (rttMeasurementComplete (rtseq_sendtime c) (now c) c)\<lparr>rtseq_sendtime := 0\<rparr> else c"
  have "snd_cwnd ?d = snd_cwnd c" by (simp add: rttMeasurementComplete_def Let_def)
  then show ?thesis
    unfolding base_receivedDataAck_def Let_def
    by (intro cwnd_of_cc [where d = ?d]) (auto intro!: cc_intros)
qed

lemma nocc_receivedDataAck_cwnd: "wpE (nocc_receivedDataAck s c) (\<lambda>c'. snd_cwnd c' = snd_cwnd c)"
  unfolding nocc_receivedDataAck_def wpE_bindE [of "base_receivedDataAck s c"]
proof (rule wpE_mono [OF base_receivedDataAck_cwnd])
  show "wpE (bindE (base_sendData x) (\<lambda>(sent, c). Inr c)) (\<lambda>c'. snd_cwnd c' = snd_cwnd c)"
    if "snd_cwnd x = snd_cwnd c" for x
    by (rule cwnd_of_cc [where d = x]) (use that in \<open>auto simp: base_sendData_def intro!: cc_intros\<close>)
qed

text \<open>
  \<open>TCPNoCongestionControl\<close> sends with a window of one segment.  Its \<open>initialize\<close> sets the
  window to \<open>0x7fffffff\<close>, but the inherited \<open>established\<close> resets it to \<open>snd_mss\<close> when the
  connection is set up, and no acknowledgement, new or duplicate, raises it again.
\<close>

theorem nocc_window_is_mss:
  assumes "tcpAlgorithm c = TCPNoCongestionControl"
  shows "snd_cwnd (alg_initialize c) = 0x7fffffff \<and>
    wpE (alg_established act c) (\<lambda>c'. snd_cwnd c' = snd_mss c) \<and>
    wpE (alg_receivedDataAck s c) (\<lambda>c'. snd_cwnd c' = snd_cwnd c) \<and>
    wpE (alg_receivedDuplicateAck c) (\<lambda>c'. snd_cwnd c' = snd_cwnd c)"
  using assms base_established_cwnd nocc_receivedDataAck_cwnd
  by (auto simp: alg_initialize_def nocc_initialize_def alg_established_def alg_receivedDataAck_def
      alg_receivedDuplicateAck_def base_receivedDuplicateAck_def)

theorem nocc_window_is_mss_witness:
  "wpE (alg_established False (demo_conn\<lparr>tcpAlgorithm := TCPNoCongestionControl\<rparr>)) (\<lambda>c'. snd_cwnd c' = 1000)"
proof -
  have "snd_mss (demo_conn\<lparr>tcpAlgorithm := TCPNoCongestionControl\<rparr>) = 1000"
    by (simp add: demo_conn_def newTCPConnection_def)
  then show ?thesis
    using nocc_window_is_mss [of "demo_conn\<lparr>tcpAlgorithm := TCPNoCongestionControl\<rparr>" False] by simp
qed

end
