(* ===== verification/TCP_FSM.thy ===== *)
theory TCP_FSM
  imports TCP_Flavours
begin

text \<open>
  The state machine of a connection (\<open>performStateTransition\<close> and \<open>stateEntered\<close> of
  \<open>TCPConnectionBase.cc\<close>).  \<open>fsmNext\<close> is the table of the nested \<open>switch\<close> statements: a pair
  of state and event that the source does not list leaves the state as it is.
\<close>

section \<open>Transitions\<close>

definition fsmNext :: "bool \<Rightarrow> TcpState \<Rightarrow> TCPEventCode \<Rightarrow> TcpState" where
  "fsmNext act s e = (case s of
       TCP_S_INIT \<Rightarrow> (case e of
           TCP_E_OPEN_PASSIVE \<Rightarrow> TCP_S_LISTEN
         | TCP_E_OPEN_ACTIVE \<Rightarrow> TCP_S_SYN_SENT
         | _ \<Rightarrow> s)
     | TCP_S_LISTEN \<Rightarrow> (case e of
           TCP_E_OPEN_ACTIVE \<Rightarrow> TCP_S_SYN_SENT
         | TCP_E_SEND \<Rightarrow> TCP_S_SYN_SENT
         | TCP_E_CLOSE \<Rightarrow> TCP_S_CLOSED
         | TCP_E_ABORT \<Rightarrow> TCP_S_CLOSED
         | TCP_E_RCV_SYN \<Rightarrow> TCP_S_SYN_RCVD
         | _ \<Rightarrow> s)
     | TCP_S_SYN_RCVD \<Rightarrow> (case e of
           TCP_E_CLOSE \<Rightarrow> TCP_S_FIN_WAIT_1
         | TCP_E_ABORT \<Rightarrow> TCP_S_CLOSED
         | TCP_E_TIMEOUT_CONN_ESTAB \<Rightarrow> (if act then TCP_S_CLOSED else TCP_S_LISTEN)
         | TCP_E_RCV_RST \<Rightarrow> (if act then TCP_S_CLOSED else TCP_S_LISTEN)
         | TCP_E_RCV_ACK \<Rightarrow> TCP_S_ESTABLISHED
         | TCP_E_RCV_FIN \<Rightarrow> TCP_S_CLOSE_WAIT
         | TCP_E_RCV_UNEXP_SYN \<Rightarrow> TCP_S_CLOSED
         | _ \<Rightarrow> s)
     | TCP_S_SYN_SENT \<Rightarrow> (case e of
           TCP_E_CLOSE \<Rightarrow> TCP_S_CLOSED
         | TCP_E_ABORT \<Rightarrow> TCP_S_CLOSED
         | TCP_E_TIMEOUT_CONN_ESTAB \<Rightarrow> TCP_S_CLOSED
         | TCP_E_RCV_RST \<Rightarrow> TCP_S_CLOSED
         | TCP_E_RCV_SYN_ACK \<Rightarrow> TCP_S_ESTABLISHED
         | TCP_E_RCV_SYN \<Rightarrow> TCP_S_SYN_RCVD
         | _ \<Rightarrow> s)
     | TCP_S_ESTABLISHED \<Rightarrow> (case e of
           TCP_E_CLOSE \<Rightarrow> TCP_S_FIN_WAIT_1
         | TCP_E_ABORT \<Rightarrow> TCP_S_CLOSED
         | TCP_E_RCV_FIN \<Rightarrow> TCP_S_CLOSE_WAIT
         | TCP_E_RCV_RST \<Rightarrow> TCP_S_CLOSED
         | TCP_E_RCV_UNEXP_SYN \<Rightarrow> TCP_S_CLOSED
         | _ \<Rightarrow> s)
     | TCP_S_CLOSE_WAIT \<Rightarrow> (case e of
           TCP_E_CLOSE \<Rightarrow> TCP_S_LAST_ACK
         | TCP_E_ABORT \<Rightarrow> TCP_S_CLOSED
         | TCP_E_RCV_RST \<Rightarrow> TCP_S_CLOSED
         | TCP_E_RCV_UNEXP_SYN \<Rightarrow> TCP_S_CLOSED
         | _ \<Rightarrow> s)
     | TCP_S_LAST_ACK \<Rightarrow> (case e of
           TCP_E_ABORT \<Rightarrow> TCP_S_CLOSED
         | TCP_E_RCV_ACK \<Rightarrow> TCP_S_CLOSED
         | TCP_E_RCV_RST \<Rightarrow> TCP_S_CLOSED
         | TCP_E_RCV_UNEXP_SYN \<Rightarrow> TCP_S_CLOSED
         | _ \<Rightarrow> s)
     | TCP_S_FIN_WAIT_1 \<Rightarrow> (case e of
           TCP_E_ABORT \<Rightarrow> TCP_S_CLOSED
         | TCP_E_RCV_FIN \<Rightarrow> TCP_S_CLOSING
         | TCP_E_RCV_ACK \<Rightarrow> TCP_S_FIN_WAIT_2
         | TCP_E_RCV_FIN_ACK \<Rightarrow> TCP_S_TIME_WAIT
         | TCP_E_RCV_RST \<Rightarrow> TCP_S_CLOSED
         | TCP_E_RCV_UNEXP_SYN \<Rightarrow> TCP_S_CLOSED
         | _ \<Rightarrow> s)
     | TCP_S_FIN_WAIT_2 \<Rightarrow> (case e of
           TCP_E_ABORT \<Rightarrow> TCP_S_CLOSED
         | TCP_E_RCV_FIN \<Rightarrow> TCP_S_TIME_WAIT
         | TCP_E_TIMEOUT_FIN_WAIT_2 \<Rightarrow> TCP_S_CLOSED
         | TCP_E_RCV_RST \<Rightarrow> TCP_S_CLOSED
         | TCP_E_RCV_UNEXP_SYN \<Rightarrow> TCP_S_CLOSED
         | _ \<Rightarrow> s)
     | TCP_S_CLOSING \<Rightarrow> (case e of
           TCP_E_ABORT \<Rightarrow> TCP_S_CLOSED
         | TCP_E_RCV_ACK \<Rightarrow> TCP_S_TIME_WAIT
         | TCP_E_RCV_RST \<Rightarrow> TCP_S_CLOSED
         | TCP_E_RCV_UNEXP_SYN \<Rightarrow> TCP_S_CLOSED
         | _ \<Rightarrow> s)
     | TCP_S_TIME_WAIT \<Rightarrow> (case e of
           TCP_E_ABORT \<Rightarrow> TCP_S_CLOSED
         | TCP_E_TIMEOUT_2MSL \<Rightarrow> TCP_S_CLOSED
         | TCP_E_RCV_RST \<Rightarrow> TCP_S_CLOSED
         | TCP_E_RCV_UNEXP_SYN \<Rightarrow> TCP_S_CLOSED
         | _ \<Rightarrow> s)
     | TCP_S_CLOSED \<Rightarrow> s)"

definition stateEntered :: "TcpState \<Rightarrow> TCPConnection \<Rightarrow> TCPConnection res" where
  "stateEntered s c = (case s of
       TCP_S_LISTEN \<Rightarrow>
         seqE [assertE ''connEstabTimer && synRexmitTimer'' (timers c ConnEstab \<noteq> Deleted \<and> timers c SynRexmit \<noteq> Deleted),
               cancelEvent ConnEstab, cancelEvent SynRexmit] c
     | TCP_S_ESTABLISHED \<Rightarrow> seqE [deleteTimer ConnEstab, deleteTimer SynRexmit] c
     | TCP_S_CLOSE_WAIT \<Rightarrow> seqE [cancelIfSet ConnEstab, cancelIfSet SynRexmit] c
     | TCP_S_LAST_ACK \<Rightarrow> seqE [cancelIfSet ConnEstab, cancelIfSet SynRexmit] c
     | TCP_S_FIN_WAIT_1 \<Rightarrow> seqE [cancelIfSet ConnEstab, cancelIfSet SynRexmit] c
     | TCP_S_FIN_WAIT_2 \<Rightarrow> seqE [cancelIfSet ConnEstab, cancelIfSet SynRexmit] c
     | TCP_S_CLOSING \<Rightarrow> seqE [cancelIfSet ConnEstab, cancelIfSet SynRexmit] c
     | TCP_S_TIME_WAIT \<Rightarrow> seqE [cancelIfSet ConnEstab, cancelIfSet SynRexmit] c
     | TCP_S_CLOSED \<Rightarrow>
         seqE [cancelIfSet The2MSL, cancelIfSet ConnEstab, cancelIfSet FinWait2, cancelIfSet SynRexmit,
               alg_connectionClosed] c
     | _ \<Rightarrow> Inr c)"

text \<open>The result says whether the connection is to be kept.\<close>

definition performStateTransition :: "TCPEventCode \<Rightarrow> TCPConnection \<Rightarrow> (bool \<times> TCPConnection) res" where
  "performStateTransition ev c =
     (if fsm c = TCP_S_CLOSED then Inl (AssertFailed ''fsm.getState()!=TCP_S_CLOSED'')
      else if ev = TCP_E_IGNORE then Inr (True, c)
      else let oldState = fsm c;
               c = c\<lparr>fsm := fsmNext (active c) (fsm c) ev\<rparr>
           in bindE (whenE (oldState \<noteq> fsm c) (stateEntered (fsm c)) c) (\<lambda>c.
              Inr (fsm c \<noteq> TCP_S_CLOSED, c)))"

section \<open>Timers and states\<close>

text \<open>
  The timers a connection has in its states: those of connection setup exist until it is established,
  those of its algorithm once it is open.
\<close>

definition timers_wf :: "TCPConnection \<Rightarrow> bool" where
  "timers_wf c \<longleftrightarrow> alg_timers_ok c \<and>
     (tcpAlgorithm c = DumbTCP \<longrightarrow> timers c DelayedAck = Deleted \<and> timers c Persist = Deleted \<and>
        timers c KeepAlive = Deleted) \<and>
     (fsm c \<in> {TCP_S_INIT, TCP_S_LISTEN, TCP_S_SYN_SENT, TCP_S_SYN_RCVD} \<longrightarrow>
        timers c ConnEstab \<noteq> Deleted \<and> timers c SynRexmit \<noteq> Deleted)"

lemma cancelEvent_eq: "timers c tm \<noteq> Deleted \<Longrightarrow> cancelEvent tm c = Inr (c\<lparr>timers := (timers c)(tm := Idle)\<rparr>)"
  by (simp add: cancelEvent_def split: timer.split)

definition stopped :: "timer \<Rightarrow> timer" where
  "stopped x = (if x = Deleted then Deleted else Idle)"

lemma stopped_simps [simp]:
  "stopped Deleted = Deleted" "stopped Idle = Idle" "stopped (Scheduled t) = Idle"
  "\<not> isScheduled (stopped x)" "stopped x = Deleted \<longleftrightarrow> x = Deleted"
  by (simp_all add: stopped_def)

lemma cancel_stopped:
  "cancelIfSet tm c = Inr (c\<lparr>timers := (timers c)(tm := stopped (timers c tm))\<rparr>)"
  "timers c tm \<noteq> Deleted \<Longrightarrow> cancelEvent tm c = Inr (c\<lparr>timers := (timers c)(tm := stopped (timers c tm))\<rparr>)"
  by (auto simp: cancelIfSet_def cancelEvent_eq stopped_def fun_upd_idem)

lemma alg_connectionClosed_eq:
  assumes "timers_wf c"
  shows "alg_connectionClosed c = Inr (c\<lparr>timers := (timers c)(Rexmit := Idle,
      Persist := stopped (timers c Persist), DelayedAck := stopped (timers c DelayedAck),
      KeepAlive := stopped (timers c KeepAlive))\<rparr>)"
proof (cases "tcpAlgorithm c = DumbTCP")
  case True
  then have "(timers c)(Rexmit := Idle, Persist := stopped (timers c Persist),
      DelayedAck := stopped (timers c DelayedAck), KeepAlive := stopped (timers c KeepAlive)) =
      (timers c)(Rexmit := Idle)"
    using assms by (auto simp: timers_wf_def fun_eq_iff)
  then show ?thesis
    using True assms
    by (simp add: alg_connectionClosed_def dumb_connectionClosed_def timers_wf_def alg_timers_ok_def cancelEvent_eq)
next
  case False
  then show ?thesis
    using assms
    by (simp add: alg_connectionClosed_def base_connectionClosed_def timers_wf_def alg_timers_ok_def
        cancelEvent_eq stopped_def)
qed

text \<open>The timers after a state has been entered.\<close>

definition setup_stopped :: "(timer_id \<Rightarrow> timer) \<Rightarrow> timer_id \<Rightarrow> timer" where
  "setup_stopped ts = ts(ConnEstab := stopped (ts ConnEstab), SynRexmit := stopped (ts SynRexmit))"

definition entered_timers :: "TcpState \<Rightarrow> (timer_id \<Rightarrow> timer) \<Rightarrow> timer_id \<Rightarrow> timer" where
  "entered_timers s ts = (case s of
       TCP_S_INIT \<Rightarrow> ts | TCP_S_SYN_RCVD \<Rightarrow> ts | TCP_S_SYN_SENT \<Rightarrow> ts
     | TCP_S_ESTABLISHED \<Rightarrow> ts(ConnEstab := Deleted, SynRexmit := Deleted)
     | TCP_S_CLOSED \<Rightarrow> (\<lambda>tm. stopped (ts tm))
     | _ \<Rightarrow> setup_stopped ts)"

lemma stateEntered_eq:
  assumes wf: "timers_wf c"
    and su: "s \<in> {TCP_S_LISTEN, TCP_S_ESTABLISHED} \<Longrightarrow> timers c ConnEstab \<noteq> Deleted \<and> timers c SynRexmit \<noteq> Deleted"
  shows "stateEntered s c = Inr (c\<lparr>timers := entered_timers s (timers c)\<rparr>)"
proof (cases "s = TCP_S_CLOSED")
  case False
  then show ?thesis
    using su
    by (cases s)
      (simp_all add: stateEntered_def entered_timers_def setup_stopped_def cancel_stopped deleteTimer_def)
next
  case True
  let ?c = "c\<lparr>timers := (timers c)(The2MSL := stopped (timers c The2MSL), ConnEstab := stopped (timers c ConnEstab),
      FinWait2 := stopped (timers c FinWait2), SynRexmit := stopped (timers c SynRexmit))\<rparr>"
  have "seqE [] = (Inr :: TCPConnection \<Rightarrow> TCPConnection res)" by (simp add: fun_eq_iff)
  then have "stateEntered s c = alg_connectionClosed ?c"
    using True by (simp add: stateEntered_def cancel_stopped del: seqE.simps(1))
  moreover have "timers_wf ?c" using wf by (simp add: timers_wf_def alg_timers_ok_def)
  moreover have "timers (c\<lparr>timers := ts\<rparr>) = ts" for ts by simp
  moreover have "(\<lambda>tm. stopped (timers c tm)) = (timers ?c)(Rexmit := Idle,
      Persist := stopped (timers c Persist), DelayedAck := stopped (timers c DelayedAck),
      KeepAlive := stopped (timers c KeepAlive))"
  proof (rule ext)
    show "stopped (timers c tm) = ((timers ?c)(Rexmit := Idle, Persist := stopped (timers c Persist),
        DelayedAck := stopped (timers c DelayedAck), KeepAlive := stopped (timers c KeepAlive))) tm" for tm
      using wf by (cases tm) (simp_all add: timers_wf_def alg_timers_ok_def stopped_def)
  qed
  ultimately show ?thesis
    using True by (simp add: alg_connectionClosed_eq entered_timers_def)
qed

lemma entered_timers_wf:
  assumes "timers_wf c" "s \<noteq> TCP_S_CLOSED"
    and "s \<in> {TCP_S_INIT, TCP_S_LISTEN, TCP_S_SYN_SENT, TCP_S_SYN_RCVD} \<Longrightarrow>
      timers c ConnEstab \<noteq> Deleted \<and> timers c SynRexmit \<noteq> Deleted"
  shows "timers_wf (c\<lparr>fsm := s, timers := entered_timers s (timers c)\<rparr>)"
  using assms
  by (cases s) (simp_all add: timers_wf_def alg_timers_ok_def entered_timers_def setup_stopped_def)

lemma fsmNext_setup:
  "fsmNext act s ev \<noteq> s \<Longrightarrow> fsmNext act s ev \<in> {TCP_S_LISTEN, TCP_S_SYN_SENT, TCP_S_SYN_RCVD, TCP_S_ESTABLISHED} \<Longrightarrow>
     s \<in> {TCP_S_INIT, TCP_S_LISTEN, TCP_S_SYN_SENT, TCP_S_SYN_RCVD}"
  by (cases s; cases ev) (auto simp: fsmNext_def)

lemma fsmNext_not_init: "fsmNext act s ev \<noteq> s \<Longrightarrow> fsmNext act s ev \<noteq> TCP_S_INIT"
  by (cases s; cases ev) (auto simp: fsmNext_def)

text \<open>The transition as an equation.\<close>

lemma performStateTransition_eq:
  assumes wf: "timers_wf c" and nc: "fsm c \<noteq> TCP_S_CLOSED"
  shows "performStateTransition ev c =
    (if ev = TCP_E_IGNORE \<or> fsmNext (active c) (fsm c) ev = fsm c then Inr (True, c)
     else let s = fsmNext (active c) (fsm c) ev
          in Inr (s \<noteq> TCP_S_CLOSED, c\<lparr>fsm := s, timers := entered_timers s (timers c)\<rparr>))"
proof -
  let ?s = "fsmNext (active c) (fsm c) ev"
  let ?c = "c\<lparr>fsm := ?s\<rparr>"
  show ?thesis
  proof (cases "ev = TCP_E_IGNORE \<or> ?s = fsm c")
    case True
    then show ?thesis
      using nc by (auto simp: performStateTransition_def Let_def)
  next
    case False
    have "timers_wf ?c"
      using wf fsmNext_setup [of "active c" "fsm c" ev] False fsmNext_not_init [of "active c" "fsm c" ev]
      by (auto simp: timers_wf_def alg_timers_ok_def)
    moreover have "?s \<in> {TCP_S_LISTEN, TCP_S_ESTABLISHED} \<Longrightarrow> timers ?c ConnEstab \<noteq> Deleted \<and> timers ?c SynRexmit \<noteq> Deleted"
      using wf fsmNext_setup [of "active c" "fsm c" ev] False by (auto simp: timers_wf_def)
    ultimately have "stateEntered ?s ?c = Inr (?c\<lparr>timers := entered_timers ?s (timers ?c)\<rparr>)"
      by (rule stateEntered_eq)
    then show ?thesis
      using False nc by (auto simp: performStateTransition_def Let_def)
  qed
qed

section \<open>Properties\<close>

text \<open>
  A transition never fails and leaves no timer behind.  For a
  connection that is not closed and has the timers its state calls for, every event is
  processed without an error; the result is the state the table gives, the caller is told
  to delete the connection exactly when that is \<open>TCP_S_CLOSED\<close>, and then no timer is
  scheduled any more; otherwise the connection again has the timers its state calls for.
\<close>

lemma transition_next:
  assumes "timers_wf c" "fsm c \<noteq> TCP_S_CLOSED"
  shows "\<exists>keep c'. performStateTransition ev c = Inr (keep, c') \<and>
    fsm c' = fsmNext (active c) (fsm c) ev \<and> (keep \<longleftrightarrow> fsm c' \<noteq> TCP_S_CLOSED) \<and>
    (if keep then timers_wf c' else \<forall>tm. \<not> is_scheduled tm c') \<and>
    c' = c\<lparr>fsm := fsm c', timers := timers c'\<rparr>"
proof (cases "ev = TCP_E_IGNORE \<or> fsmNext (active c) (fsm c) ev = fsm c")
  case True
  have "fsmNext (active c) (fsm c) TCP_E_IGNORE = fsm c"
    by (cases "fsm c") (simp_all add: fsmNext_def)
  then have "fsmNext (active c) (fsm c) ev = fsm c" using True by auto
  moreover have "performStateTransition ev c = Inr (True, c)"
    using True by (simp add: performStateTransition_eq [OF assms])
  ultimately show ?thesis
    using assms by (intro exI [of _ True] exI [of _ c]) simp
next
  case False
  let ?s = "fsmNext (active c) (fsm c) ev"
  have "?s \<noteq> TCP_S_INIT" using False fsmNext_not_init by blast
  then have "timers_wf (c\<lparr>fsm := ?s, timers := entered_timers ?s (timers c)\<rparr>)" if "?s \<noteq> TCP_S_CLOSED"
    using assms(1) that fsmNext_setup [of "active c" "fsm c" ev] False
    by (intro entered_timers_wf) (auto simp: timers_wf_def)
  moreover have "\<not> isScheduled (entered_timers ?s (timers c) tm)" if "?s = TCP_S_CLOSED" for tm
    using that by (simp add: entered_timers_def)
  moreover have "performStateTransition ev c =
      Inr (?s \<noteq> TCP_S_CLOSED, c\<lparr>fsm := ?s, timers := entered_timers ?s (timers c)\<rparr>)"
    using False by (simp add: performStateTransition_eq [OF assms] Let_def)
  ultimately show ?thesis
    by (intro exI [of _ "?s \<noteq> TCP_S_CLOSED"] exI [of _ "c\<lparr>fsm := ?s, timers := entered_timers ?s (timers c)\<rparr>"])
      simp
qed

section \<open>Opening and closing as two handshakes\<close>

text \<open>
  The specification does not mention states.  It keeps what the two ends have agreed on: whether this end has sent its
  SYN and its FIN and has them acknowledged, whether it has received those of the other end, and which FIN came
  first.  Every event adds the fact it stands for; \<open>None\<close> means that the connection is over.
\<close>

record Handshake =
  opened :: bool
  synSent :: bool
  synRcvd :: bool
  synAcked :: bool
  finSent :: bool
  finAcked :: bool
  finRcvd :: bool
  closedFirst :: bool

definition unopened :: Handshake where
  "unopened = \<lparr> opened = False, synSent = False, synRcvd = False, synAcked = False, finSent = False, finAcked = False,
     finRcvd = False, closedFirst = False \<rparr>"

text \<open>The SYNs have not crossed completely, and neither end has closed.\<close>

definition openingUp :: "Handshake \<Rightarrow> bool" where
  "openingUp h \<longleftrightarrow> synSent h \<and> \<not> synAcked h \<and> \<not> finSent h \<and> \<not> finRcvd h"

text \<open>An attempt of a passive connection that fails goes back to listening.\<close>

definition attemptFails :: "bool \<Rightarrow> Handshake \<Rightarrow> Handshake option" where
  "attemptFails act h = (if synRcvd h \<and> \<not> act then Some (unopened\<lparr>opened := True\<rparr>) else None)"

fun handshake :: "bool \<Rightarrow> TCPEventCode \<Rightarrow> Handshake \<Rightarrow> Handshake option" where
  "handshake act TCP_E_OPEN_PASSIVE h = Some (h\<lparr>opened := True\<rparr>)"
| "handshake act TCP_E_OPEN_ACTIVE h = Some (h\<lparr>opened := True, synSent := True\<rparr>)"
| "handshake act TCP_E_SEND h = Some (h\<lparr>synSent := opened h\<rparr>)"
| "handshake act TCP_E_RCV_SYN h = Some (if opened h then h\<lparr>synSent := True, synRcvd := True\<rparr> else h)"
| "handshake act TCP_E_RCV_SYN_ACK h = Some (if synSent h \<and> \<not> synRcvd h then h\<lparr>synRcvd := True, synAcked := True\<rparr> else h)"
| "handshake act TCP_E_RCV_ACK h =
     (if finSent h \<and> finRcvd h \<and> \<not> closedFirst h then None
      else Some (h\<lparr>synAcked := synRcvd h, finAcked := finSent h\<rparr>))"
| "handshake act TCP_E_RCV_FIN h = Some (h\<lparr>finRcvd := synRcvd h\<rparr>)"
| "handshake act TCP_E_RCV_FIN_ACK h =
     Some (if finSent h \<and> \<not> finAcked h \<and> \<not> finRcvd h then h\<lparr>finRcvd := True, finAcked := True\<rparr> else h)"
| "handshake act TCP_E_CLOSE h =
     (if opened h \<and> \<not> synRcvd h then None
      else if opened h \<and> \<not> finSent h then Some (h\<lparr>finSent := True, closedFirst := \<not> finRcvd h\<rparr>) else Some h)"
| "handshake act TCP_E_ABORT h = (if opened h then None else Some h)"
| "handshake act TCP_E_RCV_RST h =
     (if \<not> synSent h then Some h else if openingUp h then attemptFails act h else None)"
| "handshake act TCP_E_RCV_UNEXP_SYN h = (if synRcvd h then None else Some h)"
| "handshake act TCP_E_TIMEOUT_CONN_ESTAB h = (if openingUp h then attemptFails act h else Some h)"
| "handshake act TCP_E_TIMEOUT_2MSL h = (if finSent h \<and> finAcked h \<and> finRcvd h then None else Some h)"
| "handshake act TCP_E_TIMEOUT_FIN_WAIT_2 h = (if finSent h \<and> finAcked h \<and> \<not> finRcvd h then None else Some h)"
| "handshake act TCP_E_IGNORE h = Some h"
| "handshake act TCP_E_STATUS h = Some h"
| "handshake act TCP_E_RCV_DATA h = Some h"

fun handshakes :: "(bool \<times> TCPEventCode) list \<Rightarrow> Handshake \<Rightarrow> Handshake option" where
  "handshakes [] h = Some h"
| "handshakes ((act, ev) # es) h = (case handshake act ev h of None \<Rightarrow> None | Some h \<Rightarrow> handshakes es h)"

text \<open>The state that stands for the facts.\<close>

definition handshake_state :: "Handshake \<Rightarrow> TcpState" where
  "handshake_state h =
     (if \<not> opened h then TCP_S_INIT
      else if \<not> synSent h then TCP_S_LISTEN
      else if \<not> synRcvd h then TCP_S_SYN_SENT
      else if finSent h
      then if finRcvd h then if finAcked h then TCP_S_TIME_WAIT else if closedFirst h then TCP_S_CLOSING else TCP_S_LAST_ACK
           else if finAcked h then TCP_S_FIN_WAIT_2 else TCP_S_FIN_WAIT_1
      else if finRcvd h then TCP_S_CLOSE_WAIT
      else if synAcked h then TCP_S_ESTABLISHED else TCP_S_SYN_RCVD)"

definition handshake_ok :: "Handshake \<Rightarrow> bool" where
  "handshake_ok h \<longleftrightarrow> (synSent h \<longrightarrow> opened h) \<and> (synRcvd h \<longrightarrow> synSent h) \<and> (synAcked h \<longrightarrow> synRcvd h) \<and>
     (finSent h \<longrightarrow> synRcvd h) \<and> (finRcvd h \<longrightarrow> synRcvd h) \<and> (finAcked h \<longrightarrow> finSent h) \<and>
     (finAcked h \<and> finRcvd h \<longrightarrow> closedFirst h) \<and> (finSent h \<and> \<not> finRcvd h \<longrightarrow> closedFirst h)"

lemma unopened_ok: "handshake_ok unopened" "handshake_state unopened = TCP_S_INIT"
  by (simp_all add: handshake_ok_def handshake_state_def unopened_def)

lemma fsmNext_handshake:
  "fsmNext act (handshake_state h) ev =
     (if \<not> opened h then fsmNext act TCP_S_INIT ev
      else if \<not> synSent h then fsmNext act TCP_S_LISTEN ev
      else if \<not> synRcvd h then fsmNext act TCP_S_SYN_SENT ev
      else if finSent h
      then if finRcvd h then if finAcked h then fsmNext act TCP_S_TIME_WAIT ev
                             else if closedFirst h then fsmNext act TCP_S_CLOSING ev else fsmNext act TCP_S_LAST_ACK ev
           else if finAcked h then fsmNext act TCP_S_FIN_WAIT_2 ev else fsmNext act TCP_S_FIN_WAIT_1 ev
      else if finRcvd h then fsmNext act TCP_S_CLOSE_WAIT ev
      else if synAcked h then fsmNext act TCP_S_ESTABLISHED ev else fsmNext act TCP_S_SYN_RCVD ev)"
  by (simp add: handshake_state_def)

text \<open>The rows of the table.\<close>

lemmas fsmNext_rows = fsmNext_def [of _ TCP_S_INIT, simplified] fsmNext_def [of _ TCP_S_LISTEN, simplified] fsmNext_def [of _ TCP_S_SYN_SENT, simplified]
  fsmNext_def [of _ TCP_S_SYN_RCVD, simplified] fsmNext_def [of _ TCP_S_ESTABLISHED, simplified] fsmNext_def [of _ TCP_S_CLOSE_WAIT, simplified]
  fsmNext_def [of _ TCP_S_LAST_ACK, simplified] fsmNext_def [of _ TCP_S_FIN_WAIT_1, simplified] fsmNext_def [of _ TCP_S_FIN_WAIT_2, simplified]
  fsmNext_def [of _ TCP_S_CLOSING, simplified] fsmNext_def [of _ TCP_S_TIME_WAIT, simplified]

lemma handshake_step:
  assumes "handshake_ok h"
  shows "case handshake act ev h of None \<Rightarrow> fsmNext act (handshake_state h) ev = TCP_S_CLOSED
    | Some h' \<Rightarrow> handshake_ok h' \<and> fsmNext act (handshake_state h) ev = handshake_state h'"
  using assms unfolding fsmNext_handshake
  by (cases ev)
    (auto simp: fsmNext_rows handshake_ok_def handshake_state_def openingUp_def attemptFails_def unopened_def)

lemma handshake_state_open: "handshake_state h \<noteq> TCP_S_CLOSED"
  by (simp add: handshake_state_def)

lemma handshakes_need:
  "handshakes es h = Some h' \<Longrightarrow> finSent h' \<Longrightarrow> \<not> finSent h \<Longrightarrow> TCP_E_CLOSE \<in> snd ` set es"
  "handshakes es h = Some h' \<Longrightarrow> finRcvd h' \<Longrightarrow> \<not> finRcvd h \<Longrightarrow> snd ` set es \<inter> {TCP_E_RCV_FIN, TCP_E_RCV_FIN_ACK} \<noteq> {}"
proof (induction es h rule: handshakes.induct)
  case (2 act ev es h)
  have step: "handshake act ev h = Some k \<Longrightarrow> finSent k \<Longrightarrow> \<not> finSent h \<Longrightarrow> ev = TCP_E_CLOSE"
    "handshake act ev h = Some k \<Longrightarrow> finRcvd k \<Longrightarrow> \<not> finRcvd h \<Longrightarrow> ev \<in> {TCP_E_RCV_FIN, TCP_E_RCV_FIN_ACK}" for k
    by (cases ev; auto simp: attemptFails_def unopened_def split: if_splits)+
  {
    case 1
    then show ?case using 2(1) step(1) by (fastforce split: option.splits)
  next
    case 2
    then show ?case using "2.IH"(2) step(2) by (fastforce split: option.splits)
  }
qed simp_all

text \<open>
  A run of transitions, each with the flag \<open>active\<close> that the connection has at that time.
\<close>

fun transitions :: "(bool \<times> TCPEventCode) list \<Rightarrow> TCPConnection \<Rightarrow> (bool \<times> TCPConnection) res" where
  "transitions [] c = Inr (True, c)"
| "transitions ((act, ev) # es) c =
     bindE (performStateTransition ev (c\<lparr>active := act\<rparr>)) (\<lambda>(keep, c). if keep then transitions es c else Inr (False, c))"

lemma transitions_handshakes:
  assumes "timers_wf c" "handshake_ok h" "fsm c = handshake_state h"
  shows "\<exists>keep c'. transitions es c = Inr (keep, c') \<and>
    (case handshakes es h of None \<Rightarrow> \<not> keep \<and> fsm c' = TCP_S_CLOSED \<and> (\<forall>tm. \<not> is_scheduled tm c')
     | Some h' \<Rightarrow> keep \<and> timers_wf c' \<and> fsm c' = handshake_state h')"
  using assms
proof (induction es h arbitrary: c rule: handshakes.induct)
  case (2 act ev es h)
  let ?c = "c\<lparr>active := act\<rparr>"
  have "timers_wf ?c" "fsm ?c \<noteq> TCP_S_CLOSED" using 2 handshake_state_open by (simp_all add: timers_wf_def alg_timers_ok_def)
  then obtain keep c1 where t: "performStateTransition ev ?c = Inr (keep, c1)" "fsm c1 = fsmNext (active ?c) (fsm ?c) ev"
    "keep \<longleftrightarrow> fsm c1 \<noteq> TCP_S_CLOSED" "if keep then timers_wf c1 else \<forall>tm. \<not> is_scheduled tm c1"
    using transition_next [of ?c ev] by blast
  then have c1: "performStateTransition ev ?c = Inr (keep, c1)" "fsm c1 = fsmNext act (handshake_state h) ev"
    "keep \<longleftrightarrow> fsm c1 \<noteq> TCP_S_CLOSED" "if keep then timers_wf c1 else \<forall>tm. \<not> is_scheduled tm c1"
    using "2.prems"(3) by simp_all
  note st = handshake_step [OF "2.prems"(2), of act ev]
  show ?case
  proof (cases "handshake act ev h")
    case None
    then show ?thesis using c1 st by auto
  next
    case (Some k)
    then have "keep" "timers_wf c1" "handshake_ok k" "fsm c1 = handshake_state k" using c1 st handshake_state_open by auto
    then show ?thesis using "2.IH" [OF Some] c1(1) Some by simp
  qed
qed auto

text \<open>
  Property C25: the state machine keeps account of the two handshakes.  For every sequence of events the transitions of a new
  connection succeed, and the state they lead to is the one that stands for the facts which the
  events establish one by one: SYN and FIN sent, received and acknowledged, and which end closed first.  The connection is
  closed, with no timer left, exactly when the specification says that it is over; and it never
  gets into a state that presupposes a FIN of its own without a \<open>CLOSE\<close>, nor into one
  that presupposes a FIN of the other end without having received one.
\<close>

theorem fsm_refines_handshakes:
  assumes "timers_wf c" "fsm c = TCP_S_INIT"
  shows "\<exists>keep c'. transitions es c = Inr (keep, c') \<and>
    (case handshakes es unopened of None \<Rightarrow> \<not> keep \<and> fsm c' = TCP_S_CLOSED \<and> (\<forall>tm. \<not> is_scheduled tm c')
     | Some h \<Rightarrow> keep \<and> timers_wf c' \<and> fsm c' = handshake_state h) \<and>
    (fsm c' \<in> {TCP_S_FIN_WAIT_1, TCP_S_FIN_WAIT_2, TCP_S_CLOSING, TCP_S_LAST_ACK, TCP_S_TIME_WAIT} \<longrightarrow> TCP_E_CLOSE \<in> snd ` set es) \<and>
    (fsm c' \<in> {TCP_S_CLOSE_WAIT, TCP_S_CLOSING, TCP_S_LAST_ACK, TCP_S_TIME_WAIT} \<longrightarrow>
      snd ` set es \<inter> {TCP_E_RCV_FIN, TCP_E_RCV_FIN_ACK} \<noteq> {})"
proof -
  obtain keep c' where c': "transitions es c = Inr (keep, c')"
    "case handshakes es unopened of None \<Rightarrow> \<not> keep \<and> fsm c' = TCP_S_CLOSED \<and> (\<forall>tm. \<not> is_scheduled tm c')
     | Some h \<Rightarrow> keep \<and> timers_wf c' \<and> fsm c' = handshake_state h"
    using transitions_handshakes [OF assms(1) unopened_ok(1)] assms(2) unopened_ok(2) by fastforce
  have "\<not> finSent unopened" "\<not> finRcvd unopened" by (simp_all add: unopened_def)
  note need = handshakes_need(1) [OF _ _ this(1)] handshakes_need(2) [OF _ _ this(2)]
  have "fsm c' \<in> {TCP_S_FIN_WAIT_1, TCP_S_FIN_WAIT_2, TCP_S_CLOSING, TCP_S_LAST_ACK, TCP_S_TIME_WAIT} \<longrightarrow> TCP_E_CLOSE \<in> snd ` set es"
    "fsm c' \<in> {TCP_S_CLOSE_WAIT, TCP_S_CLOSING, TCP_S_LAST_ACK, TCP_S_TIME_WAIT} \<longrightarrow>
      snd ` set es \<inter> {TCP_E_RCV_FIN, TCP_E_RCV_FIN_ACK} \<noteq> {}"
    using c'(2) need by (auto simp: handshake_state_def split: option.splits if_splits)
  then show ?thesis using c' by blast
qed

theorem fsm_refines_handshakes_witness:
  "\<exists>c'. transitions [(True, TCP_E_OPEN_ACTIVE), (True, TCP_E_RCV_SYN_ACK), (True, TCP_E_CLOSE), (True, TCP_E_RCV_FIN), (True, TCP_E_RCV_ACK)]
      (demo_conn\<lparr>fsm := TCP_S_INIT, timers := (timers demo_conn)(ConnEstab := Idle, SynRexmit := Idle)\<rparr>) = Inr (True, c') \<and>
    fsm c' = TCP_S_TIME_WAIT"
proof -
  let ?c = "demo_conn\<lparr>fsm := TCP_S_INIT, timers := (timers demo_conn)(ConnEstab := Idle, SynRexmit := Idle)\<rparr>"
  let ?es = "[(True, TCP_E_OPEN_ACTIVE), (True, TCP_E_RCV_SYN_ACK), (True, TCP_E_CLOSE), (True, TCP_E_RCV_FIN), (True, TCP_E_RCV_ACK)]"
  have "timers_wf ?c" "fsm ?c = TCP_S_INIT" by (simp_all add: timers_wf_def demo_simps)
  moreover have "handshakes ?es unopened = Some \<lparr> opened = True, synSent = True, synRcvd = True, synAcked = True, finSent = True,
      finAcked = True, finRcvd = True, closedFirst = True \<rparr>" by (simp add: unopened_def)
  ultimately show ?thesis using fsm_refines_handshakes [of ?c ?es] by (auto simp: handshake_state_def)
qed

text \<open>How many transitions a connection that got past its setup has before it at most.\<close>

fun closing_rank :: "TcpState \<Rightarrow> nat" where
  "closing_rank TCP_S_CLOSED = 0"
| "closing_rank TCP_S_TIME_WAIT = 1"
| "closing_rank TCP_S_LAST_ACK = 1"
| "closing_rank TCP_S_CLOSING = 2"
| "closing_rank TCP_S_FIN_WAIT_2 = 2"
| "closing_rank TCP_S_CLOSE_WAIT = 2"
| "closing_rank TCP_S_FIN_WAIT_1 = 3"
| "closing_rank TCP_S_ESTABLISHED = 4"
| "closing_rank _ = 5"

definition fsm_step :: "TcpState \<Rightarrow> TcpState \<Rightarrow> bool" where
  "fsm_step s t \<longleftrightarrow> (\<exists>act ev. fsmNext act s ev = t \<and> t \<noteq> s)"

lemma fsmNext_rank: "fsmNext act s ev \<noteq> s \<Longrightarrow> closing_rank s \<le> 4 \<Longrightarrow> closing_rank (fsmNext act s ev) < closing_rank s"
  by (cases s; cases ev) (auto simp: fsmNext_def)

lemma fsm_step_rank: "fsm_step s t \<Longrightarrow> closing_rank s \<le> 4 \<Longrightarrow> closing_rank t < closing_rank s"
  using fsmNext_rank unfolding fsm_step_def by blast

text \<open>
  A connection that got past its setup only moves towards its end.  Along
  any sequence of transitions from a synchronized state the rank of the state falls,
  so that no state is visited twice and \<open>LISTEN\<close>, \<open>SYN_SENT\<close> and \<open>SYN_RCVD\<close> are not reached
  again, and after four transitions at most the connection is closed.
\<close>

theorem synchronized_closes:
  assumes "closing_rank s \<le> 4" "(fsm_step ^^ n) s t"
  shows "closing_rank t + n \<le> closing_rank s \<and> t \<notin> {TCP_S_INIT, TCP_S_LISTEN, TCP_S_SYN_SENT, TCP_S_SYN_RCVD} \<and>
    (n = 4 \<longrightarrow> t = TCP_S_CLOSED)"
proof -
  have "closing_rank t + n \<le> closing_rank s"
    using assms(2)
  proof (induction n arbitrary: t)
    case (Suc n)
    then obtain u where u: "(fsm_step ^^ n) s u" "fsm_step u t" by auto
    then have "closing_rank u + n \<le> closing_rank s" using Suc.IH by blast
    then show ?case using fsm_step_rank [OF u(2)] assms(1) by simp
  qed simp
  moreover have "closing_rank t = 0 \<Longrightarrow> t = TCP_S_CLOSED" by (cases t) auto
  ultimately show ?thesis using assms(1) by auto
qed

theorem synchronized_closes_witness:
  "closing_rank TCP_S_TIME_WAIT + 3 \<le> closing_rank TCP_S_ESTABLISHED"
proof -
  have "fsmNext True TCP_S_ESTABLISHED TCP_E_CLOSE = TCP_S_FIN_WAIT_1" "fsmNext True TCP_S_FIN_WAIT_1 TCP_E_RCV_ACK = TCP_S_FIN_WAIT_2"
    "fsmNext True TCP_S_FIN_WAIT_2 TCP_E_RCV_FIN = TCP_S_TIME_WAIT" by (simp_all add: fsmNext_def)
  then have "fsm_step TCP_S_ESTABLISHED TCP_S_FIN_WAIT_1" "fsm_step TCP_S_FIN_WAIT_1 TCP_S_FIN_WAIT_2"
    "fsm_step TCP_S_FIN_WAIT_2 TCP_S_TIME_WAIT"
    unfolding fsm_step_def by (metis TcpState.distinct)+
  then have "(fsm_step ^^ 3) TCP_S_ESTABLISHED TCP_S_TIME_WAIT"
    by (auto simp: numeral_3_eq_3)
  then show ?thesis
    using synchronized_closes [of TCP_S_ESTABLISHED 3 TCP_S_TIME_WAIT] by simp
qed

end
