(* ===== verification/TCP_Maps.thy ===== *)
theory TCP_Maps
  imports TCP_Util
begin

text \<open>
  The connection tables of the TCP module (\<open>TCP.h\<close>, \<open>TCP.cc\<close>): the map from
  socket pairs to connections, the map from application keys to connections, and
  the allocation of ephemeral ports.  Connections live in a heap and are referred to by
  their pointers, which the two maps share.

  A member function of \<open>TCPConnection\<close> that calls the TCP module works on a pair: the
  module, and the connection it is called on, taken out of the heap for the time of the call.
\<close>

section \<open>Keys\<close>

datatype AppConnKey = AppConnKey (ak_appGateIndex: int) (ak_connId: int)

datatype SockPair = SockPair (sp_localAddr: IPvXAddress) (sp_remoteAddr: IPvXAddress)
  (sp_localPort: int) (sp_remotePort: int)

definition appkey_less :: "AppConnKey \<Rightarrow> AppConnKey \<Rightarrow> bool" where
  "appkey_less a b \<longleftrightarrow>
     (if ak_appGateIndex a \<noteq> ak_appGateIndex b then ak_appGateIndex a < ak_appGateIndex b
      else ak_connId a < ak_connId b)"

instantiation AppConnKey :: linorder
begin

definition less_AppConnKey :: "AppConnKey \<Rightarrow> AppConnKey \<Rightarrow> bool" where
  "less_AppConnKey a b \<longleftrightarrow> appkey_less a b"

definition less_eq_AppConnKey :: "AppConnKey \<Rightarrow> AppConnKey \<Rightarrow> bool" where
  "less_eq_AppConnKey a b \<longleftrightarrow> a < b \<or> a = b"

instance
proof
  fix x y z :: AppConnKey
  show "x < y \<longleftrightarrow> x \<le> y \<and> \<not> y \<le> x"
    by (auto simp: less_eq_AppConnKey_def less_AppConnKey_def appkey_less_def)
  show "x \<le> x" by (simp add: less_eq_AppConnKey_def)
  show "x \<le> y \<Longrightarrow> y \<le> z \<Longrightarrow> x \<le> z"
    by (auto simp: less_eq_AppConnKey_def less_AppConnKey_def appkey_less_def split: if_splits)
  show "x \<le> y \<Longrightarrow> y \<le> x \<Longrightarrow> x = y"
    by (auto simp: less_eq_AppConnKey_def less_AppConnKey_def appkey_less_def split: if_splits)
  show "x \<le> y \<or> y \<le> x"
    by (cases x; cases y) (auto simp: less_eq_AppConnKey_def less_AppConnKey_def appkey_less_def)
qed

end

text \<open>The order of the socket pairs.  The addresses are compared with \<open>!=\<close>, that is
  \<open>IPvXAddress::equals\<close>, and then with \<open><\<close>.\<close>

definition sp_less :: "SockPair \<Rightarrow> SockPair \<Rightarrow> bool" where
  "sp_less a b =
     (if \<not> addr_equals (sp_remoteAddr a) (sp_remoteAddr b) then sp_remoteAddr a < sp_remoteAddr b
      else if \<not> addr_equals (sp_localAddr a) (sp_localAddr b) then sp_localAddr a < sp_localAddr b
      else if sp_remotePort a \<noteq> sp_remotePort b then sp_remotePort a < sp_remotePort b
      else sp_localPort a < sp_localPort b)"

section \<open>The module\<close>

record TCP =
  heap :: "nat \<Rightarrow> TCPConnection option"
  nextPtr :: nat
  tcpConnMap :: "SockPair \<Rightarrow> nat option"
  tcpAppConnMap :: "AppConnKey \<Rightarrow> nat option"
  lastEphemeralPort :: int
  usedEphemeralPorts :: "int multiset"
  params :: TCPParams
  uniqueNumber :: int

text \<open>
  \<open>tcpConnMap\<close> is a \<open>std::map\<close> ordered by \<open>sp_less\<close>; here it is a function of the key.  The two agree as long as the order tells
  different keys apart, which it does unless an IPv4 address meets an IPv6 address with the same first word (section ``The order
  of the socket pairs'' below, where \<open>stdFind\<close> is the look-up with the order of the source).

  \<open>uniqueNumber\<close> is the number that \<open>ev.getUniqueNumber()\<close> of the simulator returns in the
  event being processed; it is asked for at most once in an event.
\<close>

definition EPHEMERAL_PORTRANGE_START :: int where "EPHEMERAL_PORTRANGE_START = 1024"
definition EPHEMERAL_PORTRANGE_END :: int where "EPHEMERAL_PORTRANGE_END = 5000"

lemmas port_consts = EPHEMERAL_PORTRANGE_START_def EPHEMERAL_PORTRANGE_END_def

definition TCP_initialize :: "TCPParams \<Rightarrow> TCP" where
  "TCP_initialize p = \<lparr>heap = (\<lambda>_. None), nextPtr = 0, tcpConnMap = (\<lambda>_. None),
     tcpAppConnMap = (\<lambda>_. None), lastEphemeralPort = EPHEMERAL_PORTRANGE_START,
     usedEphemeralPorts = {#}, params = p, uniqueNumber = 0\<rparr>"

text \<open>The keys hold ports as \<open>short\<close>.\<close>

definition connSockPair :: "TCPConnection \<Rightarrow> SockPair" where
  "connSockPair c = SockPair (localAddr c) (remoteAddr c) (c_short (localPort c)) (c_short (remotePort c))"

definition connAppKey :: "TCPConnection \<Rightarrow> AppConnKey" where
  "connAppKey c = AppConnKey (appGateIndex c) (connId c)"

section \<open>Look-up\<close>

definition findConnForSegment :: "TCPSegment \<Rightarrow> IPvXAddress \<Rightarrow> IPvXAddress \<Rightarrow> TCP \<Rightarrow> nat option" where
  "findConnForSegment seg srcAddr destAddr m =
     (case tcpConnMap m (SockPair destAddr srcAddr (destPort seg) (srcPort seg)) of Some p \<Rightarrow> Some p
      | None \<Rightarrow>
     (case tcpConnMap m (SockPair unspecifiedAddr srcAddr (destPort seg) (srcPort seg)) of Some p \<Rightarrow> Some p
      | None \<Rightarrow>
     (case tcpConnMap m (SockPair destAddr unspecifiedAddr (destPort seg) (- 1)) of Some p \<Rightarrow> Some p
      | None \<Rightarrow> tcpConnMap m (SockPair unspecifiedAddr unspecifiedAddr (destPort seg) (- 1)))))"

definition findConnForApp :: "int \<Rightarrow> int \<Rightarrow> TCP \<Rightarrow> nat option" where
  "findConnForApp gate cid m = tcpAppConnMap m (AppConnKey gate cid)"

section \<open>Ephemeral ports\<close>

definition nextPort :: "int \<Rightarrow> int" where
  "nextPort p = (let q = c_short (p + 1) in if q = EPHEMERAL_PORTRANGE_END then EPHEMERAL_PORTRANGE_START else q)"

text \<open>
  The search loop, with a bound on the number of rounds.  A \<open>short\<close> has 65536 values, and the
  loop changes nothing else, so a loop that has not ended after that many rounds never ends.
\<close>

fun searchPort :: "nat \<Rightarrow> int \<Rightarrow> int multiset \<Rightarrow> int \<Rightarrow> int res" where
  "searchPort rounds searchUntil used port =
     (if port \<notin># used then Inr port
      else if port = searchUntil then Inl (RuntimeError ''Ephemeral port range exhausted, all ports occupied'')
      else if rounds = 0 then Inl Nontermination
      else searchPort (rounds - 1) searchUntil used (nextPort port))"

declare searchPort.simps [simp del]

definition getEphemeralPort :: "TCP \<Rightarrow> (int \<times> TCP) res" where
  "getEphemeralPort m =
     (let searchUntil = lastEphemeralPort m
      in bindE (searchPort 65536 searchUntil (usedEphemeralPorts m) (nextPort searchUntil)) (\<lambda>p.
         Inr (p, m\<lparr>lastEphemeralPort := p\<rparr>)))"

section \<open>Changing the tables\<close>

definition addSockPair ::
    "IPvXAddress \<Rightarrow> IPvXAddress \<Rightarrow> int \<Rightarrow> int \<Rightarrow> TCP \<times> TCPConnection \<Rightarrow> (TCP \<times> TCPConnection) res" where
  "addSockPair laddr raddr lport rport = (\<lambda>(m, c).
     let c = c\<lparr>localAddr := laddr, remoteAddr := raddr, localPort := lport, remotePort := rport\<rparr>;
         key = connSockPair c
     in if tcpConnMap m key \<noteq> None
        then if isUnspecified raddr \<and> rport = - 1
             then Inl (RuntimeError ''Address already in use: there is already a connection listening'')
             else Inl (RuntimeError ''Address already in use: there is already a connection'')
        else let m = m\<lparr>tcpConnMap := (tcpConnMap m)(key \<mapsto> self c)\<rparr>;
                 m = (if lport \<ge> EPHEMERAL_PORTRANGE_START \<and> lport < EPHEMERAL_PORTRANGE_END
                      then m\<lparr>usedEphemeralPorts := add_mset lport (usedEphemeralPorts m)\<rparr> else m)
             in Inr (m, c))"

definition updateSockPair ::
    "IPvXAddress \<Rightarrow> IPvXAddress \<Rightarrow> int \<Rightarrow> int \<Rightarrow> TCP \<times> TCPConnection \<Rightarrow> (TCP \<times> TCPConnection) res" where
  "updateSockPair laddr raddr lport rport = (\<lambda>(m, c).
     let key = connSockPair c
     in if tcpConnMap m key \<noteq> Some (self c)
        then Inl (AssertFailed ''it!=tcpConnMap.end() && it->second==conn'')
        else if localPort c \<noteq> lport then Inl (AssertFailed ''conn->localPort == localPort'')
        else let m = m\<lparr>tcpConnMap := (tcpConnMap m)(key := None)\<rparr>;
                 c = c\<lparr>localAddr := laddr, remoteAddr := raddr, remotePort := rport\<rparr>
             in Inr (m\<lparr>tcpConnMap := (tcpConnMap m)(connSockPair c \<mapsto> self c)\<rparr>, c))"

text \<open>
  \<open>addForkedConnection(conn, newConn, ...)\<close>: the first connection is the one the pair carries,
  the second one is given and ends up in the heap.
\<close>

definition addForkedConnection ::
    "TCPConnection \<Rightarrow> IPvXAddress \<Rightarrow> IPvXAddress \<Rightarrow> int \<Rightarrow> int \<Rightarrow> TCP \<times> TCPConnection \<Rightarrow> (TCP \<times> TCPConnection) res" where
  "addForkedConnection newConn laddr raddr lport rport mc =
     bindE (updateSockPair laddr raddr lport rport mc) (\<lambda>(m, c).
     bindE (addSockPair (localAddr newConn) (remoteAddr newConn) (localPort newConn) (remotePort newConn)
              (m, newConn)) (\<lambda>(m, newConn).
       let m = m\<lparr>tcpAppConnMap := (tcpAppConnMap m)(connAppKey c := None)\<rparr>;
           c = c\<lparr>connId := uniqueNumber m\<rparr>;
           m = m\<lparr>tcpAppConnMap := (tcpAppConnMap m)(connAppKey c \<mapsto> self c)\<rparr>;
           m = m\<lparr>tcpAppConnMap := (tcpAppConnMap m)(connAppKey newConn \<mapsto> self newConn),
                 heap := (heap m)(self newConn \<mapsto> newConn)\<rparr>
       in Inr (m, c)))"

text \<open>One occurrence of the port is taken out of the multiset, and the object is deleted.\<close>

definition removeConnection :: "TCP \<times> TCPConnection \<Rightarrow> TCP" where
  "removeConnection = (\<lambda>(m, c).
     m\<lparr>tcpAppConnMap := (tcpAppConnMap m)(connAppKey c := None),
       tcpConnMap := (tcpConnMap m)(connSockPair c := None),
       usedEphemeralPorts := usedEphemeralPorts m - {# c_short (localPort c) #},
       heap := (heap m)(self c := None)\<rparr>)"

section \<open>The order of the socket pairs\<close>

text \<open>
  \<open>IPvXAddress::equals\<close> does not compare the families, so an IPv4 address equals every IPv6 address
  whose first word is the same.  Keys without such a pair of addresses are compatible.
\<close>

definition addr_compat :: "IPvXAddress \<Rightarrow> IPvXAddress \<Rightarrow> bool" where
  "addr_compat a b \<longleftrightarrow> (isIPv6 a \<noteq> isIPv6 b \<longrightarrow> addr_d0 a \<noteq> addr_d0 b)"

definition key_compat :: "SockPair \<Rightarrow> SockPair \<Rightarrow> bool" where
  "key_compat x y \<longleftrightarrow> addr_compat (sp_remoteAddr x) (sp_remoteAddr y) \<and> addr_compat (sp_localAddr x) (sp_localAddr y)"

lemma addr_equals_compat: "addr_compat a b \<Longrightarrow> addr_equals a b \<longleftrightarrow> a = b"
  by (cases a; cases b) (auto simp: addr_compat_def)

lemma key_compat_sym: "key_compat x y \<Longrightarrow> key_compat y x"
  by (auto simp: key_compat_def addr_compat_def)

lemma sp_less_compat:
  assumes "key_compat x y"
  shows "sp_less x y \<longleftrightarrow> sp_remoteAddr x < sp_remoteAddr y \<or> sp_remoteAddr x = sp_remoteAddr y \<and>
    (sp_localAddr x < sp_localAddr y \<or> sp_localAddr x = sp_localAddr y \<and>
     (sp_remotePort x < sp_remotePort y \<or> sp_remotePort x = sp_remotePort y \<and> sp_localPort x < sp_localPort y))"
  using assms by (auto simp: sp_less_def key_compat_def addr_equals_compat)

lemma sp_less_tie: "key_compat x y \<Longrightarrow> \<not> sp_less x y \<and> \<not> sp_less y x \<longleftrightarrow> x = y"
  using sp_less_compat [of x y] sp_less_compat [OF key_compat_sym, of x y] by (cases x; cases y) (auto simp: neq_iff)

text \<open>
  What \<open>std::map::find\<close> may return: an entry whose key is neither smaller nor greater than the one looked for, or the end of
  the map when there is none.
\<close>

definition stdFind :: "(SockPair \<Rightarrow> nat option) \<Rightarrow> SockPair \<Rightarrow> nat option \<Rightarrow> bool" where
  "stdFind mp k r \<longleftrightarrow>
     (case r of
        Some p \<Rightarrow> \<exists>k'. mp k' = Some p \<and> \<not> sp_less k k' \<and> \<not> sp_less k' k
      | None \<Rightarrow> \<forall>k'. mp k' \<noteq> None \<longrightarrow> sp_less k k' \<or> sp_less k' k)"

lemma stdFind_compat:
  assumes "\<forall>k'. mp k' \<noteq> None \<longrightarrow> key_compat k k'"
  shows "stdFind mp k r \<longleftrightarrow> r = mp k"
proof -
  have "\<not> sp_less k k' \<and> \<not> sp_less k' k \<longleftrightarrow> k = k'" if "mp k' \<noteq> None" for k' using sp_less_tie assms that by blast
  then show ?thesis by (cases r) (auto simp: stdFind_def, force+)
qed

text \<open>\<open>findConnForSegment\<close> with this look-up: the four keys in the order in which the source tries them.\<close>

definition segmentKeys :: "TCPSegment \<Rightarrow> IPvXAddress \<Rightarrow> IPvXAddress \<Rightarrow> SockPair list" where
  "segmentKeys seg srcAddr destAddr =
     [SockPair destAddr srcAddr (destPort seg) (srcPort seg), SockPair unspecifiedAddr srcAddr (destPort seg) (srcPort seg),
      SockPair destAddr unspecifiedAddr (destPort seg) (- 1), SockPair unspecifiedAddr unspecifiedAddr (destPort seg) (- 1)]"

fun stdFindFirst :: "(SockPair \<Rightarrow> nat option) \<Rightarrow> SockPair list \<Rightarrow> nat option \<Rightarrow> bool" where
  "stdFindFirst mp [] r \<longleftrightarrow> r = None"
| "stdFindFirst mp (k # ks) r \<longleftrightarrow> (r \<noteq> None \<and> stdFind mp k r) \<or> (stdFind mp k None \<and> stdFindFirst mp ks r)"

definition keys_apart :: "TCPSegment \<Rightarrow> IPvXAddress \<Rightarrow> IPvXAddress \<Rightarrow> TCP \<Rightarrow> bool" where
  "keys_apart seg srcAddr destAddr m \<longleftrightarrow>
     (\<forall>k k'. (k \<in> set (segmentKeys seg srcAddr destAddr) \<or> tcpConnMap m k \<noteq> None) \<and> tcpConnMap m k' \<noteq> None \<longrightarrow> key_compat k k')"

lemma stdFindFirst_eq:
  assumes "keys_apart seg src dest m"
  shows "stdFindFirst (tcpConnMap m) (segmentKeys seg src dest) r \<longleftrightarrow> r = findConnForSegment seg src dest m"
proof -
  have "stdFind (tcpConnMap m) k x \<longleftrightarrow> x = tcpConnMap m k" if "k \<in> set (segmentKeys seg src dest)" for k x
    using assms that by (intro stdFind_compat) (auto simp: keys_apart_def)
  then show ?thesis by (auto simp: segmentKeys_def findConnForSegment_def split: option.splits)
qed

section \<open>The search for a port\<close>

definition port_ok :: "int \<Rightarrow> bool" where
  "port_ok p \<longleftrightarrow> EPHEMERAL_PORTRANGE_START \<le> p \<and> p < EPHEMERAL_PORTRANGE_END"

lemma nextPort_mod: "port_ok p \<Longrightarrow> nextPort p = 1024 + (p - 1024 + 1) mod 3976"
proof -
  assume p: "port_ok p"
  then have r: "1024 \<le> p" "p < 5000" by (simp_all add: port_ok_def port_consts)
  then have "c_short (p + 1) = p + 1" by simp
  moreover have "(p - 1024 + 1) mod 3976 = (if p = 4999 then 0 else p - 1024 + 1)"
    using r by (auto intro: mod_pos_pos_trivial)
  ultimately show ?thesis using r by (simp add: nextPort_def port_consts Let_def)
qed

lemma nextPort_ok: "port_ok p \<Longrightarrow> port_ok (nextPort p)"
proof -
  assume "port_ok p"
  then have "nextPort p = 1024 + (p - 1024 + 1) mod 3976" by (rule nextPort_mod)
  moreover have "0 \<le> (p - 1024 + 1) mod 3976" "(p - 1024 + 1) mod 3976 < 3976" by simp_all
  ultimately show ?thesis by (simp add: port_ok_def port_consts)
qed

lemma nextPort_pow:
  assumes "port_ok p"
  shows "(nextPort ^^ k) p = 1024 + (p - 1024 + int k) mod 3976" and "port_ok ((nextPort ^^ k) p)"
proof (induction k)
  case 0
  have "0 \<le> p - 1024" "p - 1024 < 3976" using assms by (simp_all add: port_ok_def port_consts)
  then have "(p - 1024) mod 3976 = p - 1024" by (rule mod_pos_pos_trivial)
  then show "(nextPort ^^ 0) p = 1024 + (p - 1024 + int 0) mod 3976" and "port_ok ((nextPort ^^ 0) p)"
    using assms by simp_all
next
  case (Suc k)
  have "nextPort ((nextPort ^^ k) p) = 1024 + ((p - 1024 + int k) mod 3976 + 1) mod 3976"
    using nextPort_mod [OF Suc.IH(2)] Suc.IH(1) by simp
  also have "\<dots> = 1024 + (p - 1024 + int k + 1) mod 3976"
    by (simp only: mod_add_left_eq)
  also have "\<dots> = 1024 + (p - 1024 + int (Suc k)) mod 3976"
    by (simp add: algebra_simps)
  finally show "(nextPort ^^ Suc k) p = 1024 + (p - 1024 + int (Suc k)) mod 3976" by simp
  show "port_ok ((nextPort ^^ Suc k) p)" using nextPort_ok [OF Suc.IH(2)] by simp
qed

lemma searchPort_cases:
  assumes "(nextPort ^^ d) p = su" "\<forall>k < d. (nextPort ^^ k) p \<noteq> su" "d \<le> r"
  shows "if \<exists>k \<le> d. (nextPort ^^ k) p \<notin># used
    then \<exists>k \<le> d. searchPort r su used p = Inr ((nextPort ^^ k) p) \<and> (nextPort ^^ k) p \<notin># used
    else searchPort r su used p = Inl (RuntimeError ''Ephemeral port range exhausted, all ports occupied'')"
  using assms
proof (induction d arbitrary: p r)
  case 0
  then show ?case by (auto simp: searchPort.simps [of r])
next
  case (Suc d)
  show ?case
  proof (cases "p \<notin># used")
    case True
    then show ?thesis by (auto simp: searchPort.simps [of r] intro!: exI [of _ 0])
  next
    case False
    have shift: "(nextPort ^^ k) (nextPort p) = (nextPort ^^ Suc k) p" for k
      by (simp add: funpow_swap1)
    have "p \<noteq> su" using Suc.prems(2) by force
    then have "searchPort r su used p = searchPort (r - 1) su used (nextPort p)"
      using False Suc.prems(3) by (simp add: searchPort.simps [of r])
    moreover have ih: "if \<exists>k \<le> d. (nextPort ^^ Suc k) p \<notin># used
      then \<exists>k \<le> d. searchPort (r - 1) su used (nextPort p) = Inr ((nextPort ^^ Suc k) p) \<and> (nextPort ^^ Suc k) p \<notin># used
      else searchPort (r - 1) su used (nextPort p) =
        Inl (RuntimeError ''Ephemeral port range exhausted, all ports occupied'')"
    proof -
      have "(nextPort ^^ d) (nextPort p) = su" "\<forall>k < d. (nextPort ^^ k) (nextPort p) \<noteq> su" "d \<le> r - 1"
        unfolding shift using Suc.prems by auto
      then show ?thesis unfolding shift [symmetric] by (rule Suc.IH)
    qed
    moreover have "(\<exists>k \<le> Suc d. (nextPort ^^ k) p \<notin># used) \<longleftrightarrow> (\<exists>k \<le> d. (nextPort ^^ Suc k) p \<notin># used)"
      using False by (metis Suc_le_mono funpow_0 not0_implies_Suc)
    ultimately show ?thesis
      by (simp only: split: if_splits) (metis Suc_le_mono)+
  qed
qed

lemma ports_covered:
  assumes "port_ok su" "port_ok q"
  shows "\<exists>k \<le> 3975. (nextPort ^^ k) (nextPort su) = q"
proof (intro exI conjI)
  let ?k = "nat ((q - nextPort su) mod 3976)"
  have b: "0 \<le> (q - nextPort su) mod 3976" "(q - nextPort su) mod 3976 < 3976" by simp_all
  then show "?k \<le> 3975" by linarith
  have "(nextPort ^^ ?k) (nextPort su) = 1024 + (nextPort su - 1024 + (q - nextPort su) mod 3976) mod 3976"
    using nextPort_pow(1) [OF nextPort_ok [OF assms(1)]] b by simp
  also have "\<dots> = 1024 + (q - 1024) mod 3976"
    by (simp add: mod_add_right_eq)
  also have "(q - 1024) mod 3976 = q - 1024"
    using assms(2) by (intro mod_pos_pos_trivial) (simp_all add: port_ok_def port_consts)
  finally show "(nextPort ^^ ?k) (nextPort su) = q" by simp
qed

lemma ports_first_return:
  assumes "port_ok su"
  shows "(nextPort ^^ 3975) (nextPort su) = su" "\<forall>k < 3975. (nextPort ^^ k) (nextPort su) \<noteq> su"
proof -
  have s: "0 \<le> su - 1024" "su - 1024 < 3976" using assms by (simp_all add: port_ok_def port_consts)
  have e: "(nextPort ^^ Suc k) su = 1024 + (su - 1024 + int (Suc k)) mod 3976" for k
    by (rule nextPort_pow(1) [OF assms])
  have n: "(nextPort ^^ k) (nextPort su) = (nextPort ^^ Suc k) su" for k
    by (simp add: funpow_swap1)
  have "(su - 1024 + int (Suc 3975)) mod 3976 = (su - 1024) mod 3976"
    by (simp add: mod_add_self2 [of "su - 1024" 3976, simplified])
  also have "\<dots> = su - 1024" using s by (rule mod_pos_pos_trivial)
  finally show "(nextPort ^^ 3975) (nextPort su) = su" unfolding n e by simp
  show "\<forall>k < 3975. (nextPort ^^ k) (nextPort su) \<noteq> su"
  proof (intro allI impI)
    fix k :: nat assume k: "k < 3975"
    have "(su - 1024 + int (Suc k)) mod 3976 =
        (if su - 1024 + int (Suc k) < 3976 then su - 1024 + int (Suc k) else su - 1024 + int (Suc k) - 3976)"
    proof (cases "su - 1024 + int (Suc k) < 3976")
      case True
      then show ?thesis using s by (simp add: mod_pos_pos_trivial)
    next
      case False
      have "(su - 1024 + int (Suc k)) mod 3976 = (su - 1024 + int (Suc k) - 3976) mod 3976"
        by (rule minus_mod_self2 [symmetric])
      also have "\<dots> = su - 1024 + int (Suc k) - 3976"
        using s k False by (intro mod_pos_pos_trivial) simp_all
      finally show ?thesis using False by simp
    qed
    then show "(nextPort ^^ k) (nextPort su) \<noteq> su" unfolding n e using k by auto
  qed
qed

section \<open>Properties\<close>

text \<open>A module with the default parameters of \<open>TCP.ned\<close>, for the concrete instances.\<close>

definition demo_module :: TCP where
  "demo_module = TCP_initialize \<lparr>par_mss = 1024, par_advertisedWindow = 14336,
     par_sendQueueClass = ''TCPVirtualDataSendQueue'', par_receiveQueueClass = ''TCPVirtualDataRcvQueue'',
     par_tcpAlgorithmClass = ''TCPReno''\<rparr>"

text \<open>
  Property C26: the allocation of an ephemeral port always ends, and fails only when it must.  From a
  last port inside the range, a port inside the range that nobody uses is returned and
  remembered whenever there is one; the error "range exhausted" is raised exactly when every port of
  the range is in use.
\<close>

theorem getEphemeralPort_correct:
  assumes "port_ok (lastEphemeralPort m)"
  shows "if \<exists>q. port_ok q \<and> q \<notin># usedEphemeralPorts m
    then \<exists>p. getEphemeralPort m = Inr (p, m\<lparr>lastEphemeralPort := p\<rparr>) \<and> port_ok p \<and> p \<notin># usedEphemeralPorts m
    else getEphemeralPort m = Inl (RuntimeError ''Ephemeral port range exhausted, all ports occupied'')"
proof -
  let ?su = "lastEphemeralPort m" and ?used = "usedEphemeralPorts m"
  have ok: "port_ok ((nextPort ^^ k) (nextPort ?su))" for k
    by (rule nextPort_pow(2) [OF nextPort_ok [OF assms]])
  have iff: "(\<exists>q. port_ok q \<and> q \<notin># ?used) \<longleftrightarrow> (\<exists>k \<le> 3975. (nextPort ^^ k) (nextPort ?su) \<notin># ?used)"
    using ports_covered [OF assms] ok by metis
  note sp = searchPort_cases [OF ports_first_return [OF assms], of 65536 ?used]
  show ?thesis
  proof (cases "\<exists>q. port_ok q \<and> q \<notin># ?used")
    case True
    then obtain k where "searchPort 65536 ?su ?used (nextPort ?su) = Inr ((nextPort ^^ k) (nextPort ?su))"
        "(nextPort ^^ k) (nextPort ?su) \<notin># ?used"
      using sp iff by auto
    then show ?thesis using True ok [of k] by (simp add: getEphemeralPort_def Let_def)
  next
    case False
    then have "searchPort 65536 ?su ?used (nextPort ?su) =
        Inl (RuntimeError ''Ephemeral port range exhausted, all ports occupied'')"
      using sp iff by auto
    then show ?thesis using False by (simp add: getEphemeralPort_def Let_def)
  qed
qed

theorem getEphemeralPort_correct_witness:
  "\<exists>p. getEphemeralPort demo_module = Inr (p, demo_module\<lparr>lastEphemeralPort := p\<rparr>) \<and> port_ok p"
proof -
  have "port_ok (lastEphemeralPort demo_module)" "port_ok 2000" "2000 \<notin># usedEphemeralPorts demo_module"
    by (simp_all add: demo_module_def TCP_initialize_def port_ok_def port_consts)
  then show ?thesis
    using getEphemeralPort_correct [of demo_module] by (auto split: if_splits)
qed

text \<open>
  Property C27: the order of the socket pairs is a strict total order whose ties are equal
  keys, so that the map of connections keeps one entry per socket pair, among keys in which no
  IPv4 address has the same first word as an IPv6 address.
\<close>

theorem sp_order:
  assumes "key_compat x y" "key_compat y z" "key_compat x z"
  shows "(\<not> sp_less x x) \<and> (sp_less x y \<longrightarrow> \<not> sp_less y x) \<and> (sp_less x y \<and> sp_less y z \<longrightarrow> sp_less x z) \<and>
    (\<not> sp_less x y \<and> \<not> sp_less y x \<longleftrightarrow> x = y)"
proof -
  have xx: "key_compat x x" by (simp add: key_compat_def addr_compat_def)
  show ?thesis
    unfolding sp_less_compat [OF assms(1)] sp_less_compat [OF assms(2)] sp_less_compat [OF assms(3)]
      sp_less_compat [OF key_compat_sym [OF assms(1)]] sp_less_compat [OF xx]
    by (cases x; cases y) (auto simp: neq_iff)
qed

theorem sp_order_witness:
  "sp_less (SockPair (IPv4 1) (IPv4 2) 80 1025) (SockPair (IPv4 1) (IPv4 3) 80 1025) \<and>
   \<not> sp_less (SockPair (IPv4 1) (IPv4 3) 80 1025) (SockPair (IPv4 1) (IPv4 2) 80 1025)"
  using sp_order [of "SockPair (IPv4 1) (IPv4 2) 80 1025" "SockPair (IPv4 1) (IPv4 3) 80 1025"
      "SockPair (IPv4 1) (IPv4 2) 80 1025"]
  by (simp add: key_compat_def addr_compat_def sp_less_def)

text \<open>
  Without that restriction distinct keys are confused.  A connection whose local
  address is not known yet and one with an IPv6 address whose first word is zero, such
  as \<open>::1\<close>, are neither smaller than each other, so the map takes them for one.
\<close>

theorem sp_less_confuses:
  "\<not> sp_less (SockPair unspecifiedAddr r lp rp) (SockPair (IPv6 0 b c d) r lp rp) \<and>
   \<not> sp_less (SockPair (IPv6 0 b c d) r lp rp) (SockPair unspecifiedAddr r lp rp)"
  by (simp add: sp_less_def unspecifiedAddr_def)

end
