(* ===== verification/TCP_RcvSegment.thy ===== *)
theory TCP_RcvSegment
  imports TCP_FSM TCP_Maps
begin

text \<open>
  \<open>TCPConnectionRcvSegment.cc\<close>: segment arrival as in RFC 793, section 3.9, and the
  handlers of the connection's own timers.  The long member function \<open>processSegment1stThru8th\<close>
  is cut at the steps of the RFC, as its comments are; a step either returns an event or goes on
  with the next one.
\<close>

section \<open>Control flow of the steps\<close>

datatype flow = Ret TCPEventCode TCPConnection | Cont TCPEventCode TCPConnection

definition thenE :: "flow res \<Rightarrow> (TCPEventCode \<Rightarrow> TCPConnection \<Rightarrow> (TCPEventCode \<times> TCPConnection) res) \<Rightarrow>
    (TCPEventCode \<times> TCPConnection) res" where
  "thenE m f = bindE m (\<lambda>fl. case fl of Ret ev c \<Rightarrow> Inr (ev, c) | Cont ev c \<Rightarrow> f ev c)"

lemma thenE_simps [simp]:
  "thenE (Inl e) f = Inl e"
  "thenE (Inr (Ret ev c)) f = Inr (ev, c)"
  "thenE (Inr (Cont ev c)) f = f ev c"
  by (simp_all add: thenE_def)

definition retE :: "TCPEventCode \<Rightarrow> TCPConnection res \<Rightarrow> (TCPEventCode \<times> TCPConnection) res" where
  "retE ev m = bindE m (\<lambda>c. Inr (ev, c))"

definition discardUpTo :: "u32 \<Rightarrow> TCPConnection \<Rightarrow> TCPConnection res" where
  "discardUpTo s c = bindE (sq_discardUpTo s (sendQueue c)) (\<lambda>q. Inr (c\<lparr>sendQueue := q\<rparr>))"

definition insertBytes :: "TCPSegment \<Rightarrow> TCPConnection \<Rightarrow> u32 \<times> TCPConnection" where
  "insertBytes seg c = (let (r, q) = rq_insertBytesFromSegment seg (receiveQueue c) in (r, c\<lparr>receiveQueue := q\<rparr>))"

section \<open>No connection\<close>

definition segmentArrivalWhileClosed ::
    "TCPSegment \<Rightarrow> IPvXAddress \<Rightarrow> IPvXAddress \<Rightarrow> TCPConnection \<Rightarrow> TCPConnection res" where
  "segmentArrivalWhileClosed seg srcAddr destAddr tmp =
     (if rstBit seg then Inr tmp
      else if \<not> ackBit seg
      then sendRstAck 0 (seg_end seg) destAddr srcAddr (destPort seg) (srcPort seg) tmp
      else sendRst_addr (ackNo seg) destAddr srcAddr (destPort seg) (srcPort seg) tmp)"

section \<open>Acknowledgements\<close>

text \<open>\<open>short dupacks; ... dupacks++\<close>.\<close>

definition ackDuplicate :: "TCPSegment \<Rightarrow> TCPConnection \<Rightarrow> (bool \<times> TCPConnection) res" where
  "ackDuplicate seg c =
     (if snd_una c = ackNo seg \<and> payloadLength seg = 0 \<and> snd_una c \<noteq> snd_max c
      then bindE (alg_receivedDuplicateAck (c\<lparr>dupacks := c_short (dupacks c + 1)\<rparr>)) (\<lambda>c. Inr (True, c))
      else Inr (True, c\<lparr>dupacks := 0\<rparr>))"

definition ackWindowUpdate :: "TCPSegment \<Rightarrow> TCPConnection \<Rightarrow> TCPConnection" where
  "ackWindowUpdate seg c =
     (if seqLess (snd_wl1 c) (sequenceNo seg) \<or> snd_wl1 c = sequenceNo seg \<and> seqLE (snd_wl2 c) (ackNo seg)
      then c\<lparr>snd_wnd := ucast (seg_window seg), snd_wl1 := sequenceNo seg, snd_wl2 := ackNo seg\<rparr>
      else c)"

definition ackNewData :: "TCPSegment \<Rightarrow> TCPConnection \<Rightarrow> (bool \<times> TCPConnection) res" where
  "ackNewData seg c =
     (let old_snd_una = snd_una c;
          c = c\<lparr>snd_una := ackNo seg\<rparr>;
          c = (if seqLess (snd_nxt c) (snd_una c) then c\<lparr>snd_nxt := snd_una c\<rparr> else c);
          finAcked = (send_fin c \<and> ackNo seg = snd_fin_seq c + 1);
          discardUpToSeq = (if finAcked then snd_una c - 1 else snd_una c);
          c = (if finAcked then c\<lparr>fin_ack_rcvd := True\<rparr> else c)
      in bindE (discardUpTo discardUpToSeq c) (\<lambda>c.
         bindE (alg_receivedDataAck old_snd_una (ackWindowUpdate seg c)) (\<lambda>c.
         Inr (True, c\<lparr>dupacks := 0\<rparr>))))"

definition processAckInEstabEtc :: "TCPSegment \<Rightarrow> TCPConnection \<Rightarrow> (bool \<times> TCPConnection) res" where
  "processAckInEstabEtc seg c =
     (if seqGE (snd_una c) (ackNo seg) then ackDuplicate seg c
      else if seqLE (ackNo seg) (snd_max c) then ackNewData seg c
      else if \<not> seqGreater (ackNo seg) (snd_max c) then Inl (AssertFailed ''seqGreater(ackNo, snd_max)'')
      else bindE (alg_receivedAckForDataNotYetSent (ackNo seg) c) (\<lambda>c. Inr (False, c\<lparr>dupacks := 0\<rparr>)))"

section \<open>SYN_RCVD and the timers of connection setup\<close>

definition processRstInSynReceived :: "TCPSegment \<Rightarrow> TCPConnection \<Rightarrow> (TCPEventCode \<times> TCPConnection) res" where
  "processRstInSynReceived seg c =
     bindE (discardUpTo (sq_getBufferEndSeq (sendQueue c)) c) (\<lambda>c.
     retE TCP_E_RCV_RST (whenE (active c) (sendIndicationToApp TCP_I_CONNECTION_REFUSED) c))"

definition startSynRexmitTimer :: "TCPConnection \<Rightarrow> TCPConnection res" where
  "startSynRexmitTimer c =
     (let c = c\<lparr>syn_rexmit_count := 0, syn_rexmit_timeout := TCP_TIMEOUT_SYN_REXMIT\<rparr>
      in if timers c SynRexmit = Deleted then Inl NullPointer
         else bindE (whenE (is_scheduled SynRexmit c) (cancelEvent SynRexmit) c) (\<lambda>c.
              scheduleTimeout SynRexmit (syn_rexmit_timeout c) c))"

section \<open>The steps of RFC 793\<close>

definition step1_sequence :: "TCPSegment \<Rightarrow> TCPConnection \<Rightarrow> flow res" where
  "step1_sequence seg c =
     (if \<not> isSegmentAcceptable seg c
      then bindE (whenE (\<not> rstBit seg) sendAck c) (\<lambda>c. Inr (Ret TCP_E_IGNORE c))
      else Inr (Cont TCP_E_IGNORE c))"

definition step2_rst :: "TCPSegment \<Rightarrow> TCPConnection \<Rightarrow> flow res" where
  "step2_rst seg c =
     (if rstBit seg
      then if fsm c = TCP_S_SYN_RCVD
           then bindE (processRstInSynReceived seg c) (\<lambda>(ev, c). Inr (Ret ev c))
           else if fsm c \<in> {TCP_S_ESTABLISHED, TCP_S_FIN_WAIT_1, TCP_S_FIN_WAIT_2, TCP_S_CLOSE_WAIT}
           then bindE (sendIndicationToApp TCP_I_CONNECTION_RESET c) (\<lambda>c. Inr (Ret TCP_E_RCV_RST c))
           else if fsm c \<in> {TCP_S_CLOSING, TCP_S_LAST_ACK, TCP_S_TIME_WAIT}
           then bindE (whenE (fsm c \<noteq> TCP_S_TIME_WAIT) (sendIndicationToApp TCP_I_CLOSED) c)
                  (\<lambda>c. Inr (Ret TCP_E_RCV_RST c))
           else Inl (AssertFailed ''0'')
      else Inr (Cont TCP_E_IGNORE c))"

definition step4_syn :: "TCPSegment \<Rightarrow> TCPConnection \<Rightarrow> flow res" where
  "step4_syn seg c =
     (if synBit seg
      then bindE (assertE ''isSegmentAcceptable(tcpseg)'' (isSegmentAcceptable seg c) c) (\<lambda>c.
           bindE (sendIndicationToApp TCP_I_CONNECTION_RESET c) (\<lambda>c. Inr (Ret TCP_E_RCV_UNEXP_SYN c)))
      else Inr (Cont TCP_E_IGNORE c))"

text \<open>The fifth step, up to the transition out of \<open>SYN_RCVD\<close>.\<close>

definition step5_ack_synRcvd :: "TCPSegment \<Rightarrow> TCPConnection \<Rightarrow> flow res" where
  "step5_ack_synRcvd seg c =
     (if \<not> ackBit seg then Inr (Ret TCP_E_IGNORE c)
      else if fsm c = TCP_S_SYN_RCVD
      then if \<not> seqLE (snd_una c) (ackNo seg) \<or> \<not> seqLE (ackNo seg) (snd_nxt c)
           then bindE (sendRst (ackNo seg) c) (\<lambda>c. Inr (Ret TCP_E_IGNORE c))
           else bindE (alg_established False c) (\<lambda>c.
                bindE (sendEstabIndicationToApp c) (\<lambda>c. Inr (Cont TCP_E_RCV_ACK c)))
      else Inr (Cont TCP_E_IGNORE c))"

text \<open>The fifth step, the processing that depends on the state.\<close>

definition step5_ack_states :: "TCPSegment \<Rightarrow> TCPEventCode \<Rightarrow> TCPConnection \<Rightarrow> flow res" where
  "step5_ack_states seg ev c =
     bindE (if fsm c \<in> {TCP_S_SYN_RCVD, TCP_S_ESTABLISHED, TCP_S_FIN_WAIT_1, TCP_S_FIN_WAIT_2,
                        TCP_S_CLOSE_WAIT, TCP_S_CLOSING}
            then processAckInEstabEtc seg c else Inr (True, c)) (\<lambda>(ok, c).
     if \<not> ok then Inr (Ret TCP_E_IGNORE c)
     else
       let ev = (if fsm c = TCP_S_FIN_WAIT_1 \<and> fin_ack_rcvd c then TCP_E_RCV_ACK else ev);
           ev' = (if fsm c = TCP_S_CLOSING \<and> fin_ack_rcvd c then TCP_E_RCV_ACK else ev)
       in bindE (whenE (fsm c = TCP_S_CLOSING \<and> fin_ack_rcvd c)
                   (seqE [scheduleTimeout The2MSL TCP_TIMEOUT_2MSL, sendIndicationToApp TCP_I_CLOSED]) c) (\<lambda>c.
          if fsm c = TCP_S_LAST_ACK \<and> send_fin c \<and> ackNo seg = snd_fin_seq c + 1
          then bindE (sendIndicationToApp TCP_I_CLOSED c) (\<lambda>c. Inr (Ret TCP_E_RCV_ACK c))
          else bindE (whenE (fsm c = TCP_S_TIME_WAIT)
                        (seqE [sendAck, cancelEvent The2MSL, scheduleTimeout The2MSL TCP_TIMEOUT_2MSL]) c) (\<lambda>c.
               Inr (Cont ev' c))))"

text \<open>The seventh step: the segment text.  The loop over \<open>extractBytesUpTo\<close> hands over
  the packets that the queue gives, in order.\<close>

definition deliverToApp :: "TCPConnection \<Rightarrow> TCPConnection res" where
  "deliverToApp c =
     bindE (rq_drain (rcv_nxt c) (receiveQueue c)) (\<lambda>(pks, q).
       seqE (map sendToApp pks) (c\<lparr>receiveQueue := q\<rparr>))"

definition step7_text :: "TCPSegment \<Rightarrow> TCPConnection \<Rightarrow> TCPConnection res" where
  "step7_text seg c =
     (if fsm c \<in> {TCP_S_SYN_RCVD, TCP_S_ESTABLISHED, TCP_S_FIN_WAIT_1, TCP_S_FIN_WAIT_2} \<and> payloadLength seg > 0
      then let old_rcv_nxt = rcv_nxt c;
               (r, c) = insertBytes seg c;
               c = c\<lparr>rcv_nxt := r\<rparr>
           in if old_rcv_nxt = rcv_nxt c then alg_receivedOutOfOrderSegment c
              else bindE (deliverToApp c) (\<lambda>c.
                   if fin_rcvd c \<and> rcv_nxt c = rcv_fin_seq c
                   then sendIndicationToApp TCP_I_PEER_CLOSED (c\<lparr>rcv_nxt := rcv_fin_seq c + 1\<rparr>)
                   else Inr c)
      else Inr c)"

text \<open>The eighth step: the FIN bit.\<close>

definition restart2MSL :: "timer_id \<Rightarrow> TCPConnection \<Rightarrow> TCPConnection res" where
  "restart2MSL tm = seqE [cancelEvent tm, scheduleTimeout The2MSL TCP_TIMEOUT_2MSL]"

definition step8_fin :: "TCPSegment \<Rightarrow> TCPEventCode \<Rightarrow> TCPConnection \<Rightarrow> (TCPEventCode \<times> TCPConnection) res" where
  "step8_fin seg ev c =
     (if finBit seg
      then bindE (if rcv_nxt c = seg_end seg
                  then sendIndicationToApp TCP_I_PEER_CLOSED (c\<lparr>rcv_nxt := rcv_nxt c + 1\<rparr>)
                  else Inr (c\<lparr>fin_rcvd := True, rcv_fin_seq := seg_end seg\<rparr>)) (\<lambda>c.
           if fsm c = TCP_S_FIN_WAIT_1 \<and> fin_ack_rcvd c
           then retE TCP_E_RCV_FIN_ACK (seqE [restart2MSL FinWait2, sendIndicationToApp TCP_I_CLOSED] c)
           else if fsm c = TCP_S_FIN_WAIT_2
           then retE TCP_E_RCV_FIN (seqE [restart2MSL FinWait2, sendIndicationToApp TCP_I_CLOSED] c)
           else if fsm c = TCP_S_TIME_WAIT then retE TCP_E_RCV_FIN (restart2MSL The2MSL c)
           else Inr (TCP_E_RCV_FIN, c))
      else Inr (ev, c))"

text \<open>After the eight steps: acknowledge what was received, and turn a CLOSE that was deferred
  into the event it is.\<close>

definition deferredClose :: "u32 \<Rightarrow> TCPEventCode \<Rightarrow> TCPConnection \<Rightarrow> TCPEventCode" where
  "deferredClose old_snd_nxt ev c =
     (if (fsm c = TCP_S_ESTABLISHED \<or> fsm c = TCP_S_SYN_RCVD) \<and> send_fin c \<and> snd_nxt c = snd_fin_seq c + 1
      then TCP_E_CLOSE
      else if fsm c = TCP_S_CLOSE_WAIT \<and> send_fin c \<and> snd_nxt c = snd_fin_seq c + 1 \<and> old_snd_nxt \<noteq> snd_nxt c
      then TCP_E_CLOSE else ev)"

definition finishSegment :: "u32 \<Rightarrow> u32 \<Rightarrow> TCPEventCode \<Rightarrow> TCPConnection \<Rightarrow> (TCPEventCode \<times> TCPConnection) res" where
  "finishSegment old_snd_nxt old_rcv_nxt ev c =
     bindE (whenE (old_rcv_nxt \<noteq> rcv_nxt c) alg_receiveSeqChanged c) (\<lambda>c.
     Inr (deferredClose old_snd_nxt ev c, c))"

definition processSegment1stThru8th :: "TCPSegment \<Rightarrow> TCPConnection \<Rightarrow> (TCPEventCode \<times> TCPConnection) res" where
  "processSegment1stThru8th seg c =
     thenE (step1_sequence seg c) (\<lambda>_ c.
     thenE (step2_rst seg c) (\<lambda>_ c.
     thenE (step4_syn seg c) (\<lambda>_ c.
     thenE (step5_ack_synRcvd seg c) (\<lambda>ev c.
       let old_snd_nxt = snd_nxt c in
     thenE (step5_ack_states seg ev c) (\<lambda>ev c.
       let old_rcv_nxt = rcv_nxt c in
     bindE (step7_text seg c) (\<lambda>c.
     bindE (step8_fin seg ev c) (\<lambda>(ev, c).
     finishSegment old_snd_nxt old_rcv_nxt ev c)))))))"

section \<open>LISTEN\<close>

definition listen_syn :: "TCPSegment \<Rightarrow> TCPConnection \<Rightarrow> TCPConnection res" where
  "listen_syn seg c =
     (let c = c\<lparr>rcv_nxt := sequenceNo seg + 1, irs := sequenceNo seg,
                receiveQueue := rq_init (sequenceNo seg + 1) (receiveQueue c)\<rparr>;
          c = selectInitialSeqNum c;
          c = c\<lparr>snd_wnd := ucast (seg_window seg), snd_wl1 := sequenceNo seg, snd_wl2 := iss c\<rparr>
      in bindE (seqE [sendSynAck, startSynRexmitTimer] c) (\<lambda>c.
         if timers c ConnEstab = Deleted then Inl NullPointer
         else bindE (whenE (\<not> is_scheduled ConnEstab c) (scheduleTimeout ConnEstab TCP_TIMEOUT_CONN_ESTAB) c) (\<lambda>c.
              Inr (if payloadLength seg > 0 then snd (insertBytes seg c) else c))))"

definition listen_socket ::
    "TCPSegment \<Rightarrow> IPvXAddress \<Rightarrow> IPvXAddress \<Rightarrow> TCP \<times> TCPConnection \<Rightarrow> (TCP \<times> TCPConnection) res" where
  "listen_socket seg srcAddr destAddr = (\<lambda>(m, c).
     if fork c
     then let (conn, c) = cloneListeningConnection (params m) (nextPtr m) c
          in addForkedConnection conn destAddr srcAddr (destPort seg) (srcPort seg)
               (m\<lparr>nextPtr := nextPtr m + 1\<rparr>, c)
     else updateSockPair destAddr srcAddr (destPort seg) (srcPort seg) (m, c))"

definition processSegmentInListen ::
    "TCPSegment \<Rightarrow> IPvXAddress \<Rightarrow> IPvXAddress \<Rightarrow> TCP \<times> TCPConnection \<Rightarrow> (TCPEventCode \<times> TCP \<times> TCPConnection) res" where
  "processSegmentInListen seg srcAddr destAddr = (\<lambda>(m, c).
     if rstBit seg then Inr (TCP_E_IGNORE, m, c)
     else if ackBit seg
     then bindE (sendRst_addr (ackNo seg) destAddr srcAddr (destPort seg) (srcPort seg) c) (\<lambda>c.
          Inr (TCP_E_IGNORE, m, c))
     else if synBit seg
     then bindE (listen_socket seg srcAddr destAddr (m, c)) (\<lambda>(m, c).
          bindE (listen_syn seg c) (\<lambda>c. Inr (TCP_E_RCV_SYN, m, c)))
     else Inr (TCP_E_IGNORE, m, c))"

section \<open>SYN_SENT\<close>

definition synSent_established :: "TCPSegment \<Rightarrow> TCPConnection \<Rightarrow> (TCPEventCode \<times> TCPConnection) res" where
  "synSent_established seg c =
     (let c = (if payloadLength seg > 0
               then let (r, c) = insertBytes seg c in c\<lparr>rcv_nxt := r\<rparr> else c)
      in retE TCP_E_RCV_SYN_ACK (seqE [alg_established True, sendEstabIndicationToApp] c))"

definition synSent_simultaneous :: "TCPSegment \<Rightarrow> TCPConnection \<Rightarrow> (TCPEventCode \<times> TCPConnection) res" where
  "synSent_simultaneous seg c =
     (let c = c\<lparr>snd_max := iss c, snd_nxt := iss c\<rparr>
      in bindE (seqE [sendSynAck, startSynRexmitTimer] c) (\<lambda>c.
         Inr (TCP_E_RCV_SYN, if payloadLength seg > 0 then snd (insertBytes seg c) else c)))"

definition synSent_syn ::
    "TCPSegment \<Rightarrow> IPvXAddress \<Rightarrow> IPvXAddress \<Rightarrow> TCP \<times> TCPConnection \<Rightarrow> (TCPEventCode \<times> TCP \<times> TCPConnection) res" where
  "synSent_syn seg srcAddr destAddr = (\<lambda>(m, c).
     let c = c\<lparr>rcv_nxt := sequenceNo seg + 1, irs := sequenceNo seg,
               receiveQueue := rq_init (sequenceNo seg + 1) (receiveQueue c)\<rparr>
     in bindE (if ackBit seg
               then bindE (discardUpTo (ackNo seg) (c\<lparr>snd_una := ackNo seg\<rparr>)) (\<lambda>c.
                    Inr (c\<lparr>snd_wnd := ucast (seg_window seg), snd_wl1 := sequenceNo seg,
                           snd_wl2 := ackNo seg\<rparr>))
               else Inr c) (\<lambda>c.
        bindE (updateSockPair destAddr srcAddr (destPort seg) (srcPort seg) (m, c)) (\<lambda>(m, c).
        bindE (if seqGreater (snd_una c) (iss c) then synSent_established seg c
               else synSent_simultaneous seg c) (\<lambda>(ev, c).
        Inr (ev, m, c)))))"

definition processSegmentInSynSent ::
    "TCPSegment \<Rightarrow> IPvXAddress \<Rightarrow> IPvXAddress \<Rightarrow> TCP \<times> TCPConnection \<Rightarrow> (TCPEventCode \<times> TCP \<times> TCPConnection) res" where
  "processSegmentInSynSent seg srcAddr destAddr = (\<lambda>(m, c).
     if ackBit seg \<and> (seqLE (ackNo seg) (iss c) \<or> seqGreater (ackNo seg) (snd_nxt c))
     then bindE (sendRst_addr (ackNo seg) destAddr srcAddr (destPort seg) (srcPort seg) c) (\<lambda>c.
          Inr (TCP_E_IGNORE, m, c))
     else if rstBit seg
     then if ackBit seg
          then bindE (sendIndicationToApp TCP_I_CONNECTION_RESET c) (\<lambda>c. Inr (TCP_E_RCV_RST, m, c))
          else Inr (TCP_E_IGNORE, m, c)
     else if synBit seg then synSent_syn seg srcAddr destAddr (m, c)
     else Inr (TCP_E_IGNORE, m, c))"

section \<open>Dispatch\<close>

text \<open>In \<open>TCP_S_INIT\<close> there is no state block yet, and the function dereferences it.\<close>

definition process_RCV_SEGMENT ::
    "TCPSegment \<Rightarrow> IPvXAddress \<Rightarrow> IPvXAddress \<Rightarrow> TCP \<times> TCPConnection \<Rightarrow> (TCPEventCode \<times> TCP \<times> TCPConnection) res" where
  "process_RCV_SEGMENT seg srcAddr destAddr = (\<lambda>(m, c).
     if fsm c = TCP_S_INIT then Inl NullPointer
     else if fsm c = TCP_S_LISTEN then processSegmentInListen seg srcAddr destAddr (m, c)
     else if fsm c = TCP_S_SYN_SENT then processSegmentInSynSent seg srcAddr destAddr (m, c)
     else bindE (processSegment1stThru8th seg c) (\<lambda>(ev, c). Inr (ev, m, c)))"

section \<open>Timeouts\<close>

definition process_TIMEOUT_CONN_ESTAB :: "TCPConnection \<Rightarrow> TCPConnection res" where
  "process_TIMEOUT_CONN_ESTAB c =
     (if fsm c \<in> {TCP_S_SYN_RCVD, TCP_S_SYN_SENT}
      then whenE (active c) (sendIndicationToApp TCP_I_TIMED_OUT) c
      else Inl (RuntimeError ''Internal error: received CONN_ESTAB timeout''))"

definition process_TIMEOUT_2MSL :: "TCPConnection \<Rightarrow> TCPConnection res" where
  "process_TIMEOUT_2MSL c =
     (if fsm c = TCP_S_TIME_WAIT then Inr c
      else Inl (RuntimeError ''Internal error: received time-wait (2MSL) timeout''))"

definition process_TIMEOUT_FIN_WAIT_2 :: "TCPConnection \<Rightarrow> TCPConnection res" where
  "process_TIMEOUT_FIN_WAIT_2 c =
     (if fsm c = TCP_S_FIN_WAIT_2 then sendIndicationToApp TCP_I_CLOSED c
      else Inl (RuntimeError ''Internal error: received FIN_WAIT_2 timeout''))"

definition process_TIMEOUT_SYN_REXMIT ::
    "TCPEventCode \<Rightarrow> TCPConnection \<Rightarrow> (TCPEventCode \<times> TCPConnection) res" where
  "process_TIMEOUT_SYN_REXMIT ev c =
     (let c = c\<lparr>syn_rexmit_count := syn_rexmit_count c + 1\<rparr>
      in if syn_rexmit_count c > MAX_SYN_REXMIT_COUNT then Inr (TCP_E_ABORT, c)
         else bindE (if fsm c = TCP_S_SYN_SENT then sendSyn c
                     else if fsm c = TCP_S_SYN_RCVD then sendSynAck c
                     else Inl (RuntimeError ''Internal error: SYN-REXMIT timer expired'')) (\<lambda>c.
              let t = syn_rexmit_timeout c * 2;
                  t = (if t > TCP_TIMEOUT_SYN_REXMIT_MAX then TCP_TIMEOUT_SYN_REXMIT_MAX else t);
                  c = c\<lparr>syn_rexmit_timeout := t\<rparr>
              in retE ev (scheduleTimeout SynRexmit (syn_rexmit_timeout c) c)))"

end
