(* ===== verification/TCP_Module.thy ===== *)
theory TCP_Module
  imports TCP_RcvSegment
begin

text \<open>
  The commands of the application (\<open>TCPConnectionEventProc.cc\<close>), the entry points of a
  connection (\<open>processTimer\<close>, \<open>processTCPSegment\<close>, \<open>processAppCommand\<close> of
  \<open>TCPConnectionBase.cc\<close>) and the message handler of the module (\<open>handleMessage\<close> of
  \<open>TCP.cc\<close>).
\<close>

section \<open>Commands\<close>

datatype command_info = OpenInfo TCPOpenCommand | SendInfo | PlainInfo

record AppMessage =
  am_kind :: int
  am_gate :: int
  am_connId :: int
  am_info :: command_info
  am_packet :: "cPacket option"

text \<open>\<open>check_and_cast\<close> of the control info and of the message.\<close>

definition castError :: "tcp_error + 'a" where
  "castError = Inl (RuntimeError ''check_and_cast(): cannot cast'')"

definition asOpenCommand :: "command_info \<Rightarrow> TCPOpenCommand res" where
  "asOpenCommand i = (case i of OpenInfo cmd \<Rightarrow> Inr cmd | _ \<Rightarrow> castError)"

definition asSendCommand :: "command_info \<Rightarrow> unit res" where
  "asSendCommand i = (case i of SendInfo \<Rightarrow> Inr () | _ \<Rightarrow> castError)"

definition PK :: "cPacket option \<Rightarrow> cPacket res" where
  "PK p = (case p of Some pk \<Rightarrow> Inr pk | None \<Rightarrow> castError)"

definition preanalyseAppCommandEvent :: "int \<Rightarrow> TCPEventCode res" where
  "preanalyseAppCommandEvent code =
     (if code = 1 then Inr TCP_E_OPEN_ACTIVE
      else if code = 2 then Inr TCP_E_OPEN_PASSIVE
      else if code = 3 then Inr TCP_E_SEND
      else if code = 5 then Inr TCP_E_CLOSE
      else if code = 6 then Inr TCP_E_ABORT
      else if code = 7 then Inr TCP_E_STATUS
      else Inl (RuntimeError ''Unknown message kind in app command''))"

text \<open>The local variables \<open>localPort\<close> and \<open>remotePort\<close> are of type \<open>short\<close>.\<close>

definition process_OPEN_ACTIVE :: "command_info \<Rightarrow> TCP \<times> TCPConnection \<Rightarrow> (TCP \<times> TCPConnection) res" where
  "process_OPEN_ACTIVE info = (\<lambda>(m, c).
     bindE (asOpenCommand info) (\<lambda>cmd.
     if fsm c \<noteq> TCP_S_INIT
     then Inl (RuntimeError ''Error processing command OPEN_ACTIVE: connection already exists'')
     else bindE (initConnection (params m) cmd c) (\<lambda>c.
       let c = c\<lparr>active := True\<rparr>;
           lport = c_short (oc_localPort cmd);
           rport = c_short (oc_remotePort cmd)
       in if isUnspecified (oc_remoteAddr cmd) \<or> rport = - 1
          then Inl (RuntimeError ''Error processing command OPEN_ACTIVE: remote address and port must be specified'')
          else bindE (if lport = - 1 then getEphemeralPort m else Inr (lport, m)) (\<lambda>(lport, m).
               bindE (addSockPair (oc_localAddr cmd) (oc_remoteAddr cmd) lport rport (m, c)) (\<lambda>(m, c).
               bindE (seqE [sendSyn, startSynRexmitTimer, scheduleTimeout ConnEstab TCP_TIMEOUT_CONN_ESTAB]
                        (selectInitialSeqNum c)) (\<lambda>c.
               Inr (m, c)))))))"

definition process_OPEN_PASSIVE :: "command_info \<Rightarrow> TCP \<times> TCPConnection \<Rightarrow> (TCP \<times> TCPConnection) res" where
  "process_OPEN_PASSIVE info = (\<lambda>(m, c).
     bindE (asOpenCommand info) (\<lambda>cmd.
     if fsm c \<noteq> TCP_S_INIT
     then Inl (RuntimeError ''Error processing command OPEN_PASSIVE: connection already exists'')
     else bindE (initConnection (params m) cmd c) (\<lambda>c.
       let c = c\<lparr>active := False, fork := oc_fork cmd\<rparr>;
           lport = c_short (oc_localPort cmd)
       in if lport = - 1
          then Inl (RuntimeError ''Error processing command OPEN_PASSIVE: local port must be specified'')
          else addSockPair (oc_localAddr cmd) unspecifiedAddr lport (- 1) (m, c))))"

definition enqueueAppData :: "cPacket \<Rightarrow> TCPConnection \<Rightarrow> TCPConnection res" where
  "enqueueAppData pk c = Inr (c\<lparr>sendQueue := sq_enqueueAppData pk (sendQueue c)\<rparr>)"

text \<open>In \<open>TCP_S_CLOSED\<close> no case of the \<open>switch\<close> applies.\<close>

definition process_SEND :: "command_info \<Rightarrow> cPacket option \<Rightarrow> TCPConnection \<Rightarrow> TCPConnection res" where
  "process_SEND info pkt c =
     bindE (asSendCommand info) (\<lambda>_.
     if fsm c = TCP_S_INIT then Inl (RuntimeError ''Error processing command SEND: connection not open'')
     else if fsm c = TCP_S_LISTEN
     then bindE (seqE [sendSyn, startSynRexmitTimer, scheduleTimeout ConnEstab TCP_TIMEOUT_CONN_ESTAB]
                   (selectInitialSeqNum (c\<lparr>active := True\<rparr>))) (\<lambda>c.
          bindE (PK pkt) (\<lambda>pk. enqueueAppData pk c))
     else if fsm c \<in> {TCP_S_SYN_RCVD, TCP_S_SYN_SENT} then bindE (PK pkt) (\<lambda>pk. enqueueAppData pk c)
     else if fsm c \<in> {TCP_S_ESTABLISHED, TCP_S_CLOSE_WAIT}
     then bindE (PK pkt) (\<lambda>pk. bindE (enqueueAppData pk c) alg_sendCommandInvoked)
     else if fsm c = TCP_S_CLOSED then Inr c
     else Inl (RuntimeError ''Error processing command SEND: connection closing''))"

text \<open>The event is an in-out parameter: a deferred CLOSE turns it into \<open>TCP_E_IGNORE\<close>.\<close>

definition process_CLOSE :: "TCPEventCode \<Rightarrow> TCPConnection \<Rightarrow> (TCPEventCode \<times> TCPConnection) res" where
  "process_CLOSE ev c =
     (if fsm c = TCP_S_INIT then Inl (RuntimeError ''Error processing command CLOSE: connection not open'')
      else if fsm c \<in> {TCP_S_LISTEN, TCP_S_SYN_SENT} then Inr (ev, c)
      else if fsm c \<in> {TCP_S_SYN_RCVD, TCP_S_ESTABLISHED, TCP_S_CLOSE_WAIT}
      then bindE (if snd_max c = sq_getBufferEndSeq (sendQueue c)
                  then bindE (sendFin (c\<lparr>snd_nxt := snd_max c\<rparr>)) (\<lambda>c.
                       Inr (ev, c\<lparr>snd_nxt := snd_nxt c + 1, snd_max := snd_nxt c + 1\<rparr>))
                  else Inr (TCP_E_IGNORE, c)) (\<lambda>(ev, c).
           Inr (ev, c\<lparr>send_fin := True, snd_fin_seq := sq_getBufferEndSeq (sendQueue c)\<rparr>))
      else if fsm c = TCP_S_CLOSED then Inr (ev, c)
      else Inl (RuntimeError ''Duplicate CLOSE command: connection already closing''))"

definition process_ABORT :: "TCPConnection \<Rightarrow> TCPConnection res" where
  "process_ABORT c =
     (if fsm c = TCP_S_INIT then Inl (RuntimeError ''Error processing command ABORT: connection not open'')
      else whenE (fsm c \<in> {TCP_S_SYN_RCVD, TCP_S_ESTABLISHED, TCP_S_FIN_WAIT_1, TCP_S_FIN_WAIT_2,
                           TCP_S_CLOSE_WAIT}) (sendRst (snd_nxt c)) c)"

definition statusInfo :: "TCPConnection \<Rightarrow> TCPStatusInfo" where
  "statusInfo c = \<lparr>st_state = fsm c, st_stateName = stateName (fsm c), st_localAddr = localAddr c,
     st_remoteAddr = remoteAddr c, st_localPort = localPort c, st_remotePort = remotePort c,
     st_snd_mss = c_int (uint (snd_mss c)), st_snd_una = snd_una c, st_snd_nxt = snd_nxt c,
     st_snd_max = snd_max c, st_snd_wnd = snd_wnd c, st_snd_up = snd_up c, st_snd_wl1 = snd_wl1 c,
     st_snd_wl2 = snd_wl2 c, st_iss = iss c, st_rcv_nxt = rcv_nxt c, st_rcv_wnd = rcv_wnd c,
     st_rcv_up = rcv_up c, st_irs = irs c, st_fin_ack_rcvd = fin_ack_rcvd c\<rparr>"

definition process_STATUS :: "TCPConnection \<Rightarrow> TCPConnection res" where
  "process_STATUS c =
     (if fsm c = TCP_S_INIT then Inl (RuntimeError ''Error processing command STATUS: connection not open'')
      else Inr (emit (ToAppStatus (appGateIndex c) (statusInfo c)) c))"

section \<open>Entry points of a connection\<close>

definition tryFastRoute :: "TCPSegment \<Rightarrow> TCPConnection \<Rightarrow> bool" where
  "tryFastRoute seg c = False"

definition processTimer :: "timer_id \<Rightarrow> TCPConnection \<Rightarrow> (bool \<times> TCPConnection) res" where
  "processTimer tm c =
     bindE (case tm of
              The2MSL \<Rightarrow> retE TCP_E_TIMEOUT_2MSL (process_TIMEOUT_2MSL c)
            | ConnEstab \<Rightarrow> retE TCP_E_TIMEOUT_CONN_ESTAB (process_TIMEOUT_CONN_ESTAB c)
            | FinWait2 \<Rightarrow> retE TCP_E_TIMEOUT_FIN_WAIT_2 (process_TIMEOUT_FIN_WAIT_2 c)
            | SynRexmit \<Rightarrow> process_TIMEOUT_SYN_REXMIT TCP_E_IGNORE c
            | _ \<Rightarrow> alg_processTimer tm c) (\<lambda>(ev, c).
     performStateTransition ev c)"

definition processTCPSegment ::
    "TCPSegment \<Rightarrow> IPvXAddress \<Rightarrow> IPvXAddress \<Rightarrow> TCP \<times> TCPConnection \<Rightarrow> (bool \<times> TCP \<times> TCPConnection) res" where
  "processTCPSegment seg srcAddr destAddr = (\<lambda>(m, c).
     if \<not> isUnspecified (localAddr c) \<and> \<not> (addr_equals (localAddr c) destAddr \<and> localPort c = destPort seg)
     then Inl (AssertFailed ''localAddr==segDestAddr && localPort==destPort'')
     else if \<not> isUnspecified (remoteAddr c) \<and> \<not> (addr_equals (remoteAddr c) srcAddr \<and> remotePort c = srcPort seg)
     then Inl (AssertFailed ''remoteAddr==segSrcAddr && remotePort==srcPort'')
     else if tryFastRoute seg c then Inr (True, m, c)
     else bindE (process_RCV_SEGMENT seg srcAddr destAddr (m, c)) (\<lambda>(ev, m, c).
          bindE (performStateTransition ev c) (\<lambda>(keep, c). Inr (keep, m, c))))"

definition appCommand :: "TCPEventCode \<Rightarrow> AppMessage \<Rightarrow> TCP \<times> TCPConnection \<Rightarrow> (TCPEventCode \<times> TCP \<times> TCPConnection) res" where
  "appCommand ev msg = (\<lambda>(m, c). case ev of
       TCP_E_OPEN_ACTIVE \<Rightarrow> bindE (process_OPEN_ACTIVE (am_info msg) (m, c)) (\<lambda>(m, c). Inr (ev, m, c))
     | TCP_E_OPEN_PASSIVE \<Rightarrow> bindE (process_OPEN_PASSIVE (am_info msg) (m, c)) (\<lambda>(m, c). Inr (ev, m, c))
     | TCP_E_SEND \<Rightarrow> bindE (process_SEND (am_info msg) (am_packet msg) c) (\<lambda>c. Inr (ev, m, c))
     | TCP_E_CLOSE \<Rightarrow> bindE (process_CLOSE ev c) (\<lambda>(ev, c). Inr (ev, m, c))
     | TCP_E_ABORT \<Rightarrow> bindE (process_ABORT c) (\<lambda>c. Inr (ev, m, c))
     | TCP_E_STATUS \<Rightarrow> bindE (process_STATUS c) (\<lambda>c. Inr (ev, m, c))
     | _ \<Rightarrow> Inl (RuntimeError ''wrong event code''))"

definition processAppCommand :: "AppMessage \<Rightarrow> TCP \<times> TCPConnection \<Rightarrow> (bool \<times> TCP \<times> TCPConnection) res" where
  "processAppCommand msg mc =
     bindE (preanalyseAppCommandEvent (am_kind msg)) (\<lambda>ev.
     bindE (appCommand ev msg mc) (\<lambda>(ev, m, c).
     bindE (performStateTransition ev c) (\<lambda>(keep, c). Inr (keep, m, c))))"

section \<open>The message handler\<close>

datatype TCPMessage =
    SelfMessage nat timer_id
  | ICMPError
  | SegmentFromIP TCPSegment IPvXAddress IPvXAddress
  | SegmentWithoutControlInfo TCPSegment
  | FromApp AppMessage

text \<open>
  A connection is taken out of the heap for the event, which happens at time \<open>t\<close>; when the
  event is over it goes back, or is deleted.  The result holds the messages sent.
\<close>

definition checkOut :: "simtime \<Rightarrow> nat \<Rightarrow> TCP \<Rightarrow> TCPConnection res" where
  "checkOut t ptr m = (case heap m ptr of
       None \<Rightarrow> Inl NullPointer
     | Some c \<Rightarrow> Inr (c\<lparr>now := t, outbox := []\<rparr>))"

definition checkIn :: "bool \<Rightarrow> TCP \<times> TCPConnection \<Rightarrow> tcp_out list \<times> TCP" where
  "checkIn keep = (\<lambda>(m, c).
     (outbox c, if keep then m\<lparr>heap := (heap m)(self c \<mapsto> c\<lparr>outbox := []\<rparr>)\<rparr> else removeConnection (m, c)))"

text \<open>
  \<open>DumbTCP\<close> does not set the context pointer of its timer, so the handler casts a null
  pointer for it.
\<close>

definition contextPointerSet :: "TCPConnection \<Rightarrow> timer_id \<Rightarrow> bool" where
  "contextPointerSet c tm \<longleftrightarrow> \<not> (tcpAlgorithm c = DumbTCP \<and> tm = Rexmit)"

definition handleSelfMessage :: "simtime \<Rightarrow> nat \<Rightarrow> timer_id \<Rightarrow> TCP \<Rightarrow> (tcp_out list \<times> TCP) res" where
  "handleSelfMessage t ptr tm m =
     bindE (checkOut t ptr m) (\<lambda>c.
       if \<not> contextPointerSet c tm then Inl NullPointer
       else bindE (processTimer tm (c\<lparr>timers := (timers c)(tm := Idle)\<rparr>)) (\<lambda>(keep, c).
            Inr (checkIn keep (m, c))))"

definition TCP_segmentArrivalWhileClosed ::
    "simtime \<Rightarrow> TCPSegment \<Rightarrow> IPvXAddress \<Rightarrow> IPvXAddress \<Rightarrow> (tcp_out list) res" where
  "TCP_segmentArrivalWhileClosed t seg srcAddr destAddr =
     bindE (segmentArrivalWhileClosed seg srcAddr destAddr (newTCPConnection 0 t 0 0)) (\<lambda>tmp. Inr (outbox tmp))"

definition handleSegment ::
    "simtime \<Rightarrow> TCPSegment \<Rightarrow> IPvXAddress \<Rightarrow> IPvXAddress \<Rightarrow> TCP \<Rightarrow> (tcp_out list \<times> TCP) res" where
  "handleSegment t seg srcAddr destAddr m =
     (case findConnForSegment seg srcAddr destAddr m of
        Some ptr \<Rightarrow>
          bindE (checkOut t ptr m) (\<lambda>c.
          bindE (processTCPSegment seg srcAddr destAddr (m, c)) (\<lambda>(keep, m, c).
          Inr (checkIn keep (m, c))))
      | None \<Rightarrow> bindE (TCP_segmentArrivalWhileClosed t seg srcAddr destAddr) (\<lambda>out. Inr (out, m)))"

definition createConnection :: "simtime \<Rightarrow> int \<Rightarrow> int \<Rightarrow> TCP \<Rightarrow> nat \<times> TCP" where
  "createConnection t gate cid m =
     (nextPtr m, m\<lparr>heap := (heap m)(nextPtr m \<mapsto> newTCPConnection (nextPtr m) t gate cid),
                   nextPtr := nextPtr m + 1\<rparr>)"

definition handleAppMessage :: "simtime \<Rightarrow> AppMessage \<Rightarrow> TCP \<Rightarrow> (tcp_out list \<times> TCP) res" where
  "handleAppMessage t msg m =
     (let (ptr, m) = (case findConnForApp (am_gate msg) (am_connId msg) m of
            Some ptr \<Rightarrow> (ptr, m)
          | None \<Rightarrow> let (ptr, m) = createConnection t (am_gate msg) (am_connId msg) m
                   in (ptr, m\<lparr>tcpAppConnMap := (tcpAppConnMap m)(AppConnKey (am_gate msg) (am_connId msg) \<mapsto> ptr)\<rparr>))
      in bindE (checkOut t ptr m) (\<lambda>c.
         bindE (processAppCommand msg (m, c)) (\<lambda>(keep, m, c).
         Inr (checkIn keep (m, c)))))"

definition handleMessage :: "simtime \<Rightarrow> int \<Rightarrow> TCPMessage \<Rightarrow> TCP \<Rightarrow> (tcp_out list \<times> TCP) res" where
  "handleMessage t uid msg m =
     (let m = m\<lparr>uniqueNumber := uid\<rparr> in case msg of
        SelfMessage ptr tm \<Rightarrow> handleSelfMessage t ptr tm m
      | ICMPError \<Rightarrow> Inr ([], m)
      | SegmentFromIP seg srcAddr destAddr \<Rightarrow> handleSegment t seg srcAddr destAddr m
      | SegmentWithoutControlInfo seg \<Rightarrow> Inl (RuntimeError ''arrived without control info'')
      | FromApp amsg \<Rightarrow> handleAppMessage t amsg m)"

end
