(* ===== verification/TCP_Arrival.thy ===== *)
theory TCP_Arrival
  imports TCP_Module
begin

text \<open>
  Correctness of segment arrival: which segments are dropped, what an acknowledgement does to the
  send side, what a reset does in each state, and the life of a connection as seen from its entry
  points \<open>processTCPSegment\<close>, \<open>processAppCommand\<close> and \<open>processTimer\<close>.
\<close>

section \<open>Acknowledgements inside the window\<close>

lemma ack_in_flight:
  assumes "soff b una \<le> soff b mx" "soff b mx < half" "\<not> seqLE a una" "seqLE a mx"
  shows "soff b una < soff b a" "soff b a \<le> soff b mx"
proof -
  have m: "soff a mx = (if soff b a \<le> soff b mx then soff b mx - soff b a else soff b mx + full - soff b a)"
    unfolding soff_def [of a] by (rule soff_diff)
  have u: "soff a una = (if soff b a \<le> soff b una then soff b una - soff b a else soff b una + full - soff b a)"
    unfolding soff_def [of a] by (rule soff_diff)
  have "soff a mx < half" "half \<le> soff a una" "soff b a < full"
    using assms(3,4) by (simp_all add: seqLE_unat)
  then show "soff b una < soff b a" "soff b a \<le> soff b mx"
    using m u assms(1,2) by (auto split: if_splits)
qed

lemma snd_inv_frame: "hook_frame c c' \<Longrightarrow> snd_max c' = snd_max c \<Longrightarrow> snd_inv c \<Longrightarrow> snd_inv c'"
  using hook_frame_fields [of c c'] by (auto simp: snd_inv_def fin_at_end_def ip_ok_def)

section \<open>The hooks return\<close>

text \<open>The hooks that follow an acknowledgement always return in the sending invariant.\<close>

definition sender_ok :: "TCPConnection \<Rightarrow> bool" where
  "sender_ok c \<longleftrightarrow> snd_inv c \<and> alg_timers_ok c"

lemma sender_ok_frame: "hook_frame c c' \<Longrightarrow> snd_max c' = snd_max c \<Longrightarrow> alg_timers_ok c' \<Longrightarrow> sender_ok c \<Longrightarrow> sender_ok c'"
  using snd_inv_frame by (simp add: sender_ok_def)

lemma sender_ok_cong:
  "sendQueue c' = sendQueue c \<Longrightarrow> snd_una c' = snd_una c \<Longrightarrow> snd_max c' = snd_max c \<Longrightarrow> send_fin c' = send_fin c \<Longrightarrow>
   snd_fin_seq c' = snd_fin_seq c \<Longrightarrow> snd_mss c' = snd_mss c \<Longrightarrow> timers c' = timers c \<Longrightarrow>
   tcpAlgorithm c' = tcpAlgorithm c \<Longrightarrow> localAddr c' = localAddr c \<Longrightarrow> remoteAddr c' = remoteAddr c \<Longrightarrow>
   sender_ok c \<longleftrightarrow> sender_ok c'"
  by (simp add: sender_ok_def snd_inv_def fin_at_end_def ip_ok_def alg_timers_ok_def)

lemma sender_ok_upd [simp]:
  "sender_ok (c\<lparr>snd_cwnd := x\<rparr>) = sender_ok c" "sender_ok (c\<lparr>dupacks := d\<rparr>) = sender_ok c"
  "sender_ok (c\<lparr>rtseq_sendtime := t\<rparr>) = sender_ok c" "sender_ok (c\<lparr>rexmit_count := i\<rparr>) = sender_ok c"
  "sender_ok (c\<lparr>snd_wnd := x\<rparr>) = sender_ok c" "sender_ok (c\<lparr>snd_wl1 := x\<rparr>) = sender_ok c"
  "sender_ok (c\<lparr>snd_wl2 := x\<rparr>) = sender_ok c"
  by (simp_all add: sender_ok_def snd_inv_def fin_at_end_def ip_ok_def alg_timers_ok_def)

lemma sender_ok_timers:
  "sender_ok c \<Longrightarrow> t \<noteq> Deleted \<Longrightarrow> alg_timer tm \<Longrightarrow> sender_ok (c\<lparr>timers := (timers c)(tm := t)\<rparr>)"
  by (auto simp: sender_ok_def snd_inv_def fin_at_end_def ip_ok_def alg_timers_ok_def)

lemma sender_ok_rtt: "sender_ok c \<Longrightarrow> sender_ok (rttMeasurementComplete s t c)"
  by (simp add: rttMeasurementComplete_def Let_def sender_ok_def snd_inv_def fin_at_end_def ip_ok_def
      alg_timers_ok_def)

lemma base_sendData_ok: "sender_ok c \<Longrightarrow> wtE (base_sendData c) (\<lambda>p. sender_ok (snd p))"
  using sendData_all [of c "nagle_enabled c \<and> snd_una c \<noteq> snd_max c" "c_int (uint (snd_cwnd c))"]
  by (auto simp: base_sendData_def sender_ok_def wtE_iff)

lemma dumb_receivedDataAck_ok: "sender_ok c \<Longrightarrow> wtE (dumb_receivedDataAck s c) sender_ok"
  using sendData_all [of c False "- 1"]
  by (auto simp: dumb_receivedDataAck_def sender_ok_def wtE_iff bindE_eq_Inr)

lemma base_receivedDataAck_ok:
  assumes "sender_ok c"
  shows "wtE (base_receivedDataAck s c) (\<lambda>c'. sender_ok c' \<and> snd_cwnd c' = snd_cwnd c)"
proof -
  define d where "d = (if rtseq_sendtime c \<noteq> 0 \<and> seqLess (rtseq c) (snd_una c)
      then (rttMeasurementComplete (rtseq_sendtime c) (now c) c)\<lparr>rtseq_sendtime := 0\<rparr> else c)"
  have d: "sender_ok d" "snd_cwnd d = snd_cwnd c"
    using assms sender_ok_rtt [OF assms] by (simp_all add: d_def rttMeasurementComplete_def Let_def)
  have t: "timers d Rexmit \<noteq> Deleted" using d(1) by (simp add: sender_ok_def alg_timers_ok_def)
  have ok: "sender_ok (d\<lparr>timers := (timers d)(Rexmit := x)\<rparr>)" if "x \<noteq> Deleted" for x
    using sender_ok_timers [OF d(1) that] by simp
  have ok0: "sender_ok (d\<lparr>rexmit_count := 0, timers := (timers d)(Rexmit := Scheduled x)\<rparr>)" for x
    using sender_ok_timers [of "d\<lparr>rexmit_count := 0\<rparr>" "Scheduled x" Rexmit] d(1) by simp
  show ?thesis
    unfolding base_receivedDataAck_def d_def [symmetric] Let_def
    using t d ok ok0
    by (cases "timers d Rexmit")
      (auto simp: cancelEvent_def base_startRexmitTimer_def scheduleTimeout_def)
qed

lemma growWindow_ok:
  assumes "sender_ok c" "snd_cwnd c \<noteq> 0"
  shows "wtE (tahoe_growWindow c) sender_ok" "wtE (reno_growWindow c) sender_ok"
  using assms by (simp_all add: tahoe_growWindow_def reno_growWindow_def Let_def)

lemma alg_receivedDataAck_ok:
  assumes "sender_ok c" "tcpAlgorithm c \<in> {TCPTahoe, TCPReno} \<Longrightarrow> snd_cwnd c \<noteq> 0"
  shows "wtE (alg_receivedDataAck s c) sender_ok"
proof (cases "tcpAlgorithm c = DumbTCP")
  case True
  then show ?thesis
    using dumb_receivedDataAck_ok [OF assms(1)] by (simp add: alg_receivedDataAck_def)
next
  case False
  note base = base_receivedDataAck_ok [OF assms(1), of s]
  have send: "wtE (bindE (base_sendData x) (\<lambda>(sent, c). Inr c)) sender_ok" if "sender_ok x" for x
    using base_sendData_ok [OF that] by (auto simp: wtE_iff bindE_eq_Inr)
  have "wtE (bindE (base_receivedDataAck s c) (\<lambda>c. bindE (g c) (\<lambda>c. bindE (base_sendData c) (\<lambda>(sent, c). Inr c)))) sender_ok"
    if "\<And>x. sender_ok x \<Longrightarrow> snd_cwnd x = snd_cwnd c \<Longrightarrow> wtE (g x) sender_ok" for g
    using base that send unfolding wtE_bindE by (fast elim!: wtE_mono)
  from this [of Inr] this [of tahoe_growWindow] this [of reno_growWindow] show ?thesis
    using False assms(2) growWindow_ok
    by (cases "tcpAlgorithm c")
      (simp_all add: alg_receivedDataAck_def nocc_receivedDataAck_def tahoe_receivedDataAck_def
        reno_receivedDataAck_def)
qed

section \<open>Acknowledged data leaves the buffer\<close>

text \<open>The number up to which the buffer is discarded: the FIN occupies a number but no octet.\<close>

definition fin_acked :: "TCPConnection \<Rightarrow> u32 \<Rightarrow> bool" where
  "fin_acked c a \<longleftrightarrow> send_fin c \<and> a = snd_fin_seq c + 1"

definition discard_at :: "TCPConnection \<Rightarrow> u32 \<Rightarrow> u32" where
  "discard_at c a = (if fin_acked c a then a - 1 else a)"

lemma discard_at_off:
  assumes inv: "snd_inv c" and a: "boff c (snd_una c) < boff c a" "boff c a \<le> boff c (snd_max c)"
  shows "boff c (discard_at c a) = (if fin_acked c a then blen c else boff c a)"
    "boff c (discard_at c a) \<le> blen c" "boff c (discard_at c a) \<le> boff c a"
proof -
  have f: "fin_at_end c" "blen c + 1 < half" using inv by (auto simp: snd_inv_def)
  have e1: "boff c (bend c + 1) = blen c + 1"
    using soff_of_nat [of "sq_qbegin (sendQueue c)" "bend c" 1] f(2) by simp
  have fa: "a = bend c + 1" if "fin_acked c a" using that f(1) by (simp add: fin_acked_def fin_at_end_def)
  have nf: "boff c a \<le> blen c" if "\<not> fin_acked c a"
  proof (rule ccontr)
    assume "\<not> boff c a \<le> blen c"
    then have "send_fin c" "snd_max c = bend c + 1" "boff c a = blen c + 1"
      using inv a(2) e1 by (auto simp: snd_inv_def split: if_splits)
    then have "a = bend c + 1" using e1 by (metis soff_inject)
    then show False
      using that f(1) \<open>send_fin c\<close> by (simp add: fin_acked_def fin_at_end_def)
  qed
  show d: "boff c (discard_at c a) = (if fin_acked c a then blen c else boff c a)"
    using fa by (auto simp: discard_at_def)
  show "boff c (discard_at c a) \<le> blen c" "boff c (discard_at c a) \<le> boff c a"
    unfolding d using nf fa e1 by auto
qed

lemma discard_ok:
  assumes inv: "snd_inv c" and a: "boff c (snd_una c) < boff c a" "boff c a \<le> boff c (snd_max c)"
  obtains q where "sq_discardUpTo (discard_at c a) (sendQueue c) = Inr q" "sq_qbegin q = discard_at c a"
    "sq_getBufferEndSeq q = bend c" "sq_invar q" "snd_inv (c\<lparr>snd_una := a, sendQueue := q\<rparr>)"
proof -
  let ?d = "discard_at c a" and ?b = "sq_qbegin (sendQueue c)"
  note d = discard_at_off [OF inv a]
  have q: "sq_invar (sendQueue c)" "blen c + 1 < half" using inv by (auto simp: snd_inv_def)
  have "seqLE ?b ?d" "seqLE ?d (bend c)"
    using d(2) q(2) by (simp_all add: seqLE_off [OF nearI, of ?b ?b ?d] seqLE_off [OF nearI, of ?b ?d "bend c"])
  then obtain r where r: "sq_discardUpTo ?d (sendQueue c) = Inr r" "sq_qbegin r = ?d"
    "sq_getBufferEndSeq r = bend c" "sq_invar r"
    using sq.discard_ok [OF q(1)] by blast
  have sh: "soff ?d x = boff c x - boff c ?d" if "boff c ?d \<le> boff c x" for x
    by (rule soff_shift [OF that])
  have le: "boff c ?d \<le> boff c (snd_max c)" using d(3) a(2) by linarith
  have "snd_inv (c\<lparr>snd_una := a, sendQueue := r\<rparr>)"
    using inv a r(2-4) sh [OF d(3)] sh [OF le] sh [OF d(2)] d(2) le
    by (auto simp: snd_inv_def fin_at_end_def ip_ok_def split: if_splits)
  then show thesis using r by (intro that)
qed

text \<open>The state in which the algorithm is told of the acknowledgement.\<close>

definition acked :: "TCPSegment \<Rightarrow> TCPSendQueue \<Rightarrow> TCPConnection \<Rightarrow> TCPConnection" where
  "acked seg q c = ackWindowUpdate seg (c\<lparr>snd_una := ackNo seg,
     snd_nxt := (if seqLess (snd_nxt c) (ackNo seg) then ackNo seg else snd_nxt c),
     fin_ack_rcvd := (fin_ack_rcvd c \<or> fin_acked c (ackNo seg)), sendQueue := q\<rparr>)"

lemma acked_fields:
  "snd_una (acked seg q c) = ackNo seg" "sendQueue (acked seg q c) = q"
  "fin_ack_rcvd (acked seg q c) = (fin_ack_rcvd c \<or> fin_acked c (ackNo seg))"
  "fsm (acked seg q c) = fsm c" "rcv_nxt (acked seg q c) = rcv_nxt c" "snd_cwnd (acked seg q c) = snd_cwnd c"
  "tcpAlgorithm (acked seg q c) = tcpAlgorithm c" "receiveQueue (acked seg q c) = receiveQueue c"
  by (simp_all add: acked_def ackWindowUpdate_def)

lemma sender_ok_acked: "sender_ok (c\<lparr>snd_una := ackNo seg, sendQueue := q\<rparr>) \<Longrightarrow> sender_ok (acked seg q c)"
  by (erule sender_ok_cong [THEN iffD1, rotated -1]) (simp_all add: acked_def ackWindowUpdate_def)

lemma ackNewData_eq:
  assumes "sq_discardUpTo (discard_at c (ackNo seg)) (sendQueue c) = Inr q"
  shows "ackNewData seg c = bindE (alg_receivedDataAck (snd_una c) (acked seg q c)) (\<lambda>c. Inr (True, c\<lparr>dupacks := 0\<rparr>))"
  using assms
  by (cases "seqLess (snd_nxt c) (ackNo seg)"; cases "send_fin c"; cases "ackNo seg = snd_fin_seq c + 1")
    (simp_all add: ackNewData_def Let_def discardUpTo_def acked_def discard_at_def fin_acked_def)

text \<open>The acknowledgement as a whole.\<close>

lemma processAck_new:
  assumes ok: "sender_ok c" and cw: "tcpAlgorithm c \<in> {TCPTahoe, TCPReno} \<Longrightarrow> snd_cwnd c \<noteq> 0"
    and a: "\<not> seqGE (snd_una c) (ackNo seg)" "seqLE (ackNo seg) (snd_max c)"
  obtains q c' where "processAckInEstabEtc seg c = Inr (True, c'\<lparr>dupacks := 0\<rparr>)" "hook_frame (acked seg q c) c'"
    "sender_ok c'" "sq_qbegin q = discard_at c (ackNo seg)" "sq_getBufferEndSeq q = bend c"
proof -
  have inv: "snd_inv c" "alg_timers_ok c" using ok by (simp_all add: sender_ok_def)
  have h: "boff c (snd_una c) \<le> boff c (snd_max c)" "boff c (snd_max c) < half"
    using inv(1) soff_of_nat [of "sq_qbegin (sendQueue c)" "bend c" 1]
    by (auto simp: snd_inv_def split: if_splits)
  have o: "boff c (snd_una c) < boff c (ackNo seg)" "boff c (ackNo seg) \<le> boff c (snd_max c)"
    using ack_in_flight [OF h] a by (simp_all add: seqGE_LE)
  obtain q where q: "sq_discardUpTo (discard_at c (ackNo seg)) (sendQueue c) = Inr q"
    "sq_qbegin q = discard_at c (ackNo seg)" "sq_getBufferEndSeq q = bend c"
    "snd_inv (c\<lparr>snd_una := ackNo seg, sendQueue := q\<rparr>)"
    using discard_ok [OF inv(1) o] by blast
  have "sender_ok (acked seg q c)"
    using q(4) inv(2) by (intro sender_ok_acked) (simp add: sender_ok_def alg_timers_ok_def)
  then have "wtE (alg_receivedDataAck (snd_una c) (acked seg q c)) sender_ok"
    using cw by (intro alg_receivedDataAck_ok) (simp_all add: acked_fields)
  then obtain c' where c': "alg_receivedDataAck (snd_una c) (acked seg q c) = Inr c'" "sender_ok c'"
    by (auto simp: wtE_iff)
  moreover have "hook_frame (acked seg q c) c'"
    using wpED [OF alg.dataAck_frame [OF hook_frame_refl] c'(1)] .
  moreover have "processAckInEstabEtc seg c = Inr (True, c'\<lparr>dupacks := 0\<rparr>)"
    using a c'(1) by (simp add: processAckInEstabEtc_def ackNewData_eq [OF q(1)])
  ultimately show thesis using q by (intro that)
qed

text \<open>
  Property C3: an acknowledgement of data in flight is always processed.  In every state that
  meets the invariant of the sender and for every flavour, a segment whose acknowledgement lies
  after \<open>snd_una\<close> and not after \<open>snd_max\<close> moves \<open>snd_una\<close> there, drops exactly the
  acknowledged octets from the send buffer (the FIN takes a number but no octet), records when the
  FIN is acknowledged, resets the duplicate counter, and keeps the invariant; the
  receive side and the state of the connection are not touched.
\<close>

theorem new_ack_processed:
  assumes "snd_inv c" "alg_timers_ok c" "tcpAlgorithm c \<in> {TCPTahoe, TCPReno} \<longrightarrow> snd_cwnd c \<noteq> 0"
    and "\<not> seqGE (snd_una c) (ackNo seg)" "seqLE (ackNo seg) (snd_max c)"
  shows "\<exists>c'. processAckInEstabEtc seg c = Inr (True, c') \<and> snd_una c' = ackNo seg \<and> dupacks c' = 0 \<and>
    sq_qbegin (sendQueue c') = (if send_fin c \<and> ackNo seg = snd_fin_seq c + 1 then ackNo seg - 1 else ackNo seg) \<and>
    bend c' = bend c \<and>
    (fin_ack_rcvd c' \<longleftrightarrow> fin_ack_rcvd c \<or> send_fin c \<and> ackNo seg = snd_fin_seq c + 1) \<and>
    snd_inv c' \<and> alg_timers_ok c' \<and> fsm c' = fsm c \<and> rcv_nxt c' = rcv_nxt c \<and> receiveQueue c' = receiveQueue c"
proof -
  have ok: "sender_ok c" using assms by (simp add: sender_ok_def)
  obtain q c' where c: "processAckInEstabEtc seg c = Inr (True, c'\<lparr>dupacks := 0\<rparr>)" "hook_frame (acked seg q c) c'"
    "sender_ok c'" "sq_qbegin q = discard_at c (ackNo seg)" "sq_getBufferEndSeq q = bend c"
    by (rule processAck_new [OF ok _ assms(4,5)]) (use assms(3) in blast)+
  have "sender_ok (c'\<lparr>dupacks := 0\<rparr>)" using c(3) by simp
  then show ?thesis
    using c hook_frame_fields [OF c(2)]
    by (intro exI [of _ "c'\<lparr>dupacks := 0\<rparr>"]) (simp add: acked_fields sender_ok_def discard_at_def fin_acked_def)
qed

text \<open>Two segments of the example in flight, the first one acknowledged.\<close>

theorem new_ack_processed_witness:
  "\<exists>c'. processAckInEstabEtc (createTCPSegment\<lparr>ackBit := True, ackNo := 1101\<rparr>) demo_dup = Inr (True, c') \<and>
     snd_una c' = 1101 \<and> sq_qbegin (sendQueue c') = 1101"
proof -
  have "snd_inv demo_dup" "alg_timers_ok demo_dup" "snd_cwnd demo_dup \<noteq> 0" "snd_una demo_dup = 101"
    "snd_max demo_dup = 2101" "\<not> send_fin demo_dup"
    by (simp_all add: demo_dup_def demo_simps)
  then show ?thesis
    using new_ack_processed [of demo_dup "createTCPSegment\<lparr>ackBit := True, ackNo := 1101\<rparr>"]
    by (auto simp: seq_defs)
qed

section \<open>Segments that are not acceptable\<close>

text \<open>A segment for the socket pair of the connection, as the assertions of \<open>processTCPSegment\<close> want it.\<close>

definition addressed :: "TCPSegment \<Rightarrow> IPvXAddress \<Rightarrow> IPvXAddress \<Rightarrow> TCPConnection \<Rightarrow> bool" where
  "addressed seg src dest c \<longleftrightarrow>
     (isUnspecified (localAddr c) \<or> addr_equals (localAddr c) dest \<and> localPort c = destPort seg) \<and>
     (isUnspecified (remoteAddr c) \<or> addr_equals (remoteAddr c) src \<and> remotePort c = srcPort seg)"

definition past_syn :: "TcpState \<Rightarrow> bool" where
  "past_syn s \<longleftrightarrow> s \<notin> {TCP_S_INIT, TCP_S_CLOSED, TCP_S_LISTEN, TCP_S_SYN_SENT}"

lemma processTCPSegment_past_syn:
  assumes "addressed seg src dest c" "past_syn (fsm c)"
  shows "processTCPSegment seg src dest (m, c) =
    bindE (processSegment1stThru8th seg c) (\<lambda>(ev, c). bindE (performStateTransition ev c) (\<lambda>(keep, c). Inr (keep, m, c)))"
  using assms
  by (auto simp: processTCPSegment_def addressed_def past_syn_def process_RCV_SEGMENT_def tryFastRoute_def
      bindE_assoc split_def)

definition pure_ack :: "TCPConnection \<Rightarrow> TCPSegment" where
  "pure_ack c = createTCPSegment\<lparr>ackBit := True, sequenceNo := snd_nxt c, ackNo := rcv_nxt c,
     seg_window := ucast (rcv_wnd c)\<rparr>"

lemma sendAck_eq:
  assumes "ip_ok c" "alg_timers_ok c"
  shows "sendAck c = Inr (c\<lparr>outbox := outbox c @ [ip_out c (pure_ack c)], timers := ack_timers c\<rparr>)"
proof -
  have "alg_timers_ok (emit m c)" for m using assms(2) by (simp add: alg_timers_ok_def emit_def)
  moreover have "ack_timers (emit m c) = ack_timers c" for m by (simp add: ack_timers_def emit_def)
  ultimately show ?thesis
    using assms by (simp add: sendAck_def sendToIP_ok ackSent_eq pure_ack_def) (simp add: emit_def)
qed

text \<open>
  Property C28: a segment outside the receive window changes nothing.  Once the SYN of the
  peer has been seen, a segment that is not acceptable is answered with one pure
  acknowledgement of what has been received so far, or dropped when it is a reset; no field of
  the connection changes except that a pending delayed acknowledgement is cancelled.
\<close>

theorem unacceptable_dropped:
  assumes "addressed seg src dest c" "past_syn (fsm c)" "\<not> isSegmentAcceptable seg c" "ip_ok c" "alg_timers_ok c"
  shows "processTCPSegment seg src dest (m, c) = Inr (True, m,
    if rstBit seg then c else c\<lparr>outbox := outbox c @ [ip_out c (pure_ack c)], timers := ack_timers c\<rparr>)"
  using assms(2,3)
  by (simp add: processTCPSegment_past_syn [OF assms(1,2)] processSegment1stThru8th_def step1_sequence_def
      sendAck_eq [OF assms(4,5)] past_syn_def performStateTransition_def)

theorem unacceptable_dropped_witness:
  "processTCPSegment (createTCPSegment\<lparr>srcPort := 80, destPort := 1025, sequenceNo := 400, ackBit := True\<rparr>)
     (IPv4 0x0a000002) (IPv4 0x0a000001) (demo_module, demo_conn) =
   Inr (True, demo_module, demo_conn\<lparr>outbox := [ip_out demo_conn (pure_ack demo_conn)],
     timers := ack_timers demo_conn\<rparr>)"
proof -
  let ?g = "createTCPSegment\<lparr>srcPort := 80, destPort := 1025, sequenceNo := 400, ackBit := True\<rparr>"
  have "addressed ?g (IPv4 0x0a000002) (IPv4 0x0a000001) demo_conn" "past_syn (fsm demo_conn)"
    "\<not> isSegmentAcceptable ?g demo_conn" "ip_ok demo_conn" "alg_timers_ok demo_conn" "outbox demo_conn = []"
    by (simp_all add: addressed_def past_syn_def isSegmentAcceptable_def createTCPSegment_def seq_defs demo_simps)
  then show ?thesis
    using unacceptable_dropped [of ?g "IPv4 0x0a000002" "IPv4 0x0a000001" demo_conn demo_module]
    by (simp add: createTCPSegment_def)
qed

section \<open>Resets\<close>

text \<open>What the application is told, and where the connection goes.\<close>

definition reset_indications :: "TCPConnection \<Rightarrow> tcp_out list" where
  "reset_indications c = map (ToAppIndication (appGateIndex c) (connId c))
     (case fsm c of
        TCP_S_SYN_RCVD \<Rightarrow> if active c then [TCP_I_CONNECTION_REFUSED] else []
      | TCP_S_TIME_WAIT \<Rightarrow> []
      | TCP_S_CLOSING \<Rightarrow> [TCP_I_CLOSED]
      | TCP_S_LAST_ACK \<Rightarrow> [TCP_I_CLOSED]
      | _ \<Rightarrow> [TCP_I_CONNECTION_RESET])"

definition back_to_listening :: "TCPConnection \<Rightarrow> bool" where
  "back_to_listening c \<longleftrightarrow> fsm c = TCP_S_SYN_RCVD \<and> \<not> active c"

lemma discard_all: "sq_invar q \<Longrightarrow> \<exists>q'. sq_discardUpTo (sq_getBufferEndSeq q) q = Inr q'"
  using sq.discard_ok [of q "sq_getBufferEndSeq q"] sq.invar_len [of q] by (auto simp: seqLE_unat)

lemma reset_steps:
  assumes "past_syn (fsm c)" "isSegmentAcceptable seg c" "rstBit seg" "sq_invar (sendQueue c)"
  shows "\<exists>q. processSegment1stThru8th seg c =
    Inr (TCP_E_RCV_RST, c\<lparr>sendQueue := q, outbox := outbox c @ reset_indications c\<rparr>)"
proof (cases "fsm c = TCP_S_SYN_RCVD")
  case True
  obtain q where "sq_discardUpTo (bend c) (sendQueue c) = Inr q" using discard_all [OF assms(4)] by blast
  then show ?thesis
    using assms True
    by (intro exI [of _ q]) (simp add: processSegment1stThru8th_def step1_sequence_def step2_rst_def
        processRstInSynReceived_def retE_def discardUpTo_def sendIndicationToApp_def emit_def reset_indications_def)
next
  case False
  then show ?thesis
    using assms
    by (intro exI [of _ "sendQueue c"], cases "fsm c")
      (simp_all add: processSegment1stThru8th_def step1_sequence_def step2_rst_def past_syn_def
        sendIndicationToApp_def emit_def reset_indications_def)
qed

text \<open>
  Property C29: an acceptable reset always ends the connection.  The application gets the indication of
  its state (refused, reset, closed, or none), the connection is closed with no timer left
  and the caller is told to delete it; only a passive connection in \<open>SYN_RCVD\<close> goes back to
  \<open>LISTEN\<close> and is kept.
\<close>

theorem reset_ends_connection:
  assumes "addressed seg src dest c" "past_syn (fsm c)" "isSegmentAcceptable seg c" "rstBit seg"
    and "timers_wf c" "sq_invar (sendQueue c)"
  shows "\<exists>c'. processTCPSegment seg src dest (m, c) = Inr (back_to_listening c, m, c') \<and>
    fsm c' = (if back_to_listening c then TCP_S_LISTEN else TCP_S_CLOSED) \<and>
    outbox c' = outbox c @ reset_indications c \<and>
    (\<not> back_to_listening c \<longrightarrow> (\<forall>tm. \<not> is_scheduled tm c'))"
proof -
  obtain q where q: "processSegment1stThru8th seg c =
      Inr (TCP_E_RCV_RST, c\<lparr>sendQueue := q, outbox := outbox c @ reset_indications c\<rparr>)"
    using reset_steps [OF assms(2,3,4,6)] by blast
  let ?c = "c\<lparr>sendQueue := q, outbox := outbox c @ reset_indications c\<rparr>"
  let ?s = "if back_to_listening c then TCP_S_LISTEN else TCP_S_CLOSED"
  have n: "fsmNext (active ?c) (fsm ?c) TCP_E_RCV_RST = ?s"
    using assms(2) by (cases "fsm c") (simp_all add: fsmNext_def past_syn_def back_to_listening_def)
  have "?s \<noteq> fsm ?c" "fsm ?c \<noteq> TCP_S_CLOSED" using assms(2) by (auto simp: past_syn_def)
  moreover have "timers_wf ?c" using assms(5) by (simp add: timers_wf_def alg_timers_ok_def)
  ultimately have "performStateTransition TCP_E_RCV_RST ?c =
      Inr (?s \<noteq> TCP_S_CLOSED, ?c\<lparr>fsm := ?s, timers := entered_timers ?s (timers ?c)\<rparr>)"
    using performStateTransition_eq [of ?c TCP_E_RCV_RST] n by (simp only: Let_def) simp
  then show ?thesis
    by (simp add: processTCPSegment_past_syn [OF assms(1,2)] q entered_timers_def)
qed

theorem reset_ends_connection_witness:
  "\<exists>c'. processTCPSegment (createTCPSegment\<lparr>srcPort := 80, destPort := 1025, sequenceNo := 501, rstBit := True\<rparr>)
     (IPv4 0x0a000002) (IPv4 0x0a000001) (demo_module, demo_conn) = Inr (False, demo_module, c') \<and>
   outbox c' = [ToAppIndication 0 7 TCP_I_CONNECTION_RESET]"
proof -
  let ?g = "createTCPSegment\<lparr>srcPort := 80, destPort := 1025, sequenceNo := 501, rstBit := True\<rparr>"
  have "addressed ?g (IPv4 0x0a000002) (IPv4 0x0a000001) demo_conn" "past_syn (fsm demo_conn)"
    "isSegmentAcceptable ?g demo_conn" "timers_wf demo_conn" "sq_invar (sendQueue demo_conn)"
    "\<not> back_to_listening demo_conn" "reset_indications demo_conn = [ToAppIndication 0 7 TCP_I_CONNECTION_RESET]"
    "outbox demo_conn = []" "rstBit ?g"
    by (simp_all add: addressed_def past_syn_def isSegmentAcceptable_def createTCPSegment_def seq_defs seg_end_def
        timers_wf_def back_to_listening_def reset_indications_def demo_simps)
  then show ?thesis
    using reset_ends_connection [of ?g "IPv4 0x0a000002" "IPv4 0x0a000001" demo_conn demo_module] by auto
qed

section \<open>A FIN above a gap\<close>

lemma fin_above_gap_steps:
  assumes "fsm c = TCP_S_ESTABLISHED" "isSegmentAcceptable seg c" "finBit seg" "ackBit seg" "\<not> rstBit seg" "\<not> synBit seg"
    and "payloadLength seg = 0" "rcv_nxt c \<noteq> sequenceNo seg" "ackNo seg = snd_una c" "snd_una c = snd_max c" "\<not> send_fin c"
  shows "processSegment1stThru8th seg c =
    Inr (TCP_E_RCV_FIN, c\<lparr>dupacks := 0, fin_rcvd := True, rcv_fin_seq := sequenceNo seg\<rparr>)"
  using assms
  by (simp add: processSegment1stThru8th_def step1_sequence_def step2_rst_def step4_syn_def step5_ack_synRcvd_def
      step5_ack_states_def processAckInEstabEtc_def ackDuplicate_def step7_text_def step8_fin_def seg_end_def
      finishSegment_def deferredClose_def seqGE_LE)

text \<open>The receive side of a connection, in a state in which the seventh step takes no text.\<close>

definition rcv_side :: "TCPConnection \<Rightarrow> u32 \<times> TCPReceiveQueue \<times> TcpState" where
  "rcv_side c = (rcv_nxt c, receiveQueue c, fsm c)"

definition rcv_is :: "u32 \<times> TCPReceiveQueue \<times> TcpState \<Rightarrow> TCPConnection \<Rightarrow> bool" where
  "rcv_is v c \<longleftrightarrow> rcv_side c = v \<and> fsm c \<in> {TCP_S_CLOSE_WAIT, TCP_S_LAST_ACK}"

lemma rcv_is_frame: "hook_frame c c' \<Longrightarrow> rcv_is v c \<Longrightarrow> rcv_is v c'"
  using hook_frame_fields [of c c'] by (simp add: rcv_is_def rcv_side_def)

lemma rcv_is_hook: "(\<And>a. hook_frame a c \<Longrightarrow> wpE m (hook_frame a)) \<Longrightarrow> rcv_is v c \<Longrightarrow> wpE m (rcv_is v)"
  using rcv_is_frame by (meson hook_frame_refl wpE_mono)

lemma rcv_is_upd [simp]:
  "rcv_is v (c\<lparr>dupacks := d\<rparr>) = rcv_is v c" "rcv_is v (c\<lparr>snd_una := x\<rparr>) = rcv_is v c"
  "rcv_is v (c\<lparr>snd_nxt := x\<rparr>) = rcv_is v c" "rcv_is v (c\<lparr>fin_ack_rcvd := b\<rparr>) = rcv_is v c"
  "rcv_is v (c\<lparr>sendQueue := q\<rparr>) = rcv_is v c" "rcv_is v (ackWindowUpdate seg c) = rcv_is v c"
  "rcv_is v (emit m c) = rcv_is v c"
  by (simp_all add: rcv_is_def rcv_side_def ackWindowUpdate_def emit_def)

lemma discardUpTo_rcv: "rcv_is v c \<Longrightarrow> wpE (discardUpTo s c) (rcv_is v)"
  by (cases "sq_discardUpTo s (sendQueue c)") (simp_all add: discardUpTo_def)

lemma ack_rcv:
  assumes "rcv_is v c"
  shows "wpE (processAckInEstabEtc seg c) (\<lambda>p. rcv_is v (snd p))"
proof -
  have hook: "wpE (alg_receivedDuplicateAck x) (rcv_is v)" "wpE (alg_receivedDataAck s x) (rcv_is v)"
    "wpE (alg_receivedAckForDataNotYetSent s x) (rcv_is v)" if "rcv_is v x" for s x
    by (rule rcv_is_hook [OF _ that], erule alg.hook_frames)+
  have dup: "wpE (ackDuplicate seg c) (\<lambda>p. rcv_is v (snd p))"
    using hook(1) [of "c\<lparr>dupacks := c_short (dupacks c + 1)\<rparr>"] assms
    by (simp add: ackDuplicate_def wpE_bindE)
  have "wpE (ackNewData seg c) (\<lambda>p. rcv_is v (snd p))"
    unfolding ackNewData_def Let_def wpE_bindE
    by (rule wpE_mono [OF discardUpTo_rcv [where v = v]]) (use assms hook(2) in \<open>simp_all add: wpE_bindE\<close>)
  then show ?thesis
    using dup hook(3) [OF assms]
    by (simp add: processAckInEstabEtc_def wpE_bindE)
qed

lemma close_wait_no_text:
  assumes "fsm c \<in> {TCP_S_CLOSE_WAIT, TCP_S_LAST_ACK}" "\<not> finBit seg"
  shows "wpE (processSegment1stThru8th seg c) (\<lambda>p. rcv_side (snd p) = rcv_side c)"
proof -
  let ?v = "rcv_side c"
  let ?Q = "\<lambda>p :: TCPEventCode \<times> TCPConnection. rcv_is ?v (snd p)"
  have r: "rcv_is ?v c" using assms(1) by (simp add: rcv_is_def)
  have hooks: "wpE (sendAck x) (rcv_is ?v)" "wpE (alg_receiveSeqChanged x) (rcv_is ?v)" if "rcv_is ?v x" for x
    by (rule rcv_is_hook [OF _ that], erule frame_intros alg.hook_frames)+
  have st: "fsm x = fsm c" "rcv_nxt x = rcv_nxt c" if "rcv_is ?v x" for x
    using that by (simp_all add: rcv_is_def rcv_side_def)
  have fin: "wpE (finishSegment a (rcv_nxt c) ev x) ?Q" if "rcv_is ?v x" for a ev x
    using hooks(2) [OF that] st [OF that] that assms(1) by (auto simp: finishSegment_def wpE_bindE)
  have last: "wpE (bindE (step7_text seg x) (\<lambda>y. bindE (step8_fin seg ev y) (\<lambda>(ev, z).
      finishSegment a (rcv_nxt x) ev z))) ?Q" if "rcv_is ?v x" for a ev x
    using fin [OF that] st [OF that] assms by (auto simp: step7_text_def step8_fin_def)
  have "wpE (step5_ack_states seg ev c) (\<lambda>fl. case fl of Ret e x \<Rightarrow> rcv_is ?v x | Cont e x \<Rightarrow> rcv_is ?v x)" for ev
  proof (cases "fsm c = TCP_S_CLOSE_WAIT")
    case True
    then show ?thesis using ack_rcv [OF r, of seg] st by (auto simp: step5_ack_states_def wpE_bindE Let_def elim!: wpE_mono)
  next
    case False
    then have "fsm c = TCP_S_LAST_ACK" using assms(1) by simp
    then show ?thesis using r by (simp add: step5_ack_states_def wpE_bindE Let_def sendIndicationToApp_def)
  qed
  then have "wpE (thenE (step5_ack_states seg ev c) (\<lambda>ev x. bindE (step7_text seg x) (\<lambda>y.
      bindE (step8_fin seg ev y) (\<lambda>(ev, z). finishSegment (snd_nxt c) (rcv_nxt x) ev z)))) ?Q" for ev
    unfolding thenE_def wpE_bindE [of "step5_ack_states seg ev c"]
    by (rule wpE_mono) (use last in \<open>auto split: flow.split\<close>)
  then have "wpE (processSegment1stThru8th seg c) ?Q"
    using r hooks(1) [OF r] assms
    by (auto simp: processSegment1stThru8th_def step1_sequence_def step2_rst_def step4_syn_def step5_ack_synRcvd_def
        sendIndicationToApp_def whenE_def thenE_def wpE_bindE Let_def)
  then show ?thesis by (rule wpE_mono) (simp add: rcv_is_def)
qed

text \<open>Segments that arrive for a connection one after the other, until it is deleted.\<close>

fun arrivals :: "(TCPSegment \<times> IPvXAddress \<times> IPvXAddress) list \<Rightarrow> TCP \<times> TCPConnection \<Rightarrow> (TCP \<times> TCPConnection) res" where
  "arrivals [] p = Inr p"
| "arrivals ((seg, src, dest) # segs) p =
     bindE (processTCPSegment seg src dest p) (\<lambda>(keep, m, c). if keep then arrivals segs (m, c) else Inr (m, c))"

lemma stateEntered_rcv: "wpE (stateEntered s c) (\<lambda>c'. rcv_side c' = rcv_side c)"
  by (cases s)
    (auto simp: stateEntered_def wpE_def bindE_def assertE_def cancelIfSet_def cancelEvent_def deleteTimer_def rcv_side_def
       alg_connectionClosed_def dumb_connectionClosed_def base_connectionClosed_def whenE_def split: timer.splits sum.splits if_splits)

lemma close_wait_transition:
  assumes "fsm c \<in> {TCP_S_CLOSE_WAIT, TCP_S_LAST_ACK}"
  shows "wpE (performStateTransition ev c) (\<lambda>(keep, c'). rcv_nxt c' = rcv_nxt c \<and> receiveQueue c' = receiveQueue c \<and>
    (keep \<longrightarrow> fsm c' \<in> {TCP_S_CLOSE_WAIT, TCP_S_LAST_ACK}))"
proof -
  let ?s = "fsmNext (active c) (fsm c) ev"
  have n: "?s \<in> {TCP_S_CLOSE_WAIT, TCP_S_LAST_ACK, TCP_S_CLOSED}"
    using assms by (cases ev) (auto simp: fsmNext_def)
  have "wpE (stateEntered ?s (c\<lparr>fsm := ?s\<rparr>)) (\<lambda>c'. rcv_nxt c' = rcv_nxt c \<and> receiveQueue c' = receiveQueue c \<and> fsm c' = ?s)"
    by (rule wpE_mono [OF stateEntered_rcv]) (simp add: rcv_side_def)
  then show ?thesis
    using n assms by (auto simp: performStateTransition_def Let_def whenE_def wpE_bindE elim!: wpE_mono)
qed

lemma close_wait_arrival:
  assumes "fsm c \<in> {TCP_S_CLOSE_WAIT, TCP_S_LAST_ACK}" "\<not> finBit seg"
  shows "wpE (processTCPSegment seg src dest (m, c)) (\<lambda>(keep, m', c'). rcv_nxt c' = rcv_nxt c \<and> receiveQueue c' = receiveQueue c \<and>
    (keep \<longrightarrow> fsm c' \<in> {TCP_S_CLOSE_WAIT, TCP_S_LAST_ACK}))"
proof -
  let ?Q = "\<lambda>(keep, m' :: TCP, c'). rcv_nxt c' = rcv_nxt c \<and> receiveQueue c' = receiveQueue c \<and>
    (keep \<longrightarrow> fsm c' \<in> {TCP_S_CLOSE_WAIT, TCP_S_LAST_ACK})"
  have t: "wpE (bindE (performStateTransition ev x) (\<lambda>(keep, c). Inr (keep, m, c))) ?Q" if "rcv_side x = rcv_side c" for ev x
    using close_wait_transition [of x ev] that assms(1)
    by (auto simp: wpE_bindE rcv_side_def case_prod_unfold elim!: wpE_mono)
  have "wpE (processSegment1stThru8th seg c) (\<lambda>p. wpE (bindE (performStateTransition (fst p) (snd p)) (\<lambda>(keep, c). Inr (keep, m, c))) ?Q)"
    by (rule wpE_mono [OF close_wait_no_text [OF assms]]) (rule t)
  then show ?thesis
    using assms(1) by (auto simp: processTCPSegment_def process_RCV_SEGMENT_def tryFastRoute_def wpE_bindE case_prod_unfold)
qed

lemma close_wait_arrivals:
  assumes "fsm c \<in> {TCP_S_CLOSE_WAIT, TCP_S_LAST_ACK}" "\<forall>(seg, src, dest) \<in> set segs. \<not> finBit seg"
  shows "wpE (arrivals segs (m, c)) (\<lambda>(m', c'). rcv_nxt c' = rcv_nxt c \<and> receiveQueue c' = receiveQueue c)"
  using assms
proof (induction segs arbitrary: m c)
  case (Cons x segs)
  obtain seg src dest where x: "x = (seg, src, dest)" by (cases x)
  have "wpE (if keep then arrivals segs (m', c') else Inr (m', c')) (\<lambda>(m', d). rcv_nxt d = rcv_nxt c \<and> receiveQueue d = receiveQueue c)"
    if "rcv_nxt c' = rcv_nxt c" "receiveQueue c' = receiveQueue c" "keep \<longrightarrow> fsm c' \<in> {TCP_S_CLOSE_WAIT, TCP_S_LAST_ACK}" for keep m' c'
    using Cons.IH [of c' m'] Cons.prems(2) that by (auto elim!: wpE_mono)
  then show ?case
    using close_wait_arrival [OF Cons.prems(1), of seg src dest m] Cons.prems(2)
    by (auto simp: x wpE_bindE elim!: wpE_mono)
qed simp

text \<open>
  Property C30: a FIN without data that arrives above a gap loses the data of the gap.  In \<open>ESTABLISHED\<close>, when everything sent has
  been acknowledged and the FIN acknowledges nothing new, a FIN whose number is not the next one expected moves the connection to
  \<open>CLOSE_WAIT\<close> at once, without an acknowledgement and without telling the application.  However many segments without FIN
  arrive then, whatever they carry, none of their data is taken into the receive queue and \<open>rcv_nxt\<close> stays where it is.
\<close>

theorem fin_above_gap_loses_data:
  assumes "addressed seg src dest c" "fsm c = TCP_S_ESTABLISHED" "timers_wf c" "isSegmentAcceptable seg c"
    and "finBit seg" "ackBit seg" "\<not> rstBit seg" "\<not> synBit seg"
    and "payloadLength seg = 0" "rcv_nxt c \<noteq> sequenceNo seg" "ackNo seg = snd_una c" "snd_una c = snd_max c" "\<not> send_fin c"
    and "\<forall>(seg', src', dest') \<in> set segs. \<not> finBit seg'"
  shows "\<exists>c'. processTCPSegment seg src dest (m, c) = Inr (True, m, c') \<and> fsm c' = TCP_S_CLOSE_WAIT \<and>
    outbox c' = outbox c \<and> rcv_nxt c' = rcv_nxt c \<and> receiveQueue c' = receiveQueue c \<and>
    wpE (arrivals segs (m, c')) (\<lambda>(m', d). rcv_nxt d = rcv_nxt c \<and> receiveQueue d = receiveQueue c)"
proof -
  let ?c = "c\<lparr>dupacks := 0, fin_rcvd := True, rcv_fin_seq := sequenceNo seg\<rparr>"
  let ?d = "?c\<lparr>fsm := TCP_S_CLOSE_WAIT, timers := entered_timers TCP_S_CLOSE_WAIT (timers c)\<rparr>"
  have "timers_wf ?c" using assms(3) by (simp add: timers_wf_def alg_timers_ok_def)
  then have "performStateTransition TCP_E_RCV_FIN ?c = Inr (True, ?d)"
    using assms(2) by (subst performStateTransition_eq) (simp_all add: fsmNext_def Let_def)
  then have "processTCPSegment seg src dest (m, c) = Inr (True, m, ?d)"
    using assms by (simp add: processTCPSegment_past_syn past_syn_def fin_above_gap_steps)
  then show ?thesis
    using close_wait_arrivals [of ?d segs m] assms(14) by (intro exI [of _ ?d]) simp
qed

theorem fin_above_gap_loses_data_witness:
  "\<exists>c'. processTCPSegment (createTCPSegment\<lparr>srcPort := 80, destPort := 1025, sequenceNo := 1501, ackNo := 101,
       ackBit := True, finBit := True\<rparr>) (IPv4 0x0a000002) (IPv4 0x0a000001) (demo_module, demo_conn) =
     Inr (True, demo_module, c') \<and> fsm c' = TCP_S_CLOSE_WAIT \<and> rcv_nxt c' = 501 \<and>
     wpE (arrivals [(createTCPSegment\<lparr>srcPort := 80, destPort := 1025, sequenceNo := 501, payloadLength := 1000, ackNo := 101, ackBit := True\<rparr>,
       IPv4 0x0a000002, IPv4 0x0a000001)] (demo_module, c')) (\<lambda>(m', d). rcv_nxt d = 501)"
proof -
  let ?segs = "[(createTCPSegment\<lparr>srcPort := 80, destPort := 1025, sequenceNo := 501, payloadLength := 1000, ackNo := 101, ackBit := True\<rparr>,
       IPv4 0x0a000002, IPv4 0x0a000001)]"
  let ?g = "createTCPSegment\<lparr>srcPort := 80, destPort := 1025, sequenceNo := 1501, ackNo := 101,
       ackBit := True, finBit := True\<rparr>"
  have "addressed ?g (IPv4 0x0a000002) (IPv4 0x0a000001) demo_conn" "fsm demo_conn = TCP_S_ESTABLISHED"
    "isSegmentAcceptable ?g demo_conn" "timers_wf demo_conn" "rcv_nxt demo_conn = 501" "snd_una demo_conn = 101"
    "snd_max demo_conn = 101" "\<not> send_fin demo_conn" "finBit ?g" "ackBit ?g" "\<not> rstBit ?g" "\<not> synBit ?g"
    "payloadLength ?g = 0" "sequenceNo ?g = 1501" "ackNo ?g = 101"
    by (simp_all add: addressed_def isSegmentAcceptable_def createTCPSegment_def seq_defs seg_end_def
        timers_wf_def demo_simps)
  then show ?thesis
    using fin_above_gap_loses_data [of ?g "IPv4 0x0a000002" "IPv4 0x0a000001" demo_conn ?segs demo_module]
    by (auto simp: createTCPSegment_def simp del: arrivals.simps elim!: wpE_mono)
qed

section \<open>A refused connection\<close>

text \<open>The SYN of a connection, as \<open>sendSyn\<close> hands it to IP.\<close>

definition syn_of :: "TCPConnection \<Rightarrow> TCPSegment" where
  "syn_of c = createTCPSegment\<lparr>sequenceNo := iss c, synBit := True, seg_window := ucast (rcv_wnd c),
     srcPort := c_short (localPort c), destPort := c_short (remotePort c)\<rparr>"

definition refusal :: "TCPConnection \<Rightarrow> TCPSegment" where
  "refusal c = createTCPSegment\<lparr>srcPort := c_short (remotePort c), destPort := c_short (localPort c),
     rstBit := True, ackBit := True, sequenceNo := 0, ackNo := iss c\<rparr>"

lemma c_short_twice [simp]: "c_short (c_short n) = c_short n"
  using c_short_bounds by simp

text \<open>
  A refused connection attempt is not recognised.  The host that has no
  connection for a SYN answers with a reset that acknowledges the number of the SYN itself instead of
  the one after it; the connection in \<open>SYN_SENT\<close> that gets this answer takes it for an old
  segment, sends a reset of its own, tells the application nothing, and stays in \<open>SYN_SENT\<close>.
\<close>

theorem refusal_not_recognised:
  assumes "fsm c = TCP_S_SYN_SENT" "localAddr c = IPv4 a" "remoteAddr c = IPv4 b"
    and "c_short (localPort c) = localPort c" "c_short (remotePort c) = remotePort c"
  shows "TCP_segmentArrivalWhileClosed t (syn_of c) (IPv4 a) (IPv4 b) = Inr [ToIPv4 (refusal c) b a] \<and>
    processTCPSegment (refusal c) (IPv4 b) (IPv4 a) (m, c) = Inr (True, m, c\<lparr>outbox := outbox c @
      [ToIPv4 (createTCPSegment\<lparr>srcPort := localPort c, destPort := remotePort c, rstBit := True,
         sequenceNo := iss c\<rparr>) a b]\<rparr>)"
proof
  show "TCP_segmentArrivalWhileClosed t (syn_of c) (IPv4 a) (IPv4 b) = Inr [ToIPv4 (refusal c) b a]"
    by (simp add: TCP_segmentArrivalWhileClosed_def segmentArrivalWhileClosed_def syn_of_def refusal_def
        sendRstAck_def sendToIP_addr_def seg_end_def emit_def newTCPConnection_def createTCPSegment_def)
  show "processTCPSegment (refusal c) (IPv4 b) (IPv4 a) (m, c) = Inr (True, m, c\<lparr>outbox := outbox c @
      [ToIPv4 (createTCPSegment\<lparr>srcPort := localPort c, destPort := remotePort c, rstBit := True,
         sequenceNo := iss c\<rparr>) a b]\<rparr>)"
    using assms
    by (simp add: processTCPSegment_def refusal_def tryFastRoute_def process_RCV_SEGMENT_def
        processSegmentInSynSent_def sendRst_addr_def sendToIP_addr_def emit_def performStateTransition_def
        createTCPSegment_def)
qed

theorem refusal_not_recognised_witness:
  "processTCPSegment (refusal (demo_conn\<lparr>fsm := TCP_S_SYN_SENT\<rparr>)) (IPv4 0x0a000002) (IPv4 0x0a000001)
     (demo_module, demo_conn\<lparr>fsm := TCP_S_SYN_SENT\<rparr>) =
   Inr (True, demo_module, demo_conn\<lparr>fsm := TCP_S_SYN_SENT, outbox :=
      [ToIPv4 (createTCPSegment\<lparr>srcPort := 1025, destPort := 80, rstBit := True, sequenceNo := 100\<rparr>)
         0x0a000001 0x0a000002]\<rparr>)"
proof -
  let ?c = "demo_conn\<lparr>fsm := TCP_S_SYN_SENT\<rparr>"
  have "fsm ?c = TCP_S_SYN_SENT" "localAddr ?c = IPv4 0x0a000001" "remoteAddr ?c = IPv4 0x0a000002"
    "localPort ?c = 1025" "remotePort ?c = 80" "iss ?c = 100" "outbox ?c = []"
    by (simp_all add: demo_conn_def newTCPConnection_def)
  then show ?thesis
    using refusal_not_recognised [of ?c "0x0a000001" "0x0a000002" 0 demo_module] by simp
qed

end
