(* ===== verification/TCP_Tables.thy ===== *)
theory TCP_Tables
  imports TCP_Arrival
begin

text \<open>
  The tables of the TCP module stay consistent: the map of socket pairs, the map of application
  keys and the heap of connections agree after every message the module handles.
\<close>

section \<open>Handlers keep the identity of their connection\<close>

text \<open>Pointer, application key, socket pair and state of a connection: what the tables depend on.\<close>

definition who :: "TCPConnection \<Rightarrow> nat \<times> int \<times> int \<times> IPvXAddress \<times> IPvXAddress \<times> int \<times> int \<times> TcpState" where
  "who c = (self c, appGateIndex c, connId c, localAddr c, remoteAddr c, localPort c, remotePort c, fsm c)"

lemma who_eq_iff: "who d = who c \<longleftrightarrow> self d = self c \<and> appGateIndex d = appGateIndex c \<and> connId d = connId c \<and>
    localAddr d = localAddr c \<and> remoteAddr d = remoteAddr c \<and> localPort d = localPort c \<and>
    remotePort d = remotePort c \<and> fsm d = fsm c"
  by (simp add: who_def)

lemma who_frame: "hook_frame c c' \<Longrightarrow> who c' = who c"
  using hook_frame_fields [of c c'] by (simp add: who_eq_iff)

lemma who_upd [simp]:
  "who (c\<lparr>active := b\<rparr>) = who c" "who (c\<lparr>fork := b\<rparr>) = who c" "who (c\<lparr>snd_una := x\<rparr>) = who c" "who (c\<lparr>snd_nxt := x\<rparr>) = who c"
  "who (c\<lparr>snd_max := x\<rparr>) = who c" "who (c\<lparr>snd_wnd := x\<rparr>) = who c" "who (c\<lparr>snd_wl1 := x\<rparr>) = who c"
  "who (c\<lparr>snd_wl2 := x\<rparr>) = who c" "who (c\<lparr>iss := x\<rparr>) = who c" "who (c\<lparr>irs := x\<rparr>) = who c"
  "who (c\<lparr>rcv_nxt := x\<rparr>) = who c" "who (c\<lparr>dupacks := i\<rparr>) = who c" "who (c\<lparr>syn_rexmit_count := i\<rparr>) = who c"
  "who (c\<lparr>syn_rexmit_timeout := t\<rparr>) = who c" "who (c\<lparr>fin_ack_rcvd := b\<rparr>) = who c" "who (c\<lparr>send_fin := b\<rparr>) = who c"
  "who (c\<lparr>snd_fin_seq := x\<rparr>) = who c" "who (c\<lparr>fin_rcvd := b\<rparr>) = who c" "who (c\<lparr>rcv_fin_seq := x\<rparr>) = who c"
  "who (c\<lparr>sendQueue := q\<rparr>) = who c" "who (c\<lparr>receiveQueue := r\<rparr>) = who c" "who (c\<lparr>timers := ts\<rparr>) = who c"
  "who (c\<lparr>now := t\<rparr>) = who c" "who (c\<lparr>outbox := ms\<rparr>) = who c" "who (emit m c) = who c"
  "who (c\<lparr>tcpAlgorithm := alg\<rparr>) = who c"
  "who (ackWindowUpdate seg c) = who c" "who (snd (insertBytes seg c)) = who c"
  by (simp_all add: who_def emit_def ackWindowUpdate_def insertBytes_def split_def Let_def)

named_theorems who_intros \<open>handlers keep the identity\<close>

abbreviation keeps :: "(nat \<times> int \<times> int \<times> IPvXAddress \<times> IPvXAddress \<times> int \<times> int \<times> TcpState) \<Rightarrow> TCPConnection res \<Rightarrow> bool" where
  "keeps v m \<equiv> wpE m (\<lambda>c'. who c' = v)"

abbreviation keeps2 ::
    "(nat \<times> int \<times> int \<times> IPvXAddress \<times> IPvXAddress \<times> int \<times> int \<times> TcpState) \<Rightarrow> ('a \<times> TCPConnection) res \<Rightarrow> bool" where
  "keeps2 v m \<equiv> wpE m (\<lambda>p. who (snd p) = v)"

lemma keeps_hook: "(\<And>a. hook_frame a c \<Longrightarrow> wpE m (hook_frame a)) \<Longrightarrow> who c = v \<Longrightarrow> keeps v m"
  by (rule wpE_mono [of m "hook_frame c"]) (auto dest: who_frame)

lemma keeps_bind [who_intros]:
  "keeps v m \<Longrightarrow> (\<And>x. who x = v \<Longrightarrow> keeps v (f x)) \<Longrightarrow> keeps v (bindE m f)"
  "keeps v m \<Longrightarrow> (\<And>x. who x = v \<Longrightarrow> keeps2 v (g x)) \<Longrightarrow> keeps2 v (bindE m g)"
  "keeps2 v m' \<Longrightarrow> (\<And>b x. who x = v \<Longrightarrow> keeps v (f' (b, x))) \<Longrightarrow> keeps v (bindE m' f')"
  "keeps2 v m' \<Longrightarrow> (\<And>b x. who x = v \<Longrightarrow> keeps2 v (g' (b, x))) \<Longrightarrow> keeps2 v (bindE m' g')"
  by (auto simp: wpE_bindE elim!: wpE_mono)

lemma keeps_when [who_intros]: "who c = v \<Longrightarrow> (b \<Longrightarrow> keeps v (f c)) \<Longrightarrow> keeps v (whenE b f c)"
  by (simp add: whenE_def)

lemma keeps_ret [who_intros]: "keeps v m \<Longrightarrow> keeps2 v (retE ev m)"
  by (auto simp: retE_def wpE_bindE elim!: wpE_mono)

lemma keeps_timers [who_intros]:
  "who c = v \<Longrightarrow> keeps v (scheduleTimeout tm dt c)" "who c = v \<Longrightarrow> keeps v (cancelEvent tm c)"
  "who c = v \<Longrightarrow> keeps v (cancelIfSet tm c)" "who c = v \<Longrightarrow> keeps v (deleteTimer tm c)"
  by (auto simp: timer_defs split: timer.split)

lemma keeps_send [who_intros]:
  "who c = v \<Longrightarrow> keeps v (sendAck c)" "who c = v \<Longrightarrow> keeps v (sendFin c)" "who c = v \<Longrightarrow> keeps v (sendRst s c)"
  "who c = v \<Longrightarrow> keeps v (sendRst_addr s a b i j c)" "who c = v \<Longrightarrow> keeps v (sendToIP g c)"
  "who c = v \<Longrightarrow> keeps v (sendIndicationToApp ind c)" "who c = v \<Longrightarrow> keeps v (sendEstabIndicationToApp c)"
  by (erule keeps_hook [rotated], erule frame_intros)+

lemma keeps_sendToApp [who_intros]: "who c = v \<Longrightarrow> keeps v (sendToApp pk c)"
  by (simp add: sendToApp_def)

lemma keeps_syn [who_intros]: "who c = v \<Longrightarrow> keeps v (sendSyn c)" "who c = v \<Longrightarrow> keeps v (sendSynAck c)"
  by (auto simp: sendSyn_def sendSynAck_def intro!: who_intros)

lemma keeps_hooks [who_intros]:
  "who c = v \<Longrightarrow> keeps v (alg_established act c)" "who c = v \<Longrightarrow> keeps v (alg_sendCommandInvoked c)"
  "who c = v \<Longrightarrow> keeps v (alg_receivedOutOfOrderSegment c)" "who c = v \<Longrightarrow> keeps v (alg_receiveSeqChanged c)"
  "who c = v \<Longrightarrow> keeps v (alg_receivedDataAck s c)" "who c = v \<Longrightarrow> keeps v (alg_receivedDuplicateAck c)"
  "who c = v \<Longrightarrow> keeps v (alg_receivedAckForDataNotYetSent s c)"
  by (erule keeps_hook [rotated], erule alg.hook_frames)+

lemma keeps_processTimer [who_intros]: "who c = v \<Longrightarrow> keeps2 v (alg_processTimer tm c)"
  using alg.timerHook_frame [OF hook_frame_refl, of tm c] who_frame by (auto elim!: wpE_mono)

lemma keeps_queue [who_intros]: "who c = v \<Longrightarrow> keeps v (discardUpTo s c)"
  by (cases "sq_discardUpTo s (sendQueue c)") (auto simp: discardUpTo_def)

lemma keeps_synRexmit [who_intros]: "who c = v \<Longrightarrow> keeps v (startSynRexmitTimer c)"
  by (auto simp: startSynRexmitTimer_def Let_def intro!: who_intros)

lemma keeps_ack [who_intros]: "who c = v \<Longrightarrow> keeps2 v (processAckInEstabEtc seg c)"
  by (auto simp: processAckInEstabEtc_def ackDuplicate_def ackNewData_def Let_def intro!: who_intros)

lemma keeps_rstInSynReceived [who_intros]: "who c = v \<Longrightarrow> keeps2 v (processRstInSynReceived seg c)"
  by (auto simp: processRstInSynReceived_def intro!: who_intros)

abbreviation keepsF :: "(nat \<times> int \<times> int \<times> IPvXAddress \<times> IPvXAddress \<times> int \<times> int \<times> TcpState) \<Rightarrow> flow res \<Rightarrow> bool" where
  "keepsF v m \<equiv> wpE m (\<lambda>fl. case fl of Ret e c \<Rightarrow> who c = v | Cont e c \<Rightarrow> who c = v)"

lemma keepsF_bind:
  "keeps v m \<Longrightarrow> (\<And>x. who x = v \<Longrightarrow> keepsF v (g x)) \<Longrightarrow> keepsF v (bindE m g)"
  "keeps2 v m' \<Longrightarrow> (\<And>b x. who x = v \<Longrightarrow> keepsF v (g' (b, x))) \<Longrightarrow> keepsF v (bindE m' g')"
  by (auto simp: wpE_bindE elim!: wpE_mono)

lemma keeps_then:
  "keepsF v m \<Longrightarrow> (\<And>ev x. who x = v \<Longrightarrow> keeps2 v (f ev x)) \<Longrightarrow> keeps2 v (thenE m f)"
  unfolding thenE_def wpE_bindE by (erule wpE_mono) (auto split: flow.splits)

lemma keepsF_steps:
  assumes "who c = v"
  shows "keepsF v (step1_sequence seg c)" "keepsF v (step2_rst seg c)" "keepsF v (step4_syn seg c)"
    "keepsF v (step5_ack_synRcvd seg c)"
  using assms
  by (auto simp: step1_sequence_def step2_rst_def step4_syn_def step5_ack_synRcvd_def assertE_def
      intro!: who_intros keepsF_bind)

lemma keepsF_step5: "who c = v \<Longrightarrow> keepsF v (step5_ack_states seg ev c)"
  by (auto simp: step5_ack_states_def Let_def intro!: who_intros keepsF_bind)

lemma keeps_deliver [who_intros]: "who c = v \<Longrightarrow> keeps v (seqE (map sendToApp pks) c)"
  by (induction pks arbitrary: c) (auto intro!: who_intros)

lemma keeps_deliverToApp [who_intros]: "who c = v \<Longrightarrow> keeps v (deliverToApp c)"
  by (cases "rq_drain (rcv_nxt c) (receiveQueue c)") (auto simp: deliverToApp_def intro!: who_intros)

lemma insertBytes_eq: "insertBytes seg c = (fst (insertBytes seg c), c\<lparr>receiveQueue := receiveQueue (snd (insertBytes seg c))\<rparr>)"
  by (simp add: insertBytes_def split_def Let_def)

lemma keeps_step7: "who c = v \<Longrightarrow> keeps v (step7_text seg c)"
  by (subst step7_text_def, subst insertBytes_eq) (auto simp: Let_def intro!: who_intros)

lemma keeps_step8: "who c = v \<Longrightarrow> keeps2 v (step8_fin seg ev c)"
  by (auto simp: step8_fin_def restart2MSL_def intro!: who_intros)

lemma keeps_finish: "who c = v \<Longrightarrow> keeps2 v (finishSegment a b ev c)"
  by (auto simp: finishSegment_def intro!: who_intros)

lemma keeps_1stThru8th [who_intros]: "who c = v \<Longrightarrow> keeps2 v (processSegment1stThru8th seg c)"
  unfolding processSegment1stThru8th_def Let_def
  by (intro keeps_then keepsF_steps keepsF_step5 keeps_bind keeps_step7 keeps_step8 keeps_finish)
    (auto intro: keeps_finish)

lemma keeps_listen_syn [who_intros]: "who c = v \<Longrightarrow> keeps v (listen_syn seg c)"
  by (auto simp: listen_syn_def selectInitialSeqNum_def Let_def intro!: who_intros)

lemma keeps_synSent [who_intros]:
  "who c = v \<Longrightarrow> keeps2 v (synSent_established seg c)" "who c = v \<Longrightarrow> keeps2 v (synSent_simultaneous seg c)"
proof -
  assume w: "who c = v"
  show "keeps2 v (synSent_established seg c)"
    by (subst synSent_established_def, subst insertBytes_eq) (use w in \<open>auto simp: Let_def intro!: who_intros\<close>)
  show "keeps2 v (synSent_simultaneous seg c)"
    using w by (auto simp: synSent_simultaneous_def Let_def intro!: who_intros)
qed

lemma keeps_timeouts [who_intros]:
  "who c = v \<Longrightarrow> keeps v (process_TIMEOUT_CONN_ESTAB c)" "who c = v \<Longrightarrow> keeps v (process_TIMEOUT_2MSL c)"
  "who c = v \<Longrightarrow> keeps v (process_TIMEOUT_FIN_WAIT_2 c)" "who c = v \<Longrightarrow> keeps2 v (process_TIMEOUT_SYN_REXMIT ev c)"
  by (auto simp: process_TIMEOUT_CONN_ESTAB_def process_TIMEOUT_2MSL_def process_TIMEOUT_FIN_WAIT_2_def
      process_TIMEOUT_SYN_REXMIT_def Let_def intro!: who_intros)

lemma keeps_enqueue [who_intros]: "who c = v \<Longrightarrow> keeps v (bindE (PK pkt) (\<lambda>pk. enqueueAppData pk c))"
  by (cases pkt) (auto simp: PK_def castError_def enqueueAppData_def)

lemma keeps_SEND [who_intros]: "who c = v \<Longrightarrow> keeps v (process_SEND info pkt c)"
  by (cases info; cases pkt) (auto simp: process_SEND_def asSendCommand_def castError_def PK_def enqueueAppData_def
      selectInitialSeqNum_def Let_def intro!: who_intros)

lemma keeps_CLOSE [who_intros]: "who c = v \<Longrightarrow> keeps2 v (process_CLOSE ev c)"
  by (auto simp: process_CLOSE_def intro!: who_intros)

lemma keeps_ABORT [who_intros]: "who c = v \<Longrightarrow> keeps v (process_ABORT c)" "who c = v \<Longrightarrow> keeps v (process_STATUS c)"
  by (auto simp: process_ABORT_def process_STATUS_def intro!: who_intros)

lemma who_init [simp]:
  "who (alg_initialize c) = who c" "who (configureStateVariables p c) = who c" "who (createStateVariables c) = who c"
  by (cases "tcpAlgorithm c") (simp_all add: alg_initialize_def nocc_initialize_def base_initialize_def
      dumb_initialize_def configureStateVariables_def createStateVariables_def initStateVariables_def
      initBaseAlgStateVariables_def initTahoeRenoStateVariables_def who_def)

lemma keeps_init [who_intros]: "who c = v \<Longrightarrow> keeps v (initConnection p cmd c)"
  unfolding initConnection_def Let_def wpE_bindE wpE_Inr
  by (auto simp: wpE_iff)

text \<open>A transition changes the state and nothing else of the identity.\<close>

lemma stateEntered_keeps: "who c = v \<Longrightarrow> keeps v (stateEntered s c)"
  by (cases s) (auto simp: stateEntered_def alg_connectionClosed_def dumb_connectionClosed_def
      base_connectionClosed_def assertE_def intro!: who_intros)

lemma performStateTransition_who:
  "wpE (performStateTransition ev c) (\<lambda>(keep, c').
     who c' = who (c\<lparr>fsm := if ev = TCP_E_IGNORE then fsm c else fsmNext (active c) (fsm c) ev\<rparr>) \<and>
     (keep \<longleftrightarrow> fsm c' \<noteq> TCP_S_CLOSED) \<and> fsm c \<noteq> TCP_S_CLOSED)"
proof -
  let ?c = "c\<lparr>fsm := fsmNext (active c) (fsm c) ev\<rparr>"
  have "keeps (who ?c) (whenE b (stateEntered (fsm ?c)) ?c)" for b
    by (intro who_intros stateEntered_keeps) simp_all
  moreover have "c\<lparr>fsm := fsm c\<rparr> = c" by simp
  ultimately show ?thesis
    by (auto simp: performStateTransition_def Let_def wpE_bindE elim!: wpE_mono)
qed

section \<open>Consistent tables\<close>

text \<open>
  Every entry of the two maps points to a connection in the heap that has the entry's key;
  every connection in the heap is at its own pointer, below the next free one, is in the
  map of application keys, and in the map of socket pairs exactly when it has been opened; its ports are
  \<open>short\<close>s; no closed connection is kept.  \<open>S\<close> holds connections whose opening is under way.
\<close>

definition conn_wf :: "TCPConnection \<Rightarrow> bool" where
  "conn_wf c \<longleftrightarrow> fsm c \<noteq> TCP_S_CLOSED \<and> c_short (localPort c) = localPort c \<and> c_short (remotePort c) = remotePort c"

definition entry_ok :: "nat set \<Rightarrow> TCP \<Rightarrow> nat \<Rightarrow> TCPConnection \<Rightarrow> bool" where
  "entry_ok S m p c \<longleftrightarrow> self c = p \<and> p < nextPtr m \<and> conn_wf c \<and> tcpAppConnMap m (connAppKey c) = Some p \<and>
     (tcpConnMap m (connSockPair c) = Some p \<longleftrightarrow> fsm c \<noteq> TCP_S_INIT \<or> p \<in> S)"

definition tables_in :: "nat set \<Rightarrow> TCP \<Rightarrow> bool" where
  "tables_in S m \<longleftrightarrow>
     (\<forall>k p. tcpConnMap m k = Some p \<longrightarrow> (\<exists>c. heap m p = Some c \<and> connSockPair c = k)) \<and>
     (\<forall>k p. tcpAppConnMap m k = Some p \<longrightarrow> (\<exists>c. heap m p = Some c \<and> connAppKey c = k)) \<and>
     (\<forall>p c. heap m p = Some c \<longrightarrow> entry_ok S m p c)"

lemma tables_inI:
  assumes "\<And>k p. tcpConnMap m k = Some p \<Longrightarrow> \<exists>c. heap m p = Some c \<and> connSockPair c = k"
    and "\<And>k p. tcpAppConnMap m k = Some p \<Longrightarrow> \<exists>c. heap m p = Some c \<and> connAppKey c = k"
    and "\<And>p c. heap m p = Some c \<Longrightarrow> entry_ok S m p c"
  shows "tables_in S m"
  using assms by (simp add: tables_in_def)

lemma tables_inD:
  assumes "tables_in S m"
  shows "tcpConnMap m k = Some p \<Longrightarrow> \<exists>c. heap m p = Some c \<and> connSockPair c = k"
    and "tcpAppConnMap m a = Some p \<Longrightarrow> \<exists>c. heap m p = Some c \<and> connAppKey c = a"
    and "heap m p = Some c \<Longrightarrow> entry_ok S m p c"
  using assms by (simp_all add: tables_in_def)

abbreviation tables_ok :: "TCP \<Rightarrow> bool" where
  "tables_ok m \<equiv> tables_in {} m"

text \<open>A connection that an event works on, put back into the heap.\<close>

definition mod_of :: "TCP \<Rightarrow> TCPConnection \<Rightarrow> TCP" where
  "mod_of m c = m\<lparr>heap := (heap m)(self c \<mapsto> c)\<rparr>"

lemma who_keys: "who d = who c \<Longrightarrow> connSockPair d = connSockPair c \<and> connAppKey d = connAppKey c \<and> conn_wf d = conn_wf c \<and>
    self d = self c \<and> fsm d = fsm c"
  by (auto simp: who_eq_iff connSockPair_def connAppKey_def conn_wf_def)

lemma mod_of_simps [simp]:
  "tcpConnMap (mod_of m c) = tcpConnMap m" "tcpAppConnMap (mod_of m c) = tcpAppConnMap m"
  "nextPtr (mod_of m c) = nextPtr m" "heap (mod_of m c) = (heap m)(self c \<mapsto> c)"
  by (simp_all add: mod_of_def)

lemma tables_who:
  assumes t: "tables_in S (mod_of m c)" and w: "who d = who c"
  shows "tables_in S (mod_of m d)"
proof (rule tables_inI)
  note k = who_keys [OF w]
  fix p
  show "\<exists>x. heap (mod_of m d) p = Some x \<and> connSockPair x = key" if "tcpConnMap (mod_of m d) key = Some p" for key
    using tables_inD(1) [OF t, of key p] that k by (cases "p = self c") auto
  show "\<exists>x. heap (mod_of m d) p = Some x \<and> connAppKey x = key" if "tcpAppConnMap (mod_of m d) key = Some p" for key
    using tables_inD(2) [OF t, of key p] that k by (cases "p = self c") auto
  show "entry_ok S (mod_of m d) p x" if "heap (mod_of m d) p = Some x" for x
  proof (cases "p = self c")
    case True
    then have "x = d" using that k by simp
    then show ?thesis using tables_inD(3) [OF t, of p c] True k by (simp add: entry_ok_def)
  next
    case False
    then show ?thesis using tables_inD(3) [OF t, of p x] that k by (simp add: entry_ok_def)
  qed
qed

text \<open>The maps are injective on what they point to.\<close>

lemma tables_inj:
  assumes "tables_in S m" "tcpConnMap m k = Some p" "tcpConnMap m l = Some p"
  shows "k = l"
  using tables_inD(1) [OF assms(1), of k p] tables_inD(1) [OF assms(1), of l p] assms(2,3) by auto

lemma tables_app_inj:
  assumes "tables_in S m" "tcpAppConnMap m k = Some p" "tcpAppConnMap m l = Some p"
  shows "k = l"
  using tables_inD(2) [OF assms(1), of k p] tables_inD(2) [OF assms(1), of l p] assms(2,3) by auto

section \<open>The operations on the tables\<close>

text \<open>A connection gets its first socket pair.\<close>

lemma addSockPair_tables:
  assumes t: "tables_ok (mod_of m c)" and i: "fsm c = TCP_S_INIT" and p: "c_short lp = lp" "c_short rp = rp"
    and a: "addSockPair la ra lp rp (m, c) = Inr (m', c')"
  shows "tables_in {self c'} (mod_of m' c')" "who c' = who (c\<lparr>localAddr := la, remoteAddr := ra, localPort := lp, remotePort := rp\<rparr>)"
proof -
  let ?c = "c\<lparr>localAddr := la, remoteAddr := ra, localPort := lp, remotePort := rp\<rparr>"
  let ?k = "connSockPair ?c"
  have c': "c' = ?c" and n: "tcpConnMap m ?k = None" and
    m': "tcpConnMap m' = (tcpConnMap m)(?k \<mapsto> self c)" "tcpAppConnMap m' = tcpAppConnMap m" "heap m' = heap m" "nextPtr m' = nextPtr m"
    using a by (auto simp: addSockPair_def Let_def split: if_splits)
  have ak: "connAppKey ?c = connAppKey c" by (simp add: connAppKey_def)
  have e: "entry_ok {} (mod_of m c) (self c) c" using tables_inD(3) [OF t, of "self c" c] by simp
  have nc: "tcpConnMap m l \<noteq> Some (self c)" for l
    using e i tables_inD(1) [OF t, of l "self c"] by (auto simp: entry_ok_def)
  show "who c' = who ?c" by (simp add: c')
  show "tables_in {self c'} (mod_of m' c')"
  proof (rule tables_inI)
    fix p
    show "\<exists>x. heap (mod_of m' c') p = Some x \<and> connSockPair x = key" if "tcpConnMap (mod_of m' c') key = Some p" for key
      using that tables_inD(1) [OF t, of key p] nc [of key] by (auto simp: c' m' split: if_splits)
    show "\<exists>x. heap (mod_of m' c') p = Some x \<and> connAppKey x = key" if "tcpAppConnMap (mod_of m' c') key = Some p" for key
      using that tables_inD(2) [OF t, of key p] by (auto simp: c' m' ak split: if_splits)
    show "entry_ok {self c'} (mod_of m' c') p x" if "heap (mod_of m' c') p = Some x" for x
    proof (cases "p = self c")
      case True
      then show ?thesis
        using that e i p by (auto simp: entry_ok_def c' m' ak conn_wf_def)
    next
      case False
      then have "entry_ok {} (mod_of m c) p x" using that tables_inD(3) [OF t, of p x] by (simp add: c' m')
      then show ?thesis using False n by (auto simp: entry_ok_def c' m')
    qed
  qed
qed

text \<open>A connection changes its socket pair to one that no other connection has.\<close>

lemma updateSockPair_eq:
  assumes "updateSockPair la ra lp rp (m, c) = Inr (m', c')"
  shows "c' = c\<lparr>localAddr := la, remoteAddr := ra, remotePort := rp\<rparr>" "localPort c = lp"
    "tcpConnMap m (connSockPair c) = Some (self c)"
    "m' = m\<lparr>tcpConnMap := (tcpConnMap m)(connSockPair c := None, connSockPair c' \<mapsto> self c)\<rparr>"
  using assms by (auto simp: updateSockPair_def Let_def split: if_splits)

lemma updateSockPair_tables:
  assumes t: "tables_ok (mod_of m c)" and p: "c_short lp = lp" "c_short rp = rp"
    and f: "tcpConnMap m (SockPair la ra lp rp) \<in> {None, Some (self c)}"
    and u: "updateSockPair la ra lp rp (m, c) = Inr (m', c')"
  shows "tables_ok (mod_of m' c')"
proof -
  note e = updateSockPair_eq [OF u]
  have k': "connSockPair c' = SockPair la ra lp rp" using e(1,2) p by (simp add: connSockPair_def)
  have w: "self c' = self c" "connAppKey c' = connAppKey c" "fsm c' = fsm c" "conn_wf c' = conn_wf c"
    using e(1,2) p tables_inD(3) [OF t, of "self c" c] by (auto simp: connAppKey_def conn_wf_def entry_ok_def)
  have own: "tcpConnMap m l = Some (self c) \<Longrightarrow> l = connSockPair c" for l
    using tables_inD(1) [OF t, of l "self c"] by auto
  show ?thesis
  proof (rule tables_inI)
    fix p
    show "\<exists>x. heap (mod_of m' c') p = Some x \<and> connSockPair x = key" if "tcpConnMap (mod_of m' c') key = Some p" for key
      using that own [of key] tables_inD(1) [OF t, of key p] by (auto simp: e(4) w(1) split: if_splits)
    show "\<exists>x. heap (mod_of m' c') p = Some x \<and> connAppKey x = key" if "tcpAppConnMap (mod_of m' c') key = Some p" for key
      using that tables_inD(2) [OF t, of key p] by (auto simp: e(4) w(1,2) split: if_splits)
    show "entry_ok {} (mod_of m' c') p x" if "heap (mod_of m' c') p = Some x" for x
    proof (cases "p = self c")
      case True
      then have "x = c'" using that w(1) by simp
      then show ?thesis
        using True tables_inD(3) [OF t, of p c] e(3) by (simp add: entry_ok_def e(4) w)
    next
      case False
      then have h: "entry_ok {} (mod_of m c) p x" using that tables_inD(3) [OF t, of p x] by (simp add: e(4) w(1))
      have "connSockPair x \<noteq> connSockPair c'" if "tcpConnMap m (connSockPair x) = Some p"
        using that f False k' by auto
      then show ?thesis using h False e(3) by (auto simp: entry_ok_def e(4))
    qed
  qed
qed

lemma tables_nextPtr:
  assumes "tables_in S (mod_of m c)"
  shows "tables_in S (mod_of (m\<lparr>nextPtr := Suc (nextPtr m)\<rparr>) c)"
proof (rule tables_inI)
  let ?n = "mod_of (m\<lparr>nextPtr := Suc (nextPtr m)\<rparr>) c"
  show "\<exists>x. heap ?n p = Some x \<and> connSockPair x = k" if "tcpConnMap ?n k = Some p" for k p
    using tables_inD(1) [OF assms, of k p] that by simp
  show "\<exists>x. heap ?n p = Some x \<and> connAppKey x = k" if "tcpAppConnMap ?n k = Some p" for k p
    using tables_inD(2) [OF assms, of k p] that by simp
  show "entry_ok S ?n p x" if "heap ?n p = Some x" for p x
    using tables_inD(3) [OF assms, of p x] that by (simp add: entry_ok_def less_SucI)
qed

text \<open>
  A listening connection is forked: the connection takes the socket pair of the segment and a fresh
  connection id, its clone goes on listening under the old ones.
\<close>

lemma addForkedConnection_tables:
  assumes t: "tables_ok (mod_of m c)" and p: "c_short lp = lp" "c_short rp = rp"
    and f: "tcpConnMap m (SockPair la ra lp rp) \<in> {None, Some (self c)}"
    and n: "self new = nextPtr m" "fsm new = TCP_S_LISTEN" "connAppKey new = connAppKey c" "conn_wf new"
    and u: "\<forall>g. tcpAppConnMap m (AppConnKey g (uniqueNumber m)) = None"
    and a: "addForkedConnection new la ra lp rp (m\<lparr>nextPtr := nextPtr m + 1\<rparr>, c) = Inr (m', c')"
  shows "tables_ok (mod_of m' c')" "self c' = self c" "fsm c' = fsm c"
proof -
  let ?m = "m\<lparr>nextPtr := nextPtr m + 1\<rparr>"
  obtain m1 c1 where u1: "updateSockPair la ra lp rp (?m, c) = Inr (m1, c1)"
    using a by (cases "updateSockPair la ra lp rp (?m, c)") (auto simp: addForkedConnection_def)
  obtain m2 new' where a1: "addSockPair (localAddr new) (remoteAddr new) (localPort new) (remotePort new) (m1, new) = Inr (m2, new')"
    using a u1 by (cases "addSockPair (localAddr new) (remoteAddr new) (localPort new) (remotePort new) (m1, new)")
      (auto simp: addForkedConnection_def)
  have r: "m' = m2\<lparr>tcpAppConnMap := (tcpAppConnMap m2)(connAppKey c1 := None,
          connAppKey (c1\<lparr>connId := uniqueNumber m2\<rparr>) \<mapsto> self c1, connAppKey new' \<mapsto> self new'),
          heap := (heap m2)(self new' \<mapsto> new')\<rparr>" "c' = c1\<lparr>connId := uniqueNumber m2\<rparr>"
    using a u1 a1 by (auto simp: addForkedConnection_def Let_def)
  have t0: "tables_ok (mod_of ?m c)"
    using tables_nextPtr [OF t] by simp
  note e1 = updateSockPair_eq [OF u1]
  have t1: "tables_ok (mod_of m1 c1)"
    by (rule updateSockPair_tables [OF t0 p _ u1]) (use f in simp)
  have new': "new' = new" using a1 by (auto simp: addSockPair_def Let_def split: if_splits)
  have k2: "tcpConnMap m1 (connSockPair new) = None" and
    m2: "tcpConnMap m2 = (tcpConnMap m1)(connSockPair new \<mapsto> self new)" "tcpAppConnMap m2 = tcpAppConnMap m1"
      "heap m2 = heap m1" "nextPtr m2 = nextPtr m1" "uniqueNumber m2 = uniqueNumber m1"
    using a1 by (auto simp: addSockPair_def Let_def split: if_splits)
  have m1: "tcpAppConnMap m1 = tcpAppConnMap m" "nextPtr m1 = nextPtr m + 1" "uniqueNumber m1 = uniqueNumber m" "heap m1 = heap m"
    by (simp_all add: e1(4))
  let ?c2 = "c1\<lparr>connId := uniqueNumber m\<rparr>"
  let ?ak = "connAppKey c" and ?ak2 = "connAppKey ?c2"
  have c1: "self c1 = self c" "connAppKey c1 = connAppKey c" "fsm c1 = fsm c"
    by (simp_all add: e1(1) connAppKey_def)
  have c': "c' = ?c2" and mm: "tcpConnMap m' = (tcpConnMap m1)(connSockPair new \<mapsto> nextPtr m)"
      "tcpAppConnMap m' = (tcpAppConnMap m)(?ak := None, ?ak2 \<mapsto> self c, ?ak \<mapsto> nextPtr m)"
      "heap m' = (heap m)(nextPtr m \<mapsto> new)" "nextPtr m' = nextPtr m + 1"
    using r by (simp_all add: new' n m2 m1 c1)
  have fr: "tcpAppConnMap m ?ak2 = None" using u by (simp add: connAppKey_def)
  have kk: "connSockPair ?c2 = connSockPair c1" "conn_wf ?c2 = conn_wf c1" "fsm ?c2 = fsm c"
    by (simp_all add: connSockPair_def conn_wf_def c1)
  have ec: "entry_ok {} (mod_of m c) (self c) c" using tables_inD(3) [OF t, of "self c" c] by simp
  have ne: "?ak2 \<noteq> ?ak" "self c < nextPtr m" using ec fr by (auto simp: entry_ok_def)
  show "self c' = self c" "fsm c' = fsm c" by (simp_all add: c' c1)
  show "tables_ok (mod_of m' c')"
  proof (rule tables_inI)
    fix p
    show "\<exists>x. heap (mod_of m' c') p = Some x \<and> connSockPair x = key" if "tcpConnMap (mod_of m' c') key = Some p" for key
    proof (cases "key = connSockPair new")
      case True
      then show ?thesis using that ne(2) by (auto simp: c' mm c1)
    next
      case False
      then have "tcpConnMap m1 key = Some p" using that by (simp add: mm)
      then obtain x where x: "heap (mod_of m1 c1) p = Some x" "connSockPair x = key"
        using tables_inD(1) [OF t1, of key p] by auto
      show ?thesis
      proof (cases "p = self c")
        case True
        then have "x = c1" using x(1) c1(1) by simp
        then show ?thesis using x(2) True by (simp add: c' c1 kk)
      next
        case False
        then have "heap (mod_of m c) p = Some x" using x(1) by (simp add: c1 m1)
        then have "entry_ok {} (mod_of m c) p x" by (rule tables_inD(3) [OF t])
        then have "p < nextPtr m" by (simp add: entry_ok_def)
        then show ?thesis using x False by (simp add: c' mm c1 m1)
      qed
    qed
    show "\<exists>x. heap (mod_of m' c') p = Some x \<and> connAppKey x = key" if "tcpAppConnMap (mod_of m' c') key = Some p" for key
    proof (cases "key = ?ak \<or> key = ?ak2")
      case True
      then show ?thesis using that ne n by (auto simp: c' mm c1 split: if_splits)
    next
      case False
      then have k: "tcpAppConnMap m key = Some p" using that by (simp add: mm)
      then obtain x where x: "heap (mod_of m c) p = Some x" "connAppKey x = key" using tables_inD(2) [OF t, of key p] by auto
      have "p \<noteq> self c"
      proof
        assume "p = self c"
        then have "x = c" using x(1) by simp
        then show False using x(2) False by simp
      qed
      moreover have "p < nextPtr m" using tables_inD(3) [OF t x(1)] by (simp add: entry_ok_def)
      ultimately show ?thesis using x by (simp add: c' mm c1)
    qed
    show "entry_ok {} (mod_of m' c') p x" if x: "heap (mod_of m' c') p = Some x" for x
    proof (cases "p = self c \<or> p = nextPtr m")
      case True
      have e: "entry_ok {} (mod_of m1 c1) (self c) c1" using tables_inD(3) [OF t1, of "self c" c1] by (simp add: c1)
      then have l: "connSockPair c1 \<noteq> connSockPair new" "tcpConnMap m1 (connSockPair c1) = Some (self c)" "fsm c \<noteq> TCP_S_INIT"
        using k2 ec e1(3) c1(3) by (auto simp: entry_ok_def)
      show ?thesis
      proof (cases "p = self c")
        case True
        then have "x = ?c2" using x by (simp add: c' c1)
        then show ?thesis using True ne e l by (simp add: entry_ok_def mm c' c1 kk)
      next
        case False
        then have "p = nextPtr m" "x = new" using \<open>p = self c \<or> p = nextPtr m\<close> x ne(2) by (simp_all add: c' c1 mm)
        then show ?thesis using ne n by (simp add: entry_ok_def mm c')
      qed
    next
      case False
      then have y: "entry_ok {} (mod_of m1 c1) p x" and z: "entry_ok {} (mod_of m c) p x"
        using x tables_inD(3) [OF t1, of p x] tables_inD(3) [OF t, of p x] by (simp_all add: c' mm c1 m1)
      have "connAppKey x \<noteq> ?ak" using z ec False by (auto simp: entry_ok_def)
      moreover have "connAppKey x \<noteq> ?ak2" using z fr by (auto simp: entry_ok_def)
      moreover have "connSockPair x = connSockPair new \<Longrightarrow> fsm x = TCP_S_INIT" using y k2 by (auto simp: entry_ok_def)
      ultimately show ?thesis using y z False by (auto simp: entry_ok_def mm c' m1)
    qed
  qed
qed

section \<open>Transitions and the tables\<close>

lemma fsmNext_from_init: "fsmNext act TCP_S_INIT ev = (if ev = TCP_E_OPEN_ACTIVE then TCP_S_SYN_SENT
    else if ev = TCP_E_OPEN_PASSIVE then TCP_S_LISTEN else TCP_S_INIT)"
  by (cases ev) (simp_all add: fsmNext_def)

lemma fsmNext_keeps_open: "s \<noteq> TCP_S_INIT \<Longrightarrow> fsmNext act s ev \<noteq> TCP_S_INIT"
  using fsmNext_not_init by metis

lemma tables_replace:
  assumes t: "tables_in S (mod_of m c)" and d: "self d = self c" "connAppKey d = connAppKey c" "connSockPair d = connSockPair c"
    and wf: "conn_wf d" "tcpConnMap m (connSockPair c) = Some (self c) \<longleftrightarrow> fsm d \<noteq> TCP_S_INIT" and S: "S \<subseteq> {self c}"
  shows "tables_ok (mod_of m d)"
proof (rule tables_inI)
  fix p
  show "\<exists>x. heap (mod_of m d) p = Some x \<and> connSockPair x = key" if "tcpConnMap (mod_of m d) key = Some p" for key
    using tables_inD(1) [OF t, of key p] that d by (cases "p = self c") auto
  show "\<exists>x. heap (mod_of m d) p = Some x \<and> connAppKey x = key" if "tcpAppConnMap (mod_of m d) key = Some p" for key
    using tables_inD(2) [OF t, of key p] that d by (cases "p = self c") auto
  show "entry_ok {} (mod_of m d) p x" if "heap (mod_of m d) p = Some x" for x
  proof (cases "p = self c")
    case True
    then have "x = d" using that d(1) by simp
    moreover have "entry_ok S (mod_of m c) (self c) c" using tables_inD(3) [OF t, of "self c" c] by simp
    ultimately show ?thesis using wf d True by (simp add: entry_ok_def)
  next
    case False
    then have "p \<notin> S" using S by auto
    then show ?thesis using False tables_inD(3) [OF t, of p x] that d(1) by (simp add: entry_ok_def)
  qed
qed

lemma removeConnection_tables:
  assumes t: "tables_in S (mod_of m c)" and d: "self d = self c" "connAppKey d = connAppKey c" "connSockPair d = connSockPair c"
    and own: "tcpConnMap m (connSockPair c) = Some (self c)" and S: "S \<subseteq> {self c}"
  shows "tables_ok (removeConnection (m, d))"
proof (rule tables_inI)
  let ?r = "removeConnection (m, d)"
  have r: "tcpConnMap ?r = (tcpConnMap m)(connSockPair c := None)" "tcpAppConnMap ?r = (tcpAppConnMap m)(connAppKey c := None)"
    "heap ?r = (heap m)(self c := None)" "nextPtr ?r = nextPtr m"
    by (simp_all add: removeConnection_def d)
  have ec: "entry_ok S (mod_of m c) (self c) c" using tables_inD(3) [OF t, of "self c" c] by simp
  fix p
  show "\<exists>x. heap ?r p = Some x \<and> connSockPair x = key" if "tcpConnMap ?r key = Some p" for key
    using tables_inD(1) [OF t, of key p] that by (cases "p = self c") (auto simp: r split: if_splits)
  show "\<exists>x. heap ?r p = Some x \<and> connAppKey x = key" if "tcpAppConnMap ?r key = Some p" for key
    using tables_inD(2) [OF t, of key p] that by (cases "p = self c") (auto simp: r split: if_splits)
  show "entry_ok {} ?r p x" if x: "heap ?r p = Some x" for x
  proof -
    have p: "p \<noteq> self c" "p \<notin> S" using x S by (auto simp: r split: if_splits)
    have h: "entry_ok S (mod_of m c) p x" using tables_inD(3) [OF t, of p x] x by (simp add: r split: if_splits)
    then have "connAppKey x \<noteq> connAppKey c" using ec p by (auto simp: entry_ok_def)
    moreover have "tcpConnMap m (connSockPair x) = Some p \<Longrightarrow> connSockPair x \<noteq> connSockPair c" using own p by auto
    ultimately show ?thesis using h p by (auto simp: entry_ok_def r)
  qed
qed

lemma transition_tables:
  assumes t: "tables_in S (mod_of m c)" and S: "S \<subseteq> {self c}"
    and i: "fsm c = TCP_S_INIT \<Longrightarrow> self c \<in> S \<longleftrightarrow> ev \<in> {TCP_E_OPEN_ACTIVE, TCP_E_OPEN_PASSIVE}"
    and p: "performStateTransition ev c = Inr (keep, c')"
  shows "tables_ok (snd (checkIn keep (m, c')))"
proof -
  let ?s = "if ev = TCP_E_IGNORE then fsm c else fsmNext (active c) (fsm c) ev"
  have w: "who c' = who (c\<lparr>fsm := ?s\<rparr>)" "keep \<longleftrightarrow> fsm c' \<noteq> TCP_S_CLOSED" "fsm c \<noteq> TCP_S_CLOSED"
    using wpED [OF performStateTransition_who p] by auto
  have d: "self c' = self c" "connAppKey c' = connAppKey c" "connSockPair c' = connSockPair c" "fsm c' = ?s"
    "localPort c' = localPort c" "remotePort c' = remotePort c"
    using w(1) by (simp_all add: who_def connAppKey_def connSockPair_def)
  have ec: "entry_ok S (mod_of m c) (self c) c" using tables_inD(3) [OF t, of "self c" c] by simp
  have own: "tcpConnMap m (connSockPair c) = Some (self c) \<longleftrightarrow> ?s \<noteq> TCP_S_INIT"
    using ec i S fsmNext_keeps_open [of "fsm c" "active c" ev]
    by (cases "fsm c = TCP_S_INIT") (auto simp: entry_ok_def fsmNext_from_init)
  show ?thesis
  proof (cases keep)
    case True
    let ?d = "c'\<lparr>outbox := []\<rparr>"
    have "tables_ok (mod_of m ?d)"
    proof (rule tables_replace [OF t _ _ _ _ _ S])
      show "self ?d = self c" "connAppKey ?d = connAppKey c" "connSockPair ?d = connSockPair c"
        using d by (simp_all add: connAppKey_def connSockPair_def)
      show "conn_wf ?d" using ec d w(2) True by (simp add: conn_wf_def entry_ok_def)
      show "tcpConnMap m (connSockPair c) = Some (self c) \<longleftrightarrow> fsm ?d \<noteq> TCP_S_INIT" using own d(4) by simp
    qed
    then show ?thesis using True by (simp add: checkIn_def mod_of_def)
  next
    case False
    then have "tcpConnMap m (connSockPair c) = Some (self c)" using own w(2) d(4) by simp
    then show ?thesis
      using removeConnection_tables [OF t d(1-3) _ S] False by (simp add: checkIn_def)
  qed
qed

section \<open>The handlers and the tables\<close>

text \<open>The pair an operation returns is consistent, and belongs to the same connection in the same state.\<close>

definition same_conn :: "TCPConnection \<Rightarrow> TCP \<times> TCPConnection \<Rightarrow> bool" where
  "same_conn c = (\<lambda>(m', c'). tables_ok (mod_of m' c') \<and> self c' = self c \<and> fsm c' = fsm c)"

lemma same_conn_who: "same_conn c (m', d) \<Longrightarrow> who d' = who d \<Longrightarrow> same_conn c (m', d')"
  using tables_who [of "{}" m' d d'] by (auto simp: same_conn_def who_eq_iff)

definition free_key :: "TCPSegment \<Rightarrow> IPvXAddress \<Rightarrow> IPvXAddress \<Rightarrow> TCP \<Rightarrow> TCPConnection \<Rightarrow> bool" where
  "free_key seg src dest m c \<longleftrightarrow>
     tcpConnMap m (SockPair dest src (destPort seg) (srcPort seg)) \<in> {None, Some (self c)}"

definition ports_ok :: "TCPSegment \<Rightarrow> bool" where
  "ports_ok seg \<longleftrightarrow> c_short (srcPort seg) = srcPort seg \<and> c_short (destPort seg) = destPort seg"

definition fresh_id :: "TCP \<Rightarrow> bool" where
  "fresh_id m \<longleftrightarrow> (\<forall>g. tcpAppConnMap m (AppConnKey g (uniqueNumber m)) = None)"

lemma clone_conn:
  assumes "cloneListeningConnection p ptr c = (conn, c2)"
  shows "self conn = ptr" "fsm conn = TCP_S_LISTEN" "connAppKey conn = connAppKey c"
    "conn_wf c \<Longrightarrow> conn_wf conn" "who c2 = who c"
proof -
  define n where "n = (newTCPConnection ptr (now c) (appGateIndex c) (connId c))
      \<lparr>sendQueue := emptyLike_sq (sendQueue c), receiveQueue := emptyLike_rq (receiveQueue c), tcpAlgorithm := tcpAlgorithm c\<rparr>"
  have "who (alg_initialize n) = (ptr, appGateIndex c, connId c, unspecifiedAddr, unspecifiedAddr, - 1, - 1, TCP_S_INIT)"
    by (simp add: n_def) (simp add: who_def newTCPConnection_def)
  moreover have "conn = (alg_initialize n)\<lparr>active := False, fork := True, localAddr := localAddr c, localPort := localPort c,
      fsm := TCP_S_LISTEN\<rparr>" "c2 = configureStateVariables p c"
    using assms by (auto simp: cloneListeningConnection_def Let_def n_def configureStateVariables_def)
  ultimately show "who c2 = who c" "self conn = ptr" "fsm conn = TCP_S_LISTEN" "connAppKey conn = connAppKey c"
      "conn_wf c \<Longrightarrow> conn_wf conn"
    by (simp_all add: who_def connAppKey_def conn_wf_def configureStateVariables_def)
qed

lemma listen_socket_tables:
  assumes t: "tables_ok (mod_of m c)" "conn_wf c" and s: "ports_ok seg" "free_key seg src dest m c" "fresh_id m"
  shows "wpE (listen_socket seg src dest (m, c)) (same_conn c)"
proof (cases "fork c")
  case True
  obtain conn c2 where cl: "cloneListeningConnection (params m) (nextPtr m) c = (conn, c2)" by fastforce
  note k = clone_conn [OF cl] and w = who_keys [OF clone_conn(5) [OF cl]]
  have t2: "tables_ok (mod_of m c2)" by (rule tables_who [OF t(1) k(5)])
  have "tables_ok (mod_of m' c') \<and> self c' = self c \<and> fsm c' = fsm c"
    if "addForkedConnection conn dest src (destPort seg) (srcPort seg) (m\<lparr>nextPtr := nextPtr m + 1\<rparr>, c2) = Inr (m', c')" for m' c'
    using addForkedConnection_tables [OF t2 _ _ _ k(1,2) _ _ _ that] s t(2) k w
    by (simp add: ports_ok_def free_key_def fresh_id_def)
  then show ?thesis
    using True cl by (auto simp: listen_socket_def wpE_iff same_conn_def)
next
  case False
  have "tables_ok (mod_of m' c')" "self c' = self c \<and> fsm c' = fsm c"
    if "updateSockPair dest src (destPort seg) (srcPort seg) (m, c) = Inr (m', c')" for m' c'
    using updateSockPair_tables [OF t(1) _ _ _ that] updateSockPair_eq(1) [OF that] s
    by (simp_all add: ports_ok_def free_key_def)
  then show ?thesis
    using False by (auto simp: listen_socket_def wpE_iff same_conn_def)
qed

lemma listen_tables:
  assumes t: "tables_ok (mod_of m c)" "conn_wf c" and s: "ports_ok seg" "free_key seg src dest m c" "fresh_id m"
  shows "wpE (processSegmentInListen seg src dest (m, c)) (\<lambda>(ev, mc). same_conn c mc)"
proof -
  have own: "same_conn c (m, c)" using t by (simp add: same_conn_def)
  have rst: "wpE (sendRst_addr q a b i j c) (\<lambda>d. same_conn c (m, d))" for q a b i j
    by (rule wpE_mono [OF keeps_send(4)]) (auto intro: same_conn_who [OF own])
  have syn: "wpE (listen_syn seg d) (\<lambda>e. same_conn c (n, e))" if "same_conn c (n, d)" for n d
    by (rule wpE_mono [OF keeps_listen_syn]) (auto intro: same_conn_who [OF that])
  have sock: "wpE (bindE (listen_socket seg src dest (m, c)) (\<lambda>(m, c). bindE (listen_syn seg c) (\<lambda>c. Inr (TCP_E_RCV_SYN, m, c))))
      (\<lambda>(ev, mc). same_conn c mc)"
    unfolding wpE_bindE [of "listen_socket seg src dest (m, c)"]
    by (rule wpE_mono [OF listen_socket_tables [OF t s]]) (use syn in \<open>auto simp: wpE_bindE\<close>)
  show ?thesis
    using own rst sock by (simp add: processSegmentInListen_def wpE_bindE)
qed

lemma synSent_tables:
  assumes t: "tables_ok (mod_of m c)" and s: "ports_ok seg" "free_key seg src dest m c"
  shows "wpE (processSegmentInSynSent seg src dest (m, c)) (\<lambda>(ev, mc). same_conn c mc)"
proof -
  have own: "same_conn c (m, c)" using t by (simp add: same_conn_def)
  have rst: "wpE (sendRst_addr q a b i j c) (\<lambda>d. same_conn c (m, d))"
    "wpE (sendIndicationToApp ind c) (\<lambda>d. same_conn c (m, d))" for q a b i j ind
    by (rule wpE_mono [OF keeps_send(4)], simp, erule same_conn_who [OF own],
        rule wpE_mono [OF keeps_send(6)], simp, erule same_conn_who [OF own])
  have upd: "same_conn c (m', c')" if "who d = who c" "updateSockPair dest src (destPort seg) (srcPort seg) (m, d) = Inr (m', c')" for d m' c'
    using updateSockPair_tables [OF tables_who [OF t that(1)] _ _ _ that(2)] updateSockPair_eq(1) [OF that(2)] s that(1)
    by (simp add: ports_ok_def free_key_def same_conn_def who_eq_iff)
  have last: "wpE (bindE (if seqGreater (snd_una d) (iss d) then synSent_established seg d else synSent_simultaneous seg d)
      (\<lambda>(ev, e). Inr (ev, n, e))) (\<lambda>(ev, mc). same_conn c mc)" if "same_conn c (n, d)" for n d
    unfolding wpE_bindE
    by (rule wpE_mono [of _ "\<lambda>p. who (snd p) = who d"])
      (auto intro!: keeps_synSent simp: same_conn_who [OF that])
  have "wpE (synSent_syn seg src dest (m, c)) (\<lambda>(ev, mc). same_conn c mc)"
  proof -
    let ?c = "c\<lparr>rcv_nxt := sequenceNo seg + 1, irs := sequenceNo seg,
        receiveQueue := rq_init (sequenceNo seg + 1) (receiveQueue c)\<rparr>"
    let ?a = "if ackBit seg
        then bindE (discardUpTo (ackNo seg) (?c\<lparr>snd_una := ackNo seg\<rparr>)) (\<lambda>c.
             Inr (c\<lparr>snd_wnd := ucast (seg_window seg), snd_wl1 := sequenceNo seg, snd_wl2 := ackNo seg\<rparr>))
        else Inr ?c"
    have a: "wpE ?a (\<lambda>d. who d = who c)" by (auto intro!: who_intros)
    have b: "wpE (updateSockPair dest src (destPort seg) (srcPort seg) (m, d)) (same_conn c)" if "who d = who c" for d
      using upd [OF that] by (auto simp: wpE_iff)
    have "wpE (bindE (updateSockPair dest src (destPort seg) (srcPort seg) (m, d)) (\<lambda>(m, c).
        bindE (if seqGreater (snd_una c) (iss c) then synSent_established seg c else synSent_simultaneous seg c)
          (\<lambda>(ev, c). Inr (ev, m, c)))) (\<lambda>(ev, mc). same_conn c mc)" if "who d = who c" for d
      unfolding wpE_bindE [of "updateSockPair dest src (destPort seg) (srcPort seg) (m, d)"]
      by (rule wpE_mono [OF b [OF that]]) (simp only: split_paired_all prod.case, erule last)
    then show ?thesis
      unfolding synSent_syn_def Let_def prod.case wpE_bindE [of ?a]
      by (rule wpE_mono [OF a])
  qed
  then show ?thesis
    using own rst by (simp add: processSegmentInSynSent_def wpE_bindE)
qed

lemma rcv_segment_tables:
  assumes t: "tables_ok (mod_of m c)" "conn_wf c" and s: "ports_ok seg" "free_key seg src dest m c" "fresh_id m"
  shows "wpE (process_RCV_SEGMENT seg src dest (m, c)) (\<lambda>(ev, mc). same_conn c mc \<and> fsm c \<noteq> TCP_S_INIT)"
proof -
  have own: "same_conn c (m, c)" using t by (simp add: same_conn_def)
  have "wpE (processSegment1stThru8th seg c) (\<lambda>p. same_conn c (m, snd p))"
    by (rule wpE_mono [OF keeps_1stThru8th]) (auto intro: same_conn_who [OF own])
  then show ?thesis
    using listen_tables [OF t s] synSent_tables [OF t(1) s(1,2)]
    by (auto simp: process_RCV_SEGMENT_def wpE_bindE elim!: wpE_mono)
qed

text \<open>An event that has worked on a connection ends with a transition.\<close>

lemma finish_tables:
  assumes "same_conn c (m', c')" "fsm c \<noteq> TCP_S_INIT \<or> ev \<notin> {TCP_E_OPEN_ACTIVE, TCP_E_OPEN_PASSIVE}"
    and "performStateTransition ev c' = Inr (keep, c'')"
  shows "tables_ok (snd (checkIn keep (m', c'')))"
  by (rule transition_tables [OF _ _ _ assms(3)]) (use assms(1,2) in \<open>auto simp: same_conn_def\<close>)

lemma processTCPSegment_tables:
  assumes t: "tables_ok (mod_of m c)" "conn_wf c" and s: "ports_ok seg" "free_key seg src dest m c" "fresh_id m"
    and r: "processTCPSegment seg src dest (m, c) = Inr (keep, m', c')"
  shows "tables_ok (snd (checkIn keep (m', c')))"
proof -
  obtain ev m1 c1 where p: "process_RCV_SEGMENT seg src dest (m, c) = Inr (ev, m1, c1)"
    and q: "performStateTransition ev c1 = Inr (keep, c')" "m' = m1"
    using r by (auto simp: processTCPSegment_def tryFastRoute_def bindE_eq_Inr split: if_splits)
  have "same_conn c (m1, c1)" "fsm c \<noteq> TCP_S_INIT"
    using wpED [OF rcv_segment_tables [OF t s] p] by auto
  then show ?thesis using finish_tables q by blast
qed

lemma processTimer_tables:
  assumes t: "tables_ok (mod_of m c)" and r: "processTimer tm c = Inr (keep, c')"
  shows "tables_ok (snd (checkIn keep (m, c')))"
proof -
  let ?p = "case tm of
              The2MSL \<Rightarrow> retE TCP_E_TIMEOUT_2MSL (process_TIMEOUT_2MSL c)
            | ConnEstab \<Rightarrow> retE TCP_E_TIMEOUT_CONN_ESTAB (process_TIMEOUT_CONN_ESTAB c)
            | FinWait2 \<Rightarrow> retE TCP_E_TIMEOUT_FIN_WAIT_2 (process_TIMEOUT_FIN_WAIT_2 c)
            | SynRexmit \<Rightarrow> process_TIMEOUT_SYN_REXMIT TCP_E_IGNORE c
            | _ \<Rightarrow> alg_processTimer tm c"
  obtain ev c1 where p: "?p = Inr (ev, c1)" and q: "performStateTransition ev c1 = Inr (keep, c')"
    using r by (auto simp: processTimer_def bindE_eq_Inr)
  have "keeps2 (who c) ?p" by (cases tm) (simp_all add: who_intros)
  then have w: "who c1 = who c" using wpED [OF _ p] by fastforce
  have "wpE (alg_processTimer tm c) (\<lambda>p. fst p \<in> {TCP_E_IGNORE, TCP_E_ABORT})"
    using alg.timerHook_frame [OF hook_frame_refl, of tm c] by (auto elim!: wpE_mono)
  then have "wpE ?p (\<lambda>p. fst p \<notin> {TCP_E_OPEN_ACTIVE, TCP_E_OPEN_PASSIVE})"
    by (cases tm) (auto simp: retE_def process_TIMEOUT_SYN_REXMIT_def Let_def wpE_iff bindE_eq_Inr split: if_splits)
  then have "ev \<notin> {TCP_E_OPEN_ACTIVE, TCP_E_OPEN_PASSIVE}" using wpED [OF _ p] by fastforce
  moreover have "same_conn c (m, c1)" using same_conn_who [OF _ w] t by (simp add: same_conn_def)
  ultimately show ?thesis using finish_tables q by blast
qed

lemma searchPort_short: "c_short p = p \<Longrightarrow> searchPort n u used p = Inr q \<Longrightarrow> c_short q = q"
proof (induction n u used p rule: searchPort.induct)
  case (1 n u used p)
  have "c_short (nextPort p) = nextPort p"
    using c_short_bounds by (simp add: nextPort_def Let_def port_consts)
  then show ?case
    using 1 by (subst (asm) (2) searchPort.simps) (auto split: if_splits)
qed

lemma getEphemeralPort_short:
  assumes "getEphemeralPort m = Inr (p, m1)"
  shows "c_short p = p" "m1 = m\<lparr>lastEphemeralPort := p\<rparr>"
proof -
  have "c_short (nextPort x) = nextPort x" for x
    using c_short_bounds by (simp add: nextPort_def Let_def port_consts)
  then show "c_short p = p" "m1 = m\<lparr>lastEphemeralPort := p\<rparr>"
    using assms by (auto simp: getEphemeralPort_def Let_def bindE_eq_Inr elim: searchPort_short [rotated])
qed

lemma tables_cong:
  "tcpConnMap n = tcpConnMap m \<Longrightarrow> tcpAppConnMap n = tcpAppConnMap m \<Longrightarrow> heap n = heap m \<Longrightarrow> nextPtr n = nextPtr m \<Longrightarrow>
   tables_in S n = tables_in S m"
  by (simp add: tables_in_def entry_ok_def)

lemma tables_lastPort: "tables_in S (mod_of m c) \<Longrightarrow> tables_in S (mod_of (m\<lparr>lastEphemeralPort := p\<rparr>) c)"
  by (erule tables_cong [THEN iffD1, rotated -1]) simp_all

text \<open>What a command leaves behind.\<close>

definition opened :: "TCPEventCode \<times> TCP \<times> TCPConnection \<Rightarrow> bool" where
  "opened = (\<lambda>(ev, m', c'). \<exists>S. tables_in S (mod_of m' c') \<and> S \<subseteq> {self c'} \<and>
     (fsm c' = TCP_S_INIT \<longrightarrow> (self c' \<in> S \<longleftrightarrow> ev \<in> {TCP_E_OPEN_ACTIVE, TCP_E_OPEN_PASSIVE})))"

lemma openedI: "tables_ok (mod_of m c) \<Longrightarrow> who c' = who c \<Longrightarrow> ev \<notin> {TCP_E_OPEN_ACTIVE, TCP_E_OPEN_PASSIVE} \<Longrightarrow> opened (ev, m, c')"
  using tables_who [of "{}" m c c'] by (auto simp: opened_def intro!: exI [of _ "{}"])

lemma add_opened:
  assumes t: "tables_ok (mod_of m c)" and c: "who d = who c" "fsm c = TCP_S_INIT" and p: "c_short lp = lp" "c_short rp = rp"
    and ev: "ev \<in> {TCP_E_OPEN_ACTIVE, TCP_E_OPEN_PASSIVE}"
  shows "wpE (addSockPair la ra lp rp (m, d)) (\<lambda>(m', c'). \<forall>c''. who c'' = who c' \<longrightarrow> opened (ev, m', c''))"
proof (subst wpE_iff, clarify)
  fix m' c' c''
  assume a: "addSockPair la ra lp rp (m, d) = Inr (m', c')" and w: "who c'' = who c'"
  have f: "fsm d = TCP_S_INIT" using c by (simp add: who_eq_iff)
  have "tables_in {self c'} (mod_of m' c')"
    by (rule addSockPair_tables(1) [OF tables_who [OF t c(1)] f p a])
  then have "tables_in {self c'} (mod_of m' c'')" by (rule tables_who [OF _ w])
  moreover have "self c'' = self c'" using w by (simp add: who_eq_iff)
  ultimately show "opened (ev, m', c'')" using ev by (auto simp: opened_def)
qed

lemma open_passive_tables:
  assumes t: "tables_ok (mod_of m c)"
  shows "wpE (process_OPEN_PASSIVE info (m, c)) (\<lambda>(m', c'). opened (TCP_E_OPEN_PASSIVE, m', c'))"
proof -
  have add: "wpE (addSockPair la ra (c_short lp) (- 1) (m, x\<lparr>active := False, fork := b\<rparr>))
      (\<lambda>(m', c'). opened (TCP_E_OPEN_PASSIVE, m', c'))" if "who x = who c" "fsm c = TCP_S_INIT" for la ra lp b x
    by (rule wpE_mono [OF add_opened [OF t, of _ "c_short lp" "- 1" TCP_E_OPEN_PASSIVE]]) (use that in auto)
  have a: "wpE (bindE (initConnection (params m) cmd c) (\<lambda>c.
       let c = c\<lparr>active := False, fork := oc_fork cmd\<rparr>; lport = c_short (oc_localPort cmd)
       in if lport = - 1
          then Inl (RuntimeError ''Error processing command OPEN_PASSIVE: local port must be specified'')
          else addSockPair (oc_localAddr cmd) unspecifiedAddr lport (- 1) (m, c)))
      (\<lambda>(m', c'). opened (TCP_E_OPEN_PASSIVE, m', c'))" if "fsm c = TCP_S_INIT" for cmd
    unfolding wpE_bindE [of "initConnection (params m) cmd c"]
    by (rule wpE_mono [OF keeps_init [OF refl]]) (use add that in \<open>simp add: Let_def\<close>)
  show ?thesis
    by (cases info) (simp_all add: process_OPEN_PASSIVE_def asOpenCommand_def castError_def Let_def a [unfolded Let_def])
qed

lemma open_active_tables:
  assumes t: "tables_ok (mod_of m c)"
  shows "wpE (process_OPEN_ACTIVE info (m, c)) (\<lambda>(m', c'). opened (TCP_E_OPEN_ACTIVE, m', c'))"
proof -
  define s where "s = seqE [sendSyn, startSynRexmitTimer, scheduleTimeout ConnEstab TCP_TIMEOUT_CONN_ESTAB]"
  let ?Q = "\<lambda>(m', c'). opened (TCP_E_OPEN_ACTIVE, m', c')"
  have syn: "wpE (s (selectInitialSeqNum x)) (\<lambda>y. who y = who x)" for x
    by (auto simp: s_def selectInitialSeqNum_def Let_def intro!: who_intros)
  have add: "wpE (bindE (addSockPair la ra lp (c_short rp) (n, x\<lparr>active := True\<rparr>)) (\<lambda>(m, c).
      bindE (s (selectInitialSeqNum c)) (\<lambda>c. Inr (m, c)))) ?Q"
    if "tables_ok (mod_of n c)" "c_short lp = lp" "who x = who c" "fsm c = TCP_S_INIT" for n lp la ra rp x
    unfolding wpE_bindE [of "addSockPair la ra lp (c_short rp) (n, x\<lparr>active := True\<rparr>)"]
    by (rule wpE_mono [OF add_opened [OF that(1), of _ lp "c_short rp" TCP_E_OPEN_ACTIVE]])
      (use that in \<open>auto simp: wpE_bindE intro!: wpE_mono [OF syn]\<close>)
  have port: "wpE (bindE (if lp = - 1 then getEphemeralPort m else Inr (lp, m)) (\<lambda>(lport, m).
      bindE (addSockPair la ra lport (c_short rp) (m, x\<lparr>active := True\<rparr>)) (\<lambda>(m, c).
      bindE (s (selectInitialSeqNum c)) (\<lambda>c. Inr (m, c))))) ?Q"
    if "c_short lp = lp" "who x = who c" "fsm c = TCP_S_INIT" for lp la ra rp x
  proof (cases "lp = - 1")
    case True
    have "wpE (bindE (addSockPair la ra q (c_short rp) (n, x\<lparr>active := True\<rparr>)) (\<lambda>(m, c).
        bindE (s (selectInitialSeqNum c)) (\<lambda>c. Inr (m, c)))) ?Q" if "getEphemeralPort m = Inr (q, n)" for q n
      unfolding getEphemeralPort_short(2) [OF that]
      by (rule add [OF tables_lastPort [OF t] getEphemeralPort_short(1) [OF that] \<open>who x = who c\<close> \<open>fsm c = TCP_S_INIT\<close>])
    then show ?thesis using True by (cases "getEphemeralPort m") auto
  next
    case False
    then show ?thesis using add [OF t that] by simp
  qed
  have a: "wpE (bindE (initConnection (params m) cmd c) (\<lambda>c.
       let c = c\<lparr>active := True\<rparr>; lport = c_short (oc_localPort cmd); rport = c_short (oc_remotePort cmd)
       in if isUnspecified (oc_remoteAddr cmd) \<or> rport = - 1
          then Inl (RuntimeError ''Error processing command OPEN_ACTIVE: remote address and port must be specified'')
          else bindE (if lport = - 1 then getEphemeralPort m else Inr (lport, m)) (\<lambda>(lport, m).
               bindE (addSockPair (oc_localAddr cmd) (oc_remoteAddr cmd) lport rport (m, c)) (\<lambda>(m, c).
               bindE (s (selectInitialSeqNum c)) (\<lambda>c. Inr (m, c)))))) ?Q" if "fsm c = TCP_S_INIT" for cmd
    unfolding wpE_bindE [of "initConnection (params m) cmd c"]
    by (rule wpE_mono [OF keeps_init [OF refl]]) (use port that in \<open>simp add: Let_def\<close>)
  show ?thesis
    by (cases info) (simp_all add: process_OPEN_ACTIVE_def asOpenCommand_def castError_def Let_def a [unfolded s_def Let_def] del: seqE.simps)
qed

lemma appCommand_tables:
  assumes t: "tables_ok (mod_of m c)"
  shows "wpE (appCommand ev msg (m, c)) opened"
proof -
  have o: "opened (e, m, d)" if "who d = who c" "e \<notin> {TCP_E_OPEN_ACTIVE, TCP_E_OPEN_PASSIVE}" for e d
    by (rule openedI [OF t that])
  have one: "wpE (bindE f (\<lambda>d. Inr (e, m, d))) opened" if "keeps (who c) f" "e \<notin> {TCP_E_OPEN_ACTIVE, TCP_E_OPEN_PASSIVE}" for f e
    unfolding wpE_bindE by (rule wpE_mono [OF that(1)]) (use o that(2) in simp)
  have act: "wpE (bindE (process_OPEN_ACTIVE (am_info msg) (m, c)) (\<lambda>(m, c). Inr (TCP_E_OPEN_ACTIVE, m, c))) opened"
    unfolding wpE_bindE by (rule wpE_mono [OF open_active_tables [OF t]]) auto
  have pas: "wpE (bindE (process_OPEN_PASSIVE (am_info msg) (m, c)) (\<lambda>(m, c). Inr (TCP_E_OPEN_PASSIVE, m, c))) opened"
    unfolding wpE_bindE by (rule wpE_mono [OF open_passive_tables [OF t]]) auto
  have "wpE (process_CLOSE TCP_E_CLOSE c) (\<lambda>p. fst p \<in> {TCP_E_CLOSE, TCP_E_IGNORE})"
    by (auto simp: process_CLOSE_def wpE_iff bindE_eq_Inr split: if_splits)
  then have "wpE (process_CLOSE TCP_E_CLOSE c) (\<lambda>p. who (snd p) = who c \<and> fst p \<in> {TCP_E_CLOSE, TCP_E_IGNORE})"
    using keeps_CLOSE [OF refl] by (simp only: wpE_conj)
  then have cls: "wpE (bindE (process_CLOSE TCP_E_CLOSE c) (\<lambda>(ev, c). Inr (ev, m, c))) opened"
    unfolding wpE_bindE by (rule wpE_mono) (use o in auto)
  show ?thesis
    by (cases ev) (simp_all add: appCommand_def act pas cls one who_intros)
qed

lemma processAppCommand_tables:
  assumes t: "tables_ok (mod_of m c)" and r: "processAppCommand msg (m, c) = Inr (keep, m', c')"
  shows "tables_ok (snd (checkIn keep (m', c')))"
proof -
  obtain ev0 ev m1 c1 where p: "appCommand ev0 msg (m, c) = Inr (ev, m1, c1)"
    and q: "performStateTransition ev c1 = Inr (keep, c')" "m' = m1"
    using r by (auto simp: processAppCommand_def bindE_eq_Inr)
  obtain S where "tables_in S (mod_of m1 c1)" "S \<subseteq> {self c1}"
    "fsm c1 = TCP_S_INIT \<longrightarrow> (self c1 \<in> S \<longleftrightarrow> ev \<in> {TCP_E_OPEN_ACTIVE, TCP_E_OPEN_PASSIVE})"
    using wpED [OF appCommand_tables [OF t] p] by (auto simp: opened_def)
  then show ?thesis using transition_tables q by blast
qed

section \<open>The message handler and the tables\<close>

lemma checkOut_tables:
  assumes t: "tables_ok m" and c: "checkOut t' p m = Inr c"
  shows "tables_ok (mod_of m c)" "conn_wf c" "self c = p" "\<exists>d. heap m p = Some d \<and> who c = who d"
proof -
  obtain d where d: "heap m p = Some d" "who c = who d" using c by (auto simp: checkOut_def split: option.splits)
  have e: "entry_ok {} m p d" by (rule tables_inD(3) [OF t d(1)])
  then have s: "self d = p" by (simp add: entry_ok_def)
  then have "tables_ok (mod_of m d)"
    by (subst tables_cong [of _ m]) (use t d(1) in \<open>simp_all add: fun_upd_idem\<close>)
  then show "tables_ok (mod_of m c)" by (rule tables_who [OF _ d(2)])
  show "conn_wf c" "self c = p" using e d(2) s who_keys [OF d(2)] by (simp_all add: entry_ok_def)
  show "\<exists>d. heap m p = Some d \<and> who c = who d" using d by blast
qed

lemma handleSelfMessage_tables:
  "tables_ok m \<Longrightarrow> handleSelfMessage t p tm m = Inr (out, m') \<Longrightarrow> tables_ok m'"
proof -
  assume t: "tables_ok m" and r: "handleSelfMessage t p tm m = Inr (out, m')"
  obtain c keep c' where c: "checkOut t p m = Inr c"
    and q: "processTimer tm (c\<lparr>timers := (timers c)(tm := Idle)\<rparr>) = Inr (keep, c')" "(out, m') = checkIn keep (m, c')"
    using r by (auto simp: handleSelfMessage_def bindE_eq_Inr split: if_splits)
  have "tables_ok (mod_of m (c\<lparr>timers := (timers c)(tm := Idle)\<rparr>))"
    by (rule tables_who [OF checkOut_tables(1) [OF t c]]) simp
  then show "tables_ok m'" using processTimer_tables q by (metis snd_conv)
qed

lemma find_key:
  assumes t: "tables_ok m" and f: "findConnForSegment seg src dest m = Some p"
  obtains c where "heap m p = Some c" "fsm c \<noteq> TCP_S_INIT" "addressed seg src dest c"
    "tcpConnMap m (SockPair dest src (destPort seg) (srcPort seg)) \<in> {None, Some p}"
proof -
  obtain k where k: "tcpConnMap m k = Some p"
    "k \<in> {SockPair dest src (destPort seg) (srcPort seg), SockPair unspecifiedAddr src (destPort seg) (srcPort seg),
      SockPair dest unspecifiedAddr (destPort seg) (- 1), SockPair unspecifiedAddr unspecifiedAddr (destPort seg) (- 1)}"
    using f by (auto simp: findConnForSegment_def split: option.splits)
  obtain c where c: "heap m p = Some c" "connSockPair c = k" using tables_inD(1) [OF t k(1)] by blast
  have e: "entry_ok {} m p c" by (rule tables_inD(3) [OF t c(1)])
  have eq: "addr_equals a a" for a by (cases a) simp_all
  have un: "isUnspecified unspecifiedAddr" by (simp add: unspecifiedAddr_def)
  have "fsm c \<noteq> TCP_S_INIT" using e k(1) c(2) by (simp add: entry_ok_def)
  moreover have "addressed seg src dest c"
    using k(2) c(2) e eq un by (auto simp: addressed_def connSockPair_def entry_ok_def conn_wf_def)
  moreover have "tcpConnMap m (SockPair dest src (destPort seg) (srcPort seg)) \<in> {None, Some p}"
    using f by (auto simp: findConnForSegment_def split: option.splits)
  ultimately show thesis using c(1) that by blast
qed

lemma handleSegment_tables:
  assumes t: "tables_ok m" and s: "ports_ok seg" "fresh_id m" and r: "handleSegment t' seg src dest m = Inr (out, m')"
  shows "tables_ok m'"
proof (cases "findConnForSegment seg src dest m")
  case None
  then show ?thesis using r t by (auto simp: handleSegment_def bindE_eq_Inr)
next
  case (Some p)
  obtain c keep m1 c1 where c: "checkOut t' p m = Inr c"
    and q: "processTCPSegment seg src dest (m, c) = Inr (keep, m1, c1)" "(out, m') = checkIn keep (m1, c1)"
    using r Some by (auto simp: handleSegment_def bindE_eq_Inr)
  have "free_key seg src dest m c"
    using find_key [OF t Some] checkOut_tables(3) [OF t c] by (auto simp: free_key_def)
  then have "tables_ok (snd (checkIn keep (m1, c1)))"
    using processTCPSegment_tables [OF checkOut_tables(1,2) [OF t c] s(1) _ s(2) q(1)] by blast
  then show ?thesis using q(2) by (metis snd_conv)
qed

lemma create_tables:
  assumes t: "tables_ok m" and f: "tcpAppConnMap m (AppConnKey gate cid) = None"
    and r: "createConnection t' gate cid m = (p, m1)"
  shows "tables_ok (m1\<lparr>tcpAppConnMap := (tcpAppConnMap m1)(AppConnKey gate cid \<mapsto> p)\<rparr>)"
proof -
  let ?n = "newTCPConnection (nextPtr m) t' gate cid"
  let ?m = "m1\<lparr>tcpAppConnMap := (tcpAppConnMap m1)(AppConnKey gate cid \<mapsto> p)\<rparr>"
  have m: "tcpConnMap ?m = tcpConnMap m" "tcpAppConnMap ?m = (tcpAppConnMap m)(AppConnKey gate cid \<mapsto> nextPtr m)"
    "heap ?m = (heap m)(nextPtr m \<mapsto> ?n)" "nextPtr ?m = Suc (nextPtr m)"
    using r by (auto simp: createConnection_def)
  have n: "self ?n = nextPtr m" "conn_wf ?n" "connAppKey ?n = AppConnKey gate cid" "fsm ?n = TCP_S_INIT"
    by (simp_all add: newTCPConnection_def conn_wf_def connAppKey_def)
  have lt: "p < nextPtr m" if "heap m p = Some x" for p x
    using tables_inD(3) [OF t that] by (simp add: entry_ok_def)
  have none: "heap m (nextPtr m) = None" using lt [of "nextPtr m"] by (cases "heap m (nextPtr m)") auto
  show ?thesis
  proof (rule tables_inI)
    fix q
    show "\<exists>c. heap ?m q = Some c \<and> connSockPair c = k" if "tcpConnMap ?m k = Some q" for k
      using tables_inD(1) [OF t, of k q] that none by (auto simp: m)
    show "\<exists>c. heap ?m q = Some c \<and> connAppKey c = k" if "tcpAppConnMap ?m k = Some q" for k
      using tables_inD(2) [OF t, of k q] that none n by (auto simp: m split: if_splits)
    show "entry_ok {} ?m q c" if c: "heap ?m q = Some c" for c
    proof (cases "q = nextPtr m")
      case True
      have "tcpConnMap m k \<noteq> Some (nextPtr m)" for k
        using tables_inD(1) [OF t, of k "nextPtr m"] none by auto
      then show ?thesis using True c n by (simp add: entry_ok_def m)
    next
      case False
      then have e: "entry_ok {} m q c" using c tables_inD(3) [OF t, of q c] by (simp add: m)
      then show ?thesis using f by (auto simp: entry_ok_def m)
    qed
  qed
qed

lemma handleAppMessage_tables:
  assumes t: "tables_ok m" and r: "handleAppMessage t' msg m = Inr (out, m')"
  shows "tables_ok m'"
proof -
  obtain p n where n: "tables_ok n" and
    q: "bindE (checkOut t' p n) (\<lambda>c. bindE (processAppCommand msg (n, c)) (\<lambda>(keep, m, c). Inr (checkIn keep (m, c)))) = Inr (out, m')"
  proof (cases "findConnForApp (am_gate msg) (am_connId msg) m")
    case None
    obtain p m1 where c: "createConnection t' (am_gate msg) (am_connId msg) m = (p, m1)" by fastforce
    show thesis
      by (rule that [of "m1\<lparr>tcpAppConnMap := (tcpAppConnMap m1)(AppConnKey (am_gate msg) (am_connId msg) \<mapsto> p)\<rparr>" p])
        (use None c r create_tables [OF t _ c] in \<open>simp_all add: handleAppMessage_def findConnForApp_def\<close>)
  next
    case (Some p)
    then show thesis using r t by (intro that [of m p]) (simp_all add: handleAppMessage_def)
  qed
  obtain c keep m1 c1 where c: "checkOut t' p n = Inr c"
    and s: "processAppCommand msg (n, c) = Inr (keep, m1, c1)" "(out, m') = checkIn keep (m1, c1)"
    using q by (auto simp: bindE_eq_Inr)
  have "tables_ok (snd (checkIn keep (m1, c1)))"
    by (rule processAppCommand_tables [OF checkOut_tables(1) [OF n c] s(1)])
  then show ?thesis using s(2) by (metis snd_conv)
qed

section \<open>Properties\<close>

text \<open>
  The states a module can get into: it handles messages one after the other.  The simulator gives every
  event a number that is not in use as a connection id, and the ports in a segment are \<open>short\<close>s.
\<close>

fun msg_ok :: "TCPMessage \<Rightarrow> bool" where
  "msg_ok (SegmentFromIP seg src dest) = ports_ok seg"
| "msg_ok _ = True"

inductive tcp_run :: "TCPParams \<Rightarrow> TCP \<Rightarrow> bool" for p where
  start: "tcp_run p (TCP_initialize p)"
| event: "tcp_run p m \<Longrightarrow> msg_ok msg \<Longrightarrow> \<forall>g. findConnForApp g uid m = None \<Longrightarrow>
    handleMessage t uid msg m = Inr (sent, m') \<Longrightarrow> tcp_run p m'"

lemma handleMessage_tables:
  assumes "tables_ok m" "msg_ok msg" "\<forall>g. findConnForApp g uid m = None" "handleMessage t uid msg m = Inr (sent, m')"
  shows "tables_ok m'"
proof -
  have t: "tables_ok (m\<lparr>uniqueNumber := uid\<rparr>)"
    by (subst tables_cong [of _ m]) (use assms(1) in simp_all)
  have f: "fresh_id (m\<lparr>uniqueNumber := uid\<rparr>)" using assms(3) by (simp add: fresh_id_def findConnForApp_def)
  show ?thesis
    using assms(2,4) t f handleSelfMessage_tables [OF t] handleSegment_tables [OF t _ f] handleAppMessage_tables [OF t]
    by (cases msg) (auto simp: handleMessage_def)
qed

lemma tcp_run_tables: "tcp_run p m \<Longrightarrow> tables_ok m"
proof (induction rule: tcp_run.induct)
  case start
  show ?case by (simp add: tables_in_def TCP_initialize_def)
next
  case (event m msg uid t sent m')
  then show ?case using handleMessage_tables by blast
qed

text \<open>
  Property C2: the tables of the module are consistent in every state it can reach.  Each
  connection in the heap is found under its application key, and, once it has been opened, under its socket pair;
  conversely every entry of the two maps points to a live connection with that key, so that no
  pointer dangles and no two connections share a key; closed connections are gone.
\<close>

theorem tables_consistent:
  assumes "tcp_run p m"
  shows "(\<forall>k q. tcpConnMap m k = Some q \<longrightarrow> (\<exists>c. heap m q = Some c \<and> connSockPair c = k \<and> fsm c \<noteq> TCP_S_INIT)) \<and>
    (\<forall>k q. tcpAppConnMap m k = Some q \<longrightarrow> (\<exists>c. heap m q = Some c \<and> connAppKey c = k)) \<and>
    (\<forall>q c. heap m q = Some c \<longrightarrow> self c = q \<and> fsm c \<noteq> TCP_S_CLOSED \<and>
       findConnForApp (appGateIndex c) (connId c) m = Some q \<and>
       (fsm c \<noteq> TCP_S_INIT \<longrightarrow> tcpConnMap m (connSockPair c) = Some q))"
proof (intro conjI allI impI)
  have t: "tables_ok m" using assms by (rule tcp_run_tables)
  have e: "entry_ok {} m q c" if "heap m q = Some c" for q c by (rule tables_inD(3) [OF t that])
  fix q c k
  show "\<exists>c. heap m q = Some c \<and> connSockPair c = k \<and> fsm c \<noteq> TCP_S_INIT" if k: "tcpConnMap m k = Some q"
  proof -
    obtain c where c: "heap m q = Some c" "connSockPair c = k" using tables_inD(1) [OF t k] by blast
    then show ?thesis using e [OF c(1)] k by (auto simp: entry_ok_def)
  qed
  show "self c = q" "fsm c \<noteq> TCP_S_CLOSED" "findConnForApp (appGateIndex c) (connId c) m = Some q" if "heap m q = Some c"
    using e [OF that] by (simp_all add: entry_ok_def conn_wf_def findConnForApp_def connAppKey_def)
  show "tcpConnMap m (connSockPair c) = Some q" if "heap m q = Some c" "fsm c \<noteq> TCP_S_INIT"
    using e [OF that(1)] that(2) by (simp add: entry_ok_def)
next
  fix q k
  show "\<exists>c. heap m q = Some c \<and> connAppKey c = k" if "tcpAppConnMap m k = Some q"
    using tables_inD(2) [OF tcp_run_tables [OF assms] that] .
qed

text \<open>A module with one listening connection.\<close>

definition listen_msg :: AppMessage where
  "listen_msg = \<lparr>am_kind = 2, am_gate = 0, am_connId = 5, am_info = OpenInfo \<lparr>oc_localAddr = unspecifiedAddr,
     oc_remoteAddr = unspecifiedAddr, oc_localPort = 80, oc_remotePort = - 1, oc_fork = True, oc_sendQueueClass = [],
     oc_receiveQueueClass = [], oc_tcpAlgorithmClass = []\<rparr>, am_packet = None\<rparr>"

definition demo_listening :: TCP where
  "demo_listening = (case handleMessage 0 99 (FromApp listen_msg) demo_module of Inr (ms, m) \<Rightarrow> m | Inl e \<Rightarrow> demo_module)"

lemmas open_simps = handleMessage_def handleAppMessage_def findConnForApp_def createConnection_def checkOut_def
  processAppCommand_def preanalyseAppCommandEvent_def appCommand_def process_OPEN_PASSIVE_def asOpenCommand_def
  initConnection_def createSendQueue_def createReceiveQueue_def createAlgorithm_def alg_initialize_def
  base_initialize_def configureStateVariables_def createStateVariables_def initStateVariables_def
  initBaseAlgStateVariables_def initTahoeRenoStateVariables_def addSockPair_def performStateTransition_def fsmNext_def
  stateEntered_def checkIn_def newTCPConnection_def cancelEvent_def connSockPair_def

lemma demo_listening_event:
  "\<exists>m'. handleMessage 0 99 (FromApp listen_msg) demo_module = Inr ([], m') \<and>
     tcpConnMap m' = [SockPair unspecifiedAddr unspecifiedAddr 80 (- 1) \<mapsto> 0]"
  by (simp add: listen_msg_def demo_module_def TCP_initialize_def open_simps port_consts Let_def whenE_def assertE_def)

lemma demo_listening_run:
  "tcp_run (params demo_module) demo_listening"
  "tcpConnMap demo_listening = [SockPair unspecifiedAddr unspecifiedAddr 80 (- 1) \<mapsto> 0]"
proof -
  obtain m' where m: "handleMessage 0 99 (FromApp listen_msg) demo_module = Inr ([], m')"
    "tcpConnMap m' = [SockPair unspecifiedAddr unspecifiedAddr 80 (- 1) \<mapsto> 0]"
    using demo_listening_event by blast
  then have d: "demo_listening = m'" by (simp add: demo_listening_def)
  have "TCP_initialize (params demo_module) = demo_module" by (simp add: demo_module_def TCP_initialize_def)
  then have "tcp_run (params demo_module) demo_module" using tcp_run.start [of "params demo_module"] by simp
  moreover have "\<forall>g. findConnForApp g 99 demo_module = None"
    by (simp add: demo_module_def TCP_initialize_def findConnForApp_def)
  ultimately show "tcp_run (params demo_module) demo_listening" 
    unfolding d using m(1) by (auto intro: tcp_run.event [of _ _ "FromApp listen_msg"])
  show "tcpConnMap demo_listening = [SockPair unspecifiedAddr unspecifiedAddr 80 (- 1) \<mapsto> 0]" using m(2) d by simp
qed

theorem tables_consistent_witness:
  "\<exists>c. heap demo_listening 0 = Some c \<and> connSockPair c = SockPair unspecifiedAddr unspecifiedAddr 80 (- 1) \<and>
     fsm c \<noteq> TCP_S_INIT"
  using tables_consistent [OF demo_listening_run(1)] by (auto simp: demo_listening_run(2))

text \<open>
  Property C18: a segment reaches the connection it is addressed to.  In every reachable state in which no IPv4 address of a socket pair,
  or of the keys made for the segment, has the same first word as an IPv6 address, the look-ups in the \<open>std::map\<close> with the order of the
  source have one possible result.  The connection found is alive, open, and passes the two address assertions at
  the head of \<open>processTCPSegment\<close>; and a connection whose socket pair is exactly that of the
  segment is preferred over those with wildcards.
\<close>

theorem segment_reaches_connection:
  assumes "tcp_run p m" "keys_apart seg src dest m"
  shows "(\<forall>r. stdFindFirst (tcpConnMap m) (segmentKeys seg src dest) r \<longleftrightarrow> r = findConnForSegment seg src dest m) \<and>
    (\<forall>q. findConnForSegment seg src dest m = Some q \<longrightarrow>
      (\<exists>c. checkOut t q m = Inr c \<and> addressed seg src dest c \<and> fsm c \<notin> {TCP_S_INIT, TCP_S_CLOSED} \<and>
        (\<forall>r d. heap m r = Some d \<and> fsm d \<noteq> TCP_S_INIT \<and> connSockPair d = SockPair dest src (destPort seg) (srcPort seg) \<longrightarrow> q = r)))"
proof (intro conjI allI impI)
  show "stdFindFirst (tcpConnMap m) (segmentKeys seg src dest) r \<longleftrightarrow> r = findConnForSegment seg src dest m" for r
    using assms(2) by (rule stdFindFirst_eq)
next
  fix q assume f: "findConnForSegment seg src dest m = Some q"
  have t: "tables_ok m" using assms(1) by (rule tcp_run_tables)
  obtain c where c: "heap m q = Some c" "fsm c \<noteq> TCP_S_INIT" "addressed seg src dest c"
    "tcpConnMap m (SockPair dest src (destPort seg) (srcPort seg)) \<in> {None, Some q}"
    using find_key [OF t f] by blast
  have e: "entry_ok {} m r d" if "heap m r = Some d" for r d by (rule tables_inD(3) [OF t that])
  have "q = r" if "heap m r = Some d" "fsm d \<noteq> TCP_S_INIT" "connSockPair d = SockPair dest src (destPort seg) (srcPort seg)" for r d
    using e [OF that(1)] that(2,3) c(4) by (auto simp: entry_ok_def)
  moreover have "fsm c \<noteq> TCP_S_CLOSED" using e [OF c(1)] by (simp add: entry_ok_def conn_wf_def)
  ultimately show "\<exists>c. checkOut t q m = Inr c \<and> addressed seg src dest c \<and> fsm c \<notin> {TCP_S_INIT, TCP_S_CLOSED} \<and>
        (\<forall>r d. heap m r = Some d \<and> fsm d \<noteq> TCP_S_INIT \<and> connSockPair d = SockPair dest src (destPort seg) (srcPort seg) \<longrightarrow> q = r)"
    using c by (intro exI [of _ "c\<lparr>now := t, outbox := []\<rparr>"]) (auto simp: checkOut_def addressed_def)
qed

theorem segment_reaches_connection_witness:
  "\<exists>c. checkOut 1 0 demo_listening = Inr c \<and>
     addressed (createTCPSegment\<lparr>srcPort := 1025, destPort := 80, synBit := True\<rparr>) (IPv4 1) (IPv4 2) c"
proof -
  let ?g = "createTCPSegment\<lparr>srcPort := 1025, destPort := 80, synBit := True\<rparr>"
  have f: "findConnForSegment ?g (IPv4 1) (IPv4 2) demo_listening = Some 0"
    by (simp add: findConnForSegment_def createTCPSegment_def demo_listening_run(2) unspecifiedAddr_def)
  have "keys_apart ?g (IPv4 1) (IPv4 2) demo_listening"
    by (auto simp: keys_apart_def segmentKeys_def demo_listening_run(2) unspecifiedAddr_def key_compat_def addr_compat_def split: if_splits)
  then show ?thesis
    using segment_reaches_connection [OF demo_listening_run(1), of ?g "IPv4 1" "IPv4 2" 1] f by blast
qed

end
