(* ===== verification/IP_Address.thy ===== *)
theory IP_Address
  imports TCP_Prelude
begin

text \<open>
  IPv4 addresses (\<open>IPAddress.h\<close>, \<open>IPAddress.cc\<close>): an address is one 32-bit word.  Octets,
  classes, masks and prefixes, and the textual form.  The lemmas tie the three ways in which the
  sources compare prefixes to each other, and printing to parsing.
\<close>

unbundle bit_operations_syntax

section \<open>Octets, classes, masks\<close>

type_synonym IPAddress = u32

definition UNSPECIFIED_ADDRESS :: IPAddress where "UNSPECIFIED_ADDRESS = 0"
definition LOOPBACK_ADDRESS :: IPAddress where "LOOPBACK_ADDRESS = 0x7F000001"
definition LOOPBACK_NETMASK :: IPAddress where "LOOPBACK_NETMASK = 0xFF000000"
definition ALLONES_ADDRESS :: IPAddress where "ALLONES_ADDRESS = 0xFFFFFFFF"

definition ip_isUnspecified :: "IPAddress \<Rightarrow> bool" where
  "ip_isUnspecified a \<longleftrightarrow> a = 0"

definition ip_set4 :: "int \<Rightarrow> int \<Rightarrow> int \<Rightarrow> int \<Rightarrow> IPAddress" where
  "ip_set4 i0 i1 i2 i3 =
     push_bit 24 (word_of_int i0) OR push_bit 16 (word_of_int i1) OR push_bit 8 (word_of_int i2) OR word_of_int i3"

definition getDByte :: "IPAddress \<Rightarrow> nat \<Rightarrow> int" where
  "getDByte a i = uint (drop_bit ((3 - i) * 8) a AND 0xFF)"

definition getIPClass :: "IPAddress \<Rightarrow> char" where
  "getIPClass a =
     (let buf = getDByte a 0
      in if buf AND 0x80 = 0 then CHR ''A''
         else if buf AND 0xC0 = 0x80 then CHR ''B''
         else if buf AND 0xE0 = 0xC0 then CHR ''C''
         else if buf AND 0xF0 = 0xE0 then CHR ''D''
         else if buf AND 0xF8 = 0xF0 then CHR ''E''
         else CHR ''?'')"

definition getNetwork :: "IPAddress \<Rightarrow> IPAddress" where
  "getNetwork a =
     (if getIPClass a = CHR ''A'' then ip_set4 (getDByte a 0) 0 0 0
      else if getIPClass a = CHR ''B'' then ip_set4 (getDByte a 0) (getDByte a 1) 0 0
      else if getIPClass a = CHR ''C'' then ip_set4 (getDByte a 0) (getDByte a 1) (getDByte a 2) 0
      else 0)"

definition getNetworkMask :: "IPAddress \<Rightarrow> IPAddress" where
  "getNetworkMask a =
     (if getIPClass a = CHR ''A'' then ip_set4 255 0 0 0
      else if getIPClass a = CHR ''B'' then ip_set4 255 255 0 0
      else if getIPClass a = CHR ''C'' then ip_set4 255 255 255 0
      else 0)"

definition maskedAddrAreEqual :: "IPAddress \<Rightarrow> IPAddress \<Rightarrow> IPAddress \<Rightarrow> bool" where
  "maskedAddrAreEqual addr1 addr2 netmask \<longleftrightarrow> (addr1 XOR addr2) AND netmask = 0"

definition ip_isNetwork :: "IPAddress \<Rightarrow> IPAddress \<Rightarrow> bool" where
  "ip_isNetwork a toCmp \<longleftrightarrow>
     (let netmask = getNetworkMask a
      in if ip_isUnspecified netmask then False else maskedAddrAreEqual a toCmp netmask)"

definition ip_isMulticast :: "IPAddress \<Rightarrow> bool" where
  "ip_isMulticast a \<longleftrightarrow> a AND 0xF0000000 = 0xE0000000"

definition ip_isLinkLocalMulticast :: "IPAddress \<Rightarrow> bool" where
  "ip_isLinkLocalMulticast a \<longleftrightarrow> a AND 0xFFFFFF00 = 0xE0000000"

definition doAnd :: "IPAddress \<Rightarrow> IPAddress \<Rightarrow> IPAddress" where
  "doAnd a b = a AND b"

definition getBroadcastAddress :: "IPAddress \<Rightarrow> IPAddress \<Rightarrow> IPAddress" where
  "getBroadcastAddress a netmask = a OR NOT netmask"

definition prefixMatches :: "IPAddress \<Rightarrow> IPAddress \<Rightarrow> int \<Rightarrow> bool" where
  "prefixMatches a to_cmp numbits =
     (if numbits < 1 then True
      else if numbits > 31 then a = to_cmp
      else let m = NOT (drop_bit (nat numbits) (0xFFFFFFFF :: u32))
           in a AND m = to_cmp AND m)"

text \<open>The loop of \<open>getNumMatchingPrefixBits\<close>, from bit 31 down; \<open>k\<close> is \<open>i + 1\<close>.\<close>

fun matchLoop :: "u32 \<Rightarrow> nat \<Rightarrow> int" where
  "matchLoop r 0 = 32"
| "matchLoop r (Suc i) = (if r AND push_bit i 1 \<noteq> 0 then 31 - int i else matchLoop r i)"

definition getNumMatchingPrefixBits :: "IPAddress \<Rightarrow> IPAddress \<Rightarrow> int" where
  "getNumMatchingPrefixBits a to_cmp = matchLoop (a XOR to_cmp) 32"

text \<open>The loop of \<open>getNetmaskLength\<close>: \<open>for (i=0; i<31; i++)\<close>.\<close>

fun netmaskLoop :: "u32 \<Rightarrow> nat \<Rightarrow> nat \<Rightarrow> int" where
  "netmaskLoop a i 0 = 0"
| "netmaskLoop a i (Suc n) = (if a AND push_bit i 1 \<noteq> 0 then 32 - int i else netmaskLoop a (i + 1) n)"

definition getNetmaskLength :: "IPAddress \<Rightarrow> int" where
  "getNetmaskLength a = netmaskLoop a 0 31"

definition keepFirstBits :: "nat \<Rightarrow> IPAddress \<Rightarrow> IPAddress" where
  "keepFirstBits n a = a AND push_bit n 0xFFFFFFFF"

section \<open>Text\<close>

definition isDigit :: "char \<Rightarrow> bool" where
  "isDigit c \<longleftrightarrow> (48 :: nat) \<le> of_char c \<and> of_char c \<le> (57 :: nat)"

text \<open>\<open>while (*s>='0' && *s<='9') num = 10*num + (*s++ - '0')\<close>, in the arithmetic of an \<open>int\<close>.\<close>

fun readNumber :: "int \<Rightarrow> string \<Rightarrow> int \<times> string" where
  "readNumber num [] = (num, [])"
| "readNumber num (c # s) =
     (if isDigit c then readNumber (c_int (10 * num + (of_char c - 48))) s else (num, c # s))"

lemma readNumber_length: "length (snd (readNumber n s)) \<le> length s"
  by (induction n s rule: readNumber.induct) auto

text \<open>The outer loop; the octets stored so far are the first argument.\<close>

function parseOctets :: "int list \<Rightarrow> string \<Rightarrow> int list option" where
  "parseOctets tobytes s =
     (case s of
        [] \<Rightarrow> None
      | c # _ \<Rightarrow>
          if \<not> isDigit c then None
          else let (num, rest) = readNumber 0 s
               in if num > 255 then None
                  else let tobytes = tobytes @ [num mod 256]
                       in case rest of
                            [] \<Rightarrow> if length tobytes = 4 then Some tobytes else None
                          | d # rest' \<Rightarrow>
                              if d \<noteq> CHR ''.'' then None
                              else if length tobytes = 4 then None
                              else parseOctets tobytes rest')"
  by pat_completeness auto
termination
proof (relation "measure (length \<circ> snd)")
  fix tobytes :: "int list" and s c t n m rest tb d rest'
  assume "s = c # t" "\<not> \<not> isDigit c" "n = readNumber 0 s" "(m, rest) = n" "rest = d # rest'"
  then have "length rest \<le> length s" using readNumber_length [of 0 s] by (metis snd_conv)
  then show "((tb, rest'), tobytes, s) \<in> measure (length \<circ> snd)" using \<open>rest = d # rest'\<close> by simp
qed simp

declare parseOctets.simps [simp del]

definition parseIPAddress :: "string \<Rightarrow> int list option" where
  "parseIPAddress text = (if text = ''<unspec>'' then Some [0, 0, 0, 0] else parseOctets [] text)"

definition ip_setText :: "string \<Rightarrow> IPAddress res" where
  "ip_setText text = (case parseIPAddress text of
       Some [a, b, c, d] \<Rightarrow> Inr (ip_set4 a b c d)
     | _ \<Rightarrow> Inl (RuntimeError ''Invalid IP address string''))"

definition ip_isWellFormed :: "string \<Rightarrow> bool" where
  "ip_isWellFormed text \<longleftrightarrow> parseIPAddress text \<noteq> None"

text \<open>\<open>%u\<close> of \<open>sprintf\<close>.\<close>

fun showDec :: "nat \<Rightarrow> string" where
  "showDec n = (if n < 10 then [char_of (48 + n)] else showDec (n div 10) @ [char_of (48 + n mod 10)])"

declare showDec.simps [simp del]

definition ip_str :: "IPAddress \<Rightarrow> string" where
  "ip_str a =
     (if ip_isUnspecified a then ''<unspec>''
      else showDec (unat (drop_bit 24 a AND 255)) @ ''.'' @ showDec (unat (drop_bit 16 a AND 255)) @ ''.'' @
           showDec (unat (drop_bit 8 a AND 255)) @ ''.'' @ showDec (unat (a AND 255)))"

section \<open>Prefixes\<close>

text \<open>The mask of a prefix of \<open>n\<close> bits, and agreement on such a prefix bit by bit.\<close>

definition netmask_of :: "nat \<Rightarrow> IPAddress" where
  "netmask_of n = NOT (drop_bit n (- 1))"

definition same_prefix :: "nat \<Rightarrow> IPAddress \<Rightarrow> IPAddress \<Rightarrow> bool" where
  "same_prefix n a b \<longleftrightarrow> (\<forall>i < 32. 32 \<le> i + n \<longrightarrow> bit a i = bit b i)"

lemma bit_netmask_of: "i < 32 \<Longrightarrow> bit (netmask_of n) i \<longleftrightarrow> 32 \<le> i + n"
  by (auto simp: netmask_of_def bit_not_iff bit_mask_iff)

lemma u32_eqI: "(\<forall>i < 32. bit (a :: u32) i = bit b i) \<Longrightarrow> a = b"
  by (rule bit_word_eqI) simp

lemma u32_eq_iff: "(a :: u32) = b \<longleftrightarrow> (\<forall>i < 32. bit a i = bit b i)"
  using u32_eqI by auto

lemma masked_same_prefix: "maskedAddrAreEqual a b (netmask_of n) \<longleftrightarrow> same_prefix n a b"
  by (auto simp: maskedAddrAreEqual_def same_prefix_def u32_eq_iff bit_and_iff bit_xor_iff bit_netmask_of)

lemma prefixMatches_same_prefix:
  assumes "n \<le> 32"
  shows "prefixMatches a b (int n) \<longleftrightarrow> same_prefix n a b"
proof -
  have m: "(0xFFFFFFFF :: u32) = - 1" by simp
  have "a AND netmask_of n = b AND netmask_of n \<longleftrightarrow> same_prefix n a b"
    by (auto simp: same_prefix_def u32_eq_iff bit_and_iff bit_netmask_of)
  moreover have "same_prefix 32 a b \<longleftrightarrow> a = b" "same_prefix 0 a b"
    by (auto simp: same_prefix_def u32_eq_iff)
  ultimately show ?thesis
    using assms by (cases "n = 0"; cases "n = 32") (auto simp: prefixMatches_def Let_def m netmask_of_def simp del: semiring_1_class.of_nat_0)
qed

lemma matchLoop_ge: "n \<le> 32 \<Longrightarrow> k \<le> 32 \<Longrightarrow> int n \<le> matchLoop r k \<longleftrightarrow> (\<forall>i < k. 32 \<le> i + n \<longrightarrow> \<not> bit r i)"
  by (induction k) (auto simp: and_exp_eq_0_iff_not_bit less_Suc_eq)

lemma matching_same_prefix: "n \<le> 32 \<Longrightarrow> int n \<le> getNumMatchingPrefixBits a b \<longleftrightarrow> same_prefix n a b"
  by (simp add: getNumMatchingPrefixBits_def matchLoop_ge bit_xor_iff same_prefix_def)

lemma netmaskLoop_none: "\<forall>j < n. \<not> bit a (i + j) \<Longrightarrow> netmaskLoop a i n = 0"
proof (induction n arbitrary: i)
  case (Suc n)
  have "\<forall>j < n. \<not> bit a (Suc i + j)" using Suc.prems by (metis add_Suc_shift Suc_mono)
  then show ?case
    using Suc.IH [of "Suc i"] Suc.prems [rule_format, of 0] by (simp add: and_exp_eq_0_iff_not_bit)
qed simp

lemma netmaskLoop_first:
  "\<forall>j < k. \<not> bit a (i + j) \<Longrightarrow> bit a (i + k) \<Longrightarrow> k < n \<Longrightarrow> netmaskLoop a i n = 32 - int (i + k)"
proof (induction n arbitrary: i k)
  case (Suc n)
  show ?case
  proof (cases k)
    case 0
    then show ?thesis using Suc.prems by (simp add: and_exp_eq_0_iff_not_bit)
  next
    case (Suc l)
    have "\<forall>j < l. \<not> bit a (Suc i + j)" using Suc.prems(1) Suc by (metis add_Suc_shift Suc_mono)
    then have "netmaskLoop a (Suc i) n = 32 - int (Suc i + l)"
      using Suc.IH Suc.prems(2,3) Suc by simp
    then show ?thesis
      using Suc.prems(1) [rule_format, of 0] Suc by (simp add: and_exp_eq_0_iff_not_bit)
  qed
qed simp

lemma getNetmaskLength_of: "n \<le> 32 \<Longrightarrow> getNetmaskLength (netmask_of n) = (if n = 1 then 0 else int n)"
proof (cases "n \<le> 1")
  case True
  moreover have "\<forall>j < 31. \<not> bit (netmask_of n) (0 + j)" using True by (auto simp: bit_netmask_of)
  ultimately show ?thesis unfolding getNetmaskLength_def by (subst netmaskLoop_none) auto
next
  case False
  assume n: "n \<le> 32"
  have "\<forall>j < 32 - n. \<not> bit (netmask_of n) (0 + j)" "bit (netmask_of n) (0 + (32 - n))" "32 - n < 31"
    using n False by (auto simp: bit_netmask_of)
  from netmaskLoop_first [OF this] show ?thesis using n False by (simp add: getNetmaskLength_def)
qed

section \<open>Printing and parsing\<close>

lemma isDigit_char: "k < 10 \<Longrightarrow> isDigit (char_of (48 + k :: nat))"
  by (simp add: isDigit_def)

lemma of_char_digit: "k < 10 \<Longrightarrow> (of_char (char_of (48 + k :: nat)) :: int) = 48 + int k"
proof -
  assume "k < 10"
  then have "(of_char (char_of (48 + k :: nat)) :: nat) = 48 + k" by simp
  then show ?thesis by (metis of_nat_of_char of_nat_add of_nat_numeral)
qed

lemma readNumber_digit:
  "k < 10 \<Longrightarrow> readNumber n (char_of (48 + k :: nat) # s) = readNumber (c_int (10 * n + int k)) s"
  by (simp add: isDigit_char of_char_digit)

text \<open>A number of at most three digits is read back.\<close>

lemma readNumber_showDec:
  assumes "n < 256" "rest = [] \<or> \<not> isDigit (hd rest)"
  shows "readNumber 0 (showDec n @ rest) = (int n, rest)"
proof -
  have stop: "readNumber k rest = (k, rest)" for k
    using assms(2) by (cases rest) auto
  consider "n < 10" | "10 \<le> n" "n < 100" | "100 \<le> n" by linarith
  then show ?thesis
  proof cases
    case 1
    then show ?thesis by (simp add: showDec.simps [of n] readNumber_digit stop del: readNumber.simps)
  next
    case 2
    then have "n div 10 < 10" by (simp add: less_mult_imp_div_less)
    with 2 have d: "showDec n = [char_of (48 + n div 10), char_of (48 + n mod 10)]"
      by (simp add: showDec.simps [of n] showDec.simps [of "n div 10"])
    have "10 * int (n div 10) + int (n mod 10) = int n" by presburger
    then have "c_int (10 * c_int (int (n div 10)) + int (n mod 10)) = int n" using 2 by simp
    then show ?thesis using 2 unfolding d by (simp add: readNumber_digit stop del: readNumber.simps)
  next
    case 3
    then have "10 \<le> n div 10" "n div 100 < 10"
      using assms(1) by (simp_all add: less_eq_div_iff_mult_less_eq less_mult_imp_div_less)
    have q: "n div 10 div 10 = n div 100" using div_mult2_eq [of n 10 10] by simp
    have "showDec n = showDec (n div 10) @ [char_of (48 + n mod 10)]" using 3 by (simp add: showDec.simps [of n])
    also have "showDec (n div 10) = showDec (n div 100) @ [char_of (48 + n div 10 mod 10)]"
      using \<open>10 \<le> n div 10\<close> by (subst showDec.simps) (simp add: q)
    also have "showDec (n div 100) = [char_of (48 + n div 100)]" using \<open>n div 100 < 10\<close> by (subst showDec.simps) simp
    finally have d: "showDec n = [char_of (48 + n div 100), char_of (48 + n div 10 mod 10), char_of (48 + n mod 10)]" by simp
    have split: "10 * int (m div 10) + int (m mod 10) = int m" for m by presburger
    have "10 * int (n div 100) + int (n div 10 mod 10) = int (n div 10)" "10 * int (n div 10) + int (n mod 10) = int n"
      using split [of "n div 10"] split [of n] unfolding q by simp_all
    then have "c_int (10 * c_int (10 * c_int (int (n div 100)) + int (n div 10 mod 10)) + int (n mod 10)) = int n"
      using 3 assms(1) by simp
    then show ?thesis using 3 assms(1) unfolding d by (simp add: readNumber_digit stop del: readNumber.simps)
  qed
qed

lemma showDec_first: "\<exists>c s. showDec n = c # s \<and> isDigit c"
proof (induction n rule: showDec.induct)
  case (1 n)
  show ?case
  proof (cases "n < 10")
    case True
    then show ?thesis by (subst showDec.simps) (simp add: isDigit_char)
  next
    case False
    then show ?thesis using 1 by (subst showDec.simps) auto
  qed
qed

lemma parseOctets_last: "n < 256 \<Longrightarrow> parseOctets bs (showDec n) = (if length bs = 3 then Some (bs @ [int n]) else None)"
  using showDec_first [of n] readNumber_showDec [of n "[]"]
  by (subst parseOctets.simps) (auto split: list.split)

lemma parseOctets_dot:
  "n < 256 \<Longrightarrow> length bs < 3 \<Longrightarrow> parseOctets bs (showDec n @ CHR ''.'' # s) = parseOctets (bs @ [int n]) s"
  using showDec_first [of n] readNumber_showDec [of n "CHR ''.'' # s"]
  by (subst parseOctets.simps) (auto simp: isDigit_def split: list.split)

text \<open>The four octets of an address, and the address put together again.\<close>

lemma octets_set4:
  "ip_set4 (uint (drop_bit 24 a AND 255)) (uint (drop_bit 16 a AND 255)) (uint (drop_bit 8 a AND 255)) (uint (a AND 255)) = a"
proof -
  have ff: "(255 :: u32) = mask 8" by (simp add: mask_eq_exp_minus_1)
  show ?thesis
    unfolding ip_set4_def word_of_int_uint ff
  proof (rule bit_word_eqI)
    fix n assume "n < LENGTH(32)"
    then consider "n < 8" | "8 \<le> n" "n < 16" | "16 \<le> n" "n < 24" | "24 \<le> n" "n < 32" by fastforce
    then show "bit (push_bit 24 (drop_bit 24 a AND mask 8) OR push_bit 16 (drop_bit 16 a AND mask 8) OR
        push_bit 8 (drop_bit 8 a AND mask 8) OR (a AND mask 8)) n = bit a n"
      by cases (auto simp: bit_or_iff bit_push_bit_iff bit_and_iff bit_mask_iff bit_drop_bit_eq)
  qed
qed

lemma octet_lt: "unat ((a :: u32) AND 255) < 256"
proof -
  have "a AND 255 \<le> 255" by (rule word_and_le1)
  then show ?thesis by (simp add: word_le_nat_alt)
qed

lemma parse_ip_str:
  assumes "a \<noteq> 0"
  shows "parseIPAddress (ip_str a) = Some [int (unat (drop_bit 24 a AND 255)), int (unat (drop_bit 16 a AND 255)),
    int (unat (drop_bit 8 a AND 255)), int (unat (a AND 255))]"
proof -
  obtain c s where "showDec (unat (drop_bit 24 a AND 255)) = c # s" "isDigit c" using showDec_first by blast
  then have "ip_str a \<noteq> ''<unspec>''" using assms by (auto simp: ip_str_def ip_isUnspecified_def isDigit_def)
  then show ?thesis
    using assms octet_lt
    by (simp add: parseIPAddress_def ip_str_def ip_isUnspecified_def parseOctets_dot parseOctets_last)
qed

section \<open>Properties\<close>

text \<open>
  Every IPv4 address survives printing and parsing.  The text of an address, the
  special form of the unspecified address included, is well-formed and reads back as the
  same 32-bit word.
\<close>

theorem ip_text_roundtrip: "ip_isWellFormed (ip_str a) \<and> ip_setText (ip_str a) = Inr a"
proof (cases "a = 0")
  case True
  then show ?thesis
    by (simp add: ip_isWellFormed_def ip_setText_def ip_str_def ip_isUnspecified_def parseIPAddress_def ip_set4_def)
next
  case False
  have "ip_set4 (int (unat (drop_bit 24 a AND 255))) (int (unat (drop_bit 16 a AND 255)))
      (int (unat (drop_bit 8 a AND 255))) (int (unat (a AND 255))) = a"
    using octets_set4 [of a] by (simp only: uint_nat)
  then show ?thesis
    using parse_ip_str [OF False] by (simp only: ip_isWellFormed_def ip_setText_def option.case list.case) simp
qed

text \<open>
  The three ways to compare prefixes agree.  For a prefix of \<open>n\<close> bits, 0 to 32, two
  addresses match under the mask exactly when \<open>prefixMatches\<close> says so, exactly when they have at
  least \<open>n\<close> matching bits, and exactly when they agree in the first \<open>n\<close> bits.
\<close>

theorem prefix_views_agree:
  assumes "n \<le> 32"
  shows "(maskedAddrAreEqual a b (netmask_of n) \<longleftrightarrow> same_prefix n a b) \<and> (prefixMatches a b (int n) \<longleftrightarrow> same_prefix n a b) \<and>
    (int n \<le> getNumMatchingPrefixBits a b \<longleftrightarrow> same_prefix n a b)"
  using masked_same_prefix prefixMatches_same_prefix [OF assms] matching_same_prefix [OF assms] by blast

theorem prefix_views_agree_witness:
  "prefixMatches 0x0A010203 0x0A01FFFF 16 \<and> 16 \<le> getNumMatchingPrefixBits 0x0A010203 0x0A01FFFF"
proof -
  have "prefixMatches 0x0A010203 0x0A01FFFF (int 16)" by (simp add: prefixMatches_def)
  then show ?thesis using prefix_views_agree [of 16 "0x0A010203" "0x0A01FFFF"] by simp
qed

text \<open>
  The length of a contiguous netmask is found for every length from 0 to 32 except
  one.  The loop stops before bit 31, so that the mask \<open>128.0.0.0\<close> has length 0.
\<close>

theorem netmask_length:
  assumes "n \<le> 32"
  shows "getNetmaskLength (netmask_of n) = (if n = 1 then 0 else int n)"
  using assms by (rule getNetmaskLength_of)

theorem netmask_length_witness: "getNetmaskLength 0x80000000 = 0 \<and> getNetmaskLength 0xFFFFFF00 = 24"
proof -
  have "netmask_of 1 = 0x80000000" "netmask_of 24 = 0xFFFFFF00"
    by (simp_all add: netmask_of_def mask_eq_exp_minus_1)
  then show ?thesis using netmask_length [of 1] netmask_length [of 24] by simp
qed

end
