(* ===== verification/IP_Datagram.thy ===== *)
theory IP_Datagram
  imports IP_Address TCP_Segment
begin

text \<open>
  The packets of the network layer: \<open>IPDatagram\<close>, \<open>ICMPMessage\<close> and the control information
  \<open>IPControlInfo\<close> that travels between IP and its users.  A packet that encapsulates another one
  keeps its own total length, as the packets of the simulation kernel do.
\<close>

definition IP_HEADER_BYTES :: int where "IP_HEADER_BYTES = 20"

definition IP_PROT_ICMP :: int where "IP_PROT_ICMP = 1"
definition IP_PROT_IP :: int where "IP_PROT_IP = 4"
definition IP_PROT_TCP :: int where "IP_PROT_TCP = 6"
definition IP_PROT_UDP :: int where "IP_PROT_UDP = 17"
definition IP_PROT_NONE :: int where "IP_PROT_NONE = 59"
definition IP_PROT_DSR :: int where "IP_PROT_DSR = 135"
definition IP_PROT_MANET :: int where "IP_PROT_MANET = 254"

definition ICMP_DESTINATION_UNREACHABLE :: int where "ICMP_DESTINATION_UNREACHABLE = 13"
definition ICMP_REDIRECT :: int where "ICMP_REDIRECT = 5"
definition ICMP_TIME_EXCEEDED :: int where "ICMP_TIME_EXCEEDED = 11"
definition ICMP_PARAMETER_PROBLEM :: int where "ICMP_PARAMETER_PROBLEM = 12"
definition ICMP_ECHO_REQUEST :: int where "ICMP_ECHO_REQUEST = 128"
definition ICMP_ECHO_REPLY :: int where "ICMP_ECHO_REPLY = 129"
definition ICMP_TIMESTAMP_REQUEST :: int where "ICMP_TIMESTAMP_REQUEST = 130"
definition ICMP_TIMESTAMP_REPLY :: int where "ICMP_TIMESTAMP_REPLY = 131"

lemmas ip_consts = IP_HEADER_BYTES_def IP_PROT_ICMP_def IP_PROT_IP_def IP_PROT_TCP_def IP_PROT_UDP_def IP_PROT_NONE_def
  IP_PROT_DSR_def IP_PROT_MANET_def ICMP_DESTINATION_UNREACHABLE_def ICMP_REDIRECT_def ICMP_TIME_EXCEEDED_def
  ICMP_PARAMETER_PROBLEM_def ICMP_ECHO_REQUEST_def ICMP_ECHO_REPLY_def ICMP_TIMESTAMP_REQUEST_def ICMP_TIMESTAMP_REPLY_def

text \<open>
  The header fields, and what the message object carries besides: its length, whether it has a
  bit error, the index of the gate it arrived on, and whether control information is attached.
\<close>

record IPHeader =
  ip_name :: string
  headerLength :: int
  srcAddress :: IPAddress
  destAddress :: IPAddress
  transportProtocol :: int
  timeToLive :: int
  identification :: int
  moreFragments :: bool
  dontFragment :: bool
  fragmentOffset :: int
  diffServCodePoint :: int
  ip_byteLength :: int
  bitError :: bool
  arrivalGate :: "int option"
  ctrlAttached :: bool

definition newIPHeader :: "string \<Rightarrow> IPHeader" where
  "newIPHeader name = \<lparr> ip_name = name, headerLength = IP_HEADER_BYTES, srcAddress = 0, destAddress = 0,
     transportProtocol = IP_PROT_NONE, timeToLive = 0, identification = 0, moreFragments = False,
     dontFragment = False, fragmentOffset = 0, diffServCodePoint = 0, ip_byteLength = 0, bitError = False,
     arrivalGate = None, ctrlAttached = False \<rparr>"

record ICMPHeader =
  icmp_name :: string
  icmp_type :: int
  icmp_code :: int
  icmp_byteLength :: int

text \<open>A UDP packet, as UDP fills it in; IP only asks whether a packet is one.\<close>

record UDPHeader =
  udp_name :: string
  sourcePort :: int
  destinationPort :: int
  udp_byteLength :: int
  udp_bitError :: bool

datatype Packet =
    IPDatagram IPHeader "Packet option"
  | ICMPMessage ICMPHeader "Packet option"
  | UDPPacket UDPHeader "cPacket option"
  | TransportPacket cPacket

type_synonym Datagram = "IPHeader \<times> Packet option"

text \<open>The copy that \<open>dup\<close> makes has no control information.\<close>

definition dupDatagram :: "Datagram \<Rightarrow> Datagram" where
  "dupDatagram d = ((fst d)\<lparr>ctrlAttached := False\<rparr>, snd d)"

fun packetName :: "Packet \<Rightarrow> string" where
  "packetName (IPDatagram h _) = ip_name h"
| "packetName (ICMPMessage h _) = icmp_name h"
| "packetName (UDPPacket h _) = udp_name h"
| "packetName (TransportPacket p) = pkName p"

fun packetLength :: "Packet \<Rightarrow> int" where
  "packetLength (IPDatagram h _) = ip_byteLength h"
| "packetLength (ICMPMessage h _) = icmp_byteLength h"
| "packetLength (UDPPacket h _) = udp_byteLength h"
| "packetLength (TransportPacket p) = int (byteLength p)"

text \<open>\<open>encapsulate\<close> and \<open>decapsulate\<close> of the simulation kernel; a length that would become negative is an error.\<close>

definition ip_encapsulate :: "Packet \<Rightarrow> Datagram \<Rightarrow> Datagram res" where
  "ip_encapsulate p d =
     (case d of (h, Some _) \<Rightarrow> Inl (RuntimeError ''encapsulate(): another packet already encapsulated'')
      | (h, None) \<Rightarrow> Inr (h\<lparr>ip_byteLength := ip_byteLength h + packetLength p\<rparr>, Some p))"

definition ip_decapsulate :: "Datagram \<Rightarrow> (Packet option \<times> Datagram) res" where
  "ip_decapsulate d =
     (case d of (h, None) \<Rightarrow> Inr (None, d)
      | (h, Some p) \<Rightarrow>
          if ip_byteLength h - packetLength p < 0
          then Inl (RuntimeError ''decapsulate(): packet length would become negative'')
          else Inr (Some p, (h\<lparr>ip_byteLength := ip_byteLength h - packetLength p\<rparr>, None)))"

text \<open>The control information; \<open>ci_origDatagram\<close> is the pointer \<open>dgram\<close>.\<close>

record IPControlInfo =
  ci_destAddr :: IPAddress
  ci_srcAddr :: IPAddress
  ci_interfaceId :: int
  ci_protocol :: int
  ci_diffServCodePoint :: int
  ci_timeToLive :: int
  ci_dontFragment :: bool
  ci_nextHopAddr :: IPAddress
  ci_origDatagram :: "Datagram option"

definition newIPControlInfo :: IPControlInfo where
  "newIPControlInfo = \<lparr> ci_destAddr = 0, ci_srcAddr = 0, ci_interfaceId = - 1, ci_protocol = 0, ci_diffServCodePoint = 0,
     ci_timeToLive = 0, ci_dontFragment = False, ci_nextHopAddr = 0, ci_origDatagram = None \<rparr>"

definition setOrigDatagram :: "Datagram \<Rightarrow> IPControlInfo \<Rightarrow> IPControlInfo res" where
  "setOrigDatagram d ci =
     (if ci_origDatagram ci \<noteq> None
      then Inl (RuntimeError ''IPControlInfo::setOrigDatagram(): a datagram is already attached'')
      else Inr (ci\<lparr>ci_origDatagram := Some d\<rparr>))"

definition removeOrigDatagram :: "IPControlInfo \<Rightarrow> (Datagram \<times> IPControlInfo) res" where
  "removeOrigDatagram ci =
     (case ci_origDatagram ci of
        None \<Rightarrow> Inl (RuntimeError ''IPControlInfo::removeOrigDatagram(): no datagram attached'')
      | Some d \<Rightarrow> Inr (d, ci\<lparr>ci_origDatagram := None\<rparr>))"

end
