(* ===== verification/IP_Reassembly.thy ===== *)
theory IP_Reassembly
  imports TCP_Prelude
begin

text \<open>
  The reassembly buffer (\<open>base/ReassemblyBuffer.cc\<close>) that IP uses for fragmented datagrams.
  Offsets are 16 bits wide.  The main theorem is that fragments of one datagram are put together
  whatever the order in which they arrive and however often they are repeated.
\<close>

section \<open>The buffer\<close>

type_synonym u16 = "16 word"

record FragRegion =
  fr_beg :: u16
  fr_end :: u16
  fr_islast :: bool

text \<open>\<open>fragments\<close> is \<open>None\<close> until the first fragment is put aside.\<close>

record ReassemblyBuffer =
  main :: FragRegion
  fragments :: "FragRegion list option"

definition newReassemblyBuffer :: ReassemblyBuffer where
  "newReassemblyBuffer = \<lparr> main = \<lparr> fr_beg = 0, fr_end = 0, fr_islast = False \<rparr>, fragments = None \<rparr>"

text \<open>One pass over the fragments put aside: the main region, what is left, and whether a fragment was used.\<close>

fun scanFragments :: "FragRegion \<Rightarrow> FragRegion list \<Rightarrow> FragRegion \<times> FragRegion list \<times> bool" where
  "scanFragments m [] = (m, [], False)"
| "scanFragments m (frag # frags) =
     (if fr_end m = fr_beg frag
      then let m = (if fr_islast frag then m\<lparr>fr_end := fr_end frag, fr_islast := True\<rparr> else m\<lparr>fr_end := fr_end frag\<rparr>);
               (m, l, _) = scanFragments m frags in (m, l, True)
      else if fr_beg m = fr_end frag
      then let (m, l, _) = scanFragments (m\<lparr>fr_beg := fr_beg frag\<rparr>) frags in (m, l, True)
      else if fr_beg m \<le> fr_beg frag \<and> fr_end m \<ge> fr_end frag
      then let (m, l, _) = scanFragments m frags in (m, l, True)
      else let (m, l, b) = scanFragments m frags in (m, frag # l, b))"

lemma scanFragments_length:
  "scanFragments m frags = (m', l, b) \<Longrightarrow> length l \<le> length frags \<and> (b \<longrightarrow> length l < length frags)"
proof (induction frags arbitrary: m m' l b)
  case (Cons f frags)
  let ?m = "if fr_end m = fr_beg f
      then if fr_islast f then m\<lparr>fr_end := fr_end f, fr_islast := True\<rparr> else m\<lparr>fr_end := fr_end f\<rparr>
      else if fr_beg m = fr_end f then m\<lparr>fr_beg := fr_beg f\<rparr> else m"
  obtain m2 l2 b2 where "scanFragments ?m frags = (m2, l2, b2)" by (metis prod_cases3)
  then show ?case using Cons.IH [of ?m m2 l2 b2] Cons.prems by (auto simp: Let_def split: if_splits)
qed simp

function mergeLoop :: "FragRegion \<Rightarrow> FragRegion list \<Rightarrow> FragRegion \<times> FragRegion list" where
  "mergeLoop m frags =
     (case scanFragments m frags of (m', l, oncemore) \<Rightarrow> if oncemore then mergeLoop m' l else (m', l))"
  by pat_completeness auto
termination
  by (relation "measure (\<lambda>(m, frags). length frags)") (auto dest: scanFragments_length [OF sym])

declare mergeLoop.simps [simp del]

definition mergeFragments :: "ReassemblyBuffer \<Rightarrow> ReassemblyBuffer" where
  "mergeFragments b =
     (case fragments b of None \<Rightarrow> b
      | Some l \<Rightarrow> (case mergeLoop (main b) l of (m, l) \<Rightarrow> b\<lparr>main := m, fragments := Some l\<rparr>))"

definition rb_merge :: "u16 \<Rightarrow> u16 \<Rightarrow> bool \<Rightarrow> ReassemblyBuffer \<Rightarrow> ReassemblyBuffer" where
  "rb_merge beg end1 islast b =
     (if fr_end (main b) = beg
      then mergeFragments (b\<lparr>main := (if islast then (main b)\<lparr>fr_end := end1, fr_islast := True\<rparr> else (main b)\<lparr>fr_end := end1\<rparr>)\<rparr>)
      else if fr_beg (main b) = end1
      then mergeFragments (b\<lparr>main := (main b)\<lparr>fr_beg := beg\<rparr>\<rparr>)
      else if fr_end (main b) < beg \<or> fr_beg (main b) > end1
      then b\<lparr>fragments := Some ((case fragments b of None \<Rightarrow> [] | Some l \<Rightarrow> l) @ [\<lparr> fr_beg = beg, fr_end = end1, fr_islast = islast \<rparr>])\<rparr>
      else b)"

definition rb_addFragment :: "u16 \<Rightarrow> u16 \<Rightarrow> bool \<Rightarrow> ReassemblyBuffer \<Rightarrow> bool \<times> ReassemblyBuffer" where
  "rb_addFragment beg end1 islast b =
     (let b = rb_merge beg end1 islast b in (fr_beg (main b) = 0 \<and> fr_islast (main b), b))"

definition getTotalLength :: "ReassemblyBuffer \<Rightarrow> u16" where
  "getTotalLength b = fr_end (main b)"

section \<open>The fragments of one datagram\<close>

text \<open>
  A datagram is cut into fragments of the lengths \<open>ls\<close>: all are positive, except that the last one
  may be empty, and the sum fits into 16 bits.
\<close>

definition cut_ok :: "nat list \<Rightarrow> bool" where
  "cut_ok ls \<longleftrightarrow> ls \<noteq> [] \<and> (\<forall>l\<in>set (butlast ls). 0 < l) \<and> sum_list ls < 65536"

definition off :: "nat list \<Rightarrow> nat \<Rightarrow> nat" where
  "off ls i = sum_list (take i ls)"

definition frag :: "nat list \<Rightarrow> nat \<Rightarrow> FragRegion" where
  "frag ls i = \<lparr> fr_beg = of_nat (off ls i), fr_end = of_nat (off ls (Suc i)), fr_islast = (Suc i = length ls) \<rparr>"

lemma off_Suc: "i < length ls \<Longrightarrow> off ls (Suc i) = off ls i + ls ! i"
  by (simp add: off_def take_Suc_conv_app_nth)

lemma off_mono: "i \<le> j \<Longrightarrow> off ls i \<le> off ls j"
proof -
  assume "i \<le> j"
  then have "take j ls = take i ls @ take (j - i) (drop i ls)" by (metis le_add_diff_inverse take_add)
  then show ?thesis by (simp add: off_def)
qed

lemma off_le: "off ls i \<le> sum_list ls"
  using off_mono [of i "max i (length ls)" ls] by (simp add: off_def)

lemma off_less:
  assumes "cut_ok ls" "i < j" "j < length ls"
  shows "off ls i < off ls j"
proof -
  have "i < length (butlast ls)" using assms by (simp add: cut_ok_def)
  then have "butlast ls ! i \<in> set (butlast ls)" by (rule nth_mem)
  then have "0 < ls ! i" using assms \<open>i < length (butlast ls)\<close> by (simp add: cut_ok_def nth_butlast)
  then have "off ls i < off ls (Suc i)" using assms by (simp add: off_Suc)
  also have "\<dots> \<le> off ls j" using assms(2) by (intro off_mono) simp
  finally show ?thesis .
qed

lemma unat_off: "cut_ok ls \<Longrightarrow> unat (of_nat (off ls i) :: u16) = off ls i"
  using off_le [of ls i] by (simp add: cut_ok_def unat_of_nat)

lemma off_word_eq: "cut_ok ls \<Longrightarrow> (of_nat (off ls i) :: u16) = of_nat (off ls j) \<longleftrightarrow> off ls i = off ls j"
  by (metis unat_off)

lemma off_word_le: "cut_ok ls \<Longrightarrow> (of_nat (off ls i) :: u16) \<le> of_nat (off ls j) \<longleftrightarrow> off ls i \<le> off ls j"
  by (simp add: word_le_nat_alt unat_off)

lemma off_word_less: "cut_ok ls \<Longrightarrow> (of_nat (off ls i) :: u16) < of_nat (off ls j) \<longleftrightarrow> off ls i < off ls j"
  by (simp add: word_less_nat_alt unat_off)

text \<open>The main region after the first \<open>j\<close> fragments.\<close>

definition upto_frag :: "nat list \<Rightarrow> nat \<Rightarrow> FragRegion" where
  "upto_frag ls j = \<lparr> fr_beg = 0, fr_end = of_nat (off ls j), fr_islast = (j = length ls) \<rparr>"

text \<open>Which fragment meets the main region: the next one, or the empty last one once more.\<close>

lemma meets:
  assumes "cut_ok ls" "i < length ls" "j \<le> length ls" "off ls i = off ls j"
  shows "i = j \<or> Suc i = length ls \<and> j = length ls"
proof (rule ccontr)
  assume n: "\<not> (i = j \<or> Suc i = length ls \<and> j = length ls)"
  consider "i < j" "j < length ls" | "i < j" "j = length ls" "Suc i < length ls" | "j < i"
    using n assms by linarith
  then show False
  proof cases
    case 1
    then show ?thesis using off_less [OF assms(1), of i j] assms(4) by simp
  next
    case 2
    then show ?thesis using off_less [OF assms(1), of i "Suc i"] off_mono [of "Suc i" j ls] assms(4) by simp
  next
    case 3
    then show ?thesis using off_less [OF assms(1), of j i] assms(2,4) by simp
  qed
qed

lemma first_end: "cut_ok ls \<Longrightarrow> i < length ls \<Longrightarrow> off ls (Suc i) = 0 \<Longrightarrow> Suc i = length ls \<and> i = 0"
proof -
  assume c: "cut_ok ls" and i: "i < length ls" and z: "off ls (Suc i) = 0"
  have "i = 0"
  proof (rule ccontr)
    assume "i \<noteq> 0"
    then have "off ls 0 < off ls i" using off_less [OF c, of 0 i] i by simp
    then show False using z off_mono [of i "Suc i" ls] by simp
  qed
  moreover have "Suc i = length ls"
  proof (rule ccontr)
    assume "Suc i \<noteq> length ls"
    then have "off ls i < off ls (Suc i)" using off_less [OF c, of i "Suc i"] i by simp
    then show False using z by simp
  qed
  ultimately show ?thesis by simp
qed

text \<open>One step of the scan, and the same step of the arrival of a fragment.\<close>

lemma upto_extend:
  assumes "cut_ok ls" "i < length ls" "j \<le> length ls" "off ls i = off ls j"
  shows "\<exists>j' \<le> length ls. (if fr_islast (frag ls i) then (upto_frag ls j)\<lparr>fr_end := fr_end (frag ls i), fr_islast := True\<rparr>
       else (upto_frag ls j)\<lparr>fr_end := fr_end (frag ls i)\<rparr>) = upto_frag ls j' \<and> {..<j'} = insert i {..<j}"
proof -
  from meets [OF assms] consider "i = j" | "Suc i = length ls" "j = length ls" by blast
  then show ?thesis
  proof cases
    case 1
    then show ?thesis using assms(2) by (intro exI [of _ "Suc j"]) (auto simp: upto_frag_def frag_def lessThan_Suc)
  next
    case 2
    then show ?thesis using assms by (intro exI [of _ j]) (auto simp: upto_frag_def frag_def)
  qed
qed

lemma frag_sel [simp]:
  "fr_beg (frag ls i) = of_nat (off ls i)" "fr_end (frag ls i) = of_nat (off ls (Suc i))"
  "fr_islast (frag ls i) = (Suc i = length ls)"
  "fr_beg (upto_frag ls j) = 0" "fr_end (upto_frag ls j) = of_nat (off ls j)" "fr_islast (upto_frag ls j) = (j = length ls)"
  by (simp_all add: frag_def upto_frag_def)

lemma behind:
  assumes "cut_ok ls" "i < length ls" "j \<le> length ls" "off ls i \<noteq> off ls j"
  shows "off ls (Suc i) \<le> off ls j \<longleftrightarrow> i < j" "off ls j < off ls i \<longleftrightarrow> j < i"
proof -
  have ij: "i \<noteq> j" using assms(4) by blast
  show "off ls (Suc i) \<le> off ls j \<longleftrightarrow> i < j"
  proof
    assume a: "off ls (Suc i) \<le> off ls j"
    show "i < j"
    proof (rule ccontr)
      assume "\<not> i < j"
      with ij have "j < i" by simp
      then have "off ls j < off ls i" using off_less [OF assms(1), of j i] assms(2) by simp
      then show False using a off_mono [of i "Suc i" ls] by simp
    qed
  qed (auto intro: off_mono)
  show "off ls j < off ls i \<longleftrightarrow> j < i"
    using off_less [OF assms(1), of j i] off_mono [of i j ls] assms(2) ij by (meson leD linorder_neqE_nat order.strict_implies_order)
qed

text \<open>No fragment ends where the main region begins, so that the main region always begins at 0.\<close>

lemma no_prefix:
  assumes "cut_ok ls" "i < length ls" "j \<le> length ls" "off ls i \<noteq> off ls j"
  shows "fr_beg (upto_frag ls j) \<noteq> fr_end (frag ls i)"
proof
  assume "fr_beg (upto_frag ls j) = fr_end (frag ls i)"
  then have "(of_nat (off ls (Suc i)) :: u16) = 0" by simp
  then have e: "off ls (Suc i) = 0" using unat_off [OF assms(1), of "Suc i"] by simp
  then have "Suc i = length ls \<and> i = 0" by (rule first_end [OF assms(1,2)])
  then have "off ls j \<le> off ls (Suc i)" "off ls i \<le> off ls (Suc i)" using assms(3) by (simp_all add: off_mono)
  then show False using assms(4) e by simp
qed

lemma scan_frags:
  assumes "cut_ok ls" "j \<le> length ls" "\<forall>i\<in>set is. i < length ls"
  shows "\<exists>j' is' b. scanFragments (upto_frag ls j) (map (frag ls) is) = (upto_frag ls j', map (frag ls) is', b) \<and>
    j' \<le> length ls \<and> set is' \<subseteq> set is \<and> {..<j'} \<union> set is' = {..<j} \<union> set is \<and> (\<not> b \<longrightarrow> j' = j \<and> is' = is \<and> (\<forall>i\<in>set is. j < i))"
  using assms(2,3)
proof (induction "is" arbitrary: j)
  case Nil
  then show ?case by (intro exI [of _ j] exI [of _ "[]"] exI [of _ False]) simp
next
  case (Cons i "is")
  have i: "i < length ls" and "is": "\<forall>i\<in>set is. i < length ls" using Cons.prems by auto
  show ?case
  proof (cases "off ls i = off ls j")
    case True
    obtain j1 where j1: "j1 \<le> length ls" "{..<j1} = insert i {..<j}" and m: "(if fr_islast (frag ls i)
       then (upto_frag ls j)\<lparr>fr_end := fr_end (frag ls i), fr_islast := True\<rparr>
       else (upto_frag ls j)\<lparr>fr_end := fr_end (frag ls i)\<rparr>) = upto_frag ls j1"
      using upto_extend [OF assms(1) i Cons.prems(1) True] by blast
    obtain j' is' b where s: "scanFragments (upto_frag ls j1) (map (frag ls) is) = (upto_frag ls j', map (frag ls) is', b)"
      and r: "j' \<le> length ls" "set is' \<subseteq> set is" "{..<j'} \<union> set is' = {..<j1} \<union> set is"
      using Cons.IH [OF j1(1) "is"] by blast
    have "scanFragments (upto_frag ls j) (map (frag ls) (i # is)) = (upto_frag ls j', map (frag ls) is', True)"
      using s m True by (simp add: Let_def)
    then show ?thesis using r j1(2) by (intro exI [of _ j'] exI [of _ is'] exI [of _ True]) auto
  next
    case False
    have w: "fr_end (upto_frag ls j) \<noteq> fr_beg (frag ls i)" using False off_word_eq [OF assms(1)] by simp
    have z: "fr_beg (upto_frag ls j) \<noteq> fr_end (frag ls i)" by (rule no_prefix [OF assms(1) i Cons.prems(1) False])
    obtain j' is' b where s: "scanFragments (upto_frag ls j) (map (frag ls) is) = (upto_frag ls j', map (frag ls) is', b)"
      and r: "j' \<le> length ls" "set is' \<subseteq> set is" "{..<j'} \<union> set is' = {..<j} \<union> set is"
        "\<not> b \<longrightarrow> j' = j \<and> is' = is \<and> (\<forall>i\<in>set is. j < i)"
      using Cons.IH [OF Cons.prems(1) "is"] by blast
    show ?thesis
    proof (cases "i < j")
      case True
      then have "fr_end (frag ls i) \<le> fr_end (upto_frag ls j)"
        using behind(1) [OF assms(1) i Cons.prems(1) False] off_word_le [OF assms(1)] by simp
      then have "scanFragments (upto_frag ls j) (map (frag ls) (i # is)) = (upto_frag ls j', map (frag ls) is', True)"
        using s w z by (simp add: Let_def)
      then show ?thesis using r True by (intro exI [of _ j'] exI [of _ is'] exI [of _ True]) auto
    next
      case nlt: False
      then have "\<not> fr_end (frag ls i) \<le> fr_end (upto_frag ls j)"
        using behind(1) [OF assms(1) i Cons.prems(1) False] off_word_le [OF assms(1)] by simp
      then have "scanFragments (upto_frag ls j) (map (frag ls) (i # is)) = (upto_frag ls j', map (frag ls) (i # is'), b)"
        using s w z by (simp add: Let_def)
      moreover have "j < i" using nlt False by (metis linorder_neqE_nat)
      ultimately show ?thesis using r by (intro exI [of _ j'] exI [of _ "i # is'"] exI [of _ b]) auto
    qed
  qed
qed

lemma merge_frags:
  assumes "cut_ok ls" "j \<le> length ls" "\<forall>i\<in>set is. i < length ls"
  shows "\<exists>j' is'. mergeLoop (upto_frag ls j) (map (frag ls) is) = (upto_frag ls j', map (frag ls) is') \<and>
    j' \<le> length ls \<and> set is' \<subseteq> set is \<and> {..<j'} \<union> set is' = {..<j} \<union> set is \<and> (\<forall>i\<in>set is'. j' < i)"
  using assms(2,3)
proof (induction "length is" arbitrary: j "is" rule: less_induct)
  case less
  obtain j1 is1 b where s: "scanFragments (upto_frag ls j) (map (frag ls) is) = (upto_frag ls j1, map (frag ls) is1, b)"
    and r: "j1 \<le> length ls" "set is1 \<subseteq> set is" "{..<j1} \<union> set is1 = {..<j} \<union> set is"
      "\<not> b \<longrightarrow> j1 = j \<and> is1 = is \<and> (\<forall>i\<in>set is. j < i)"
    using scan_frags [OF assms(1) less.prems] by blast
  show ?case
  proof (cases b)
    case True
    have l: "length is1 < length is" using scanFragments_length [OF s] True by simp
    have "\<forall>i\<in>set is1. i < length ls" using r(2) less.prems(2) by blast
    from less.hyps [OF l r(1) this] obtain j' is' where
      "mergeLoop (upto_frag ls j1) (map (frag ls) is1) = (upto_frag ls j', map (frag ls) is')" "j' \<le> length ls"
      "set is' \<subseteq> set is1" "{..<j'} \<union> set is' = {..<j1} \<union> set is1" "\<forall>i\<in>set is'. j' < i" by blast
    moreover from this have "mergeLoop (upto_frag ls j) (map (frag ls) is) = (upto_frag ls j', map (frag ls) is')"
      using s True by (subst mergeLoop.simps) simp
    ultimately show ?thesis using r by (intro exI [of _ j'] exI [of _ is']) auto
  next
    case False
    then have "mergeLoop (upto_frag ls j) (map (frag ls) is) = (upto_frag ls j1, map (frag ls) is1)"
      using s by (subst mergeLoop.simps) simp
    then show ?thesis using r False by (intro exI [of _ j1] exI [of _ is1]) auto
  qed
qed

section \<open>Reassembly in any order\<close>

text \<open>The buffer when the fragments of the set \<open>S\<close> have arrived: \<open>j\<close> is the first one missing.\<close>

definition has_frags :: "nat list \<Rightarrow> nat set \<Rightarrow> ReassemblyBuffer \<Rightarrow> bool" where
  "has_frags ls S b \<longleftrightarrow> (\<exists>j is. main b = upto_frag ls j \<and> j \<le> length ls \<and> (\<forall>i\<in>set is. j < i \<and> i < length ls) \<and>
     S = {..<j} \<union> set is \<and> (fragments b = None \<and> is = [] \<or> fragments b = Some (map (frag ls) is)))"

lemma has_frags_new: "has_frags ls {} newReassemblyBuffer" if "ls \<noteq> []"
  using that by (auto simp: has_frags_def newReassemblyBuffer_def upto_frag_def off_def intro!: exI [of _ 0])

lemma mergeFragments_ok:
  assumes "cut_ok ls" "main b = upto_frag ls j" "j \<le> length ls" "\<forall>i\<in>set is. i < length ls"
    "fragments b = None \<and> is = [] \<or> fragments b = Some (map (frag ls) is)"
  shows "has_frags ls ({..<j} \<union> set is) (mergeFragments b)"
proof (cases "fragments b")
  case None
  then show ?thesis using assms by (auto simp: mergeFragments_def has_frags_def)
next
  case (Some l)
  then have l: "l = map (frag ls) is" using assms(5) by auto
  obtain j' is' where m: "mergeLoop (upto_frag ls j) (map (frag ls) is) = (upto_frag ls j', map (frag ls) is')"
    "j' \<le> length ls" "set is' \<subseteq> set is" "{..<j'} \<union> set is' = {..<j} \<union> set is" "\<forall>i\<in>set is'. j' < i"
    using merge_frags [OF assms(1,3,4)] by blast
  have "mergeFragments b = b\<lparr>main := upto_frag ls j', fragments := Some (map (frag ls) is')\<rparr>"
    using Some l assms(2) m(1) by (simp add: mergeFragments_def)
  then show ?thesis
    using m assms(4) unfolding has_frags_def by (intro exI [of _ j'] exI [of _ is']) auto
qed

lemma merge_ok:
  assumes "cut_ok ls" "has_frags ls S b" "i < length ls"
  shows "has_frags ls (insert i S) (rb_merge (fr_beg (frag ls i)) (fr_end (frag ls i)) (fr_islast (frag ls i)) b)"
proof -
  obtain j "is" where b: "main b = upto_frag ls j" "j \<le> length ls" "\<forall>i\<in>set is. j < i \<and> i < length ls" "S = {..<j} \<union> set is"
    and fr: "fragments b = None \<and> is = [] \<or> fragments b = Some (map (frag ls) is)"
    using assms(2) by (auto simp: has_frags_def)
  let ?new = "rb_merge (fr_beg (frag ls i)) (fr_end (frag ls i)) (fr_islast (frag ls i)) b"
  show ?thesis
  proof (cases "off ls i = off ls j")
    case True
    obtain j1 where j1: "j1 \<le> length ls" "{..<j1} = insert i {..<j}" and m: "(if fr_islast (frag ls i)
       then (upto_frag ls j)\<lparr>fr_end := fr_end (frag ls i), fr_islast := True\<rparr>
       else (upto_frag ls j)\<lparr>fr_end := fr_end (frag ls i)\<rparr>) = upto_frag ls j1"
      using upto_extend [OF assms(1,3) b(2) True] by blast
    have "?new = mergeFragments (b\<lparr>main := upto_frag ls j1\<rparr>)"
      unfolding m [symmetric] using b(1) True by (auto simp: rb_merge_def)
    moreover have "has_frags ls ({..<j1} \<union> set is) (mergeFragments (b\<lparr>main := upto_frag ls j1\<rparr>))"
      by (rule mergeFragments_ok [OF assms(1) _ j1(1)]) (use b(3) fr in auto)
    ultimately show ?thesis using j1(2) b(4) by simp
  next
    case False
    have w: "fr_end (main b) \<noteq> fr_beg (frag ls i)" using False off_word_eq [OF assms(1)] b(1) by simp
    have z: "fr_beg (main b) \<noteq> fr_end (frag ls i)" unfolding b(1) by (rule no_prefix [OF assms(1,3) b(2) False])
    show ?thesis
    proof (cases "j < i")
      case True
      then have "fr_end (main b) < fr_beg (frag ls i)"
        using behind(2) [OF assms(1,3) b(2) False] off_word_less [OF assms(1)] b(1) by simp
      then have "?new = b\<lparr>fragments := Some (map (frag ls) (is @ [i]))\<rparr>"
        using w z fr by (auto simp: rb_merge_def frag_def)
      then show ?thesis
        using b True assms(3) unfolding has_frags_def by (intro exI [of _ j] exI [of _ "is @ [i]"]) auto
    next
      case nlt: False
      then have "\<not> fr_end (main b) < fr_beg (frag ls i)"
        using behind(2) [OF assms(1,3) b(2) False] off_word_less [OF assms(1)] b(1) by simp
      moreover have "\<not> fr_beg (main b) > fr_end (frag ls i)" using b(1) by simp
      ultimately have "?new = b" using w z by (simp add: rb_merge_def)
      moreover have "i \<in> S" using nlt False b(4) by (metis UnI1 lessThan_iff linorder_neqE_nat)
      ultimately show ?thesis using assms(2) by (simp add: insert_absorb)
    qed
  qed
qed

lemma complete_iff:
  assumes "cut_ok ls" "has_frags ls S b"
  shows "fr_beg (main b) = 0" "fr_islast (main b) \<longleftrightarrow> S = {..<length ls}" "S = {..<length ls} \<Longrightarrow> unat (getTotalLength b) = sum_list ls"
proof -
  obtain j "is" where b: "main b = upto_frag ls j" "j \<le> length ls" "\<forall>i\<in>set is. j < i \<and> i < length ls" "S = {..<j} \<union> set is"
    using assms(2) by (auto simp: has_frags_def)
  show "fr_beg (main b) = 0" by (simp add: b(1))
  have "S = {..<length ls} \<longleftrightarrow> j = length ls"
  proof
    assume S: "S = {..<length ls}"
    show "j = length ls"
    proof (rule ccontr)
      assume "j \<noteq> length ls"
      then have "j \<in> S" using S b(2) by simp
      then show False using b(3,4) by auto
    qed
  next
    assume "j = length ls"
    then have "set is = {}" using b(3) by (metis equals0I not_less_iff_gr_or_eq order_less_trans)
    then show "S = {..<length ls}" using b(4) \<open>j = length ls\<close> by simp
  qed
  then show "fr_islast (main b) \<longleftrightarrow> S = {..<length ls}" by (simp add: b(1))
  show "unat (getTotalLength b) = sum_list ls" if "S = {..<length ls}"
    using that \<open>S = {..<length ls} \<longleftrightarrow> j = length ls\<close> b(1) unat_off [OF assms(1), of "length ls"]
    by (simp add: getTotalLength_def off_def)
qed

end
