(* ===== verification/C_Float.thy ===== *)
theory C_Float
  imports TCP_Prelude "HOL-Library.Log_Nat"
begin

text \<open>
  Floating-point arithmetic of the C++ sources, as far as they use it: values in the
  normal range, rounded to the nearest number with \<open>p\<close> significant bits, ties to even
  (\<open>p = 24\<close> for \<open>float\<close>, \<open>p = 53\<close> for \<open>double\<close>).  Values are rationals, so that the models stay
  executable.  The lemmas the proofs use are the bound on the relative error and the exactness on integers.
\<close>

definition round_even :: "rat \<Rightarrow> int" where
  "round_even q =
     (let f = \<lfloor>q\<rfloor>; d = q - of_int f
      in if d < 1 / 2 then f else if d > 1 / 2 then f + 1 else if even f then f else f + 1)"

text \<open>The exponent \<open>e\<close> of a positive rational: \<open>2 ^ e \<le> x < 2 ^ (e + 1)\<close>.\<close>

definition expo :: "rat \<Rightarrow> int" where
  "expo x = (if x \<ge> 1 then bitlen \<lfloor>x\<rfloor> - 1 else - bitlen (\<lceil>1 / x\<rceil> - 1))"

definition fl :: "nat \<Rightarrow> rat \<Rightarrow> rat" where
  "fl p x = (if x = 0 then 0 else let u = 2 powi (expo \<bar>x\<bar> - int p + 1) in of_int (round_even (x / u)) * u)"

definition float_div :: "rat \<Rightarrow> rat \<Rightarrow> rat" where "float_div x y = fl 24 (x / y)"
definition float_minus :: "rat \<Rightarrow> rat \<Rightarrow> rat" where "float_minus x y = fl 24 (x - y)"
definition double_div :: "rat \<Rightarrow> rat \<Rightarrow> rat" where "double_div x y = fl 53 (x / y)"
definition double_mult :: "rat \<Rightarrow> rat \<Rightarrow> rat" where "double_mult x y = fl 53 (x * y)"
definition double_plus :: "rat \<Rightarrow> rat \<Rightarrow> rat" where "double_plus x y = fl 53 (x + y)"
definition double_minus :: "rat \<Rightarrow> rat \<Rightarrow> rat" where "double_minus x y = fl 53 (x - y)"

lemma round_even_error: "\<bar>of_int (round_even q) - q\<bar> \<le> 1 / 2"
proof -
  have b: "of_int \<lfloor>q\<rfloor> \<le> q" "q < of_int \<lfloor>q\<rfloor> + 1" using floor_correct [of q] by simp_all
  define f where "f = \<lfloor>q\<rfloor>"
  have "(of_int f :: rat) \<le> q" "q < of_int f + 1" using b by (simp_all add: f_def)
  then show ?thesis unfolding round_even_def Let_def f_def [symmetric] by (auto simp: abs_if)
qed

lemma round_even_int [simp]: "round_even (of_int n) = n"
  by (simp add: round_even_def)

lemma expo_lower:
  assumes "0 < x"
  shows "2 powi expo x \<le> x"
proof (cases "x \<ge> 1")
  case True
  then have f: "1 \<le> \<lfloor>x\<rfloor>" by linarith
  have "2 ^ nat (bitlen \<lfloor>x\<rfloor> - 1) \<le> \<lfloor>x\<rfloor>" using bitlen_bounds [of "\<lfloor>x\<rfloor>"] f by auto
  then have "of_int (2 ^ nat (bitlen \<lfloor>x\<rfloor> - 1)) \<le> x" by linarith
  moreover have "0 < bitlen \<lfloor>x\<rfloor>"
  proof (rule ccontr)
    assume "\<not> 0 < bitlen \<lfloor>x\<rfloor>"
    then have "\<lfloor>x\<rfloor> < 1" using bitlen_bounds [of "\<lfloor>x\<rfloor>"] f by auto
    with f show False by simp
  qed
  ultimately show ?thesis using True by (simp add: expo_def power_int_def)
next
  case False
  define c where "c = \<lceil>1 / x\<rceil>"
  have "1 < 1 / x" using False assms by (simp add: field_simps)
  then have c: "2 \<le> c" unfolding c_def by linarith
  have "c - 1 < 2 ^ nat (bitlen (c - 1))" using bitlen_bounds [of "c - 1"] c by auto
  then have "c \<le> 2 ^ nat (bitlen (c - 1))" by linarith
  moreover have "1 / x \<le> of_int c" by (simp add: c_def)
  ultimately have "1 / x \<le> of_int (2 ^ nat (bitlen (c - 1)))" by linarith
  then have "inverse (2 ^ nat (bitlen (c - 1))) \<le> x"
    using assms by (simp add: field_simps)
  moreover have "0 \<le> bitlen (c - 1)" by (simp add: bitlen_def)
  ultimately have "inverse (2 powi bitlen (c - 1)) \<le> x" by (simp add: power_int_def)
  then show ?thesis using False by (simp add: expo_def c_def power_int_minus)
qed

text \<open>Rounding to \<open>p\<close> bits moves a positive value by at most the part \<open>2 ^ -p\<close> of it.\<close>

lemma fl_error:
  assumes "0 < x"
  shows "\<bar>fl p x - x\<bar> \<le> x / 2 ^ p"
proof -
  define u :: rat where "u = 2 powi (expo x - int p + 1)"
  have u: "0 < u" by (simp add: u_def)
  have "fl p x - x = (of_int (round_even (x / u)) - x / u) * u"
    using assms u by (simp add: fl_def u_def Let_def algebra_simps)
  then have "\<bar>fl p x - x\<bar> \<le> 1 / 2 * u"
    using round_even_error [of "x / u"] u by (simp add: abs_mult)
  also have "1 / 2 * u = 2 powi expo x / 2 ^ p"
  proof -
    have "u = 2 powi expo x * 2 powi (- int p) * 2 powi 1"
      unfolding u_def using power_int_add [of "2 :: rat" "expo x" "- int p + 1"] power_int_add [of "2 :: rat" "- int p" 1]
      by (simp add: algebra_simps)
    then show ?thesis by (simp add: power_int_minus field_simps)
  qed
  also have "\<dots> \<le> x / 2 ^ p" using expo_lower [OF assms] by (simp add: divide_right_mono)
  finally show ?thesis .
qed

lemma fl_bounds:
  assumes "0 < x"
  shows "x * (1 - 1 / 2 ^ p) \<le> fl p x" "fl p x \<le> x * (1 + 1 / 2 ^ p)"
  using fl_error [OF assms, of p] by (simp_all add: abs_le_iff algebra_simps)

text \<open>Integers below \<open>2 ^ p\<close> are represented exactly; rounding never falls below a multiple of the unit.\<close>

lemma expo_upper:
  assumes "1 \<le> n" "n < 2 ^ k"
  shows "expo (of_int n) < int k" "0 \<le> expo (of_int n)"
proof -
  have b: "bitlen n \<le> int k" using bitlen_le_iff_power [of n k] assms by simp
  have "0 < bitlen n" using bitlen_bounds [of n] assms(1) by (cases "bitlen n > 0") (auto simp: bitlen_def)
  then show "expo (of_int n) < int k" "0 \<le> expo (of_int n)" using b assms(1) by (simp_all add: expo_def)
qed

lemma fl_int:
  assumes "0 \<le> n" "n < 2 ^ p"
  shows "fl p (of_int n) = of_int n"
proof (cases "n = 0")
  case False
  then have n: "1 \<le> n" using assms(1) by simp
  define k where "k = nat (int p - 1 - expo (of_int n :: rat))"
  have k: "expo (of_int n :: rat) - int p + 1 = - int k" using expo_upper [OF n assms(2)] by (simp add: k_def)
  let ?u = "2 powi (- int k) :: rat"
  have u: "?u = inverse (2 ^ k)" by (simp add: power_int_minus)
  have "of_int n / ?u = of_int (n * 2 ^ k)" by (simp add: u field_simps)
  then have "round_even (of_int n / ?u) = n * 2 ^ k" by (metis round_even_int)
  then show ?thesis using n by (simp add: fl_def k Let_def u)
qed (simp add: fl_def)

lemma round_even_lower:
  assumes "of_int k \<le> q"
  shows "k \<le> round_even q"
proof -
  have "k \<le> \<lfloor>q\<rfloor>" using assms by (simp add: le_floor_iff)
  then show ?thesis by (auto simp: round_even_def Let_def)
qed

lemma fl_large:
  assumes "2 ^ p \<le> 2 * k" "0 \<le> m" "2 * k + m < 2 ^ Suc p"
  shows "of_int (2 * k) \<le> fl p (of_int (2 * k + m))"
proof -
  define x where "x = 2 * k + m"
  have x: "1 \<le> x" "2 ^ p \<le> x" using assms(1,2) one_le_power [of "2 :: int" p] unfolding x_def by linarith+
  have "\<not> bitlen x \<le> int p" using bitlen_le_iff_power [of x p] x by simp
  then have "int p \<le> expo (of_int x :: rat)" using x(1) by (simp add: expo_def)
  moreover have "expo (of_int x :: rat) < int (Suc p)" by (rule expo_upper(1)) (use x(1) assms(3) in \<open>simp_all add: x_def\<close>)
  ultimately have e: "expo (of_int x :: rat) - int p + 1 = 1" by simp
  have "of_int k \<le> (of_int x :: rat) / 2" using assms(2) by (simp add: x_def)
  then have "k \<le> round_even (of_int x / 2)" by (rule round_even_lower)
  moreover have "fl p (of_int x) = of_int (round_even (of_int x / 2)) * 2"
    using x(1) e by (simp add: fl_def Let_def)
  ultimately show ?thesis by (simp add: x_def [symmetric] del: of_int_add of_int_mult)
qed

end
