(* ===== verification/IP_Count.thy ===== *)
theory IP_Count
  imports C_Float
begin

text \<open>
  The number of fragments as \<open>IP::fragmentAndSend\<close> computes it, in \<open>float\<close> arithmetic.  Rounding
  cannot make it too small; it can make it too large by one, and only when the payload is a
  multiple of what one fragment carries.
\<close>

definition noOfFragments :: "int \<Rightarrow> int \<Rightarrow> int \<Rightarrow> int res" where
  "noOfFragments payload headerLength mtu =
     (if mtu = 0 then Inl (RuntimeError ''undefined conversion'')
      else let c = float_minus 1 (float_div (of_int headerLength) (of_int mtu))
           in if c = 0 then Inl (RuntimeError ''undefined conversion'')
              else Inr \<lceil>float_div (float_div (of_int payload) (of_int mtu)) c\<rceil>)"

lemma fl24_bounds:
  assumes "0 < x"
  shows "x * (1 - 1 / 16777216) \<le> fl 24 x" "fl 24 x \<le> x * (1 + 1 / 16777216)"
  using fl_bounds [OF assms, of 24] by simp_all

lemma fl24_pos: "0 < x \<Longrightarrow> 0 < fl 24 x"
  using fl24_bounds(1) [of x] by (simp add: order.strict_trans2 mult_pos_pos)

text \<open>The value before rounding up, between exact fractions.\<close>

lemma quotient_bounds:
  fixes P h m :: int
  defines "q \<equiv> m - h" and "u \<equiv> 1 / 16777216 :: rat"
  defines "c \<equiv> float_minus 1 (float_div (of_int h) (of_int m))"
  assumes "0 < P" "0 < h" "h \<le> 60" "h < m"
  shows "0 < c"
    "of_int P * (1 - u) * (1 - u) \<le> float_div (float_div (of_int P) (of_int m)) c * ((of_int q + 60 * u) * (1 + u))"
    "float_div (float_div (of_int P) (of_int m)) c * ((of_int q - 60 * u) * (1 - u)) \<le> of_int P * (1 + u) * (1 + u)"
proof -
  let ?P = "of_int P :: rat" and ?h = "of_int h :: rat" and ?m = "of_int m :: rat" and ?q = "of_int q :: rat"
  have pos: "0 < ?P" "0 < ?h" "0 < ?m" "?h \<le> 60" "?q = ?m - ?h" "1 \<le> ?q"
    using assms(4-7) by (simp_all add: q_def)
  have u: "0 < u" "u < 1" by (simp_all add: u_def)
  define b where "b = fl 24 (?h / ?m)"
  have b: "?h / ?m * (1 - u) \<le> b" "b \<le> ?h / ?m * (1 + u)"
    using fl24_bounds [of "?h / ?m"] pos by (simp_all add: b_def u_def)
  have mb: "?h - ?h * u \<le> b * ?m" "b * ?m \<le> ?h + ?h * u"
    using b pos(3) by (simp_all add: field_simps)
  have hu: "?h * u \<le> 60 * u" using pos(4) u by simp
  have lo: "(?q - 60 * u) \<le> (1 - b) * ?m" and hi: "(1 - b) * ?m \<le> ?q + 60 * u"
    using mb hu pos(5) by (simp_all add: algebra_simps)
  have "0 < ?q - 60 * u" using pos(6) by (simp add: u_def)
  then have "0 < (1 - b) * ?m" using lo by linarith
  then have b1: "0 < 1 - b" using pos(3) by (simp add: zero_less_mult_iff)
  have c: "c = fl 24 (1 - b)" by (simp add: c_def float_minus_def float_div_def b_def)
  show c0: "0 < c" unfolding c by (rule fl24_pos [OF b1])
  have cb: "(1 - b) * (1 - u) \<le> c" "c \<le> (1 - b) * (1 + u)"
    unfolding c u_def using fl24_bounds [OF b1] by simp_all
  define a where "a = fl 24 (?P / ?m)"
  have a0: "0 < a" unfolding a_def by (rule fl24_pos) (use pos in simp)
  have ab: "?P * (1 - u) \<le> a * ?m" "a * ?m \<le> ?P * (1 + u)"
    using fl24_bounds [of "?P / ?m"] pos by (simp_all add: a_def u_def field_simps)
  define x where "x = fl 24 (a / c)"
  have xb: "a / c * (1 - u) \<le> x" "x \<le> a / c * (1 + u)"
    using fl24_bounds [of "a / c"] a0 c0 by (simp_all add: x_def u_def)
  have x: "float_div (float_div ?P ?m) c = x" by (simp add: float_div_def x_def a_def)
  have x0: "0 < x" unfolding x_def by (rule fl24_pos) (use a0 c0 in simp)
  have xc: "a * (1 - u) \<le> x * c" "x * c \<le> a * (1 + u)"
    using xb c0 by (simp_all add: field_simps)
  have cm: "c * ?m \<le> (?q + 60 * u) * (1 + u)" "(?q - 60 * u) * (1 - u) \<le> c * ?m"
  proof -
    have "c * ?m \<le> (1 - b) * (1 + u) * ?m" using cb(2) pos(3) by (simp add: mult_right_mono)
    also have "\<dots> = (1 - b) * ?m * (1 + u)" by simp
    also have "\<dots> \<le> (?q + 60 * u) * (1 + u)" using hi u by (intro mult_right_mono) simp_all
    finally show "c * ?m \<le> (?q + 60 * u) * (1 + u)" .
    have "(?q - 60 * u) * (1 - u) \<le> (1 - b) * ?m * (1 - u)" using lo u by (intro mult_right_mono) simp_all
    also have "\<dots> = (1 - b) * (1 - u) * ?m" by simp
    also have "\<dots> \<le> c * ?m" using cb(1) pos(3) by (simp add: mult_right_mono)
    finally show "(?q - 60 * u) * (1 - u) \<le> c * ?m" .
  qed
  have "?P * (1 - u) * (1 - u) \<le> a * ?m * (1 - u)" using ab(1) u by (intro mult_right_mono) simp_all
  also have "\<dots> = a * (1 - u) * ?m" by simp
  also have "\<dots> \<le> x * c * ?m" using xc(1) pos(3) by (intro mult_right_mono) simp_all
  also have "\<dots> = x * (c * ?m)" by simp
  also have "\<dots> \<le> x * ((?q + 60 * u) * (1 + u))" using cm(1) x0 by (intro mult_left_mono) simp_all
  finally show "?P * (1 - u) * (1 - u) \<le> float_div (float_div ?P ?m) c * ((?q + 60 * u) * (1 + u))" unfolding x .
  have "x * ((?q - 60 * u) * (1 - u)) \<le> x * (c * ?m)" using cm(2) x0 by (intro mult_left_mono) simp_all
  also have "\<dots> = x * c * ?m" by simp
  also have "\<dots> \<le> a * (1 + u) * ?m" using xc(2) pos(3) by (intro mult_right_mono) simp_all
  also have "\<dots> = a * ?m * (1 + u)" by simp
  also have "\<dots> \<le> ?P * (1 + u) * (1 + u)" using ab(2) u by (intro mult_right_mono) simp_all
  finally show "float_div (float_div ?P ?m) c * ((?q - 60 * u) * (1 - u)) \<le> ?P * (1 + u) * (1 + u)" unfolding x .
qed

text \<open>Comparison with an integer.\<close>

lemma count_above:
  fixes P h m K :: int
  assumes "0 < P" "P < 65536" "0 < h" "h \<le> 60" "h < m" "0 \<le> K" "K * (m - h) < P"
  shows "of_int K < float_div (float_div (of_int P) (of_int m)) (float_minus 1 (float_div (of_int h) (of_int m)))" (is "_ < ?x")
proof (rule ccontr)
  let ?u = "1 / 16777216 :: rat" and ?q = "of_int (m - h) :: rat"
  assume "\<not> of_int K < ?x"
  then have x: "?x \<le> of_int K" by simp
  have q: "1 \<le> ?q" using assms(5) by simp
  have Kq: "of_int K * ?q \<le> of_int P - 1"
  proof -
    have "K * (m - h) \<le> P - 1" using assms(7) by simp
    then have "of_int (K * (m - h)) \<le> (of_int (P - 1) :: rat)" unfolding of_int_le_iff .
    then show ?thesis by simp
  qed
  have K: "of_int K \<le> (of_int P :: rat)"
  proof -
    have "K * 1 \<le> K * (m - h)" using assms(5,6) by (intro mult_left_mono) simp_all
    then have "K \<le> P" using assms(7) by simp
    then show ?thesis by simp
  qed
  have "of_int P * (1 - ?u) * (1 - ?u) \<le> ?x * ((?q + 60 * ?u) * (1 + ?u))"
    using quotient_bounds(2) [OF assms(1,3,4,5)] .
  also have "\<dots> \<le> of_int K * ((?q + 60 * ?u) * (1 + ?u))" using x q by (intro mult_right_mono) simp_all
  also have "\<dots> = (of_int K * ?q + 60 * ?u * of_int K) * (1 + ?u)" by (simp add: algebra_simps)
  also have "\<dots> \<le> (of_int P - 1 + 60 * ?u * of_int P) * (1 + ?u)" using Kq K by (intro mult_right_mono) simp_all
  finally have "of_int P * (1 - ?u) * (1 - ?u) \<le> (of_int P - 1 + 60 * ?u * of_int P) * (1 + ?u)" .
  moreover have "of_int P \<le> (65535 :: rat)" "0 < (of_int P :: rat)" using assms(1,2) by simp_all
  ultimately show False by (simp add: algebra_simps)
qed

lemma count_below:
  fixes P h m K :: int
  assumes "0 < P" "P < 65536" "0 < h" "h \<le> 60" "h < m" "P < K * (m - h)"
  shows "float_div (float_div (of_int P) (of_int m)) (float_minus 1 (float_div (of_int h) (of_int m))) \<le> of_int K" (is "?x \<le> _")
proof (rule ccontr)
  let ?u = "1 / 16777216 :: rat" and ?q = "of_int (m - h) :: rat"
  assume "\<not> ?x \<le> of_int K"
  then have x: "of_int K \<le> ?x" by simp
  have q: "1 \<le> ?q" using assms(5) by simp
  have Kq: "of_int P + 1 \<le> of_int K * ?q"
  proof -
    have "P + 1 \<le> K * (m - h)" using assms(6) by simp
    then have "of_int (P + 1) \<le> (of_int (K * (m - h)) :: rat)" unfolding of_int_le_iff .
    then show ?thesis by simp
  qed
  have "0 < K"
  proof (rule ccontr)
    assume "\<not> 0 < K"
    then have "K * (m - h) \<le> 0" using assms(5) by (simp add: mult_nonpos_nonneg)
    then show False using assms(1,6) by simp
  qed
  have alg: "k * y * ((1 - 60 * v) * (1 - v)) = k * ((y - 60 * v * y) * (1 - v))" for k y v :: rat
    by (simp add: algebra_simps)
  have "(of_int P + 1) * ((1 - 60 * ?u) * (1 - ?u)) \<le> of_int K * ?q * ((1 - 60 * ?u) * (1 - ?u))"
    using Kq by (intro mult_right_mono) simp_all
  also have "\<dots> = of_int K * ((?q - 60 * ?u * ?q) * (1 - ?u))" by (rule alg)
  also have "\<dots> \<le> of_int K * ((?q - 60 * ?u) * (1 - ?u))"
    using q \<open>0 < K\<close> by (intro mult_left_mono mult_right_mono) simp_all
  also have "\<dots> \<le> ?x * ((?q - 60 * ?u) * (1 - ?u))" using x q by (intro mult_right_mono) simp_all
  also have "\<dots> \<le> of_int P * (1 + ?u) * (1 + ?u)" using quotient_bounds(3) [OF assms(1,3,4,5)] .
  finally have "(of_int P + 1) * ((1 - 60 * ?u) * (1 - ?u)) \<le> of_int P * (1 + ?u) * (1 + ?u)" .
  moreover have "of_int P \<le> (65535 :: rat)" "0 < (of_int P :: rat)" using assms(1,2) by simp_all
  ultimately show False by (simp add: algebra_simps)
qed

text \<open>The number is at least what is needed, and at most one more.\<close>

lemma noOfFragments_bounds:
  fixes P h m :: int
  assumes "0 < P" "P < 65536" "0 < h" "h \<le> 60" "h < m"
  shows "\<exists>n. noOfFragments P h m = Inr n \<and> P \<le> n * (m - h) \<and> (n - 1) * (m - h) \<le> P \<and> 0 < n"
proof -
  let ?q = "m - h" and ?c = "float_minus 1 (float_div (of_int h) (of_int m))"
  let ?x = "float_div (float_div (of_int P) (of_int m)) ?c"
  define n where "n = \<lceil>?x\<rceil>"
  have "?c \<noteq> 0" using quotient_bounds(1) [OF assms(1,3,4,5)] by linarith
  then have N: "noOfFragments P h m = Inr n" using assms(3,5) by (simp add: noOfFragments_def n_def Let_def)
  have "(0 :: rat) < ?x" using count_above [of P h m 0] assms by simp
  then have n0: "0 < n" by (simp add: n_def)
  have "P \<le> n * ?q"
  proof (rule ccontr)
    assume "\<not> P \<le> n * ?q"
    then have "of_int n < ?x" using count_above [of P h m n] assms n0 by simp
    then show False unfolding n_def by linarith
  qed
  moreover have "(n - 1) * ?q \<le> P"
  proof (rule ccontr)
    assume "\<not> (n - 1) * ?q \<le> P"
    then have "?x \<le> of_int (n - 1)" by (intro count_below) (use assms in simp_all)
    then show False unfolding n_def by linarith
  qed
  ultimately show ?thesis using N n0 by blast
qed

end
