(* ===== verification/IP_Frag.thy ===== *)
theory IP_Frag
  imports IP_Datagram IP_Reassembly IP_Count
begin

text \<open>
  Fragmentation and reassembly of datagrams: the fragments that \<open>IP::fragmentAndSend\<close> makes, and
  the buffers in which \<open>IPFragBuf\<close> collects them.  The fragments of a datagram partition its payload,
  and collected in any order they give the datagram back.
\<close>

section \<open>Making fragments\<close>

definition makeFragment :: "int \<Rightarrow> int \<Rightarrow> Datagram \<Rightarrow> int \<Rightarrow> Datagram" where
  "makeFragment mtu n d i =
     (case dupDatagram d of (h, enc) \<Rightarrow>
        (let f = h\<lparr>ip_name := ip_name h @ ''-frag''\<rparr>;
             f = (if i \<noteq> n - 1 then f\<lparr>moreFragments := True, ip_byteLength := mtu\<rparr>
                  else f\<lparr>ip_byteLength := ip_byteLength h - (n - 1) * (mtu - headerLength h)\<rparr>)
         in (f\<lparr>fragmentOffset := i * (mtu - headerLength h)\<rparr>, enc)))"

definition fragmentsOf :: "int \<Rightarrow> int \<Rightarrow> Datagram \<Rightarrow> Datagram list" where
  "fragmentsOf mtu n d = map (\<lambda>i. makeFragment mtu n d (int i)) [0..<nat n]"

section \<open>Reassembly buffers\<close>

datatype FragKey = FragKey (fk_id: u16) (fk_src: IPAddress) (fk_dest: IPAddress)

definition fragkey_less :: "FragKey \<Rightarrow> FragKey \<Rightarrow> bool" where
  "fragkey_less a b \<longleftrightarrow>
     (if fk_id a \<noteq> fk_id b then fk_id a < fk_id b
      else if fk_src a \<noteq> fk_src b then fk_src a < fk_src b else fk_dest a < fk_dest b)"

record DatagramBuffer =
  db_buf :: ReassemblyBuffer
  db_datagram :: "Datagram option"
  db_lastupdate :: simtime

text \<open>The buffers, in the order in which the loops over the \<open>std::map\<close> visit them.\<close>

type_synonym IPFragBuf = "(FragKey \<times> DatagramBuffer) list"

fun putBuffer :: "FragKey \<Rightarrow> DatagramBuffer \<Rightarrow> IPFragBuf \<Rightarrow> IPFragBuf" where
  "putBuffer k b [] = [(k, b)]"
| "putBuffer k b ((k', b') # bs) =
     (if k = k' then (k, b) # bs
      else if fragkey_less k k' then (k, b) # (k', b') # bs
      else (k', b') # putBuffer k b bs)"

definition eraseBuffer :: "FragKey \<Rightarrow> IPFragBuf \<Rightarrow> IPFragBuf" where
  "eraseBuffer k bs = filter (\<lambda>(k', _). k' \<noteq> k) bs"

definition fragKey :: "Datagram \<Rightarrow> FragKey" where
  "fragKey d = FragKey (word_of_int (identification (fst d))) (srcAddress (fst d)) (destAddress (fst d))"

text \<open>
  \<open>addFragment\<close>.  The iterator that is erased when the datagram is complete was looked up before a
  missing buffer was created, so that it is \<open>end()\<close> when the first fragment already completes the
  datagram.
\<close>

definition addFragment :: "Datagram \<Rightarrow> simtime \<Rightarrow> IPFragBuf \<Rightarrow> (Datagram option \<times> IPFragBuf) res" where
  "addFragment d now bufs =
     (let key = fragKey d;
          found = map_of bufs key;
          buf = (case found of None \<Rightarrow> \<lparr> db_buf = newReassemblyBuffer, db_datagram = None, db_lastupdate = 0 \<rparr> | Some b \<Rightarrow> b);
          bytes = ip_byteLength (fst d) - headerLength (fst d);
          (isComplete, rb) = rb_addFragment (word_of_int (fragmentOffset (fst d))) (word_of_int (fragmentOffset (fst d) + bytes))
                               (\<not> moreFragments (fst d)) (db_buf buf);
          buf = buf\<lparr>db_buf := rb, db_datagram := (if snd d \<noteq> None then Some d else db_datagram buf)\<rparr>
      in if isComplete
         then case db_datagram buf of
                None \<Rightarrow> Inl NullPointer
              | Some (h, enc) \<Rightarrow>
                  if found = None then Inl (RuntimeError ''erase(end())'')
                  else Inr (Some (h\<lparr>ip_byteLength := headerLength h + uint (getTotalLength rb)\<rparr>, enc), eraseBuffer key bufs)
         else Inr (None, putBuffer key (buf\<lparr>db_lastupdate := now\<rparr>) bufs))"

text \<open>\<open>purgeStaleFragments\<close>: the datagrams for which ICMP is asked to send an error, and what is left.\<close>

fun purgeStaleFragments :: "simtime \<Rightarrow> IPFragBuf \<Rightarrow> (Datagram list \<times> IPFragBuf) res" where
  "purgeStaleFragments lastupdate [] = Inr ([], [])"
| "purgeStaleFragments lastupdate ((k, b) # bs) =
     (if db_lastupdate b < lastupdate
      then case db_datagram b of None \<Rightarrow> Inl NullPointer
           | Some d \<Rightarrow> bindE (purgeStaleFragments lastupdate bs) (\<lambda>(ds, bs). Inr (d # ds, bs))
      else bindE (purgeStaleFragments lastupdate bs) (\<lambda>(ds, bs). Inr (ds, (k, b) # bs)))"

section \<open>The fragments partition the payload\<close>

text \<open>A datagram that IP can cut for the given MTU.\<close>

definition can_cut :: "int \<Rightarrow> Datagram \<Rightarrow> bool" where
  "can_cut mtu d \<longleftrightarrow> 0 < headerLength (fst d) \<and> headerLength (fst d) \<le> 60 \<and> headerLength (fst d) < mtu \<and>
     mtu < ip_byteLength (fst d) \<and> ip_byteLength (fst d) - headerLength (fst d) < 65536"

definition payloadLen :: "Datagram \<Rightarrow> int" where
  "payloadLen d = ip_byteLength (fst d) - headerLength (fst d)"

definition cut_lens :: "int \<Rightarrow> int \<Rightarrow> Datagram \<Rightarrow> nat list" where
  "cut_lens mtu n d = map (\<lambda>f. nat (payloadLen f)) (fragmentsOf mtu n d)"

lemma count_ok:
  assumes "can_cut mtu d"
  shows "\<exists>n. noOfFragments (payloadLen d) (headerLength (fst d)) mtu = Inr n \<and> 2 \<le> n \<and>
    payloadLen d \<le> n * (mtu - headerLength (fst d)) \<and> (n - 1) * (mtu - headerLength (fst d)) \<le> payloadLen d"
proof -
  let ?P = "payloadLen d" and ?h = "headerLength (fst d)"
  have c: "0 < ?P" "?P < 65536" "0 < ?h" "?h \<le> 60" "?h < mtu" "mtu - ?h < ?P"
    using assms by (auto simp: can_cut_def payloadLen_def)
  obtain n where n: "noOfFragments ?P ?h mtu = Inr n" "?P \<le> n * (mtu - ?h)" "(n - 1) * (mtu - ?h) \<le> ?P" "0 < n"
    using noOfFragments_bounds [OF c(1-5)] by blast
  have "n \<noteq> 1" using n(2) c(6) by auto
  with n show ?thesis by auto
qed

lemma length_fragmentsOf [simp]: "length (fragmentsOf mtu n d) = nat n"
  by (simp add: fragmentsOf_def)

lemma nth_fragmentsOf: "i < nat n \<Longrightarrow> fragmentsOf mtu n d ! i = makeFragment mtu n d (int i)"
  by (simp add: fragmentsOf_def)

lemma makeFragment_sel:
  "snd (makeFragment mtu n d i) = snd d" "headerLength (fst (makeFragment mtu n d i)) = headerLength (fst d)"
  "fragmentOffset (fst (makeFragment mtu n d i)) = i * (mtu - headerLength (fst d))"
  "moreFragments (fst (makeFragment mtu n d i)) = (i \<noteq> n - 1 \<or> moreFragments (fst d))"
  "ip_byteLength (fst (makeFragment mtu n d i)) = (if i \<noteq> n - 1 then mtu else ip_byteLength (fst d) - (n - 1) * (mtu - headerLength (fst d)))"
  "fragKey (makeFragment mtu n d i) = fragKey d"
  by (simp_all add: makeFragment_def dupDatagram_def fragKey_def Let_def)

lemma nth_cut_lens:
  "i < nat n \<Longrightarrow> cut_lens mtu n d ! i =
    (if int i \<noteq> n - 1 then nat (mtu - headerLength (fst d)) else nat (payloadLen d - (n - 1) * (mtu - headerLength (fst d))))"
  by (simp add: cut_lens_def nth_fragmentsOf payloadLen_def makeFragment_sel algebra_simps)

lemma length_cut_lens [simp]: "length (cut_lens mtu n d) = nat n"
  by (simp add: cut_lens_def)

lemma sum_take_const: "i \<le> length ls \<Longrightarrow> \<forall>k<i. ls ! k = c \<Longrightarrow> sum_list (take i ls) = i * (c :: nat)"
  by (induction i) (simp_all add: take_Suc_conv_app_nth)

lemma off_cut:
  assumes "int i < n" "headerLength (fst d) < mtu"
  shows "int (off (cut_lens mtu n d) i) = int i * (mtu - headerLength (fst d))"
proof -
  have "\<forall>k<i. cut_lens mtu n d ! k = nat (mtu - headerLength (fst d))" using assms(1) by (simp add: nth_cut_lens)
  moreover have "i \<le> length (cut_lens mtu n d)" using assms(1) by simp
  ultimately have "off (cut_lens mtu n d) i = i * nat (mtu - headerLength (fst d))"
    unfolding off_def by (intro sum_take_const)
  then show ?thesis using assms(2) by simp
qed

lemma off_cut_end:
  assumes "0 < n" "headerLength (fst d) < mtu" "(n - 1) * (mtu - headerLength (fst d)) \<le> payloadLen d"
  shows "int (off (cut_lens mtu n d) (nat n)) = payloadLen d"
proof -
  obtain k where "n = int k" "0 < k" using assms(1) by (rule pos_int_cases)
  then obtain k where k: "nat n = Suc k" "int k = n - 1" by (metis gr0_implies_Suc nat_int of_nat_Suc add_diff_cancel_left')
  have "off (cut_lens mtu n d) (Suc k) = off (cut_lens mtu n d) k + cut_lens mtu n d ! k"
    using k by (intro off_Suc) simp
  moreover have "int (off (cut_lens mtu n d) k) = int k * (mtu - headerLength (fst d))"
    using k(2) assms(2) by (intro off_cut) simp_all
  moreover have "int (cut_lens mtu n d ! k) = payloadLen d - (n - 1) * (mtu - headerLength (fst d))"
    using k assms(3) by (simp add: nth_cut_lens)
  ultimately show ?thesis using k by simp
qed

lemma cut_lens_ok:
  assumes "can_cut mtu d" "0 < n" "payloadLen d \<le> n * (mtu - headerLength (fst d))" "(n - 1) * (mtu - headerLength (fst d)) \<le> payloadLen d"
  shows "cut_ok (cut_lens mtu n d)" "int (sum_list (cut_lens mtu n d)) = payloadLen d"
proof -
  have h: "headerLength (fst d) < mtu" using assms(1) by (simp add: can_cut_def)
  show s: "int (sum_list (cut_lens mtu n d)) = payloadLen d"
    using off_cut_end [OF assms(2) h assms(4)] by (simp add: off_def)
  have "0 < l" if l: "l \<in> set (butlast (cut_lens mtu n d))" for l
  proof -
    obtain i where i: "i < nat n - 1" "l = butlast (cut_lens mtu n d) ! i" using l by (auto simp: in_set_conv_nth)
    then have "l = cut_lens mtu n d ! i" by (simp add: nth_butlast)
    then show ?thesis using i(1) h by (simp add: nth_cut_lens)
  qed
  moreover have "sum_list (cut_lens mtu n d) < 65536" using s assms(1) by (simp add: can_cut_def payloadLen_def)
  moreover have "cut_lens mtu n d \<noteq> []" using assms(2) by (metis length_cut_lens length_0_conv zero_less_nat_eq less_nat_zero_code)
  ultimately show "cut_ok (cut_lens mtu n d)" by (simp add: cut_ok_def)
qed

text \<open>The offsets of a fragment are those of the cut.\<close>

lemma fragment_region:
  assumes "can_cut mtu d" "0 < n" "payloadLen d \<le> n * (mtu - headerLength (fst d))" "(n - 1) * (mtu - headerLength (fst d)) \<le> payloadLen d"
    "int i < n" "\<not> moreFragments (fst d)"
  defines "f \<equiv> makeFragment mtu n d (int i)" and "ls \<equiv> cut_lens mtu n d"
  shows "word_of_int (fragmentOffset (fst f)) = fr_beg (frag ls i)"
    "word_of_int (fragmentOffset (fst f) + (ip_byteLength (fst f) - headerLength (fst f))) = fr_end (frag ls i)"
    "(\<not> moreFragments (fst f)) = fr_islast (frag ls i)"
proof -
  have h: "headerLength (fst d) < mtu" using assms(1) by (simp add: can_cut_def)
  have o: "fragmentOffset (fst f) = int (off ls i)" using off_cut [OF assms(5) h] by (simp add: f_def ls_def makeFragment_sel)
  have "nat n = length ls" by (simp add: ls_def)
  have "i < nat n" using assms(5) by simp
  then have "ls ! i = nat (payloadLen f)" unfolding ls_def cut_lens_def f_def by (simp add: nth_fragmentsOf)
  moreover have "0 \<le> payloadLen f"
    using assms(1,4,5) h by (auto simp: f_def payloadLen_def makeFragment_sel algebra_simps)
  ultimately have "payloadLen f = int (ls ! i)" by simp
  then have e: "fragmentOffset (fst f) + (ip_byteLength (fst f) - headerLength (fst f)) = int (off ls (Suc i))"
    using o assms(5) \<open>nat n = length ls\<close> by (simp add: off_Suc payloadLen_def)
  show "word_of_int (fragmentOffset (fst f)) = fr_beg (frag ls i)" by (simp add: o)
  show "word_of_int (fragmentOffset (fst f) + (ip_byteLength (fst f) - headerLength (fst f))) = fr_end (frag ls i)"
    unfolding e by simp
  show "(\<not> moreFragments (fst f)) = fr_islast (frag ls i)"
    using assms(2,5,6) \<open>nat n = length ls\<close> by (auto simp: f_def makeFragment_sel)
qed

section \<open>Collecting fragments\<close>

lemma map_of_putBuffer [simp]: "map_of (putBuffer k b bs) = (map_of bs)(k \<mapsto> b)"
  by (induction k b bs rule: putBuffer.induct) (auto simp: fun_eq_iff)

lemma map_of_eraseBuffer [simp]: "map_of (eraseBuffer k bs) = (map_of bs)(k := None)"
  unfolding eraseBuffer_def by (induction bs) (auto simp: fun_eq_iff)

text \<open>Handing over fragments one after the other, each with its time of arrival.\<close>

fun feed :: "(Datagram \<times> simtime) list \<Rightarrow> IPFragBuf \<Rightarrow> (Datagram option list \<times> IPFragBuf) res" where
  "feed [] bufs = Inr ([], bufs)"
| "feed ((d, now) # fs) bufs =
     bindE (addFragment d now bufs) (\<lambda>(r, bufs). bindE (feed fs bufs) (\<lambda>(rs, bufs). Inr (r # rs, bufs)))"

text \<open>The buffer of the datagram \<open>d\<close> when the fragments of the set \<open>S\<close> have arrived.\<close>

definition collecting :: "int \<Rightarrow> int \<Rightarrow> Datagram \<Rightarrow> nat set \<Rightarrow> IPFragBuf \<Rightarrow> bool" where
  "collecting mtu n d S bufs \<longleftrightarrow>
     (case map_of bufs (fragKey d) of
        None \<Rightarrow> S = {}
      | Some b \<Rightarrow> S \<noteq> {} \<and> has_frags (cut_lens mtu n d) S (db_buf b) \<and> (\<exists>k. int k < n \<and> db_datagram b = Some (makeFragment mtu n d (int k))))"

text \<open>A whole datagram that is cut into \<open>n\<close> fragments.\<close>

definition cutting :: "int \<Rightarrow> int \<Rightarrow> Datagram \<Rightarrow> bool" where
  "cutting mtu n d \<longleftrightarrow> can_cut mtu d \<and> 2 \<le> n \<and> payloadLen d \<le> n * (mtu - headerLength (fst d)) \<and>
     (n - 1) * (mtu - headerLength (fst d)) \<le> payloadLen d \<and> \<not> moreFragments (fst d) \<and> snd d \<noteq> None"

lemma cuttingD:
  assumes "cutting mtu n d"
  shows "can_cut mtu d" "2 \<le> n" "0 < n" "payloadLen d \<le> n * (mtu - headerLength (fst d))"
    "(n - 1) * (mtu - headerLength (fst d)) \<le> payloadLen d" "\<not> moreFragments (fst d)" "snd d \<noteq> None"
  using assms by (simp_all add: cutting_def)

lemma cutting_lens:
  assumes "cutting mtu n d"
  shows "cut_ok (cut_lens mtu n d)" "int (sum_list (cut_lens mtu n d)) = payloadLen d"
  using cut_lens_ok [OF cuttingD(1,3-5) [OF assms]] by simp_all

lemma add_step:
  assumes cuts: "cutting mtu n d" and "collecting mtu n d S bufs" "int i < n"
  shows "if insert i S = {..<nat n}
    then S \<noteq> {} \<longrightarrow> (\<exists>h. addFragment (makeFragment mtu n d (int i)) now bufs = Inr (Some (h, snd d), eraseBuffer (fragKey d) bufs) \<and>
      h = (fst (makeFragment mtu n d (int i)))\<lparr>ip_byteLength := ip_byteLength (fst d)\<rparr>)
    else \<exists>b. addFragment (makeFragment mtu n d (int i)) now bufs = Inr (None, putBuffer (fragKey d) b bufs) \<and>
      collecting mtu n d (insert i S) (putBuffer (fragKey d) b bufs)"
proof -
  note cut = cutting_lens [OF cuts] and content = cuttingD(7) [OF cuts]
  let ?ls = "cut_lens mtu n d" and ?f = "makeFragment mtu n d (int i)"
  define buf where "buf = (case map_of bufs (fragKey d) of
    None \<Rightarrow> \<lparr> db_buf = newReassemblyBuffer, db_datagram = None, db_lastupdate = 0 \<rparr> | Some b \<Rightarrow> b)"
  have has: "has_frags ?ls S (db_buf buf)"
    using assms(2) has_frags_new [of ?ls] cut(1)
    by (auto simp: collecting_def buf_def cut_ok_def split: option.splits)
  define rb where "rb = rb_merge (fr_beg (frag ?ls i)) (fr_end (frag ?ls i)) (fr_islast (frag ?ls i)) (db_buf buf)"
  have "i < length ?ls" using assms(3) by simp
  then have has': "has_frags ?ls (insert i S) rb" unfolding rb_def by (rule merge_ok [OF cut(1) has])
  note c = complete_iff [OF cut(1) has']
  have r: "rb_addFragment (word_of_int (fragmentOffset (fst ?f))) (word_of_int (fragmentOffset (fst ?f) + (ip_byteLength (fst ?f) - headerLength (fst ?f))))
      (\<not> moreFragments (fst ?f)) (db_buf buf) = (insert i S = {..<nat n}, rb)"
    using c(1,2) fragment_region [OF cuttingD(1,3-5) [OF cuts] assms(3) cuttingD(6) [OF cuts]]
    by (simp add: rb_addFragment_def rb_def Let_def)
  have a: "addFragment ?f now bufs =
      (if insert i S = {..<nat n}
       then if map_of bufs (fragKey d) = None then Inl (RuntimeError ''erase(end())'')
            else Inr (Some ((fst ?f)\<lparr>ip_byteLength := headerLength (fst ?f) + uint (getTotalLength rb)\<rparr>, snd ?f), eraseBuffer (fragKey d) bufs)
       else Inr (None, putBuffer (fragKey d) (buf\<lparr>db_buf := rb, db_datagram := Some ?f, db_lastupdate := now\<rparr>) bufs))"
  proof -
    obtain hf where f: "?f = (hf, snd d)" using makeFragment_sel(1) by (metis prod.collapse)
    show ?thesis
      unfolding addFragment_def Let_def makeFragment_sel(6) buf_def [symmetric] r prod.case
      unfolding f using content by simp
  qed
  show ?thesis
  proof (cases "insert i S = {..<nat n}")
    case True
    have "uint (getTotalLength rb) = payloadLen d"
      using c(3) True cut(2) by (simp add: uint_nat)
    then have "headerLength (fst ?f) + uint (getTotalLength rb) = ip_byteLength (fst d)"
      by (simp add: payloadLen_def makeFragment_sel)
    moreover have "map_of bufs (fragKey d) = None \<longrightarrow> S = {}" using assms(2) by (auto simp: collecting_def)
    ultimately show ?thesis using True a by (simp add: makeFragment_sel)
  next
    case False
    let ?b = "buf\<lparr>db_buf := rb, db_datagram := Some ?f, db_lastupdate := now\<rparr>"
    have "collecting mtu n d (insert i S) (putBuffer (fragKey d) ?b bufs)"
      using has' assms(3) by (auto simp: collecting_def)
    then show ?thesis using a False by (intro if_not_P [THEN iffD2] exI [of _ ?b]) simp_all
  qed
qed

lemma feed_partial:
  assumes cuts: "cutting mtu n d" and "collecting mtu n d S bufs" "map fst fs = map (\<lambda>k. makeFragment mtu n d (int k)) js" "\<forall>k\<in>set js. int k < n"
    "i < nat n" "i \<notin> S" "i \<notin> set js"
  shows "\<exists>bufs'. feed fs bufs = Inr (replicate (length js) None, bufs') \<and> collecting mtu n d (S \<union> set js) bufs' \<and>
    (\<forall>k. k \<noteq> fragKey d \<longrightarrow> map_of bufs' k = map_of bufs k)"
  using assms(2-)
proof (induction js arbitrary: S bufs fs)
  case Nil
  then show ?case by simp
next
  case (Cons j js)
  obtain now fs' where fs: "fs = (makeFragment mtu n d (int j), now) # fs'"
    "map fst fs' = map (\<lambda>k. makeFragment mtu n d (int k)) js"
    using Cons.prems(2) by (cases fs) auto
  have "insert j S \<noteq> {..<nat n}" using Cons.prems(4-6) by auto
  then obtain b where b: "addFragment (makeFragment mtu n d (int j)) now bufs = Inr (None, putBuffer (fragKey d) b bufs)"
    "collecting mtu n d (insert j S) (putBuffer (fragKey d) b bufs)"
    using add_step [OF cuts Cons.prems(1), of j now] Cons.prems(3) by auto
  obtain bufs' where "feed fs' (putBuffer (fragKey d) b bufs) = Inr (replicate (length js) None, bufs')"
    "collecting mtu n d (insert j S \<union> set js) bufs'" "\<forall>k. k \<noteq> fragKey d \<longrightarrow> map_of bufs' k = map_of (putBuffer (fragKey d) b bufs) k"
    using Cons.IH [OF b(2) fs(2)] Cons.prems(3-6) by auto
  then show ?case using b(1) fs(1) by auto
qed

section \<open>Properties\<close>

text \<open>
  Property C31: the fragments that IP makes partition the payload.  For a datagram that is larger than the
  MTU and has at most 65535 octets of payload, the number of fragments computed in \<open>float\<close>
  arithmetic is at least two; no fragment is larger than the MTU; the fragments begin where the
  previous one ends and their lengths add up to the payload; only the last one keeps the
  \<open>more fragments\<close> flag of the datagram, in the others it is set.  Only the last fragment can be
  empty.
\<close>

theorem fragments_partition:
  assumes "can_cut mtu d"
  shows "\<exists>n. noOfFragments (payloadLen d) (headerLength (fst d)) mtu = Inr n \<and> 2 \<le> n \<and>
    (let fs = fragmentsOf mtu n d
     in length fs = nat n \<and> sum_list (map payloadLen fs) = payloadLen d \<and>
        (\<forall>i < length fs. ip_byteLength (fst (fs ! i)) \<le> mtu \<and> snd (fs ! i) = snd d \<and>
           fragmentOffset (fst (fs ! i)) = sum_list (map payloadLen (take i fs)) \<and>
           (if Suc i = length fs then 0 \<le> payloadLen (fs ! i) \<and> moreFragments (fst (fs ! i)) = moreFragments (fst d)
            else 0 < payloadLen (fs ! i) \<and> moreFragments (fst (fs ! i)))))"
proof -
  let ?h = "headerLength (fst d)"
  obtain n where n: "noOfFragments (payloadLen d) ?h mtu = Inr n" "2 \<le> n" "payloadLen d \<le> n * (mtu - ?h)"
    "(n - 1) * (mtu - ?h) \<le> payloadLen d"
    using count_ok [OF assms] by blast
  have h: "?h < mtu" using assms by (simp add: can_cut_def)
  define fs where "fs = fragmentsOf mtu n d"
  have f: "fs ! i = makeFragment mtu n d (int i)" if "i < nat n" for i using that by (simp add: fs_def nth_fragmentsOf)
  have p0: "0 \<le> payloadLen (fs ! i)" if "i < nat n" for i
    using that n(4) h by (auto simp: f payloadLen_def makeFragment_sel algebra_simps)
  have pl: "map payloadLen fs = map int (cut_lens mtu n d)"
    using p0 unfolding cut_lens_def fs_def [symmetric] by (auto simp: list_eq_iff_nth_eq fs_def)
  have sum_list_int: "sum_list (map int xs) = int (sum_list xs)" for xs by (induction xs) simp_all
  have s: "sum_list (map payloadLen (take i fs)) = int (off (cut_lens mtu n d) i)" for i
    unfolding off_def take_map [symmetric] pl by (simp add: take_map sum_list_int)
  have "length fs = nat n" by (simp add: fs_def)
  have total: "sum_list (map payloadLen fs) = payloadLen d"
    using s [of "nat n"] off_cut_end [OF _ h n(4)] n(2) \<open>length fs = nat n\<close> by simp
  have each: "ip_byteLength (fst (fs ! i)) \<le> mtu \<and> snd (fs ! i) = snd d \<and>
      fragmentOffset (fst (fs ! i)) = sum_list (map payloadLen (take i fs)) \<and>
      (if Suc i = length fs then 0 \<le> payloadLen (fs ! i) \<and> moreFragments (fst (fs ! i)) = moreFragments (fst d)
       else 0 < payloadLen (fs ! i) \<and> moreFragments (fst (fs ! i)))" if i: "i < length fs" for i
  proof -
    have i': "i < nat n" "int i < n" using i \<open>length fs = nat n\<close> by simp_all
    have "fragmentOffset (fst (fs ! i)) = sum_list (map payloadLen (take i fs))"
      unfolding s using off_cut [OF i'(2) h] by (simp add: f [OF i'(1)] makeFragment_sel)
    moreover have "ip_byteLength (fst (fs ! i)) \<le> mtu"
      using n(3) by (simp add: f [OF i'(1)] makeFragment_sel payloadLen_def algebra_simps)
    moreover have "Suc i = length fs \<longleftrightarrow> int i = n - 1" using i' n(2) \<open>length fs = nat n\<close> by auto
    ultimately show ?thesis
      using p0 [OF i'(1)] h by (auto simp: f [OF i'(1)] makeFragment_sel payloadLen_def)
  qed
  show ?thesis
    unfolding Let_def using n(1,2) total each \<open>length fs = nat n\<close> unfolding fs_def by blast
qed

definition demo_datagram :: Datagram where
  "demo_datagram = ((newIPHeader ''data'')\<lparr>srcAddress := 0x0A000001, destAddress := 0x0A010001, identification := 7,
     timeToLive := 32, transportProtocol := IP_PROT_UDP, ip_byteLength := 1400\<rparr>,
     Some (TransportPacket \<lparr> pkName = ''data'', byteLength = 1380 \<rparr>))"

lemma demo_can_cut: "can_cut 296 demo_datagram"
  by (simp add: can_cut_def demo_datagram_def newIPHeader_def IP_HEADER_BYTES_def)

text \<open>Here 5 fragments would do, and the sixth carries nothing.\<close>

theorem fragments_partition_witness:
  "\<exists>n. noOfFragments 1380 20 296 = Inr n \<and> 2 \<le> n \<and> sum_list (map payloadLen (fragmentsOf 296 n demo_datagram)) = 1380"
  using fragments_partition [OF demo_can_cut]
  by (auto simp: Let_def payloadLen_def demo_datagram_def newIPHeader_def IP_HEADER_BYTES_def)

text \<open>
  Property C4: fragmentation and reassembly are inverse to each other.  When the fragments of a
  datagram arrive in any order, with any repetitions before the last missing one, at any
  times, and no other datagram with its key is being collected, \<open>addFragment\<close> keeps them
  until the last one arrives and then gives the datagram back: its length, its content, its
  addresses, protocol and identification.  The buffers of all other datagrams are as before.
\<close>

theorem fragmentation_roundtrip:
  assumes "can_cut mtu d" "\<not> moreFragments (fst d)" "snd d \<noteq> None" "map_of bufs (fragKey d) = None"
    and "noOfFragments (payloadLen d) (headerLength (fst d)) mtu = Inr n"
    and "map fst fs = map (\<lambda>k. fragmentsOf mtu n d ! k) (js @ [i])" "set (js @ [i]) = {..<nat n}" "i \<notin> set js"
  shows "\<exists>h bufs'. feed fs bufs = Inr (replicate (length js) None @ [Some (h, snd d)], bufs') \<and> map_of bufs' = map_of bufs \<and>
    ip_byteLength h = ip_byteLength (fst d) \<and> headerLength h = headerLength (fst d) \<and> srcAddress h = srcAddress (fst d) \<and>
    destAddress h = destAddress (fst d) \<and> transportProtocol h = transportProtocol (fst d) \<and>
    identification h = identification (fst d) \<and> timeToLive h = timeToLive (fst d)"
proof -
  have cuts: "cutting mtu n d" using count_ok [OF assms(1)] assms by (auto simp: cutting_def)
  have mem: "int k < n" if "k \<in> set (js @ [i])" for k
    using that unfolding assms(7) lessThan_iff by linarith
  have "map fst fs = map (\<lambda>k. makeFragment mtu n d (int k)) (js @ [i])"
    unfolding assms(6)
  proof (rule map_cong [OF refl])
    fix k assume "k \<in> set (js @ [i])"
    then have "k < nat n" unfolding assms(7) by simp
    then show "fragmentsOf mtu n d ! k = makeFragment mtu n d (int k)" by (rule nth_fragmentsOf)
  qed
  then obtain fs' now where fs: "fs = fs' @ [(makeFragment mtu n d (int i), now)]"
    "map fst fs' = map (\<lambda>k. makeFragment mtu n d (int k)) js"
    by (cases fs rule: rev_cases) auto
  have i: "i < nat n" using mem [of i] by simp
  have start: "collecting mtu n d {} bufs" using assms(4) by (simp add: collecting_def)
  obtain bufs1 where b1: "feed fs' bufs = Inr (replicate (length js) None, bufs1)" "collecting mtu n d (set js) bufs1"
    "\<forall>k. k \<noteq> fragKey d \<longrightarrow> map_of bufs1 k = map_of bufs k"
    using feed_partial [OF cuts start fs(2) _ i _ assms(8)] mem by auto
  have all: "insert i (set js) = {..<nat n}" using assms(7) by simp
  have "set js \<noteq> {}"
  proof
    assume "set js = {}"
    then have "card {..<nat n} = 1" unfolding all [symmetric] by simp
    then show False using cuttingD(2) [OF cuts] by simp
  qed
  then have a: "addFragment (makeFragment mtu n d (int i)) now bufs1 =
      Inr (Some ((fst (makeFragment mtu n d (int i)))\<lparr>ip_byteLength := ip_byteLength (fst d)\<rparr>, snd d), eraseBuffer (fragKey d) bufs1)"
  proof -
    have "int i < n" using mem [of i] by simp
    from add_step [OF cuts b1(2) this, of now] \<open>set js \<noteq> {}\<close> show ?thesis unfolding all if_P [OF refl] by blast
  qed
  have app: "feed (xs @ ys) b = bindE (feed xs b) (\<lambda>(rs, b). bindE (feed ys b) (\<lambda>(rs', b). Inr (rs @ rs', b)))" for xs ys b
    by (induction xs b rule: feed.induct) (auto simp: bindE_def split: sum.splits)
  have "map_of (eraseBuffer (fragKey d) bufs1) = map_of bufs" using b1(3) assms(4) by (auto simp: fun_eq_iff)
  then show ?thesis
    unfolding fs(1) app b1(1) using a
    by (intro exI [of _ "(fst (makeFragment mtu n d (int i)))\<lparr>ip_byteLength := ip_byteLength (fst d)\<rparr>"] exI [of _ "eraseBuffer (fragKey d) bufs1"])
      (simp add: makeFragment_def dupDatagram_def Let_def)
qed

theorem fragmentation_roundtrip_witness:
  "\<exists>h bufs'. feed (map (\<lambda>k. (fragmentsOf 296 6 demo_datagram ! k, of_nat k)) [5, 2, 2, 0, 4, 1, 3]) [] =
    Inr (replicate 6 None @ [Some (h, snd demo_datagram)], bufs') \<and> ip_byteLength h = 1400"
proof -
  have n: "noOfFragments (payloadLen demo_datagram) (headerLength (fst demo_datagram)) 296 = Inr 6"
    by (simp add: payloadLen_def demo_datagram_def newIPHeader_def IP_HEADER_BYTES_def) code_simp
  have "set ([5, 2, 2, 0, 4, 1] @ [3]) = {..<nat 6}" by (auto simp: lessThan_nat_numeral lessThan_Suc)
  from fragmentation_roundtrip [OF demo_can_cut _ _ _ n _ this, of "[]"
      "map (\<lambda>k. (fragmentsOf 296 6 demo_datagram ! k, of_nat k)) [5, 2, 2, 0, 4, 1, 3]"]
  show ?thesis by (auto simp: demo_datagram_def newIPHeader_def eval_nat_numeral)
qed

end
