(* ===== verification/IP_Interface.thy ===== *)
theory IP_Interface
  imports IP_Address
begin

text \<open>
  Network interfaces: \<open>IPv4InterfaceData\<close>, \<open>InterfaceEntry\<close> and the table \<open>InterfaceTable\<close> that
  holds them (\<open>networklayer/common\<close>).  A pointer to an entry is its position in the vector
  \<open>idToInterface\<close>; slots are never reused, and a deleted interface leaves \<open>None\<close> behind, so that
  a dangling pointer is visible as such.  The table keeps two lazily computed fields, the number
  and the list of the interfaces; the lemmas show that they are never stale.
\<close>

section \<open>Entries\<close>

record IPv4InterfaceData =
  inetAddr :: IPAddress
  if_netmask :: IPAddress
  if_metric :: int
  multicastGroups :: "IPAddress list"

definition newIPv4InterfaceData :: IPv4InterfaceData where
  "newIPv4InterfaceData = \<lparr> inetAddr = 0, if_netmask = ALLONES_ADDRESS, if_metric = 0, multicastGroups = [] \<rparr>"

record InterfaceEntry =
  if_name :: string
  interfaceId :: int
  nwLayerGateIndex :: int
  nodeOutputGateId :: int
  nodeInputGateId :: int
  mtu :: int
  down :: bool
  broadcast :: bool
  multicast :: bool
  pointToPoint :: bool
  loopback :: bool
  datarate :: rat
  macAddr :: "48 word"
  ipv4data :: "IPv4InterfaceData option"

definition newInterfaceEntry :: InterfaceEntry where
  "newInterfaceEntry = \<lparr> if_name = [], interfaceId = - 1, nwLayerGateIndex = - 1, nodeOutputGateId = - 1,
     nodeInputGateId = - 1, mtu = 0, down = False, broadcast = False, multicast = False,
     pointToPoint = False, loopback = False, datarate = 0, macAddr = 0, ipv4data = None \<rparr>"

section \<open>The interface table\<close>

record InterfaceTable =
  idToInterface :: "InterfaceEntry option list"
  tmpNumInterfaces :: int
  tmpInterfaceList :: "nat list option"

definition newInterfaceTable :: InterfaceTable where
  "newInterfaceTable = \<lparr> idToInterface = [], tmpNumInterfaces = - 1, tmpInterfaceList = None \<rparr>"

definition INTERFACEIDS_START :: int where "INTERFACEIDS_START = 100"

text \<open>Dereferencing a pointer, and \<open>ie->ipv4Data()->...\<close>.\<close>

definition derefIf :: "nat \<Rightarrow> InterfaceTable \<Rightarrow> InterfaceEntry res" where
  "derefIf p t =
     (if p < length (idToInterface t)
      then case idToInterface t ! p of None \<Rightarrow> Inl NullPointer | Some e \<Rightarrow> Inr e
      else Inl NullPointer)"

definition ipv4Data :: "nat \<Rightarrow> InterfaceTable \<Rightarrow> IPv4InterfaceData res" where
  "ipv4Data p t =
     bindE (derefIf p t) (\<lambda>e. case ipv4data e of None \<Rightarrow> Inl NullPointer | Some d \<Rightarrow> Inr d)"

fun countInterfaces :: "int \<Rightarrow> InterfaceEntry option list \<Rightarrow> int" where
  "countInterfaces n [] = n"
| "countInterfaces n (e # es) = countInterfaces (if e \<noteq> None then n + 1 else n) es"

definition getNumInterfaces :: "InterfaceTable \<Rightarrow> int \<times> InterfaceTable" where
  "getNumInterfaces t =
     (let t' = (if tmpNumInterfaces t = - 1
                then t\<lparr>tmpNumInterfaces := countInterfaces 0 (idToInterface t)\<rparr> else t)
      in (tmpNumInterfaces t', t'))"

fun collectInterfaces :: "nat \<Rightarrow> InterfaceEntry option list \<Rightarrow> nat list" where
  "collectInterfaces i [] = []"
| "collectInterfaces i (e # es) = (if e \<noteq> None then [i] else []) @ collectInterfaces (Suc i) es"

definition getInterface :: "int \<Rightarrow> InterfaceTable \<Rightarrow> (nat \<times> InterfaceTable) res" where
  "getInterface pos t =
     (let (n, t) = getNumInterfaces t
      in if pos < 0 \<or> pos \<ge> n then Inl (RuntimeError ''getInterface(): interface index out of range'')
         else let t = (if tmpInterfaceList t = None
                       then t\<lparr>tmpInterfaceList := Some (collectInterfaces 0 (idToInterface t))\<rparr> else t)
              in case tmpInterfaceList t of
                   None \<Rightarrow> Inl NullPointer
                 | Some l \<Rightarrow> if nat pos < length l then Inr (l ! nat pos, t) else Inl NullPointer)"

definition getInterfaceById :: "int \<Rightarrow> InterfaceTable \<Rightarrow> nat option" where
  "getInterfaceById ident t =
     (let k = ident - INTERFACEIDS_START
      in if k < 0 \<or> k \<ge> int (length (idToInterface t)) then None
         else if idToInterface t ! nat k = None then None else Some (nat k))"

text \<open>The linear searches: the first entry with a property.\<close>

fun searchInterface :: "(InterfaceEntry \<Rightarrow> bool) \<Rightarrow> nat \<Rightarrow> InterfaceEntry option list \<Rightarrow> nat option" where
  "searchInterface P i [] = None"
| "searchInterface P i (None # es) = searchInterface P (Suc i) es"
| "searchInterface P i (Some e # es) = (if P e then Some i else searchInterface P (Suc i) es)"

definition getInterfaceByName :: "string \<Rightarrow> InterfaceTable \<Rightarrow> nat option" where
  "getInterfaceByName name t = searchInterface (\<lambda>e. if_name e = name) 0 (idToInterface t)"

definition getInterfaceByNodeOutputGateId :: "int \<Rightarrow> InterfaceTable \<Rightarrow> nat option" where
  "getInterfaceByNodeOutputGateId gid t = searchInterface (\<lambda>e. nodeOutputGateId e = gid) 0 (idToInterface t)"

definition getInterfaceByNodeInputGateId :: "int \<Rightarrow> InterfaceTable \<Rightarrow> nat option" where
  "getInterfaceByNodeInputGateId gid t = searchInterface (\<lambda>e. nodeInputGateId e = gid) 0 (idToInterface t)"

definition getInterfaceByNetworkLayerGateIndex :: "int \<Rightarrow> InterfaceTable \<Rightarrow> nat option" where
  "getInterfaceByNetworkLayerGateIndex index t =
     searchInterface (\<lambda>e. nwLayerGateIndex e = index) 0 (idToInterface t)"

definition getFirstLoopbackInterface :: "InterfaceTable \<Rightarrow> nat option" where
  "getFirstLoopbackInterface t = searchInterface loopback 0 (idToInterface t)"

definition invalidateTmpInterfaceList :: "InterfaceTable \<Rightarrow> InterfaceTable" where
  "invalidateTmpInterfaceList t = t\<lparr>tmpNumInterfaces := - 1, tmpInterfaceList := None\<rparr>"

text \<open>
  \<open>discoverConnectingGates\<close> walks over the gates of the interface module.  What the simulation
  kernel tells about one gate: whether it is an output, the identifier of the gate of the host it is
  connected to, and the index of the \<open>ifIn[]\<close> or \<open>ifOut[]\<close> gate it is connected to.
\<close>

record GateInfo =
  g_isOutput :: bool
  g_hostGateId :: "int option"
  g_ifIn :: "int option"
  g_ifOut :: "int option"

fun scanGates :: "GateInfo list \<Rightarrow> InterfaceEntry \<times> int option \<times> int option \<Rightarrow> InterfaceEntry \<times> int option \<times> int option" where
  "scanGates [] s = s"
| "scanGates (g # gs) (e, nwIn, nwOut) =
     (let e = (case g_hostGateId g of None \<Rightarrow> e
               | Some gid \<Rightarrow> if g_isOutput g then e\<lparr>nodeOutputGateId := gid\<rparr> else e\<lparr>nodeInputGateId := gid\<rparr>);
          nwIn = (if g_isOutput g \<and> g_ifIn g \<noteq> None then g_ifIn g else nwIn);
          nwOut = (if \<not> g_isOutput g \<and> g_ifOut g \<noteq> None then g_ifOut g else nwOut)
      in scanGates gs (e, nwIn, nwOut))"

definition discoverConnectingGates :: "GateInfo list \<Rightarrow> InterfaceEntry \<Rightarrow> InterfaceEntry res" where
  "discoverConnectingGates gs e =
     (case scanGates gs (e, None, None) of
        (e, Some i, Some k) \<Rightarrow>
          if i \<noteq> k then Inl (RuntimeError ''addInterface(): interface must be connected to network layer'')
          else Inr (e\<lparr>nwLayerGateIndex := i\<rparr>)
      | _ \<Rightarrow> Inl (RuntimeError ''addInterface(): interface must be connected to network layer''))"

text \<open>
  The table's part of \<open>addInterface\<close> and \<open>deleteInterface\<close>; the notifications they fire are
  delivered by the node (theory \<open>IP_Routing\<close>).
\<close>

definition tab_addInterface :: "InterfaceEntry \<Rightarrow> GateInfo list option \<Rightarrow> InterfaceTable \<Rightarrow> InterfaceTable res" where
  "tab_addInterface entry ifmod t =
     (if getInterfaceByName (if_name entry) t \<noteq> None
      then Inl (RuntimeError ''addInterface(): interface already registered'')
      else let e = entry\<lparr>interfaceId := INTERFACEIDS_START + int (length (idToInterface t))\<rparr>
           in bindE (case ifmod of None \<Rightarrow> Inr e | Some gs \<Rightarrow> discoverConnectingGates gs e)
                (\<lambda>e. Inr (invalidateTmpInterfaceList (t\<lparr>idToInterface := idToInterface t @ [Some e]\<rparr>))))"

definition checkInterface :: "nat \<Rightarrow> InterfaceTable \<Rightarrow> InterfaceTable res" where
  "checkInterface p t =
     bindE (derefIf p t)
       (\<lambda>e. if getInterfaceById (interfaceId e) t \<noteq> Some p
            then Inl (RuntimeError ''deleteInterface(): interface not found in interface table'') else Inr t)"

definition tab_deleteInterface :: "nat \<Rightarrow> InterfaceTable \<Rightarrow> InterfaceTable" where
  "tab_deleteInterface p t = invalidateTmpInterfaceList (t\<lparr>idToInterface := (idToInterface t)[p := None]\<rparr>)"

text \<open>Updating one entry, the setters of \<open>InterfaceEntry\<close> and \<open>IPv4InterfaceData\<close>.\<close>

definition updIf :: "(InterfaceEntry \<Rightarrow> InterfaceEntry) \<Rightarrow> nat \<Rightarrow> InterfaceTable \<Rightarrow> InterfaceTable res" where
  "updIf f p t = bindE (derefIf p t) (\<lambda>e. Inr (t\<lparr>idToInterface := (idToInterface t)[p := Some (f e)]\<rparr>))"

definition updIPv4 :: "(IPv4InterfaceData \<Rightarrow> IPv4InterfaceData) \<Rightarrow> nat \<Rightarrow> InterfaceTable \<Rightarrow> InterfaceTable res" where
  "updIPv4 f p t = bindE (ipv4Data p t) (\<lambda>d. updIf (\<lambda>e. e\<lparr>ipv4data := Some (f d)\<rparr>) p t)"

section \<open>What the loops over the interfaces visit\<close>

text \<open>
  \<open>for (int i=0; i<ift->getNumInterfaces(); i++) ... ift->getInterface(i)\<close> visits the pointers of
  \<open>interfaces\<close>, in this order.
\<close>

definition interfaces :: "InterfaceTable \<Rightarrow> nat list" where
  "interfaces t = collectInterfaces 0 (idToInterface t)"

definition tab_ok :: "InterfaceTable \<Rightarrow> bool" where
  "tab_ok t \<longleftrightarrow> (tmpNumInterfaces t = - 1 \<and> tmpInterfaceList t = None \<or> tmpNumInterfaces t = int (length (interfaces t)) \<and>
      (tmpInterfaceList t = None \<or> tmpInterfaceList t = Some (interfaces t))) \<and>
    (\<forall>p e. p < length (idToInterface t) \<longrightarrow> idToInterface t ! p = Some e \<longrightarrow> interfaceId e = INTERFACEIDS_START + int p)"

lemma countInterfaces_collect: "countInterfaces n es = n + int (length (collectInterfaces i es))"
proof (induction es arbitrary: n i)
  case (Cons e es)
  show ?case using Cons [of "n + 1" "Suc i"] Cons [of n "Suc i"] by (cases e) simp_all
qed simp

lemma set_collectInterfaces:
  "set (collectInterfaces i es) = {i + k | k. k < length es \<and> es ! k \<noteq> None}"
proof (induction es arbitrary: i)
  case Nil
  then show ?case by simp
next
  case (Cons e es)
  have "k < length (e # es) \<and> (e # es) ! k \<noteq> None \<longleftrightarrow>
      k = 0 \<and> e \<noteq> None \<or> (\<exists>j. k = Suc j \<and> j < length es \<and> es ! j \<noteq> None)" for k
    by (cases k) auto
  then have "{i + k | k. k < length (e # es) \<and> (e # es) ! k \<noteq> None} =
      (if e \<noteq> None then {i} else {}) \<union> {Suc i + k | k. k < length es \<and> es ! k \<noteq> None}"
    by (simp only:) force
  then show ?case using Cons by simp
qed

lemma distinct_collectInterfaces: "distinct (collectInterfaces i es)"
  by (induction es arbitrary: i) (auto simp: set_collectInterfaces)

lemma distinct_interfaces [simp]: "distinct (interfaces t)"
  by (simp add: interfaces_def distinct_collectInterfaces)

lemma mem_interfaces: "p \<in> set (interfaces t) \<longleftrightarrow> (\<exists>e. derefIf p t = Inr e)"
  by (auto simp: interfaces_def set_collectInterfaces derefIf_def split: option.split)

lemma searchInterface_Some:
  "searchInterface P i es = Some k \<Longrightarrow> \<exists>j e. k = i + j \<and> j < length es \<and> es ! j = Some e \<and> P e"
proof (induction P i es rule: searchInterface.induct)
  case (2 P i es)
  then obtain j e where "k = Suc i + j" "j < length es" "es ! j = Some e" "P e" by auto
  then show ?case by (intro exI [of _ "Suc j"] exI [of _ e]) simp
next
  case (3 P i e es)
  show ?case
  proof (cases "P e")
    case True
    with 3 show ?thesis by (intro exI [of _ 0] exI [of _ e]) simp
  next
    case False
    with 3 obtain j e' where "k = Suc i + j" "j < length es" "es ! j = Some e'" "P e'" by auto
    then show ?thesis by (intro exI [of _ "Suc j"] exI [of _ e']) simp
  qed
qed simp

lemma searchInterface_None:
  "searchInterface P i es = None \<longleftrightarrow> (\<forall>e. Some e \<in> set es \<longrightarrow> \<not> P e)"
  by (induction P i es rule: searchInterface.induct) auto

lemma searchInterface_deref:
  assumes "searchInterface P 0 (idToInterface t) = Some k"
  shows "\<exists>e. derefIf k t = Inr e \<and> P e"
  using searchInterface_Some [OF assms] by (auto simp: derefIf_def)

text \<open>Every lookup in the table returns a pointer to a live entry.\<close>

lemma lookups_alive:
  "getInterfaceByName n t = Some k \<Longrightarrow> \<exists>e. derefIf k t = Inr e \<and> if_name e = n"
  "getInterfaceByNetworkLayerGateIndex g t = Some k \<Longrightarrow> \<exists>e. derefIf k t = Inr e \<and> nwLayerGateIndex e = g"
  "getFirstLoopbackInterface t = Some k \<Longrightarrow> \<exists>e. derefIf k t = Inr e \<and> loopback e"
  unfolding getInterfaceByName_def getInterfaceByNetworkLayerGateIndex_def getFirstLoopbackInterface_def
  by (drule searchInterface_deref; simp)+

lemma getInterfaceById_alive:
  "getInterfaceById i t = Some k \<Longrightarrow> \<exists>e. derefIf k t = Inr e"
  by (auto simp: getInterfaceById_def derefIf_def Let_def split: if_splits option.splits)

section \<open>The lazily computed fields\<close>

lemma getNumInterfaces_ok:
  assumes "tab_ok t"
  shows "fst (getNumInterfaces t) = int (length (interfaces t))" "tab_ok (snd (getNumInterfaces t))"
    "idToInterface (snd (getNumInterfaces t)) = idToInterface t"
  using assms countInterfaces_collect [of 0 "idToInterface t" 0]
  by (auto simp: getNumInterfaces_def tab_ok_def interfaces_def Let_def)

lemma getInterface_ok:
  assumes "tab_ok t"
  shows "getInterface i t =
      (if 0 \<le> i \<and> i < int (length (interfaces t))
       then Inr (interfaces t ! nat i,
         (snd (getNumInterfaces t))\<lparr>tmpInterfaceList := Some (interfaces t)\<rparr>)
       else Inl (RuntimeError ''getInterface(): interface index out of range''))"
proof -
  obtain n t' where g: "getNumInterfaces t = (n, t')" by fastforce
  have n: "n = int (length (interfaces t))" and ok: "tab_ok t'" and i: "idToInterface t' = idToInterface t"
    using getNumInterfaces_ok [OF assms] g by simp_all
  have "tmpInterfaceList t' = None \<or> tmpInterfaceList t' = Some (interfaces t)"
    using ok i by (auto simp: tab_ok_def interfaces_def)
  then show ?thesis using i by (auto simp: getInterface_def g n Let_def interfaces_def)
qed

lemma tab_ok_tmp: "tab_ok t \<Longrightarrow> tab_ok ((snd (getNumInterfaces t))\<lparr>tmpInterfaceList := Some (interfaces t)\<rparr>)"
proof -
  assume ok: "tab_ok t"
  have "tmpNumInterfaces (snd (getNumInterfaces t)) = int (length (interfaces t))"
    using getNumInterfaces_ok(1) [OF ok] by (simp add: getNumInterfaces_def Let_def)
  then show ?thesis
    using getNumInterfaces_ok(2,3) [OF ok] unfolding tab_ok_def interfaces_def by simp
qed

lemma tab_ok_new: "tab_ok newInterfaceTable"
  by (simp add: tab_ok_def newInterfaceTable_def)

lemma tab_ok_invalidate:
  "(\<forall>p e. p < length es \<longrightarrow> es ! p = Some e \<longrightarrow> interfaceId e = INTERFACEIDS_START + int p) \<Longrightarrow>
    tab_ok (invalidateTmpInterfaceList (t\<lparr>idToInterface := es\<rparr>))"
  by (simp add: tab_ok_def invalidateTmpInterfaceList_def)

lemma scanGates_id: "interfaceId (fst (scanGates gs s)) = interfaceId (fst s)"
  by (induction gs s rule: scanGates.induct) (auto simp: Let_def split: option.splits)

lemma discover_id: "discoverConnectingGates gs e = Inr e' \<Longrightarrow> interfaceId e' = interfaceId e"
  using scanGates_id [of gs "(e, None, None)"]
  by (auto simp: discoverConnectingGates_def split: prod.splits option.splits if_splits)

lemma tab_ok_add: "tab_ok t \<Longrightarrow> tab_addInterface e m t = Inr t' \<Longrightarrow> tab_ok t'"
proof -
  assume ok: "tab_ok t" and a: "tab_addInterface e m t = Inr t'"
  let ?e = "e\<lparr>interfaceId := INTERFACEIDS_START + int (length (idToInterface t))\<rparr>"
  from a obtain e' where d: "(case m of None \<Rightarrow> Inr ?e | Some gs \<Rightarrow> discoverConnectingGates gs ?e) = Inr e'"
    and t': "t' = invalidateTmpInterfaceList (t\<lparr>idToInterface := idToInterface t @ [Some e']\<rparr>)"
    by (auto simp: tab_addInterface_def Let_def bindE_eq_Inr split: if_splits)
  have e': "interfaceId e' = INTERFACEIDS_START + int (length (idToInterface t))"
    using d discover_id [of _ ?e e'] by (cases m) auto
  show ?thesis
    unfolding t' by (rule tab_ok_invalidate) (use ok e' in \<open>auto simp: tab_ok_def nth_append less_Suc_eq\<close>)
qed

lemma tab_ok_delete: "tab_ok t \<Longrightarrow> tab_ok (tab_deleteInterface p t)"
  unfolding tab_deleteInterface_def
  by (rule tab_ok_invalidate) (metis length_list_update nth_list_update nth_list_update_neq option.distinct(1) tab_ok_def)

text \<open>Updating an entry keeps the interfaces.\<close>

lemma collectInterfaces_cong:
  "map (\<lambda>e. e = None) es = map (\<lambda>e. e = None) es' \<Longrightarrow> collectInterfaces i es = collectInterfaces i es'"
proof (induction es arbitrary: i es')
  case (Cons e es)
  then obtain e' es'' where [simp]: "es' = e' # es''" by (cases es') auto
  have "(e = None) = (e' = None)" "collectInterfaces (Suc i) es = collectInterfaces (Suc i) es''" using Cons by auto
  then show ?case by (simp only: \<open>es' = e' # es''\<close> collectInterfaces.simps)
qed simp

lemma derefIf_eq: "derefIf p t = Inr e \<longleftrightarrow> p < length (idToInterface t) \<and> idToInterface t ! p = Some e"
  by (auto simp: derefIf_def split: option.splits)

lemma interfaces_update:
  "derefIf p t = Inr e \<Longrightarrow> interfaces (t\<lparr>idToInterface := (idToInterface t)[p := Some e']\<rparr>) = interfaces t"
  unfolding interfaces_def
  by (rule collectInterfaces_cong) (auto simp: derefIf_eq list_eq_iff_nth_eq nth_list_update)

lemma updIf_ok:
  assumes "tab_ok t" "updIf f p t = Inr t'" "\<And>e. interfaceId (f e) = interfaceId e"
  shows "tab_ok t'" "interfaces t' = interfaces t"
proof -
  obtain e where e: "derefIf p t = Inr e" and t': "t' = t\<lparr>idToInterface := (idToInterface t)[p := Some (f e)]\<rparr>"
    using assms(2) by (auto simp: updIf_def bindE_eq_Inr)
  show i: "interfaces t' = interfaces t" unfolding t' by (rule interfaces_update [OF e])
  then show "tab_ok t'"
    using assms(1,3) e unfolding tab_ok_def i by (simp add: t' nth_list_update derefIf_eq)
qed

lemma updIPv4_ok:
  assumes "tab_ok t" "updIPv4 f p t = Inr t'"
  shows "tab_ok t'" "interfaces t' = interfaces t"
  using assms updIf_ok [of t _ p t'] by (auto simp: updIPv4_def bindE_eq_Inr)

section \<open>Properties\<close>

text \<open>
  The lazily computed fields of the interface table are never stale.  They are right in
  the empty table and every operation keeps them right; \<open>getNumInterfaces\<close> then counts the
  interfaces, and the loop over \<open>getInterface\<close> visits each live interface exactly once.
\<close>

theorem interface_table_coherent:
  "tab_ok newInterfaceTable \<and>
   (\<forall>t. tab_ok t \<longrightarrow>
      (\<forall>e m t'. tab_addInterface e m t = Inr t' \<longrightarrow> tab_ok t') \<and>
      (\<forall>p. tab_ok (tab_deleteInterface p t)) \<and>
      (\<forall>f p t'. updIPv4 f p t = Inr t' \<longrightarrow> tab_ok t') \<and>
      fst (getNumInterfaces t) = int (card {p. \<exists>e. derefIf p t = Inr e}) \<and> tab_ok (snd (getNumInterfaces t)) \<and>
      (\<forall>i. 0 \<le> i \<and> i < fst (getNumInterfaces t) \<longrightarrow>
         (\<exists>p t'. getInterface i t = Inr (p, t') \<and> p = interfaces t ! nat i \<and> tab_ok t')) \<and>
      distinct (interfaces t) \<and> set (interfaces t) = {p. \<exists>e. derefIf p t = Inr e})"
proof (intro conjI allI impI)
  fix t i assume ok: "tab_ok t" and i: "0 \<le> i \<and> i < fst (getNumInterfaces t)"
  show "\<exists>p t'. getInterface i t = Inr (p, t') \<and> p = interfaces t ! nat i \<and> tab_ok t'"
    using getInterface_ok [OF ok] i tab_ok_tmp [OF ok] getNumInterfaces_ok(1) [OF ok] by simp
next
  fix t assume ok: "tab_ok t"
  have "set (interfaces t) = {p. \<exists>e. derefIf p t = Inr e}" using mem_interfaces by blast
  then show "fst (getNumInterfaces t) = int (card {p. \<exists>e. derefIf p t = Inr e})"
    using getNumInterfaces_ok(1) [OF ok] distinct_card [OF distinct_interfaces [of t]] by simp
next
  fix t e m t' assume "tab_ok t" "tab_addInterface e m t = Inr t'"
  then show "tab_ok t'" by (rule tab_ok_add)
next
  fix t f p t' assume "tab_ok t" "updIPv4 f p t = Inr t'"
  then show "tab_ok t'" by (rule updIPv4_ok)
next
  fix t
  show "set (interfaces t) = {p. \<exists>e. derefIf p t = Inr e}" using mem_interfaces by blast
qed (simp_all add: tab_ok_new tab_ok_delete getNumInterfaces_ok)

theorem interface_table_coherent_witness:
  "fst (getNumInterfaces newInterfaceTable) = int (card {p. \<exists>e. derefIf p newInterfaceTable = Inr e})"
  using interface_table_coherent by blast

end
