(* ===== verification/IP_Routing.thy ===== *)
theory IP_Routing
  imports IP_Interface C_Float
begin

text \<open>
  The IPv4 routing table (\<open>ipv4/RoutingTable.cc\<close>, \<open>ipv4/IPRoute.cc\<close>) and the notifications that
  keep it in step with the interface table.  Routes are objects on a heap and the two route
  vectors, the routing cache and the callers hold pointers to them; a route that has been
  deleted leaves \<open>None\<close> on the heap.  \<open>IPNode\<close> puts the interface table and the routing
  table of one node together.
\<close>

section \<open>Routes\<close>

datatype RouteType = DIRECT | REMOTE
datatype RouteSource = MANUAL | IFACENETMASK | RIP | OSPF | BGP | ZEBRA | MANET

record IPRoute =
  r_host :: IPAddress
  r_netmask :: IPAddress
  r_gateway :: IPAddress
  r_interface :: "nat option"
  r_type :: RouteType
  r_source :: RouteSource
  r_metric :: int
  r_sequencenumber :: u32
  r_installtime :: simtime

definition newIPRoute :: IPRoute where
  "newIPRoute = \<lparr> r_host = 0, r_netmask = 0, r_gateway = 0, r_interface = None, r_type = DIRECT,
     r_source = MANUAL, r_metric = 0, r_sequencenumber = 0, r_installtime = 0 \<rparr>"

definition getInterfaceName :: "InterfaceTable \<Rightarrow> IPRoute \<Rightarrow> string res" where
  "getInterfaceName t r =
     (case r_interface r of None \<Rightarrow> Inr [] | Some p \<Rightarrow> bindE (derefIf p t) (\<lambda>e. Inr (if_name e)))"

section \<open>The routing table\<close>

datatype NFCategory =
    NF_INTERFACE_CREATED | NF_INTERFACE_DELETED | NF_INTERFACE_STATE_CHANGED
  | NF_INTERFACE_CONFIG_CHANGED | NF_INTERFACE_IPv4CONFIG_CHANGED
  | NF_IPv4_ROUTE_ADDED | NF_IPv4_ROUTE_DELETED

text \<open>
  \<open>timetolive_routing_entry\<close> is \<open>None\<close> for the largest simulation time.  \<open>rt_fired\<close> collects the
  notifications about routes, which the modules of routing protocols subscribe to.
\<close>

record RoutingTable =
  routerId :: IPAddress
  IPForward :: bool
  timetolive_routing_entry :: "simtime option"
  routes :: "nat list"
  multicastRoutes :: "nat list"
  routeHeap :: "nat \<Rightarrow> IPRoute option"
  nextRoute :: nat
  routingCache :: "IPAddress \<Rightarrow> nat option option"
  localAddresses :: "IPAddress set"
  localBroadcastAddresses :: "IPAddress set"
  rt_fired :: "(NFCategory \<times> nat) list"

definition newRoutingTable :: "bool \<Rightarrow> RoutingTable" where
  "newRoutingTable fwd = \<lparr> routerId = 0, IPForward = fwd, timetolive_routing_entry = None, routes = [],
     multicastRoutes = [], routeHeap = (\<lambda>_. None), nextRoute = 0, routingCache = (\<lambda>_. None),
     localAddresses = {}, localBroadcastAddresses = {}, rt_fired = [] \<rparr>"

definition derefRoute :: "nat \<Rightarrow> RoutingTable \<Rightarrow> IPRoute res" where
  "derefRoute p rt = (case routeHeap rt p of None \<Rightarrow> Inl NullPointer | Some r \<Rightarrow> Inr r)"

definition allocRoute :: "IPRoute \<Rightarrow> RoutingTable \<Rightarrow> nat \<times> RoutingTable" where
  "allocRoute r rt =
     (nextRoute rt, rt\<lparr>routeHeap := (routeHeap rt)(nextRoute rt \<mapsto> r), nextRoute := Suc (nextRoute rt)\<rparr>)"

definition invalidateCache :: "RoutingTable \<Rightarrow> RoutingTable" where
  "invalidateCache rt = rt\<lparr>routingCache := (\<lambda>_. None), localAddresses := {}\<rparr>"

text \<open>The loop bodies of the functions that collect something from every interface.\<close>

fun collectData :: "InterfaceTable \<Rightarrow> nat list \<Rightarrow> IPv4InterfaceData list res" where
  "collectData t [] = Inr []"
| "collectData t (p # ps) = bindE (ipv4Data p t) (\<lambda>d. bindE (collectData t ps) (\<lambda>ds. Inr (d # ds)))"

definition gatherAddresses :: "InterfaceTable \<Rightarrow> IPAddress list res" where
  "gatherAddresses t = bindE (collectData t (interfaces t)) (\<lambda>ds. Inr (map inetAddr ds))"

fun searchAddress :: "InterfaceTable \<Rightarrow> IPAddress \<Rightarrow> nat list \<Rightarrow> nat option res" where
  "searchAddress t a [] = Inr None"
| "searchAddress t a (p # ps) = bindE (ipv4Data p t) (\<lambda>d. if inetAddr d = a then Inr (Some p) else searchAddress t a ps)"

definition getInterfaceByAddress :: "InterfaceTable \<Rightarrow> IPAddress \<Rightarrow> nat option res" where
  "getInterfaceByAddress t a = (if ip_isUnspecified a then Inr None else searchAddress t a (interfaces t))"

definition isLocalAddress :: "InterfaceTable \<Rightarrow> IPAddress \<Rightarrow> RoutingTable \<Rightarrow> (bool \<times> RoutingTable) res" where
  "isLocalAddress t dest rt =
     bindE (if localAddresses rt = {}
            then bindE (collectData t (interfaces t)) (\<lambda>ds. Inr (rt\<lparr>localAddresses := set (map inetAddr ds)\<rparr>))
            else Inr rt)
       (\<lambda>rt. Inr (dest \<in> localAddresses rt, rt))"

definition isLocalBroadcastAddress :: "InterfaceTable \<Rightarrow> IPAddress \<Rightarrow> RoutingTable \<Rightarrow> (bool \<times> RoutingTable) res" where
  "isLocalBroadcastAddress t dest rt =
     bindE (if localBroadcastAddresses rt = {}
            then bindE (collectData t (interfaces t))
              (\<lambda>ds. Inr (rt\<lparr>localBroadcastAddresses :=
                 set (filter (\<lambda>a. \<not> ip_isUnspecified a) (map (\<lambda>d. getBroadcastAddress (inetAddr d) (if_netmask d)) ds))\<rparr>))
            else Inr rt)
       (\<lambda>rt. Inr (dest \<in> localBroadcastAddresses rt, rt))"

fun searchGroups :: "InterfaceTable \<Rightarrow> IPAddress \<Rightarrow> nat list \<Rightarrow> bool res" where
  "searchGroups t a [] = Inr False"
| "searchGroups t a (p # ps) = bindE (ipv4Data p t) (\<lambda>d. if a \<in> set (multicastGroups d) then Inr True else searchGroups t a ps)"

definition isLocalMulticastAddress :: "InterfaceTable \<Rightarrow> IPAddress \<Rightarrow> bool res" where
  "isLocalMulticastAddress t dest = searchGroups t dest (interfaces t)"

section \<open>Lookup\<close>

text \<open>The entry is too old: its address is none of the special ones and its time is over.\<close>

definition entryExpired :: "simtime \<Rightarrow> simtime \<Rightarrow> IPRoute \<Rightarrow> bool" where
  "entryExpired now ttl e \<longleftrightarrow>
     ip_str (r_host e) \<noteq> ''*'' \<and> ip_str (r_host e) \<noteq> ''<unspec>'' \<and> ip_str (r_host e) \<noteq> ''127.0.0.1'' \<and>
     now - r_installtime e > ttl"

definition testValidity :: "simtime \<Rightarrow> InterfaceTable \<Rightarrow> nat \<Rightarrow> RoutingTable \<Rightarrow> (bool \<times> RoutingTable) res" where
  "testValidity now t p rt =
     (case timetolive_routing_entry rt of
        None \<Rightarrow> Inr (True, rt)
      | Some ttl \<Rightarrow>
          bindE (derefRoute p rt) (\<lambda>e.
          bindE (isLocalAddress t (r_host e) rt) (\<lambda>(l, rt).
          if l then Inr (True, rt) else Inr (\<not> entryExpired now ttl e, rt))))"

text \<open>The loop that looks for the longest prefix; \<open>longestNetmask\<close> goes with \<open>bestRoute\<close>.\<close>

fun bestLoop :: "simtime \<Rightarrow> InterfaceTable \<Rightarrow> IPAddress \<Rightarrow> nat list \<Rightarrow> nat option \<Rightarrow> u32 \<Rightarrow> RoutingTable \<Rightarrow>
    (nat option \<times> RoutingTable) res" where
  "bestLoop now t dest [] bestRoute longestNetmask rt = Inr (bestRoute, rt)"
| "bestLoop now t dest (p # ps) bestRoute longestNetmask rt =
     bindE (testValidity now t p rt) (\<lambda>(v, rt).
     if \<not> v then bestLoop now t dest ps bestRoute longestNetmask rt
     else bindE (derefRoute p rt) (\<lambda>e.
       bindE (case bestRoute of None \<Rightarrow> Inr None | Some b \<Rightarrow> bindE (derefRoute b rt) (\<lambda>b. Inr (Some (r_metric b))))
         (\<lambda>bestMetric.
       if maskedAddrAreEqual dest (r_host e) (r_netmask e) \<and>
          (bestMetric = None \<or> r_netmask e > longestNetmask \<or>
           (\<exists>m. bestMetric = Some m \<and> r_netmask e = longestNetmask \<and> m > r_metric e))
       then bestLoop now t dest ps (Some p) (r_netmask e) rt
       else bestLoop now t dest ps bestRoute longestNetmask rt)))"

text \<open>The second loop of the MANET case: a route for exactly this host.\<close>

fun uniLoop :: "simtime \<Rightarrow> InterfaceTable \<Rightarrow> IPAddress \<Rightarrow> nat list \<Rightarrow> nat option \<Rightarrow> RoutingTable \<Rightarrow>
    (nat option \<times> RoutingTable) res" where
  "uniLoop now t dest [] bestUniRoute rt = Inr (bestUniRoute, rt)"
| "uniLoop now t dest (p # ps) bestUniRoute rt =
     bindE (testValidity now t p rt) (\<lambda>(v, rt).
     if \<not> v then uniLoop now t dest ps bestUniRoute rt
     else bindE (derefRoute p rt) (\<lambda>e.
       bindE (case bestUniRoute of None \<Rightarrow> Inr None | Some b \<Rightarrow> bindE (derefRoute b rt) (\<lambda>b. Inr (Some (r_metric b))))
         (\<lambda>bestMetric.
       if maskedAddrAreEqual dest (r_host e) ALLONES_ADDRESS \<and>
          (bestMetric = None \<or> (\<exists>m. bestMetric = Some m \<and> m > r_metric e))
       then uniLoop now t dest ps (Some p) rt
       else uniLoop now t dest ps bestUniRoute rt)))"

text \<open>
  In the MANET case \<open>bestRoute\<close> has just been set to \<open>NULL\<close> when \<open>bestRoute->getHost()\<close> is
  evaluated, so that a MANET route found by the second loop ends the simulation.
\<close>

definition searchRoute :: "simtime \<Rightarrow> InterfaceTable \<Rightarrow> IPAddress \<Rightarrow> RoutingTable \<Rightarrow> (nat option \<times> RoutingTable) res" where
  "searchRoute now t dest rt =
     bindE (bestLoop now t dest (routes rt) None 0 rt) (\<lambda>(bestRoute, rt).
     bindE (case bestRoute of
              None \<Rightarrow> Inr (None, rt)
            | Some b \<Rightarrow>
                bindE (derefRoute b rt) (\<lambda>r.
                if r_source r = MANET \<and> r_host r \<noteq> dest
                then bindE (uniLoop now t dest (routes rt) None rt) (\<lambda>(bestUniRoute, rt).
                       case bestUniRoute of
                         None \<Rightarrow> Inr (None, rt)
                       | Some u \<Rightarrow> bindE (derefRoute u rt) (\<lambda>r.
                           if r_source r = MANET then Inl NullPointer else Inr (None, rt)))
                else Inr (Some b, rt)))
       (\<lambda>(bestRoute, rt). Inr (bestRoute, rt\<lparr>routingCache := (routingCache rt)(dest \<mapsto> bestRoute)\<rparr>)))"

definition findBestMatchingRoute :: "simtime \<Rightarrow> InterfaceTable \<Rightarrow> IPAddress \<Rightarrow> RoutingTable \<Rightarrow>
    (nat option \<times> RoutingTable) res" where
  "findBestMatchingRoute now t dest rt =
     (case routingCache rt dest of
        None \<Rightarrow> searchRoute now t dest rt
      | Some None \<Rightarrow> searchRoute now t dest (rt\<lparr>routingCache := (\<lambda>_. None), localAddresses := {}\<rparr>)
      | Some (Some c) \<Rightarrow>
          bindE (testValidity now t c rt) (\<lambda>(v, rt).
          if v then bindE (derefRoute c rt) (\<lambda>r.
               if r_source r = MANET \<and> \<not> maskedAddrAreEqual dest (r_host r) ALLONES_ADDRESS
               then searchRoute now t dest rt else Inr (Some c, rt))
          else searchRoute now t dest rt))"

definition getInterfaceForDestAddr :: "simtime \<Rightarrow> InterfaceTable \<Rightarrow> IPAddress \<Rightarrow> RoutingTable \<Rightarrow>
    (nat option \<times> RoutingTable) res" where
  "getInterfaceForDestAddr now t dest rt =
     bindE (findBestMatchingRoute now t dest rt) (\<lambda>(e, rt).
     case e of None \<Rightarrow> Inr (None, rt) | Some p \<Rightarrow> bindE (derefRoute p rt) (\<lambda>r. Inr (r_interface r, rt)))"

definition getGatewayForDestAddr :: "simtime \<Rightarrow> InterfaceTable \<Rightarrow> IPAddress \<Rightarrow> RoutingTable \<Rightarrow>
    (IPAddress \<times> RoutingTable) res" where
  "getGatewayForDestAddr now t dest rt =
     bindE (findBestMatchingRoute now t dest rt) (\<lambda>(e, rt).
     case e of None \<Rightarrow> Inr (0, rt) | Some p \<Rightarrow> bindE (derefRoute p rt) (\<lambda>r. Inr (r_gateway r, rt)))"

fun multicastLoop :: "RoutingTable \<Rightarrow> IPAddress \<Rightarrow> nat list \<Rightarrow> (nat option \<times> IPAddress) list res" where
  "multicastLoop rt dest [] = Inr []"
| "multicastLoop rt dest (p # ps) =
     bindE (derefRoute p rt) (\<lambda>e.
     bindE (multicastLoop rt dest ps) (\<lambda>res.
     Inr (if maskedAddrAreEqual dest (r_host e) (r_netmask e) then (r_interface e, r_gateway e) # res else res)))"

definition getMulticastRoutesFor :: "IPAddress \<Rightarrow> RoutingTable \<Rightarrow> (nat option \<times> IPAddress) list res" where
  "getMulticastRoutesFor dest rt = multicastLoop rt dest (multicastRoutes rt)"

section \<open>Access by position and by content\<close>

definition getNumRoutes :: "RoutingTable \<Rightarrow> int" where
  "getNumRoutes rt = int (length (routes rt) + length (multicastRoutes rt))"

text \<open>A negative index reads outside of the vector.\<close>

definition getRoute :: "int \<Rightarrow> RoutingTable \<Rightarrow> nat option res" where
  "getRoute k rt =
     (if k < 0 then Inl NullPointer
      else if k < int (length (routes rt)) then Inr (Some (routes rt ! nat k))
      else let k = k - int (length (routes rt))
           in if k < int (length (multicastRoutes rt)) then Inr (Some (multicastRoutes rt ! nat k)) else Inr None)"

fun defaultLoop :: "RoutingTable \<Rightarrow> nat list \<Rightarrow> nat option res" where
  "defaultLoop rt [] = Inr None"
| "defaultLoop rt (p # ps) =
     bindE (derefRoute p rt) (\<lambda>r. if ip_isUnspecified (r_netmask r) then Inr (Some p) else defaultLoop rt ps)"

definition getDefaultRoute :: "RoutingTable \<Rightarrow> nat option res" where
  "getDefaultRoute rt = defaultLoop rt (routes rt)"

definition routeMatches :: "InterfaceTable \<Rightarrow> IPRoute \<Rightarrow> IPAddress \<Rightarrow> IPAddress \<Rightarrow> IPAddress \<Rightarrow> int \<Rightarrow> string option \<Rightarrow> bool res" where
  "routeMatches t entry target nmask gw metric dev =
     (if \<not> ip_isUnspecified target \<and> target \<noteq> r_host entry then Inr False
      else if \<not> ip_isUnspecified nmask \<and> nmask \<noteq> r_netmask entry then Inr False
      else if \<not> ip_isUnspecified gw \<and> gw \<noteq> r_gateway entry then Inr False
      else if metric \<noteq> 0 \<and> metric \<noteq> r_metric entry then Inr False
      else case dev of None \<Rightarrow> Inr True | Some d \<Rightarrow> bindE (getInterfaceName t entry) (\<lambda>n. Inr (d = n)))"

fun findRouteLoop :: "(IPRoute \<Rightarrow> bool res) \<Rightarrow> RoutingTable \<Rightarrow> nat list \<Rightarrow> nat option res" where
  "findRouteLoop m rt [] = Inr None"
| "findRouteLoop m rt (p # ps) =
     bindE (derefRoute p rt) (\<lambda>r. bindE (m r) (\<lambda>b. if b then Inr (Some p) else findRouteLoop m rt ps))"

definition findRoute :: "InterfaceTable \<Rightarrow> IPAddress \<Rightarrow> IPAddress \<Rightarrow> IPAddress \<Rightarrow> int \<Rightarrow> string option \<Rightarrow> RoutingTable \<Rightarrow>
    nat option res" where
  "findRoute t target nmask gw metric dev rt =
     findRouteLoop (\<lambda>r. routeMatches t r target nmask gw metric dev) rt (routes rt @ multicastRoutes rt)"

fun findListLoop :: "(IPRoute \<Rightarrow> bool res) \<Rightarrow> RoutingTable \<Rightarrow> int \<Rightarrow> nat list \<Rightarrow> (nat \<times> int) list res" where
  "findListLoop m rt i [] = Inr []"
| "findListLoop m rt i (p # ps) =
     bindE (derefRoute p rt) (\<lambda>r. bindE (m r) (\<lambda>b. bindE (findListLoop m rt (i + 1) ps) (\<lambda>l.
     Inr (if b then (p, i) # l else l))))"

definition findRouteList :: "InterfaceTable \<Rightarrow> IPAddress \<Rightarrow> IPAddress \<Rightarrow> IPAddress \<Rightarrow> int \<Rightarrow> string option \<Rightarrow> RoutingTable \<Rightarrow>
    (nat \<times> int) list res" where
  "findRouteList t target nmask gw metric dev rt =
     findListLoop (\<lambda>r. routeMatches t r target nmask gw metric dev) rt 0 (routes rt @ multicastRoutes rt)"

section \<open>Changes\<close>

definition updRoute :: "(IPRoute \<Rightarrow> IPRoute) \<Rightarrow> nat \<Rightarrow> RoutingTable \<Rightarrow> RoutingTable res" where
  "updRoute f p rt = bindE (derefRoute p rt) (\<lambda>r. Inr (rt\<lparr>routeHeap := (routeHeap rt)(p \<mapsto> f r)\<rparr>))"

definition setMetric :: "int \<Rightarrow> int \<Rightarrow> RoutingTable \<Rightarrow> (int \<times> RoutingTable) res" where
  "setMetric routeIndex metric rt =
     bindE (getRoute routeIndex rt) (\<lambda>q.
     case q of None \<Rightarrow> Inr (0, rt)
     | Some p \<Rightarrow> bindE (updRoute (\<lambda>r. r\<lparr>r_metric := metric\<rparr>) p rt) (\<lambda>rt. Inr (1, rt)))"

definition fireRoute :: "NFCategory \<Rightarrow> nat \<Rightarrow> RoutingTable \<Rightarrow> RoutingTable" where
  "fireRoute c p rt = rt\<lparr>rt_fired := rt_fired rt @ [(c, p)]\<rparr>"

definition deleteRoute :: "nat \<Rightarrow> RoutingTable \<Rightarrow> bool \<times> RoutingTable" where
  "deleteRoute entry rt =
     (if entry \<in> set (routes rt)
      then (True, invalidateCache ((fireRoute NF_IPv4_ROUTE_DELETED entry rt)
              \<lparr>routes := remove1 entry (routes rt), routeHeap := (routeHeap rt)(entry := None)\<rparr>))
      else if entry \<in> set (multicastRoutes rt)
      then (True, invalidateCache ((fireRoute NF_IPv4_ROUTE_DELETED entry rt)
              \<lparr>multicastRoutes := remove1 entry (multicastRoutes rt), routeHeap := (routeHeap rt)(entry := None)\<rparr>))
      else (False, rt))"

text \<open>
  The second check masks the host with \<open>netmask.isUnspecified()\<close>, a boolean converted to the
  address \<open>0.0.0.0\<close> or \<open>0.0.0.1\<close>.
\<close>

definition addRoute :: "nat \<Rightarrow> RoutingTable \<Rightarrow> RoutingTable res" where
  "addRoute entry rt =
     bindE (derefRoute entry rt) (\<lambda>e.
     if ip_isUnspecified (r_host e) \<noteq> ip_isUnspecified (r_netmask e)
     then Inl (RuntimeError ''addRoute(): to add a default route, set both host and netmask to zero'')
     else if doAnd (r_host e) (if ip_isUnspecified (r_netmask e) then 1 else 0) \<noteq> 0
     then Inl (RuntimeError ''addRoute(): suspicious route'')
     else if r_interface e = None then Inl (RuntimeError ''addRoute(): interface cannot be NULL'')
     else
       bindE (if ip_isUnspecified (r_netmask e)
              then bindE (getDefaultRoute rt) (\<lambda>d. case d of None \<Rightarrow> Inr rt | Some p \<Rightarrow> Inr (snd (deleteRoute p rt)))
              else Inr rt) (\<lambda>rt.
       Inr (fireRoute NF_IPv4_ROUTE_ADDED entry (invalidateCache
         (if \<not> ip_isMulticast (r_host e) then rt\<lparr>routes := routes rt @ [entry]\<rparr>
          else rt\<lparr>multicastRoutes := multicastRoutes rt @ [entry]\<rparr>)))))"

fun routeVia :: "RoutingTable \<Rightarrow> nat \<Rightarrow> nat list \<Rightarrow> nat option res" where
  "routeVia rt ie [] = Inr None"
| "routeVia rt ie (p # ps) = bindE (derefRoute p rt) (\<lambda>r. if r_interface r = Some ie then Inr (Some p) else routeVia rt ie ps)"

lemma routeVia_mem: "routeVia rt ie ps = Inr (Some p) \<Longrightarrow> p \<in> set ps"
  by (induction ps) (auto simp: bindE_eq_Inr split: if_splits)

lemma routes_deleteRoute [simp]: "routes (snd (deleteRoute p rt)) = remove1 p (routes rt)"
  by (simp add: deleteRoute_def invalidateCache_def fireRoute_def remove1_idem)

text \<open>After a deletion the loop starts over.\<close>

function deleteInterfaceRoutes :: "nat \<Rightarrow> RoutingTable \<Rightarrow> RoutingTable res" where
  "deleteInterfaceRoutes entry rt =
     (case routeVia rt entry (routes rt) of
        Inl e \<Rightarrow> Inl e
      | Inr None \<Rightarrow> Inr rt
      | Inr (Some p) \<Rightarrow> deleteInterfaceRoutes entry (snd (deleteRoute p rt)))"
  by pat_completeness auto
termination
proof (relation "measure (\<lambda>(entry, rt). length (routes rt))")
  fix entry rt x p
  assume "routeVia rt entry (routes rt) = Inr x" "x = Some p"
  then have p: "p \<in> set (routes rt)" by (auto dest: routeVia_mem)
  then show "((entry, snd (deleteRoute p rt)), entry, rt) \<in> measure (\<lambda>(entry, rt). length (routes rt))"
    using length_pos_if_in_set [OF p] by (simp add: length_remove1)
qed simp

fun eraseNetmaskRoutes :: "RoutingTable \<Rightarrow> nat list \<Rightarrow> nat list res" where
  "eraseNetmaskRoutes rt [] = Inr []"
| "eraseNetmaskRoutes rt (p # ps) =
     bindE (derefRoute p rt) (\<lambda>r. bindE (eraseNetmaskRoutes rt ps) (\<lambda>l.
     Inr (if r_source r = IFACENETMASK then l else p # l)))"

definition netmaskRoute :: "nat \<Rightarrow> IPv4InterfaceData \<Rightarrow> IPRoute" where
  "netmaskRoute ie d = newIPRoute\<lparr>r_type := DIRECT, r_source := IFACENETMASK, r_host := inetAddr d,
     r_netmask := if_netmask d, r_gateway := 0, r_metric := if_metric d, r_interface := Some ie\<rparr>"

fun addNetmaskRoutes :: "InterfaceTable \<Rightarrow> nat list \<Rightarrow> RoutingTable \<Rightarrow> RoutingTable res" where
  "addNetmaskRoutes t [] rt = Inr rt"
| "addNetmaskRoutes t (ie # ps) rt =
     bindE (ipv4Data ie t) (\<lambda>d.
     addNetmaskRoutes t ps
       (if if_netmask d \<noteq> ALLONES_ADDRESS
        then let (p, rt) = allocRoute (netmaskRoute ie d) rt in rt\<lparr>routes := routes rt @ [p]\<rparr>
        else rt))"

definition updateNetmaskRoutes :: "InterfaceTable \<Rightarrow> RoutingTable \<Rightarrow> RoutingTable res" where
  "updateNetmaskRoutes t rt =
     bindE (eraseNetmaskRoutes rt (routes rt)) (\<lambda>l.
     bindE (addNetmaskRoutes t (interfaces t) (rt\<lparr>routes := l\<rparr>)) (\<lambda>rt. Inr (invalidateCache rt)))"

definition flushTable :: "RoutingTable \<Rightarrow> RoutingTable" where
  "flushTable rt = rt\<lparr>routes := [], multicastRoutes := []\<rparr>"

text \<open>\<open>intuniform\<close> is the random number generator; the \<open>k\<close>-th draw of the call.\<close>

fun scrambleLoop :: "(nat \<Rightarrow> int) \<Rightarrow> IPAddress \<Rightarrow> nat \<Rightarrow> nat list \<Rightarrow> bool \<times> RoutingTable \<Rightarrow> (bool \<times> RoutingTable) res" where
  "scrambleLoop rnd destIP k [] s = Inr s"
| "scrambleLoop rnd destIP k (p # ps) (b, rt) =
     bindE (derefRoute p rt) (\<lambda>r.
     if r_host r = destIP \<or> destIP = 0
     then bindE (updRoute (\<lambda>r. r\<lparr>r_metric := rnd k\<rparr>) p rt) (\<lambda>rt. scrambleLoop rnd destIP (Suc k) ps (True, rt))
     else scrambleLoop rnd destIP k ps (b, rt))"

definition scrambleRoutes :: "(int \<Rightarrow> int \<Rightarrow> nat \<Rightarrow> int) \<Rightarrow> IPAddress \<Rightarrow> int \<Rightarrow> RoutingTable \<Rightarrow> (bool \<times> RoutingTable) res" where
  "scrambleRoutes intuniform destIP maxMetric rt =
     scrambleLoop (intuniform 1 maxMetric) destIP 0 (routes rt) (False, rt)"

text \<open>
  The loop steps back after a deletion, so that it goes on with the entry that followed the
  deleted one.
\<close>

fun dsdvLoop :: "simtime \<Rightarrow> simtime \<Rightarrow> InterfaceTable \<Rightarrow> nat list \<Rightarrow> RoutingTable \<Rightarrow> RoutingTable res" where
  "dsdvLoop now ttl t [] rt = Inr rt"
| "dsdvLoop now ttl t (p # ps) rt =
     bindE (derefRoute p rt) (\<lambda>e.
     bindE (isLocalAddress t (r_host e) rt) (\<lambda>(l, rt).
     dsdvLoop now ttl t ps (if \<not> l \<and> entryExpired now ttl e then snd (deleteRoute p rt) else rt)))"

definition dsdvTestAndDelete :: "simtime \<Rightarrow> InterfaceTable \<Rightarrow> RoutingTable \<Rightarrow> RoutingTable res" where
  "dsdvTestAndDelete now t rt =
     (case timetolive_routing_entry rt of None \<Rightarrow> Inr rt | Some ttl \<Rightarrow> dsdvLoop now ttl t (routes rt) rt)"

definition receiveChangeNotification :: "bool \<Rightarrow> NFCategory \<Rightarrow> nat \<Rightarrow> InterfaceTable \<Rightarrow> RoutingTable \<Rightarrow> RoutingTable res" where
  "receiveChangeNotification inInit category details t rt =
     (if inInit then Inr rt
      else case category of
        NF_INTERFACE_CREATED \<Rightarrow> updateNetmaskRoutes t rt
      | NF_INTERFACE_DELETED \<Rightarrow> deleteInterfaceRoutes details rt
      | NF_INTERFACE_STATE_CHANGED \<Rightarrow> Inr (invalidateCache rt)
      | NF_INTERFACE_CONFIG_CHANGED \<Rightarrow> Inr (invalidateCache rt)
      | NF_INTERFACE_IPv4CONFIG_CHANGED \<Rightarrow> updateNetmaskRoutes t rt
      | _ \<Rightarrow> Inr rt)"

section \<open>The node: both tables and the notifications between them\<close>

text \<open>\<open>inInit\<close>: the simulation is in the phase of initialization, where notifications are ignored.\<close>

record IPNode =
  nift :: InterfaceTable
  nrt :: RoutingTable
  inInit :: bool

definition fireChangeNotification :: "NFCategory \<Rightarrow> nat \<Rightarrow> IPNode \<Rightarrow> IPNode res" where
  "fireChangeNotification c p n =
     bindE (receiveChangeNotification (inInit n) c p (nift n) (nrt n)) (\<lambda>r. Inr (n\<lparr>nrt := r\<rparr>))"

text \<open>The setters of \<open>InterfaceEntry\<close> and \<open>IPv4InterfaceData\<close>; an entry of the table fires a notification.\<close>

definition setIf :: "NFCategory \<Rightarrow> (InterfaceEntry \<Rightarrow> InterfaceEntry) \<Rightarrow> nat \<Rightarrow> IPNode \<Rightarrow> IPNode res" where
  "setIf c f p n = bindE (updIf f p (nift n)) (\<lambda>t. fireChangeNotification c p (n\<lparr>nift := t\<rparr>))"

definition setIPv4 :: "(IPv4InterfaceData \<Rightarrow> IPv4InterfaceData) \<Rightarrow> nat \<Rightarrow> IPNode \<Rightarrow> IPNode res" where
  "setIPv4 f p n = bindE (updIPv4 f p (nift n)) (\<lambda>t. fireChangeNotification NF_INTERFACE_IPv4CONFIG_CHANGED p (n\<lparr>nift := t\<rparr>))"

definition setIPAddress :: "IPAddress \<Rightarrow> nat \<Rightarrow> IPNode \<Rightarrow> IPNode res" where
  "setIPAddress a = setIPv4 (\<lambda>d. d\<lparr>inetAddr := a\<rparr>)"

definition setNetmask :: "IPAddress \<Rightarrow> nat \<Rightarrow> IPNode \<Rightarrow> IPNode res" where
  "setNetmask m = setIPv4 (\<lambda>d. d\<lparr>if_netmask := m\<rparr>)"

definition setIfMetric :: "int \<Rightarrow> nat \<Rightarrow> IPNode \<Rightarrow> IPNode res" where
  "setIfMetric m = setIPv4 (\<lambda>d. d\<lparr>if_metric := m\<rparr>)"

definition setMulticastGroups :: "IPAddress list \<Rightarrow> nat \<Rightarrow> IPNode \<Rightarrow> IPNode res" where
  "setMulticastGroups v = setIPv4 (\<lambda>d. d\<lparr>multicastGroups := v\<rparr>)"

definition setDown :: "bool \<Rightarrow> nat \<Rightarrow> IPNode \<Rightarrow> IPNode res" where
  "setDown b = setIf NF_INTERFACE_STATE_CHANGED (\<lambda>e. e\<lparr>down := b\<rparr>)"

definition setMtu :: "int \<Rightarrow> nat \<Rightarrow> IPNode \<Rightarrow> IPNode res" where
  "setMtu m = setIf NF_INTERFACE_CONFIG_CHANGED (\<lambda>e. e\<lparr>mtu := m\<rparr>)"

definition setIPv4Data :: "IPv4InterfaceData \<Rightarrow> nat \<Rightarrow> IPNode \<Rightarrow> IPNode res" where
  "setIPv4Data d = setIf NF_INTERFACE_CONFIG_CHANGED (\<lambda>e. e\<lparr>ipv4data := Some d\<rparr>)"

definition addInterface :: "InterfaceEntry \<Rightarrow> GateInfo list option \<Rightarrow> IPNode \<Rightarrow> IPNode res" where
  "addInterface entry ifmod n =
     bindE (tab_addInterface entry ifmod (nift n)) (\<lambda>t.
     bindE (if ifmod = None then Inr (n\<lparr>nift := t\<rparr>)
            else fireChangeNotification NF_INTERFACE_CONFIG_CHANGED (length (idToInterface (nift n))) (n\<lparr>nift := t\<rparr>)) (\<lambda>n'.
     fireChangeNotification NF_INTERFACE_CREATED (length (idToInterface (nift n))) n'))"

definition deleteInterface :: "nat \<Rightarrow> IPNode \<Rightarrow> IPNode res" where
  "deleteInterface p n =
     bindE (checkInterface p (nift n)) (\<lambda>_.
     bindE (fireChangeNotification NF_INTERFACE_DELETED p n) (\<lambda>n.
     Inr (n\<lparr>nift := tab_deleteInterface p (nift n)\<rparr>)))"

section \<open>Initialization\<close>

text \<open>
  \<open>(int)ceil(2e9/datarate)\<close>.  The conversion of an infinite or too large value to \<open>int\<close> is
  undefined in C++, and happens for the loopback interface, whose rate is 0; the model has the
  value the conversion gives on x86.
\<close>

definition ospfCost :: "rat \<Rightarrow> int" where
  "ospfCost rate =
     (if rate = 0 then - 2147483648
      else let c = \<lceil>double_div 2000000000 rate\<rceil> in if c > 2147483647 then - 2147483648 else c)"

definition configureInterfaceForIPv4 :: "nat \<Rightarrow> IPNode \<Rightarrow> IPNode res" where
  "configureInterfaceForIPv4 p n =
     bindE (derefIf p (nift n)) (\<lambda>e.
     bindE (setIPv4Data newIPv4InterfaceData p n) (setIfMetric (ospfCost (datarate e)) p))"

definition configureLoopbackForIPv4 :: "IPNode \<Rightarrow> IPNode res" where
  "configureLoopbackForIPv4 n =
     (case getFirstLoopbackInterface (nift n) of
        None \<Rightarrow> Inl NullPointer
      | Some p \<Rightarrow> setIPv4Data (newIPv4InterfaceData\<lparr>inetAddr := LOOPBACK_ADDRESS, if_netmask := LOOPBACK_NETMASK,
                                if_metric := 1\<rparr>) p n)"

fun routerIdLoop :: "InterfaceTable \<Rightarrow> nat list \<Rightarrow> IPAddress \<Rightarrow> IPAddress res" where
  "routerIdLoop t [] rid = Inr rid"
| "routerIdLoop t (p # ps) rid =
     bindE (derefIf p t) (\<lambda>e.
     if loopback e then routerIdLoop t ps rid
     else bindE (ipv4Data p t) (\<lambda>d. routerIdLoop t ps (if inetAddr d > rid then inetAddr d else rid)))"

definition configureRouterId :: "string \<Rightarrow> IPNode \<Rightarrow> IPNode res" where
  "configureRouterId routerIdStr n =
     (if ip_isUnspecified (routerId (nrt n))
      then if routerIdStr = ''auto''
           then bindE (routerIdLoop (nift n) (interfaces (nift n)) (routerId (nrt n)))
             (\<lambda>rid. Inr (n\<lparr>nrt := (nrt n)\<lparr>routerId := rid\<rparr>\<rparr>))
           else Inr n
      else bindE (getInterfaceByAddress (nift n) (routerId (nrt n))) (\<lambda>q.
           if q \<noteq> None then Inr n
           else case getFirstLoopbackInterface (nift n) of
                  None \<Rightarrow> Inl NullPointer
                | Some lo0 \<Rightarrow> bindE (setIPAddress (routerId (nrt n)) lo0 n) (setNetmask ALLONES_ADDRESS lo0)))"

fun configureAll :: "nat list \<Rightarrow> IPNode \<Rightarrow> IPNode res" where
  "configureAll [] n = Inr n"
| "configureAll (p # ps) n = bindE (configureInterfaceForIPv4 p n) (configureAll ps)"

text \<open>
  The stages of \<open>initialize\<close>.  \<open>readRoutingTable\<close> is \<open>None\<close> when no file is given, otherwise
  the effect of the parser of routing files.
\<close>

definition rt_initialize :: "nat \<Rightarrow> (IPNode \<Rightarrow> IPNode res) option \<Rightarrow> string \<Rightarrow> IPNode \<Rightarrow> IPNode res" where
  "rt_initialize stage readRoutingTable routerIdStr n =
     (if stage = 1
      then seqE [configureAll (interfaces (nift n)), configureLoopbackForIPv4,
                 (case readRoutingTable of None \<Rightarrow> Inr | Some f \<Rightarrow> f),
                 (\<lambda>n. if routerIdStr \<noteq> [] \<and> routerIdStr \<noteq> ''auto''
                      then bindE (ip_setText routerIdStr) (\<lambda>a. Inr (n\<lparr>nrt := (nrt n)\<lparr>routerId := a\<rparr>\<rparr>)) else Inr n)] n
      else if stage = 3
      then seqE [configureRouterId routerIdStr,
                 (\<lambda>n. bindE (updateNetmaskRoutes (nift n) (nrt n)) (\<lambda>r. Inr (n\<lparr>nrt := r\<rparr>)))] n
      else Inr n)"

end
