(* ===== verification/IP_Lookup.thy ===== *)
theory IP_Lookup
  imports IP_Routing
begin

text \<open>
  Correctness of the routing table.  \<open>best_match\<close> is a plain definition of the route with the
  longest prefix, and \<open>route_for\<close> adds the rule for MANET routes; the loop of
  \<open>findBestMatchingRoute\<close> and its cache are compared with it.  \<open>rt_ok\<close> is the invariant: live
  pointers, no stale local addresses, no stale cache entry.  \<open>ip_run\<close> collects the operations
  that keep it.
\<close>

section \<open>The first best element of a list\<close>

fun first_best :: "('a \<Rightarrow> 'a \<Rightarrow> bool) \<Rightarrow> 'a option \<Rightarrow> 'a list \<Rightarrow> 'a option" where
  "first_best lt b [] = b"
| "first_best lt b (x # xs) =
     first_best lt (case b of None \<Rightarrow> Some x | Some c \<Rightarrow> if lt x c then Some x else Some c) xs"

lemma first_best_append: "first_best lt b (xs @ ys) = first_best lt (first_best lt b xs) ys"
  by (induction xs arbitrary: b) auto

lemma first_best_mem: "first_best lt None xs = Some x \<Longrightarrow> x \<in> set xs"
proof (induction xs rule: rev_induct)
  case (snoc y ys)
  then show ?case by (auto simp: first_best_append split: option.splits if_splits)
qed simp

lemma first_best_None [simp]: "first_best lt None xs = None \<longleftrightarrow> xs = []"
  by (induction xs rule: rev_induct) (auto simp: first_best_append split: option.splits)

text \<open>An order in which incomparability is transitive: one element of maximal rank comes out, the first.\<close>

locale ranking =
  fixes lt :: "'a \<Rightarrow> 'a \<Rightarrow> bool"
  assumes irrefl: "\<not> lt x x"
    and trans: "lt x y \<Longrightarrow> lt y z \<Longrightarrow> lt x z"
    and weak: "lt x z \<Longrightarrow> lt x y \<or> lt y z"
begin

lemma first_best_iff:
  "first_best lt None xs = Some r \<longleftrightarrow>
    (\<exists>ys zs. xs = ys @ r # zs \<and> (\<forall>y\<in>set ys. lt r y) \<and> (\<forall>z\<in>set zs. \<not> lt z r))"
proof (induction xs arbitrary: r rule: rev_induct)
  case Nil
  then show ?case by simp
next
  case (snoc x xs)
  show ?case
  proof (cases "first_best lt None xs")
    case None
    then have "xs = []" by simp
    then show ?thesis by (auto simp: Cons_eq_append_conv)
  next
    case (Some c)
    then obtain ys zs where xs: "xs = ys @ c # zs" and ys: "\<forall>y\<in>set ys. lt c y" and zs: "\<forall>z\<in>set zs. \<not> lt z c"
      using snoc by auto
    show ?thesis
    proof (cases "lt x c")
      case True
      have all: "\<forall>y\<in>set xs. lt x y" using True ys zs trans weak xs by (auto dest: weak)
      have "(\<exists>ys zs. xs @ [x] = ys @ r # zs \<and> (\<forall>y\<in>set ys. lt r y) \<and> (\<forall>z\<in>set zs. \<not> lt z r)) \<longleftrightarrow> r = x"
      proof
        assume "\<exists>ys zs. xs @ [x] = ys @ r # zs \<and> (\<forall>y\<in>set ys. lt r y) \<and> (\<forall>z\<in>set zs. \<not> lt z r)"
        then obtain ys' zs' where e: "xs @ [x] = ys' @ r # zs'" and z: "\<forall>z\<in>set zs'. \<not> lt z r" by blast
        show "r = x"
        proof (cases zs' rule: rev_cases)
          case Nil
          with e show ?thesis by simp
        next
          case (snoc us u)
          with e have "u = x" "xs = ys' @ r # us" by auto
          with z all snoc show ?thesis by auto
        qed
      next
        assume "r = x"
        then show "\<exists>ys zs. xs @ [x] = ys @ r # zs \<and> (\<forall>y\<in>set ys. lt r y) \<and> (\<forall>z\<in>set zs. \<not> lt z r)"
          by (intro exI [of _ xs] exI [of _ "[]"]) (use all in simp)
      qed
      then show ?thesis using True Some by (simp add: first_best_append) blast
    next
      case False
      have "(\<exists>ys zs. xs @ [x] = ys @ r # zs \<and> (\<forall>y\<in>set ys. lt r y) \<and> (\<forall>z\<in>set zs. \<not> lt z r)) \<longleftrightarrow> r = c"
      proof
        assume "\<exists>ys zs. xs @ [x] = ys @ r # zs \<and> (\<forall>y\<in>set ys. lt r y) \<and> (\<forall>z\<in>set zs. \<not> lt z r)"
        then obtain ys' zs' where e: "xs @ [x] = ys' @ r # zs'" and y: "\<forall>y\<in>set ys'. lt r y"
          and z: "\<forall>z\<in>set zs'. \<not> lt z r" by blast
        show "r = c"
        proof (cases zs' rule: rev_cases)
          case Nil
          with e have "r = x" "ys' = xs" by auto
          with y xs False show ?thesis by auto
        next
          case (snoc us u)
          with e have "xs = ys' @ r # us" by auto
          then have "first_best lt None xs = Some r" using snoc.IH y z snoc by auto
          with Some show ?thesis by simp
        qed
      next
        assume "r = c"
        then have "xs @ [x] = ys @ r # (zs @ [x])" "\<forall>z\<in>set (zs @ [x]). \<not> lt z r" using xs zs False by auto
        then show "\<exists>ys zs. xs @ [x] = ys @ r # zs \<and> (\<forall>y\<in>set ys. lt r y) \<and> (\<forall>z\<in>set zs. \<not> lt z r)"
          using ys \<open>r = c\<close> by blast
      qed
      then show ?thesis using False Some by (simp add: first_best_append) blast
    qed
  qed
qed

lemma first_best_max: "first_best lt None xs = Some r \<Longrightarrow> x \<in> set xs \<Longrightarrow> \<not> lt x r"
proof -
  assume "first_best lt None xs = Some r" and x: "x \<in> set xs"
  then obtain ys zs where "xs = ys @ r # zs" and y: "\<forall>y\<in>set ys. lt r y" and z: "\<forall>z\<in>set zs. \<not> lt z r"
    unfolding first_best_iff by blast
  with x consider "x \<in> set ys" | "x = r" | "x \<in> set zs" by auto
  then show "\<not> lt x r" by cases (use y z irrefl trans in blast)+
qed

text \<open>When the list shrinks and the best element stays, it remains the best.\<close>

lemma first_best_filter:
  assumes "first_best lt None (filter P xs) = Some r" "\<And>x. Q x \<Longrightarrow> P x" "Q r"
  shows "first_best lt None (filter Q xs) = Some r"
proof -
  obtain ys zs where f: "filter P xs = ys @ r # zs" "\<forall>y\<in>set ys. lt r y" "\<forall>z\<in>set zs. \<not> lt z r"
    using assms(1) unfolding first_best_iff by blast
  have "filter Q xs = filter Q (filter P xs)" using assms(2) by (auto intro: filter_cong)
  then have "filter Q xs = filter Q ys @ r # filter Q zs" using f(1) assms(3) by simp
  moreover have "\<forall>y\<in>set (filter Q ys). lt r y" "\<forall>z\<in>set (filter Q zs). \<not> lt z r" using f(2,3) by auto
  ultimately show ?thesis unfolding first_best_iff by blast
qed

end

section \<open>The reference definition\<close>

definition addrs :: "InterfaceTable \<Rightarrow> IPAddress set" where
  "addrs t = (case collectData t (interfaces t) of Inl _ \<Rightarrow> {} | Inr ds \<Rightarrow> set (map inetAddr ds))"

definition ift_ok :: "InterfaceTable \<Rightarrow> bool" where
  "ift_ok t \<longleftrightarrow> (\<exists>ds. collectData t (interfaces t) = Inr ds)"

definition valid_route :: "simtime \<Rightarrow> InterfaceTable \<Rightarrow> RoutingTable \<Rightarrow> nat \<Rightarrow> bool" where
  "valid_route now t rt p =
     (case timetolive_routing_entry rt of None \<Rightarrow> True
      | Some ttl \<Rightarrow> (case routeHeap rt p of None \<Rightarrow> False
          | Some e \<Rightarrow> r_host e \<in> addrs t \<or> \<not> entryExpired now ttl e))"

definition matches :: "RoutingTable \<Rightarrow> IPAddress \<Rightarrow> nat \<Rightarrow> bool" where
  "matches rt dest p = (case routeHeap rt p of None \<Rightarrow> False | Some e \<Rightarrow> maskedAddrAreEqual dest (r_host e) (r_netmask e))"

definition for_host :: "RoutingTable \<Rightarrow> IPAddress \<Rightarrow> nat \<Rightarrow> bool" where
  "for_host rt dest p = (case routeHeap rt p of None \<Rightarrow> False | Some e \<Rightarrow> r_host e = dest)"

definition is_manet :: "RoutingTable \<Rightarrow> nat \<Rightarrow> bool" where
  "is_manet rt p = (case routeHeap rt p of None \<Rightarrow> False | Some e \<Rightarrow> r_source e = MANET)"

text \<open>A longer netmask wins, and between equal netmasks the smaller metric.\<close>

definition better :: "RoutingTable \<Rightarrow> nat \<Rightarrow> nat \<Rightarrow> bool" where
  "better rt p q \<longleftrightarrow>
     (let e = the (routeHeap rt p); c = the (routeHeap rt q)
      in r_netmask e > r_netmask c \<or> r_netmask e = r_netmask c \<and> r_metric e < r_metric c)"

definition cheaper :: "RoutingTable \<Rightarrow> nat \<Rightarrow> nat \<Rightarrow> bool" where
  "cheaper rt p q \<longleftrightarrow> r_metric (the (routeHeap rt p)) < r_metric (the (routeHeap rt q))"

definition best_match :: "simtime \<Rightarrow> InterfaceTable \<Rightarrow> RoutingTable \<Rightarrow> IPAddress \<Rightarrow> nat option" where
  "best_match now t rt dest =
     first_best (better rt) None (filter (\<lambda>p. valid_route now t rt p \<and> matches rt dest p) (routes rt))"

definition route_for :: "simtime \<Rightarrow> InterfaceTable \<Rightarrow> RoutingTable \<Rightarrow> IPAddress \<Rightarrow> nat option" where
  "route_for now t rt dest =
     (case best_match now t rt dest of None \<Rightarrow> None
      | Some b \<Rightarrow> if is_manet rt b \<and> \<not> for_host rt dest b then None else Some b)"

text \<open>The case in which the lookup dereferences a null pointer.\<close>

definition manet_trap :: "simtime \<Rightarrow> InterfaceTable \<Rightarrow> RoutingTable \<Rightarrow> IPAddress \<Rightarrow> bool" where
  "manet_trap now t rt dest =
     (case best_match now t rt dest of None \<Rightarrow> False
      | Some b \<Rightarrow> is_manet rt b \<and> \<not> for_host rt dest b \<and>
          (case first_best (cheaper rt) None (filter (\<lambda>p. valid_route now t rt p \<and> for_host rt dest p) (routes rt)) of
             None \<Rightarrow> False | Some u \<Rightarrow> is_manet rt u))"

interpretation bt: ranking "better rt"
  by unfold_locales (auto simp: better_def Let_def)

interpretation ch: ranking "cheaper rt"
  by unfold_locales (auto simp: cheaper_def)

section \<open>The loops compute it\<close>

definition locals_ok :: "InterfaceTable \<Rightarrow> RoutingTable \<Rightarrow> bool" where
  "locals_ok t rt \<longleftrightarrow> localAddresses rt = {} \<or> localAddresses rt = addrs t"

text \<open>The lookups fill the set of local addresses and change nothing else.\<close>

definition filled :: "InterfaceTable \<Rightarrow> RoutingTable \<Rightarrow> RoutingTable \<Rightarrow> bool" where
  "filled t rt rt' \<longleftrightarrow> rt' = rt \<or> rt' = rt\<lparr>localAddresses := addrs t\<rparr>"

lemma filled_refl [simp]: "filled t rt rt"
  by (simp add: filled_def)

lemma filled_trans: "filled t a b \<Longrightarrow> filled t b c \<Longrightarrow> filled t a c"
  by (auto simp: filled_def)

lemma filled_same:
  assumes "filled t rt rt'"
  shows "routeHeap rt' = routeHeap rt" "routes rt' = routes rt" "multicastRoutes rt' = multicastRoutes rt"
    "timetolive_routing_entry rt' = timetolive_routing_entry rt" "nextRoute rt' = nextRoute rt"
    "routingCache rt' = routingCache rt" "locals_ok t rt \<Longrightarrow> locals_ok t rt'"
  using assms by (auto simp: filled_def locals_ok_def)

lemma spec_filled:
  assumes "filled t rt rt'"
  shows "valid_route now t rt' = valid_route now t rt" "matches rt' = matches rt" "better rt' = better rt"
    "cheaper rt' = cheaper rt" "for_host rt' = for_host rt" "is_manet rt' = is_manet rt"
  unfolding valid_route_def [abs_def] matches_def [abs_def] better_def [abs_def] cheaper_def [abs_def]
    for_host_def [abs_def] is_manet_def [abs_def]
  by (simp_all only: filled_same(1,4) [OF assms])

lemma isLocalAddress_spec:
  assumes "ift_ok t" "locals_ok t rt"
  shows "\<exists>rt'. isLocalAddress t a rt = Inr (a \<in> addrs t, rt') \<and> filled t rt rt'"
proof -
  obtain ds where "collectData t (interfaces t) = Inr ds" using assms(1) by (auto simp: ift_ok_def)
  then show ?thesis using assms(2) by (auto simp: isLocalAddress_def addrs_def locals_ok_def filled_def)
qed

lemma testValidity_spec:
  assumes "ift_ok t" "locals_ok t rt" "routeHeap rt p = Some e"
  shows "\<exists>rt'. testValidity now t p rt = Inr (valid_route now t rt p, rt') \<and> filled t rt rt'"
proof (cases "timetolive_routing_entry rt")
  case None
  then show ?thesis by (simp add: testValidity_def valid_route_def)
next
  case (Some ttl)
  obtain rt' where "isLocalAddress t (r_host e) rt = Inr (r_host e \<in> addrs t, rt')" "filled t rt rt'"
    using isLocalAddress_spec [OF assms(1,2)] by blast
  then show ?thesis using Some assms(3) by (simp add: testValidity_def valid_route_def derefRoute_def)
qed

lemma bestLoop_spec:
  assumes "ift_ok t" "locals_ok t rt" "\<forall>p\<in>set ps. routeHeap rt p \<noteq> None"
    "\<forall>b. best = Some b \<longrightarrow> (\<exists>r. routeHeap rt b = Some r \<and> r_netmask r = lng)"
  shows "\<exists>rt'. bestLoop now t dest ps best lng rt =
      Inr (first_best (better rt) best (filter (\<lambda>p. valid_route now t rt p \<and> matches rt dest p) ps), rt') \<and> filled t rt rt'"
  using assms(2-)
proof (induction ps arbitrary: best lng rt)
  case Nil
  then show ?case by simp
next
  case (Cons p ps)
  obtain e where e: "routeHeap rt p = Some e" using Cons.prems(2) by auto
  obtain rt1 where v: "testValidity now t p rt = Inr (valid_route now t rt p, rt1)" and f1: "filled t rt rt1"
    using testValidity_spec [OF assms(1) Cons.prems(1) e] by blast
  note same = filled_same [OF f1] and spec = spec_filled [OF f1]
  let ?best = "case best of None \<Rightarrow> Some p | Some c \<Rightarrow> if better rt p c then Some p else Some c"
  have step: "bestLoop now t dest (p # ps) best lng rt =
      (if valid_route now t rt p \<and> matches rt dest p \<and> ?best = Some p
       then bestLoop now t dest ps (Some p) (r_netmask e) rt1 else bestLoop now t dest ps best lng rt1)"
  proof (cases best)
    case None
    then show ?thesis using e v same(1) by (auto simp: derefRoute_def matches_def)
  next
    case (Some c)
    then obtain r where r: "routeHeap rt c = Some r" "r_netmask r = lng" using Cons.prems(3) by blast
    show ?thesis
    proof (cases "c = p")
      case True
      then show ?thesis using e v same(1) r Some by (auto simp: derefRoute_def matches_def better_def)
    next
      case False
      then show ?thesis using e v same(1) r Some by (auto simp: derefRoute_def matches_def better_def)
    qed
  qed
  have alive: "\<forall>q\<in>set ps. routeHeap rt1 q \<noteq> None" using Cons.prems(2) same(1) by simp
  show ?case
  proof (cases "valid_route now t rt p \<and> matches rt dest p")
    case False
    obtain rt2 where "bestLoop now t dest ps best lng rt1 =
        Inr (first_best (better rt1) best (filter (\<lambda>p. valid_route now t rt1 p \<and> matches rt1 dest p) ps), rt2)" "filled t rt1 rt2"
      using Cons.IH [of rt1 best lng] alive Cons.prems same by auto
    then show ?thesis using step False spec filled_trans [OF f1] by auto
  next
    case True
    obtain lng' where "bestLoop now t dest (p # ps) best lng rt = bestLoop now t dest ps ?best lng' rt1"
      "\<forall>b. ?best = Some b \<longrightarrow> (\<exists>r. routeHeap rt1 b = Some r \<and> r_netmask r = lng')"
    proof (cases "?best = Some p")
      case True
      show ?thesis by (rule that [of "r_netmask e"]) (use step True \<open>valid_route now t rt p \<and> matches rt dest p\<close> e same(1) in auto)
    next
      case False
      then have b: "?best = best" by (auto split: option.splits if_splits)
      show ?thesis by (rule that [of lng]) (use step False b Cons.prems(3) same(1) in auto)
    qed
    then obtain rt2 where "bestLoop now t dest (p # ps) best lng rt =
        Inr (first_best (better rt1) ?best (filter (\<lambda>p. valid_route now t rt1 p \<and> matches rt1 dest p) ps), rt2)" "filled t rt1 rt2"
      using Cons.IH [of rt1 ?best lng'] alive Cons.prems same by auto
    then show ?thesis using True spec filled_trans [OF f1] by auto
  qed
qed

lemma masked_allones: "maskedAddrAreEqual a b ALLONES_ADDRESS \<longleftrightarrow> b = a"
proof -
  have m: "ALLONES_ADDRESS = - 1" by (simp add: ALLONES_ADDRESS_def)
  have "(a XOR b) AND (- 1) = a XOR b" by simp
  moreover have "a XOR b = 0 \<longleftrightarrow> b = a" by (metis xor.assoc xor.left_neutral xor.right_neutral xor_self_eq)
  ultimately show ?thesis unfolding maskedAddrAreEqual_def m by metis
qed

lemma uniLoop_spec:
  assumes "ift_ok t" "locals_ok t rt" "\<forall>p\<in>set ps. routeHeap rt p \<noteq> None" "\<forall>b. best = Some b \<longrightarrow> routeHeap rt b \<noteq> None"
  shows "\<exists>rt'. uniLoop now t dest ps best rt =
      Inr (first_best (cheaper rt) best (filter (\<lambda>p. valid_route now t rt p \<and> for_host rt dest p) ps), rt') \<and> filled t rt rt'"
  using assms(2-)
proof (induction ps arbitrary: best rt)
  case Nil
  then show ?case by simp
next
  case (Cons p ps)
  obtain e where e: "routeHeap rt p = Some e" using Cons.prems(2) by auto
  obtain rt1 where v: "testValidity now t p rt = Inr (valid_route now t rt p, rt1)" and f1: "filled t rt rt1"
    using testValidity_spec [OF assms(1) Cons.prems(1) e] by blast
  note same = filled_same [OF f1] and spec = spec_filled [OF f1]
  let ?best = "case best of None \<Rightarrow> Some p | Some c \<Rightarrow> if cheaper rt p c then Some p else Some c"
  have step: "uniLoop now t dest (p # ps) best rt =
      uniLoop now t dest ps (if valid_route now t rt p \<and> for_host rt dest p then ?best else best) rt1"
  proof (cases best)
    case None
    then show ?thesis using e v same(1) by (auto simp: derefRoute_def for_host_def masked_allones)
  next
    case (Some c)
    then obtain r where r: "routeHeap rt c = Some r" using Cons.prems(3) by blast
    then show ?thesis
      using e v same(1) Some by (auto simp: derefRoute_def for_host_def cheaper_def masked_allones)
  qed
  obtain best' where b: "uniLoop now t dest (p # ps) best rt = uniLoop now t dest ps best' rt1"
    "best' = (if valid_route now t rt p \<and> for_host rt dest p then ?best else best)" using step by blast
  have "\<forall>b. best' = Some b \<longrightarrow> routeHeap rt1 b \<noteq> None"
    using Cons.prems(3) e same(1) b(2) by (auto split: if_splits option.splits)
  moreover have "\<forall>q\<in>set ps. routeHeap rt1 q \<noteq> None" using Cons.prems(2) same(1) by simp
  ultimately obtain rt2 where "uniLoop now t dest ps best' rt1 =
      Inr (first_best (cheaper rt1) best' (filter (\<lambda>p. valid_route now t rt1 p \<and> for_host rt1 dest p) ps), rt2)"
    "filled t rt1 rt2"
    using Cons.IH [of rt1 best'] Cons.prems(1) same(7) by auto
  then show ?case using b spec filled_trans [OF f1] by auto
qed

section \<open>The invariant\<close>

definition rt_wf :: "RoutingTable \<Rightarrow> bool" where
  "rt_wf rt \<longleftrightarrow> distinct (routes rt @ multicastRoutes rt) \<and>
     set (routes rt) \<union> set (multicastRoutes rt) \<subseteq> dom (routeHeap rt) \<and> dom (routeHeap rt) \<subseteq> {..<nextRoute rt}"

definition cache_ok :: "simtime \<Rightarrow> InterfaceTable \<Rightarrow> RoutingTable \<Rightarrow> bool" where
  "cache_ok now t rt \<longleftrightarrow> (\<forall>dest p. routingCache rt dest = Some (Some p) \<longrightarrow>
     routeHeap rt p \<noteq> None \<and> (valid_route now t rt p \<longrightarrow> best_match now t rt dest = Some p) \<and>
     (is_manet rt p \<longrightarrow> for_host rt dest p))"

definition rt_ok :: "simtime \<Rightarrow> InterfaceTable \<Rightarrow> RoutingTable \<Rightarrow> bool" where
  "rt_ok now t rt \<longleftrightarrow> ift_ok t \<and> rt_wf rt \<and> locals_ok t rt \<and> cache_ok now t rt"

lemma rt_wf_alive: "rt_wf rt \<Longrightarrow> p \<in> set (routes rt) \<Longrightarrow> \<exists>e. routeHeap rt p = Some e"
  by (auto simp: rt_wf_def)

text \<open>What the reference definitions depend on.\<close>

lemma spec_cong:
  assumes "routeHeap rt' = routeHeap rt" "routes rt' = routes rt"
    "timetolive_routing_entry rt' = timetolive_routing_entry rt"
  shows "best_match now t rt' dest = best_match now t rt dest" "route_for now t rt' dest = route_for now t rt dest"
    "manet_trap now t rt' dest = manet_trap now t rt dest" "valid_route now t rt' = valid_route now t rt"
    "for_host rt' = for_host rt" "is_manet rt' = is_manet rt"
  unfolding best_match_def route_for_def manet_trap_def valid_route_def [abs_def] matches_def [abs_def]
    better_def [abs_def] cheaper_def [abs_def] for_host_def [abs_def] is_manet_def [abs_def]
  by (simp_all only: assms)

lemma best_match_mem:
  "best_match now t rt dest = Some b \<Longrightarrow> b \<in> set (routes rt) \<and> valid_route now t rt b \<and> matches rt dest b"
  unfolding best_match_def by (drule first_best_mem) auto

lemma searchRoute_spec:
  assumes "ift_ok t" "rt_wf rt" "locals_ok t rt"
  shows "if manet_trap now t rt dest then searchRoute now t dest rt = Inl NullPointer
    else \<exists>rt'. filled t rt rt' \<and> searchRoute now t dest rt =
      Inr (route_for now t rt dest, rt'\<lparr>routingCache := (routingCache rt)(dest \<mapsto> route_for now t rt dest)\<rparr>)"
proof -
  have alive: "\<forall>p\<in>set (routes rt). routeHeap rt p \<noteq> None" using assms(2) by (auto simp: rt_wf_def)
  obtain rt1 where b: "bestLoop now t dest (routes rt) None 0 rt = Inr (best_match now t rt dest, rt1)" and f1: "filled t rt rt1"
    using bestLoop_spec [OF assms(1,3) alive, of None 0 now dest] by (auto simp: best_match_def)
  note same = filled_same [OF f1]
  show ?thesis
  proof (cases "best_match now t rt dest")
    case None
    then show ?thesis using b f1 same(6) by (auto simp: searchRoute_def route_for_def manet_trap_def)
  next
    case (Some p)
    then obtain e where e: "routeHeap rt p = Some e" using best_match_mem rt_wf_alive [OF assms(2)] by blast
    show ?thesis
    proof (cases "is_manet rt p \<and> \<not> for_host rt dest p")
      case False
      then show ?thesis
        using b f1 same(1,6) Some e
        by (auto simp: searchRoute_def route_for_def manet_trap_def derefRoute_def is_manet_def for_host_def)
    next
      case True
      let ?u = "first_best (cheaper rt) None (filter (\<lambda>p. valid_route now t rt p \<and> for_host rt dest p) (routes rt))"
      have "\<forall>p\<in>set (routes rt1). routeHeap rt1 p \<noteq> None" using alive same by simp
      then obtain rt2 where u: "uniLoop now t dest (routes rt1) None rt1 = Inr (?u, rt2)" and f2: "filled t rt1 rt2"
        using uniLoop_spec [OF assms(1) same(7) [OF assms(3)], of "routes rt1" None now dest] same(2) spec_filled [OF f1]
        by auto
      have s: "searchRoute now t dest rt =
          bindE (case ?u of None \<Rightarrow> Inr (None, rt2) | Some u \<Rightarrow> bindE (derefRoute u rt2)
              (\<lambda>r. if r_source r = MANET then Inl NullPointer else Inr (None, rt2)))
            (\<lambda>(bestRoute, rt). Inr (bestRoute, rt\<lparr>routingCache := (routingCache rt)(dest \<mapsto> bestRoute)\<rparr>))"
        using b Some e True same(1) u by (simp add: searchRoute_def derefRoute_def is_manet_def for_host_def)
      have rf: "route_for now t rt dest = None" using Some True by (simp add: route_for_def)
      have f: "filled t rt rt2" by (rule filled_trans [OF f1 f2])
      note same2 = filled_same [OF f]
      show ?thesis
      proof (cases ?u)
        case None
        have "\<not> manet_trap now t rt dest" unfolding manet_trap_def using Some None by simp
        then show ?thesis unfolding s None rf using f same2(6) by auto
      next
        case (Some u)
        have "u \<in> set (routes rt)" using first_best_mem [OF Some] by simp
        then obtain r where r: "routeHeap rt u = Some r" using rt_wf_alive [OF assms(2)] by blast
        have "manet_trap now t rt dest \<longleftrightarrow> is_manet rt u"
          unfolding manet_trap_def using \<open>best_match now t rt dest = Some p\<close> True Some by simp
        then show ?thesis unfolding s Some rf using f same2(1,6) r by (auto simp: derefRoute_def is_manet_def)
      qed
    qed
  qed
qed

text \<open>A result of the search may be cached, and an entry of the cache is the result of the search.\<close>

lemma cache_ok_I:
  "(\<And>dest p. routingCache rt dest = Some (Some p) \<Longrightarrow> routeHeap rt p \<noteq> None \<and>
     (valid_route now t rt p \<longrightarrow> best_match now t rt dest = Some p) \<and> (is_manet rt p \<longrightarrow> for_host rt dest p)) \<Longrightarrow>
   cache_ok now t rt"
  by (simp add: cache_ok_def)

lemma cache_okD:
  assumes "cache_ok now t rt" "routingCache rt dest = Some (Some p)"
  shows "routeHeap rt p \<noteq> None" "valid_route now t rt p \<Longrightarrow> best_match now t rt dest = Some p"
    "is_manet rt p \<Longrightarrow> for_host rt dest p"
  using assms by (auto simp: cache_ok_def)

lemma cache_ok_empty: "routingCache rt = (\<lambda>_. None) \<Longrightarrow> cache_ok now t rt"
  by (simp add: cache_ok_def)

lemma cache_ok_cong:
  assumes "cache_ok now t rt" "routeHeap rt' = routeHeap rt" "routes rt' = routes rt"
    "timetolive_routing_entry rt' = timetolive_routing_entry rt" "routingCache rt' = routingCache rt"
  shows "cache_ok now t rt'"
  using assms(1) unfolding cache_ok_def spec_cong [OF assms(2-4)] by (simp only: assms(2,5))

lemma route_for_cacheable:
  assumes "rt_wf rt" "route_for now t rt dest = Some p"
  shows "routeHeap rt p \<noteq> None" "best_match now t rt dest = Some p" "is_manet rt p \<Longrightarrow> for_host rt dest p"
  using assms rt_wf_alive [OF assms(1)] best_match_mem
  by (auto simp: route_for_def split: option.splits if_splits)

lemma rt_wf_cong:
  "rt_wf rt \<Longrightarrow> routeHeap rt' = routeHeap rt \<Longrightarrow> routes rt' = routes rt \<Longrightarrow> multicastRoutes rt' = multicastRoutes rt \<Longrightarrow>
    nextRoute rt' = nextRoute rt \<Longrightarrow> rt_wf rt'"
  by (simp add: rt_wf_def)

lemma rt_ok_filled:
  assumes "rt_ok now t rt" "filled t rt rt'"
  shows "rt_ok now t rt'"
proof -
  note same = filled_same [OF assms(2)]
  have "rt_wf rt'" by (rule rt_wf_cong [OF _ same(1,2,3,5)]) (use assms in \<open>simp add: rt_ok_def\<close>)
  moreover have "cache_ok now t rt'" by (rule cache_ok_cong [OF _ same(1,2,4,6)]) (use assms in \<open>simp add: rt_ok_def\<close>)
  ultimately show ?thesis using assms(1) same(7) by (simp add: rt_ok_def)
qed

lemma searchRoute_ok:
  assumes "rt_ok now t rt"
  shows "if manet_trap now t rt dest then searchRoute now t dest rt = Inl NullPointer
    else \<exists>rt'. searchRoute now t dest rt = Inr (route_for now t rt dest, rt') \<and> rt_ok now t rt'"
proof (cases "manet_trap now t rt dest")
  case True
  then show ?thesis using searchRoute_spec [of t rt now dest] assms by (simp add: rt_ok_def)
next
  case False
  obtain rt1 where f: "filled t rt rt1" and s: "searchRoute now t dest rt =
      Inr (route_for now t rt dest, rt1\<lparr>routingCache := (routingCache rt)(dest \<mapsto> route_for now t rt dest)\<rparr>)"
    using searchRoute_spec [of t rt now dest] assms False by (auto simp: rt_ok_def)
  let ?r = "rt1\<lparr>routingCache := (routingCache rt)(dest \<mapsto> route_for now t rt dest)\<rparr>"
  note same = filled_same [OF f]
  have ok1: "rt_ok now t rt1" by (rule rt_ok_filled [OF assms f])
  then have wf: "rt_wf rt" "rt_wf ?r" and l: "locals_ok t ?r" "ift_ok t"
    using assms by (auto simp: rt_ok_def rt_wf_def locals_ok_def)
  have spec: "best_match now t ?r d = best_match now t rt d" "valid_route now t ?r = valid_route now t rt"
    "is_manet ?r = is_manet rt" "for_host ?r = for_host rt" for d
    by (rule spec_cong; simp add: same)+
  have "cache_ok now t ?r"
  proof (rule cache_ok_I)
    fix d p assume c: "routingCache ?r d = Some (Some p)"
    have "routeHeap rt p \<noteq> None \<and> (valid_route now t rt p \<longrightarrow> best_match now t rt d = Some p) \<and>
        (is_manet rt p \<longrightarrow> for_host rt d p)"
    proof (cases "d = dest")
      case True
      with c have "route_for now t rt dest = Some p" by simp
      then show ?thesis using route_for_cacheable [OF wf(1)] True by blast
    next
      case False
      with c have "routingCache rt d = Some (Some p)" by simp
      then show ?thesis using cache_okD assms by (meson rt_ok_def)
    qed
    then show "routeHeap ?r p \<noteq> None \<and> (valid_route now t ?r p \<longrightarrow> best_match now t ?r d = Some p) \<and>
        (is_manet ?r p \<longrightarrow> for_host ?r d p)"
      unfolding spec using same(1) by simp
  qed
  with False s wf(2) l show ?thesis by (simp add: rt_ok_def)
qed

text \<open>With or without the cache, the lookup gives the route of the reference definition.\<close>

lemma findBestMatchingRoute_ok:
  assumes "rt_ok now t rt"
  shows "if manet_trap now t rt dest then findBestMatchingRoute now t dest rt = Inl NullPointer
    else \<exists>rt'. findBestMatchingRoute now t dest rt = Inr (route_for now t rt dest, rt') \<and> rt_ok now t rt'"
proof -
  consider "routingCache rt dest = None" | "routingCache rt dest = Some None" | p where "routingCache rt dest = Some (Some p)"
    by (cases "routingCache rt dest") auto
  then show ?thesis
  proof cases
    case 1
    then show ?thesis using searchRoute_ok [OF assms] by (simp add: findBestMatchingRoute_def)
  next
    case 2
    let ?r = "rt\<lparr>routingCache := (\<lambda>_. None), localAddresses := {}\<rparr>"
    have "rt_ok now t ?r"
      using assms cache_ok_empty [of ?r] by (simp add: rt_ok_def rt_wf_def locals_ok_def)
    moreover have "manet_trap now t ?r dest = manet_trap now t rt dest" "route_for now t ?r dest = route_for now t rt dest"
      by (rule spec_cong; simp)+
    ultimately show ?thesis
      using searchRoute_ok [of now t ?r dest] 2
      by (cases "manet_trap now t rt dest") (simp_all add: findBestMatchingRoute_def)
  next
    case (3 p)
    have c: "cache_ok now t rt" and i: "ift_ok t" "locals_ok t rt" using assms by (simp_all add: rt_ok_def)
    obtain e where e: "routeHeap rt p = Some e" using cache_okD(1) [OF c 3] by blast
    obtain rt1 where v: "testValidity now t p rt = Inr (valid_route now t rt p, rt1)" and f: "filled t rt rt1"
      using testValidity_spec [OF i e] by blast
    note same = filled_same [OF f]
    have ok1: "rt_ok now t rt1" by (rule rt_ok_filled [OF assms f])
    have spec: "manet_trap now t rt1 dest = manet_trap now t rt dest" "route_for now t rt1 dest = route_for now t rt dest"
      by (rule spec_cong; simp add: same)+
    show ?thesis
    proof (cases "valid_route now t rt p")
      case True
      have "is_manet rt p \<Longrightarrow> for_host rt dest p" "best_match now t rt dest = Some p"
        using cache_okD [OF c 3] True by auto
      then have "route_for now t rt dest = Some p" "\<not> manet_trap now t rt dest"
        "findBestMatchingRoute now t dest rt = Inr (Some p, rt1)"
        using 3 v True e same(1)
        by (auto simp: route_for_def manet_trap_def findBestMatchingRoute_def derefRoute_def masked_allones
            is_manet_def for_host_def)
      then show ?thesis using ok1 by simp
    next
      case False
      then show ?thesis
        using 3 v searchRoute_ok [OF ok1, of dest] spec
        by (cases "manet_trap now t rt dest") (simp_all add: findBestMatchingRoute_def)
    qed
  qed
qed

section \<open>The operations keep the invariant\<close>

lemma addrs_cong: "ift_ok t \<Longrightarrow> locals_ok t rt \<Longrightarrow> localAddresses rt' = {} \<Longrightarrow> locals_ok t' rt'"
  by (simp add: locals_ok_def)

lemma rt_ok_invalid:
  "ift_ok t \<Longrightarrow> rt_wf rt \<Longrightarrow> rt_ok now t (invalidateCache rt)"
  using cache_ok_empty [of "invalidateCache rt"]
  by (simp add: rt_ok_def rt_wf_def locals_ok_def invalidateCache_def)

lemma rt_ok_time:
  assumes "rt_ok now t rt" "now \<le> now'"
  shows "rt_ok now' t rt"
proof -
  have v: "valid_route now t rt p" if "valid_route now' t rt p" for p
    using that assms(2) by (auto simp: valid_route_def entryExpired_def split: option.splits)
  have "cache_ok now' t rt"
  proof (rule cache_ok_I)
    fix dest p assume c: "routingCache rt dest = Some (Some p)"
    have "best_match now' t rt dest = Some p" if "valid_route now' t rt p"
    proof -
      have b: "best_match now t rt dest = Some p" using cache_okD(2) [OF _ c] v [OF that] assms(1) by (simp add: rt_ok_def)
      then have "matches rt dest p" by (simp add: best_match_mem)
      with that have m: "valid_route now' t rt p \<and> matches rt dest p" by simp
      have "valid_route now t rt q \<and> matches rt dest q" if "valid_route now' t rt q \<and> matches rt dest q" for q
        using v [of q] that by simp
      from bt.first_best_filter [where Q = "\<lambda>q. valid_route now' t rt q \<and> matches rt dest q", OF b [unfolded best_match_def] this m]
      show ?thesis unfolding best_match_def .
    qed
    then show "routeHeap rt p \<noteq> None \<and> (valid_route now' t rt p \<longrightarrow> best_match now' t rt dest = Some p) \<and>
        (is_manet rt p \<longrightarrow> for_host rt dest p)"
      using cache_okD(1,3) [OF _ c] assms(1) by (auto simp: rt_ok_def)
  qed
  then show ?thesis using assms(1) by (simp add: rt_ok_def)
qed

lemma rt_wf_delete:
  assumes "rt_wf rt"
  shows "rt_wf (snd (deleteRoute p rt))"
proof -
  have d: "distinct (routes rt)" "distinct (multicastRoutes rt)" "set (routes rt) \<inter> set (multicastRoutes rt) = {}"
    using assms by (auto simp: rt_wf_def)
  consider "p \<in> set (routes rt)" "p \<notin> set (multicastRoutes rt)" | "p \<notin> set (routes rt)" "p \<in> set (multicastRoutes rt)"
    | "p \<notin> set (routes rt)" "p \<notin> set (multicastRoutes rt)" using d(3) by blast
  then show ?thesis
  proof cases
    case 1
    then have "snd (deleteRoute p rt) = invalidateCache ((fireRoute NF_IPv4_ROUTE_DELETED p rt)
        \<lparr>routes := remove1 p (routes rt), routeHeap := (routeHeap rt)(p := None)\<rparr>)" by (simp add: deleteRoute_def)
    moreover have "set (routes rt) - {p} \<union> set (multicastRoutes rt) \<subseteq> dom (routeHeap rt) - {p}"
      "dom (routeHeap rt) - {p} \<subseteq> {..<nextRoute rt}" "(set (routes rt) - {p}) \<inter> set (multicastRoutes rt) = {}"
      using assms d 1 unfolding rt_wf_def by blast+
    ultimately show ?thesis using d by (simp add: rt_wf_def invalidateCache_def fireRoute_def)
  next
    case 2
    then have "snd (deleteRoute p rt) = invalidateCache ((fireRoute NF_IPv4_ROUTE_DELETED p rt)
        \<lparr>multicastRoutes := remove1 p (multicastRoutes rt), routeHeap := (routeHeap rt)(p := None)\<rparr>)"
      by (simp add: deleteRoute_def)
    moreover have "set (routes rt) \<union> (set (multicastRoutes rt) - {p}) \<subseteq> dom (routeHeap rt) - {p}"
      "dom (routeHeap rt) - {p} \<subseteq> {..<nextRoute rt}" "set (routes rt) \<inter> (set (multicastRoutes rt) - {p}) = {}"
      using assms d 2 unfolding rt_wf_def by blast+
    ultimately show ?thesis using d by (simp add: rt_wf_def invalidateCache_def fireRoute_def)
  next
    case 3
    then show ?thesis using assms by (simp add: deleteRoute_def)
  qed
qed

lemma rt_ok_delete:
  assumes "rt_ok now t rt"
  shows "rt_ok now t (snd (deleteRoute p rt))"
proof (cases "p \<in> set (routes rt) \<union> set (multicastRoutes rt)")
  case True
  have wf: "rt_wf (snd (deleteRoute p rt))" using assms by (simp add: rt_ok_def rt_wf_delete)
  have "localAddresses (snd (deleteRoute p rt)) = {}" "routingCache (snd (deleteRoute p rt)) = (\<lambda>_. None)"
    using True by (auto simp: deleteRoute_def invalidateCache_def)
  with wf show ?thesis using assms cache_ok_empty by (simp add: rt_ok_def locals_ok_def)
next
  case False
  then show ?thesis using assms by (simp add: deleteRoute_def)
qed

lemma rt_ok_I:
  "ift_ok t \<Longrightarrow> rt_wf rt \<Longrightarrow> routingCache rt = (\<lambda>_. None) \<Longrightarrow> localAddresses rt = {} \<Longrightarrow> rt_ok now t rt"
  using cache_ok_empty [of rt] by (simp add: rt_ok_def locals_ok_def)

lemma rt_wf_frame [simp]:
  "rt_wf (invalidateCache rt) = rt_wf rt" "rt_wf (fireRoute c p rt) = rt_wf rt"
  by (simp_all add: rt_wf_def invalidateCache_def fireRoute_def)

lemma rt_wf_fresh:
  assumes "rt_wf rt"
  shows "nextRoute rt \<notin> dom (routeHeap rt)" "nextRoute rt \<notin> set (routes rt) \<union> set (multicastRoutes rt)"
    "dom (routeHeap rt) \<subseteq> {..<Suc (nextRoute rt)}"
proof -
  show "nextRoute rt \<notin> dom (routeHeap rt)" using assms unfolding rt_wf_def by blast
  then show "nextRoute rt \<notin> set (routes rt) \<union> set (multicastRoutes rt)" using assms unfolding rt_wf_def by blast
  show "dom (routeHeap rt) \<subseteq> {..<Suc (nextRoute rt)}" using assms unfolding rt_wf_def by fastforce
qed

lemma rt_wf_alloc:
  assumes "rt_wf rt" "allocRoute r rt = (p, rt')"
  shows "rt_wf rt'" "p \<notin> set (routes rt') \<union> set (multicastRoutes rt')" "routeHeap rt' p = Some r"
proof -
  have rt': "p = nextRoute rt" "rt' = rt\<lparr>routeHeap := (routeHeap rt)(nextRoute rt \<mapsto> r), nextRoute := Suc (nextRoute rt)\<rparr>"
    using assms(2) by (auto simp: allocRoute_def)
  show "p \<notin> set (routes rt') \<union> set (multicastRoutes rt')" "routeHeap rt' p = Some r"
    using rt_wf_fresh(2) [OF assms(1)] by (simp_all add: rt')
  have "distinct (routes rt @ multicastRoutes rt)" "set (routes rt) \<union> set (multicastRoutes rt) \<subseteq> dom (routeHeap rt)"
    using assms(1) unfolding rt_wf_def by blast+
  then show "rt_wf rt'" using rt_wf_fresh(3) [OF assms(1)] unfolding rt_wf_def rt' by auto
qed

lemma rt_wf_add:
  assumes "rt_wf rt" "addRoute p rt = Inr rt'" "p \<notin> set (routes rt) \<union> set (multicastRoutes rt)"
  shows "rt_wf rt'" "routingCache rt' = (\<lambda>_. None)" "localAddresses rt' = {}"
proof -
  obtain e where e: "routeHeap rt p = Some e" using assms(2) by (cases "routeHeap rt p") (auto simp: addRoute_def derefRoute_def)
  let ?new = "\<lambda>rt. fireRoute NF_IPv4_ROUTE_ADDED p (invalidateCache
         (if \<not> ip_isMulticast (r_host e) then rt\<lparr>routes := routes rt @ [p]\<rparr>
          else rt\<lparr>multicastRoutes := multicastRoutes rt @ [p]\<rparr>))"
  let ?del = "if ip_isUnspecified (r_netmask e)
              then bindE (getDefaultRoute rt) (\<lambda>d. case d of None \<Rightarrow> Inr rt | Some p \<Rightarrow> Inr (snd (deleteRoute p rt)))
              else Inr rt"
  have "bindE ?del (\<lambda>rt. Inr (?new rt)) = Inr rt'"
    using assms(2) e unfolding addRoute_def derefRoute_def by (simp only: option.case bindE_simps split: if_split_asm) blast+
  then obtain rt1 where del: "?del = Inr rt1" and rt': "rt' = ?new rt1" unfolding bindE_eq_Inr by blast
  have r1: "rt1 = rt \<or> (\<exists>d. defaultLoop rt (routes rt) = Inr (Some d) \<and> rt1 = snd (deleteRoute d rt))"
    using del by (cases "defaultLoop rt (routes rt)") (auto simp: getDefaultRoute_def split: if_split_asm option.split_asm)
  have mem: "defaultLoop rt qs = Inr (Some d) \<Longrightarrow> d \<in> set qs" for qs d
    by (induction qs) (auto simp: bindE_eq_Inr split: if_splits)
  have wf1: "rt_wf rt1" using r1 assms(1) rt_wf_delete by blast
  have p1: "p \<notin> set (routes rt1) \<union> set (multicastRoutes rt1) \<and> routeHeap rt1 p = Some e"
  proof (cases "rt1 = rt")
    case True
    then show ?thesis using assms(3) e by simp
  next
    case False
    then obtain d where d: "d \<in> set (routes rt)" "rt1 = snd (deleteRoute d rt)" using r1 mem by blast
    then show ?thesis
      using assms(3) e by (auto simp: deleteRoute_def invalidateCache_def fireRoute_def dest: notin_set_remove1 set_remove1_subset [THEN subsetD])
  qed
  show "rt_wf rt'"
    using wf1 p1 unfolding rt' by (auto simp: rt_wf_def fireRoute_def invalidateCache_def)
  show "routingCache rt' = (\<lambda>_. None)" "localAddresses rt' = {}"
    unfolding rt' by (simp_all add: fireRoute_def invalidateCache_def)
qed

lemma eraseNetmask_spec:
  "\<forall>p\<in>set ps. routeHeap rt p \<noteq> None \<Longrightarrow>
    eraseNetmaskRoutes rt ps = Inr (filter (\<lambda>p. r_source (the (routeHeap rt p)) \<noteq> IFACENETMASK) ps)"
  by (induction ps) (auto simp: derefRoute_def)

text \<open>The routes the interfaces ask for.\<close>

fun netmask_routes :: "InterfaceTable \<Rightarrow> nat list \<Rightarrow> IPRoute list" where
  "netmask_routes t [] = []"
| "netmask_routes t (ie # ps) =
     (case ipv4Data ie t of Inl _ \<Rightarrow> []
      | Inr d \<Rightarrow> (if if_netmask d \<noteq> ALLONES_ADDRESS then [netmaskRoute ie d] else []) @ netmask_routes t ps)"

lemma addNetmask_spec:
  assumes "rt_wf rt" "addNetmaskRoutes t ps rt = Inr rt'"
  shows "rt_wf rt' \<and> (\<exists>l. routes rt' = routes rt @ l \<and> map (routeHeap rt') l = map Some (netmask_routes t ps)) \<and>
    (\<forall>p < nextRoute rt. routeHeap rt' p = routeHeap rt p) \<and> multicastRoutes rt' = multicastRoutes rt \<and>
    nextRoute rt \<le> nextRoute rt'"
  using assms
proof (induction ps arbitrary: rt)
  case Nil
  then show ?case by simp
next
  case (Cons ie ps)
  obtain d where d: "ipv4Data ie t = Inr d" using Cons.prems(2) by (cases "ipv4Data ie t") auto
  show ?case
  proof (cases "if_netmask d = ALLONES_ADDRESS")
    case True
    then have "addNetmaskRoutes t ps rt = Inr rt'" "netmask_routes t (ie # ps) = netmask_routes t ps"
      using Cons.prems(2) d by simp_all
    then show ?thesis using Cons.IH [OF Cons.prems(1)] by simp
  next
    case False
    let ?n = "nextRoute rt"
    let ?rt = "rt\<lparr>routeHeap := (routeHeap rt)(?n \<mapsto> netmaskRoute ie d), nextRoute := Suc ?n, routes := routes rt @ [?n]\<rparr>"
    have a: "addNetmaskRoutes t ps ?rt = Inr rt'" using Cons.prems(2) d False by (simp add: allocRoute_def)
    have "rt_wf ?rt"
      using Cons.prems(1) rt_wf_fresh [OF Cons.prems(1)] unfolding rt_wf_def by auto
    from Cons.IH [OF this a] obtain l where l: "rt_wf rt'" "routes rt' = routes rt @ ?n # l"
      "map (routeHeap rt') l = map Some (netmask_routes t ps)" "\<forall>p < Suc ?n. routeHeap rt' p = routeHeap ?rt p"
      "multicastRoutes rt' = multicastRoutes rt" "Suc ?n \<le> nextRoute rt'" by auto
    have "routeHeap rt' ?n = Some (netmaskRoute ie d)" using l(4) by simp
    then have "map (routeHeap rt') (?n # l) = map Some (netmask_routes t (ie # ps))" using l(3) d False by simp
    moreover have "\<forall>p < ?n. routeHeap rt' p = routeHeap rt p" using l(4) by simp
    ultimately show ?thesis using l by (intro conjI exI [of _ "?n # l"]) simp_all
  qed
qed

lemma updateNetmask_spec:
  assumes "rt_wf rt" "updateNetmaskRoutes t rt = Inr rt'"
  shows "rt_wf rt'" "routingCache rt' = (\<lambda>_. None)" "localAddresses rt' = {}" "multicastRoutes rt' = multicastRoutes rt"
    "\<exists>l. routes rt' = filter (\<lambda>p. r_source (the (routeHeap rt p)) \<noteq> IFACENETMASK) (routes rt) @ l \<and>
       map (routeHeap rt') l = map Some (netmask_routes t (interfaces t))"
    "\<forall>p\<in>set (routes rt). routeHeap rt' p = routeHeap rt p"
proof -
  let ?l = "filter (\<lambda>p. r_source (the (routeHeap rt p)) \<noteq> IFACENETMASK) (routes rt)"
  have alive: "\<forall>p\<in>set (routes rt). routeHeap rt p \<noteq> None" using assms(1) rt_wf_alive by fastforce
  obtain rt1 where a: "addNetmaskRoutes t (interfaces t) (rt\<lparr>routes := ?l\<rparr>) = Inr rt1" and rt': "rt' = invalidateCache rt1"
    using assms(2) eraseNetmask_spec [OF alive] by (auto simp: updateNetmaskRoutes_def bindE_eq_Inr)
  have "rt_wf (rt\<lparr>routes := ?l\<rparr>)" using assms(1) by (auto simp: rt_wf_def)
  note s = addNetmask_spec [OF this a]
  show "rt_wf rt'" using s unfolding rt' by simp
  show "routingCache rt' = (\<lambda>_. None)" "localAddresses rt' = {}" unfolding rt' by (simp_all add: invalidateCache_def)
  show "multicastRoutes rt' = multicastRoutes rt" using s unfolding rt' by (simp add: invalidateCache_def)
  show "\<exists>l. routes rt' = ?l @ l \<and> map (routeHeap rt') l = map Some (netmask_routes t (interfaces t))"
    using s unfolding rt' by (simp add: invalidateCache_def)
  have "set (routes rt) \<subseteq> {..<nextRoute rt}" using assms(1) unfolding rt_wf_def by blast
  then show "\<forall>p\<in>set (routes rt). routeHeap rt' p = routeHeap rt p"
    using s unfolding rt' by (auto simp: invalidateCache_def)
qed

end
