(* ===== verification/IP_RouteRun.thy ===== *)
theory IP_RouteRun
  imports IP_Lookup
begin

text \<open>
  The routing table in the life of a node: the operations that keep the invariant of the routing
  table, collected in the relation \<open>ip_run\<close>, and the properties of lookups in the states it
  reaches.
\<close>

section \<open>Interfaces that change\<close>

lemma collectData_ok: "(\<exists>ds. collectData t ps = Inr ds) \<longleftrightarrow> (\<forall>p\<in>set ps. \<exists>d. ipv4Data p t = Inr d)"
proof (induction ps)
  case (Cons p ps)
  then show ?case by (cases "ipv4Data p t"; cases "collectData t ps") auto
qed simp

lemma ift_ok_iff: "ift_ok t \<longleftrightarrow> (\<forall>p\<in>set (interfaces t). \<exists>d. ipv4Data p t = Inr d)"
  by (simp add: ift_ok_def collectData_ok)

lemma ipv4Data_eq:
  "ipv4Data p t = Inr d \<longleftrightarrow> (\<exists>e. p < length (idToInterface t) \<and> idToInterface t ! p = Some e \<and> ipv4data e = Some d)"
  by (auto simp: ipv4Data_def derefIf_eq bindE_eq_Inr split: option.splits)

lemma ift_ok_updIf:
  assumes "ift_ok t" "updIf f p t = Inr t'" "\<And>e. ipv4data e \<noteq> None \<Longrightarrow> ipv4data (f e) \<noteq> None"
  shows "ift_ok t'"
proof -
  obtain e where e: "derefIf p t = Inr e" and t': "t' = t\<lparr>idToInterface := (idToInterface t)[p := Some (f e)]\<rparr>"
    using assms(2) by (auto simp: updIf_def bindE_eq_Inr)
  have i: "interfaces t' = interfaces t" unfolding t' by (rule interfaces_update [OF e])
  show ?thesis
    unfolding ift_ok_iff i
  proof
    fix q assume "q \<in> set (interfaces t)"
    then obtain d where d: "ipv4Data q t = Inr d" using assms(1) unfolding ift_ok_iff by blast
    then obtain e' where e': "q < length (idToInterface t)" "idToInterface t ! q = Some e'" "ipv4data e' = Some d"
      unfolding ipv4Data_eq by blast
    show "\<exists>d. ipv4Data q t' = Inr d"
    proof (cases "q = p")
      case True
      then have "e = e'" using e e' by (simp add: derefIf_eq)
      then obtain d' where "ipv4data (f e) = Some d'" using assms(3) [of e] e'(3) by auto
      then show ?thesis unfolding ipv4Data_eq using True e'(1) by (simp add: t')
    next
      case False
      then show ?thesis unfolding ipv4Data_eq using e' by (simp add: t')
    qed
  qed
qed

lemma ift_ok_updIPv4:
  assumes "ift_ok t" "updIPv4 f p t = Inr t'"
  shows "ift_ok t'"
proof -
  obtain d where "updIf (\<lambda>e. e\<lparr>ipv4data := Some (f d)\<rparr>) p t = Inr t'"
    using assms(2) by (auto simp: updIPv4_def bindE_eq_Inr)
  then show ?thesis by (rule ift_ok_updIf [OF assms(1)]) simp
qed

lemma ift_ok_delete:
  assumes "ift_ok t"
  shows "ift_ok (tab_deleteInterface p t)"
  unfolding ift_ok_iff
proof
  fix q assume "q \<in> set (interfaces (tab_deleteInterface p t))"
  then obtain e where e: "derefIf q (tab_deleteInterface p t) = Inr e" by (auto simp: mem_interfaces)
  then have q: "q < length (idToInterface t)" "(idToInterface t)[p := None] ! q = Some e"
    unfolding derefIf_eq by (simp_all add: tab_deleteInterface_def invalidateTmpInterfaceList_def)
  then have "q \<noteq> p" by auto
  with q have "derefIf q t = Inr e" unfolding derefIf_eq by simp
  then have "q \<in> set (interfaces t)" unfolding mem_interfaces by blast
  then obtain d where "ipv4Data q t = Inr d" using assms unfolding ift_ok_iff by blast
  then have "ipv4Data q (tab_deleteInterface p t) = Inr d"
    using \<open>q \<noteq> p\<close> by (simp add: ipv4Data_def derefIf_def tab_deleteInterface_def invalidateTmpInterfaceList_def split: if_splits)
  then show "\<exists>d. ipv4Data q (tab_deleteInterface p t) = Inr d" ..
qed

section \<open>More operations of the routing table\<close>

text \<open>A table whose caches are empty.\<close>

definition fresh_caches :: "RoutingTable \<Rightarrow> bool" where
  "fresh_caches rt \<longleftrightarrow> routingCache rt = (\<lambda>_. None) \<and> localAddresses rt = {}"

lemma fresh_caches_delete: "p \<in> set (routes rt) \<Longrightarrow> fresh_caches (snd (deleteRoute p rt))"
  by (simp add: deleteRoute_def fresh_caches_def invalidateCache_def)

lemma routeVia_ok: "\<forall>p\<in>set ps. routeHeap rt p \<noteq> None \<Longrightarrow> \<exists>q. routeVia rt ie ps = Inr q"
  by (induction ps) (auto simp: derefRoute_def)

lemma deleteInterfaceRoutes_ok:
  "rt_wf rt \<Longrightarrow> \<exists>rt'. deleteInterfaceRoutes ie rt = Inr rt' \<and> rt_wf rt' \<and> routeVia rt' ie (routes rt') = Inr None \<and>
    (rt' = rt \<or> fresh_caches rt') \<and> (routeVia rt ie (routes rt) \<noteq> Inr None \<longrightarrow> fresh_caches rt')"
proof (induction ie rt rule: deleteInterfaceRoutes.induct)
  case (1 ie rt)
  have "\<forall>p\<in>set (routes rt). routeHeap rt p \<noteq> None" using rt_wf_alive [OF 1(2)] by fastforce
  then obtain q where q: "routeVia rt ie (routes rt) = Inr q" using routeVia_ok by blast
  show ?case
  proof (cases q)
    case None
    then show ?thesis using q 1(2) by (subst deleteInterfaceRoutes.simps) simp
  next
    case (Some p)
    then have p: "p \<in> set (routes rt)" using q routeVia_mem by blast
    obtain rt' where "deleteInterfaceRoutes ie (snd (deleteRoute p rt)) = Inr rt'" "rt_wf rt'"
      "routeVia rt' ie (routes rt') = Inr None" "rt' = snd (deleteRoute p rt) \<or> fresh_caches rt'"
      using 1(1) [OF q Some rt_wf_delete [OF 1(2)]] by blast
    then show ?thesis using q Some fresh_caches_delete [OF p] by (subst deleteInterfaceRoutes.simps) auto
  qed
qed

lemma dsdvLoop_ok:
  "rt_ok now t rt \<Longrightarrow> dsdvLoop now ttl t ps rt = Inr rt' \<Longrightarrow> rt_ok now t rt'"
proof (induction ps arbitrary: rt)
  case (Cons p ps)
  obtain e where e: "derefRoute p rt = Inr e" using Cons.prems(2) by (cases "derefRoute p rt") auto
  obtain rt1 where l: "isLocalAddress t (r_host e) rt = Inr (r_host e \<in> addrs t, rt1)" and f: "filled t rt rt1"
    using isLocalAddress_spec Cons.prems(1) unfolding rt_ok_def by blast
  have "rt_ok now t rt1" by (rule rt_ok_filled [OF Cons.prems(1) f])
  then have "rt_ok now t (if r_host e \<notin> addrs t \<and> entryExpired now ttl e then snd (deleteRoute p rt1) else rt1)"
    by (simp add: rt_ok_delete)
  then show ?case using Cons.IH Cons.prems(2) e l by simp
qed simp

lemma rt_ok_broadcast:
  assumes "rt_ok now t rt"
  shows "rt_ok now t (rt\<lparr>localBroadcastAddresses := A\<rparr>)"
proof -
  let ?r = "rt\<lparr>localBroadcastAddresses := A\<rparr>"
  have "rt_wf ?r" using assms by (simp add: rt_ok_def rt_wf_def)
  moreover have "cache_ok now t ?r" by (rule cache_ok_cong [of now t rt]) (use assms in \<open>simp_all add: rt_ok_def\<close>)
  ultimately show ?thesis using assms by (simp add: rt_ok_def locals_ok_def)
qed

section \<open>Runs of a node\<close>

text \<open>
  The states a node can reach after initialization, with the time.  Not among the steps are
  \<open>setMetric\<close>, \<open>scrambleRoutes\<close>, \<open>flushTable\<close> and \<open>setTimeToLiveRoutingEntry\<close>, which leave the
  cache as it is, and the deletion of an interface no route leads through, which leaves the
  set of local addresses as it is.
\<close>

inductive ip_run :: "simtime \<Rightarrow> IPNode \<Rightarrow> bool" where
  start: "ift_ok t \<Longrightarrow> ip_run now \<lparr>nift = t, nrt = (newRoutingTable fwd)\<lparr>timetolive_routing_entry := ttl\<rparr>, inInit = False\<rparr>"
| time: "ip_run now n \<Longrightarrow> now \<le> now' \<Longrightarrow> ip_run now' n"
| lookup: "ip_run now n \<Longrightarrow> findBestMatchingRoute now (nift n) dest (nrt n) = Inr (r, rt') \<Longrightarrow> ip_run now (n\<lparr>nrt := rt'\<rparr>)"
| localAddress: "ip_run now n \<Longrightarrow> isLocalAddress (nift n) dest (nrt n) = Inr (b, rt') \<Longrightarrow> ip_run now (n\<lparr>nrt := rt'\<rparr>)"
| broadcastAddress: "ip_run now n \<Longrightarrow> isLocalBroadcastAddress (nift n) dest (nrt n) = Inr (b, rt') \<Longrightarrow> ip_run now (n\<lparr>nrt := rt'\<rparr>)"
| add: "ip_run now n \<Longrightarrow> allocRoute r (nrt n) = (p, rt1) \<Longrightarrow> addRoute p rt1 = Inr rt2 \<Longrightarrow> ip_run now (n\<lparr>nrt := rt2\<rparr>)"
| delete: "ip_run now n \<Longrightarrow> ip_run now (n\<lparr>nrt := snd (deleteRoute p (nrt n))\<rparr>)"
| dsdv: "ip_run now n \<Longrightarrow> dsdvTestAndDelete now (nift n) (nrt n) = Inr rt' \<Longrightarrow> ip_run now (n\<lparr>nrt := rt'\<rparr>)"
| ipv4Config: "ip_run now n \<Longrightarrow> setIPv4 f p n = Inr n' \<Longrightarrow> ip_run now n'"
| ifConfig: "ip_run now n \<Longrightarrow> c \<in> {NF_INTERFACE_STATE_CHANGED, NF_INTERFACE_CONFIG_CHANGED} \<Longrightarrow>
    (\<And>e. ipv4data e \<noteq> None \<Longrightarrow> ipv4data (f e) \<noteq> None) \<Longrightarrow> setIf c f p n = Inr n' \<Longrightarrow> ip_run now n'"
| ifDeleted: "ip_run now n \<Longrightarrow> routeVia (nrt n) p (routes (nrt n)) \<noteq> Inr None \<Longrightarrow> deleteInterface p n = Inr n' \<Longrightarrow> ip_run now n'"

lemma ip_run_ok: "ip_run now n \<Longrightarrow> \<not> inInit n \<and> rt_ok now (nift n) (nrt n)"
proof (induction rule: ip_run.induct)
  case (start t now fwd ttl)
  then show ?case
    by (simp add: rt_ok_def rt_wf_def newRoutingTable_def locals_ok_def cache_ok_def)
next
  case (time now n now')
  then show ?case using rt_ok_time by blast
next
  case (lookup now n dest r rt')
  then show ?case
    using findBestMatchingRoute_ok [of now "nift n" "nrt n" dest] by (auto split: if_split_asm)
next
  case (localAddress now n dest b rt')
  then show ?case
    using isLocalAddress_spec [of "nift n" "nrt n" dest] rt_ok_filled [of now "nift n" "nrt n"] by (auto simp: rt_ok_def)
next
  case (broadcastAddress now n dest b rt')
  then have "rt' = nrt n \<or> (\<exists>A. rt' = (nrt n)\<lparr>localBroadcastAddresses := A\<rparr>)"
    by (auto simp: isLocalBroadcastAddress_def bindE_eq_Inr split: if_splits)
  then show ?case using broadcastAddress rt_ok_broadcast by auto
next
  case (add now n r p rt1 rt2)
  have wf: "rt_wf (nrt n)" using add by (simp add: rt_ok_def)
  note a = rt_wf_alloc [OF wf add(2)]
  have "rt_ok now (nift n) rt2" using rt_wf_add [OF a(1) add(3) a(2)] add.IH by (intro rt_ok_I) (auto simp: rt_ok_def)
  then show ?case using add by simp
next
  case (delete now n p)
  then show ?case by (simp add: rt_ok_delete)
next
  case (dsdv now n rt')
  then show ?case using dsdvLoop_ok by (auto simp: dsdvTestAndDelete_def split: option.splits)
next
  case (ipv4Config now n f p n')
  then obtain t' rt' where t: "updIPv4 f p (nift n) = Inr t'" "updateNetmaskRoutes t' (nrt n) = Inr rt'"
    and n': "n' = n\<lparr>nift := t', nrt := rt'\<rparr>"
    by (auto simp: setIPv4_def fireChangeNotification_def receiveChangeNotification_def bindE_eq_Inr)
  have "rt_wf (nrt n)" "ift_ok (nift n)" using ipv4Config by (simp_all add: rt_ok_def)
  then have "rt_ok now t' rt'"
    using updateNetmask_spec [OF _ t(2)] ift_ok_updIPv4 [OF _ t(1)] by (intro rt_ok_I) auto
  then show ?case using ipv4Config n' by simp
next
  case (ifConfig now n c f p n')
  then obtain t' where t: "updIf f p (nift n) = Inr t'" and n': "n' = n\<lparr>nift := t', nrt := invalidateCache (nrt n)\<rparr>"
    by (auto simp: setIf_def fireChangeNotification_def receiveChangeNotification_def bindE_eq_Inr)
  have "rt_wf (nrt n)" "ift_ok (nift n)" using ifConfig by (simp_all add: rt_ok_def)
  then have "rt_ok now t' (invalidateCache (nrt n))" using ift_ok_updIf [OF _ t ifConfig(3)] rt_ok_invalid by blast
  then show ?case using ifConfig n' by simp
next
  case (ifDeleted now n p n')
  have wf: "rt_wf (nrt n)" "ift_ok (nift n)" using ifDeleted by (simp_all add: rt_ok_def)
  obtain rt' where "deleteInterfaceRoutes p (nrt n) = Inr rt'" "rt_wf rt'" "fresh_caches rt'"
    using deleteInterfaceRoutes_ok [OF wf(1), of p] ifDeleted(2) by blast
  moreover from this have "n' = n\<lparr>nift := tab_deleteInterface p (nift n), nrt := rt'\<rparr>"
    using ifDeleted by (auto simp: deleteInterface_def fireChangeNotification_def receiveChangeNotification_def bindE_eq_Inr)
  moreover have "rt_ok now (tab_deleteInterface p (nift n)) rt'"
    using calculation ift_ok_delete [OF wf(2)] by (intro rt_ok_I) (auto simp: fresh_caches_def)
  ultimately show ?case using ifDeleted by simp
qed

section \<open>An example node\<close>

definition demo_entry :: "string \<Rightarrow> int \<Rightarrow> IPAddress \<Rightarrow> IPAddress \<Rightarrow> InterfaceEntry" where
  "demo_entry nm i a m = newInterfaceEntry\<lparr>if_name := nm, interfaceId := i, nwLayerGateIndex := i - 100, mtu := 1500,
     broadcast := True, ipv4data := Some \<lparr> inetAddr = a, if_netmask = m, if_metric = 1, multicastGroups = [] \<rparr>\<rparr>"

definition demo_ift :: InterfaceTable where
  "demo_ift = \<lparr> idToInterface = [Some (demo_entry ''eth0'' 100 0x0A000001 0xFF000000),
     Some (demo_entry ''eth1'' 101 0x0A010001 0xFFFF0000)], tmpNumInterfaces = - 1, tmpInterfaceList = None \<rparr>"

definition demo_rt :: RoutingTable where
  "demo_rt = (newRoutingTable True)\<lparr>routes := [0, 1], nextRoute := 2,
     routeHeap := [0 \<mapsto> newIPRoute\<lparr>r_host := 0x0A000000, r_netmask := 0xFF000000, r_interface := Some 0\<rparr>,
                   1 \<mapsto> newIPRoute\<lparr>r_host := 0x0A010000, r_netmask := 0xFFFF0000, r_interface := Some 1\<rparr>]\<rparr>"

lemma demo_interfaces: "interfaces demo_ift = [0, 1]"
  by (simp add: interfaces_def demo_ift_def)

lemma demo_ift_ok: "ift_ok demo_ift"
  unfolding ift_ok_def demo_interfaces by (simp add: ipv4Data_def derefIf_def demo_ift_def demo_entry_def)

lemma demo_rt_ok: "rt_ok 0 demo_ift demo_rt"
  by (rule rt_ok_I [OF demo_ift_ok]) (auto simp: rt_wf_def demo_rt_def newRoutingTable_def)

lemma demo_masks: "netmask_of 8 = 0xFF000000" "netmask_of 16 = 0xFFFF0000"
  by (simp_all add: netmask_of_def mask_eq_exp_minus_1)

section \<open>Properties\<close>

lemma netmask_of_mono: "m < n \<Longrightarrow> n \<le> 32 \<Longrightarrow> netmask_of m < netmask_of n"
proof -
  assume mn: "m < n" "n \<le> 32"
  have "netmask_of m = netmask_of n AND netmask_of m"
    using mn by (auto simp: u32_eq_iff bit_and_iff bit_netmask_of)
  then have "netmask_of m \<le> netmask_of n" by (metis word_and_le2)
  moreover have "bit (netmask_of n) (32 - n)" "\<not> bit (netmask_of m) (32 - n)"
    using mn by (simp_all add: bit_netmask_of)
  then have "netmask_of m \<noteq> netmask_of n" by metis
  ultimately show ?thesis by simp
qed

lemma netmask_of_less: "m \<le> 32 \<Longrightarrow> n \<le> 32 \<Longrightarrow> netmask_of m < netmask_of n \<longleftrightarrow> m < n"
  using netmask_of_mono [of m n] netmask_of_mono [of n m] by (cases m n rule: linorder_cases) auto

lemma filter_before: "P p \<Longrightarrow> filter P (takeWhile (\<lambda>q. q \<noteq> p) xs) = takeWhile (\<lambda>q. q \<noteq> p) (filter P xs)"
  by (induction xs) auto

text \<open>
  Property C5: the lookup finds the longest matching prefix.  For a routing table in its invariant \<open>rt_ok\<close>
  (every route alive, caches in step with the routes), with netmasks that are prefixes and without routes from
  a MANET protocol, \<open>findBestMatchingRoute\<close> returns without an error, from the cache or not.  A
  route it returns is in the table, has not expired, and agrees with the destination in its prefix;
  every other such route has a shorter prefix, or the same and a metric that is not smaller, and one that
  stands before it in the table has a shorter prefix or a greater metric: of equal routes the first is taken.  It
  returns \<open>NULL\<close> only when no unexpired route matches.
\<close>

theorem lookup_longest_prefix:
  assumes "rt_ok now t rt"
    and "\<forall>p\<in>set (routes rt). len p \<le> 32 \<and> r_netmask (the (routeHeap rt p)) = netmask_of (len p)"
    and "\<forall>p\<in>set (routes rt). r_source (the (routeHeap rt p)) \<noteq> MANET"
  shows "\<exists>res rt'. findBestMatchingRoute now t dest rt = Inr (res, rt') \<and> rt_ok now t rt' \<and>
    (case res of
       None \<Rightarrow> \<forall>q\<in>set (routes rt). valid_route now t rt q \<longrightarrow> \<not> same_prefix (len q) dest (r_host (the (routeHeap rt q)))
     | Some p \<Rightarrow> p \<in> set (routes rt) \<and> valid_route now t rt p \<and> same_prefix (len p) dest (r_host (the (routeHeap rt p))) \<and>
         (\<forall>q\<in>set (routes rt). valid_route now t rt q \<and> same_prefix (len q) dest (r_host (the (routeHeap rt q))) \<longrightarrow>
            len q < len p \<or> len q = len p \<and> r_metric (the (routeHeap rt p)) \<le> r_metric (the (routeHeap rt q))) \<and>
         (\<forall>q\<in>set (takeWhile (\<lambda>q. q \<noteq> p) (routes rt)). valid_route now t rt q \<and> same_prefix (len q) dest (r_host (the (routeHeap rt q))) \<longrightarrow>
            len q < len p \<or> len q = len p \<and> r_metric (the (routeHeap rt p)) < r_metric (the (routeHeap rt q))))"
proof -
  have alive: "\<exists>e. routeHeap rt p = Some e" if "p \<in> set (routes rt)" for p
    using assms(1) that rt_wf_alive by (auto simp: rt_ok_def)
  have m: "matches rt dest p \<longleftrightarrow> same_prefix (len p) dest (r_host (the (routeHeap rt p)))" if "p \<in> set (routes rt)" for p
    using alive [OF that] assms(2) that masked_same_prefix by (auto simp: matches_def)
  have nm: "\<not> is_manet rt p" if "p \<in> set (routes rt)" for p
    using alive [OF that] assms(3) that by (auto simp: is_manet_def)
  have rf: "route_for now t rt dest = best_match now t rt dest" "\<not> manet_trap now t rt dest"
    using nm best_match_mem by (auto simp: route_for_def manet_trap_def split: option.split)
  obtain rt' where f: "findBestMatchingRoute now t dest rt = Inr (best_match now t rt dest, rt')" "rt_ok now t rt'"
    using findBestMatchingRoute_ok [OF assms(1), of dest] rf by auto
  show ?thesis
  proof (cases "best_match now t rt dest")
    case None
    then have "\<forall>q\<in>set (routes rt). \<not> (valid_route now t rt q \<and> matches rt dest q)"
      by (simp add: best_match_def filter_empty_conv)
    then show ?thesis using f m None by auto
  next
    case (Some p)
    have p: "p \<in> set (routes rt)" "valid_route now t rt p" "matches rt dest p" using best_match_mem [OF Some] by auto
    have "len q < len p \<or> len q = len p \<and> r_metric (the (routeHeap rt p)) \<le> r_metric (the (routeHeap rt q))"
      if q: "q \<in> set (routes rt)" "valid_route now t rt q" "matches rt dest q" for q
    proof -
      have "\<not> better rt q p" by (rule bt.first_best_max [OF Some [unfolded best_match_def]]) (use q in simp)
      then show ?thesis
        using assms(2) p(1) q(1) netmask_of_less [of "len p" "len q"] netmask_of_less [of "len q" "len p"]
        by (auto simp: better_def Let_def not_less)
    qed
    moreover have "len q < len p \<or> len q = len p \<and> r_metric (the (routeHeap rt p)) < r_metric (the (routeHeap rt q))"
      if q: "q \<in> set (takeWhile (\<lambda>q. q \<noteq> p) (routes rt))" "valid_route now t rt q" "matches rt dest q" for q
    proof -
      let ?P = "\<lambda>p. valid_route now t rt p \<and> matches rt dest p"
      obtain ys zs where ys: "filter ?P (routes rt) = ys @ p # zs" "\<forall>y\<in>set ys. better rt p y"
        using Some unfolding best_match_def bt.first_best_iff by blast
      have "q \<in> set (takeWhile (\<lambda>q. q \<noteq> p) (filter ?P (routes rt)))"
        unfolding filter_before [of ?P p "routes rt", symmetric, OF conjI [OF p(2,3)]] using q by simp
      moreover have "set (takeWhile (\<lambda>q. q \<noteq> p) (ys @ p # zs)) \<subseteq> set ys"
        by (induction ys) auto
      ultimately have "better rt p q" using ys by auto
      then show ?thesis
        using assms(2) p(1) set_takeWhileD [OF q(1)] netmask_of_less [of "len p" "len q"] netmask_of_less [of "len q" "len p"]
        by (auto simp: better_def Let_def split: if_splits)
    qed
    ultimately show ?thesis using f m p Some set_takeWhileD [of _ "\<lambda>q. q \<noteq> p" "routes rt"]
      by (intro exI [of _ "Some p"] exI [of _ rt']) auto
  qed
qed

theorem lookup_longest_prefix_witness:
  "\<exists>rt'. findBestMatchingRoute 0 demo_ift 0x0A010203 demo_rt = Inr (Some 1, rt')"
proof -
  let ?len = "\<lambda>p :: nat. if p = 0 then 8 else (16 :: nat)"
  have s: "same_prefix 8 0x0A010203 0x0A000000" "same_prefix 16 0x0A010203 0x0A010000"
    unfolding masked_same_prefix [symmetric] demo_masks by (simp_all add: maskedAddrAreEqual_def)
  have v: "valid_route 0 demo_ift demo_rt p" for p by (simp add: valid_route_def demo_rt_def newRoutingTable_def)
  have r: "routes demo_rt = [0, 1]" "r_host (the (routeHeap demo_rt 0)) = 0x0A000000" "r_host (the (routeHeap demo_rt 1)) = 0x0A010000"
    by (simp_all add: demo_rt_def)
  have "\<forall>p\<in>set (routes demo_rt). ?len p \<le> 32 \<and> r_netmask (the (routeHeap demo_rt p)) = netmask_of (?len p)"
    by (simp add: demo_rt_def demo_masks)
  moreover have "\<forall>p\<in>set (routes demo_rt). r_source (the (routeHeap demo_rt p)) \<noteq> MANET"
    by (simp add: demo_rt_def newIPRoute_def)
  ultimately obtain res rt' where f: "findBestMatchingRoute 0 demo_ift 0x0A010203 demo_rt = Inr (res, rt')" and c: "case res of
       None \<Rightarrow> \<forall>q\<in>set (routes demo_rt). valid_route 0 demo_ift demo_rt q \<longrightarrow>
         \<not> same_prefix (?len q) 0x0A010203 (r_host (the (routeHeap demo_rt q)))
     | Some p \<Rightarrow> p \<in> set (routes demo_rt) \<and> valid_route 0 demo_ift demo_rt p \<and>
         same_prefix (?len p) 0x0A010203 (r_host (the (routeHeap demo_rt p))) \<and>
         (\<forall>q\<in>set (routes demo_rt). valid_route 0 demo_ift demo_rt q \<and>
              same_prefix (?len q) 0x0A010203 (r_host (the (routeHeap demo_rt q))) \<longrightarrow>
            ?len q < ?len p \<or> ?len q = ?len p \<and> r_metric (the (routeHeap demo_rt p)) \<le> r_metric (the (routeHeap demo_rt q))) \<and>
         (\<forall>q\<in>set (takeWhile (\<lambda>q. q \<noteq> p) (routes demo_rt)). valid_route 0 demo_ift demo_rt q \<and>
              same_prefix (?len q) 0x0A010203 (r_host (the (routeHeap demo_rt q))) \<longrightarrow>
            ?len q < ?len p \<or> ?len q = ?len p \<and> r_metric (the (routeHeap demo_rt p)) < r_metric (the (routeHeap demo_rt q)))"
    using lookup_longest_prefix [OF demo_rt_ok, of ?len "0x0A010203"] by blast
  have "res = Some 1"
  proof (cases res)
    case None
    then show ?thesis using c v s r by simp
  next
    case (Some p)
    then have "p = 0 \<or> p = 1" using c r by simp
    moreover have "p \<noteq> 0" using c v s r Some by auto
    ultimately show ?thesis using Some by simp
  qed
  then show ?thesis using f by blast
qed

text \<open>
  Property C17: the caches of the routing table are never observable.  In every state a node reaches
  by lookups, by adding and deleting routes, by changes of its interfaces and by the passing of
  time, with routes that expire, \<open>findBestMatchingRoute\<close> and \<open>isLocalAddress\<close> give what they
  would give with empty caches, the null pointer error of the MANET case included.
\<close>

theorem cached_lookup_exact:
  assumes "ip_run now n"
  shows "map_sum id fst (findBestMatchingRoute now (nift n) dest (nrt n)) =
      map_sum id fst (findBestMatchingRoute now (nift n) dest ((nrt n)\<lparr>routingCache := (\<lambda>_. None), localAddresses := {}\<rparr>)) \<and>
    map_sum id fst (isLocalAddress (nift n) dest (nrt n)) =
      map_sum id fst (isLocalAddress (nift n) dest ((nrt n)\<lparr>localAddresses := {}\<rparr>))"
proof -
  let ?r = "(nrt n)\<lparr>routingCache := (\<lambda>_. None), localAddresses := {}\<rparr>"
  have ok: "rt_ok now (nift n) (nrt n)" using ip_run_ok [OF assms] by simp
  have "rt_wf (nrt n)" "ift_ok (nift n)" using ok by (simp_all add: rt_ok_def)
  then have ok': "rt_ok now (nift n) ?r" by (intro rt_ok_I) (simp_all add: rt_wf_def)
  have spec: "manet_trap now (nift n) ?r dest = manet_trap now (nift n) (nrt n) dest"
    "route_for now (nift n) ?r dest = route_for now (nift n) (nrt n) dest"
    by (rule spec_cong; simp)+
  have "map_sum id fst (findBestMatchingRoute now (nift n) dest (nrt n)) =
      map_sum id fst (findBestMatchingRoute now (nift n) dest ?r)"
    using findBestMatchingRoute_ok [OF ok, of dest] findBestMatchingRoute_ok [OF ok', of dest] spec
    by (cases "manet_trap now (nift n) (nrt n) dest") auto
  moreover have "map_sum id fst (isLocalAddress (nift n) dest (nrt n)) =
      map_sum id fst (isLocalAddress (nift n) dest ((nrt n)\<lparr>localAddresses := {}\<rparr>))"
    using isLocalAddress_spec [of "nift n" "nrt n" dest] isLocalAddress_spec [of "nift n" "(nrt n)\<lparr>localAddresses := {}\<rparr>" dest] ok
    by (auto simp: rt_ok_def locals_ok_def)
  ultimately show ?thesis ..
qed

theorem cached_lookup_exact_witness:
  "\<exists>n. ip_run 5 n \<and> routingCache (nrt n) 0x0A010203 = Some None \<and>
    map_sum id fst (findBestMatchingRoute 5 (nift n) 0x0A010203 (nrt n)) =
    map_sum id fst (findBestMatchingRoute 5 (nift n) 0x0A010203 ((nrt n)\<lparr>routingCache := (\<lambda>_. None), localAddresses := {}\<rparr>))"
proof -
  let ?n = "\<lparr>nift = demo_ift, nrt = (newRoutingTable True)\<lparr>timetolive_routing_entry := Some 3\<rparr>, inInit = False\<rparr>"
  have run: "ip_run 5 ?n" by (rule ip_run.start [OF demo_ift_ok])
  obtain rt' where "findBestMatchingRoute 5 demo_ift 0x0A010203 (nrt ?n) = Inr (None, rt')" "routingCache rt' 0x0A010203 = Some None"
    by (simp add: findBestMatchingRoute_def searchRoute_def newRoutingTable_def)
  with ip_run.lookup [OF run, of "0x0A010203" None rt'] have "ip_run 5 (?n\<lparr>nrt := rt'\<rparr>)" "routingCache (nrt (?n\<lparr>nrt := rt'\<rparr>)) 0x0A010203 = Some None"
    by simp_all
  then show ?thesis using cached_lookup_exact [of 5 "?n\<lparr>nrt := rt'\<rparr>" "0x0A010203"] by blast
qed

text \<open>
  The routes that stand for the networks of the interfaces follow the configuration.
  After a change of the IPv4 data of an interface, the routes with source \<open>IFACENETMASK\<close> are
  exactly one per interface whose netmask is not \<open>255.255.255.255\<close>, with its address, netmask and
  metric, in the order of the interfaces; all other routes are as before.
\<close>

theorem netmask_routes_follow:
  assumes "rt_wf (nrt n)" "\<not> inInit n" "setIPv4 f p n = Inr n'"
  shows "map (\<lambda>q. the (routeHeap (nrt n') q)) (filter (\<lambda>q. r_source (the (routeHeap (nrt n') q)) = IFACENETMASK) (routes (nrt n')))
      = netmask_routes (nift n') (interfaces (nift n')) \<and>
    filter (\<lambda>q. r_source (the (routeHeap (nrt n') q)) \<noteq> IFACENETMASK) (routes (nrt n')) =
      filter (\<lambda>q. r_source (the (routeHeap (nrt n) q)) \<noteq> IFACENETMASK) (routes (nrt n)) \<and>
    (\<forall>q\<in>set (routes (nrt n)). routeHeap (nrt n') q = routeHeap (nrt n) q) \<and> rt_wf (nrt n')"
proof -
  obtain t' rt' where t: "updIPv4 f p (nift n) = Inr t'" "updateNetmaskRoutes t' (nrt n) = Inr rt'"
    and n': "n' = n\<lparr>nift := t', nrt := rt'\<rparr>"
    using assms(2,3) by (auto simp: setIPv4_def fireChangeNotification_def receiveChangeNotification_def bindE_eq_Inr)
  note u = updateNetmask_spec [OF assms(1) t(2)]
  let ?keep = "filter (\<lambda>q. r_source (the (routeHeap (nrt n) q)) \<noteq> IFACENETMASK) (routes (nrt n))"
  obtain l where l: "routes rt' = ?keep @ l" "map (routeHeap rt') l = map Some (netmask_routes t' (interfaces t'))"
    using u(5) by blast
  have src: "r \<in> set (netmask_routes t' ps) \<Longrightarrow> r_source r = IFACENETMASK" for r ps
    by (induction ps) (auto simp: netmaskRoute_def split: sum.splits if_splits)
  have the_l: "map (\<lambda>q. the (routeHeap rt' q)) l = netmask_routes t' (interfaces t')"
    using arg_cong [OF l(2), of "map the"] by (simp add: comp_def)
  have inl: "r_source (the (routeHeap rt' q)) = IFACENETMASK" if "q \<in> set l" for q
    using src [of "the (routeHeap rt' q)" "interfaces t'"] that the_l by (metis image_eqI list.set_map)
  have keep: "r_source (the (routeHeap rt' q)) \<noteq> IFACENETMASK" if "q \<in> set ?keep" for q
    using that u(6) by simp
  have parts: "filter P (ks @ l) = l" "filter (\<lambda>q. \<not> P q) (ks @ l) = ks"
    if "\<And>q. q \<in> set l \<Longrightarrow> P q" "\<And>q. q \<in> set ks \<Longrightarrow> \<not> P q" for P and ks :: "nat list"
    using that by (auto simp: filter_empty_conv filter_id_conv)
  have f: "filter (\<lambda>q. r_source (the (routeHeap rt' q)) = IFACENETMASK) (routes rt') = l"
    "filter (\<lambda>q. r_source (the (routeHeap rt' q)) \<noteq> IFACENETMASK) (routes rt') = ?keep"
    unfolding l(1) by (rule parts [OF inl keep]; assumption)+
  show ?thesis unfolding n' using f the_l u(1,6) by simp
qed

theorem netmask_routes_follow_witness:
  "\<exists>n'. setIPv4 (\<lambda>d. d\<lparr>inetAddr := 0x0A000002\<rparr>) 0 \<lparr>nift = demo_ift, nrt = demo_rt, inInit = False\<rparr> = Inr n' \<and>
    map (\<lambda>q. r_host (the (routeHeap (nrt n') q)))
      (filter (\<lambda>q. r_source (the (routeHeap (nrt n') q)) = IFACENETMASK) (routes (nrt n'))) = [0x0A000002, 0x0A010001]"
proof -
  let ?n = "\<lparr>nift = demo_ift, nrt = demo_rt, inInit = False\<rparr>"
  define t2 where "t2 = demo_ift\<lparr>idToInterface := [Some (demo_entry ''eth0'' 100 0x0A000002 0xFF000000),
     Some (demo_entry ''eth1'' 101 0x0A010001 0xFFFF0000)]\<rparr>"
  have u: "updIPv4 (\<lambda>d. d\<lparr>inetAddr := 0x0A000002\<rparr>) 0 demo_ift = Inr t2"
    by (simp add: updIPv4_def updIf_def ipv4Data_def derefIf_def demo_ift_def demo_entry_def t2_def)
  have i: "interfaces t2 = [0, 1]" by (simp add: interfaces_def t2_def)
  have d: "ipv4Data 0 t2 = Inr \<lparr> inetAddr = 0x0A000002, if_netmask = 0xFF000000, if_metric = 1, multicastGroups = [] \<rparr>"
    "ipv4Data (Suc 0) t2 = Inr \<lparr> inetAddr = 0x0A010001, if_netmask = 0xFFFF0000, if_metric = 1, multicastGroups = [] \<rparr>"
    by (simp_all add: ipv4Data_def derefIf_def t2_def demo_entry_def)
  have "\<exists>rt2. updateNetmaskRoutes t2 demo_rt = Inr rt2"
    unfolding updateNetmaskRoutes_def i by (simp add: d demo_rt_def newRoutingTable_def derefRoute_def allocRoute_def)
  then obtain rt2 where r: "updateNetmaskRoutes t2 demo_rt = Inr rt2" by blast
  have s: "setIPv4 (\<lambda>d. d\<lparr>inetAddr := 0x0A000002\<rparr>) 0 ?n = Inr \<lparr>nift = t2, nrt = rt2, inInit = False\<rparr>"
    by (simp add: setIPv4_def u r fireChangeNotification_def receiveChangeNotification_def)
  have wf: "rt_wf (nrt ?n)" using demo_rt_ok by (simp add: rt_ok_def)
  have "map (\<lambda>q. the (routeHeap rt2 q)) (filter (\<lambda>q. r_source (the (routeHeap rt2 q)) = IFACENETMASK) (routes rt2)) =
      netmask_routes t2 [0, 1]"
    using netmask_routes_follow [OF wf _ s] i by simp
  then have "map r_host (map (\<lambda>q. the (routeHeap rt2 q)) (filter (\<lambda>q. r_source (the (routeHeap rt2 q)) = IFACENETMASK) (routes rt2))) =
      [0x0A000002, 0x0A010001]"
    by (simp add: d netmaskRoute_def ALLONES_ADDRESS_def del: map_map)
  then show ?thesis using s by (intro exI [of _ "\<lparr>nift = t2, nrt = rt2, inInit = False\<rparr>"]) (simp add: comp_def)
qed

end
