(* ===== verification/IP_Module.thy ===== *)
theory IP_Module
  imports IP_Frag IP_RouteRun
begin

text \<open>
  The IPv4 module (\<open>ipv4/IP.cc\<close>) and the ICMP module it calls (\<open>ipv4/ICMP.cc\<close>).  Every handler is
  a function on the state of the node; what leaves the modules is collected in \<open>im_out\<close>, in the
  order of sending.
\<close>

section \<open>State and output\<close>

definition MANET_ROUTE_UPDATE :: int where "MANET_ROUTE_UPDATE = 1"
definition MANET_ROUTE_NOROUTE :: int where "MANET_ROUTE_NOROUTE = 2"
definition ICMP_FRAGMENTATION_ERROR_CODE :: int where "ICMP_FRAGMENTATION_ERROR_CODE = 4"

text \<open>
  \<open>ToQueue\<close> is the gate towards ARP, with the routing decision attached; \<open>ToIfOut\<close> the direct way
  to an interface; \<open>ToTransport\<close> a higher layer protocol.  \<open>IcmpToIP\<close>, \<open>IcmpErrorOut\<close> and \<open>IcmpPingOut\<close>
  are the gates of ICMP.
\<close>

datatype IPOut =
    ToQueue Datagram int IPAddress
  | ArpToQueue int
  | ToIfOut Datagram int
  | ToTransport int Packet IPControlInfo
  | ToPreRouting Packet IPControlInfo
  | DatagramToTransport int Datagram
  | ManetControl int int IPAddress IPAddress "Datagram option"
  | IcmpToIP Packet IPControlInfo
  | IcmpErrorOut Packet IPControlInfo
  | IcmpPingOut "Packet option" IPControlInfo

record IPModule =
  im_node :: IPNode
  defaultTimeToLive :: int
  defaultMCTimeToLive :: int
  fragmentTimeoutTime :: simtime
  mapping :: "(int \<times> int) list"
  isPathOK :: "int \<Rightarrow> bool"
  manetRouting :: bool
  curFragmentId :: int
  lastCheckTime :: simtime
  fragbuf :: IPFragBuf
  icmp_ctr :: nat
  numMulticast :: int
  numLocalDeliver :: int
  numDropped :: int
  numUnroutable :: int
  numForwarded :: int
  im_out :: "IPOut list"

definition emit :: "IPOut \<Rightarrow> IPModule \<Rightarrow> IPModule" where
  "emit e s = s\<lparr>im_out := im_out s @ [e]\<rparr>"

fun getOutputGateForProtocol :: "int \<Rightarrow> (int \<times> int) list \<Rightarrow> int res" where
  "getOutputGateForProtocol protocol [] = Inl (RuntimeError ''No output gate defined in protocolMapping'')"
| "getOutputGateForProtocol protocol ((p, g) # es) = (if p = protocol then Inr g else getOutputGateForProtocol protocol es)"

definition getSourceInterfaceFrom :: "Datagram \<Rightarrow> IPModule \<Rightarrow> nat option" where
  "getSourceInterfaceFrom d s =
     (case arrivalGate (fst d) of None \<Rightarrow> None | Some g \<Rightarrow> getInterfaceByNetworkLayerGateIndex g (nift (im_node s)))"

text \<open>A query of the routing table, which may fill its caches.\<close>

definition queryRT :: "(InterfaceTable \<Rightarrow> RoutingTable \<Rightarrow> ('a \<times> RoutingTable) res) \<Rightarrow> IPModule \<Rightarrow> ('a \<times> IPModule) res" where
  "queryRT q s =
     bindE (q (nift (im_node s)) (nrt (im_node s))) (\<lambda>(a, r). Inr (a, s\<lparr>im_node := (im_node s)\<lparr>nrt := r\<rparr>\<rparr>))"

section \<open>ICMP\<close>

type_synonym IcmpMsg = "ICMPHeader \<times> Packet option"

definition icmp_sendToIP_dest :: "IcmpMsg \<Rightarrow> IPAddress \<Rightarrow> IPModule \<Rightarrow> IPModule" where
  "icmp_sendToIP_dest m dest = emit (IcmpToIP (ICMPMessage (fst m) (snd m))
     (newIPControlInfo\<lparr>ci_destAddr := dest, ci_protocol := IP_PROT_ICMP\<rparr>))"

definition icmp_sendToIP :: "IcmpMsg \<Rightarrow> IPControlInfo \<Rightarrow> IPModule \<Rightarrow> IPModule" where
  "icmp_sendToIP m ctrl = emit (IcmpToIP (ICMPMessage (fst m) (snd m)) ctrl)"

definition errorOut :: "IcmpMsg \<Rightarrow> IPControlInfo \<Rightarrow> IPModule \<Rightarrow> IPModule" where
  "errorOut m ctrl = emit (IcmpErrorOut (ICMPMessage (fst m) (snd m)) ctrl)"

definition processEchoRequest :: "IcmpMsg \<Rightarrow> IPControlInfo \<Rightarrow> IPModule \<Rightarrow> IPModule" where
  "processEchoRequest m ctrl =
     (let reply = (fst m)\<lparr>icmp_name := icmp_name (fst m) @ ''-reply'', icmp_type := ICMP_ECHO_REPLY\<rparr>;
          ctrl' = ctrl\<lparr>ci_srcAddr := ci_destAddr ctrl, ci_destAddr := ci_srcAddr ctrl\<rparr>
      in icmp_sendToIP (reply, snd m) ctrl')"

text \<open>A reply without content is dereferenced.\<close>

definition processEchoReply :: "IcmpMsg \<Rightarrow> IPControlInfo \<Rightarrow> IPModule \<Rightarrow> IPModule res" where
  "processEchoReply m ctrl s = (case snd m of None \<Rightarrow> Inl NullPointer | Some p \<Rightarrow> Inr (emit (IcmpPingOut (Some p) ctrl) s))"

definition processICMPMessage :: "IcmpMsg \<Rightarrow> IPControlInfo \<Rightarrow> IPModule \<Rightarrow> IPModule res" where
  "processICMPMessage m ctrl s =
     (let t = icmp_type (fst m)
      in if t = ICMP_DESTINATION_UNREACHABLE \<or> t = ICMP_REDIRECT \<or> t = ICMP_TIME_EXCEEDED \<or> t = ICMP_PARAMETER_PROBLEM
         then Inr (errorOut m ctrl s)
         else if t = ICMP_ECHO_REQUEST \<or> t = ICMP_TIMESTAMP_REQUEST then Inr (processEchoRequest m ctrl s)
         else if t = ICMP_ECHO_REPLY \<or> t = ICMP_TIMESTAMP_REPLY then processEchoReply m ctrl s
         else Inl (RuntimeError ''Unknown ICMP type''))"

definition sendEchoRequest :: "Packet \<Rightarrow> IPControlInfo \<Rightarrow> IPModule \<Rightarrow> IPModule" where
  "sendEchoRequest p ctrl =
     icmp_sendToIP (\<lparr> icmp_name = packetName p, icmp_type = ICMP_ECHO_REQUEST, icmp_code = 0, icmp_byteLength = packetLength p \<rparr>, Some p)
       (ctrl\<lparr>ci_protocol := IP_PROT_ICMP\<rparr>)"

text \<open>The message for an error, and the two cases in which none is sent.\<close>

definition errorMessage :: "Datagram \<Rightarrow> int \<Rightarrow> int \<Rightarrow> nat \<Rightarrow> IcmpMsg" where
  "errorMessage d type code ctr =
     (\<lparr> icmp_name = ''ICMP-error-#'' @ showDec ctr @ ''-type'' @ showDec (nat type) @ ''-code'' @ showDec (nat code),
        icmp_type = type, icmp_code = code, icmp_byteLength = 8 + headerLength (fst d) + 8 \<rparr>, Some (IPDatagram (fst d) (snd d)))"

definition suppressError :: "Datagram \<Rightarrow> bool res" where
  "suppressError d =
     (if ip_isMulticast (destAddress (fst d)) then Inr True
      else if transportProtocol (fst d) = IP_PROT_ICMP
      then case snd d of Some (ICMPMessage h _) \<Rightarrow> Inr (icmp_type h < 128)
           | _ \<Rightarrow> Inl (RuntimeError ''check_and_cast<ICMPMessage>'')
      else Inr False)"

definition sendErrorMessage :: "Datagram \<Rightarrow> int \<Rightarrow> int \<Rightarrow> IPModule \<Rightarrow> IPModule res" where
  "sendErrorMessage d type code s =
     bindE (suppressError d) (\<lambda>no.
     if no then Inr s
     else let ctr = Suc (icmp_ctr s); s = s\<lparr>icmp_ctr := ctr\<rparr>; m = errorMessage d type code ctr
          in if ip_isUnspecified (srcAddress (fst d))
             then processICMPMessage m (newIPControlInfo\<lparr>ci_srcAddr := LOOPBACK_ADDRESS, ci_protocol := IP_PROT_ICMP\<rparr>) s
             else Inr (icmp_sendToIP_dest m (srcAddress (fst d)) s))"

definition sendErrorMessage_transport :: "Packet \<Rightarrow> IPControlInfo \<Rightarrow> int \<Rightarrow> int \<Rightarrow> IPModule \<Rightarrow> IPModule res" where
  "sendErrorMessage_transport p ctrl type code s =
     bindE (removeOrigDatagram ctrl) (\<lambda>(d, _). bindE (ip_encapsulate p d) (\<lambda>d. sendErrorMessage d type code s))"

text \<open>Messages for ICMP: from IP (\<open>localIn\<close>) or from an application (\<open>pingIn\<close>).\<close>

definition icmp_handleMessage :: "string \<Rightarrow> Packet \<Rightarrow> IPControlInfo \<Rightarrow> IPModule \<Rightarrow> IPModule res" where
  "icmp_handleMessage gate p ctrl s =
     (if gate = ''localIn''
      then case p of ICMPMessage h enc \<Rightarrow> processICMPMessage (h, enc) ctrl s | _ \<Rightarrow> Inl (RuntimeError ''check_and_cast<ICMPMessage>'')
      else if gate = ''pingIn'' then Inr (sendEchoRequest p ctrl s) else Inr s)"

section \<open>Sending\<close>

definition sendDatagramToOutput :: "Datagram \<Rightarrow> nat \<Rightarrow> IPAddress \<Rightarrow> IPModule \<Rightarrow> IPModule res" where
  "sendDatagramToOutput d ie nextHopAddr s =
     (if timeToLive (fst d) \<le> 0 then sendErrorMessage d ICMP_TIME_EXCEEDED 0 s
      else bindE (derefIf ie (nift (im_node s))) (\<lambda>e.
        if \<not> broadcast e then Inr (emit (ToIfOut d (nwLayerGateIndex e)) s)
        else if ctrlAttached (fst d) then Inl (RuntimeError ''setControlInfo(): message already has control info attached'')
        else Inr (emit (ToQueue d (interfaceId e) nextHopAddr) s)))"

fun sendFragments :: "Datagram list \<Rightarrow> nat \<Rightarrow> IPAddress \<Rightarrow> IPModule \<Rightarrow> IPModule res" where
  "sendFragments [] ie nextHopAddr s = Inr s"
| "sendFragments (f # fs) ie nextHopAddr s = bindE (sendDatagramToOutput f ie nextHopAddr s) (sendFragments fs ie nextHopAddr)"

definition fragmentAndSend :: "Datagram \<Rightarrow> nat \<Rightarrow> IPAddress \<Rightarrow> IPModule \<Rightarrow> IPModule res" where
  "fragmentAndSend d ie nextHopAddr s =
     bindE (derefIf ie (nift (im_node s))) (\<lambda>e.
     if ip_byteLength (fst d) \<le> mtu e then sendDatagramToOutput d ie nextHopAddr s
     else bindE (noOfFragments (ip_byteLength (fst d) - headerLength (fst d)) (headerLength (fst d)) (mtu e)) (\<lambda>n.
       if dontFragment (fst d) \<and> n > 1
       then sendErrorMessage d ICMP_DESTINATION_UNREACHABLE ICMP_FRAGMENTATION_ERROR_CODE s
       else sendFragments (fragmentsOf (mtu e) n d) ie nextHopAddr s))"

section \<open>Delivery\<close>

text \<open>The datagram stays with the caller unless it was sent on (to DSR or inside a control message).\<close>

definition controlMessageToManetRouting :: "int \<Rightarrow> Datagram \<Rightarrow> IPModule \<Rightarrow> IPModule res" where
  "controlMessageToManetRouting code d s =
     (if \<not> manetRouting s then Inr s
      else if transportProtocol (fst d) = IP_PROT_DSR
      then if code = MANET_ROUTE_NOROUTE
           then bindE (getOutputGateForProtocol IP_PROT_MANET (mapping s)) (\<lambda>g. Inr (emit (DatagramToTransport g d) s))
           else Inr s
      else if code = MANET_ROUTE_UPDATE \<or> code = MANET_ROUTE_NOROUTE
      then bindE (getOutputGateForProtocol IP_PROT_MANET (mapping s)) (\<lambda>g.
        Inr (emit (ManetControl g code (srcAddress (fst d)) (destAddress (fst d))
               (if code = MANET_ROUTE_NOROUTE then Some d else None)) s))
      else Inr s)"

definition decapsulateIP :: "Datagram \<Rightarrow> IPModule \<Rightarrow> (Packet \<times> IPControlInfo) res" where
  "decapsulateIP d s =
     bindE (case getSourceInterfaceFrom d s of None \<Rightarrow> Inr (- 1)
            | Some ie \<Rightarrow> bindE (derefIf ie (nift (im_node s))) (\<lambda>e. Inr (interfaceId e))) (\<lambda>ifid.
     bindE (ip_decapsulate d) (\<lambda>(p, d).
     bindE (setOrigDatagram d (newIPControlInfo\<lparr>ci_protocol := c_short (transportProtocol (fst d)), ci_srcAddr := srcAddress (fst d),
              ci_destAddr := destAddress (fst d), ci_diffServCodePoint := diffServCodePoint (fst d),
              ci_interfaceId := ifid, ci_timeToLive := timeToLive (fst d)\<rparr>)) (\<lambda>ci.
     case p of None \<Rightarrow> Inl NullPointer | Some p \<Rightarrow> Inr (p, ci))))"

definition handleReceivedICMP :: "Packet \<Rightarrow> IPControlInfo \<Rightarrow> IPModule \<Rightarrow> IPModule res" where
  "handleReceivedICMP p ci s =
     (case p of
        ICMPMessage h enc \<Rightarrow>
          if icmp_type h \<in> {ICMP_REDIRECT, ICMP_DESTINATION_UNREACHABLE, ICMP_TIME_EXCEEDED, ICMP_PARAMETER_PROBLEM}
          then case enc of
                 Some (IPDatagram bogus _) \<Rightarrow>
                   bindE (getOutputGateForProtocol (transportProtocol bogus) (mapping s)) (\<lambda>g. Inr (emit (ToTransport g p ci) s))
               | _ \<Rightarrow> Inl (RuntimeError ''check_and_cast<IPDatagram>'')
          else bindE (getOutputGateForProtocol IP_PROT_ICMP (mapping s)) (\<lambda>g. Inr (emit (ToTransport g p ci) s))
      | _ \<Rightarrow> Inl (RuntimeError ''check_and_cast<ICMPMessage>''))"

fun sendTimeExceeded :: "Datagram list \<Rightarrow> IPModule \<Rightarrow> IPModule res" where
  "sendTimeExceeded [] s = Inr s"
| "sendTimeExceeded (d # ds) s = bindE (sendErrorMessage d ICMP_TIME_EXCEEDED 0 s) (sendTimeExceeded ds)"

definition checkFragments :: "simtime \<Rightarrow> IPModule \<Rightarrow> IPModule res" where
  "checkFragments now s =
     (if now \<ge> lastCheckTime s + 10
      then bindE (purgeStaleFragments (now - fragmentTimeoutTime s) (fragbuf s)) (\<lambda>(ds, bs).
           sendTimeExceeded ds (s\<lparr>lastCheckTime := now, fragbuf := bs\<rparr>))
      else Inr s)"

definition deliver :: "Datagram \<Rightarrow> IPModule \<Rightarrow> IPModule res" where
  "deliver d s =
     bindE (decapsulateIP d s) (\<lambda>(p, ci).
     if transportProtocol (fst d) = IP_PROT_ICMP then handleReceivedICMP p ci s
     else if transportProtocol (fst d) = IP_PROT_IP then Inr (emit (ToPreRouting p ci) s)
     else bindE (getOutputGateForProtocol (transportProtocol (fst d)) (mapping s)) (\<lambda>g.
       if isPathOK s g then Inr (emit (ToTransport g p ci) s) else Inr s))"

definition reassembleAndDeliver :: "simtime \<Rightarrow> Datagram \<Rightarrow> IPModule \<Rightarrow> IPModule res" where
  "reassembleAndDeliver now d s =
     (if transportProtocol (fst d) = IP_PROT_DSR then controlMessageToManetRouting MANET_ROUTE_NOROUTE d s
      else if fragmentOffset (fst d) \<noteq> 0 \<or> moreFragments (fst d)
      then bindE (checkFragments now s) (\<lambda>s.
           bindE (addFragment d now (fragbuf s)) (\<lambda>(r, bs).
           case r of None \<Rightarrow> Inr (s\<lparr>fragbuf := bs\<rparr>) | Some d \<Rightarrow> deliver d (s\<lparr>fragbuf := bs\<rparr>)))
      else deliver d s)"

section \<open>Routing\<close>

definition setSrcIfUnspecified :: "IPAddress \<Rightarrow> Datagram \<Rightarrow> Datagram" where
  "setSrcIfUnspecified a d = (if ip_isUnspecified (srcAddress (fst d)) then ((fst d)\<lparr>srcAddress := a\<rparr>, snd d) else d)"

text \<open>
  The branch for broadcast addresses: the \<open>else\<close> belongs to \<open>if (!fromHL)\<close>, inside of
  \<open>if (destAddr == ALLONES_ADDRESS)\<close>, so that for the broadcast address of a network nothing is done.
\<close>

definition routeBroadcast :: "simtime \<Rightarrow> Datagram \<Rightarrow> nat option \<Rightarrow> bool \<Rightarrow> IPModule \<Rightarrow> IPModule res" where
  "routeBroadcast now d destIE fromHL s =
     (if destAddress (fst d) = ALLONES_ADDRESS
      then if \<not> fromHL
           then reassembleAndDeliver now (setSrcIfUnspecified (destAddress (fst d)) d) (s\<lparr>numLocalDeliver := numLocalDeliver s + 1\<rparr>)
           else case destIE of
                  Some ie \<Rightarrow> fragmentAndSend d ie ALLONES_ADDRESS s
                | None \<Rightarrow> Inr (s\<lparr>numDropped := numDropped s + 1\<rparr>)
      else Inr s)"

text \<open>The output interface and the next hop; \<open>None\<close> when the datagram has been dealt with.\<close>

definition chooseOutput :: "simtime \<Rightarrow> Datagram \<Rightarrow> nat option \<Rightarrow> bool \<Rightarrow> IPAddress option \<Rightarrow> IPModule \<Rightarrow>
    ((nat option \<times> IPAddress) option \<times> IPModule) res" where
  "chooseOutput now d destIE fromHL nextHop s =
     (case destIE of
        Some ie \<Rightarrow> Inr (Some (Some ie, if manetRouting s \<and> fromHL \<and> nextHop \<noteq> None then the nextHop else 0), s)
      | None \<Rightarrow>
          bindE (queryRT (\<lambda>t. findBestMatchingRoute now t (destAddress (fst d))) s) (\<lambda>(re, s).
          bindE (case re of None \<Rightarrow> Inr None
                 | Some p \<Rightarrow> bindE (derefRoute p (nrt (im_node s))) (\<lambda>r.
                     Inr (if r_source r = MANET \<and> r_host r \<noteq> destAddress (fst d) then None else Some r))) (\<lambda>re.
          case re of
            None \<Rightarrow>
              if \<not> manetRouting s
              then bindE (sendErrorMessage d ICMP_DESTINATION_UNREACHABLE 0 (s\<lparr>numUnroutable := numUnroutable s + 1\<rparr>)) (\<lambda>s. Inr (None, s))
              else bindE (controlMessageToManetRouting MANET_ROUTE_NOROUTE d s) (\<lambda>s. Inr (None, s))
          | Some r \<Rightarrow> Inr (Some (r_interface r, r_gateway r), s))))"

definition forward :: "Datagram \<Rightarrow> nat option \<Rightarrow> IPAddress \<Rightarrow> IPModule \<Rightarrow> IPModule res" where
  "forward d destIE nextHopAddr s =
     (case destIE of None \<Rightarrow> Inl NullPointer
      | Some ie \<Rightarrow>
          bindE (if ip_isUnspecified (srcAddress (fst d))
                 then bindE (ipv4Data ie (nift (im_node s))) (\<lambda>v. Inr (setSrcIfUnspecified (inetAddr v) d)) else Inr d) (\<lambda>d.
          fragmentAndSend (if transportProtocol (fst d) = IP_PROT_MANET then ((fst d)\<lparr>ctrlAttached := False\<rparr>, snd d) else d)
            ie nextHopAddr (s\<lparr>numForwarded := numForwarded s + 1\<rparr>)))"

definition routePacket :: "simtime \<Rightarrow> Datagram \<Rightarrow> nat option \<Rightarrow> bool \<Rightarrow> IPAddress option \<Rightarrow> IPModule \<Rightarrow> IPModule res" where
  "routePacket now d destIE fromHL nextHop s =
     bindE (controlMessageToManetRouting MANET_ROUTE_UPDATE d s) (\<lambda>s.
     bindE (queryRT (\<lambda>t. isLocalAddress t (destAddress (fst d))) s) (\<lambda>(isLocal, s).
     if isLocal
     then reassembleAndDeliver now (setSrcIfUnspecified (destAddress (fst d)) d) (s\<lparr>numLocalDeliver := numLocalDeliver s + 1\<rparr>)
     else
       bindE (if destAddress (fst d) = ALLONES_ADDRESS then Inr (True, s)
              else queryRT (\<lambda>t. isLocalBroadcastAddress t (destAddress (fst d))) s) (\<lambda>(isBroadcast, s).
       if isBroadcast then routeBroadcast now d destIE fromHL s
       else if \<not> fromHL \<and> \<not> IPForward (nrt (im_node s)) then Inr (s\<lparr>numDropped := numDropped s + 1\<rparr>)
       else
         bindE (chooseOutput now d destIE fromHL nextHop s) (\<lambda>(out, s).
         case out of None \<Rightarrow> Inr s | Some (ie, nextHopAddr) \<Rightarrow> forward d ie nextHopAddr s))))"

fun multicastCopies :: "Datagram \<Rightarrow> nat option \<Rightarrow> (nat option \<times> IPAddress) list \<Rightarrow> IPModule \<Rightarrow> IPModule res" where
  "multicastCopies d fromIE [] s = Inr s"
| "multicastCopies d fromIE ((destIE, gw) # rs) s =
     (case destIE of
        None \<Rightarrow> multicastCopies d fromIE rs s
      | Some ie \<Rightarrow>
          if Some ie = fromIE then multicastCopies d fromIE rs s
          else bindE (if ip_isUnspecified (srcAddress (fst d))
                      then bindE (ipv4Data ie (nift (im_node s))) (\<lambda>v. Inr (setSrcIfUnspecified (inetAddr v) (dupDatagram d)))
                      else Inr (dupDatagram d)) (\<lambda>c.
               bindE (fragmentAndSend c ie gw s) (multicastCopies d fromIE rs)))"

definition multicastOut :: "Datagram \<Rightarrow> nat option \<Rightarrow> nat option \<Rightarrow> IPModule \<Rightarrow> IPModule res" where
  "multicastOut d destIE fromIE s =
     (case destIE of
        Some ie \<Rightarrow>
          if \<not> ip_isMulticast (destAddress (fst d)) then Inl (AssertFailed ''datagram->getDestAddress().isMulticast()'')
          else bindE (if ip_isUnspecified (srcAddress (fst d))
                      then bindE (ipv4Data ie (nift (im_node s))) (\<lambda>v. Inr (setSrcIfUnspecified (inetAddr v) d)) else Inr d) (\<lambda>d.
               fragmentAndSend d ie (destAddress (fst d)) s)
      | None \<Rightarrow> bindE (getMulticastRoutesFor (destAddress (fst d)) (nrt (im_node s))) (\<lambda>rs. multicastCopies d fromIE rs s))"

definition routeMulticastPacket :: "simtime \<Rightarrow> Datagram \<Rightarrow> nat option \<Rightarrow> nat option \<Rightarrow> IPModule \<Rightarrow> IPModule res" where
  "routeMulticastPacket now d destIE fromIE s =
     bindE (queryRT (\<lambda>t. getInterfaceForDestAddr now t (srcAddress (fst d))) (s\<lparr>numMulticast := numMulticast s + 1\<rparr>)) (\<lambda>(shortestPathIE, s).
     if fromIE \<noteq> None \<and> shortestPathIE \<noteq> None \<and> fromIE \<noteq> shortestPathIE then Inr s
     else if fromIE \<noteq> None
     then bindE (isLocalMulticastAddress (nift (im_node s)) (destAddress (fst d))) (\<lambda>l.
          bindE (if l then reassembleAndDeliver now ((fst (dupDatagram d))\<lparr>destAddress := routerId (nrt (im_node s))\<rparr>, snd d) s else Inr s) (\<lambda>s.
          if \<not> IPForward (nrt (im_node s)) then Inr s
          else if ip_isLinkLocalMulticast (destAddress (fst d)) then Inr s
          else multicastOut d destIE fromIE s))
     else multicastOut d destIE fromIE s)"

section \<open>Handlers\<close>

text \<open>
  \<open>handlePacketFromNetwork\<close>.  \<open>ctrl\<close> is the control information of the link layer: \<open>None\<close> when there
  is none, otherwise whether the frame was a broadcast.  \<open>dblrand\<close> is the random number drawn for a
  datagram with a bit error.
\<close>

definition handlePacketFromNetwork :: "simtime \<Rightarrow> rat \<Rightarrow> bool option \<Rightarrow> Datagram \<Rightarrow> IPModule \<Rightarrow> IPModule res" where
  "handlePacketFromNetwork now dblrand ctrl d s =
     (if bitError (fst d) \<and> dblrand \<le> double_div (of_int (headerLength (fst d))) (of_int (ip_byteLength (fst d)))
      then sendErrorMessage d ICMP_PARAMETER_PROBLEM 0 s
      else if ctrl = Some True \<and> (\<exists>h p. snd d = Some (UDPPacket h p))
      then reassembleAndDeliver now d (s\<lparr>numLocalDeliver := numLocalDeliver s + 1\<rparr>)
      else
        let keep = (transportProtocol (fst d) = IP_PROT_DSR \<or> transportProtocol (fst d) = IP_PROT_MANET) \<and> \<not> moreFragments (fst d);
            d = ((fst d)\<lparr>ctrlAttached := (if keep then ctrl \<noteq> None else False), timeToLive := c_short (timeToLive (fst d) - 1)\<rparr>, snd d)
        in if \<not> ip_isMulticast (destAddress (fst d)) then routePacket now d None False None s
           else routeMulticastPacket now d None (getSourceInterfaceFrom d s) s)"

definition handleARP :: "int \<Rightarrow> IPModule \<Rightarrow> IPModule res" where
  "handleARP g s =
     (case getInterfaceByNetworkLayerGateIndex g (nift (im_node s)) of
        None \<Rightarrow> Inl (AssertFailed ''fromIE'')
      | Some ie \<Rightarrow> bindE (derefIf ie (nift (im_node s))) (\<lambda>e. Inr (emit (ArpToQueue (interfaceId e)) s)))"

definition initialTTL :: "IPControlInfo \<Rightarrow> IPModule \<Rightarrow> int" where
  "initialTTL ci s =
     (if ci_timeToLive ci > 0 then ci_timeToLive ci
      else if ip_isLinkLocalMulticast (ci_destAddr ci) then 1
      else if ip_isMulticast (ci_destAddr ci) then c_short (defaultMCTimeToLive s)
      else c_short (defaultTimeToLive s))"

definition encapsulate :: "Packet \<Rightarrow> IPControlInfo \<Rightarrow> IPModule \<Rightarrow> (Datagram \<times> nat option \<times> IPModule) res" where
  "encapsulate p ci s =
     bindE (ip_encapsulate p ((newIPHeader (packetName p))\<lparr>ip_byteLength := IP_HEADER_BYTES\<rparr>, None)) (\<lambda>(h, enc).
     bindE (if ip_isUnspecified (ci_srcAddr ci) then Inr h
            else bindE (getInterfaceByAddress (nift (im_node s)) (ci_srcAddr ci)) (\<lambda>ie.
              if ie = None then Inl (RuntimeError ''Wrong source address: no interface with such address'')
              else Inr (h\<lparr>srcAddress := ci_srcAddr ci\<rparr>))) (\<lambda>h.
     Inr ((h\<lparr>destAddress := ci_destAddr ci, diffServCodePoint := ci_diffServCodePoint ci,
             identification := c_int (curFragmentId s), moreFragments := False, dontFragment := ci_dontFragment ci,
             fragmentOffset := 0, timeToLive := initialTTL ci s, transportProtocol := ci_protocol ci\<rparr>, enc),
          getInterfaceById (ci_interfaceId ci) (nift (im_node s)), s\<lparr>curFragmentId := curFragmentId s + 1\<rparr>)))"

text \<open>\<open>dsrFillDestIE\<close>: DSR hands over datagrams of its own, with control information.\<close>

definition dsrFillDestIE :: "Datagram \<Rightarrow> IPControlInfo option \<Rightarrow> IPModule \<Rightarrow> (nat option \<times> IPAddress) res" where
  "dsrFillDestIE d ci s =
     (if transportProtocol (fst d) \<noteq> IP_PROT_DSR then Inr (None, 0)
      else case ci of None \<Rightarrow> Inl (RuntimeError ''check_and_cast<IPControlInfo>'')
           | Some ci \<Rightarrow> Inr (getInterfaceById (ci_interfaceId ci) (nift (im_node s)), ci_nextHopAddr ci))"

definition handleMessageFromHL :: "simtime \<Rightarrow> Packet \<Rightarrow> IPControlInfo option \<Rightarrow> IPModule \<Rightarrow> IPModule res" where
  "handleMessageFromHL now p ci s =
     (if interfaces (nift (im_node s)) = [] then Inr s
      else case p of
        IPDatagram h enc \<Rightarrow>
          bindE (dsrFillDestIE (h, enc) ci s) (\<lambda>(destIE, nextHop).
          let d = (h\<lparr>ctrlAttached := (if transportProtocol h = IP_PROT_DSR then False else ci \<noteq> None)\<rparr>, enc)
          in if \<not> ip_isMulticast (destAddress h)
             then routePacket now d destIE True (if ip_isUnspecified nextHop then None else Some nextHop) s
             else routeMulticastPacket now d destIE None s)
      | _ \<Rightarrow>
          (case ci of None \<Rightarrow> Inl (RuntimeError ''check_and_cast<IPControlInfo>'')
           | Some ci \<Rightarrow>
               bindE (encapsulate p ci s) (\<lambda>(d, destIE, s).
               if \<not> ip_isMulticast (destAddress (fst d))
               then routePacket now d destIE True (if ip_isUnspecified (ci_nextHopAddr ci) then None else Some (ci_nextHopAddr ci)) s
               else routeMulticastPacket now d destIE None s)))"

text \<open>\<open>endService\<close>: the dispatch of what reaches the front of the queue.\<close>

datatype IPIn =
    FromTransport Packet "IPControlInfo option"
  | FromNetARP int
  | FromNet rat "bool option" Datagram

fun endService :: "simtime \<Rightarrow> IPIn \<Rightarrow> IPModule \<Rightarrow> IPModule res" where
  "endService now (FromTransport p ci) s = handleMessageFromHL now p ci s"
| "endService now (FromNetARP g) s = handleARP g s"
| "endService now (FromNet dblrand ctrl d) s = handlePacketFromNetwork now dblrand ctrl d s"

text \<open>
  \<open>initialize\<close>.  \<open>manet\<close> describes the module behind the gate for MANET protocols, when its name says
  that it is a MANET manager: whether its protocol is OLSR and whether it is active.
\<close>

definition ip_initialize :: "IPNode \<Rightarrow> int \<Rightarrow> int \<Rightarrow> simtime \<Rightarrow> (int \<times> int) list \<Rightarrow> (int \<Rightarrow> bool) \<Rightarrow> int \<Rightarrow> (bool \<times> bool) option \<Rightarrow> IPModule res" where
  "ip_initialize node ttl mcttl fragTimeout entries pathOK transportOutSize manet =
     bindE (getOutputGateForProtocol IP_PROT_MANET entries) (\<lambda>g.
     Inr \<lparr> im_node = node, defaultTimeToLive = ttl, defaultMCTimeToLive = mcttl, fragmentTimeoutTime = fragTimeout,
           mapping = entries, isPathOK = pathOK,
           manetRouting = (if transportOutSize - 1 < g then False
                           else case manet of None \<Rightarrow> False | Some (olsr, active) \<Rightarrow> \<not> olsr \<and> active),
           curFragmentId = 0, lastCheckTime = 0, fragbuf = [], icmp_ctr = 0, numMulticast = 0, numLocalDeliver = 0,
           numDropped = 0, numUnroutable = 0, numForwarded = 0, im_out = [] \<rparr>)"

end
