(* ===== verification/IP_Forward.thy ===== *)
theory IP_Forward
  imports IP_Module
begin

text \<open>
  What the IPv4 module lets out.  \<open>emits P s s'\<close> says that the output of \<open>s'\<close> is that of \<open>s\<close> and
  events that satisfy \<open>P\<close>; every operation of the module is shown to emit only events that fit
  the datagram it was given.
\<close>

section \<open>Events an operation emits\<close>

definition emits :: "(IPOut \<Rightarrow> bool) \<Rightarrow> IPModule \<Rightarrow> IPModule \<Rightarrow> bool" where
  "emits P s s' \<longleftrightarrow> (\<exists>es. im_out s' = im_out s @ es \<and> list_all P es)"

lemma emits_same: "im_out s' = im_out s \<Longrightarrow> emits P s s'"
  by (simp add: emits_def)

lemma emits_refl [simp]: "emits P s s"
  by (simp add: emits_same)

lemma emits_trans: "emits P s s' \<Longrightarrow> emits P s' s'' \<Longrightarrow> emits P s s''"
  by (fastforce simp: emits_def)

lemma emits_emit: "P e \<Longrightarrow> emits P s (emit e s)"
  by (simp add: emits_def emit_def)

lemma emits_mono: "emits P s s' \<Longrightarrow> (\<And>e. P e \<Longrightarrow> Q e) \<Longrightarrow> emits Q s s'"
  by (auto simp: emits_def list_all_iff)

lemma emits_bind: "wpE m (emits P s) \<Longrightarrow> (\<And>s'. wpE (f s') (emits P s')) \<Longrightarrow> wpE (bindE m f) (emits P s)"
  by (cases m) (auto intro: wpE_mono emits_trans)

lemma emits_pre: "im_out s0 = im_out s \<Longrightarrow> wpE m (emits P s0) \<Longrightarrow> wpE m (emits P s)"
  by (erule wpE_mono) (simp add: emits_def)

text \<open>Events that do not go to the network.\<close>

fun local_event :: "IPOut \<Rightarrow> bool" where
  "local_event (ToQueue _ _ _) = False"
| "local_event (ToIfOut _ _) = False"
| "local_event _ = True"

text \<open>
  Two datagrams that are the same but for what routing may change: the name, the length and the place of
  a fragment, the control information, and a source address that was not specified.
\<close>

definition same_datagram :: "Datagram \<Rightarrow> Datagram \<Rightarrow> bool" where
  "same_datagram d d' \<longleftrightarrow> snd d' = snd d \<and> timeToLive (fst d') = timeToLive (fst d) \<and> destAddress (fst d') = destAddress (fst d) \<and>
     identification (fst d') = identification (fst d) \<and> transportProtocol (fst d') = transportProtocol (fst d) \<and>
     headerLength (fst d') = headerLength (fst d) \<and>
     (srcAddress (fst d') = srcAddress (fst d) \<or> ip_isUnspecified (srcAddress (fst d)))"

fun fits :: "Datagram \<Rightarrow> IPOut \<Rightarrow> bool" where
  "fits d (ToQueue d' _ _) = (0 < timeToLive (fst d') \<and> same_datagram d d')"
| "fits d (ToIfOut d' _) = (0 < timeToLive (fst d') \<and> same_datagram d d')"
| "fits d _ = True"

lemma same_datagram_refl [simp]: "same_datagram d d"
  by (simp add: same_datagram_def)

lemma same_datagram_trans: "same_datagram a b \<Longrightarrow> same_datagram b c \<Longrightarrow> same_datagram a c"
  by (auto simp: same_datagram_def)

lemma fits_local: "local_event e \<Longrightarrow> fits d e"
  by (cases e) auto

lemma fits_trans: "same_datagram d d' \<Longrightarrow> fits d' e \<Longrightarrow> fits d e"
  by (cases e) (auto intro: same_datagram_trans)

lemma emits_local: "wpE m (emits local_event s) \<Longrightarrow> wpE m (emits (fits d) s)"
  by (erule wpE_mono) (erule emits_mono, rule fits_local)

lemma emits_same_datagram: "same_datagram d d' \<Longrightarrow> wpE m (emits (fits d') s) \<Longrightarrow> wpE m (emits (fits d) s)"
  by (erule wpE_mono) (erule emits_mono, erule fits_trans)

lemma same_datagram_steps:
  "same_datagram d (setSrcIfUnspecified a d)" "same_datagram d (dupDatagram d)" "same_datagram d (makeFragment m n d i)"
  "same_datagram (h, enc) (h\<lparr>ctrlAttached := b\<rparr>, enc)"
  by (simp_all add: same_datagram_def setSrcIfUnspecified_def dupDatagram_def makeFragment_def Let_def)

section \<open>ICMP and delivery emit nothing to the network\<close>

lemma icmp_local:
  "wpE (processICMPMessage m ctrl s) (emits local_event s)"
  "wpE (sendErrorMessage d t c s) (emits local_event s)"
proof -
  show p: "wpE (processICMPMessage m ctrl s) (emits local_event s)" for m ctrl s
    by (auto simp: processICMPMessage_def Let_def errorOut_def processEchoRequest_def icmp_sendToIP_def processEchoReply_def
        intro!: emits_emit split: option.split)
  have "wpE (processICMPMessage m ctrl (s\<lparr>icmp_ctr := k\<rparr>)) (emits local_event s)" for m ctrl k
    by (rule emits_pre [OF _ p]) simp
  moreover have "emits local_event s (emit e (s\<lparr>icmp_ctr := k\<rparr>))" if "local_event e" for e k
    using that by (simp add: emits_def emit_def)
  ultimately show "wpE (sendErrorMessage d t c s) (emits local_event s)"
    unfolding sendErrorMessage_def Let_def icmp_sendToIP_dest_def
    by (cases "suppressError d") (auto simp: wp_simps)
qed

lemma manet_local: "wpE (controlMessageToManetRouting code d s) (emits local_event s)"
  unfolding controlMessageToManetRouting_def
  by (cases "getOutputGateForProtocol IP_PROT_MANET (mapping s)") (auto intro!: emits_emit)

lemma handleReceivedICMP_local: "wpE (handleReceivedICMP p ci s) (emits local_event s)"
proof -
  have g: "wpE (bindE (getOutputGateForProtocol q (mapping s)) (\<lambda>g. Inr (emit (ToTransport g p ci) s))) (emits local_event s)" for q
    by (cases "getOutputGateForProtocol q (mapping s)") (auto intro!: emits_emit)
  then show ?thesis unfolding handleReceivedICMP_def by (auto split: Packet.split option.split)
qed

lemma deliver_local: "wpE (deliver d s) (emits local_event s)"
proof (cases "decapsulateIP d s")
  case (Inr pc)
  then show ?thesis
    unfolding deliver_def
    by (cases pc; cases "getOutputGateForProtocol (transportProtocol (fst d)) (mapping s)")
      (auto intro!: emits_emit handleReceivedICMP_local)
qed (simp add: deliver_def)

lemma sendTimeExceeded_local: "wpE (sendTimeExceeded ds s) (emits local_event s)"
  by (induction ds arbitrary: s) (auto intro: emits_bind icmp_local)

lemma checkFragments_local: "wpE (checkFragments now s) (emits local_event s)"
proof -
  have "wpE (sendTimeExceeded ds (s\<lparr>lastCheckTime := now, fragbuf := bs\<rparr>)) (emits local_event s)" for ds bs
    by (rule emits_pre [OF _ sendTimeExceeded_local]) simp
  then show ?thesis
    unfolding checkFragments_def
    by (cases "purgeStaleFragments (now - fragmentTimeoutTime s) (fragbuf s)") auto
qed

lemma reassembleAndDeliver_local: "wpE (reassembleAndDeliver now d s) (emits local_event s)"
proof -
  have d: "wpE (deliver d' (s\<lparr>fragbuf := bs\<rparr>)) (emits local_event s)" for d' s bs
    by (rule emits_pre [OF _ deliver_local]) simp
  have a: "wpE (bindE (addFragment d now (fragbuf s)) (\<lambda>(r, bs). case r of None \<Rightarrow> Inr (s\<lparr>fragbuf := bs\<rparr>) | Some d \<Rightarrow> deliver d (s\<lparr>fragbuf := bs\<rparr>)))
      (emits local_event s)" for s
    by (cases "addFragment d now (fragbuf s)") (auto simp: d emits_same split: option.split)
  show ?thesis
    unfolding reassembleAndDeliver_def by (auto intro: manet_local deliver_local emits_bind checkFragments_local a)
qed

section \<open>What is sent is the datagram\<close>

lemma sendDatagramToOutput_fits: "wpE (sendDatagramToOutput d ie a s) (emits (fits d) s)"
proof -
  have "wpE (sendErrorMessage d t c s) (emits (fits d) s)" for t c by (rule emits_local [OF icmp_local(2)])
  then show ?thesis
    unfolding sendDatagramToOutput_def
    by (cases "derefIf ie (nift (im_node s))") (auto intro!: emits_emit)
qed

lemma sendFragments_fits: "list_all (same_datagram d) fs \<Longrightarrow> wpE (sendFragments fs ie a s) (emits (fits d) s)"
proof (induction fs arbitrary: s)
  case (Cons f fs)
  have "wpE (sendDatagramToOutput f ie a s) (emits (fits d) s)"
    using Cons.prems by (intro emits_same_datagram [OF _ sendDatagramToOutput_fits]) simp
  then show ?case using Cons by (auto intro: emits_bind)
qed simp

lemma fragmentAndSend_fits: "wpE (fragmentAndSend d ie a s) (emits (fits d) s)"
proof -
  have f: "list_all (same_datagram d) (fragmentsOf m n d)" for m n
    by (simp add: list_all_iff fragmentsOf_def same_datagram_steps)
  show ?thesis
    unfolding fragmentAndSend_def
    by (cases "derefIf ie (nift (im_node s))";
        cases "noOfFragments (ip_byteLength (fst d) - headerLength (fst d)) (headerLength (fst d)) (mtu (projr (derefIf ie (nift (im_node s)))))")
      (auto intro: sendDatagramToOutput_fits emits_local icmp_local sendFragments_fits f)
qed

lemma queryRT_out: "queryRT q s = Inr (a, s') \<Longrightarrow> im_out s' = im_out s"
  by (auto simp: queryRT_def bindE_eq_Inr)

lemma emits_query: "(\<And>a s'. im_out s' = im_out s \<Longrightarrow> wpE (f (a, s')) (emits P s')) \<Longrightarrow> wpE (bindE (queryRT q s) f) (emits P s)"
proof (cases "queryRT q s")
  case (Inr x)
  assume f: "\<And>a s'. im_out s' = im_out s \<Longrightarrow> wpE (f (a, s')) (emits P s')"
  obtain a s' where x: "x = (a, s')" by fastforce
  have o: "im_out s' = im_out s" using queryRT_out [OF Inr [unfolded x]] .
  have "wpE (f (a, s')) (emits P s)" by (rule emits_pre [OF o f [OF o]])
  then show ?thesis using Inr x by simp
qed simp

lemma emits_count:
  "wpE m (emits P (s\<lparr>numLocalDeliver := k\<rparr>)) \<Longrightarrow> wpE m (emits P s)" "wpE m (emits P (s\<lparr>numForwarded := k\<rparr>)) \<Longrightarrow> wpE m (emits P s)"
  "wpE m (emits P (s\<lparr>numUnroutable := k\<rparr>)) \<Longrightarrow> wpE m (emits P s)" "wpE m (emits P (s\<lparr>numMulticast := k\<rparr>)) \<Longrightarrow> wpE m (emits P s)"
  by (erule emits_pre [rotated]; simp)+

lemma routeBroadcast_fits: "wpE (routeBroadcast now d ie fromHL s) (emits (fits d) s)"
  unfolding routeBroadcast_def
  by (auto intro: emits_count(1) emits_local reassembleAndDeliver_local fragmentAndSend_fits emits_same split: option.split)

lemma chooseOutput_fits: "wpE (chooseOutput now d ie fromHL nh s) (\<lambda>(_, s'). emits (fits d) s s')"
proof (cases ie)
  case None
  have u: "wpE (bindE (sendErrorMessage d t c (s'\<lparr>numUnroutable := k\<rparr>)) (\<lambda>s. Inr (None, s))) (\<lambda>(_ :: (nat option \<times> IPAddress) option, s''). emits (fits d) s' s'')"
    for t c s' k
    using emits_count(3) [OF emits_local [OF icmp_local(2)]] by (simp add: wpE_bindE)
  have m: "wpE (bindE (controlMessageToManetRouting c d s') (\<lambda>s. Inr (None, s))) (\<lambda>(_ :: (nat option \<times> IPAddress) option, s''). emits (fits d) s' s'')"
    for c s'
    using emits_local [OF manet_local] by (simp add: wpE_bindE)
  show ?thesis
  proof (cases "queryRT (\<lambda>t. findBestMatchingRoute now t (destAddress (fst d))) s")
    case (Inr x)
    obtain re s1 where x: "x = (re, s1)" by fastforce
    have o: "im_out s1 = im_out s" using queryRT_out [OF Inr [unfolded x]] .
    have e: "emits (fits d) s = emits (fits d) s1" using o by (simp add: emits_def fun_eq_iff)
    define q where "q = (case re of None \<Rightarrow> Inr None | Some p \<Rightarrow> bindE (derefRoute p (nrt (im_node s1))) (\<lambda>r.
                     Inr (if r_source r = MANET \<and> r_host r \<noteq> destAddress (fst d) then None else Some r)))"
    show ?thesis
      unfolding chooseOutput_def None option.case Inr x bindE_simps prod.case q_def [symmetric] e
      by (cases q) (auto simp: u m split: option.split)
  qed (simp add: chooseOutput_def None)
qed (simp add: chooseOutput_def)

lemma withSource_fits:
  assumes "\<And>d'. same_datagram d d' \<Longrightarrow> wpE (f d') (emits (fits d) s)"
  shows "wpE (bindE (if ip_isUnspecified (srcAddress (fst d)) then bindE (ipv4Data ie t) (\<lambda>v. Inr (setSrcIfUnspecified (inetAddr v) d)) else Inr d) f)
    (emits (fits d) s)"
  using assms same_datagram_steps(1) by (cases "ipv4Data ie t") auto

lemma forward_fits: "wpE (forward d ie a s) (emits (fits d) s)"
proof (cases ie)
  case (Some i)
  have "wpE (fragmentAndSend (if transportProtocol (fst d') = IP_PROT_MANET then ((fst d')\<lparr>ctrlAttached := False\<rparr>, snd d') else d')
      i a (s\<lparr>numForwarded := numForwarded s + 1\<rparr>)) (emits (fits d) s)" if "same_datagram d d'" for d'
  proof (rule emits_count(2), rule emits_same_datagram [OF _ fragmentAndSend_fits])
    show "same_datagram d (if transportProtocol (fst d') = IP_PROT_MANET then ((fst d')\<lparr>ctrlAttached := False\<rparr>, snd d') else d')"
      using that by (auto simp: same_datagram_def)
  qed
  then show ?thesis unfolding forward_def Some option.case by (rule withSource_fits)
qed (simp add: forward_def)

lemma routePacket_fits: "wpE (routePacket now d ie fromHL nh s) (emits (fits d) s)"
proof -
  let ?rest = "\<lambda>(isBroadcast, s). if isBroadcast then routeBroadcast now d ie fromHL s
       else if \<not> fromHL \<and> \<not> IPForward (nrt (im_node s)) then Inr (s\<lparr>numDropped := numDropped s + 1\<rparr>)
       else bindE (chooseOutput now d ie fromHL nh s) (\<lambda>(out, s). case out of None \<Rightarrow> Inr s | Some (ie, nextHopAddr) \<Rightarrow> forward d ie nextHopAddr s)"
  have c: "wpE (bindE (chooseOutput now d ie fromHL nh s) (\<lambda>(out, s). case out of None \<Rightarrow> Inr s | Some (ie, nextHopAddr) \<Rightarrow> forward d ie nextHopAddr s))
      (emits (fits d) s)" for s
  proof (cases "chooseOutput now d ie fromHL nh s")
    case (Inr x)
    obtain out s2 where x: "x = (out, s2)" by fastforce
    have e: "emits (fits d) s s2" using chooseOutput_fits [of now d ie fromHL nh s] Inr x by simp
    have "wpE (case out of None \<Rightarrow> Inr s2 | Some (ie, nextHopAddr) \<Rightarrow> forward d ie nextHopAddr s2) (emits (fits d) s2)"
      by (auto intro: forward_fits split: option.split)
    then show ?thesis using Inr x emits_trans [OF e] by (auto elim: wpE_mono)
  qed simp
  have r: "wpE (?rest (b, s)) (emits (fits d) s)" for b s
    using c by (auto intro: routeBroadcast_fits emits_same)
  have b: "wpE (bindE (if destAddress (fst d) = ALLONES_ADDRESS then Inr (True, s1)
              else queryRT (\<lambda>t. isLocalBroadcastAddress t (destAddress (fst d))) s1) ?rest) (emits (fits d) s1)" for s1
    using r [of True s1] emits_query [of s1 ?rest "fits d", OF r] by (cases "destAddress (fst d) = ALLONES_ADDRESS") simp_all
  have l: "wpE (reassembleAndDeliver now (setSrcIfUnspecified (destAddress (fst d)) d) (s1\<lparr>numLocalDeliver := numLocalDeliver s1 + 1\<rparr>)) (emits (fits d) s1)" for s1
    by (rule emits_count(1), rule emits_local, rule reassembleAndDeliver_local)
  show ?thesis
    unfolding routePacket_def
    by (rule emits_bind [OF emits_local [OF manet_local]], rule emits_query) (use b l in auto)
qed

lemma multicastCopies_fits: "wpE (multicastCopies d fromIE rs s) (emits (fits d) s)"
proof (induction d fromIE rs s rule: multicastCopies.induct)
  case (2 d fromIE destIE gw rs s)
  show ?case
  proof (cases destIE)
    case None
    then show ?thesis using 2 by simp
  next
    case (Some ie)
    show ?thesis
    proof (cases "Some ie = fromIE")
      case True
      show ?thesis unfolding multicastCopies.simps Some option.case if_P [OF True] by (rule 2(2) [OF Some True])
    next
      case False
      have step: "wpE (bindE (fragmentAndSend c ie gw s) (multicastCopies d fromIE rs)) (emits (fits d) s)" if "same_datagram d c" for c
      proof (rule emits_bind)
        show "wpE (fragmentAndSend c ie gw s) (emits (fits d) s)" by (rule emits_same_datagram [OF that fragmentAndSend_fits])
        show "wpE (multicastCopies d fromIE rs s') (emits (fits d) s')" for s' using 2(3) [OF Some False] by blast
      qed
      have "same_datagram d (setSrcIfUnspecified a (dupDatagram d))" "same_datagram d (dupDatagram d)" for a
        using same_datagram_steps same_datagram_trans by blast+
      then show ?thesis
        using Some False step by (cases "ipv4Data ie (nift (im_node s))") auto
    qed
  qed
qed simp

lemma multicastOut_fits: "wpE (multicastOut d ie fromIE s) (emits (fits d) s)"
proof (cases ie)
  case None
  then show ?thesis
    unfolding multicastOut_def
    by (cases "getMulticastRoutesFor (destAddress (fst d)) (nrt (im_node s))") (auto intro: multicastCopies_fits)
next
  case (Some i)
  have "wpE (fragmentAndSend d' i (destAddress (fst d')) s) (emits (fits d) s)" if "same_datagram d d'" for d'
    by (rule emits_same_datagram [OF that fragmentAndSend_fits])
  then have "wpE (bindE (if ip_isUnspecified (srcAddress (fst d)) then bindE (ipv4Data i (nift (im_node s))) (\<lambda>v. Inr (setSrcIfUnspecified (inetAddr v) d)) else Inr d)
      (\<lambda>d. fragmentAndSend d i (destAddress (fst d)) s)) (emits (fits d) s)"
    by (rule withSource_fits)
  then show ?thesis unfolding multicastOut_def Some option.case by simp
qed

lemma routeMulticastPacket_fits: "wpE (routeMulticastPacket now d ie fromIE s) (emits (fits d) s)"
proof -
  have l: "wpE (bindE (if l then reassembleAndDeliver now d' s1 else Inr s1) (\<lambda>s.
          if \<not> IPForward (nrt (im_node s)) then Inr s
          else if ip_isLinkLocalMulticast (destAddress (fst d)) then Inr s
          else multicastOut d ie fromIE s)) (emits (fits d) s1)" for l d' s1
    by (rule emits_bind) (auto intro: emits_local [OF reassembleAndDeliver_local] multicastOut_fits)
  show ?thesis
    unfolding routeMulticastPacket_def
  proof (rule emits_count(4), rule emits_query, unfold prod.case)
    fix sp s1
    show "wpE (if fromIE \<noteq> None \<and> sp \<noteq> None \<and> fromIE \<noteq> sp then Inr s1
     else if fromIE \<noteq> None
     then bindE (isLocalMulticastAddress (nift (im_node s1)) (destAddress (fst d))) (\<lambda>l.
          bindE (if l then reassembleAndDeliver now ((fst (dupDatagram d))\<lparr>destAddress := routerId (nrt (im_node s1))\<rparr>, snd d) s1 else Inr s1) (\<lambda>s.
          if \<not> IPForward (nrt (im_node s)) then Inr s
          else if ip_isLinkLocalMulticast (destAddress (fst d)) then Inr s
          else multicastOut d ie fromIE s))
     else multicastOut d ie fromIE s1) (emits (fits d) s1)"
      using l multicastOut_fits by (cases "isLocalMulticastAddress (nift (im_node s1)) (destAddress (fst d))") auto
  qed
qed

end
