(* ===== verification/IP_Safety.thy ===== *)
theory IP_Safety
  imports IP_Forward
begin

text \<open>
  The decisions of the IPv4 module: which route a datagram takes, when ICMP is silent, and what
  happens to broadcasts.
\<close>

section \<open>Lookups keep the routes\<close>

definition same_routes :: "RoutingTable \<Rightarrow> RoutingTable \<Rightarrow> bool" where
  "same_routes rt rt' \<longleftrightarrow> (\<exists>c la. rt' = rt\<lparr>routingCache := c, localAddresses := la\<rparr>)"

lemma same_routes_refl [simp]: "same_routes rt rt"
  unfolding same_routes_def by (intro exI [of _ "routingCache rt"] exI [of _ "localAddresses rt"]) simp

lemma same_routes_trans: "same_routes a b \<Longrightarrow> same_routes b c \<Longrightarrow> same_routes a c"
proof -
  assume "same_routes a b" "same_routes b c"
  then obtain x y x' y' where "b = a\<lparr>routingCache := x, localAddresses := y\<rparr>" "c = b\<lparr>routingCache := x', localAddresses := y'\<rparr>"
    unfolding same_routes_def by blast
  then have "c = a\<lparr>routingCache := x', localAddresses := y'\<rparr>" by simp
  then show ?thesis unfolding same_routes_def by blast
qed

lemma same_routes_cache: "same_routes rt (rt\<lparr>routingCache := c\<rparr>)" "same_routes rt (rt\<lparr>routingCache := c, localAddresses := la\<rparr>)"
proof -
  have "rt\<lparr>routingCache := c\<rparr> = rt\<lparr>routingCache := c, localAddresses := localAddresses rt\<rparr>" by simp
  then show "same_routes rt (rt\<lparr>routingCache := c\<rparr>)" unfolding same_routes_def by blast
  show "same_routes rt (rt\<lparr>routingCache := c, localAddresses := la\<rparr>)" unfolding same_routes_def by blast
qed

lemma same_routes_sel:
  assumes "same_routes rt rt'"
  shows "routeHeap rt' = routeHeap rt" "IPForward rt' = IPForward rt" "routes rt' = routes rt"
    "localBroadcastAddresses rt' = localBroadcastAddresses rt"
  using assms by (auto simp: same_routes_def)

lemma filled_same_routes: "filled t rt rt' \<Longrightarrow> same_routes rt rt'"
proof -
  assume "filled t rt rt'"
  then consider "rt' = rt" | "rt' = rt\<lparr>localAddresses := addrs t\<rparr>" by (auto simp: filled_def)
  then show ?thesis
  proof cases
    case 2
    then show ?thesis
      unfolding same_routes_def by (intro exI [of _ "routingCache rt"] exI [of _ "addrs t"]) simp
  qed simp
qed

lemma searchRoute_same:
  assumes "rt_ok now t rt" "searchRoute now t dest rt = Inr (r, rt')"
  shows "same_routes rt rt'"
proof -
  have h: "ift_ok t" "rt_wf rt" "locals_ok t rt" using assms(1) by (simp_all add: rt_ok_def)
  obtain rt1 c where f: "filled t rt rt1" "rt' = rt1\<lparr>routingCache := c\<rparr>"
    using searchRoute_spec [OF h, of now dest] assms(2) by (auto split: if_splits)
  then show ?thesis using filled_same_routes same_routes_cache(1) same_routes_trans by blast
qed

lemma findBest_same:
  assumes "rt_ok now t rt" "findBestMatchingRoute now t dest rt = Inr (r, rt')"
  shows "same_routes rt rt'"
proof -
  consider "routingCache rt dest = None" | "routingCache rt dest = Some None" | p where "routingCache rt dest = Some (Some p)"
    by (cases "routingCache rt dest") auto
  then show ?thesis
  proof cases
    case 1
    then show ?thesis using searchRoute_same [OF assms(1)] assms(2) by (simp add: findBestMatchingRoute_def)
  next
    case 2
    let ?r = "rt\<lparr>routingCache := (\<lambda>_. None), localAddresses := {}\<rparr>"
    have "rt_ok now t ?r" using assms(1) by (intro rt_ok_I) (simp_all add: rt_ok_def rt_wf_def)
    moreover have "searchRoute now t dest ?r = Inr (r, rt')" using 2 assms(2) by (simp add: findBestMatchingRoute_def)
    ultimately have "same_routes ?r rt'" by (rule searchRoute_same)
    moreover have "same_routes rt ?r" by (rule same_routes_cache)
    ultimately show ?thesis using same_routes_trans by blast
  next
    case (3 p)
    have c: "cache_ok now t rt" and i: "ift_ok t" "locals_ok t rt" using assms(1) by (simp_all add: rt_ok_def)
    obtain e where e: "routeHeap rt p = Some e" using cache_okD(1) [OF c 3] by blast
    obtain rt1 where v: "testValidity now t p rt = Inr (valid_route now t rt p, rt1)" and f: "filled t rt rt1"
      using testValidity_spec [OF i e] by blast
    have "rt_ok now t rt1" by (rule rt_ok_filled [OF assms(1) f])
    moreover have "same_routes rt rt1" by (rule filled_same_routes [OF f])
    moreover have "rt' = rt1 \<or> searchRoute now t dest rt1 = Inr (r, rt')"
      using 3 v assms(2) by (auto simp: findBestMatchingRoute_def bindE_eq_Inr split: if_splits)
    ultimately show ?thesis using searchRoute_same same_routes_trans by blast
  qed
qed

section \<open>Queries of the routing table by IP\<close>

definition broadcasts :: "InterfaceTable \<Rightarrow> RoutingTable \<Rightarrow> IPAddress set" where
  "broadcasts t rt =
     (if localBroadcastAddresses rt = {}
      then case collectData t (interfaces t) of Inl _ \<Rightarrow> {}
           | Inr ds \<Rightarrow> set (filter (\<lambda>a. \<not> ip_isUnspecified a) (map (\<lambda>d. getBroadcastAddress (inetAddr d) (if_netmask d)) ds))
      else localBroadcastAddresses rt)"

text \<open>The state of the module after a query.\<close>

definition setRT :: "RoutingTable \<Rightarrow> IPModule \<Rightarrow> IPModule" where
  "setRT r s = s\<lparr>im_node := (im_node s)\<lparr>nrt := r\<rparr>\<rparr>"

lemma setRT_sel [simp]:
  "nrt (im_node (setRT r s)) = r" "nift (im_node (setRT r s)) = nift (im_node s)" "im_out (setRT r s) = im_out s"
  "manetRouting (setRT r s) = manetRouting s" "numForwarded (setRT r s) = numForwarded s" "setRT r (setRT r' s) = setRT r s"
  by (simp_all add: setRT_def)

lemma query_local:
  assumes "rt_ok now (nift (im_node s)) (nrt (im_node s))"
  shows "\<exists>rt'. queryRT (\<lambda>t. isLocalAddress t dest) s = Inr (dest \<in> addrs (nift (im_node s)), setRT rt' s) \<and>
    rt_ok now (nift (im_node s)) rt' \<and> same_routes (nrt (im_node s)) rt'"
proof -
  obtain rt' where "isLocalAddress (nift (im_node s)) dest (nrt (im_node s)) = Inr (dest \<in> addrs (nift (im_node s)), rt')"
    "filled (nift (im_node s)) (nrt (im_node s)) rt'"
    using isLocalAddress_spec [of "nift (im_node s)" "nrt (im_node s)" dest] assms by (auto simp: rt_ok_def)
  then show ?thesis
    using rt_ok_filled [OF assms] filled_same_routes by (auto simp: queryRT_def setRT_def)
qed

lemma query_broadcast:
  assumes "rt_ok now (nift (im_node s)) (nrt (im_node s))"
  shows "\<exists>rt'. queryRT (\<lambda>t. isLocalBroadcastAddress t dest) s = Inr (dest \<in> broadcasts (nift (im_node s)) (nrt (im_node s)), setRT rt' s) \<and>
    rt_ok now (nift (im_node s)) rt' \<and> routeHeap rt' = routeHeap (nrt (im_node s)) \<and> routes rt' = routes (nrt (im_node s)) \<and>
    IPForward rt' = IPForward (nrt (im_node s)) \<and> timetolive_routing_entry rt' = timetolive_routing_entry (nrt (im_node s))"
proof -
  obtain ds where ds: "collectData (nift (im_node s)) (interfaces (nift (im_node s))) = Inr ds"
    using assms by (auto simp: rt_ok_def ift_ok_def)
  show ?thesis
  proof (cases "localBroadcastAddresses (nrt (im_node s)) = {}")
    case True
    then show ?thesis
      using ds rt_ok_broadcast [OF assms] by (auto simp: queryRT_def setRT_def isLocalBroadcastAddress_def broadcasts_def)
  next
    case False
    have "setRT (nrt (im_node s)) s = s" by (simp add: setRT_def)
    then have "queryRT (\<lambda>t. isLocalBroadcastAddress t dest) s =
        Inr (dest \<in> broadcasts (nift (im_node s)) (nrt (im_node s)), setRT (nrt (im_node s)) s)"
      using False by (simp add: queryRT_def isLocalBroadcastAddress_def broadcasts_def)
    then show ?thesis using assms by blast
  qed
qed

lemma query_route:
  assumes "rt_ok now (nift (im_node s)) (nrt (im_node s))" "route_for now (nift (im_node s)) (nrt (im_node s)) dest = Some p"
  shows "\<exists>rt'. queryRT (\<lambda>t. findBestMatchingRoute now t dest) s = Inr (Some p, setRT rt' s) \<and>
    rt_ok now (nift (im_node s)) rt' \<and> same_routes (nrt (im_node s)) rt'"
proof -
  have "\<not> manet_trap now (nift (im_node s)) (nrt (im_node s)) dest"
    using assms(2) by (auto simp: manet_trap_def route_for_def split: option.splits if_splits)
  then obtain rt' where "findBestMatchingRoute now (nift (im_node s)) dest (nrt (im_node s)) = Inr (Some p, rt')"
    "rt_ok now (nift (im_node s)) rt'"
    using findBestMatchingRoute_ok [OF assms(1), of dest] assms(2) by auto
  then show ?thesis using findBest_same [OF assms(1)] by (auto simp: queryRT_def setRT_def)
qed

lemma forward_best:
  assumes "rt_ok now (nift (im_node s)) (nrt (im_node s))" "IPForward (nrt (im_node s))" "\<not> manetRouting s"
    and "route_for now (nift (im_node s)) (nrt (im_node s)) (destAddress h) = Some p"
      "routeHeap (nrt (im_node s)) p = Some r" "r_interface r = Some ie"
    and "derefIf ie (nift (im_node s)) = Inr e" "broadcast e" "ip_byteLength h \<le> mtu e"
    and "destAddress h \<notin> addrs (nift (im_node s))" "destAddress h \<notin> broadcasts (nift (im_node s)) (nrt (im_node s))"
      "destAddress h \<noteq> ALLONES_ADDRESS" "\<not> ip_isMulticast (destAddress h)" "\<not> ip_isUnspecified (srcAddress h)"
    and "2 \<le> timeToLive h" "timeToLive h < 32768" "\<not> bitError h" "ctrl \<noteq> Some True"
      "transportProtocol h \<noteq> IP_PROT_DSR" "transportProtocol h \<noteq> IP_PROT_MANET"
  shows "\<exists>s'. handlePacketFromNetwork now rnd ctrl (h, enc) s = Inr s' \<and>
    im_out s' = im_out s @ [ToQueue (h\<lparr>ctrlAttached := False, timeToLive := timeToLive h - 1\<rparr>, enc) (interfaceId e) (r_gateway r)] \<and>
    numForwarded s' = numForwarded s + 1 \<and> rt_ok now (nift (im_node s')) (nrt (im_node s'))"
proof -
  let ?t = "nift (im_node s)" and ?rt = "nrt (im_node s)" and ?dest = "destAddress h"
  let ?h = "h\<lparr>ctrlAttached := False, timeToLive := timeToLive h - 1\<rparr>"
  have h: "handlePacketFromNetwork now rnd ctrl (h, enc) s = routePacket now (?h, enc) None False None s"
    using assms(13-20) by (simp add: handlePacketFromNetwork_def)
  obtain rt1 where q1: "queryRT (\<lambda>t. isLocalAddress t ?dest) s = Inr (False, setRT rt1 s)" "rt_ok now ?t rt1" "same_routes ?rt rt1"
    using query_local [OF assms(1), of ?dest] assms(10) by auto
  have b1: "broadcasts ?t rt1 = broadcasts ?t ?rt" using same_routes_sel(4) [OF q1(3)] by (simp add: broadcasts_def)
  obtain rt2 where q2: "queryRT (\<lambda>t. isLocalBroadcastAddress t ?dest) (setRT rt1 s) = Inr (False, setRT rt2 s)" "rt_ok now ?t rt2"
    "routeHeap rt2 = routeHeap rt1" "routes rt2 = routes rt1" "IPForward rt2 = IPForward rt1"
    "timetolive_routing_entry rt2 = timetolive_routing_entry rt1"
    using query_broadcast [of now "setRT rt1 s" ?dest] q1(2) b1 assms(11) by auto
  have t1: "timetolive_routing_entry rt1 = timetolive_routing_entry ?rt" using q1(3) by (auto simp: same_routes_def)
  have "route_for now ?t rt2 ?dest = Some p"
    using spec_cong(2) [of rt2 ?rt now ?t ?dest] q2(3,4,6) same_routes_sel [OF q1(3)] t1 assms(4) by simp
  then obtain rt3 where q3: "queryRT (\<lambda>t. findBestMatchingRoute now t ?dest) (setRT rt2 s) = Inr (Some p, setRT rt3 s)"
    "rt_ok now ?t rt3" "same_routes rt2 rt3"
    using query_route [of now "setRT rt2 s" ?dest p] q2(2) by auto
  have r: "routeHeap rt3 p = Some r" using assms(5) q2(3) same_routes_sel(1) [OF q3(3)] same_routes_sel(1) [OF q1(3)] by simp
  have m: "r_source r = MANET \<Longrightarrow> r_host r = ?dest"
    using assms(4,5) by (auto simp: route_for_def is_manet_def for_host_def split: option.splits if_splits)
  have c: "chooseOutput now (?h, enc) None False None (setRT rt2 s) = Inr (Some (Some ie, r_gateway r), setRT rt3 s)"
    using q3(1) r m assms(6) by (auto simp: chooseOutput_def derefRoute_def)
  have f: "forward (?h, enc) (Some ie) (r_gateway r) (setRT rt3 s) =
      Inr (emit (ToQueue (?h, enc) (interfaceId e) (r_gateway r)) ((setRT rt3 s)\<lparr>numForwarded := numForwarded s + 1\<rparr>))"
    using assms(7-9,14,15,20) by (simp add: forward_def fragmentAndSend_def sendDatagramToOutput_def setRT_def)
  have "routePacket now (?h, enc) None False None s =
      Inr (emit (ToQueue (?h, enc) (interfaceId e) (r_gateway r)) ((setRT rt3 s)\<lparr>numForwarded := numForwarded s + 1\<rparr>))"
    using q1(1) q2(1,5) c f assms(2,3,12) same_routes_sel(2) [OF q1(3)]
    by (simp add: routePacket_def controlMessageToManetRouting_def)
  then show ?thesis using h q3(2) by (simp add: emit_def setRT_def)
qed

text \<open>An example: the node of theory \<open>IP_RouteRun\<close>, with forwarding on.\<close>

definition demo_ip :: IPModule where
  "demo_ip = \<lparr> im_node = \<lparr>nift = demo_ift, nrt = demo_rt, inInit = False\<rparr>, defaultTimeToLive = 32, defaultMCTimeToLive = 32,
     fragmentTimeoutTime = 60, mapping = [(17, 0), (254, 1)], isPathOK = (\<lambda>_. True), manetRouting = False,
     curFragmentId = 0, lastCheckTime = 0, fragbuf = [], icmp_ctr = 0, numMulticast = 0, numLocalDeliver = 0,
     numDropped = 0, numUnroutable = 0, numForwarded = 0, im_out = [] \<rparr>"

definition demo_header :: IPHeader where
  "demo_header = (newIPHeader ''data'')\<lparr>srcAddress := 0x0B000001, destAddress := 0x0A010203, timeToLive := 9,
     transportProtocol := IP_PROT_UDP, ip_byteLength := 100\<rparr>"

lemma demo_ip_sel [simp]:
  "nift (im_node demo_ip) = demo_ift" "nrt (im_node demo_ip) = demo_rt" "manetRouting demo_ip = False" "im_out demo_ip = []"
  "numForwarded demo_ip = 0" "numDropped demo_ip = 0" "numLocalDeliver demo_ip = 0"
  by (simp_all add: demo_ip_def)

lemma demo_data:
  "collectData demo_ift (interfaces demo_ift) =
    Inr [\<lparr> inetAddr = 0x0A000001, if_netmask = 0xFF000000, if_metric = 1, multicastGroups = [] \<rparr>,
         \<lparr> inetAddr = 0x0A010001, if_netmask = 0xFFFF0000, if_metric = 1, multicastGroups = [] \<rparr>]"
  unfolding demo_interfaces by (simp add: ipv4Data_def derefIf_def demo_ift_def demo_entry_def)

lemma demo_addrs: "addrs demo_ift = {0x0A000001, 0x0A010001}"
  by (simp add: addrs_def demo_data)

lemma demo_broadcasts: "broadcasts demo_ift demo_rt = {0x0AFFFFFF, 0x0A01FFFF}"
proof -
  have "localBroadcastAddresses demo_rt = {}" by (simp add: demo_rt_def newRoutingTable_def)
  moreover have "getBroadcastAddress 0x0A000001 0xFF000000 = 0x0AFFFFFF" "getBroadcastAddress 0x0A010001 0xFFFF0000 = 0x0A01FFFF"
    by (simp_all add: getBroadcastAddress_def)
  ultimately show ?thesis by (simp add: broadcasts_def demo_data ip_isUnspecified_def)
qed

lemma demo_route: "route_for 0 demo_ift demo_rt 0x0A010203 = Some 1"
proof -
  have "filter (\<lambda>p. valid_route 0 demo_ift demo_rt p \<and> matches demo_rt 0x0A010203 p) (routes demo_rt) = [0, 1]"
    by (simp add: demo_rt_def newRoutingTable_def valid_route_def matches_def maskedAddrAreEqual_def)
  then have "best_match 0 demo_ift demo_rt 0x0A010203 = Some 1"
    by (simp add: best_match_def better_def demo_rt_def)
  then show ?thesis by (simp add: route_for_def is_manet_def demo_rt_def newIPRoute_def)
qed

lemma demo_forward:
  "\<exists>s'. handlePacketFromNetwork 0 0 None (demo_header, None) demo_ip = Inr s' \<and>
    im_out s' = [ToQueue (demo_header\<lparr>ctrlAttached := False, timeToLive := 8\<rparr>, None) 101 0]"
proof -
  have "rt_ok 0 (nift (im_node demo_ip)) (nrt (im_node demo_ip))" using demo_rt_ok by simp
  moreover have "routeHeap (nrt (im_node demo_ip)) 1 = Some (newIPRoute\<lparr>r_host := 0x0A010000, r_netmask := 0xFFFF0000, r_interface := Some 1\<rparr>)"
    "IPForward (nrt (im_node demo_ip))" by (simp_all add: demo_rt_def newRoutingTable_def)
  moreover have "derefIf 1 (nift (im_node demo_ip)) = Inr (demo_entry ''eth1'' 101 0x0A010001 0xFFFF0000)"
    by (simp add: derefIf_def demo_ift_def)
  ultimately show ?thesis
    using forward_best [of 0 demo_ip demo_header 1 _ 1 "demo_entry ''eth1'' 101 0x0A010001 0xFFFF0000" None 0 None]
      demo_route demo_addrs demo_broadcasts
    by (auto simp: demo_header_def newIPHeader_def demo_entry_def ip_isMulticast_def ip_isUnspecified_def ALLONES_ADDRESS_def
        newIPRoute_def IP_PROT_UDP_def IP_PROT_DSR_def IP_PROT_MANET_def)
qed

section \<open>Properties\<close>

text \<open>
  Property C7: a datagram is forwarded along the best route.  On a node that forwards, for a unicast datagram
  that is not for the node itself, whose time to live is at least 2 and whose length is within the MTU,
  \<open>handlePacketFromNetwork\<close> succeeds and sends exactly one thing: the datagram, with its time to live
  decremented, towards the gateway and the interface of the route that is best by longest prefix
  and metric, cached or not.  The routing table keeps its invariant.
\<close>

theorem forward_by_best_route:
  assumes "rt_ok now (nift (im_node s)) (nrt (im_node s))" "IPForward (nrt (im_node s))" "\<not> manetRouting s"
    and "route_for now (nift (im_node s)) (nrt (im_node s)) (destAddress h) = Some p"
      "routeHeap (nrt (im_node s)) p = Some r" "r_interface r = Some ie"
    and "derefIf ie (nift (im_node s)) = Inr e" "broadcast e" "ip_byteLength h \<le> mtu e"
    and "destAddress h \<notin> addrs (nift (im_node s))" "destAddress h \<notin> broadcasts (nift (im_node s)) (nrt (im_node s))"
      "destAddress h \<noteq> ALLONES_ADDRESS" "\<not> ip_isMulticast (destAddress h)" "\<not> ip_isUnspecified (srcAddress h)"
    and "2 \<le> timeToLive h" "timeToLive h < 32768" "\<not> bitError h" "ctrl \<noteq> Some True"
      "transportProtocol h \<noteq> IP_PROT_DSR" "transportProtocol h \<noteq> IP_PROT_MANET"
  shows "\<exists>s'. handlePacketFromNetwork now rnd ctrl (h, enc) s = Inr s' \<and>
    im_out s' = im_out s @ [ToQueue (h\<lparr>ctrlAttached := False, timeToLive := timeToLive h - 1\<rparr>, enc) (interfaceId e) (r_gateway r)] \<and>
    numForwarded s' = numForwarded s + 1 \<and> rt_ok now (nift (im_node s')) (nrt (im_node s'))"
  using assms by (rule forward_best)

theorem forward_by_best_route_witness:
  "\<exists>s'. handlePacketFromNetwork 0 0 None (demo_header, None) demo_ip = Inr s' \<and>
    im_out s' = [ToQueue (demo_header\<lparr>ctrlAttached := False, timeToLive := 8\<rparr>, None) 101 0]"
proof -
  have "rt_ok 0 (nift (im_node demo_ip)) (nrt (im_node demo_ip))" using demo_rt_ok by simp
  moreover have "routeHeap (nrt (im_node demo_ip)) 1 = Some (newIPRoute\<lparr>r_host := 0x0A010000, r_netmask := 0xFFFF0000, r_interface := Some 1\<rparr>)"
    "IPForward (nrt (im_node demo_ip))" by (simp_all add: demo_rt_def newRoutingTable_def)
  moreover have "derefIf 1 (nift (im_node demo_ip)) = Inr (demo_entry ''eth1'' 101 0x0A010001 0xFFFF0000)"
    by (simp add: derefIf_def demo_ift_def)
  ultimately show ?thesis
    using forward_by_best_route [of 0 demo_ip demo_header 1 _ 1 "demo_entry ''eth1'' 101 0x0A010001 0xFFFF0000" None 0 None]
      demo_route demo_addrs demo_broadcasts
    by (auto simp: demo_header_def newIPHeader_def demo_entry_def ip_isMulticast_def ip_isUnspecified_def ALLONES_ADDRESS_def
        newIPRoute_def IP_PROT_UDP_def IP_PROT_DSR_def IP_PROT_MANET_def)
qed

text \<open>
  Property C24: forwarding neither invents nor changes datagrams, and it cannot go on forever.  Whatever IP
  sends towards the network while it handles a datagram from the network is this datagram or a fragment
  of it: same content, destination, identification and protocol, same source unless it had
  none, and a time to live that is positive and one less than that of the arriving datagram.
\<close>

theorem forwarding_decrements_ttl:
  assumes "handlePacketFromNetwork now r ctrl d s = Inr s'"
  shows "\<exists>es. im_out s' = im_out s @ es \<and> list_all (fits ((fst d)\<lparr>timeToLive := c_short (timeToLive (fst d) - 1)\<rparr>, snd d)) es"
proof -
  let ?d = "((fst d)\<lparr>timeToLive := c_short (timeToLive (fst d) - 1)\<rparr>, snd d)"
  have s: "same_datagram ?d ((fst d)\<lparr>ctrlAttached := b, timeToLive := c_short (timeToLive (fst d) - 1)\<rparr>, snd d)" for b
    by (simp add: same_datagram_def)
  have "wpE (handlePacketFromNetwork now r ctrl d s) (emits (fits ?d) s)"
    unfolding handlePacketFromNetwork_def Let_def
    by (auto intro: emits_local icmp_local emits_count(1) reassembleAndDeliver_local
        emits_same_datagram [OF s routePacket_fits] emits_same_datagram [OF s routeMulticastPacket_fits])
  then show ?thesis using assms by (simp add: emits_def)
qed

theorem forwarding_decrements_ttl_witness:
  "\<exists>s' es. handlePacketFromNetwork 0 0 None (demo_header, None) demo_ip = Inr s' \<and> es \<noteq> [] \<and> im_out s' = es \<and>
    list_all (fits (demo_header\<lparr>timeToLive := 8\<rparr>, None)) es"
proof -
  obtain s' where s': "handlePacketFromNetwork 0 0 None (demo_header, None) demo_ip = Inr s'" "im_out s' \<noteq> []"
    using demo_forward by auto
  have "c_short (timeToLive demo_header - 1) = 8" by (simp add: demo_header_def)
  then show ?thesis using forwarding_decrements_ttl [OF s'(1)] s' by auto
qed

text \<open>
  No ICMP error is ever about an ICMP error.  \<open>sendErrorMessage\<close> sends at most one message;
  when it is sent to the network, then the datagram in which IP encapsulates it goes to the source of
  the datagram in error, and asking ICMP for an error about this datagram, or any copy or fragment
  of it on its way, does nothing at all.
\<close>

theorem no_errors_about_errors:
  assumes "sendErrorMessage d t c s = Inr s'"
    and "t \<in> {ICMP_DESTINATION_UNREACHABLE, ICMP_TIME_EXCEEDED, ICMP_PARAMETER_PROBLEM}"
  shows "\<exists>es. im_out s' = im_out s @ es \<and> length es \<le> 1 \<and>
    (\<forall>p ci s1 d1 ie s2. IcmpToIP p ci \<in> set es \<and> encapsulate p ci s1 = Inr (d1, ie, s2) \<longrightarrow>
       destAddress (fst d1) = srcAddress (fst d) \<and>
       (\<forall>d2 t2 c2 s3. same_datagram d1 d2 \<longrightarrow> sendErrorMessage d2 t2 c2 s3 = Inr s3))"
proof -
  obtain no where no: "suppressError d = Inr no" using assms(1) by (cases "suppressError d") (auto simp: sendErrorMessage_def)
  let ?m = "errorMessage d t c (Suc (icmp_ctr s))"
  consider "no" | "\<not> no" "ip_isUnspecified (srcAddress (fst d))" | "\<not> no" "\<not> ip_isUnspecified (srcAddress (fst d))" by blast
  then show ?thesis
  proof cases
    case 1
    then show ?thesis using assms(1) no by (intro exI [of _ "[]"]) (simp add: sendErrorMessage_def)
  next
    case 2
    then have "\<exists>ci. s' = errorOut ?m ci (s\<lparr>icmp_ctr := Suc (icmp_ctr s)\<rparr>)"
      using assms no by (auto simp: sendErrorMessage_def processICMPMessage_def errorMessage_def Let_def)
    then show ?thesis by (auto simp: errorOut_def emit_def)
  next
    case 3
    have s': "s' = icmp_sendToIP_dest ?m (srcAddress (fst d)) (s\<lparr>icmp_ctr := Suc (icmp_ctr s)\<rparr>)"
      using 3 assms(1) no by (auto simp: sendErrorMessage_def Let_def)
    let ?p = "ICMPMessage (fst ?m) (snd ?m)"
    let ?ci = "newIPControlInfo\<lparr>ci_destAddr := srcAddress (fst d), ci_protocol := IP_PROT_ICMP\<rparr>"
    have t: "t < 128" using assms(2) by (auto simp: ip_consts)
    have "destAddress (fst d1) = srcAddress (fst d) \<and> (\<forall>d2 t2 c2 s3. same_datagram d1 d2 \<longrightarrow> sendErrorMessage d2 t2 c2 s3 = Inr s3)"
      if "encapsulate ?p ?ci s1 = Inr (d1, ie, s2)" for s1 d1 ie s2
    proof -
      have d1: "snd d1 = Some ?p" "transportProtocol (fst d1) = IP_PROT_ICMP" "destAddress (fst d1) = srcAddress (fst d)"
        using that by (auto simp: encapsulate_def ip_encapsulate_def newIPControlInfo_def ip_isUnspecified_def)
      have "suppressError d2 = Inr True" if "same_datagram d1 d2" for d2
        using that d1 t by (auto simp: suppressError_def same_datagram_def errorMessage_def)
      then show ?thesis using d1(3) by (auto simp: sendErrorMessage_def)
    qed
    then show ?thesis unfolding s' by (intro exI [of _ "[IcmpToIP ?p ?ci]"]) (auto simp: icmp_sendToIP_dest_def emit_def)
  qed
qed

theorem no_errors_about_errors_witness:
  "\<exists>s' es. sendErrorMessage (demo_header, None) ICMP_TIME_EXCEEDED 0 demo_ip = Inr s' \<and> im_out s' = es \<and> length es \<le> 1"
proof -
  have "\<exists>s'. sendErrorMessage (demo_header, None) ICMP_TIME_EXCEEDED 0 demo_ip = Inr s'"
    by (simp add: sendErrorMessage_def suppressError_def demo_header_def newIPHeader_def ip_isMulticast_def ip_isUnspecified_def
        IP_PROT_UDP_def IP_PROT_ICMP_def Let_def)
  then obtain s' where s': "sendErrorMessage (demo_header, None) ICMP_TIME_EXCEEDED 0 demo_ip = Inr s'" by blast
  then show ?thesis using no_errors_about_errors [OF s'] by auto
qed

text \<open>
  A datagram for the broadcast address of an attached network is lost.  Whether it comes from the
  network or from a higher layer, IP neither delivers it nor sends it, nor counts it as dropped:
  the branch that was added for broadcasts only does something for \<open>255.255.255.255\<close>.
\<close>

theorem network_broadcast_lost:
  assumes "rt_ok now (nift (im_node s)) (nrt (im_node s))" "\<not> manetRouting s"
    and "destAddress (fst d) \<in> broadcasts (nift (im_node s)) (nrt (im_node s))"
      "destAddress (fst d) \<notin> addrs (nift (im_node s))" "destAddress (fst d) \<noteq> ALLONES_ADDRESS"
  shows "\<exists>s'. routePacket now d destIE fromHL nextHop s = Inr s' \<and> im_out s' = im_out s \<and>
    numDropped s' = numDropped s \<and> numLocalDeliver s' = numLocalDeliver s \<and> fragbuf s' = fragbuf s"
proof -
  let ?t = "nift (im_node s)" and ?rt = "nrt (im_node s)" and ?dest = "destAddress (fst d)"
  obtain rt1 where q1: "queryRT (\<lambda>t. isLocalAddress t ?dest) s = Inr (False, setRT rt1 s)" "rt_ok now ?t rt1" "same_routes ?rt rt1"
    using query_local [OF assms(1), of ?dest] assms(4) by auto
  have b1: "broadcasts ?t rt1 = broadcasts ?t ?rt" using same_routes_sel(4) [OF q1(3)] by (simp add: broadcasts_def)
  obtain rt2 where q2: "queryRT (\<lambda>t. isLocalBroadcastAddress t ?dest) (setRT rt1 s) = Inr (True, setRT rt2 s)"
    using query_broadcast [of now "setRT rt1 s" ?dest] q1(2) b1 assms(3) by auto
  have "routePacket now d destIE fromHL nextHop s = Inr (setRT rt2 s)"
    using q1(1) q2 assms(2,5) by (simp add: routePacket_def controlMessageToManetRouting_def routeBroadcast_def)
  then show ?thesis by (simp add: setRT_def)
qed

theorem network_broadcast_lost_witness:
  "\<exists>s'. routePacket 0 (demo_header\<lparr>destAddress := 0x0A01FFFF\<rparr>, None) None False None demo_ip = Inr s' \<and> im_out s' = []"
  using network_broadcast_lost [of 0 demo_ip "(demo_header\<lparr>destAddress := 0x0A01FFFF\<rparr>, None)" None False None]
    demo_rt_ok demo_addrs demo_broadcasts by (auto simp: ALLONES_ADDRESS_def)

end
