(* ===== verification/MAC_Address.thy ===== *)
theory MAC_Address
  imports IP_Address
begin

text \<open>
  IEEE 802 addresses (\<open>linklayer/contract/MACAddress.cc\<close>).  The six octets of an address are the
  octets of a 48-bit word, the first one the most significant.  Printing and parsing are inverse
  to each other, and the generated addresses repeat only after 2^32 calls.
\<close>

unbundle bit_operations_syntax

type_synonym u8 = "8 word"
type_synonym MACAddress = "48 word"

definition MAC_ADDRESS_BYTES :: nat where "MAC_ADDRESS_BYTES = 6"

definition mac_octet :: "nat \<Rightarrow> MACAddress \<Rightarrow> u8" where
  "mac_octet k a = ucast (drop_bit (8 * (5 - k)) a)"

definition mac_octets :: "MACAddress \<Rightarrow> u8 list" where
  "mac_octets a = map (\<lambda>k. mac_octet k a) [0..<6]"

definition addOctet :: "MACAddress \<Rightarrow> u8 \<Rightarrow> MACAddress" where
  "addOctet a b = push_bit 8 a OR ucast b"

definition setAddressBytes :: "u8 list \<Rightarrow> MACAddress" where
  "setAddressBytes bs = foldl addOctet 0 bs"

definition getAddressByte :: "nat \<Rightarrow> MACAddress \<Rightarrow> u8 res" where
  "getAddressByte k a = (if k \<ge> 6 then Inl (RuntimeError ''Array of size 6 indexed'') else Inr (mac_octet k a))"

definition setAddressByte :: "nat \<Rightarrow> u8 \<Rightarrow> MACAddress \<Rightarrow> MACAddress res" where
  "setAddressByte k b a =
     (if k \<ge> 6 then Inl (RuntimeError ''Array of size 6 indexed'') else Inr (setAddressBytes ((mac_octets a)[k := b])))"

definition mac_isBroadcast :: "MACAddress \<Rightarrow> bool" where
  "mac_isBroadcast a \<longleftrightarrow>
     mac_octet 0 a AND mac_octet 1 a AND mac_octet 2 a AND mac_octet 3 a AND mac_octet 4 a AND mac_octet 5 a = 255"

definition mac_isMulticast :: "MACAddress \<Rightarrow> bool" where
  "mac_isMulticast a \<longleftrightarrow> mac_octet 0 a AND 128 \<noteq> 0"

definition mac_isUnspecified :: "MACAddress \<Rightarrow> bool" where
  "mac_isUnspecified a \<longleftrightarrow> \<not> (mac_octet 0 a \<noteq> 0 \<or> mac_octet 1 a \<noteq> 0 \<or> mac_octet 2 a \<noteq> 0 \<or> mac_octet 3 a \<noteq> 0 \<or>
     mac_octet 4 a \<noteq> 0 \<or> mac_octet 5 a \<noteq> 0)"

definition mac_BROADCAST_ADDRESS :: MACAddress where "mac_BROADCAST_ADDRESS = 0xFFFFFFFFFFFF"

section \<open>Text\<close>

definition isxdigit :: "char \<Rightarrow> bool" where
  "isxdigit c \<longleftrightarrow> isDigit c \<or> (65 \<le> (of_char c :: nat) \<and> of_char c \<le> (70 :: nat)) \<or> (97 \<le> (of_char c :: nat) \<and> of_char c \<le> (102 :: nat))"

text \<open>The value of a hexadecimal digit, as \<open>hextobin\<close> computes it for the characters that pass \<open>isxdigit\<close>.\<close>

definition hexDigitValue :: "char \<Rightarrow> u8" where
  "hexDigitValue c =
     (if isDigit c then of_nat (of_char c - 48)
      else if 97 \<le> (of_char c :: nat) \<and> of_char c \<le> (122 :: nat) then of_nat (of_char c - 97) + 10
      else of_nat (of_char c - 65) + 10)"

text \<open>The number of octets converted, and the octets.\<close>

fun hextobin :: "string \<Rightarrow> nat \<Rightarrow> nat \<times> u8 list" where
  "hextobin s 0 = (0, [])"
| "hextobin s (Suc n) =
     (case dropWhile (\<lambda>c. \<not> isxdigit c) s of
        [] \<Rightarrow> (let (k, bs) = hextobin [] n in (k, 0 # bs))
      | c # s \<Rightarrow>
          (case dropWhile (\<lambda>c. \<not> isxdigit c) s of
             [] \<Rightarrow> (let (k, bs) = hextobin [] n in (k, 0 # bs))
           | c' # s \<Rightarrow> (let (k, bs) = hextobin s n
                       in (Suc k, (push_bit 4 (hexDigitValue c) + hexDigitValue c') # bs))))"

fun checkSyntax :: "nat \<Rightarrow> string \<Rightarrow> nat option" where
  "checkSyntax numHexDigits [] = Some numHexDigits"
| "checkSyntax numHexDigits (c # s) =
     (if isxdigit c then checkSyntax (Suc numHexDigits) s
      else if c \<noteq> CHR '' '' \<and> c \<noteq> CHR '':'' \<and> c \<noteq> CHR ''-'' then None
      else checkSyntax numHexDigits s)"

definition mac_tryParse :: "string \<Rightarrow> MACAddress \<Rightarrow> bool \<times> MACAddress" where
  "mac_tryParse hexstr a =
     (if checkSyntax 0 hexstr \<noteq> Some (2 * MAC_ADDRESS_BYTES) then (False, a)
      else (True, setAddressBytes (snd (hextobin hexstr MAC_ADDRESS_BYTES))))"

definition mac_setAddress :: "string \<Rightarrow> MACAddress \<Rightarrow> MACAddress res" where
  "mac_setAddress hexstr a =
     (let (ok, a') = mac_tryParse hexstr a
      in if ok then Inr a' else Inl (RuntimeError ''MACAddress: wrong address syntax''))"

text \<open>\<open>%2.2X-\<close> for every octet; the last hyphen is overwritten.\<close>

definition hexDigit :: "u8 \<Rightarrow> char" where
  "hexDigit n = (if n < 10 then char_of (48 + unat n) else char_of (55 + unat n))"

definition showHex :: "u8 \<Rightarrow> string" where
  "showHex b = [hexDigit (drop_bit 4 b), hexDigit (b AND 15)]"

definition mac_str :: "MACAddress \<Rightarrow> string" where
  "mac_str a = butlast (concat (map (\<lambda>b. showHex b @ ''-'') (mac_octets a)))"

section \<open>Comparison, interface identifiers, automatic addresses\<close>

text \<open>\<open>memcmp\<close> compares the octets from the first one on, which is the order of the words.\<close>

fun memcmp :: "u8 list \<Rightarrow> u8 list \<Rightarrow> int" where
  "memcmp (a # as) (b # bs) = (if a = b then memcmp as bs else if a < b then - 1 else 1)"
| "memcmp _ _ = 0"

definition mac_equals :: "MACAddress \<Rightarrow> MACAddress \<Rightarrow> bool" where
  "mac_equals a b \<longleftrightarrow> memcmp (mac_octets a) (mac_octets b) = 0"

definition mac_compareTo :: "MACAddress \<Rightarrow> MACAddress \<Rightarrow> int" where
  "mac_compareTo a b = memcmp (mac_octets a) (mac_octets b)"

text \<open>The low and the high word of the token.\<close>

definition formInterfaceIdentifier :: "MACAddress \<Rightarrow> u32 \<times> u32" where
  "formInterfaceIdentifier a =
     (let b = (\<lambda>k. ucast (mac_octet k a))
      in (push_bit 24 0xFE OR push_bit 16 (b 3) OR push_bit 8 (b 4) OR b 5,
          push_bit 24 (b 0) OR push_bit 16 (b 1) OR push_bit 8 (b 2) OR 0xFF))"

definition generateAutoAddress :: "u32 \<Rightarrow> MACAddress \<times> u32" where
  "generateAutoAddress autoAddressCtr =
     (let ctr = autoAddressCtr + 1
      in (setAddressBytes [0x0A, 0xAA, ucast (drop_bit 24 ctr AND 255), ucast (drop_bit 16 ctr AND 255),
            ucast (drop_bit 8 ctr AND 255), ucast (ctr AND 255)], ctr))"

section \<open>Octets and words\<close>

lemma bit_addOctet: "bit (addOctet a b) n \<longleftrightarrow> n < 48 \<and> (if n < 8 then bit b n else bit a (n - 8))"
  by (auto simp: addOctet_def bit_simps dest: bit_imp_le_length)

lemma bit_mac_octet: "bit (mac_octet k a) n \<longleftrightarrow> n < 8 \<and> bit a (8 * (5 - k) + n)"
  by (auto simp: mac_octet_def bit_simps add.commute)

lemma mac_octets_list:
  "mac_octets a = [mac_octet 0 a, mac_octet 1 a, mac_octet 2 a, mac_octet 3 a, mac_octet 4 a, mac_octet 5 a]"
  by (simp add: mac_octets_def upt_conv_Cons numeral_eq_Suc)

lemma setAddressBytes_list:
  "setAddressBytes [a, b, c, d, e, f] = addOctet (addOctet (addOctet (addOctet (addOctet (addOctet 0 a) b) c) d) e) f"
  by (simp add: setAddressBytes_def)

lemma setAddressBytes_octets: "setAddressBytes (mac_octets a) = a"
proof (rule bit_word_eqI)
  fix n assume "n < LENGTH(48)"
  then show "bit (setAddressBytes (mac_octets a)) n = bit a n"
    by (simp add: mac_octets_list setAddressBytes_list bit_addOctet bit_mac_octet, linarith?)
qed

lemma octets_setAddressBytes: "mac_octets (setAddressBytes [a, b, c, d, e, f]) = [a, b, c, d, e, f]"
  by (simp add: mac_octets_list, intro conjI; rule bit_word_eqI; simp add: setAddressBytes_list bit_addOctet bit_mac_octet)

section \<open>Printing and parsing\<close>

lemma hexDigit_char:
  assumes "k < 16"
  shows "hexDigit (of_nat k) = char_of (if k < 10 then 48 + k else 55 + k)"
proof -
  have "unat (of_nat k :: u8) = k" using assms by (simp add: unat_of_nat)
  then show ?thesis by (simp add: hexDigit_def word_less_nat_alt)
qed

lemma hexDigit_nat:
  assumes "k < 16"
  shows "isxdigit (hexDigit (of_nat k)) \<and> hexDigitValue (hexDigit (of_nat k)) = of_nat k"
proof (cases "k < 10")
  case True
  then show ?thesis using assms by (simp add: hexDigit_char isxdigit_def isDigit_def hexDigitValue_def)
next
  case False
  then obtain j where j: "k = 10 + j" by (metis le_iff_add not_less)
  then have "hexDigit (of_nat k) = char_of (65 + j)" using hexDigit_char [OF assms] by simp
  then show ?thesis using assms j by (simp add: isxdigit_def isDigit_def hexDigitValue_def)
qed

lemma hexDigit:
  assumes "n < (16 :: u8)"
  shows "isxdigit (hexDigit n)" "hexDigitValue (hexDigit n) = n"
proof -
  have "unat n < 16" using assms by (simp add: word_less_nat_alt)
  then show "isxdigit (hexDigit n)" "hexDigitValue (hexDigit n) = n"
    using hexDigit_nat [of "unat n"] by simp_all
qed

lemma nibbles:
  fixes b :: u8
  shows "drop_bit 4 b < 16" "b AND 15 < 16" "push_bit 4 (drop_bit 4 b) + (b AND 15) = b"
proof -
  have "unat (drop_bit 4 b) < 16"
    using unsigned_less [of b, where ?'a = nat] unat_drop_bit_eq [of 4 b] by (simp add: drop_bit_eq_div unat_div)
  then show "drop_bit 4 b < 16" by (simp add: word_less_nat_alt)
  have m: "b AND 15 = take_bit 4 b" by (simp add: take_bit_eq_mask mask_eq_exp_minus_1)
  have "unat (take_bit 4 b) < 16" by (simp add: take_bit_eq_mod unat_mod)
  then show "b AND 15 < 16" by (simp add: m word_less_nat_alt)
  show "push_bit 4 (drop_bit 4 b) + (b AND 15) = b"
    unfolding m using bits_ident [of 4 b] by simp
qed

lemma hextobin_showHex: "hextobin (showHex b @ s) (Suc n) = (let (k, bs) = hextobin s n in (Suc k, b # bs))"
  using nibbles [of b] by (simp add: showHex_def hexDigit split: prod.split)

lemma hyphen: "\<not> isxdigit (CHR ''-'')"
  by (simp add: isxdigit_def isDigit_def)

lemma hextobin_hyphen: "hextobin (CHR ''-'' # s) (Suc n) = hextobin s (Suc n)"
  by (simp add: hyphen)

lemma checkSyntax_showHex: "checkSyntax n (showHex b @ s) = checkSyntax (Suc (Suc n)) s"
  using nibbles [of b] by (simp add: showHex_def hexDigit)

lemma checkSyntax_hyphen: "checkSyntax n (CHR ''-'' # s) = checkSyntax n s"
  by (simp add: hyphen)

lemma mac_str_list:
  "mac_str a = showHex (mac_octet 0 a) @ CHR ''-'' # showHex (mac_octet 1 a) @ CHR ''-'' # showHex (mac_octet 2 a) @ CHR ''-'' #
     showHex (mac_octet 3 a) @ CHR ''-'' # showHex (mac_octet 4 a) @ CHR ''-'' # showHex (mac_octet 5 a) @ []"
  by (simp add: mac_str_def mac_octets_list butlast_append showHex_def)


lemma mac_parse_str: "mac_tryParse (mac_str a) b = (True, a)"
proof -
  have "hextobin (mac_str a) (Suc (Suc (Suc (Suc (Suc (Suc 0)))))) = (6, mac_octets a)"
    by (simp only: mac_str_list hextobin_showHex hextobin_hyphen mac_octets_list) (simp only: hextobin.simps(1), simp)
  moreover have "checkSyntax 0 (mac_str a) = Some 12"
    by (simp only: mac_str_list checkSyntax_showHex checkSyntax_hyphen) simp
  ultimately show ?thesis
    by (simp add: mac_tryParse_def MAC_ADDRESS_BYTES_def numeral_eq_Suc setAddressBytes_octets)
qed

section \<open>Equality and automatic addresses\<close>

lemma memcmp_eq_0: "length as = length bs \<Longrightarrow> memcmp as bs = 0 \<longleftrightarrow> as = bs"
  by (induction as bs rule: memcmp.induct) auto

lemma mac_equals_iff: "mac_equals a b \<longleftrightarrow> a = b"
proof -
  have "mac_equals a b \<longleftrightarrow> mac_octets a = mac_octets b"
    unfolding mac_equals_def by (rule memcmp_eq_0) (simp add: mac_octets_list)
  then show ?thesis using setAddressBytes_octets by metis
qed

lemma autoAddress_inject:
  assumes "fst (generateAutoAddress c) = fst (generateAutoAddress d)"
  shows "c = d"
proof -
  have o: "drop_bit k (c + 1) AND 255 = drop_bit k (d + 1) AND 255" if "k \<in> {24, 16, 8, 0}" for k
  proof -
    have "ucast (drop_bit k (c + 1) AND 255) = (ucast (drop_bit k (d + 1) AND 255) :: u8)"
      using arg_cong [OF assms, of mac_octets] that
      by (auto simp: generateAutoAddress_def Let_def octets_setAddressBytes)
    then show ?thesis
    proof (intro bit_word_eqI)
      fix n assume e: "ucast (drop_bit k (c + 1) AND 255) = (ucast (drop_bit k (d + 1) AND 255) :: u8)"
      have "bit (255 :: u32) n \<longleftrightarrow> n < 8" using bit_mask_iff [of 8 n, where ?'a = u32] by (simp add: mask_eq_exp_minus_1) linarith?
      then show "bit (drop_bit k (c + 1) AND 255) n = bit (drop_bit k (d + 1) AND 255) n"
        using arg_cong [OF e, of "\<lambda>x. bit x n"] by (auto simp: bit_simps)
    qed
  qed
  have "c + 1 = d + 1"
  proof (rule bit_word_eqI)
    fix n assume n: "n < LENGTH(32)"
    define k where "k = 8 * (n div 8)"
    have k: "k \<in> {24, 16, 8, 0}" "n = k + n mod 8" using n unfolding k_def by auto
    have "bit (255 :: u32) (n mod 8)" using bit_mask_iff [of 8 "n mod 8", where ?'a = u32] by (simp add: mask_eq_exp_minus_1)
    then show "bit (c + 1) n = bit (d + 1) n"
      using arg_cong [OF o [OF k(1)], of "\<lambda>x. bit x (n mod 8)"] k(2) by (simp add: bit_simps)
  qed
  then show ?thesis by simp
qed

section \<open>Properties\<close>

text \<open>
  Addresses survive printing and parsing.  The text of every IPv4 address, the special
  form of the unspecified address included, is well-formed and reads back as the same 32-bit word; the
  text of every MAC address is accepted and reads back as the same six octets, whatever the object held before.
\<close>

theorem address_text_roundtrip:
  "ip_isWellFormed (ip_str a) \<and> ip_setText (ip_str a) = Inr a \<and> mac_setAddress (mac_str m) m' = Inr m"
  by (simp add: ip_text_roundtrip mac_setAddress_def mac_parse_str)

end
