(* ===== verification/ARP_Module.thy ===== *)
theory ARP_Module
  imports MAC_Address IP_Module
begin

text \<open>
  Address resolution (\<open>networklayer/arp/ARP.cc\<close>).  The cache maps addresses to entry objects that
  live on a heap; a timer is a scheduled message whose context pointer is such an entry.  What the
  module sends, and the packets it gives up and deletes, are collected in \<open>arp_out\<close>.
\<close>

section \<open>State\<close>

definition ARP_HEADER_BYTES :: int where "ARP_HEADER_BYTES = 28"
definition ARP_REQUEST :: int where "ARP_REQUEST = 1"
definition ARP_REPLY :: int where "ARP_REPLY = 2"
definition ARP_RARP_REQUEST :: int where "ARP_RARP_REQUEST = 3"
definition ARP_RARP_REPLY :: int where "ARP_RARP_REPLY = 4"

lemmas arp_consts = ARP_HEADER_BYTES_def ARP_REQUEST_def ARP_REPLY_def ARP_RARP_REQUEST_def ARP_RARP_REPLY_def

record ARPPacket =
  arp_name :: string
  arp_byteLength :: int
  opcode :: int
  srcMACAddress :: MACAddress
  destMACAddress :: MACAddress
  srcIPAddress :: IPAddress
  destIPAddress :: IPAddress

text \<open>A packet of IP is a message object: a pointer, and the datagram it points to.\<close>

type_synonym MsgPtr = "nat \<times> Datagram"

record ARPCacheEntry =
  entry_ie :: "nat option"
  pending :: bool
  macAddress :: MACAddress
  lastUpdate :: simtime
  numRetries :: int
  entry_timer :: "nat option"
  pendingPackets :: "MsgPtr list"
  myIter :: IPAddress

definition newARPCacheEntry :: ARPCacheEntry where
  "newARPCacheEntry = \<lparr> entry_ie = None, pending = False, macAddress = 0, lastUpdate = 0, numRetries = 0,
     entry_timer = None, pendingPackets = [], myIter = 0 \<rparr>"

datatype ArpFrame = DataFrame MsgPtr | ArpFrame ARPPacket

text \<open>\<open>ToNic\<close>: a frame for the interface behind a gate, with its destination, if there is any.\<close>

datatype ArpOut = ToNic int ArpFrame "MACAddress option" | Deleted MsgPtr

record ARP =
  arp_node :: IPNode
  retryTimeout :: simtime
  retryCount :: int
  cacheTimeout :: simtime
  doProxyARP :: bool
  globalARP :: bool
  numResolutions :: int
  numFailedResolutions :: int
  numRequestsSent :: int
  numRepliesSent :: int
  arpCache :: "IPAddress \<rightharpoonup> nat"
  globalArpCache :: "IPAddress \<rightharpoonup> ARPCacheEntry"
  pendingQueue :: "MsgPtr list"
  arpHeap :: "nat \<rightharpoonup> ARPCacheEntry"
  arpNextEntry :: nat
  arpTimers :: "nat \<rightharpoonup> nat \<times> simtime"
  arpNextTimer :: nat
  arp_out :: "ArpOut list"

definition arp_emit :: "ArpOut \<Rightarrow> ARP \<Rightarrow> ARP" where
  "arp_emit x s = s\<lparr>arp_out := arp_out s @ [x]\<rparr>"

definition derefEntry :: "nat \<Rightarrow> ARP \<Rightarrow> ARPCacheEntry res" where
  "derefEntry p s = (case arpHeap s p of None \<Rightarrow> Inl NullPointer | Some e \<Rightarrow> Inr e)"

definition updEntry :: "nat \<Rightarrow> ARPCacheEntry \<Rightarrow> ARP \<Rightarrow> ARP" where
  "updEntry p e s = s\<lparr>arpHeap := (arpHeap s)(p \<mapsto> e)\<rparr>"

text \<open>\<open>new ARPCacheEntry()\<close> and its insertion into the cache under an address.\<close>

definition insertEntry :: "IPAddress \<Rightarrow> ARPCacheEntry \<Rightarrow> ARP \<Rightarrow> nat \<times> ARP" where
  "insertEntry a e s =
     (let p = arpNextEntry s
      in (p, s\<lparr>arpHeap := (arpHeap s)(p \<mapsto> e\<lparr>myIter := a\<rparr>), arpNextEntry := Suc p, arpCache := (arpCache s)(a \<mapsto> p)\<rparr>))"

section \<open>Sending\<close>

definition sendPacketToNIC :: "ArpFrame \<Rightarrow> nat \<Rightarrow> MACAddress \<Rightarrow> ARP \<Rightarrow> ARP res" where
  "sendPacketToNIC msg ie mac s =
     bindE (derefIf ie (nift (arp_node s))) (\<lambda>e. Inr (arp_emit (ToNic (nwLayerGateIndex e) msg (Some mac)) s))"

definition sendARPRequest :: "nat \<Rightarrow> IPAddress \<Rightarrow> ARP \<Rightarrow> ARP res" where
  "sendARPRequest ie ipAddress s =
     bindE (derefIf ie (nift (arp_node s))) (\<lambda>e.
     bindE (ipv4Data ie (nift (arp_node s))) (\<lambda>d.
     bindE (assertE ''!myMACAddress.isUnspecified()'' (\<not> mac_isUnspecified (macAddr e)) s) (\<lambda>s.
     bindE (assertE ''!myIPAddress.isUnspecified()'' (\<not> ip_isUnspecified (inetAddr d)) s) (\<lambda>s.
     let arp = \<lparr> arp_name = ''arpREQ'', arp_byteLength = ARP_HEADER_BYTES, opcode = ARP_REQUEST, srcMACAddress = macAddr e,
                 destMACAddress = 0, srcIPAddress = inetAddr d, destIPAddress = ipAddress \<rparr>
     in bindE (sendPacketToNIC (ArpFrame arp) ie mac_BROADCAST_ADDRESS s) (\<lambda>s.
        Inr (s\<lparr>numRequestsSent := numRequestsSent s + 1\<rparr>))))))"

text \<open>Scheduling a new message whose context pointer is the entry.\<close>

definition scheduleTimer :: "simtime \<Rightarrow> nat \<Rightarrow> ARP \<Rightarrow> nat \<times> ARP" where
  "scheduleTimer t p s =
     (let tm = arpNextTimer s in (tm, s\<lparr>arpTimers := (arpTimers s)(tm \<mapsto> (p, t)), arpNextTimer := Suc tm\<rparr>))"

definition requestOn :: "nat option \<Rightarrow> IPAddress \<Rightarrow> ARP \<Rightarrow> ARP res" where
  "requestOn ie a s = (case ie of None \<Rightarrow> Inl NullPointer | Some ie \<Rightarrow> sendARPRequest ie a s)"

definition initiateARPResolution :: "simtime \<Rightarrow> nat \<Rightarrow> ARP \<Rightarrow> ARP res" where
  "initiateARPResolution now p s =
     bindE (derefEntry p s) (\<lambda>e.
     let e = e\<lparr>pending := True, numRetries := 0, lastUpdate := 0\<rparr>
     in bindE (requestOn (entry_ie e) (myIter e) (updEntry p e s)) (\<lambda>s.
        let (tm, s) = scheduleTimer (now + retryTimeout s) p s;
            s = updEntry p (e\<lparr>entry_timer := Some tm\<rparr>) s
        in Inr (s\<lparr>numResolutions := numResolutions s + 1\<rparr>)))"

text \<open>Queueing a packet with an entry.\<close>

definition queuePacket :: "MsgPtr \<Rightarrow> nat \<Rightarrow> ARP \<Rightarrow> ARP res" where
  "queuePacket msg p s =
     bindE (derefEntry p s) (\<lambda>e.
     let s = updEntry p (e\<lparr>pendingPackets := pendingPackets e @ [msg]\<rparr>) s
     in Inr (s\<lparr>pendingQueue := pendingQueue s @ [msg]\<rparr>))"

section \<open>Packets from IP\<close>

text \<open>The lookup in the cache, for the address and the interface that have been determined.\<close>

definition resolve :: "simtime \<Rightarrow> MsgPtr \<Rightarrow> nat \<Rightarrow> IPAddress \<Rightarrow> ARP \<Rightarrow> ARP res" where
  "resolve now msg ie nextHopAddr s =
     (case arpCache s nextHopAddr of
        None \<Rightarrow>
          let (p, s) = insertEntry nextHopAddr (newARPCacheEntry\<lparr>entry_ie := Some ie\<rparr>) s
          in bindE (initiateARPResolution now p s) (queuePacket msg p)
      | Some p \<Rightarrow>
          bindE (derefEntry p s) (\<lambda>e.
          if pending e then queuePacket msg p s
          else if lastUpdate e + cacheTimeout s < now
          then bindE (initiateARPResolution now p (updEntry p (e\<lparr>entry_ie := Some ie\<rparr>) s)) (queuePacket msg p)
          else sendPacketToNIC (DataFrame msg) ie (macAddress e) s))"

definition processOutboundPacket :: "simtime \<Rightarrow> MsgPtr \<Rightarrow> int \<Rightarrow> IPAddress \<Rightarrow> ARP \<Rightarrow> ARP res" where
  "processOutboundPacket now msg ifid nextHop s =
     (case getInterfaceById ifid (nift (arp_node s)) of
        None \<Rightarrow> Inl NullPointer
      | Some ie \<Rightarrow>
          bindE (derefIf ie (nift (arp_node s))) (\<lambda>e.
          if \<not> broadcast e then Inr (arp_emit (ToNic (nwLayerGateIndex e) (DataFrame msg) None) s)
          else
            let nextHopAddr = (if ip_isUnspecified nextHop then destAddress (fst (snd msg)) else nextHop)
            in bindE (if ip_isMulticast nextHopAddr \<or> nextHopAddr = ALLONES_ADDRESS then Inr True
                      else bindE (ipv4Data ie (nift (arp_node s))) (\<lambda>d.
                        Inr (nextHopAddr = getBroadcastAddress (inetAddr d) (if_netmask d)))) (\<lambda>toAll.
               if toAll then sendPacketToNIC (DataFrame msg) ie mac_BROADCAST_ADDRESS s
               else if globalARP s
               then case globalArpCache s nextHopAddr of
                      None \<Rightarrow> Inl (RuntimeError ''Addres not found in global'')
                    | Some e \<Rightarrow> sendPacketToNIC (DataFrame msg) ie (macAddress e) s
               else resolve now msg ie nextHopAddr s)))"

section \<open>Timeouts\<close>

text \<open>Deleting the packets that wait for an entry, the first one first.\<close>

fun dropPackets :: "MsgPtr list \<Rightarrow> ARP \<Rightarrow> ARP" where
  "dropPackets [] s = s"
| "dropPackets (msg # ms) s = dropPackets ms (arp_emit (Deleted msg) (s\<lparr>pendingQueue := remove1 msg (pendingQueue s)\<rparr>))"

text \<open>The timer message has been taken from the schedule when it is handled.\<close>

definition requestTimedOut :: "simtime \<Rightarrow> nat \<Rightarrow> nat \<Rightarrow> ARP \<Rightarrow> ARP res" where
  "requestTimedOut now tm p s =
     bindE (derefEntry p s) (\<lambda>e.
     let e = e\<lparr>numRetries := numRetries e + 1\<rparr>; s = updEntry p e s
     in if numRetries e < retryCount s
        then bindE (requestOn (entry_ie e) (myIter e) s) (\<lambda>s.
             Inr (s\<lparr>arpTimers := (arpTimers s)(tm \<mapsto> (p, now + retryTimeout s))\<rparr>))
        else let s = dropPackets (pendingPackets e) s
             in Inr (s\<lparr>arpCache := (arpCache s)(myIter e := None), arpHeap := (arpHeap s)(p := None),
                      numFailedResolutions := numFailedResolutions s + 1\<rparr>))"

section \<open>ARP packets\<close>

definition addressRecognized :: "simtime \<Rightarrow> IPAddress \<Rightarrow> nat option \<Rightarrow> ARP \<Rightarrow> (bool \<times> ARP) res" where
  "addressRecognized now destAddr ie s =
     bindE (isLocalAddress (nift (arp_node s)) destAddr (nrt (arp_node s))) (\<lambda>(l, r).
     let s = s\<lparr>arp_node := (arp_node s)\<lparr>nrt := r\<rparr>\<rparr>
     in if l then Inr (True, s)
        else if \<not> doProxyARP s then Inr (False, s)
        else bindE (getInterfaceForDestAddr now (nift (arp_node s)) destAddr (nrt (arp_node s))) (\<lambda>(rtie, r).
          Inr (rtie \<noteq> None \<and> rtie \<noteq> ie, s\<lparr>arp_node := (arp_node s)\<lparr>nrt := r\<rparr>\<rparr>)))"

text \<open>Sending the packets that wait for an entry, the first one first.\<close>

fun sendPackets :: "MsgPtr list \<Rightarrow> nat option \<Rightarrow> MACAddress \<Rightarrow> ARP \<Rightarrow> ARP res" where
  "sendPackets [] ie mac s = Inr s"
| "sendPackets (msg # ms) ie mac s =
     (case ie of None \<Rightarrow> Inl NullPointer
      | Some i \<Rightarrow> bindE (sendPacketToNIC (DataFrame msg) i mac (s\<lparr>pendingQueue := remove1 msg (pendingQueue s)\<rparr>)) (sendPackets ms ie mac))"

definition cancelTimer :: "nat option \<Rightarrow> ARP \<Rightarrow> ARP res" where
  "cancelTimer tm s = (case tm of None \<Rightarrow> Inl NullPointer | Some tm \<Rightarrow> Inr (s\<lparr>arpTimers := (arpTimers s)(tm := None)\<rparr>))"

definition updateARPCache :: "simtime \<Rightarrow> nat \<Rightarrow> MACAddress \<Rightarrow> ARP \<Rightarrow> ARP res" where
  "updateARPCache now p mac s =
     bindE (derefEntry p s) (\<lambda>e.
     bindE (if pending e then cancelTimer (entry_timer e) s else Inr s) (\<lambda>s.
     let e' = (if pending e then e\<lparr>pending := False, entry_timer := None, numRetries := 0\<rparr> else e);
         s = updEntry p (e'\<lparr>macAddress := mac, lastUpdate := now, pendingPackets := []\<rparr>) s
     in sendPackets (pendingPackets e) (entry_ie e) mac s))"

definition replyTo :: "ARPPacket \<Rightarrow> nat option \<Rightarrow> ARP \<Rightarrow> ARP res" where
  "replyTo arp ie s =
     (if opcode arp = ARP_REQUEST
      then case ie of None \<Rightarrow> Inl NullPointer
           | Some i \<Rightarrow>
               bindE (derefIf i (nift (arp_node s))) (\<lambda>e.
               bindE (ipv4Data i (nift (arp_node s))) (\<lambda>_.
               let reply = arp\<lparr>arp_name := ''arpREPLY'', destIPAddress := srcIPAddress arp, destMACAddress := srcMACAddress arp,
                              srcIPAddress := destIPAddress arp, srcMACAddress := macAddr e, opcode := ARP_REPLY\<rparr>
               in bindE (sendPacketToNIC (ArpFrame reply) i (srcMACAddress arp) s) (\<lambda>s.
                  Inr (s\<lparr>numRepliesSent := numRepliesSent s + 1\<rparr>))))
      else if opcode arp = ARP_REPLY then Inr s
      else if opcode arp = ARP_RARP_REQUEST then Inl (RuntimeError ''RARP request received: RARP is not supported'')
      else if opcode arp = ARP_RARP_REPLY then Inl (RuntimeError ''RARP reply received: RARP is not supported'')
      else Inl (RuntimeError ''Unsupported opcode in received ARP packet''))"

definition processARPPacket :: "simtime \<Rightarrow> ARPPacket \<Rightarrow> int \<Rightarrow> ARP \<Rightarrow> ARP res" where
  "processARPPacket now arp ifid s =
     (let ie = getInterfaceById ifid (nift (arp_node s));
          src = srcIPAddress arp; mac = srcMACAddress arp
      in if mac_isUnspecified mac then Inl (RuntimeError ''wrong ARP packet: source MAC address is empty'')
         else if ip_isUnspecified src then Inl (RuntimeError ''wrong ARP packet: source IP address is empty'')
         else
           let known = arpCache s src
           in bindE (case known of None \<Rightarrow> Inr s | Some p \<Rightarrow> updateARPCache now p mac s) (\<lambda>s.
              bindE (addressRecognized now (destIPAddress arp) ie s) (\<lambda>(recognized, s).
              if recognized
              then bindE (if known = None
                          then let (p, s) = insertEntry src (newARPCacheEntry\<lparr>entry_ie := ie\<rparr>) s in updateARPCache now p mac s
                          else Inr s) (replyTo arp ie)
              else Inr s)))"

section \<open>Entry point and initialization\<close>

text \<open>\<open>ArpTimer\<close>: the scheduled message \<open>tm\<close> is due; it is taken from the schedule first.\<close>

datatype ArpIn =
    ArpTimer nat
  | ArpArrived ARPPacket int
  | ArpOutbound MsgPtr int IPAddress

fun arp_handleMessage :: "simtime \<Rightarrow> ArpIn \<Rightarrow> ARP \<Rightarrow> ARP res" where
  "arp_handleMessage now (ArpTimer tm) s =
     (case arpTimers s tm of
        None \<Rightarrow> Inl (RuntimeError ''no such message'')
      | Some (p, t) \<Rightarrow> requestTimedOut now tm p (s\<lparr>arpTimers := (arpTimers s)(tm := None)\<rparr>))"
| "arp_handleMessage now (ArpArrived arp ifid) s = processARPPacket now arp ifid s"
| "arp_handleMessage now (ArpOutbound msg ifid nextHop) s = processOutboundPacket now msg ifid nextHop s"

text \<open>The loop of \<open>initialize\<close>: the interfaces of the host enter the cache that all hosts share.\<close>

fun registerInterfaces :: "InterfaceTable \<Rightarrow> nat list \<Rightarrow> (IPAddress \<rightharpoonup> ARPCacheEntry) \<Rightarrow> (IPAddress \<rightharpoonup> ARPCacheEntry) res" where
  "registerInterfaces t [] g = Inr g"
| "registerInterfaces t (p # ps) g =
     bindE (derefIf p t) (\<lambda>ie.
     if loopback ie then registerInterfaces t ps g
     else bindE (ipv4Data p t) (\<lambda>d.
       let a = inetAddr d; e = newARPCacheEntry\<lparr>entry_ie := Some p, macAddress := macAddr ie, myIter := a\<rparr>
       in registerInterfaces t ps (if g a = None then g(a \<mapsto> e) else g)))"

definition arp_initialize :: "IPNode \<Rightarrow> simtime \<Rightarrow> int \<Rightarrow> simtime \<Rightarrow> bool \<Rightarrow> bool \<Rightarrow> (IPAddress \<rightharpoonup> ARPCacheEntry) \<Rightarrow> ARP res" where
  "arp_initialize node retryTo retries cacheTo proxy glob g =
     bindE (registerInterfaces (nift node) (interfaces (nift node)) g) (\<lambda>g.
     Inr \<lparr> arp_node = node, retryTimeout = retryTo, retryCount = retries, cacheTimeout = cacheTo, doProxyARP = proxy,
           globalARP = glob, numResolutions = 0, numFailedResolutions = 0, numRequestsSent = 0, numRepliesSent = 0,
           arpCache = (\<lambda>_. None), globalArpCache = g, pendingQueue = [], arpHeap = (\<lambda>_. None), arpNextEntry = 0,
           arpTimers = (\<lambda>_. None), arpNextTimer = 0, arp_out = [] \<rparr>)"

end
