(* ===== verification/ARP_Safety.thy ===== *)
theory ARP_Safety
  imports ARP_Module IP_Safety
begin

text \<open>
  Correctness of address resolution: in every reachable state cache, entries, timers and the queue
  of waiting packets fit together, no packet is lost or sent twice, and a resolution ends.
\<close>

section \<open>What the operations do\<close>

text \<open>An interface that can send ARP requests.\<close>

definition nic_ok :: "InterfaceTable \<Rightarrow> nat \<Rightarrow> bool" where
  "nic_ok t i \<longleftrightarrow>
     (case (derefIf i t, ipv4Data i t) of
        (Inr e, Inr d) \<Rightarrow> \<not> mac_isUnspecified (macAddr e) \<and> \<not> ip_isUnspecified (inetAddr d)
      | _ \<Rightarrow> False)"

definition nic :: "InterfaceTable \<Rightarrow> nat \<Rightarrow> InterfaceEntry" where
  "nic t i = (case derefIf i t of Inr e \<Rightarrow> e | Inl _ \<Rightarrow> newInterfaceEntry)"

definition nicData :: "InterfaceTable \<Rightarrow> nat \<Rightarrow> IPv4InterfaceData" where
  "nicData t i = (case ipv4Data i t of Inr d \<Rightarrow> d | Inl _ \<Rightarrow> newIPv4InterfaceData)"

lemma nic_okD:
  "nic_ok t i \<Longrightarrow> derefIf i t = Inr (nic t i)" "nic_ok t i \<Longrightarrow> ipv4Data i t = Inr (nicData t i)"
  "nic_ok t i \<Longrightarrow> \<not> mac_isUnspecified (macAddr (nic t i))" "nic_ok t i \<Longrightarrow> \<not> ip_isUnspecified (inetAddr (nicData t i))"
  by (auto simp: nic_ok_def nic_def nicData_def split: sum.splits)

definition arpRequest :: "ARP \<Rightarrow> nat \<Rightarrow> IPAddress \<Rightarrow> ArpOut" where
  "arpRequest s i a =
     (let t = nift (arp_node s)
      in ToNic (nwLayerGateIndex (nic t i)) (ArpFrame \<lparr> arp_name = ''arpREQ'', arp_byteLength = ARP_HEADER_BYTES, opcode = ARP_REQUEST,
           srcMACAddress = macAddr (nic t i), destMACAddress = 0, srcIPAddress = inetAddr (nicData t i), destIPAddress = a \<rparr>)
           (Some mac_BROADCAST_ADDRESS))"

definition requested :: "nat \<Rightarrow> IPAddress \<Rightarrow> ARP \<Rightarrow> ARP" where
  "requested i a s = s\<lparr>arp_out := arp_out s @ [arpRequest s i a], numRequestsSent := numRequestsSent s + 1\<rparr>"

lemma requestOn_iff:
  "requestOn ie a s = Inr s' \<longleftrightarrow> (\<exists>i. ie = Some i \<and> nic_ok (nift (arp_node s)) i \<and> s' = requested i a s)"
proof (cases ie)
  case None
  then show ?thesis by (simp add: requestOn_def)
next
  case (Some i)
  show ?thesis
    by (auto simp: Some requestOn_def sendARPRequest_def bindE_eq_Inr assertE_def sendPacketToNIC_def arp_emit_def
        requested_def arpRequest_def Let_def nic_ok_def nic_def nicData_def split: if_splits sum.splits)
qed

lemma derefEntry_iff [simp]: "derefEntry p s = Inr e \<longleftrightarrow> arpHeap s p = Some e"
  by (simp add: derefEntry_def split: option.split)

text \<open>The entry and the state after a resolution has been started.\<close>

definition startedEntry :: "ARP \<Rightarrow> ARPCacheEntry \<Rightarrow> ARPCacheEntry" where
  "startedEntry s e = e\<lparr>pending := True, numRetries := 0, lastUpdate := 0, entry_timer := Some (arpNextTimer s)\<rparr>"

definition started :: "simtime \<Rightarrow> nat \<Rightarrow> ARPCacheEntry \<Rightarrow> nat \<Rightarrow> ARP \<Rightarrow> ARP" where
  "started now p e i s = (requested i (myIter e) s)\<lparr>arpHeap := (arpHeap s)(p \<mapsto> startedEntry s e),
     arpTimers := (arpTimers s)(arpNextTimer s \<mapsto> (p, now + retryTimeout s)), arpNextTimer := Suc (arpNextTimer s),
     numResolutions := numResolutions s + 1\<rparr>"

lemma initiate_iff:
  "initiateARPResolution now p s = Inr s' \<longleftrightarrow>
     (\<exists>e i. arpHeap s p = Some e \<and> entry_ie e = Some i \<and> nic_ok (nift (arp_node s)) i \<and> s' = started now p e i s)"
  by (auto simp: initiateARPResolution_def bindE_eq_Inr requestOn_iff Let_def updEntry_def scheduleTimer_def
      started_def startedEntry_def requested_def arpRequest_def)

definition queued :: "MsgPtr \<Rightarrow> nat \<Rightarrow> ARPCacheEntry \<Rightarrow> ARP \<Rightarrow> ARP" where
  "queued msg p e s = s\<lparr>arpHeap := (arpHeap s)(p \<mapsto> e\<lparr>pendingPackets := pendingPackets e @ [msg]\<rparr>),
     pendingQueue := pendingQueue s @ [msg]\<rparr>"

lemma queuePacket_iff: "queuePacket msg p s = Inr s' \<longleftrightarrow> (\<exists>e. arpHeap s p = Some e \<and> s' = queued msg p e s)"
  by (auto simp: queuePacket_def bindE_eq_Inr Let_def updEntry_def queued_def)

definition removeAll1 :: "'a list \<Rightarrow> 'a list \<Rightarrow> 'a list" where
  "removeAll1 ms q = fold remove1 ms q"

lemma mset_removeAll1: "mset (removeAll1 ms q) = mset q - mset ms"
  by (induction ms arbitrary: q) (simp_all add: removeAll1_def)

lemma dropPackets_eq:
  "dropPackets ms s = s\<lparr>pendingQueue := removeAll1 ms (pendingQueue s), arp_out := arp_out s @ map Deleted ms\<rparr>"
  by (induction ms arbitrary: s) (simp_all add: removeAll1_def arp_emit_def)

definition dataFrame :: "int \<Rightarrow> MACAddress \<Rightarrow> MsgPtr \<Rightarrow> ArpOut" where
  "dataFrame g mac msg = ToNic g (DataFrame msg) (Some mac)"

lemma sendPackets_eq:
  assumes "derefIf i (nift (arp_node s)) = Inr e"
  shows "sendPackets ms (Some i) mac s =
    Inr (s\<lparr>pendingQueue := removeAll1 ms (pendingQueue s), arp_out := arp_out s @ map (dataFrame (nwLayerGateIndex e) mac) ms\<rparr>)"
  using assms by (induction ms arbitrary: s) (simp_all add: removeAll1_def arp_emit_def sendPacketToNIC_def dataFrame_def)

section \<open>The invariant\<close>

definition waiting :: "(nat \<rightharpoonup> ARPCacheEntry) \<Rightarrow> MsgPtr multiset" where
  "waiting h = (\<Sum>p\<in>dom h. mset (pendingPackets (the (h p))))"

definition packetsAt :: "(nat \<rightharpoonup> ARPCacheEntry) \<Rightarrow> nat \<Rightarrow> MsgPtr list" where
  "packetsAt h p = (case h p of None \<Rightarrow> [] | Some e \<Rightarrow> pendingPackets e)"

lemma waiting_upd:
  assumes "finite (dom h)"
  shows "waiting (h(p \<mapsto> e)) = waiting h - mset (packetsAt h p) + mset (pendingPackets e)"
proof -
  let ?f = "\<lambda>h q. mset (pendingPackets (the (h q)))"
  have "(\<Sum>q\<in>dom h - {p}. ?f (h(p \<mapsto> e)) q) = (\<Sum>q\<in>dom h - {p}. ?f h q)" by (rule sum.cong) auto
  moreover have "waiting (h(p \<mapsto> e)) = mset (pendingPackets e) + (\<Sum>q\<in>dom h - {p}. ?f (h(p \<mapsto> e)) q)"
    unfolding waiting_def using assms sum.insert_remove [of "dom h" "?f (h(p \<mapsto> e))" p] by simp
  moreover have "waiting h = mset (packetsAt h p) + (\<Sum>q\<in>dom h - {p}. ?f h q)"
    unfolding waiting_def packetsAt_def using assms by (cases "h p") (auto simp: sum.remove [of _ p] domIff insert_absorb)
  ultimately show ?thesis by (simp add: add.commute)
qed

lemma waiting_del:
  assumes "finite (dom h)"
  shows "waiting (h(p := None)) = waiting h - mset (packetsAt h p)"
proof -
  let ?f = "\<lambda>h q. mset (pendingPackets (the (h q)))"
  have "(\<Sum>q\<in>dom h - {p}. ?f (h(p := None)) q) = (\<Sum>q\<in>dom h - {p}. ?f h q)" by (rule sum.cong) auto
  moreover have "waiting h = mset (packetsAt h p) + (\<Sum>q\<in>dom h - {p}. ?f h q)"
    unfolding waiting_def packetsAt_def using assms by (cases "h p") (auto simp: sum.remove [of _ p] domIff insert_absorb)
  ultimately show ?thesis by (simp add: waiting_def)
qed

lemma packetsAt_waiting: "finite (dom h) \<Longrightarrow> mset (packetsAt h p) \<subseteq># waiting h"
  unfolding waiting_def packetsAt_def by (cases "h p") (auto simp: sum.remove [of _ p] domIff)

text \<open>Cache and heap, entries and timers, entries and the queue.\<close>

definition cache_heap :: "ARP \<Rightarrow> bool" where
  "cache_heap s \<longleftrightarrow> finite (dom (arpHeap s)) \<and> dom (arpHeap s) \<subseteq> {..<arpNextEntry s} \<and>
     (\<forall>a p. arpCache s a = Some p \<longleftrightarrow> (\<exists>e. arpHeap s p = Some e \<and> myIter e = a))"

definition timers_ok :: "ARP \<Rightarrow> bool" where
  "timers_ok s \<longleftrightarrow> dom (arpTimers s) \<subseteq> {..<arpNextTimer s} \<and>
     (\<forall>p e. arpHeap s p = Some e \<longrightarrow>
        (if pending e then \<exists>i. entry_ie e = Some i \<and> nic_ok (nift (arp_node s)) i
         else pendingPackets e = [] \<and> entry_timer e = None)) \<and>
     (\<forall>p tm. (\<exists>t. arpTimers s tm = Some (p, t)) \<longleftrightarrow> (\<exists>e. arpHeap s p = Some e \<and> pending e \<and> entry_timer e = Some tm)) \<and>
     (\<forall>p e. arpHeap s p = Some e \<longrightarrow> pending e \<longrightarrow> entry_timer e \<noteq> None)"

definition arp_ok :: "ARP \<Rightarrow> bool" where
  "arp_ok s \<longleftrightarrow> cache_heap s \<and> timers_ok s \<and> mset (pendingQueue s) = waiting (arpHeap s)"

lemma cache_heapD:
  assumes "cache_heap s"
  shows "finite (dom (arpHeap s))" "arpHeap s (arpNextEntry s) = None"
    "arpCache s a = Some p \<longleftrightarrow> (\<exists>e. arpHeap s p = Some e \<and> myIter e = a)"
  using assms by (auto simp: cache_heap_def)

lemma timers_okD:
  assumes "timers_ok s" "arpHeap s p = Some e"
  shows "pending e \<Longrightarrow> \<exists>i. entry_ie e = Some i \<and> nic_ok (nift (arp_node s)) i"
    "pending e \<Longrightarrow> \<exists>tm t. entry_timer e = Some tm \<and> arpTimers s tm = Some (p, t)"
    "\<not> pending e \<Longrightarrow> pendingPackets e = []" "\<not> pending e \<Longrightarrow> entry_timer e = None"
proof -
  have a: "if pending e then \<exists>i. entry_ie e = Some i \<and> nic_ok (nift (arp_node s)) i else pendingPackets e = [] \<and> entry_timer e = None"
    and b: "pending e \<Longrightarrow> entry_timer e \<noteq> None"
    using assms by (simp_all add: timers_ok_def)
  from a show "pending e \<Longrightarrow> \<exists>i. entry_ie e = Some i \<and> nic_ok (nift (arp_node s)) i"
    "\<not> pending e \<Longrightarrow> pendingPackets e = []" "\<not> pending e \<Longrightarrow> entry_timer e = None" by simp_all
  show "\<exists>tm t. entry_timer e = Some tm \<and> arpTimers s tm = Some (p, t)" if pe: "pending e"
  proof -
    obtain tm where tm: "entry_timer e = Some tm" using b [OF pe] by blast
    have "(\<exists>t. arpTimers s tm = Some (p, t)) \<longleftrightarrow> (\<exists>e. arpHeap s p = Some e \<and> pending e \<and> entry_timer e = Some tm)"
      using assms(1) unfolding timers_ok_def by blast
    with tm pe assms(2) show ?thesis by blast
  qed
qed

lemma timer_entry:
  assumes "timers_ok s" "arpTimers s tm = Some (p, t)"
  shows "\<exists>e. arpHeap s p = Some e \<and> pending e \<and> entry_timer e = Some tm"
  using assms unfolding timers_ok_def by blast

lemma timer_lt: "timers_ok s \<Longrightarrow> arpTimers s tm = Some x \<Longrightarrow> tm < arpNextTimer s"
  by (auto simp: timers_ok_def)

lemma timers_okI:
  assumes "\<And>tm x. arpTimers s tm = Some x \<Longrightarrow> tm < arpNextTimer s"
    and "\<And>p e. arpHeap s p = Some e \<Longrightarrow> pending e \<Longrightarrow>
       (\<exists>i. entry_ie e = Some i \<and> nic_ok (nift (arp_node s)) i) \<and> (\<exists>tm t. entry_timer e = Some tm \<and> arpTimers s tm = Some (p, t))"
    and "\<And>p e. arpHeap s p = Some e \<Longrightarrow> \<not> pending e \<Longrightarrow> pendingPackets e = [] \<and> entry_timer e = None"
    and "\<And>tm p t. arpTimers s tm = Some (p, t) \<Longrightarrow> \<exists>e. arpHeap s p = Some e \<and> pending e \<and> entry_timer e = Some tm"
  shows "timers_ok s"
  unfolding timers_ok_def
proof (intro conjI allI impI)
  show "dom (arpTimers s) \<subseteq> {..<arpNextTimer s}" using assms(1) by auto
  show "if pending e then \<exists>i. entry_ie e = Some i \<and> nic_ok (nift (arp_node s)) i else pendingPackets e = [] \<and> entry_timer e = None"
    if "arpHeap s p = Some e" for p e
    using assms(2,3) [OF that] by simp
  show "(\<exists>t. arpTimers s tm = Some (p, t)) = (\<exists>e. arpHeap s p = Some e \<and> pending e \<and> entry_timer e = Some tm)" for p tm
  proof
    assume "\<exists>t. arpTimers s tm = Some (p, t)"
    then show "\<exists>e. arpHeap s p = Some e \<and> pending e \<and> entry_timer e = Some tm" using assms(4) by blast
  next
    assume "\<exists>e. arpHeap s p = Some e \<and> pending e \<and> entry_timer e = Some tm"
    then obtain e where e: "arpHeap s p = Some e" "pending e" "entry_timer e = Some tm" by blast
    from assms(2) [OF e(1,2)] e(3) show "\<exists>t. arpTimers s tm = Some (p, t)" by auto
  qed
  show "entry_timer e \<noteq> None" if "arpHeap s p = Some e" "pending e" for p e
    using assms(2) [OF that] by auto
qed

section \<open>The four changes of an entry\<close>

text \<open>Cache and heap after an entry has been replaced, inserted or removed.\<close>

lemma cache_heap_put:
  assumes "cache_heap s" "arpHeap s' = (arpHeap s)(p \<mapsto> e)" "arpCache s' = (arpCache s)(myIter e \<mapsto> p)"
    and "(\<exists>e0. arpHeap s p = Some e0 \<and> myIter e0 = myIter e) \<and> arpNextEntry s' = arpNextEntry s \<or>
         p = arpNextEntry s \<and> arpCache s (myIter e) = None \<and> arpNextEntry s' = Suc (arpNextEntry s)"
  shows "cache_heap s'"
proof -
  have c: "\<And>a p. arpCache s a = Some p \<longleftrightarrow> (\<exists>e. arpHeap s p = Some e \<and> myIter e = a)" and d: "dom (arpHeap s) \<subseteq> {..<arpNextEntry s}"
    and f: "finite (dom (arpHeap s))"
    using assms(1) unfolding cache_heap_def by blast+
  have "arpCache s' a = Some q \<longleftrightarrow> (\<exists>e. arpHeap s' q = Some e \<and> myIter e = a)" for a q
    using c [of a q] c [of "myIter e" q] c [of "myIter e" p] d assms(4) by (auto simp: assms(2,3))
  moreover have "dom (arpHeap s') \<subseteq> {..<arpNextEntry s'}" using d assms(4) by (auto simp: assms(2))
  ultimately show ?thesis using f by (simp add: cache_heap_def assms(2))
qed

lemma cache_heap_del:
  assumes "cache_heap s" "arpHeap s p = Some e" "arpHeap s' = (arpHeap s)(p := None)"
    "arpCache s' = (arpCache s)(myIter e := None)" "arpNextEntry s' = arpNextEntry s"
  shows "cache_heap s'"
proof -
  have c: "\<And>a p. arpCache s a = Some p \<longleftrightarrow> (\<exists>e. arpHeap s p = Some e \<and> myIter e = a)" and d: "dom (arpHeap s) \<subseteq> {..<arpNextEntry s}"
    and f: "finite (dom (arpHeap s))"
    using assms(1) unfolding cache_heap_def by blast+
  have "arpCache s' a = Some q \<longleftrightarrow> (\<exists>e. arpHeap s' q = Some e \<and> myIter e = a)" for a q
    using c [of a q] c [of "myIter e" q] c [of "myIter e" p] assms(2) by (auto simp: assms(3,4))
  moreover have "dom (arpHeap s') \<subseteq> {..<arpNextEntry s'}" using d by (auto simp: assms(3,5))
  ultimately show ?thesis using f by (simp add: cache_heap_def assms(3))
qed

lemma timers_start:
  assumes "timers_ok s" "\<And>e. arpHeap s p = Some e \<Longrightarrow> \<not> pending e"
    and "arpHeap s' = (arpHeap s)(p \<mapsto> e')" "pending e'" "entry_timer e' = Some (arpNextTimer s)"
    and "entry_ie e' = Some i" "nic_ok (nift (arp_node s)) i" "nift (arp_node s') = nift (arp_node s)"
    and "arpTimers s' = (arpTimers s)(arpNextTimer s \<mapsto> (p, t))" "arpNextTimer s' = Suc (arpNextTimer s)"
  shows "timers_ok s'"
proof (rule timers_okI)
  have fresh: "tm \<noteq> arpNextTimer s" if "arpTimers s tm = Some x" for tm x using timer_lt [OF assms(1) that] by simp
  show "tm < arpNextTimer s'" if "arpTimers s' tm = Some x" for tm x
    using that timer_lt [OF assms(1), of tm x] by (auto simp: assms(9,10) less_SucI split: if_splits)
  show "(\<exists>i. entry_ie e = Some i \<and> nic_ok (nift (arp_node s')) i) \<and> (\<exists>tm t. entry_timer e = Some tm \<and> arpTimers s' tm = Some (q, t))"
    if "arpHeap s' q = Some e" "pending e" for q e
  proof (cases "q = p")
    case True
    then show ?thesis using that assms(3-9) by simp
  next
    case False
    then have h: "arpHeap s q = Some e" using that(1) by (simp add: assms(3))
    from timers_okD(1,2) [OF assms(1) h that(2)] fresh show ?thesis by (auto simp: assms(8,9))
  qed
  show "pendingPackets e = [] \<and> entry_timer e = None" if "arpHeap s' q = Some e" "\<not> pending e" for q e
    using that timers_okD(3,4) [OF assms(1), of q e] assms(4) by (auto simp: assms(3) split: if_splits)
  show "\<exists>e. arpHeap s' q = Some e \<and> pending e \<and> entry_timer e = Some tm" if "arpTimers s' tm = Some (q, t')" for tm q t'
  proof (cases "tm = arpNextTimer s")
    case True
    then show ?thesis using that assms(3-5,9) by simp
  next
    case False
    then have "arpTimers s tm = Some (q, t')" using that by (simp add: assms(9))
    from timer_entry [OF assms(1) this] assms(2) show ?thesis by (cases "q = p") (auto simp: assms(3))
  qed
qed

lemma timers_keep:
  assumes "timers_ok s" "arpHeap s p = Some e" "pending e" "entry_timer e = Some tm"
    and "arpHeap s' = (arpHeap s)(p \<mapsto> e')" "pending e'" "entry_timer e' = Some tm" "entry_ie e' = entry_ie e"
    and "nift (arp_node s') = nift (arp_node s)"
    and "arpTimers s' = arpTimers s \<or> arpTimers s' = (arpTimers s)(tm \<mapsto> (p, t))" "arpNextTimer s' = arpNextTimer s"
  shows "timers_ok s'"
proof (rule timers_okI)
  obtain t0 where t0: "arpTimers s tm = Some (p, t0)" using timers_okD(2) [OF assms(1,2,3)] assms(4) by auto
  show "tm' < arpNextTimer s'" if "arpTimers s' tm' = Some x" for tm' x
    using that timer_lt [OF assms(1), of tm' x] timer_lt [OF assms(1) t0] assms(10) by (auto simp: assms(11) split: if_splits)
  show "(\<exists>i. entry_ie f = Some i \<and> nic_ok (nift (arp_node s')) i) \<and> (\<exists>tm t. entry_timer f = Some tm \<and> arpTimers s' tm = Some (q, t))"
    if "arpHeap s' q = Some f" "pending f" for q f
  proof (cases "q = p")
    case True
    then show ?thesis using that timers_okD(1) [OF assms(1-3)] t0 assms(5-10) by auto
  next
    case False
    then have h: "arpHeap s q = Some f" using that(1) by (simp add: assms(5))
    note facts = timers_okD(1,2) [OF assms(1) h that(2)]
    from facts(2) obtain tm' t' where t': "entry_timer f = Some tm'" "arpTimers s tm' = Some (q, t')" by blast
    have "tm' \<noteq> tm" using t' t0 False by auto
    then show ?thesis using facts(1) t' assms(9,10) by auto
  qed
  show "pendingPackets f = [] \<and> entry_timer f = None" if "arpHeap s' q = Some f" "\<not> pending f" for q f
    using that timers_okD(3,4) [OF assms(1), of q f] assms(6) by (auto simp: assms(5) split: if_splits)
  show "\<exists>f. arpHeap s' q = Some f \<and> pending f \<and> entry_timer f = Some tm'" if "arpTimers s' tm' = Some (q, t')" for tm' q t'
  proof (cases "tm' = tm")
    case True
    then have "q = p" using that t0 assms(10) by auto
    then show ?thesis using assms(5-7) True by simp
  next
    case False
    then have "arpTimers s tm' = Some (q, t')" using that assms(10) by auto
    from timer_entry [OF assms(1) this] False assms(2,4) show ?thesis by (cases "q = p") (auto simp: assms(5))
  qed
qed

text \<open>The timer of an entry is gone when its resolution is over.\<close>

definition timersWithout :: "ARP \<Rightarrow> nat \<Rightarrow> nat \<rightharpoonup> nat \<times> simtime" where
  "timersWithout s p = (case arpHeap s p of
      Some e \<Rightarrow> (case entry_timer e of Some tm \<Rightarrow> (arpTimers s)(tm := None) | None \<Rightarrow> arpTimers s) | None \<Rightarrow> arpTimers s)"

lemma timersWithout_iff:
  assumes "timers_ok s"
  shows "timersWithout s p tm = Some (q, t) \<longleftrightarrow> arpTimers s tm = Some (q, t) \<and> q \<noteq> p"
proof (cases "arpHeap s p")
  case None
  then show ?thesis using timer_entry [OF assms, of tm q t] by (auto simp: timersWithout_def)
next
  case (Some e)
  show ?thesis
  proof (cases "pending e")
    case True
    obtain tm0 t0 where t0: "entry_timer e = Some tm0" "arpTimers s tm0 = Some (p, t0)"
      using timers_okD(2) [OF assms Some True] by blast
    then show ?thesis
      using timer_entry [OF assms, of tm q t] Some by (auto simp: timersWithout_def)
  next
    case False
    then have "timersWithout s p = arpTimers s" using timers_okD(4) [OF assms Some] Some by (simp add: timersWithout_def)
    then show ?thesis using timer_entry [OF assms, of tm q t] Some False by auto
  qed
qed

lemma timers_end:
  assumes "timers_ok s" "arpHeap s' = (arpHeap s)(p := eo)" "\<And>e. eo = Some e \<Longrightarrow> \<not> pending e \<and> pendingPackets e = [] \<and> entry_timer e = None"
    and "nift (arp_node s') = nift (arp_node s)" "arpTimers s' = timersWithout s p" "arpNextTimer s' = arpNextTimer s"
  shows "timers_ok s'"
proof (rule timers_okI)
  note T = timersWithout_iff [OF assms(1)]
  show "tm < arpNextTimer s'" if "arpTimers s' tm = Some x" for tm x
    using that T [of p tm "fst x" "snd x"] timer_lt [OF assms(1), of tm x] by (simp add: assms(5,6))
  show "(\<exists>i. entry_ie e = Some i \<and> nic_ok (nift (arp_node s')) i) \<and> (\<exists>tm t. entry_timer e = Some tm \<and> arpTimers s' tm = Some (q, t))"
    if "arpHeap s' q = Some e" "pending e" for q e
  proof -
    have "q \<noteq> p" using that assms(3) by (auto simp: assms(2) split: if_splits)
    then have h: "arpHeap s q = Some e" using that(1) by (simp add: assms(2))
    from timers_okD(1,2) [OF assms(1) h that(2)] \<open>q \<noteq> p\<close> show ?thesis by (auto simp: assms(4,5) T)
  qed
  show "pendingPackets e = [] \<and> entry_timer e = None" if "arpHeap s' q = Some e" "\<not> pending e" for q e
    using that timers_okD(3,4) [OF assms(1), of q e] assms(3) by (auto simp: assms(2) split: if_splits)
  show "\<exists>e. arpHeap s' q = Some e \<and> pending e \<and> entry_timer e = Some tm" if "arpTimers s' tm = Some (q, t')" for tm q t'
    using that timer_entry [OF assms(1), of tm q t'] by (auto simp: assms(2,5) T)
qed

section \<open>Where the packets are\<close>

fun handledMsgs :: "ArpOut list \<Rightarrow> MsgPtr multiset" where
  "handledMsgs [] = {#}"
| "handledMsgs (ToNic g (DataFrame m) d # xs) = add_mset m (handledMsgs xs)"
| "handledMsgs (Deleted m # xs) = add_mset m (handledMsgs xs)"
| "handledMsgs (ToNic g (ArpFrame a) d # xs) = handledMsgs xs"

lemma handledMsgs_append [simp]: "handledMsgs (xs @ ys) = handledMsgs xs + handledMsgs ys"
  by (induction xs rule: handledMsgs.induct) simp_all

lemma handledMsgs_map [simp]:
  "handledMsgs (map Deleted ms) = mset ms" "handledMsgs (map (dataFrame g mac) ms) = mset ms"
  by (induction ms) (simp_all add: dataFrame_def)

lemma handledMsgs_request [simp]: "handledMsgs [arpRequest s i a] = {#}"
  by (simp add: arpRequest_def Let_def)

text \<open>Sent, given up, or waiting.\<close>

definition account :: "ARP \<Rightarrow> MsgPtr multiset" where
  "account s = handledMsgs (arp_out s) + mset (pendingQueue s)"

text \<open>What no operation changes.\<close>

definition same_config :: "ARP \<Rightarrow> ARP \<Rightarrow> bool" where
  "same_config s s' \<longleftrightarrow> nift (arp_node s') = nift (arp_node s) \<and> same_routes (nrt (arp_node s)) (nrt (arp_node s')) \<and>
     retryCount s' = retryCount s \<and> globalARP s' = globalARP s \<and> globalArpCache s' = globalArpCache s \<and>
     doProxyARP s' = doProxyARP s \<and> retryTimeout s' = retryTimeout s \<and> cacheTimeout s' = cacheTimeout s"

lemma same_config_refl [simp]: "same_config s s"
  by (simp add: same_config_def)

lemma same_config_trans: "same_config a b \<Longrightarrow> same_config b c \<Longrightarrow> same_config a c"
  by (auto simp: same_config_def intro: same_routes_trans)

text \<open>A packet starts a resolution for an address that is not being resolved.\<close>

lemma arp_ok_start:
  assumes "arp_ok s" "nic_ok (nift (arp_node s)) i" "packetsAt (arpHeap s) p = []"
    and "(\<exists>e0. arpHeap s p = Some e0 \<and> \<not> pending e0 \<and> myIter e0 = myIter e) \<and> arpNextEntry s' = arpNextEntry s \<or>
         p = arpNextEntry s \<and> arpCache s (myIter e) = None \<and> arpNextEntry s' = Suc (arpNextEntry s)"
    and "arpHeap s' = (arpHeap s)(p \<mapsto> e)" "arpCache s' = (arpCache s)(myIter e \<mapsto> p)"
    and "pending e" "entry_timer e = Some (arpNextTimer s)" "entry_ie e = Some i" "pendingPackets e = [msg]"
    and "arpTimers s' = (arpTimers s)(arpNextTimer s \<mapsto> (p, t))" "arpNextTimer s' = Suc (arpNextTimer s)"
    and "nift (arp_node s') = nift (arp_node s)" "pendingQueue s' = pendingQueue s @ [msg]"
  shows "arp_ok s'"
proof -
  have ok: "cache_heap s" "timers_ok s" "mset (pendingQueue s) = waiting (arpHeap s)" using assms(1) by (simp_all add: arp_ok_def)
  have np: "\<not> pending e0" if "arpHeap s p = Some e0" for e0
    using assms(4) that cache_heapD(2) [OF ok(1)] by auto
  have "cache_heap s'" using assms(4) by (intro cache_heap_put [OF ok(1) assms(5,6)]) blast
  moreover have "timers_ok s'"
    by (rule timers_start [OF ok(2) np assms(5,7,8,9,2,13,11,12)])
  moreover have "waiting (arpHeap s') = waiting (arpHeap s) + {#msg#}"
    using waiting_upd [OF cache_heapD(1) [OF ok(1)], of p e] by (simp add: assms(3,5,10))
  ultimately show ?thesis by (simp add: arp_ok_def ok(3) assms(14))
qed

lemma resolve_ok:
  assumes "arp_ok s" "resolve now msg ie a s = Inr s'"
  shows "arp_ok s' \<and> account s' = add_mset msg (account s) \<and> same_config s s' \<and> arp_node s' = arp_node s"
proof (cases "arpCache s a")
  case None
  let ?e = "newARPCacheEntry\<lparr>entry_ie := Some ie, myIter := a\<rparr>" and ?p = "arpNextEntry s"
  let ?s1 = "s\<lparr>arpHeap := (arpHeap s)(?p \<mapsto> ?e), arpNextEntry := Suc ?p, arpCache := (arpCache s)(a \<mapsto> ?p)\<rparr>"
  have n: "nic_ok (nift (arp_node s)) ie" and s': "s' = queued msg ?p (startedEntry s ?e) (started now ?p ?e ie ?s1)"
    using assms(2) None
    by (auto simp: resolve_def insertEntry_def Let_def bindE_eq_Inr initiate_iff queuePacket_iff started_def requested_def
        startedEntry_def)
  have "packetsAt (arpHeap s) ?p = []" using cache_heapD(2) assms(1) by (simp add: packetsAt_def arp_ok_def)
  from arp_ok_start [OF assms(1) n this, where e = "(startedEntry s ?e)\<lparr>pendingPackets := [msg]\<rparr>" and s' = s'] None
  have "arp_ok s'"
    by (simp add: s' queued_def started_def requested_def startedEntry_def newARPCacheEntry_def)
  then show ?thesis
    by (simp add: s' queued_def started_def requested_def account_def same_config_def)
next
  case (Some p)
  obtain e where e: "arpHeap s p = Some e" "myIter e = a" using Some cache_heapD(3) assms(1) by (auto simp: arp_ok_def)
  have ok: "cache_heap s" "timers_ok s" "mset (pendingQueue s) = waiting (arpHeap s)" using assms(1) by (simp_all add: arp_ok_def)
  have cp: "arpCache s = (arpCache s)(a \<mapsto> p)" using Some by auto
  consider (q) "pending e" | (x) "\<not> pending e" "lastUpdate e + cacheTimeout s < now" | (h) "\<not> pending e" "\<not> lastUpdate e + cacheTimeout s < now"
    by blast
  then show ?thesis
  proof cases
    case q
    then have s': "s' = queued msg p e s" using assms(2) Some e(1) by (simp add: resolve_def derefEntry_def queuePacket_def queued_def updEntry_def)
    obtain tm t where "entry_timer e = Some tm" "arpTimers s tm = Some (p, t)" using timers_okD(2) [OF ok(2) e(1) q] by blast
    then have "timers_ok s'"
      using q timers_keep [OF ok(2) e(1) q, where s' = s' and e' = "e\<lparr>pendingPackets := pendingPackets e @ [msg]\<rparr>"]
      by (simp add: s' queued_def)
    moreover have "cache_heap s'"
      using cp e cache_heap_put [OF ok(1), where s' = s' and p = p and e = "e\<lparr>pendingPackets := pendingPackets e @ [msg]\<rparr>"]
      by (simp add: s' queued_def)
    moreover have "waiting (arpHeap s') = waiting (arpHeap s) + {#msg#}"
      using waiting_upd [OF cache_heapD(1) [OF ok(1)], of p] packetsAt_waiting [OF cache_heapD(1) [OF ok(1)], of p] e(1)
      by (simp add: s' queued_def packetsAt_def multiset_diff_union_assoc)
    ultimately show ?thesis using ok(3) by (simp add: arp_ok_def s' queued_def account_def same_config_def)
  next
    case x
    let ?e = "e\<lparr>entry_ie := Some ie\<rparr>"
    have n: "nic_ok (nift (arp_node s)) ie"
      and s': "s' = queued msg p (startedEntry s ?e) (started now p ?e ie (updEntry p ?e s))"
      using assms(2) Some e(1) x
      by (auto simp: resolve_def derefEntry_def bindE_eq_Inr initiate_iff queuePacket_iff started_def requested_def
          startedEntry_def updEntry_def)
    have pe: "pendingPackets e = []" using timers_okD(3) [OF ok(2) e(1)] x by simp
    then have "packetsAt (arpHeap s) p = []" using e(1) by (simp add: packetsAt_def)
    from arp_ok_start [OF assms(1) n this, where e = "(startedEntry s ?e)\<lparr>pendingPackets := [msg]\<rparr>" and s' = s'] e x cp pe
    have "arp_ok s'"
      by (simp add: s' queued_def started_def requested_def startedEntry_def updEntry_def)
    then show ?thesis
      by (simp add: s' queued_def started_def requested_def account_def same_config_def updEntry_def)
  next
    case h
    then obtain g where "s' = arp_emit (ToNic g (DataFrame msg) (Some (macAddress e))) s"
      using assms(2) Some e(1) by (auto simp: resolve_def derefEntry_def sendPacketToNIC_def bindE_eq_Inr)
    then show ?thesis using assms(1)
      by (simp add: arp_emit_def arp_ok_def cache_heap_def timers_ok_def account_def same_config_def)
  qed
qed

text \<open>A packet that is sent at once.\<close>

lemma arp_ok_emit:
  "arp_ok s \<Longrightarrow> arp_ok (arp_emit x s)" "same_config s (arp_emit x s)" "arp_node (arp_emit x s) = arp_node s"
  "account (arp_emit x s) = handledMsgs [x] + account s"
  by (simp_all add: arp_emit_def arp_ok_def cache_heap_def timers_ok_def account_def same_config_def)

lemma outbound_ok:
  assumes "arp_ok s" "processOutboundPacket now msg ifid nextHop s = Inr s'"
  shows "arp_ok s' \<and> account s' = add_mset msg (account s) \<and> same_config s s' \<and> arp_node s' = arp_node s"
proof -
  let ?a = "if ip_isUnspecified nextHop then destAddress (fst (snd msg)) else nextHop"
  obtain ie where "(\<exists>g d. s' = arp_emit (ToNic g (DataFrame msg) d) s) \<or> resolve now msg ie ?a s = Inr s'"
    using assms(2)
    by (fastforce simp: processOutboundPacket_def bindE_eq_Inr sendPacketToNIC_def Let_def split: option.splits if_splits)
  then show ?thesis
  proof
    assume "\<exists>g d. s' = arp_emit (ToNic g (DataFrame msg) d) s"
    then show ?thesis using arp_ok_emit assms(1) by auto
  next
    assume "resolve now msg ie ?a s = Inr s'"
    then show ?thesis by (rule resolve_ok [OF assms(1)])
  qed
qed

text \<open>A timeout: another request, or the end of the resolution.\<close>

definition retried :: "simtime \<Rightarrow> nat \<Rightarrow> nat \<Rightarrow> ARPCacheEntry \<Rightarrow> nat \<Rightarrow> ARP \<Rightarrow> ARP" where
  "retried now tm p e i s = (requested i (myIter e) s)\<lparr>arpHeap := (arpHeap s)(p \<mapsto> e\<lparr>numRetries := numRetries e + 1\<rparr>),
     arpTimers := (arpTimers s)(tm \<mapsto> (p, now + retryTimeout s))\<rparr>"

definition givenUp :: "nat \<Rightarrow> nat \<Rightarrow> ARPCacheEntry \<Rightarrow> ARP \<Rightarrow> ARP" where
  "givenUp tm p e s = s\<lparr>pendingQueue := removeAll1 (pendingPackets e) (pendingQueue s),
     arp_out := arp_out s @ map Deleted (pendingPackets e), arpCache := (arpCache s)(myIter e := None),
     arpHeap := (arpHeap s)(p := None), arpTimers := (arpTimers s)(tm := None), numFailedResolutions := numFailedResolutions s + 1\<rparr>"

lemma timeout_eq:
  assumes "arp_ok s" "arpTimers s tm = Some (p, t)"
  shows "\<exists>e i. arpHeap s p = Some e \<and> pending e \<and> entry_timer e = Some tm \<and> nic_ok (nift (arp_node s)) i \<and> entry_ie e = Some i \<and>
    arp_handleMessage now (ArpTimer tm) s =
      Inr (if numRetries e + 1 < retryCount s then retried now tm p e i s else givenUp tm p e s)"
proof -
  have ok: "cache_heap s" "timers_ok s" using assms(1) by (simp_all add: arp_ok_def)
  obtain e where e: "arpHeap s p = Some e" "pending e" "entry_timer e = Some tm" using timer_entry [OF ok(2) assms(2)] by blast
  obtain i where i: "entry_ie e = Some i" "nic_ok (nift (arp_node s)) i" using timers_okD(1) [OF ok(2) e(1,2)] by blast
  have r: "requestOn (Some i) (myIter e) (s\<lparr>arpTimers := x, arpHeap := y\<rparr>) = Inr (requested i (myIter e) (s\<lparr>arpTimers := x, arpHeap := y\<rparr>))" for x y
    using i(2) by (simp add: requestOn_iff)
  show ?thesis
    using e i assms(2)
    by (intro exI [of _ e] exI [of _ i])
      (simp add: requestTimedOut_def derefEntry_def updEntry_def Let_def r dropPackets_eq retried_def givenUp_def requested_def
        arpRequest_def)
qed

lemma retried_ok:
  assumes "arp_ok s" "arpHeap s p = Some e" "pending e" "entry_timer e = Some tm"
  shows "arp_ok (retried now tm p e i s) \<and> account (retried now tm p e i s) = account s \<and> same_config s (retried now tm p e i s) \<and>
    arp_node (retried now tm p e i s) = arp_node s"
proof -
  let ?s = "retried now tm p e i s" and ?e = "e\<lparr>numRetries := numRetries e + 1\<rparr>"
  have ok: "cache_heap s" "timers_ok s" "mset (pendingQueue s) = waiting (arpHeap s)" using assms(1) by (simp_all add: arp_ok_def)
  have "arpCache s (myIter e) = Some p" using cache_heapD(3) [OF ok(1)] assms(2) by blast
  then have cp: "arpCache s = (arpCache s)(myIter e \<mapsto> p)" by auto
  have "cache_heap ?s"
    using cp assms(2) cache_heap_put [OF ok(1), where s' = ?s and p = p and e = ?e] by (simp add: retried_def requested_def)
  moreover have "timers_ok ?s"
    using assms(3,4) timers_keep [OF ok(2) assms(2-4), where s' = ?s and e' = ?e and t = "now + retryTimeout s"]
    by (simp add: retried_def requested_def)
  moreover have "waiting (arpHeap ?s) = waiting (arpHeap s)"
    using waiting_upd [OF cache_heapD(1) [OF ok(1)], of p ?e] packetsAt_waiting [OF cache_heapD(1) [OF ok(1)], of p] assms(2)
    by (simp add: retried_def requested_def packetsAt_def)
  ultimately show ?thesis
    using ok(3) by (simp add: arp_ok_def retried_def requested_def account_def same_config_def)
qed

lemma givenUp_ok:
  assumes "arp_ok s" "arpHeap s p = Some e" "pending e" "entry_timer e = Some tm"
  shows "arp_ok (givenUp tm p e s) \<and> account (givenUp tm p e s) = account s \<and> same_config s (givenUp tm p e s) \<and>
    arp_node (givenUp tm p e s) = arp_node s"
proof -
  let ?s = "givenUp tm p e s"
  have ok: "cache_heap s" "timers_ok s" "mset (pendingQueue s) = waiting (arpHeap s)" using assms(1) by (simp_all add: arp_ok_def)
  have sub: "mset (pendingPackets e) \<subseteq># mset (pendingQueue s)"
    using packetsAt_waiting [OF cache_heapD(1) [OF ok(1)], of p] assms(2) ok(3) by (simp add: packetsAt_def)
  have "cache_heap ?s" by (rule cache_heap_del [OF ok(1) assms(2)]) (simp_all add: givenUp_def)
  moreover have "timers_ok ?s"
    using assms(2,4) by (intro timers_end [OF ok(2), where p = p and eo = None]) (simp_all add: givenUp_def timersWithout_def)
  moreover have "waiting (arpHeap ?s) = waiting (arpHeap s) - mset (pendingPackets e)"
    using waiting_del [OF cache_heapD(1) [OF ok(1)], of p] assms(2) by (simp add: givenUp_def packetsAt_def)
  ultimately show ?thesis
    using ok(3) sub by (simp add: arp_ok_def givenUp_def account_def same_config_def mset_removeAll1 subset_mset.add_diff_inverse)
qed

end
