(* ===== verification/ARP_Learn.thy ===== *)
theory ARP_Learn
  imports ARP_Safety
begin

text \<open>
  What ARP learns: the effect of ARP packets on the cache and on the waiting packets, the states the module can
  reach, and the resolution of an address between two hosts.
\<close>

section \<open>Learning an address\<close>

definition learntEntry :: "simtime \<Rightarrow> MACAddress \<Rightarrow> ARPCacheEntry \<Rightarrow> ARPCacheEntry" where
  "learntEntry now mac e = e\<lparr>pending := False, entry_timer := None, numRetries := (if pending e then 0 else numRetries e),
     macAddress := mac, lastUpdate := now, pendingPackets := []\<rparr>"

definition learnt :: "simtime \<Rightarrow> nat \<Rightarrow> ARPCacheEntry \<Rightarrow> MACAddress \<Rightarrow> ARP \<Rightarrow> ARP" where
  "learnt now p e mac s = s\<lparr>arpHeap := (arpHeap s)(p \<mapsto> learntEntry now mac e), arpTimers := timersWithout s p,
     pendingQueue := removeAll1 (pendingPackets e) (pendingQueue s),
     arp_out := arp_out s @ map (dataFrame (nwLayerGateIndex (nic (nift (arp_node s)) (the (entry_ie e)))) mac) (pendingPackets e)\<rparr>"

lemma updateARPCache_eq:
  assumes "timers_ok s" "arpHeap s p = Some e"
  shows "updateARPCache now p mac s = Inr (learnt now p e mac s)"
proof (cases "pending e")
  case True
  note facts = timers_okD(1,2) [OF assms True]
  from facts(1) obtain i where i: "entry_ie e = Some i" "nic_ok (nift (arp_node s)) i" by blast
  from facts(2) obtain tm where tm: "entry_timer e = Some tm" by blast
  show ?thesis
    using assms(2) True i tm nic_okD(1) [OF i(2)]
    by (simp add: updateARPCache_def derefEntry_def cancelTimer_def updEntry_def Let_def sendPackets_eq learnt_def
        learntEntry_def timersWithout_def)
next
  case False
  note facts = timers_okD(3,4) [OF assms False]
  then have "learntEntry now mac e = e\<lparr>macAddress := mac, lastUpdate := now, pendingPackets := []\<rparr>"
    using False by (cases e) (simp add: learntEntry_def)
  then show ?thesis
    using assms(2) False facts
    by (simp add: updateARPCache_def derefEntry_def updEntry_def Let_def learnt_def timersWithout_def removeAll1_def)
qed

lemma learnt_ok:
  assumes "arp_ok s" "arpHeap s p = Some e"
  shows "arp_ok (learnt now p e mac s) \<and> account (learnt now p e mac s) = account s \<and> same_config s (learnt now p e mac s)"
proof -
  let ?s = "learnt now p e mac s" and ?e = "learntEntry now mac e"
  have ok: "cache_heap s" "timers_ok s" "mset (pendingQueue s) = waiting (arpHeap s)" using assms(1) by (simp_all add: arp_ok_def)
  have sub: "mset (pendingPackets e) \<subseteq># mset (pendingQueue s)"
    using packetsAt_waiting [OF cache_heapD(1) [OF ok(1)], of p] assms(2) ok(3) by (simp add: packetsAt_def)
  have "arpCache s (myIter e) = Some p" using cache_heapD(3) [OF ok(1)] assms(2) by blast
  then have cp: "arpCache s = (arpCache s)(myIter e \<mapsto> p)" by auto
  have "cache_heap ?s"
    using cp assms(2) cache_heap_put [OF ok(1), where s' = ?s and p = p and e = ?e] by (simp add: learnt_def learntEntry_def)
  moreover have "timers_ok ?s"
    by (intro timers_end [OF ok(2), where p = p and eo = "Some ?e"]) (auto simp: learnt_def learntEntry_def)
  moreover have "waiting (arpHeap ?s) = waiting (arpHeap s) - mset (pendingPackets e)"
    using waiting_upd [OF cache_heapD(1) [OF ok(1)], of p ?e] assms(2) by (simp add: learnt_def learntEntry_def packetsAt_def)
  ultimately show ?thesis
    using ok(3) sub by (simp add: arp_ok_def learnt_def account_def same_config_def mset_removeAll1 subset_mset.add_diff_inverse)
qed

definition inserted :: "IPAddress \<Rightarrow> nat option \<Rightarrow> ARP \<Rightarrow> ARP" where
  "inserted a ie s = snd (insertEntry a (newARPCacheEntry\<lparr>entry_ie := ie\<rparr>) s)"

lemma inserted_ok:
  assumes "arp_ok s" "arpCache s a = None"
  shows "arp_ok (inserted a ie s) \<and> account (inserted a ie s) = account s \<and> same_config s (inserted a ie s)"
proof -
  let ?e = "newARPCacheEntry\<lparr>entry_ie := ie, myIter := a\<rparr>" and ?p = "arpNextEntry s" and ?s = "inserted a ie s"
  have ok: "cache_heap s" "timers_ok s" "mset (pendingQueue s) = waiting (arpHeap s)" using assms(1) by (simp_all add: arp_ok_def)
  have fresh: "arpHeap s ?p = None" by (rule cache_heapD(2) [OF ok(1)])
  have "cache_heap ?s"
    using assms(2) cache_heap_put [OF ok(1), where s' = ?s and p = ?p and e = ?e] by (simp add: inserted_def insertEntry_def Let_def)
  moreover have "timers_ok ?s"
    using fresh by (intro timers_end [OF ok(2), where p = ?p and eo = "Some ?e"])
      (auto simp: inserted_def insertEntry_def Let_def timersWithout_def newARPCacheEntry_def)
  moreover have "waiting (arpHeap ?s) = waiting (arpHeap s)"
    using waiting_upd [OF cache_heapD(1) [OF ok(1)], of ?p ?e] fresh
    by (simp add: inserted_def insertEntry_def Let_def packetsAt_def newARPCacheEntry_def)
  ultimately show ?thesis
    using ok(3) by (simp add: arp_ok_def inserted_def insertEntry_def Let_def account_def same_config_def)
qed

section \<open>Is the address ours?\<close>

definition routeInterface :: "simtime \<Rightarrow> InterfaceTable \<Rightarrow> RoutingTable \<Rightarrow> IPAddress \<Rightarrow> nat option" where
  "routeInterface now t rt dest =
     (case route_for now t rt dest of None \<Rightarrow> None | Some p \<Rightarrow> (case routeHeap rt p of None \<Rightarrow> None | Some r \<Rightarrow> r_interface r))"

lemma getInterfaceForDestAddr_spec:
  assumes "rt_ok now t rt" "\<not> manet_trap now t rt dest"
  shows "\<exists>rt'. getInterfaceForDestAddr now t dest rt = Inr (routeInterface now t rt dest, rt') \<and> rt_ok now t rt' \<and> same_routes rt rt'"
proof -
  obtain rt' where f: "findBestMatchingRoute now t dest rt = Inr (route_for now t rt dest, rt')" "rt_ok now t rt'"
    using findBestMatchingRoute_ok [OF assms(1), of dest] assms(2) by auto
  have s: "same_routes rt rt'" by (rule findBest_same [OF assms(1) f(1)])
  show ?thesis
  proof (cases "route_for now t rt dest")
    case None
    then show ?thesis using f s by (simp add: getInterfaceForDestAddr_def routeInterface_def)
  next
    case (Some p)
    then have "p \<in> set (routes rt)"
      using best_match_mem [of now t rt dest p] by (auto simp: route_for_def split: option.splits if_splits)
    then obtain r where "routeHeap rt p = Some r" using rt_wf_alive assms(1) by (auto simp: rt_ok_def)
    then show ?thesis
      using f s Some same_routes_sel(1) [OF s] by (simp add: getInterfaceForDestAddr_def routeInterface_def derefRoute_def)
  qed
qed

definition recognizes :: "simtime \<Rightarrow> ARP \<Rightarrow> IPAddress \<Rightarrow> nat option \<Rightarrow> bool" where
  "recognizes now s dest ie \<longleftrightarrow>
     (let t = nift (arp_node s); rt = nrt (arp_node s)
      in dest \<in> addrs t \<or>
         doProxyARP s \<and> routeInterface now t rt dest \<noteq> None \<and> routeInterface now t rt dest \<noteq> ie)"

text \<open>The lookup of a route would dereference a null pointer.\<close>

definition proxy_trap :: "simtime \<Rightarrow> ARP \<Rightarrow> IPAddress \<Rightarrow> bool" where
  "proxy_trap now s dest \<longleftrightarrow>
     dest \<notin> addrs (nift (arp_node s)) \<and> doProxyARP s \<and> manet_trap now (nift (arp_node s)) (nrt (arp_node s)) dest"

definition node_ok :: "simtime \<Rightarrow> ARP \<Rightarrow> bool" where
  "node_ok now s \<longleftrightarrow> rt_ok now (nift (arp_node s)) (nrt (arp_node s))"

definition setNodeRT :: "RoutingTable \<Rightarrow> ARP \<Rightarrow> ARP" where
  "setNodeRT r s = s\<lparr>arp_node := (arp_node s)\<lparr>nrt := r\<rparr>\<rparr>"

lemma arp_ok_setNodeRT [simp]:
  "arp_ok (setNodeRT r s) = arp_ok s" "account (setNodeRT r s) = account s" "arpCache (setNodeRT r s) = arpCache s"
  "nift (arp_node (setNodeRT r s)) = nift (arp_node s)" "arp_out (setNodeRT r s) = arp_out s" "arpHeap (setNodeRT r s) = arpHeap s"
  "nrt (arp_node (setNodeRT r s)) = r" "same_routes (nrt (arp_node s)) r \<Longrightarrow> same_config s (setNodeRT r s)"
  by (simp_all add: setNodeRT_def arp_ok_def cache_heap_def timers_ok_def account_def same_config_def)

lemma addressRecognized_spec:
  assumes "node_ok now s"
  shows "if proxy_trap now s dest then addressRecognized now dest ie s = Inl NullPointer
    else \<exists>r. addressRecognized now dest ie s = Inr (recognizes now s dest ie, setNodeRT r s) \<and>
         rt_ok now (nift (arp_node s)) r \<and> same_routes (nrt (arp_node s)) r"
proof -
  let ?t = "nift (arp_node s)" and ?rt = "nrt (arp_node s)"
  have ok: "rt_ok now ?t ?rt" using assms by (simp add: node_ok_def)
  then have "ift_ok ?t" "locals_ok ?t ?rt" by (simp_all add: rt_ok_def)
  from isLocalAddress_spec [OF this, of dest] obtain r1 where
    l: "isLocalAddress ?t dest ?rt = Inr (dest \<in> addrs ?t, r1)" and f: "filled ?t ?rt r1" by blast
  note same = filled_same [OF f]
  have ok1: "rt_ok now ?t r1" and s1: "same_routes ?rt r1" by (rule rt_ok_filled [OF ok f], rule filled_same_routes [OF f])
  have cong: "manet_trap now ?t r1 dest = manet_trap now ?t ?rt dest" "routeInterface now ?t r1 dest = routeInterface now ?t ?rt dest"
    using spec_cong(2,3) [of r1 ?rt now ?t dest] by (simp_all add: same routeInterface_def cong: option.case_cong)
  consider (l) "dest \<in> addrs ?t" | (n) "dest \<notin> addrs ?t" "\<not> doProxyARP s"
    | (t) "dest \<notin> addrs ?t" "doProxyARP s" "manet_trap now ?t ?rt dest" | (p) "dest \<notin> addrs ?t" "doProxyARP s" "\<not> manet_trap now ?t ?rt dest"
    by blast
  then show ?thesis
  proof cases
    case l
    then show ?thesis
      using \<open>isLocalAddress ?t dest ?rt = _\<close> ok1 s1
      by (auto simp: addressRecognized_def proxy_trap_def recognizes_def Let_def setNodeRT_def)
  next
    case n
    then show ?thesis
      using \<open>isLocalAddress ?t dest ?rt = _\<close> ok1 s1
      by (auto simp: addressRecognized_def proxy_trap_def recognizes_def Let_def setNodeRT_def)
  next
    case t
    then have "findBestMatchingRoute now ?t dest r1 = Inl NullPointer" using findBestMatchingRoute_ok [OF ok1, of dest] cong by simp
    then show ?thesis
      using \<open>isLocalAddress ?t dest ?rt = _\<close> t
      by (simp add: addressRecognized_def proxy_trap_def Let_def getInterfaceForDestAddr_def)
  next
    case p
    then obtain r2 where "getInterfaceForDestAddr now ?t dest r1 = Inr (routeInterface now ?t ?rt dest, r2)"
      "rt_ok now ?t r2" "same_routes r1 r2"
      using getInterfaceForDestAddr_spec [OF ok1, of dest] cong by auto
    then show ?thesis
      using \<open>isLocalAddress ?t dest ?rt = _\<close> p same_routes_trans [OF s1]
      by (auto simp: addressRecognized_def proxy_trap_def recognizes_def Let_def setNodeRT_def)
  qed
qed

section \<open>ARP packets\<close>

text \<open>The sender of a packet enters the table.\<close>

definition learnSrc :: "simtime \<Rightarrow> IPAddress \<Rightarrow> MACAddress \<Rightarrow> nat option \<Rightarrow> ARP \<Rightarrow> ARP" where
  "learnSrc now a mac ie s =
     (case arpCache s a of
        Some p \<Rightarrow> learnt now p (the (arpHeap s p)) mac s
      | None \<Rightarrow> learnt now (arpNextEntry s) (newARPCacheEntry\<lparr>entry_ie := ie, myIter := a\<rparr>) mac (inserted a ie s))"

definition learns :: "simtime \<Rightarrow> ARPPacket \<Rightarrow> nat option \<Rightarrow> ARP \<Rightarrow> bool" where
  "learns now arp ie s \<longleftrightarrow> arpCache s (srcIPAddress arp) \<noteq> None \<or> recognizes now s (destIPAddress arp) ie"

definition afterLearning :: "simtime \<Rightarrow> ARPPacket \<Rightarrow> nat option \<Rightarrow> ARP \<Rightarrow> ARP" where
  "afterLearning now arp ie s = (if learns now arp ie s then learnSrc now (srcIPAddress arp) (srcMACAddress arp) ie s else s)"

lemma learnSrc_ok:
  assumes "arp_ok s"
  shows "arp_ok (learnSrc now a mac ie s) \<and> account (learnSrc now a mac ie s) = account s \<and> same_config s (learnSrc now a mac ie s)"
proof (cases "arpCache s a")
  case None
  have h: "arpHeap (inserted a ie s) (arpNextEntry s) = Some (newARPCacheEntry\<lparr>entry_ie := ie, myIter := a\<rparr>)"
    by (simp add: inserted_def insertEntry_def Let_def)
  show ?thesis
    using inserted_ok [OF assms None, of ie] learnt_ok [OF _ h, of now mac] same_config_trans None
    by (simp add: learnSrc_def) blast
next
  case (Some p)
  then obtain e where "arpHeap s p = Some e" using assms cache_heapD(3) by (auto simp: arp_ok_def)
  then show ?thesis using learnt_ok [OF assms, of p e] Some by (simp add: learnSrc_def)
qed

lemma setNodeRT_learnt: "setNodeRT r (learnt now p e mac s) = learnt now p e mac (setNodeRT r s)"
  by (rule ARP.equality) (simp_all add: setNodeRT_def learnt_def timersWithout_def split: option.split)

lemma setNodeRT_inserted: "setNodeRT r (inserted a ie s) = inserted a ie (setNodeRT r s)"
  by (rule ARP.equality) (simp_all add: setNodeRT_def inserted_def insertEntry_def Let_def)

lemma arpNextEntry_setNodeRT [simp]: "arpNextEntry (setNodeRT r s) = arpNextEntry s"
  by (simp add: setNodeRT_def)

lemma recognizes_learnt: "recognizes now (learnt now' p e mac s) dest ie = recognizes now s dest ie"
  "proxy_trap now (learnt now' p e mac s) dest = proxy_trap now s dest" "node_ok now (learnt now' p e mac s) = node_ok now s"
  by (simp_all add: recognizes_def proxy_trap_def node_ok_def learnt_def)

lemma processARPPacket_eq:
  assumes "arp_ok s" "node_ok now s" "getInterfaceById ifid (nift (arp_node s)) = ie"
    and "\<not> mac_isUnspecified (srcMACAddress arp)" "\<not> ip_isUnspecified (srcIPAddress arp)"
  shows "if proxy_trap now s (destIPAddress arp) then processARPPacket now arp ifid s = Inl NullPointer
    else \<exists>r. rt_ok now (nift (arp_node s)) r \<and> same_routes (nrt (arp_node s)) r \<and>
      processARPPacket now arp ifid s =
        (if recognizes now s (destIPAddress arp) ie then replyTo arp ie (setNodeRT r (afterLearning now arp ie s))
         else Inr (setNodeRT r (afterLearning now arp ie s)))"
proof (cases "arpCache s (srcIPAddress arp)")
  case None
  have h: "arpHeap (inserted a i (setNodeRT r s)) (arpNextEntry s) = Some (newARPCacheEntry\<lparr>entry_ie := i, myIter := a\<rparr>)" for a i r
    by (simp add: inserted_def insertEntry_def Let_def setNodeRT_def)
  have u: "updateARPCache now (arpNextEntry s) mac (inserted (srcIPAddress arp) i (setNodeRT r s)) =
      Inr (learnt now (arpNextEntry s) (newARPCacheEntry\<lparr>entry_ie := i, myIter := srcIPAddress arp\<rparr>) mac
        (inserted (srcIPAddress arp) i (setNodeRT r s)))" for i r mac
  proof (rule updateARPCache_eq [OF _ h])
    have "arp_ok (inserted (srcIPAddress arp) i (setNodeRT r s))"
      using inserted_ok [of "setNodeRT r s" "srcIPAddress arp" i] assms(1) None by simp
    then show "timers_ok (inserted (srcIPAddress arp) i (setNodeRT r s))" by (simp add: arp_ok_def)
  qed
  have i: "insertEntry a (newARPCacheEntry\<lparr>entry_ie := i\<rparr>) (setNodeRT r s) = (arpNextEntry s, inserted a i (setNodeRT r s))" for a i r
    by (simp add: inserted_def insertEntry_def Let_def)
  show ?thesis
  proof (cases "proxy_trap now s (destIPAddress arp)")
    case True
    then show ?thesis
      using addressRecognized_spec [OF assms(2), of "destIPAddress arp" ie] None assms(3-5) by (simp add: processARPPacket_def Let_def)
  next
    case False
    then obtain r where "addressRecognized now (destIPAddress arp) ie s = Inr (recognizes now s (destIPAddress arp) ie, setNodeRT r s)"
      "rt_ok now (nift (arp_node s)) r" "same_routes (nrt (arp_node s)) r"
      using addressRecognized_spec [OF assms(2), of "destIPAddress arp" ie] by auto
    then show ?thesis
      using False None assms(3-5)
      by (simp, intro exI [of _ r])
        (simp add: processARPPacket_def Let_def i u afterLearning_def learns_def learnSrc_def setNodeRT_learnt setNodeRT_inserted)
  qed
next
  case (Some p)
  then obtain e where e: "arpHeap s p = Some e" using assms(1) cache_heapD(3) by (auto simp: arp_ok_def)
  have u: "updateARPCache now p (srcMACAddress arp) s = Inr (learnt now p e (srcMACAddress arp) s)"
    using assms(1) e by (intro updateARPCache_eq) (simp_all add: arp_ok_def)
  have "node_ok now (learnt now p e (srcMACAddress arp) s)" using assms(2) by (simp add: recognizes_learnt)
  note spec = addressRecognized_spec [OF this, of "destIPAddress arp" ie, unfolded recognizes_learnt]
  show ?thesis
  proof (cases "proxy_trap now s (destIPAddress arp)")
    case True
    then show ?thesis using spec Some assms(3-5) by (simp add: processARPPacket_def Let_def u)
  next
    case False
    then obtain r where "addressRecognized now (destIPAddress arp) ie (learnt now p e (srcMACAddress arp) s) =
        Inr (recognizes now s (destIPAddress arp) ie, setNodeRT r (learnt now p e (srcMACAddress arp) s))"
      "rt_ok now (nift (arp_node s)) r" "same_routes (nrt (arp_node s)) r"
      using spec by (auto simp: learnt_def)
    then show ?thesis
      using False Some e assms(3-5)
      by (simp, intro exI [of _ r]) (simp add: processARPPacket_def Let_def u afterLearning_def learns_def learnSrc_def)
  qed
qed

text \<open>The reply to a request.\<close>

definition arpReply :: "ARP \<Rightarrow> ARPPacket \<Rightarrow> nat \<Rightarrow> ArpOut" where
  "arpReply s arp i =
     (let t = nift (arp_node s)
      in ToNic (nwLayerGateIndex (nic t i)) (ArpFrame (arp\<lparr>arp_name := ''arpREPLY'', destIPAddress := srcIPAddress arp,
           destMACAddress := srcMACAddress arp, srcIPAddress := destIPAddress arp, srcMACAddress := macAddr (nic t i), opcode := ARP_REPLY\<rparr>))
           (Some (srcMACAddress arp)))"

definition replied :: "ARPPacket \<Rightarrow> nat \<Rightarrow> ARP \<Rightarrow> ARP" where
  "replied arp i s = (arp_emit (arpReply s arp i) s)\<lparr>numRepliesSent := numRepliesSent s + 1\<rparr>"

lemma replyTo_request:
  "nic_ok (nift (arp_node s)) i \<Longrightarrow> opcode arp = ARP_REQUEST \<Longrightarrow> replyTo arp (Some i) s = Inr (replied arp i s)"
  by (simp add: replyTo_def sendPacketToNIC_def nic_okD Let_def replied_def arpReply_def arp_emit_def)

lemma replyTo_reply: "opcode arp = ARP_REPLY \<Longrightarrow> replyTo arp ie s = Inr s"
  by (simp add: replyTo_def arp_consts)

lemma numRepliesSent_emit [simp]: "numRepliesSent (arp_emit x s) = numRepliesSent s"
  by (simp add: arp_emit_def)

lemma replyTo_ok:
  assumes "replyTo arp ie s = Inr s'" "arp_ok s"
  shows "arp_ok s' \<and> account s' = account s \<and> same_config s s' \<and> arp_node s' = arp_node s"
proof -
  have "s' = s \<or> (\<exists>g f d. s' = (arp_emit (ToNic g (ArpFrame f) d) s)\<lparr>numRepliesSent := numRepliesSent s + 1\<rparr>)"
    using assms(1) by (fastforce simp: replyTo_def bindE_eq_Inr sendPacketToNIC_def Let_def split: if_splits option.splits)
  then show ?thesis
  proof (elim disjE exE)
    fix g f d assume s': "s' = (arp_emit (ToNic g (ArpFrame f) d) s)\<lparr>numRepliesSent := numRepliesSent s + 1\<rparr>"
    then show ?thesis
      using assms(2) by (simp add: arp_emit_def arp_ok_def cache_heap_def timers_ok_def account_def same_config_def)
  qed (use assms(2) in simp)
qed

lemma arpPacket_ok:
  assumes "arp_ok s" "node_ok now s" "processARPPacket now arp ifid s = Inr s'"
  shows "arp_ok s' \<and> account s' = account s \<and> same_config s s' \<and> node_ok now s'"
proof -
  let ?ie = "getInterfaceById ifid (nift (arp_node s))"
  have v: "\<not> mac_isUnspecified (srcMACAddress arp)" "\<not> ip_isUnspecified (srcIPAddress arp)"
    using assms(3) by (auto simp: processARPPacket_def Let_def split: if_splits)
  note eq = processARPPacket_eq [OF assms(1,2) refl v, of ifid]
  have "\<not> proxy_trap now s (destIPAddress arp)" using eq assms(3) by auto
  with eq obtain r where r: "rt_ok now (nift (arp_node s)) r" "same_routes (nrt (arp_node s)) r"
    and p: "processARPPacket now arp ifid s =
        (if recognizes now s (destIPAddress arp) ?ie then replyTo arp ?ie (setNodeRT r (afterLearning now arp ?ie s))
         else Inr (setNodeRT r (afterLearning now arp ?ie s)))" by auto
  let ?s1 = "afterLearning now arp ?ie s"
  have a: "arp_ok ?s1 \<and> account ?s1 = account s \<and> same_config s ?s1"
    using learnSrc_ok [OF assms(1)] assms(1) by (simp add: afterLearning_def)
  have nrt: "nrt (arp_node ?s1) = nrt (arp_node s)"
    by (simp add: afterLearning_def learnSrc_def learnt_def inserted_def insertEntry_def Let_def split: option.split)
  then have b: "same_config s (setNodeRT r ?s1)" using a r(2) same_config_trans by (metis arp_ok_setNodeRT(8))
  have n: "node_ok now (setNodeRT r ?s1)" using r(1) a by (simp add: node_ok_def same_config_def)
  show ?thesis
  proof (cases "recognizes now s (destIPAddress arp) ?ie")
    case True
    then have "replyTo arp ?ie (setNodeRT r ?s1) = Inr s'" using p assms(3) by simp
    from replyTo_ok [OF this] a b n show ?thesis using same_config_trans by (auto simp: node_ok_def)
  next
    case False
    then have "s' = setNodeRT r ?s1" using p assms(3) by simp
    then show ?thesis using a b n by simp
  qed
qed

end
