(* ===== verification/ARP_Run.thy ===== *)
theory ARP_Run
  imports ARP_Learn
begin

text \<open>
  Runs of the ARP module, and its properties: the invariant and the whereabouts of every packet, the algorithm of
  RFC 826 as the specification of the table, the treatment of packets from IP, the end of every resolution, and the
  resolution of an address between two hosts.
\<close>

section \<open>The table as IP sees it\<close>

definition arp_table :: "ARP \<Rightarrow> IPAddress \<rightharpoonup> MACAddress \<times> simtime" where
  "arp_table s a = (case arpCache s a of None \<Rightarrow> None | Some p \<Rightarrow> (case arpHeap s p of None \<Rightarrow> None
     | Some e \<Rightarrow> if pending e then None else Some (macAddress e, lastUpdate e)))"

definition waitingFor :: "ARP \<Rightarrow> IPAddress \<Rightarrow> MsgPtr list" where
  "waitingFor s a = (case arpCache s a of None \<Rightarrow> [] | Some p \<Rightarrow> packetsAt (arpHeap s) p)"

definition gateFor :: "ARP \<Rightarrow> IPAddress \<Rightarrow> int" where
  "gateFor s a = (case arpCache s a of None \<Rightarrow> 0 | Some p \<Rightarrow>
     nwLayerGateIndex (nic (nift (arp_node s)) (the (entry_ie (the (arpHeap s p))))))"

lemma cacheD: "arp_ok s \<Longrightarrow> arpCache s a = Some p \<Longrightarrow> \<exists>e. arpHeap s p = Some e \<and> myIter e = a"
  using cache_heapD(3) by (auto simp: arp_ok_def)

lemma arp_table_learnSrc:
  assumes "arp_ok s"
  shows "arp_table (learnSrc now a mac ie s) = (arp_table s)(a \<mapsto> (mac, now))"
    "arp_out (learnSrc now a mac ie s) = arp_out s @ map (dataFrame (gateFor s a) mac) (waitingFor s a)"
    "waitingFor (learnSrc now a mac ie s) b = (if b = a then [] else waitingFor s b)"
proof -
  have inj: "arpCache s b = Some p \<Longrightarrow> arpCache s a = Some p \<Longrightarrow> b = a" for b p
    using cacheD [OF assms, of a p] cacheD [OF assms, of b p] by auto
  have fresh: "arpCache s b \<noteq> Some (arpNextEntry s)" for b
    using cacheD [OF assms, of b "arpNextEntry s"] cache_heapD(2) assms by (auto simp: arp_ok_def)
  have "arp_table (learnSrc now a mac ie s) b = ((arp_table s)(a \<mapsto> (mac, now))) b \<and>
      waitingFor (learnSrc now a mac ie s) b = (if b = a then [] else waitingFor s b)" for b
  proof (cases "arpCache s a")
    case None
    then show ?thesis
      using fresh [of b]
      by (cases "arpCache s b") (auto simp: arp_table_def waitingFor_def packetsAt_def learnSrc_def learnt_def inserted_def
          insertEntry_def Let_def learntEntry_def)
  next
    case (Some p)
    then show ?thesis
      using inj [of b]
      by (cases "arpCache s b") (auto simp: arp_table_def waitingFor_def packetsAt_def learnSrc_def learnt_def learntEntry_def)
  qed
  then show "arp_table (learnSrc now a mac ie s) = (arp_table s)(a \<mapsto> (mac, now))"
    "waitingFor (learnSrc now a mac ie s) b = (if b = a then [] else waitingFor s b)" by (blast intro: ext)+
  show "arp_out (learnSrc now a mac ie s) = arp_out s @ map (dataFrame (gateFor s a) mac) (waitingFor s a)"
  proof (cases "arpCache s a")
    case None
    then show ?thesis
      by (simp add: learnSrc_def learnt_def inserted_def insertEntry_def Let_def waitingFor_def newARPCacheEntry_def)
  next
    case (Some p)
    then show ?thesis
      using cacheD [OF assms Some] by (auto simp: learnSrc_def learnt_def waitingFor_def packetsAt_def gateFor_def)
  qed
qed

section \<open>Runs\<close>

text \<open>An event the module has to handle without an error.\<close>

fun arp_event_ok :: "simtime \<Rightarrow> ARP \<Rightarrow> ArpIn \<Rightarrow> bool" where
  "arp_event_ok now s (ArpTimer tm) \<longleftrightarrow> arpTimers s tm \<noteq> None"
| "arp_event_ok now s (ArpArrived arp ifid) \<longleftrightarrow>
     \<not> mac_isUnspecified (srcMACAddress arp) \<and> \<not> ip_isUnspecified (srcIPAddress arp) \<and>
     (opcode arp = ARP_REQUEST \<or> opcode arp = ARP_REPLY) \<and> \<not> proxy_trap now s (destIPAddress arp) \<and>
     (case getInterfaceById ifid (nift (arp_node s)) of None \<Rightarrow> False | Some i \<Rightarrow> nic_ok (nift (arp_node s)) i)"
| "arp_event_ok now s (ArpOutbound msg ifid nextHop) \<longleftrightarrow>
     (case getInterfaceById ifid (nift (arp_node s)) of None \<Rightarrow> False | Some i \<Rightarrow> nic_ok (nift (arp_node s)) i) \<and>
     (globalARP s \<longrightarrow> globalArpCache s (if ip_isUnspecified nextHop then destAddress (fst (snd msg)) else nextHop) \<noteq> None)"

fun handedIn :: "ArpIn \<Rightarrow> MsgPtr multiset" where
  "handedIn (ArpOutbound msg ifid nextHop) = {#msg#}"
| "handedIn _ = {#}"

text \<open>\<open>arp_run s0 M t s\<close>: the module gets from \<open>s0\<close> to \<open>s\<close> by time \<open>t\<close>, and was handed the packets \<open>M\<close> on the way.\<close>

inductive arp_run :: "ARP \<Rightarrow> MsgPtr multiset \<Rightarrow> simtime \<Rightarrow> ARP \<Rightarrow> bool" for s0 where
  arp_start: "arp_run s0 {#} 0 s0"
| arp_step: "arp_run s0 M t s \<Longrightarrow> t \<le> now \<Longrightarrow> arp_handleMessage now ev s = Inr s' \<Longrightarrow> arp_run s0 (M + handedIn ev) now s'"

lemma handle_ok:
  assumes "arp_ok s" "node_ok now s" "arp_handleMessage now ev s = Inr s'"
  shows "arp_ok s' \<and> account s' = account s + handedIn ev \<and> same_config s s' \<and> node_ok now s'"
proof (cases ev)
  case (ArpTimer tm)
  then obtain p t where t: "arpTimers s tm = Some (p, t)" using assms(3) by (auto split: option.splits)
  obtain e i where e: "arpHeap s p = Some e" "pending e" "entry_timer e = Some tm"
    and s': "s' = (if numRetries e + 1 < retryCount s then retried now tm p e i s else givenUp tm p e s)"
    using timeout_eq [OF assms(1) t, of now] assms(3) ArpTimer by auto
  show ?thesis
    using retried_ok [OF assms(1) e, of now i] givenUp_ok [OF assms(1) e] assms(2) ArpTimer by (auto simp: s' node_ok_def)
next
  case (ArpArrived arp ifid)
  then show ?thesis using arpPacket_ok [OF assms(1,2)] assms(3) by simp
next
  case (ArpOutbound msg ifid nextHop)
  then show ?thesis using outbound_ok [OF assms(1)] assms(2,3) by (fastforce simp: node_ok_def)
qed

lemma resolve_total:
  assumes "arp_ok s" "nic_ok (nift (arp_node s)) ie"
  shows "\<exists>s'. resolve now msg ie a s = Inr s'"
proof (cases "arpCache s a")
  case None
  then show ?thesis
    using assms(2) by (auto simp: resolve_def insertEntry_def Let_def bindE_eq_Inr initiate_iff queuePacket_iff started_def)
next
  case (Some p)
  obtain e where "arpHeap s p = Some e" using cacheD [OF assms(1) Some] by blast
  then show ?thesis
    using assms(2) Some nic_okD(1) [OF assms(2)]
    by (cases "pending e"; cases "lastUpdate e + cacheTimeout s < now")
      (auto simp: resolve_def derefEntry_def bindE_eq_Inr initiate_iff queuePacket_iff started_def updEntry_def sendPacketToNIC_def)
qed

lemma handle_total:
  assumes "arp_ok s" "node_ok now s" "arp_event_ok now s ev"
  shows "\<exists>s'. arp_handleMessage now ev s = Inr s'"
proof (cases ev)
  case (ArpTimer tm)
  then obtain p t where "arpTimers s tm = Some (p, t)" using assms(3) by auto
  from timeout_eq [OF assms(1) this, of now] ArpTimer show ?thesis by blast
next
  case (ArpArrived arp ifid)
  then obtain i where i: "getInterfaceById ifid (nift (arp_node s)) = Some i" "nic_ok (nift (arp_node s)) i"
    using assms(3) by (auto split: option.splits)
  obtain r where "processARPPacket now arp ifid s =
        (if recognizes now s (destIPAddress arp) (Some i) then replyTo arp (Some i) (setNodeRT r (afterLearning now arp (Some i) s))
         else Inr (setNodeRT r (afterLearning now arp (Some i) s)))"
    using processARPPacket_eq [OF assms(1,2) i(1), of arp] assms(3) ArpArrived by auto
  moreover have "nic_ok (nift (arp_node (setNodeRT r (afterLearning now arp (Some i) s)))) i"
    using i(2) learnSrc_ok [OF assms(1)] by (simp add: afterLearning_def same_config_def)
  ultimately show ?thesis
    using assms(3) ArpArrived replyTo_request replyTo_reply by (cases "opcode arp = ARP_REQUEST") auto
next
  case (ArpOutbound msg ifid nextHop)
  then obtain i where i: "getInterfaceById ifid (nift (arp_node s)) = Some i" "nic_ok (nift (arp_node s)) i"
    using assms(3) by (auto split: option.splits)
  show ?thesis
    using i nic_okD(1,2) [OF i(2)] assms(3) resolve_total [OF assms(1) i(2)] ArpOutbound
    by (auto simp: processOutboundPacket_def sendPacketToNIC_def Let_def)
qed

lemma arp_ok_init: "arp_initialize node rto rc cto proxy glob g = Inr s \<Longrightarrow> arp_ok s \<and> account s = {#} \<and> arp_node s = node"
  by (auto simp: arp_initialize_def bindE_eq_Inr arp_ok_def cache_heap_def timers_ok_def account_def waiting_def)

lemma arp_run_ok:
  assumes "arp_run s0 M t s" "arp_ok s0" "account s0 = {#}" "node_ok 0 s0"
  shows "arp_ok s \<and> account s = M \<and> node_ok t s \<and> same_config s0 s"
  using assms
proof (induction rule: arp_run.induct)
  case arp_start
  then show ?case by simp
next
  case (arp_step M t s now ev s')
  then have "arp_ok s" "account s = M" "node_ok now s" "same_config s0 s" using rt_ok_time by (auto simp: node_ok_def)
  then show ?case using handle_ok [OF _ _ arp_step.hyps(3)] same_config_trans by blast
qed

section \<open>The treatment of ARP packets and of packets from IP\<close>

lemma config_sel:
  assumes "same_config s s'"
  shows "nift (arp_node s') = nift (arp_node s)" "retryCount s' = retryCount s"
  using assms by (simp_all add: same_config_def)

lemma table_cong:
  assumes "arpCache s' = arpCache s" "arpHeap s' = arpHeap s"
  shows "arp_table s' = arp_table s" "waitingFor s' = waitingFor s"
  by (rule ext, simp only: arp_table_def waitingFor_def assms)+

lemma table_setNodeRT [simp]:
  "arp_table (setNodeRT r s) = arp_table s" "waitingFor (setNodeRT r s) = waitingFor s"
  by (rule table_cong; simp add: setNodeRT_def)+

lemma table_replied [simp]:
  "arp_table (replied arp i s) = arp_table s" "waitingFor (replied arp i s) = waitingFor s"
  "arp_out (replied arp i s) = arp_out s @ [arpReply s arp i]"
  by (rule table_cong; simp add: replied_def arp_emit_def)+ (simp add: replied_def arp_emit_def)

lemma packet_rfc826:
  assumes "arp_ok s" "node_ok now s" "arp_event_ok now s (ArpArrived arp ifid)"
  shows "\<exists>s'. arp_handleMessage now (ArpArrived arp ifid) s = Inr s' \<and>
    (let ie = getInterfaceById ifid (nift (arp_node s)); mine = recognizes now s (destIPAddress arp) ie;
         src = srcIPAddress arp; mac = srcMACAddress arp
     in arp_table s' = (if arpCache s src \<noteq> None \<or> mine then (arp_table s)(src \<mapsto> (mac, now)) else arp_table s) \<and>
        arp_out s' = arp_out s @ map (dataFrame (gateFor s src) mac) (waitingFor s src) @
          (if mine \<and> opcode arp = ARP_REQUEST then [arpReply s arp (the ie)] else []) \<and>
        waitingFor s' src = [])"
proof -
  obtain i where i: "getInterfaceById ifid (nift (arp_node s)) = Some i" "nic_ok (nift (arp_node s)) i"
    using assms(3) by (auto split: option.splits)
  let ?m = "recognizes now s (destIPAddress arp) (Some i)" and ?s1 = "afterLearning now arp (Some i) s" and ?src = "srcIPAddress arp"
  obtain r where p: "processARPPacket now arp ifid s =
        (if ?m then replyTo arp (Some i) (setNodeRT r ?s1) else Inr (setNodeRT r ?s1))"
    using processARPPacket_eq [OF assms(1,2) i(1), of arp] assms(3) by auto
  have n: "nift (arp_node ?s1) = nift (arp_node s)"
    using config_sel(1) learnSrc_ok [OF assms(1)] by (simp add: afterLearning_def)
  have op: "opcode arp = ARP_REQUEST \<or> opcode arp = ARP_REPLY" using assms(3) by simp
  let ?s' = "if ?m \<and> opcode arp = ARP_REQUEST then replied arp i (setNodeRT r ?s1) else setNodeRT r ?s1"
  have s': "processARPPacket now arp ifid s = Inr ?s'"
    using p op replyTo_request [of "setNodeRT r ?s1" i arp] replyTo_reply [of arp] n i(2) by (auto simp: arp_consts)
  have t: "arp_table ?s1 = (if arpCache s ?src \<noteq> None \<or> ?m then (arp_table s)(?src \<mapsto> (srcMACAddress arp, now)) else arp_table s)"
    "arp_out ?s1 = arp_out s @ map (dataFrame (gateFor s ?src) (srcMACAddress arp)) (waitingFor s ?src)" "waitingFor ?s1 ?src = []"
    using arp_table_learnSrc [OF assms(1)] by (auto simp: afterLearning_def learns_def waitingFor_def)
  have "arpReply (setNodeRT r ?s1) arp i = arpReply s arp i" by (simp add: arpReply_def n)
  then show ?thesis using s' t i(1) by (intro exI [of _ ?s']) (simp add: Let_def)
qed

text \<open>The address ARP looks up for a packet, and whether the frame goes to all stations instead.\<close>

definition arpNextHop :: "MsgPtr \<Rightarrow> IPAddress \<Rightarrow> IPAddress" where
  "arpNextHop msg nextHop = (if ip_isUnspecified nextHop then destAddress (fst (snd msg)) else nextHop)"

definition toAllStations :: "ARP \<Rightarrow> nat \<Rightarrow> IPAddress \<Rightarrow> bool" where
  "toAllStations s i a \<longleftrightarrow> ip_isMulticast a \<or> a = ALLONES_ADDRESS \<or>
     a = getBroadcastAddress (inetAddr (nicData (nift (arp_node s)) i)) (if_netmask (nicData (nift (arp_node s)) i))"

definition freshMAC :: "simtime \<Rightarrow> ARP \<Rightarrow> IPAddress \<Rightarrow> MACAddress option" where
  "freshMAC now s a = (case arp_table s a of None \<Rightarrow> None | Some (mac, u) \<Rightarrow> if u + cacheTimeout s < now then None else Some mac)"

lemma resolve_effect:
  assumes "arp_ok s" "resolve now msg i a s = Inr s'"
  shows "case freshMAC now s a of
      Some mac \<Rightarrow> arp_out s' = arp_out s @ [dataFrame (nwLayerGateIndex (nic (nift (arp_node s)) i)) mac msg] \<and> arp_table s' = arp_table s
    | None \<Rightarrow> waitingFor s' a = waitingFor s a @ [msg] \<and> arp_table s' a = None \<and>
        arp_out s' = arp_out s @ (if arpCache s a \<noteq> None \<and> arp_table s a = None then [] else [arpRequest s i a])"
proof (cases "arpCache s a")
  case None
  then show ?thesis
    using assms(2)
    by (auto simp: resolve_def insertEntry_def Let_def bindE_eq_Inr initiate_iff queuePacket_iff started_def requested_def startedEntry_def
        queued_def freshMAC_def arp_table_def waitingFor_def packetsAt_def newARPCacheEntry_def arpRequest_def)
next
  case (Some p)
  obtain e where e: "arpHeap s p = Some e" "myIter e = a" using cacheD [OF assms(1) Some] by blast
  have w: "\<not> pending e \<Longrightarrow> pendingPackets e = []" using assms(1) timers_okD(3) [OF _ e(1)] by (simp add: arp_ok_def)
  consider (q) "pending e" | (x) "\<not> pending e" "lastUpdate e + cacheTimeout s < now" | (h) "\<not> pending e" "\<not> lastUpdate e + cacheTimeout s < now"
    by blast
  then show ?thesis
  proof cases
    case q
    then show ?thesis
      using assms(2) Some e(1)
      by (auto simp: resolve_def derefEntry_def queuePacket_iff queued_def freshMAC_def arp_table_def waitingFor_def packetsAt_def)
  next
    case x
    then show ?thesis
      using assms(2) Some e w
      by (auto simp: resolve_def derefEntry_def bindE_eq_Inr initiate_iff queuePacket_iff started_def requested_def startedEntry_def
          updEntry_def queued_def freshMAC_def arp_table_def waitingFor_def packetsAt_def arpRequest_def)
  next
    case h
    then show ?thesis
      using assms(2) Some e table_cong(1) [of s' s]
      by (auto simp: resolve_def derefEntry_def bindE_eq_Inr sendPacketToNIC_def arp_emit_def freshMAC_def arp_table_def
          dataFrame_def nic_def)
  qed
qed

section \<open>The end of a resolution\<close>

fun timeouts :: "simtime list \<Rightarrow> nat \<Rightarrow> ARP \<Rightarrow> ARP res" where
  "timeouts [] tm s = Inr s"
| "timeouts (t # ts) tm s = bindE (arp_handleMessage t (ArpTimer tm) s) (timeouts ts tm)"

lemma timeouts_end:
  assumes "arp_ok s" "arpHeap s p = Some e" "pending e" "entry_timer e = Some tm" "entry_ie e = Some i"
    and "length ts = nat (max 1 (retryCount s - numRetries e))"
  shows "\<exists>s'. timeouts ts tm s = Inr s' \<and> arpCache s' (myIter e) = None \<and> arpTimers s' tm = None \<and>
    arp_out s' = arp_out s @ replicate (length ts - 1) (arpRequest s i (myIter e)) @ map Deleted (pendingPackets e)"
  using assms
proof (induction ts arbitrary: s e)
  case Nil
  then show ?case by simp
next
  case (Cons t ts)
  note c = Cons.prems
  have ok: "timers_ok s" using c(1) by (simp add: arp_ok_def)
  obtain u where "arpTimers s tm = Some (p, u)" using timers_okD(2) [OF ok c(2,3)] c(4) by auto
  from timeout_eq [OF c(1) this, of t] c(2,5)
  have h: "arp_handleMessage t (ArpTimer tm) s =
      Inr (if numRetries e + 1 < retryCount s then retried t tm p e i s else givenUp tm p e s)" by auto
  show ?case
  proof (cases "numRetries e + 1 < retryCount s")
    case True
    let ?s = "retried t tm p e i s" and ?e = "e\<lparr>numRetries := numRetries e + 1\<rparr>"
    have "arp_ok ?s" using retried_ok [OF c(1-4)] by blast
    moreover have "arpHeap ?s p = Some ?e" "retryCount ?s = retryCount s" "arpRequest ?s i a = arpRequest s i a"
      "arp_out ?s = arp_out s @ [arpRequest s i (myIter e)]" for a
      by (simp_all add: retried_def requested_def arpRequest_def)
    moreover have l: "length ts = nat (max 1 (retryCount s - (numRetries e + 1)))" "0 < length ts" using c(6) True by auto
    ultimately obtain s' where "timeouts ts tm ?s = Inr s'" "arpCache s' (myIter e) = None" "arpTimers s' tm = None"
      "arp_out s' = arp_out s @ [arpRequest s i (myIter e)] @ replicate (length ts - 1) (arpRequest s i (myIter e)) @ map Deleted (pendingPackets e)"
      using Cons.IH [of ?s ?e] c(3-5) by auto
    moreover obtain k where "length ts = Suc k" using l(2) by (cases "length ts") auto
    ultimately show ?thesis using h True by simp
  next
    case False
    then have "ts = []" using c(6) by auto
    then show ?thesis using h False by (simp add: givenUp_def)
  qed
qed

section \<open>Two hosts\<close>

lemma collectData_mem:
  "collectData t ps = Inr ds \<Longrightarrow> p \<in> set ps \<Longrightarrow> ipv4Data p t = Inr d \<Longrightarrow> d \<in> set ds"
  by (induction ps arbitrary: ds) (auto simp: bindE_eq_Inr)

lemma nic_addr:
  assumes "ift_ok t" "nic_ok t i"
  shows "inetAddr (nicData t i) \<in> addrs t"
proof -
  have "i \<in> set (interfaces t)" using nic_okD(1) [OF assms(2)] by (simp add: mem_interfaces)
  moreover obtain ds where ds: "collectData t (interfaces t) = Inr ds" using assms(1) by (auto simp: ift_ok_def)
  ultimately have "nicData t i \<in> set ds" using collectData_mem nic_okD(2) [OF assms(2)] by blast
  then show ?thesis using ds by (simp add: addrs_def)
qed

lemma recognizes_local: "a \<in> addrs (nift (arp_node s)) \<Longrightarrow> recognizes now s a ie \<and> \<not> proxy_trap now s a"
  by (simp add: recognizes_def proxy_trap_def)

text \<open>The packet of a request, and the packet that answers it.\<close>

definition requestPacket :: "ARP \<Rightarrow> nat \<Rightarrow> IPAddress \<Rightarrow> ARPPacket" where
  "requestPacket s i a =
     \<lparr> arp_name = ''arpREQ'', arp_byteLength = ARP_HEADER_BYTES, opcode = ARP_REQUEST,
       srcMACAddress = macAddr (nic (nift (arp_node s)) i), destMACAddress = 0,
       srcIPAddress = inetAddr (nicData (nift (arp_node s)) i), destIPAddress = a \<rparr>"

definition replyPacket :: "ARP \<Rightarrow> ARPPacket \<Rightarrow> nat \<Rightarrow> ARPPacket" where
  "replyPacket s arp i = arp\<lparr>arp_name := ''arpREPLY'', destIPAddress := srcIPAddress arp, destMACAddress := srcMACAddress arp,
     srcIPAddress := destIPAddress arp, srcMACAddress := macAddr (nic (nift (arp_node s)) i), opcode := ARP_REPLY\<rparr>"

lemma request_reply_frames:
  "arpRequest s i a = ToNic (nwLayerGateIndex (nic (nift (arp_node s)) i)) (ArpFrame (requestPacket s i a)) (Some mac_BROADCAST_ADDRESS)"
  "arpReply s arp i = ToNic (nwLayerGateIndex (nic (nift (arp_node s)) i)) (ArpFrame (replyPacket s arp i)) (Some (srcMACAddress arp))"
  by (simp_all add: arpRequest_def requestPacket_def arpReply_def replyPacket_def Let_def)

lemma request_answered:
  assumes "arp_ok sB" "node_ok now sB" "getInterfaceById ifB (nift (arp_node sB)) = Some j" "nic_ok (nift (arp_node sB)) j"
    and "b \<in> addrs (nift (arp_node sB))" "nic_ok (nift (arp_node sA)) i"
  shows "\<exists>sB'. arp_handleMessage now (ArpArrived (requestPacket sA i b) ifB) sB = Inr sB' \<and>
    last (arp_out sB') = arpReply sB (requestPacket sA i b) j \<and>
    arp_table sB' (inetAddr (nicData (nift (arp_node sA)) i)) = Some (macAddr (nic (nift (arp_node sA)) i), now)"
proof -
  have "arp_event_ok now sB (ArpArrived (requestPacket sA i b) ifB)"
    using assms(3-5) nic_okD(3,4) [OF assms(6)] recognizes_local [of b sB] by (simp add: requestPacket_def)
  from packet_rfc826 [OF assms(1,2) this] show ?thesis
    using assms(3,5) recognizes_local [of b sB] by (auto simp: Let_def requestPacket_def)
qed

lemma reply_resolves:
  assumes "arp_ok sA" "node_ok now sA" "getInterfaceById ifA (nift (arp_node sA)) = Some i" "nic_ok (nift (arp_node sA)) i"
    and "nic_ok (nift (arp_node sB)) j" "b \<noteq> 0"
  shows "\<exists>sA'. arp_handleMessage now (ArpArrived (replyPacket sB (requestPacket sA i b) j) ifA) sA = Inr sA' \<and>
    arp_out sA' = arp_out sA @ map (dataFrame (gateFor sA b) (macAddr (nic (nift (arp_node sB)) j))) (waitingFor sA b) \<and>
    arp_table sA' b = Some (macAddr (nic (nift (arp_node sB)) j), now) \<and> waitingFor sA' b = []"
proof -
  let ?a = "inetAddr (nicData (nift (arp_node sA)) i)"
  have l: "?a \<in> addrs (nift (arp_node sA))" using assms(2,4) nic_addr by (simp add: node_ok_def rt_ok_def)
  have "arp_event_ok now sA (ArpArrived (replyPacket sB (requestPacket sA i b) j) ifA)"
    using assms(3,4,6) nic_okD(3) [OF assms(5)] recognizes_local [OF l]
    by (simp add: requestPacket_def replyPacket_def ip_isUnspecified_def)
  from packet_rfc826 [OF assms(1,2) this] show ?thesis
    using assms(3) recognizes_local [OF l] by (auto simp: Let_def requestPacket_def replyPacket_def arp_consts)
qed

section \<open>An example host\<close>

definition demo_nic :: "IPAddress \<Rightarrow> MACAddress \<Rightarrow> InterfaceEntry" where
  "demo_nic a m = (demo_entry ''eth0'' 100 a 0xFF000000)\<lparr>macAddr := m\<rparr>"

definition demo_host :: "IPAddress \<Rightarrow> MACAddress \<Rightarrow> IPNode" where
  "demo_host a m = \<lparr> nift = \<lparr> idToInterface = [Some (demo_nic a m)], tmpNumInterfaces = - 1, tmpInterfaceList = None \<rparr>,
     nrt = newRoutingTable False, inInit = False \<rparr>"

definition demo_arp :: "IPAddress \<Rightarrow> MACAddress \<Rightarrow> ARP" where
  "demo_arp a m = \<lparr> arp_node = demo_host a m, retryTimeout = 1, retryCount = 3, cacheTimeout = 120, doProxyARP = False,
     globalARP = False, numResolutions = 0, numFailedResolutions = 0, numRequestsSent = 0, numRepliesSent = 0,
     arpCache = (\<lambda>_. None), globalArpCache = [a \<mapsto> newARPCacheEntry\<lparr>entry_ie := Some 0, macAddress := m, myIter := a\<rparr>],
     pendingQueue = [], arpHeap = (\<lambda>_. None), arpNextEntry = 0, arpTimers = (\<lambda>_. None), arpNextTimer = 0, arp_out = [] \<rparr>"

lemma demo_host_if:
  "interfaces (nift (demo_host a m)) = [0]" "derefIf 0 (nift (demo_host a m)) = Inr (demo_nic a m)"
  "getInterfaceById 100 (nift (demo_host a m)) = Some 0"
  "ipv4Data 0 (nift (demo_host a m)) = Inr \<lparr> inetAddr = a, if_netmask = 0xFF000000, if_metric = 1, multicastGroups = [] \<rparr>"
  by (simp_all add: interfaces_def demo_host_def derefIf_def getInterfaceById_def INTERFACEIDS_START_def ipv4Data_def demo_nic_def demo_entry_def)

lemma demo_host_nic: "mac_isUnspecified m = False \<Longrightarrow> a \<noteq> 0 \<Longrightarrow> nic_ok (nift (demo_host a m)) 0"
  by (simp add: nic_ok_def demo_host_if ip_isUnspecified_def demo_nic_def demo_entry_def)

lemma demo_arp_init: "arp_initialize (demo_host a m) 1 3 120 False False (\<lambda>_. None) = Inr (demo_arp a m)"
  by (simp add: arp_initialize_def demo_host_if demo_arp_def Let_def demo_nic_def demo_entry_def newInterfaceEntry_def)

lemma demo_host_ok: "rt_ok 0 (nift (demo_host a m)) (nrt (demo_host a m))"
proof (rule rt_ok_I)
  show "ift_ok (nift (demo_host a m))" by (simp add: ift_ok_def demo_host_if)
qed (simp_all add: rt_wf_def demo_host_def newRoutingTable_def)

lemma demo_arp_ok: "arp_ok (demo_arp a m)" "node_ok 0 (demo_arp a m)" "account (demo_arp a m) = {#}"
  using arp_ok_init [OF demo_arp_init] demo_host_ok by (auto simp: node_ok_def)

end
