(* ===== verification/ARP_Props.thy ===== *)
theory ARP_Props
  imports ARP_Run
begin

text \<open>
  The properties of address resolution, stated for the states the module reaches after initialization.
\<close>

lemma reached:
  assumes "arp_initialize node rto rc cto proxy glob g = Inr s0" "rt_ok 0 (nift node) (nrt node)" "arp_run s0 M t s"
  shows "arp_ok s \<and> account s = M \<and> node_ok t s \<and> same_config s0 s"
  using arp_run_ok [OF assms(3)] arp_ok_init [OF assms(1)] assms(2) by (simp add: node_ok_def)

lemma node_ok_later: "node_ok t s \<Longrightarrow> t \<le> now \<Longrightarrow> node_ok now s"
  using rt_ok_time by (simp add: node_ok_def)

text \<open>A packet for a neighbour, the first one of a resolution.\<close>

definition demo_msg :: MsgPtr where
  "demo_msg = (7, (demo_header\<lparr>destAddress := 0x0A000002\<rparr>, None))"

abbreviation "demo_A \<equiv> demo_arp 0x0A000001 0xA"
abbreviation "demo_B \<equiv> demo_arp 0x0A000002 0xB"

lemma demo_macs: "mac_isUnspecified 0xA = False" "mac_isUnspecified 0xB = False"
  by code_simp+

lemma demo_arp_sel [simp]: "arp_node (demo_arp a m) = demo_host a m" "arp_out (demo_arp a m) = []" "retryCount (demo_arp a m) = 3"
  "globalARP (demo_arp a m) = False" "arpCache (demo_arp a m) = (\<lambda>_. None)"
  by (simp_all add: demo_arp_def)

text \<open>The state of host A after the packet has started a resolution.\<close>

definition demo_pending :: ARPCacheEntry where
  "demo_pending = newARPCacheEntry\<lparr>entry_ie := Some 0, myIter := 0x0A000002, pending := True, entry_timer := Some 0,
     pendingPackets := [demo_msg]\<rparr>"

definition demo_waiting :: ARP where
  "demo_waiting = demo_A\<lparr>arpHeap := [0 \<mapsto> demo_pending], arpNextEntry := 1, arpCache := [0x0A000002 \<mapsto> 0], arpTimers := [0 \<mapsto> (0, 1)],
     arpNextTimer := 1, pendingQueue := [demo_msg], arp_out := [arpRequest demo_A 0 0x0A000002], numRequestsSent := 1, numResolutions := 1\<rparr>"

lemma demo_run: "arp_run demo_A {#demo_msg#} 0 demo_waiting"
proof -
  have n: "nic_ok (nift (demo_host 0x0A000001 0xA)) 0" using demo_host_nic [OF demo_macs(1), of "0x0A000001"] by simp
  have "resolve 0 demo_msg 0 0x0A000002 demo_A = Inr demo_waiting"
    using n by (auto simp: resolve_def insertEntry_def Let_def bindE_eq_Inr initiate_iff queuePacket_iff demo_arp_def demo_waiting_def
        demo_pending_def newARPCacheEntry_def started_def requested_def startedEntry_def queued_def arpRequest_def)
  then have "arp_handleMessage 0 (ArpOutbound demo_msg 100 0) demo_A = Inr demo_waiting"
    by (simp add: processOutboundPacket_def demo_host_if demo_nic_def demo_entry_def Let_def ip_isUnspecified_def demo_msg_def
        ip_isMulticast_def ALLONES_ADDRESS_def getBroadcastAddress_def)
  from arp_step [OF arp_start order_refl this] show ?thesis by simp
qed

lemma demo_waiting_sel:
  "arpCache demo_waiting 0x0A000002 = Some 0" "arpHeap demo_waiting 0 = Some demo_pending" "retryCount demo_waiting = 3"
  "arp_out demo_waiting = [arpRequest demo_A 0 0x0A000002]" "waitingFor demo_waiting 0x0A000002 = [demo_msg]"
  "pending demo_pending \<and> numRetries demo_pending = 0 \<and> entry_ie demo_pending = Some 0"
  "arp_node demo_waiting = demo_host 0x0A000001 0xA"
  by (simp_all add: demo_waiting_def demo_pending_def newARPCacheEntry_def waitingFor_def packetsAt_def)

section \<open>Properties\<close>

text \<open>
  Property C32: ARP never loses track of a packet, an entry or a timer.  In every state the module reaches by
  handling packets from IP, ARP packets and timeouts in any order, the cache and the entries on the heap point to each
  other, an entry that waits for an answer has exactly one timer in the schedule, which points to it, and an
  entry that does not wait has no packets; the queue of waiting packets holds exactly the packets of the
  waiting entries.  Every packet handed over by IP has been sent once, or was deleted when its resolution
  failed, or is still waiting.  No handler fails on an event that can be handled; in particular no timer
  fires on an entry that is gone.
\<close>

theorem arp_consistent:
  assumes "arp_initialize node rto rc cto proxy glob g = Inr s0" "rt_ok 0 (nift node) (nrt node)" "arp_run s0 M t s"
  shows "arp_ok s \<and> handledMsgs (arp_out s) + mset (pendingQueue s) = M \<and>
    (\<forall>now ev. t \<le> now \<longrightarrow> arp_event_ok now s ev \<longrightarrow> (\<exists>s'. arp_handleMessage now ev s = Inr s'))"
  using reached [OF assms] handle_total node_ok_later by (auto simp: account_def)

theorem arp_consistent_witness:
  "\<exists>s. arp_run demo_A {#demo_msg#} 0 s \<and> handledMsgs (arp_out s) + mset (pendingQueue s) = {#demo_msg#}"
proof -
  let ?ev = "ArpOutbound demo_msg 100 0"
  have e: "arp_event_ok 0 demo_A ?ev" using demo_host_nic [OF demo_macs(1), of "0x0A000001"] by (simp add: demo_host_if)
  note c = arp_consistent [OF demo_arp_init demo_host_ok]
  obtain s where "arp_handleMessage 0 ?ev demo_A = Inr s" using c [OF arp_start] e by blast
  then have "arp_run demo_A {#demo_msg#} 0 s" using arp_step [OF arp_start, of 0 ?ev demo_A s] by simp
  then show ?thesis using c by blast
qed

text \<open>
  Property C33: ARP packets are treated as RFC 826 prescribes.  In every reachable state a request or a reply
  that arrives on an interface enters its sender into the table, when the sender is already in the
  table or the packet is for this host (for an address it answers for as a proxy, when that is enabled),
  and leaves the rest of the table alone.  The packets that wait for the sender are sent to its address, in the order in
  which they came, and none is left waiting; a request for this host is answered with one reply, after
  them, and nothing else is sent.
\<close>

theorem arp_rfc826:
  assumes "arp_initialize node rto rc cto proxy glob g = Inr s0" "rt_ok 0 (nift node) (nrt node)" "arp_run s0 M t s" "t \<le> now"
    and "arp_event_ok now s (ArpArrived arp ifid)"
  shows "\<exists>s'. arp_handleMessage now (ArpArrived arp ifid) s = Inr s' \<and>
    (let ie = getInterfaceById ifid (nift (arp_node s)); mine = recognizes now s (destIPAddress arp) ie;
         src = srcIPAddress arp; mac = srcMACAddress arp
     in arp_table s' = (if arpCache s src \<noteq> None \<or> mine then (arp_table s)(src \<mapsto> (mac, now)) else arp_table s) \<and>
        arp_out s' = arp_out s @ map (dataFrame (gateFor s src) mac) (waitingFor s src) @
          (if mine \<and> opcode arp = ARP_REQUEST then [arpReply s arp (the ie)] else []) \<and>
        waitingFor s' src = [])"
  using reached [OF assms(1-3)] packet_rfc826 [OF _ _ assms(5)] node_ok_later [OF _ assms(4)] by blast

theorem arp_rfc826_witness:
  "\<exists>s'. arp_handleMessage 0 (ArpArrived (requestPacket demo_A 0 0x0A000002) 100) demo_B = Inr s' \<and>
    arp_table s' 0x0A000001 = Some (0xA, 0) \<and> arp_out s' = [arpReply demo_B (requestPacket demo_A 0 0x0A000002) 0]"
proof -
  let ?p = "requestPacket demo_A 0 0x0A000002"
  have l: "0x0A000002 \<in> addrs (nift (arp_node demo_B))" by (simp add: addrs_def demo_host_if)
  have n: "nic_ok (nift (arp_node demo_A)) 0" "nic_ok (nift (arp_node demo_B)) 0"
    using demo_host_nic [OF demo_macs(1), of "0x0A000001"] demo_host_nic [OF demo_macs(2), of "0x0A000002"] by simp_all
  have p: "srcIPAddress ?p = 0x0A000001" "srcMACAddress ?p = 0xA" "destIPAddress ?p = 0x0A000002" "opcode ?p = ARP_REQUEST"
    by (simp_all add: requestPacket_def nic_def nicData_def demo_host_if demo_nic_def)
  have "arp_event_ok 0 demo_B (ArpArrived ?p 100)"
    using n(2) recognizes_local [OF l] demo_macs by (simp add: p demo_host_if ip_isUnspecified_def)
  from arp_rfc826 [OF demo_arp_init demo_host_ok arp_start order_refl this] show ?thesis
    using recognizes_local [OF l] by (auto simp: Let_def p demo_host_if waitingFor_def)
qed

text \<open>
  A packet from IP goes to the address that was learnt for its next hop, or waits for it.  In every
  reachable state, for a packet that leaves through a broadcast interface to a single neighbour: if the
  neighbour's address was learnt at most the cache timeout ago the packet is sent to that address
  at once and the table stays as it is; otherwise the packet waits behind the ones that came before, and a request goes out unless
  one is already under way.
\<close>

theorem arp_outbound:
  assumes "arp_initialize node rto rc cto proxy False g = Inr s0" "rt_ok 0 (nift node) (nrt node)" "arp_run s0 M t s" "t \<le> now"
    and "getInterfaceById ifid (nift (arp_node s)) = Some i" "nic_ok (nift (arp_node s)) i" "broadcast (nic (nift (arp_node s)) i)"
    and "a = arpNextHop msg nextHop" "\<not> toAllStations s i a"
  shows "\<exists>s'. arp_handleMessage now (ArpOutbound msg ifid nextHop) s = Inr s' \<and>
    (case freshMAC now s a of
       Some mac \<Rightarrow> arp_out s' = arp_out s @ [dataFrame (nwLayerGateIndex (nic (nift (arp_node s)) i)) mac msg] \<and> arp_table s' = arp_table s
     | None \<Rightarrow> waitingFor s' a = waitingFor s a @ [msg] \<and> arp_table s' a = None \<and>
         arp_out s' = arp_out s @ (if arpCache s a \<noteq> None \<and> arp_table s a = None then [] else [arpRequest s i a]))"
proof -
  have r: "arp_ok s" "same_config s0 s" using reached [OF assms(1-3)] by auto
  have g: "\<not> globalARP s" using assms(1) r(2) by (auto simp: arp_initialize_def bindE_eq_Inr same_config_def)
  have "arp_handleMessage now (ArpOutbound msg ifid nextHop) s = resolve now msg i a s"
    using assms(5-9) g nic_okD(1,2) [OF assms(6)] by (simp add: processOutboundPacket_def Let_def arpNextHop_def toAllStations_def)
  then show ?thesis using resolve_total [OF r(1) assms(6)] resolve_effect [OF r(1)] by metis
qed

theorem arp_outbound_witness:
  "\<exists>s'. arp_handleMessage 0 (ArpOutbound demo_msg 100 0) demo_A = Inr s' \<and>
    waitingFor s' 0x0A000002 = [demo_msg] \<and> arp_out s' = [arpRequest demo_A 0 0x0A000002]"
proof -
  have n: "nic_ok (nift (arp_node demo_A)) 0" using demo_host_nic [OF demo_macs(1), of "0x0A000001"] by simp
  have h: "0x0A000002 = arpNextHop demo_msg 0" by (simp add: arpNextHop_def demo_msg_def ip_isUnspecified_def)
  have b: "broadcast (nic (nift (arp_node demo_A)) 0)" by (simp add: nic_def demo_host_if demo_nic_def demo_entry_def)
  have a: "\<not> toAllStations demo_A 0 0x0A000002"
    by (simp add: toAllStations_def ip_isMulticast_def ALLONES_ADDRESS_def nicData_def demo_host_if getBroadcastAddress_def)
  have i: "getInterfaceById 100 (nift (arp_node demo_A)) = Some 0" by (simp add: demo_host_if)
  from arp_outbound [OF demo_arp_init demo_host_ok arp_start order_refl i n b h a] show ?thesis
    by (auto simp: freshMAC_def arp_table_def waitingFor_def)
qed

text \<open>
  Every resolution ends.  In every reachable state, when nobody answers for an address
  that is being resolved, the timer of its entry fires at most as often as the retry count says; all but the last
  time a request is sent again, and the last time the entry leaves the cache, its packets are
  deleted, and no timer is left.
\<close>

theorem arp_gives_up:
  assumes "arp_initialize node rto rc cto proxy glob g = Inr s0" "rt_ok 0 (nift node) (nrt node)" "arp_run s0 M t s"
    and "arpCache s a = Some p" "arpHeap s p = Some e" "pending e" "length ts = nat (max 1 (retryCount s - numRetries e))"
  shows "\<exists>tm i s'. entry_timer e = Some tm \<and> entry_ie e = Some i \<and> timeouts ts tm s = Inr s' \<and>
    arpCache s' a = None \<and> arpTimers s' tm = None \<and>
    arp_out s' = arp_out s @ replicate (length ts - 1) (arpRequest s i a) @ map Deleted (waitingFor s a)"
proof -
  have ok: "arp_ok s" using reached [OF assms(1-3)] by blast
  then have t: "timers_ok s" by (simp add: arp_ok_def)
  note facts = timers_okD(1,2) [OF t assms(5,6)]
  from facts(2) obtain tm where tm: "entry_timer e = Some tm" by blast
  from facts(1) obtain i where i: "entry_ie e = Some i" by blast
  have "myIter e = a" using cacheD [OF ok assms(4)] assms(5) by auto
  then show ?thesis
    using timeouts_end [OF ok assms(5,6) tm i assms(7)] tm i assms(4,5) by (auto simp: waitingFor_def packetsAt_def)
qed

theorem arp_gives_up_witness:
  "\<exists>tm s'. timeouts [1, 2, 3] tm demo_waiting = Inr s' \<and>
    arp_out s' = [arpRequest demo_A 0 0x0A000002, arpRequest demo_waiting 0 0x0A000002, arpRequest demo_waiting 0 0x0A000002, Deleted demo_msg]"
proof -
  note f = demo_waiting_sel
  have "length [1, 2, 3 :: simtime] = nat (max 1 (retryCount demo_waiting - numRetries demo_pending))" "pending demo_pending"
    using f(3,6) by simp_all
  from arp_gives_up [OF demo_arp_init demo_host_ok demo_run f(1,2) this(2,1)] show ?thesis
    using f(4-6) by (auto simp: numeral_2_eq_2)
qed

text \<open>
  Property C34: two hosts resolve each other's address.  When host A is in a reachable state in which it resolves the
  address \<open>b\<close> on one of its interfaces, and its request reaches an interface of host B, which owns \<open>b\<close> and is in any reachable
  state, then B answers with one reply, the last thing it sends, and learns A's address; and when the reply reaches
  A, all the packets A holds back for \<open>b\<close> leave in their order for B's hardware address, and none is left.
\<close>

theorem arp_resolves:
  assumes "arp_initialize nodeA rtoA rcA ctoA proxyA globA gA = Inr s0" "rt_ok 0 (nift nodeA) (nrt nodeA)" "arp_run s0 M t sA"
    and "arp_initialize nodeB rtoB rcB ctoB proxyB globB gB = Inr s1" "rt_ok 0 (nift nodeB) (nrt nodeB)" "arp_run s1 N t sB"
    and "t \<le> now" "arpCache sA b = Some p" "arpHeap sA p = Some e" "pending e" "b \<noteq> 0"
    and "getInterfaceById ifA (nift (arp_node sA)) = entry_ie e"
    and "getInterfaceById ifB (nift (arp_node sB)) = Some j" "nic_ok (nift (arp_node sB)) j" "b \<in> addrs (nift (arp_node sB))"
  shows "\<exists>i sB' sA'. entry_ie e = Some i \<and>
    arp_handleMessage now (ArpArrived (requestPacket sA i b) ifB) sB = Inr sB' \<and>
    last (arp_out sB') = arpReply sB (requestPacket sA i b) j \<and>
    arp_table sB' (inetAddr (nicData (nift (arp_node sA)) i)) = Some (macAddr (nic (nift (arp_node sA)) i), now) \<and>
    arp_handleMessage now (ArpArrived (replyPacket sB (requestPacket sA i b) j) ifA) sA = Inr sA' \<and>
    arp_out sA' = arp_out sA @ map (dataFrame (gateFor sA b) (macAddr (nic (nift (arp_node sB)) j))) (waitingFor sA b) \<and>
    arp_table sA' b = Some (macAddr (nic (nift (arp_node sB)) j), now) \<and> waitingFor sA' b = []"
proof -
  have a: "arp_ok sA" "node_ok now sA" and b: "arp_ok sB" "node_ok now sB"
    using reached [OF assms(1-3)] reached [OF assms(4-6)] node_ok_later [OF _ assms(7)] by blast+
  then obtain i where i: "entry_ie e = Some i" "nic_ok (nift (arp_node sA)) i"
    using timers_okD(1) [OF _ assms(9,10)] by (auto simp: arp_ok_def)
  have ifA: "getInterfaceById ifA (nift (arp_node sA)) = Some i" using assms(12) i(1) by simp
  show ?thesis
    using request_answered [OF b assms(13,14,15) i(2)] reply_resolves [OF a ifA i(2) assms(14,11)] i(1) by blast
qed

theorem arp_resolves_witness:
  "\<exists>sB' sA'. arp_handleMessage 0 (ArpArrived (requestPacket demo_waiting 0 0x0A000002) 100) demo_B = Inr sB' \<and>
    arp_handleMessage 0 (ArpArrived (replyPacket demo_B (requestPacket demo_waiting 0 0x0A000002) 0) 100) demo_waiting = Inr sA' \<and>
    arp_out sA' = [arpRequest demo_A 0 0x0A000002, dataFrame (gateFor demo_waiting 0x0A000002) 0xB demo_msg]"
proof -
  note f = demo_waiting_sel
  have l: "0x0A000002 \<in> addrs (nift (arp_node demo_B))" by (simp add: addrs_def demo_host_if)
  have n: "nic_ok (nift (arp_node demo_B)) 0" using demo_host_nic [OF demo_macs(2), of "0x0A000002"] by simp
  have i: "getInterfaceById 100 (nift (arp_node demo_waiting)) = entry_ie demo_pending" "getInterfaceById 100 (nift (arp_node demo_B)) = Some 0"
    using f(6,7) by (simp_all add: demo_host_if)
  have m: "macAddr (nic (nift (arp_node demo_B)) 0) = 0xB" by (simp add: nic_def demo_host_if demo_nic_def)
  have z: "(0x0A000002 :: IPAddress) \<noteq> 0" "pending demo_pending" using f(6) by simp_all
  from arp_resolves [OF demo_arp_init demo_host_ok demo_run demo_arp_init demo_host_ok arp_start order_refl f(1,2) z(2,1) i n l]
  show ?thesis using f(4-6) m by auto
qed

end
