(* ===== verification/Queue_Base.thy ===== *)
theory Queue_Base
  imports IP_Datagram C_Float "HOL-Library.Sublist"
begin

text \<open>
  The output queues of network interfaces: the abstract class \<open>PassiveQueueBase\<close> (\<open>base/PassiveQueueBase.cc\<close>) and its
  subclasses \<open>DropTailQueue\<close>, \<open>REDQueue\<close> and \<open>DropTailQoSQueue\<close> (\<open>networklayer/queue\<close>).  The base class is
  modelled over the virtual functions \<open>enqueue\<close> and \<open>dequeue\<close>; the locale \<open>passive_queue\<close> is what it relies on, and
  its lemmas hold for every subclass that is interpreted in it.
\<close>

unbundle bit_operations_syntax

section \<open>The base class\<close>

text \<open>\<open>'q\<close> is the state of the subclass, \<open>'m\<close> the type of messages; \<open>pq_out\<close> collects what \<open>sendOut\<close> sends.\<close>

record ('m, 'q) PassiveQueueBase =
  packetRequested :: int
  numQueueReceived :: int
  numQueueDropped :: int
  pq_queue :: 'q
  pq_out :: "'m list"

definition pq_initialize :: "'q \<Rightarrow> ('m, 'q) PassiveQueueBase" where
  "pq_initialize q = \<lparr> packetRequested = 0, numQueueReceived = 0, numQueueDropped = 0, pq_queue = q, pq_out = [] \<rparr>"

definition sendOut :: "'m \<Rightarrow> ('m, 'q) PassiveQueueBase \<Rightarrow> ('m, 'q) PassiveQueueBase" where
  "sendOut msg s = s\<lparr>pq_out := pq_out s @ [msg]\<rparr>"

definition pq_handleMessage :: "('m \<Rightarrow> 'q \<Rightarrow> (bool \<times> 'q) res) \<Rightarrow> 'm \<Rightarrow> ('m, 'q) PassiveQueueBase \<Rightarrow> ('m, 'q) PassiveQueueBase res" where
  "pq_handleMessage enq msg s =
     (let s = s\<lparr>numQueueReceived := numQueueReceived s + 1\<rparr>
      in if packetRequested s > 0
         then Inr (sendOut msg (s\<lparr>packetRequested := packetRequested s - 1\<rparr>))
         else bindE (enq msg (pq_queue s)) (\<lambda>(dropped, q).
           let s = s\<lparr>pq_queue := q\<rparr>
           in Inr (if dropped then s\<lparr>numQueueDropped := numQueueDropped s + 1\<rparr> else s)))"

definition pq_requestPacket :: "('q \<Rightarrow> 'm option \<times> 'q) \<Rightarrow> ('m, 'q) PassiveQueueBase \<Rightarrow> ('m, 'q) PassiveQueueBase" where
  "pq_requestPacket deq s =
     (case deq (pq_queue s) of
        (None, q) \<Rightarrow> s\<lparr>pq_queue := q, packetRequested := packetRequested s + 1\<rparr>
      | (Some msg, q) \<Rightarrow> sendOut msg (s\<lparr>pq_queue := q\<rparr>))"

section \<open>The contract of the subclasses\<close>

text \<open>
  A subclass stores a message or drops it, and hands out a message unless it holds none.  The first argument of
  \<open>enqueue\<close> is the time and the random number the decision may depend on.
\<close>

locale passive_queue =
  fixes enqueue :: "simtime \<times> rat \<Rightarrow> 'm \<Rightarrow> 'q \<Rightarrow> (bool \<times> 'q) res"
    and dequeue :: "simtime \<Rightarrow> 'q \<Rightarrow> 'm option \<times> 'q"
    and content :: "'q \<Rightarrow> 'm multiset"
  assumes enqueue_dropped: "enqueue w m q = Inr (True, q') \<Longrightarrow> content q' = content q"
    and enqueue_stored: "enqueue w m q = Inr (False, q') \<Longrightarrow> content q' = add_mset m (content q)"
    and dequeue_none: "dequeue now q = (None, q') \<Longrightarrow> content q = {#} \<and> content q' = {#}"
    and dequeue_some: "dequeue now q = (Some m, q') \<Longrightarrow> content q = add_mset m (content q')"

text \<open>\<open>pq_run enq deq q0 ms s\<close>: from the initial state with queue \<open>q0\<close> the messages \<open>ms\<close> have arrived, and \<open>s\<close> is reached.\<close>

inductive pq_run :: "(simtime \<times> rat \<Rightarrow> 'm \<Rightarrow> 'q \<Rightarrow> (bool \<times> 'q) res) \<Rightarrow> (simtime \<Rightarrow> 'q \<Rightarrow> 'm option \<times> 'q) \<Rightarrow> 'q \<Rightarrow>
    'm list \<Rightarrow> ('m, 'q) PassiveQueueBase \<Rightarrow> bool"
  for enq deq q0 where
  pq_start: "pq_run enq deq q0 [] (pq_initialize q0)"
| pq_arrival: "pq_run enq deq q0 ms s \<Longrightarrow> pq_handleMessage (enq w) m s = Inr s' \<Longrightarrow> pq_run enq deq q0 (ms @ [m]) s'"
| pq_request: "pq_run enq deq q0 ms s \<Longrightarrow> pq_run enq deq q0 ms (pq_requestPacket (deq now) s)"

context passive_queue
begin

text \<open>No message is lost track of, and a request never waits while there is a message.\<close>

lemma conserves:
  assumes "pq_run enqueue dequeue q0 ms s" "content q0 = {#}"
  shows "0 \<le> packetRequested s \<and> (packetRequested s > 0 \<longrightarrow> content (pq_queue s) = {#}) \<and>
    numQueueReceived s = int (length ms) \<and>
    (\<exists>D. mset ms = mset (pq_out s) + content (pq_queue s) + D \<and> numQueueDropped s = int (size D))"
  using assms
proof (induction rule: pq_run.induct)
  case pq_start
  then show ?case by (simp add: pq_initialize_def)
next
  case (pq_arrival ms s w m s')
  then obtain D where i: "0 \<le> packetRequested s" "packetRequested s > 0 \<longrightarrow> content (pq_queue s) = {#}"
    "numQueueReceived s = int (length ms)" "mset ms = mset (pq_out s) + content (pq_queue s) + D" "numQueueDropped s = int (size D)"
    by blast
  show ?case
  proof (cases "packetRequested s > 0")
    case True
    then have "s' = sendOut m (s\<lparr>numQueueReceived := numQueueReceived s + 1, packetRequested := packetRequested s - 1\<rparr>)"
      using pq_arrival.hyps(2) by (simp add: pq_handleMessage_def)
    then show ?thesis using i True by (auto simp: sendOut_def)
  next
    case False
    then obtain d q where e: "enqueue w m (pq_queue s) = Inr (d, q)"
      and s': "s' = (let t = s\<lparr>numQueueReceived := numQueueReceived s + 1, pq_queue := q\<rparr>
          in if d then t\<lparr>numQueueDropped := numQueueDropped s + 1\<rparr> else t)"
      using pq_arrival.hyps(2) by (auto simp: pq_handleMessage_def bindE_eq_Inr Let_def)
    show ?thesis
    proof (cases d)
      case True
      then have "mset (ms @ [m]) = mset (pq_out s') + content (pq_queue s') + add_mset m D"
        "numQueueDropped s' = int (size (add_mset m D))"
        using i enqueue_dropped [of w m "pq_queue s" q] e by (simp_all add: s' Let_def)
      then show ?thesis using i False True by (auto simp: s' Let_def)
    next
      case d: False
      then show ?thesis using i False enqueue_stored [of w m "pq_queue s" q] e by (auto simp: s' Let_def)
    qed
  qed
next
  case (pq_request ms s now)
  then obtain D where i: "0 \<le> packetRequested s" "packetRequested s > 0 \<longrightarrow> content (pq_queue s) = {#}"
    "numQueueReceived s = int (length ms)" "mset ms = mset (pq_out s) + content (pq_queue s) + D" "numQueueDropped s = int (size D)"
    by blast
  obtain r q where d: "dequeue now (pq_queue s) = (r, q)" by fastforce
  show ?case
  proof (cases r)
    case None
    then show ?thesis using i dequeue_none [of now "pq_queue s" q] d by (auto simp: pq_requestPacket_def)
  next
    case (Some m)
    then show ?thesis using i dequeue_some [of now "pq_queue s" m q] d by (auto simp: pq_requestPacket_def sendOut_def)
  qed
qed

end

text \<open>A queue that hands out its messages in the order of their arrival.\<close>

locale fifo_queue =
  fixes enqueue :: "simtime \<times> rat \<Rightarrow> 'm \<Rightarrow> 'q \<Rightarrow> (bool \<times> 'q) res"
    and dequeue :: "simtime \<Rightarrow> 'q \<Rightarrow> 'm option \<times> 'q"
    and items :: "'q \<Rightarrow> 'm list"
  assumes fifo_dropped: "enqueue w m q = Inr (True, q') \<Longrightarrow> items q' = items q"
    and fifo_stored: "enqueue w m q = Inr (False, q') \<Longrightarrow> items q' = items q @ [m]"
    and fifo_none: "dequeue now q = (None, q') \<Longrightarrow> items q = [] \<and> items q' = []"
    and fifo_some: "dequeue now q = (Some m, q') \<Longrightarrow> items q = m # items q'"

sublocale fifo_queue \<subseteq> pq: passive_queue enqueue dequeue "\<lambda>q. mset (items q)"
  by unfold_locales (auto dest: fifo_dropped fifo_stored fifo_none fifo_some)

context fifo_queue
begin

lemma subseq_snoc: "subseq xs ys \<Longrightarrow> subseq (xs @ [m]) (ys @ [m])" "subseq xs ys \<Longrightarrow> subseq xs (ys @ [m])"
  by (simp_all add: list_emb_append_mono list_emb_prefix)

lemma keeps_order:
  assumes "pq_run enqueue dequeue q0 ms s" "items q0 = []"
  shows "subseq (pq_out s @ items (pq_queue s)) ms"
  using assms
proof (induction rule: pq_run.induct)
  case pq_start
  then show ?case by (simp add: pq_initialize_def)
next
  case (pq_arrival ms s w m s')
  note sub = subseq_snoc [OF pq_arrival.IH [OF pq_arrival.prems]]
  show ?case
  proof (cases "packetRequested s > 0")
    case True
    have "items (pq_queue s) = []"
      using pq.conserves [OF pq_arrival.hyps(1)] pq_arrival.prems True by simp
    then show ?thesis using pq_arrival.hyps(2) True sub(1) by (auto simp: pq_handleMessage_def sendOut_def)
  next
    case False
    then obtain d q where e: "enqueue w m (pq_queue s) = Inr (d, q)" and s': "pq_out s' = pq_out s" "pq_queue s' = q"
      using pq_arrival.hyps(2) by (auto simp: pq_handleMessage_def bindE_eq_Inr Let_def)
    then show ?thesis using sub fifo_dropped [of w m] fifo_stored [of w m] by (cases d) auto
  qed
next
  case (pq_request ms s now)
  obtain r q where d: "dequeue now (pq_queue s) = (r, q)" by fastforce
  then show ?case
    using pq_request fifo_none [of now "pq_queue s" q] fifo_some [of now "pq_queue s" _ q]
    by (cases r) (auto simp: pq_requestPacket_def sendOut_def)
qed

end

section \<open>Drop tail\<close>

record 'm DropTailQueue =
  dt_queue :: "'m list"
  dt_frameCapacity :: int

definition dt_enqueue :: "simtime \<times> rat \<Rightarrow> 'm \<Rightarrow> 'm DropTailQueue \<Rightarrow> (bool \<times> 'm DropTailQueue) res" where
  "dt_enqueue w msg q =
     (if dt_frameCapacity q \<noteq> 0 \<and> int (length (dt_queue q)) \<ge> dt_frameCapacity q then Inr (True, q)
      else Inr (False, q\<lparr>dt_queue := dt_queue q @ [msg]\<rparr>))"

definition dt_dequeue :: "simtime \<Rightarrow> 'm DropTailQueue \<Rightarrow> 'm option \<times> 'm DropTailQueue" where
  "dt_dequeue now q = (case dt_queue q of [] \<Rightarrow> (None, q) | pk # rest \<Rightarrow> (Some pk, q\<lparr>dt_queue := rest\<rparr>))"

interpretation droptail: fifo_queue dt_enqueue dt_dequeue dt_queue
  by unfold_locales (auto simp: dt_enqueue_def dt_dequeue_def split: if_splits list.splits)

section \<open>Random early detection\<close>

text \<open>
  The average queue length is computed in double precision; \<open>pow\<close> stands for the function of the mathematical
  library, and \<open>dblrand\<close> is the random number that is drawn.
\<close>

record 'm REDQueue =
  red_queue :: "'m list"
  red_wq :: rat
  red_minth :: rat
  red_maxth :: rat
  red_maxp :: rat
  red_pkrate :: rat
  red_avg :: rat
  red_q_time :: simtime
  red_count :: int
  red_numEarlyDrops :: int

definition red_average :: "(rat \<Rightarrow> rat \<Rightarrow> rat) \<Rightarrow> simtime \<Rightarrow> 'm REDQueue \<Rightarrow> rat" where
  "red_average pow now q =
     (if red_queue q \<noteq> []
      then double_plus (double_mult (double_minus 1 (red_wq q)) (red_avg q)) (double_mult (red_wq q) (of_nat (length (red_queue q))))
      else double_mult (pow (double_minus 1 (red_wq q)) (double_mult (fl 53 (now - red_q_time q)) (red_pkrate q))) (red_avg q))"

text \<open>The probability of dropping a message between the thresholds.\<close>

definition red_pa :: "'m REDQueue \<Rightarrow> rat" where
  "red_pa q =
     (let pb = double_div (double_mult (red_maxp q) (double_minus (red_avg q) (red_minth q))) (double_minus (red_maxth q) (red_minth q))
      in double_div pb (double_minus 1 (double_mult (of_int (red_count q)) pb)))"

text \<open>The decision: whether the message is marked, and the queue with its counters updated.\<close>

definition red_mark :: "rat \<Rightarrow> 'm REDQueue \<Rightarrow> bool \<times> 'm REDQueue" where
  "red_mark dblrand q =
     (if red_minth q \<le> red_avg q \<and> red_avg q < red_maxth q
      then let q = q\<lparr>red_count := red_count q + 1\<rparr>
           in if dblrand < red_pa q then (True, q\<lparr>red_count := 0, red_numEarlyDrops := red_numEarlyDrops q + 1\<rparr>) else (False, q)
      else if red_maxth q \<le> red_avg q then (True, q\<lparr>red_count := 0\<rparr>)
      else (False, q\<lparr>red_count := - 1\<rparr>))"

definition red_enqueue :: "(rat \<Rightarrow> rat \<Rightarrow> rat) \<Rightarrow> simtime \<times> rat \<Rightarrow> 'm \<Rightarrow> 'm REDQueue \<Rightarrow> (bool \<times> 'm REDQueue) res" where
  "red_enqueue pow w msg q =
     (let q = q\<lparr>red_avg := red_average pow (fst w) q\<rparr>; (mark, q) = red_mark (snd w) q
      in if mark \<or> of_nat (length (red_queue q)) \<ge> red_maxth q then Inr (True, q)
         else Inr (False, q\<lparr>red_queue := red_queue q @ [msg]\<rparr>))"

definition red_dequeue :: "simtime \<Rightarrow> 'm REDQueue \<Rightarrow> 'm option \<times> 'm REDQueue" where
  "red_dequeue now q =
     (case red_queue q of [] \<Rightarrow> (None, q)
      | pk # rest \<Rightarrow> (Some pk, if rest = [] then q\<lparr>red_queue := rest, red_q_time := now\<rparr> else q\<lparr>red_queue := rest\<rparr>))"

lemma red_mark_queue: "red_queue (snd (red_mark d q)) = red_queue q" "red_maxth (snd (red_mark d q)) = red_maxth q"
  by (simp_all add: red_mark_def Let_def)

lemma red_enqueue_eq:
  "red_enqueue pow w msg q =
     (let m = red_mark (snd w) (q\<lparr>red_avg := red_average pow (fst w) q\<rparr>); full = fst m \<or> of_nat (length (red_queue q)) \<ge> red_maxth q
      in Inr (full, if full then snd m else (snd m)\<lparr>red_queue := red_queue q @ [msg]\<rparr>))"
  using red_mark_queue [of "snd w" "q\<lparr>red_avg := red_average pow (fst w) q\<rparr>"]
  by (cases "red_mark (snd w) (q\<lparr>red_avg := red_average pow (fst w) q\<rparr>)") (simp add: red_enqueue_def Let_def)

interpretation red: fifo_queue "red_enqueue pow" red_dequeue red_queue for pow
  by unfold_locales (auto simp: red_enqueue_eq red_dequeue_def red_mark_queue Let_def split: if_splits list.splits)

section \<open>Drop tail with classes of service\<close>

text \<open>\<open>classifyPacket\<close> is the virtual function of the classifier; an index out of range is undefined behaviour in the source.\<close>

record 'm DropTailQoSQueue =
  qos_queues :: "'m list list"
  qos_frameCapacity :: int

definition qos_enqueue :: "('m \<Rightarrow> int) \<Rightarrow> simtime \<times> rat \<Rightarrow> 'm \<Rightarrow> 'm DropTailQoSQueue \<Rightarrow> (bool \<times> 'm DropTailQoSQueue) res" where
  "qos_enqueue classifyPacket w msg q =
     (let i = classifyPacket msg
      in if i < 0 \<or> i \<ge> int (length (qos_queues q)) then Inl (RuntimeError ''queues[queueIndex]'')
         else let queue = qos_queues q ! nat i
              in if qos_frameCapacity q \<noteq> 0 \<and> int (length queue) \<ge> qos_frameCapacity q then Inr (True, q)
                 else Inr (False, q\<lparr>qos_queues := (qos_queues q)[nat i := queue @ [msg]]\<rparr>))"

fun popFirst :: "'m list list \<Rightarrow> 'm option \<times> 'm list list" where
  "popFirst [] = (None, [])"
| "popFirst ([] # qs) = (let (m, qs') = popFirst qs in (m, [] # qs'))"
| "popFirst ((pk # rest) # qs) = (Some pk, rest # qs)"

definition qos_dequeue :: "simtime \<Rightarrow> 'm DropTailQoSQueue \<Rightarrow> 'm option \<times> 'm DropTailQoSQueue" where
  "qos_dequeue now q = (let (m, qs) = popFirst (qos_queues q) in (m, q\<lparr>qos_queues := qs\<rparr>))"

definition qos_new :: "int \<Rightarrow> int \<Rightarrow> 'm DropTailQoSQueue" where
  "qos_new numQueues capacity = \<lparr> qos_queues = replicate (nat numQueues) [], qos_frameCapacity = capacity \<rparr>"

text \<open>The classifier \<open>BasicDSCPClassifier\<close>, for the datagrams of IPv4 and for other messages.\<close>

definition BEST_EFFORT :: int where "BEST_EFFORT = 1"

definition dscp_getNumQueues :: int where "dscp_getNumQueues = 2"

definition classifyByDSCP :: "int \<Rightarrow> int" where
  "classifyByDSCP dscp =
     (let dscp = dscp AND 0x3F
      in if dscp = 0 then BEST_EFFORT
         else if dscp AND 1 \<noteq> 0 then BEST_EFFORT
         else let upper3bits = drop_bit 3 (dscp AND 0x3C)
              in if upper3bits AND 4 \<noteq> 0 then 0 else 1)"

fun dscp_classifyPacket :: "Packet \<Rightarrow> int" where
  "dscp_classifyPacket (IPDatagram h enc) = classifyByDSCP (diffServCodePoint h)"
| "dscp_classifyPacket _ = BEST_EFFORT"

lemma popFirst_none: "popFirst qs = (None, qs') \<Longrightarrow> concat qs = [] \<and> qs' = qs"
  by (induction qs arbitrary: qs' rule: popFirst.induct) (auto split: prod.splits)

text \<open>The message comes from the front of the first queue that is not empty.\<close>

lemma popFirst_some:
  "popFirst qs = (Some m, qs') \<Longrightarrow> \<exists>i rest. i < length qs \<and> (\<forall>k<i. qs ! k = []) \<and> qs ! i = m # rest \<and> qs' = qs[i := rest]"
proof (induction qs arbitrary: qs' rule: popFirst.induct)
  case (2 qs)
  then obtain qs'' where "popFirst qs = (Some m, qs'')" "qs' = [] # qs''" by (auto split: prod.splits)
  with "2.IH" obtain i rest where "i < length qs" "\<forall>k<i. qs ! k = []" "qs ! i = m # rest" "qs'' = qs[i := rest]" by blast
  then show ?case using \<open>qs' = [] # qs''\<close> by (intro exI [of _ "Suc i"] exI [of _ rest]) (auto simp: less_Suc_eq_0_disj)
qed auto

lemma mset_concat_update:
  "i < length qs \<Longrightarrow> mset (concat (qs[i := x])) + mset (qs ! i) = mset (concat qs) + mset x"
proof (induction qs arbitrary: i)
  case (Cons q qs)
  then show ?case by (cases i) (simp_all add: ac_simps)
qed simp

lemma popFirst_mset: "popFirst qs = (Some m, qs') \<Longrightarrow> mset (concat qs) = add_mset m (mset (concat qs'))"
proof -
  assume "popFirst qs = (Some m, qs')"
  then obtain i rest where "i < length qs" "qs ! i = m # rest" "qs' = qs[i := rest]"
    by (auto dest!: popFirst_some)
  then show ?thesis using mset_concat_update [of i qs rest] by simp
qed

interpretation qos: passive_queue "qos_enqueue classify" qos_dequeue "\<lambda>q. mset (concat (qos_queues q))" for classify
proof unfold_locales
  fix w m and q q' :: "'a DropTailQoSQueue"
  show "qos_enqueue classify w m q = Inr (True, q') \<Longrightarrow> mset (concat (qos_queues q')) = mset (concat (qos_queues q))"
    by (auto simp: qos_enqueue_def Let_def split: if_splits)
next
  fix w m and q q' :: "'a DropTailQoSQueue"
  assume e: "qos_enqueue classify w m q = Inr (False, q')"
  let ?i = "nat (classify m)"
  have c: "\<not> (classify m < 0 \<or> classify m \<ge> int (length (qos_queues q)))"
    using e by (intro notI) (simp add: qos_enqueue_def Let_def)
  then have "qos_enqueue classify w m q =
      (if qos_frameCapacity q \<noteq> 0 \<and> int (length (qos_queues q ! ?i)) \<ge> qos_frameCapacity q then Inr (True, q)
       else Inr (False, q\<lparr>qos_queues := (qos_queues q)[?i := qos_queues q ! ?i @ [m]]\<rparr>))"
    unfolding qos_enqueue_def Let_def by (rule if_not_P)
  with e have "q' = q\<lparr>qos_queues := (qos_queues q)[?i := qos_queues q ! ?i @ [m]]\<rparr>" by (simp split: if_split_asm)
  then have "?i < length (qos_queues q)" "qos_queues q' = (qos_queues q)[?i := qos_queues q ! ?i @ [m]]"
    using c by (linarith, simp)
  then show "mset (concat (qos_queues q')) = add_mset m (mset (concat (qos_queues q)))"
    using mset_concat_update [of ?i "qos_queues q" "qos_queues q ! ?i @ [m]"] by simp
next
  fix now and q q' :: "'a DropTailQoSQueue"
  assume "qos_dequeue now q = (None, q')"
  then have "popFirst (qos_queues q) = (None, qos_queues q')" by (auto simp: qos_dequeue_def Let_def split: prod.splits)
  from popFirst_none [OF this] show "mset (concat (qos_queues q)) = {#} \<and> mset (concat (qos_queues q')) = {#}" by simp
next
  fix now m and q q' :: "'a DropTailQoSQueue"
  assume "qos_dequeue now q = (Some m, q')"
  then have "popFirst (qos_queues q) = (Some m, qos_queues q')" by (auto simp: qos_dequeue_def Let_def split: prod.splits)
  from popFirst_mset [OF this] show "mset (concat (qos_queues q)) = add_mset m (mset (concat (qos_queues q')))" .
qed

end
