(* ===== verification/Queue_Props.thy ===== *)
theory Queue_Props
  imports Queue_Base
begin

text \<open>
  Bounds and order of the output queues, for every sequence of arrivals and requests.
\<close>

section \<open>Bounds\<close>

lemma dt_bound:
  assumes "pq_run dt_enqueue dt_dequeue q0 ms s" "dt_queue q0 = []" "0 < dt_frameCapacity q0"
  shows "dt_frameCapacity (pq_queue s) = dt_frameCapacity q0 \<and> int (length (dt_queue (pq_queue s))) \<le> dt_frameCapacity q0"
  using assms
proof (induction rule: pq_run.induct)
  case (pq_arrival ms s w m s')
  then show ?case
    by (auto simp: pq_handleMessage_def sendOut_def dt_enqueue_def Let_def split: if_splits)
next
  case (pq_request ms s now)
  then show ?case by (auto simp: pq_requestPacket_def sendOut_def dt_dequeue_def split: list.splits)
qed (simp add: pq_initialize_def)

lemma red_bound:
  assumes "pq_run (red_enqueue pow) red_dequeue q0 ms s" "red_queue q0 = []" "0 \<le> red_maxth q0"
  shows "red_maxth (pq_queue s) = red_maxth q0 \<and> of_nat (length (red_queue (pq_queue s))) < red_maxth q0 + 1"
  using assms
proof (induction rule: pq_run.induct)
  case (pq_arrival ms s w m s')
  then show ?case
    by (auto simp: pq_handleMessage_def sendOut_def red_enqueue_eq red_mark_queue Let_def split: if_splits)
next
  case (pq_request ms s now)
  then show ?case by (auto simp: pq_requestPacket_def sendOut_def red_dequeue_def split: list.splits)
qed (simp add: pq_initialize_def)

section \<open>Classes of service\<close>

definition of_class :: "('m \<Rightarrow> int) \<Rightarrow> nat \<Rightarrow> 'm list \<Rightarrow> 'm list" where
  "of_class classify c ms = filter (\<lambda>m. classify m = int c) ms"

definition qos_inv :: "('m \<Rightarrow> int) \<Rightarrow> int \<Rightarrow> 'm list \<Rightarrow> ('m, 'm DropTailQoSQueue) PassiveQueueBase \<Rightarrow> bool" where
  "qos_inv classify n ms s \<longleftrightarrow> length (qos_queues (pq_queue s)) = nat n \<and>
     (\<forall>c<nat n. of_class classify c (qos_queues (pq_queue s) ! c) = qos_queues (pq_queue s) ! c \<and>
        subseq (of_class classify c (pq_out s) @ qos_queues (pq_queue s) ! c) (of_class classify c ms))"

lemma of_class_append [simp]: "of_class f c (xs @ ys) = of_class f c xs @ of_class f c ys"
  by (simp add: of_class_def)

lemma of_class_single [simp]: "of_class f c [m] = (if f m = int c then [m] else [])" "of_class f c [] = []"
  by (simp_all add: of_class_def)

lemma of_class_Cons: "of_class f c (m # ms) = (if f m = int c then m # of_class f c ms else of_class f c ms)"
  by (simp add: of_class_def)

lemma of_class_tl: "of_class f c (m # ms) = m # ms \<Longrightarrow> of_class f c ms = ms \<and> f m = int c"
proof -
  assume h: "of_class f c (m # ms) = m # ms"
  have "length (of_class f c ms) \<le> length ms" by (simp add: of_class_def)
  then show ?thesis using h arg_cong [OF h, of length] by (auto simp: of_class_Cons split: if_splits)
qed

lemma qos_arrival:
  assumes i: "qos_inv f n ms s" and cl: "\<And>m. 0 \<le> f m \<and> f m < n"
    and rq: "packetRequested s > 0 \<longrightarrow> concat (qos_queues (pq_queue s)) = []"
    and h: "pq_handleMessage (qos_enqueue f w) m s = Inr s'"
  shows "qos_inv f n (ms @ [m]) s'"
proof (cases "packetRequested s > 0")
  case True
  then have s': "s' = sendOut m (s\<lparr>numQueueReceived := numQueueReceived s + 1, packetRequested := packetRequested s - 1\<rparr>)"
    using h by (simp add: pq_handleMessage_def)
  have "qos_queues (pq_queue s) ! c = []" if "c < nat n" for c
    using rq True that i by (auto simp: qos_inv_def)
  then show ?thesis
    using i by (auto simp: qos_inv_def s' sendOut_def intro: list_emb_append_mono)
next
  case False
  let ?qs = "qos_queues (pq_queue s)" and ?i = "nat (f m)"
  have len: "length ?qs = nat n" and inv: "\<And>c. c < nat n \<Longrightarrow> of_class f c (?qs ! c) = ?qs ! c"
    and sub: "\<And>c. c < nat n \<Longrightarrow> subseq (of_class f c (pq_out s) @ ?qs ! c) (of_class f c ms)"
    using i by (auto simp: qos_inv_def)
  have ii: "?i < nat n" "f m = int ?i" "\<not> (f m < 0 \<or> int (length ?qs) \<le> f m)" using cl [of m] len by auto
  have s': "pq_out s' = pq_out s" "qos_queues (pq_queue s') = ?qs \<or> qos_queues (pq_queue s') = ?qs[?i := ?qs ! ?i @ [m]]"
    using h False ii(3) by (auto simp: pq_handleMessage_def qos_enqueue_def bindE_eq_Inr Let_def split: if_splits)
  from s'(2) show ?thesis
  proof
    assume q: "qos_queues (pq_queue s') = ?qs"
    show ?thesis using inv sub len unfolding qos_inv_def s'(1) q by (auto intro: list_emb_prefix)
  next
    assume q: "qos_queues (pq_queue s') = ?qs[?i := ?qs ! ?i @ [m]]"
    show ?thesis
      unfolding qos_inv_def s'(1) q
    proof (intro conjI allI impI)
      show "length (?qs[?i := ?qs ! ?i @ [m]]) = nat n" using len by simp
      fix c assume c: "c < nat n"
      show "of_class f c (?qs[?i := ?qs ! ?i @ [m]] ! c) = ?qs[?i := ?qs ! ?i @ [m]] ! c"
        using inv [OF c] inv [OF ii(1)] ii len c by (cases "c = ?i") auto
      show "subseq (of_class f c (pq_out s) @ ?qs[?i := ?qs ! ?i @ [m]] ! c) (of_class f c (ms @ [m]))"
        using sub [OF c] ii len c list_emb_append_mono [OF sub [OF c], of "[m]" "[m]"]
        by (cases "c = ?i") (auto intro: list_emb_prefix)
    qed
  qed
qed

lemma qos_request:
  assumes "qos_inv f n ms s"
  shows "qos_inv f n ms (pq_requestPacket (qos_dequeue now) s)"
proof -
  let ?qs = "qos_queues (pq_queue s)"
  obtain r qs where p: "popFirst ?qs = (r, qs)" by fastforce
  show ?thesis
  proof (cases r)
    case None
    then have "qs = ?qs" using popFirst_none [of ?qs qs] p by simp
    then show ?thesis using p None assms by (simp add: qos_inv_def pq_requestPacket_def qos_dequeue_def)
  next
    case (Some m)
    then obtain i rest where i: "i < length ?qs" "?qs ! i = m # rest" "qs = ?qs[i := rest]"
      using popFirst_some [of ?qs m qs] p by auto
    have len: "length ?qs = nat n" and inv: "\<And>c. c < nat n \<Longrightarrow> of_class f c (?qs ! c) = ?qs ! c"
      and sub: "\<And>c. c < nat n \<Longrightarrow> subseq (of_class f c (pq_out s) @ ?qs ! c) (of_class f c ms)"
      using assms by (auto simp: qos_inv_def)
    have m: "of_class f i rest = rest \<and> f m = int i" using of_class_tl [of f i m rest] inv [of i] i len by simp
    have "of_class f c (qs ! c) = qs ! c \<and> subseq (of_class f c (pq_out s @ [m]) @ qs ! c) (of_class f c ms)" if "c < nat n" for c
      using inv [OF that] sub [OF that] m i len that by (cases "c = i") auto
    then show ?thesis using p Some i len by (simp add: qos_inv_def pq_requestPacket_def qos_dequeue_def sendOut_def)
  qed
qed

lemma qos_run_inv:
  assumes "pq_run (qos_enqueue f) qos_dequeue (qos_new n cap) ms s" "\<And>m. 0 \<le> f m \<and> f m < n"
  shows "qos_inv f n ms s"
  using assms(1)
proof (induction rule: pq_run.induct)
  case pq_start
  then show ?case by (simp add: qos_inv_def pq_initialize_def qos_new_def)
next
  case (pq_arrival ms s w m s')
  have "mset (concat (qos_queues (qos_new n cap))) = {#}" by (simp add: qos_new_def)
  from qos.conserves [OF pq_arrival.hyps(1) this]
  have "packetRequested s > 0 \<longrightarrow> concat (qos_queues (pq_queue s)) = []" by auto
  then show ?case using qos_arrival [OF pq_arrival.IH assms(2) _ pq_arrival.hyps(2)] by blast
next
  case (pq_request ms s now)
  show ?case by (rule qos_request [OF pq_request.IH])
qed

lemma dscp_range: "0 \<le> dscp_classifyPacket p \<and> dscp_classifyPacket p < dscp_getNumQueues"
  by (cases p) (simp_all add: classifyByDSCP_def BEST_EFFORT_def dscp_getNumQueues_def Let_def)

section \<open>Properties\<close>

text \<open>
  Property C35: the output queues keep the order of the packets and account for each of them.  For a drop-tail queue and
  for a RED queue that start empty, after every sequence of arrivals and requests of the interface: what has been
  sent, followed by what is stored, is a subsequence of what has arrived; what is missing is what
  the queue has counted as dropped; the interface never waits for a packet while one is stored; and the queue never grows
  beyond its capacity, or beyond the upper threshold of RED.
\<close>

theorem queues_keep_order:
  assumes "pq_run dt_enqueue dt_dequeue dt0 ms s" "dt_queue dt0 = []" "0 < dt_frameCapacity dt0"
    and "pq_run (red_enqueue pow) red_dequeue red0 ns r" "red_queue red0 = []" "0 \<le> red_maxth red0"
  shows "subseq (pq_out s @ dt_queue (pq_queue s)) ms \<and>
    int (length ms) = int (length (pq_out s @ dt_queue (pq_queue s))) + numQueueDropped s \<and>
    (packetRequested s > 0 \<longrightarrow> dt_queue (pq_queue s) = []) \<and> int (length (dt_queue (pq_queue s))) \<le> dt_frameCapacity dt0 \<and>
    subseq (pq_out r @ red_queue (pq_queue r)) ns \<and>
    int (length ns) = int (length (pq_out r @ red_queue (pq_queue r))) + numQueueDropped r \<and>
    (packetRequested r > 0 \<longrightarrow> red_queue (pq_queue r) = []) \<and> of_nat (length (red_queue (pq_queue r))) < red_maxth red0 + 1"
proof -
  obtain D where "mset ms = mset (pq_out s) + mset (dt_queue (pq_queue s)) + D" "numQueueDropped s = int (size D)"
    "packetRequested s > 0 \<longrightarrow> dt_queue (pq_queue s) = []"
    using droptail.pq.conserves [OF assms(1)] assms(2) by auto
  moreover from this(1) have "length ms = length (pq_out s) + length (dt_queue (pq_queue s)) + size D" by (metis size_mset size_union)
  moreover obtain E where "mset ns = mset (pq_out r) + mset (red_queue (pq_queue r)) + E" "numQueueDropped r = int (size E)"
    "packetRequested r > 0 \<longrightarrow> red_queue (pq_queue r) = []"
    using red.pq.conserves [OF assms(4)] assms(5) by auto
  moreover from this(1) have "length ns = length (pq_out r) + length (red_queue (pq_queue r)) + size E" by (metis size_mset size_union)
  ultimately show ?thesis
    using droptail.keeps_order [OF assms(1,2)] dt_bound [OF assms(1-3)] red.keeps_order [OF assms(4,5)] red_bound [OF assms(4-6)]
    by simp
qed

definition demo_dt :: "nat DropTailQueue" where
  "demo_dt = \<lparr> dt_queue = [], dt_frameCapacity = 2 \<rparr>"

definition demo_red :: "nat REDQueue" where
  "demo_red = \<lparr> red_queue = [], red_wq = 1 / 2, red_minth = 1, red_maxth = 3, red_maxp = 1 / 2, red_pkrate = 1, red_avg = 0,
     red_q_time = 0, red_count = - 1, red_numEarlyDrops = 0 \<rparr>"

lemma demo_dt_run:
  "\<exists>s. pq_run dt_enqueue dt_dequeue demo_dt [1, 2, 3] s \<and> pq_out s = [1] \<and> dt_queue (pq_queue s) = [2] \<and> numQueueDropped s = 1"
proof -
  define st where "st ps d q out = \<lparr> packetRequested = 0, numQueueReceived = ps, numQueueDropped = d,
     pq_queue = \<lparr> dt_queue = q, dt_frameCapacity = 2 \<rparr>, pq_out = out \<rparr>" for ps d and q out :: "nat list"
  note defs = st_def pq_handleMessage_def dt_enqueue_def Let_def
  have "pq_run dt_enqueue dt_dequeue demo_dt [] (st 0 0 [] [])"
    using pq_start [of dt_enqueue dt_dequeue demo_dt] by (simp add: st_def pq_initialize_def demo_dt_def)
  then have "pq_run dt_enqueue dt_dequeue demo_dt ([] @ [1]) (st 1 0 [1] [])" by (rule pq_arrival) (simp add: defs)
  then have "pq_run dt_enqueue dt_dequeue demo_dt (([] @ [1]) @ [2]) (st 2 0 [1, 2] [])" by (rule pq_arrival) (simp add: defs)
  then have "pq_run dt_enqueue dt_dequeue demo_dt ((([] @ [1]) @ [2]) @ [3]) (st 3 1 [1, 2] [])" by (rule pq_arrival) (simp add: defs)
  from pq_request [OF this, of 0] show ?thesis
    by (intro exI [of _ "pq_requestPacket (dt_dequeue 0) (st 3 1 [1, 2] [])"]) (simp add: st_def pq_requestPacket_def dt_dequeue_def sendOut_def)
qed

theorem queues_keep_order_witness:
  "\<exists>s. pq_run dt_enqueue dt_dequeue demo_dt [1, 2, 3] s \<and> numQueueDropped s = 1 \<and> subseq (pq_out s @ dt_queue (pq_queue s)) [1, 2, 3]"
proof -
  obtain s where s: "pq_run dt_enqueue dt_dequeue demo_dt [1, 2, 3] s" "numQueueDropped s = 1" using demo_dt_run by blast
  have "dt_queue demo_dt = []" "0 < dt_frameCapacity demo_dt" "red_queue demo_red = []" "0 \<le> red_maxth demo_red"
    by (simp_all add: demo_dt_def demo_red_def)
  from queues_keep_order [OF s(1) this(1,2) pq_start [of "red_enqueue (\<lambda>_ _. 1)"] this(3,4)] s show ?thesis by blast
qed

text \<open>
  The queue with classes of service serves the classes in the order of their priority.  With
  \<open>BasicDSCPClassifier\<close>, for a queue that starts empty, after every sequence of arrivals and requests: every stored packet
  is in the queue of its class, the packets of a class are sent in the order of their arrival, an arrival never fails, and
  what a request takes next belongs to the first class that has a packet.
\<close>

theorem qos_priority:
  assumes "pq_run (qos_enqueue dscp_classifyPacket) qos_dequeue (qos_new dscp_getNumQueues cap) ms s"
  shows "qos_inv dscp_classifyPacket dscp_getNumQueues ms s \<and>
    (\<forall>w m. \<exists>s'. pq_handleMessage (qos_enqueue dscp_classifyPacket w) m s = Inr s') \<and>
    (\<forall>now m q. qos_dequeue now (pq_queue s) = (Some m, q) \<longrightarrow>
       (\<forall>x\<in>set (concat (qos_queues (pq_queue s))). dscp_classifyPacket m \<le> dscp_classifyPacket x))"
proof (intro conjI allI impI ballI)
  let ?f = dscp_classifyPacket and ?qs = "qos_queues (pq_queue s)"
  show i: "qos_inv ?f dscp_getNumQueues ms s" by (rule qos_run_inv [OF assms dscp_range])
  show "\<exists>s'. pq_handleMessage (qos_enqueue ?f w) m s = Inr s'" for w m
    using i dscp_range [of m] by (auto simp: pq_handleMessage_def qos_enqueue_def qos_inv_def Let_def)
  fix now m q x assume d: "qos_dequeue now (pq_queue s) = (Some m, q)" and x: "x \<in> set (concat ?qs)"
  then have "popFirst ?qs = (Some m, qos_queues q)" by (auto simp: qos_dequeue_def Let_def split: prod.splits)
  from popFirst_some [OF this] obtain i rest where j: "i < length ?qs" "\<forall>k<i. ?qs ! k = []" "?qs ! i = m # rest" by auto
  obtain ys where "ys \<in> set ?qs" "x \<in> set ys" using x by auto
  then obtain k where k: "k < length ?qs" "x \<in> set (?qs ! k)" by (metis in_set_conv_nth)
  have cls: "of_class ?f c (?qs ! c) = ?qs ! c" if "c < length ?qs" for c
    using i that by (simp add: qos_inv_def)
  have "x \<in> set (of_class ?f k (?qs ! k))" using cls [OF k(1)] k(2) by simp
  then have "?f x = int k" by (simp add: of_class_def)
  moreover have "?f m = int i" using of_class_tl [of ?f i m rest] cls [OF j(1)] unfolding j(3) by blast
  moreover have "\<not> k < i" using j k by auto
  ultimately show "?f m \<le> ?f x" by simp
qed

theorem qos_priority_witness:
  "qos_inv dscp_classifyPacket dscp_getNumQueues [] (pq_initialize (qos_new dscp_getNumQueues 10)) \<and>
    (\<exists>s'. pq_handleMessage (qos_enqueue dscp_classifyPacket (0, 0)) (IPDatagram ((newIPHeader ''voice'')\<lparr>diffServCodePoint := 0x2E\<rparr>) None)
       (pq_initialize (qos_new dscp_getNumQueues 10)) = Inr s')"
  using qos_priority [OF pq_start] by blast

end
