(* ===== verification/Service_Queue.thy ===== *)
theory Service_Queue
  imports IP_Safety
begin

text \<open>
  The single server queue in front of a protocol module (\<open>base/AbstractQueue.cc\<close>, \<open>base/QueueBase.cc\<close>), and the table that maps
  protocols to gates (\<open>base/ProtocolMap.cc\<close>).  The class is modelled over the virtual function \<open>endService\<close>, the work that is done for a
  message; IP is the module it is applied to here.
\<close>

section \<open>The server\<close>

record ('m, 's) AbstractQueue =
  aq_queue :: "'m list"
  msgServiced :: "'m option"
  endServiceMsg :: "simtime option"
  procDelay :: simtime
  aq_inner :: 's

definition aq_initialize :: "simtime \<Rightarrow> 's \<Rightarrow> ('m, 's) AbstractQueue" where
  "aq_initialize d x = \<lparr> aq_queue = [], msgServiced = None, endServiceMsg = None, procDelay = d, aq_inner = x \<rparr>"

text \<open>
  \<open>doEndService\<close> for the message \<open>m\<close> with the queue \<open>q\<close>.  \<open>doStartService\<close> for the next message calls it again at
  once when the service takes no time.
\<close>

fun doEndService :: "(simtime \<Rightarrow> 'm \<Rightarrow> 's \<Rightarrow> 's res) \<Rightarrow> simtime \<Rightarrow> 'm \<Rightarrow> 'm list \<Rightarrow> ('m, 's) AbstractQueue \<Rightarrow> ('m, 's) AbstractQueue res" where
  "doEndService es now m q s =
     bindE (es now m (aq_inner s)) (\<lambda>x.
     let s = s\<lparr>aq_inner := x\<rparr>
     in case q of
          [] \<Rightarrow> Inr (s\<lparr>msgServiced := None, aq_queue := []\<rparr>)
        | m' # q' \<Rightarrow>
            let s = s\<lparr>msgServiced := Some m', aq_queue := q'\<rparr>
            in if procDelay s \<noteq> 0 then Inr (s\<lparr>endServiceMsg := Some (now + procDelay s)\<rparr>)
               else doEndService es now m' q' s)"

declare doEndService.simps [simp del]

definition doStartService :: "(simtime \<Rightarrow> 'm \<Rightarrow> 's \<Rightarrow> 's res) \<Rightarrow> simtime \<Rightarrow> 'm \<Rightarrow> ('m, 's) AbstractQueue \<Rightarrow> ('m, 's) AbstractQueue res" where
  "doStartService es now m s =
     (if procDelay s \<noteq> 0
      then if endServiceMsg s \<noteq> None then Inl TimerAlreadyScheduled else Inr (s\<lparr>endServiceMsg := Some (now + procDelay s)\<rparr>)
      else doEndService es now m (aq_queue s) s)"

text \<open>\<open>None\<close> is the message \<open>endServiceMsg\<close>, which has been taken from the schedule.\<close>

definition aq_handleMessage :: "(simtime \<Rightarrow> 'm \<Rightarrow> 's \<Rightarrow> 's res) \<Rightarrow> simtime \<Rightarrow> 'm option \<Rightarrow> ('m, 's) AbstractQueue \<Rightarrow> ('m, 's) AbstractQueue res" where
  "aq_handleMessage es now msg s =
     (case msg of
        None \<Rightarrow> (case msgServiced s of None \<Rightarrow> Inl NullPointer
                | Some m \<Rightarrow> doEndService es now m (aq_queue s) (s\<lparr>endServiceMsg := None\<rparr>))
      | Some m \<Rightarrow>
          if msgServiced s = None then doStartService es now m (s\<lparr>msgServiced := Some m\<rparr>)
          else Inr (s\<lparr>aq_queue := aq_queue s @ [m]\<rparr>))"

section \<open>Order of service\<close>

text \<open>The work done for a list of messages, each at its time.\<close>

fun serveAll :: "(simtime \<Rightarrow> 'm \<Rightarrow> 's \<Rightarrow> 's res) \<Rightarrow> (simtime \<times> 'm) list \<Rightarrow> 's \<Rightarrow> 's res" where
  "serveAll es [] x = Inr x"
| "serveAll es ((t, m) # ms) x = bindE (es t m x) (serveAll es ms)"

lemma serveAll_append: "serveAll es (xs @ ys) x = bindE (serveAll es xs x) (serveAll es ys)"
  by (induction es xs x rule: serveAll.induct) (auto simp: bindE_def split: sum.splits)

definition inService :: "('m, 's) AbstractQueue \<Rightarrow> 'm list" where
  "inService s = (case msgServiced s of None \<Rightarrow> [] | Some m \<Rightarrow> [m])"

definition aq_ok :: "('m, 's) AbstractQueue \<Rightarrow> bool" where
  "aq_ok s \<longleftrightarrow> (msgServiced s = None \<longrightarrow> aq_queue s = []) \<and> (endServiceMsg s \<noteq> None \<longleftrightarrow> msgServiced s \<noteq> None) \<and>
     (procDelay s = 0 \<longrightarrow> msgServiced s = None)"

lemma doEndService_spec:
  assumes "doEndService es now m q s = Inr s'" "endServiceMsg s = None"
  shows "\<exists>dn. dn \<noteq> [] \<and> map snd dn @ inService s' @ aq_queue s' = m # q \<and> serveAll es dn (aq_inner s) = Inr (aq_inner s') \<and>
    aq_ok s' \<and> procDelay s' = procDelay s \<and> (\<forall>t\<in>fst ` set dn. t = now)"
  using assms
proof (induction es now m q s rule: doEndService.induct)
  case (1 es now m q s)
  obtain x where x: "es now m (aq_inner s) = Inr x" using "1.prems"(1) by (subst (asm) doEndService.simps) (auto simp: bindE_eq_Inr)
  show ?case
  proof (cases q)
    case Nil
    then have "s' = s\<lparr>aq_inner := x, msgServiced := None, aq_queue := []\<rparr>"
      using "1.prems"(1) x by (subst (asm) doEndService.simps) simp
    then show ?thesis using x Nil "1.prems"(2) by (intro exI [of _ "[(now, m)]"]) (simp add: inService_def aq_ok_def)
  next
    case (Cons m' q')
    let ?s = "s\<lparr>aq_inner := x, msgServiced := Some m', aq_queue := q'\<rparr>"
    show ?thesis
    proof (cases "procDelay s = 0")
      case False
      then have "s' = ?s\<lparr>endServiceMsg := Some (now + procDelay s)\<rparr>"
        using "1.prems"(1) x Cons by (subst (asm) doEndService.simps) (simp add: Let_def)
      then show ?thesis using x Cons False by (intro exI [of _ "[(now, m)]"]) (simp add: inService_def aq_ok_def)
    next
      case True
      then have "doEndService es now m' q' ?s = Inr s'"
        using "1.prems"(1) x Cons by (subst (asm) doEndService.simps) (simp add: Let_def)
      from "1.IH" [OF refl Cons refl _ this] True "1.prems"(2) obtain dn where
        "map snd dn @ inService s' @ aq_queue s' = m' # q'" "serveAll es dn x = Inr (aq_inner s')" "aq_ok s'"
        "procDelay s' = procDelay s" "\<forall>t\<in>fst ` set dn. t = now" by auto
      then show ?thesis using x Cons by (intro exI [of _ "(now, m) # dn"]) simp
    qed
  qed
qed

text \<open>\<open>aq_run es s0 ms s\<close>: from the idle server \<open>s0\<close> the messages \<open>ms\<close> have arrived, and \<open>s\<close> is reached.\<close>

inductive aq_run :: "(simtime \<Rightarrow> 'm \<Rightarrow> 's \<Rightarrow> 's res) \<Rightarrow> ('m, 's) AbstractQueue \<Rightarrow> 'm list \<Rightarrow> ('m, 's) AbstractQueue \<Rightarrow> bool"
  for es s0 where
  aq_start: "aq_run es s0 [] s0"
| aq_arrival: "aq_run es s0 ms s \<Longrightarrow> aq_handleMessage es now (Some m) s = Inr s' \<Longrightarrow> aq_run es s0 (ms @ [m]) s'"
| aq_end: "aq_run es s0 ms s \<Longrightarrow> endServiceMsg s = Some now \<Longrightarrow> aq_handleMessage es now None s = Inr s' \<Longrightarrow> aq_run es s0 ms s'"

lemma aq_run_order:
  assumes "aq_run es (aq_initialize d x) ms s"
  shows "aq_ok s \<and> procDelay s = d \<and> (\<exists>dn. map snd dn @ inService s @ aq_queue s = ms \<and> serveAll es dn x = Inr (aq_inner s))"
  using assms
proof (induction rule: aq_run.induct)
  case aq_start
  then show ?case by (simp add: aq_initialize_def aq_ok_def inService_def)
next
  case (aq_arrival ms s now m s')
  then obtain dn where i: "aq_ok s" "procDelay s = d" "map snd dn @ inService s @ aq_queue s = ms" "serveAll es dn x = Inr (aq_inner s)"
    by blast
  show ?case
  proof (cases "msgServiced s")
    case None
    then have e: "aq_queue s = []" "endServiceMsg s = None" "inService s = []" using i(1) by (auto simp: aq_ok_def inService_def)
    show ?thesis
    proof (cases "procDelay s = 0")
      case False
      then have "s' = s\<lparr>msgServiced := Some m, endServiceMsg := Some (now + procDelay s)\<rparr>"
        using aq_arrival.hyps(2) None e by (simp add: aq_handleMessage_def doStartService_def)
      then show ?thesis using i e False by (intro conjI exI [of _ dn]) (auto simp: aq_ok_def inService_def)
    next
      case True
      then have "doEndService es now m [] (s\<lparr>msgServiced := Some m\<rparr>) = Inr s'"
        using aq_arrival.hyps(2) None e by (simp add: aq_handleMessage_def doStartService_def)
      from doEndService_spec [OF this] e obtain dn' where "map snd dn' @ inService s' @ aq_queue s' = [m]"
        "serveAll es dn' (aq_inner s) = Inr (aq_inner s')" "aq_ok s'" "procDelay s' = procDelay s" by auto
      then show ?thesis using i e by (intro conjI exI [of _ "dn @ dn'"]) (auto simp: serveAll_append)
    qed
  next
    case (Some m0)
    then have "s' = s\<lparr>aq_queue := aq_queue s @ [m]\<rparr>" using aq_arrival.hyps(2) by (simp add: aq_handleMessage_def)
    then show ?thesis using i Some by (intro conjI exI [of _ dn]) (auto simp: aq_ok_def inService_def)
  qed
next
  case (aq_end ms s now s')
  then obtain dn where i: "aq_ok s" "procDelay s = d" "map snd dn @ inService s @ aq_queue s = ms" "serveAll es dn x = Inr (aq_inner s)"
    by blast
  obtain m where m: "msgServiced s = Some m" using i(1) aq_end.hyps(2) by (auto simp: aq_ok_def)
  then have "doEndService es now m (aq_queue s) (s\<lparr>endServiceMsg := None\<rparr>) = Inr s'"
    using aq_end.hyps(3) by (simp add: aq_handleMessage_def)
  from doEndService_spec [OF this] obtain dn' where "map snd dn' @ inService s' @ aq_queue s' = m # aq_queue s"
    "serveAll es dn' (aq_inner s) = Inr (aq_inner s')" "aq_ok s'" "procDelay s' = procDelay s" by auto
  then show ?case using i m by (intro conjI exI [of _ "dn @ dn'"]) (auto simp: serveAll_append inService_def)
qed

section \<open>The protocol mapping\<close>

definition isSpace :: "char \<Rightarrow> bool" where
  "isSpace c \<longleftrightarrow> c = CHR '' '' \<or> (9 \<le> (of_char c :: nat) \<and> of_char c \<le> (13 :: nat))"

definition skipSpace :: "string \<Rightarrow> string" where
  "skipSpace s = dropWhile isSpace s"

lemma skipSpace_length: "length (skipSpace s) \<le> length s"
  by (simp add: skipSpace_def length_dropWhile_le)

definition startsWithDigit :: "string \<Rightarrow> bool" where
  "startsWithDigit s \<longleftrightarrow> (case s of [] \<Rightarrow> False | c # _ \<Rightarrow> isDigit c)"

text \<open>One entry \<open>number:gate\<close> and what follows it.\<close>

definition parseEntry :: "string \<Rightarrow> ((int \<times> int) \<times> string) res" where
  "parseEntry s =
     (if \<not> startsWithDigit s then Inl (RuntimeError ''syntax error: protocol number expected'')
      else case readNumber 0 s of (protocolNumber, s) \<Rightarrow>
        (case s of
           c # s \<Rightarrow>
             if c \<noteq> CHR '':'' then Inl (RuntimeError ''syntax error: colon expected'')
             else if \<not> startsWithDigit (skipSpace s) then Inl (RuntimeError ''syntax error in script: output gate index expected'')
             else (case readNumber 0 (skipSpace s) of (outGateIndex, s) \<Rightarrow> Inr ((protocolNumber, outGateIndex), skipSpace s))
         | [] \<Rightarrow> Inl (RuntimeError ''syntax error: colon expected'')))"

lemma readNumber_shorter: "startsWithDigit s \<Longrightarrow> readNumber 0 s = (n, r) \<Longrightarrow> length r < length s"
proof (cases s)
  case (Cons c t)
  assume "startsWithDigit s" "readNumber 0 s = (n, r)"
  then have "readNumber (c_int (of_char c - 48)) t = (n, r)" using Cons by (simp add: startsWithDigit_def)
  then show ?thesis using readNumber_length [of "c_int (of_char c - 48)" t] Cons by simp
qed (simp add: startsWithDigit_def)

lemma parseEntry_shorter:
  assumes "parseEntry s = Inr (e, r)"
  shows "length r < length s"
proof -
  obtain n t where n: "startsWithDigit s" "readNumber 0 s = (n, t)" using assms by (cases "readNumber 0 s") (auto simp: parseEntry_def split: if_splits)
  then obtain c u k v where "t = c # u" "readNumber 0 (skipSpace u) = (k, v)" "r = skipSpace v"
    using assms by (auto simp: parseEntry_def split: if_splits list.splits prod.splits)
  moreover have "length v \<le> length (skipSpace u)" using readNumber_length [of 0 "skipSpace u"] calculation(2) by simp
  ultimately show ?thesis
    using readNumber_shorter [OF n] skipSpace_length [of v] skipSpace_length [of u] by simp
qed

function parseLoop :: "(int \<times> int) list \<Rightarrow> string \<Rightarrow> (int \<times> int) list res" where
  "parseLoop entries s =
     (if s = [] then Inr entries
      else case parseEntry s of
        Inl e \<Rightarrow> Inl e
      | Inr (entry, r) \<Rightarrow>
          (case r of
             [] \<Rightarrow> Inr (entries @ [entry])
           | c # r' \<Rightarrow>
               if c \<noteq> CHR '','' then Inl (RuntimeError ''syntax error: comma expected'')
               else parseLoop (entries @ [entry]) (skipSpace r')))"
  by pat_completeness auto
termination
proof (relation "measure (length \<circ> snd)")
  fix entries s p e r c r'
  assume "parseEntry s = Inr p" "(e, r) = p" "r = c # r'"
  then have "length r < length s" using parseEntry_shorter by metis
  then show "((entries @ [e], skipSpace r'), entries, s) \<in> measure (length \<circ> snd)"
    using skipSpace_length [of r'] \<open>r = c # r'\<close> by simp
qed simp

declare parseLoop.simps [simp del]

definition parseProtocolMapping :: "string \<Rightarrow> (int \<times> int) list \<Rightarrow> (int \<times> int) list res" where
  "parseProtocolMapping s entries = parseLoop entries (skipSpace s)"

text \<open>A mapping as it is written in a configuration.\<close>

fun renderMapping :: "(nat \<times> nat) list \<Rightarrow> string" where
  "renderMapping [] = []"
| "renderMapping [(p, g)] = showDec p @ CHR '':'' # showDec g"
| "renderMapping ((p, g) # es) = showDec p @ CHR '':'' # showDec g @ CHR '','' # renderMapping es"

lemma showDec_digit: "\<exists>c t. showDec n = c # t \<and> isDigit c"
proof (induction n rule: showDec.induct)
  case (1 n)
  show ?case
  proof (cases "n < 10")
    case True
    then show ?thesis using isDigit_char [of n] by (subst showDec.simps) simp
  next
    case False
    then obtain c t where "showDec (n div 10) = c # t" "isDigit c" using 1 by blast
    then show ?thesis using False by (subst showDec.simps) simp
  qed
qed

lemma digit_not_space: "isDigit c \<Longrightarrow> \<not> isSpace c"
  by (auto simp: isDigit_def isSpace_def)

lemma showDec_start: "startsWithDigit (showDec n @ s)" "skipSpace (showDec n @ s) = showDec n @ s"
  using showDec_digit [of n] digit_not_space by (auto simp: startsWithDigit_def skipSpace_def)

lemma parseEntry_render:
  assumes "p < 256" "g < 256" "rest = [] \<or> \<not> isDigit (hd rest)"
  shows "parseEntry (showDec p @ CHR '':'' # showDec g @ rest) = Inr ((int p, int g), skipSpace rest)"
proof -
  have c: "\<not> isDigit (CHR '':'')" by (simp add: isDigit_def)
  have "readNumber 0 (showDec p @ CHR '':'' # showDec g @ rest) = (int p, CHR '':'' # showDec g @ rest)"
    using readNumber_showDec [OF assms(1), of "CHR '':'' # showDec g @ rest"] c by simp
  moreover have "readNumber 0 (showDec g @ rest) = (int g, rest)" by (rule readNumber_showDec [OF assms(2,3)])
  ultimately show ?thesis by (simp add: parseEntry_def showDec_start)
qed

lemma render_start: "es \<noteq> [] \<Longrightarrow> \<exists>p s. renderMapping es = showDec p @ s"
  by (cases es rule: renderMapping.cases) auto

lemma skipSpace_render: "skipSpace (renderMapping es) = renderMapping es"
proof (cases "es = []")
  case True
  then show ?thesis by (simp add: skipSpace_def)
next
  case False
  then obtain p s where "renderMapping es = showDec p @ s" using render_start by blast
  then show ?thesis using showDec_start(2) [of p s] by simp
qed

lemma parseLoop_render:
  assumes "\<forall>(p, g)\<in>set es. p < 256 \<and> g < 256"
  shows "parseLoop acc (renderMapping es) = Inr (acc @ map (\<lambda>(p, g). (int p, int g)) es)"
  using assms
proof (induction es arbitrary: acc rule: renderMapping.induct)
  case 1
  then show ?case by (simp add: parseLoop.simps)
next
  case (2 p g)
  have "showDec p @ CHR '':'' # showDec g \<noteq> []" by simp
  then show ?case using 2 parseEntry_render [of p g "[]"] by (subst parseLoop.simps) (simp add: skipSpace_def)
next
  case (3 p g e es)
  have c: "\<not> isDigit (CHR '','')" "\<not> isSpace (CHR '','')" by (simp_all add: isDigit_def isSpace_def)
  let ?r = "CHR '','' # renderMapping (e # es)"
  have p: "parseEntry (renderMapping ((p, g) # e # es)) = Inr ((int p, int g), ?r)"
    using parseEntry_render [of p g ?r] 3(2) c by (simp add: skipSpace_def)
  have n: "renderMapping ((p, g) # e # es) \<noteq> []" by simp
  show ?case
    using "3.IH" [of "acc @ [(int p, int g)]"] "3.prems" n
    by (subst parseLoop.simps) (simp add: p skipSpace_render del: renderMapping.simps)
qed

lemma mapping_roundtrip:
  assumes "\<forall>(p, g)\<in>set es. p < 256 \<and> g < 256"
  shows "parseProtocolMapping (renderMapping es) [] = Inr (map (\<lambda>(p, g). (int p, int g)) es)"
  using parseLoop_render [OF assms, of "[]"] by (simp add: parseProtocolMapping_def skipSpace_render)

section \<open>Properties\<close>

text \<open>
  Property C36: IP serves its messages in the order of their arrival.  For every sequence of arrivals and ends of service, from an
  idle module: the messages that have been dealt with, the one in service and the ones that wait are together exactly the
  messages that have arrived, in that order; the state of the module is the result of dealing with the finished ones one after the
  other; a message waits only while another one is in service; and when the processing delay is zero every message is dealt with on
  arrival.
\<close>

theorem ip_serves_in_order:
  assumes "aq_run endService (aq_initialize d ip0) ms s"
  shows "\<exists>dn. map snd dn @ inService s @ aq_queue s = ms \<and> serveAll endService dn ip0 = Inr (aq_inner s) \<and>
    (inService s = [] \<longrightarrow> aq_queue s = []) \<and> (d = 0 \<longrightarrow> map snd dn = ms)"
proof -
  obtain dn where "aq_ok s" "procDelay s = d" "map snd dn @ inService s @ aq_queue s = ms" "serveAll endService dn ip0 = Inr (aq_inner s)"
    using aq_run_order [OF assms] by blast
  then show ?thesis by (intro exI [of _ dn]) (auto simp: aq_ok_def inService_def split: option.splits)
qed

theorem ip_serves_in_order_witness:
  "\<exists>s dn. aq_run endService (aq_initialize 1 demo_ip) [FromNet 0 None (demo_header, None)] s \<and>
    map snd dn @ inService s @ aq_queue s = [FromNet 0 None (demo_header, None)] \<and> serveAll endService dn demo_ip = Inr (aq_inner s)"
proof -
  let ?m = "FromNet 0 None (demo_header, None)" and ?idle = "aq_initialize 1 demo_ip :: (IPIn, IPModule) AbstractQueue"
  let ?s = "?idle\<lparr>msgServiced := Some ?m, endServiceMsg := Some 1\<rparr>"
  have "msgServiced ?idle = None" "procDelay ?idle = 1" "endServiceMsg ?idle = None" by (simp_all add: aq_initialize_def)
  then have "aq_handleMessage endService 0 (Some ?m) ?idle = Inr ?s"
    by (simp add: aq_handleMessage_def doStartService_def)
  from aq_arrival [OF aq_start this] have "aq_run endService ?idle [?m] ?s" by simp
  then show ?thesis using ip_serves_in_order by blast
qed

end
