(* ===== verification/UDP_Module.thy ===== *)
theory UDP_Module
  imports TCP_Maps IP_Module
begin

text \<open>
  The UDP module (\<open>transport/udp/UDP.cc\<close>): sockets, the two maps over them, delivery of datagrams,
  ICMP errors.  Socket descriptors live in a heap; the maps hold pointers to them.  What leaves the
  module is collected in \<open>udp_out\<close>; ICMP is called directly, so the module that IP and ICMP
  share is part of the state.
\<close>

section \<open>Data\<close>

definition UDP_HEADER_BYTES :: int where "UDP_HEADER_BYTES = 8"
definition UDP_C_DATA :: int where "UDP_C_DATA = 0"
definition UDP_C_BIND :: int where "UDP_C_BIND = 1"
definition UDP_C_CONNECT :: int where "UDP_C_CONNECT = 2"
definition UDP_C_UNBIND :: int where "UDP_C_UNBIND = 3"
definition UDP_I_DATA :: int where "UDP_I_DATA = 0"
definition UDP_I_ERROR :: int where "UDP_I_ERROR = 1"
definition ICMP_DU_PORT_UNREACHABLE :: int where "ICMP_DU_PORT_UNREACHABLE = 3"

lemmas udp_consts = UDP_HEADER_BYTES_def UDP_C_DATA_def UDP_C_BIND_def UDP_C_CONNECT_def UDP_C_UNBIND_def
  UDP_I_DATA_def UDP_I_ERROR_def ICMP_DU_PORT_UNREACHABLE_def

record UDPControlInfo =
  uc_sockId :: int
  uc_userId :: int
  uc_srcAddr :: IPvXAddress
  uc_destAddr :: IPvXAddress
  uc_srcPort :: int
  uc_destPort :: int
  uc_interfaceId :: int
  uc_TTL :: int

definition newUDPControlInfo :: UDPControlInfo where
  "newUDPControlInfo = \<lparr> uc_sockId = - 1, uc_userId = - 1, uc_srcAddr = unspecifiedAddr, uc_destAddr = unspecifiedAddr,
     uc_srcPort = 0, uc_destPort = 0, uc_interfaceId = - 1, uc_TTL = 0 \<rparr>"

text \<open>The two ports are of type \<open>short\<close>.\<close>

record SockDesc =
  sd_sockId :: int
  sd_userId :: int
  sd_appGateIndex :: int
  sd_onlyLocalPortIsSet :: bool
  sd_localAddr :: IPvXAddress
  sd_remoteAddr :: IPvXAddress
  sd_localPort :: int
  sd_remotePort :: int
  sd_interfaceId :: int

text \<open>
  \<open>AppOut\<close> is a copy of the payload for an application, \<open>AppError\<close> an error notification; the first
  argument is the index of the gate.
\<close>

datatype UDPOut =
    AppOut int cPacket UDPControlInfo
  | AppError int int UDPControlInfo
  | UdpToIP Packet IPControlInfo
  | UdpToIPv6 Packet "u32 \<times> u32 \<times> u32 \<times> u32" "u32 \<times> u32 \<times> u32 \<times> u32"

record UDP =
  sockHeap :: "nat \<Rightarrow> SockDesc option"
  nextSock :: nat
  socketsByIdMap :: "int \<Rightarrow> nat option"
  socketsByPortMap :: "int \<Rightarrow> nat list option"
  udp_lastEphemeralPort :: int
  udp_icmp :: IPModule
  numSent :: int
  numPassedUp :: int
  numDroppedWrongPort :: int
  numDroppedBadChecksum :: int
  udp_out :: "UDPOut list"

definition udp_initialize :: "IPModule \<Rightarrow> UDP" where
  "udp_initialize ip = \<lparr> sockHeap = (\<lambda>_. None), nextSock = 0, socketsByIdMap = (\<lambda>_. None), socketsByPortMap = (\<lambda>_. None),
     udp_lastEphemeralPort = EPHEMERAL_PORTRANGE_START, udp_icmp = ip, numSent = 0, numPassedUp = 0,
     numDroppedWrongPort = 0, numDroppedBadChecksum = 0, udp_out = [] \<rparr>"

definition udp_emit :: "UDPOut \<Rightarrow> UDP \<Rightarrow> UDP" where
  "udp_emit e u = u\<lparr>udp_out := udp_out u @ [e]\<rparr>"

definition derefSock :: "nat \<Rightarrow> UDP \<Rightarrow> SockDesc res" where
  "derefSock p u = (case sockHeap u p of None \<Rightarrow> Inl NullPointer | Some sd \<Rightarrow> Inr sd)"

section \<open>Ports\<close>

text \<open>
  The search for a free port ends or repeats itself after the 65536 values of a \<open>short\<close>.
\<close>

fun udp_searchPort :: "nat \<Rightarrow> int \<Rightarrow> (int \<Rightarrow> bool) \<Rightarrow> int \<Rightarrow> int res" where
  "udp_searchPort rounds searchUntil used port =
     (if \<not> used port then Inr port
      else if port = searchUntil then Inl (RuntimeError ''Ephemeral port range exhausted, all ports occupied'')
      else if rounds = 0 then Inl Nontermination
      else udp_searchPort (rounds - 1) searchUntil used (nextPort port))"

declare udp_searchPort.simps [simp del]

definition udp_getEphemeralPort :: "UDP \<Rightarrow> (int \<times> UDP) res" where
  "udp_getEphemeralPort u =
     (let searchUntil = udp_lastEphemeralPort u
      in bindE (udp_searchPort 65536 searchUntil (\<lambda>p. socketsByPortMap u p \<noteq> None) (nextPort searchUntil)) (\<lambda>p.
         Inr (p, u\<lparr>udp_lastEphemeralPort := p\<rparr>)))"

section \<open>Commands of the application\<close>

text \<open>A socket that asks for port 0 is given an ephemeral one.\<close>

definition fillLocalPort :: "SockDesc \<Rightarrow> UDP \<Rightarrow> (SockDesc \<times> UDP) res" where
  "fillLocalPort sd u =
     (if sd_localPort sd = 0
      then bindE (udp_getEphemeralPort u) (\<lambda>(p, u). Inr (sd\<lparr>sd_localPort := p\<rparr>, u))
      else Inr (sd, u))"

definition newSockDesc :: "int \<Rightarrow> UDPControlInfo \<Rightarrow> SockDesc" where
  "newSockDesc gateIndex ctrl = \<lparr> sd_sockId = uc_sockId ctrl, sd_userId = uc_userId ctrl, sd_appGateIndex = gateIndex,
     sd_onlyLocalPortIsSet = False, sd_localAddr = uc_srcAddr ctrl, sd_remoteAddr = uc_destAddr ctrl,
     sd_localPort = c_short (uc_srcPort ctrl), sd_remotePort = c_short (uc_destPort ctrl), sd_interfaceId = uc_interfaceId ctrl \<rparr>"

definition onlyLocalPort :: "SockDesc \<Rightarrow> bool" where
  "onlyLocalPort sd \<longleftrightarrow> isUnspecified (sd_localAddr sd) \<and> isUnspecified (sd_remoteAddr sd) \<and> sd_remotePort sd = 0 \<and> sd_interfaceId sd = - 1"

definition portList :: "int \<Rightarrow> UDP \<Rightarrow> nat list" where
  "portList port u = (case socketsByPortMap u port of None \<Rightarrow> [] | Some l \<Rightarrow> l)"

definition udp_bind :: "int \<Rightarrow> UDPControlInfo \<Rightarrow> UDP \<Rightarrow> UDP res" where
  "udp_bind gateIndex ctrl u =
     (let sd = newSockDesc gateIndex ctrl
      in if sd_sockId sd = - 1 then Inl (RuntimeError ''sockId in BIND message not filled in'')
         else bindE (fillLocalPort sd u) (\<lambda>(sd, u).
           let sd = sd\<lparr>sd_onlyLocalPortIsSet := onlyLocalPort sd\<rparr>; p = nextSock u
           in if socketsByIdMap u (sd_sockId sd) \<noteq> None
              then Inl (AssertFailed ''socketsByIdMap.find(sd->sockId)==socketsByIdMap.end()'')
              else Inr (u\<lparr>sockHeap := (sockHeap u)(p \<mapsto> sd), nextSock := Suc p,
                          socketsByIdMap := (socketsByIdMap u)(sd_sockId sd \<mapsto> p),
                          socketsByPortMap := (socketsByPortMap u)(sd_localPort sd \<mapsto> portList (sd_localPort sd) u @ [p])\<rparr>)))"

definition udp_connect :: "int \<Rightarrow> IPvXAddress \<Rightarrow> int \<Rightarrow> UDP \<Rightarrow> UDP res" where
  "udp_connect sockId addr port u =
     (case socketsByIdMap u sockId of
        None \<Rightarrow> Inl (RuntimeError ''socket id doesn't exist (already closed?)'')
      | Some p \<Rightarrow>
          if isUnspecified addr then Inl (RuntimeError ''connect: unspecified remote address'')
          else if port \<le> 0 \<or> port > 65535 then Inl (RuntimeError ''connect: invalid remote port number'')
          else bindE (derefSock p u) (\<lambda>sd.
            Inr (u\<lparr>sockHeap := (sockHeap u)(p \<mapsto> sd\<lparr>sd_remoteAddr := addr, sd_remotePort := c_short port, sd_onlyLocalPortIsSet := False\<rparr>)\<rparr>)))"

definition udp_unbind :: "int \<Rightarrow> UDP \<Rightarrow> UDP res" where
  "udp_unbind sockId u =
     (case socketsByIdMap u sockId of
        None \<Rightarrow> Inl (RuntimeError ''socket id doesn't exist (already closed?)'')
      | Some p \<Rightarrow>
          bindE (derefSock p u) (\<lambda>sd.
          let list = remove1 p (portList (sd_localPort sd) u)
          in Inr (u\<lparr>socketsByIdMap := (socketsByIdMap u)(sockId := None),
                    socketsByPortMap := (socketsByPortMap u)(sd_localPort sd := (if list = [] then None else Some list)),
                    sockHeap := (sockHeap u)(p := None)\<rparr>)))"

section \<open>Matching and delivery\<close>

text \<open>
  The control information of a packet from the lower layer is that of IPv4, that of IPv6, or missing.
  \<open>removeControlInfo\<close> has taken it off the packet before its kind is asked for; the test for IPv6 looks at
  the packet again and finds nothing.
\<close>

datatype LowerCtrl = Ctrl4 IPControlInfo | Ctrl6 | NoCtrl

definition matchesSocket :: "SockDesc \<Rightarrow> UDPHeader \<Rightarrow> IPControlInfo \<Rightarrow> bool res" where
  "matchesSocket sd h ci =
     (if sd_remotePort sd \<noteq> 0 \<and> sd_remotePort sd \<noteq> sourcePort h then Inr False
      else bindE (if isUnspecified (sd_localAddr sd) then Inr True
                  else bindE (get4 (sd_localAddr sd)) (\<lambda>a. Inr (a = ci_destAddr ci))) (\<lambda>l.
      if \<not> l then Inr False
      else bindE (if isUnspecified (sd_remoteAddr sd) then Inr True
                  else bindE (get4 (sd_remoteAddr sd)) (\<lambda>a. Inr (a = ci_srcAddr ci))) (\<lambda>r.
      if \<not> r then Inr False
      else Inr (sd_interfaceId sd = - 1 \<or> sd_interfaceId sd = ci_interfaceId ci))))"

definition matchesSocket_error :: "SockDesc \<Rightarrow> IPvXAddress \<Rightarrow> IPvXAddress \<Rightarrow> int \<Rightarrow> bool" where
  "matchesSocket_error sd laddr raddr rport \<longleftrightarrow>
     (sd_remotePort sd = 0 \<or> sd_remotePort sd \<noteq> rport) \<and>
     (isUnspecified (sd_localAddr sd) \<or> addr_equals (sd_localAddr sd) laddr) \<and>
     (isUnspecified (sd_remoteAddr sd) \<or> addr_equals (sd_remoteAddr sd) raddr)"

definition upControl :: "UDPHeader \<Rightarrow> IPControlInfo \<Rightarrow> SockDesc \<Rightarrow> UDPControlInfo" where
  "upControl h ci sd = newUDPControlInfo\<lparr>uc_sockId := sd_sockId sd, uc_userId := sd_userId sd, uc_srcAddr := IPv4 (ci_srcAddr ci),
     uc_destAddr := IPv4 (ci_destAddr ci), uc_srcPort := sourcePort h, uc_destPort := destinationPort h,
     uc_interfaceId := ci_interfaceId ci, uc_TTL := ci_timeToLive ci\<rparr>"

definition sendUp :: "cPacket \<Rightarrow> UDPHeader \<Rightarrow> IPControlInfo \<Rightarrow> SockDesc \<Rightarrow> UDP \<Rightarrow> UDP" where
  "sendUp payload h ci sd u =
     (udp_emit (AppOut (sd_appGateIndex sd) payload (upControl h ci sd)) u)\<lparr>numPassedUp := numPassedUp u + 1\<rparr>"

definition processUndeliverablePacket :: "UDPHeader \<times> cPacket option \<Rightarrow> LowerCtrl \<Rightarrow> UDP \<Rightarrow> UDP res" where
  "processUndeliverablePacket pk ctrl u =
     (let u = u\<lparr>numDroppedWrongPort := numDroppedWrongPort u + 1\<rparr>
      in case ctrl of
           Ctrl4 ci \<Rightarrow>
             if ip_isMulticast (ci_destAddr ci) then Inr u
             else bindE (sendErrorMessage_transport (UDPPacket (fst pk) (snd pk)) ci ICMP_DESTINATION_UNREACHABLE
                           ICMP_DU_PORT_UNREACHABLE (udp_icmp u)) (\<lambda>ip. Inr (u\<lparr>udp_icmp := ip\<rparr>))
         | _ \<Rightarrow> Inl (RuntimeError ''arrived from lower layer without control info''))"

text \<open>The loop over the sockets of a port; \<open>copies\<close> is the variable \<open>matches\<close>.\<close>

fun deliverCopies :: "nat list \<Rightarrow> UDPHeader \<times> cPacket option \<Rightarrow> IPControlInfo \<Rightarrow> nat \<Rightarrow> UDP \<Rightarrow> (nat \<times> UDP) res" where
  "deliverCopies [] pk ci copies u = Inr (copies, u)"
| "deliverCopies (p # ps) pk ci copies u =
     bindE (derefSock p u) (\<lambda>sd.
     bindE (if sd_onlyLocalPortIsSet sd then Inr True else matchesSocket sd (fst pk) ci) (\<lambda>m.
     if \<not> m then deliverCopies ps pk ci copies u
     else case snd pk of None \<Rightarrow> Inl NullPointer
          | Some payload \<Rightarrow> deliverCopies ps pk ci (Suc copies) (sendUp payload (fst pk) ci sd u)))"

definition processUDPPacket :: "UDPHeader \<times> cPacket option \<Rightarrow> LowerCtrl \<Rightarrow> UDP \<Rightarrow> UDP res" where
  "processUDPPacket pk ctrl u =
     (if udp_bitError (fst pk) then Inr (u\<lparr>numDroppedBadChecksum := numDroppedBadChecksum u + 1\<rparr>)
      else case socketsByPortMap u (destinationPort (fst pk)) of
             None \<Rightarrow> processUndeliverablePacket pk ctrl u
           | Some list \<Rightarrow>
               (case ctrl of
                  Ctrl4 ci \<Rightarrow>
                    bindE (deliverCopies list pk ci 0 u) (\<lambda>(copies, u).
                    if copies = 0 then processUndeliverablePacket pk ctrl u else Inr u)
                | _ \<Rightarrow> Inl (RuntimeError ''arrived from lower layer without control info'')))"

section \<open>ICMP errors\<close>

definition sendUpErrorNotification :: "SockDesc \<Rightarrow> int \<Rightarrow> IPvXAddress \<Rightarrow> IPvXAddress \<Rightarrow> int \<Rightarrow> UDP \<Rightarrow> UDP" where
  "sendUpErrorNotification sd msgkind laddr raddr rport =
     udp_emit (AppError (sd_appGateIndex sd) msgkind (newUDPControlInfo\<lparr>uc_sockId := sd_sockId sd, uc_userId := sd_userId sd,
       uc_srcAddr := laddr, uc_destAddr := raddr, uc_srcPort := sd_localPort sd, uc_destPort := rport\<rparr>))"

text \<open>The loop keeps the last socket that matches.\<close>

fun findSource :: "nat list \<Rightarrow> IPvXAddress \<Rightarrow> IPvXAddress \<Rightarrow> int \<Rightarrow> SockDesc option \<Rightarrow> UDP \<Rightarrow> SockDesc option res" where
  "findSource [] laddr raddr rport src u = Inr src"
| "findSource (p # ps) laddr raddr rport src u =
     bindE (derefSock p u) (\<lambda>sd.
     findSource ps laddr raddr rport
       (if sd_onlyLocalPortIsSet sd \<or> matchesSocket_error sd laddr raddr rport then Some sd else src) u)"

definition reportError :: "IPvXAddress \<Rightarrow> IPvXAddress \<Rightarrow> int \<Rightarrow> int \<Rightarrow> UDP \<Rightarrow> UDP res" where
  "reportError laddr raddr lport rport u =
     (case socketsByPortMap u lport of
        None \<Rightarrow> Inr u
      | Some list \<Rightarrow>
          bindE (findSource list laddr raddr (c_short rport) None u) (\<lambda>src.
          case src of None \<Rightarrow> Inr u | Some sd \<Rightarrow> Inr (sendUpErrorNotification sd UDP_I_ERROR laddr raddr (c_short rport) u)))"

text \<open>
  What an ICMP error is about: addresses and ports of the packet it carries.  The length of the error is first
  set to that of its content, so that it can be taken out.
\<close>

definition icmpErrorDetails :: "Packet option \<Rightarrow> (IPvXAddress \<times> IPvXAddress \<times> int \<times> int) res" where
  "icmpErrorDetails enc =
     (case enc of
        None \<Rightarrow> Inl NullPointer
      | Some (IPDatagram h e) \<Rightarrow>
          bindE (ip_decapsulate (h, e)) (\<lambda>(p, _).
          case p of Some (UDPPacket uh _) \<Rightarrow> Inr (IPv4 (srcAddress h), IPv4 (destAddress h), sourcePort uh, destinationPort uh)
                  | _ \<Rightarrow> Inl (RuntimeError ''check_and_cast<UDPPacket>''))
      | _ \<Rightarrow> Inl (RuntimeError ''check_and_cast<IPDatagram>''))"

text \<open>An error of ICMPv6 carries an IPv6 datagram: two addresses and a packet.\<close>

type_synonym IPv6Datagram = "(u32 \<times> u32 \<times> u32 \<times> u32) \<times> (u32 \<times> u32 \<times> u32 \<times> u32) \<times> Packet option"

definition icmpv6ErrorDetails :: "IPv6Datagram option \<Rightarrow> (IPvXAddress \<times> IPvXAddress \<times> int \<times> int) res" where
  "icmpv6ErrorDetails enc =
     (case enc of
        Some ((a0, a1, a2, a3), (b0, b1, b2, b3), Some (UDPPacket uh _)) \<Rightarrow>
          Inr (setIPv6 a0 a1 a2 a3, setIPv6 b0 b1 b2 b3, sourcePort uh, destinationPort uh)
      | _ \<Rightarrow> Inl (RuntimeError ''check_and_cast''))"

definition processICMPError :: "(IPvXAddress \<times> IPvXAddress \<times> int \<times> int) res \<Rightarrow> UDP \<Rightarrow> UDP res" where
  "processICMPError details u = bindE details (\<lambda>(laddr, raddr, lport, rport). reportError laddr raddr lport rport u)"

section \<open>Sending\<close>

definition createUDPPacket :: "string \<Rightarrow> UDPHeader" where
  "createUDPPacket name = \<lparr> udp_name = name, sourcePort = - 1, destinationPort = - 1, udp_byteLength = 0, udp_bitError = False \<rparr>"

definition processMsgFromApp :: "cPacket \<Rightarrow> UDPControlInfo \<Rightarrow> UDP \<Rightarrow> UDP res" where
  "processMsgFromApp appData ctrl u =
     (let h = (createUDPPacket (pkName appData))\<lparr>udp_byteLength := UDP_HEADER_BYTES + int (byteLength appData),
                sourcePort := uc_srcPort ctrl, destinationPort := uc_destPort ctrl\<rparr>;
          pk = UDPPacket h (Some appData)
      in bindE (if \<not> isIPv6 (uc_destAddr ctrl)
                then bindE (get4 (uc_srcAddr ctrl)) (\<lambda>src. bindE (get4 (uc_destAddr ctrl)) (\<lambda>dest.
                     Inr (udp_emit (UdpToIP pk (newIPControlInfo\<lparr>ci_protocol := IP_PROT_UDP, ci_srcAddr := src, ci_destAddr := dest,
                            ci_interfaceId := uc_interfaceId ctrl\<rparr>)) u)))
                else bindE (get6 (uc_srcAddr ctrl)) (\<lambda>src. bindE (get6 (uc_destAddr ctrl)) (\<lambda>dest.
                     Inr (udp_emit (UdpToIPv6 pk src dest) u)))) (\<lambda>u.
         Inr (u\<lparr>numSent := numSent u + 1\<rparr>)))"

section \<open>Entry point\<close>

definition castCtrl :: "UDPControlInfo option \<Rightarrow> UDPControlInfo res" where
  "castCtrl c = (case c of None \<Rightarrow> Inl (RuntimeError ''check_and_cast<UDPControlInfo>'') | Some c \<Rightarrow> Inr c)"

definition processCommandFromApp :: "int \<Rightarrow> int \<Rightarrow> UDPControlInfo option \<Rightarrow> UDP \<Rightarrow> UDP res" where
  "processCommandFromApp kind gateIndex ctrl u =
     bindE (castCtrl ctrl) (\<lambda>ctrl.
     if kind = UDP_C_BIND then udp_bind gateIndex ctrl u
     else if kind = UDP_C_CONNECT then udp_connect (uc_sockId ctrl) (uc_destAddr ctrl) (uc_destPort ctrl) u
     else if kind = UDP_C_UNBIND then udp_unbind (uc_sockId ctrl) u
     else Inl (RuntimeError ''unknown command code (message kind) received from app''))"

text \<open>
  The messages: from IP (an ICMP error or a packet with its control information), an error of ICMPv6, from an
  application (kind, gate index, the packet if the message is one, control information).
\<close>

datatype UdpIn =
    FromIp Packet LowerCtrl
  | FromIcmpv6 "IPv6Datagram option"
  | FromApp int int "cPacket option" "UDPControlInfo option"

fun udp_handleMessage :: "UdpIn \<Rightarrow> UDP \<Rightarrow> UDP res" where
  "udp_handleMessage (FromIp p ctrl) u =
     (case p of
        ICMPMessage h enc \<Rightarrow> processICMPError (icmpErrorDetails enc) u
      | UDPPacket h pl \<Rightarrow> processUDPPacket (h, pl) ctrl u
      | _ \<Rightarrow> Inl (RuntimeError ''check_and_cast<UDPPacket>''))"
| "udp_handleMessage (FromIcmpv6 enc) u = processICMPError (icmpv6ErrorDetails enc) u"
| "udp_handleMessage (FromApp kind gateIndex msg ctrl) u =
     (if kind = UDP_C_DATA
      then case msg of None \<Rightarrow> Inl (RuntimeError ''check_and_cast<cPacket>'')
           | Some appData \<Rightarrow> bindE (castCtrl ctrl) (\<lambda>ctrl. processMsgFromApp appData ctrl u)
      else processCommandFromApp kind gateIndex ctrl u)"

end
