(* ===== verification/UDP_Props.thy ===== *)
theory UDP_Props
  imports UDP_Module IP_Safety
begin

text \<open>
  Correctness of UDP.  The abstract view of the module is the list of its open sockets in the order in which
  they were bound (\<open>sockets\<close>).  Heap and maps implement that list (\<open>udp_inv\<close>, \<open>udp_refines\<close>); delivery is described
  over it.
\<close>

section \<open>The abstract view\<close>

definition onPort :: "int \<Rightarrow> UDP \<Rightarrow> nat list" where
  "onPort port u = filter (\<lambda>p. \<exists>sd. sockHeap u p = Some sd \<and> sd_localPort sd = port) [0..<nextSock u]"

definition sockets :: "UDP \<Rightarrow> SockDesc list" where
  "sockets u = List.map_filter (sockHeap u) [0..<nextSock u]"

definition udp_inv :: "UDP \<Rightarrow> bool" where
  "udp_inv u \<longleftrightarrow>
     (\<forall>p \<ge> nextSock u. sockHeap u p = None) \<and>
     (\<forall>i p. socketsByIdMap u i = Some p \<longleftrightarrow> (\<exists>sd. sockHeap u p = Some sd \<and> sd_sockId sd = i)) \<and>
     (\<forall>port. socketsByPortMap u port = (if onPort port u = [] then None else Some (onPort port u))) \<and>
     port_ok (udp_lastEphemeralPort u) \<and>
     (\<forall>p sd. sockHeap u p = Some sd \<longrightarrow> sd_localPort sd \<noteq> 0 \<and> - 32768 \<le> sd_localPort sd \<and> sd_localPort sd < 32768) \<and>
     (\<forall>p sd. sockHeap u p = Some sd \<longrightarrow> sd_onlyLocalPortIsSet sd \<longrightarrow> onlyLocalPort sd)"

lemma udp_invD:
  assumes "udp_inv u"
  shows "nextSock u \<le> p \<Longrightarrow> sockHeap u p = None"
    and "socketsByIdMap u i = Some p \<longleftrightarrow> (\<exists>sd. sockHeap u p = Some sd \<and> sd_sockId sd = i)"
    and "socketsByPortMap u port = (if onPort port u = [] then None else Some (onPort port u))"
    and "port_ok (udp_lastEphemeralPort u)"
    and "sockHeap u p = Some sd \<Longrightarrow> sd_localPort sd \<noteq> 0 \<and> - 32768 \<le> sd_localPort sd \<and> sd_localPort sd < 32768"
    and "sockHeap u p = Some sd \<Longrightarrow> sd_onlyLocalPortIsSet sd \<Longrightarrow> onlyLocalPort sd"
  using assms unfolding udp_inv_def by blast+

lemma portList_onPort: "udp_inv u \<Longrightarrow> portList port u = onPort port u"
  by (simp add: portList_def udp_invD(3))

lemma idMap_None:
  assumes "udp_inv u" "socketsByIdMap u i = None" "sockHeap u p = Some sd"
  shows "sd_sockId sd \<noteq> i"
  using udp_invD(2) [OF assms(1), of i p] assms(2,3) by auto

lemma map_filter_filter: "List.map_filter f (filter (\<lambda>x. \<exists>y. f x = Some y \<and> P y) xs) = filter P (List.map_filter f xs)"
  by (induction xs) (auto simp: List.map_filter_simps split: option.split)

lemma sockets_onPort: "List.map_filter (sockHeap u) (onPort port u) = filter (\<lambda>sd. sd_localPort sd = port) (sockets u)"
  by (simp add: onPort_def sockets_def map_filter_filter)

lemma in_map_filter: "y \<in> set (List.map_filter f xs) \<longleftrightarrow> (\<exists>x \<in> set xs. f x = Some y)"
  by (induction xs) (auto simp: List.map_filter_simps split: option.split)

lemma in_sockets:
  assumes "udp_inv u"
  shows "sd \<in> set (sockets u) \<longleftrightarrow> (\<exists>p. sockHeap u p = Some sd)"
proof -
  have "sockHeap u p = Some sd \<Longrightarrow> p < nextSock u" for p using udp_invD(1) [OF assms, of p] by (cases "p < nextSock u") auto
  then show ?thesis by (auto simp: sockets_def in_map_filter)
qed

lemma port_free:
  assumes "udp_inv u"
  shows "socketsByPortMap u port = None \<longleftrightarrow> port \<notin> sd_localPort ` set (sockets u)"
proof -
  have "onPort port u = [] \<longleftrightarrow> filter (\<lambda>sd. sd_localPort sd = port) (sockets u) = []"
    unfolding sockets_onPort [symmetric] by (auto simp: onPort_def List.map_filter_def filter_empty_conv)
  then show ?thesis by (auto simp: udp_invD(3) [OF assms] filter_empty_conv)
qed

section \<open>Ephemeral ports\<close>

lemma nextPort_short: "- 32768 \<le> nextPort p \<and> nextPort p < 32768"
  using c_short_bounds [of "p + 1"] by (simp add: nextPort_def Let_def port_consts)

lemma udp_searchPort_eq:
  assumes "- 32768 \<le> port" "port < 32768"
  shows "udp_searchPort r su used port = searchPort r su (mset_set {q. used q \<and> - 32768 \<le> q \<and> q < 32768}) port"
  using assms
proof (induction r arbitrary: port)
  have fin: "finite {q. used q \<and> - 32768 \<le> q \<and> q < (32768 :: int)}"
    by (rule finite_subset [of _ "{- 32768..<32768}"]) auto
  {
    case 0
    then show ?case using fin by (simp add: udp_searchPort.simps [of 0] searchPort.simps [of 0])
  next
    case (Suc r)
    then show ?case
      using fin Suc.IH [of "nextPort port"] nextPort_short [of port]
      by (simp add: udp_searchPort.simps [of "Suc r"] searchPort.simps [of "Suc r"])
  }
qed

lemma udp_getEphemeralPort_cases:
  assumes "udp_inv u"
  shows "if \<exists>q. port_ok q \<and> q \<notin> sd_localPort ` set (sockets u)
    then \<exists>p. udp_getEphemeralPort u = Inr (p, u\<lparr>udp_lastEphemeralPort := p\<rparr>) \<and> port_ok p \<and> p \<notin> sd_localPort ` set (sockets u)
    else udp_getEphemeralPort u = Inl (RuntimeError ''Ephemeral port range exhausted, all ports occupied'')"
proof -
  let ?su = "udp_lastEphemeralPort u" and ?M = "mset_set {q. socketsByPortMap u q \<noteq> None \<and> - 32768 \<le> q \<and> q < 32768}"
  have ok: "port_ok ?su" by (rule udp_invD(4) [OF assms])
  have fin: "finite {q. socketsByPortMap u q \<noteq> None \<and> - 32768 \<le> q \<and> q < (32768 :: int)}"
    by (rule finite_subset [of _ "{- 32768..<32768}"]) auto
  have mem: "port_ok q \<Longrightarrow> q \<in># ?M \<longleftrightarrow> q \<in> sd_localPort ` set (sockets u)" for q
    using fin port_free [OF assms, of q] by (auto simp: port_ok_def port_consts)
  have eq: "udp_searchPort 65536 ?su (\<lambda>p. socketsByPortMap u p \<noteq> None) (nextPort ?su) = searchPort 65536 ?su ?M (nextPort ?su)"
    by (rule udp_searchPort_eq [OF conjunct1 [OF nextPort_short] conjunct2 [OF nextPort_short]])
  have pow: "port_ok ((nextPort ^^ k) (nextPort ?su))" for k
    by (rule nextPort_pow(2) [OF nextPort_ok [OF ok]])
  have iff: "(\<exists>q. port_ok q \<and> q \<notin> sd_localPort ` set (sockets u)) \<longleftrightarrow> (\<exists>k \<le> 3975. (nextPort ^^ k) (nextPort ?su) \<notin># ?M)"
    (is "?L \<longleftrightarrow> ?R")
  proof
    assume ?L
    then obtain q where q: "port_ok q" "q \<notin> sd_localPort ` set (sockets u)" by blast
    obtain k where "k \<le> 3975" "(nextPort ^^ k) (nextPort ?su) = q" using ports_covered [OF ok q(1)] by blast
    then show ?R using mem [OF q(1)] q(2) by blast
  next
    assume ?R
    then show ?L using pow mem [OF pow] by blast
  qed
  note sp = searchPort_cases [OF ports_first_return [OF ok], of 65536 ?M]
  show ?thesis
  proof (cases "\<exists>q. port_ok q \<and> q \<notin> sd_localPort ` set (sockets u)")
    case True
    then obtain k where "searchPort 65536 ?su ?M (nextPort ?su) = Inr ((nextPort ^^ k) (nextPort ?su))"
        "(nextPort ^^ k) (nextPort ?su) \<notin># ?M"
      using sp iff by auto
    note k = this
    have "(nextPort ^^ k) (nextPort ?su) \<notin> sd_localPort ` set (sockets u)" using mem [OF pow [of k]] k(2) by blast
    moreover have "udp_getEphemeralPort u = Inr ((nextPort ^^ k) (nextPort ?su), u\<lparr>udp_lastEphemeralPort := (nextPort ^^ k) (nextPort ?su)\<rparr>)"
      unfolding udp_getEphemeralPort_def Let_def eq k(1) by simp
    ultimately show ?thesis using True pow [of k] by auto
  next
    case False
    then have "searchPort 65536 ?su ?M (nextPort ?su) =
        Inl (RuntimeError ''Ephemeral port range exhausted, all ports occupied'')"
      using sp iff by auto
    then show ?thesis using False eq by (simp add: udp_getEphemeralPort_def Let_def)
  qed
qed

section \<open>Commands\<close>

text \<open>The invariant and the abstract view depend on the tables only.\<close>

lemma udp_view_cong:
  assumes "sockHeap v = sockHeap u" "nextSock v = nextSock u"
  shows "sockets v = sockets u" "onPort port v = onPort port u"
  using assms by (simp_all add: sockets_def onPort_def)

lemma udp_inv_cong:
  assumes "sockHeap v = sockHeap u" "nextSock v = nextSock u" "socketsByIdMap v = socketsByIdMap u"
    "socketsByPortMap v = socketsByPortMap u" "port_ok (udp_lastEphemeralPort v) \<longleftrightarrow> port_ok (udp_lastEphemeralPort u)"
  shows "udp_inv v \<longleftrightarrow> udp_inv u"
  using udp_view_cong(2) [OF assms(1,2)] assms by (simp add: udp_inv_def)

definition addSock :: "SockDesc \<Rightarrow> UDP \<Rightarrow> UDP" where
  "addSock sd u = u\<lparr>sockHeap := (sockHeap u)(nextSock u \<mapsto> sd), nextSock := Suc (nextSock u),
     socketsByIdMap := (socketsByIdMap u)(sd_sockId sd \<mapsto> nextSock u),
     socketsByPortMap := (socketsByPortMap u)(sd_localPort sd \<mapsto> portList (sd_localPort sd) u @ [nextSock u])\<rparr>"

lemma onPort_addSock: "onPort port (addSock sd u) = onPort port u @ (if sd_localPort sd = port then [nextSock u] else [])"
  by (auto simp: onPort_def addSock_def intro!: filter_cong)

lemma sockets_addSock: "sockets (addSock sd u) = sockets u @ [sd]"
  by (auto simp: sockets_def addSock_def List.map_filter_def intro!: map_cong filter_cong)

lemma udp_inv_addSock:
  assumes "udp_inv u" "socketsByIdMap u (sd_sockId sd) = None" "sd_localPort sd \<noteq> 0"
    "- 32768 \<le> sd_localPort sd" "sd_localPort sd < 32768" "sd_onlyLocalPortIsSet sd \<longrightarrow> onlyLocalPort sd"
  shows "udp_inv (addSock sd u)"
  unfolding udp_inv_def
proof (intro conjI allI impI)
  fix p i port sd'
  note free = udp_invD(1) [OF assms(1)]
  show "nextSock (addSock sd u) \<le> p \<Longrightarrow> sockHeap (addSock sd u) p = None" using free by (simp add: addSock_def)
  have "socketsByIdMap u i = Some p \<Longrightarrow> p \<noteq> nextSock u" using udp_invD(2) [OF assms(1), of i p] free by auto
  then show "socketsByIdMap (addSock sd u) i = Some p \<longleftrightarrow> (\<exists>sd'. sockHeap (addSock sd u) p = Some sd' \<and> sd_sockId sd' = i)"
    using udp_invD(2) [OF assms(1), of i p] idMap_None [OF assms(1,2), of p] free [of "nextSock u"]
    by (auto simp: addSock_def)
  show "socketsByPortMap (addSock sd u) port =
      (if onPort port (addSock sd u) = [] then None else Some (onPort port (addSock sd u)))"
    by (simp add: onPort_addSock, simp add: addSock_def portList_onPort [OF assms(1)] udp_invD(3) [OF assms(1)])
  show "port_ok (udp_lastEphemeralPort (addSock sd u))" using udp_invD(4) [OF assms(1)] by (simp add: addSock_def)
  show "sockHeap (addSock sd u) p = Some sd' \<Longrightarrow> sd_localPort sd' \<noteq> 0"
    "sockHeap (addSock sd u) p = Some sd' \<Longrightarrow> - 32768 \<le> sd_localPort sd'"
    "sockHeap (addSock sd u) p = Some sd' \<Longrightarrow> sd_localPort sd' < 32768"
    "sockHeap (addSock sd u) p = Some sd' \<Longrightarrow> sd_onlyLocalPortIsSet sd' \<Longrightarrow> onlyLocalPort sd'"
    using udp_invD(5,6) [OF assms(1), of p sd'] assms(3-6) by (auto simp: addSock_def split: if_splits)
qed

definition removeSock :: "nat \<Rightarrow> SockDesc \<Rightarrow> UDP \<Rightarrow> UDP" where
  "removeSock p sd u =
     (let list = remove1 p (portList (sd_localPort sd) u)
      in u\<lparr>socketsByIdMap := (socketsByIdMap u)(sd_sockId sd := None),
           socketsByPortMap := (socketsByPortMap u)(sd_localPort sd := (if list = [] then None else Some list)),
           sockHeap := (sockHeap u)(p := None)\<rparr>)"

lemma onPort_removeSock:
  assumes "sockHeap u p = Some sd"
  shows "onPort port (removeSock p sd u) = (if sd_localPort sd = port then remove1 p (onPort port u) else onPort port u)"
proof -
  have "remove1 p (onPort port u) = filter (\<lambda>q. q \<noteq> p) (onPort port u)"
    by (subst distinct_remove1_removeAll) (auto simp: onPort_def removeAll_filter_not_eq intro: filter_cong)
  moreover have "onPort port (removeSock p sd u) = filter (\<lambda>q. q \<noteq> p) (onPort port u)"
    by (auto simp: onPort_def removeSock_def Let_def intro!: filter_cong)
  moreover have "filter (\<lambda>q. q \<noteq> p) (onPort port u) = onPort port u" if "sd_localPort sd \<noteq> port"
    using assms that by (auto simp: onPort_def intro!: filter_cong)
  ultimately show ?thesis by simp
qed

lemma sockets_removeSock:
  assumes "udp_inv u" "sockHeap u p = Some sd"
  shows "sockets (removeSock p sd u) = filter (\<lambda>sd'. sd_sockId sd' \<noteq> sd_sockId sd) (sockets u)"
proof -
  have "p = q" if "sockHeap u q = Some sd'" "sd_sockId sd' = sd_sockId sd" for q sd'
    using udp_invD(2) [OF assms(1), of "sd_sockId sd"] assms(2) that by (metis option.inject)
  note uniq = this
  have h: "sockHeap (removeSock p sd u) q = (case sockHeap u q of None \<Rightarrow> None
      | Some sd' \<Rightarrow> if sd_sockId sd' \<noteq> sd_sockId sd then Some sd' else None)" for q
  proof (cases "sockHeap u q")
    case (Some sd')
    then have "sd_sockId sd' = sd_sockId sd \<longleftrightarrow> q = p" using uniq [OF Some] assms(2) by auto
    then show ?thesis using Some by (simp add: removeSock_def Let_def)
  qed (simp add: removeSock_def Let_def)
  have "List.map_filter (\<lambda>q. case f q of None \<Rightarrow> None | Some y \<Rightarrow> if P y then Some y else None) xs = filter P (List.map_filter f xs)"
    for f and P :: "SockDesc \<Rightarrow> bool" and xs :: "nat list"
    by (induction xs) (auto simp: List.map_filter_simps split: option.split)
  then show ?thesis unfolding sockets_def h by (simp add: removeSock_def Let_def)
qed

lemma udp_inv_removeSock:
  assumes "udp_inv u" "sockHeap u p = Some sd"
  shows "udp_inv (removeSock p sd u)"
  unfolding udp_inv_def
proof (intro conjI allI impI)
  fix q i port sd'
  show "nextSock (removeSock p sd u) \<le> q \<Longrightarrow> sockHeap (removeSock p sd u) q = None"
    using udp_invD(1) [OF assms(1), of q] by (simp add: removeSock_def Let_def)
  have "sd_sockId sd' \<noteq> sd_sockId sd" if "sockHeap u q = Some sd'" "q \<noteq> p" for sd'
    using udp_invD(2) [OF assms(1), of "sd_sockId sd"] assms(2) that by (metis option.inject)
  then show "socketsByIdMap (removeSock p sd u) i = Some q \<longleftrightarrow> (\<exists>sd'. sockHeap (removeSock p sd u) q = Some sd' \<and> sd_sockId sd' = i)"
    using udp_invD(2) [OF assms(1), of i q] assms(2) by (auto simp: removeSock_def Let_def)
  show "socketsByPortMap (removeSock p sd u) port =
      (if onPort port (removeSock p sd u) = [] then None else Some (onPort port (removeSock p sd u)))"
    by (simp add: onPort_removeSock [OF assms(2)],
        simp add: removeSock_def Let_def portList_onPort [OF assms(1)] udp_invD(3) [OF assms(1)])
  show "port_ok (udp_lastEphemeralPort (removeSock p sd u))" using udp_invD(4) [OF assms(1)] by (simp add: removeSock_def Let_def)
  show "sockHeap (removeSock p sd u) q = Some sd' \<Longrightarrow> sd_localPort sd' \<noteq> 0"
    "sockHeap (removeSock p sd u) q = Some sd' \<Longrightarrow> - 32768 \<le> sd_localPort sd'"
    "sockHeap (removeSock p sd u) q = Some sd' \<Longrightarrow> sd_localPort sd' < 32768"
    "sockHeap (removeSock p sd u) q = Some sd' \<Longrightarrow> sd_onlyLocalPortIsSet sd' \<Longrightarrow> onlyLocalPort sd'"
    using udp_invD(5,6) [OF assms(1), of q sd'] by (auto simp: removeSock_def Let_def split: if_splits)
qed


definition connectSock :: "IPvXAddress \<Rightarrow> int \<Rightarrow> SockDesc \<Rightarrow> SockDesc" where
  "connectSock addr port sd = sd\<lparr>sd_remoteAddr := addr, sd_remotePort := c_short port, sd_onlyLocalPortIsSet := False\<rparr>"

lemma connectSock_sel [simp]:
  "sd_sockId (connectSock a q sd) = sd_sockId sd" "sd_localPort (connectSock a q sd) = sd_localPort sd"
  "sd_onlyLocalPortIsSet (connectSock a q sd) = False"
  by (simp_all add: connectSock_def)

lemma connect_view:
  assumes "udp_inv u" "sockHeap u p = Some sd" and v_def: "v = u\<lparr>sockHeap := (sockHeap u)(p \<mapsto> connectSock a q sd)\<rparr>"
  shows "sockets v = map (\<lambda>sd'. if sd_sockId sd' = sd_sockId sd then connectSock a q sd' else sd') (sockets u)" "udp_inv v"
proof -
  have uniq: "r = p" if "sockHeap u r = Some sd'" "sd_sockId sd' = sd_sockId sd" for r sd'
    using udp_invD(2) [OF assms(1), of "sd_sockId sd"] assms(2) that by (metis option.inject)
  let ?f = "\<lambda>sd'. if sd_sockId sd' = sd_sockId sd then connectSock a q sd' else sd'"
  have h: "sockHeap v r = map_option ?f (sockHeap u r)" for r
  proof (cases "sockHeap u r")
    case None
    then show ?thesis using assms(2) by (auto simp: v_def)
  next
    case (Some sd')
    then have "sd_sockId sd' = sd_sockId sd \<longleftrightarrow> r = p" using uniq [OF Some] assms(2) by auto
    then show ?thesis using Some assms(2) by (auto simp: v_def)
  qed
  have "List.map_filter (\<lambda>r. map_option f (g r)) xs = map f (List.map_filter g xs)"
    for f :: "SockDesc \<Rightarrow> SockDesc" and g and xs :: "nat list"
    by (induction xs) (auto simp: List.map_filter_simps split: option.split)
  then show "sockets v = map ?f (sockets u)" unfolding sockets_def h by (simp add: v_def)
  have "(\<exists>sd'. sockHeap v r = Some sd' \<and> sd_localPort sd' = port) \<longleftrightarrow> (\<exists>sd'. sockHeap u r = Some sd' \<and> sd_localPort sd' = port)" for r port
    unfolding h by (cases "sockHeap u r") auto
  then have o: "onPort port v = onPort port u" for port by (simp add: onPort_def v_def)
  show "udp_inv v"
    unfolding udp_inv_def o
  proof (intro conjI allI impI)
    fix r i port sd'
    have s: "socketsByIdMap v = socketsByIdMap u" "nextSock v = nextSock u" "socketsByPortMap v = socketsByPortMap u"
      "udp_lastEphemeralPort v = udp_lastEphemeralPort u" by (simp_all add: v_def)
    show "nextSock v \<le> r \<Longrightarrow> sockHeap v r = None" using udp_invD(1) [OF assms(1)] by (simp add: h s)
    show "socketsByIdMap v i = Some r \<longleftrightarrow> (\<exists>sd'. sockHeap v r = Some sd' \<and> sd_sockId sd' = i)"
      unfolding h s using udp_invD(2) [OF assms(1), of i r] by (cases "sockHeap u r") auto
    show "socketsByPortMap v port = (if onPort port u = [] then None else Some (onPort port u))"
      unfolding s by (rule udp_invD(3) [OF assms(1)])
    show "port_ok (udp_lastEphemeralPort v)" unfolding s by (rule udp_invD(4) [OF assms(1)])
    show "sockHeap v r = Some sd' \<Longrightarrow> sd_localPort sd' \<noteq> 0" "sockHeap v r = Some sd' \<Longrightarrow> - 32768 \<le> sd_localPort sd'"
      "sockHeap v r = Some sd' \<Longrightarrow> sd_localPort sd' < 32768" "sockHeap v r = Some sd' \<Longrightarrow> sd_onlyLocalPortIsSet sd' \<Longrightarrow> onlyLocalPort sd'"
      using udp_invD(5,6) [OF assms(1), of r] unfolding h by (auto split: if_splits)
  qed
qed

section \<open>Delivery\<close>

text \<open>The sockets a datagram is for, and the copy each of them is sent.\<close>

definition accepts :: "UDPHeader \<Rightarrow> IPControlInfo \<Rightarrow> SockDesc \<Rightarrow> bool" where
  "accepts h ci sd \<longleftrightarrow> (sd_remotePort sd = 0 \<or> sd_remotePort sd = sourcePort h) \<and>
     (isUnspecified (sd_localAddr sd) \<or> sd_localAddr sd = IPv4 (ci_destAddr ci)) \<and>
     (isUnspecified (sd_remoteAddr sd) \<or> sd_remoteAddr sd = IPv4 (ci_srcAddr ci)) \<and>
     (sd_interfaceId sd = - 1 \<or> sd_interfaceId sd = ci_interfaceId ci)"

definition receivers :: "UDPHeader \<Rightarrow> IPControlInfo \<Rightarrow> SockDesc list \<Rightarrow> SockDesc list" where
  "receivers h ci = filter (\<lambda>sd. sd_localPort sd = destinationPort h \<and> accepts h ci sd)"

definition copyFor :: "cPacket \<Rightarrow> UDPHeader \<Rightarrow> IPControlInfo \<Rightarrow> SockDesc \<Rightarrow> UDPOut" where
  "copyFor payload h ci sd = AppOut (sd_appGateIndex sd) payload (upControl h ci sd)"

definition ipv4_only :: "SockDesc \<Rightarrow> bool" where
  "ipv4_only sd \<longleftrightarrow> \<not> isIPv6 (sd_localAddr sd) \<and> \<not> isIPv6 (sd_remoteAddr sd)"

lemma get4_eq: "get4 a = Inr b \<longleftrightarrow> a = IPv4 b"
  by (cases a) auto

lemma get4_bool: "bindE (get4 a) (\<lambda>x. Inr (x = c)) = Inr b \<Longrightarrow> b \<longleftrightarrow> a = IPv4 c"
  by (cases a) auto

lemma matchesSocket_accepts:
  assumes "matchesSocket sd h ci = Inr b"
  shows "b = accepts h ci sd"
proof -
  define l where "l = (if isUnspecified (sd_localAddr sd) then Inr True
      else bindE (get4 (sd_localAddr sd)) (\<lambda>a. Inr (a = ci_destAddr ci)))"
  define r where "r = (if isUnspecified (sd_remoteAddr sd) then Inr True
      else bindE (get4 (sd_remoteAddr sd)) (\<lambda>a. Inr (a = ci_srcAddr ci)))"
  have l: "l = Inr x \<Longrightarrow> x \<longleftrightarrow> isUnspecified (sd_localAddr sd) \<or> sd_localAddr sd = IPv4 (ci_destAddr ci)" for x
    unfolding l_def using get4_bool by (auto split: if_splits)
  have r: "r = Inr x \<Longrightarrow> x \<longleftrightarrow> isUnspecified (sd_remoteAddr sd) \<or> sd_remoteAddr sd = IPv4 (ci_srcAddr ci)" for x
    unfolding r_def using get4_bool by (auto split: if_splits)
  show ?thesis
    using assms l r unfolding matchesSocket_def l_def [symmetric] r_def [symmetric] accepts_def
    by (auto simp: bindE_eq_Inr split: if_splits)
qed

lemma matchesSocket_ipv4: "ipv4_only sd \<Longrightarrow> matchesSocket sd h ci = Inr (accepts h ci sd)"
  by (cases "sd_localAddr sd"; cases "sd_remoteAddr sd") (auto simp: ipv4_only_def matchesSocket_def accepts_def)

lemma onlyLocalPort_accepts: "onlyLocalPort sd \<Longrightarrow> accepts h ci sd"
  by (simp add: onlyLocalPort_def accepts_def)

lemma sendUp_eq: "sendUp pl h ci sd u = u\<lparr>udp_out := udp_out u @ [copyFor pl h ci sd], numPassedUp := numPassedUp u + 1\<rparr>"
  by (simp add: sendUp_def udp_emit_def copyFor_def)

lemma udp_inv_sendUp: "udp_inv (sendUp pl h ci sd u) \<longleftrightarrow> udp_inv u"
  unfolding sendUp_eq by (rule udp_inv_cong) simp_all

text \<open>The loop: partial correctness, and success for IPv4 sockets.\<close>

lemma deliverCopies_spec:
  assumes "\<forall>p \<in> set ps. \<exists>sd. sockHeap u p = Some sd \<and> (sd_onlyLocalPortIsSet sd \<longrightarrow> onlyLocalPort sd)"
    and "deliverCopies ps (h, pl) ci n u = Inr (m, v)"
  shows "let sds = filter (accepts h ci) (List.map_filter (sockHeap u) ps)
    in m = n + length sds \<and> (sds \<noteq> [] \<longrightarrow> pl \<noteq> None) \<and>
       v = u\<lparr>udp_out := udp_out u @ map (copyFor (the pl) h ci) sds, numPassedUp := numPassedUp u + int (length sds)\<rparr>"
  using assms
proof (induction ps arbitrary: n u)
  case Nil
  then show ?case by (simp add: List.map_filter_simps)
next
  case (Cons p ps)
  obtain sd where sd: "sockHeap u p = Some sd" "sd_onlyLocalPortIsSet sd \<Longrightarrow> onlyLocalPort sd" using Cons.prems(1) by auto
  obtain b where b: "(if sd_onlyLocalPortIsSet sd then Inr True else matchesSocket sd h ci) = Inr b"
    using Cons.prems(2) sd(1) by (cases "sd_onlyLocalPortIsSet sd") (auto simp: derefSock_def bindE_eq_Inr)
  have step: "deliverCopies (p # ps) (h, pl) ci n u = (if \<not> b then deliverCopies ps (h, pl) ci n u
      else case pl of None \<Rightarrow> Inl NullPointer | Some payload \<Rightarrow> deliverCopies ps (h, pl) ci (Suc n) (sendUp payload h ci sd u))"
    using sd(1) b by (cases "sd_onlyLocalPortIsSet sd") (simp_all add: derefSock_def split: option.split)
  have acc: "b \<longleftrightarrow> accepts h ci sd"
    using b sd(2) onlyLocalPort_accepts matchesSocket_accepts by (cases "sd_onlyLocalPortIsSet sd") auto
  show ?case
  proof (cases b)
    case False
    then have "deliverCopies ps (h, pl) ci n u = Inr (m, v)" using Cons.prems(2) step by simp
    moreover have "\<forall>p \<in> set ps. \<exists>sd. sockHeap u p = Some sd \<and> (sd_onlyLocalPortIsSet sd \<longrightarrow> onlyLocalPort sd)"
      using Cons.prems(1) by simp
    ultimately show ?thesis using Cons.IH sd(1) False acc by (simp add: List.map_filter_simps)
  next
    case True
    obtain payload where pl: "pl = Some payload" and d: "deliverCopies ps (h, pl) ci (Suc n) (sendUp payload h ci sd u) = Inr (m, v)"
      using Cons.prems(2) step True by (auto split: option.splits)
    have "\<forall>p \<in> set ps. \<exists>sd'. sockHeap (sendUp payload h ci sd u) p = Some sd' \<and> (sd_onlyLocalPortIsSet sd' \<longrightarrow> onlyLocalPort sd')"
      using Cons.prems(1) by (simp add: sendUp_eq)
    note IH = Cons.IH [OF this d]
    show ?thesis using IH sd(1) True acc pl by (simp add: sendUp_eq List.map_filter_simps Let_def)
  qed
qed

lemma deliverCopies_total:
  assumes "\<forall>p \<in> set ps. \<exists>sd. sockHeap u p = Some sd \<and> ipv4_only sd" "pl \<noteq> None"
  shows "\<exists>m v. deliverCopies ps (h, pl) ci n u = Inr (m, v)"
  using assms(1)
proof (induction ps arbitrary: n u)
  case (Cons p ps)
  obtain sd where sd: "sockHeap u p = Some sd" "ipv4_only sd" using Cons.prems by auto
  have "\<forall>p \<in> set ps. \<exists>sd'. sockHeap (sendUp x h ci sd u) p = Some sd' \<and> ipv4_only sd'" for x
    using Cons.prems by (simp add: sendUp_eq)
  then show ?case
    using Cons.IH [of u n] Cons.IH [of "sendUp (the pl) h ci sd u" "Suc n"] Cons.prems sd matchesSocket_ipv4 [OF sd(2)] assms(2)
    by (auto simp: derefSock_def)
qed simp


section \<open>Errors\<close>

definition errorMatches :: "IPvXAddress \<Rightarrow> IPvXAddress \<Rightarrow> int \<Rightarrow> SockDesc \<Rightarrow> bool" where
  "errorMatches laddr raddr rport sd \<longleftrightarrow> sd_onlyLocalPortIsSet sd \<or> matchesSocket_error sd laddr raddr rport"

lemma findSource_spec:
  assumes "\<forall>p \<in> set ps. sockHeap u p \<noteq> None"
  shows "findSource ps la ra rp src u =
    Inr (let sds = filter (errorMatches la ra rp) (List.map_filter (sockHeap u) ps) in if sds = [] then src else Some (last sds))"
  using assms
  by (induction ps arbitrary: src)
    (auto simp: derefSock_def errorMatches_def List.map_filter_simps Let_def split: option.splits)

section \<open>The specification\<close>

text \<open>
  The abstract module: a list of sockets.  \<open>udp_spec i ss ss' outs\<close> says that on the message \<open>i\<close> the list
  \<open>ss\<close> may become \<open>ss'\<close> with the output \<open>outs\<close>.
\<close>

definition freshPort :: "SockDesc list \<Rightarrow> int \<Rightarrow> int \<Rightarrow> bool" where
  "freshPort ss requested port \<longleftrightarrow>
     (if c_short requested \<noteq> 0 then port = c_short requested else port_ok port \<and> port \<notin> sd_localPort ` set ss)"

definition boundSock :: "int \<Rightarrow> UDPControlInfo \<Rightarrow> int \<Rightarrow> SockDesc" where
  "boundSock g c port = (let sd = (newSockDesc g c)\<lparr>sd_localPort := port\<rparr> in sd\<lparr>sd_onlyLocalPortIsSet := onlyLocalPort sd\<rparr>)"

definition errorReport :: "IPvXAddress \<Rightarrow> IPvXAddress \<Rightarrow> int \<Rightarrow> SockDesc \<Rightarrow> UDPOut" where
  "errorReport la ra rp sd = AppError (sd_appGateIndex sd) UDP_I_ERROR (newUDPControlInfo\<lparr>uc_sockId := sd_sockId sd,
     uc_userId := sd_userId sd, uc_srcAddr := la, uc_destAddr := ra, uc_srcPort := sd_localPort sd, uc_destPort := rp\<rparr>)"

definition sentPacket :: "cPacket \<Rightarrow> UDPControlInfo \<Rightarrow> Packet" where
  "sentPacket pk c = UDPPacket \<lparr> udp_name = pkName pk, sourcePort = uc_srcPort c, destinationPort = uc_destPort c,
     udp_byteLength = UDP_HEADER_BYTES + int (byteLength pk), udp_bitError = False \<rparr> (Some pk)"

inductive udp_spec :: "UdpIn \<Rightarrow> SockDesc list \<Rightarrow> SockDesc list \<Rightarrow> UDPOut list \<Rightarrow> bool" where
  spec_bind: "uc_sockId c \<noteq> - 1 \<Longrightarrow> uc_sockId c \<notin> sd_sockId ` set ss \<Longrightarrow> freshPort ss (uc_srcPort c) port \<Longrightarrow>
    udp_spec (FromApp UDP_C_BIND g m (Some c)) ss (ss @ [boundSock g c port]) []"
| spec_connect: "uc_sockId c \<in> sd_sockId ` set ss \<Longrightarrow> \<not> isUnspecified (uc_destAddr c) \<Longrightarrow> 0 < uc_destPort c \<Longrightarrow> uc_destPort c \<le> 65535 \<Longrightarrow>
    udp_spec (FromApp UDP_C_CONNECT g m (Some c)) ss
      (map (\<lambda>sd. if sd_sockId sd = uc_sockId c then connectSock (uc_destAddr c) (uc_destPort c) sd else sd) ss) []"
| spec_unbind: "uc_sockId c \<in> sd_sockId ` set ss \<Longrightarrow>
    udp_spec (FromApp UDP_C_UNBIND g m (Some c)) ss (filter (\<lambda>sd. sd_sockId sd \<noteq> uc_sockId c) ss) []"
| spec_send: "uc_srcAddr c = IPv4 a \<Longrightarrow> uc_destAddr c = IPv4 b \<Longrightarrow>
    udp_spec (FromApp UDP_C_DATA g (Some pk) (Some c)) ss ss
      [UdpToIP (sentPacket pk c) (newIPControlInfo\<lparr>ci_protocol := IP_PROT_UDP, ci_srcAddr := a, ci_destAddr := b, ci_interfaceId := uc_interfaceId c\<rparr>)]"
| spec_send6: "get6 (uc_srcAddr c) = Inr a \<Longrightarrow> get6 (uc_destAddr c) = Inr b \<Longrightarrow> isIPv6 (uc_destAddr c) \<Longrightarrow>
    udp_spec (FromApp UDP_C_DATA g (Some pk) (Some c)) ss ss [UdpToIPv6 (sentPacket pk c) a b]"
| spec_corrupt: "udp_bitError h \<Longrightarrow> udp_spec (FromIp (UDPPacket h pl) ctrl) ss ss []"
| spec_receive: "\<not> udp_bitError h \<Longrightarrow> receivers h ci ss = [] \<or> pl = Some payload \<Longrightarrow>
    udp_spec (FromIp (UDPPacket h pl) (Ctrl4 ci)) ss ss (map (copyFor payload h ci) (receivers h ci ss))"
| spec_error: "icmpErrorDetails enc = Inr (la, ra, lp, rp) \<Longrightarrow>
    errs = filter (\<lambda>sd. sd_localPort sd = lp \<and> errorMatches la ra (c_short rp) sd) ss \<Longrightarrow>
    udp_spec (FromIp (ICMPMessage h enc) ctrl) ss ss (if errs = [] then [] else [errorReport la ra (c_short rp) (last errs)])"
| spec_error6: "icmpv6ErrorDetails enc = Inr (la, ra, lp, rp) \<Longrightarrow>
    errs = filter (\<lambda>sd. sd_localPort sd = lp \<and> errorMatches la ra (c_short rp) sd) ss \<Longrightarrow>
    udp_spec (FromIcmpv6 enc) ss ss (if errs = [] then [] else [errorReport la ra (c_short rp) (last errs)])"

section \<open>The module refines the specification\<close>

lemma idMap_mem: "udp_inv u \<Longrightarrow> socketsByIdMap u i \<noteq> None \<longleftrightarrow> i \<in> sd_sockId ` set (sockets u)"
  using udp_invD(2) [of u i] in_sockets [of u] by (auto simp: image_iff) (metis option.exhaust)+

lemma udp_bind_spec:
  assumes "udp_inv u" "udp_bind g c u = Inr v"
  shows "udp_inv v \<and> udp_out v = udp_out u \<and> udp_spec (FromApp UDP_C_BIND g m (Some c)) (sockets u) (sockets v) []"
proof -
  obtain sd w where f: "fillLocalPort (newSockDesc g c) u = Inr (sd, w)"
    using assms(2) by (auto simp: udp_bind_def Let_def bindE_eq_Inr split: if_splits)
  have port: "freshPort (sockets u) (uc_srcPort c) (sd_localPort sd) \<and> sd = (newSockDesc g c)\<lparr>sd_localPort := sd_localPort sd\<rparr> \<and>
      - 32768 \<le> sd_localPort sd \<and> sd_localPort sd < 32768 \<and> sd_localPort sd \<noteq> 0 \<and> (\<exists>e. w = u\<lparr>udp_lastEphemeralPort := e\<rparr> \<and> port_ok e)"
  proof (cases "c_short (uc_srcPort c) = 0")
    case True
    then obtain p where "udp_getEphemeralPort u = Inr (p, w)" "sd = (newSockDesc g c)\<lparr>sd_localPort := p\<rparr>"
      using f by (auto simp: fillLocalPort_def newSockDesc_def bindE_eq_Inr)
    moreover have "w = u\<lparr>udp_lastEphemeralPort := p\<rparr> \<and> port_ok p \<and> p \<notin> sd_localPort ` set (sockets u)"
      using udp_getEphemeralPort_cases [OF assms(1)] calculation(1) by (auto split: if_splits)
    ultimately show ?thesis using True by (auto simp: freshPort_def port_ok_def port_consts)
  next
    case False
    then have "sd = newSockDesc g c" "w = u" using f by (auto simp: fillLocalPort_def newSockDesc_def)
    moreover have "\<exists>e. u = u\<lparr>udp_lastEphemeralPort := e\<rparr> \<and> port_ok e"
      using udp_invD(4) [OF assms(1)] by (intro exI [of _ "udp_lastEphemeralPort u"]) simp
    ultimately show ?thesis
      using False c_short_bounds [of "uc_srcPort c"] by (auto simp: freshPort_def newSockDesc_def)
  qed
  let ?sd = "boundSock g c (sd_localPort sd)"
  have sd: "sd\<lparr>sd_onlyLocalPortIsSet := onlyLocalPort sd\<rparr> = ?sd" using port by (simp add: boundSock_def Let_def)
  have sel: "sd_sockId ?sd = uc_sockId c" "sd_localPort ?sd = sd_localPort sd" "sd_onlyLocalPortIsSet ?sd \<Longrightarrow> onlyLocalPort ?sd"
    by (simp_all add: boundSock_def newSockDesc_def Let_def onlyLocalPort_def)
  have sid: "sd_sockId sd = uc_sockId c" using sel(1) unfolding sd [symmetric] by simp
  obtain e where w: "w = u\<lparr>udp_lastEphemeralPort := e\<rparr>" "port_ok e" using port by blast
  have wi: "udp_inv w" "sockets w = sockets u" "udp_out w = udp_out u" "socketsByIdMap w = socketsByIdMap u"
    using assms(1) udp_inv_cong [of w u] udp_view_cong(1) [of w u] w udp_invD(4) [OF assms(1)] by simp_all
  have v: "uc_sockId c \<noteq> - 1" "socketsByIdMap w (uc_sockId c) = None" "v = addSock ?sd w"
    using assms(2) f sd sel(1,2) sid by (auto simp: udp_bind_def Let_def newSockDesc_def addSock_def portList_def split: if_splits)
  have "udp_inv v" unfolding v(3) using wi(1) v(2) sel port by (intro udp_inv_addSock) simp_all
  moreover have "udp_out v = udp_out u" using v(3) wi(3) by (simp add: addSock_def)
  moreover have "sockets v = sockets u @ [?sd]" by (simp add: v(3) sockets_addSock wi(2))
  moreover have "uc_sockId c \<notin> sd_sockId ` set (sockets u)" using idMap_mem [OF wi(1)] v(2) wi(2) by metis
  ultimately show ?thesis using spec_bind [OF v(1)] port by simp
qed


lemma udp_connect_spec:
  assumes "udp_inv u" "udp_connect (uc_sockId c) (uc_destAddr c) (uc_destPort c) u = Inr v"
  shows "udp_inv v \<and> udp_out v = udp_out u \<and> udp_spec (FromApp UDP_C_CONNECT g m (Some c)) (sockets u) (sockets v) []"
proof -
  obtain p sd where p: "socketsByIdMap u (uc_sockId c) = Some p" "sockHeap u p = Some sd"
    and c: "\<not> isUnspecified (uc_destAddr c)" "0 < uc_destPort c" "uc_destPort c \<le> 65535"
    and v: "v = u\<lparr>sockHeap := (sockHeap u)(p \<mapsto> connectSock (uc_destAddr c) (uc_destPort c) sd)\<rparr>"
    using assms(2) by (auto simp: udp_connect_def derefSock_def connectSock_def not_le split: option.splits if_splits)
  have i: "sd_sockId sd = uc_sockId c" using udp_invD(2) [OF assms(1), of "uc_sockId c" p] p by auto
  note cv = connect_view [OF assms(1) p(2) v]
  have "uc_sockId c \<in> sd_sockId ` set (sockets u)" using idMap_mem [OF assms(1), of "uc_sockId c"] p(1) by simp
  then show ?thesis using spec_connect [OF _ c] cv i v by simp
qed

lemma udp_unbind_spec:
  assumes "udp_inv u" "udp_unbind (uc_sockId c) u = Inr v"
  shows "udp_inv v \<and> udp_out v = udp_out u \<and> udp_spec (FromApp UDP_C_UNBIND g m (Some c)) (sockets u) (sockets v) []"
proof -
  obtain p sd where p: "socketsByIdMap u (uc_sockId c) = Some p" "sockHeap u p = Some sd"
    using assms(2) by (auto simp: udp_unbind_def derefSock_def bindE_eq_Inr split: option.splits)
  have i: "sd_sockId sd = uc_sockId c" using udp_invD(2) [OF assms(1), of "uc_sockId c" p] p by auto
  have v: "v = removeSock p sd u" using assms(2) p i by (auto simp: udp_unbind_def derefSock_def removeSock_def Let_def)
  have "udp_out v = udp_out u" by (simp add: v removeSock_def Let_def)
  moreover have "uc_sockId c \<in> sd_sockId ` set (sockets u)" using idMap_mem [OF assms(1), of "uc_sockId c"] p(1) by simp
  ultimately show ?thesis
    using spec_unbind [of c "sockets u" g m] udp_inv_removeSock [OF assms(1) p(2)] sockets_removeSock [OF assms(1) p(2)] v i by simp
qed

lemma udp_send_spec:
  assumes "udp_inv u" "processMsgFromApp pk c u = Inr v"
  shows "udp_inv v \<and> (\<exists>outs. udp_out v = udp_out u @ outs \<and>
    udp_spec (FromApp UDP_C_DATA g (Some pk) (Some c)) (sockets u) (sockets v) outs)"
proof -
  have sent: "UDPPacket ((createUDPPacket (pkName pk))\<lparr>udp_byteLength := UDP_HEADER_BYTES + int (byteLength pk),
      sourcePort := uc_srcPort c, destinationPort := uc_destPort c\<rparr>) (Some pk) = sentPacket pk c"
    by (simp add: createUDPPacket_def sentPacket_def)
  have tables: "udp_inv (u\<lparr>udp_out := x, numSent := y\<rparr>)" "sockets (u\<lparr>udp_out := x, numSent := y\<rparr>) = sockets u" for x y
    using assms(1) udp_inv_cong [of "u\<lparr>udp_out := x, numSent := y\<rparr>" u] udp_view_cong(1) [of "u\<lparr>udp_out := x, numSent := y\<rparr>" u] by simp_all
  show ?thesis
  proof (cases "isIPv6 (uc_destAddr c)")
    case False
    then obtain a b where ab: "uc_srcAddr c = IPv4 a" "uc_destAddr c = IPv4 b"
      and v: "v = u\<lparr>udp_out := udp_out u @ [UdpToIP (sentPacket pk c) (newIPControlInfo\<lparr>ci_protocol := IP_PROT_UDP, ci_srcAddr := a,
        ci_destAddr := b, ci_interfaceId := uc_interfaceId c\<rparr>)], numSent := numSent u + 1\<rparr>"
      using assms(2) unfolding processMsgFromApp_def Let_def sent by (auto simp: bindE_eq_Inr get4_eq udp_emit_def)
    show ?thesis unfolding v using tables spec_send [OF ab] by auto
  next
    case True
    then obtain a b where ab: "get6 (uc_srcAddr c) = Inr a" "get6 (uc_destAddr c) = Inr b"
      and v: "v = u\<lparr>udp_out := udp_out u @ [UdpToIPv6 (sentPacket pk c) a b], numSent := numSent u + 1\<rparr>"
      using assms(2) unfolding processMsgFromApp_def Let_def sent by (auto simp: bindE_eq_Inr udp_emit_def)
    show ?thesis unfolding v using tables spec_send6 [OF ab True] by auto
  qed
qed

lemma undeliverable_view:
  assumes "processUndeliverablePacket pk ctrl u = Inr v"
  shows "\<exists>ip. v = u\<lparr>numDroppedWrongPort := numDroppedWrongPort u + 1, udp_icmp := ip\<rparr>" "\<exists>ci. ctrl = Ctrl4 ci"
proof -
  obtain ci where ci: "ctrl = Ctrl4 ci" using assms by (cases ctrl) (auto simp: processUndeliverablePacket_def Let_def)
  then show "\<exists>ci. ctrl = Ctrl4 ci" by blast
  show "\<exists>ip. v = u\<lparr>numDroppedWrongPort := numDroppedWrongPort u + 1, udp_icmp := ip\<rparr>"
  proof (cases "ip_isMulticast (ci_destAddr ci)")
    case True
    then have "v = u\<lparr>numDroppedWrongPort := numDroppedWrongPort u + 1, udp_icmp := udp_icmp u\<rparr>"
      using assms ci by (auto simp: processUndeliverablePacket_def Let_def)
    then show ?thesis by blast
  next
    case False
    then obtain ip where "v = u\<lparr>numDroppedWrongPort := numDroppedWrongPort u + 1, udp_icmp := ip\<rparr>"
      using assms ci by (auto simp: processUndeliverablePacket_def Let_def bindE_eq_Inr)
    then show ?thesis by blast
  qed
qed

lemma receivers_onPort:
  "filter (accepts h ci) (List.map_filter (sockHeap u) (onPort (destinationPort h) u)) = receivers h ci (sockets u)"
  unfolding sockets_onPort receivers_def by (simp add: conj_commute)

lemma onPort_ok:
  assumes "udp_inv u"
  shows "\<forall>p \<in> set (onPort port u). \<exists>sd. sockHeap u p = Some sd \<and> (sd_onlyLocalPortIsSet sd \<longrightarrow> onlyLocalPort sd)"
  using udp_invD(6) [OF assms] by (fastforce simp: onPort_def)

lemma deliver_onPort:
  assumes "udp_inv u" "deliverCopies (onPort (destinationPort h) u) (h, pl) ci 0 u = Inr (n, v)"
  shows "n = length (receivers h ci (sockets u))" "receivers h ci (sockets u) \<noteq> [] \<Longrightarrow> pl \<noteq> None"
    "v = u\<lparr>udp_out := udp_out u @ map (copyFor (the pl) h ci) (receivers h ci (sockets u)), numPassedUp := numPassedUp u + int n\<rparr>"
  using deliverCopies_spec [OF onPort_ok [OF assms(1)] assms(2)] unfolding receivers_onPort Let_def by auto

lemma udp_receive_spec:
  assumes "udp_inv u" "processUDPPacket (h, pl) ctrl u = Inr v"
  shows "udp_inv v \<and> (\<exists>outs. udp_out v = udp_out u @ outs \<and> udp_spec (FromIp (UDPPacket h pl) ctrl) (sockets u) (sockets v) outs)"
proof (cases "udp_bitError h")
  case True
  then have "v = u\<lparr>numDroppedBadChecksum := numDroppedBadChecksum u + 1\<rparr>" using assms(2) by (simp add: processUDPPacket_def)
  then show ?thesis
    using assms(1) udp_inv_cong [of v u] udp_view_cong(1) [of v u] spec_corrupt [OF True] by auto
next
  case False
  show ?thesis
  proof (cases "onPort (destinationPort h) u = []")
    case True
    have "processUndeliverablePacket (h, pl) ctrl u = Inr v"
      using assms(2) False True udp_invD(3) [OF assms(1)] by (simp add: processUDPPacket_def)
    then obtain ip ci where v: "v = u\<lparr>numDroppedWrongPort := numDroppedWrongPort u + 1, udp_icmp := ip\<rparr>" and ctrl: "ctrl = Ctrl4 ci"
      using undeliverable_view by blast
    have "receivers h ci (sockets u) = []" using True receivers_onPort [of h ci u] by (simp add: List.map_filter_simps)
    then show ?thesis
      using assms(1) udp_inv_cong [of v u] udp_view_cong(1) [of v u] v ctrl spec_receive [OF False, of ci "sockets u" pl] by auto
  next
    case nonempty: False
    then obtain ci n w where ctrl: "ctrl = Ctrl4 ci" and d: "deliverCopies (onPort (destinationPort h) u) (h, pl) ci 0 u = Inr (n, w)"
      and v: "(if n = 0 then processUndeliverablePacket (h, pl) ctrl w else Inr w) = Inr v"
      using assms(2) False udp_invD(3) [OF assms(1)]
      by (cases ctrl) (auto simp: processUDPPacket_def bindE_eq_Inr split: if_splits)
    note w = deliver_onPort [OF assms(1) d]
    have "udp_out v = udp_out w \<and> sockHeap v = sockHeap w \<and> nextSock v = nextSock w \<and> socketsByIdMap v = socketsByIdMap w \<and>
        socketsByPortMap v = socketsByPortMap w \<and> udp_lastEphemeralPort v = udp_lastEphemeralPort w"
      using v undeliverable_view(1) [of "(h, pl)" ctrl w v] by (cases "n = 0") auto
    then have "udp_inv v \<and> sockets v = sockets u \<and> udp_out v = udp_out u @ map (copyFor (the pl) h ci) (receivers h ci (sockets u))"
      using assms(1) udp_inv_cong [of v u] udp_view_cong(1) [of v u] w(3) by simp
    moreover have "receivers h ci (sockets u) = [] \<or> pl = Some (the pl)" using w(2) by (cases pl) auto
    ultimately show ?thesis using spec_receive [OF False] ctrl by auto
  qed
qed

lemma udp_error_spec:
  assumes "udp_inv u" "reportError la ra lp rp u = Inr v"
  shows "udp_inv v \<and> sockets v = sockets u \<and>
    udp_out v = udp_out u @ (let errs = filter (\<lambda>sd. sd_localPort sd = lp \<and> errorMatches la ra (c_short rp) sd) (sockets u)
      in if errs = [] then [] else [errorReport la ra (c_short rp) (last errs)])"
proof -
  let ?errs = "filter (\<lambda>sd. sd_localPort sd = lp \<and> errorMatches la ra (c_short rp) sd) (sockets u)"
  have e: "filter (errorMatches la ra (c_short rp)) (List.map_filter (sockHeap u) (onPort lp u)) = ?errs"
    unfolding sockets_onPort by (simp add: conj_commute)
  have "\<forall>p \<in> set (onPort lp u). sockHeap u p \<noteq> None" by (auto simp: onPort_def)
  note f = findSource_spec [OF this, of la ra "c_short rp" None, unfolded e Let_def]
  have "v = u\<lparr>udp_out := udp_out u @ (if ?errs = [] then [] else [errorReport la ra (c_short rp) (last ?errs)])\<rparr>"
  proof (cases "onPort lp u = []")
    case True
    then have "?errs = []" using e by (simp add: List.map_filter_simps)
    then show ?thesis using assms(2) True udp_invD(3) [OF assms(1)] by (simp add: reportError_def)
  next
    case False
    then show ?thesis
      using assms(2) udp_invD(3) [OF assms(1), of lp] f
      by (auto simp: reportError_def sendUpErrorNotification_def errorReport_def udp_emit_def split: if_splits)
  qed
  then show ?thesis using assms(1) udp_inv_cong [of v u] udp_view_cong(1) [of v u] by (simp add: Let_def)
qed

lemma udp_handleMessage_spec:
  assumes "udp_inv u" "udp_handleMessage i u = Inr v"
  shows "udp_inv v \<and> (\<exists>outs. udp_out v = udp_out u @ outs \<and> udp_spec i (sockets u) (sockets v) outs)"
proof (cases i)
  case (FromIp p ctrl)
  show ?thesis
  proof (cases p)
    case (ICMPMessage h enc)
    then obtain la ra lp rp where d: "icmpErrorDetails enc = Inr (la, ra, lp, rp)" "reportError la ra lp rp u = Inr v"
      using assms(2) FromIp by (auto simp: processICMPError_def bindE_eq_Inr)
    show ?thesis using udp_error_spec [OF assms(1) d(2)] spec_error [OF d(1) refl] FromIp ICMPMessage by (auto simp: Let_def)
  next
    case (UDPPacket h pl)
    then show ?thesis using udp_receive_spec [OF assms(1)] assms(2) FromIp by simp
  qed (use assms(2) FromIp in simp_all)
next
  case (FromIcmpv6 enc)
  then obtain la ra lp rp where d: "icmpv6ErrorDetails enc = Inr (la, ra, lp, rp)" "reportError la ra lp rp u = Inr v"
    using assms(2) by (auto simp: processICMPError_def bindE_eq_Inr)
  show ?thesis using udp_error_spec [OF assms(1) d(2)] spec_error6 [OF d(1) refl] FromIcmpv6 by (auto simp: Let_def)
next
  case (FromApp kind g m c)
  then obtain c' where c: "c = Some c'"
    using assms(2) by (cases c) (auto simp: castCtrl_def processCommandFromApp_def split: if_splits option.splits)
  show ?thesis
  proof (cases "kind = UDP_C_DATA")
    case True
    then show ?thesis
      using assms(2) FromApp c udp_send_spec [OF assms(1)] by (auto simp: castCtrl_def split: option.splits)
  next
    case False
    then have "processCommandFromApp kind g c u = Inr v" using assms(2) FromApp by simp
    then consider "kind = UDP_C_BIND" "udp_bind g c' u = Inr v"
      | "kind = UDP_C_CONNECT" "udp_connect (uc_sockId c') (uc_destAddr c') (uc_destPort c') u = Inr v"
      | "kind = UDP_C_UNBIND" "udp_unbind (uc_sockId c') u = Inr v"
      using c by (auto simp: processCommandFromApp_def castCtrl_def split: if_splits)
    then show ?thesis
      using udp_bind_spec [OF assms(1)] udp_connect_spec [OF assms(1)] udp_unbind_spec [OF assms(1)] FromApp c
      by cases fastforce+
  qed
qed


section \<open>Runs\<close>

text \<open>
  The states the module reaches: it handles messages, and between them other modules change the state of IP
  and ICMP.
\<close>

inductive udp_reach :: "UdpIn list \<Rightarrow> UDP \<Rightarrow> bool" where
  udp_init: "udp_reach [] (udp_initialize ip)"
| udp_handle: "udp_reach is u \<Longrightarrow> udp_handleMessage i u = Inr v \<Longrightarrow> udp_reach (is @ [i]) v"
| udp_env: "udp_reach is u \<Longrightarrow> udp_reach is (u\<lparr>udp_icmp := ip\<rparr>)"

inductive spec_run :: "UdpIn list \<Rightarrow> SockDesc list \<Rightarrow> UDPOut list \<Rightarrow> bool" where
  "spec_run [] [] []"
| "spec_run is ss outs \<Longrightarrow> udp_spec i ss ss' outs' \<Longrightarrow> spec_run (is @ [i]) ss' (outs @ outs')"

lemma udp_inv_init: "udp_inv (udp_initialize ip)"
  by (simp add: udp_inv_def udp_initialize_def onPort_def port_ok_def port_consts)

lemma udp_reach_inv: "udp_reach is u \<Longrightarrow> udp_inv u"
proof (induction rule: udp_reach.induct)
  case (udp_env "is" u ip)
  then show ?case using udp_inv_cong [of "u\<lparr>udp_icmp := ip\<rparr>" u] by simp
qed (use udp_inv_init udp_handleMessage_spec in blast)+

lemma udp_reach_refines: "udp_reach is u \<Longrightarrow> spec_run is (sockets u) (udp_out u)"
proof (induction rule: udp_reach.induct)
  case (udp_init ip)
  then show ?case by (simp add: udp_initialize_def sockets_def List.map_filter_simps spec_run.intros(1))
next
  case (udp_handle "is" u i v)
  obtain outs where "udp_out v = udp_out u @ outs" "udp_spec i (sockets u) (sockets v) outs"
    using udp_handleMessage_spec [OF udp_reach_inv [OF udp_handle.hyps(1)] udp_handle.hyps(2)] by blast
  then show ?case using spec_run.intros(2) [OF udp_handle.IH] by metis
next
  case (udp_env "is" u ip)
  then show ?case using udp_view_cong(1) [of "u\<lparr>udp_icmp := ip\<rparr>" u] by simp
qed

section \<open>Delivery in a reachable state\<close>

lemma udp_deliver:
  assumes "udp_reach is u" "\<not> udp_bitError h" "\<forall>sd \<in> set (sockets u). sd_localPort sd = destinationPort h \<longrightarrow> ipv4_only sd"
    and "ci_origDatagram ci = Some (dh, None)" "destAddress dh = ci_destAddr ci" "transportProtocol dh = IP_PROT_UDP"
      "\<not> ip_isUnspecified (srcAddress dh)"
  shows "udp_handleMessage (FromIp (UDPPacket h (Some payload)) (Ctrl4 ci)) u =
    Inr (if receivers h ci (sockets u) \<noteq> [] then u\<lparr>udp_out := udp_out u @ map (copyFor payload h ci) (receivers h ci (sockets u)), numPassedUp := numPassedUp u + int (length (receivers h ci (sockets u)))\<rparr>
      else u\<lparr>numDroppedWrongPort := numDroppedWrongPort u + 1,
        udp_icmp := (if ip_isMulticast (ci_destAddr ci) then (udp_icmp u)
          else icmp_sendToIP_dest (errorMessage (dh\<lparr>ip_byteLength := ip_byteLength dh + udp_byteLength h\<rparr>, Some (UDPPacket h (Some payload)))
                 ICMP_DESTINATION_UNREACHABLE ICMP_DU_PORT_UNREACHABLE (Suc (icmp_ctr (udp_icmp u))))
                 (srcAddress dh) ((udp_icmp u)\<lparr>icmp_ctr := Suc (icmp_ctr (udp_icmp u))\<rparr>))\<rparr>)"
proof -
  define rs where "rs = receivers h ci (sockets u)"
  define ip where "ip = udp_icmp u"
  have inv: "udp_inv u" by (rule udp_reach_inv [OF assms(1)])
  let ?pk = "(h, Some payload)"
  have und: "processUndeliverablePacket ?pk (Ctrl4 ci) u = Inr (u\<lparr>numDroppedWrongPort := numDroppedWrongPort u + 1,
        udp_icmp := (if ip_isMulticast (ci_destAddr ci) then ip
          else icmp_sendToIP_dest (errorMessage (dh\<lparr>ip_byteLength := ip_byteLength dh + udp_byteLength h\<rparr>, Some (UDPPacket h (Some payload)))
                 ICMP_DESTINATION_UNREACHABLE ICMP_DU_PORT_UNREACHABLE (Suc (icmp_ctr ip)))
                 (srcAddress dh) (ip\<lparr>icmp_ctr := Suc (icmp_ctr ip)\<rparr>))\<rparr>)"
    using assms(4-7) unfolding ip_def
    by (simp add: processUndeliverablePacket_def sendErrorMessage_transport_def removeOrigDatagram_def ip_encapsulate_def
        sendErrorMessage_def suppressError_def Let_def IP_PROT_UDP_def IP_PROT_ICMP_def)
  show ?thesis
  proof (cases "onPort (destinationPort h) u = []")
    case True
    then have "rs = []" using receivers_onPort [of h ci u] by (simp add: rs_def List.map_filter_simps)
    then show ?thesis
      unfolding rs_def [symmetric] ip_def [symmetric] using und assms(2) True udp_invD(3) [OF inv] by (simp add: processUDPPacket_def)
  next
    case False
    have "\<exists>sd. sockHeap u p = Some sd \<and> ipv4_only sd" if p: "p \<in> set (onPort (destinationPort h) u)" for p
    proof -
      obtain sd where "sockHeap u p = Some sd" "sd_localPort sd = destinationPort h" using p by (auto simp: onPort_def)
      moreover from this have "sd \<in> set (sockets u)" using in_sockets [OF inv] by blast
      ultimately show ?thesis using assms(3) by blast
    qed
    then obtain n w where d: "deliverCopies (onPort (destinationPort h) u) ?pk ci 0 u = Inr (n, w)"
      using deliverCopies_total [of "onPort (destinationPort h) u" u "Some payload"] by blast
    note w = deliver_onPort [OF inv d, folded rs_def]
    have "rs = [] \<Longrightarrow> w = u" using w(1,3) by simp
    then show ?thesis
      unfolding rs_def [symmetric] ip_def [symmetric] using d w(1,3) und assms(2) False udp_invD(3) [OF inv] by (simp add: processUDPPacket_def)
  qed
qed

section \<open>An example\<close>

definition demo_bind :: "int \<Rightarrow> UDPControlInfo" where
  "demo_bind port = newUDPControlInfo\<lparr>uc_sockId := 7, uc_srcPort := port\<rparr>"

definition demo_udp :: "int \<Rightarrow> UDP" where
  "demo_udp port = addSock (boundSock 2 (demo_bind port) (c_short port)) (udp_initialize demo_ip)"

lemma demo_udp_bound:
  assumes "c_short port \<noteq> 0"
  shows "udp_handleMessage (FromApp UDP_C_BIND 2 None (Some (demo_bind port))) (udp_initialize demo_ip) = Inr (demo_udp port)"
  using assms
  by (simp add: processCommandFromApp_def castCtrl_def udp_bind_def fillLocalPort_def demo_bind_def newUDPControlInfo_def
      newSockDesc_def udp_initialize_def demo_udp_def addSock_def boundSock_def Let_def portList_def udp_consts)

lemma demo_udp_reach: "c_short port \<noteq> 0 \<Longrightarrow> udp_reach [FromApp UDP_C_BIND 2 None (Some (demo_bind port))] (demo_udp port)"
  using udp_handle [OF udp_init demo_udp_bound] by simp

lemma demo_udp_sockets: "sockets (demo_udp port) = [boundSock 2 (demo_bind port) (c_short port)]"
proof -
  have "sockets (udp_initialize demo_ip) = []" by (simp add: udp_initialize_def sockets_def List.map_filter_simps)
  then show ?thesis by (simp add: demo_udp_def sockets_addSock)
qed

lemma demo_sock:
  "sd_localPort (boundSock g (demo_bind port) p) = p" "accepts h ci (boundSock g (demo_bind port) p)"
  "ipv4_only (boundSock g (demo_bind port) p)" "sd_remotePort (boundSock g (demo_bind port) p) = 0"
  by (simp_all add: boundSock_def demo_bind_def newSockDesc_def newUDPControlInfo_def unspecifiedAddr_def Let_def accepts_def
      ipv4_only_def c_short_def)

definition demo_udph :: "int \<Rightarrow> UDPHeader" where
  "demo_udph port = \<lparr> udp_name = ''data'', sourcePort = 1024, destinationPort = port, udp_byteLength = 108, udp_bitError = False \<rparr>"

section \<open>Properties\<close>

text \<open>
  Property C19: the UDP module implements a list of sockets.  Whatever messages it handles, and whatever
  happens to IP and ICMP in between, heap and maps agree (\<open>udp_inv\<close>: every identifier leads to the one socket
  that has it, every port to its sockets in the order of binding, and no empty list is left behind),
  and the run is a run of the abstract module, whose state is the list of open sockets: a socket
  is added by BIND with the requested port or a free ephemeral one, changed by CONNECT, removed by UNBIND;
  a datagram is copied to the sockets that accept it, in the order of binding; an ICMP error is
  reported to one socket; nothing else is output.
\<close>

theorem udp_refines:
  assumes "udp_reach is u"
  shows "udp_inv u \<and> spec_run is (sockets u) (udp_out u)"
  using udp_reach_inv [OF assms] udp_reach_refines [OF assms] by blast

theorem udp_refines_witness:
  "udp_inv (demo_udp 80) \<and> spec_run [FromApp UDP_C_BIND 2 None (Some (demo_bind 80))] (sockets (demo_udp 80)) (udp_out (demo_udp 80)) \<and>
    sockets (demo_udp 80) \<noteq> []"
  using udp_refines [OF demo_udp_reach [of 80]] demo_udp_sockets by simp

text \<open>
  A datagram reaches every socket it is for, or its sender is told.  In every reachable state a datagram
  without bit error is handled without an error when the sockets of its port are IPv4 sockets.  One copy of
  the payload goes to each socket that accepts it, in the order of binding, with addresses,
  ports, interface and time to live of the datagram; if there is none, the module counts it and, unless
  it was a multicast, ICMP sends exactly one message, port unreachable, about it to its source.
\<close>

theorem udp_delivery:
  assumes "udp_reach is u" "\<not> udp_bitError h" "\<forall>sd \<in> set (sockets u). sd_localPort sd = destinationPort h \<longrightarrow> ipv4_only sd"
    and "ci_origDatagram ci = Some (dh, None)" "destAddress dh = ci_destAddr ci" "transportProtocol dh = IP_PROT_UDP"
      "\<not> ip_isUnspecified (srcAddress dh)"
  shows "udp_handleMessage (FromIp (UDPPacket h (Some payload)) (Ctrl4 ci)) u =
    Inr (let rs = receivers h ci (sockets u); ip = udp_icmp u
      in if rs \<noteq> [] then u\<lparr>udp_out := udp_out u @ map (copyFor payload h ci) rs, numPassedUp := numPassedUp u + int (length rs)\<rparr>
      else u\<lparr>numDroppedWrongPort := numDroppedWrongPort u + 1,
        udp_icmp := (if ip_isMulticast (ci_destAddr ci) then ip
          else icmp_sendToIP_dest (errorMessage (dh\<lparr>ip_byteLength := ip_byteLength dh + udp_byteLength h\<rparr>, Some (UDPPacket h (Some payload)))
                 ICMP_DESTINATION_UNREACHABLE ICMP_DU_PORT_UNREACHABLE (Suc (icmp_ctr ip)))
                 (srcAddress dh) (ip\<lparr>icmp_ctr := Suc (icmp_ctr ip)\<rparr>))\<rparr>)"
  unfolding Let_def using assms by (rule udp_deliver)

theorem udp_delivery_witness:
  "\<exists>v. udp_handleMessage (FromIp (UDPPacket (demo_udph 80) (Some \<lparr>pkName = ''x'', byteLength = 100\<rparr>))
      (Ctrl4 (newIPControlInfo\<lparr>ci_destAddr := 0x0A000001, ci_origDatagram := Some (demo_header\<lparr>destAddress := 0x0A000001\<rparr>, None)\<rparr>))) (demo_udp 80) = Inr v \<and>
    length (udp_out v) = 1"
proof -
  let ?ci = "newIPControlInfo\<lparr>ci_destAddr := 0x0A000001, ci_origDatagram := Some (demo_header\<lparr>destAddress := 0x0A000001\<rparr>, None)\<rparr>"
  have "receivers (demo_udph 80) ?ci (sockets (demo_udp 80)) = [boundSock 2 (demo_bind 80) 80]"
    by (simp add: receivers_def demo_udp_sockets demo_sock demo_udph_def)
  moreover have "udp_out (demo_udp 80) = []" by (simp add: demo_udp_def addSock_def udp_initialize_def)
  ultimately show ?thesis
    using udp_delivery [OF demo_udp_reach [of 80], of "demo_udph 80" ?ci "demo_header\<lparr>destAddress := 0x0A000001\<rparr>" "\<lparr>pkName = ''x'', byteLength = 100\<rparr>"]
    by (simp add: demo_udp_sockets demo_sock demo_udph_def demo_header_def newIPHeader_def ip_isUnspecified_def)
qed

text \<open>
  Ports above 32767 are unreachable.  The descriptor of a socket keeps its port in a \<open>short\<close>, the key of
  the map is a negative number then, and the port of a datagram is an \<open>int\<close>: in every reachable state, whatever
  sockets were bound, a datagram for such a port has no receiver and is treated as undeliverable.
\<close>

theorem udp_high_port_unreachable:
  assumes "udp_reach is u" "32768 \<le> destinationPort h" "\<not> udp_bitError h"
  shows "receivers h ci (sockets u) = [] \<and>
    udp_handleMessage (FromIp (UDPPacket h pl) ctrl) u = processUndeliverablePacket (h, pl) ctrl u"
proof -
  have inv: "udp_inv u" by (rule udp_reach_inv [OF assms(1)])
  have ne: "sd_localPort sd \<noteq> destinationPort h" if "sd \<in> set (sockets u)" for sd
    using that in_sockets [OF inv] udp_invD(5) [OF inv] assms(2) by fastforce
  have "receivers h ci (sockets u) = []" using ne by (simp add: receivers_def filter_empty_conv)
  moreover have "destinationPort h \<notin> sd_localPort ` set (sockets u)" using ne by (metis imageE)
  ultimately show ?thesis using port_free [OF inv, of "destinationPort h"] assms(3) by (simp add: processUDPPacket_def)
qed

theorem udp_high_port_unreachable_witness:
  "sockets (demo_udp 40000) \<noteq> [] \<and>
    udp_handleMessage (FromIp (UDPPacket (demo_udph 40000) None) (Ctrl4 (newIPControlInfo\<lparr>ci_destAddr := 0xE0000001\<rparr>))) (demo_udp 40000) =
    processUndeliverablePacket (demo_udph 40000, None) (Ctrl4 (newIPControlInfo\<lparr>ci_destAddr := 0xE0000001\<rparr>)) (demo_udp 40000)"
proof -
  have "c_short 40000 = - 25536" by code_simp
  then show ?thesis
    using udp_high_port_unreachable [OF demo_udp_reach [of 40000], of "demo_udph 40000"] demo_udp_sockets by (simp add: demo_udph_def)
qed

text \<open>
  A connected socket is not told about errors.  The comparison of the remote port is the wrong way round in
  the search for the socket an ICMP error belongs to: in every reachable state, when every socket on the
  local port of the datagram in error is connected to its remote port, the error is ignored.
\<close>

theorem udp_error_not_reported:
  assumes "udp_reach is u" "icmpErrorDetails enc = Inr (la, ra, lp, rp)"
    and "\<forall>sd \<in> set (sockets u). sd_localPort sd = lp \<longrightarrow> sd_remotePort sd = c_short rp \<and> sd_remotePort sd \<noteq> 0"
  shows "udp_handleMessage (FromIp (ICMPMessage h enc) ctrl) u = Inr u"
proof -
  have inv: "udp_inv u" by (rule udp_reach_inv [OF assms(1)])
  have "\<not> errorMatches la ra (c_short rp) sd" if "sd \<in> set (sockets u)" "sd_localPort sd = lp" for sd
  proof -
    obtain p where "sockHeap u p = Some sd" using in_sockets [OF inv] \<open>sd \<in> set (sockets u)\<close> by blast
    then have "sd_onlyLocalPortIsSet sd \<Longrightarrow> sd_remotePort sd = 0" using udp_invD(6) [OF inv] by (simp add: onlyLocalPort_def)
    then show ?thesis using assms(3) \<open>sd \<in> set (sockets u)\<close> \<open>sd_localPort sd = lp\<close> by (auto simp: errorMatches_def matchesSocket_error_def)
  qed
  then have e: "filter (errorMatches la ra (c_short rp)) (List.map_filter (sockHeap u) (onPort lp u)) = []"
    unfolding sockets_onPort by (auto simp: filter_empty_conv)
  have "\<forall>p \<in> set (onPort lp u). sockHeap u p \<noteq> None" by (auto simp: onPort_def)
  from findSource_spec [OF this, of la ra "c_short rp" None, unfolded e]
  show ?thesis using assms(2) udp_invD(3) [OF inv, of lp] by (simp add: processICMPError_def reportError_def)
qed

definition demo_connected :: UDP where
  "demo_connected = (demo_udp 80)\<lparr>sockHeap := (sockHeap (demo_udp 80))(0 \<mapsto> connectSock (IPv4 0x0B000001) 53 (boundSock 2 (demo_bind 80) 80))\<rparr>"

theorem udp_error_not_reported_witness:
  "udp_handleMessage (FromIp (ICMPMessage \<lparr> icmp_name = ''error'', icmp_type = 3, icmp_code = 3, icmp_byteLength = 36 \<rparr>
      (Some (IPDatagram (demo_header\<lparr>srcAddress := 0x0A000001, destAddress := 0x0B000001\<rparr>)
        (Some (UDPPacket ((demo_udph 53)\<lparr>sourcePort := 80, udp_byteLength := 80\<rparr>) None))))) NoCtrl) demo_connected = Inr demo_connected \<and>
    sockets demo_connected \<noteq> []"
proof -
  let ?c = "newUDPControlInfo\<lparr>uc_sockId := 7, uc_destAddr := IPv4 0x0B000001, uc_destPort := 53\<rparr>"
  let ?enc = "Some (IPDatagram (demo_header\<lparr>srcAddress := 0x0A000001, destAddress := 0x0B000001\<rparr>)
        (Some (UDPPacket ((demo_udph 53)\<lparr>sourcePort := 80, udp_byteLength := 80\<rparr>) None)))"
  have "sockHeap (demo_udp 80) 0 = Some (boundSock 2 (demo_bind 80) 80)" "socketsByIdMap (demo_udp 80) 7 = Some 0"
    by (simp_all add: demo_udp_def addSock_def udp_initialize_def boundSock_def newSockDesc_def demo_bind_def Let_def)
  note d = this
  have "udp_handleMessage (FromApp UDP_C_CONNECT 2 None (Some ?c)) (demo_udp 80) = Inr demo_connected"
    using d by (simp add: processCommandFromApp_def castCtrl_def udp_connect_def derefSock_def demo_connected_def connectSock_def udp_consts)
  then have r: "udp_reach [FromApp UDP_C_BIND 2 None (Some (demo_bind 80)), FromApp UDP_C_CONNECT 2 None (Some ?c)] demo_connected"
    using udp_handle [OF demo_udp_reach [of 80]] by simp
  have s: "sockets demo_connected = [connectSock (IPv4 0x0B000001) 53 (boundSock 2 (demo_bind 80) 80)]"
    using connect_view(1) [OF udp_reach_inv [OF demo_udp_reach [of 80]] d(1) demo_connected_def] demo_udp_sockets by simp
  have e: "icmpErrorDetails ?enc = Inr (IPv4 0x0A000001, IPv4 0x0B000001, 80, 53)"
    by (simp add: icmpErrorDetails_def ip_decapsulate_def demo_header_def demo_udph_def)
  show ?thesis using udp_error_not_reported [OF r e] s by (simp add: connectSock_def)
qed

end
