(* ===== verification/Stack_Path.thy ===== *)
theory Stack_Path
  imports UDP_Props
begin

text \<open>
  The modules at work together: what the application of one host hands to UDP travels through IP of its host,
  through the IP modules of any number of routers, and through IP and UDP of the destination.  The
  simulation kernel carries messages from gate to gate; here the output of one module is given to the
  next one.
\<close>

unbundle bit_operations_syntax

lemma link_local_is_multicast: "ip_isLinkLocalMulticast a \<Longrightarrow> ip_isMulticast a"
proof -
  assume "ip_isLinkLocalMulticast a"
  moreover have "a AND 0xF0000000 = (a AND 0xFFFFFF00) AND 0xF0000000" by (simp add: and.assoc)
  ultimately show ?thesis by (simp add: ip_isLinkLocalMulticast_def ip_isMulticast_def)
qed

section \<open>Routing at one node\<close>

text \<open>
  \<open>good_route\<close> collects what a node needs to send datagrams for \<open>dest\<close> on: its tables are consistent, \<open>dest\<close> is
  neither its own nor a broadcast address, and the best route leads over the broadcast interface \<open>e\<close>
  (at \<open>ie\<close>) and the gateway \<open>gw\<close>.
\<close>

definition good_route :: "simtime \<Rightarrow> IPModule \<Rightarrow> IPAddress \<Rightarrow> nat \<Rightarrow> InterfaceEntry \<Rightarrow> IPAddress \<Rightarrow> bool" where
  "good_route tm s dest ie e gw \<longleftrightarrow>
     rt_ok tm (nift (im_node s)) (nrt (im_node s)) \<and> \<not> manetRouting s \<and>
     dest \<notin> addrs (nift (im_node s)) \<and> dest \<notin> broadcasts (nift (im_node s)) (nrt (im_node s)) \<and>
     dest \<noteq> ALLONES_ADDRESS \<and> \<not> ip_isMulticast dest \<and>
     derefIf ie (nift (im_node s)) = Inr e \<and> broadcast e \<and>
     (case route_for tm (nift (im_node s)) (nrt (im_node s)) dest of None \<Rightarrow> False
      | Some p \<Rightarrow> (case routeHeap (nrt (im_node s)) p of None \<Rightarrow> False
                  | Some r \<Rightarrow> r_interface r = Some ie \<and> r_gateway r = gw))"

lemma good_routeD:
  assumes "good_route tm s dest ie e gw"
  obtains p r where "rt_ok tm (nift (im_node s)) (nrt (im_node s))" "\<not> manetRouting s" "dest \<notin> addrs (nift (im_node s))"
    "dest \<notin> broadcasts (nift (im_node s)) (nrt (im_node s))" "dest \<noteq> ALLONES_ADDRESS" "\<not> ip_isMulticast dest"
    "derefIf ie (nift (im_node s)) = Inr e" "broadcast e" "route_for tm (nift (im_node s)) (nrt (im_node s)) dest = Some p"
    "routeHeap (nrt (im_node s)) p = Some r" "r_interface r = Some ie" "r_gateway r = gw"
  using assms unfolding good_route_def by (auto split: option.splits)

lemma good_route_cong: "im_node s' = im_node s \<Longrightarrow> manetRouting s' = manetRouting s \<Longrightarrow> good_route tm s' = good_route tm s"
proof -
  assume e: "im_node s' = im_node s" "manetRouting s' = manetRouting s"
  show "good_route tm s' = good_route tm s" unfolding good_route_def [abs_def] e by (rule refl)
qed

text \<open>The source address a datagram leaves with.\<close>

definition sourceFor :: "IPHeader \<Rightarrow> nat \<Rightarrow> InterfaceTable \<Rightarrow> IPAddress option" where
  "sourceFor h ie t =
     (if ip_isUnspecified (srcAddress h) then (case ipv4Data ie t of Inl _ \<Rightarrow> None | Inr v \<Rightarrow> Some (inetAddr v))
      else Some (srcAddress h))"

lemma routePacket_best:
  assumes "good_route tm s (destAddress h) ie e gw" "fromHL \<or> IPForward (nrt (im_node s))"
    and "sourceFor h ie (nift (im_node s)) = Some a" "ip_byteLength h \<le> mtu e" "0 < timeToLive h" "\<not> ctrlAttached h"
      "transportProtocol h \<noteq> IP_PROT_MANET"
  shows "\<exists>rt'. routePacket tm (h, enc) None fromHL nh s =
    Inr (emit (ToQueue (h\<lparr>srcAddress := a\<rparr>, enc) (interfaceId e) gw) ((setRT rt' s)\<lparr>numForwarded := numForwarded s + 1\<rparr>))"
proof -
  let ?t = "nift (im_node s)" and ?rt = "nrt (im_node s)" and ?dest = "destAddress h"
  obtain p r where g: "rt_ok tm ?t ?rt" "\<not> manetRouting s" "?dest \<notin> addrs ?t" "?dest \<notin> broadcasts ?t ?rt" "?dest \<noteq> ALLONES_ADDRESS"
    "derefIf ie ?t = Inr e" "broadcast e" "route_for tm ?t ?rt ?dest = Some p" "routeHeap ?rt p = Some r"
    "r_interface r = Some ie" "r_gateway r = gw"
    using good_routeD [OF assms(1)] by metis
  obtain rt1 where q1: "queryRT (\<lambda>t. isLocalAddress t ?dest) s = Inr (False, setRT rt1 s)" "rt_ok tm ?t rt1" "same_routes ?rt rt1"
    using query_local [OF g(1), of ?dest] g(3) by auto
  have b1: "broadcasts ?t rt1 = broadcasts ?t ?rt" using same_routes_sel(4) [OF q1(3)] by (simp add: broadcasts_def)
  obtain rt2 where q2: "queryRT (\<lambda>t. isLocalBroadcastAddress t ?dest) (setRT rt1 s) = Inr (False, setRT rt2 s)" "rt_ok tm ?t rt2"
    "routeHeap rt2 = routeHeap rt1" "routes rt2 = routes rt1" "IPForward rt2 = IPForward rt1"
    "timetolive_routing_entry rt2 = timetolive_routing_entry rt1"
    using query_broadcast [of tm "setRT rt1 s" ?dest] q1(2) b1 g(4) by auto
  have t1: "timetolive_routing_entry rt1 = timetolive_routing_entry ?rt" using q1(3) by (auto simp: same_routes_def)
  have "route_for tm ?t rt2 ?dest = Some p"
    using spec_cong(2) [of rt2 ?rt tm ?t ?dest] q2(3,4,6) same_routes_sel [OF q1(3)] t1 g(8) by simp
  then obtain rt3 where q3: "queryRT (\<lambda>t. findBestMatchingRoute tm t ?dest) (setRT rt2 s) = Inr (Some p, setRT rt3 s)"
    "same_routes rt2 rt3"
    using query_route [of tm "setRT rt2 s" ?dest p] q2(2) by auto
  have r: "routeHeap rt3 p = Some r" using g(9) q2(3) same_routes_sel(1) [OF q3(2)] same_routes_sel(1) [OF q1(3)] by simp
  have m: "r_source r = MANET \<Longrightarrow> r_host r = ?dest"
    using g(8,9) by (auto simp: route_for_def is_manet_def for_host_def split: option.splits if_splits)
  have c: "chooseOutput tm (h, enc) None fromHL nh (setRT rt2 s) = Inr (Some (Some ie, gw), setRT rt3 s)"
    using q3(1) r m g(10,11) by (auto simp: chooseOutput_def derefRoute_def)
  have "forward (h, enc) (Some ie) gw (setRT rt3 s) =
      fragmentAndSend (h\<lparr>srcAddress := a\<rparr>, enc) ie gw ((setRT rt3 s)\<lparr>numForwarded := numForwarded s + 1\<rparr>)"
  proof (cases "ip_isUnspecified (srcAddress h)")
    case True
    then obtain v where "ipv4Data ie ?t = Inr v" "inetAddr v = a"
      using assms(3) by (auto simp: sourceFor_def split: sum.splits)
    then show ?thesis using True assms(7) by (simp add: forward_def setSrcIfUnspecified_def)
  next
    case False
    then have "h\<lparr>srcAddress := a\<rparr> = h" using assms(3) by (simp add: sourceFor_def)
    then show ?thesis using False assms(7) by (simp add: forward_def)
  qed
  also have "\<dots> = Inr (emit (ToQueue (h\<lparr>srcAddress := a\<rparr>, enc) (interfaceId e) gw) ((setRT rt3 s)\<lparr>numForwarded := numForwarded s + 1\<rparr>))"
    using g(6,7) assms(4-6) by (simp add: fragmentAndSend_def sendDatagramToOutput_def setRT_def)
  finally have "routePacket tm (h, enc) None fromHL nh s =
      Inr (emit (ToQueue (h\<lparr>srcAddress := a\<rparr>, enc) (interfaceId e) gw) ((setRT rt3 s)\<lparr>numForwarded := numForwarded s + 1\<rparr>))"
    using q1(1) q2(1,5) c g(2,5) assms(2) same_routes_sel(2) [OF q1(3)]
    by (auto simp: routePacket_def controlMessageToManetRouting_def)
  then show ?thesis by blast
qed

section \<open>The first host\<close>

definition firstHeader :: "Packet \<Rightarrow> IPControlInfo \<Rightarrow> IPModule \<Rightarrow> IPHeader" where
  "firstHeader p ci s = (newIPHeader (packetName p))\<lparr>ip_byteLength := IP_HEADER_BYTES + packetLength p, srcAddress := ci_srcAddr ci,
     destAddress := ci_destAddr ci, diffServCodePoint := ci_diffServCodePoint ci, identification := c_int (curFragmentId s),
     moreFragments := False, dontFragment := ci_dontFragment ci, fragmentOffset := 0, timeToLive := initialTTL ci s,
     transportProtocol := ci_protocol ci\<rparr>"

lemma host_sends:
  assumes "good_route tm s (ci_destAddr ci) ie e gw" "ip_isUnspecified (ci_srcAddr ci)" "ipv4Data ie (nift (im_node s)) = Inr v"
    and "IP_HEADER_BYTES + packetLength p \<le> mtu e" "0 < initialTTL ci s" "ci_protocol ci \<noteq> IP_PROT_MANET"
      "ci_interfaceId ci = - 1" "interfaces (nift (im_node s)) \<noteq> []" "\<not> (\<exists>h enc. p = IPDatagram h enc)"
  shows "\<exists>s'. handleMessageFromHL tm p (Some ci) s = Inr s' \<and>
    im_out s' = im_out s @ [ToQueue ((firstHeader p ci s)\<lparr>srcAddress := inetAddr v\<rparr>, Some p) (interfaceId e) gw]"
proof -
  let ?h = "firstHeader p ci s" and ?s = "s\<lparr>curFragmentId := curFragmentId s + 1\<rparr>"
  have z: "ci_srcAddr ci = 0" using assms(2) by (simp add: ip_isUnspecified_def)
  have e: "encapsulate p ci s = Inr ((?h, Some p), None, ?s)"
    using assms(2,7) z by (simp add: encapsulate_def ip_encapsulate_def firstHeader_def newIPHeader_def getInterfaceById_def INTERFACEIDS_START_def)
  have h: "destAddress ?h = ci_destAddr ci" "srcAddress ?h = 0" "ip_byteLength ?h = IP_HEADER_BYTES + packetLength p"
    "timeToLive ?h = initialTTL ci s" "transportProtocol ?h = ci_protocol ci" "\<not> ctrlAttached ?h"
    by (simp_all add: firstHeader_def z newIPHeader_def)
  have m: "\<not> ip_isMulticast (ci_destAddr ci)" using assms(1) by (simp add: good_route_def)
  have "good_route tm ?s (destAddress ?h) ie e gw" using assms(1) h(1) good_route_cong [of ?s s tm] by simp
  moreover have "sourceFor ?h ie (nift (im_node ?s)) = Some (inetAddr v)" using assms(3) h(2) by (simp add: sourceFor_def ip_isUnspecified_def)
  ultimately obtain rt' where r: "routePacket tm (?h, Some p) None True (if ip_isUnspecified (ci_nextHopAddr ci) then None else Some (ci_nextHopAddr ci)) ?s =
      Inr (emit (ToQueue (?h\<lparr>srcAddress := inetAddr v\<rparr>, Some p) (interfaceId e) gw) ((setRT rt' ?s)\<lparr>numForwarded := numForwarded ?s + 1\<rparr>))"
    using routePacket_best [of tm ?s ?h ie e gw True "inetAddr v" "Some p"
        "if ip_isUnspecified (ci_nextHopAddr ci) then None else Some (ci_nextHopAddr ci)"] assms(4-6) h by auto
  have "handleMessageFromHL tm p (Some ci) s =
      routePacket tm (?h, Some p) None True (if ip_isUnspecified (ci_nextHopAddr ci) then None else Some (ci_nextHopAddr ci)) ?s"
    using assms(8,9) e m h(1) by (cases p) (simp_all add: handleMessageFromHL_def)
  then show ?thesis using r by (simp add: emit_def)
qed

section \<open>Routers\<close>

text \<open>A datagram arrives on the network layer gate \<open>g\<close> of a node.\<close>

definition arriveAt :: "int \<Rightarrow> Datagram \<Rightarrow> Datagram" where
  "arriveAt g d = ((fst d)\<lparr>arrivalGate := Some g\<rparr>, snd d)"

text \<open>
  \<open>relay\<close> gives the datagram to the routers one after the other, each at some time and gate and with the control
  information of its link layer: the only thing a router sends must be a datagram for the network.
\<close>

fun relay :: "(simtime \<times> rat \<times> bool option \<times> int \<times> IPModule) list \<Rightarrow> Datagram \<Rightarrow> Datagram option" where
  "relay [] d = Some d"
| "relay ((tm, rnd, ctrl, g, s) # rs) d =
     (case handlePacketFromNetwork tm rnd ctrl (arriveAt g d) s of
        Inl _ \<Rightarrow> None
      | Inr s' \<Rightarrow> (case drop (length (im_out s)) (im_out s') of [ToQueue d' _ _] \<Rightarrow> relay rs d' | _ \<Rightarrow> None))"

definition forwards :: "int \<Rightarrow> IPAddress \<Rightarrow> simtime \<times> rat \<times> bool option \<times> int \<times> IPModule \<Rightarrow> bool" where
  "forwards len dest r \<longleftrightarrow> (case r of (tm, _, ctrl, _, s) \<Rightarrow>
     ctrl \<noteq> Some True \<and> IPForward (nrt (im_node s)) \<and> (\<exists>ie e gw. good_route tm s dest ie e gw \<and> len \<le> mtu e))"

lemma relay_delivers:
  assumes "list_all (forwards (ip_byteLength h) (destAddress h)) rs" "int (length rs) < timeToLive h" "timeToLive h < 32768"
    and "\<not> bitError h" "\<not> ip_isUnspecified (srcAddress h)" "transportProtocol h \<notin> {IP_PROT_DSR, IP_PROT_MANET}"
  shows "\<exists>c g. relay rs (h, enc) = Some (h\<lparr>timeToLive := timeToLive h - int (length rs), ctrlAttached := c, arrivalGate := g\<rparr>, enc)"
  using assms
proof (induction rs arbitrary: h)
  case Nil
  have "relay [] (h, enc) = Some (h\<lparr>timeToLive := timeToLive h - int (length ([] :: (simtime \<times> rat \<times> bool option \<times> int \<times> IPModule) list)),
      ctrlAttached := ctrlAttached h, arrivalGate := arrivalGate h\<rparr>, enc)" by simp
  then show ?case by blast
next
  case (Cons r rs)
  obtain tm rnd ctrl g s where r: "r = (tm, rnd, ctrl, g, s)" by (cases r) auto
  obtain ie e gw where f: "IPForward (nrt (im_node s))" "good_route tm s (destAddress h) ie e gw" "ip_byteLength h \<le> mtu e" and ctrl: "ctrl \<noteq> Some True"
    using Cons.prems(1) r by (auto simp: forwards_def)
  let ?h = "h\<lparr>arrivalGate := Some g, ctrlAttached := False, timeToLive := timeToLive h - 1\<rparr>"
  have m: "\<not> ip_isMulticast (destAddress h)" using f(2) by (simp add: good_route_def)
  have ttl: "1 < timeToLive h" "c_short (timeToLive h - 1) = timeToLive h - 1" using Cons.prems(2,3) by simp_all
  have n: "handlePacketFromNetwork tm rnd ctrl (arriveAt g (h, enc)) s = routePacket tm (?h, enc) None False None s"
    using Cons.prems(4,6) m ttl(2) ctrl by (simp add: handlePacketFromNetwork_def arriveAt_def)
  have src: "sourceFor ?h ie (nift (im_node s)) = Some (srcAddress h)" using Cons.prems(5) by (simp add: sourceFor_def)
  obtain rt' where "routePacket tm (?h, enc) None False None s =
      Inr (emit (ToQueue (?h\<lparr>srcAddress := srcAddress h\<rparr>, enc) (interfaceId e) gw) ((setRT rt' s)\<lparr>numForwarded := numForwarded s + 1\<rparr>))"
    using routePacket_best [OF _ _ src, of tm e gw False enc None] f Cons.prems(6) ttl
    by auto
  then have step: "relay (r # rs) (h, enc) = relay rs (?h, enc)" using n r by (simp add: emit_def)
  have "list_all (forwards (ip_byteLength ?h) (destAddress ?h)) rs" "int (length rs) < timeToLive ?h" "timeToLive ?h < 32768"
    "\<not> bitError ?h" "\<not> ip_isUnspecified (srcAddress ?h)" "transportProtocol ?h \<notin> {IP_PROT_DSR, IP_PROT_MANET}"
    using Cons.prems by simp_all
  from Cons.IH [OF this] obtain c g' where ih: "relay rs (?h, enc) =
      Some (?h\<lparr>timeToLive := timeToLive ?h - int (length rs), ctrlAttached := c, arrivalGate := g'\<rparr>, enc)" by blast
  have "?h\<lparr>timeToLive := timeToLive ?h - int (length rs), ctrlAttached := c, arrivalGate := g'\<rparr> =
      h\<lparr>timeToLive := timeToLive h - int (length (r # rs)), ctrlAttached := c, arrivalGate := g'\<rparr>"
    by simp
  then have "relay (r # rs) (h, enc) = Some (h\<lparr>timeToLive := timeToLive h - int (length (r # rs)), ctrlAttached := c, arrivalGate := g'\<rparr>, enc)"
    using step ih by simp
  then show ?case by blast
qed


section \<open>The last host\<close>

text \<open>The control information with which IP of the destination hands over the packet.\<close>

definition arrivedControl :: "IPHeader \<Rightarrow> Packet \<Rightarrow> int \<Rightarrow> IPControlInfo" where
  "arrivedControl h pk ifid = newIPControlInfo\<lparr>ci_protocol := c_short (transportProtocol h), ci_srcAddr := srcAddress h,
     ci_destAddr := destAddress h, ci_diffServCodePoint := diffServCodePoint h, ci_interfaceId := ifid,
     ci_timeToLive := timeToLive h, ci_origDatagram := Some (h\<lparr>ip_byteLength := ip_byteLength h - packetLength pk\<rparr>, None)\<rparr>"

lemma host_delivers:
  assumes "rt_ok tm (nift (im_node s)) (nrt (im_node s))" "destAddress h \<in> addrs (nift (im_node s))" "\<not> manetRouting s"
    and "\<not> ip_isMulticast (destAddress h)" "\<not> bitError h" "\<not> ip_isUnspecified (srcAddress h)"
      "transportProtocol h \<notin> {IP_PROT_DSR, IP_PROT_MANET}" "fragmentOffset h = 0" "\<not> moreFragments h" "packetLength pk \<le> ip_byteLength h"
    and "getInterfaceByNetworkLayerGateIndex g (nift (im_node s)) = Some ie" "derefIf ie (nift (im_node s)) = Inr e" and ctrl: "ctrl \<noteq> Some True"
  defines "h' \<equiv> h\<lparr>arrivalGate := Some g, ctrlAttached := False, timeToLive := c_short (timeToLive h - 1)\<rparr>"
  obtains rt' where "handlePacketFromNetwork tm rnd ctrl (arriveAt g (h, Some pk)) s =
      deliver (h', Some pk) ((setRT rt' s)\<lparr>numLocalDeliver := numLocalDeliver s + 1\<rparr>)"
    "decapsulateIP (h', Some pk) ((setRT rt' s)\<lparr>numLocalDeliver := numLocalDeliver s + 1\<rparr>) = Inr (pk, arrivedControl h' pk (interfaceId e))"
proof -
  have n: "handlePacketFromNetwork tm rnd ctrl (arriveAt g (h, Some pk)) s = routePacket tm (h', Some pk) None False None s"
    using assms(4,5,7) ctrl by (simp add: handlePacketFromNetwork_def arriveAt_def h'_def)
  obtain rt' where q: "queryRT (\<lambda>t. isLocalAddress t (destAddress h)) s = Inr (True, setRT rt' s)"
    using query_local [OF assms(1), of "destAddress h"] assms(2) by auto
  let ?s = "(setRT rt' s)\<lparr>numLocalDeliver := numLocalDeliver s + 1\<rparr>"
  have d: "decapsulateIP (h', Some pk) ?s = Inr (pk, arrivedControl h' pk (interfaceId e))"
    using assms(10-12) by (simp add: decapsulateIP_def getSourceInterfaceFrom_def h'_def ip_decapsulate_def setOrigDatagram_def
        arrivedControl_def newIPControlInfo_def)
  have "routePacket tm (h', Some pk) None False None s = deliver (h', Some pk) ?s"
    using q assms(3,6-9) by (simp add: routePacket_def controlMessageToManetRouting_def h'_def setSrcIfUnspecified_def
        reassembleAndDeliver_def setRT_def)
  then show thesis using n d that by simp
qed

lemma host_receives:
  assumes "rt_ok tm (nift (im_node s)) (nrt (im_node s))" "destAddress h \<in> addrs (nift (im_node s))" "\<not> manetRouting s"
    and "\<not> ip_isMulticast (destAddress h)" "\<not> bitError h" "\<not> ip_isUnspecified (srcAddress h)" "transportProtocol h = IP_PROT_UDP"
      "fragmentOffset h = 0" "\<not> moreFragments h" "packetLength pk \<le> ip_byteLength h"
    and "getInterfaceByNetworkLayerGateIndex g (nift (im_node s)) = Some ie" "derefIf ie (nift (im_node s)) = Inr e"
    and "getOutputGateForProtocol IP_PROT_UDP (mapping s) = Inr k" "isPathOK s k" and ctrl: "ctrl \<noteq> Some True"
  defines "h' \<equiv> h\<lparr>arrivalGate := Some g, ctrlAttached := False, timeToLive := c_short (timeToLive h - 1)\<rparr>"
  shows "\<exists>s'. handlePacketFromNetwork tm rnd ctrl (arriveAt g (h, Some pk)) s = Inr s' \<and>
    im_out s' = im_out s @ [ToTransport k pk (arrivedControl h' pk (interfaceId e))]"
proof -
  have "transportProtocol h \<notin> {IP_PROT_DSR, IP_PROT_MANET}" using assms(7) by (simp add: IP_PROT_UDP_def IP_PROT_DSR_def IP_PROT_MANET_def)
  from host_delivers [OF assms(1-6) this assms(8-12) ctrl, of rnd] obtain rt' where
    d: "handlePacketFromNetwork tm rnd ctrl (arriveAt g (h, Some pk)) s = deliver (h', Some pk) ((setRT rt' s)\<lparr>numLocalDeliver := numLocalDeliver s + 1\<rparr>)"
      "decapsulateIP (h', Some pk) ((setRT rt' s)\<lparr>numLocalDeliver := numLocalDeliver s + 1\<rparr>) = Inr (pk, arrivedControl h' pk (interfaceId e))"
    unfolding h'_def by blast
  then have "handlePacketFromNetwork tm rnd ctrl (arriveAt g (h, Some pk)) s =
      Inr (emit (ToTransport k pk (arrivedControl h' pk (interfaceId e))) ((setRT rt' s)\<lparr>numLocalDeliver := numLocalDeliver s + 1\<rparr>))"
    using assms(7,13,14) by (simp add: deliver_def h'_def IP_PROT_UDP_def IP_PROT_ICMP_def IP_PROT_IP_def setRT_def)
  then show ?thesis by (simp add: emit_def)
qed

section \<open>From application to application\<close>

text \<open>A host that sends: UDP handles the message of the application, IP handles what UDP sends.\<close>

definition host_send :: "simtime \<Rightarrow> cPacket \<Rightarrow> UDPControlInfo \<Rightarrow> UDP \<Rightarrow> Datagram option" where
  "host_send tm pk c u =
     (case udp_handleMessage (FromApp UDP_C_DATA 0 (Some pk) (Some c)) u of
        Inl _ \<Rightarrow> None
      | Inr u' \<Rightarrow> (case drop (length (udp_out u)) (udp_out u') of
          [UdpToIP p ci] \<Rightarrow> (case handleMessageFromHL tm p (Some ci) (udp_icmp u') of
             Inl _ \<Rightarrow> None
           | Inr s' \<Rightarrow> (case drop (length (im_out (udp_icmp u'))) (im_out s') of [ToQueue d _ _] \<Rightarrow> Some d | _ \<Rightarrow> None))
        | _ \<Rightarrow> None))"

text \<open>A host that receives: IP handles the datagram, UDP handles what IP hands over; the result is what UDP sends up.\<close>

definition host_receive :: "simtime \<Rightarrow> rat \<Rightarrow> bool option \<Rightarrow> int \<Rightarrow> Datagram \<Rightarrow> UDP \<Rightarrow> UDPOut list option" where
  "host_receive tm rnd ctrl g d u =
     (case handlePacketFromNetwork tm rnd ctrl (arriveAt g d) (udp_icmp u) of
        Inl _ \<Rightarrow> None
      | Inr s' \<Rightarrow> (case drop (length (im_out (udp_icmp u))) (im_out s') of
          [ToTransport _ p ci] \<Rightarrow> (case udp_handleMessage (FromIp p (Ctrl4 ci)) (u\<lparr>udp_icmp := s'\<rparr>) of
             Inl _ \<Rightarrow> None
           | Inr u' \<Rightarrow> Some (drop (length (udp_out u)) (udp_out u')))
        | _ \<Rightarrow> None))"

definition sender_ok :: "simtime \<Rightarrow> IPAddress \<Rightarrow> IPAddress \<Rightarrow> nat \<Rightarrow> UDP \<Rightarrow> bool" where
  "sender_ok tm src dest len u \<longleftrightarrow>
     (\<exists>ie e gw v. good_route tm (udp_icmp u) dest ie e gw \<and> ipv4Data ie (nift (im_node (udp_icmp u))) = Inr v \<and>
        inetAddr v = src \<and> 28 + int len \<le> mtu e) \<and> interfaces (nift (im_node (udp_icmp u))) \<noteq> [] \<and>
     0 < defaultTimeToLive (udp_icmp u) \<and> defaultTimeToLive (udp_icmp u) < 32768"

definition receiver_ok :: "simtime \<Rightarrow> IPAddress \<Rightarrow> int \<Rightarrow> UDP \<Rightarrow> bool" where
  "receiver_ok tm dest g u \<longleftrightarrow>
     rt_ok tm (nift (im_node (udp_icmp u))) (nrt (im_node (udp_icmp u))) \<and> dest \<in> addrs (nift (im_node (udp_icmp u))) \<and>
     \<not> manetRouting (udp_icmp u) \<and> getInterfaceByNetworkLayerGateIndex g (nift (im_node (udp_icmp u))) \<noteq> None \<and>
     (\<exists>k. getOutputGateForProtocol IP_PROT_UDP (mapping (udp_icmp u)) = Inr k \<and> isPathOK (udp_icmp u) k)"

lemma host_send_datagram:
  assumes "sender_ok tm src dest (byteLength pk) u"
    and c: "uc_srcAddr c = unspecifiedAddr" "uc_destAddr c = IPv4 dest" "uc_interfaceId c = - 1"
  shows "\<exists>h. host_send tm pk c u = Some (h, Some (sentPacket pk c)) \<and> srcAddress h = src \<and> destAddress h = dest \<and>
    transportProtocol h = IP_PROT_UDP \<and> timeToLive h = defaultTimeToLive (udp_icmp u) \<and> ip_byteLength h = 28 + int (byteLength pk) \<and>
    \<not> bitError h \<and> fragmentOffset h = 0 \<and> \<not> moreFragments h \<and> \<not> ip_isMulticast dest"
proof -
  let ?s = "udp_icmp u" and ?p = "sentPacket pk c"
  let ?ci = "newIPControlInfo\<lparr>ci_protocol := IP_PROT_UDP, ci_srcAddr := 0, ci_destAddr := dest, ci_interfaceId := - 1\<rparr>"
  obtain ie e gw v where s: "good_route tm ?s dest ie e gw" "ipv4Data ie (nift (im_node ?s)) = Inr v" "inetAddr v = src"
    "28 + int (byteLength pk) \<le> mtu e" "interfaces (nift (im_node ?s)) \<noteq> []" "0 < defaultTimeToLive ?s" "defaultTimeToLive ?s < 32768"
    using assms(1) by (auto simp: sender_ok_def)
  have u: "udp_handleMessage (FromApp UDP_C_DATA 0 (Some pk) (Some c)) u =
      Inr (u\<lparr>udp_out := udp_out u @ [UdpToIP ?p ?ci], numSent := numSent u + 1\<rparr>)"
    using c by (simp add: castCtrl_def processMsgFromApp_def udp_emit_def sentPacket_def createUDPPacket_def unspecifiedAddr_def)
  have m: "\<not> ip_isMulticast dest" using s(1) by (simp add: good_route_def)
  have ll: "\<not> ip_isLinkLocalMulticast dest"
    using m link_local_is_multicast by blast
  have ttl: "initialTTL ?ci ?s = defaultTimeToLive ?s"
    using m ll s(6,7) by (simp add: initialTTL_def newIPControlInfo_def)
  obtain s' where r: "handleMessageFromHL tm ?p (Some ?ci) ?s = Inr s'"
    "im_out s' = im_out ?s @ [ToQueue ((firstHeader ?p ?ci ?s)\<lparr>srcAddress := inetAddr v\<rparr>, Some ?p) (interfaceId e) gw]"
    using host_sends [of tm ?s ?ci ie e gw v ?p] s ttl
    by (auto simp: newIPControlInfo_def ip_isUnspecified_def sentPacket_def IP_HEADER_BYTES_def UDP_HEADER_BYTES_def IP_PROT_UDP_def IP_PROT_MANET_def)
  have "host_send tm pk c u = Some ((firstHeader ?p ?ci ?s)\<lparr>srcAddress := inetAddr v\<rparr>, Some ?p)"
    unfolding host_send_def u using r by simp
  then show ?thesis
    using m ttl s(3) by (simp add: firstHeader_def newIPControlInfo_def newIPHeader_def sentPacket_def IP_HEADER_BYTES_def UDP_HEADER_BYTES_def)
qed


lemma host_receive_copies:
  assumes "receiver_ok tm dest g u" "udp_reach is u" "destAddress h = dest" "\<not> ip_isMulticast dest" "\<not> bitError h"
    and "\<not> ip_isUnspecified (srcAddress h)" "transportProtocol h = IP_PROT_UDP" "fragmentOffset h = 0" "\<not> moreFragments h"
      "udp_byteLength uh \<le> ip_byteLength h" "\<not> udp_bitError uh"
    and "\<forall>sd \<in> set (sockets u). sd_localPort sd = destinationPort uh \<longrightarrow> ipv4_only sd" "ctrl \<noteq> Some True"
  shows "\<exists>ci. ci_srcAddr ci = srcAddress h \<and> ci_destAddr ci = dest \<and> ci_timeToLive ci = c_short (timeToLive h - 1) \<and>
    host_receive tm rnd ctrl g (h, Some (UDPPacket uh (Some pk))) u = Some (map (copyFor pk uh ci) (receivers uh ci (sockets u)))"
proof -
  let ?s = "udp_icmp u" and ?p = "UDPPacket uh (Some pk)"
  obtain ie k where r: "rt_ok tm (nift (im_node ?s)) (nrt (im_node ?s))" "dest \<in> addrs (nift (im_node ?s))" "\<not> manetRouting ?s"
    "getInterfaceByNetworkLayerGateIndex g (nift (im_node ?s)) = Some ie" "getOutputGateForProtocol IP_PROT_UDP (mapping ?s) = Inr k" "isPathOK ?s k"
    using assms(1) by (auto simp: receiver_ok_def)
  obtain e where e: "derefIf ie (nift (im_node ?s)) = Inr e" using lookups_alive(2) [OF r(4)] by blast
  let ?h = "h\<lparr>arrivalGate := Some g, ctrlAttached := False, timeToLive := c_short (timeToLive h - 1)\<rparr>"
  let ?ci = "arrivedControl ?h ?p (interfaceId e)"
  obtain s' where s': "handlePacketFromNetwork tm rnd ctrl (arriveAt g (h, Some ?p)) ?s = Inr s'"
    "im_out s' = im_out ?s @ [ToTransport k ?p ?ci]"
    using host_receives [of tm ?s h ?p g ie e k ctrl rnd] r e assms(3-10,13) by auto
  let ?u = "u\<lparr>udp_icmp := s'\<rparr>"
  have ss: "sockets ?u = sockets u" by (rule udp_view_cong) simp_all
  have reach: "udp_reach is ?u" by (rule udp_env [OF assms(2)])
  have "udp_handleMessage (FromIp ?p (Ctrl4 ?ci)) ?u = Inr v \<Longrightarrow>
      drop (length (udp_out u)) (udp_out v) = map (copyFor pk uh ?ci) (receivers uh ?ci (sockets u))" for v
    using udp_deliver [OF reach assms(11), of ?ci "?h\<lparr>ip_byteLength := ip_byteLength h - udp_byteLength uh\<rparr>" pk] assms(3,6,7,12) ss
    by (auto simp: arrivedControl_def)
  moreover have "\<exists>v. udp_handleMessage (FromIp ?p (Ctrl4 ?ci)) ?u = Inr v"
    using udp_deliver [OF reach assms(11), of ?ci "?h\<lparr>ip_byteLength := ip_byteLength h - udp_byteLength uh\<rparr>" pk] assms(3,6,7,12) ss
    by (simp add: arrivedControl_def)
  ultimately have "host_receive tm rnd ctrl g (h, Some ?p) u = Some (map (copyFor pk uh ?ci) (receivers uh ?ci (sockets u)))"
    unfolding host_receive_def s'(1) using s'(2) by auto
  moreover have "ci_srcAddr ?ci = srcAddress h" "ci_destAddr ?ci = dest" "ci_timeToLive ?ci = c_short (timeToLive h - 1)"
    using assms(3) by (simp_all add: arrivedControl_def)
  ultimately show ?thesis by blast
qed

section \<open>An example path\<close>

text \<open>
  Nodes with two interfaces and a route for 10.0.0.0/8 over the second one: the sender is 11.0.0.5, behind it a router with
  11.0.0.1 and 10.0.0.9; the receiver is the node of theory \<open>IP_RouteRun\<close>.
\<close>

definition pair_ift :: "IPAddress \<Rightarrow> IPAddress \<Rightarrow> InterfaceTable" where
  "pair_ift a b = \<lparr> idToInterface = [Some (demo_entry ''eth0'' 100 a 0xFF000000), Some (demo_entry ''eth1'' 101 b 0xFF000000)],
     tmpNumInterfaces = - 1, tmpInterfaceList = None \<rparr>"

definition pair_rt :: "IPAddress \<Rightarrow> RoutingTable" where
  "pair_rt gw = (newRoutingTable True)\<lparr>routes := [0], nextRoute := 1,
     routeHeap := [0 \<mapsto> newIPRoute\<lparr>r_host := 0x0A000000, r_netmask := 0xFF000000, r_gateway := gw, r_interface := Some 1\<rparr>]\<rparr>"

definition pair_ip :: "IPAddress \<Rightarrow> IPAddress \<Rightarrow> IPAddress \<Rightarrow> IPModule" where
  "pair_ip a b gw = demo_ip\<lparr>im_node := \<lparr>nift = pair_ift a b, nrt = pair_rt gw, inInit = False\<rparr>\<rparr>"

lemma pair_sel [simp]:
  "nift (im_node (pair_ip a b gw)) = pair_ift a b" "nrt (im_node (pair_ip a b gw)) = pair_rt gw" "manetRouting (pair_ip a b gw) = False"
  "IPForward (pair_rt gw)" "localBroadcastAddresses (pair_rt gw) = {}"
  by (simp_all add: pair_ip_def pair_rt_def newRoutingTable_def)

lemma pair_interfaces: "interfaces (pair_ift a b) = [0, 1]"
  by (simp add: interfaces_def pair_ift_def)

lemma pair_data:
  "collectData (pair_ift a b) (interfaces (pair_ift a b)) =
    Inr [\<lparr> inetAddr = a, if_netmask = 0xFF000000, if_metric = 1, multicastGroups = [] \<rparr>,
         \<lparr> inetAddr = b, if_netmask = 0xFF000000, if_metric = 1, multicastGroups = [] \<rparr>]"
  unfolding pair_interfaces by (simp add: ipv4Data_def derefIf_def pair_ift_def demo_entry_def)

lemma pair_route: "route_for 0 (pair_ift a b) (pair_rt gw) 0x0A000001 = Some 0"
proof -
  have "filter (\<lambda>p. valid_route 0 (pair_ift a b) (pair_rt gw) p \<and> matches (pair_rt gw) 0x0A000001 p) (routes (pair_rt gw)) = [0]"
    by (simp add: pair_rt_def newRoutingTable_def valid_route_def matches_def maskedAddrAreEqual_def)
  then have "best_match 0 (pair_ift a b) (pair_rt gw) 0x0A000001 = Some 0"
    by (simp add: best_match_def better_def pair_rt_def)
  then show ?thesis by (simp add: route_for_def is_manet_def pair_rt_def newIPRoute_def)
qed

lemma pair_good:
  assumes "a \<noteq> 0x0A000001" "b \<noteq> 0x0A000001" "getBroadcastAddress a 0xFF000000 \<noteq> 0x0A000001" "getBroadcastAddress b 0xFF000000 \<noteq> 0x0A000001"
  shows "good_route 0 (pair_ip a b gw) 0x0A000001 1 (demo_entry ''eth1'' 101 b 0xFF000000) gw"
proof -
  have "ift_ok (pair_ift a b)" unfolding ift_ok_def pair_data by blast
  then have "rt_ok 0 (pair_ift a b) (pair_rt gw)"
    by (rule rt_ok_I) (auto simp: rt_wf_def pair_rt_def newRoutingTable_def)
  moreover have "derefIf 1 (pair_ift a b) = Inr (demo_entry ''eth1'' 101 b 0xFF000000)" by (simp add: derefIf_def pair_ift_def)
  moreover have "routeHeap (pair_rt gw) 0 =
      Some (newIPRoute\<lparr>r_host := 0x0A000000, r_netmask := 0xFF000000, r_gateway := gw, r_interface := Some 1\<rparr>)"
    by (simp add: pair_rt_def)
  ultimately show ?thesis
    using assms pair_route by (auto simp: good_route_def addrs_def broadcasts_def pair_data ALLONES_ADDRESS_def ip_isMulticast_def demo_entry_def)
qed

definition demo_sender :: UDP where
  "demo_sender = udp_initialize (pair_ip 0x0C000001 0x0B000005 0x0B000001)"

definition demo_send :: UDPControlInfo where
  "demo_send = newUDPControlInfo\<lparr>uc_destAddr := IPv4 0x0A000001, uc_srcPort := 1024, uc_destPort := 80\<rparr>"

section \<open>Properties\<close>

text \<open>
  Property C1: what an application sends arrives.  An application of host \<open>A\<close> sends a packet over UDP to an address and port
  of host \<open>B\<close>, without giving a source address or an interface.  Every node on the way has a route for \<open>B\<close> over a broadcast interface whose MTU the datagram
  does not exceed, no frame is a broadcast, and there are fewer routers than the initial time to live.  Then IP of \<open>A\<close> routes the datagram, the
  routers forward it, each along its best route, and IP of \<open>B\<close> delivers it; and when the sockets of \<open>B\<close> with this local port are
  bound to nothing else (no local address, remote address or port, or interface), each of them is sent exactly this packet, once, with the address of \<open>A\<close>
  as source, the ports the sender gave, and the time to live that is left.
\<close>

theorem udp_end_to_end:
  assumes sender: "sender_ok tmA src dest (byteLength pk) uA" "\<not> ip_isUnspecified src"
    and c: "uc_srcAddr c = unspecifiedAddr" "uc_destAddr c = IPv4 dest" "uc_interfaceId c = - 1"
    and routers: "list_all (forwards (28 + int (byteLength pk)) dest) rs" "int (length rs) < defaultTimeToLive (udp_icmp uA)"
    and receiver: "receiver_ok tmB dest g uB" "udp_reach is uB" "\<forall>sd \<in> set (sockets uB). sd_localPort sd = uc_destPort c \<longrightarrow> onlyLocalPort sd"
      "ctrl \<noteq> Some True"
  shows "\<exists>d d' outs. host_send tmA pk c uA = Some d \<and> relay rs d = Some d' \<and> host_receive tmB rnd ctrl g d' uB = Some outs \<and>
    length outs = length (filter (\<lambda>sd. sd_localPort sd = uc_destPort c) (sockets uB)) \<and>
    (\<forall>sd \<in> set (sockets uB). sd_localPort sd = uc_destPort c \<longrightarrow>
      (\<exists>ifid. AppOut (sd_appGateIndex sd) pk \<lparr> uc_sockId = sd_sockId sd, uc_userId = sd_userId sd, uc_srcAddr = IPv4 src, uc_destAddr = IPv4 dest,
         uc_srcPort = uc_srcPort c, uc_destPort = uc_destPort c, uc_interfaceId = ifid,
         uc_TTL = defaultTimeToLive (udp_icmp uA) - int (length rs) - 1 \<rparr> \<in> set outs))"
proof -
  let ?ttl = "defaultTimeToLive (udp_icmp uA)"
  obtain h where h: "host_send tmA pk c uA = Some (h, Some (sentPacket pk c))" "srcAddress h = src" "destAddress h = dest"
    "transportProtocol h = IP_PROT_UDP" "timeToLive h = ?ttl" "ip_byteLength h = 28 + int (byteLength pk)"
    "\<not> bitError h" "fragmentOffset h = 0" "\<not> moreFragments h" "\<not> ip_isMulticast dest"
    using host_send_datagram [OF sender(1) c] by blast
  have ttl: "?ttl < 32768" using sender(1) by (simp add: sender_ok_def)
  obtain cc gg where r: "relay rs (h, Some (sentPacket pk c)) =
      Some (h\<lparr>timeToLive := ?ttl - int (length rs), ctrlAttached := cc, arrivalGate := gg\<rparr>, Some (sentPacket pk c))"
    using relay_delivers [of h rs "Some (sentPacket pk c)"] h routers sender(2) ttl by (auto simp: IP_PROT_UDP_def IP_PROT_DSR_def IP_PROT_MANET_def)
  let ?h = "h\<lparr>timeToLive := ?ttl - int (length rs), ctrlAttached := cc, arrivalGate := gg\<rparr>"
  define uh where "uh = \<lparr> udp_name = pkName pk, sourcePort = uc_srcPort c, destinationPort = uc_destPort c,
     udp_byteLength = UDP_HEADER_BYTES + int (byteLength pk), udp_bitError = False \<rparr>"
  have v4: "ipv4_only sd" if "onlyLocalPort sd" for sd
    using that by (cases "sd_localAddr sd"; cases "sd_remoteAddr sd") (simp_all add: onlyLocalPort_def ipv4_only_def)
  obtain ci where ci: "ci_srcAddr ci = src" "ci_destAddr ci = dest" "ci_timeToLive ci = c_short (?ttl - int (length rs) - 1)"
    and o: "host_receive tmB rnd ctrl g (?h, Some (UDPPacket uh (Some pk))) uB = Some (map (copyFor pk uh ci) (receivers uh ci (sockets uB)))"
    using host_receive_copies [of tmB dest g uB "is" ?h uh ctrl rnd pk] receiver h(2-10) sender(2) v4
    by (auto simp: uh_def UDP_HEADER_BYTES_def)
  have t: "c_short (?ttl - int (length rs) - 1) = ?ttl - int (length rs) - 1" using routers(2) ttl by simp
  have rec: "receivers uh ci (sockets uB) = filter (\<lambda>sd. sd_localPort sd = uc_destPort c) (sockets uB)"
    unfolding receivers_def using receiver(3) onlyLocalPort_accepts by (intro filter_cong) (auto simp: uh_def)
  have "relay rs (h, Some (sentPacket pk c)) = Some (?h, Some (UDPPacket uh (Some pk)))" using r by (simp add: sentPacket_def uh_def)
  moreover have "\<exists>ifid. copyFor pk uh ci sd = AppOut (sd_appGateIndex sd) pk \<lparr> uc_sockId = sd_sockId sd, uc_userId = sd_userId sd,
       uc_srcAddr = IPv4 src, uc_destAddr = IPv4 dest, uc_srcPort = uc_srcPort c, uc_destPort = uc_destPort c, uc_interfaceId = ifid,
       uc_TTL = ?ttl - int (length rs) - 1 \<rparr>" for sd
    using ci t by (simp add: copyFor_def upControl_def newUDPControlInfo_def uh_def)
  moreover have "copyFor pk uh ci sd \<in> set (map (copyFor pk uh ci) (receivers uh ci (sockets uB)))"
    if "sd \<in> set (sockets uB)" "sd_localPort sd = uc_destPort c" for sd
    using that by (simp add: rec)
  ultimately show ?thesis using h(1) o rec by (metis length_map)
qed


theorem udp_end_to_end_witness:
  "\<exists>d d' outs. host_send 0 \<lparr>pkName = ''x'', byteLength = 100\<rparr> demo_send demo_sender = Some d \<and>
    relay [(0, 0, Some False, 0, pair_ip 0x0B000001 0x0A000009 0)] d = Some d' \<and>
    host_receive 0 0 None 0 d' (demo_udp 80) = Some outs \<and> length outs = 1"
proof -
  have b: "getBroadcastAddress 0x0C000001 0xFF000000 = 0x0CFFFFFF" "getBroadcastAddress 0x0B000005 0xFF000000 = 0x0BFFFFFF"
    "getBroadcastAddress 0x0B000001 0xFF000000 = 0x0BFFFFFF" "getBroadcastAddress 0x0A000009 0xFF000000 = 0x0AFFFFFF"
    by (simp_all add: getBroadcastAddress_def)
  have i: "udp_icmp demo_sender = pair_ip 0x0C000001 0x0B000005 0x0B000001" "udp_icmp (demo_udp 80) = demo_ip"
    by (simp_all add: demo_sender_def udp_initialize_def demo_udp_def addSock_def)
  have "good_route 0 (pair_ip 0x0C000001 0x0B000005 0x0B000001) 0x0A000001 1 (demo_entry ''eth1'' 101 0x0B000005 0xFF000000) 0x0B000001"
    by (rule pair_good) (simp_all add: b)
  moreover have "ipv4Data 1 (pair_ift 0x0C000001 0x0B000005) = Inr \<lparr> inetAddr = 0x0B000005, if_netmask = 0xFF000000, if_metric = 1, multicastGroups = [] \<rparr>"
    by (simp add: ipv4Data_def derefIf_def pair_ift_def demo_entry_def)
  moreover have "defaultTimeToLive (pair_ip 0x0C000001 0x0B000005 0x0B000001) = 32" by (simp add: pair_ip_def demo_ip_def)
  moreover have "mtu (demo_entry ''eth1'' 101 0x0B000005 0xFF000000) = 1500" by (simp add: demo_entry_def)
  ultimately have s: "sender_ok 0 0x0B000005 0x0A000001 100 demo_sender"
    unfolding sender_ok_def i by (auto simp: pair_interfaces intro!: exI [of _ "1 :: nat"] exI [of _ "demo_entry ''eth1'' 101 0x0B000005 0xFF000000"])
  have "good_route 0 (pair_ip 0x0B000001 0x0A000009 0) 0x0A000001 1 (demo_entry ''eth1'' 101 0x0A000009 0xFF000000) 0"
    by (rule pair_good) (simp_all add: b)
  moreover have "mtu (demo_entry ''eth1'' 101 0x0A000009 0xFF000000) = 1500" by (simp add: demo_entry_def)
  ultimately have f: "forwards 128 0x0A000001 (0, 0, Some False, 0, pair_ip 0x0B000001 0x0A000009 0)"
    unfolding forwards_def by fastforce
  have "getInterfaceByNetworkLayerGateIndex 0 demo_ift \<noteq> None"
    by (simp add: getInterfaceByNetworkLayerGateIndex_def demo_ift_def demo_entry_def)
  then have r: "receiver_ok 0 0x0A000001 0 (demo_udp 80)"
    using demo_rt_ok demo_addrs unfolding receiver_ok_def i by (simp add: demo_ip_def IP_PROT_UDP_def)
  have p: "onlyLocalPort (boundSock 2 (demo_bind 80) 80)"
    by (simp add: boundSock_def demo_bind_def newSockDesc_def newUDPControlInfo_def unspecifiedAddr_def Let_def onlyLocalPort_def)
  let ?pk = "\<lparr>pkName = ''x'', byteLength = 100\<rparr>" and ?rs = "[(0, 0, Some False, 0, pair_ip 0x0B000001 0x0A000009 0)]"
  have c: "uc_srcAddr demo_send = unspecifiedAddr" "uc_destAddr demo_send = IPv4 0x0A000001" "uc_interfaceId demo_send = - 1"
    "uc_destPort demo_send = 80" by (simp_all add: demo_send_def newUDPControlInfo_def)
  have l: "int (length ?rs) < defaultTimeToLive (udp_icmp demo_sender)" by (simp add: i pair_ip_def demo_ip_def)
  have fs: "list_all (forwards (28 + int (byteLength ?pk)) 0x0A000001) ?rs" using f by simp
  have ss: "sender_ok 0 0x0B000005 0x0A000001 (byteLength ?pk) demo_sender" using s by simp
  have ns: "\<not> ip_isUnspecified 0x0B000005" by (simp add: ip_isUnspecified_def)
  have z: "udp_reach [FromApp UDP_C_BIND 2 None (Some (demo_bind 80))] (demo_udp 80)" by (rule demo_udp_reach) simp
  have q: "\<forall>sd \<in> set (sockets (demo_udp 80)). sd_localPort sd = uc_destPort demo_send \<longrightarrow> onlyLocalPort sd"
    using p by (simp add: demo_udp_sockets)
  obtain d d' outs where "host_send 0 ?pk demo_send demo_sender = Some d" "relay ?rs d = Some d'" "host_receive 0 0 None 0 d' (demo_udp 80) = Some outs"
    "length outs = length (filter (\<lambda>sd. sd_localPort sd = uc_destPort demo_send) (sockets (demo_udp 80)))"
    using udp_end_to_end [OF ss ns c(1-3) fs l r z q, of None 0] by blast
  moreover have "length (filter (\<lambda>sd. sd_localPort sd = uc_destPort demo_send) (sockets (demo_udp 80))) = 1"
    by (simp add: c(4) demo_udp_sockets demo_sock)
  ultimately show ?thesis by metis
qed

end
