(* ===== verification/TED_Module.thy ===== *)
theory TED_Module
  imports IP_Routing C_Float
begin

text \<open>
  The traffic engineering database (\<open>ted/TED.cc\<close>): the link state information a router has, the computation
  of shortest paths over it, and the routes it puts into the routing table.  The flooding protocol that fills the
  database is in theory \<open>TED_Flooding\<close>.
\<close>

section \<open>Data\<close>

record TELinkStateInfo =
  te_advrouter :: IPAddress
  te_linkid :: IPAddress
  te_local :: IPAddress
  te_remote :: IPAddress
  te_metric :: rat
  te_MaxBandwidth :: rat
  te_UnResvBandwidth :: "rat list"
  te_timestamp :: simtime
  te_sourceId :: u32
  te_messageId :: u32
  te_state :: bool

text \<open>A parent \<open>-1\<close> is \<open>None\<close>.\<close>

record vertex_t =
  vt_node :: IPAddress
  vt_parent :: "nat option"
  vt_dist :: rat

record edge_t =
  ed_src :: nat
  ed_dest :: nat
  ed_metric :: rat

record TED =
  ted :: "TELinkStateInfo list"
  te_routerId :: IPAddress
  interfaceAddrs :: "IPAddress list"
  maxMessageId :: int
  te_node :: IPNode

definition LS_INFINITY :: rat where "LS_INFINITY = 10 ^ 16"

section \<open>Shortest paths\<close>

fun findNode :: "nat \<Rightarrow> IPAddress \<Rightarrow> vertex_t list \<Rightarrow> nat option" where
  "findNode i nodeAddr [] = None"
| "findNode i nodeAddr (v # vs) = (if vt_node v = nodeAddr then Some i else findNode (Suc i) nodeAddr vs)"

definition assignIndex :: "vertex_t list \<Rightarrow> IPAddress \<Rightarrow> nat \<times> vertex_t list" where
  "assignIndex vertices nodeAddr =
     (case findNode 0 nodeAddr vertices of
        Some i \<Rightarrow> (i, vertices)
      | None \<Rightarrow> (length vertices, vertices @ [\<lparr> vt_node = nodeAddr, vt_parent = None, vt_dist = LS_INFINITY \<rparr>]))"

text \<open>The bandwidth array has eight elements; an index outside of it reads other memory.\<close>

definition unresvBandwidth :: "TELinkStateInfo \<Rightarrow> int \<Rightarrow> rat res" where
  "unresvBandwidth l priority =
     (if 0 \<le> priority \<and> nat priority < length (te_UnResvBandwidth l) then Inr (te_UnResvBandwidth l ! nat priority)
      else Inl NullPointer)"

text \<open>The selection of the edges with enough bandwidth, and of their vertices.\<close>

fun selectEdges :: "TELinkStateInfo list \<Rightarrow> rat \<Rightarrow> int \<Rightarrow> vertex_t list \<times> edge_t list \<Rightarrow> (vertex_t list \<times> edge_t list) res" where
  "selectEdges [] req_bandwidth priority (vertices, edges) = Inr (vertices, edges)"
| "selectEdges (l # ls) req_bandwidth priority (vertices, edges) =
     (if \<not> te_state l then selectEdges ls req_bandwidth priority (vertices, edges)
      else bindE (unresvBandwidth l priority) (\<lambda>bw.
        if bw < req_bandwidth then selectEdges ls req_bandwidth priority (vertices, edges)
        else let (s, vertices) = assignIndex vertices (te_advrouter l);
                 (d, vertices) = assignIndex vertices (te_linkid l)
             in selectEdges ls req_bandwidth priority (vertices, edges @ [\<lparr> ed_src = s, ed_dest = d, ed_metric = te_metric l \<rparr>])))"

text \<open>One pass over the edges; the flag is the variable \<open>mod\<close>.\<close>

definition relaxEdge :: "edge_t \<Rightarrow> bool \<times> vertex_t list \<Rightarrow> (bool \<times> vertex_t list) res" where
  "relaxEdge e s =
     (let (changed, vertices) = s; src = ed_src e; dest = ed_dest e
      in if \<not> src < length vertices then Inl (AssertFailed ''src < (int)vertices.size()'')
         else if \<not> dest < length vertices then Inl (AssertFailed ''dest < (int)vertices.size()'')
         else if src = dest then Inl (AssertFailed ''src != dest'')
         else let d = double_plus (vt_dist (vertices ! src)) (ed_metric e)
              in if d \<ge> vt_dist (vertices ! dest) then Inr (changed, vertices)
                 else Inr (True, vertices[dest := (vertices ! dest)\<lparr>vt_dist := d, vt_parent := Some src\<rparr>]))"

fun relaxAll :: "edge_t list \<Rightarrow> bool \<times> vertex_t list \<Rightarrow> (bool \<times> vertex_t list) res" where
  "relaxAll [] s = Inr s"
| "relaxAll (e # es) s = bindE (relaxEdge e s) (relaxAll es)"

text \<open>The outer loop: at most \<open>n\<close> passes, fewer when a pass changes nothing.\<close>

fun relaxRounds :: "nat \<Rightarrow> edge_t list \<Rightarrow> vertex_t list \<Rightarrow> vertex_t list res" where
  "relaxRounds 0 edges vertices = Inr vertices"
| "relaxRounds (Suc n) edges vertices =
     bindE (relaxAll edges (False, vertices)) (\<lambda>(changed, vertices).
     if \<not> changed then Inr vertices else relaxRounds n edges vertices)"

definition calculateShortestPaths :: "TELinkStateInfo list \<Rightarrow> rat \<Rightarrow> int \<Rightarrow> TED \<Rightarrow> vertex_t list res" where
  "calculateShortestPaths topology req_bandwidth priority t =
     bindE (selectEdges topology req_bandwidth priority ([], [])) (\<lambda>(vertices, edges).
     let (srcIndex, vertices) = assignIndex vertices (te_routerId t);
         vertices = vertices[srcIndex := (vertices ! srcIndex)\<lparr>vt_dist := 0\<rparr>]
     in relaxRounds (length vertices - 1) edges vertices)"

text \<open>The nearest of the destinations.\<close>

fun nearest :: "IPAddress list \<Rightarrow> nat \<Rightarrow> vertex_t list \<Rightarrow> rat \<times> nat option \<Rightarrow> rat \<times> nat option" where
  "nearest dest i [] m = m"
| "nearest dest i (v # vs) (minDist, minIndex) =
     (if vt_dist v \<ge> minDist \<or> vt_node v \<notin> set dest then nearest dest (Suc i) vs (minDist, minIndex)
      else nearest dest (Suc i) vs (vt_dist v, Some i))"

text \<open>
  The loop over the parents changes nothing but the index, so it ends within as many steps as there are vertices or
  never.
\<close>

fun walkParents :: "nat \<Rightarrow> vertex_t list \<Rightarrow> nat \<Rightarrow> IPAddress list \<Rightarrow> IPAddress list res" where
  "walkParents fuel V i acc =
     (case vt_parent (V ! i) of
        None \<Rightarrow> Inr acc
      | Some p \<Rightarrow> if fuel = 0 then Inl Nontermination else walkParents (fuel - 1) V p (vt_node (V ! p) # acc))"

declare walkParents.simps [simp del]

definition calculateShortestPath :: "IPAddress list \<Rightarrow> TELinkStateInfo list \<Rightarrow> rat \<Rightarrow> int \<Rightarrow> TED \<Rightarrow> IPAddress list res" where
  "calculateShortestPath dest topology req_bandwidth priority t =
     bindE (calculateShortestPaths topology req_bandwidth priority t) (\<lambda>V.
     case snd (nearest dest 0 V (LS_INFINITY, None)) of
       None \<Rightarrow> Inr []
     | Some i \<Rightarrow> walkParents (length V) V i [vt_node (V ! i)])"

section \<open>Queries\<close>

fun findLink :: "(TELinkStateInfo \<Rightarrow> bool) \<Rightarrow> TELinkStateInfo list \<Rightarrow> TELinkStateInfo option" where
  "findLink P [] = None"
| "findLink P (l # ls) = (if P l then Some l else findLink P ls)"

definition isLocalPeer :: "IPAddress \<Rightarrow> TED \<Rightarrow> bool" where
  "isLocalPeer a t \<longleftrightarrow> findLink (\<lambda>l. te_linkid l = a \<and> te_advrouter l = te_routerId t) (ted t) \<noteq> None"

definition getInterfaceAddrByPeerAddress :: "IPAddress \<Rightarrow> TED \<Rightarrow> IPAddress res" where
  "getInterfaceAddrByPeerAddress peerIP t =
     (case findLink (\<lambda>l. te_linkid l = peerIP \<and> te_advrouter l = te_routerId t) (ted t) of
        None \<Rightarrow> Inl (RuntimeError ''not a local peer'') | Some l \<Rightarrow> Inr (te_local l))"

definition peerRemoteInterface :: "IPAddress \<Rightarrow> TED \<Rightarrow> IPAddress res" where
  "peerRemoteInterface peerIP t =
     (if \<not> isLocalPeer peerIP t then Inl (AssertFailed ''isLocalPeer(peerIP)'')
      else case findLink (\<lambda>l. te_linkid l = peerIP \<and> te_advrouter l = te_routerId t) (ted t) of
             None \<Rightarrow> Inl (RuntimeError ''not a local peer'') | Some l \<Rightarrow> Inr (te_remote l))"

fun linkIndexLoop :: "(TELinkStateInfo \<Rightarrow> bool) \<Rightarrow> nat \<Rightarrow> TELinkStateInfo list \<Rightarrow> nat res" where
  "linkIndexLoop P i [] = Inl (AssertFailed ''false'')"
| "linkIndexLoop P i (l # ls) = (if P l then Inr i else linkIndexLoop P (Suc i) ls)"

definition linkIndex :: "IPAddress \<Rightarrow> TED \<Rightarrow> nat res" where
  "linkIndex localInf t = linkIndexLoop (\<lambda>l. te_advrouter l = te_routerId t \<and> te_local l = localInf) 0 (ted t)"

definition linkIndex2 :: "IPAddress \<Rightarrow> IPAddress \<Rightarrow> TED \<Rightarrow> nat res" where
  "linkIndex2 advrouter linkid t = linkIndexLoop (\<lambda>l. te_advrouter l = advrouter \<and> te_linkid l = linkid) 0 (ted t)"

definition te_isLocalAddress :: "IPAddress \<Rightarrow> TED \<Rightarrow> bool" where
  "te_isLocalAddress a t \<longleftrightarrow> a \<in> set (interfaceAddrs t)"

fun primaryLoop :: "IPAddress \<Rightarrow> TELinkStateInfo list \<Rightarrow> IPAddress res" where
  "primaryLoop localInf [] = Inl (AssertFailed ''false'')"
| "primaryLoop localInf (l # ls) =
     (if te_local l = localInf then Inr (te_advrouter l)
      else if te_remote l = localInf then Inr (te_linkid l)
      else primaryLoop localInf ls)"

definition primaryAddress :: "IPAddress \<Rightarrow> TED \<Rightarrow> IPAddress res" where
  "primaryAddress localInf t = primaryLoop localInf (ted t)"

definition getLocalAddress :: "TED \<Rightarrow> IPAddress list" where
  "getLocalAddress t = interfaceAddrs t"

definition getPeerByLocalAddress :: "IPAddress \<Rightarrow> TED \<Rightarrow> IPAddress res" where
  "getPeerByLocalAddress localInf t = bindE (linkIndex localInf t) (\<lambda>i. Inr (te_linkid (ted t ! i)))"

section \<open>The routing table\<close>

text \<open>Deletion of the routes that are not multicast: \<open>n\<close> rounds, \<open>j\<close> the index that is looked at.\<close>

fun deleteUnicastRoutes :: "nat \<Rightarrow> int \<Rightarrow> RoutingTable \<Rightarrow> RoutingTable res" where
  "deleteUnicastRoutes 0 j rt = Inr rt"
| "deleteUnicastRoutes (Suc n) j rt =
     bindE (getRoute j rt) (\<lambda>entry.
     case entry of
       None \<Rightarrow> Inl NullPointer
     | Some p \<Rightarrow>
         bindE (derefRoute p rt) (\<lambda>r.
         if ip_isMulticast (r_host r) then deleteUnicastRoutes n (j + 1) rt
         else deleteUnicastRoutes n j (snd (deleteRoute p rt))))"

text \<open>The walk back to a neighbour.  A parent \<open>-1\<close> is used as an index.\<close>

fun nextHopOf :: "nat \<Rightarrow> vertex_t list \<Rightarrow> TED \<Rightarrow> nat \<Rightarrow> nat res" where
  "nextHopOf fuel V t i =
     (if isLocalPeer (vt_node (V ! i)) t then Inr i
      else if fuel = 0 then Inl Nontermination
      else case vt_parent (V ! i) of None \<Rightarrow> Inl NullPointer | Some p \<Rightarrow> nextHopOf (fuel - 1) V t p)"

declare nextHopOf.simps [simp del]

definition addHostRoute :: "IPAddress \<Rightarrow> IPAddress \<Rightarrow> RouteType \<Rightarrow> IPAddress \<Rightarrow> TED \<Rightarrow> RoutingTable \<Rightarrow> RoutingTable res" where
  "addHostRoute host gateway type ifAddr t rt =
     bindE (getInterfaceByAddress (nift (te_node t)) ifAddr) (\<lambda>ie.
     let (p, rt) = allocRoute (newIPRoute\<lparr>r_host := host, r_gateway := gateway, r_type := type, r_interface := ie,
                                 r_source := OSPF, r_netmask := ALLONES_ADDRESS, r_metric := 0\<rparr>) rt
     in addRoute p rt)"

fun insertRemote :: "vertex_t list \<Rightarrow> TED \<Rightarrow> nat list \<Rightarrow> RoutingTable \<Rightarrow> RoutingTable res" where
  "insertRemote V t [] rt = Inr rt"
| "insertRemote V t (i # is) rt =
     (if vt_node (V ! i) = te_routerId t \<or> vt_parent (V ! i) = None \<or> isLocalPeer (vt_node (V ! i)) t
      then insertRemote V t is rt
      else bindE (nextHopOf (length V) V t i) (\<lambda>nHop.
           bindE (getInterfaceAddrByPeerAddress (vt_node (V ! nHop)) t) (\<lambda>ifAddr.
           bindE (if vt_node (V ! i) = vt_node (V ! nHop)
                  then addHostRoute (vt_node (V ! i)) 0 DIRECT ifAddr t rt
                  else addHostRoute (vt_node (V ! i)) (vt_node (V ! nHop)) REMOTE ifAddr t rt) (insertRemote V t is))))"

fun insertPeers :: "TED \<Rightarrow> IPAddress list \<Rightarrow> RoutingTable \<Rightarrow> RoutingTable res" where
  "insertPeers t [] rt = Inr rt"
| "insertPeers t (a # as) rt =
     bindE (getPeerByLocalAddress a t) (\<lambda>peer.
     bindE (addHostRoute peer 0 DIRECT a t rt) (insertPeers t as))"

definition rebuildRoutingTable :: "TED \<Rightarrow> TED res" where
  "rebuildRoutingTable t =
     bindE (calculateShortestPaths (ted t) 0 7 t) (\<lambda>V.
     bindE (deleteUnicastRoutes (nat (getNumRoutes (nrt (te_node t)))) 0 (nrt (te_node t))) (\<lambda>rt.
     bindE (insertRemote V t [0..<length V] rt) (\<lambda>rt.
     bindE (insertPeers t (interfaceAddrs t) rt) (\<lambda>rt.
     Inr (t\<lparr>te_node := (te_node t)\<lparr>nrt := rt\<rparr>\<rparr>)))))"

section \<open>Initialization\<close>

text \<open>
  The search for the direct route of an interface.  When none matches, the variable keeps the last route that was
  looked at.
\<close>

fun findDirectRoute :: "nat \<Rightarrow> nat list \<Rightarrow> nat option \<Rightarrow> RoutingTable \<Rightarrow> nat option res" where
  "findDirectRoute ie [] rentry rt = Inr rentry"
| "findDirectRoute ie (p # ps) rentry rt =
     bindE (derefRoute p rt) (\<lambda>r.
     if r_interface r = Some ie \<and> r_type r = DIRECT then Inr (Some p) else findDirectRoute ie ps (Some p) rt)"

text \<open>\<open>datarateOf\<close> is the data rate of the channel at a gate of the node.\<close>

definition makeLink :: "simtime \<Rightarrow> (int \<Rightarrow> rat) \<Rightarrow> nat \<Rightarrow> InterfaceEntry \<Rightarrow> IPRoute \<Rightarrow> TED \<Rightarrow> TELinkStateInfo res" where
  "makeLink tm datarateOf ie e r t =
     bindE (ipv4Data ie (nift (te_node t))) (\<lambda>d.
     bindE (case r_interface r of None \<Rightarrow> Inl NullPointer | Some k \<Rightarrow> ipv4Data k (nift (te_node t))) (\<lambda>d'.
     let bw = datarateOf (nodeOutputGateId e)
     in Inr \<lparr> te_advrouter = te_routerId t, te_linkid = r_host r, te_local = inetAddr d, te_remote = r_gateway r,
              te_metric = of_int (if_metric d'), te_MaxBandwidth = bw, te_UnResvBandwidth = replicate 8 bw,
              te_timestamp = tm, te_sourceId = te_routerId t, te_messageId = word_of_int (maxMessageId t + 1), te_state = True \<rparr>))"

fun extractLinks :: "simtime \<Rightarrow> (int \<Rightarrow> rat) \<Rightarrow> nat list \<Rightarrow> TED \<Rightarrow> TED res" where
  "extractLinks tm datarateOf [] t = Inr t"
| "extractLinks tm datarateOf (ie # ies) t =
     bindE (derefIf ie (nift (te_node t))) (\<lambda>e.
     if nodeOutputGateId e = - 1 then extractLinks tm datarateOf ies t
     else bindE (findDirectRoute ie (routes (nrt (te_node t)) @ multicastRoutes (nrt (te_node t))) None (nrt (te_node t))) (\<lambda>rentry.
          case rentry of
            None \<Rightarrow> Inl (AssertFailed ''rentry'')
          | Some p \<Rightarrow>
              bindE (derefRoute p (nrt (te_node t))) (\<lambda>r.
              if ip_isUnspecified (r_gateway r) then Inl (AssertFailed ''!remote.isUnspecified()'')
              else bindE (makeLink tm datarateOf ie e r t) (\<lambda>l.
                   extractLinks tm datarateOf ies (t\<lparr>ted := ted t @ [l], maxMessageId := maxMessageId t + 1\<rparr>)))))"

fun extractAddrs :: "nat list \<Rightarrow> TED \<Rightarrow> TED res" where
  "extractAddrs [] t = Inr t"
| "extractAddrs (ie # ies) t =
     bindE (derefIf ie (nift (te_node t))) (\<lambda>e.
     bindE (ipv4Data ie (nift (te_node t))) (\<lambda>d.
     bindE (getInterfaceByAddress (nift (te_node t)) (inetAddr d)) (\<lambda>q.
     if q \<noteq> Some ie then Inl (RuntimeError ''MPLS models assume interfaces to have unique addresses'')
     else extractAddrs ies (if loopback e then t else t\<lparr>interfaceAddrs := interfaceAddrs t @ [inetAddr d]\<rparr>))))"

definition ted_initialize :: "nat \<Rightarrow> simtime \<Rightarrow> (int \<Rightarrow> rat) \<Rightarrow> TED \<Rightarrow> TED res" where
  "ted_initialize stage tm datarateOf t =
     (if stage \<noteq> 4 then Inr t
      else if ip_isUnspecified (routerId (nrt (te_node t))) then Inl (AssertFailed ''!routerId.isUnspecified()'')
      else bindE (extractLinks tm datarateOf (interfaces (nift (te_node t)))
                    (t\<lparr>te_routerId := routerId (nrt (te_node t)), maxMessageId := 0\<rparr>)) (\<lambda>t.
           bindE (extractAddrs (interfaces (nift (te_node t))) t) rebuildRoutingTable))"

definition ted_handleMessage :: "TED \<Rightarrow> TED res" where
  "ted_handleMessage t = Inl (AssertFailed ''false'')"

section \<open>Validity of received information\<close>

text \<open>
  \<open>checkLinkValidity\<close>: \<open>None\<close> when the information is to be ignored, otherwise the index of the older entry, if there is
  one.
\<close>

fun validityLoop :: "TELinkStateInfo \<Rightarrow> nat \<Rightarrow> TELinkStateInfo list \<Rightarrow> nat option option" where
  "validityLoop link i [] = Some None"
| "validityLoop link i (l # ls) =
     (if te_sourceId l = te_sourceId link \<and> te_messageId l = te_messageId link \<and> te_timestamp l = te_timestamp link then None
      else if te_advrouter l = te_advrouter link \<and> te_linkid l = te_linkid link
      then if te_timestamp l < te_timestamp link \<or> te_timestamp l = te_timestamp link \<and> te_messageId l < te_messageId link
           then Some (Some i) else None
      else validityLoop link (Suc i) ls)"

definition checkLinkValidity :: "TELinkStateInfo \<Rightarrow> TED \<Rightarrow> nat option option" where
  "checkLinkValidity link t = validityLoop link 0 (ted t)"

definition updateTimestamp :: "simtime \<Rightarrow> nat \<Rightarrow> TED \<Rightarrow> TED res" where
  "updateTimestamp tm i t =
     (if \<not> i < length (ted t) then Inl NullPointer
      else if te_advrouter (ted t ! i) \<noteq> te_routerId t then Inl (AssertFailed ''link->advrouter == routerId'')
      else Inr (t\<lparr>maxMessageId := maxMessageId t + 1,
                  ted := (ted t)[i := (ted t ! i)\<lparr>te_timestamp := tm, te_messageId := word_of_int (maxMessageId t + 1)\<rparr>]\<rparr>))"

end
