(* ===== verification/TED_Paths.thy ===== *)
theory TED_Paths
  imports TED_Module
begin

text \<open>
  The shortest path computation of the traffic engineering database is correct.  The algorithm is that of
  Bellman and Ford.  Its distances are double precision numbers; metrics come from integers, so that as long as their
  sum is below \<open>2 ^ 52\<close> every sum is exact and \<open>LS_INFINITY\<close> is larger than any of them.
\<close>

section \<open>Walks\<close>

text \<open>A walk is a list of edges; \<open>src\<close> and \<open>dst\<close> give the end points of an edge.\<close>

fun walk :: "('e \<Rightarrow> 'v) \<Rightarrow> ('e \<Rightarrow> 'v) \<Rightarrow> 'e set \<Rightarrow> 'v \<Rightarrow> 'e list \<Rightarrow> 'v \<Rightarrow> bool" where
  "walk src dst E u [] v \<longleftrightarrow> u = v"
| "walk src dst E u (e # es) v \<longleftrightarrow> e \<in> E \<and> src e = u \<and> walk src dst E (dst e) es v"

definition cost :: "('e \<Rightarrow> rat) \<Rightarrow> 'e list \<Rightarrow> rat" where
  "cost w es = sum_list (map w es)"

lemma cost_simps [simp]: "cost w [] = 0" "cost w (e # es) = w e + cost w es" "cost w (a @ b) = cost w a + cost w b"
  by (simp_all add: cost_def)

lemma cost_nonneg: "\<forall>e \<in> set es. 0 \<le> w e \<Longrightarrow> 0 \<le> cost w es"
  by (induction es) auto

lemma walk_append: "walk src dst E u (a @ b) v \<longleftrightarrow> (\<exists>x. walk src dst E u a x \<and> walk src dst E x b v)"
  by (induction a arbitrary: u) auto

lemma walk_edges: "walk src dst E u es v \<Longrightarrow> set es \<subseteq> E"
  by (induction es arbitrary: u) auto

text \<open>The vertex a walk has reached after some edges.\<close>

definition reached :: "('e \<Rightarrow> 'v) \<Rightarrow> 'v \<Rightarrow> 'e list \<Rightarrow> 'v" where
  "reached dst u es = last (u # map dst es)"

lemma walk_reached: "walk src dst E u es v \<Longrightarrow> v = reached dst u es"
  by (induction es arbitrary: u) (auto simp: reached_def)

lemma walk_split: "walk src dst E u (a @ b) v \<Longrightarrow> walk src dst E u a (reached dst u a)"
  using walk_append walk_reached by metis

text \<open>A vertex that occurs on a walk is reached by a prefix of it.\<close>

lemma walk_visits:
  assumes "x \<in> set (u # map dst es)"
  shows "\<exists>a b. es = a @ b \<and> reached dst u a = x"
proof (cases "x = u")
  case True
  then show ?thesis by (intro exI [of _ "[]"] exI [of _ es]) (simp add: reached_def)
next
  case False
  then obtain e where "e \<in> set es" "dst e = x" using assms by auto
  then obtain a b where "es = (a @ [e]) @ b" using split_list [of e es] by auto
  moreover have "reached dst u (a @ [e]) = x" using \<open>dst e = x\<close> by (simp add: reached_def)
  ultimately show ?thesis by blast
qed

text \<open>A walk that is longer than the number of vertices can be shortened.\<close>

lemma shorten:
  assumes "walk src dst E u es v" "\<forall>e \<in> E. dst e < n \<and> 0 \<le> w e" "u < (n :: nat)"
  shows "\<exists>es'. walk src dst E u es' v \<and> length es' < n \<and> cost w es' \<le> cost w es"
  using assms(1)
proof (induction "length es" arbitrary: es rule: less_induct)
  case less
  let ?vs = "u # map dst es"
  show ?case
  proof (cases "distinct ?vs")
    case True
    have "set ?vs \<subseteq> {..<n}" using walk_edges [OF less.prems] assms(2,3) by auto
    then have "card (set ?vs) \<le> n" using card_mono [of "{..<n}" "set ?vs"] by simp
    then have "length es < n" using distinct_card [OF True] by simp
    then show ?thesis using less.prems by blast
  next
    case False
    then obtain xs ys zs y where d: "?vs = xs @ [y] @ ys @ [y] @ zs" using not_distinct_decomp by blast
    let ?a = "take (length xs) es" and ?c = "drop (length xs + length ys + 1) es"
    have len: "length es = length xs + length ys + length zs + 1" using arg_cong [OF d, of length] by simp
    have last_take: "reached dst u (take k es) = ?vs ! k" if "k \<le> length es" for k
      using that by (cases k) (auto simp: reached_def last_map last_conv_nth min_def)
    have r1: "reached dst u ?a = y" using last_take [of "length xs"] len unfolding d by (simp add: nth_append)
    have r2: "reached dst u (take (length xs + length ys + 1) es) = y"
      using last_take [of "length xs + length ys + 1"] len unfolding d by (simp add: nth_append)
    have w1: "walk src dst E u ?a y" using walk_split [of src dst E u ?a "drop (length xs) es" v] less.prems r1 by simp
    have "walk src dst E u (take (length xs + length ys + 1) es @ ?c) v" using less.prems by simp
    then have w2: "walk src dst E y ?c v" using r2 walk_append walk_reached by metis
    have w: "walk src dst E u (?a @ ?c) v" using w1 w2 walk_append by metis
    have "cost w (?a @ ?c) \<le> cost w es"
    proof -
      let ?b = "drop (length xs) (take (length xs + length ys + 1) es)"
      have "es = ?a @ ?b @ ?c"
        by (metis append_take_drop_id append_assoc le_add1 min.absorb1 take_take add.assoc)
      moreover have "0 \<le> cost w ?b"
        by (rule cost_nonneg) (use walk_edges [OF less.prems] assms(2) in \<open>auto dest!: in_set_dropD in_set_takeD\<close>)
      ultimately show ?thesis by (metis cost_simps(3) add_le_cancel_left le_add_same_cancel2)
    qed
    moreover have "length (?a @ ?c) < length es" using len by simp
    ultimately show ?thesis using less.hyps [OF _ w] by (meson order.trans)
  qed
qed

section \<open>Exact arithmetic\<close>

definition whole :: "rat \<Rightarrow> bool" where
  "whole x \<longleftrightarrow> (\<exists>k. x = of_int k)"

lemma whole_simps [simp]: "whole 0" "whole x \<Longrightarrow> whole y \<Longrightarrow> whole (x + y)" "whole (of_int k)"
  unfolding whole_def by (metis of_int_0, metis of_int_add, blast)

lemma whole_cost: "\<forall>e \<in> set es. whole (w e) \<Longrightarrow> whole (cost w es)"
  by (induction es) auto

lemma double_plus_exact:
  assumes "whole x" "whole y" "0 \<le> x" "0 \<le> y" "x + y < 2 ^ 53"
  shows "double_plus x y = x + y"
proof -
  obtain k where k: "x + y = of_int k" using whole_simps(2) [OF assms(1,2)] by (auto simp: whole_def)
  have "(0 :: rat) \<le> of_int k" "(of_int k :: rat) < of_int (2 ^ 53)" using assms(3-5) k by simp_all
  then have "0 \<le> k" "k < 2 ^ 53" by (simp_all only: of_int_0_le_iff of_int_less_iff)
  then show ?thesis unfolding double_plus_def k by (rule fl_int)
qed

lemma double_plus_infinity:
  assumes "whole y" "0 \<le> y" "y < 2 ^ 52"
  shows "LS_INFINITY \<le> double_plus LS_INFINITY y"
proof -
  obtain m where m: "y = of_int m" using assms(1) by (auto simp: whole_def)
  have "(0 :: rat) \<le> of_int m" "(of_int m :: rat) < of_int (2 ^ 52)" using assms(2,3) m by simp_all
  then have b: "0 \<le> m" "m < 2 ^ 52" by (simp_all only: of_int_0_le_iff of_int_less_iff)
  have "of_int (2 * (5 * 10 ^ 15)) \<le> fl 53 (of_int (2 * (5 * 10 ^ 15) + m))"
    by (rule fl_large) (use b in simp_all)
  then show ?thesis by (simp add: double_plus_def LS_INFINITY_def m)
qed


section \<open>The invariant of the relaxation\<close>

abbreviation vdist :: "vertex_t list \<Rightarrow> nat \<Rightarrow> rat" where "vdist vs v \<equiv> vt_dist (vs ! v)"

abbreviation ewalk :: "edge_t list \<Rightarrow> nat \<Rightarrow> edge_t list \<Rightarrow> nat \<Rightarrow> bool" where
  "ewalk E \<equiv> walk ed_src ed_dest (set E)"

text \<open>What the selection of the edges provides.\<close>

definition graph_ok :: "edge_t list \<Rightarrow> nat \<Rightarrow> bool" where
  "graph_ok E n \<longleftrightarrow> (\<forall>e \<in> set E. ed_src e < n \<and> ed_dest e < n \<and> ed_src e \<noteq> ed_dest e \<and> 0 \<le> ed_metric e \<and> whole (ed_metric e)) \<and>
     cost ed_metric E < 2 ^ 52"

text \<open>
  A walk that explains the distance of a vertex: it visits no vertex twice, and no vertex on it is farther than along
  this walk.
\<close>

definition explains :: "edge_t list \<Rightarrow> nat \<Rightarrow> vertex_t list \<Rightarrow> nat \<Rightarrow> edge_t list \<Rightarrow> bool" where
  "explains E s vs v es \<longleftrightarrow> ewalk E s es v \<and> distinct (s # map ed_dest es) \<and> cost ed_metric es = vdist vs v \<and>
     (\<forall>a b. es = a @ b \<longrightarrow> vdist vs (reached ed_dest s a) \<le> cost ed_metric a)"

definition tree :: "vertex_t list \<Rightarrow> (nat \<times> nat) set" where
  "tree vs = {(p, v). v < length vs \<and> vt_parent (vs ! v) = Some p}"

definition paths_inv :: "edge_t list \<Rightarrow> nat \<Rightarrow> vertex_t list \<Rightarrow> bool" where
  "paths_inv E s vs \<longleftrightarrow> s < length vs \<and> vdist vs s = 0 \<and> vt_parent (vs ! s) = None \<and>
     (\<forall>v < length vs. (vdist vs v = LS_INFINITY \<and> vt_parent (vs ! v) = None) \<or>
        (\<exists>es. explains E s vs v es) \<and> (v \<noteq> s \<longrightarrow> vt_parent (vs ! v) \<noteq> None)) \<and>
     (\<forall>v < length vs. \<forall>p. vt_parent (vs ! v) = Some p \<longrightarrow>
        (\<exists>e \<in> set E. ed_src e = p \<and> ed_dest e = v \<and> vdist vs p + ed_metric e \<le> vdist vs v)) \<and>
     acyclic (tree vs)"

lemma graph_okD:
  assumes "graph_ok E n" "e \<in> set E"
  shows "ed_src e < n" "ed_dest e < n" "ed_src e \<noteq> ed_dest e" "0 \<le> ed_metric e" "whole (ed_metric e)" "ed_metric e < 2 ^ 52"
proof -
  show c: "ed_src e < n" "ed_dest e < n" "ed_src e \<noteq> ed_dest e" "0 \<le> ed_metric e" "whole (ed_metric e)"
    using assms by (auto simp: graph_ok_def)
  obtain a b where E: "E = a @ e # b" using split_list [OF assms(2)] by blast
  have "0 \<le> cost ed_metric a" "0 \<le> cost ed_metric b" using assms(1) by (auto simp: graph_ok_def E intro!: cost_nonneg)
  then have "ed_metric e \<le> cost ed_metric E" by (simp add: E)
  then show "ed_metric e < 2 ^ 52" using assms(1) by (simp add: graph_ok_def)
qed

lemma distinct_cost:
  assumes "graph_ok E n" "distinct es" "set es \<subseteq> set E"
  shows "cost ed_metric es \<le> cost ed_metric E"
proof -
  have nn: "\<forall>e \<in> set E. 0 \<le> ed_metric e" using graph_okD(4) [OF assms(1)] by blast
  have "cost ed_metric es = (\<Sum>e \<in> set es. ed_metric e)" using assms(2) by (simp add: cost_def sum_list_distinct_conv_sum_set)
  also have "\<dots> \<le> (\<Sum>e \<in> set E. ed_metric e)" using assms(3) nn by (intro sum_mono2) auto
  also have "\<dots> \<le> cost ed_metric E" using nn
  proof (induction E)
    case (Cons e E)
    then show ?case by (cases "e \<in> set E") (auto simp: insert_absorb)
  qed simp
  finally show ?thesis .
qed

lemma explains_bounds:
  assumes "graph_ok E n" "explains E s vs v es"
  shows "whole (vdist vs v)" "0 \<le> vdist vs v" "vdist vs v < 2 ^ 52"
proof -
  have w: "ewalk E s es v" "distinct (s # map ed_dest es)" and c: "cost ed_metric es = vdist vs v"
    using assms(2) by (auto simp: explains_def)
  have sub: "set es \<subseteq> set E" by (rule walk_edges [OF w(1)])
  have "distinct es" using w(2) by (simp add: distinct_map)
  then have "cost ed_metric es \<le> cost ed_metric E" by (rule distinct_cost [OF assms(1) _ sub])
  then show "vdist vs v < 2 ^ 52" using assms(1) c by (simp add: graph_ok_def)
  have "\<forall>e \<in> set es. whole (ed_metric e)" "\<forall>e \<in> set es. 0 \<le> ed_metric e" using sub graph_okD(4,5) [OF assms(1)] by blast+
  then show "whole (vdist vs v)" "0 \<le> vdist vs v" unfolding c [symmetric] using whole_cost cost_nonneg by blast+
qed

lemma LS_INFINITY_large: "(2 :: rat) ^ 52 < LS_INFINITY"
  by (simp add: LS_INFINITY_def)

lemma paths_invD:
  assumes "paths_inv E s vs"
  shows "s < length vs" "vdist vs s = 0" "vt_parent (vs ! s) = None"
    "v < length vs \<Longrightarrow> (vdist vs v = LS_INFINITY \<and> vt_parent (vs ! v) = None) \<or> (\<exists>es. explains E s vs v es) \<and> (v \<noteq> s \<longrightarrow> vt_parent (vs ! v) \<noteq> None)"
    "v < length vs \<Longrightarrow> vt_parent (vs ! v) = Some p \<Longrightarrow> \<exists>e \<in> set E. ed_src e = p \<and> ed_dest e = v \<and> vdist vs p + ed_metric e \<le> vdist vs v"
    "acyclic (tree vs)"
  using assms unfolding paths_inv_def by simp_all

lemma dist_bounds:
  assumes "graph_ok E n" "paths_inv E s vs" "v < length vs"
  shows "0 \<le> vdist vs v" "vdist vs v \<le> LS_INFINITY" "vdist vs v \<noteq> LS_INFINITY \<longleftrightarrow> vdist vs v < 2 ^ 52"
    "vdist vs v \<noteq> LS_INFINITY \<longleftrightarrow> (\<exists>es. explains E s vs v es)"
proof -
  have i: "(0 :: rat) < LS_INFINITY" "(2 :: rat) ^ 52 < LS_INFINITY" by (simp_all add: LS_INFINITY_def)
  consider "vdist vs v = LS_INFINITY" | es where "explains E s vs v es" using paths_invD(4) [OF assms(2,3)] by blast
  note cs = this
  have "0 \<le> vdist vs v \<and> vdist vs v \<le> LS_INFINITY \<and> (vdist vs v \<noteq> LS_INFINITY \<longleftrightarrow> vdist vs v < 2 ^ 52)"
    using cs
  proof cases
    case 1
    show ?thesis unfolding 1 using i by auto
  next
    case (2 es)
    note b = explains_bounds [OF assms(1) 2]
    have "vdist vs v < LS_INFINITY" using b(3) i(2) by (rule less_trans)
    then show ?thesis using b by auto
  qed
  then show "0 \<le> vdist vs v" "vdist vs v \<le> LS_INFINITY" "vdist vs v \<noteq> LS_INFINITY \<longleftrightarrow> vdist vs v < 2 ^ 52" by blast+
  have "vdist vs v \<noteq> LS_INFINITY" if "explains E s vs v es" for es
    using less_trans [OF explains_bounds(3) [OF assms(1) that] i(2)] by auto
  then show "vdist vs v \<noteq> LS_INFINITY \<longleftrightarrow> (\<exists>es. explains E s vs v es)" using cs by blast
qed

text \<open>Along the tree the distances grow.\<close>

lemma tree_dist:
  assumes "graph_ok E n" "paths_inv E s vs" "(p, v) \<in> (tree vs)\<^sup>*"
  shows "vdist vs p \<le> vdist vs v"
  using assms(3)
proof (induction rule: rtrancl_induct)
  case (step y z)
  then have "z < length vs" "vt_parent (vs ! z) = Some y" by (auto simp: tree_def)
  then obtain e where "e \<in> set E" "vdist vs y + ed_metric e \<le> vdist vs z" using paths_invD(5) [OF assms(2)] by blast
  then show ?case using step.IH graph_okD(4) [OF assms(1)] by force
qed simp


section \<open>One edge\<close>

lemma explains_mono:
  assumes "explains E s vs x es" "\<forall>y. vdist vs' y \<le> vdist vs y" "vdist vs' x = vdist vs x"
  shows "explains E s vs' x es"
  using assms unfolding explains_def by (metis order.trans)

lemma explains_extend:
  assumes "graph_ok E (length vs)" "explains E s vs u es" "e \<in> set E" "ed_src e = u" "ed_dest e = v"
    and "vdist vs u + ed_metric e < vdist vs v" "\<forall>y. vdist vs' y \<le> vdist vs y" "vdist vs' v = vdist vs u + ed_metric e"
  shows "explains E s vs' v (es @ [e])"
proof -
  have x: "ewalk E s es u" "distinct (s # map ed_dest es)" "cost ed_metric es = vdist vs u"
    "\<forall>a b. es = a @ b \<longrightarrow> vdist vs (reached ed_dest s a) \<le> cost ed_metric a"
    using assms(2) by (auto simp: explains_def)
  have nn: "0 \<le> ed_metric f" if "f \<in> set E" for f using graph_okD(4) [OF assms(1) that] .
  have "v \<notin> set (s # map ed_dest es)"
  proof
    assume "v \<in> set (s # map ed_dest es)"
    then obtain a b where ab: "es = a @ b" "reached ed_dest s a = v" using walk_visits by metis
    then have "vdist vs v \<le> cost ed_metric a" using x(4) by metis
    moreover have "0 \<le> cost ed_metric b" using nn walk_edges [OF x(1)] ab(1) by (intro cost_nonneg) auto
    ultimately have "vdist vs v \<le> vdist vs u" using x(3) ab(1) by simp
    then show False using assms(6) nn [OF assms(3)] by simp
  qed
  then have "distinct (s # map ed_dest (es @ [e]))" using x(2) assms(5) by auto
  moreover have "ewalk E s (es @ [e]) v" using x(1) assms(3-5) by (auto simp: walk_append)
  moreover have "vdist vs' (reached ed_dest s a) \<le> cost ed_metric a" if ab: "es @ [e] = a @ b" for a b
  proof (cases "b = []")
    case True
    then show ?thesis using ab x(3) assms(5,8) by (auto simp: reached_def)
  next
    case False
    then have "es = a @ butlast b" using ab by (metis butlast_append butlast_snoc)
    then have "vdist vs (reached ed_dest s a) \<le> cost ed_metric a" using x(4) by blast
    then show ?thesis using assms(7) by (meson order.trans)
  qed
  ultimately show ?thesis using x(3) assms(8) by (simp add: explains_def)
qed

lemma update_inv:
  assumes "graph_ok E (length vs)" "paths_inv E s vs" "e \<in> set E" "vdist vs (ed_src e) \<noteq> LS_INFINITY"
    and "vdist vs (ed_src e) + ed_metric e < vdist vs (ed_dest e)"
  shows "paths_inv E s (vs[ed_dest e := (vs ! ed_dest e)\<lparr>vt_dist := vdist vs (ed_src e) + ed_metric e, vt_parent := Some (ed_src e)\<rparr>])"
proof -
  let ?u = "ed_src e" and ?v = "ed_dest e"
  define vs' where "vs' = vs[?v := (vs ! ?v)\<lparr>vt_dist := vdist vs ?u + ed_metric e, vt_parent := Some ?u\<rparr>]"
  note g = graph_okD [OF assms(1,3)]
  have d': "vdist vs' y = (if y = ?v then vdist vs ?u + ed_metric e else vdist vs y)"
    and p': "vt_parent (vs' ! y) = (if y = ?v then Some ?u else vt_parent (vs ! y))" for y
    using g(2) by (simp_all add: vs'_def nth_list_update)
  have len: "length vs' = length vs" by (simp add: vs'_def)
  have le: "\<forall>y. vdist vs' y \<le> vdist vs y" using assms(5) by (simp add: d')
  have u0: "0 \<le> vdist vs ?u" using dist_bounds(1) [OF assms(1,2) g(1)] .
  have vs: "?v \<noteq> s" using assms(5) u0 g(4) paths_invD(2) [OF assms(2)] by auto
  obtain es where es: "explains E s vs ?u es" using dist_bounds(4) [OF assms(1,2) g(1)] assms(4) by blast
  have sub: "tree vs' \<subseteq> insert (?u, ?v) (tree vs)" using len by (auto simp: tree_def p' split: if_splits)
  have "(?v, ?u) \<notin> (tree vs)\<^sup>*" using tree_dist [OF assms(1,2), of ?v ?u] assms(5) g(4) by auto
  then have "acyclic (insert (?u, ?v) (tree vs))" using paths_invD(6) [OF assms(2)] by (simp add: acyclic_insert)
  then have "acyclic (tree vs')" using sub by (rule acyclic_subset)
  moreover have "\<exists>e' \<in> set E. ed_src e' = p \<and> ed_dest e' = y \<and> vdist vs' p + ed_metric e' \<le> vdist vs' y"
    if y: "y < length vs'" "vt_parent (vs' ! y) = Some p" for y p
  proof (cases "y = ?v")
    case True
    then have "p = ?u" using y(2) p' by simp
    then show ?thesis using True assms(3) d' [of ?u] d' [of ?v] g(3) by auto
  next
    case False
    then obtain e' where "e' \<in> set E" "ed_src e' = p" "ed_dest e' = y" "vdist vs p + ed_metric e' \<le> vdist vs y"
      using paths_invD(5) [OF assms(2)] y p' len by auto
    then show ?thesis using le False d' [of y] by (smt (verit) add_right_mono order.trans)
  qed
  moreover have "(vdist vs' y = LS_INFINITY \<and> vt_parent (vs' ! y) = None) \<or> (\<exists>es. explains E s vs' y es) \<and> (y \<noteq> s \<longrightarrow> vt_parent (vs' ! y) \<noteq> None)"
    if y: "y < length vs'" for y
  proof (cases "y = ?v")
    case True
    then show ?thesis
      using explains_extend [OF assms(1) es assms(3) refl refl assms(5) le] d' [of ?v] p' [of ?v] by auto
  next
    case False
    have "y < length vs" using y by (simp add: vs'_def)
    from paths_invD(4) [OF assms(2) this] show ?thesis
      using explains_mono [OF _ le, of E s y] False d' [of y] p' [of y] by auto
  qed
  moreover have "s < length vs'" "vdist vs' s = 0" "vt_parent (vs' ! s) = None"
    using paths_invD(1-3) [OF assms(2)] vs d' p' by (simp_all add: vs'_def)
  ultimately show ?thesis unfolding vs'_def [symmetric] paths_inv_def by blast
qed

definition relaxed :: "vertex_t list \<Rightarrow> vertex_t list \<Rightarrow> bool" where
  "relaxed vs vs' \<longleftrightarrow> length vs' = length vs \<and> map vt_node vs' = map vt_node vs \<and> (\<forall>y. vdist vs' y \<le> vdist vs y)"

lemma relaxed_refl [simp]: "relaxed vs vs"
  by (simp add: relaxed_def)

lemma relaxed_trans: "relaxed a b \<Longrightarrow> relaxed b c \<Longrightarrow> relaxed a c"
  unfolding relaxed_def by (metis order.trans)

lemma relaxEdge_step:
  assumes "graph_ok E (length vs)" "paths_inv E s vs" "e \<in> set E"
  shows "\<exists>c' vs'. relaxEdge e (c, vs) = Inr (c', vs') \<and> paths_inv E s vs' \<and> relaxed vs vs' \<and>
    vdist vs' (ed_dest e) \<le> vdist vs (ed_src e) + ed_metric e \<and> (\<not> c' \<longrightarrow> \<not> c \<and> vs' = vs)"
proof -
  let ?u = "ed_src e" and ?v = "ed_dest e"
  note g = graph_okD [OF assms(1,3)]
  have v: "vdist vs ?v \<le> LS_INFINITY" by (rule dist_bounds(2) [OF assms(1,2) g(2)])
  consider (inf) "vdist vs ?u = LS_INFINITY" | (keep) "vdist vs ?u \<noteq> LS_INFINITY" "vdist vs ?v \<le> vdist vs ?u + ed_metric e"
    | (upd) "vdist vs ?u \<noteq> LS_INFINITY" "vdist vs ?u + ed_metric e < vdist vs ?v" by fastforce
  then show ?thesis
  proof cases
    case inf
    then have "vdist vs ?v \<le> double_plus (vdist vs ?u) (ed_metric e)"
      using double_plus_infinity [OF g(5,4,6)] v by simp
    then have "relaxEdge e (c, vs) = Inr (c, vs)" using g by (simp add: relaxEdge_def)
    moreover have "vdist vs ?v \<le> vdist vs ?u + ed_metric e" using inf v g(4) by simp
    ultimately show ?thesis using assms(2) by auto
  next
    case keep
    obtain es where es: "explains E s vs ?u es" using dist_bounds(4) [OF assms(1,2) g(1)] keep(1) by blast
    note b = explains_bounds [OF assms(1) es]
    have "double_plus (vdist vs ?u) (ed_metric e) = vdist vs ?u + ed_metric e"
      by (rule double_plus_exact) (use b g(4-6) in auto)
    then have "relaxEdge e (c, vs) = Inr (c, vs)" using g keep(2) by (simp add: relaxEdge_def)
    then show ?thesis using assms(2) keep(2) by auto
  next
    case upd
    obtain es where es: "explains E s vs ?u es" using dist_bounds(4) [OF assms(1,2) g(1)] upd(1) by blast
    note b = explains_bounds [OF assms(1) es]
    let ?vs = "vs[?v := (vs ! ?v)\<lparr>vt_dist := vdist vs ?u + ed_metric e, vt_parent := Some ?u\<rparr>]"
    have "double_plus (vdist vs ?u) (ed_metric e) = vdist vs ?u + ed_metric e"
      by (rule double_plus_exact) (use b g(4-6) in auto)
    then have "relaxEdge e (c, vs) = Inr (True, ?vs)" using g upd(2) by (simp add: relaxEdge_def Let_def)
    moreover have "paths_inv E s ?vs" by (rule update_inv [OF assms upd])
    moreover have "relaxed vs ?vs" using upd(2) g(2) by (auto simp: relaxed_def nth_list_update map_update list_update_same_conv)
    moreover have "vdist ?vs ?v \<le> vdist vs ?u + ed_metric e" using g(2) by simp
    ultimately show ?thesis by auto
  qed
qed


section \<open>Passes over the edges\<close>

lemma relaxAll_step:
  assumes "graph_ok E (length vs)" "paths_inv E s vs" "set es \<subseteq> set E"
  shows "\<exists>c' vs'. relaxAll es (c, vs) = Inr (c', vs') \<and> paths_inv E s vs' \<and> relaxed vs vs' \<and>
    (\<forall>e \<in> set es. vdist vs' (ed_dest e) \<le> vdist vs (ed_src e) + ed_metric e) \<and> (\<not> c' \<longrightarrow> \<not> c \<and> vs' = vs)"
  using assms
proof (induction es arbitrary: c vs)
  case (Cons e es)
  obtain c1 vs1 where 1: "relaxEdge e (c, vs) = Inr (c1, vs1)" "paths_inv E s vs1" "relaxed vs vs1"
    "vdist vs1 (ed_dest e) \<le> vdist vs (ed_src e) + ed_metric e" "\<not> c1 \<longrightarrow> \<not> c \<and> vs1 = vs"
    using relaxEdge_step [OF Cons.prems(1,2), of e c] Cons.prems(3) by auto
  have "graph_ok E (length vs1)" "set es \<subseteq> set E" using Cons.prems(1,3) 1(3) by (simp_all add: relaxed_def)
  then obtain c2 vs2 where 2: "relaxAll es (c1, vs1) = Inr (c2, vs2)" "paths_inv E s vs2" "relaxed vs1 vs2"
    "\<forall>e \<in> set es. vdist vs2 (ed_dest e) \<le> vdist vs1 (ed_src e) + ed_metric e" "\<not> c2 \<longrightarrow> \<not> c1 \<and> vs2 = vs1"
    using Cons.IH [OF _ 1(2), of c1] by blast
  have "vdist vs2 (ed_dest f) \<le> vdist vs (ed_src f) + ed_metric f" if "f \<in> set (e # es)" for f
  proof (cases "f \<in> set es")
    case True
    have "vdist vs1 (ed_src f) \<le> vdist vs (ed_src f)" using 1(3) by (simp add: relaxed_def)
    then show ?thesis using 2(4) True by (metis add_right_mono order.trans)
  next
    case False
    then have "f = e" using that by simp
    moreover have "vdist vs2 (ed_dest e) \<le> vdist vs1 (ed_dest e)" using 2(3) by (simp add: relaxed_def)
    ultimately show ?thesis using 1(4) by simp
  qed
  moreover have "relaxAll (e # es) (c, vs) = Inr (c2, vs2)" using 1(1) 2(1) by simp
  moreover have "relaxed vs vs2" using 1(3) 2(3) by (rule relaxed_trans)
  ultimately show ?case using 1(5) 2(2,5) by blast
qed simp

text \<open>After \<open>k\<close> passes the distances are at most the costs of walks with \<open>k\<close> edges.\<close>

definition opt :: "edge_t list \<Rightarrow> nat \<Rightarrow> nat \<Rightarrow> vertex_t list \<Rightarrow> bool" where
  "opt E s k vs \<longleftrightarrow> (\<forall>es v. ewalk E s es v \<and> length es \<le> k \<longrightarrow> vdist vs v \<le> cost ed_metric es)"

lemma opt_pass:
  assumes "opt E s k vs" "paths_inv E s vs'" "\<forall>e \<in> set E. vdist vs' (ed_dest e) \<le> vdist vs (ed_src e) + ed_metric e"
  shows "opt E s (Suc k) vs'"
  unfolding opt_def
proof (intro allI impI, elim conjE)
  fix es v
  assume es: "ewalk E s es v" "length es \<le> Suc k"
  show "vdist vs' v \<le> cost ed_metric es"
  proof (cases es rule: rev_cases)
    case Nil
    then show ?thesis using es(1) paths_invD(2) [OF assms(2)] by simp
  next
    case (snoc as e)
    then have e: "ewalk E s as (ed_src e)" "e \<in> set E" "v = ed_dest e" using es(1) by (auto simp: walk_append)
    have "vdist vs (ed_src e) \<le> cost ed_metric as" using assms(1) e(1) es(2) snoc by (simp add: opt_def)
    then show ?thesis using assms(3) e(2,3) snoc by fastforce
  qed
qed

lemma opt_fixpoint:
  assumes "paths_inv E s vs" "\<forall>e \<in> set E. vdist vs (ed_dest e) \<le> vdist vs (ed_src e) + ed_metric e"
  shows "opt E s k vs"
proof (induction k)
  case 0
  then show ?case using paths_invD(2) [OF assms(1)] by (auto simp: opt_def)
qed (rule opt_pass [OF _ assms])

lemma relaxRounds_step:
  assumes "graph_ok E (length vs)" "paths_inv E s vs" "opt E s k vs"
  shows "\<exists>vs'. relaxRounds n E vs = Inr vs' \<and> paths_inv E s vs' \<and> relaxed vs vs' \<and> (opt E s (k + n) vs' \<or> (\<forall>j. opt E s j vs'))"
  using assms
proof (induction n arbitrary: k vs)
  case (Suc n)
  obtain c vs1 where 1: "relaxAll E (False, vs) = Inr (c, vs1)" "paths_inv E s vs1" "relaxed vs vs1"
    "\<forall>e \<in> set E. vdist vs1 (ed_dest e) \<le> vdist vs (ed_src e) + ed_metric e" "\<not> c \<longrightarrow> vs1 = vs"
    using relaxAll_step [OF Suc.prems(1,2) subset_refl, of False] by blast
  show ?case
  proof (cases c)
    case False
    then have "\<forall>j. opt E s j vs1" using 1(5) opt_fixpoint [OF 1(2)] 1(4) by simp
    then show ?thesis using 1(1-3) False by simp
  next
    case True
    have "graph_ok E (length vs1)" using Suc.prems(1) 1(3) by (simp add: relaxed_def)
    then obtain vs2 where "relaxRounds n E vs1 = Inr vs2" "paths_inv E s vs2" "relaxed vs1 vs2"
      "opt E s (Suc k + n) vs2 \<or> (\<forall>j. opt E s j vs2)"
      using Suc.IH [OF _ 1(2) opt_pass [OF Suc.prems(3) 1(2,4)]] by blast
    then show ?thesis using 1(1,3) True relaxed_trans by auto
  qed
qed simp

lemma relaxRounds_optimal:
  assumes "graph_ok E (length vs)" "paths_inv E s vs"
  shows "\<exists>vs'. relaxRounds (length vs - 1) E vs = Inr vs' \<and> paths_inv E s vs' \<and> relaxed vs vs' \<and>
    (\<forall>es v. ewalk E s es v \<longrightarrow> vdist vs' v \<le> cost ed_metric es)"
proof -
  have z: "opt E s 0 vs" using paths_invD(2) [OF assms(2)] by (auto simp: opt_def)
  obtain vs' where r: "relaxRounds (length vs - 1) E vs = Inr vs'" "paths_inv E s vs'" "relaxed vs vs'"
    "opt E s (0 + (length vs - 1)) vs' \<or> (\<forall>j. opt E s j vs')"
    using relaxRounds_step [OF assms z] by blast
  have "vdist vs' v \<le> cost ed_metric es" if w: "ewalk E s es v" for es v
  proof -
    have "\<forall>e \<in> set E. ed_dest e < length vs \<and> 0 \<le> ed_metric e" using assms(1) by (auto simp: graph_ok_def)
    then obtain es' where es': "ewalk E s es' v" "length es' < length vs" "cost ed_metric es' \<le> cost ed_metric es"
      using shorten [OF w _ paths_invD(1) [OF assms(2)]] by blast
    have "length es' \<le> length vs - 1" using es'(2) by simp
    then have "vdist vs' v \<le> cost ed_metric es'" using r(4) es'(1) unfolding opt_def by auto
    then show ?thesis using es'(3) by simp
  qed
  then show ?thesis using r(1-3) by blast
qed

section \<open>The tree of parents\<close>

text \<open>At the end the tree consists of edges of shortest paths, and the way back along it ends at the source.\<close>

definition ancestors :: "vertex_t list \<Rightarrow> nat \<Rightarrow> nat set" where
  "ancestors vs v = {p. (p, v) \<in> (tree vs)\<^sup>+}"

lemma ancestors_fuel:
  assumes "graph_ok E (length vs)" "paths_inv E s vs" "v < length vs"
  shows "card (ancestors vs v) < length vs" "finite (ancestors vs v)"
    and "vt_parent (vs ! v) = Some p \<Longrightarrow> p < length vs \<and> card (ancestors vs p) < card (ancestors vs v)"
proof -
  have par: "p < length vs" if "(p, y) \<in> tree vs" for p y
    using that paths_invD(5) [OF assms(2)] graph_okD(1) [OF assms(1)] by (auto simp: tree_def)
  have anc: "ancestors vs y \<subseteq> {..<length vs}" for y
    using par by (auto simp: ancestors_def dest: tranclD)
  have self: "y \<notin> ancestors vs y" for y using paths_invD(6) [OF assms(2)] by (auto simp: ancestors_def acyclic_def)
  show fin: "finite (ancestors vs v)" for v using anc finite_subset by blast
  have "ancestors vs v \<subset> {..<length vs}" using anc self assms(3) by blast
  then show "card (ancestors vs v) < length vs" using psubset_card_mono [of "{..<length vs}"] by simp
  show "vt_parent (vs ! v) = Some p \<Longrightarrow> p < length vs \<and> card (ancestors vs p) < card (ancestors vs v)"
  proof -
    assume "vt_parent (vs ! v) = Some p"
    then have e: "(p, v) \<in> tree vs" using assms(3) by (simp add: tree_def)
    have "ancestors vs p \<subseteq> ancestors vs v" "p \<in> ancestors vs v" using e by (auto simp: ancestors_def)
    then have "ancestors vs p \<subset> ancestors vs v" using self by blast
    then show ?thesis using psubset_card_mono [OF fin] par [OF e] by blast
  qed
qed

lemma tight:
  assumes "graph_ok E (length vs)" "paths_inv E s vs" "\<forall>es v. ewalk E s es v \<longrightarrow> vdist vs v \<le> cost ed_metric es"
    and "v < length vs" "vt_parent (vs ! v) = Some p"
  shows "\<exists>e \<in> set E. ed_src e = p \<and> ed_dest e = v \<and> vdist vs v = vdist vs p + ed_metric e \<and> vdist vs p \<noteq> LS_INFINITY"
proof -
  obtain e where e: "e \<in> set E" "ed_src e = p" "ed_dest e = v" "vdist vs p + ed_metric e \<le> vdist vs v"
    using paths_invD(5) [OF assms(2,4,5)] by blast
  note g = graph_okD [OF assms(1) e(1)]
  have "vdist vs v \<noteq> LS_INFINITY" using paths_invD(4) [OF assms(2,4)] assms(5) dist_bounds(4) [OF assms(1,2,4)] by auto
  then have "vdist vs v < 2 ^ 52" using dist_bounds(3) [OF assms(1,2,4)] by blast
  then have "vdist vs p < 2 ^ 52" using e(4) g(4) by linarith
  then have p: "vdist vs p \<noteq> LS_INFINITY" using dist_bounds(3) [OF assms(1,2)] g(1) e(2) by blast
  then obtain es where "explains E s vs p es" using dist_bounds(4) [OF assms(1,2)] g(1) e(2) by blast
  then have "ewalk E s es p" "cost ed_metric es = vdist vs p" by (simp_all add: explains_def)
  moreover from this have "ewalk E s (es @ [e]) v" using e by (auto simp: walk_append)
  ultimately have "vdist vs v \<le> vdist vs p + ed_metric e" using assms(3) by fastforce
  then show ?thesis using e p by force
qed

lemma walkParents_path:
  assumes "graph_ok E (length vs)" "paths_inv E s vs" "\<forall>es v. ewalk E s es v \<longrightarrow> vdist vs v \<le> cost ed_metric es"
    and "v < length vs" "vdist vs v \<noteq> LS_INFINITY" "card (ancestors vs v) \<le> fuel"
  shows "\<exists>es. ewalk E s es v \<and> cost ed_metric es = vdist vs v \<and>
    walkParents fuel vs v (vt_node (vs ! v) # acc) = Inr (vt_node (vs ! s) # map (\<lambda>e. vt_node (vs ! ed_dest e)) es @ acc)"
  using assms(4-6)
proof (induction fuel arbitrary: v acc)
  case 0
  have "vt_parent (vs ! v) = None"
    using ancestors_fuel(3) [OF assms(1,2) 0(1)] 0(3) by (cases "vt_parent (vs ! v)") auto
  moreover from this have "v = s" using paths_invD(4) [OF assms(2) 0(1)] 0(2) by auto
  ultimately show ?case using paths_invD(2) [OF assms(2)] by (intro exI [of _ "[]"]) (simp add: walkParents.simps)
next
  case (Suc fuel)
  show ?case
  proof (cases "vt_parent (vs ! v)")
    case None
    then have "v = s" using paths_invD(4) [OF assms(2) Suc.prems(1)] Suc.prems(2) by auto
    then show ?thesis using None paths_invD(2) [OF assms(2)] by (intro exI [of _ "[]"]) (simp add: walkParents.simps)
  next
    case (Some p)
    obtain e where e: "e \<in> set E" "ed_src e = p" "ed_dest e = v" "vdist vs v = vdist vs p + ed_metric e" "vdist vs p \<noteq> LS_INFINITY"
      using tight [OF assms(1-3) Suc.prems(1) Some] by blast
    have p: "p < length vs" "card (ancestors vs p) \<le> fuel"
      using ancestors_fuel(3) [OF assms(1,2) Suc.prems(1) Some] Suc.prems(3) by auto
    obtain es where es: "ewalk E s es p" "cost ed_metric es = vdist vs p"
      "walkParents fuel vs p (vt_node (vs ! p) # vt_node (vs ! v) # acc) =
        Inr (vt_node (vs ! s) # map (\<lambda>e. vt_node (vs ! ed_dest e)) es @ vt_node (vs ! v) # acc)"
      using Suc.IH [OF p(1) e(5) p(2), of "vt_node (vs ! v) # acc"] by blast
    have "ewalk E s (es @ [e]) v" using es(1) e by (auto simp: walk_append)
    then show ?thesis
      using es(2,3) e(3,4) Some by (intro exI [of _ "es @ [e]"]) (simp add: walkParents.simps [of "Suc fuel"])
  qed
qed

end
