(* ===== verification/TED_Routes.thy ===== *)
theory TED_Routes
  imports TED_Paths
begin

text \<open>
  From the vertices and edges of the shortest path computation back to the links of the database: the paths that are
  computed are cheapest paths over the links that have the bandwidth asked for.
\<close>

section \<open>Vertices and edges for the links\<close>

definition usable :: "rat \<Rightarrow> int \<Rightarrow> TELinkStateInfo \<Rightarrow> bool" where
  "usable bw priority l \<longleftrightarrow> te_state l \<and> bw \<le> te_UnResvBandwidth l ! nat priority"

definition topology_ok :: "TELinkStateInfo list \<Rightarrow> int \<Rightarrow> bool" where
  "topology_ok ls priority \<longleftrightarrow> 0 \<le> priority \<and> priority < 8 \<and> cost te_metric ls < 2 ^ 52 \<and>
     (\<forall>l \<in> set ls. length (te_UnResvBandwidth l) = 8 \<and> te_advrouter l \<noteq> te_linkid l \<and> 0 \<le> te_metric l \<and> whole (te_metric l))"

definition edge_for :: "IPAddress list \<Rightarrow> edge_t \<Rightarrow> TELinkStateInfo \<Rightarrow> bool" where
  "edge_for ns e l \<longleftrightarrow> ed_src e < length ns \<and> ed_dest e < length ns \<and> ns ! ed_src e = te_advrouter l \<and>
     ns ! ed_dest e = te_linkid l \<and> ed_metric e = te_metric l"

definition fresh :: "vertex_t list \<Rightarrow> bool" where
  "fresh vs \<longleftrightarrow> distinct (map vt_node vs) \<and> (\<forall>v \<in> set vs. vt_dist v = LS_INFINITY \<and> vt_parent v = None)"

lemma edge_for_append: "edge_for ns e l \<Longrightarrow> edge_for (ns @ ms) e l"
  by (auto simp: edge_for_def nth_append)

lemma findNode_spec:
  "findNode i a vs = Some k \<Longrightarrow> i \<le> k \<and> k - i < length vs \<and> vt_node (vs ! (k - i)) = a"
  "findNode i a vs = None \<Longrightarrow> a \<notin> set (map vt_node vs)"
proof (induction vs arbitrary: i)
  case (Cons v vs)
  {
    case 1
    show ?case
    proof (cases "vt_node v = a")
      case False
      then have "findNode (Suc i) a vs = Some k" using 1 by simp
      note IH = Cons.IH(1) [OF this]
      then have "k - i = Suc (k - Suc i)" by linarith
      then show ?thesis using IH by simp
    qed (use 1 in auto)
  next
    case 2
    then show ?case using Cons.IH(2) [of "Suc i"] by (auto split: if_splits)
  }
qed auto

lemma assignIndex_spec:
  assumes "assignIndex vs a = (k, vs')" "fresh vs"
  shows "k < length vs'" "vt_node (vs' ! k) = a" "\<exists>xs. vs' = vs @ xs" "fresh vs'"
  using assms findNode_spec [of 0 a vs] by (auto simp: assignIndex_def fresh_def nth_append split: option.splits)

lemma selectEdges_spec:
  assumes "fresh vs" "0 \<le> priority" "priority < 8" "\<forall>l \<in> set ls. length (te_UnResvBandwidth l) = 8"
  shows "\<exists>vs' es'. selectEdges ls bw priority (vs, es) = Inr (vs', es @ es') \<and> (\<exists>xs. vs' = vs @ xs) \<and> fresh vs' \<and>
    list_all2 (edge_for (map vt_node vs')) es' (filter (usable bw priority) ls)"
  using assms(1,4)
proof (induction ls arbitrary: vs es)
  case (Cons l ls)
  have bw: "unresvBandwidth l priority = Inr (te_UnResvBandwidth l ! nat priority)"
    using Cons.prems(2) assms(2,3) by (simp add: unresvBandwidth_def)
  have ls: "\<forall>l \<in> set ls. length (te_UnResvBandwidth l) = 8" using Cons.prems(2) by simp
  show ?case
  proof (cases "usable bw priority l")
    case False
    then have "selectEdges (l # ls) bw priority (vs, es) = selectEdges ls bw priority (vs, es)"
      using bw by (auto simp: usable_def not_le)
    then show ?thesis using Cons.IH [OF Cons.prems(1) ls, of es] False by simp
  next
    case True
    obtain s v1 d v2 where a: "assignIndex vs (te_advrouter l) = (s, v1)" "assignIndex v1 (te_linkid l) = (d, v2)" by fastforce
    note s = assignIndex_spec [OF a(1) Cons.prems(1)]
    note d = assignIndex_spec [OF a(2) s(4)]
    let ?e = "\<lparr> ed_src = s, ed_dest = d, ed_metric = te_metric l \<rparr>"
    have step: "selectEdges (l # ls) bw priority (vs, es) = selectEdges ls bw priority (v2, es @ [?e])"
      using True bw a by (simp add: usable_def not_less)
    obtain vs' es' where r: "selectEdges ls bw priority (v2, es @ [?e]) = Inr (vs', (es @ [?e]) @ es')" "\<exists>xs. vs' = v2 @ xs" "fresh vs'"
      "list_all2 (edge_for (map vt_node vs')) es' (filter (usable bw priority) ls)"
      using Cons.IH [OF d(4) ls, of "es @ [?e]"] by blast
    have "edge_for (map vt_node v2) ?e l" using s d by (auto simp: edge_for_def nth_append)
    then have "edge_for (map vt_node vs') ?e l" using r(2) edge_for_append by (metis map_append)
    then have "list_all2 (edge_for (map vt_node vs')) (?e # es') (filter (usable bw priority) (l # ls))" using r(4) True by simp
    moreover have "\<exists>xs. vs' = vs @ xs" using s(3) d(3) r(2) by force
    ultimately show ?thesis using step r(1,3) by (intro exI [of _ vs'] exI [of _ "?e # es'"]) simp
  qed
qed auto

section \<open>What is computed\<close>

lemma list_all2_ex:
  assumes "list_all2 P xs ys"
  shows "x \<in> set xs \<Longrightarrow> \<exists>y \<in> set ys. P x y" "y \<in> set ys \<Longrightarrow> \<exists>x \<in> set xs. P x y"
  using assms by (induction rule: list_all2_induct) auto

lemma edge_costs: "list_all2 (edge_for ns) es ls \<Longrightarrow> cost ed_metric es = cost te_metric ls"
  by (induction rule: list_all2_induct) (auto simp: edge_for_def)

lemma cost_filter: "\<forall>l \<in> set ls. 0 \<le> te_metric l \<Longrightarrow> cost te_metric (filter P ls) \<le> cost te_metric ls"
  by (induction ls) (auto simp: add_increasing)

lemma initial_inv:
  assumes "fresh vs" "s < length vs"
  shows "paths_inv E s (vs[s := (vs ! s)\<lparr>vt_dist := 0\<rparr>])"
proof -
  let ?vs = "vs[s := (vs ! s)\<lparr>vt_dist := 0\<rparr>]"
  have f: "vt_dist (vs ! v) = LS_INFINITY" "vt_parent (vs ! v) = None" if "v < length vs" for v
    using assms(1) that by (auto simp: fresh_def)
  have p: "vt_parent (?vs ! v) = None" if "v < length vs" for v using f(2) [OF that] assms(2) by (simp add: nth_list_update)
  have "tree ?vs = {}" using p by (auto simp: tree_def)
  moreover have "explains E s ?vs s []" using assms(2) by (simp add: explains_def reached_def)
  moreover have "vdist ?vs v = LS_INFINITY" if "v < length vs" "v \<noteq> s" for v using f(1) that by simp
  ultimately have "vdist ?vs v = LS_INFINITY \<and> vt_parent (?vs ! v) = None \<or>
      (\<exists>es. explains E s ?vs v es) \<and> (v \<noteq> s \<longrightarrow> vt_parent (?vs ! v) \<noteq> None)" if "v < length ?vs" for v
    using that p [of v] by (cases "v = s") (simp_all del: nth_list_update_neq, blast?)
  moreover have "vdist ?vs s = 0" "vt_parent (?vs ! s) = None" using f(2) [OF assms(2)] assms(2) by simp_all
  moreover have "acyclic (tree ?vs)" using \<open>tree ?vs = {}\<close> by (simp add: acyclic_def)
  ultimately show ?thesis using p assms(2) unfolding paths_inv_def by (simp del: nth_list_update_eq)
qed

text \<open>The outcome of the computation, for a vertex list \<open>V\<close> with source \<open>s\<close> and edges \<open>E\<close> that stand for the usable links.\<close>

definition computed :: "IPAddress \<Rightarrow> TELinkStateInfo list \<Rightarrow> vertex_t list \<Rightarrow> nat \<Rightarrow> edge_t list \<Rightarrow> bool" where
  "computed rid L V s E \<longleftrightarrow> distinct (map vt_node V) \<and> vt_node (V ! s) = rid \<and> list_all2 (edge_for (map vt_node V)) E L \<and>
     graph_ok E (length V) \<and> paths_inv E s V \<and> (\<forall>es v. ewalk E s es v \<longrightarrow> vdist V v \<le> cost ed_metric es)"

lemma calculateShortestPaths_computed:
  assumes "topology_ok ls priority"
  shows "\<exists>V s E. calculateShortestPaths ls bw priority t = Inr V \<and> computed (te_routerId t) (filter (usable bw priority) ls) V s E"
proof -
  let ?L = "filter (usable bw priority) ls"
  have ok: "0 \<le> priority" "priority < 8" "\<forall>l \<in> set ls. length (te_UnResvBandwidth l) = 8"
    "\<forall>l \<in> set ls. te_advrouter l \<noteq> te_linkid l \<and> 0 \<le> te_metric l \<and> whole (te_metric l)" "cost te_metric ls < 2 ^ 52"
    using assms by (auto simp: topology_ok_def)
  have "fresh []" by (simp add: fresh_def)
  then obtain v1 E where e: "selectEdges ls bw priority ([], []) = Inr (v1, E)" "fresh v1" "list_all2 (edge_for (map vt_node v1)) E ?L"
    using selectEdges_spec [OF _ ok(1-3), of "[]" bw "[]"] by auto
  obtain s v2 where a: "assignIndex v1 (te_routerId t) = (s, v2)" by fastforce
  note s = assignIndex_spec [OF a e(2)]
  let ?vs = "v2[s := (v2 ! s)\<lparr>vt_dist := 0\<rparr>]"
  obtain xs where "v2 = v1 @ xs" using s(3) by blast
  then have E2: "list_all2 (edge_for (map vt_node v2)) E ?L"
    using e(3) edge_for_append by (auto elim!: list_all2_mono)
  have nodes: "map vt_node ?vs = map vt_node v2" using s(1) by (simp add: map_update list_update_same_conv)
  have "ed_src f < length v2 \<and> ed_dest f < length v2 \<and> ed_src f \<noteq> ed_dest f \<and> 0 \<le> ed_metric f \<and> whole (ed_metric f)" if f: "f \<in> set E" for f
  proof -
    obtain l where "l \<in> set ?L" "edge_for (map vt_node v2) f l" using list_all2_ex(1) [OF E2 f] by blast
    then show ?thesis using ok(4) by (auto simp: edge_for_def)
  qed
  moreover have "cost ed_metric E < 2 ^ 52"
    unfolding edge_costs [OF E2] using cost_filter [of ls "usable bw priority"] ok(4,5) by fastforce
  ultimately have g: "graph_ok E (length ?vs)" by (simp add: graph_ok_def)
  obtain V where V: "relaxRounds (length ?vs - 1) E ?vs = Inr V" "paths_inv E s V" "relaxed ?vs V"
    "\<forall>es v. ewalk E s es v \<longrightarrow> vdist V v \<le> cost ed_metric es"
    using relaxRounds_optimal [OF g initial_inv [OF s(4,1)]] by blast
  have n: "map vt_node V = map vt_node v2" "length V = length v2" using V(3) nodes by (simp_all add: relaxed_def)
  have "calculateShortestPaths ls bw priority t = Inr V"
    using e(1) a V(1) by (simp add: calculateShortestPaths_def)
  moreover have "vt_node (V ! s) = te_routerId t" using s(1,2) n by (metis nth_map)
  ultimately have "calculateShortestPaths ls bw priority t = Inr V \<and> computed (te_routerId t) ?L V s E"
    unfolding computed_def n(1) using s(4) E2 g V(2,4) n(2) by (simp add: fresh_def)
  then show ?thesis by blast
qed

section \<open>Routes over links\<close>

abbreviation lwalk :: "TELinkStateInfo list \<Rightarrow> IPAddress \<Rightarrow> TELinkStateInfo list \<Rightarrow> IPAddress \<Rightarrow> bool" where
  "lwalk L \<equiv> walk te_advrouter te_linkid (set L)"

lemma walk_to_route:
  assumes "list_all2 (edge_for (map vt_node V)) E L" "ewalk E u es v"
  shows "\<exists>ls. lwalk L (vt_node (V ! u)) ls (vt_node (V ! v)) \<and> cost te_metric ls = cost ed_metric es \<and>
    map te_linkid ls = map (\<lambda>e. vt_node (V ! ed_dest e)) es"
  using assms(2)
proof (induction es arbitrary: u)
  case (Cons e es)
  obtain l where l: "l \<in> set L" "edge_for (map vt_node V) e l" using list_all2_ex(1) [OF assms(1)] Cons.prems by auto
  obtain ls where "lwalk L (vt_node (V ! ed_dest e)) ls (vt_node (V ! v))" "cost te_metric ls = cost ed_metric es"
    "map te_linkid ls = map (\<lambda>e. vt_node (V ! ed_dest e)) es"
    using Cons.IH [of "ed_dest e"] Cons.prems by auto
  then show ?case using l Cons.prems by (intro exI [of _ "l # ls"]) (auto simp: edge_for_def)
qed (intro exI [of _ "[]"], simp)

lemma route_to_walk:
  assumes "list_all2 (edge_for (map vt_node V)) E L" "distinct (map vt_node V)" "lwalk L (vt_node (V ! u)) ls b" "u < length V"
  shows "\<exists>es v. ewalk E u es v \<and> v < length V \<and> vt_node (V ! v) = b \<and> cost ed_metric es = cost te_metric ls"
  using assms(3,4)
proof (induction ls arbitrary: u)
  case Nil
  then show ?case by (intro exI [of _ "[]"] exI [of _ u]) simp
next
  case (Cons l ls)
  obtain e where e: "e \<in> set E" "edge_for (map vt_node V) e l" using list_all2_ex(2) [OF assms(1)] Cons.prems by auto
  have "vt_node (V ! ed_src e) = vt_node (V ! u)" using e(2) Cons.prems by (auto simp: edge_for_def)
  then have u: "ed_src e = u" using e(2) Cons.prems(2) assms(2) by (auto simp: edge_for_def distinct_conv_nth)
  have "lwalk L (vt_node (V ! ed_dest e)) ls b" "ed_dest e < length V" using e(2) Cons.prems by (auto simp: edge_for_def)
  then obtain es v where "ewalk E (ed_dest e) es v" "v < length V" "vt_node (V ! v) = b" "cost ed_metric es = cost te_metric ls"
    using Cons.IH by blast
  then show ?case using e u by (intro exI [of _ "e # es"] exI [of _ v]) (auto simp: edge_for_def)
qed

lemma reach_finite:
  assumes "graph_ok E (length V)" "paths_inv E s V" "\<forall>es v. ewalk E s es v \<longrightarrow> vdist V v \<le> cost ed_metric es" "ewalk E s es v"
  shows "vdist V v \<noteq> LS_INFINITY \<and> v < length V"
  using assms(4)
proof (induction es arbitrary: v rule: rev_induct)
  case Nil
  then show ?case using paths_invD(1,2) [OF assms(2)] by (auto simp: LS_INFINITY_def)
next
  case (snoc e es)
  then have e: "ewalk E s es (ed_src e)" "e \<in> set E" "v = ed_dest e" by (auto simp: walk_append)
  note g = graph_okD [OF assms(1) e(2)]
  have i: "vdist V (ed_src e) \<noteq> LS_INFINITY" using snoc.IH [OF e(1)] by blast
  then obtain fs where "ewalk E s fs (ed_src e)" "cost ed_metric fs = vdist V (ed_src e)"
    using dist_bounds(4) [OF assms(1,2) g(1)] by (auto simp: explains_def)
  then have "ewalk E s (fs @ [e]) v" "cost ed_metric (fs @ [e]) = vdist V (ed_src e) + ed_metric e" using e by (auto simp: walk_append)
  then have "vdist V v \<le> vdist V (ed_src e) + ed_metric e" using assms(3) by metis
  moreover have "vdist V (ed_src e) < 2 ^ 52" using i dist_bounds(3) [OF assms(1,2) g(1)] by blast
  ultimately show ?case using g(2,6) e(3) by (auto simp: LS_INFINITY_def)
qed

section \<open>The nearest destination\<close>

lemma nearest_spec:
  assumes "nearest dest i vs (m, mi) = (m', mi')"
  shows "m' \<le> m \<and> (\<forall>v \<in> set vs. vt_node v \<in> set dest \<longrightarrow> m' \<le> vt_dist v) \<and>
    (mi' = mi \<and> m' = m \<or> (\<exists>k < length vs. mi' = Some (i + k) \<and> vt_node (vs ! k) \<in> set dest \<and> vt_dist (vs ! k) = m' \<and> m' < m))"
  using assms
proof (induction vs arbitrary: i m mi)
  case (Cons v vs)
  show ?case
  proof (cases "vt_dist v \<ge> m \<or> vt_node v \<notin> set dest")
    case True
    then have "nearest dest (Suc i) vs (m, mi) = (m', mi')" using Cons.prems by simp
    note IH = Cons.IH [OF this]
    have "mi' = mi \<and> m' = m \<or> (\<exists>k < length (v # vs). mi' = Some (i + k) \<and> vt_node ((v # vs) ! k) \<in> set dest \<and> vt_dist ((v # vs) ! k) = m' \<and> m' < m)"
      using IH by (metis add_Suc_shift length_Cons nth_Cons_Suc Suc_less_eq)
    then show ?thesis using IH True by auto
  next
    case False
    then have "nearest dest (Suc i) vs (vt_dist v, Some i) = (m', mi')" using Cons.prems by simp
    note IH = Cons.IH [OF this]
    have "\<exists>k < length (v # vs). mi' = Some (i + k) \<and> vt_node ((v # vs) ! k) \<in> set dest \<and> vt_dist ((v # vs) ! k) = m' \<and> m' < m"
    proof (cases "mi' = Some i \<and> m' = vt_dist v")
      case True
      then show ?thesis using False by (intro exI [of _ 0]) auto
    next
      case later: False
      then obtain k where "k < length vs" "mi' = Some (Suc i + k)" "vt_node (vs ! k) \<in> set dest" "vt_dist (vs ! k) = m'" "m' < vt_dist v"
        using IH by blast
      then show ?thesis using False by (intro exI [of _ "Suc k"]) auto
    qed
    then show ?thesis using IH False by auto
  qed
qed simp

section \<open>The path that is computed\<close>

lemma computed_route:
  assumes "computed rid L V s E" "i < length V" "vdist V i \<noteq> LS_INFINITY"
  shows "\<exists>r. lwalk L rid r (vt_node (V ! i)) \<and> cost te_metric r = vdist V i \<and>
    walkParents (length V) V i [vt_node (V ! i)] = Inr (rid # map te_linkid r)"
proof -
  note c = assms(1) [unfolded computed_def]
  have p: "graph_ok E (length V)" "paths_inv E s V" "\<forall>es v. ewalk E s es v \<longrightarrow> vdist V v \<le> cost ed_metric es" using c by blast+
  obtain es where es: "ewalk E s es i" "cost ed_metric es = vdist V i"
    "walkParents (length V) V i [vt_node (V ! i)] = Inr (vt_node (V ! s) # map (\<lambda>e. vt_node (V ! ed_dest e)) es)"
    using walkParents_path [OF p assms(2,3), of "length V" "[]"] ancestors_fuel(1) [OF p(1,2) assms(2)] by auto
  obtain r where r: "lwalk L (vt_node (V ! s)) r (vt_node (V ! i))" "cost te_metric r = cost ed_metric es"
    "map te_linkid r = map (\<lambda>e. vt_node (V ! ed_dest e)) es"
    using walk_to_route [OF _ es(1)] c by blast
  have "vt_node (V ! s) = rid" using c by blast
  then show ?thesis using r es by (intro exI [of _ r]) simp
qed

lemma computed_bound:
  assumes "computed rid L V s E" "lwalk L rid r d"
  shows "\<exists>v < length V. vt_node (V ! v) = d \<and> vdist V v \<le> cost te_metric r \<and> vdist V v < LS_INFINITY"
proof -
  note c = assms(1) [unfolded computed_def]
  have p: "graph_ok E (length V)" "paths_inv E s V" "\<forall>es v. ewalk E s es v \<longrightarrow> vdist V v \<le> cost ed_metric es" using c by blast+
  have "lwalk L (vt_node (V ! s)) r d" "s < length V" using assms(2) c paths_invD(1) [OF p(2)] by auto
  then obtain es v where v: "ewalk E s es v" "v < length V" "vt_node (V ! v) = d" "cost ed_metric es = cost te_metric r"
    using route_to_walk [of V E L s r d] c by blast
  have "vdist V v \<noteq> LS_INFINITY" using reach_finite [OF p v(1)] by blast
  then have "vdist V v < LS_INFINITY" using dist_bounds(2) [OF p(1,2) v(2)] by simp
  moreover have "vdist V v \<le> cost te_metric r" using p(3) v(1,4) by metis
  ultimately show ?thesis using v(2,3) by blast
qed

definition cheapest_to :: "TELinkStateInfo list \<Rightarrow> IPAddress \<Rightarrow> IPAddress list \<Rightarrow> TELinkStateInfo list \<Rightarrow> bool" where
  "cheapest_to L a dest r \<longleftrightarrow> (\<exists>d \<in> set dest. lwalk L a r d) \<and>
     (\<forall>d \<in> set dest. \<forall>r'. lwalk L a r' d \<longrightarrow> cost te_metric r \<le> cost te_metric r')"

text \<open>
  Property C8: over a database whose metrics are whole numbers with a sum below \<open>2 ^ 52\<close>, the computation of a path ends with
  a path of least cost from the router to one of the destinations, over links that are up and have the bandwidth that
  is asked for at the priority, and with the empty path when no such path exists.
\<close>
theorem shortest_path_correct:
  assumes "topology_ok ls priority" and L: "L = filter (usable bw priority) ls"
  shows "\<exists>ns. calculateShortestPath dest ls bw priority t = Inr ns \<and>
    (if \<exists>d \<in> set dest. \<exists>r. lwalk L (te_routerId t) r d
     then \<exists>r. ns = te_routerId t # map te_linkid r \<and> cheapest_to L (te_routerId t) dest r
     else ns = [])"
proof -
  let ?a = "te_routerId t"
  obtain V s E where V: "calculateShortestPaths ls bw priority t = Inr V" "computed ?a L V s E"
    using calculateShortestPaths_computed [OF assms(1)] unfolding L by blast
  obtain m mi where n: "nearest dest 0 V (LS_INFINITY, None) = (m, mi)" by fastforce
  note N = nearest_spec [OF n]
  show ?thesis
  proof (cases mi)
    case None
    have "\<not> lwalk L ?a r d" if "d \<in> set dest" for d r
    proof
      assume "lwalk L ?a r d"
      from computed_bound [OF V(2) this] obtain v where "v < length V" "vt_node (V ! v) = d" "vdist V v < LS_INFINITY" by blast
      then show False using N None that by (metis nth_mem not_le option.distinct(1))
    qed
    then show ?thesis using V(1) n None by (auto simp: calculateShortestPath_def)
  next
    case (Some i)
    then have i: "i < length V" "vt_node (V ! i) \<in> set dest" "vdist V i = m" "m < LS_INFINITY" using N by auto
    then obtain r where r: "lwalk L ?a r (vt_node (V ! i))" "cost te_metric r = m"
      "walkParents (length V) V i [vt_node (V ! i)] = Inr (?a # map te_linkid r)"
      using computed_route [OF V(2) i(1)] by auto
    have "m \<le> cost te_metric r'" if w: "d \<in> set dest" "lwalk L ?a r' d" for d r'
    proof -
      obtain v where "v < length V" "vt_node (V ! v) = d" "vdist V v \<le> cost te_metric r'"
        using computed_bound [OF V(2) w(2)] by blast
      then show ?thesis using N w(1) by (metis nth_mem order.trans)
    qed
    then have "cheapest_to L ?a dest r" using r i(2) unfolding cheapest_to_def by blast
    moreover have "\<exists>d \<in> set dest. \<exists>r. lwalk L ?a r d" using r(1) i(2) by blast
    ultimately show ?thesis using V(1) n Some r(3) by (auto simp: calculateShortestPath_def)
  qed
qed

definition exLink :: "u32 \<Rightarrow> u32 \<Rightarrow> rat \<Rightarrow> rat \<Rightarrow> TELinkStateInfo" where
  "exLink a b m bw = \<lparr> te_advrouter = a, te_linkid = b, te_local = a + 16, te_remote = b + 16, te_metric = m, te_MaxBandwidth = bw,
     te_UnResvBandwidth = replicate 8 bw, te_timestamp = 0, te_sourceId = a, te_messageId = b, te_state = True \<rparr>"

definition exTED :: TED where
  "exTED = \<lparr> ted = [exLink 1 2 10 100, exLink 1 3 1 100, exLink 3 2 2 100, exLink 2 4 1 100, exLink 1 4 1 10], te_routerId = 1,
     interfaceAddrs = [17], maxMessageId = 4, te_node = \<lparr> nift = newInterfaceTable, nrt = newRoutingTable True, inInit = False \<rparr> \<rparr>"

lemma exTED_ok: "topology_ok (ted exTED) 7"
proof -
  have "whole (numeral k)" "whole 1" for k unfolding whole_def by (metis of_int_numeral, metis of_int_1)
  then show ?thesis by (simp add: topology_ok_def exTED_def exLink_def)
qed

lemma exTED_paths:
  "calculateShortestPaths (ted exTED) 50 7 exTED =
    Inr [\<lparr> vt_node = 1, vt_parent = None, vt_dist = 0 \<rparr>, \<lparr> vt_node = 2, vt_parent = Some 2, vt_dist = 3 \<rparr>,
      \<lparr> vt_node = 3, vt_parent = Some 0, vt_dist = 1 \<rparr>, \<lparr> vt_node = 4, vt_parent = Some 1, vt_dist = 4 \<rparr>]"
  by code_simp

theorem shortest_path_correct_witness:
  "calculateShortestPath [4] (ted exTED) 50 7 exTED = Inr [1, 3, 2, 4] \<and>
   (\<exists>ns. calculateShortestPath [4] (ted exTED) 50 7 exTED = Inr ns \<and>
    (if \<exists>d \<in> set [4]. \<exists>r. lwalk (filter (usable 50 7) (ted exTED)) (te_routerId exTED) r d
     then \<exists>r. ns = te_routerId exTED # map te_linkid r \<and> cheapest_to (filter (usable 50 7) (ted exTED)) (te_routerId exTED) [4] r
     else ns = []))"
proof -
  have "calculateShortestPath [4] (ted exTED) 50 7 exTED = Inr [1, 3, 2, 4]"
    by (simp add: calculateShortestPath_def exTED_paths LS_INFINITY_def walkParents.simps)
  then show ?thesis using shortest_path_correct [OF exTED_ok refl, of "[4]" 50 exTED] by (intro conjI)
qed

section \<open>Next hops\<close>

lemma computed_peer:
  assumes "computed (te_routerId t) (filter (usable bw priority) (ted t)) V s E" "e \<in> set E" "ed_src e = s"
  shows "isLocalPeer (vt_node (V ! ed_dest e)) t"
proof -
  have "list_all2 (edge_for (map vt_node V)) E (filter (usable bw priority) (ted t))" using assms(1) by (simp add: computed_def)
  from list_all2_ex(1) [OF this assms(2)] obtain l where l: "l \<in> set (ted t)" "edge_for (map vt_node V) e l" by auto
  then have "te_linkid l = vt_node (V ! ed_dest e)" "te_advrouter l = te_routerId t"
    using assms(1,3) by (auto simp: edge_for_def computed_def)
  moreover have "findLink P ls \<noteq> None" if "P l" "l \<in> set ls" for P ls using that by (induction ls) auto
  ultimately show ?thesis using l(1) by (simp add: isLocalPeer_def)
qed

lemma nextHopOf_spec:
  assumes c: "computed (te_routerId t) (filter (usable bw priority) (ted t)) V s E"
    and "i < length V" "vt_parent (V ! i) \<noteq> None" "card (ancestors V i) \<le> fuel"
  shows "\<exists>n es. nextHopOf fuel V t i = Inr n \<and> n < length V \<and> n \<noteq> s \<and> vdist V n \<noteq> LS_INFINITY \<and> isLocalPeer (vt_node (V ! n)) t \<and>
    ewalk E n es i \<and> vdist V i = vdist V n + cost ed_metric es"
  using assms(2-4)
proof (induction fuel arbitrary: i)
  case 0
  have p: "graph_ok E (length V)" "paths_inv E s V" using c by (auto simp: computed_def)
  show ?case using ancestors_fuel(3) [OF p 0(1)] 0(2,3) by auto
next
  case (Suc fuel)
  have p: "graph_ok E (length V)" "paths_inv E s V" "\<forall>es v. ewalk E s es v \<longrightarrow> vdist V v \<le> cost ed_metric es"
    using c by (auto simp: computed_def)
  have i: "i \<noteq> s" "vdist V i \<noteq> LS_INFINITY"
    using Suc.prems(2) paths_invD(3) [OF p(2)] paths_invD(4) [OF p(2) Suc.prems(1)] dist_bounds(4) [OF p(1,2) Suc.prems(1)] by auto
  show ?case
  proof (cases "isLocalPeer (vt_node (V ! i)) t")
    case True
    then show ?thesis using i Suc.prems(1) by (intro exI [of _ i] exI [of _ "[]"]) (simp add: nextHopOf.simps)
  next
    case False
    obtain q where q: "vt_parent (V ! i) = Some q" using Suc.prems(2) by blast
    obtain e where e: "e \<in> set E" "ed_src e = q" "ed_dest e = i" "vdist V i = vdist V q + ed_metric e" "vdist V q \<noteq> LS_INFINITY"
      using tight [OF p Suc.prems(1) q] by blast
    have f: "q < length V" "card (ancestors V q) \<le> fuel" using ancestors_fuel(3) [OF p(1,2) Suc.prems(1) q] Suc.prems(3) by auto
    have "q \<noteq> s" using computed_peer [OF c e(1)] e(2,3) False by auto
    then have "vt_parent (V ! q) \<noteq> None" using paths_invD(4) [OF p(2) f(1)] e(5) by auto
    from Suc.IH [OF f(1) this f(2)] obtain n es where n: "nextHopOf fuel V t q = Inr n" "n < length V" "n \<noteq> s" "vdist V n \<noteq> LS_INFINITY"
      "isLocalPeer (vt_node (V ! n)) t" "ewalk E n es q" "vdist V q = vdist V n + cost ed_metric es" by blast
    have "ewalk E n (es @ [e]) i" using n(6) e by (auto simp: walk_append)
    moreover have "nextHopOf (Suc fuel) V t i = Inr n" using False q n(1) by (simp add: nextHopOf.simps [of "Suc fuel"])
    ultimately show ?thesis using n e(4) by (intro exI [of _ n] exI [of _ "es @ [e]"]) simp
  qed
qed

lemma computed_cheapest:
  assumes "computed rid L V s E" "i < length V" "vdist V i \<noteq> LS_INFINITY"
  shows "\<exists>r. cheapest_to L rid [vt_node (V ! i)] r \<and> cost te_metric r = vdist V i"
proof -
  obtain r where r: "lwalk L rid r (vt_node (V ! i))" "cost te_metric r = vdist V i" using computed_route [OF assms] by blast
  have "vdist V i \<le> cost te_metric r'" if w: "lwalk L rid r' (vt_node (V ! i))" for r'
  proof -
    obtain v where v: "v < length V" "vt_node (V ! v) = vt_node (V ! i)" "vdist V v \<le> cost te_metric r'"
      using computed_bound [OF assms(1) w] by blast
    have "v = i" using v(1,2) assms(1,2) by (auto simp: computed_def distinct_conv_nth)
    then show ?thesis using v(3) by simp
  qed
  then show ?thesis using r by (auto simp: cheapest_to_def)
qed

text \<open>The peer is nearer to the node than the router is.\<close>

lemma next_hop_nearer:
  assumes "topology_ok (ted t) 7" "\<forall>l \<in> set (ted t). 0 < te_metric l" and L: "L = filter (usable 0 7) (ted t)"
    and V: "calculateShortestPaths (ted t) 0 7 t = Inr V" "i < length V" "vt_parent (V ! i) \<noteq> None"
  shows "\<exists>n r r'. nextHopOf (length V) V t i = Inr n \<and> isLocalPeer (vt_node (V ! n)) t \<and>
    cheapest_to L (te_routerId t) [vt_node (V ! i)] r \<and> cheapest_to L (vt_node (V ! n)) [vt_node (V ! i)] r' \<and>
    cost te_metric r' < cost te_metric r"
proof -
  obtain s E where c: "computed (te_routerId t) L V s E"
    using calculateShortestPaths_computed [OF assms(1), of 0 t] V(1) unfolding L by auto
  have p: "graph_ok E (length V)" "paths_inv E s V" "list_all2 (edge_for (map vt_node V)) E L"
    "distinct (map vt_node V)" "vt_node (V ! s) = te_routerId t" using c by (auto simp: computed_def)
  obtain n es where n: "nextHopOf (length V) V t i = Inr n" "n < length V" "n \<noteq> s" "vdist V n \<noteq> LS_INFINITY"
      "isLocalPeer (vt_node (V ! n)) t" "ewalk E n es i" "vdist V i = vdist V n + cost ed_metric es"
    using nextHopOf_spec [OF c [unfolded L] V(2,3), of "length V"] ancestors_fuel(1) [OF p(1,2) V(2)] by auto
  have "vdist V i \<noteq> LS_INFINITY" using V(3) paths_invD(4) [OF p(2) V(2)] dist_bounds(4) [OF p(1,2) V(2)] by auto
  then obtain r where r: "cheapest_to L (te_routerId t) [vt_node (V ! i)] r" "cost te_metric r = vdist V i"
    using computed_cheapest [OF c V(2)] by blast
  obtain q where q: "cheapest_to L (te_routerId t) [vt_node (V ! n)] q" "cost te_metric q = vdist V n"
    using computed_cheapest [OF c n(2,4)] by blast
  obtain r' where r': "lwalk L (vt_node (V ! n)) r' (vt_node (V ! i))" "cost te_metric r' = cost ed_metric es"
    using walk_to_route [OF p(3) n(6)] by blast
  have "cost te_metric r' \<le> cost te_metric x" if "lwalk L (vt_node (V ! n)) x (vt_node (V ! i))" for x
  proof -
    have "lwalk L (te_routerId t) (q @ x) (vt_node (V ! i))" using q(1) that by (auto simp: cheapest_to_def walk_append)
    then have "cost te_metric r \<le> cost te_metric (q @ x)" using r(1) by (auto simp: cheapest_to_def)
    then show ?thesis using q(2) r(2) r'(2) n(7) by simp
  qed
  then have "cheapest_to L (vt_node (V ! n)) [vt_node (V ! i)] r'" using r'(1) by (auto simp: cheapest_to_def)
  moreover have "0 < cost te_metric q"
  proof (cases q)
    case Nil
    then have "vt_node (V ! n) = vt_node (V ! s)" using q(1) p(5) by (simp add: cheapest_to_def)
    then show ?thesis using n(2,3) p(4) paths_invD(1) [OF p(2)] by (auto simp: distinct_conv_nth)
  next
    case (Cons l q')
    have w: "lwalk L (te_linkid l) q' (vt_node (V ! n))" "l \<in> set L" using q(1) Cons by (auto simp: cheapest_to_def)
    have "0 \<le> cost te_metric x" if "lwalk L a x b" for a x b
      using that assms(2) unfolding L by (induction x arbitrary: a) (auto intro: order.strict_implies_order)
    then show ?thesis using w assms(2) Cons unfolding L by (fastforce intro: add_pos_nonneg)
  qed
  ultimately show ?thesis using n r q(2) r'(2) by (intro exI [of _ n] exI [of _ r] exI [of _ r']) auto
qed

end
