(* ===== verification/TED_Rebuild.thy ===== *)
theory TED_Rebuild
  imports TED_Routes IP_RouteRun
begin

text \<open>
  The routing table that is built from the traffic engineering database: every node that can be reached over links that
  are up has a host route, through a peer that is nearer to the node than the router is.
\<close>

section \<open>Contents of the routing table\<close>

abbreviation contents :: "RoutingTable \<Rightarrow> IPRoute option list" where
  "contents rt \<equiv> map (routeHeap rt) (routes rt)"

abbreviation mcontents :: "RoutingTable \<Rightarrow> IPRoute option list" where
  "mcontents rt \<equiv> map (routeHeap rt) (multicastRoutes rt)"

text \<open>Unicast and multicast routes are in their own lists.\<close>

definition rt_sorted :: "RoutingTable \<Rightarrow> bool" where
  "rt_sorted rt \<longleftrightarrow> (\<forall>p \<in> set (routes rt). \<forall>e. routeHeap rt p = Some e \<longrightarrow> \<not> ip_isMulticast (r_host e)) \<and>
     (\<forall>p \<in> set (multicastRoutes rt). \<forall>e. routeHeap rt p = Some e \<longrightarrow> ip_isMulticast (r_host e))"

definition host_route :: "IPAddress \<Rightarrow> IPAddress \<Rightarrow> RouteType \<Rightarrow> nat \<Rightarrow> IPRoute" where
  "host_route host gateway type ie = newIPRoute\<lparr>r_host := host, r_gateway := gateway, r_type := type, r_interface := Some ie,
     r_source := OSPF, r_netmask := ALLONES_ADDRESS, r_metric := 0\<rparr>"

definition host_addr :: "IPAddress \<Rightarrow> bool" where
  "host_addr a \<longleftrightarrow> \<not> ip_isUnspecified a \<and> \<not> ip_isMulticast a"

lemma addHostRoute_ok:
  assumes "rt_wf rt" "host_addr host" "getInterfaceByAddress (nift (te_node t)) a = Inr (Some ie)"
  shows "\<exists>rt'. addHostRoute host gw ty a t rt = Inr rt' \<and> rt_wf rt' \<and> mcontents rt' = mcontents rt \<and>
    contents rt' = contents rt @ [Some (host_route host gw ty ie)]"
proof -
  let ?r = "host_route host gw ty ie"
  obtain p rt1 where a: "allocRoute ?r rt = (p, rt1)" by fastforce
  note w = rt_wf_alloc [OF assms(1) a]
  have "p \<notin> dom (routeHeap rt)" "rt1 = rt\<lparr>routeHeap := (routeHeap rt)(p \<mapsto> ?r), nextRoute := Suc (nextRoute rt)\<rparr>"
    using a rt_wf_fresh(1) [OF assms(1)] by (auto simp: allocRoute_def)
  moreover have "set (routes rt) \<union> set (multicastRoutes rt) \<subseteq> dom (routeHeap rt)" using assms(1) by (simp add: rt_wf_def)
  ultimately have same: "contents rt1 = contents rt" "mcontents rt1 = mcontents rt" by auto
  have u: "ip_isUnspecified ALLONES_ADDRESS = False" by code_simp
  let ?rt = "fireRoute NF_IPv4_ROUTE_ADDED p (invalidateCache (rt1\<lparr>routes := routes rt1 @ [p]\<rparr>))"
  have "addRoute p rt1 = Inr ?rt"
    using w(3) assms(2) u by (simp add: addRoute_def derefRoute_def host_route_def host_addr_def doAnd_def)
  moreover from this have "rt_wf ?rt" by (rule rt_wf_add(1) [OF w(1) _ w(2)])
  moreover have "mcontents ?rt = mcontents rt" "contents ?rt = contents rt @ [Some ?r]"
    using same w(3) by (simp_all add: fireRoute_def invalidateCache_def)
  moreover have "addHostRoute host gw ty a t rt = addRoute p rt1"
    using a assms(3) by (simp add: addHostRoute_def host_route_def)
  ultimately show ?thesis by metis
qed

section \<open>Deletion of the old routes\<close>

lemma skip_multicast:
  assumes "rt_wf rt" "rt_sorted rt" "routes rt = []" "j + k = length (multicastRoutes rt)"
  shows "deleteUnicastRoutes k (int j) rt = Inr rt"
  using assms(4)
proof (induction k arbitrary: j)
  case (Suc k)
  let ?p = "multicastRoutes rt ! j"
  have p: "?p \<in> set (multicastRoutes rt)" using Suc.prems by simp
  then obtain e where e: "routeHeap rt ?p = Some e" using assms(1) unfolding rt_wf_def by blast
  moreover have "ip_isMulticast (r_host e)" using assms(2) p e by (auto simp: rt_sorted_def)
  moreover have "getRoute (int j) rt = Inr (Some ?p)" using assms(3) Suc.prems by (simp add: getRoute_def)
  ultimately show ?case using Suc.IH [of "Suc j"] Suc.prems by (simp add: derefRoute_def add.commute)
qed simp

lemma delete_unicast:
  assumes "rt_wf rt" "rt_sorted rt"
  shows "\<exists>rt'. deleteUnicastRoutes (length (routes rt) + length (multicastRoutes rt)) 0 rt = Inr rt' \<and>
    rt_wf rt' \<and> routes rt' = [] \<and> mcontents rt' = mcontents rt"
  using assms
proof (induction "routes rt" arbitrary: rt)
  case Nil
  then show ?case using skip_multicast [of rt 0 "length (multicastRoutes rt)"] by auto
next
  case (Cons p ps)
  let ?rt = "snd (deleteRoute p rt)"
  have r: "routes rt = p # ps" using Cons.hyps(2) by simp
  then obtain e where e: "routeHeap rt p = Some e" using Cons.prems(1) by (auto simp: rt_wf_def)
  have d: "p \<notin> set ps" "p \<notin> set (multicastRoutes rt)" using Cons.prems(1) r by (auto simp: rt_wf_def)
  have f: "routes ?rt = ps" "multicastRoutes ?rt = multicastRoutes rt" "routeHeap ?rt = (routeHeap rt)(p := None)"
    using r by (auto simp: deleteRoute_def invalidateCache_def fireRoute_def)
  have "rt_sorted ?rt" using Cons.prems(2) r by (auto simp: rt_sorted_def f)
  then obtain rt' where rt': "deleteUnicastRoutes (length ps + length (multicastRoutes rt)) 0 ?rt = Inr rt'"
    "rt_wf rt'" "routes rt' = []" "mcontents rt' = mcontents ?rt"
    using Cons.hyps(1) [of ?rt] rt_wf_delete [OF Cons.prems(1), of p] unfolding f by auto
  have "getRoute 0 rt = Inr (Some p)" using r by (simp add: getRoute_def)
  moreover have "\<not> ip_isMulticast (r_host e)" using Cons.prems(2) e r by (auto simp: rt_sorted_def)
  ultimately have "deleteUnicastRoutes (length (routes rt) + length (multicastRoutes rt)) 0 rt = Inr rt'"
    using rt'(1) e r by (simp add: derefRoute_def)
  moreover have "mcontents ?rt = mcontents rt" using d(2) by (auto simp: f)
  ultimately show ?case using rt' by auto
qed

section \<open>The new routes\<close>

text \<open>What the database says of the router's own links fits its interfaces, and the nodes have host addresses.\<close>

definition database_ok :: "TED \<Rightarrow> bool" where
  "database_ok t \<longleftrightarrow>
     (\<forall>l \<in> set (ted t). host_addr (te_linkid l)) \<and>
     (\<forall>l \<in> set (ted t). te_advrouter l = te_routerId t \<longrightarrow> (\<exists>ie. getInterfaceByAddress (nift (te_node t)) (te_local l) = Inr (Some ie))) \<and>
     (\<forall>a \<in> set (interfaceAddrs t). \<exists>l \<in> set (ted t). te_advrouter l = te_routerId t \<and> te_local l = a)"

lemma findLink_spec: "findLink P ls = Some l \<Longrightarrow> l \<in> set ls \<and> P l"
  by (induction ls) (auto split: if_splits)

lemma linkIndexLoop_spec:
  "l \<in> set ls \<Longrightarrow> P l \<Longrightarrow> \<exists>k. linkIndexLoop P i ls = Inr k \<and> i \<le> k \<and> k - i < length ls \<and> P (ls ! (k - i))"
proof (induction ls arbitrary: i)
  case (Cons x xs)
  show ?case
  proof (cases "P x")
    case False
    then obtain k where k: "linkIndexLoop P (Suc i) xs = Inr k" "Suc i \<le> k" "k - Suc i < length xs" "P (xs ! (k - Suc i))"
      using Cons by auto
    then have "k - i = Suc (k - Suc i)" by linarith
    then show ?thesis using k False by (intro exI [of _ k]) simp
  qed simp
qed simp

lemma peer_interface:
  assumes "database_ok t" "isLocalPeer a t"
  shows "\<exists>addr ie. getInterfaceAddrByPeerAddress a t = Inr addr \<and> getInterfaceByAddress (nift (te_node t)) addr = Inr (Some ie)"
proof -
  obtain l where l: "findLink (\<lambda>l. te_linkid l = a \<and> te_advrouter l = te_routerId t) (ted t) = Some l"
    using assms(2) by (auto simp: isLocalPeer_def)
  then have "l \<in> set (ted t)" "te_advrouter l = te_routerId t" using findLink_spec [OF l] by auto
  then show ?thesis using assms(1) l unfolding database_ok_def by (auto simp: getInterfaceAddrByPeerAddress_def)
qed

text \<open>The vertices that get a route through another router, and the route.\<close>

definition far :: "vertex_t list \<Rightarrow> TED \<Rightarrow> nat \<Rightarrow> bool" where
  "far V t i \<longleftrightarrow> vt_node (V ! i) \<noteq> te_routerId t \<and> vt_parent (V ! i) \<noteq> None \<and> \<not> isLocalPeer (vt_node (V ! i)) t"

definition route_via :: "vertex_t list \<Rightarrow> TED \<Rightarrow> nat \<Rightarrow> IPRoute \<Rightarrow> bool" where
  "route_via V t i r \<longleftrightarrow> (\<exists>n ie. nextHopOf (length V) V t i = Inr n \<and> isLocalPeer (vt_node (V ! n)) t \<and>
     r = host_route (vt_node (V ! i)) (vt_node (V ! n)) REMOTE ie)"

lemma insertRemote_ok:
  assumes "database_ok t" "rt_wf rt"
    and "\<forall>i \<in> set is. far V t i \<longrightarrow> host_addr (vt_node (V ! i)) \<and> (\<exists>n. nextHopOf (length V) V t i = Inr n \<and> isLocalPeer (vt_node (V ! n)) t)"
  shows "\<exists>rt' rs. insertRemote V t is rt = Inr rt' \<and> rt_wf rt' \<and> mcontents rt' = mcontents rt \<and> contents rt' = contents rt @ map Some rs \<and>
    list_all2 (route_via V t) (filter (far V t) is) rs"
  using assms(2,3)
proof (induction "is" arbitrary: rt)
  case (Cons i "is")
  show ?case
  proof (cases "far V t i")
    case False
    then have "insertRemote V t (i # is) rt = insertRemote V t is rt" by (auto simp: far_def)
    then show ?thesis using Cons.IH [OF Cons.prems(1)] Cons.prems(2) False by auto
  next
    case True
    then obtain n where n: "host_addr (vt_node (V ! i))" "nextHopOf (length V) V t i = Inr n" "isLocalPeer (vt_node (V ! n)) t"
      using Cons.prems(2) by auto
    obtain a ie where a: "getInterfaceAddrByPeerAddress (vt_node (V ! n)) t = Inr a" "getInterfaceByAddress (nift (te_node t)) a = Inr (Some ie)"
      using peer_interface [OF assms(1) n(3)] by blast
    let ?r = "host_route (vt_node (V ! i)) (vt_node (V ! n)) REMOTE ie"
    obtain rt1 where rt1: "addHostRoute (vt_node (V ! i)) (vt_node (V ! n)) REMOTE a t rt = Inr rt1" "rt_wf rt1"
      "mcontents rt1 = mcontents rt" "contents rt1 = contents rt @ [Some ?r]"
      using addHostRoute_ok [OF Cons.prems(1) n(1) a(2)] by blast
    obtain rt' rs where rt': "insertRemote V t is rt1 = Inr rt'" "rt_wf rt'" "mcontents rt' = mcontents rt1"
      "contents rt' = contents rt1 @ map Some rs" "list_all2 (route_via V t) (filter (far V t) is) rs"
      using Cons.IH [OF rt1(2)] Cons.prems(2) by auto
    have "vt_node (V ! i) \<noteq> vt_node (V ! n)" using True n(3) by (auto simp: far_def)
    then have "insertRemote V t (i # is) rt = Inr rt'" using True n(2) a rt1(1) rt'(1) by (auto simp: far_def)
    moreover have "route_via V t i ?r" using n by (auto simp: route_via_def)
    ultimately show ?thesis using rt1 rt' True by (intro exI [of _ rt'] exI [of _ "?r # rs"]) simp
  qed
qed simp

definition direct_route :: "TED \<Rightarrow> IPAddress \<Rightarrow> IPRoute \<Rightarrow> bool" where
  "direct_route t a r \<longleftrightarrow> (\<exists>l ie. l \<in> set (ted t) \<and> te_advrouter l = te_routerId t \<and> te_local l = a \<and>
     getInterfaceByAddress (nift (te_node t)) a = Inr (Some ie) \<and> r = host_route (te_linkid l) 0 DIRECT ie)"

lemma insertPeers_ok:
  assumes "database_ok t" "rt_wf rt" "set as \<subseteq> set (interfaceAddrs t)"
  shows "\<exists>rt' rs. insertPeers t as rt = Inr rt' \<and> rt_wf rt' \<and> mcontents rt' = mcontents rt \<and> contents rt' = contents rt @ map Some rs \<and>
    list_all2 (direct_route t) as rs"
  using assms(2,3)
proof (induction as arbitrary: rt)
  case (Cons a as)
  obtain l where l: "l \<in> set (ted t)" "te_advrouter l = te_routerId t" "te_local l = a"
    using assms(1) Cons.prems(2) unfolding database_ok_def by auto
  obtain k where k: "linkIndex a t = Inr k" "k < length (ted t)" "te_advrouter (ted t ! k) = te_routerId t" "te_local (ted t ! k) = a"
    using linkIndexLoop_spec [of l "ted t" "\<lambda>l. te_advrouter l = te_routerId t \<and> te_local l = a" 0] l by (auto simp: linkIndex_def)
  let ?l = "ted t ! k"
  have m: "?l \<in> set (ted t)" using k(2) by simp
  then obtain ie where ie: "getInterfaceByAddress (nift (te_node t)) a = Inr (Some ie)" "host_addr (te_linkid ?l)"
    using assms(1) k(3,4) unfolding database_ok_def by metis
  let ?r = "host_route (te_linkid ?l) 0 DIRECT ie"
  obtain rt1 where rt1: "addHostRoute (te_linkid ?l) 0 DIRECT a t rt = Inr rt1" "rt_wf rt1"
      "mcontents rt1 = mcontents rt" "contents rt1 = contents rt @ [Some ?r]"
    using addHostRoute_ok [OF Cons.prems(1) ie(2,1)] by blast
  obtain rt' rs where rt': "insertPeers t as rt1 = Inr rt'" "rt_wf rt'" "mcontents rt' = mcontents rt1" "contents rt' = contents rt1 @ map Some rs"
    "list_all2 (direct_route t) as rs"
    using Cons.IH [OF rt1(2)] Cons.prems(2) by auto
  have "insertPeers t (a # as) rt = Inr rt'" using k(1) rt1(1) rt'(1) by (simp add: getPeerByLocalAddress_def)
  moreover have "direct_route t a ?r" using m k ie by (auto simp: direct_route_def simp del: nth_mem)
  ultimately show ?case using rt1 rt' by (intro exI [of _ rt'] exI [of _ "?r # rs"]) (simp del: insertPeers.simps)
qed simp

section \<open>The whole table\<close>

definition nearer :: "TELinkStateInfo list \<Rightarrow> IPAddress \<Rightarrow> IPAddress \<Rightarrow> IPAddress \<Rightarrow> bool" where
  "nearer L a g d \<longleftrightarrow> (\<exists>r r'. cheapest_to L a [d] r \<and> cheapest_to L g [d] r' \<and> cost te_metric r' < cost te_metric r)"

definition route_justified :: "TELinkStateInfo list \<Rightarrow> TED \<Rightarrow> IPRoute \<Rightarrow> bool" where
  "route_justified L t e \<longleftrightarrow> r_netmask e = ALLONES_ADDRESS \<and>
     (r_type e = DIRECT \<and> isLocalPeer (r_host e) t \<or>
      r_type e = REMOTE \<and> isLocalPeer (r_gateway e) t \<and> nearer L (te_routerId t) (r_gateway e) (r_host e))"

lemma vertex_host:
  assumes "computed rid (filter P (ted t)) V s E" "database_ok t" "i < length V" "vt_parent (V ! i) \<noteq> None"
  shows "host_addr (vt_node (V ! i))"
proof -
  have p: "paths_inv E s V" "list_all2 (edge_for (map vt_node V)) E (filter P (ted t))" using assms(1) by (auto simp: computed_def)
  obtain q where "vt_parent (V ! i) = Some q" using assms(4) by blast
  then obtain e where e: "e \<in> set E" "ed_dest e = i" using paths_invD(5) [OF p(1) assms(3)] by blast
  obtain l where "l \<in> set (ted t)" "edge_for (map vt_node V) e l" using list_all2_ex(1) [OF p(2) e(1)] by auto
  then have "te_linkid l = vt_node (V ! i)" "host_addr (te_linkid l)" using e(2) assms(2) by (auto simp: edge_for_def database_ok_def)
  then show ?thesis by simp
qed

lemma direct_justified:
  assumes "direct_route t a e"
  shows "route_justified L t e"
proof -
  obtain l where l: "l \<in> set (ted t)" "te_advrouter l = te_routerId t" "r_host e = te_linkid l" "r_type e = DIRECT" "r_netmask e = ALLONES_ADDRESS"
    using assms by (auto simp: direct_route_def host_route_def)
  have "findLink P ls \<noteq> None" if "P l" "l \<in> set ls" for P ls using that by (induction ls) auto
  then show ?thesis using l by (simp add: route_justified_def isLocalPeer_def)
qed

text \<open>
  Property C9: rebuilding the routing table from a consistent database succeeds.  It keeps the multicast routes; every node
  that can be reached over links that are up and is not a peer gets a host route; a peer gets a direct route when the local address of the
  link to it is one of the router's interface addresses and no link to another peer has the same local address; and
  every route of the new table is direct to a peer, or leads through a peer that is nearer to the destination
  than the router, so routers with the same database do not forward in circles.
\<close>
theorem rebuilt_routes_correct:
  assumes "topology_ok (ted t) 7" "\<forall>l \<in> set (ted t). 0 < te_metric l" "database_ok t" and L: "L = filter (usable 0 7) (ted t)"
    and rt: "rt_wf (nrt (te_node t))" "rt_sorted (nrt (te_node t))"
  shows "\<exists>t'. rebuildRoutingTable t = Inr t' \<and> ted t' = ted t \<and> rt_wf (nrt (te_node t')) \<and>
    mcontents (nrt (te_node t')) = mcontents (nrt (te_node t)) \<and>
    (\<forall>d r. lwalk L (te_routerId t) r d \<and> d \<noteq> te_routerId t \<and> \<not> isLocalPeer d t \<longrightarrow>
      (\<exists>e. Some e \<in> set (contents (nrt (te_node t'))) \<and> r_host e = d \<and> r_type e = REMOTE)) \<and>
    (\<forall>l \<in> set (ted t). te_advrouter l = te_routerId t \<and> te_local l \<in> set (interfaceAddrs t) \<and>
        (\<forall>k \<in> set (ted t). te_advrouter k = te_routerId t \<and> te_local k = te_local l \<longrightarrow> te_linkid k = te_linkid l) \<longrightarrow>
      (\<exists>e. Some e \<in> set (contents (nrt (te_node t'))) \<and> r_host e = te_linkid l \<and> r_type e = DIRECT)) \<and>
    (\<forall>e. Some e \<in> set (contents (nrt (te_node t'))) \<longrightarrow> route_justified L t e)"
proof -
  obtain V s E where V: "calculateShortestPaths (ted t) 0 7 t = Inr V" and c: "computed (te_routerId t) L V s E"
    using calculateShortestPaths_computed [OF assms(1)] unfolding L by blast
  have p: "graph_ok E (length V)" "paths_inv E s V" "vt_node (V ! s) = te_routerId t" using c by (auto simp: computed_def)
  note hop = next_hop_nearer [OF assms(1,2) L V]
  obtain rt1 where rt1: "deleteUnicastRoutes (nat (getNumRoutes (nrt (te_node t)))) 0 (nrt (te_node t)) = Inr rt1"
    "rt_wf rt1" "routes rt1 = []" "mcontents rt1 = mcontents (nrt (te_node t))"
    using delete_unicast [OF rt] by (auto simp: getNumRoutes_def nat_add_distrib)
  have "host_addr (vt_node (V ! i)) \<and> (\<exists>n. nextHopOf (length V) V t i = Inr n \<and> isLocalPeer (vt_node (V ! n)) t)"
    if "far V t i" "i < length V" for i
    using hop [OF that(2)] vertex_host [OF c [unfolded L] assms(3) that(2)] that(1) by (auto simp: far_def)
  then have far: "\<forall>i \<in> set [0..<length V]. far V t i \<longrightarrow>
      host_addr (vt_node (V ! i)) \<and> (\<exists>n. nextHopOf (length V) V t i = Inr n \<and> isLocalPeer (vt_node (V ! n)) t)" by simp
  obtain rt2 rs where rt2: "insertRemote V t [0..<length V] rt1 = Inr rt2" "rt_wf rt2" "mcontents rt2 = mcontents rt1"
    "contents rt2 = map Some rs" "list_all2 (route_via V t) (filter (far V t) [0..<length V]) rs"
    using insertRemote_ok [OF assms(3) rt1(2) far] rt1(3) by auto
  obtain rt3 ds where rt3: "insertPeers t (interfaceAddrs t) rt2 = Inr rt3" "rt_wf rt3" "mcontents rt3 = mcontents rt2"
    "contents rt3 = contents rt2 @ map Some ds" "list_all2 (direct_route t) (interfaceAddrs t) ds"
    using insertPeers_ok [OF assms(3) rt2(2) subset_refl] by blast
  let ?t = "t\<lparr>te_node := (te_node t)\<lparr>nrt := rt3\<rparr>\<rparr>"
  have 1: "rebuildRoutingTable t = Inr ?t" using V rt1(1) rt2(1) rt3(1) by (simp add: rebuildRoutingTable_def)
  have 2: "\<exists>e. Some e \<in> set (contents rt3) \<and> r_host e = d \<and> r_type e = REMOTE"
    if d: "lwalk L (te_routerId t) r d" "d \<noteq> te_routerId t" "\<not> isLocalPeer d t" for r d
  proof -
    obtain v where v: "v < length V" "vt_node (V ! v) = d" "vdist V v < LS_INFINITY" using computed_bound [OF c d(1)] by blast
    then have "vt_parent (V ! v) \<noteq> None" using paths_invD(4) [OF p(2) v(1)] p(3) d(2) by auto
    then have "v \<in> set (filter (far V t) [0..<length V])" using v d by (simp add: far_def)
    then obtain e where "e \<in> set rs" "route_via V t v e" using list_all2_ex(1) [OF rt2(5)] by blast
    then show ?thesis using v(2) rt2(4) rt3(4) by (auto simp: route_via_def host_route_def)
  qed
  have 3: "\<exists>e. Some e \<in> set (contents rt3) \<and> r_host e = te_linkid l \<and> r_type e = DIRECT"
    if l: "te_local l \<in> set (interfaceAddrs t)"
      "\<forall>k \<in> set (ted t). te_advrouter k = te_routerId t \<and> te_local k = te_local l \<longrightarrow> te_linkid k = te_linkid l" for l
  proof -
    obtain e where "e \<in> set ds" "direct_route t (te_local l) e" using list_all2_ex(1) [OF rt3(5) l(1)] by blast
    then show ?thesis using l(2) rt3(4) by (auto simp: direct_route_def host_route_def)
  qed
  have 4: "route_justified L t e" if e: "Some e \<in> set (contents rt3)" for e
  proof -
    consider "e \<in> set rs" | "e \<in> set ds" using e rt2(4) rt3(4) by auto
    then show ?thesis
    proof cases
      case 1
      then obtain i where i: "i < length V" "far V t i" "route_via V t i e" using list_all2_ex(2) [OF rt2(5)] by auto
      then obtain n ie where n: "nextHopOf (length V) V t i = Inr n" "e = host_route (vt_node (V ! i)) (vt_node (V ! n)) REMOTE ie"
        by (auto simp: route_via_def)
      then show ?thesis using hop [OF i(1)] i(2) by (auto simp: far_def route_justified_def nearer_def host_route_def)
    next
      case 2
      then show ?thesis using list_all2_ex(2) [OF rt3(5)] direct_justified by blast
    qed
  qed
  have t: "nrt (te_node ?t) = rt3" "ted ?t = ted t" "mcontents rt3 = mcontents (nrt (te_node t))"
    using rt1(4) rt2(3) rt3(3) by simp_all
  show ?thesis by (rule exI [of _ ?t]) (unfold t, use 1 2 3 4 rt3(2) in blast)
qed

definition exDB :: TED where
  "exDB = \<lparr> ted = [(exLink 1 2 10 100)\<lparr>te_local := 0x0A000001\<rparr>, exLink 2 3 1 100], te_routerId = 1,
     interfaceAddrs = [0x0A000001], maxMessageId = 4, te_node = \<lparr> nift = demo_ift, nrt = demo_rt, inInit = False \<rparr> \<rparr>"

lemma exDB_ok:
  "topology_ok (ted exDB) 7" "\<forall>l \<in> set (ted exDB). 0 < te_metric l" "database_ok exDB" "rt_wf (nrt (te_node exDB))" "rt_sorted (nrt (te_node exDB))"
proof -
  have "whole (numeral k)" "whole 1" for k unfolding whole_def by (metis of_int_numeral, metis of_int_1)
  then show "topology_ok (ted exDB) 7" by (simp add: topology_ok_def exDB_def exLink_def)
  show "\<forall>l \<in> set (ted exDB). 0 < te_metric l" by (simp add: exDB_def exLink_def)
  have "getInterfaceByAddress demo_ift 0x0A000001 = Inr (Some 0)" by code_simp
  moreover have "host_addr 2" "host_addr 3" by code_simp+
  ultimately show "database_ok exDB" by (simp add: database_ok_def exDB_def exLink_def)
  show "rt_wf (nrt (te_node exDB))" using demo_rt_ok by (simp add: rt_ok_def exDB_def)
  have "\<not> ip_isMulticast 0x0A000000" "\<not> ip_isMulticast 0x0A010000" by code_simp+
  then show "rt_sorted (nrt (te_node exDB))" by (simp add: rt_sorted_def exDB_def demo_rt_def newRoutingTable_def)
qed

theorem rebuilt_routes_correct_witness:
  "\<exists>t' e. rebuildRoutingTable exDB = Inr t' \<and> Some e \<in> set (contents (nrt (te_node t'))) \<and> r_host e = 3 \<and> r_type e = REMOTE \<and>
    route_justified (filter (usable 0 7) (ted exDB)) exDB e"
proof -
  let ?L = "filter (usable 0 7) (ted exDB)"
  have w: "lwalk ?L (te_routerId exDB) (ted exDB) 3" by (simp add: exDB_def exLink_def usable_def)
  have "\<not> isLocalPeer 3 exDB" "3 \<noteq> te_routerId exDB" by (simp_all add: isLocalPeer_def exDB_def exLink_def)
  then show ?thesis using rebuilt_routes_correct [OF exDB_ok(1-3) refl exDB_ok(4,5)] w by blast
qed

end
