(* ===== verification/MPLS_Objects.thy ===== *)
theory MPLS_Objects
  imports IP_Datagram
begin

text \<open>Protocol numbers and structures of the MPLS models: \<open>contract/IPProtocolId.msg\<close>, \<open>rsvp_te/IntServ.msg\<close>.\<close>

definition IP_PROT_RSVP :: int where "IP_PROT_RSVP = 46"
definition IP_PROT_OSPF :: int where "IP_PROT_OSPF = 89"

record SessionObj_t =
  Tunnel_Id :: int
  Extended_Tunnel_Id :: int
  ss_DestAddress :: IPAddress
  setupPri :: int
  holdingPri :: int

record SenderTemplateObj_t =
  st_SrcAddress :: IPAddress
  Lsp_Id :: int

definition newSessionObj :: SessionObj_t where
  "newSessionObj = \<lparr> Tunnel_Id = 0, Extended_Tunnel_Id = 0, ss_DestAddress = 0, setupPri = 0, holdingPri = 0 \<rparr>"

definition newSenderTemplate :: SenderTemplateObj_t where
  "newSenderTemplate = \<lparr> st_SrcAddress = 0, Lsp_Id = - 1 \<rparr>"

text \<open>The priorities are not compared.\<close>

definition session_eq :: "SessionObj_t \<Rightarrow> SessionObj_t \<Rightarrow> bool" where
  "session_eq a b \<longleftrightarrow> ss_DestAddress a = ss_DestAddress b \<and> Tunnel_Id a = Tunnel_Id b \<and> Extended_Tunnel_Id a = Extended_Tunnel_Id b"

definition sender_eq :: "SenderTemplateObj_t \<Rightarrow> SenderTemplateObj_t \<Rightarrow> bool" where
  "sender_eq a b \<longleftrightarrow> st_SrcAddress a = st_SrcAddress b \<and> Lsp_Id a = Lsp_Id b"

end
