(* ===== verification/TED_Flooding.thy ===== *)
theory TED_Flooding
  imports TED_Module MPLS_Objects
begin

text \<open>
  The flooding protocol (\<open>ted/LinkStateRouting.cc\<close>) that fills the traffic engineering database, and what it makes of
  the information that arrives: the database keeps the newest information about every link, in whatever order and how
  often it arrives.
\<close>

section \<open>Data\<close>

definition LINK_STATE_MESSAGE :: int where "LINK_STATE_MESSAGE = 1"
definition TED_TRAFFIC :: int where "TED_TRAFFIC = 1"

record LinkStateMsg =
  linkInfo :: "TELinkStateInfo list"
  request :: bool
  ls_command :: int

text \<open>A message on the gate \<open>ipOut\<close> with its control information, length and parameter.\<close>

record LSOut =
  lo_msg :: LinkStateMsg
  lo_dest :: IPAddress
  lo_src :: IPAddress
  lo_protocol :: int
  lo_byteLength :: int
  lo_color :: int

text \<open>The member \<open>tedmod\<close> points to the database of the node; \<open>announceMsg\<close> is the time the announcement is scheduled at.\<close>

record LinkStateRouting =
  tedmod :: TED
  announceMsg :: "simtime option"
  ls_routerId :: IPAddress
  peerIfAddrs :: "IPAddress list"

datatype LSEvent = Announce | FromIP LinkStateMsg IPAddress | OtherMessage

section \<open>Operations\<close>

definition ls_sendToIP :: "LinkStateMsg \<Rightarrow> IPAddress \<Rightarrow> LinkStateRouting \<Rightarrow> LSOut" where
  "ls_sendToIP msg destAddr s =
     \<lparr> lo_msg = msg, lo_dest = destAddr, lo_src = ls_routerId s, lo_protocol = IP_PROT_OSPF,
       lo_byteLength = int (length (linkInfo msg)) * 72, lo_color = TED_TRAFFIC \<rparr>"

definition sendToPeer :: "IPAddress \<Rightarrow> TELinkStateInfo list \<Rightarrow> bool \<Rightarrow> LinkStateRouting \<Rightarrow> LSOut" where
  "sendToPeer peer list req s =
     ls_sendToIP \<lparr> linkInfo = list, request = req, ls_command = LINK_STATE_MESSAGE \<rparr> peer s"

fun peersLoop :: "TELinkStateInfo list \<Rightarrow> TELinkStateInfo list \<Rightarrow> bool \<Rightarrow> IPAddress \<Rightarrow> LinkStateRouting \<Rightarrow> LSOut list" where
  "peersLoop [] list req exceptPeer s = []"
| "peersLoop (l # ls) list req exceptPeer s =
     (if te_advrouter l \<noteq> ls_routerId s then peersLoop ls list req exceptPeer s
      else if te_linkid l = exceptPeer then peersLoop ls list req exceptPeer s
      else if \<not> te_state l then peersLoop ls list req exceptPeer s
      else if te_local l \<notin> set (peerIfAddrs s) then peersLoop ls list req exceptPeer s
      else sendToPeer (te_linkid l) list req s # peersLoop ls list req exceptPeer s)"

definition sendToPeers :: "TELinkStateInfo list \<Rightarrow> bool \<Rightarrow> IPAddress \<Rightarrow> LinkStateRouting \<Rightarrow> LSOut list" where
  "sendToPeers list req exceptPeer s = peersLoop (ted (tedmod s)) list req exceptPeer s"

text \<open>The loop over the links of a message; the flag is \<open>change\<close>, the list is \<open>forward\<close>.\<close>

definition copyInfo :: "TELinkStateInfo \<Rightarrow> TELinkStateInfo \<Rightarrow> TELinkStateInfo" where
  "copyInfo link match =
     match\<lparr>te_state := te_state link, te_messageId := te_messageId link, te_sourceId := te_sourceId link,
           te_timestamp := te_timestamp link, te_UnResvBandwidth := te_UnResvBandwidth link,
           te_MaxBandwidth := te_MaxBandwidth link, te_metric := te_metric link\<rparr>"

definition processLink :: "TELinkStateInfo \<Rightarrow> bool \<times> TELinkStateInfo list \<times> TED \<Rightarrow> (bool \<times> TELinkStateInfo list \<times> TED) res" where
  "processLink link st =
     (let (change, forward, t) = st
      in case checkLinkValidity link t of
           None \<Rightarrow> Inr (change, forward, t)
         | Some match \<Rightarrow>
             if te_sourceId link \<noteq> te_advrouter link then Inl (AssertFailed ''link.sourceId == link.advrouter.getInt()'')
             else case match of
                    None \<Rightarrow> Inr (True, forward @ [link], t\<lparr>ted := ted t @ [link]\<rparr>)
                  | Some i \<Rightarrow> Inr (change \<or> te_state (ted t ! i) \<noteq> te_state link, forward @ [link],
                                  t\<lparr>ted := (ted t)[i := copyInfo link (ted t ! i)]\<rparr>))"

fun processLinks :: "TELinkStateInfo list \<Rightarrow> bool \<times> TELinkStateInfo list \<times> TED \<Rightarrow> (bool \<times> TELinkStateInfo list \<times> TED) res" where
  "processLinks [] st = Inr st"
| "processLinks (l # ls) st = bindE (processLink l st) (processLinks ls)"

definition processLINK_STATE_MESSAGE :: "LinkStateMsg \<Rightarrow> IPAddress \<Rightarrow> LinkStateRouting \<Rightarrow> (LinkStateRouting \<times> LSOut list) res" where
  "processLINK_STATE_MESSAGE msg sender s =
     bindE (processLinks (linkInfo msg) (False, [], tedmod s)) (\<lambda>(change, forward, t).
     bindE (if change then rebuildRoutingTable t else Inr t) (\<lambda>t.
     let s = s\<lparr>tedmod := t\<rparr>
     in Inr (s, (if request msg then [sendToPeer sender (ted t) False s] else []) @
                (if forward \<noteq> [] then sendToPeers forward False sender s else []))))"

definition ls_handleMessage :: "LSEvent \<Rightarrow> LinkStateRouting \<Rightarrow> (LinkStateRouting \<times> LSOut list) res" where
  "ls_handleMessage ev s =
     (case ev of
        Announce \<Rightarrow> let s = s\<lparr>announceMsg := None\<rparr> in Inr (s, sendToPeers (ted (tedmod s)) True 0 s)
      | FromIP msg sender \<Rightarrow> processLINK_STATE_MESSAGE msg sender s
      | OtherMessage \<Rightarrow> Inl (AssertFailed ''false''))"

text \<open>The notification \<open>NF_TED_CHANGED\<close> about the links with the indices \<open>is\<close>.\<close>

fun stampLinks :: "simtime \<Rightarrow> nat list \<Rightarrow> TED \<Rightarrow> (TELinkStateInfo list \<times> TED) res" where
  "stampLinks tm [] t = Inr ([], t)"
| "stampLinks tm (i # is) t =
     bindE (updateTimestamp tm i t) (\<lambda>t.
     bindE (stampLinks tm is t) (\<lambda>(links, t').
     Inr (ted t ! i # links, t')))"

definition ls_receiveChangeNotification :: "simtime \<Rightarrow> nat list \<Rightarrow> LinkStateRouting \<Rightarrow> (LinkStateRouting \<times> LSOut list) res" where
  "ls_receiveChangeNotification tm tedLinkIndices s =
     (if tedLinkIndices = [] then Inl (AssertFailed ''k > 0'')
      else bindE (stampLinks tm tedLinkIndices (tedmod s)) (\<lambda>(links, t).
           let s = s\<lparr>tedmod := t\<rparr> in Inr (s, sendToPeers links False 0 s)))"

text \<open>The parameter \<open>peers\<close> is given as its tokens, \<open>delay\<close> is the sample of \<open>exponential(0.01)\<close>.\<close>

fun collectPeers :: "string list \<Rightarrow> InterfaceTable \<Rightarrow> IPAddress list res" where
  "collectPeers [] ift = Inr []"
| "collectPeers (token # ts) ift =
     (case getInterfaceByName token ift of
        None \<Rightarrow> Inl (AssertFailed ''ift->getInterfaceByName(token)'')
      | Some ie \<Rightarrow> bindE (ipv4Data ie ift) (\<lambda>d. bindE (collectPeers ts ift) (\<lambda>as. Inr (inetAddr d # as))))"

definition ls_initialize :: "nat \<Rightarrow> simtime \<Rightarrow> simtime \<Rightarrow> string list \<Rightarrow> TED \<Rightarrow> LinkStateRouting \<Rightarrow> LinkStateRouting res" where
  "ls_initialize stage tm delay peers t s =
     (if stage \<noteq> 4 then Inr s
      else bindE (collectPeers peers (nift (te_node t))) (\<lambda>as.
           Inr (s\<lparr>tedmod := t, ls_routerId := routerId (nrt (te_node t)), peerIfAddrs := peerIfAddrs s @ as, announceMsg := Some (tm + delay)\<rparr>)))"

section \<open>The newest information\<close>

abbreviation key :: "TELinkStateInfo \<Rightarrow> IPAddress \<times> IPAddress" where
  "key l \<equiv> (te_advrouter l, te_linkid l)"

definition older :: "TELinkStateInfo \<Rightarrow> TELinkStateInfo \<Rightarrow> bool" where
  "older a b \<longleftrightarrow> te_timestamp a < te_timestamp b \<or> te_timestamp a = te_timestamp b \<and> te_messageId a < te_messageId b"

text \<open>The newest information about every link in a set of announcements.\<close>

definition latest :: "TELinkStateInfo set \<Rightarrow> TELinkStateInfo set" where
  "latest S = {l \<in> S. \<forall>l' \<in> S. key l' = key l \<longrightarrow> \<not> older l l'}"

text \<open>
  Announcements of one simulation: every router stamps its own information with unique stamps, and a link does not
  change its interface addresses.
\<close>

definition announcements :: "TELinkStateInfo set \<Rightarrow> bool" where
  "announcements U \<longleftrightarrow> (\<forall>a \<in> U. te_sourceId a = te_advrouter a) \<and>
     (\<forall>a \<in> U. \<forall>b \<in> U. te_sourceId a = te_sourceId b \<and> te_messageId a = te_messageId b \<and> te_timestamp a = te_timestamp b \<longrightarrow> a = b) \<and>
     (\<forall>a \<in> U. \<forall>b \<in> U. key a = key b \<longrightarrow> te_local a = te_local b \<and> te_remote a = te_remote b)"

definition db_ok :: "TELinkStateInfo set \<Rightarrow> TELinkStateInfo list \<Rightarrow> bool" where
  "db_ok U ls \<longleftrightarrow> set ls \<subseteq> U \<and> distinct (map key ls)"

lemma older_trans: "older a b \<Longrightarrow> older b c \<Longrightarrow> older a c"
  unfolding older_def by auto

lemma older_irrefl [simp]: "\<not> older a a"
  by (simp add: older_def)


lemma not_older_trans: "\<not> older a b \<Longrightarrow> \<not> older b c \<Longrightarrow> \<not> older a c"
  unfolding older_def by auto

lemma newest_exists: "finite A \<Longrightarrow> A \<noteq> {} \<Longrightarrow> \<exists>m \<in> A. \<forall>x \<in> A. \<not> older m x"
proof (induction rule: finite_ne_induct)
  case (insert a A)
  then obtain m where m: "m \<in> A" "\<forall>x \<in> A. \<not> older m x" by blast
  show ?case
  proof (cases "older m a")
    case True
    then have "\<forall>x \<in> A. \<not> older a x" using m(2) older_trans by blast
    then show ?thesis by auto
  qed (use m in auto)
qed simp

lemma latest_exists:
  assumes "finite S" "l \<in> S"
  shows "\<exists>m \<in> latest S. key m = key l \<and> \<not> older m l"
proof -
  have "finite {x \<in> S. key x = key l}" "{x \<in> S. key x = key l} \<noteq> {}" using assms by auto
  from newest_exists [OF this] obtain m where "m \<in> S" "key m = key l" "\<forall>x \<in> S. key x = key l \<longrightarrow> \<not> older m x" by auto
  then show ?thesis using assms(2) by (intro bexI [of _ m]) (auto simp: latest_def)
qed

lemma latest_insert:
  assumes "finite S"
  shows "latest (insert l (latest S)) = latest (insert l S)"
proof (intro equalityI subsetI)
  fix x
  assume x: "x \<in> latest (insert l (latest S))"
  then have xS: "x \<in> insert l S" by (auto simp: latest_def)
  have "\<not> older x y" if y: "y \<in> insert l S" "key y = key x" for y
  proof (cases "y = l")
    case True
    then show ?thesis using x y by (auto simp: latest_def)
  next
    case False
    then obtain m where "m \<in> latest S" "key m = key y" "\<not> older m y" using latest_exists [OF assms, of y] y by auto
    moreover from this have "\<not> older x m" using x y by (auto simp: latest_def)
    ultimately show ?thesis using not_older_trans by blast
  qed
  then show "x \<in> latest (insert l S)" using xS by (auto simp: latest_def)
qed (auto simp: latest_def)

lemma latest_distinct: "distinct (map key ls) \<Longrightarrow> latest (set ls) = set ls"
  by (auto simp: latest_def distinct_conv_nth in_set_conv_nth) (metis older_irrefl)

section \<open>One link of a message\<close>

lemma validity_spec:
  assumes "announcements U" "set ls \<subseteq> U" "l \<in> U"
  shows "validityLoop l i ls = None \<Longrightarrow> \<exists>l' \<in> set ls. key l' = key l \<and> \<not> older l' l"
    and "validityLoop l i ls = Some None \<Longrightarrow> key l \<notin> key ` set ls"
    and "validityLoop l i ls = Some (Some k) \<Longrightarrow> i \<le> k \<and> k - i < length ls \<and> key (ls ! (k - i)) = key l \<and> older (ls ! (k - i)) l"
  using assms(2)
proof (induction ls arbitrary: i)
  case (Cons x xs)
  have seen: "x = l" if "x \<in> U" "te_sourceId x = te_sourceId l" "te_messageId x = te_messageId l" "te_timestamp x = te_timestamp l"
    using assms(1,3) that by (auto simp: announcements_def)
  {
    case 1
    show ?case using 1 Cons.IH(1) [of "Suc i"] seen by (auto simp: older_def split: if_splits)
  next
    case 2
    show ?case using 2 Cons.IH(2) [of "Suc i"] by (auto split: if_splits)
  next
    case 3
    then have x: "set xs \<subseteq> U" by simp
    show ?case
    proof (cases "key x = key l")
      case True
      then show ?thesis using 3 by (auto simp: older_def split: if_splits)
    next
      case False
      then have "validityLoop l (Suc i) xs = Some (Some k)" using 3 by (auto split: if_splits)
      note IH = Cons.IH(3) [OF this x]
      then have "k - i = Suc (k - Suc i)" by linarith
      then show ?thesis using IH by simp
    qed
  }
qed auto

lemma copyInfo_exact:
  assumes "announcements U" "l \<in> U" "m \<in> U" "key m = key l"
  shows "copyInfo l m = l"
proof -
  have "te_local m = te_local l" "te_remote m = te_remote l" using assms unfolding announcements_def by blast+
  then show ?thesis using assms(4) by (cases l, cases m) (simp add: copyInfo_def)
qed

lemma processLink_latest:
  assumes "announcements U" "db_ok U (ted t)" "l \<in> U"
  shows "\<exists>c' f' t'. processLink l (c, f, t) = Inr (c', f', t') \<and> db_ok U (ted t') \<and> te_node t' = te_node t \<and>
    set (ted t') = latest (insert l (set (ted t))) \<and>
    f' = (if \<exists>l' \<in> set (ted t). key l' = key l \<and> \<not> older l' l then f else f @ [l])"
proof -
  have U: "set (ted t) \<subseteq> U" "distinct (map key (ted t))" using assms(2) by (auto simp: db_ok_def)
  have same: "a = b" if "a \<in> set (ted t)" "b \<in> set (ted t)" "key a = key b" for a b
    using that U(2) by (metis (mono_tags, lifting) distinct_map inj_onD)
  note v = validity_spec [OF assms(1) U(1) assms(3), of 0]
  have src: "te_sourceId l = te_advrouter l" using assms(1,3) by (auto simp: announcements_def)
  consider (seen) "checkLinkValidity l t = None" | (new) "checkLinkValidity l t = Some None"
    | (newer) k where "checkLinkValidity l t = Some (Some k)" by (cases "checkLinkValidity l t") auto
  then show ?thesis
  proof cases
    case seen
    then obtain l' where l': "l' \<in> set (ted t)" "key l' = key l" "\<not> older l' l" using v(1) by (auto simp: checkLinkValidity_def)
    have "latest (insert l (set (ted t))) = set (ted t)"
    proof (cases "l \<in> set (ted t)")
      case True
      then show ?thesis using latest_distinct [OF U(2)] by (simp add: insert_absorb)
    next
      case False
      have "older l l'"
        using l' False assms(1,3) U(1) src unfolding announcements_def older_def by (metis Pair_inject linorder_less_linear subsetD)
      then have "l \<notin> latest (insert l (set (ted t)))" using l' by (auto simp: latest_def)
      moreover have "a \<in> latest (insert l (set (ted t)))" if a: "a \<in> set (ted t)" for a
      proof -
        have "\<not> older a l" if "key l = key a" using same [OF a l'(1)] l'(2,3) that by auto
        moreover have "\<not> older a x" if "x \<in> set (ted t)" "key x = key a" for x using same [OF a that(1)] that(2) by auto
        ultimately show ?thesis using a by (auto simp: latest_def)
      qed
      ultimately show ?thesis by (auto simp: latest_def)
    qed
    moreover have "\<exists>l' \<in> set (ted t). key l' = key l \<and> \<not> older l' l" using l' by blast
    ultimately show ?thesis using seen assms(2) by (simp add: processLink_def)
  next
    case new
    then have "key l \<notin> key ` set (ted t)" using v(2) by (simp add: checkLinkValidity_def)
    then have d: "distinct (map key (ted t @ [l]))" "\<not> (\<exists>l' \<in> set (ted t). key l' = key l \<and> \<not> older l' l)"
      using U(2) by (auto simp: image_iff)
    have "processLink l (c, f, t) = Inr (True, f @ [l], t\<lparr>ted := ted t @ [l]\<rparr>)" using new src by (simp add: processLink_def)
    moreover have "db_ok U (ted t @ [l])" "latest (insert l (set (ted t))) = set (ted t @ [l])"
      using d(1) latest_distinct [OF d(1)] U assms(3) by (simp_all add: db_ok_def)
    ultimately show ?thesis using d(2) by (intro exI [of _ True] exI [of _ "f @ [l]"] exI [of _ "t\<lparr>ted := ted t @ [l]\<rparr>"]) auto
  next
    case newer
    then have k: "k < length (ted t)" "key (ted t ! k) = key l" "older (ted t ! k) l"
      using v(3) by (auto simp: checkLinkValidity_def)
    let ?ls = "(ted t)[k := l]"
    have "ted t ! k \<in> U" using U(1) k(1) by auto
    then have copy: "copyInfo l (ted t ! k) = l" using copyInfo_exact [OF assms(1,3)] k(2) by blast
    have kk: "map key (ted t) ! k = key l" using k by simp
    have "map key ?ls = (map key (ted t))[k := map key (ted t) ! k]" unfolding kk by (rule map_update)
    then have d: "distinct (map key ?ls)" using U(2) unfolding list_update_id by simp
    have le: "set ?ls \<subseteq> insert l (set (ted t))" by (rule set_update_subset_insert)
    have "insert l (set (ted t)) = insert (ted t ! k) (set ?ls)"
      using k(1) set_update_memI [OF k(1), of l] by (auto simp: in_set_conv_nth nth_list_update) (metis, metis nth_list_update_neq)
    moreover have "latest (insert (ted t ! k) (set ?ls)) = set ?ls"
    proof -
      have l: "l \<in> set ?ls" using k(1) by (rule set_update_memI)
      have "ted t ! k \<notin> latest (insert (ted t ! k) (set ?ls))" using k(2,3) l by (auto simp: latest_def)
      moreover have "latest (set ?ls) = set ?ls" by (rule latest_distinct [OF d])
      moreover have "a \<in> latest (insert (ted t ! k) (set ?ls))" if "a \<in> latest (set ?ls)" for a
        using that l k(2,3) older_trans [of a "ted t ! k" l] by (auto simp: latest_def)
      ultimately show ?thesis by (auto simp: latest_def)
    qed
    moreover have "\<not> (\<exists>l' \<in> set (ted t). key l' = key l \<and> \<not> older l' l)"
      using same [OF _ nth_mem [OF k(1)]] k(2,3) by auto
    ultimately show ?thesis using newer src copy d le U(1) assms(3) by (auto simp: processLink_def db_ok_def)
  qed
qed

section \<open>Replicas of a set of announcements\<close>

text \<open>
  What the flooding relies on, for any way of merging a message into a state: the state stands for a set that is the
  normal form of what it was before and of what the message holds.  Then the order of the messages and their repetition
  do not matter.
\<close>

fun absorbs :: "('m \<Rightarrow> 's \<Rightarrow> 'e + 's) \<Rightarrow> 'm list \<Rightarrow> 's \<Rightarrow> 'e + 's" where
  "absorbs absorb [] s = Inr s"
| "absorbs absorb (m # ms) s = (case absorb m s of Inl e \<Rightarrow> Inl e | Inr s' \<Rightarrow> absorbs absorb ms s')"

locale replica =
  fixes absorb :: "'m \<Rightarrow> 's \<Rightarrow> 'e + 's" and holds :: "'s \<Rightarrow> 'a set" and info :: "'m \<Rightarrow> 'a set" and norm :: "'a set \<Rightarrow> 'a set"
    and ok :: "'s \<Rightarrow> bool" and valid :: "'m \<Rightarrow> bool"
  assumes absorb_holds: "ok s \<Longrightarrow> valid m \<Longrightarrow> absorb m s = Inr s' \<Longrightarrow> ok s' \<and> holds s' = norm (holds s \<union> info m)"
    and finite_info: "finite (info m)" "finite (holds s)"
    and norm_union: "finite S \<Longrightarrow> finite T \<Longrightarrow> norm (norm S \<union> T) = norm (S \<union> T)"
    and norm_holds: "ok s \<Longrightarrow> norm (holds s) = holds s"
begin

lemma absorbs_holds:
  assumes "ok s" "\<forall>m \<in> set ms. valid m" "absorbs absorb ms s = Inr s'"
  shows "ok s' \<and> holds s' = norm (holds s \<union> (\<Union>m \<in> set ms. info m))"
  using assms
proof (induction ms arbitrary: s)
  case Nil
  then show ?case using norm_holds by simp
next
  case (Cons m ms)
  then obtain s1 where s1: "absorb m s = Inr s1" "absorbs absorb ms s1 = Inr s'" by (auto split: sum.splits)
  then have 1: "ok s1" "holds s1 = norm (holds s \<union> info m)" using absorb_holds [of s m s1] Cons.prems by auto
  have "ok s' \<and> holds s' = norm (holds s1 \<union> (\<Union>m \<in> set ms. info m))" using Cons.IH [OF 1(1)] Cons.prems s1(2) by simp
  moreover have "norm (norm (holds s \<union> info m) \<union> (\<Union>m \<in> set ms. info m)) = norm ((holds s \<union> info m) \<union> (\<Union>m \<in> set ms. info m))"
    using finite_info by (intro norm_union) auto
  ultimately show ?case using 1(2) by (simp add: Un_assoc)
qed

lemma convergence:
  assumes "ok s" "ok t" "\<forall>m \<in> set ms. valid m" "\<forall>m \<in> set ns. valid m" "absorbs absorb ms s = Inr s'" "absorbs absorb ns t = Inr t'"
    and "holds s \<union> (\<Union>m \<in> set ms. info m) = holds t \<union> (\<Union>m \<in> set ns. info m)"
  shows "holds s' = holds t'"
  using absorbs_holds [OF assms(1,3,5)] absorbs_holds [OF assms(2,4,6)] assms(7) by simp

end

lemma latest_union: "finite T \<Longrightarrow> finite S \<Longrightarrow> latest (latest S \<union> T) = latest (S \<union> T)"
proof (induction T rule: finite_induct)
  case empty
  then show ?case by (auto simp: latest_def)
next
  case (insert l T)
  have "finite (latest S \<union> T)" by (rule finite_subset [of _ "S \<union> T"]) (use insert in \<open>auto simp: latest_def\<close>)
  then have "latest (latest S \<union> insert l T) = latest (insert l (latest (latest S \<union> T)))"
    using latest_insert [of "latest S \<union> T" l] by simp
  also have "\<dots> = latest (insert l (latest (S \<union> T)))" using insert by simp
  also have "\<dots> = latest (S \<union> insert l T)" using latest_insert [of "S \<union> T" l] insert by simp
  finally show ?case .
qed

lemma processLinks_latest:
  assumes "announcements U" "db_ok U (ted t)" "set ls \<subseteq> U"
  shows "\<exists>c' f' t'. processLinks ls (c, f, t) = Inr (c', f', t') \<and> db_ok U (ted t') \<and> te_node t' = te_node t \<and>
    set (ted t') = latest (set (ted t) \<union> set ls)"
  using assms(2,3)
proof (induction ls arbitrary: c f t)
  case Nil
  then show ?case using latest_distinct by (simp add: db_ok_def)
next
  case (Cons l ls)
  obtain c1 f1 t1 where 1: "processLink l (c, f, t) = Inr (c1, f1, t1)" "db_ok U (ted t1)" "te_node t1 = te_node t"
    "set (ted t1) = latest (insert l (set (ted t)))"
    using processLink_latest [OF assms(1) Cons.prems(1), of l c f] Cons.prems(2) by auto
  obtain c2 f2 t2 where "processLinks ls (c1, f1, t1) = Inr (c2, f2, t2)" "db_ok U (ted t2)" "te_node t2 = te_node t1"
    "set (ted t2) = latest (set (ted t1) \<union> set ls)"
    using Cons.IH [OF 1(2), of c1 f1] Cons.prems(2) by auto
  moreover have "latest (latest (insert l (set (ted t))) \<union> set ls) = latest (insert l (set (ted t)) \<union> set ls)"
    by (intro latest_union) simp_all
  ultimately show ?case using 1 by simp
qed

section \<open>Messages\<close>

lemma rebuild_ted: "rebuildRoutingTable t = Inr t' \<Longrightarrow> ted t' = ted t"
  by (auto simp: rebuildRoutingTable_def bindE_eq_Inr)

text \<open>A message and the address it comes from; what is sent in return is left out.\<close>

definition receive :: "LinkStateMsg \<times> IPAddress \<Rightarrow> LinkStateRouting \<Rightarrow> LinkStateRouting res" where
  "receive = (\<lambda>(msg, sender) s. bindE (processLINK_STATE_MESSAGE msg sender s) (\<lambda>(s', out). Inr s'))"

lemma receive_latest:
  assumes "announcements U" "db_ok U (ted (tedmod s))" "set (linkInfo (fst m)) \<subseteq> U" "receive m s = Inr s'"
  shows "db_ok U (ted (tedmod s')) \<and> set (ted (tedmod s')) = latest (set (ted (tedmod s)) \<union> set (linkInfo (fst m)))"
proof -
  obtain c f t where t: "processLinks (linkInfo (fst m)) (False, [], tedmod s) = Inr (c, f, t)" "db_ok U (ted t)"
    "set (ted t) = latest (set (ted (tedmod s)) \<union> set (linkInfo (fst m)))"
    using processLinks_latest [OF assms(1-3), of False "[]"] by blast
  then have "ted (tedmod s') = ted t"
    using assms(4) rebuild_ted by (cases c) (auto simp: receive_def processLINK_STATE_MESSAGE_def bindE_eq_Inr Let_def split: prod.splits)
  then show ?thesis using t by simp
qed

interpretation flood: replica receive "\<lambda>s. set (ted (tedmod s))" "\<lambda>m. set (linkInfo (fst m))" latest
  "\<lambda>s. announcements U \<and> db_ok U (ted (tedmod s))" "\<lambda>m. set (linkInfo (fst m)) \<subseteq> U" for U
proof unfold_locales
  fix s m s'
  assume "announcements U \<and> db_ok U (ted (tedmod s))" "set (linkInfo (fst m)) \<subseteq> U" "receive m s = Inr s'"
  then show "(announcements U \<and> db_ok U (ted (tedmod s'))) \<and> set (ted (tedmod s')) = latest (set (ted (tedmod s)) \<union> set (linkInfo (fst m)))"
    using receive_latest by blast
qed (auto simp: db_ok_def latest_union latest_distinct)

definition exInfo :: "u32 \<Rightarrow> u32 \<Rightarrow> simtime \<Rightarrow> bool \<Rightarrow> TELinkStateInfo" where
  "exInfo a b tm up = \<lparr> te_advrouter = a, te_linkid = b, te_local = a + 16, te_remote = b + 16, te_metric = 1, te_MaxBandwidth = 100,
     te_UnResvBandwidth = replicate 8 100, te_timestamp = tm, te_sourceId = a, te_messageId = b, te_state = up \<rparr>"

definition exLSR :: LinkStateRouting where
  "exLSR = \<lparr> tedmod = \<lparr> ted = [exInfo 3 4 0 True], te_routerId = 1, interfaceAddrs = [], maxMessageId = 0,
       te_node = \<lparr> nift = newInterfaceTable, nrt = newRoutingTable True, inInit = False \<rparr> \<rparr>,
     announceMsg = None, ls_routerId = 1, peerIfAddrs = [] \<rparr>"

definition exMsg :: "TELinkStateInfo list \<Rightarrow> LinkStateMsg \<times> IPAddress" where
  "exMsg ls = (\<lparr> linkInfo = ls, request = False, ls_command = LINK_STATE_MESSAGE \<rparr>, 7)"

lemma exLSR_receives:
  "\<exists>s s'. absorbs receive [exMsg [exInfo 3 4 1 True], exMsg [exInfo 3 4 2 False]] exLSR = Inr s \<and>
    absorbs receive [exMsg [exInfo 3 4 2 False, exInfo 3 4 1 True]] exLSR = Inr s'"
proof -
  have "\<not> isl (absorbs receive [exMsg [exInfo 3 4 1 True], exMsg [exInfo 3 4 2 False]] exLSR)"
    "\<not> isl (absorbs receive [exMsg [exInfo 3 4 2 False, exInfo 3 4 1 True]] exLSR)" by code_simp+
  then show ?thesis by (metis sum.collapse(2))
qed

text \<open>
  Property C10: what a router makes of the link state messages it receives does not depend on their order or on how often they
  arrive: when two routers have heard of the same announcements, their databases hold the same information, and it is
  the newest about every link.
\<close>
theorem flooding_converges:
  assumes "announcements U" "db_ok U (ted (tedmod a))" "db_ok U (ted (tedmod b))"
    and "\<forall>m \<in> set ms. set (linkInfo (fst m)) \<subseteq> U" "\<forall>m \<in> set ns. set (linkInfo (fst m)) \<subseteq> U"
    and "absorbs receive ms a = Inr a'" "absorbs receive ns b = Inr b'"
    and "set (ted (tedmod a)) \<union> (\<Union>m \<in> set ms. set (linkInfo (fst m))) = S"
    and "set (ted (tedmod b)) \<union> (\<Union>m \<in> set ns. set (linkInfo (fst m))) = S"
  shows "set (ted (tedmod a')) = latest S \<and> set (ted (tedmod b')) = latest S"
  using flood.absorbs_holds [of U a ms a'] flood.absorbs_holds [of U b ns b'] assms by auto

theorem flooding_converges_witness:
  "\<exists>a' b'. absorbs receive [exMsg [exInfo 3 4 1 True], exMsg [exInfo 3 4 2 False]] exLSR = Inr a' \<and>
    absorbs receive [exMsg [exInfo 3 4 2 False, exInfo 3 4 1 True]] exLSR = Inr b' \<and>
    set (ted (tedmod a')) = latest {exInfo 3 4 0 True, exInfo 3 4 1 True, exInfo 3 4 2 False} \<and>
    set (ted (tedmod b')) = latest {exInfo 3 4 0 True, exInfo 3 4 1 True, exInfo 3 4 2 False}"
proof -
  let ?U = "{exInfo 3 4 0 True, exInfo 3 4 1 True, exInfo 3 4 2 False}"
  obtain a' b' where r: "absorbs receive [exMsg [exInfo 3 4 1 True], exMsg [exInfo 3 4 2 False]] exLSR = Inr a'"
    "absorbs receive [exMsg [exInfo 3 4 2 False, exInfo 3 4 1 True]] exLSR = Inr b'"
    using exLSR_receives by blast
  have U: "announcements ?U" by (auto simp: announcements_def exInfo_def)
  have db: "db_ok ?U (ted (tedmod exLSR))" by (simp add: db_ok_def exLSR_def)
  have "set (ted (tedmod a')) = latest ?U \<and> set (ted (tedmod b')) = latest ?U"
    by (rule flooding_converges [OF U db db _ _ r]) (auto simp: exMsg_def exLSR_def)
  then show ?thesis using r by blast
qed

end
