(* ===== verification/Ether_Frame.thy ===== *)
theory Ether_Frame
  imports MAC_Address "HOL-Library.AList"
begin

text \<open>
  Ethernet frames (\<open>ethernet/EtherFrame.msg\<close>, \<open>ethernet/Ethernet.h\<close>) and the two modules that put packets into frames:
  \<open>EtherEncap\<close> for Ethernet II, \<open>EtherLLC\<close> for IEEE 802.2 with its registration of service access points.
\<close>

section \<open>Frames\<close>

text \<open>The encapsulated packet: the identity of the object and its length.  The subclass of a frame has its own fields.\<close>

record Payload =
  pl_id :: nat
  pl_byteLength :: int

datatype EtherKind =
    EthernetIIFrame int
  | EtherFrameWithLLC int int int
  | EtherFrameWithSNAP int int
  | EtherPauseFrame int

record EtherFrame =
  ef_dest :: MACAddress
  ef_src :: MACAddress
  ef_byteLength :: int
  ef_kind :: EtherKind
  ef_payload :: "Payload option"

definition MAX_ETHERNET_DATA :: int where "MAX_ETHERNET_DATA = 1500"
definition MAX_ETHERNET_FRAME :: int where "MAX_ETHERNET_FRAME = 1518"
definition MIN_ETHERNET_FRAME :: int where "MIN_ETHERNET_FRAME = 64"
definition ETHER_MAC_FRAME_BYTES :: int where "ETHER_MAC_FRAME_BYTES = 6 + 6 + 2 + 4"
definition ETHER_LLC_HEADER_LENGTH :: int where "ETHER_LLC_HEADER_LENGTH = 3"
definition ETHER_PAUSE_COMMAND_BYTES :: int where "ETHER_PAUSE_COMMAND_BYTES = 6"

definition isPauseFrame :: "EtherFrame \<Rightarrow> bool" where
  "isPauseFrame f \<longleftrightarrow> (case ef_kind f of EtherPauseFrame _ \<Rightarrow> True | _ \<Rightarrow> False)"

text \<open>\<open>frame->encapsulate(msg)\<close>, and the padding of a short frame.\<close>

definition encapsulateFrame :: "Payload \<Rightarrow> EtherFrame \<Rightarrow> EtherFrame" where
  "encapsulateFrame msg frame = frame\<lparr>ef_payload := Some msg, ef_byteLength := ef_byteLength frame + pl_byteLength msg\<rparr>"

definition padFrame :: "EtherFrame \<Rightarrow> EtherFrame" where
  "padFrame frame = (if ef_byteLength frame < MIN_ETHERNET_FRAME then frame\<lparr>ef_byteLength := MIN_ETHERNET_FRAME\<rparr> else frame)"

section \<open>Control information\<close>

definition IEEE802CTRL_DATA :: int where "IEEE802CTRL_DATA = 2003"
definition IEEE802CTRL_REGISTER_DSAP :: int where "IEEE802CTRL_REGISTER_DSAP = 2004"
definition IEEE802CTRL_DEREGISTER_DSAP :: int where "IEEE802CTRL_DEREGISTER_DSAP = 2005"
definition IEEE802CTRL_SENDPAUSE :: int where "IEEE802CTRL_SENDPAUSE = 2006"

record Ieee802Ctrl =
  ic_src :: MACAddress
  ic_dest :: MACAddress
  ic_etherType :: int
  ic_ssap :: int
  ic_dsap :: int
  ic_pauseUnits :: int

definition newIeee802Ctrl :: Ieee802Ctrl where
  "newIeee802Ctrl = \<lparr> ic_src = 0, ic_dest = 0, ic_etherType = 0, ic_ssap = 0, ic_dsap = 0, ic_pauseUnits = 0 \<rparr>"

text \<open>
  A message from the MAC (\<open>None\<close> when it is not a frame), or from the gate of a higher layer with its kind, control
  information and packet (\<open>None\<close> when the message is not a packet).
\<close>

datatype L2In = FromMAC "EtherFrame option" | FromHigher int int "Ieee802Ctrl option" "Payload option"

datatype L2Out = ToMAC EtherFrame | ToHigher int Payload Ieee802Ctrl

definition pauseFrame :: "int \<Rightarrow> EtherFrame" where
  "pauseFrame pauseUnits =
     padFrame \<lparr> ef_dest = 0, ef_src = 0, ef_byteLength = ETHER_MAC_FRAME_BYTES + ETHER_PAUSE_COMMAND_BYTES,
       ef_kind = EtherPauseFrame pauseUnits, ef_payload = None \<rparr>"

section \<open>Ethernet II\<close>

record EtherEncap =
  ee_seqNum :: int
  ee_totalFromHigherLayer :: int
  ee_totalFromMAC :: int
  ee_totalPauseSent :: int

definition ee_initialize :: EtherEncap where
  "ee_initialize = \<lparr> ee_seqNum = 0, ee_totalFromHigherLayer = 0, ee_totalFromMAC = 0, ee_totalPauseSent = 0 \<rparr>"

definition ee_processPacketFromHigherLayer :: "Payload \<Rightarrow> Ieee802Ctrl option \<Rightarrow> EtherEncap \<Rightarrow> (EtherEncap \<times> L2Out list) res" where
  "ee_processPacketFromHigherLayer msg ctrl s =
     (if pl_byteLength msg > MAX_ETHERNET_DATA then Inl (RuntimeError ''packet from higher layer exceeds maximum Ethernet payload length'')
      else let s = s\<lparr>ee_totalFromHigherLayer := ee_totalFromHigherLayer s + 1\<rparr>
      in case ctrl of
           None \<Rightarrow> Inl (RuntimeError ''check_and_cast<Ieee802Ctrl>'')
         | Some etherctrl \<Rightarrow>
             let frame = \<lparr> ef_dest = ic_dest etherctrl, ef_src = ic_src etherctrl, ef_byteLength = ETHER_MAC_FRAME_BYTES,
                   ef_kind = EthernetIIFrame (ic_etherType etherctrl), ef_payload = None \<rparr>
             in Inr (s, [ToMAC (padFrame (encapsulateFrame msg frame))]))"

definition ee_processFrameFromMAC :: "EtherFrame \<Rightarrow> EtherEncap \<Rightarrow> (EtherEncap \<times> L2Out list) res" where
  "ee_processFrameFromMAC frame s =
     (let s = s\<lparr>ee_totalFromMAC := ee_totalFromMAC s + 1\<rparr>;
          etherctrl = newIeee802Ctrl\<lparr>ic_src := ef_src frame, ic_dest := ef_dest frame\<rparr>;
          etherctrl = (case ef_kind frame of EthernetIIFrame t \<Rightarrow> etherctrl\<lparr>ic_etherType := t\<rparr> | _ \<Rightarrow> etherctrl)
      in case ef_payload frame of
           None \<Rightarrow> Inl NullPointer
         | Some higherlayermsg \<Rightarrow> Inr (s, [ToHigher 0 higherlayermsg etherctrl]))"

definition ee_handleSendPause :: "Ieee802Ctrl option \<Rightarrow> EtherEncap \<Rightarrow> (EtherEncap \<times> L2Out list) res" where
  "ee_handleSendPause ctrl s =
     (case ctrl of
        None \<Rightarrow> Inl (RuntimeError ''PAUSE command from higher layer received without Ieee802Ctrl'')
      | Some etherctrl \<Rightarrow>
          Inr (s\<lparr>ee_seqNum := ee_seqNum s + 1, ee_totalPauseSent := ee_totalPauseSent s + 1\<rparr>, [ToMAC (pauseFrame (ic_pauseUnits etherctrl))]))"

definition ee_handleMessage :: "L2In \<Rightarrow> EtherEncap \<Rightarrow> (EtherEncap \<times> L2Out list) res" where
  "ee_handleMessage inp s =
     (case inp of
        FromMAC frame \<Rightarrow> (case frame of None \<Rightarrow> Inl (RuntimeError ''check_and_cast<EtherFrame>'') | Some f \<Rightarrow> ee_processFrameFromMAC f s)
      | FromHigher port kind ctrl msg \<Rightarrow>
          if kind = IEEE802CTRL_DATA \<or> kind = 0
          then (case msg of None \<Rightarrow> Inl (RuntimeError ''check_and_cast<cPacket>'') | Some pk \<Rightarrow> ee_processPacketFromHigherLayer pk ctrl s)
          else if kind = IEEE802CTRL_SENDPAUSE then ee_handleSendPause ctrl s
          else Inl (RuntimeError ''received message with unknown message kind''))"

section \<open>IEEE 802.2\<close>

record EtherLLC =
  ll_seqNum :: int
  dsapToPort :: "(int \<times> int) list"
  dsapsRegistered :: int
  ll_totalFromHigherLayer :: int
  ll_totalFromMAC :: int
  ll_totalPassedUp :: int
  droppedUnknownDSAP :: int

definition ll_initialize :: EtherLLC where
  "ll_initialize = \<lparr> ll_seqNum = 0, dsapToPort = [], dsapsRegistered = 0, ll_totalFromHigherLayer = 0, ll_totalFromMAC = 0,
     ll_totalPassedUp = 0, droppedUnknownDSAP = 0 \<rparr>"

definition ll_processPacketFromHigherLayer :: "Payload \<Rightarrow> Ieee802Ctrl option \<Rightarrow> EtherLLC \<Rightarrow> (EtherLLC \<times> L2Out list) res" where
  "ll_processPacketFromHigherLayer msg ctrl s =
     (if pl_byteLength msg > MAX_ETHERNET_DATA - ETHER_LLC_HEADER_LENGTH
      then Inl (RuntimeError ''packet from higher layer plus LLC header exceed maximum Ethernet payload length'')
      else let s = s\<lparr>ll_totalFromHigherLayer := ll_totalFromHigherLayer s + 1\<rparr>
      in case ctrl of
           None \<Rightarrow> Inl (RuntimeError ''packet from higher layer received without Ieee802Ctrl'')
         | Some etherctrl \<Rightarrow>
             let frame = \<lparr> ef_dest = ic_dest etherctrl, ef_src = 0, ef_byteLength = ETHER_MAC_FRAME_BYTES + ETHER_LLC_HEADER_LENGTH,
                   ef_kind = EtherFrameWithLLC (ic_ssap etherctrl) (ic_dsap etherctrl) 0, ef_payload = None \<rparr>
             in Inr (s, [ToMAC (padFrame (encapsulateFrame msg frame))]))"

definition findPortForSAP :: "int \<Rightarrow> EtherLLC \<Rightarrow> int" where
  "findPortForSAP dsap s = (case map_of (dsapToPort s) dsap of None \<Rightarrow> - 1 | Some port \<Rightarrow> port)"

definition ll_processFrameFromMAC :: "EtherFrame \<Rightarrow> EtherLLC \<Rightarrow> (EtherLLC \<times> L2Out list) res" where
  "ll_processFrameFromMAC frame s =
     (case ef_kind frame of
        EtherFrameWithLLC ssap dsap control \<Rightarrow>
          let s = s\<lparr>ll_totalFromMAC := ll_totalFromMAC s + 1\<rparr>;
              port = findPortForSAP dsap s
          in if port < 0 then Inr (s\<lparr>droppedUnknownDSAP := droppedUnknownDSAP s + 1\<rparr>, [])
             else (case ef_payload frame of
                     None \<Rightarrow> Inl NullPointer
                   | Some higherlayermsg \<Rightarrow>
                       let etherctrl = newIeee802Ctrl\<lparr>ic_ssap := ssap, ic_dsap := dsap, ic_src := ef_src frame, ic_dest := ef_dest frame\<rparr>
                       in Inr (s\<lparr>ll_totalPassedUp := ll_totalPassedUp s + 1\<rparr>, [ToHigher port higherlayermsg etherctrl]))
      | _ \<Rightarrow> Inl (RuntimeError ''check_and_cast<EtherFrameWithLLC>''))"

definition handleRegisterSAP :: "int \<Rightarrow> Ieee802Ctrl option \<Rightarrow> EtherLLC \<Rightarrow> (EtherLLC \<times> L2Out list) res" where
  "handleRegisterSAP port ctrl s =
     (case ctrl of
        None \<Rightarrow> Inl (RuntimeError ''packet from higher layer received without Ieee802Ctrl'')
      | Some etherctrl \<Rightarrow>
          let dsap = ic_dsap etherctrl
          in if map_of (dsapToPort s) dsap \<noteq> None then Inl (RuntimeError ''DSAP already registered'')
             else let t = AList.update dsap port (dsapToPort s)
                  in Inr (s\<lparr>dsapToPort := t, dsapsRegistered := int (length t)\<rparr>, []))"

text \<open>Erasing at the end iterator, when the access point is not registered, is undefined behaviour.\<close>

definition handleDeregisterSAP :: "Ieee802Ctrl option \<Rightarrow> EtherLLC \<Rightarrow> (EtherLLC \<times> L2Out list) res" where
  "handleDeregisterSAP ctrl s =
     (case ctrl of
        None \<Rightarrow> Inl (RuntimeError ''packet from higher layer received without Ieee802Ctrl'')
      | Some etherctrl \<Rightarrow>
          let dsap = ic_dsap etherctrl
          in if map_of (dsapToPort s) dsap = None then Inl NullPointer
             else let t = AList.delete dsap (dsapToPort s)
                  in Inr (s\<lparr>dsapToPort := t, dsapsRegistered := int (length t)\<rparr>, []))"

definition ll_handleSendPause :: "Ieee802Ctrl option \<Rightarrow> EtherLLC \<Rightarrow> (EtherLLC \<times> L2Out list) res" where
  "ll_handleSendPause ctrl s =
     (case ctrl of
        None \<Rightarrow> Inl (RuntimeError ''PAUSE command from higher layer received without Ieee802Ctrl'')
      | Some etherctrl \<Rightarrow> Inr (s\<lparr>ll_seqNum := ll_seqNum s + 1\<rparr>, [ToMAC (pauseFrame (ic_pauseUnits etherctrl))]))"

definition ll_handleMessage :: "L2In \<Rightarrow> EtherLLC \<Rightarrow> (EtherLLC \<times> L2Out list) res" where
  "ll_handleMessage inp s =
     (case inp of
        FromMAC frame \<Rightarrow> (case frame of None \<Rightarrow> Inl (RuntimeError ''check_and_cast<EtherFrameWithLLC>'') | Some f \<Rightarrow> ll_processFrameFromMAC f s)
      | FromHigher port kind ctrl msg \<Rightarrow>
          if kind = IEEE802CTRL_DATA
          then (case msg of None \<Rightarrow> Inl (RuntimeError ''check_and_cast<cPacket>'') | Some pk \<Rightarrow> ll_processPacketFromHigherLayer pk ctrl s)
          else if kind = IEEE802CTRL_REGISTER_DSAP then handleRegisterSAP port ctrl s
          else if kind = IEEE802CTRL_DEREGISTER_DSAP then handleDeregisterSAP ctrl s
          else if kind = IEEE802CTRL_SENDPAUSE then ll_handleSendPause ctrl s
          else Inl (RuntimeError ''received message with unknown message kind''))"

end
