(* ===== verification/XML_Utils.thy ===== *)
theory XML_Utils
  imports IP_Address Service_Queue
begin

text \<open>
  Reading configuration from XML (\<open>util/XMLUtils.cc\<close>), over a model of \<open>cXMLElement\<close>: the tag, the attributes, the
  children and the text of an element.
\<close>

datatype XMLElement = XMLElement
  (xTag: string) (xAttributes: "(string \<times> string) list") (xChildren: "XMLElement list") (xNodeValue: "string option")

definition getAttribute :: "string \<Rightarrow> XMLElement \<Rightarrow> string option" where
  "getAttribute name e = map_of (xAttributes e) name"

definition getChildrenByTagName :: "string \<Rightarrow> XMLElement \<Rightarrow> XMLElement list" where
  "getChildrenByTagName name e = filter (\<lambda>c. xTag c = name) (xChildren e)"

text \<open>The functions \<open>atoi\<close>, \<open>isalnum\<close> and \<open>strcasecmp\<close> of C; a null pointer is an error.\<close>

definition atoi :: "string \<Rightarrow> int" where
  "atoi s =
     (case skipSpace s of
        [] \<Rightarrow> 0
      | c # t \<Rightarrow> if c = CHR ''-'' then - fst (readNumber 0 t) else if c = CHR ''+'' then fst (readNumber 0 t)
                 else fst (readNumber 0 (c # t)))"

definition isAlnum :: "char \<Rightarrow> bool" where
  "isAlnum c \<longleftrightarrow> (let n = (of_char c :: nat) in 48 \<le> n \<and> n \<le> 57 \<or> 65 \<le> n \<and> n \<le> 90 \<or> 97 \<le> n \<and> n \<le> 122)"

definition lowerCase :: "char \<Rightarrow> char" where
  "lowerCase c = (let n = (of_char c :: nat) in if 65 \<le> n \<and> n \<le> 90 then char_of (n + 32) else c)"

definition nonNull :: "'a option \<Rightarrow> 'a res" where
  "nonNull p = (case p of None \<Rightarrow> Inl NullPointer | Some x \<Rightarrow> Inr x)"

definition getUniqueChildIfExists :: "string \<Rightarrow> XMLElement \<Rightarrow> XMLElement option res" where
  "getUniqueChildIfExists name node =
     (case getChildrenByTagName name node of
        [] \<Rightarrow> Inr None | [c] \<Rightarrow> Inr (Some c) | _ \<Rightarrow> Inl (RuntimeError ''xml error: at most one element expected''))"

definition getUniqueChild :: "string \<Rightarrow> XMLElement \<Rightarrow> XMLElement res" where
  "getUniqueChild name node =
     bindE (getUniqueChildIfExists name node) (\<lambda>c.
     case c of None \<Rightarrow> Inl (RuntimeError ''xml error: exactly one element expected'') | Some c \<Rightarrow> Inr c)"

definition parseBool :: "string \<Rightarrow> bool res" where
  "parseBool text =
     (let t = map lowerCase text
      in if t \<in> set [''down'', ''off'', ''false'', ''no'', ''0''] then Inr False
         else if t \<in> set [''up'', ''on'', ''true'', ''yes'', ''1''] then Inr True
         else Inl (RuntimeError ''unknown bool constant''))"

definition checkTags :: "XMLElement \<Rightarrow> string list \<Rightarrow> unit res" where
  "checkTags node allowed =
     (if \<forall>c \<in> set (xChildren node). xTag c \<in> set allowed then Inr () else Inl (RuntimeError ''subtag not expected''))"

definition getParameterStrValue :: "XMLElement \<Rightarrow> string \<Rightarrow> string option res" where
  "getParameterStrValue ptr name = bindE (getUniqueChild name ptr) (\<lambda>x. Inr (xNodeValue x))"

definition getParameterStrValueOr :: "XMLElement \<Rightarrow> string \<Rightarrow> string option \<Rightarrow> string option res" where
  "getParameterStrValueOr ptr name d =
     bindE (getUniqueChildIfExists name ptr) (\<lambda>x. case x of Some x \<Rightarrow> Inr (xNodeValue x) | None \<Rightarrow> Inr d)"

definition getParameterBoolValue :: "XMLElement \<Rightarrow> string \<Rightarrow> bool res" where
  "getParameterBoolValue ptr name = bindE (getUniqueChild name ptr) (\<lambda>x. bindE (nonNull (xNodeValue x)) parseBool)"

definition getParameterBoolValueOr :: "XMLElement \<Rightarrow> string \<Rightarrow> bool \<Rightarrow> bool res" where
  "getParameterBoolValueOr ptr name d =
     bindE (getUniqueChildIfExists name ptr) (\<lambda>x.
     case x of Some x \<Rightarrow> bindE (nonNull (xNodeValue x)) parseBool | None \<Rightarrow> Inr d)"

definition getParameterIntValue :: "XMLElement \<Rightarrow> string \<Rightarrow> int res" where
  "getParameterIntValue ptr name =
     bindE (getUniqueChild name ptr) (\<lambda>x. bindE (nonNull (xNodeValue x)) (\<lambda>t. Inr (atoi t)))"

definition getParameterIntValueOr :: "XMLElement \<Rightarrow> string \<Rightarrow> int \<Rightarrow> int res" where
  "getParameterIntValueOr ptr name d =
     bindE (getUniqueChildIfExists name ptr) (\<lambda>x.
     case x of Some x \<Rightarrow> bindE (nonNull (xNodeValue x)) (\<lambda>t. Inr (atoi t)) | None \<Rightarrow> Inr d)"

text \<open>\<open>resolve\<close> is \<open>IPAddressResolver().resolve(...).get4()\<close>.\<close>

definition getParameterIPAddressValue :: "(string \<Rightarrow> IPAddress res) \<Rightarrow> XMLElement \<Rightarrow> string \<Rightarrow> IPAddress res" where
  "getParameterIPAddressValue resolve ptr name =
     bindE (getUniqueChild name ptr) (\<lambda>x. bindE (nonNull (xNodeValue x)) resolve)"

definition getParameterIPAddressValueOr :: "XMLElement \<Rightarrow> string \<Rightarrow> IPAddress \<Rightarrow> IPAddress res" where
  "getParameterIPAddressValueOr ptr name d =
     bindE (getUniqueChildIfExists name ptr) (\<lambda>x.
     case x of Some x \<Rightarrow> bindE (nonNull (xNodeValue x)) ip_setText | None \<Rightarrow> Inr d)"

end
