(* ===== verification/Switch_Relay.thy ===== *)
theory Switch_Relay
  imports Ether_Frame XML_Utils C_Float
begin

text \<open>
  The relay unit of an Ethernet switch (\<open>etherswitch/MACRelayUnitBase.cc\<close>): the table of addresses it learns, with
  aging and a bounded size, and the forwarding of frames.  The two relay units with buffers and processors are in theory
  \<open>Switch_Buffer\<close>.
\<close>

section \<open>Data\<close>

record AddressEntry =
  portno :: int
  insertionTime :: simtime

type_synonym AddressTable = "(MACAddress \<times> AddressEntry) list"

record MACRelayUnitBase =
  numPorts :: int
  addressTableSize :: int
  agingTime :: simtime
  addresstable :: AddressTable
  ru_seqNum :: int

text \<open>A frame with the index of the gate \<open>lowerLayerOut\<close> it is sent through.\<close>

type_synonym SwitchOut = "(int \<times> EtherFrame) list"

definition MAX_LINE :: nat where "MAX_LINE = 100"

text \<open>The operations of a \<open>std::map\<close> ordered by \<open>compareTo\<close>.\<close>

definition mac_less :: "MACAddress \<Rightarrow> MACAddress \<Rightarrow> bool" where
  "mac_less a b \<longleftrightarrow> mac_compareTo a b < 0"

fun at_put :: "MACAddress \<Rightarrow> AddressEntry \<Rightarrow> AddressTable \<Rightarrow> AddressTable" where
  "at_put a e [] = [(a, e)]"
| "at_put a e ((b, f) # t) =
     (if mac_less a b then (a, e) # (b, f) # t
      else if mac_less b a then (b, f) # at_put a e t
      else (b, e) # t)"

definition at_erase :: "MACAddress \<Rightarrow> AddressTable \<Rightarrow> AddressTable" where
  "at_erase a t = filter (\<lambda>(b, e). b \<noteq> a) t"

section \<open>The table of addresses\<close>

definition aged :: "simtime \<Rightarrow> AddressEntry \<Rightarrow> MACRelayUnitBase \<Rightarrow> bool" where
  "aged tm e u \<longleftrightarrow> insertionTime e + agingTime u \<le> tm"

definition removeAgedEntriesFromTable :: "simtime \<Rightarrow> MACRelayUnitBase \<Rightarrow> MACRelayUnitBase" where
  "removeAgedEntriesFromTable tm u = u\<lparr>addresstable := filter (\<lambda>(a, e). \<not> aged tm e u) (addresstable u)\<rparr>"

fun oldestLoop :: "AddressTable \<Rightarrow> MACAddress option \<Rightarrow> simtime \<Rightarrow> MACAddress option" where
  "oldestLoop [] oldest oldestInsertTime = oldest"
| "oldestLoop ((a, e) # t) oldest oldestInsertTime =
     (if insertionTime e < oldestInsertTime then oldestLoop t (Some a) (insertionTime e)
      else oldestLoop t oldest oldestInsertTime)"

definition removeOldestTableEntry :: "simtime \<Rightarrow> MACRelayUnitBase \<Rightarrow> MACRelayUnitBase" where
  "removeOldestTableEntry tm u =
     (case oldestLoop (addresstable u) None (tm + 1) of
        None \<Rightarrow> u | Some a \<Rightarrow> u\<lparr>addresstable := at_erase a (addresstable u)\<rparr>)"

definition updateTableWithAddress :: "simtime \<Rightarrow> MACAddress \<Rightarrow> int \<Rightarrow> MACRelayUnitBase \<Rightarrow> MACRelayUnitBase" where
  "updateTableWithAddress tm address port u =
     (let entry = \<lparr> portno = port, insertionTime = tm \<rparr>
      in case map_of (addresstable u) address of
           None \<Rightarrow>
             let u = (if addressTableSize u \<noteq> 0 \<and> int (length (addresstable u)) = addressTableSize u
                      then let u = removeAgedEntriesFromTable tm u
                           in if int (length (addresstable u)) = addressTableSize u then removeOldestTableEntry tm u else u
                      else u)
             in u\<lparr>addresstable := at_put address entry (addresstable u)\<rparr>
         | Some _ \<Rightarrow> u\<lparr>addresstable := at_put address entry (addresstable u)\<rparr>)"

definition getPortForAddress :: "simtime \<Rightarrow> MACAddress \<Rightarrow> MACRelayUnitBase \<Rightarrow> int \<times> MACRelayUnitBase" where
  "getPortForAddress tm address u =
     (case map_of (addresstable u) address of
        None \<Rightarrow> (- 1, u)
      | Some e \<Rightarrow> if aged tm e u then (- 1, u\<lparr>addresstable := at_erase address (addresstable u)\<rparr>) else (portno e, u))"

section \<open>Forwarding\<close>

definition sendPort :: "int \<Rightarrow> EtherFrame \<Rightarrow> MACRelayUnitBase \<Rightarrow> SwitchOut res" where
  "sendPort i frame u = (if 0 \<le> i \<and> i < numPorts u then Inr [(i, frame)] else Inl (RuntimeError ''send: no such gate''))"

definition broadcastFrame :: "EtherFrame \<Rightarrow> int \<Rightarrow> MACRelayUnitBase \<Rightarrow> SwitchOut" where
  "broadcastFrame frame inputport u = map (\<lambda>i. (i, frame)) (filter (\<lambda>i. i \<noteq> inputport) [0..numPorts u - 1])"

definition handleAndDispatchFrame :: "simtime \<Rightarrow> EtherFrame \<Rightarrow> int \<Rightarrow> MACRelayUnitBase \<Rightarrow> (MACRelayUnitBase \<times> SwitchOut) res" where
  "handleAndDispatchFrame tm frame inputport u =
     (let u = updateTableWithAddress tm (ef_src frame) inputport u
      in if mac_isBroadcast (ef_dest frame) then Inr (u, broadcastFrame frame inputport u)
         else let (outputport, u) = getPortForAddress tm (ef_dest frame) u
              in if inputport = outputport then Inr (u, [])
                 else if outputport \<ge> 0 then bindE (sendPort outputport frame u) (\<lambda>out. Inr (u, out))
                 else Inr (u, broadcastFrame frame inputport u))"

text \<open>Flow control: a PAUSE frame.  Its addresses are left unspecified.\<close>

definition sendPauseFrame :: "int \<Rightarrow> int \<Rightarrow> MACRelayUnitBase \<Rightarrow> (MACRelayUnitBase \<times> SwitchOut) res" where
  "sendPauseFrame port pauseUnits u =
     (let len = ETHER_MAC_FRAME_BYTES + ETHER_PAUSE_COMMAND_BYTES;
          len = (if len < MIN_ETHERNET_FRAME then MIN_ETHERNET_FRAME else len);
          frame = \<lparr> ef_dest = 0, ef_src = 0, ef_byteLength = len, ef_kind = EtherPauseFrame pauseUnits, ef_payload = None \<rparr>
      in bindE (sendPort port frame u) (\<lambda>out. Inr (u\<lparr>ru_seqNum := ru_seqNum u + 1\<rparr>, out)))"

section \<open>Initialization\<close>

text \<open>
  \<open>fgets\<close> reads up to the end of a line but at most \<open>MAX_LINE - 1\<close> characters; the result is \<open>None\<close> at the end of the
  file.
\<close>

definition fgets :: "nat \<Rightarrow> string \<Rightarrow> (string \<times> string) option" where
  "fgets n s =
     (if s = [] then None
      else let k = length (takeWhile (\<lambda>c. c \<noteq> CHR 0x0A) s) + 1 in Some (take (min k (n - 1)) s, drop (min k (n - 1)) s))"

definition chop :: "string \<Rightarrow> string" where
  "chop line = rev (dropWhile (\<lambda>c. c = CHR 0x0A \<or> c = CHR 0x0D) (rev line))"

definition strtok :: "string \<Rightarrow> (string \<times> string) option" where
  "strtok s =
     (let blank = (\<lambda>c. c = CHR '' '' \<or> c = CHR 0x09); s = dropWhile blank s
      in if s = [] then None else Some (takeWhile (\<lambda>c. \<not> blank c) s, drop 1 (dropWhile (\<lambda>c. \<not> blank c) s)))"

definition tableLine :: "string \<Rightarrow> AddressTable \<Rightarrow> AddressTable res" where
  "tableLine line t =
     (if take 1 line = ''#'' then Inr t
      else case strtok line of
             None \<Rightarrow> Inr t
           | Some (hexaddress, rest) \<Rightarrow>
               (case strtok rest of
                  None \<Rightarrow> Inl (RuntimeError ''line invalid in address table file'')
                | Some (port, _) \<Rightarrow>
                    bindE (mac_setAddress hexaddress 0) (\<lambda>a. Inr (at_put a \<lparr> portno = atoi port, insertionTime = 0 \<rparr> t))))"

function readLoop :: "string \<Rightarrow> AddressTable \<Rightarrow> AddressTable res" where
  "readLoop s t =
     (case fgets MAX_LINE s of
        None \<Rightarrow> Inr t
      | Some (line, rest) \<Rightarrow> bindE (tableLine (chop line) t) (readLoop rest))"
  by pat_completeness auto
termination
  by (relation "measure (\<lambda>(s, t). length s)") (auto simp: fgets_def MAX_LINE_def Let_def split: if_splits)

declare readLoop.simps [simp del]

text \<open>\<open>file\<close> is the content of the file, \<open>None\<close> when it cannot be opened.\<close>

definition readAddressTable :: "string option \<Rightarrow> MACRelayUnitBase \<Rightarrow> MACRelayUnitBase res" where
  "readAddressTable file u =
     (case file of
        None \<Rightarrow> Inl (RuntimeError ''cannot open address table file'')
      | Some s \<Rightarrow> bindE (readLoop s (addresstable u)) (\<lambda>t. Inr (u\<lparr>addresstable := t\<rparr>)))"

text \<open>The sizes of the gate vectors and the parameters; \<open>fileName\<close> is \<open>''''\<close> for no file.\<close>

definition relay_initialize :: "int \<Rightarrow> int \<Rightarrow> int \<Rightarrow> simtime \<Rightarrow> string \<Rightarrow> (string \<Rightarrow> string option) \<Rightarrow> MACRelayUnitBase res" where
  "relay_initialize outSize inSize tableSize aging fileName files =
     (if inSize \<noteq> outSize then Inl (RuntimeError ''the sizes of the lowerLayerIn[] and lowerLayerOut[] gate vectors must be the same'')
      else let u = \<lparr> numPorts = outSize, addressTableSize = (if tableSize \<ge> 0 then tableSize else 0),
                     agingTime = (if aging > 0 then aging else 10), addresstable = [], ru_seqNum = 0 \<rparr>
           in if fileName \<noteq> '''' then bindE (readAddressTable (files fileName) u) (\<lambda>u. Inr (u\<lparr>ru_seqNum := 0\<rparr>)) else Inr u)"

section \<open>The map of addresses\<close>

lemma memcmp_trans: "memcmp a b < 0 \<Longrightarrow> memcmp b c < 0 \<Longrightarrow> memcmp a c < 0"
proof (induction a b arbitrary: c rule: memcmp.induct)
  case (1 x xs y ys)
  show ?case
  proof (cases c)
    case (Cons z zs)
    then show ?thesis using 1 by (auto split: if_splits)
  qed (use 1 in simp)
qed auto

lemma memcmp_total: "length a = length b \<Longrightarrow> a \<noteq> b \<Longrightarrow> memcmp a b < 0 \<or> memcmp b a < 0"
  by (induction a b rule: memcmp.induct) auto

lemma octets_inject: "mac_octets a = mac_octets b \<longleftrightarrow> a = b"
  using setAddressBytes_octets by metis

lemma mac_less:
  "\<not> mac_less a a" "mac_less a b \<Longrightarrow> mac_less b c \<Longrightarrow> mac_less a c" "a \<noteq> b \<Longrightarrow> mac_less a b \<or> mac_less b a"
proof -
  show "\<not> mac_less a a" using memcmp_eq_0 [of "mac_octets a" "mac_octets a"] by (simp add: mac_less_def mac_compareTo_def)
  show "mac_less a b \<Longrightarrow> mac_less b c \<Longrightarrow> mac_less a c" unfolding mac_less_def mac_compareTo_def by (rule memcmp_trans)
  show "a \<noteq> b \<Longrightarrow> mac_less a b \<or> mac_less b a"
  proof -
    assume "a \<noteq> b"
    then have n: "mac_octets a \<noteq> mac_octets b" by (simp add: octets_inject)
    have "length (mac_octets a) = length (mac_octets b)" by (simp add: mac_octets_list)
    from memcmp_total [OF this n] show ?thesis unfolding mac_less_def mac_compareTo_def .
  qed
qed

definition at_ok :: "AddressTable \<Rightarrow> bool" where
  "at_ok t \<longleftrightarrow> sorted_wrt (\<lambda>x y. mac_less (fst x) (fst y)) t"

lemma at_ok_simps [simp]: "at_ok []" "at_ok ((a, e) # t) \<longleftrightarrow> (\<forall>x \<in> set t. mac_less a (fst x)) \<and> at_ok t"
  by (auto simp: at_ok_def)

lemma at_ok_filter: "at_ok t \<Longrightarrow> at_ok (filter P t)"
  by (induction t) (auto simp: at_ok_def)

lemma at_put_keys: "fst ` set (at_put a e t) = insert a (fst ` set t)"
proof (induction t)
  case (Cons x t)
  then show ?case using mac_less(3) [of a "fst x"] by (cases x) auto
qed simp

lemma at_put_ok: "at_ok t \<Longrightarrow> at_ok (at_put a e t)"
proof (induction t)
  case (Cons x t)
  obtain b f where x: "x = (b, f)" by fastforce
  have k: "fst y = a \<or> fst y \<in> fst ` set t" if "y \<in> set (at_put a e t)" for y using at_put_keys [of a e t] that by blast
  consider (less) "mac_less a b" | (greater) "\<not> mac_less a b" "mac_less b a" | (eq) "a = b" using mac_less(3) by blast
  then show ?case
  proof cases
    case less
    then show ?thesis using Cons.prems mac_less(2) by (auto simp: x)
  next
    case greater
    have "mac_less b (fst y)" if "y \<in> set (at_put a e t)" for y using k [OF that] greater(2) Cons.prems by (auto simp: x)
    then show ?thesis using greater Cons by (simp add: x)
  next
    case eq
    then show ?thesis using Cons.prems mac_less(1) by (auto simp: x)
  qed
qed simp

lemma at_ok_absent: "\<forall>x \<in> set t. mac_less a (fst x) \<Longrightarrow> map_of t a = None"
  using mac_less(1) by (fastforce simp: map_of_eq_None_iff)

lemma at_put_lookup: "at_ok t \<Longrightarrow> map_of (at_put a e t) = (map_of t)(a \<mapsto> e)"
proof (induction t)
  case (Cons x t)
  obtain b f where x: "x = (b, f)" by fastforce
  consider (less) "mac_less a b" | (greater) "\<not> mac_less a b" "mac_less b a" | (eq) "a = b" using mac_less(3) by blast
  then show ?case
  proof cases
    case less
    then show ?thesis by (auto simp: x)
  next
    case greater
    then have "a \<noteq> b" using mac_less(1) by blast
    then show ?thesis using greater Cons by (auto simp: x)
  next
    case eq
    then show ?thesis using mac_less(1) by (auto simp: x)
  qed
qed simp

lemma at_put_length: "at_ok t \<Longrightarrow> length (at_put a e t) = (if map_of t a = None then Suc (length t) else length t)"
proof (induction t)
  case (Cons x t)
  obtain b f where x: "x = (b, f)" by fastforce
  consider (less) "mac_less a b" | (greater) "\<not> mac_less a b" "mac_less b a" | (eq) "a = b" using mac_less(3) by blast
  then show ?case
  proof cases
    case less
    then have "map_of ((b, f) # t) a = None"
      using Cons.prems mac_less(1,2) by (intro at_ok_absent) (auto simp: x)
    then show ?thesis using less by (simp add: x)
  next
    case greater
    then have "a \<noteq> b" using mac_less(1) by blast
    then show ?thesis using greater Cons by (simp add: x)
  next
    case eq
    then show ?thesis using mac_less(1) by (simp add: x)
  qed
qed simp

lemma at_filter_lookup:
  assumes "at_ok t"
  shows "map_of (filter P t) a = (case map_of t a of Some e \<Rightarrow> if P (a, e) then Some e else None | None \<Rightarrow> None)"
  using assms
proof (induction t)
  case (Cons x t)
  obtain b f where x: "x = (b, f)" by fastforce
  show ?case
  proof (cases "a = b")
    case True
    then have "map_of t a = None" using Cons.prems by (intro at_ok_absent) (simp add: x)
    then show ?thesis using True Cons by (simp add: x)
  next
    case False
    then show ?thesis using Cons by (simp add: x)
  qed
qed simp

section \<open>What the table knows\<close>

text \<open>The history of a switch: the time, the input port and the frame.  An address was last seen with the last frame from it.\<close>

type_synonym SwitchHistory = "(simtime \<times> int \<times> EtherFrame) list"

definition lastSeen :: "SwitchHistory \<Rightarrow> MACAddress \<Rightarrow> (int \<times> simtime) option" where
  "lastSeen H a = map_option (\<lambda>(s, p, f). (p, s)) (find (\<lambda>(s, p, f). ef_src f = a) (rev H))"

lemma lastSeen_simps [simp]:
  "lastSeen [] a = None"
  "lastSeen (H @ [(s, p, f)]) a = (if ef_src f = a then Some (p, s) else lastSeen H a)"
  by (simp_all add: lastSeen_def)

definition history_ok :: "SwitchHistory \<Rightarrow> int \<Rightarrow> simtime \<Rightarrow> bool" where
  "history_ok H n tm \<longleftrightarrow> (\<forall>(s, p, f) \<in> set H. s \<le> tm \<and> 0 \<le> p \<and> p < n)"

lemma lastSeen_ok:
  assumes "history_ok H n tm" "lastSeen H a = Some (p, s)"
  shows "s \<le> tm \<and> 0 \<le> p \<and> p < n"
proof -
  have "\<exists>f. (s, p, f) \<in> set H" using assms(2) by (auto simp: lastSeen_def find_Some_iff) (metis nth_mem set_rev length_rev)
  then show ?thesis using assms(1) by (auto simp: history_ok_def)
qed

definition learned :: "SwitchHistory \<Rightarrow> simtime \<Rightarrow> MACRelayUnitBase \<Rightarrow> bool" where
  "learned H tm u \<longleftrightarrow> at_ok (addresstable u) \<and> history_ok H (numPorts u) tm \<and>
     (\<forall>a e. map_of (addresstable u) a = Some e \<longrightarrow> lastSeen H a = Some (portno e, insertionTime e)) \<and>
     (addressTableSize u \<noteq> 0 \<longrightarrow> int (length (addresstable u)) \<le> addressTableSize u) \<and>
     (addressTableSize u = 0 \<longrightarrow>
       (\<forall>a p s. lastSeen H a = Some (p, s) \<and> tm < s + agingTime u \<longrightarrow> map_of (addresstable u) a \<noteq> None))"

lemma learnedD:
  assumes "learned H tm u"
  shows "at_ok (addresstable u)" "history_ok H (numPorts u) tm"
    "map_of (addresstable u) a = Some e \<Longrightarrow> lastSeen H a = Some (portno e, insertionTime e)"
    "addressTableSize u \<noteq> 0 \<Longrightarrow> int (length (addresstable u)) \<le> addressTableSize u"
    "addressTableSize u = 0 \<Longrightarrow> lastSeen H a = Some (p, s) \<Longrightarrow> tm < s + agingTime u \<Longrightarrow> map_of (addresstable u) a \<noteq> None"
  using assms unfolding learned_def by blast+

lemma entry_times:
  assumes "learned H tm u" "(a, e) \<in> set (addresstable u)"
  shows "insertionTime e \<le> tm"
proof -
  have "map_of (filter (\<lambda>x. x = (a, e)) t) a = Some e" if "(a, e) \<in> set t" for t using that by (induction t) auto
  then have "map_of (filter (\<lambda>x. x = (a, e)) (addresstable u)) a = Some e" using assms(2) by blast
  then have "map_of (addresstable u) a = Some e"
    unfolding at_filter_lookup [OF learnedD(1) [OF assms(1)]] by (auto split: option.splits if_splits)
  then show ?thesis using learnedD(2,3) [OF assms(1)] lastSeen_ok by blast
qed

lemma oldestLoop_mem: "oldestLoop t q T = Some a \<Longrightarrow> q = Some a \<or> a \<in> fst ` set t"
  by (induction t q T rule: oldestLoop.induct) (auto split: if_splits)

lemma oldestLoop_some: "\<forall>x \<in> set t. insertionTime (snd x) < T \<Longrightarrow> t \<noteq> [] \<or> q \<noteq> None \<Longrightarrow> oldestLoop t q T \<noteq> None"
proof (induction t q T rule: oldestLoop.induct)
  case (2 a e t q T)
  have "oldestLoop t (Some b) T' \<noteq> None" for b T'
    by (induction t "Some b" T' arbitrary: b rule: oldestLoop.induct) auto
  then show ?case using 2(3) by simp
qed simp

text \<open>Making room keeps what is known and leaves a place.\<close>

definition room :: "simtime \<Rightarrow> MACRelayUnitBase \<Rightarrow> MACRelayUnitBase" where
  "room tm u = (let u = removeAgedEntriesFromTable tm u
     in if int (length (addresstable u)) = addressTableSize u then removeOldestTableEntry tm u else u)"

lemma room_spec:
  assumes "learned H tm u" "addressTableSize u \<noteq> 0" "int (length (addresstable u)) = addressTableSize u"
  shows "\<exists>P. room tm u = u\<lparr>addresstable := filter P (addresstable u)\<rparr> \<and> int (length (filter P (addresstable u))) < addressTableSize u"
proof -
  let ?old = "\<lambda>(a, e). \<not> aged tm e u"
  let ?u = "removeAgedEntriesFromTable tm u"
  have u: "?u = u\<lparr>addresstable := filter ?old (addresstable u)\<rparr>" by (simp add: removeAgedEntriesFromTable_def)
  show ?thesis
  proof (cases "int (length (addresstable ?u)) = addressTableSize u")
    case False
    then have "length (filter ?old (addresstable u)) \<noteq> length (addresstable u)" using assms(3) u by auto
    then have "int (length (filter ?old (addresstable u))) < addressTableSize u"
      using length_filter_le [of ?old "addresstable u"] assms(3) by linarith
    then show ?thesis using u by (intro exI [of _ ?old]) (simp add: room_def)
  next
    case True
    have "addresstable ?u \<noteq> []" using True assms(2) by auto
    moreover have "\<forall>x \<in> set (addresstable ?u). insertionTime (snd x) < tm + 1" using entry_times [OF assms(1)] u by fastforce
    ultimately obtain a where a: "oldestLoop (addresstable ?u) None (tm + 1) = Some a" using oldestLoop_some by blast
    then obtain e where e: "(a, e) \<in> set (addresstable ?u)" using oldestLoop_mem by fastforce
    let ?P = "\<lambda>(b, e). b \<noteq> a \<and> ?old (b, e)"
    have r: "at_erase a (addresstable ?u) = filter ?P (addresstable u)" unfolding u at_erase_def by (auto intro: filter_cong)
    have "length (at_erase a (addresstable ?u)) < length (addresstable ?u)" unfolding at_erase_def using e by (intro length_filter_less) auto
    then have "int (length (filter ?P (addresstable u))) < addressTableSize u" unfolding r using True by simp
    moreover have "room tm u = u\<lparr>addresstable := filter ?P (addresstable u)\<rparr>"
      using True a r unfolding room_def Let_def removeOldestTableEntry_def by (simp add: u)
    ultimately show ?thesis by blast
  qed
qed

lemma update_eq:
  "updateTableWithAddress tm a p u =
     (let u' = (if map_of (addresstable u) a = None \<and> addressTableSize u \<noteq> 0 \<and> int (length (addresstable u)) = addressTableSize u
                then room tm u else u)
      in u'\<lparr>addresstable := at_put a \<lparr> portno = p, insertionTime = tm \<rparr> (addresstable u')\<rparr>)"
  by (simp add: updateTableWithAddress_def room_def Let_def split: option.split)

lemma learned_later:
  assumes "learned H s u" "s \<le> tm"
  shows "learned H tm u"
proof -
  have "history_ok H (numPorts u) tm" using learnedD(2) [OF assms(1)] assms(2) by (fastforce simp: history_ok_def)
  moreover have "map_of (addresstable u) a \<noteq> None" if "addressTableSize u = 0" "lastSeen H a = Some (p, x)" "tm < x + agingTime u" for a p x
    using learnedD(5) [OF assms(1) that(1,2)] that(3) assms(2) by simp
  ultimately show ?thesis using learnedD(1,3,4) [OF assms(1)] unfolding learned_def by blast
qed

lemma learned_filter:
  assumes "learned H tm u" "addressTableSize u \<noteq> 0"
  shows "learned H tm (u\<lparr>addresstable := filter P (addresstable u)\<rparr>)"
proof -
  have "lastSeen H a = Some (portno e, insertionTime e)" if "map_of (filter P (addresstable u)) a = Some e" for a e
    using that learnedD(3) [OF assms(1)] unfolding at_filter_lookup [OF learnedD(1) [OF assms(1)]]
    by (auto split: option.splits if_splits)
  moreover have "int (length (filter P (addresstable u))) \<le> addressTableSize u"
    using learnedD(4) [OF assms] length_filter_le [of P "addresstable u"] by linarith
  ultimately show ?thesis
    using learnedD(1,2) [OF assms(1)] assms(2) at_ok_filter unfolding learned_def by simp
qed

lemma learned_put:
  assumes "learned H tm u" "0 \<le> p" "p < numPorts u"
    and "addressTableSize u \<noteq> 0 \<longrightarrow> map_of (addresstable u) (ef_src f) \<noteq> None \<or> int (length (addresstable u)) < addressTableSize u"
  shows "learned (H @ [(tm, p, f)]) tm (u\<lparr>addresstable := at_put (ef_src f) \<lparr> portno = p, insertionTime = tm \<rparr> (addresstable u)\<rparr>)"
proof -
  note l = learnedD [OF assms(1)]
  have "history_ok (H @ [(tm, p, f)]) (numPorts u) tm" using l(2) assms(2,3) by (auto simp: history_ok_def)
  moreover have "addressTableSize u \<noteq> 0 \<longrightarrow> int (length (at_put (ef_src f) \<lparr> portno = p, insertionTime = tm \<rparr> (addresstable u))) \<le> addressTableSize u"
    using at_put_length [OF l(1), of "ef_src f"] assms(4) l(4) by auto
  ultimately show ?thesis
    using at_put_ok [OF l(1)] l(3,5) unfolding learned_def by (simp add: at_put_lookup [OF l(1)] del: not_None_eq, blast)
qed

lemma learned_update:
  assumes "learned H tm u" "0 \<le> p" "p < numPorts u"
  shows "learned (H @ [(tm, p, f)]) tm (updateTableWithAddress tm (ef_src f) p u)"
proof (cases "map_of (addresstable u) (ef_src f) = None \<and> addressTableSize u \<noteq> 0 \<and> int (length (addresstable u)) = addressTableSize u")
  case True
  then obtain P where P: "room tm u = u\<lparr>addresstable := filter P (addresstable u)\<rparr>"
    "int (length (filter P (addresstable u))) < addressTableSize u" using room_spec [OF assms(1)] by blast
  then have "learned H tm (room tm u)" using learned_filter [OF assms(1)] True by simp
  from learned_put [OF this, of p f] show ?thesis using True P assms(2,3) by (simp add: update_eq Let_def)
next
  case False
  have "addressTableSize u \<noteq> 0 \<longrightarrow> map_of (addresstable u) (ef_src f) \<noteq> None \<or> int (length (addresstable u)) < addressTableSize u"
    using False learnedD(4) [OF assms(1)] by fastforce
  from learned_put [OF assms this] show ?thesis using False by (auto simp: update_eq Let_def)
qed

text \<open>The port of an address as far as the history tells.\<close>

definition knownPort :: "SwitchHistory \<Rightarrow> simtime \<Rightarrow> simtime \<Rightarrow> MACAddress \<Rightarrow> int option" where
  "knownPort H aging tm a = (case lastSeen H a of Some (p, s) \<Rightarrow> if tm < s + aging then Some p else None | None \<Rightarrow> None)"

lemma update_sel [simp]:
  "numPorts (updateTableWithAddress tm a p u) = numPorts u" "agingTime (updateTableWithAddress tm a p u) = agingTime u"
  "addressTableSize (updateTableWithAddress tm a p u) = addressTableSize u"
  by (simp_all add: updateTableWithAddress_def removeAgedEntriesFromTable_def removeOldestTableEntry_def Let_def split: option.split)

lemma getPort_learned:
  assumes "learned H tm u" "getPortForAddress tm a u = (q, u')"
  shows "learned H tm u'" "numPorts u' = numPorts u" "agingTime u' = agingTime u" "addressTableSize u' = addressTableSize u"
    and "q = - 1 \<or> knownPort H (agingTime u) tm a = Some q"
    and "addressTableSize u = 0 \<Longrightarrow> q = (case knownPort H (agingTime u) tm a of None \<Rightarrow> - 1 | Some p \<Rightarrow> p)"
proof -
  note l = learnedD [OF assms(1)]
  consider (none) "map_of (addresstable u) a = None" | (old) e where "map_of (addresstable u) a = Some e" "aged tm e u"
    | (hit) e where "map_of (addresstable u) a = Some e" "\<not> aged tm e u" by (cases "map_of (addresstable u) a") auto
  then have "learned H tm u' \<and> numPorts u' = numPorts u \<and> agingTime u' = agingTime u \<and> addressTableSize u' = addressTableSize u \<and>
    (q = - 1 \<or> knownPort H (agingTime u) tm a = Some q) \<and>
    (addressTableSize u = 0 \<longrightarrow> q = (case knownPort H (agingTime u) tm a of None \<Rightarrow> - 1 | Some p \<Rightarrow> p))"
  proof cases
    case none
    then have "u' = u" "q = - 1" using assms(2) by (simp_all add: getPortForAddress_def)
    moreover have "knownPort H (agingTime u) tm a = None" if "addressTableSize u = 0"
      using l(5) [OF that, of a] none by (auto simp: knownPort_def split: option.split)
    ultimately show ?thesis using assms(1) by auto
  next
    case old
    then have r: "u' = u\<lparr>addresstable := at_erase a (addresstable u)\<rparr>" "q = - 1"
      using assms(2) by (simp_all add: getPortForAddress_def)
    have k: "knownPort H (agingTime u) tm a = None" using l(3) [OF old(1)] old(2) by (simp add: knownPort_def aged_def)
    have "learned H tm u'"
    proof (cases "addressTableSize u = 0")
      case False
      then show ?thesis using learned_filter [OF assms(1)] unfolding r at_erase_def by blast
    next
      case True
      have look: "map_of (at_erase a (addresstable u)) b = (if b = a then None else map_of (addresstable u) b)" for b
        unfolding at_erase_def at_filter_lookup [OF l(1)] by (auto split: option.split)
      have "\<not> tm < s + agingTime u" if "lastSeen H a = Some (p, s)" for p s using k that by (simp add: knownPort_def split: if_splits)
      then have "map_of (at_erase a (addresstable u)) b \<noteq> None" if "lastSeen H b = Some (p, s)" "tm < s + agingTime u" for b p s
        using l(5) [OF True that] that unfolding look by auto
      moreover have "lastSeen H b = Some (portno e, insertionTime e)" if "map_of (at_erase a (addresstable u)) b = Some e" for b e
        using that l(3) unfolding look by (auto split: if_splits)
      ultimately show ?thesis using True l(1,2) at_ok_filter unfolding r learned_def by (simp add: at_erase_def)
    qed
    then show ?thesis using r k by simp
  next
    case hit
    then have "u' = u" "q = portno e" using assms(2) by (simp_all add: getPortForAddress_def)
    moreover have "knownPort H (agingTime u) tm a = Some (portno e)" using l(3) [OF hit(1)] hit(2) by (simp add: knownPort_def aged_def)
    ultimately show ?thesis using assms(1) by simp
  qed
  then show "learned H tm u'" "numPorts u' = numPorts u" "agingTime u' = agingTime u" "addressTableSize u' = addressTableSize u"
    "q = - 1 \<or> knownPort H (agingTime u) tm a = Some q"
    "addressTableSize u = 0 \<Longrightarrow> q = (case knownPort H (agingTime u) tm a of None \<Rightarrow> - 1 | Some p \<Rightarrow> p)" by blast+
qed

text \<open>What a switch does with a frame: it floods it, or sends it to the port where the destination was last seen.\<close>

definition directed :: "EtherFrame \<Rightarrow> int \<Rightarrow> int \<Rightarrow> SwitchOut" where
  "directed f inp p = (if p = inp then [] else [(p, f)])"

lemma dispatch_spec:
  assumes "learned H tm u" "0 \<le> inp" "inp < numPorts u"
  shows "\<exists>u' out. handleAndDispatchFrame tm f inp u = Inr (u', out) \<and> learned (H @ [(tm, inp, f)]) tm u' \<and>
    numPorts u' = numPorts u \<and> agingTime u' = agingTime u \<and> addressTableSize u' = addressTableSize u \<and>
    (let known = (if mac_isBroadcast (ef_dest f) then None else knownPort (H @ [(tm, inp, f)]) (agingTime u) tm (ef_dest f))
     in out = broadcastFrame f inp u \<and> (addressTableSize u = 0 \<longrightarrow> known = None) \<or>
        (\<exists>p. known = Some p \<and> out = directed f inp p))"
proof -
  let ?u = "updateTableWithAddress tm (ef_src f) inp u" and ?H = "H @ [(tm, inp, f)]"
  have l: "learned ?H tm ?u" by (rule learned_update [OF assms])
  show ?thesis
  proof (cases "mac_isBroadcast (ef_dest f)")
    case True
    then show ?thesis using l by (simp add: handleAndDispatchFrame_def Let_def broadcastFrame_def)
  next
    case False
    obtain q u' where g: "getPortForAddress tm (ef_dest f) ?u = (q, u')" by fastforce
    note G = getPort_learned [OF l g]
    have range: "0 \<le> p \<and> p < numPorts u" if k: "knownPort ?H (agingTime u) tm (ef_dest f) = Some p" for p
    proof -
      obtain s where "lastSeen ?H (ef_dest f) = Some (p, s)"
        using k by (auto simp: knownPort_def simp del: lastSeen_simps split: option.splits if_splits)
      from lastSeen_ok [OF learnedD(2) [OF l] this] show ?thesis by simp
    qed
    consider (hit) "knownPort ?H (agingTime u) tm (ef_dest f) = Some q" | (miss) "q = - 1" using G(5) by auto
    then show ?thesis
    proof cases
      case hit
      then show ?thesis using range [OF hit] g False G(1-4)
        by (auto simp: handleAndDispatchFrame_def Let_def sendPort_def directed_def)
    next
      case miss
      then have "handleAndDispatchFrame tm f inp u = Inr (u', broadcastFrame f inp u)"
        using g False G(2) assms(2) by (simp add: handleAndDispatchFrame_def Let_def broadcastFrame_def)
      moreover have "knownPort ?H (agingTime u) tm (ef_dest f) = None" if "addressTableSize u = 0"
        using G(6) that miss range by (fastforce split: option.splits)
      ultimately show ?thesis using False G(1-4) by simp
    qed
  qed
qed

section \<open>Runs of a switch\<close>

text \<open>The frames that a switch with an empty table has handled, in the order of time.\<close>

inductive sw_run :: "MACRelayUnitBase \<Rightarrow> SwitchHistory \<Rightarrow> simtime \<Rightarrow> MACRelayUnitBase \<Rightarrow> bool" for u0 where
  sw_start: "addresstable u0 = [] \<Longrightarrow> 0 \<le> addressTableSize u0 \<Longrightarrow> sw_run u0 [] tm u0"
| sw_frame: "sw_run u0 H s u \<Longrightarrow> s \<le> tm \<Longrightarrow> 0 \<le> inp \<Longrightarrow> inp < numPorts u0 \<Longrightarrow> handleAndDispatchFrame tm f inp u = Inr (u', out) \<Longrightarrow>
    sw_run u0 (H @ [(tm, inp, f)]) tm u'"

lemma sw_run_learned:
  assumes "sw_run u0 H tm u"
  shows "learned H tm u \<and> numPorts u = numPorts u0 \<and> agingTime u = agingTime u0 \<and> addressTableSize u = addressTableSize u0"
  using assms
proof induction
  case (sw_start tm)
  then show ?case by (simp add: learned_def history_ok_def)
next
  case (sw_frame H s u tm inp f u' out)
  then have "learned H tm u" using learned_later by blast
  from dispatch_spec [OF this, of inp f] show ?case using sw_frame by auto
qed

definition demo_switch :: MACRelayUnitBase where
  "demo_switch = \<lparr> numPorts = 4, addressTableSize = 0, agingTime = 120, addresstable = [], ru_seqNum = 0 \<rparr>"

definition demo_frame :: "MACAddress \<Rightarrow> MACAddress \<Rightarrow> EtherFrame" where
  "demo_frame d s = \<lparr> ef_dest = d, ef_src = s, ef_byteLength = 64, ef_kind = EthernetIIFrame 0x800, ef_payload = None \<rparr>"

text \<open>
  Property C11: in every run a switch handles a frame without an error.  It floods the frame to all ports but the one it came from, or
  sends it to the port where the destination was last seen within the aging time; with an unbounded table it floods only
  when there is no such port.  The table never grows beyond its size.
\<close>
theorem switch_learns:
  assumes "sw_run u0 H s u" "s \<le> tm" "0 \<le> inp" "inp < numPorts u0"
  shows "\<exists>u' out. handleAndDispatchFrame tm f inp u = Inr (u', out) \<and>
    (addressTableSize u0 \<noteq> 0 \<longrightarrow> int (length (addresstable u')) \<le> addressTableSize u0) \<and>
    (let known = (if mac_isBroadcast (ef_dest f) then None else knownPort (H @ [(tm, inp, f)]) (agingTime u0) tm (ef_dest f))
     in out = map (\<lambda>i. (i, f)) (filter (\<lambda>i. i \<noteq> inp) [0..numPorts u0 - 1]) \<and> (addressTableSize u0 = 0 \<longrightarrow> known = None) \<or>
        (\<exists>p. known = Some p \<and> out = directed f inp p))"
proof -
  have u: "learned H s u" "numPorts u = numPorts u0" "agingTime u = agingTime u0" "addressTableSize u = addressTableSize u0"
    using sw_run_learned [OF assms(1)] by blast+
  have "inp < numPorts u" using assms(4) u(2) by simp
  from dispatch_spec [OF learned_later [OF u(1) assms(2)] assms(3) this, of f] obtain u' out where
    d: "handleAndDispatchFrame tm f inp u = Inr (u', out)" "learned (H @ [(tm, inp, f)]) tm u'" "addressTableSize u' = addressTableSize u0"
    "let known = (if mac_isBroadcast (ef_dest f) then None else knownPort (H @ [(tm, inp, f)]) (agingTime u) tm (ef_dest f))
     in out = broadcastFrame f inp u \<and> (addressTableSize u = 0 \<longrightarrow> known = None) \<or> (\<exists>p. known = Some p \<and> out = directed f inp p)"
    unfolding u(4) by blast
  have "addressTableSize u0 \<noteq> 0 \<longrightarrow> int (length (addresstable u')) \<le> addressTableSize u0" using learnedD(4) [OF d(2)] d(3) by simp
  then show ?thesis using d(1,4) unfolding broadcastFrame_def u(2-4) by blast
qed

theorem switch_learns_witness:
  "\<exists>u u' out. sw_run demo_switch [(1, 2, demo_frame 7 5)] 1 u \<and> handleAndDispatchFrame 3 (demo_frame 5 7) 0 u = Inr (u', out) \<and>
    knownPort [(1, 2, demo_frame 7 5), (3, 0, demo_frame 5 7)] 120 3 5 = Some 2 \<and> out = [(2, demo_frame 5 7)]"
proof -
  have z: "sw_run demo_switch [] 0 demo_switch" by (rule sw_start) (simp_all add: demo_switch_def)
  obtain u out where u: "handleAndDispatchFrame 1 (demo_frame 7 5) 2 demo_switch = Inr (u, out)"
    using switch_learns [OF z, of 1 2 "demo_frame 7 5"] by (auto simp: demo_switch_def)
  have r: "sw_run demo_switch [(1, 2, demo_frame 7 5)] 1 u"
    using sw_frame [OF z _ _ _ u] by (simp add: demo_switch_def)
  have k: "knownPort [(1, 2, demo_frame 7 5), (3, 0, demo_frame 5 7)] 120 3 5 = Some 2"
    by (simp add: knownPort_def lastSeen_def demo_frame_def)
  have b: "\<not> mac_isBroadcast 5" by code_simp
  obtain u' out where "handleAndDispatchFrame 3 (demo_frame 5 7) 0 u = Inr (u', out)" "out = [(2, demo_frame 5 7)]"
    using switch_learns [OF r, of 3 0 "demo_frame 5 7"] k b by (auto simp: demo_switch_def demo_frame_def directed_def)
  then show ?thesis using r k by blast
qed

end
