(* ===== verification/Switch_Buffer.thy ===== *)
theory Switch_Buffer
  imports Switch_Relay Queue_Base
begin

text \<open>
  The two relay units with buffers: \<open>MACRelayUnitNP\<close> has a shared queue and several processors, \<open>MACRelayUnitPP\<close> has
  a queue and a processor for every port.  Both rely on the base class for forwarding.  The locale \<open>relay_buffer\<close> is what
  they have in common: frames are stored while there is room and every stored frame is forwarded once.
\<close>

section \<open>Several processors with a shared queue\<close>

text \<open>
  A frame in the buffer is kept with the index of the gate it came from.  An element of \<open>endProcEvents\<close> is the time the
  self message is scheduled for and the frame its context pointer points to.
\<close>

record MACRelayUnitNP =
  np_base :: MACRelayUnitBase
  np_queue :: "(int \<times> EtherFrame) list"
  np_processingTime :: simtime
  np_bufferSize :: int
  np_highWatermark :: int
  np_pauseUnits :: int
  np_pauseInterval :: simtime
  np_bufferUsed :: int
  endProcEvents :: "(simtime option \<times> (int \<times> EtherFrame) option) list"
  np_pauseLastSent :: simtime
  np_numProcessedFrames :: int
  np_numDroppedFrames :: int

definition pauseIntervalOf :: "int \<Rightarrow> simtime" where
  "pauseIntervalOf pauseUnits = double_div (double_mult (of_int pauseUnits) 512) 100000"

definition np_initialize :: "MACRelayUnitBase \<Rightarrow> nat \<Rightarrow> simtime \<Rightarrow> int \<Rightarrow> int \<Rightarrow> int \<Rightarrow> MACRelayUnitNP" where
  "np_initialize base numCPUs processingTime bufferSize highWatermark pauseUnits =
     \<lparr> np_base = base, np_queue = [], np_processingTime = processingTime, np_bufferSize = bufferSize,
       np_highWatermark = highWatermark, np_pauseUnits = pauseUnits, np_pauseInterval = pauseIntervalOf pauseUnits,
       np_bufferUsed = 0, endProcEvents = replicate numCPUs (None, None), np_pauseLastSent = 0,
       np_numProcessedFrames = 0, np_numDroppedFrames = 0 \<rparr>"

text \<open>A PAUSE frame on every port.\<close>

fun pauseLoop :: "int list \<Rightarrow> int \<Rightarrow> MACRelayUnitBase \<Rightarrow> (MACRelayUnitBase \<times> SwitchOut) res" where
  "pauseLoop [] pauseUnits u = Inr (u, [])"
| "pauseLoop (i # is) pauseUnits u =
     bindE (sendPauseFrame i pauseUnits u) (\<lambda>(u, out).
     bindE (pauseLoop is pauseUnits u) (\<lambda>(u, out'). Inr (u, out @ out')))"

definition pauseNeeded :: "simtime \<Rightarrow> int \<Rightarrow> int \<Rightarrow> int \<Rightarrow> simtime \<Rightarrow> simtime \<Rightarrow> bool" where
  "pauseNeeded tm pauseUnits highWatermark bufferUsed pauseLastSent pauseInterval \<longleftrightarrow>
     pauseUnits > 0 \<and> highWatermark > 0 \<and> bufferUsed \<ge> highWatermark \<and> tm - pauseLastSent > pauseInterval"

fun freeCPU :: "nat \<Rightarrow> (simtime option \<times> (int \<times> EtherFrame) option) list \<Rightarrow> nat option" where
  "freeCPU i [] = None"
| "freeCPU i ((scheduled, ctx) # es) = (if scheduled = None then Some i else freeCPU (Suc i) es)"

definition np_startProcessing :: "simtime \<Rightarrow> int \<times> EtherFrame \<Rightarrow> MACRelayUnitNP \<Rightarrow> MACRelayUnitNP res" where
  "np_startProcessing tm x s =
     (case freeCPU 0 (endProcEvents s) of
        None \<Rightarrow> Inr (s\<lparr>np_queue := np_queue s @ [x]\<rparr>)
      | Some i \<Rightarrow>
          if snd (endProcEvents s ! i) \<noteq> None then Inl (AssertFailed ''msg->getContextPointer()==NULL'')
          else Inr (s\<lparr>endProcEvents := (endProcEvents s)[i := (Some (tm + np_processingTime s), Some x)]\<rparr>))"

definition np_handleIncomingFrame :: "simtime \<Rightarrow> int \<Rightarrow> EtherFrame \<Rightarrow> MACRelayUnitNP \<Rightarrow> (MACRelayUnitNP \<times> SwitchOut) res" where
  "np_handleIncomingFrame tm inputport frame s =
     (if ef_byteLength frame + np_bufferUsed s < np_bufferSize s
      then let s = s\<lparr>np_bufferUsed := np_bufferUsed s + ef_byteLength frame\<rparr>
           in bindE (if pauseNeeded tm (np_pauseUnits s) (np_highWatermark s) (np_bufferUsed s) (np_pauseLastSent s) (np_pauseInterval s)
                     then bindE (pauseLoop [0..numPorts (np_base s) - 1] (np_pauseUnits s) (np_base s)) (\<lambda>(u, out).
                          Inr (s\<lparr>np_base := u, np_pauseLastSent := tm\<rparr>, out))
                     else Inr (s, [])) (\<lambda>(s, out).
              bindE (np_startProcessing tm (inputport, frame) s) (\<lambda>s. Inr (s, out)))
      else Inr (s\<lparr>np_numDroppedFrames := np_numDroppedFrames s + 1\<rparr>, []))"

text \<open>The self message \<open>cpu\<close> arrives, so it is not scheduled any more.\<close>

definition np_processFrame :: "simtime \<Rightarrow> nat \<Rightarrow> MACRelayUnitNP \<Rightarrow> (MACRelayUnitNP \<times> SwitchOut) res" where
  "np_processFrame tm cpu s =
     (case snd (endProcEvents s ! cpu) of
        None \<Rightarrow> Inl (AssertFailed ''frame'')
      | Some (inputport, frame) \<Rightarrow>
          let s = s\<lparr>endProcEvents := (endProcEvents s)[cpu := (None, None)]\<rparr>
          in bindE (handleAndDispatchFrame tm frame inputport (np_base s)) (\<lambda>(u, out).
             let s = s\<lparr>np_base := u, np_bufferUsed := np_bufferUsed s - ef_byteLength frame,
                       np_numProcessedFrames := np_numProcessedFrames s + 1\<rparr>
             in Inr (case np_queue s of
                       [] \<Rightarrow> s
                     | x # q \<Rightarrow> s\<lparr>np_queue := q, endProcEvents := (endProcEvents s)[cpu := (Some (tm + np_processingTime s), Some x)]\<rparr>,
                     out)))"

text \<open>Messages: a frame on a gate \<open>lowerLayerIn\<close>, or the self message of a processor.\<close>

datatype SwitchEvent = FrameArrival int EtherFrame | EndProcessing nat

definition np_handleMessage :: "simtime \<Rightarrow> SwitchEvent \<Rightarrow> MACRelayUnitNP \<Rightarrow> (MACRelayUnitNP \<times> SwitchOut) res" where
  "np_handleMessage tm ev s =
     (case ev of FrameArrival p f \<Rightarrow> np_handleIncomingFrame tm p f s | EndProcessing i \<Rightarrow> np_processFrame tm i s)"

section \<open>A processor for every port\<close>

record PortBuffer =
  pb_port :: int
  cpuBusy :: bool
  pb_queue :: "EtherFrame list"

text \<open>\<open>pp_events\<close> are the self messages that are scheduled: the time, and the index of the buffer in the context pointer.\<close>

record MACRelayUnitPP =
  pp_base :: MACRelayUnitBase
  pp_processingTime :: simtime
  pp_bufferSize :: int
  pp_highWatermark :: int
  pp_pauseUnits :: int
  pp_pauseInterval :: simtime
  pp_bufferUsed :: int
  pp_buffer :: "PortBuffer list"
  pp_events :: "(simtime \<times> nat) list"
  pp_pauseLastSent :: simtime
  pp_numProcessedFrames :: int
  pp_numDroppedFrames :: int

definition pp_initialize :: "MACRelayUnitBase \<Rightarrow> simtime \<Rightarrow> int \<Rightarrow> int \<Rightarrow> int \<Rightarrow> MACRelayUnitPP" where
  "pp_initialize base processingTime bufferSize highWatermark pauseUnits =
     \<lparr> pp_base = base, pp_processingTime = processingTime, pp_bufferSize = bufferSize,
       pp_highWatermark = highWatermark, pp_pauseUnits = pauseUnits, pp_pauseInterval = pauseIntervalOf pauseUnits,
       pp_bufferUsed = 0, pp_buffer = map (\<lambda>i. \<lparr> pb_port = i, cpuBusy = False, pb_queue = [] \<rparr>) [0..numPorts base - 1],
       pp_events = [], pp_pauseLastSent = 0, pp_numProcessedFrames = 0, pp_numDroppedFrames = 0 \<rparr>"

definition pp_startProcessing :: "simtime \<Rightarrow> nat \<Rightarrow> MACRelayUnitPP \<Rightarrow> MACRelayUnitPP" where
  "pp_startProcessing tm i s =
     (if cpuBusy (pp_buffer s ! i) then s
      else s\<lparr>pp_buffer := (pp_buffer s)[i := (pp_buffer s ! i)\<lparr>cpuBusy := True\<rparr>],
             pp_events := pp_events s @ [(tm + pp_processingTime s, i)]\<rparr>)"

definition pp_handleIncomingFrame :: "simtime \<Rightarrow> int \<Rightarrow> EtherFrame \<Rightarrow> MACRelayUnitPP \<Rightarrow> (MACRelayUnitPP \<times> SwitchOut) res" where
  "pp_handleIncomingFrame tm inputport frame s =
     (if ef_byteLength frame + pp_bufferUsed s < pp_bufferSize s
      then if \<not> (0 \<le> inputport \<and> nat inputport < length (pp_buffer s)) then Inl NullPointer
           else let i = nat inputport;
                    b = pp_buffer s ! i;
                    s = s\<lparr>pp_buffer := (pp_buffer s)[i := b\<lparr>pb_queue := pb_queue b @ [frame], pb_port := inputport\<rparr>],
                          pp_bufferUsed := pp_bufferUsed s + ef_byteLength frame\<rparr>
                in bindE (if pauseNeeded tm (pp_pauseUnits s) (pp_highWatermark s) (pp_bufferUsed s) (pp_pauseLastSent s) (pp_pauseInterval s)
                          then bindE (pauseLoop [0..numPorts (pp_base s) - 1] (pp_pauseUnits s) (pp_base s)) (\<lambda>(u, out).
                               Inr (s\<lparr>pp_base := u, pp_pauseLastSent := tm\<rparr>, out))
                          else Inr (s, [])) (\<lambda>(s, out).
                   Inr (pp_startProcessing tm i s, out))
      else Inr (s\<lparr>pp_numDroppedFrames := pp_numDroppedFrames s + 1\<rparr>, []))"

text \<open>The \<open>k\<close>-th self message arrives.\<close>

definition pp_processFrame :: "simtime \<Rightarrow> nat \<Rightarrow> MACRelayUnitPP \<Rightarrow> (MACRelayUnitPP \<times> SwitchOut) res" where
  "pp_processFrame tm k s =
     (let i = snd (pp_events s ! k);
          s = s\<lparr>pp_events := take k (pp_events s) @ drop (Suc k) (pp_events s)\<rparr>;
          b = pp_buffer s ! i
      in case pb_queue b of
           [] \<Rightarrow> Inl NullPointer
         | frame # q \<Rightarrow>
             let b = b\<lparr>pb_queue := q\<rparr>; s = s\<lparr>pp_buffer := (pp_buffer s)[i := b]\<rparr>
             in bindE (handleAndDispatchFrame tm frame (pb_port b) (pp_base s)) (\<lambda>(u, out).
                let s = s\<lparr>pp_base := u, pp_bufferUsed := pp_bufferUsed s - ef_byteLength frame,
                          pp_numProcessedFrames := pp_numProcessedFrames s + 1\<rparr>
                in Inr (if q \<noteq> [] then s\<lparr>pp_events := pp_events s @ [(tm + pp_processingTime s, i)]\<rparr>
                        else s\<lparr>pp_buffer := (pp_buffer s)[i := b\<lparr>cpuBusy := False\<rparr>]\<rparr>,
                        out)))"

definition pp_handleMessage :: "simtime \<Rightarrow> SwitchEvent \<Rightarrow> MACRelayUnitPP \<Rightarrow> (MACRelayUnitPP \<times> SwitchOut) res" where
  "pp_handleMessage tm ev s =
     (case ev of FrameArrival p f \<Rightarrow> pp_handleIncomingFrame tm p f s | EndProcessing i \<Rightarrow> pp_processFrame tm i s)"

section \<open>What the buffers have in common\<close>

text \<open>A run: events at times that do not decrease, each enabled when it happens.\<close>

inductive ev_run :: "(simtime \<Rightarrow> SwitchEvent \<Rightarrow> 's \<Rightarrow> ('s \<times> SwitchOut) res) \<Rightarrow> ('s \<Rightarrow> SwitchEvent \<Rightarrow> bool) \<Rightarrow> 's \<Rightarrow>
    (simtime \<times> SwitchEvent) list \<Rightarrow> simtime \<Rightarrow> 's \<Rightarrow> bool" for step enabled s0 where
  ev_start: "ev_run step enabled s0 [] 0 s0"
| ev_step: "ev_run step enabled s0 E t s \<Longrightarrow> t \<le> tm \<Longrightarrow> enabled s ev \<Longrightarrow> step tm ev s = Inr (s', out) \<Longrightarrow>
    ev_run step enabled s0 (E @ [(tm, ev)]) tm s'"

definition arrivals :: "(simtime \<times> SwitchEvent) list \<Rightarrow> EtherFrame list" where
  "arrivals E = concat (map (\<lambda>(tm, ev). case ev of FrameArrival p f \<Rightarrow> [f] | EndProcessing i \<Rightarrow> []) E)"

lemma arrivals_simps [simp]:
  "arrivals [] = []" "arrivals (E @ [(tm, FrameArrival p f)]) = arrivals E @ [f]" "arrivals (E @ [(tm, EndProcessing i)]) = arrivals E"
  by (simp_all add: arrivals_def)

locale relay_buffer =
  fixes step :: "simtime \<Rightarrow> SwitchEvent \<Rightarrow> 's \<Rightarrow> ('s \<times> SwitchOut) res" and enabled :: "'s \<Rightarrow> SwitchEvent \<Rightarrow> bool"
    and held :: "'s \<Rightarrow> EtherFrame multiset" and used limit processed dropped :: "'s \<Rightarrow> int" and inv :: "simtime \<Rightarrow> 's \<Rightarrow> bool"
  assumes later: "inv t s \<Longrightarrow> t \<le> tm \<Longrightarrow> inv tm s"
    and nonneg: "enabled s (FrameArrival p f) \<Longrightarrow> 0 \<le> ef_byteLength f"
    and arrival: "inv tm s \<Longrightarrow> enabled s (FrameArrival p f) \<Longrightarrow>
      \<exists>s' out. step tm (FrameArrival p f) s = Inr (s', out) \<and> inv tm s' \<and> limit s' = limit s \<and> processed s' = processed s \<and>
        (if ef_byteLength f + used s < limit s
         then held s' = add_mset f (held s) \<and> used s' = used s + ef_byteLength f \<and> dropped s' = dropped s
         else held s' = held s \<and> used s' = used s \<and> dropped s' = dropped s + 1)"
    and completion: "inv tm s \<Longrightarrow> enabled s (EndProcessing i) \<Longrightarrow>
      \<exists>s' out f. step tm (EndProcessing i) s = Inr (s', out) \<and> inv tm s' \<and> limit s' = limit s \<and> dropped s' = dropped s \<and>
        processed s' = processed s + 1 \<and> held s = add_mset f (held s') \<and> used s' = used s - ef_byteLength f"
begin

lemma never_fails:
  assumes "inv t s" "t \<le> tm" "enabled s ev"
  shows "\<exists>s' out. step tm ev s = Inr (s', out) \<and> inv tm s'"
proof (cases ev)
  case (FrameArrival p f)
  then show ?thesis using arrival [OF later [OF assms(1,2)]] assms(3) by blast
next
  case (EndProcessing i)
  then show ?thesis using completion [OF later [OF assms(1,2)]] assms(3) by blast
qed

definition accounted :: "(simtime \<times> SwitchEvent) list \<Rightarrow> 's \<Rightarrow> bool" where
  "accounted E s \<longleftrightarrow> used s = (\<Sum>f \<in># held s. ef_byteLength f) \<and> (\<forall>f \<in># held s. 0 \<le> ef_byteLength f) \<and>
     (held s = {#} \<or> used s < limit s) \<and> int (length (arrivals E)) = processed s + dropped s + int (size (held s))"

lemma accounted_step:
  assumes "accounted E s" "inv tm s" "enabled s ev" "step tm ev s = Inr (s', out)"
  shows "accounted (E @ [(tm, ev)]) s'"
proof (cases ev)
  case (FrameArrival p f)
  then show ?thesis
    using arrival [OF assms(2), of p f] nonneg [of s p f] assms(1,3,4) by (auto simp: accounted_def split: if_splits)
next
  case (EndProcessing i)
  then obtain f where f: "limit s' = limit s" "dropped s' = dropped s" "processed s' = processed s + 1"
    "held s = add_mset f (held s')" "used s' = used s - ef_byteLength f"
    using completion [OF assms(2), of i] assms(3,4) by auto
  then show ?thesis using assms(1) EndProcessing by (auto simp: accounted_def)
qed

lemma run_accounted:
  assumes "ev_run step enabled s0 E tm s" "inv 0 s0" "accounted [] s0"
  shows "inv tm s \<and> accounted E s"
  using assms(1)
proof induction
  case ev_start
  then show ?case using assms(2,3) by blast
next
  case (ev_step E t s tm ev s' out)
  then have "inv tm s" using later by blast
  then show ?case using never_fails [of tm s tm ev] accounted_step [of E s tm ev s' out] ev_step by auto
qed

end

section \<open>Pausing does not change what is known\<close>

lemma pauseLoop_ok:
  assumes "set is \<subseteq> {0..<numPorts u}"
  shows "\<exists>k out. pauseLoop is n u = Inr (u\<lparr>ru_seqNum := k\<rparr>, out)"
  using assms
proof (induction "is" arbitrary: u)
  case Nil
  show ?case by (intro exI [of _ "ru_seqNum u"]) simp
next
  case (Cons i "is")
  let ?u = "u\<lparr>ru_seqNum := ru_seqNum u + 1\<rparr>"
  obtain out where 1: "sendPauseFrame i n u = Inr (?u, out)" using Cons.prems by (auto simp: sendPauseFrame_def sendPort_def Let_def)
  obtain k out' where "pauseLoop is n ?u = Inr (?u\<lparr>ru_seqNum := k\<rparr>, out')" using Cons.IH [of ?u] Cons.prems by auto
  then show ?case using 1 by auto
qed

lemma learned_seqNum [simp]: "learned H tm (u\<lparr>ru_seqNum := k\<rparr>) = learned H tm u"
  by (simp add: learned_def)

lemma all_ports: "set [0..n - 1] \<subseteq> {0..<n::int}"
  by auto

section \<open>The shared queue\<close>

definition inCPU :: "simtime option \<times> (int \<times> EtherFrame) option \<Rightarrow> (int \<times> EtherFrame) list" where
  "inCPU e = (case snd e of None \<Rightarrow> [] | Some x \<Rightarrow> [x])"

definition np_frames :: "MACRelayUnitNP \<Rightarrow> (int \<times> EtherFrame) multiset" where
  "np_frames s = mset (np_queue s) + mset (concat (map inCPU (endProcEvents s)))"

definition np_inv :: "simtime \<Rightarrow> MACRelayUnitNP \<Rightarrow> bool" where
  "np_inv tm s \<longleftrightarrow> (\<exists>H. learned H tm (np_base s)) \<and> (\<forall>(p, f) \<in># np_frames s. 0 \<le> p \<and> p < numPorts (np_base s)) \<and>
     (\<forall>e \<in> set (endProcEvents s). fst e = None \<longleftrightarrow> snd e = None) \<and>
     (np_queue s \<noteq> [] \<longrightarrow> (\<forall>e \<in> set (endProcEvents s). fst e \<noteq> None))"

definition np_enabled :: "MACRelayUnitNP \<Rightarrow> SwitchEvent \<Rightarrow> bool" where
  "np_enabled s ev \<longleftrightarrow>
     (case ev of FrameArrival p f \<Rightarrow> 0 \<le> p \<and> p < numPorts (np_base s) \<and> 0 \<le> ef_byteLength f
      | EndProcessing i \<Rightarrow> i < length (endProcEvents s) \<and> fst (endProcEvents s ! i) \<noteq> None)"

lemma freeCPU_spec:
  "freeCPU i es = Some k \<Longrightarrow> i \<le> k \<and> k - i < length es \<and> fst (es ! (k - i)) = None"
  "freeCPU i es = None \<Longrightarrow> \<forall>e \<in> set es. fst e \<noteq> None"
proof (induction es arbitrary: i)
  case (Cons e es)
  {
    case 1
    show ?case
    proof (cases "fst e = None")
      case True
      then show ?thesis using 1 by (cases e) auto
    next
      case False
      then have "freeCPU (Suc i) es = Some k" using 1 by (cases e) auto
      note IH = Cons.IH(1) [OF this]
      then have "k - i = Suc (k - Suc i)" by linarith
      then show ?thesis using IH by simp
    qed
  next
    case 2
    then show ?case using Cons.IH(2) [of "Suc i"] by (cases e) (auto split: if_splits)
  }
qed auto

lemma inCPU_update:
  "i < length es \<Longrightarrow> mset (concat (map inCPU (es[i := e]))) + mset (inCPU (es ! i)) = mset (concat (map inCPU es)) + mset (inCPU e)"
  using mset_concat_update [of i "map inCPU es" "inCPU e"] by (simp add: map_update)

lemma np_start:
  assumes "np_inv tm s" "0 \<le> fst x" "fst x < numPorts (np_base s)"
  shows "\<exists>q es. np_startProcessing tm x s = Inr (s\<lparr>np_queue := q, endProcEvents := es\<rparr>) \<and>
    np_inv tm (s\<lparr>np_queue := q, endProcEvents := es\<rparr>) \<and> np_frames (s\<lparr>np_queue := q, endProcEvents := es\<rparr>) = add_mset x (np_frames s)"
proof (cases "freeCPU 0 (endProcEvents s)")
  case None
  let ?s = "s\<lparr>np_queue := np_queue s @ [x]\<rparr>"
  have fr: "np_frames ?s = add_mset x (np_frames s)" by (simp add: np_frames_def)
  have "np_inv tm ?s" using assms freeCPU_spec(2) [OF None] unfolding np_inv_def fr by auto
  then show ?thesis
    using None fr by (intro exI [of _ "np_queue s @ [x]"] exI [of _ "endProcEvents s"]) (simp add: np_startProcessing_def)
next
  case (Some i)
  let ?es = "(endProcEvents s)[i := (Some (tm + np_processingTime s), Some x)]"
  let ?s = "s\<lparr>np_queue := np_queue s, endProcEvents := ?es\<rparr>"
  have i: "i < length (endProcEvents s)" "fst (endProcEvents s ! i) = None" using freeCPU_spec(1) [OF Some] by simp_all
  have c: "snd (endProcEvents s ! i) = None" using assms(1) i nth_mem [OF i(1)] by (auto simp: np_inv_def)
  have fr: "np_frames ?s = add_mset x (np_frames s)"
    using inCPU_update [OF i(1), of "(Some (tm + np_processingTime s), Some x)"] c by (simp add: np_frames_def inCPU_def)
  have q: "np_queue s = []" using assms(1) i(2) nth_mem [OF i(1)] unfolding np_inv_def by blast
  have "\<forall>e \<in> set ?es. fst e = None \<longleftrightarrow> snd e = None"
    using assms(1) set_update_subset_insert [of "endProcEvents s" i] unfolding np_inv_def by fastforce
  then have "np_inv tm ?s" using assms q unfolding np_inv_def fr by auto
  then show ?thesis using Some c fr by (intro exI [of _ "np_queue s"] exI [of _ ?es]) (simp add: np_startProcessing_def)
qed

lemma np_inv_cong:
  assumes "np_queue s' = np_queue s" "endProcEvents s' = endProcEvents s" "np_base s' = (np_base s)\<lparr>ru_seqNum := k\<rparr>"
  shows "np_inv tm s' = np_inv tm s"
  unfolding np_inv_def np_frames_def assms by simp

lemma np_arrival:
  assumes "np_inv tm s" "np_enabled s (FrameArrival p f)"
  shows "\<exists>s' out. np_handleMessage tm (FrameArrival p f) s = Inr (s', out) \<and> np_inv tm s' \<and> np_bufferSize s' = np_bufferSize s \<and>
    np_numProcessedFrames s' = np_numProcessedFrames s \<and>
    (if ef_byteLength f + np_bufferUsed s < np_bufferSize s
     then np_frames s' = add_mset (p, f) (np_frames s) \<and> np_bufferUsed s' = np_bufferUsed s + ef_byteLength f \<and>
       np_numDroppedFrames s' = np_numDroppedFrames s
     else np_frames s' = np_frames s \<and> np_bufferUsed s' = np_bufferUsed s \<and> np_numDroppedFrames s' = np_numDroppedFrames s + 1)"
proof (cases "ef_byteLength f + np_bufferUsed s < np_bufferSize s")
  case False
  then show ?thesis using assms(1) by (simp add: np_handleMessage_def np_handleIncomingFrame_def np_inv_def np_frames_def)
next
  case True
  let ?s = "s\<lparr>np_bufferUsed := np_bufferUsed s + ef_byteLength f\<rparr>"
  let ?pause = "if pauseNeeded tm (np_pauseUnits ?s) (np_highWatermark ?s) (np_bufferUsed ?s) (np_pauseLastSent ?s) (np_pauseInterval ?s)
                     then bindE (pauseLoop [0..numPorts (np_base ?s) - 1] (np_pauseUnits ?s) (np_base ?s)) (\<lambda>(u, out).
                          Inr (?s\<lparr>np_base := u, np_pauseLastSent := tm\<rparr>, out))
                     else Inr (?s, [])"
  obtain k tl out where 1: "?pause = Inr (?s\<lparr>np_base := (np_base s)\<lparr>ru_seqNum := k\<rparr>, np_pauseLastSent := tl\<rparr>, out)"
  proof (cases "pauseNeeded tm (np_pauseUnits ?s) (np_highWatermark ?s) (np_bufferUsed ?s) (np_pauseLastSent ?s) (np_pauseInterval ?s)")
    case True
    then show ?thesis using pauseLoop_ok [OF all_ports, of "np_base s" "np_pauseUnits s"] that by auto
  next
    case False
    then show ?thesis using that [of "np_pauseLastSent s" "ru_seqNum (np_base s)" "[]"] by simp
  qed
  let ?s1 = "?s\<lparr>np_base := (np_base s)\<lparr>ru_seqNum := k\<rparr>, np_pauseLastSent := tl\<rparr>"
  have i: "np_frames ?s1 = np_frames s" by (simp add: np_frames_def)
  have i1: "np_inv tm ?s1" using np_inv_cong [of ?s1 s k tm] assms(1) by simp
  obtain q es where 2: "np_startProcessing tm (p, f) ?s1 = Inr (?s1\<lparr>np_queue := q, endProcEvents := es\<rparr>)"
    "np_inv tm (?s1\<lparr>np_queue := q, endProcEvents := es\<rparr>)" "np_frames (?s1\<lparr>np_queue := q, endProcEvents := es\<rparr>) = add_mset (p, f) (np_frames s)"
    using np_start [OF i1, of "(p, f)"] assms(2) unfolding i by (auto simp: np_enabled_def)
  have "np_handleMessage tm (FrameArrival p f) s = Inr (?s1\<lparr>np_queue := q, endProcEvents := es\<rparr>, out)"
    using True 1 2(1) by (simp add: np_handleMessage_def np_handleIncomingFrame_def Let_def)
  then show ?thesis using True 2(2,3) by simp
qed

lemma np_completion:
  assumes "np_inv tm s" "np_enabled s (EndProcessing i)"
  shows "\<exists>s' out x. np_handleMessage tm (EndProcessing i) s = Inr (s', out) \<and> np_inv tm s' \<and> np_bufferSize s' = np_bufferSize s \<and>
    np_numDroppedFrames s' = np_numDroppedFrames s \<and> np_numProcessedFrames s' = np_numProcessedFrames s + 1 \<and>
    np_frames s = add_mset x (np_frames s') \<and> np_bufferUsed s' = np_bufferUsed s - ef_byteLength (snd x)"
proof -
  let ?e = "endProcEvents s ! i"
  have i: "i < length (endProcEvents s)" "fst ?e \<noteq> None" using assms(2) by (simp_all add: np_enabled_def)
  then have "snd ?e \<noteq> None" using assms(1) nth_mem [OF i(1)] unfolding np_inv_def by metis
  then obtain p f where x: "snd ?e = Some (p, f)" by auto
  have fr: "mset (concat (map inCPU ((endProcEvents s)[i := e]))) + {#(p, f)#} = mset (concat (map inCPU (endProcEvents s))) + mset (inCPU e)" for e
    using inCPU_update [OF i(1), of e] x by (simp add: inCPU_def [of ?e])
  have "\<exists>y \<in> set (endProcEvents s). (p, f) \<in> set (inCPU y)"
    using x nth_mem [OF i(1)] by (intro bexI [of _ ?e]) (simp_all add: inCPU_def)
  then have "(p, f) \<in># np_frames s" by (auto simp: np_frames_def)
  then have p: "0 \<le> p" "p < numPorts (np_base s)" using assms(1) unfolding np_inv_def by auto
  obtain H where "learned H tm (np_base s)" using assms(1) by (auto simp: np_inv_def)
  from dispatch_spec [OF this p, of f] obtain u out where d: "handleAndDispatchFrame tm f p (np_base s) = Inr (u, out)"
    "learned (H @ [(tm, p, f)]) tm u" "numPorts u = numPorts (np_base s)" by blast
  let ?b = "\<lambda>s. s\<lparr>np_base := u, np_bufferUsed := np_bufferUsed s - ef_byteLength f, np_numProcessedFrames := np_numProcessedFrames s + 1\<rparr>"
  define e where "e = (case np_queue s of [] \<Rightarrow> (None, None) | y # q \<Rightarrow> (Some (tm + np_processingTime s), Some y))"
  let ?s' = "(?b s)\<lparr>np_queue := tl (np_queue s), endProcEvents := (endProcEvents s)[i := e]\<rparr>"
  have r: "np_handleMessage tm (EndProcessing i) s = Inr (?s', out)"
    using x d(1) by (cases "np_queue s") (simp_all add: np_handleMessage_def np_processFrame_def Let_def e_def)
  have f: "np_frames s = add_mset (p, f) (np_frames ?s')"
    using fr [of e] by (cases "np_queue s") (simp_all add: np_frames_def e_def inCPU_def add.commute)
  have "fst y = None \<longleftrightarrow> snd y = None" if "y \<in> set ((endProcEvents s)[i := e])" for y
    using that set_update_subset_insert [of "endProcEvents s" i e] assms(1) unfolding np_inv_def e_def by (auto split: list.splits)
  moreover have "fst y \<noteq> None" if q: "tl (np_queue s) \<noteq> []" and y: "y \<in> set ((endProcEvents s)[i := e])" for y
  proof (cases "y = e")
    case True
    then show ?thesis using q by (cases "np_queue s") (simp_all add: e_def)
  next
    case False
    then have "y \<in> set (endProcEvents s)" using y set_update_subset_insert [of "endProcEvents s" i e] by blast
    moreover have "np_queue s \<noteq> []" using q by auto
    ultimately show ?thesis using assms(1) unfolding np_inv_def by blast
  qed
  moreover have "\<forall>(p, g) \<in># np_frames ?s'. 0 \<le> p \<and> p < numPorts u" using assms(1) f d(3) unfolding np_inv_def by auto
  ultimately have "np_inv tm ?s'" using d(2) unfolding np_inv_def by (simp, blast)
  then show ?thesis using r f by (intro exI [of _ ?s'] exI [of _ out] exI [of _ "(p, f)"]) simp
qed

interpretation np: relay_buffer np_handleMessage np_enabled "\<lambda>s. image_mset snd (np_frames s)" np_bufferUsed np_bufferSize
  np_numProcessedFrames np_numDroppedFrames np_inv
proof unfold_locales
  fix t tm s
  show "np_inv t s \<Longrightarrow> t \<le> tm \<Longrightarrow> np_inv tm s" using learned_later unfolding np_inv_def by blast
next
  fix s p f
  show "np_enabled s (FrameArrival p f) \<Longrightarrow> 0 \<le> ef_byteLength f" by (simp add: np_enabled_def)
next
  fix tm s p f
  assume "np_inv tm s" "np_enabled s (FrameArrival p f)"
  from np_arrival [OF this] show "\<exists>s' out. np_handleMessage tm (FrameArrival p f) s = Inr (s', out) \<and> np_inv tm s' \<and>
      np_bufferSize s' = np_bufferSize s \<and> np_numProcessedFrames s' = np_numProcessedFrames s \<and>
      (if ef_byteLength f + np_bufferUsed s < np_bufferSize s
       then image_mset snd (np_frames s') = add_mset f (image_mset snd (np_frames s)) \<and> np_bufferUsed s' = np_bufferUsed s + ef_byteLength f \<and>
         np_numDroppedFrames s' = np_numDroppedFrames s
       else image_mset snd (np_frames s') = image_mset snd (np_frames s) \<and> np_bufferUsed s' = np_bufferUsed s \<and>
         np_numDroppedFrames s' = np_numDroppedFrames s + 1)" by (auto split: if_splits)
next
  fix tm s i
  assume "np_inv tm s" "np_enabled s (EndProcessing i)"
  from np_completion [OF this] show "\<exists>s' out f. np_handleMessage tm (EndProcessing i) s = Inr (s', out) \<and> np_inv tm s' \<and>
      np_bufferSize s' = np_bufferSize s \<and> np_numDroppedFrames s' = np_numDroppedFrames s \<and>
      np_numProcessedFrames s' = np_numProcessedFrames s + 1 \<and>
      image_mset snd (np_frames s) = add_mset f (image_mset snd (np_frames s')) \<and> np_bufferUsed s' = np_bufferUsed s - ef_byteLength f" by fastforce
qed

section \<open>A queue for every port\<close>

definition pp_frames :: "MACRelayUnitPP \<Rightarrow> EtherFrame multiset" where
  "pp_frames s = mset (concat (map pb_queue (pp_buffer s)))"

definition buffers_ok :: "PortBuffer list \<Rightarrow> nat list \<Rightarrow> bool" where
  "buffers_ok bs is \<longleftrightarrow> (\<forall>i < length bs. pb_port (bs ! i) = int i \<and> (cpuBusy (bs ! i) \<longleftrightarrow> pb_queue (bs ! i) \<noteq> [])) \<and>
     distinct is \<and> set is = {i. i < length bs \<and> cpuBusy (bs ! i)}"

definition pp_inv :: "simtime \<Rightarrow> MACRelayUnitPP \<Rightarrow> bool" where
  "pp_inv tm s \<longleftrightarrow> (\<exists>H. learned H tm (pp_base s)) \<and> length (pp_buffer s) = nat (numPorts (pp_base s)) \<and>
     buffers_ok (pp_buffer s) (map snd (pp_events s))"

definition pp_enabled :: "MACRelayUnitPP \<Rightarrow> SwitchEvent \<Rightarrow> bool" where
  "pp_enabled s ev \<longleftrightarrow>
     (case ev of FrameArrival p f \<Rightarrow> 0 \<le> p \<and> p < numPorts (pp_base s) \<and> 0 \<le> ef_byteLength f
      | EndProcessing k \<Rightarrow> k < length (pp_events s))"

lemma pb_update:
  "i < length bs \<Longrightarrow> mset (concat (map pb_queue (bs[i := b]))) + mset (pb_queue (bs ! i)) = mset (concat (map pb_queue bs)) + mset (pb_queue b)"
  using mset_concat_update [of i "map pb_queue bs" "pb_queue b"] by (simp add: map_update)

lemma buffers_insert:
  assumes "buffers_ok bs is" "i < length bs"
  shows "buffers_ok (bs[i := (bs ! i)\<lparr>pb_queue := pb_queue (bs ! i) @ [f], cpuBusy := True\<rparr>]) (if cpuBusy (bs ! i) then is else is @ [i])"
  using assms unfolding buffers_ok_def by (auto simp: nth_list_update)

lemma buffers_remove:
  assumes "buffers_ok bs (as @ i # cs)" "pb_queue (bs ! i) = f # q"
  shows "buffers_ok (bs[i := (bs ! i)\<lparr>pb_queue := q, cpuBusy := q \<noteq> []\<rparr>]) ((as @ cs) @ (if q \<noteq> [] then [i] else []))"
proof -
  let ?bs = "bs[i := (bs ! i)\<lparr>pb_queue := q, cpuBusy := q \<noteq> []\<rparr>]"
  have i: "distinct (as @ i # cs)" "set (as @ i # cs) = {j. j < length bs \<and> cpuBusy (bs ! j)}" using assms(1) by (simp_all add: buffers_ok_def)
  then have il: "i < length bs" by auto
  then have "set (as @ cs) = {j. j < length bs \<and> cpuBusy (bs ! j)} - {i}" "{j. j < length ?bs \<and> cpuBusy (?bs ! j)} =
      {j. j < length bs \<and> cpuBusy (bs ! j)} - {i} \<union> (if q \<noteq> [] then {i} else {})" using i by (auto simp: nth_list_update)
  moreover have "distinct ((as @ cs) @ (if q \<noteq> [] then [i] else []))" using i(1) by auto
  moreover have "\<forall>j < length ?bs. pb_port (?bs ! j) = int j \<and> (cpuBusy (?bs ! j) \<longleftrightarrow> pb_queue (?bs ! j) \<noteq> [])"
    using assms(1) il by (auto simp: buffers_ok_def nth_list_update)
  ultimately show ?thesis unfolding buffers_ok_def by simp
qed

lemma pp_arrival:
  assumes "pp_inv tm s" "pp_enabled s (FrameArrival p f)"
  shows "\<exists>s' out. pp_handleMessage tm (FrameArrival p f) s = Inr (s', out) \<and> pp_inv tm s' \<and> pp_bufferSize s' = pp_bufferSize s \<and>
    pp_numProcessedFrames s' = pp_numProcessedFrames s \<and>
    (if ef_byteLength f + pp_bufferUsed s < pp_bufferSize s
     then pp_frames s' = add_mset f (pp_frames s) \<and> pp_bufferUsed s' = pp_bufferUsed s + ef_byteLength f \<and>
       pp_numDroppedFrames s' = pp_numDroppedFrames s
     else pp_frames s' = pp_frames s \<and> pp_bufferUsed s' = pp_bufferUsed s \<and> pp_numDroppedFrames s' = pp_numDroppedFrames s + 1)"
proof (cases "ef_byteLength f + pp_bufferUsed s < pp_bufferSize s")
  case False
  then show ?thesis using assms(1) by (simp add: pp_handleMessage_def pp_handleIncomingFrame_def pp_inv_def pp_frames_def)
next
  case True
  let ?i = "nat p"
  let ?b = "pp_buffer s ! ?i"
  have i: "?i < length (pp_buffer s)" "int ?i = p" "0 \<le> p" using assms by (auto simp: pp_inv_def pp_enabled_def)
  have port: "pb_port ?b = p" using assms(1) i unfolding pp_inv_def buffers_ok_def by metis
  let ?s = "s\<lparr>pp_buffer := (pp_buffer s)[?i := ?b\<lparr>pb_queue := pb_queue ?b @ [f], pb_port := p\<rparr>], pp_bufferUsed := pp_bufferUsed s + ef_byteLength f\<rparr>"
  let ?pause = "if pauseNeeded tm (pp_pauseUnits ?s) (pp_highWatermark ?s) (pp_bufferUsed ?s) (pp_pauseLastSent ?s) (pp_pauseInterval ?s)
                     then bindE (pauseLoop [0..numPorts (pp_base ?s) - 1] (pp_pauseUnits ?s) (pp_base ?s)) (\<lambda>(u, out).
                          Inr (?s\<lparr>pp_base := u, pp_pauseLastSent := tm\<rparr>, out))
                     else Inr (?s, [])"
  obtain k tl out where 1: "?pause = Inr (?s\<lparr>pp_base := (pp_base s)\<lparr>ru_seqNum := k\<rparr>, pp_pauseLastSent := tl\<rparr>, out)"
  proof (cases "pauseNeeded tm (pp_pauseUnits ?s) (pp_highWatermark ?s) (pp_bufferUsed ?s) (pp_pauseLastSent ?s) (pp_pauseInterval ?s)")
    case True
    then show ?thesis using pauseLoop_ok [OF all_ports, of "pp_base s" "pp_pauseUnits s"] that by auto
  next
    case False
    then show ?thesis using that [of "pp_pauseLastSent s" "ru_seqNum (pp_base s)" "[]"] by simp
  qed
  let ?s1 = "?s\<lparr>pp_base := (pp_base s)\<lparr>ru_seqNum := k\<rparr>, pp_pauseLastSent := tl\<rparr>"
  define b2 where "b2 = ?b\<lparr>pb_queue := pb_queue ?b @ [f], cpuBusy := True\<rparr>"
  let ?bs = "(pp_buffer s)[?i := b2]"
  let ?es = "if cpuBusy ?b then pp_events s else pp_events s @ [(tm + pp_processingTime s, ?i)]"
  let ?s2 = "?s1\<lparr>pp_buffer := ?bs, pp_events := ?es\<rparr>"
  have busy: "?b\<lparr>pb_queue := pb_queue ?b @ [f], pb_port := p\<rparr> = b2" if "cpuBusy ?b" using port that unfolding b2_def by (cases ?b) simp
  have idle: "?b\<lparr>pb_queue := pb_queue ?b @ [f], pb_port := p, cpuBusy := True\<rparr> = b2" using port unfolding b2_def by (cases ?b) simp
  have st: "pp_startProcessing tm ?i ?s1 = ?s2"
  proof (cases "cpuBusy ?b")
    case True
    have "cpuBusy b2" by (simp add: b2_def)
    then show ?thesis using True i(1) busy by (simp add: pp_startProcessing_def)
  next
    case False
    then show ?thesis using i(1) idle by (simp add: pp_startProcessing_def)
  qed
  have r: "pp_handleMessage tm (FrameArrival p f) s = Inr (?s2, out)"
    using True 1 i st by (simp add: pp_handleMessage_def pp_handleIncomingFrame_def Let_def)
  have "buffers_ok ?bs (map snd ?es)"
    using buffers_insert [OF _ i(1), of "map snd (pp_events s)" f] assms(1) unfolding b2_def by (auto simp: pp_inv_def)
  then have "pp_inv tm ?s2" using assms(1) by (simp add: pp_inv_def)
  moreover have "pp_frames ?s2 = add_mset f (pp_frames s)" using pb_update [OF i(1), of b2] by (simp add: pp_frames_def b2_def)
  ultimately show ?thesis using r True by simp
qed

lemma pp_completion:
  assumes "pp_inv tm s" "pp_enabled s (EndProcessing k)"
  shows "\<exists>s' out f. pp_handleMessage tm (EndProcessing k) s = Inr (s', out) \<and> pp_inv tm s' \<and> pp_bufferSize s' = pp_bufferSize s \<and>
    pp_numDroppedFrames s' = pp_numDroppedFrames s \<and> pp_numProcessedFrames s' = pp_numProcessedFrames s + 1 \<and>
    pp_frames s = add_mset f (pp_frames s') \<and> pp_bufferUsed s' = pp_bufferUsed s - ef_byteLength f"
proof -
  let ?as = "take k (pp_events s)" and ?cs = "drop (Suc k) (pp_events s)"
  define i where "i = snd (pp_events s ! k)"
  let ?b = "pp_buffer s ! i"
  have "pp_events s = ?as @ pp_events s ! k # ?cs" using assms(2) by (intro id_take_nth_drop) (simp add: pp_enabled_def)
  then have es: "map snd (pp_events s) = map snd ?as @ i # map snd ?cs" unfolding i_def by (metis list.simps(9) map_append)
  have ok: "buffers_ok (pp_buffer s) (map snd ?as @ i # map snd ?cs)" using assms(1) unfolding pp_inv_def es [symmetric] by blast
  then have "i \<in> {j. j < length (pp_buffer s) \<and> cpuBusy (pp_buffer s ! j)}" unfolding buffers_ok_def by (metis in_set_conv_decomp)
  then have i: "i < length (pp_buffer s)" "pb_queue ?b \<noteq> []" "pb_port ?b = int i" using ok unfolding buffers_ok_def by auto
  then obtain f q where q: "pb_queue ?b = f # q" by (cases "pb_queue ?b") auto
  obtain H where H: "learned H tm (pp_base s)" and n: "length (pp_buffer s) = nat (numPorts (pp_base s))" using assms(1) by (auto simp: pp_inv_def)
  have "0 \<le> int i" "int i < numPorts (pp_base s)" using i(1) n by linarith+
  from dispatch_spec [OF H this, of f] obtain u out where d: "handleAndDispatchFrame tm f (int i) (pp_base s) = Inr (u, out)"
    "learned (H @ [(tm, int i, f)]) tm u" "numPorts u = numPorts (pp_base s)" by blast
  let ?bs = "(pp_buffer s)[i := ?b\<lparr>pb_queue := q, cpuBusy := q \<noteq> []\<rparr>]"
  let ?s' = "s\<lparr>pp_base := u, pp_bufferUsed := pp_bufferUsed s - ef_byteLength f, pp_numProcessedFrames := pp_numProcessedFrames s + 1,
      pp_buffer := ?bs, pp_events := (?as @ ?cs) @ (if q \<noteq> [] then [(tm + pp_processingTime s, i)] else [])\<rparr>"
  have "cpuBusy ?b" using i ok unfolding buffers_ok_def by blast
  then have "?b\<lparr>pb_queue := q, cpuBusy := True\<rparr> = ?b\<lparr>pb_queue := q\<rparr>" by (cases ?b) simp
  then have r: "pp_handleMessage tm (EndProcessing k) s = Inr (?s', out)"
    using q d(1) i(1,3) i_def by (simp add: pp_handleMessage_def pp_processFrame_def Let_def)
  have "buffers_ok ?bs (map snd (pp_events ?s'))" using buffers_remove [OF ok q] by auto
  then have "pp_inv tm ?s'" using d(2,3) n by (auto simp: pp_inv_def)
  moreover have "pp_frames s = add_mset f (pp_frames ?s')" using pb_update [OF i(1), of "?b\<lparr>pb_queue := q, cpuBusy := q \<noteq> []\<rparr>"] q
    by (simp add: pp_frames_def)
  ultimately show ?thesis using r by (intro exI [of _ ?s'] exI [of _ out] exI [of _ f]) simp
qed

interpretation pp: relay_buffer pp_handleMessage pp_enabled pp_frames pp_bufferUsed pp_bufferSize
  pp_numProcessedFrames pp_numDroppedFrames pp_inv
proof unfold_locales
  fix t tm s
  show "pp_inv t s \<Longrightarrow> t \<le> tm \<Longrightarrow> pp_inv tm s" using learned_later unfolding pp_inv_def by blast
next
  fix s p f
  show "pp_enabled s (FrameArrival p f) \<Longrightarrow> 0 \<le> ef_byteLength f" by (simp add: pp_enabled_def)
qed (use pp_arrival pp_completion in auto)

section \<open>Both units\<close>

lemma np_start_ok:
  assumes "addresstable base = []" "0 \<le> addressTableSize base"
  shows "np_inv 0 (np_initialize base n pt bs hw pu)"
proof -
  have "learned [] 0 base" using assms by (simp add: learned_def history_ok_def)
  then show ?thesis by (auto simp: np_inv_def np_initialize_def np_frames_def inCPU_def)
qed

lemma pp_start_ok:
  assumes "addresstable base = []" "0 \<le> addressTableSize base"
  shows "pp_inv 0 (pp_initialize base pt bs hw pu)"
proof -
  have "learned [] 0 base" using assms by (simp add: learned_def history_ok_def)
  then show ?thesis by (auto simp: pp_inv_def pp_initialize_def buffers_ok_def)
qed

text \<open>
  Property C37: in every run of a relay unit with a shared queue that starts with an empty table: the next event is handled without an
  error; the buffer level is the sum of the lengths of the frames that are held, and below the buffer size; every frame
  that has arrived is forwarded, dropped or held; and a frame waits only while all processors are busy.
\<close>
theorem shared_buffer_conserves:
  assumes "addresstable base = []" "0 \<le> addressTableSize base"
    and run: "ev_run np_handleMessage np_enabled (np_initialize base n pt bs hw pu) E t s"
  shows "(\<forall>tm ev. t \<le> tm \<and> np_enabled s ev \<longrightarrow> (\<exists>s' out. np_handleMessage tm ev s = Inr (s', out))) \<and>
    np_bufferUsed s = (\<Sum>x \<in># np_frames s. ef_byteLength (snd x)) \<and> (np_frames s = {#} \<or> np_bufferUsed s < np_bufferSize s) \<and>
    int (length (arrivals E)) = np_numProcessedFrames s + np_numDroppedFrames s + int (size (np_frames s)) \<and>
    (np_queue s \<noteq> [] \<longrightarrow> (\<forall>e \<in> set (endProcEvents s). fst e \<noteq> None))"
proof -
  have "np_frames (np_initialize base n pt bs hw pu) = {#}"
    unfolding np_frames_def np_initialize_def by (simp add: inCPU_def)
  then have "np.accounted [] (np_initialize base n pt bs hw pu)"
    by (simp add: np.accounted_def) (simp add: np_initialize_def)
  from np.run_accounted [OF run np_start_ok [OF assms(1,2)] this] have i: "np_inv t s" and a: "np.accounted E s" by blast+
  have "\<forall>tm ev. t \<le> tm \<and> np_enabled s ev \<longrightarrow> (\<exists>s' out. np_handleMessage tm ev s = Inr (s', out))" using np.never_fails [OF i] by blast
  moreover have "np_queue s \<noteq> [] \<longrightarrow> (\<forall>e \<in> set (endProcEvents s). fst e \<noteq> None)" using i unfolding np_inv_def by blast
  ultimately show ?thesis
    using a unfolding np.accounted_def image_mset.compositionality comp_def size_image_mset image_mset_is_empty_iff by blast
qed

definition demo_np :: MACRelayUnitNP where
  "demo_np = np_initialize demo_switch 1 (1 / 1000) 1000 500 10"

theorem shared_buffer_conserves_witness:
  "\<exists>s. ev_run np_handleMessage np_enabled demo_np [(1, FrameArrival 2 (demo_frame 7 5))] 1 s \<and>
    1 = np_numProcessedFrames s + np_numDroppedFrames s + int (size (np_frames s)) \<and>
    (\<exists>s' out. np_handleMessage 2 (FrameArrival 0 (demo_frame 5 7)) s = Inr (s', out))"
proof -
  note C = shared_buffer_conserves [of demo_switch 1 "1 / 1000" 1000 500 10, folded demo_np_def]
  have b: "addresstable demo_switch = []" "0 \<le> addressTableSize demo_switch" by (simp_all add: demo_switch_def)
  have p: "numPorts (np_base demo_np) = 4" by (simp add: demo_np_def np_initialize_def demo_switch_def)
  have z: "ev_run np_handleMessage np_enabled demo_np [] 0 demo_np" by (rule ev_start)
  have e: "np_enabled demo_np (FrameArrival 2 (demo_frame 7 5))" by (simp add: np_enabled_def p demo_frame_def)
  obtain s out where s: "np_handleMessage 1 (FrameArrival 2 (demo_frame 7 5)) demo_np = Inr (s, out)" using conjunct1 [OF C [OF b z], rule_format, OF conjI [OF _ e], of 1] by auto
  have r: "ev_run np_handleMessage np_enabled demo_np [(1, FrameArrival 2 (demo_frame 7 5))] 1 s" using ev_step [OF z _ e s] by simp
  have "np_enabled s (FrameArrival 0 (demo_frame 5 7))"
  proof -
    have "case np_handleMessage 1 (FrameArrival 2 (demo_frame 7 5)) demo_np of Inl _ \<Rightarrow> False | Inr (s, _) \<Rightarrow> numPorts (np_base s) = 4" by code_simp
    then show ?thesis using s by (simp add: np_enabled_def demo_frame_def)
  qed
  from conjunct1 [OF C [OF b r], rule_format, OF conjI [OF _ this], of 2] show ?thesis using C [OF b r] r by (auto simp: arrivals_def)
qed

text \<open>The same for a relay unit with a processor for every port; a port is busy exactly while it holds frames.\<close>
theorem port_buffers_conserve:
  assumes "addresstable base = []" "0 \<le> addressTableSize base"
    and run: "ev_run pp_handleMessage pp_enabled (pp_initialize base pt bs hw pu) E t s"
  shows "(\<forall>tm ev. t \<le> tm \<and> pp_enabled s ev \<longrightarrow> (\<exists>s' out. pp_handleMessage tm ev s = Inr (s', out))) \<and>
    pp_bufferUsed s = (\<Sum>f \<in># pp_frames s. ef_byteLength f) \<and> (pp_frames s = {#} \<or> pp_bufferUsed s < pp_bufferSize s) \<and>
    int (length (arrivals E)) = pp_numProcessedFrames s + pp_numDroppedFrames s + int (size (pp_frames s)) \<and>
    set (map snd (pp_events s)) = {i. i < length (pp_buffer s) \<and> pb_queue (pp_buffer s ! i) \<noteq> []}"
proof -
  have "pp_frames (pp_initialize base pt bs hw pu) = {#}"
    unfolding pp_frames_def pp_initialize_def by (simp add: comp_def)
  then have "pp.accounted [] (pp_initialize base pt bs hw pu)"
    by (simp add: pp.accounted_def) (simp add: pp_initialize_def)
  from pp.run_accounted [OF run pp_start_ok [OF assms(1,2)] this] have i: "pp_inv t s" and a: "pp.accounted E s" by blast+
  have "\<forall>tm ev. t \<le> tm \<and> pp_enabled s ev \<longrightarrow> (\<exists>s' out. pp_handleMessage tm ev s = Inr (s', out))" using pp.never_fails [OF i] by blast
  moreover have "set (map snd (pp_events s)) = {i. i < length (pp_buffer s) \<and> pb_queue (pp_buffer s ! i) \<noteq> []}"
    using i unfolding pp_inv_def buffers_ok_def by blast
  ultimately show ?thesis using a unfolding pp.accounted_def by blast
qed

definition demo_pp :: MACRelayUnitPP where
  "demo_pp = pp_initialize demo_switch (1 / 1000) 1000 500 10"

theorem port_buffers_conserve_witness:
  "\<exists>s. ev_run pp_handleMessage pp_enabled demo_pp [(1, FrameArrival 2 (demo_frame 7 5))] 1 s \<and>
    1 = pp_numProcessedFrames s + pp_numDroppedFrames s + int (size (pp_frames s))"
proof -
  note C = port_buffers_conserve [of demo_switch "1 / 1000" 1000 500 10, folded demo_pp_def]
  have b: "addresstable demo_switch = []" "0 \<le> addressTableSize demo_switch" by (simp_all add: demo_switch_def)
  have p: "numPorts (pp_base demo_pp) = 4" by (simp add: demo_pp_def pp_initialize_def demo_switch_def)
  have z: "ev_run pp_handleMessage pp_enabled demo_pp [] 0 demo_pp" by (rule ev_start)
  have e: "pp_enabled demo_pp (FrameArrival 2 (demo_frame 7 5))" by (simp add: pp_enabled_def p demo_frame_def)
  obtain s out where s: "pp_handleMessage 1 (FrameArrival 2 (demo_frame 7 5)) demo_pp = Inr (s, out)" using conjunct1 [OF C [OF b z], rule_format, OF conjI [OF _ e], of 1] by auto
  have r: "ev_run pp_handleMessage pp_enabled demo_pp [(1, FrameArrival 2 (demo_frame 7 5))] 1 s" using ev_step [OF z _ e s] by simp
  then show ?thesis using C [OF b r] by (auto simp: arrivals_def)
qed

end
