(* ===== verification/MPLS_Module.thy ===== *)
theory MPLS_Module
  imports MPLS_Objects XML_Utils IP_Interface
begin

text \<open>
  Multiprotocol label switching (\<open>networklayer/mpls\<close>): the label information base \<open>LIBTable\<close>, packets with a stack of
  labels, the forwarding module \<open>MPLS\<close>, and the classifier \<open>rsvp_te/SimpleClassifier.cc\<close> that assigns datagrams to
  label switched paths.
\<close>

section \<open>The label information base\<close>

definition PUSH_OPER :: int where "PUSH_OPER = 0"
definition SWAP_OPER :: int where "SWAP_OPER = 1"
definition POP_OPER :: int where "POP_OPER = 2"

lemmas oper_defs = PUSH_OPER_def SWAP_OPER_def POP_OPER_def

record LabelOp =
  op_label :: int
  optcode :: int

record LIBEntry =
  inLabel :: int
  inInterface :: string
  outLabel :: "LabelOp list"
  outInterface :: string
  lib_color :: int

record LIBTable =
  lt_routerId :: IPAddress
  maxLabel :: int
  lib :: "LIBEntry list"

fun resolveLoop :: "string \<Rightarrow> int \<Rightarrow> LIBEntry list \<Rightarrow> (LabelOp list \<times> string \<times> int) option" where
  "resolveLoop inIf label [] = None"
| "resolveLoop inIf label (e # es) =
     (if inIf \<noteq> [] \<and> inInterface e \<noteq> inIf then resolveLoop inIf label es
      else if inLabel e \<noteq> label then resolveLoop inIf label es
      else Some (outLabel e, outInterface e, lib_color e))"

definition resolveLabel :: "string \<Rightarrow> int \<Rightarrow> LIBTable \<Rightarrow> (LabelOp list \<times> string \<times> int) option" where
  "resolveLabel inIf label t = resolveLoop inIf label (lib t)"

fun findLabel :: "int \<Rightarrow> nat \<Rightarrow> LIBEntry list \<Rightarrow> nat option" where
  "findLabel label i [] = None"
| "findLabel label i (e # es) = (if inLabel e \<noteq> label then findLabel label (Suc i) es else Some i)"

definition installLibEntry :: "int \<Rightarrow> string \<Rightarrow> LabelOp list \<Rightarrow> string \<Rightarrow> int \<Rightarrow> LIBTable \<Rightarrow> (int \<times> LIBTable) res" where
  "installLibEntry label inIf outL outIf color t =
     (if label = - 1
      then let m = c_int (maxLabel t + 1)
           in Inr (m, t\<lparr>maxLabel := m,
                        lib := lib t @ [\<lparr> inLabel = m, inInterface = inIf, outLabel = outL, outInterface = outIf, lib_color = color \<rparr>]\<rparr>)
      else case findLabel label 0 (lib t) of
             None \<Rightarrow> Inl (AssertFailed ''false'')
           | Some i \<Rightarrow> Inr (label, t\<lparr>lib := (lib t)[i := (lib t ! i)
                 \<lparr>inInterface := inIf, outLabel := outL, outInterface := outIf, lib_color := color\<rparr>]\<rparr>))"

definition removeLibEntry :: "int \<Rightarrow> LIBTable \<Rightarrow> LIBTable res" where
  "removeLibEntry label t =
     (case findLabel label 0 (lib t) of
        None \<Rightarrow> Inl (AssertFailed ''false'')
      | Some i \<Rightarrow> Inr (t\<lparr>lib := take i (lib t) @ drop (Suc i) (lib t)\<rparr>))"

definition lt_pushLabel :: "int \<Rightarrow> LabelOp list" where
  "lt_pushLabel label = [\<lparr> op_label = label, optcode = PUSH_OPER \<rparr>]"

definition lt_swapLabel :: "int \<Rightarrow> LabelOp list" where
  "lt_swapLabel label = [\<lparr> op_label = label, optcode = SWAP_OPER \<rparr>]"

definition lt_popLabel :: "LabelOp list" where
  "lt_popLabel = [\<lparr> op_label = 0, optcode = POP_OPER \<rparr>]"

text \<open>Reading the table from XML.  The label of a pop is not initialized; it is \<open>junk\<close>.\<close>

definition readOp :: "int \<Rightarrow> XMLElement \<Rightarrow> LabelOp res" where
  "readOp junk opn =
     (let val = getAttribute ''value'' opn; code = getAttribute ''code'' opn;
          labelled = (\<lambda>oc. case val of
             None \<Rightarrow> Inl (AssertFailed ''val'')
           | Some v \<Rightarrow> if atoi v > 0 then Inr \<lparr> op_label = atoi v, optcode = oc \<rparr> else Inl (AssertFailed ''l.label > 0''))
      in case code of
           None \<Rightarrow> Inl (AssertFailed ''code'')
         | Some c \<Rightarrow>
             if c = ''push'' then labelled PUSH_OPER
             else if c = ''pop''
             then (if val \<noteq> None then Inl (AssertFailed ''!val'') else Inr \<lparr> op_label = junk, optcode = POP_OPER \<rparr>)
             else if c = ''swap'' then labelled SWAP_OPER
             else Inl (AssertFailed ''false''))"

fun readOps :: "int \<Rightarrow> XMLElement list \<Rightarrow> LabelOp list res" where
  "readOps junk [] = Inr []"
| "readOps junk (x # xs) = bindE (readOp junk x) (\<lambda>l. bindE (readOps junk xs) (\<lambda>ls. Inr (l # ls)))"

definition readEntry :: "int \<Rightarrow> XMLElement \<Rightarrow> LIBEntry res" where
  "readEntry junk entry =
     bindE (checkTags entry [''inLabel'', ''inInterface'', ''outLabel'', ''outInterface'', ''color'']) (\<lambda>_.
     bindE (getParameterIntValue entry ''inLabel'') (\<lambda>il.
     bindE (getParameterStrValue entry ''inInterface'') (\<lambda>ii. bindE (nonNull ii) (\<lambda>ii.
     bindE (getParameterStrValue entry ''outInterface'') (\<lambda>oi. bindE (nonNull oi) (\<lambda>oi.
     bindE (getParameterIntValueOr entry ''color'' 0) (\<lambda>col.
     bindE (getUniqueChild ''outLabel'' entry) (\<lambda>ol.
     bindE (readOps junk (getChildrenByTagName ''op'' ol)) (\<lambda>ops.
     if il > 0 then Inr \<lparr> inLabel = il, inInterface = ii, outLabel = ops, outInterface = oi, lib_color = col \<rparr>
     else Inl (AssertFailed ''newItem.inLabel > 0''))))))))))"

fun readEntries :: "int \<Rightarrow> XMLElement list \<Rightarrow> LIBTable \<Rightarrow> LIBTable res" where
  "readEntries junk [] t = Inr t"
| "readEntries junk (x # xs) t =
     bindE (readEntry junk x) (\<lambda>e.
     readEntries junk xs (t\<lparr>lib := lib t @ [e], maxLabel := (if inLabel e > maxLabel t then inLabel e else maxLabel t)\<rparr>))"

definition lib_readTableFromXML :: "int \<Rightarrow> XMLElement option \<Rightarrow> LIBTable \<Rightarrow> LIBTable res" where
  "lib_readTableFromXML junk x t =
     (case x of
        None \<Rightarrow> Inl (AssertFailed ''libtable'')
      | Some x \<Rightarrow>
          if xTag x \<noteq> ''libtable'' then Inl (AssertFailed ''libtable->getTagName()'')
          else bindE (checkTags x [''libentry'']) (\<lambda>_. readEntries junk (getChildrenByTagName ''libentry'' x) t))"

definition lib_initialize :: "nat \<Rightarrow> IPAddress \<Rightarrow> int \<Rightarrow> XMLElement option \<Rightarrow> LIBTable \<Rightarrow> LIBTable res" where
  "lib_initialize stage rid junk conf t =
     (if stage = 0 then Inr (t\<lparr>maxLabel := 0\<rparr>)
      else if stage = 4 then lib_readTableFromXML junk conf (t\<lparr>lt_routerId := rid\<rparr>)
      else Inr t)"

definition lib_handleMessage :: "LIBTable \<Rightarrow> LIBTable res" where
  "lib_handleMessage t = Inl (AssertFailed ''false'')"

section \<open>Packets\<close>

text \<open>A datagram with its parameter \<open>color\<close>, if it has been added.\<close>

record MDatagram =
  md_datagram :: Datagram
  md_color :: "int option"

record MPLSPacket =
  mp_name :: string
  labels :: "int list"
  mp_bitLength :: int
  mp_color :: "int option"
  mp_content :: "MDatagram option"

definition newMPLSPacket :: "string \<Rightarrow> MPLSPacket" where
  "newMPLSPacket n = \<lparr> mp_name = n, labels = [], mp_bitLength = 0, mp_color = None, mp_content = None \<rparr>"

definition datagramBits :: "MDatagram \<Rightarrow> int" where
  "datagramBits d = 8 * ip_byteLength (fst (md_datagram d))"

definition mp_encapsulate :: "MDatagram \<Rightarrow> MPLSPacket \<Rightarrow> MPLSPacket" where
  "mp_encapsulate d p = p\<lparr>mp_content := Some d, mp_bitLength := mp_bitLength p + datagramBits d\<rparr>"

definition mp_decapsulate :: "MPLSPacket \<Rightarrow> MDatagram res" where
  "mp_decapsulate p = nonNull (mp_content p)"

definition hasLabel :: "MPLSPacket \<Rightarrow> bool" where "hasLabel p \<longleftrightarrow> labels p \<noteq> []"

definition getTopLabel :: "MPLSPacket \<Rightarrow> int res" where
  "getTopLabel p = (case labels p of [] \<Rightarrow> Inl NullPointer | l # _ \<Rightarrow> Inr l)"

definition pushLabel :: "int \<Rightarrow> MPLSPacket \<Rightarrow> MPLSPacket" where
  "pushLabel l p = p\<lparr>labels := l # labels p, mp_bitLength := mp_bitLength p + 32\<rparr>"

definition swapLabel :: "int \<Rightarrow> MPLSPacket \<Rightarrow> MPLSPacket res" where
  "swapLabel l p = (case labels p of [] \<Rightarrow> Inl NullPointer | _ # ls \<Rightarrow> Inr (p\<lparr>labels := l # ls\<rparr>))"

definition popLabel :: "MPLSPacket \<Rightarrow> MPLSPacket res" where
  "popLabel p = (case labels p of [] \<Rightarrow> Inl NullPointer | _ # ls \<Rightarrow> Inr (p\<lparr>labels := ls, mp_bitLength := mp_bitLength p - 32\<rparr>))"

text \<open>The copy constructor assigns what the base class has; the labels are not copied.\<close>

definition mp_dup :: "MPLSPacket \<Rightarrow> MPLSPacket" where
  "mp_dup p = p\<lparr>labels := []\<rparr>"

section \<open>Forwarding\<close>

definition LDP_PORT :: int where "LDP_PORT = 646"
definition LDP_TRAFFIC :: int where "LDP_TRAFFIC = 4"
definition ICMP_TRAFFIC :: int where "ICMP_TRAFFIC = 6"

type_synonym Classifier = "Datagram \<Rightarrow> (LabelOp list \<times> string \<times> int) option"

datatype MplsMsg = PlainDatagram MDatagram | LabelledPacket MPLSPacket | UnknownMsg

datatype MplsOut = ToL2 MplsMsg int | ToL3 MDatagram int

text \<open>
  The gate name is unexpected in \<open>MplsOther\<close>.  The numbers are indices of gates; \<open>classify\<close> is \<open>lookupLabel\<close> of the
  classifier, \<open>ports\<close> are the source and destination port of a TCP segment.
\<close>

datatype MplsIn = FromL2 MplsMsg int | FromL3 MplsMsg int | MplsOther

fun stackOp :: "LabelOp \<Rightarrow> MPLSPacket \<Rightarrow> MPLSPacket res" where
  "stackOp l p =
     (if optcode l = PUSH_OPER then Inr (pushLabel (op_label l) p)
      else if optcode l = SWAP_OPER
      then (if hasLabel p then swapLabel (op_label l) p else Inl (AssertFailed ''mplsPacket->hasLabel()''))
      else if optcode l = POP_OPER
      then (if hasLabel p then popLabel p else Inl (AssertFailed ''mplsPacket->hasLabel()''))
      else Inl (RuntimeError ''Unknown MPLS OptCode''))"

fun doStackOps :: "LabelOp list \<Rightarrow> MPLSPacket \<Rightarrow> MPLSPacket res" where
  "doStackOps [] p = Inr p"
| "doStackOps (l # ls) p = bindE (stackOp l p) (doStackOps ls)"

definition gateOf :: "string \<Rightarrow> InterfaceTable \<Rightarrow> int res" where
  "gateOf name ift = bindE (nonNull (getInterfaceByName name ift)) (\<lambda>k. bindE (derefIf k ift) (\<lambda>e. Inr (nwLayerGateIndex e)))"

definition tryLabelAndForwardIPDatagram :: "Classifier \<Rightarrow> InterfaceTable \<Rightarrow> MDatagram \<Rightarrow> MplsOut option res" where
  "tryLabelAndForwardIPDatagram classify ift d =
     (case classify (md_datagram d) of
        None \<Rightarrow> Inr None
      | Some (ops, outIf, color) \<Rightarrow>
          if ops = [] then Inl (AssertFailed ''outLabel.size() > 0'')
          else bindE (gateOf outIf ift) (\<lambda>outgoingPort.
               bindE (doStackOps ops (mp_encapsulate d (newMPLSPacket (ip_name (fst (md_datagram d)))))) (\<lambda>p.
               let p = p\<lparr>mp_color := Some color\<rparr>
               in if \<not> hasLabel p then bindE (mp_decapsulate p) (\<lambda>d. Inr (Some (ToL2 (PlainDatagram d) outgoingPort)))
                  else Inr (Some (ToL2 (LabelledPacket p) outgoingPort)))))"

definition labelAndForwardIPDatagram :: "Classifier \<Rightarrow> InterfaceTable \<Rightarrow> MDatagram \<Rightarrow> int \<Rightarrow> MplsOut list res" where
  "labelAndForwardIPDatagram classify ift d gateIndex =
     bindE (tryLabelAndForwardIPDatagram classify ift d) (\<lambda>out.
     case out of Some out \<Rightarrow> Inr [out] | None \<Rightarrow> Inr [ToL2 (PlainDatagram d) gateIndex])"

definition processPacketFromL3 :: "Classifier \<Rightarrow> (Packet \<Rightarrow> (int \<times> int) option) \<Rightarrow> InterfaceTable \<Rightarrow> MplsMsg \<Rightarrow> int \<Rightarrow> MplsOut list res" where
  "processPacketFromL3 classify ports ift msg gateIndex =
     (case msg of
        PlainDatagram d \<Rightarrow>
          bindE (if transportProtocol (fst (md_datagram d)) = IP_PROT_TCP
                 then case Option.bind (snd (md_datagram d)) ports of
                        None \<Rightarrow> Inl (RuntimeError ''check_and_cast<TCPSegment>'')
                      | Some (sp, dp) \<Rightarrow>
                          if dp = LDP_PORT \<or> sp = LDP_PORT
                          then (if md_color d \<noteq> None then Inl (AssertFailed ''!ipdatagram->hasPar(color)'')
                                else Inr (d\<lparr>md_color := Some LDP_TRAFFIC\<rparr>))
                          else Inr d
                 else if transportProtocol (fst (md_datagram d)) = IP_PROT_ICMP
                 then Inr (if md_color d = None then d\<lparr>md_color := Some ICMP_TRAFFIC\<rparr> else d)
                 else Inr d) (\<lambda>d.
          labelAndForwardIPDatagram classify ift d gateIndex)
      | _ \<Rightarrow> Inl (RuntimeError ''check_and_cast<IPDatagram>''))"

definition processMPLSPacketFromL2 :: "LIBTable \<Rightarrow> InterfaceTable \<Rightarrow> MPLSPacket \<Rightarrow> int \<Rightarrow> MplsOut list res" where
  "processMPLSPacketFromL2 lt ift p gateIndex =
     bindE (nonNull (getInterfaceByNetworkLayerGateIndex gateIndex ift)) (\<lambda>k.
     bindE (derefIf k ift) (\<lambda>ie.
     if \<not> hasLabel p then Inl (AssertFailed ''mplsPacket->hasLabel()'')
     else bindE (getTopLabel p) (\<lambda>oldLabel.
          if oldLabel = - 1 then bindE (mp_decapsulate p) (\<lambda>d. Inr [ToL3 d gateIndex])
          else case resolveLabel (if_name ie) oldLabel lt of
                 None \<Rightarrow> Inr []
               | Some (ops, outIf, color) \<Rightarrow>
                   bindE (gateOf outIf ift) (\<lambda>outgoingPort.
                   bindE (doStackOps ops p) (\<lambda>p.
                   if hasLabel p then Inr [ToL2 (LabelledPacket (p\<lparr>mp_color := Some color\<rparr>)) outgoingPort]
                   else bindE (mp_decapsulate p) (\<lambda>d.
                        if outgoingPort \<noteq> - 1 then Inr [ToL2 (PlainDatagram d) outgoingPort] else Inr [ToL3 d gateIndex]))))))"

definition processPacketFromL2 :: "Classifier \<Rightarrow> LIBTable \<Rightarrow> InterfaceTable \<Rightarrow> MplsMsg \<Rightarrow> int \<Rightarrow> MplsOut list res" where
  "processPacketFromL2 classify lt ift msg gateIndex =
     (case msg of
        LabelledPacket p \<Rightarrow> processMPLSPacketFromL2 lt ift p gateIndex
      | PlainDatagram d \<Rightarrow>
          bindE (tryLabelAndForwardIPDatagram classify ift d) (\<lambda>out.
          case out of Some out \<Rightarrow> Inr [out] | None \<Rightarrow> Inr [ToL3 d gateIndex])
      | UnknownMsg \<Rightarrow> Inl (RuntimeError ''Unknown message received''))"

definition mpls_handleMessage :: "Classifier \<Rightarrow> (Packet \<Rightarrow> (int \<times> int) option) \<Rightarrow> LIBTable \<Rightarrow> InterfaceTable \<Rightarrow> MplsIn \<Rightarrow> MplsOut list res" where
  "mpls_handleMessage classify ports lt ift inp =
     (case inp of
        FromL2 msg g \<Rightarrow> processPacketFromL2 classify lt ift msg g
      | FromL3 msg g \<Rightarrow> processPacketFromL3 classify ports ift msg g
      | MplsOther \<Rightarrow> Inl (RuntimeError ''unexpected message''))"

section \<open>The classifier\<close>

record FECEntry =
  fe_id :: int
  fe_src :: IPAddress
  fe_dest :: IPAddress
  fe_session :: SessionObj_t
  fe_sender :: SenderTemplateObj_t
  fe_inLabel :: int

record SimpleClassifier =
  sc_routerId :: IPAddress
  sc_maxLabel :: int
  bindings :: "FECEntry list"

fun lookupLoop :: "FECEntry list \<Rightarrow> Datagram \<Rightarrow> LIBTable \<Rightarrow> (LabelOp list \<times> string \<times> int) option" where
  "lookupLoop [] d lt = None"
| "lookupLoop (e # es) d lt =
     (if \<not> ip_isUnspecified (fe_dest e) \<and> fe_dest e \<noteq> destAddress (fst d) then lookupLoop es d lt
      else if \<not> ip_isUnspecified (fe_src e) \<and> fe_src e \<noteq> srcAddress (fst d) then lookupLoop es d lt
      else if fe_inLabel e < 0 then None
      else resolveLabel [] (fe_inLabel e) lt)"

definition lookupLabel :: "LIBTable \<Rightarrow> SimpleClassifier \<Rightarrow> Classifier" where
  "lookupLabel lt c d =
     (if transportProtocol (fst d) = IP_PROT_OSPF \<or> transportProtocol (fst d) = IP_PROT_RSVP then None
      else lookupLoop (bindings c) d lt)"

definition sc_bind :: "SessionObj_t \<Rightarrow> SenderTemplateObj_t \<Rightarrow> int \<Rightarrow> SimpleClassifier \<Rightarrow> SimpleClassifier" where
  "sc_bind session sender label c =
     c\<lparr>bindings := map (\<lambda>e. if \<not> session_eq (fe_session e) session \<or> \<not> sender_eq (fe_sender e) sender then e
                            else e\<lparr>fe_inLabel := label\<rparr>) (bindings c)\<rparr>"

fun findFEC :: "int \<Rightarrow> nat \<Rightarrow> FECEntry list \<Rightarrow> nat option" where
  "findFEC fecid i [] = None"
| "findFEC fecid i (e # es) = (if fe_id e \<noteq> fecid then findFEC fecid (Suc i) es else Some i)"

definition putFEC :: "FECEntry \<Rightarrow> nat option \<Rightarrow> SimpleClassifier \<Rightarrow> SimpleClassifier" where
  "putFEC e it c = c\<lparr>bindings := (case it of None \<Rightarrow> bindings c @ [e] | Some i \<Rightarrow> (bindings c)[i := e])\<rparr>"

text \<open>\<open>getInLabel\<close> is the function of the RSVP module; \<open>resolve\<close> resolves names of nodes.\<close>

definition readItemFromXML :: "(string \<Rightarrow> IPAddress res) \<Rightarrow> (SessionObj_t \<Rightarrow> SenderTemplateObj_t \<Rightarrow> int) \<Rightarrow> XMLElement \<Rightarrow>
    SimpleClassifier \<Rightarrow> SimpleClassifier res" where
  "readItemFromXML resolve getInLabel fec c =
     (if xTag fec \<noteq> ''fecentry'' \<and> xTag fec \<noteq> ''bind-fec'' then Inl (AssertFailed ''fecentry or bind-fec'')
      else bindE (getParameterIntValue fec ''id'') (\<lambda>fecid.
           let it = findFEC fecid 0 (bindings c)
           in bindE (getUniqueChildIfExists ''label'' fec) (\<lambda>label.
              case label of
                Some _ \<Rightarrow>
                  bindE (checkTags fec [''id'', ''label'', ''destination'', ''source'']) (\<lambda>_.
                  bindE (getParameterIPAddressValue resolve fec ''destination'') (\<lambda>dest.
                  bindE (getParameterIPAddressValueOr fec ''source'' 0) (\<lambda>src.
                  bindE (getParameterIntValue fec ''label'') (\<lambda>lab.
                  Inr (putFEC \<lparr> fe_id = fecid, fe_src = src, fe_dest = dest, fe_session = newSessionObj,
                                fe_sender = newSenderTemplate, fe_inLabel = lab \<rparr> it c)))))
              | None \<Rightarrow>
                  bindE (getUniqueChildIfExists ''lspid'' fec) (\<lambda>lspid.
                  case lspid of
                    Some _ \<Rightarrow>
                      bindE (checkTags fec [''id'', ''destination'', ''source'', ''tunnel_id'', ''extended_tunnel_id'', ''endpoint'', ''lspid'']) (\<lambda>_.
                      bindE (getParameterIPAddressValue resolve fec ''destination'') (\<lambda>dest.
                      bindE (getParameterIPAddressValueOr fec ''source'' 0) (\<lambda>src.
                      bindE (getParameterIntValue fec ''tunnel_id'') (\<lambda>tunnel.
                      bindE (getParameterIPAddressValueOr fec ''extened_tunnel_id'' (sc_routerId c)) (\<lambda>ext.
                      bindE (getParameterIPAddressValueOr fec ''endpoint'' dest) (\<lambda>end.
                      bindE (getParameterIntValue fec ''lspid'') (\<lambda>lsp.
                      let session = newSessionObj\<lparr>Tunnel_Id := tunnel, Extended_Tunnel_Id := sint ext, ss_DestAddress := end\<rparr>;
                          sender = newSenderTemplate\<lparr>Lsp_Id := lsp, st_SrcAddress := sc_routerId c\<rparr>
                      in Inr (putFEC \<lparr> fe_id = fecid, fe_src = src, fe_dest = dest, fe_session = session, fe_sender = sender,
                                       fe_inLabel = getInLabel session sender \<rparr> it c))))))))
                  | None \<Rightarrow>
                      bindE (checkTags fec [''id'']) (\<lambda>_.
                      Inr (case it of None \<Rightarrow> c
                           | Some i \<Rightarrow> c\<lparr>bindings := take i (bindings c) @ drop (Suc i) (bindings c)\<rparr>))))))"

fun readItems :: "(string \<Rightarrow> IPAddress res) \<Rightarrow> (SessionObj_t \<Rightarrow> SenderTemplateObj_t \<Rightarrow> int) \<Rightarrow> XMLElement list \<Rightarrow>
    SimpleClassifier \<Rightarrow> SimpleClassifier res" where
  "readItems resolve getInLabel [] c = Inr c"
| "readItems resolve getInLabel (x # xs) c = bindE (readItemFromXML resolve getInLabel x c) (readItems resolve getInLabel xs)"

definition sc_readTableFromXML :: "(string \<Rightarrow> IPAddress res) \<Rightarrow> (SessionObj_t \<Rightarrow> SenderTemplateObj_t \<Rightarrow> int) \<Rightarrow> XMLElement option \<Rightarrow>
    SimpleClassifier \<Rightarrow> SimpleClassifier res" where
  "sc_readTableFromXML resolve getInLabel x c =
     (case x of
        None \<Rightarrow> Inl (AssertFailed ''fectable'')
      | Some x \<Rightarrow>
          if xTag x \<noteq> ''fectable'' then Inl (AssertFailed ''fectable->getTagName()'')
          else bindE (checkTags x [''fecentry'']) (\<lambda>_. readItems resolve getInLabel (getChildrenByTagName ''fecentry'' x) c))"

definition sc_processCommand :: "(string \<Rightarrow> IPAddress res) \<Rightarrow> (SessionObj_t \<Rightarrow> SenderTemplateObj_t \<Rightarrow> int) \<Rightarrow> XMLElement \<Rightarrow>
    SimpleClassifier \<Rightarrow> SimpleClassifier res" where
  "sc_processCommand resolve getInLabel node c =
     (if xTag node = ''bind-fec'' then readItemFromXML resolve getInLabel node c else Inl (AssertFailed ''false''))"

definition sc_initialize :: "nat \<Rightarrow> IPAddress \<Rightarrow> (string \<Rightarrow> IPAddress res) \<Rightarrow> (SessionObj_t \<Rightarrow> SenderTemplateObj_t \<Rightarrow> int) \<Rightarrow>
    XMLElement option \<Rightarrow> SimpleClassifier \<Rightarrow> SimpleClassifier res" where
  "sc_initialize stage rid resolve getInLabel conf c =
     (if stage \<noteq> 4 then Inr c
      else sc_readTableFromXML resolve getInLabel conf (c\<lparr>sc_maxLabel := 0, sc_routerId := rid\<rparr>))"

definition sc_handleMessage :: "SimpleClassifier \<Rightarrow> SimpleClassifier res" where
  "sc_handleMessage c = Inl (AssertFailed ''false'')"

end
