(* ===== verification/MPLS_Props.thy ===== *)
theory MPLS_Props
  imports MPLS_Module
begin

text \<open>
  The label information base hands out fresh labels and finds what was installed; a label switched path carries a
  datagram unchanged from its ingress to its egress.
\<close>

section \<open>The label information base\<close>

definition lib_ok :: "LIBTable \<Rightarrow> bool" where
  "lib_ok t \<longleftrightarrow> distinct (map inLabel (lib t)) \<and> (\<forall>e \<in> set (lib t). 0 < inLabel e \<and> inLabel e \<le> maxLabel t) \<and> 0 \<le> maxLabel t"

lemma resolveLoop_append:
  "resolveLoop i l (es @ fs) = (case resolveLoop i l es of None \<Rightarrow> resolveLoop i l fs | Some r \<Rightarrow> Some r)"
  by (induction es) auto

lemma resolveLoop_absent: "l \<notin> inLabel ` set es \<Longrightarrow> resolveLoop i l es = None"
  by (induction es) auto

lemma findLabel_append: "l \<notin> inLabel ` set es \<Longrightarrow> inLabel e = l \<Longrightarrow> findLabel l i (es @ [e]) = Some (i + length es)"
  by (induction es arbitrary: i) auto

lemma findLabel_spec: "findLabel l i es = Some k \<Longrightarrow> i \<le> k \<and> k - i < length es \<and> inLabel (es ! (k - i)) = l"
proof (induction es arbitrary: i)
  case (Cons e es)
  show ?case
  proof (cases "inLabel e = l")
    case False
    then have "findLabel l (Suc i) es = Some k" using Cons.prems by simp
    note IH = Cons.IH [OF this]
    then have "k - i = Suc (k - Suc i)" by linarith
    then show ?thesis using IH by simp
  qed (use Cons.prems in auto)
qed simp

definition demo_lib :: LIBTable where
  "demo_lib = \<lparr> lt_routerId = 1, maxLabel = 7,
     lib = [\<lparr> inLabel = 7, inInterface = ''ppp0'', outLabel = lt_swapLabel 8, outInterface = ''ppp1'', lib_color = 0 \<rparr>] \<rparr>"

text \<open>
  Property C38: installing an entry without a label takes a fresh label; it resolves to what was installed, no other label resolves
  differently, and removing the entry gives the old table back.
\<close>
theorem lib_install_remove:
  assumes "lib_ok t" "maxLabel t < 2 ^ 31 - 1"
  shows "\<exists>m t'. installLibEntry (- 1) i ol oi col t = Inr (m, t') \<and> lib_ok t' \<and> m \<notin> inLabel ` set (lib t) \<and>
    resolveLabel i m t' = Some (ol, oi, col) \<and> resolveLabel [] m t' = Some (ol, oi, col) \<and>
    (\<forall>j l. l \<noteq> m \<longrightarrow> resolveLabel j l t' = resolveLabel j l t) \<and> removeLibEntry m t' = Inr (t'\<lparr>lib := lib t\<rparr>)"
proof -
  let ?m = "maxLabel t + 1"
  let ?e = "\<lparr> inLabel = ?m, inInterface = i, outLabel = ol, outInterface = oi, lib_color = col \<rparr>"
  let ?t = "t\<lparr>maxLabel := ?m, lib := lib t @ [?e]\<rparr>"
  have m: "0 \<le> maxLabel t" using assms(1) by (simp add: lib_ok_def)
  then have "c_int ?m = ?m" using assms(2) by (intro c_int_id) simp_all
  then have "installLibEntry (- 1) i ol oi col t = Inr (?m, ?t)" by (simp add: installLibEntry_def Let_def)
  moreover have f: "?m \<notin> inLabel ` set (lib t)" using assms(1) by (fastforce simp: lib_ok_def)
  moreover have "lib_ok ?t" using assms(1) f m by (fastforce simp: lib_ok_def)
  moreover have "resolveLabel j ?m ?t = Some (ol, oi, col)" if "j = i \<or> j = []" for j
    using that resolveLoop_absent [OF f] by (auto simp: resolveLabel_def resolveLoop_append)
  moreover have "resolveLabel j l ?t = resolveLabel j l t" if "l \<noteq> ?m" for j l
    using that by (simp add: resolveLabel_def resolveLoop_append split: option.split)
  moreover have "removeLibEntry ?m ?t = Inr (?t\<lparr>lib := lib t\<rparr>)" using findLabel_append [OF f, of ?e 0] by (simp add: removeLibEntry_def)
  ultimately show ?thesis by blast
qed

theorem lib_install_remove_witness:
  "\<exists>m t'. installLibEntry (- 1) ''ppp2'' (lt_swapLabel 3) ''ppp1'' 0 demo_lib = Inr (m, t') \<and>
    resolveLabel ''ppp2'' m t' = Some (lt_swapLabel 3, ''ppp1'', 0) \<and> removeLibEntry m t' = Inr (t'\<lparr>lib := lib demo_lib\<rparr>)"
proof -
  have "lib_ok demo_lib" "maxLabel demo_lib < 2 ^ 31 - 1" by (simp_all add: lib_ok_def demo_lib_def)
  from lib_install_remove [OF this, of "''ppp2''" "lt_swapLabel 3" "''ppp1''" 0] show ?thesis by blast
qed

section \<open>Label switched paths\<close>

text \<open>A hop: the tables of a router, the gate a packet comes in through and the gate it leaves through.\<close>

type_synonym Hop = "LIBTable \<times> InterfaceTable \<times> int \<times> int"

definition switches :: "Hop \<Rightarrow> int \<Rightarrow> LabelOp list \<Rightarrow> bool" where
  "switches h l ops \<longleftrightarrow> (case h of (lt, ift, ig, og) \<Rightarrow> l \<noteq> - 1 \<and>
     (\<exists>k e outIf color. getInterfaceByNetworkLayerGateIndex ig ift = Some k \<and> derefIf k ift = Inr e \<and>
        resolveLabel (if_name e) l lt = Some (ops, outIf, color) \<and> gateOf outIf ift = Inr og))"

fun lsp :: "Hop list \<Rightarrow> int \<Rightarrow> bool" where
  "lsp [] l \<longleftrightarrow> False"
| "lsp [h] l \<longleftrightarrow> switches h l lt_popLabel"
| "lsp (h # h' # hs) l \<longleftrightarrow> (\<exists>l'. switches h l (lt_swapLabel l') \<and> lsp (h' # hs) l')"

text \<open>The network carries what a router sends through the right gate to the next router.\<close>

fun carry :: "Classifier \<Rightarrow> (Packet \<Rightarrow> (int \<times> int) option) \<Rightarrow> Hop list \<Rightarrow> MplsMsg \<Rightarrow> MplsOut list res" where
  "carry cl ports [] m = Inr []"
| "carry cl ports [(lt, ift, ig, og)] m = mpls_handleMessage cl ports lt ift (FromL2 m ig)"
| "carry cl ports ((lt, ift, ig, og) # h # hs) m =
     bindE (mpls_handleMessage cl ports lt ift (FromL2 m ig)) (\<lambda>out.
     case out of [ToL2 m' g] \<Rightarrow> if g = og then carry cl ports (h # hs) m' else Inr [] | _ \<Rightarrow> Inr [])"

lemma switches_swap:
  assumes "switches (lt, ift, ig, og) l (lt_swapLabel l')" "labels p = l # ls"
  shows "\<exists>c. mpls_handleMessage cl ports lt ift (FromL2 (LabelledPacket p) ig) =
    Inr [ToL2 (LabelledPacket (p\<lparr>labels := l' # ls, mp_color := c\<rparr>)) og]"
proof -
  obtain k e outIf color where r: "l \<noteq> - 1" "getInterfaceByNetworkLayerGateIndex ig ift = Some k" "derefIf k ift = Inr e"
    "resolveLabel (if_name e) l lt = Some (lt_swapLabel l', outIf, color)" "gateOf outIf ift = Inr og"
    using assms(1) by (auto simp: switches_def)
  then show ?thesis
    using assms(2) by (intro exI [of _ "Some color"]) (simp add: mpls_handleMessage_def processPacketFromL2_def
      processMPLSPacketFromL2_def nonNull_def hasLabel_def getTopLabel_def lt_swapLabel_def oper_defs swapLabel_def)
qed

lemma switches_pop:
  assumes "switches (lt, ift, ig, og) l lt_popLabel" "labels p = [l]" "mp_content p = Some d"
  shows "mpls_handleMessage cl ports lt ift (FromL2 (LabelledPacket p) ig) =
    Inr [if og \<noteq> - 1 then ToL2 (PlainDatagram d) og else ToL3 d ig]"
proof -
  obtain k e outIf color where r: "l \<noteq> - 1" "getInterfaceByNetworkLayerGateIndex ig ift = Some k" "derefIf k ift = Inr e"
    "resolveLabel (if_name e) l lt = Some (lt_popLabel, outIf, color)" "gateOf outIf ift = Inr og"
    using assms(1) by (auto simp: switches_def)
  then show ?thesis
    using assms(2,3) by (simp add: mpls_handleMessage_def processPacketFromL2_def processMPLSPacketFromL2_def nonNull_def
      hasLabel_def getTopLabel_def lt_popLabel_def oper_defs popLabel_def mp_decapsulate_def)
qed

lemma lsp_carries:
  assumes "lsp hs l" "labels p = [l]" "mp_content p = Some d"
  shows "\<exists>lt ift ig og. last hs = (lt, ift, ig, og) \<and>
    carry cl ports hs (LabelledPacket p) = Inr [if og \<noteq> - 1 then ToL2 (PlainDatagram d) og else ToL3 d ig]"
  using assms
proof (induction hs l arbitrary: p rule: lsp.induct)
  case (2 h l)
  obtain lt ift ig og where h: "h = (lt, ift, ig, og)" by (cases h)
  have "switches (lt, ift, ig, og) l lt_popLabel" using 2(1) by (simp add: h)
  from switches_pop [OF this 2(2,3)] show ?case by (simp add: h)
next
  case (3 h h' hs l)
  obtain lt ift ig og where h: "h = (lt, ift, ig, og)" by (cases h)
  obtain l' where l': "switches (lt, ift, ig, og) l (lt_swapLabel l')" "lsp (h' # hs) l'" using 3(2) h by auto
  obtain c where s: "mpls_handleMessage cl ports lt ift (FromL2 (LabelledPacket p) ig) =
      Inr [ToL2 (LabelledPacket (p\<lparr>labels := [l'], mp_color := c\<rparr>)) og]" using switches_swap [OF l'(1) 3(3)] by blast
  have "\<exists>lt ift ig og. last (h' # hs) = (lt, ift, ig, og) \<and>
    carry cl ports (h' # hs) (LabelledPacket (p\<lparr>labels := [l'], mp_color := c\<rparr>)) =
      Inr [if og \<noteq> - 1 then ToL2 (PlainDatagram d) og else ToL3 d ig]"
    using 3(1) [OF l'(2)] 3(4) by simp
  then show ?case using s by (simp add: h)
qed simp

text \<open>
  Property C13: a datagram that the classifier of an ingress router assigns to a label switched path is labelled, carried along the
  path over any number of routers, and leaves the last router unchanged and without labels.
\<close>
theorem lsp_delivers:
  assumes "cl (md_datagram d) = Some (lt_pushLabel l, outIf, color)" "gateOf outIf ift = Inr g" "lsp hs l"
  shows "\<exists>p lt' ift' ig og. mpls_handleMessage cl ports lt ift (FromL2 (PlainDatagram d) g0) = Inr [ToL2 (LabelledPacket p) g] \<and>
    labels p = [l] \<and> mp_bitLength p = datagramBits d + 32 \<and> last hs = (lt', ift', ig, og) \<and>
    carry cl' ports' hs (LabelledPacket p) = Inr [if og \<noteq> - 1 then ToL2 (PlainDatagram d) og else ToL3 d ig]"
proof -
  define p where "p = (pushLabel l (mp_encapsulate d (newMPLSPacket (ip_name (fst (md_datagram d))))))\<lparr>mp_color := Some color\<rparr>"
  have p: "labels p = [l]" "mp_content p = Some d" "mp_bitLength p = datagramBits d + 32"
    by (simp_all add: p_def pushLabel_def mp_encapsulate_def newMPLSPacket_def)
  have "mpls_handleMessage cl ports lt ift (FromL2 (PlainDatagram d) g0) = Inr [ToL2 (LabelledPacket p) g]"
    using assms(1,2) by (simp add: mpls_handleMessage_def processPacketFromL2_def tryLabelAndForwardIPDatagram_def lt_pushLabel_def oper_defs
      hasLabel_def p_def pushLabel_def)
  then show ?thesis using lsp_carries [OF assms(3) p(1,2), of cl' ports'] p by blast
qed

definition demo_mift :: InterfaceTable where
  "demo_mift = newInterfaceTable\<lparr>idToInterface :=
     [Some ((newInterfaceEntry)\<lparr>if_name := ''ppp0'', nwLayerGateIndex := 0\<rparr>), Some ((newInterfaceEntry)\<lparr>if_name := ''ppp1'', nwLayerGateIndex := 1\<rparr>)]\<rparr>"

definition demo_egress :: LIBTable where
  "demo_egress = \<lparr> lt_routerId = 2, maxLabel = 8,
     lib = [\<lparr> inLabel = 8, inInterface = ''ppp0'', outLabel = lt_popLabel, outInterface = ''ppp1'', lib_color = 0 \<rparr>] \<rparr>"

definition demo_md :: MDatagram where
  "demo_md = \<lparr> md_datagram = (newIPHeader ''data'', None), md_color = None \<rparr>"

lemma demo_lsp: "lsp [(demo_lib, demo_mift, 0, 1), (demo_egress, demo_mift, 0, 1)] 7"
proof -
  have i: "getInterfaceByNetworkLayerGateIndex 0 demo_mift = Some 0" "derefIf 0 demo_mift = Inr ((newInterfaceEntry)\<lparr>if_name := ''ppp0'', nwLayerGateIndex := 0\<rparr>)"
    "gateOf ''ppp1'' demo_mift = Inr 1" by code_simp+
  have "resolveLabel ''ppp0'' 7 demo_lib = Some (lt_swapLabel 8, ''ppp1'', 0)" "resolveLabel ''ppp0'' 8 demo_egress = Some (lt_popLabel, ''ppp1'', 0)"
    by code_simp+
  then show ?thesis using i by (auto simp: switches_def)
qed

theorem lsp_delivers_witness:
  "\<exists>p. mpls_handleMessage (\<lambda>_. Some (lt_pushLabel 7, ''ppp1'', 3)) (\<lambda>_. None) demo_lib demo_mift
      (FromL2 (PlainDatagram demo_md) 0) = Inr [ToL2 (LabelledPacket p) 1] \<and>
    carry (\<lambda>_. None) (\<lambda>_. None) [(demo_lib, demo_mift, 0, 1), (demo_egress, demo_mift, 0, 1)] (LabelledPacket p) =
      Inr [ToL2 (PlainDatagram demo_md) 1]"
proof -
  have "gateOf ''ppp1'' demo_mift = Inr 1" by code_simp
  from lsp_delivers [where cl = "\<lambda>_. Some (lt_pushLabel 7, ''ppp1'', 3)", OF refl this demo_lsp] show ?thesis by fastforce
qed

end
