(* ===== verification/PPP_Link.thy ===== *)
theory PPP_Link
  imports Queue_Base IP_Interface XML_Utils
begin

text \<open>
  The point-to-point link layer (\<open>ppp/PPP.cc\<close>) and its interplay with a passive queue: the queue hands over a packet only
  when PPP asks for one, and PPP asks when a transmission has ended.  Notifications about transmissions and the
  display are left out.
\<close>

section \<open>Data\<close>

definition PPP_OVERHEAD_BYTES :: int where "PPP_OVERHEAD_BYTES = 7"

text \<open>\<open>'m\<close> is the type of packets of the network layer.\<close>

record 'm PPPFrame =
  pf_byteLength :: int
  pf_payload :: 'm

text \<open>
  \<open>datarateChannel\<close> is the data rate, or \<open>None\<close> when the interface is not connected; \<open>endTransmissionEvent\<close> is the time
  the self message is scheduled for; \<open>queueModule\<close> tells whether there is one.
\<close>

record 'm PPP =
  datarateChannel :: "rat option"
  txQueueLimit :: int
  txQueue :: "'m list"
  endTransmissionEvent :: "simtime option"
  queueModule :: bool
  numSent :: int
  numRcvdOK :: int
  numBitErr :: int
  numDroppedIfaceDown :: int

text \<open>
  What arrives at the module; a packet from the line comes with its bit error flag, and is \<open>None\<close> when it is not a
  \<open>PPPFrame\<close>.
\<close>

datatype 'm PPPIn = EndTransmission | PhysIn bool "'m PPPFrame option" | NetwIn 'm

datatype 'm PPPOut = PhysOut "'m PPPFrame" | NetwOut 'm | RequestPacket

section \<open>Operations\<close>

text \<open>\<open>len\<close> is the length of a packet in octets.\<close>

definition ppp_encapsulate :: "('m \<Rightarrow> int) \<Rightarrow> 'm \<Rightarrow> 'm PPPFrame" where
  "ppp_encapsulate len msg = \<lparr> pf_byteLength = PPP_OVERHEAD_BYTES + len msg, pf_payload = msg \<rparr>"

definition ppp_decapsulate :: "'m PPPFrame \<Rightarrow> 'm" where
  "ppp_decapsulate frame = pf_payload frame"

text \<open>
  \<open>finishTime\<close> is \<open>getTransmissionFinishTime\<close> of the channel for a frame of some bits that is sent now.  A message that is
  scheduled cannot be scheduled again.
\<close>

definition startTransmitting :: "(simtime \<Rightarrow> int \<Rightarrow> simtime) \<Rightarrow> ('m \<Rightarrow> int) \<Rightarrow> simtime \<Rightarrow> 'm \<Rightarrow> 'm PPP \<Rightarrow> ('m PPP \<times> 'm PPPOut list) res" where
  "startTransmitting finishTime len tm msg s =
     (let frame = ppp_encapsulate len msg
      in if endTransmissionEvent s \<noteq> None then Inl (RuntimeError ''scheduleAt: message is already scheduled'')
         else Inr (s\<lparr>endTransmissionEvent := Some (finishTime tm (8 * pf_byteLength frame))\<rparr>, [PhysOut frame]))"

definition ppp_handleMessage :: "(simtime \<Rightarrow> int \<Rightarrow> simtime) \<Rightarrow> ('m \<Rightarrow> int) \<Rightarrow> simtime \<Rightarrow> 'm PPPIn \<Rightarrow> 'm PPP \<Rightarrow> ('m PPP \<times> 'm PPPOut list) res" where
  "ppp_handleMessage finishTime len tm inp s =
     (if datarateChannel s = None then Inr (s\<lparr>numDroppedIfaceDown := numDroppedIfaceDown s + 1\<rparr>, [])
      else case inp of
        EndTransmission \<Rightarrow>
          let s = s\<lparr>endTransmissionEvent := None\<rparr>
          in (case txQueue s of
                pk # q \<Rightarrow>
                  bindE (startTransmitting finishTime len tm pk (s\<lparr>txQueue := q\<rparr>)) (\<lambda>(s, out).
                  Inr (s\<lparr>numSent := numSent s + 1\<rparr>, out))
              | [] \<Rightarrow> Inr (s, if queueModule s then [RequestPacket] else []))
      | PhysIn hasBitError frame \<Rightarrow>
          if hasBitError then Inr (s\<lparr>numBitErr := numBitErr s + 1\<rparr>, [])
          else (case frame of
             None \<Rightarrow> Inl (RuntimeError ''check_and_cast<PPPFrame>'')
           | Some frame \<Rightarrow> Inr (s\<lparr>numRcvdOK := numRcvdOK s + 1\<rparr>, [NetwOut (ppp_decapsulate frame)]))
      | NetwIn msg \<Rightarrow>
          if endTransmissionEvent s \<noteq> None
          then (if txQueueLimit s \<noteq> 0 \<and> int (length (txQueue s)) > txQueueLimit s then Inl (RuntimeError ''txQueue length exceeds the limit'')
                else Inr (s\<lparr>txQueue := txQueue s @ [msg]\<rparr>, []))
          else bindE (startTransmitting finishTime len tm msg s) (\<lambda>(s, out).
               Inr (s\<lparr>numSent := numSent s + 1\<rparr>, out)))"

text \<open>
  The interface PPP registers, without its IPv6 interface token; a letter or digit of the module name is kept.
\<close>

definition ppp_registerInterface :: "string \<Rightarrow> rat \<Rightarrow> int \<Rightarrow> InterfaceEntry" where
  "ppp_registerInterface fullName rate mt =
     newInterfaceEntry\<lparr>if_name := filter isAlnum fullName, datarate := rate, mtu := mt, multicast := True, pointToPoint := True\<rparr>"

definition ppp_initialize :: "rat option \<Rightarrow> int \<Rightarrow> bool \<Rightarrow> 'm PPP \<times> 'm PPPOut list" where
  "ppp_initialize rate limit queue =
     (\<lparr> datarateChannel = rate, txQueueLimit = limit, txQueue = [], endTransmissionEvent = None, queueModule = queue,
        numSent = 0, numRcvdOK = 0, numBitErr = 0, numDroppedIfaceDown = 0 \<rparr>,
      if queue then [RequestPacket] else [])"

section \<open>The sender: a queue and PPP\<close>

text \<open>
  \<open>snd_taken\<close> packets that the queue has sent out have arrived at PPP.  The log has the start and the end of every
  transmission and the packet.
\<close>

record ('m, 'q) Sender =
  snd_queue :: "('m, 'q) PassiveQueueBase"
  snd_taken :: nat
  snd_ppp :: "'m PPP"
  snd_log :: "(simtime \<times> simtime \<times> 'm) list"

definition in_flight :: "('m, 'q) Sender \<Rightarrow> 'm list" where
  "in_flight x = drop (snd_taken x) (pq_out (snd_queue x))"

text \<open>What PPP does is entered in the log, and a request is passed on to the queue.\<close>

definition perform :: "(simtime \<Rightarrow> 'q \<Rightarrow> 'm option \<times> 'q) \<Rightarrow> simtime \<Rightarrow> 'm PPP \<times> 'm PPPOut list \<Rightarrow> ('m, 'q) Sender \<Rightarrow> ('m, 'q) Sender" where
  "perform deq tm r x =
     (let x = x\<lparr>snd_ppp := fst r\<rparr>;
          x = x\<lparr>snd_log := snd_log x @ concat (map (\<lambda>out. case out of
                  PhysOut f \<Rightarrow> [(tm, the (endTransmissionEvent (fst r)), pf_payload f)] | _ \<Rightarrow> []) (snd r))\<rparr>
      in if RequestPacket \<in> set (snd r) then x\<lparr>snd_queue := pq_requestPacket (deq tm) (snd_queue x)\<rparr> else x)"

inductive sender_run :: "(simtime \<times> rat \<Rightarrow> 'm \<Rightarrow> 'q \<Rightarrow> (bool \<times> 'q) res) \<Rightarrow> (simtime \<Rightarrow> 'q \<Rightarrow> 'm option \<times> 'q) \<Rightarrow>
    (simtime \<Rightarrow> int \<Rightarrow> simtime) \<Rightarrow> ('m \<Rightarrow> int) \<Rightarrow> 'q \<Rightarrow> rat \<Rightarrow> int \<Rightarrow> 'm list \<Rightarrow> simtime \<Rightarrow> ('m, 'q) Sender \<Rightarrow> bool"
  for enq deq fin len q0 rate limit where
  sr_start: "sender_run enq deq fin len q0 rate limit [] 0
     (perform deq 0 (ppp_initialize (Some rate) limit True)
        \<lparr> snd_queue = pq_initialize q0, snd_taken = 0, snd_ppp = fst (ppp_initialize (Some rate) limit True), snd_log = [] \<rparr>)"
| sr_arrival: "sender_run enq deq fin len q0 rate limit ms t x \<Longrightarrow> t \<le> tm \<Longrightarrow> (\<forall>e. endTransmissionEvent (snd_ppp x) = Some e \<longrightarrow> tm \<le> e) \<Longrightarrow>
     pq_handleMessage (enq w) m (snd_queue x) = Inr s' \<Longrightarrow>
     sender_run enq deq fin len q0 rate limit (ms @ [m]) tm (x\<lparr>snd_queue := s'\<rparr>)"
| sr_deliver: "sender_run enq deq fin len q0 rate limit ms t x \<Longrightarrow> t \<le> tm \<Longrightarrow> (\<forall>e. endTransmissionEvent (snd_ppp x) = Some e \<longrightarrow> tm \<le> e) \<Longrightarrow>
     in_flight x = m # ws \<Longrightarrow> ppp_handleMessage fin len tm (NetwIn m) (snd_ppp x) = Inr r \<Longrightarrow>
     sender_run enq deq fin len q0 rate limit ms tm (perform deq tm r (x\<lparr>snd_taken := Suc (snd_taken x)\<rparr>))"
| sr_end: "sender_run enq deq fin len q0 rate limit ms t x \<Longrightarrow> endTransmissionEvent (snd_ppp x) = Some tm \<Longrightarrow>
     ppp_handleMessage fin len tm EndTransmission (snd_ppp x) = Inr r \<Longrightarrow>
     sender_run enq deq fin len q0 rate limit ms tm (perform deq tm r x)"

section \<open>One packet at a time\<close>

text \<open>There is always exactly one token: a request at the queue, a packet on its way to PPP, or a transmission.\<close>

definition tokens :: "('m, 'q) Sender \<Rightarrow> int" where
  "tokens x = packetRequested (snd_queue x) + int (length (in_flight x)) + (if endTransmissionEvent (snd_ppp x) = None then 0 else 1)"

definition log_ok :: "simtime \<Rightarrow> ('m, 'q) Sender \<Rightarrow> bool" where
  "log_ok t x \<longleftrightarrow> sorted_wrt (\<lambda>a b. fst (snd a) \<le> fst b) (snd_log x) \<and>
     (\<forall>a \<in> set (snd_log x). case endTransmissionEvent (snd_ppp x) of None \<Rightarrow> fst (snd a) \<le> t | Some e \<Rightarrow> fst (snd a) \<le> e \<and> t \<le> e)"

definition link_ok :: "rat \<Rightarrow> simtime \<Rightarrow> ('m, 'q) Sender \<Rightarrow> bool" where
  "link_ok rate t x \<longleftrightarrow> tokens x = 1 \<and> 0 \<le> packetRequested (snd_queue x) \<and> snd_taken x \<le> length (pq_out (snd_queue x)) \<and> txQueue (snd_ppp x) = [] \<and>
     datarateChannel (snd_ppp x) = Some rate \<and> queueModule (snd_ppp x) \<and>
     map (\<lambda>(a, b, m). m) (snd_log x) = take (snd_taken x) (pq_out (snd_queue x)) \<and>
     log_ok t x"

lemma pq_handleMessage_token:
  assumes "pq_handleMessage e m s = Inr s'" "0 \<le> packetRequested s"
  obtains ws where "pq_out s' = pq_out s @ ws" "packetRequested s' + int (length ws) = packetRequested s" "0 \<le> packetRequested s'"
  using assms
  by (cases "packetRequested s > 0") (auto simp: pq_handleMessage_def sendOut_def bindE_eq_Inr Let_def split: if_splits)

lemma pq_requestPacket_token:
  assumes "0 \<le> packetRequested s"
  obtains ws where "pq_out (pq_requestPacket d s) = pq_out s @ ws"
    "packetRequested (pq_requestPacket d s) + int (length ws) = packetRequested s + 1" "0 \<le> packetRequested (pq_requestPacket d s)"
proof -
  obtain r q where d: "d (pq_queue s) = (r, q)" by fastforce
  show ?thesis using that [of "case r of None \<Rightarrow> [] | Some m \<Rightarrow> [m]"] assms
    by (simp add: pq_requestPacket_def sendOut_def d split: option.splits)
qed

lemma link_ok_arrival:
  assumes ok: "link_ok rate t x" and t: "t \<le> tm" and e: "\<forall>e. endTransmissionEvent (snd_ppp x) = Some e \<longrightarrow> tm \<le> e"
    and m: "pq_handleMessage q m (snd_queue x) = Inr s'"
  shows "link_ok rate tm (x\<lparr>snd_queue := s'\<rparr>)"
proof -
  from ok have "0 \<le> packetRequested (snd_queue x)" by (simp add: link_ok_def)
  then obtain ws where "pq_out s' = pq_out (snd_queue x) @ ws" "packetRequested s' + int (length ws) = packetRequested (snd_queue x)"
    "0 \<le> packetRequested s'" using pq_handleMessage_token [OF m] by blast
  moreover have "log_ok tm (x\<lparr>snd_queue := s'\<rparr>)"
    using ok t e by (auto simp: link_ok_def log_ok_def split: option.splits)
  ultimately show ?thesis using ok by (auto simp: link_ok_def tokens_def in_flight_def)
qed

lemma link_ok_deliver:
  assumes ok: "link_ok rate t x" and t: "t \<le> tm" and m: "in_flight x = m # ws" and fin: "\<forall>tm b. tm \<le> fin tm b"
  shows "\<exists>r. ppp_handleMessage fin len tm (NetwIn m) (snd_ppp x) = Inr r \<and>
    link_ok rate tm (perform deq tm r (x\<lparr>snd_taken := Suc (snd_taken x)\<rparr>))"
proof -
  from ok have tok: "tokens x = 1" "0 \<le> packetRequested (snd_queue x)" by (simp_all add: link_ok_def)
  have sum: "a = 0 \<and> b = 0 \<and> P" if "a + b + (if P then 0 else 1) = 0" "0 \<le> a" "0 \<le> b" for a b :: int and P
    using that by (simp split: if_splits)
  have "packetRequested (snd_queue x) + int (length ws) + (if endTransmissionEvent (snd_ppp x) = None then 0 else 1) = 0"
    using tok(1) m by (simp add: tokens_def)
  from sum [OF this tok(2) of_nat_0_le_iff]
  have free: "endTransmissionEvent (snd_ppp x) = None" "packetRequested (snd_queue x) = 0" "ws = []" by simp_all
  have d: "drop (snd_taken x) (pq_out (snd_queue x)) = [m]" using m free by (simp add: in_flight_def)
  then have l: "take (snd_taken x) (pq_out (snd_queue x)) @ [m] = pq_out (snd_queue x)" by (metis append_take_drop_id)
  have k: "length (pq_out (snd_queue x)) = Suc (snd_taken x)" using arg_cong [OF d, of length] by simp
  let ?e = "fin tm (8 * pf_byteLength (ppp_encapsulate len m))"
  let ?p = "(snd_ppp x)\<lparr>endTransmissionEvent := Some ?e, numSent := numSent (snd_ppp x) + 1\<rparr>"
  have h: "ppp_handleMessage fin len tm (NetwIn m) (snd_ppp x) = Inr (?p, [PhysOut (ppp_encapsulate len m)])"
    using ok free by (simp add: ppp_handleMessage_def startTransmitting_def link_ok_def Let_def)
  have e: "tm \<le> ?e" using fin by blast
  have "\<forall>a \<in> set (snd_log x). fst (snd a) \<le> tm" using ok t free by (auto simp: link_ok_def log_ok_def)
  then have "link_ok rate tm (perform deq tm (?p, [PhysOut (ppp_encapsulate len m)]) (x\<lparr>snd_taken := Suc (snd_taken x)\<rparr>))"
    using ok free k e l
    by (auto simp: link_ok_def perform_def tokens_def in_flight_def log_ok_def ppp_encapsulate_def sorted_wrt_append)
  with h show ?thesis by blast
qed

lemma link_ok_request:
  assumes "0 \<le> packetRequested (snd_queue x)" "tokens x = 0" "snd_taken x \<le> length (pq_out (snd_queue x))"
    "txQueue (snd_ppp x) = []" "datarateChannel (snd_ppp x) = Some rate" "queueModule (snd_ppp x)"
    "map (\<lambda>(a, b, m). m) (snd_log x) = take (snd_taken x) (pq_out (snd_queue x))" "log_ok t x"
  shows "link_ok rate t (x\<lparr>snd_queue := pq_requestPacket d (snd_queue x)\<rparr>)"
proof -
  obtain ws where ws: "pq_out (pq_requestPacket d (snd_queue x)) = pq_out (snd_queue x) @ ws"
    "packetRequested (pq_requestPacket d (snd_queue x)) + int (length ws) = packetRequested (snd_queue x) + 1"
    "0 \<le> packetRequested (pq_requestPacket d (snd_queue x))"
    using pq_requestPacket_token [OF assms(1)] by blast
  have "log_ok t (x\<lparr>snd_queue := pq_requestPacket d (snd_queue x)\<rparr>)" using assms(8) by (simp add: log_ok_def)
  moreover have "tokens (x\<lparr>snd_queue := pq_requestPacket d (snd_queue x)\<rparr>) = 1"
    using ws assms(2,3) by (simp add: tokens_def in_flight_def)
  ultimately show ?thesis using ws assms by (simp add: link_ok_def)
qed

lemma link_ok_end:
  assumes ok: "link_ok rate t x" and e: "endTransmissionEvent (snd_ppp x) = Some tm"
  shows "\<exists>r. ppp_handleMessage fin len tm EndTransmission (snd_ppp x) = Inr r \<and> link_ok rate tm (perform deq tm r x)"
proof -
  let ?p = "(snd_ppp x)\<lparr>endTransmissionEvent := None\<rparr>"
  have h: "ppp_handleMessage fin len tm EndTransmission (snd_ppp x) = Inr (?p, [RequestPacket])"
    using ok by (simp add: ppp_handleMessage_def link_ok_def Let_def)
  have "link_ok rate tm ((x\<lparr>snd_ppp := ?p\<rparr>)\<lparr>snd_queue := pq_requestPacket (deq tm) (snd_queue (x\<lparr>snd_ppp := ?p\<rparr>))\<rparr>)"
    by (rule link_ok_request) (use ok e in \<open>auto simp: link_ok_def tokens_def in_flight_def log_ok_def split: option.splits\<close>)
  with h show ?thesis by (auto simp: perform_def)
qed

lemma perform_pq_run:
  "pq_run enq deq q0 ms (snd_queue x) \<Longrightarrow> pq_run enq deq q0 ms (snd_queue (perform deq tm r x))"
  by (simp add: perform_def Let_def pq_request)

lemma sender_run_ok:
  assumes "sender_run enq deq fin len q0 rate limit ms t x" and fin: "\<forall>tm b. tm \<le> fin tm b"
  shows "link_ok rate t x \<and> pq_run enq deq q0 ms (snd_queue x)"
  using assms(1)
proof (induction rule: sender_run.induct)
  case sr_start
  let ?x = "\<lparr> snd_queue = pq_initialize q0, snd_taken = 0, snd_ppp = fst (ppp_initialize (Some rate) limit True), snd_log = [] \<rparr>"
  have "link_ok rate 0 (?x\<lparr>snd_queue := pq_requestPacket (deq 0) (snd_queue ?x)\<rparr>)"
    by (rule link_ok_request) (auto simp: pq_initialize_def ppp_initialize_def tokens_def in_flight_def log_ok_def)
  then show ?case by (auto simp: perform_def ppp_initialize_def intro: pq_run.intros)
next
  case (sr_arrival ms t x tm w m s')
  then show ?case using link_ok_arrival [of rate t x tm "enq w" m s'] by (auto intro: pq_run.intros)
next
  case (sr_deliver ms t x tm m ws r)
  then show ?case using link_ok_deliver [of rate t x tm m ws fin len deq] fin by (auto intro!: perform_pq_run)
next
  case (sr_end ms t x tm r)
  then show ?case using link_ok_end [of rate t x tm fin len deq] by (auto intro!: perform_pq_run)
qed

context fifo_queue
begin

lemma sender_fifo:
  assumes "sender_run enqueue dequeue fin len q0 rate limit ms t x" "\<forall>tm b. tm \<le> fin tm b" "items q0 = []"
  shows "subseq (map (\<lambda>(a, b, m). m) (snd_log x) @ in_flight x @ items (pq_queue (snd_queue x))) ms \<and>
    (endTransmissionEvent (snd_ppp x) = None \<and> in_flight x = [] \<longrightarrow> items (pq_queue (snd_queue x)) = [])"
proof -
  note ok = sender_run_ok [OF assms(1,2)]
  then have "map (\<lambda>(a, b, m). m) (snd_log x) @ in_flight x = pq_out (snd_queue x)" by (simp add: link_ok_def in_flight_def)
  then have "subseq (map (\<lambda>(a, b, m). m) (snd_log x) @ in_flight x @ items (pq_queue (snd_queue x))) ms"
    using keeps_order [OF conjunct2 [OF ok] assms(3)] by (metis append.assoc)
  moreover have "packetRequested (snd_queue x) = 1" if "endTransmissionEvent (snd_ppp x) = None" "in_flight x = []"
    using ok that by (simp add: link_ok_def tokens_def)
  ultimately show ?thesis using pq.conserves [OF conjunct2 [OF ok]] assms(3) by simp
qed

end

text \<open>
  Property C14: a drop tail queue in front of PPP: whatever packets arrive whenever, PPP is never given a packet while it transmits, so
  that its own queue stays empty and neither arrival nor end of transmission is an error; transmissions do not overlap;
  the packets leave in the order of arrival, less the dropped ones; and the line is never idle while a packet waits.
\<close>

theorem ppp_link_fifo:
  assumes run: "sender_run dt_enqueue dt_dequeue fin len q0 rate limit ms t x" and fin: "\<forall>tm b. tm \<le> fin tm b"
    and q0: "dt_queue q0 = []"
  shows "subseq (map (\<lambda>(a, b, m). m) (snd_log x) @ in_flight x @ dt_queue (pq_queue (snd_queue x))) ms \<and>
    sorted_wrt (\<lambda>a b. fst (snd a) \<le> fst b) (snd_log x) \<and> txQueue (snd_ppp x) = [] \<and>
    (endTransmissionEvent (snd_ppp x) = None \<and> in_flight x = [] \<longrightarrow> dt_queue (pq_queue (snd_queue x)) = []) \<and>
    (\<forall>m ws tm. in_flight x = m # ws \<and> t \<le> tm \<longrightarrow> (\<exists>r. ppp_handleMessage fin len tm (NetwIn m) (snd_ppp x) = Inr r)) \<and>
    (\<forall>e. endTransmissionEvent (snd_ppp x) = Some e \<longrightarrow> (\<exists>r. ppp_handleMessage fin len e EndTransmission (snd_ppp x) = Inr r))"
proof (intro conjI allI)
  note ok = conjunct1 [OF sender_run_ok [OF run fin]]
  note fifo = droptail.sender_fifo [OF run fin q0]
  show "subseq (map (\<lambda>(a, b, m). m) (snd_log x) @ in_flight x @ dt_queue (pq_queue (snd_queue x))) ms"
    and "endTransmissionEvent (snd_ppp x) = None \<and> in_flight x = [] \<longrightarrow> dt_queue (pq_queue (snd_queue x)) = []"
    using fifo by blast+
  show "sorted_wrt (\<lambda>a b. fst (snd a) \<le> fst b) (snd_log x)" "txQueue (snd_ppp x) = []"
    using ok by (simp_all add: link_ok_def log_ok_def)
  show "in_flight x = m # ws \<and> t \<le> tm \<longrightarrow> (\<exists>r. ppp_handleMessage fin len tm (NetwIn m) (snd_ppp x) = Inr r)" for m ws tm
    using link_ok_deliver [OF ok _ _ fin] by blast
  show "endTransmissionEvent (snd_ppp x) = Some e \<longrightarrow> (\<exists>r. ppp_handleMessage fin len e EndTransmission (snd_ppp x) = Inr r)" for e
    using link_ok_end [OF ok] by blast
qed

text \<open>Two packets of 93 octets arrive at time 0 on a line that carries 800 bits a second; the first one is transmitted at once.\<close>

definition demo_fin :: "simtime \<Rightarrow> int \<Rightarrow> simtime" where
  "demo_fin tm b = tm + abs (of_int b) / 800"

definition demo_link :: "(nat, nat DropTailQueue) Sender" where
  "demo_link = \<lparr> snd_queue = \<lparr> packetRequested = 0, numQueueReceived = 2, numQueueDropped = 0,
       pq_queue = \<lparr> dt_queue = [2], dt_frameCapacity = 10 \<rparr>, pq_out = [1] \<rparr>, snd_taken = 1,
     snd_ppp = \<lparr> datarateChannel = Some 800, txQueueLimit = 5, txQueue = [], endTransmissionEvent = Some 1, queueModule = True,
       numSent = 1, numRcvdOK = 0, numBitErr = 0, numDroppedIfaceDown = 0 \<rparr>, snd_log = [(0, 1, 1)] \<rparr>"

lemmas demo_link_simps = demo_link_def demo_fin_def perform_def ppp_initialize_def pq_initialize_def pq_requestPacket_def
  dt_dequeue_def dt_enqueue_def pq_handleMessage_def sendOut_def in_flight_def ppp_handleMessage_def startTransmitting_def
  ppp_encapsulate_def PPP_OVERHEAD_BYTES_def Let_def

lemma demo_link_run:
  "sender_run dt_enqueue dt_dequeue demo_fin (\<lambda>_. 93) \<lparr> dt_queue = [], dt_frameCapacity = 10 \<rparr> 800 5 [1, 2] 0 demo_link"
proof -
  let ?run = "sender_run dt_enqueue dt_dequeue demo_fin (\<lambda>_::nat. 93) \<lparr> dt_queue = [], dt_frameCapacity = 10 \<rparr> 800 5"
  let ?q = "\<lambda>rq n. \<lparr> packetRequested = rq, numQueueReceived = n, numQueueDropped = 0, pq_queue = \<lparr> dt_queue = [], dt_frameCapacity = 10 \<rparr>,
      pq_out = if n = 0 then [] else [1] \<rparr>"
  let ?x = "\<lambda>rq n. \<lparr> snd_queue = ?q rq n, snd_taken = 0, snd_ppp = fst (ppp_initialize (Some 800) 5 True), snd_log = [] \<rparr>"
  let ?p = "(fst (ppp_initialize (Some 800) 5 True))\<lparr>endTransmissionEvent := Some 1, numSent := 1\<rparr>"
  let ?f = "\<lparr> pf_byteLength = 100, pf_payload = 1 \<rparr>"
  have "?run [] 0 (?x 1 0)"
    using sr_start [of dt_enqueue dt_dequeue demo_fin "\<lambda>_::nat. 93" "\<lparr> dt_queue = [], dt_frameCapacity = 10 \<rparr>" 800 5]
    by (simp add: demo_link_simps)
  then have "?run [1] 0 (?x 0 1)"
    by (drule_tac sr_arrival [of _ _ _ _ _ _ _ _ _ _ 0 "(0, 0)" 1 "?q 0 1"]) (simp_all add: demo_link_simps)
  then have "?run [1] 0 (perform dt_dequeue 0 (?p, [PhysOut ?f]) ((?x 0 1)\<lparr>snd_taken := 1\<rparr>))"
    by (drule_tac sr_deliver [of _ _ _ _ _ _ _ _ _ _ 0 1 "[]" "(?p, [PhysOut ?f])"]) (simp_all add: demo_link_simps)
  then show ?thesis
    by (drule_tac sr_arrival [of _ _ _ _ _ _ _ _ _ _ 0 "(0, 0)" 2 "snd_queue demo_link"]) (simp_all add: demo_link_simps)
qed

theorem ppp_link_fifo_witness:
  "subseq [1, 2] [1, 2::nat] \<and> txQueue (snd_ppp demo_link) = [] \<and>
   (\<exists>r. ppp_handleMessage demo_fin (\<lambda>_. 93) 1 EndTransmission (snd_ppp demo_link) = Inr r)"
proof -
  have "\<forall>tm b. tm \<le> demo_fin tm b" by (simp add: demo_fin_def)
  from ppp_link_fifo [OF demo_link_run this] show ?thesis by (simp add: demo_link_def in_flight_def)
qed

end
