(* ===== verification/Ether_MAC.thy ===== *)
theory Ether_MAC
  imports Ether_Frame IP_Interface XML_Utils
begin

text \<open>
  Medium access control of Ethernet: the base class \<open>EtherMACBase\<close>, the full duplex \<open>EtherMAC2\<close> and the general
  \<open>EtherMAC\<close> with autoconfiguration, collisions and backoff (directory \<open>ethernet\<close>).  Timers are the times their
  messages are scheduled for; at the four standard rates all durations are multiples of a picosecond, so that the
  arithmetic of \<open>simtime_t\<close> is exact.  What a module sends is appended to \<open>em_out\<close>.  The notification board is set up
  before there is an interface entry, so that the modules never notify anyone.
\<close>

section \<open>The base class\<close>

definition PREAMBLE_BYTES :: int where "PREAMBLE_BYTES = 7"
definition SFD_BYTES :: int where "SFD_BYTES = 1"
definition JAM_SIGNAL_BYTES :: int where "JAM_SIGNAL_BYTES = 4"
definition PAUSE_BITTIME :: int where "PAUSE_BITTIME = 512"
definition INTERFRAME_GAP_BITS :: rat where "INTERFRAME_GAP_BITS = 96"
definition GIGABIT_MIN_FRAME_WITH_EXT :: int where "GIGABIT_MIN_FRAME_WITH_EXT = 512"
definition GIGABIT_MAX_BURST_BYTES :: int where "GIGABIT_MAX_BURST_BYTES = 8192"
definition MAX_ATTEMPTS :: int where "MAX_ATTEMPTS = 16"
definition BACKOFF_RANGE_LIMIT :: int where "BACKOFF_RANGE_LIMIT = 10"
definition ETHERNET_TXRATE :: rat where "ETHERNET_TXRATE = 10000000"
definition FAST_ETHERNET_TXRATE :: rat where "FAST_ETHERNET_TXRATE = 100000000"
definition GIGABIT_ETHERNET_TXRATE :: rat where "GIGABIT_ETHERNET_TXRATE = 1000000000"
definition FAST_GIGABIT_ETHERNET_TXRATE :: rat where "FAST_GIGABIT_ETHERNET_TXRATE = 10000000000"
definition SLOT_TIME :: simtime where "SLOT_TIME = 512 / ETHERNET_TXRATE"
definition GIGABIT_SLOT_TIME :: simtime where "GIGABIT_SLOT_TIME = 4096 / GIGABIT_ETHERNET_TXRATE"
definition AUTOCONFIG_PERIOD :: simtime where "AUTOCONFIG_PERIOD = 1 / 1000"

datatype TxState = TX_IDLE_STATE | WAIT_IFG_STATE | TRANSMITTING_STATE | JAMMING_STATE | BACKOFF_STATE | PAUSE_STATE

datatype RxState = RX_IDLE_STATE | RECEIVING_STATE | RX_COLLISION_STATE

text \<open>What travels on the line; a received frame may have a bit error.\<close>

datatype Signal = SigFrame EtherFrame bool | SigJam | SigAutoconfig rat bool | SigOther

datatype MacOut = ToPhys Signal | ToUpper EtherFrame | RequestFrame

record EtherMACBase =
  em_connected :: bool
  em_disabled :: bool
  em_promiscuous :: bool
  em_address :: MACAddress
  em_txQueueLimit :: int
  duplexMode :: bool
  carrierExtension :: bool
  frameBursting :: bool
  txrate :: rat
  bitTime :: simtime
  slotTime :: simtime
  interFrameGap :: simtime
  jamDuration :: simtime
  shortestFrameDuration :: simtime
  transmitState :: TxState
  receiveState :: RxState
  pauseUnitsRequested :: int
  em_txQueue :: "EtherFrame list"
  em_queueModule :: bool
  endTxMsg :: "simtime option"
  endIFGMsg :: "simtime option"
  endPauseMsg :: "simtime option"
  framesSentInBurst :: int
  bytesSentInBurst :: int
  numFramesSent :: int
  numFramesReceivedOK :: int
  numBytesSent :: int
  numBytesReceivedOK :: int
  numFramesFromHL :: int
  em_numDroppedIfaceDown :: int
  numDroppedBitError :: int
  numDroppedNotForUs :: int
  numFramesPassedToHL :: int
  numPauseFramesRcvd :: int
  numPauseFramesSent :: int
  em_out :: "MacOut list"

definition em_send :: "MacOut \<Rightarrow> 'a EtherMACBase_scheme \<Rightarrow> 'a EtherMACBase_scheme" where
  "em_send out s = s\<lparr>em_out := em_out s @ [out]\<rparr>"

definition checkDestinationAddress :: "EtherFrame \<Rightarrow> 'a EtherMACBase_scheme \<Rightarrow> bool \<times> 'a EtherMACBase_scheme" where
  "checkDestinationAddress frame s =
     (if \<not> em_promiscuous s \<and> \<not> mac_isBroadcast (ef_dest frame) \<and> \<not> mac_equals (ef_dest frame) (em_address s)
      then (False, s\<lparr>numDroppedNotForUs := numDroppedNotForUs s + 1\<rparr>) else (True, s))"

definition calculateParameters :: "'a EtherMACBase_scheme \<Rightarrow> 'a EtherMACBase_scheme res" where
  "calculateParameters s =
     (if em_disabled s \<or> \<not> em_connected s
      then Inr (s\<lparr>bitTime := 0, slotTime := 0, interFrameGap := 0, jamDuration := 0, shortestFrameDuration := 0,
        carrierExtension := False, frameBursting := False\<rparr>)
      else if txrate s \<notin> set [ETHERNET_TXRATE, FAST_ETHERNET_TXRATE, GIGABIT_ETHERNET_TXRATE, FAST_GIGABIT_ETHERNET_TXRATE]
      then Inl (RuntimeError ''nonstandard transmission rate'')
      else let bt = 1 / txrate s;
               st = (if txrate s = ETHERNET_TXRATE \<or> txrate s = FAST_ETHERNET_TXRATE then SLOT_TIME else GIGABIT_SLOT_TIME);
               ce = (st = GIGABIT_SLOT_TIME \<and> \<not> duplexMode s)
      in Inr (s\<lparr>bitTime := bt, slotTime := st,
           frameBursting := (txrate s = GIGABIT_ETHERNET_TXRATE \<or> txrate s = FAST_GIGABIT_ETHERNET_TXRATE),
           carrierExtension := ce, interFrameGap := INTERFRAME_GAP_BITS / txrate s,
           jamDuration := 8 * of_int JAM_SIGNAL_BYTES * bt,
           shortestFrameDuration := of_int (if ce then GIGABIT_MIN_FRAME_WITH_EXT else MIN_ETHERNET_FRAME)\<rparr>))"

text \<open>A message that is scheduled cannot be scheduled again.\<close>

definition scheduleEndIFGPeriod :: "simtime \<Rightarrow> 'a EtherMACBase_scheme \<Rightarrow> 'a EtherMACBase_scheme res" where
  "scheduleEndIFGPeriod tm s =
     (if endIFGMsg s \<noteq> None then Inl TimerAlreadyScheduled
      else Inr (s\<lparr>endIFGMsg := Some (tm + interFrameGap s), transmitState := WAIT_IFG_STATE\<rparr>))"

definition scheduleEndTxPeriod :: "simtime \<Rightarrow> EtherFrame \<Rightarrow> 'a EtherMACBase_scheme \<Rightarrow> 'a EtherMACBase_scheme res" where
  "scheduleEndTxPeriod tm frame s =
     (if endTxMsg s \<noteq> None then Inl TimerAlreadyScheduled
      else Inr (s\<lparr>endTxMsg := Some (tm + of_int (8 * ef_byteLength frame) * bitTime s), transmitState := TRANSMITTING_STATE\<rparr>))"

text \<open>The length of the pause is a product of two \<open>int\<close>s; it wraps above 4194303 units (the field of IEEE 802.3 has 16 bits).\<close>

definition scheduleEndPausePeriod :: "simtime \<Rightarrow> int \<Rightarrow> 'a EtherMACBase_scheme \<Rightarrow> 'a EtherMACBase_scheme res" where
  "scheduleEndPausePeriod tm pauseUnits s =
     (if endPauseMsg s \<noteq> None then Inl TimerAlreadyScheduled
      else Inr (s\<lparr>endPauseMsg := Some (tm + of_int (c_int (pauseUnits * PAUSE_BITTIME)) * bitTime s), transmitState := PAUSE_STATE\<rparr>))"

definition checkAndScheduleEndPausePeriod :: "simtime \<Rightarrow> 'a EtherMACBase_scheme \<Rightarrow> (bool \<times> 'a EtherMACBase_scheme) res" where
  "checkAndScheduleEndPausePeriod tm s =
     (if pauseUnitsRequested s > 0
      then bindE (scheduleEndPausePeriod tm (pauseUnitsRequested s) s) (\<lambda>s. Inr (True, s\<lparr>pauseUnitsRequested := 0\<rparr>))
      else Inr (False, s))"

definition beginSendFrames :: "simtime \<Rightarrow> 'a EtherMACBase_scheme \<Rightarrow> 'a EtherMACBase_scheme res" where
  "beginSendFrames tm s =
     (if em_txQueue s \<noteq> [] then scheduleEndIFGPeriod tm s
      else let s = s\<lparr>transmitState := TX_IDLE_STATE\<rparr>
           in Inr (if em_queueModule s then em_send RequestFrame s else s))"

definition emb_processFrameFromUpperLayer :: "EtherFrame \<Rightarrow> 'a EtherMACBase_scheme \<Rightarrow> 'a EtherMACBase_scheme res" where
  "emb_processFrameFromUpperLayer frame s =
     (if mac_equals (ef_dest frame) (em_address s)
      then Inl (RuntimeError ''logic error: frame from higher layer has local MAC address as dest'')
      else if ef_byteLength frame > MAX_ETHERNET_FRAME
      then Inl (RuntimeError ''packet from higher layer exceeds maximum Ethernet frame size'')
      else if \<not> isPauseFrame frame
      then let s = s\<lparr>numFramesFromHL := numFramesFromHL s + 1\<rparr>
           in if em_txQueueLimit s \<noteq> 0 \<and> int (length (em_txQueue s)) > em_txQueueLimit s
              then Inl (RuntimeError ''txQueue length exceeds the limit'')
              else let frame = (if mac_isUnspecified (ef_src frame) then frame\<lparr>ef_src := em_address s\<rparr> else frame)
                   in Inr (s\<lparr>em_txQueue := em_txQueue s @ [frame]\<rparr>)
      else Inr (s\<lparr>em_txQueue := frame # em_txQueue s\<rparr>))"

text \<open>\<open>sentAt\<close> is the time at which the signal was sent.\<close>

definition emb_processMsgFromNetwork :: "simtime \<Rightarrow> simtime \<Rightarrow> Signal \<Rightarrow> 'a EtherMACBase_scheme \<Rightarrow> unit res" where
  "emb_processMsgFromNetwork tm sentAt sig s =
     (if (case sig of SigFrame _ _ \<Rightarrow> False | SigJam \<Rightarrow> False | _ \<Rightarrow> True)
      then Inl (RuntimeError ''message with unexpected message class arrived from network'')
      else if \<not> duplexMode s \<and> tm - sentAt \<ge> shortestFrameDuration s
      then Inl (RuntimeError ''very long frame propagation time detected'')
      else Inr ())"

definition processPauseCommand :: "simtime \<Rightarrow> int \<Rightarrow> 'a EtherMACBase_scheme \<Rightarrow> 'a EtherMACBase_scheme res" where
  "processPauseCommand tm pauseUnits s =
     (if transmitState s = TX_IDLE_STATE
      then (if pauseUnits > 0 then scheduleEndPausePeriod tm pauseUnits s else Inr s)
      else if transmitState s = PAUSE_STATE
      then (let s = s\<lparr>endPauseMsg := None\<rparr> in if pauseUnits > 0 then scheduleEndPausePeriod tm pauseUnits s else Inr s)
      else Inr (s\<lparr>pauseUnitsRequested := pauseUnits\<rparr>))"

definition processReceivedDataFrame :: "EtherFrame \<Rightarrow> bool \<Rightarrow> 'a EtherMACBase_scheme \<Rightarrow> 'a EtherMACBase_scheme" where
  "processReceivedDataFrame frame hasBitError s =
     (if hasBitError then s\<lparr>numDroppedBitError := numDroppedBitError s + 1\<rparr>
      else let frame = frame\<lparr>ef_byteLength := ef_byteLength frame - PREAMBLE_BYTES - SFD_BYTES\<rparr>;
               s = s\<lparr>numFramesReceivedOK := numFramesReceivedOK s + 1, numBytesReceivedOK := numBytesReceivedOK s + ef_byteLength frame\<rparr>;
               (ok, s) = checkDestinationAddress frame s
           in if \<not> ok then s
              else em_send (ToUpper frame) (s\<lparr>numFramesPassedToHL := numFramesPassedToHL s + 1\<rparr>))"

definition frameReceptionComplete :: "simtime \<Rightarrow> EtherFrame \<Rightarrow> bool \<Rightarrow> 'a EtherMACBase_scheme \<Rightarrow> 'a EtherMACBase_scheme res" where
  "frameReceptionComplete tm frame hasBitError s =
     (case ef_kind frame of
        EtherPauseFrame pauseUnits \<Rightarrow> processPauseCommand tm pauseUnits (s\<lparr>numPauseFramesRcvd := numPauseFramesRcvd s + 1\<rparr>)
      | _ \<Rightarrow> Inr (processReceivedDataFrame frame hasBitError s))"

text \<open>Carrier extension lengthens the frame at the front of the queue.\<close>

definition extendFront :: "'a EtherMACBase_scheme \<Rightarrow> 'a EtherMACBase_scheme" where
  "extendFront s =
     (case em_txQueue s of
        [] \<Rightarrow> s
      | frame # q \<Rightarrow>
          if carrierExtension s \<and> ef_byteLength frame < GIGABIT_MIN_FRAME_WITH_EXT
          then s\<lparr>em_txQueue := frame\<lparr>ef_byteLength := GIGABIT_MIN_FRAME_WITH_EXT\<rparr> # q\<rparr> else s)"

definition emb_handleEndIFGPeriod :: "'a EtherMACBase_scheme \<Rightarrow> 'a EtherMACBase_scheme res" where
  "emb_handleEndIFGPeriod s =
     (if transmitState s \<noteq> WAIT_IFG_STATE then Inl (RuntimeError ''Not in WAIT_IFG_STATE at the end of IFG period'')
      else if em_txQueue s = [] then Inl (RuntimeError ''End of IFG and no frame to transmit'')
      else let s = extendFront s
           in Inr (if frameBursting s then s\<lparr>framesSentInBurst := 0, bytesSentInBurst := 0\<rparr> else s))"

definition emb_handleEndTxPeriod :: "'a EtherMACBase_scheme \<Rightarrow> 'a EtherMACBase_scheme res" where
  "emb_handleEndTxPeriod s =
     (if transmitState s \<noteq> TRANSMITTING_STATE \<or> (\<not> duplexMode s \<and> receiveState s \<noteq> RX_IDLE_STATE)
      then Inl (RuntimeError ''End of transmission, and incorrect state detected'')
      else case em_txQueue s of
        [] \<Rightarrow> Inl (RuntimeError ''Frame under transmission cannot be found'')
      | frame # q \<Rightarrow>
          let s = s\<lparr>em_txQueue := q, numFramesSent := numFramesSent s + 1, numBytesSent := numBytesSent s + ef_byteLength frame\<rparr>
          in Inr (if isPauseFrame frame then s\<lparr>numPauseFramesSent := numPauseFramesSent s + 1\<rparr> else s))"

definition handleEndPausePeriod :: "simtime \<Rightarrow> 'a EtherMACBase_scheme \<Rightarrow> 'a EtherMACBase_scheme res" where
  "handleEndPausePeriod tm s =
     (if transmitState s \<noteq> PAUSE_STATE then Inl (RuntimeError ''At end of PAUSE not in PAUSE_STATE!'')
      else beginSendFrames tm s)"

definition initializeMACAddress :: "string \<Rightarrow> u32 \<Rightarrow> (MACAddress \<times> u32) res" where
  "initializeMACAddress addrstr autoAddressCtr =
     (if addrstr = ''auto'' then Inr (generateAutoAddress autoAddressCtr)
      else bindE (mac_setAddress addrstr 0) (\<lambda>a. Inr (a, autoAddressCtr)))"

text \<open>The interface the module registers, without its IPv6 interface token.\<close>

definition em_registerInterface :: "string \<Rightarrow> rat \<Rightarrow> MACAddress \<Rightarrow> int \<Rightarrow> InterfaceEntry" where
  "em_registerInterface fullName rate address mt =
     newInterfaceEntry\<lparr>if_name := filter isAlnum fullName, datarate := rate, macAddr := address, mtu := mt, multicast := True, broadcast := True\<rparr>"

definition emb_initialize :: "bool \<Rightarrow> bool \<Rightarrow> rat \<Rightarrow> MACAddress \<Rightarrow> bool \<Rightarrow> int \<Rightarrow> EtherMACBase" where
  "emb_initialize conn promiscuous rate address queue limit =
     \<lparr> em_connected = conn, em_disabled = False, em_promiscuous = promiscuous, em_address = address, em_txQueueLimit = limit,
       duplexMode = False, carrierExtension = False, frameBursting = False, txrate = rate, bitTime = 0, slotTime = 0,
       interFrameGap = 0, jamDuration = 0, shortestFrameDuration = 0, transmitState = TX_IDLE_STATE, receiveState = RX_IDLE_STATE,
       pauseUnitsRequested = 0, em_txQueue = [], em_queueModule = queue, endTxMsg = None, endIFGMsg = None, endPauseMsg = None,
       framesSentInBurst = 0, bytesSentInBurst = 0, numFramesSent = 0, numFramesReceivedOK = 0, numBytesSent = 0,
       numBytesReceivedOK = 0, numFramesFromHL = 0, em_numDroppedIfaceDown = 0, numDroppedBitError = 0, numDroppedNotForUs = 0,
       numFramesPassedToHL = 0, numPauseFramesRcvd = 0, numPauseFramesSent = 0,
       em_out = if queue then [RequestFrame] else [] \<rparr>"

text \<open>The events of the two modules: their self messages, a message from the upper layer, a signal from the line.\<close>

datatype MacEvent = EndTx | EndIFG | EndPause | EndRx | EndBackoff | EndJamming | EndAutoconfig
  | UpperIn "EtherFrame option" | NetIn simtime Signal

definition withPreamble :: "EtherFrame \<Rightarrow> EtherFrame" where
  "withPreamble frame = frame\<lparr>ef_byteLength := ef_byteLength frame + (PREAMBLE_BYTES + SFD_BYTES)\<rparr>"

definition countBurst :: "EtherFrame \<Rightarrow> 'a EtherMACBase_scheme \<Rightarrow> 'a EtherMACBase_scheme" where
  "countBurst frame s =
     (if frameBursting s then s\<lparr>bytesSentInBurst := ef_byteLength frame, framesSentInBurst := framesSentInBurst s + 1\<rparr> else s)"

section \<open>EtherMAC2\<close>

definition mac2_startFrameTransmission :: "simtime \<Rightarrow> EtherMACBase \<Rightarrow> EtherMACBase res" where
  "mac2_startFrameTransmission tm s =
     (case em_txQueue s of
        [] \<Rightarrow> Inl NullPointer
      | origFrame # _ \<Rightarrow>
          let frame = withPreamble origFrame;
              frame = (if mac_isUnspecified (ef_src frame) then frame\<lparr>ef_src := em_address s\<rparr> else frame)
          in bindE (scheduleEndTxPeriod tm frame (em_send (ToPhys (SigFrame frame False)) s)) (\<lambda>s.
             Inr (countBurst frame s)))"

definition mac2_processFrameFromUpperLayer :: "simtime \<Rightarrow> EtherFrame \<Rightarrow> EtherMACBase \<Rightarrow> EtherMACBase res" where
  "mac2_processFrameFromUpperLayer tm frame s =
     bindE (emb_processFrameFromUpperLayer frame s) (\<lambda>s.
     if transmitState s = TX_IDLE_STATE then mac2_startFrameTransmission tm s else Inr s)"

definition mac2_processMsgFromNetwork :: "simtime \<Rightarrow> simtime \<Rightarrow> Signal \<Rightarrow> EtherMACBase \<Rightarrow> EtherMACBase res" where
  "mac2_processMsgFromNetwork tm sentAt sig s =
     (case sig of
        SigFrame frame hasBitError \<Rightarrow>
          bindE (emb_processMsgFromNetwork tm sentAt sig s) (\<lambda>_.
          let (ok, s) = checkDestinationAddress frame s
          in if ok then frameReceptionComplete tm frame hasBitError s else Inr s)
      | _ \<Rightarrow> Inl (RuntimeError ''check_and_cast<EtherFrame>''))"

definition mac2_handleEndIFGPeriod :: "simtime \<Rightarrow> EtherMACBase \<Rightarrow> EtherMACBase res" where
  "mac2_handleEndIFGPeriod tm s = bindE (emb_handleEndIFGPeriod s) (mac2_startFrameTransmission tm)"

definition mac2_handleEndTxPeriod :: "simtime \<Rightarrow> EtherMACBase \<Rightarrow> EtherMACBase res" where
  "mac2_handleEndTxPeriod tm s =
     bindE (checkAndScheduleEndPausePeriod tm s) (\<lambda>(paused, s).
     if paused then Inr s else bindE (emb_handleEndTxPeriod s) (beginSendFrames tm))"

definition mac2_handleMessage :: "simtime \<Rightarrow> MacEvent \<Rightarrow> EtherMACBase \<Rightarrow> EtherMACBase res" where
  "mac2_handleMessage tm ev s =
     (if \<not> em_connected s then Inr (s\<lparr>em_numDroppedIfaceDown := em_numDroppedIfaceDown s + 1\<rparr>)
      else if em_disabled s then Inr s
      else case ev of
        EndTx \<Rightarrow> mac2_handleEndTxPeriod tm (s\<lparr>endTxMsg := None\<rparr>)
      | EndIFG \<Rightarrow> mac2_handleEndIFGPeriod tm (s\<lparr>endIFGMsg := None\<rparr>)
      | EndPause \<Rightarrow> handleEndPausePeriod tm (s\<lparr>endPauseMsg := None\<rparr>)
      | UpperIn frame \<Rightarrow>
          (case frame of None \<Rightarrow> Inl (RuntimeError ''check_and_cast<EtherFrame>'') | Some f \<Rightarrow> mac2_processFrameFromUpperLayer tm f s)
      | NetIn sentAt sig \<Rightarrow> mac2_processMsgFromNetwork tm sentAt sig s
      | _ \<Rightarrow> Inl (RuntimeError ''Unknown self message received!''))"

text \<open>\<open>rate\<close> is the data rate of the channel.\<close>

definition mac2_initialize :: "bool \<Rightarrow> bool \<Rightarrow> rat \<Rightarrow> MACAddress \<Rightarrow> bool \<Rightarrow> int \<Rightarrow> EtherMACBase res" where
  "mac2_initialize conn promiscuous rate address queue limit =
     (let s = emb_initialize conn promiscuous (if conn then rate else 0) address queue limit
      in bindE (calculateParameters (s\<lparr>duplexMode := True\<rparr>)) (beginSendFrames 0))"

section \<open>EtherMAC\<close>

text \<open>
  The parameters \<open>txrate\<close> and \<open>duplexEnabled\<close> of the module are kept for the end of the autoconfiguration.  That the
  channels of the line have no data rate of their own, which \<open>initialize\<close> checks, is left to the network.
\<close>

record EtherMAC = EtherMACBase +
  par_txrate :: rat
  par_duplexEnabled :: bool
  autoconfigInProgress :: bool
  lowestTxrateSuggested :: rat
  duplexVetoed :: bool
  backoffs :: int
  numConcurrentTransmissions :: int
  frameBeingReceived :: "(EtherFrame \<times> bool) option"
  endRxMsg :: "simtime option"
  endBackoffMsg :: "simtime option"
  endJammingMsg :: "simtime option"
  endAutoconfigMsg :: "simtime option"
  numCollisions :: int
  numBackoffs :: int

definition startAutoconfig :: "simtime \<Rightarrow> EtherMAC \<Rightarrow> EtherMAC" where
  "startAutoconfig tm s =
     (let s = s\<lparr>autoconfigInProgress := True, lowestTxrateSuggested := 0, duplexVetoed := False, txrate := 0, duplexMode := par_duplexEnabled s\<rparr>;
          s = (if \<not> par_duplexEnabled s \<or> par_txrate s > 0
               then em_send (ToPhys (SigAutoconfig (if par_txrate s > 0 then par_txrate s else 0) (\<not> par_duplexEnabled s))) s else s)
      in s\<lparr>endAutoconfigMsg := Some (tm + AUTOCONFIG_PERIOD)\<rparr>)"

definition em_initialize :: "bool \<Rightarrow> bool \<Rightarrow> rat \<Rightarrow> bool \<Rightarrow> MACAddress \<Rightarrow> bool \<Rightarrow> int \<Rightarrow> EtherMAC res" where
  "em_initialize conn promiscuous rate duplexEnabled address queue limit =
     (let s = EtherMACBase.extend (emb_initialize conn promiscuous rate address queue limit)
            (EtherMAC.fields rate duplexEnabled False 0 False 0 0 None None None None None 0 0)
      in if \<not> em_disabled s \<and> em_connected s then Inr (startAutoconfig 0 s)
         else calculateParameters (s\<lparr>duplexMode := duplexEnabled\<rparr>))"

definition em_processFrameFromUpperLayer :: "simtime \<Rightarrow> EtherFrame \<Rightarrow> EtherMAC \<Rightarrow> EtherMAC res" where
  "em_processFrameFromUpperLayer tm frame s =
     bindE (emb_processFrameFromUpperLayer frame s) (\<lambda>s.
     if \<not> autoconfigInProgress s \<and> (duplexMode s \<or> receiveState s = RX_IDLE_STATE) \<and> transmitState s = TX_IDLE_STATE
     then scheduleEndIFGPeriod tm s else Inr s)"

definition em_handleAutoconfigMessage :: "simtime \<Rightarrow> MacEvent \<Rightarrow> EtherMAC \<Rightarrow> EtherMAC res" where
  "em_handleAutoconfigMessage tm ev s =
     (case ev of
        UpperIn frame \<Rightarrow>
          (case frame of None \<Rightarrow> Inl (RuntimeError ''check_and_cast<EtherFrame>'') | Some f \<Rightarrow> em_processFrameFromUpperLayer tm f s)
      | NetIn sentAt sig \<Rightarrow>
          (case sig of
             SigAutoconfig acTxrate halfDuplex \<Rightarrow>
               let s = (if acTxrate > 0 \<and> (acTxrate < lowestTxrateSuggested s \<or> lowestTxrateSuggested s = 0)
                        then s\<lparr>lowestTxrateSuggested := acTxrate\<rparr> else s)
               in Inr (if \<not> duplexVetoed s \<and> halfDuplex then s\<lparr>duplexVetoed := True\<rparr> else s)
           | _ \<Rightarrow> Inl (RuntimeError ''check_and_cast<EtherAutoconfig>''))
      | _ \<Rightarrow>
          let s = s\<lparr>endAutoconfigMsg := None, autoconfigInProgress := False\<rparr>;
              rate = (if par_txrate s = 0 \<and> lowestTxrateSuggested s = 0 then 100000000
                      else if par_txrate s = 0 then lowestTxrateSuggested s
                      else if lowestTxrateSuggested s = 0 then par_txrate s
                      else if lowestTxrateSuggested s < par_txrate s then lowestTxrateSuggested s else par_txrate s)
          in bindE (calculateParameters (s\<lparr>txrate := rate, duplexMode := par_duplexEnabled s \<and> \<not> duplexVetoed s\<rparr>)) (\<lambda>s.
             if em_txQueue s \<noteq> [] then scheduleEndIFGPeriod tm s else Inr s))"

definition sendJamSignal :: "simtime \<Rightarrow> EtherMAC \<Rightarrow> EtherMAC res" where
  "sendJamSignal tm s =
     (if endJammingMsg s \<noteq> None then Inl TimerAlreadyScheduled
      else Inr ((em_send (ToPhys SigJam) s)\<lparr>endJammingMsg := Some (tm + jamDuration s), transmitState := JAMMING_STATE\<rparr>))"

definition em_schedule_rx :: "simtime \<Rightarrow> EtherMAC \<Rightarrow> EtherMAC res" where
  "em_schedule_rx t s = (if endRxMsg s \<noteq> None then Inl TimerAlreadyScheduled else Inr (s\<lparr>endRxMsg := Some t\<rparr>))"

definition scheduleEndRxPeriod :: "simtime \<Rightarrow> int \<Rightarrow> EtherMAC \<Rightarrow> EtherMAC res" where
  "scheduleEndRxPeriod tm bits s =
     bindE (em_schedule_rx (tm + of_int bits * bitTime s) s) (\<lambda>s. Inr (s\<lparr>receiveState := RECEIVING_STATE\<rparr>))"

definition em_startFrameTransmission :: "simtime \<Rightarrow> EtherMAC \<Rightarrow> EtherMAC res" where
  "em_startFrameTransmission tm s =
     (case em_txQueue s of
        [] \<Rightarrow> Inl NullPointer
      | origFrame # _ \<Rightarrow>
          let frame = withPreamble origFrame;
              s = countBurst frame (em_send (ToPhys (SigFrame frame False)) s)
          in if \<not> duplexMode s \<and> receiveState s \<noteq> RX_IDLE_STATE
             then bindE (sendJamSignal tm s) (\<lambda>s.
                  let s = (if receiveState s = RECEIVING_STATE then s\<lparr>frameBeingReceived := None, numCollisions := numCollisions s + 1\<rparr> else s)
                  in Inr (s\<lparr>receiveState := RX_COLLISION_STATE\<rparr>))
             else scheduleEndTxPeriod tm frame s)"

definition signalBits :: "Signal \<Rightarrow> int" where
  "signalBits sig = (case sig of SigFrame f _ \<Rightarrow> 8 * ef_byteLength f | SigJam \<Rightarrow> 8 * JAM_SIGNAL_BYTES | _ \<Rightarrow> 0)"

definition collide :: "simtime \<Rightarrow> simtime \<Rightarrow> Signal \<Rightarrow> EtherMAC \<Rightarrow> EtherMAC res" where
  "collide tm endRxTime sig s =
     (if sig = SigJam then Inl (RuntimeError ''Stray jam signal arrived while transmitting'')
      else bindE (sendJamSignal tm (s\<lparr>endTxMsg := None\<rparr>)) (\<lambda>s.
           let s = s\<lparr>receiveState := RX_COLLISION_STATE, numConcurrentTransmissions := numConcurrentTransmissions s + 1\<rparr>;
               endJamTime = tm + jamDuration s
           in bindE (em_schedule_rx (if endRxTime < endJamTime then endJamTime else endRxTime) s) (\<lambda>s.
              Inr (s\<lparr>numCollisions := numCollisions s + 1\<rparr>))))"

definition startReception :: "simtime \<Rightarrow> Signal \<Rightarrow> EtherMAC \<Rightarrow> EtherMAC res" where
  "startReception tm sig s =
     (case sig of
        SigFrame frame hasBitError \<Rightarrow>
          let s = s\<lparr>numConcurrentTransmissions := numConcurrentTransmissions s + 1\<rparr>
          in if frameBeingReceived s \<noteq> None then Inl (RuntimeError ''frameBeingReceived!=0 in RX_IDLE_STATE'')
             else scheduleEndRxPeriod tm (signalBits sig) (s\<lparr>frameBeingReceived := Some (frame, hasBitError)\<rparr>)
      | _ \<Rightarrow> Inl (RuntimeError ''Stray jam signal arrived''))"

definition completeReception :: "simtime \<Rightarrow> EtherMAC \<Rightarrow> EtherMAC res" where
  "completeReception tm s =
     (case frameBeingReceived s of
        None \<Rightarrow> Inl NullPointer
      | Some (frame, hasBitError) \<Rightarrow> frameReceptionComplete tm frame hasBitError (s\<lparr>frameBeingReceived := None\<rparr>))"

definition nextReception :: "simtime \<Rightarrow> EtherFrame \<Rightarrow> bool \<Rightarrow> EtherMAC \<Rightarrow> EtherMAC res" where
  "nextReception tm frame hasBitError s =
     bindE (completeReception tm (s\<lparr>endRxMsg := None\<rparr>)) (\<lambda>s.
     scheduleEndRxPeriod tm (8 * ef_byteLength frame) (s\<lparr>frameBeingReceived := Some (frame, hasBitError)\<rparr>))"

definition overlap :: "simtime \<Rightarrow> Signal \<Rightarrow> EtherMAC \<Rightarrow> EtherMAC res" where
  "overlap endRxTime sig s =
     (bindE (if sig = SigJam
                then (if numConcurrentTransmissions s \<le> 0 then Inl (RuntimeError ''numConcurrentTransmissions on jam arrival (stray jam?)'')
                      else let s = s\<lparr>numConcurrentTransmissions := numConcurrentTransmissions s - 1\<rparr>
                           in Inr (if numConcurrentTransmissions s = 0 then s\<lparr>endRxMsg := Some endRxTime\<rparr> else s))
                else let s = s\<lparr>numConcurrentTransmissions := numConcurrentTransmissions s + 1\<rparr>
                     in case endRxMsg s of
                          None \<Rightarrow> Inl NullPointer
                        | Some e \<Rightarrow> Inr (if e < endRxTime then s\<lparr>endRxMsg := Some endRxTime\<rparr> else s)) (\<lambda>s.
         let s = (if receiveState s = RECEIVING_STATE then s\<lparr>frameBeingReceived := None, numCollisions := numCollisions s + 1\<rparr> else s)
         in Inr (s\<lparr>receiveState := RX_COLLISION_STATE\<rparr>)))"

text \<open>
  \<open>getArrivalTime\<close> of a message that is scheduled is the time it is scheduled for.  Collisions are told from frames that
  follow each other within less than a bit time.
\<close>

definition backToBack :: "simtime \<Rightarrow> EtherMAC \<Rightarrow> bool" where
  "backToBack tm s \<longleftrightarrow> receiveState s = RECEIVING_STATE \<and> (case endRxMsg s of None \<Rightarrow> False | Some e \<Rightarrow> e - tm < bitTime s)"

definition em_processMsgFromNetwork :: "simtime \<Rightarrow> simtime \<Rightarrow> Signal \<Rightarrow> EtherMAC \<Rightarrow> EtherMAC res" where
  "em_processMsgFromNetwork tm sentAt sig s =
     bindE (emb_processMsgFromNetwork tm sentAt sig s) (\<lambda>_.
     let endRxTime = tm + of_int (signalBits sig) * bitTime s
     in if \<not> duplexMode s \<and> transmitState s = TRANSMITTING_STATE then collide tm endRxTime sig s
        else if receiveState s = RX_IDLE_STATE then startReception tm sig s
        else case sig of
          SigFrame frame hasBitError \<Rightarrow> if backToBack tm s then nextReception tm frame hasBitError s else overlap endRxTime sig s
        | _ \<Rightarrow> overlap endRxTime sig s)"

definition em_handleEndIFGPeriod :: "simtime \<Rightarrow> EtherMAC \<Rightarrow> EtherMAC res" where
  "em_handleEndIFGPeriod tm s = bindE (emb_handleEndIFGPeriod s) (\<lambda>s. em_startFrameTransmission tm (extendFront s))"

definition em_handleEndTxPeriod :: "simtime \<Rightarrow> EtherMAC \<Rightarrow> EtherMAC res" where
  "em_handleEndTxPeriod tm s =
     bindE (emb_handleEndTxPeriod s) (\<lambda>s.
     bindE (checkAndScheduleEndPausePeriod tm (s\<lparr>backoffs := 0\<rparr>)) (\<lambda>(paused, s).
     if paused then Inr s
     else if frameBursting s \<and> em_txQueue s \<noteq> [] \<and> bytesSentInBurst s < GIGABIT_MAX_BURST_BYTES then em_startFrameTransmission tm s
     else beginSendFrames tm s))"

definition em_handleEndRxPeriod :: "simtime \<Rightarrow> EtherMAC \<Rightarrow> EtherMAC res" where
  "em_handleEndRxPeriod tm s =
     bindE (if receiveState s = RECEIVING_STATE then completeReception tm s else Inr s) (\<lambda>s.
     let s = s\<lparr>receiveState := RX_IDLE_STATE, numConcurrentTransmissions := 0\<rparr>
     in if transmitState s = TX_IDLE_STATE \<and> em_txQueue s \<noteq> [] then scheduleEndIFGPeriod tm s else Inr s)"

definition em_handleEndBackoffPeriod :: "simtime \<Rightarrow> EtherMAC \<Rightarrow> EtherMAC res" where
  "em_handleEndBackoffPeriod tm s =
     (if transmitState s \<noteq> BACKOFF_STATE then Inl (RuntimeError ''At end of BACKOFF not in BACKOFF_STATE!'')
      else if em_txQueue s = [] then Inl (RuntimeError ''At end of BACKOFF and buffer empty!'')
      else if receiveState s = RX_IDLE_STATE then scheduleEndIFGPeriod tm s
      else Inr (s\<lparr>transmitState := TX_IDLE_STATE\<rparr>))"

text \<open>\<open>intuniform\<close> gives a random number up to its argument.\<close>

definition handleRetransmission :: "(int \<Rightarrow> int) \<Rightarrow> simtime \<Rightarrow> EtherMAC \<Rightarrow> EtherMAC res" where
  "handleRetransmission intuniform tm s =
     (let s = s\<lparr>backoffs := backoffs s + 1\<rparr>
      in if backoffs s > MAX_ATTEMPTS
         then (case em_txQueue s of
                 [] \<Rightarrow> Inl NullPointer
               | _ # q \<Rightarrow> Inr (s\<lparr>em_txQueue := q, transmitState := TX_IDLE_STATE, backoffs := 0\<rparr>))
         else let backoffrange = (if backoffs s \<ge> BACKOFF_RANGE_LIMIT then 1024 else 2 ^ nat (backoffs s));
                  slotNumber = intuniform (backoffrange - 1)
              in if endBackoffMsg s \<noteq> None then Inl TimerAlreadyScheduled
                 else Inr (s\<lparr>endBackoffMsg := Some (tm + of_int slotNumber * slotTime s), transmitState := BACKOFF_STATE,
                        numBackoffs := numBackoffs s + 1\<rparr>))"

definition em_handleEndJammingPeriod :: "(int \<Rightarrow> int) \<Rightarrow> simtime \<Rightarrow> EtherMAC \<Rightarrow> EtherMAC res" where
  "em_handleEndJammingPeriod intuniform tm s =
     (if transmitState s \<noteq> JAMMING_STATE then Inl (RuntimeError ''At end of JAMMING not in JAMMING_STATE!'')
      else handleRetransmission intuniform tm s)"

definition em_handleMessage :: "(int \<Rightarrow> int) \<Rightarrow> simtime \<Rightarrow> MacEvent \<Rightarrow> EtherMAC \<Rightarrow> EtherMAC res" where
  "em_handleMessage intuniform tm ev s =
     (if em_disabled s then Inr s
      else if autoconfigInProgress s then em_handleAutoconfigMessage tm ev s
      else if \<not> duplexMode s \<and> transmitState s = TRANSMITTING_STATE \<and> receiveState s \<noteq> RX_IDLE_STATE
      then Inl (RuntimeError ''Inconsistent state -- transmitting and receiving at the same time'')
      else case ev of
        UpperIn frame \<Rightarrow>
          (case frame of None \<Rightarrow> Inl (RuntimeError ''check_and_cast<EtherFrame>'') | Some f \<Rightarrow> em_processFrameFromUpperLayer tm f s)
      | NetIn sentAt sig \<Rightarrow> em_processMsgFromNetwork tm sentAt sig s
      | EndIFG \<Rightarrow> em_handleEndIFGPeriod tm (s\<lparr>endIFGMsg := None\<rparr>)
      | EndTx \<Rightarrow> em_handleEndTxPeriod tm (s\<lparr>endTxMsg := None\<rparr>)
      | EndRx \<Rightarrow> em_handleEndRxPeriod tm (s\<lparr>endRxMsg := None\<rparr>)
      | EndBackoff \<Rightarrow> em_handleEndBackoffPeriod tm (s\<lparr>endBackoffMsg := None\<rparr>)
      | EndJamming \<Rightarrow> em_handleEndJammingPeriod intuniform tm (s\<lparr>endJammingMsg := None\<rparr>)
      | EndPause \<Rightarrow> handleEndPausePeriod tm (s\<lparr>endPauseMsg := None\<rparr>)
      | EndAutoconfig \<Rightarrow> Inl (RuntimeError ''self-message with unexpected message kind''))"

end
