(* ===== verification/Ether_Order.thy ===== *)
theory Ether_Order
  imports Ether_Duplex
begin

text \<open>
  What \<open>EtherMAC2\<close> transmits: every frame it accepts, in order, and only once unless a PAUSE frame arrives; and what
  PAUSE frames do to it.
\<close>

section \<open>Frames on the line\<close>

definition sent :: "'a EtherMACBase_scheme \<Rightarrow> EtherFrame list" where
  "sent s = concat (map (\<lambda>out. case out of ToPhys (SigFrame f _) \<Rightarrow> [f] | _ \<Rightarrow> []) (em_out s))"

definition lineFrame :: "MACAddress \<Rightarrow> EtherFrame \<Rightarrow> EtherFrame" where
  "lineFrame a f = fillSrc a (withPreamble f)"

definition accepted :: "MacEvent list \<Rightarrow> EtherFrame list" where
  "accepted evs = concat (map (\<lambda>ev. case ev of UpperIn (Some f) \<Rightarrow> [f] | _ \<Rightarrow> []) evs)"

lemma accepted_snoc [simp]: "accepted [] = []"
  "accepted (evs @ [ev]) = accepted evs @ (case ev of UpperIn (Some f) \<Rightarrow> [f] | _ \<Rightarrow> [])"
  by (simp_all add: accepted_def)

lemma lineFrame_fillSrc [simp]: "lineFrame a (fillSrc a f) = lineFrame a f"
  by (cases "mac_isUnspecified a") (auto simp: lineFrame_def fillSrc_def withPreamble_def)

text \<open>
  The accepted frames are those that have left the queue and those in it.  Of the former \<open>n\<close> copies each have been sent, of
  the frame at the front of the queue \<open>k\<close>.
\<close>

definition in_order :: "MACAddress \<Rightarrow> EtherFrame list \<Rightarrow> EtherFrame list \<Rightarrow> EtherFrame list \<Rightarrow> TxState \<Rightarrow> int \<Rightarrow> int \<Rightarrow> bool" where
  "in_order a acc q out st rcvd req \<longleftrightarrow>
     (\<exists>dn ns k. map (fillSrc a) acc = dn @ q \<and> length ns = length dn \<and> (\<forall>n \<in> set ns. 1 \<le> n) \<and>
        out = concat (map2 (\<lambda>n f. replicate n (lineFrame a f)) ns dn) @ replicate k (lineFrame a (hd q)) \<and>
        (q = [] \<longrightarrow> k = 0) \<and> (st = TRANSMITTING_STATE \<longrightarrow> 1 \<le> k) \<and> 0 \<le> rcvd \<and>
        (rcvd = 0 \<longrightarrow> req = 0 \<and> (\<forall>n \<in> set ns. n = 1) \<and> k = (if st = TRANSMITTING_STATE then 1 else 0)))"

lemma in_order_start: "in_order a [] [] [] TX_IDLE_STATE 0 0"
  by (auto simp: in_order_def)

lemma in_order_accept:
  assumes "in_order a acc q out st rcvd req" "q = [] \<longrightarrow> st \<noteq> TRANSMITTING_STATE"
  shows "in_order a (acc @ [f]) (q @ [fillSrc a f]) out st rcvd req"
proof -
  from assms(1) obtain dn ns k where d: "map (fillSrc a) acc = dn @ q" "length ns = length dn" "\<forall>n \<in> set ns. 1 \<le> n"
      "out = concat (map2 (\<lambda>n f. replicate n (lineFrame a f)) ns dn) @ replicate k (lineFrame a (hd q))"
      "q = [] \<longrightarrow> k = 0" "st = TRANSMITTING_STATE \<longrightarrow> 1 \<le> k" "0 \<le> rcvd"
      "rcvd = 0 \<longrightarrow> req = 0 \<and> (\<forall>n \<in> set ns. n = 1) \<and> k = (if st = TRANSMITTING_STATE then 1 else 0)"
    unfolding in_order_def by blast
  then have "replicate k (lineFrame a (hd (q @ [fillSrc a f]))) = replicate k (lineFrame a (hd q))" by (cases q) auto
  then show ?thesis unfolding in_order_def using d by (intro exI [of _ dn] exI [of _ ns] exI [of _ k]) auto
qed

lemma in_order_transmit:
  assumes "in_order a acc q out st rcvd req" "q \<noteq> []" "st \<noteq> TRANSMITTING_STATE"
  shows "in_order a acc q (out @ [lineFrame a (hd q)]) TRANSMITTING_STATE rcvd req"
proof -
  from assms(1) obtain dn ns k where d: "map (fillSrc a) acc = dn @ q" "length ns = length dn" "\<forall>n \<in> set ns. 1 \<le> n"
      "out = concat (map2 (\<lambda>n f. replicate n (lineFrame a f)) ns dn) @ replicate k (lineFrame a (hd q))" "0 \<le> rcvd"
      "rcvd = 0 \<longrightarrow> req = 0 \<and> (\<forall>n \<in> set ns. n = 1) \<and> k = (if st = TRANSMITTING_STATE then 1 else 0)"
    unfolding in_order_def by blast
  have "replicate k y @ [y] = replicate (Suc k) y" for y :: EtherFrame by (simp add: replicate_append_same)
  then show ?thesis unfolding in_order_def using d assms(2,3)
    by (intro exI [of _ dn] exI [of _ ns] exI [of _ "Suc k"]) simp
qed

lemma in_order_finish:
  assumes "in_order a acc (f # q) out TRANSMITTING_STATE rcvd req" "st \<noteq> TRANSMITTING_STATE"
  shows "in_order a acc q out st rcvd req"
proof -
  from assms(1) obtain dn ns k where d: "map (fillSrc a) acc = dn @ f # q" "length ns = length dn" "\<forall>n \<in> set ns. 1 \<le> n"
      "out = concat (map2 (\<lambda>n f. replicate n (lineFrame a f)) ns dn) @ replicate k (lineFrame a f)" "1 \<le> k" "0 \<le> rcvd"
      "rcvd = 0 \<longrightarrow> req = 0 \<and> (\<forall>n \<in> set ns. n = 1) \<and> k = 1"
    unfolding in_order_def by auto
  then show ?thesis unfolding in_order_def using assms(2)
    by (intro exI [of _ "dn @ [f]"] exI [of _ "ns @ [k]"] exI [of _ 0]) auto
qed

lemma in_order_change:
  assumes "in_order a acc q out st rcvd req" "st' \<noteq> TRANSMITTING_STATE \<or> st' = st"
    "rcvd' = rcvd \<and> req' = req \<and> (rcvd = 0 \<longrightarrow> st \<noteq> TRANSMITTING_STATE \<or> st' = st) \<or> 0 < rcvd'"
  shows "in_order a acc q out st' rcvd' req'"
proof -
  from assms(1) obtain dn ns k where d: "map (fillSrc a) acc = dn @ q" "length ns = length dn" "\<forall>n \<in> set ns. 1 \<le> n"
      "out = concat (map2 (\<lambda>n f. replicate n (lineFrame a f)) ns dn) @ replicate k (lineFrame a (hd q))"
      "q = [] \<longrightarrow> k = 0" "st = TRANSMITTING_STATE \<longrightarrow> 1 \<le> k" "0 \<le> rcvd"
      "rcvd = 0 \<longrightarrow> req = 0 \<and> (\<forall>n \<in> set ns. n = 1) \<and> k = (if st = TRANSMITTING_STATE then 1 else 0)"
    unfolding in_order_def by blast
  then show ?thesis unfolding in_order_def using assms(2,3)
    by (intro exI [of _ dn] exI [of _ ns] exI [of _ k]) auto
qed

section \<open>The handlers\<close>

definition ordered :: "MACAddress \<Rightarrow> EtherFrame list \<Rightarrow> EtherMACBase \<Rightarrow> bool" where
  "ordered a acc s \<longleftrightarrow> em_address s = a \<and>
     in_order a acc (em_txQueue s) (sent s) (transmitState s) (numPauseFramesRcvd s) (pauseUnitsRequested s)"

lemma start2_ordered:
  assumes "mac2_startFrameTransmission tm s = Inr s'" "ordered a acc s" "transmitState s \<noteq> TRANSMITTING_STATE"
  shows "ordered a acc s'"
proof -
  from assms(1) obtain f q where q: "em_txQueue s = f # q" by (cases "em_txQueue s") (auto simp: mac2_startFrameTransmission_def)
  from assms(1) have "em_txQueue s' = em_txQueue s \<and> sent s' = sent s @ [lineFrame (em_address s) f] \<and> transmitState s' = TRANSMITTING_STATE \<and>
      numPauseFramesRcvd s' = numPauseFramesRcvd s \<and> pauseUnitsRequested s' = pauseUnitsRequested s \<and> em_address s' = em_address s"
    by (auto simp: mac2_startFrameTransmission_def q schedule_defs sent_def lineFrame_def fillSrc_def Let_def split: if_splits)
  then show ?thesis using in_order_transmit [of a acc "em_txQueue s"] assms(2,3) q by (auto simp: ordered_def)
qed

lemma begin2_ordered:
  assumes "beginSendFrames tm s = Inr s'" "em_address s = a"
    "in_order a acc (em_txQueue s) (sent s) WAIT_IFG_STATE (numPauseFramesRcvd s) (pauseUnitsRequested s)"
  shows "ordered a acc s'"
proof -
  from assms(1) have "em_txQueue s' = em_txQueue s \<and> sent s' = sent s \<and> transmitState s' \<noteq> TRANSMITTING_STATE \<and>
      numPauseFramesRcvd s' = numPauseFramesRcvd s \<and> pauseUnitsRequested s' = pauseUnitsRequested s \<and> em_address s' = em_address s"
    by (auto simp: beginSendFrames_def schedule_defs sent_def Let_def split: if_splits)
  then show ?thesis using in_order_change [OF assms(3), of "transmitState s'" "numPauseFramesRcvd s'" "pauseUnitsRequested s'"] assms(2)
    by (auto simp: ordered_def)
qed

lemma EndTx_ordered:
  assumes "mac2_ok s" "endTxMsg s = Some tm" "mac2_handleMessage tm EndTx s = Inr s'" "ordered a acc s"
  shows "ordered a acc s'"
proof (cases "pauseUnitsRequested s > 0")
  case True
  have o: "in_order a acc (em_txQueue s) (sent s) (transmitState s) (numPauseFramesRcvd s) (pauseUnitsRequested s)"
    using assms(4) by (simp add: ordered_def)
  with True have r: "0 < numPauseFramesRcvd s" unfolding in_order_def by (metis less_irrefl order_le_imp_less_or_eq)
  from assms(1,3) True have "em_txQueue s' = em_txQueue s \<and> sent s' = sent s \<and> transmitState s' = PAUSE_STATE \<and>
      numPauseFramesRcvd s' = numPauseFramesRcvd s \<and> em_address s' = em_address s"
    by (auto simp: mac2_handleMessage_def mac2_handleEndTxPeriod_def checkAndScheduleEndPausePeriod_def mac2_ok_def schedule_defs sent_def
        split: if_splits)
  then show ?thesis using in_order_change [OF o, of PAUSE_STATE "numPauseFramesRcvd s'" "pauseUnitsRequested s'"] r assms(4)
    by (auto simp: ordered_def)
next
  case False
  let ?s = "s\<lparr>endTxMsg := None\<rparr>"
  have st: "transmitState s = TRANSMITTING_STATE" "duplexMode s" "em_connected s" "\<not> em_disabled s"
    using assms(1,2) by (auto simp: mac2_ok_def)
  obtain f q where q: "em_txQueue s = f # q" using assms(1) st(1) by (cases "em_txQueue s") (auto simp: mac2_ok_def)
  obtain s1 where s1: "emb_handleEndTxPeriod ?s = Inr s1" "em_txQueue s1 = q" "sent s1 = sent s"
      "numPauseFramesRcvd s1 = numPauseFramesRcvd s" "pauseUnitsRequested s1 = pauseUnitsRequested s" "em_address s1 = em_address s"
    using st q by (simp add: emb_handleEndTxPeriod_def sent_def Let_def)
  have "beginSendFrames tm s1 = Inr s'"
    using assms(3) st s1(1) False by (simp add: mac2_handleMessage_def mac2_handleEndTxPeriod_def checkAndScheduleEndPausePeriod_def)
  then show ?thesis using begin2_ordered [of tm s1 s' a acc] in_order_finish [of a acc f q] assms(4) st q s1
    by (simp add: ordered_def)
qed

lemma EndIFG_ordered:
  assumes "mac2_ok s" "endIFGMsg s = Some tm" "mac2_handleMessage tm EndIFG s = Inr s'" "ordered a acc s"
  shows "ordered a acc s'"
proof -
  let ?s = "s\<lparr>endIFGMsg := None\<rparr>"
  have st: "transmitState s = WAIT_IFG_STATE" "em_connected s" "\<not> em_disabled s" "\<not> carrierExtension s" "em_txQueue s \<noteq> []"
    using assms(1,2) by (auto simp: mac2_ok_def)
  have x: "extendFront ?s = ?s" using st by (simp add: extendFront_def split: list.splits)
  obtain s1 where s1: "emb_handleEndIFGPeriod ?s = Inr s1" "em_txQueue s1 = em_txQueue s" "sent s1 = sent s" "transmitState s1 = transmitState s"
      "numPauseFramesRcvd s1 = numPauseFramesRcvd s" "pauseUnitsRequested s1 = pauseUnitsRequested s" "em_address s1 = em_address s"
    using st x by (simp add: emb_handleEndIFGPeriod_def sent_def Let_def)
  have "mac2_startFrameTransmission tm s1 = Inr s'"
    using assms(3) st s1(1) by (simp add: mac2_handleMessage_def mac2_handleEndIFGPeriod_def)
  moreover have "ordered a acc s1" using assms(4) s1 by (simp add: ordered_def)
  ultimately show ?thesis using start2_ordered s1(4) st(1) by simp
qed

lemma EndPause_ordered:
  assumes "mac2_ok s" "endPauseMsg s = Some tm" "mac2_handleMessage tm EndPause s = Inr s'" "ordered a acc s"
  shows "ordered a acc s'"
proof -
  have st: "transmitState s = PAUSE_STATE" "em_connected s" "\<not> em_disabled s" using assms(1,2) by (auto simp: mac2_ok_def)
  have "in_order a acc (em_txQueue s) (sent s) (transmitState s) (numPauseFramesRcvd s) (pauseUnitsRequested s)"
    using assms(4) by (simp add: ordered_def)
  from in_order_change [OF this, of WAIT_IFG_STATE] st
  have "in_order a acc (em_txQueue s) (sent s) WAIT_IFG_STATE (numPauseFramesRcvd s) (pauseUnitsRequested s)" by simp
  moreover have "beginSendFrames tm (s\<lparr>endPauseMsg := None\<rparr>) = Inr s'"
    using assms(3) st by (simp add: mac2_handleMessage_def handleEndPausePeriod_def)
  ultimately show ?thesis using begin2_ordered [of tm "s\<lparr>endPauseMsg := None\<rparr>" s' a acc] assms(4) by (simp add: ordered_def sent_def)
qed

lemma upper_ordered:
  assumes "mac2_ok s" "mac2_handleMessage tm (UpperIn (Some f)) s = Inr s'" "\<not> isPauseFrame f" "ordered a acc s"
  shows "ordered a (acc @ [f]) s'"
proof -
  from assms(1,2) obtain s1 where g: "emb_processFrameFromUpperLayer f s = Inr s1"
    "(if transmitState s1 = TX_IDLE_STATE then mac2_startFrameTransmission tm s1 else Inr s1) = Inr s'"
    by (auto simp: mac2_ok_def mac2_handleMessage_def mac2_processFrameFromUpperLayer_def bindE_eq_Inr)
  obtain n where s1: "s1 = s\<lparr>em_txQueue := em_txQueue s @ [fillSrc (em_address s) f], numFramesFromHL := n\<rparr>"
    using upper_effect [OF g(1)] assms(3) by metis
  have "em_txQueue s = [] \<longrightarrow> transmitState s \<noteq> TRANSMITTING_STATE" using assms(1) by (auto simp: mac2_ok_def)
  then have "ordered a (acc @ [f]) s1" using in_order_accept [of a acc "em_txQueue s"] assms(4) by (auto simp: ordered_def s1 sent_def)
  then show ?thesis using g(2) start2_ordered [of tm s1 s' a "acc @ [f]"] by (auto split: if_splits)
qed

lemma pause_effect:
  assumes "processPauseCommand tm n s = Inr s'"
  shows "em_txQueue s' = em_txQueue s \<and> sent s' = sent s \<and> em_address s' = em_address s \<and> numPauseFramesRcvd s' = numPauseFramesRcvd s \<and>
    (transmitState s' \<noteq> TRANSMITTING_STATE \<or> transmitState s' = transmitState s)"
  using assms by (auto simp: processPauseCommand_def schedule_defs sent_def Let_def split: if_splits)

lemma data_effect:
  "em_txQueue (processReceivedDataFrame f e s) = em_txQueue s \<and> sent (processReceivedDataFrame f e s) = sent s \<and>
   em_address (processReceivedDataFrame f e s) = em_address s \<and> transmitState (processReceivedDataFrame f e s) = transmitState s \<and>
   numPauseFramesRcvd (processReceivedDataFrame f e s) = numPauseFramesRcvd s \<and>
   pauseUnitsRequested (processReceivedDataFrame f e s) = pauseUnitsRequested s"
  by (simp add: processReceivedDataFrame_def checkDestinationAddress_def em_send_def sent_def Let_def)

lemma net_ordered:
  assumes ok: "mac2_ok s" and h: "mac2_handleMessage tm (NetIn t sig) s = Inr s'" and ord: "ordered a acc s"
  shows "ordered a acc s'"
proof -
  from h ok obtain f e where f: "sig = SigFrame f e"
    "(let (ok, s) = checkDestinationAddress f s in if ok then frameReceptionComplete tm f e s else Inr s) = Inr s'"
    by (auto simp: mac2_handleMessage_def mac2_ok_def mac2_processMsgFromNetwork_def bindE_eq_Inr split: Signal.splits)
  obtain b s1 where c: "checkDestinationAddress f s = (b, s1)" by fastforce
  then have s1: "ordered a acc s1" using ord by (auto simp: checkDestinationAddress_def ordered_def sent_def split: if_splits)
  show ?thesis
  proof (cases "b \<and> isPauseFrame f")
    case True
    let ?s = "s1\<lparr>numPauseFramesRcvd := numPauseFramesRcvd s1 + 1\<rparr>"
    from True f(2) c obtain n where n: "processPauseCommand tm n ?s = Inr s'"
      by (auto simp: frameReceptionComplete_def isPauseFrame_def split: EtherKind.splits)
    have r: "0 < numPauseFramesRcvd s'" using pause_effect [OF n] s1 by (auto simp: ordered_def in_order_def)
    from s1 have "in_order a acc (em_txQueue s1) (sent s1) (transmitState s1) (numPauseFramesRcvd s1) (pauseUnitsRequested s1)"
      by (simp add: ordered_def)
    from in_order_change [OF this, of "transmitState s'" "numPauseFramesRcvd s'" "pauseUnitsRequested s'"] r pause_effect [OF n] s1
    show ?thesis by (simp add: ordered_def sent_def)
  next
    case False
    then have "s' = s1 \<or> s' = processReceivedDataFrame f e s1" using f(2) c
      by (auto simp: frameReceptionComplete_def isPauseFrame_def split: if_splits EtherKind.splits)
    then show ?thesis using s1 by (auto simp: ordered_def data_effect)
  qed
qed

lemma mac2_run_ordered:
  assumes "mac_run mac2_handleMessage mac2_due s0 evs s" "mac2_ok s0" "ordered a [] s0" "\<forall>f \<in> set (accepted evs). \<not> isPauseFrame f"
  shows "ordered a (accepted evs) s"
  using assms
proof (induction rule: mac_run.induct)
  case mac_start
  then show ?case by simp
next
  case (mac_step evs s ev tm s')
  have ok: "mac2_ok s" using mac2.reaches_inv [OF mac_step.hyps(1) mac_step.prems(1)] .
  have o: "ordered a (accepted evs) s" using mac_step.IH mac_step.prems by simp
  show ?case
  proof (cases ev)
    case (UpperIn f)
    then obtain g where "f = Some g" using mac_step.hyps(3) ok by (cases f) (auto simp: mac2_handleMessage_def mac2_ok_def)
    with UpperIn show ?thesis using upper_ordered [OF ok _ _ o] mac_step by simp
  next
    case (NetIn t sig)
    then show ?thesis using net_ordered [OF ok _ o] mac_step.hyps(3) by simp
  next
    case EndTx
    then show ?thesis using EndTx_ordered [OF ok _ _ o] mac_step.hyps by (simp add: external_def mac2_due_def)
  next
    case EndIFG
    then show ?thesis using EndIFG_ordered [OF ok _ _ o] mac_step.hyps by (simp add: external_def mac2_due_def)
  next
    case EndPause
    then show ?thesis using EndPause_ordered [OF ok _ _ o] mac_step.hyps by (simp add: external_def mac2_due_def)
  qed (use mac_step.hyps in \<open>simp_all add: external_def mac2_due_def\<close>)
qed

lemma mac2_initial:
  assumes "mac2_initialize True promiscuous rate a queue limit = Inr s"
  shows "mac2_ok s \<and> ordered a [] s"
  using assms in_order_start [of a]
  by (auto simp: mac2_initialize_def emb_initialize_def bindE_eq_Inr beginSendFrames_def em_send_def calculateParameters_def mac2_ok_def
      ordered_def sent_def Let_def split: if_splits)

section \<open>Properties\<close>

lemma copies_fillSrc: "map2 (\<lambda>n f. replicate n (lineFrame a f)) ns (map (fillSrc a) xs) = map2 (\<lambda>n f. replicate n (lineFrame a f)) ns xs"
  by (induction ns arbitrary: xs) (auto simp: zip_Cons1 split: list.splits)

lemma copies_once: "\<forall>n \<in> set ns. n = (1::nat) \<Longrightarrow> length ns \<le> length xs \<Longrightarrow>
    concat (map2 (\<lambda>n f. replicate n (g f)) ns xs) = map g (take (length ns) xs)"
  by (induction ns arbitrary: xs) (auto simp: zip_Cons1 split: list.splits)

lemma in_order_copies:
  assumes "in_order a acc q out st rcvd req"
  obtains ns where "length ns \<le> length acc" "\<forall>n \<in> set ns. 1 \<le> n" "out = concat (map2 (\<lambda>n f. replicate n (lineFrame a f)) ns acc)"
    "rcvd = 0 \<longrightarrow> (\<forall>n \<in> set ns. n = 1)" "q = [] \<longrightarrow> length ns = length acc"
proof -
  from assms obtain dn ns k where d: "map (fillSrc a) acc = dn @ q" "length ns = length dn" "\<forall>n \<in> set ns. 1 \<le> n"
      "out = concat (map2 (\<lambda>n f. replicate n (lineFrame a f)) ns dn) @ replicate k (lineFrame a (hd q))"
      "q = [] \<longrightarrow> k = 0" "rcvd = 0 \<longrightarrow> (\<forall>n \<in> set ns. n = 1) \<and> k \<le> 1"
    unfolding in_order_def by (metis order_refl zero_le)
  define ms where "ms = ns @ (if k = 0 then [] else [k])"
  have l: "length acc = length dn + length q" using arg_cong [OF d(1), of length] by simp
  have m: "out = concat (map2 (\<lambda>n f. replicate n (lineFrame a f)) ms (dn @ q))"
    using d(2,4,5) by (cases q) (auto simp: ms_def)
  then have o: "out = concat (map2 (\<lambda>n f. replicate n (lineFrame a f)) ms acc)" by (simp only: d(1) [symmetric] copies_fillSrc)
  have "length ms \<le> length acc" "\<forall>n \<in> set ms. 1 \<le> n" "rcvd = 0 \<longrightarrow> (\<forall>n \<in> set ms. n = 1)" "q = [] \<longrightarrow> length ms = length acc"
    using d(2,3,5,6) l by (auto simp: ms_def Suc_le_eq le_Suc_eq)
  with o show thesis using that by blast
qed

text \<open>
  Property C16: a full duplex Ethernet interface (\<open>EtherMAC2\<close>) to which the upper layer gives no PAUSE frames transmits the frames that
  it accepts in order, without leaving one out; a frame is transmitted more than once only if PAUSE frames have been received, and
  when the transmitter is idle every frame has been transmitted.  No timer finds the module in a wrong state.
\<close>

theorem mac2_in_order:
  assumes init: "mac2_initialize True promiscuous rate a queue limit = Inr s0" and run: "mac_run mac2_handleMessage mac2_due s0 evs s"
    and data: "\<forall>f \<in> set (accepted evs). \<not> isPauseFrame f"
  shows "\<exists>ns. length ns \<le> length (accepted evs) \<and> (\<forall>n \<in> set ns. 1 \<le> n) \<and>
      sent s = concat (map2 (\<lambda>n f. replicate n (lineFrame a f)) ns (accepted evs)) \<and>
      (numPauseFramesRcvd s = 0 \<longrightarrow> sent s = map (lineFrame a) (take (length ns) (accepted evs))) \<and>
      (transmitState s = TX_IDLE_STATE \<longrightarrow> length ns = length (accepted evs)) \<and>
      (\<forall>ev tm. mac2_due s ev = Some tm \<longrightarrow> (\<exists>s'. mac2_handleMessage tm ev s = Inr s'))"
proof -
  note i = mac2_initial [OF init]
  have ok: "mac2_ok s" using mac2.reaches_inv [OF run] i by blast
  have "ordered a (accepted evs) s" using mac2_run_ordered [OF run] i data by blast
  then obtain ns where ns: "length ns \<le> length (accepted evs)" "\<forall>n \<in> set ns. 1 \<le> n"
      "sent s = concat (map2 (\<lambda>n f. replicate n (lineFrame a f)) ns (accepted evs))"
      "numPauseFramesRcvd s = 0 \<longrightarrow> (\<forall>n \<in> set ns. n = 1)" "em_txQueue s = [] \<longrightarrow> length ns = length (accepted evs)"
    unfolding ordered_def using in_order_copies by metis
  have "transmitState s = TX_IDLE_STATE \<longrightarrow> em_txQueue s = []" using ok by (simp add: mac2_ok_def)
  moreover have "\<forall>ev tm. mac2_due s ev = Some tm \<longrightarrow> (\<exists>s'. mac2_handleMessage tm ev s = Inr s')" using mac2_timer [OF ok] by blast
  moreover have "numPauseFramesRcvd s = 0 \<longrightarrow> sent s = map (lineFrame a) (take (length ns) (accepted evs))"
    using copies_once [of ns "accepted evs" "lineFrame a"] ns(1,3,4) by simp
  ultimately show ?thesis using ns by (intro exI [of _ ns]) simp
qed

lemma pause_received:
  assumes "mac2_ok s" "ef_kind p = EtherPauseFrame n" "fst (checkDestinationAddress p s)"
  shows "mac2_handleMessage tm (NetIn t (SigFrame p e)) s = processPauseCommand tm n (s\<lparr>numPauseFramesRcvd := numPauseFramesRcvd s + 1\<rparr>)"
  using assms by (auto simp: mac2_handleMessage_def mac2_ok_def mac2_processMsgFromNetwork_def emb_processMsgFromNetwork_def
      checkDestinationAddress_def frameReceptionComplete_def split: if_splits)

text \<open>
  Property C39: a PAUSE frame that arrives during a transmission makes the module transmit the frame a second time: at the end of the
  transmission it goes into the pause without taking the frame out of the queue.
\<close>

theorem mac2_pause_resends:
  assumes init: "mac2_initialize True promiscuous rate a queue limit = Inr s0" and run: "mac_run mac2_handleMessage mac2_due s0 evs s"
    and data: "\<forall>f \<in> set (accepted evs). \<not> isPauseFrame f" and tx: "endTxMsg s = Some te"
    and pause: "ef_kind p = EtherPauseFrame n" "0 < n" "fst (checkDestinationAddress p s)"
  shows "\<exists>f q s1 s2 s3 s4 tp ti. em_txQueue s = f # q \<and> last (sent s) = lineFrame a f \<and>
      mac2_handleMessage tm (NetIn t (SigFrame p e)) s = Inr s1 \<and> mac2_handleMessage te EndTx s1 = Inr s2 \<and>
      endPauseMsg s2 = Some tp \<and> mac2_handleMessage tp EndPause s2 = Inr s3 \<and>
      endIFGMsg s3 = Some ti \<and> mac2_handleMessage ti EndIFG s3 = Inr s4 \<and> sent s4 = sent s @ [lineFrame a f]"
proof -
  note i = mac2_initial [OF init]
  have ok: "mac2_ok s" using mac2.reaches_inv [OF run] i by blast
  have o: "ordered a (accepted evs) s" using mac2_run_ordered [OF run] i data by blast
  have st: "transmitState s = TRANSMITTING_STATE" "em_connected s" "\<not> em_disabled s" "\<not> carrierExtension s" "endIFGMsg s = None" "endPauseMsg s = None"
    "em_txQueue s \<noteq> []" using ok tx by (auto simp: mac2_ok_def)
  then obtain f q where q: "em_txQueue s = f # q" by (cases "em_txQueue s") auto
  have l: "last (sent s) = lineFrame a f" using o st(1) q by (fastforce simp: ordered_def in_order_def)
  define s1 where "s1 = s\<lparr>numPauseFramesRcvd := numPauseFramesRcvd s + 1, pauseUnitsRequested := n\<rparr>"
  have 1: "mac2_handleMessage tm (NetIn t (SigFrame p e)) s = Inr s1"
    by (simp add: pause_received [OF ok pause(1,3)] processPauseCommand_def st s1_def)
  define tp where "tp = te + of_int (c_int (n * PAUSE_BITTIME)) * bitTime s"
  define s2 where "s2 = s1\<lparr>endTxMsg := None, endPauseMsg := Some tp, transmitState := PAUSE_STATE, pauseUnitsRequested := 0\<rparr>"
  have 2: "mac2_handleMessage te EndTx s1 = Inr s2"
    using pause(2) st by (simp add: mac2_handleMessage_def mac2_handleEndTxPeriod_def checkAndScheduleEndPausePeriod_def schedule_defs s1_def s2_def tp_def)
  define s3 where "s3 = s2\<lparr>endPauseMsg := None, endIFGMsg := Some (tp + interFrameGap s), transmitState := WAIT_IFG_STATE\<rparr>"
  have 3: "mac2_handleMessage tp EndPause s2 = Inr s3"
    using st q by (simp add: mac2_handleMessage_def handleEndPausePeriod_def beginSendFrames_def schedule_defs s1_def s2_def s3_def)
  have a: "em_address s3 = a" "sent s3 = sent s" "em_txQueue s3 = f # q" "endPauseMsg s2 = Some tp" "endIFGMsg s3 = Some (tp + interFrameGap s)"
    using o q by (simp_all add: ordered_def s3_def s2_def s1_def sent_def)
  have ok3: "mac2_ok s3"
    using ok mac2_net_ok [OF ok 1] mac2_timer_EndTx [of s1 te] mac2_timer_EndPause [of s2 tp] 1 2 3 a tx by (simp add: s1_def)
  obtain s4 where 4: "mac2_handleMessage (tp + interFrameGap s) EndIFG s3 = Inr s4" using mac2_timer_EndIFG [OF ok3 a(5)] by blast
  have "sent s4 = sent s @ [lineFrame a f]"
    using 4 st a by (auto simp: mac2_handleMessage_def mac2_handleEndIFGPeriod_def emb_handleEndIFGPeriod_def extendFront_def bindE_eq_Inr
        mac2_startFrameTransmission_def schedule_defs lineFrame_def fillSrc_def sent_def s3_def s2_def s1_def Let_def split: if_splits)
  then show ?thesis using q l 1 2 3 4 a by blast
qed

text \<open>A transmitter that is paused and has no timer.\<close>

definition stuck :: "EtherMACBase \<Rightarrow> bool" where
  "stuck s \<longleftrightarrow> mac2_ok s \<and> transmitState s = PAUSE_STATE \<and> endPauseMsg s = None"

definition pausing :: "MacEvent \<Rightarrow> bool" where
  "pausing ev \<longleftrightarrow> (case ev of NetIn _ (SigFrame f _) \<Rightarrow> isPauseFrame f | _ \<Rightarrow> False)"

lemma stuck_step:
  assumes st: "stuck s" and ev: "external ev \<or> mac2_due s ev = Some tm" "\<not> pausing ev" and h: "mac2_handleMessage tm ev s = Inr s'"
  shows "stuck s' \<and> sent s' = sent s"
proof -
  have ok: "mac2_ok s" "mac2_ok s'" using st ev h mac2.step_inv by (auto simp: stuck_def)
  have none: "mac2_due s ev = None" using st by (auto simp: stuck_def mac2_ok_def mac2_due_def split: MacEvent.splits)
  show ?thesis
  proof (cases ev)
    case (UpperIn f)
    then have "transmitState s' = transmitState s \<and> endPauseMsg s' = endPauseMsg s \<and> em_out s' = em_out s"
      using h st ok(1) by (auto simp: stuck_def mac2_ok_def mac2_handleMessage_def mac2_processFrameFromUpperLayer_def bindE_eq_Inr
          emb_processFrameFromUpperLayer_def Let_def split: option.splits if_splits)
    then show ?thesis using st ok by (simp add: stuck_def sent_def)
  next
    case (NetIn t sig)
    with h st ok(1) obtain f e where f: "sig = SigFrame f e"
      "(let (ok, s) = checkDestinationAddress f s in if ok then frameReceptionComplete tm f e s else Inr s) = Inr s'"
      by (auto simp: mac2_handleMessage_def mac2_ok_def mac2_processMsgFromNetwork_def bindE_eq_Inr split: Signal.splits)
    then have "transmitState s' = transmitState s \<and> endPauseMsg s' = endPauseMsg s \<and> sent s' = sent s"
      using ev(2) NetIn by (auto simp: pausing_def isPauseFrame_def frameReceptionComplete_def checkDestinationAddress_def
          processReceivedDataFrame_def em_send_def sent_def Let_def split: if_splits EtherKind.splits)
    then show ?thesis using st ok by (simp add: stuck_def)
  qed (use ev none in \<open>auto simp: external_def\<close>)
qed

text \<open>
  Property C40: a PAUSE frame with the time zero, by which a receiver ends a pause, blocks a paused transmitter: it transmits nothing
  any more, whatever frames arrive, until there is another PAUSE frame.
\<close>

theorem mac2_pause_zero_blocks:
  assumes init: "mac2_initialize True promiscuous rate a queue limit = Inr s0" and run: "mac_run mac2_handleMessage mac2_due s0 evs s"
    and st: "transmitState s = PAUSE_STATE" and pause: "ef_kind p = EtherPauseFrame 0" "fst (checkDestinationAddress p s)"
  shows "\<exists>s1. mac2_handleMessage tm (NetIn t (SigFrame p e)) s = Inr s1 \<and>
      (\<forall>evs' s'. mac_run mac2_handleMessage mac2_due s1 evs' s' \<and> (\<forall>ev \<in> set evs'. \<not> pausing ev) \<longrightarrow> sent s' = sent s \<and> transmitState s' = PAUSE_STATE)"
proof -
  have ok: "mac2_ok s" using mac2.reaches_inv [OF run] mac2_initial [OF init] by blast
  let ?s = "s\<lparr>numPauseFramesRcvd := numPauseFramesRcvd s + 1, endPauseMsg := None\<rparr>"
  have h: "mac2_handleMessage tm (NetIn t (SigFrame p e)) s = Inr ?s"
    by (simp add: pause_received [OF ok pause] processPauseCommand_def st Let_def)
  have start: "stuck ?s \<and> sent ?s = sent s" using mac2_net_ok [OF ok h] st by (simp add: stuck_def sent_def)
  have "stuck s' \<and> sent s' = sent s" if "mac_run mac2_handleMessage mac2_due ?s evs' s'" "\<forall>ev \<in> set evs'. \<not> pausing ev" for evs' s'
    using that
  proof (induction rule: mac_run.induct)
    case mac_start
    then show ?case using start by simp
  next
    case (mac_step evs s1 ev tm s2)
    then show ?case using stuck_step [of s1 ev tm s2] by simp
  qed
  then show ?thesis using h by (intro exI [of _ ?s]) (auto simp: stuck_def)
qed

section \<open>A run\<close>

text \<open>An interface at 10 Mbit/s that accepts a frame of 64 octets, and one that is told to pause while it is idle.\<close>

definition demo_eframe :: EtherFrame where
  "demo_eframe = \<lparr> ef_dest = 2, ef_src = 0, ef_byteLength = 64, ef_kind = EthernetIIFrame 0x800, ef_payload = None \<rparr>"

definition demo_pause :: "int \<Rightarrow> EtherFrame" where
  "demo_pause n = \<lparr> ef_dest = 1, ef_src = 0, ef_byteLength = 64, ef_kind = EtherPauseFrame n, ef_payload = None \<rparr>"

definition demo_mac0 :: EtherMACBase where
  "demo_mac0 = projr (mac2_initialize True False ETHERNET_TXRATE 1 False 0)"

definition demo_mac1 :: EtherMACBase where
  "demo_mac1 = projr (mac2_handleMessage 0 (UpperIn (Some demo_eframe)) demo_mac0)"

definition demo_mac2 :: EtherMACBase where
  "demo_mac2 = projr (mac2_handleMessage 0 (NetIn 0 (SigFrame (demo_pause 5) False)) demo_mac0)"

lemma demo_mac0_init: "mac2_initialize True False ETHERNET_TXRATE 1 False 0 = Inr demo_mac0"
  unfolding demo_mac0_def by code_simp

lemma demo_mac1_step: "mac2_handleMessage 0 (UpperIn (Some demo_eframe)) demo_mac0 = Inr demo_mac1"
  unfolding demo_mac1_def by code_simp

lemma demo_mac2_step: "mac2_handleMessage 0 (NetIn 0 (SigFrame (demo_pause 5) False)) demo_mac0 = Inr demo_mac2"
  unfolding demo_mac2_def by code_simp

lemma demo_mac1_run: "mac_run mac2_handleMessage mac2_due demo_mac0 [UpperIn (Some demo_eframe)] demo_mac1"
  using mac_step [OF mac_start, of _ mac2_due _ _ mac2_handleMessage, OF _ demo_mac1_step] by (simp add: external_def)

lemma demo_mac2_run: "mac_run mac2_handleMessage mac2_due demo_mac0 [NetIn 0 (SigFrame (demo_pause 5) False)] demo_mac2"
  using mac_step [OF mac_start, of _ mac2_due _ _ mac2_handleMessage, OF _ demo_mac2_step] by (simp add: external_def)

lemma demo_mac_values:
  "endTxMsg demo_mac1 = Some (576 / 10000000)" "fst (checkDestinationAddress (demo_pause 5) demo_mac1)"
  "transmitState demo_mac2 = PAUSE_STATE" "fst (checkDestinationAddress (demo_pause 0) demo_mac2)" "\<not> isPauseFrame demo_eframe"
  "ef_kind (demo_pause 5) = EtherPauseFrame 5" "ef_kind (demo_pause 0) = EtherPauseFrame 0"
  by code_simp+

theorem mac2_in_order_witness:
  "\<exists>ns. length ns \<le> 1 \<and> sent demo_mac1 = concat (map2 (\<lambda>n f. replicate n (lineFrame 1 f)) ns [demo_eframe])"
  using mac2_in_order [OF demo_mac0_init demo_mac1_run] demo_mac_values(5) by (auto simp: accepted_def)

theorem mac2_pause_resends_witness:
  "\<exists>s1 s2. mac2_handleMessage 0 (NetIn 0 (SigFrame (demo_pause 5) False)) demo_mac1 = Inr s1 \<and> mac2_handleMessage (576 / 10000000) EndTx s1 = Inr s2"
  using mac2_pause_resends [OF demo_mac0_init demo_mac1_run _ demo_mac_values(1,6) _ demo_mac_values(2), of 0 0 False] demo_mac_values(5)
  by (auto simp: accepted_def)

theorem mac2_pause_zero_blocks_witness:
  "\<exists>s1. mac2_handleMessage 1 (NetIn 0 (SigFrame (demo_pause 0) False)) demo_mac2 = Inr s1"
  using mac2_pause_zero_blocks [OF demo_mac0_init demo_mac2_run demo_mac_values(3,7,4), of 1 0 False] by blast

end
