(* ===== verification/Ether_Path.thy ===== *)
theory Ether_Path
  imports Ether_Order Switch_Relay
begin

text \<open>
  The Ethernet modules at work together: a packet that one host gives to \<open>EtherEncap\<close> goes through its MAC, the MAC and the
  relay unit of a switch, and the MAC of the other host to the \<open>EtherEncap\<close> there.  All MACs are full duplex ones.
\<close>

definition takes :: "MACAddress \<Rightarrow> EtherMACBase \<Rightarrow> bool" where
  "takes d r \<longleftrightarrow> em_promiscuous r \<or> mac_isBroadcast d \<or> mac_equals d (em_address r)"

text \<open>An interface that can transmit at once.\<close>

definition ready :: "EtherMACBase \<Rightarrow> bool" where
  "ready s \<longleftrightarrow> mac2_ok s \<and> transmitState s = TX_IDLE_STATE \<and> 0 \<le> em_txQueueLimit s"

lemma strip_line:
  "(lineFrame a f)\<lparr>ef_byteLength := ef_byteLength (lineFrame a f) - PREAMBLE_BYTES - SFD_BYTES\<rparr> = fillSrc a f"
  by (simp add: lineFrame_def fillSrc_def withPreamble_def)

lemma line_fields [simp]:
  "ef_dest (lineFrame a f) = ef_dest f" "ef_kind (lineFrame a f) = ef_kind f" "ef_dest (fillSrc a f) = ef_dest f"
  "ef_kind (fillSrc a f) = ef_kind f" "ef_payload (fillSrc a f) = ef_payload f" "ef_byteLength (fillSrc a f) = ef_byteLength f"
  "ef_src (fillSrc a f) = (if mac_isUnspecified (ef_src f) then a else ef_src f)"
  by (simp_all add: lineFrame_def fillSrc_def withPreamble_def)

lemma mac2_hop:
  assumes s: "ready s" "\<not> mac_equals (ef_dest f) (em_address s)" and f: "ef_byteLength f \<le> MAX_ETHERNET_FRAME" "\<not> isPauseFrame f"
    and r: "mac2_ok r" "takes (ef_dest f) r"
  shows "\<exists>s' r'. mac2_handleMessage tm (UpperIn (Some f)) s = Inr s' \<and>
      em_out s' = em_out s @ [ToPhys (SigFrame (lineFrame (em_address s) f) False)] \<and>
      mac2_handleMessage tm' (NetIn tm (SigFrame (lineFrame (em_address s) f) False)) r = Inr r' \<and>
      em_out r' = em_out r @ [ToUpper (fillSrc (em_address s) f)]"
proof -
  have i: "em_txQueue s = []" "transmitState s = TX_IDLE_STATE" "endTxMsg s = None" "em_connected s" "\<not> em_disabled s" "0 \<le> em_txQueueLimit s"
    using s(1) unfolding ready_def mac2_ok_def by auto
  define s1 where "s1 = s\<lparr>numFramesFromHL := numFramesFromHL s + 1, em_txQueue := [fillSrc (em_address s) f]\<rparr>"
  have b: "emb_processFrameFromUpperLayer f s = Inr s1"
    using s(2) f i by (simp add: emb_processFrameFromUpperLayer_def fillSrc_def s1_def Let_def)
  have t: "\<exists>s'. mac2_startFrameTransmission tm s1 = Inr s' \<and> em_out s' = em_out s @ [ToPhys (SigFrame (lineFrame (em_address s) f) False)]"
  proof -
    have "(if mac_isUnspecified (ef_src (withPreamble (fillSrc (em_address s) f)))
        then (withPreamble (fillSrc (em_address s) f))\<lparr>ef_src := em_address s\<rparr> else withPreamble (fillSrc (em_address s) f)) = lineFrame (em_address s) f"
      using lineFrame_fillSrc [of "em_address s" f] by (simp add: lineFrame_def fillSrc_def [of _ "withPreamble _"])
    then show ?thesis using i by (auto simp: mac2_startFrameTransmission_def s1_def schedule_defs Let_def)
  qed
  have k: "\<forall>u. ef_kind (lineFrame (em_address s) f) \<noteq> EtherPauseFrame u" using f(2) by (auto simp: isPauseFrame_def split: EtherKind.splits)
  have c: "checkDestinationAddress g r = (True, r)" if "ef_dest g = ef_dest f" for g
    using r(2) that by (auto simp: checkDestinationAddress_def takes_def)
  have "\<exists>r'. mac2_handleMessage tm' (NetIn tm (SigFrame (lineFrame (em_address s) f) False)) r = Inr r' \<and>
      em_out r' = em_out r @ [ToUpper (fillSrc (em_address s) f)]"
  proof -
    have "mac2_handleMessage tm' (NetIn tm (SigFrame (lineFrame (em_address s) f) False)) r =
        Inr (processReceivedDataFrame (lineFrame (em_address s) f) False r)"
      using r(1) c k by (auto simp: mac2_handleMessage_def mac2_ok_def mac2_processMsgFromNetwork_def emb_processMsgFromNetwork_def
          frameReceptionComplete_def split: EtherKind.splits)
    moreover have "em_out (processReceivedDataFrame (lineFrame (em_address s) f) False r) = em_out r @ [ToUpper (fillSrc (em_address s) f)]"
      using r(2) by (auto simp: processReceivedDataFrame_def strip_line checkDestinationAddress_def takes_def em_send_def Let_def)
    ultimately show ?thesis by blast
  qed
  moreover have "mac2_handleMessage tm (UpperIn (Some f)) s = mac2_startFrameTransmission tm s1"
    using i b by (simp add: mac2_handleMessage_def mac2_processFrameFromUpperLayer_def s1_def)
  ultimately show ?thesis using t by auto
qed

lemma dispatch_unchanged:
  "handleAndDispatchFrame tm f p u = Inr (u', out) \<Longrightarrow> (q, g) \<in> set out \<Longrightarrow> g = f"
  by (auto simp: handleAndDispatchFrame_def broadcastFrame_def sendPort_def Let_def split: if_splits prod.splits)

lemma encap_frame:
  assumes "pl_byteLength pk \<le> MAX_ETHERNET_DATA"
  obtains f where "ee_handleMessage (FromHigher port IEEE802CTRL_DATA (Some c) (Some pk)) e =
        Inr (e\<lparr>ee_totalFromHigherLayer := ee_totalFromHigherLayer e + 1\<rparr>, [ToMAC f])"
    "ef_dest f = ic_dest c" "ef_src f = ic_src c" "ef_kind f = EthernetIIFrame (ic_etherType c)" "ef_payload f = Some pk"
    "MIN_ETHERNET_FRAME \<le> ef_byteLength f" "ef_byteLength f \<le> MAX_ETHERNET_FRAME"
proof -
  let ?f = "padFrame (encapsulateFrame pk \<lparr> ef_dest = ic_dest c, ef_src = ic_src c, ef_byteLength = ETHER_MAC_FRAME_BYTES,
      ef_kind = EthernetIIFrame (ic_etherType c), ef_payload = None \<rparr>)"
  show thesis
    by (rule that [of ?f])
       (use assms in \<open>auto simp: ee_handleMessage_def ee_processPacketFromHigherLayer_def padFrame_def encapsulateFrame_def ETHER_MAC_FRAME_BYTES_def
          MAX_ETHERNET_DATA_def MAX_ETHERNET_FRAME_def MIN_ETHERNET_FRAME_def Let_def\<close>)
qed

text \<open>
  Property C12: a packet of at most 1500 octets that a host sends over full duplex Ethernet (\<open>EtherMAC2\<close> at both ends of both links) arrives
  through a switch.  The transmitters of the host and of the switch port are idle and ready, the switch port on which the frame comes in is
  promiscuous, no bit errors occur, and the sender does not address itself or the outgoing port.  Then at every host to whose port
  the switch dispatches the frame and whose interface takes it arrives the same packet, with the addresses and the
  protocol of the sender, whose own address is filled in where the sender left it open; the frames have the lengths that
  the MACs accept, and nothing in between fails.
\<close>

theorem ethernet_delivers:
  assumes pk: "pl_byteLength pk \<le> MAX_ETHERNET_DATA"
    and A: "ready s" "\<not> mac_equals (ic_dest c) (em_address s)"
    and P: "mac2_ok p" "em_promiscuous p"
    and relay: "\<forall>f. ef_dest f = ic_dest c \<and> ef_src f = (if mac_isUnspecified (ic_src c) then em_address s else ic_src c) \<longrightarrow>
      (\<exists>u' out. handleAndDispatchFrame tm2 f i u = Inr (u', out) \<and> q \<in> fst ` set out)"
    and Q: "ready w" "\<not> mac_equals (ic_dest c) (em_address w)"
    and B: "mac2_ok b" "takes (ic_dest c) b"
  shows "\<exists>e' f s' g p' u' out w' b' src.
      ee_handleMessage (FromHigher port IEEE802CTRL_DATA (Some c) (Some pk)) e = Inr (e', [ToMAC f]) \<and>
      mac2_handleMessage tm1 (UpperIn (Some f)) s = Inr s' \<and> em_out s' = em_out s @ [ToPhys (SigFrame (lineFrame (em_address s) f) False)] \<and>
      mac2_handleMessage tm2 (NetIn tm1 (SigFrame (lineFrame (em_address s) f) False)) p = Inr p' \<and> em_out p' = em_out p @ [ToUpper g] \<and>
      handleAndDispatchFrame tm2 g i u = Inr (u', out) \<and> (q, g) \<in> set out \<and>
      mac2_handleMessage tm3 (UpperIn (Some g)) w = Inr w' \<and> em_out w' = em_out w @ [ToPhys (SigFrame (lineFrame (em_address w) g) False)] \<and>
      mac2_handleMessage tm4 (NetIn tm3 (SigFrame (lineFrame (em_address w) g) False)) b = Inr b' \<and>
      em_out b' = em_out b @ [ToUpper (fillSrc (em_address w) g)] \<and>
      ee_handleMessage (FromMAC (Some (fillSrc (em_address w) g))) e2 =
        Inr (e2\<lparr>ee_totalFromMAC := ee_totalFromMAC e2 + 1\<rparr>,
          [ToHigher 0 pk (newIeee802Ctrl\<lparr>ic_src := src, ic_dest := ic_dest c, ic_etherType := ic_etherType c\<rparr>)]) \<and>
      (\<not> mac_isUnspecified (ic_src c) \<longrightarrow> src = ic_src c) \<and>
      (mac_isUnspecified (ic_src c) \<and> \<not> mac_isUnspecified (em_address s) \<longrightarrow> src = em_address s)"
proof -
  obtain f where f: "ee_handleMessage (FromHigher port IEEE802CTRL_DATA (Some c) (Some pk)) e =
        Inr (e\<lparr>ee_totalFromHigherLayer := ee_totalFromHigherLayer e + 1\<rparr>, [ToMAC f])"
      "ef_dest f = ic_dest c" "ef_src f = ic_src c" "ef_kind f = EthernetIIFrame (ic_etherType c)" "ef_payload f = Some pk"
      "ef_byteLength f \<le> MAX_ETHERNET_FRAME" using encap_frame [OF pk] by metis
  let ?g = "fillSrc (em_address s) f"
  have np: "\<not> isPauseFrame f" "\<not> isPauseFrame ?g" using f(4) by (simp_all add: isPauseFrame_def)
  from mac2_hop [OF A(1) _ f(6) np(1) P(1), of tm1 tm2] A(2) P(2) f(2)
  obtain s' p' where 1: "mac2_handleMessage tm1 (UpperIn (Some f)) s = Inr s'"
      "em_out s' = em_out s @ [ToPhys (SigFrame (lineFrame (em_address s) f) False)]"
      "mac2_handleMessage tm2 (NetIn tm1 (SigFrame (lineFrame (em_address s) f) False)) p = Inr p'" "em_out p' = em_out p @ [ToUpper ?g]"
    by (auto simp: takes_def)
  have "ef_dest ?g = ic_dest c \<and> ef_src ?g = (if mac_isUnspecified (ic_src c) then em_address s else ic_src c)" using f(2,3) by simp
  then obtain u' out where 2: "handleAndDispatchFrame tm2 ?g i u = Inr (u', out)" "q \<in> fst ` set out" using relay by blast
  then have q: "(q, ?g) \<in> set out" using dispatch_unchanged [OF 2(1)] by auto
  from mac2_hop [OF Q(1) _ _ np(2) B(1), of tm3 tm4] Q(2) B(2) f(2,6)
  obtain w' b' where 3: "mac2_handleMessage tm3 (UpperIn (Some ?g)) w = Inr w'"
      "em_out w' = em_out w @ [ToPhys (SigFrame (lineFrame (em_address w) ?g) False)]"
      "mac2_handleMessage tm4 (NetIn tm3 (SigFrame (lineFrame (em_address w) ?g) False)) b = Inr b'"
      "em_out b' = em_out b @ [ToUpper (fillSrc (em_address w) ?g)]" by auto
  let ?h = "fillSrc (em_address w) ?g"
  have 4: "ee_handleMessage (FromMAC (Some ?h)) e2 = Inr (e2\<lparr>ee_totalFromMAC := ee_totalFromMAC e2 + 1\<rparr>,
      [ToHigher 0 pk (newIeee802Ctrl\<lparr>ic_src := ef_src ?h, ic_dest := ic_dest c, ic_etherType := ic_etherType c\<rparr>)])"
    using f by (simp add: ee_handleMessage_def ee_processFrameFromMAC_def)
  have 5: "\<not> mac_isUnspecified (ic_src c) \<longrightarrow> ef_src ?h = ic_src c"
      "mac_isUnspecified (ic_src c) \<and> \<not> mac_isUnspecified (em_address s) \<longrightarrow> ef_src ?h = em_address s" using f(3) by simp_all
  show ?thesis
    by (rule exI [of _ "e\<lparr>ee_totalFromHigherLayer := ee_totalFromHigherLayer e + 1\<rparr>"], rule exI [of _ f], rule exI [of _ s'], rule exI [of _ ?g],
        rule exI [of _ p'], rule exI [of _ u'], rule exI [of _ out], rule exI [of _ w'], rule exI [of _ b'], rule exI [of _ "ef_src ?h"])
       (intro conjI f(1) 1 2(1) q 3 4 5)
qed

text \<open>Two hosts and a switch with two ports that has just been switched on; the frame is flooded.\<close>

definition demo_port :: "bool \<Rightarrow> MACAddress \<Rightarrow> EtherMACBase" where
  "demo_port promiscuous a = projr (mac2_initialize True promiscuous ETHERNET_TXRATE a False 0)"

definition demo_relay :: MACRelayUnitBase where
  "demo_relay = \<lparr> numPorts = 2, addressTableSize = 0, agingTime = 120, addresstable = [], ru_seqNum = 0 \<rparr>"

definition demo_ctrl :: Ieee802Ctrl where
  "demo_ctrl = newIeee802Ctrl\<lparr>ic_dest := mac_BROADCAST_ADDRESS, ic_etherType := 0x800\<rparr>"

lemma demo_port_ready: "ready (demo_port promiscuous 1)" "ready (demo_port promiscuous 3)"
  "em_promiscuous (demo_port promiscuous 1) = promiscuous" "em_promiscuous (demo_port promiscuous 3) = promiscuous"
  "em_address (demo_port promiscuous 1) = 1" "em_address (demo_port promiscuous 3) = 3"
proof -
  have "mac2_initialize True promiscuous ETHERNET_TXRATE a False 0 = Inr (demo_port promiscuous a) \<and> em_promiscuous (demo_port promiscuous a) = promiscuous \<and>
      em_address (demo_port promiscuous a) = a \<and> transmitState (demo_port promiscuous a) = TX_IDLE_STATE \<and> em_txQueueLimit (demo_port promiscuous a) = 0"
    for a
    by (simp add: demo_port_def mac2_initialize_def emb_initialize_def calculateParameters_def beginSendFrames_def Let_def)
  then show "ready (demo_port promiscuous 1)" "ready (demo_port promiscuous 3)"
    "em_promiscuous (demo_port promiscuous 1) = promiscuous" "em_promiscuous (demo_port promiscuous 3) = promiscuous"
    "em_address (demo_port promiscuous 1) = 1" "em_address (demo_port promiscuous 3) = 3"
    using mac2_initial unfolding ready_def by (metis order_refl)+
qed

lemma demo_dispatch: "ef_dest f = mac_BROADCAST_ADDRESS \<Longrightarrow> \<exists>u' out. handleAndDispatchFrame 0 f 0 demo_relay = Inr (u', out) \<and> 1 \<in> fst ` set out"
proof -
  assume d: "ef_dest f = mac_BROADCAST_ADDRESS"
  have b: "mac_isBroadcast mac_BROADCAST_ADDRESS" by code_simp
  have n: "numPorts (updateTableWithAddress 0 a 0 demo_relay) = 2" for a
    by (simp add: updateTableWithAddress_def demo_relay_def Let_def)
  show ?thesis
    by (auto simp: handleAndDispatchFrame_def broadcastFrame_def d b n Let_def image_image demo_relay_def)
qed

theorem ethernet_delivers_witness:
  "\<exists>e' f. ee_handleMessage (FromHigher 0 IEEE802CTRL_DATA (Some demo_ctrl) (Some \<lparr> pl_id = 7, pl_byteLength = 100 \<rparr>)) ee_initialize = Inr (e', [ToMAC f])"
proof -
  have c: "ic_dest demo_ctrl = mac_BROADCAST_ADDRESS" "\<not> mac_equals mac_BROADCAST_ADDRESS 1" "\<not> mac_equals mac_BROADCAST_ADDRESS 3"
    "takes mac_BROADCAST_ADDRESS (demo_port False 3)" by code_simp+
  have ok: "mac2_ok (demo_port b 1)" "mac2_ok (demo_port b 3)" for b using demo_port_ready [of b] by (simp_all add: ready_def)
  have "\<exists>e' f s'. ee_handleMessage (FromHigher 0 IEEE802CTRL_DATA (Some demo_ctrl) (Some \<lparr> pl_id = 7, pl_byteLength = 100 \<rparr>)) ee_initialize = Inr (e', [ToMAC f]) \<and>
      mac2_handleMessage 0 (UpperIn (Some f)) (demo_port False 1) = Inr s'"
    using ethernet_delivers [of "\<lparr> pl_id = 7, pl_byteLength = 100 \<rparr>" "demo_port False 1" demo_ctrl "demo_port True 1" 0 0 demo_relay 1
        "demo_port True 3" "demo_port False 3" 0 ee_initialize 0 0 0 ee_initialize]
      demo_port_ready ok c demo_dispatch by (simp add: MAX_ETHERNET_DATA_def) blast
  then show ?thesis by blast
qed

end
