(* ===== verification/Ether_Collision.thy ===== *)
theory Ether_Collision
  imports Ether_Duplex
begin

text \<open>
  \<open>EtherMAC\<close>, which shares the line with other stations: in every reachable state transmitter, receiver, queue and timers
  fit together, through autoconfiguration, collisions, backoff and pauses.
\<close>

definition em_ok :: "EtherMAC \<Rightarrow> bool" where
  "em_ok s \<longleftrightarrow> \<not> em_disabled s \<and> (autoconfigInProgress s \<longleftrightarrow> endAutoconfigMsg s \<noteq> None) \<and>
     (autoconfigInProgress s \<longrightarrow> transmitState s = TX_IDLE_STATE \<and> receiveState s = RX_IDLE_STATE) \<and>
     (endIFGMsg s \<noteq> None \<longleftrightarrow> transmitState s = WAIT_IFG_STATE) \<and> (endTxMsg s \<noteq> None \<longleftrightarrow> transmitState s = TRANSMITTING_STATE) \<and>
     (endJammingMsg s \<noteq> None \<longleftrightarrow> transmitState s = JAMMING_STATE) \<and> (endBackoffMsg s \<noteq> None \<longleftrightarrow> transmitState s = BACKOFF_STATE) \<and>
     (endPauseMsg s \<noteq> None \<longrightarrow> transmitState s = PAUSE_STATE) \<and>
     (transmitState s \<in> {WAIT_IFG_STATE, TRANSMITTING_STATE, JAMMING_STATE, BACKOFF_STATE} \<longrightarrow> em_txQueue s \<noteq> []) \<and>
     (endRxMsg s \<noteq> None \<longleftrightarrow> receiveState s \<noteq> RX_IDLE_STATE) \<and> (frameBeingReceived s \<noteq> None \<longleftrightarrow> receiveState s = RECEIVING_STATE) \<and>
     (\<not> duplexMode s \<and> transmitState s = TRANSMITTING_STATE \<longrightarrow> receiveState s = RX_IDLE_STATE) \<and>
     0 \<le> backoffs s \<and> backoffs s \<le> MAX_ATTEMPTS"

text \<open>The transmitter is free: no timer of it is scheduled.\<close>

definition tx_free :: "EtherMAC \<Rightarrow> bool" where
  "tx_free s \<longleftrightarrow> \<not> em_disabled s \<and> \<not> autoconfigInProgress s \<and> endAutoconfigMsg s = None \<and> endIFGMsg s = None \<and> endTxMsg s = None \<and>
     endJammingMsg s = None \<and> endBackoffMsg s = None \<and> endPauseMsg s = None \<and>
     (endRxMsg s \<noteq> None \<longleftrightarrow> receiveState s \<noteq> RX_IDLE_STATE) \<and> (frameBeingReceived s \<noteq> None \<longleftrightarrow> receiveState s = RECEIVING_STATE) \<and>
     0 \<le> backoffs s \<and> backoffs s \<le> MAX_ATTEMPTS"

lemma tx_free_upd [simp]:
  "tx_free (s\<lparr>em_txQueue := q\<rparr>) = tx_free s" "tx_free (s\<lparr>transmitState := st\<rparr>) = tx_free s" "tx_free (s\<lparr>em_out := out\<rparr>) = tx_free s"
  "tx_free (s\<lparr>numFramesSent := n\<rparr>) = tx_free s" "tx_free (s\<lparr>numBytesSent := n\<rparr>) = tx_free s" "tx_free (s\<lparr>numPauseFramesSent := n\<rparr>) = tx_free s"
  "tx_free (s\<lparr>framesSentInBurst := n\<rparr>) = tx_free s" "tx_free (s\<lparr>bytesSentInBurst := n\<rparr>) = tx_free s" "tx_free (s\<lparr>numFramesFromHL := n\<rparr>) = tx_free s"
  "tx_free (s\<lparr>numPauseFramesRcvd := n\<rparr>) = tx_free s" "tx_free (s\<lparr>pauseUnitsRequested := n\<rparr>) = tx_free s"
  "tx_free (s\<lparr>bitTime := t\<rparr>) = tx_free s" "tx_free (s\<lparr>slotTime := t\<rparr>) = tx_free s" "tx_free (s\<lparr>interFrameGap := t\<rparr>) = tx_free s"
  "tx_free (s\<lparr>jamDuration := t\<rparr>) = tx_free s" "tx_free (s\<lparr>shortestFrameDuration := t\<rparr>) = tx_free s"
  "tx_free (s\<lparr>carrierExtension := b\<rparr>) = tx_free s" "tx_free (s\<lparr>frameBursting := b\<rparr>) = tx_free s"
  by (simp_all add: tx_free_def)

lemma start_ok:
  assumes "tx_free s" "em_txQueue s \<noteq> []"
  shows "\<exists>s'. em_startFrameTransmission tm s = Inr s' \<and> em_ok s'"
proof -
  obtain f q where "em_txQueue s = f # q" using assms(2) by (cases "em_txQueue s") auto
  then show ?thesis using assms(1)
    by (cases "receiveState s")
       (auto simp: em_startFrameTransmission_def sendJamSignal_def schedule_defs tx_free_def em_ok_def Let_def)
qed

lemma begin_ok: "tx_free s \<Longrightarrow> \<exists>s'. beginSendFrames tm s = Inr s' \<and> em_ok s'"
  by (auto simp: beginSendFrames_def schedule_defs tx_free_def em_ok_def Let_def)

lemma gap_ok: "tx_free s \<Longrightarrow> em_txQueue s \<noteq> [] \<Longrightarrow> \<exists>s'. scheduleEndIFGPeriod tm s = Inr s' \<and> em_ok s'"
  by (auto simp: schedule_defs tx_free_def em_ok_def)

lemma idle_ok: "tx_free s \<Longrightarrow> transmitState s = TX_IDLE_STATE \<Longrightarrow> em_ok s"
  by (auto simp: tx_free_def em_ok_def)

section \<open>Timers\<close>

lemma ok_free:
  assumes "em_ok s"
  shows "endTxMsg s = Some tm \<Longrightarrow> transmitState s = TRANSMITTING_STATE \<and> em_txQueue s \<noteq> [] \<and> \<not> em_disabled s \<and> \<not> autoconfigInProgress s \<and>
      (\<not> duplexMode s \<longrightarrow> receiveState s = RX_IDLE_STATE) \<and> tx_free (s\<lparr>endTxMsg := None\<rparr>)"
    and "endIFGMsg s = Some tm \<Longrightarrow> transmitState s = WAIT_IFG_STATE \<and> em_txQueue s \<noteq> [] \<and> \<not> em_disabled s \<and> \<not> autoconfigInProgress s \<and>
      tx_free (s\<lparr>endIFGMsg := None\<rparr>)"
    and "endPauseMsg s = Some tm \<Longrightarrow> transmitState s = PAUSE_STATE \<and> \<not> em_disabled s \<and> \<not> autoconfigInProgress s \<and> tx_free (s\<lparr>endPauseMsg := None\<rparr>)"
    and "endBackoffMsg s = Some tm \<Longrightarrow> transmitState s = BACKOFF_STATE \<and> em_txQueue s \<noteq> [] \<and> \<not> em_disabled s \<and> \<not> autoconfigInProgress s \<and>
      tx_free (s\<lparr>endBackoffMsg := None\<rparr>)"
    and "endJammingMsg s = Some tm \<Longrightarrow> transmitState s = JAMMING_STATE \<and> em_txQueue s \<noteq> [] \<and> \<not> em_disabled s \<and> \<not> autoconfigInProgress s \<and>
      tx_free (s\<lparr>endJammingMsg := None\<rparr>)"
  using assms by (cases "transmitState s"; simp add: em_ok_def tx_free_def)+

lemma free_backoffs: "tx_free s \<Longrightarrow> 0 \<le> backoffs s \<and> backoffs s \<le> MAX_ATTEMPTS" by (simp add: tx_free_def)

lemma em_EndTx:
  assumes "em_ok s" "endTxMsg s = Some tm"
  shows "\<exists>s'. em_handleMessage rnd tm EndTx s = Inr s' \<and> em_ok s'"
proof -
  have st: "transmitState s = TRANSMITTING_STATE" "em_txQueue s \<noteq> []" "\<not> duplexMode s \<longrightarrow> receiveState s = RX_IDLE_STATE"
    "\<not> em_disabled s" "\<not> autoconfigInProgress s" "tx_free (s\<lparr>endTxMsg := None\<rparr>)"
    using ok_free(1) [OF assms] by simp_all
  then obtain f q where q: "em_txQueue s = f # q" by (cases "em_txQueue s") auto
  let ?s = "s\<lparr>endTxMsg := None\<rparr>"
  obtain s1 where s1: "emb_handleEndTxPeriod ?s = Inr s1"
    using st(1,3) q by (cases "duplexMode s") (simp_all add: emb_handleEndTxPeriod_def Let_def)
  have f1: "tx_free s1"
    using s1 st(6) by (auto simp: emb_handleEndTxPeriod_def Let_def split: if_splits list.splits)
  let ?t = "s1\<lparr>backoffs := 0\<rparr>"
  have ft: "tx_free ?t" using f1 by (auto simp: tx_free_def MAX_ATTEMPTS_def)
  have h: "em_handleMessage rnd tm EndTx s =
      bindE (checkAndScheduleEndPausePeriod tm ?t) (\<lambda>(paused, s). if paused then Inr s
        else if frameBursting s \<and> em_txQueue s \<noteq> [] \<and> bytesSentInBurst s < GIGABIT_MAX_BURST_BYTES then em_startFrameTransmission tm s
        else beginSendFrames tm s)"
    using st s1 by (auto simp: em_handleMessage_def em_handleEndTxPeriod_def)
  show ?thesis
  proof (cases "pauseUnitsRequested ?t > 0")
    case True
    then show ?thesis using ft by (auto simp: h checkAndScheduleEndPausePeriod_def schedule_defs tx_free_def em_ok_def)
  next
    case False
    then show ?thesis using start_ok [OF ft, of tm] begin_ok [OF ft, of tm] by (auto simp: h checkAndScheduleEndPausePeriod_def)
  qed
qed

lemma em_EndIFG:
  assumes "em_ok s" "endIFGMsg s = Some tm"
  shows "\<exists>s'. em_handleMessage rnd tm EndIFG s = Inr s' \<and> em_ok s'"
proof -
  let ?s = "s\<lparr>endIFGMsg := None\<rparr>"
  have st: "transmitState s = WAIT_IFG_STATE" "em_txQueue s \<noteq> []" "\<not> em_disabled s" "\<not> autoconfigInProgress s" "tx_free ?s"
    using ok_free(2) [OF assms] by simp_all
  have x: "tx_free (extendFront t) \<and> em_txQueue (extendFront t) \<noteq> []" if "tx_free t" "em_txQueue t \<noteq> []" for t
    using that by (auto simp: extendFront_def tx_free_def split: list.splits)
  obtain s1 where s1: "emb_handleEndIFGPeriod ?s = Inr s1" "tx_free s1" "em_txQueue s1 \<noteq> []"
    using st(1,2) x [OF st(5)] by (simp add: emb_handleEndIFGPeriod_def tx_free_def Let_def)
  have "em_handleMessage rnd tm EndIFG s = em_startFrameTransmission tm (extendFront s1)"
    using st s1(1) by (simp add: em_handleMessage_def em_handleEndIFGPeriod_def)
  then show ?thesis using start_ok x [OF s1(2,3)] by auto
qed

lemma em_EndPause:
  assumes "em_ok s" "endPauseMsg s = Some tm"
  shows "\<exists>s'. em_handleMessage rnd tm EndPause s = Inr s' \<and> em_ok s'"
proof -
  have "transmitState s = PAUSE_STATE" "\<not> em_disabled s" "\<not> autoconfigInProgress s" "tx_free (s\<lparr>endPauseMsg := None\<rparr>)"
    using ok_free(3) [OF assms] by simp_all
  then show ?thesis using begin_ok [of "s\<lparr>endPauseMsg := None\<rparr>" tm] by (simp add: em_handleMessage_def handleEndPausePeriod_def)
qed

lemma em_EndBackoff:
  assumes "em_ok s" "endBackoffMsg s = Some tm"
  shows "\<exists>s'. em_handleMessage rnd tm EndBackoff s = Inr s' \<and> em_ok s'"
proof -
  let ?s = "s\<lparr>endBackoffMsg := None\<rparr>"
  have st: "transmitState s = BACKOFF_STATE" "em_txQueue s \<noteq> []" "\<not> em_disabled s" "\<not> autoconfigInProgress s" "tx_free ?s"
    using ok_free(4) [OF assms] by simp_all
  moreover have "em_ok (?s\<lparr>transmitState := TX_IDLE_STATE\<rparr>)" using st(5) by (intro idle_ok) (simp_all add: tx_free_def)
  ultimately show ?thesis using gap_ok [OF st(5), of tm] by (simp add: em_handleMessage_def em_handleEndBackoffPeriod_def)
qed

lemma em_EndJamming:
  assumes "em_ok s" "endJammingMsg s = Some tm"
  shows "\<exists>s'. em_handleMessage rnd tm EndJamming s = Inr s' \<and> em_ok s'"
proof -
  let ?s = "s\<lparr>endJammingMsg := None\<rparr>"
  have st: "transmitState s = JAMMING_STATE" "em_txQueue s \<noteq> []" "\<not> em_disabled s" "\<not> autoconfigInProgress s" "tx_free ?s"
    "0 \<le> backoffs s" "backoffs s \<le> MAX_ATTEMPTS"
    using ok_free(5) [OF assms] free_backoffs [of ?s] by simp_all
  then obtain f q where q: "em_txQueue s = f # q" by (cases "em_txQueue s") auto
  have h: "em_handleMessage rnd tm EndJamming s = handleRetransmission rnd tm ?s"
    using st by (simp add: em_handleMessage_def em_handleEndJammingPeriod_def)
  show ?thesis
  proof (cases "backoffs s + 1 > MAX_ATTEMPTS")
    case True
    then have "handleRetransmission rnd tm ?s = Inr (?s\<lparr>backoffs := 0, em_txQueue := q, transmitState := TX_IDLE_STATE\<rparr>)"
      by (simp add: handleRetransmission_def q)
    moreover have "em_ok (?s\<lparr>backoffs := 0, em_txQueue := q, transmitState := TX_IDLE_STATE\<rparr>)"
      using st(5) by (intro idle_ok) (simp_all add: tx_free_def MAX_ATTEMPTS_def)
    ultimately show ?thesis using h by simp
  next
    case False
    then show ?thesis using st q by (auto simp: h handleRetransmission_def tx_free_def em_ok_def Let_def)
  qed
qed

section \<open>Reception\<close>

text \<open>What a received frame leaves as it is, and what it may do to the transmitter.\<close>

definition same_rest :: "EtherMAC \<Rightarrow> EtherMAC \<Rightarrow> bool" where
  "same_rest s s' \<longleftrightarrow> em_disabled s' = em_disabled s \<and> autoconfigInProgress s' = autoconfigInProgress s \<and> endAutoconfigMsg s' = endAutoconfigMsg s \<and>
     endIFGMsg s' = endIFGMsg s \<and> endTxMsg s' = endTxMsg s \<and> endJammingMsg s' = endJammingMsg s \<and> endBackoffMsg s' = endBackoffMsg s \<and>
     em_txQueue s' = em_txQueue s \<and> endRxMsg s' = endRxMsg s \<and> receiveState s' = receiveState s \<and> frameBeingReceived s' = frameBeingReceived s \<and>
     duplexMode s' = duplexMode s \<and> backoffs s' = backoffs s"

lemma reception_effect:
  assumes "endPauseMsg s \<noteq> None \<longrightarrow> transmitState s = PAUSE_STATE"
  shows "\<exists>s'. frameReceptionComplete tm f e s = Inr s' \<and> same_rest s s' \<and> (endPauseMsg s' \<noteq> None \<longrightarrow> transmitState s' = PAUSE_STATE) \<and>
    (transmitState s' = transmitState s \<or> transmitState s = TX_IDLE_STATE \<and> transmitState s' = PAUSE_STATE)"
  using assms
  by (cases "transmitState s"; cases "ef_kind f")
     (auto simp: frameReceptionComplete_def processPauseCommand_def schedule_defs processReceivedDataFrame_def checkDestinationAddress_def
        same_rest_def Let_def)

lemma em_EndRx:
  assumes ok: "em_ok s" and e: "endRxMsg s = Some tm"
  shows "\<exists>s'. em_handleMessage rnd tm EndRx s = Inr s' \<and> em_ok s'"
proof -
  let ?s = "s\<lparr>endRxMsg := None\<rparr>"
  have st: "receiveState s \<noteq> RX_IDLE_STATE" "\<not> em_disabled s" "\<not> autoconfigInProgress s" "\<not> (\<not> duplexMode s \<and> transmitState s = TRANSMITTING_STATE)"
    using ok e by (simp_all add: em_ok_def) auto
  have "\<exists>s1. (if receiveState ?s = RECEIVING_STATE then completeReception tm ?s else Inr ?s) = Inr s1 \<and>
      same_rest (?s\<lparr>frameBeingReceived := None\<rparr>) s1 \<and> (endPauseMsg s1 \<noteq> None \<longrightarrow> transmitState s1 = PAUSE_STATE) \<and>
      (transmitState s1 = transmitState s \<or> transmitState s = TX_IDLE_STATE \<and> transmitState s1 = PAUSE_STATE)"
  proof (cases "receiveState s = RECEIVING_STATE")
    case True
    then obtain f b where f: "frameBeingReceived s = Some (f, b)" using ok by (cases "frameBeingReceived s") (auto simp: em_ok_def)
    have "endPauseMsg s \<noteq> None \<longrightarrow> transmitState s = PAUSE_STATE" using ok by (simp add: em_ok_def)
    then show ?thesis using True f reception_effect [of "?s\<lparr>frameBeingReceived := None\<rparr>" tm f b] by (simp add: completeReception_def)
  next
    case False
    then have "frameBeingReceived s = None" "endPauseMsg s \<noteq> None \<longrightarrow> transmitState s = PAUSE_STATE" using ok unfolding em_ok_def by blast+
    then show ?thesis using False by (simp add: same_rest_def)
  qed
  then obtain s1 where s1: "(if receiveState ?s = RECEIVING_STATE then completeReception tm ?s else Inr ?s) = Inr s1"
      "same_rest (?s\<lparr>frameBeingReceived := None\<rparr>) s1" "endPauseMsg s1 \<noteq> None \<longrightarrow> transmitState s1 = PAUSE_STATE"
      "transmitState s1 = transmitState s \<or> transmitState s = TX_IDLE_STATE \<and> transmitState s1 = PAUSE_STATE" by blast
  let ?t = "s1\<lparr>receiveState := RX_IDLE_STATE, numConcurrentTransmissions := 0\<rparr>"
  have "endAutoconfigMsg s = None" using ok st(3) unfolding em_ok_def by blast
  then have okt: "em_ok ?t" using ok st(3) s1(2-4) by (cases "transmitState s"; cases "transmitState s1"; simp add: em_ok_def same_rest_def)
  have h: "em_handleMessage rnd tm EndRx s =
      (if transmitState ?t = TX_IDLE_STATE \<and> em_txQueue ?t \<noteq> [] then scheduleEndIFGPeriod tm ?t else Inr ?t)"
    using st s1(1) by (cases "duplexMode s") (simp_all add: em_handleMessage_def em_handleEndRxPeriod_def Let_def)
  show ?thesis
  proof (cases "transmitState ?t = TX_IDLE_STATE \<and> em_txQueue ?t \<noteq> []")
    case True
    have "\<not> autoconfigInProgress ?t" using s1(2) st by (simp add: same_rest_def)
    then have "tx_free ?t" using okt True by (simp add: em_ok_def tx_free_def)
    then show ?thesis using gap_ok [of ?t tm] h True by simp
  next
    case False
    then show ?thesis using h okt by auto
  qed
qed

section \<open>Messages from outside\<close>

lemma em_upper:
  assumes ok: "em_ok s" and h: "em_handleMessage rnd tm (UpperIn f) s = Inr s'"
  shows "em_ok s'"
proof -
  have c: "\<not> em_disabled s" "\<not> (\<not> duplexMode s \<and> transmitState s = TRANSMITTING_STATE \<and> receiveState s \<noteq> RX_IDLE_STATE)"
    using ok unfolding em_ok_def by blast+
  have h': "(case f of None \<Rightarrow> Inl (RuntimeError ''check_and_cast<EtherFrame>'') | Some f \<Rightarrow> em_processFrameFromUpperLayer tm f s) = Inr s'"
    using h c by (auto simp: em_handleMessage_def em_handleAutoconfigMessage_def split: if_splits)
  then obtain g s1 where g: "f = Some g" "emb_processFrameFromUpperLayer g s = Inr s1"
      "(if \<not> autoconfigInProgress s1 \<and> (duplexMode s1 \<or> receiveState s1 = RX_IDLE_STATE) \<and> transmitState s1 = TX_IDLE_STATE
        then scheduleEndIFGPeriod tm s1 else Inr s1) = Inr s'"
    by (auto simp: em_processFrameFromUpperLayer_def bindE_eq_Inr split: option.splits)
  obtain q n where q: "q \<noteq> []" "s1 = s\<lparr>em_txQueue := q, numFramesFromHL := n\<rparr>"
    using upper_effect [OF g(2)] by (metis append_is_Nil_conv list.distinct(1))
  have ok1: "em_ok s1" using ok q by (simp add: em_ok_def)
  show ?thesis
  proof (cases "\<not> autoconfigInProgress s1 \<and> (duplexMode s1 \<or> receiveState s1 = RX_IDLE_STATE) \<and> transmitState s1 = TX_IDLE_STATE")
    case True
    then have "tx_free s1" using ok1 by (simp add: em_ok_def tx_free_def)
    then show ?thesis using gap_ok [of s1 tm] q g(3) True by auto
  next
    case False
    then show ?thesis using g(3) ok1 by (metis Inr_inject)
  qed
qed

lemma collide_ok:
  assumes ok: "em_ok s" and st: "\<not> duplexMode s" "transmitState s = TRANSMITTING_STATE" and h: "collide tm r sig s = Inr s'"
  shows "em_ok s'"
proof -
  have "receiveState s = RX_IDLE_STATE" "em_txQueue s \<noteq> []" "endRxMsg s = None" "endJammingMsg s = None" "endBackoffMsg s = None" "endIFGMsg s = None"
    "endPauseMsg s = None" "frameBeingReceived s = None" "\<not> autoconfigInProgress s" "endAutoconfigMsg s = None" "\<not> em_disabled s"
    "0 \<le> backoffs s" "backoffs s \<le> MAX_ATTEMPTS"
    using ok st unfolding em_ok_def by auto
  then show ?thesis using h st
    by (auto simp: collide_def sendJamSignal_def em_schedule_rx_def em_send_def em_ok_def bindE_eq_Inr Let_def split: if_splits)
qed

lemma reception_ok:
  assumes ok: "em_ok s" and st: "\<not> autoconfigInProgress s" "receiveState s = RX_IDLE_STATE" "duplexMode s \<or> transmitState s \<noteq> TRANSMITTING_STATE"
    and h: "startReception tm sig s = Inr s'"
  shows "em_ok s'"
proof -
  from h obtain f b n t where "s' = s\<lparr>numConcurrentTransmissions := n, frameBeingReceived := Some (f, b), endRxMsg := Some t, receiveState := RECEIVING_STATE\<rparr>"
    by (auto simp: startReception_def scheduleEndRxPeriod_def em_schedule_rx_def bindE_eq_Inr Let_def split: Signal.splits if_splits)
  then show ?thesis using ok st by (simp add: em_ok_def)
qed

lemma next_ok:
  assumes ok: "em_ok s" and st: "receiveState s = RECEIVING_STATE" and h: "nextReception tm f b s = Inr s'"
  shows "em_ok s'"
proof -
  obtain g c where g: "frameBeingReceived s = Some (g, c)" using ok st by (cases "frameBeingReceived s") (auto simp: em_ok_def)
  let ?s = "s\<lparr>endRxMsg := None, frameBeingReceived := None\<rparr>"
  have "endPauseMsg ?s \<noteq> None \<longrightarrow> transmitState ?s = PAUSE_STATE" using ok by (simp add: em_ok_def)
  from reception_effect [OF this, of tm g c] obtain s1 where s1: "frameReceptionComplete tm g c ?s = Inr s1" "same_rest ?s s1"
      "endPauseMsg s1 \<noteq> None \<longrightarrow> transmitState s1 = PAUSE_STATE"
      "transmitState s1 = transmitState s \<or> transmitState s = TX_IDLE_STATE \<and> transmitState s1 = PAUSE_STATE" by auto
  obtain t where "s' = s1\<lparr>frameBeingReceived := Some (f, b), endRxMsg := Some t, receiveState := RECEIVING_STATE\<rparr>"
    using h s1(1) g by (auto simp: nextReception_def completeReception_def scheduleEndRxPeriod_def em_schedule_rx_def bindE_eq_Inr split: if_splits)
  moreover have "endAutoconfigMsg s = None \<and> \<not> autoconfigInProgress s" using ok st unfolding em_ok_def by (metis RxState.distinct(1))
  ultimately show ?thesis using ok st s1(2-4) by (cases "transmitState s"; cases "transmitState s1"; simp add: em_ok_def same_rest_def)
qed

lemma overlap_ok:
  assumes ok: "em_ok s" and st: "receiveState s \<noteq> RX_IDLE_STATE" "duplexMode s \<or> transmitState s \<noteq> TRANSMITTING_STATE" and h: "overlap r sig s = Inr s'"
  shows "em_ok s'"
proof -
  have a: "\<not> autoconfigInProgress s" using ok st(1) unfolding em_ok_def by blast
  have "endRxMsg s \<noteq> None" "receiveState s \<noteq> RECEIVING_STATE \<longrightarrow> frameBeingReceived s = None" using ok st(1) unfolding em_ok_def by blast+
  then obtain t where rx: "endRxMsg s = Some t" "receiveState s \<noteq> RECEIVING_STATE \<longrightarrow> frameBeingReceived s = None" by blast
  have "\<exists>t. endRxMsg s' = Some t" "frameBeingReceived s' = None" "receiveState s' = RX_COLLISION_STATE" "transmitState s' = transmitState s"
    "em_disabled s' = em_disabled s" "autoconfigInProgress s' = autoconfigInProgress s" "endAutoconfigMsg s' = endAutoconfigMsg s"
    "endIFGMsg s' = endIFGMsg s" "endTxMsg s' = endTxMsg s" "endJammingMsg s' = endJammingMsg s" "endBackoffMsg s' = endBackoffMsg s"
    "em_txQueue s' = em_txQueue s" "duplexMode s' = duplexMode s" "backoffs s' = backoffs s" "endPauseMsg s' = endPauseMsg s"
    using h rx by (auto simp: overlap_def bindE_eq_Inr Let_def split: if_splits option.splits)
  then show ?thesis using ok a st(2) by (simp add: em_ok_def)
qed

lemma em_net:
  assumes ok: "em_ok s" and h: "em_handleMessage rnd tm (NetIn t sig) s = Inr s'"
  shows "em_ok s'"
proof (cases "autoconfigInProgress s")
  case True
  then have "\<not> em_disabled s" using ok unfolding em_ok_def by blast
  with True h obtain l v where "s' = s\<lparr>lowestTxrateSuggested := l, duplexVetoed := v\<rparr>"
    using that [of "duplexVetoed s'" "lowestTxrateSuggested s'"]
    by (auto simp: em_handleMessage_def em_handleAutoconfigMessage_def Let_def split: Signal.splits if_splits)
  then show ?thesis using ok by (simp add: em_ok_def)
next
  case False
  let ?r = "tm + of_int (signalBits sig) * bitTime s"
  have c: "\<not> em_disabled s" "\<not> (\<not> duplexMode s \<and> transmitState s = TRANSMITTING_STATE \<and> receiveState s \<noteq> RX_IDLE_STATE)"
    using ok unfolding em_ok_def by blast+
  then have h': "em_processMsgFromNetwork tm t sig s = Inr s'" using h False by (auto simp: em_handleMessage_def split: if_splits)
  consider (collide) "\<not> duplexMode s" "transmitState s = TRANSMITTING_STATE" "collide tm ?r sig s = Inr s'"
    | (start) "duplexMode s \<or> transmitState s \<noteq> TRANSMITTING_STATE" "receiveState s = RX_IDLE_STATE" "startReception tm sig s = Inr s'"
    | (nxt) f b where "receiveState s = RECEIVING_STATE" "nextReception tm f b s = Inr s'"
    | (overlap) "duplexMode s \<or> transmitState s \<noteq> TRANSMITTING_STATE" "receiveState s \<noteq> RX_IDLE_STATE" "overlap ?r sig s = Inr s'"
    using h' by (auto simp: em_processMsgFromNetwork_def backToBack_def bindE_eq_Inr Let_def split: if_splits Signal.splits)
  then show ?thesis
  proof cases
    case collide
    then show ?thesis using collide_ok [OF ok] by blast
  next
    case start
    then show ?thesis using reception_ok [OF ok False] by blast
  next
    case (nxt f b)
    then show ?thesis using next_ok [OF ok] by blast
  next
    case overlap
    then show ?thesis using overlap_ok [OF ok] by blast
  qed
qed

lemma calculate_free: "calculateParameters s = Inr s' \<Longrightarrow> tx_free s \<Longrightarrow> tx_free s' \<and> transmitState s' = transmitState s \<and> em_txQueue s' = em_txQueue s"
  by (auto simp: calculateParameters_def Let_def split: if_splits)

lemma em_EndAutoconfig:
  assumes ok: "em_ok s" and e: "endAutoconfigMsg s = Some tm'" and h: "em_handleMessage rnd tm EndAutoconfig s = Inr s'"
  shows "em_ok s'"
proof -
  have st: "autoconfigInProgress s" "\<not> em_disabled s" "transmitState s = TX_IDLE_STATE" "receiveState s = RX_IDLE_STATE"
    using ok e by (simp_all add: em_ok_def)
  let ?s = "s\<lparr>endAutoconfigMsg := None, autoconfigInProgress := False\<rparr>"
  obtain rate s1 where s1: "calculateParameters (?s\<lparr>txrate := rate, duplexMode := par_duplexEnabled s \<and> \<not> duplexVetoed s\<rparr>) = Inr s1"
      "(if em_txQueue s1 \<noteq> [] then scheduleEndIFGPeriod tm s1 else Inr s1) = Inr s'"
    using h st(1,2) by (auto simp: em_handleMessage_def em_handleAutoconfigMessage_def Let_def bindE_eq_Inr split del: if_split)
  have "tx_free (?s\<lparr>txrate := rate, duplexMode := par_duplexEnabled s \<and> \<not> duplexVetoed s\<rparr>)"
    using ok st by (simp add: em_ok_def tx_free_def)
  then have f: "tx_free s1" "transmitState s1 = TX_IDLE_STATE" using calculate_free [OF s1(1)] st(3) by simp_all
  show ?thesis
  proof (cases "em_txQueue s1 = []")
    case True
    then show ?thesis using s1(2) idle_ok [OF f] by simp
  next
    case False
    then show ?thesis using s1(2) gap_ok [OF f(1), of tm] by auto
  qed
qed

section \<open>Reachable states\<close>

lemma em_timer:
  "em_ok s \<Longrightarrow> em_due s ev = Some tm \<Longrightarrow> ev \<noteq> EndAutoconfig \<Longrightarrow> \<exists>s'. em_handleMessage rnd tm ev s = Inr s' \<and> em_ok s'"
  by (cases ev; simp add: em_due_def em_EndTx em_EndIFG em_EndPause em_EndRx em_EndBackoff em_EndJamming)

interpretation em: event_machine "em_handleMessage rnd" em_due em_ok for rnd
proof
  fix s s' ev tm
  assume ok: "em_ok s"
  show "em_ok s'" if "external ev \<or> em_due s ev = Some tm" and h: "em_handleMessage rnd tm ev s = Inr s'"
  proof (cases "external ev \<or> ev = EndAutoconfig")
    case True
    with h that(1) show ?thesis using em_upper [OF ok] em_net [OF ok] em_EndAutoconfig [OF ok] by (cases ev) (auto simp: external_def em_due_def)
  next
    case False
    with that em_timer [OF ok, of ev tm rnd] show ?thesis by auto
  qed
  show "\<exists>s'. em_handleMessage rnd tm ev s = Inr s'" if "em_due s ev = Some tm" "ev \<noteq> EndAutoconfig"
    using em_timer [OF ok that] by blast
qed

lemma em_initial: "em_initialize conn promiscuous rate duplexEnabled a queue limit = Inr s \<Longrightarrow> em_ok s"
  by (auto simp: em_initialize_def emb_initialize_def EtherMACBase.extend_def EtherMAC.fields_def startAutoconfig_def em_send_def
      calculateParameters_def em_ok_def MAX_ATTEMPTS_def Let_def split: if_splits)

text \<open>
  Property C15: in every state that \<open>EtherMAC\<close> reaches, whatever frames, jam signals and frames of the upper layer arrive: a half
  duplex station does not transmit while it receives; each of the timers for the interframe gap, the end of a transmission, the jam signal and the
  backoff is scheduled exactly in its state, and in every state other than idle and pause there is a frame; the receiver has its timer exactly
  while it is not idle and holds a frame exactly while it receives one without collision; the counter of backoffs stays between 0 and 16
  (the collision of the seventeenth attempt makes the module give up the frame); and no timer that is due, other
  than the end of autoconfiguration, which fails for a rate that is not an Ethernet rate, ends in an error.
\<close>

theorem ether_mac_consistent:
  assumes init: "em_initialize conn promiscuous rate duplexEnabled a queue limit = Inr s0"
    and run: "mac_run (em_handleMessage rnd) em_due s0 evs s"
  shows "(\<not> duplexMode s \<and> transmitState s = TRANSMITTING_STATE \<longrightarrow> receiveState s = RX_IDLE_STATE) \<and>
    (endIFGMsg s \<noteq> None \<longleftrightarrow> transmitState s = WAIT_IFG_STATE) \<and> (endTxMsg s \<noteq> None \<longleftrightarrow> transmitState s = TRANSMITTING_STATE) \<and>
    (endJammingMsg s \<noteq> None \<longleftrightarrow> transmitState s = JAMMING_STATE) \<and> (endBackoffMsg s \<noteq> None \<longleftrightarrow> transmitState s = BACKOFF_STATE) \<and>
    (transmitState s \<notin> {TX_IDLE_STATE, PAUSE_STATE} \<longrightarrow> em_txQueue s \<noteq> []) \<and>
    (endRxMsg s \<noteq> None \<longleftrightarrow> receiveState s \<noteq> RX_IDLE_STATE) \<and> (frameBeingReceived s \<noteq> None \<longleftrightarrow> receiveState s = RECEIVING_STATE) \<and>
    0 \<le> backoffs s \<and> backoffs s \<le> 16 \<and>
    (\<forall>ev tm. em_due s ev = Some tm \<and> ev \<noteq> EndAutoconfig \<longrightarrow> (\<exists>s'. em_handleMessage rnd tm ev s = Inr s'))"
proof -
  have ok: "em_ok s" using em.reaches_inv [OF run em_initial [OF init]] .
  then have "transmitState s \<notin> {TX_IDLE_STATE, PAUSE_STATE} \<longrightarrow> em_txQueue s \<noteq> []" by (cases "transmitState s") (simp_all add: em_ok_def)
  moreover have "\<forall>ev tm. em_due s ev = Some tm \<and> ev \<noteq> EndAutoconfig \<longrightarrow> (\<exists>s'. em_handleMessage rnd tm ev s = Inr s')"
    using em_timer [OF ok] by blast
  ultimately show ?thesis using ok unfolding em_ok_def MAX_ATTEMPTS_def by blast
qed

text \<open>A half duplex station at 10 Mbit/s that gets a frame during autoconfiguration.\<close>

definition demo_em0 :: EtherMAC where
  "demo_em0 = projr (em_initialize True False ETHERNET_TXRATE False 1 False 0)"

definition demo_em1 :: EtherMAC where
  "demo_em1 = projr (em_handleMessage (\<lambda>_. 0) 0 (UpperIn (Some
     \<lparr> ef_dest = 2, ef_src = 0, ef_byteLength = 64, ef_kind = EthernetIIFrame 0x800, ef_payload = None \<rparr>)) demo_em0)"

definition demo_em2 :: EtherMAC where
  "demo_em2 = projr (em_handleMessage (\<lambda>_. 0) (1 / 1000) EndAutoconfig demo_em1)"

lemma demo_em_steps:
  "em_initialize True False ETHERNET_TXRATE False 1 False 0 = Inr demo_em0"
  "em_handleMessage (\<lambda>_. 0) 0 (UpperIn (Some \<lparr> ef_dest = 2, ef_src = 0, ef_byteLength = 64, ef_kind = EthernetIIFrame 0x800, ef_payload = None \<rparr>)) demo_em0 = Inr demo_em1"
  "em_handleMessage (\<lambda>_. 0) (1 / 1000) EndAutoconfig demo_em1 = Inr demo_em2"
  "em_due demo_em1 EndAutoconfig = Some (1 / 1000)"
  unfolding demo_em2_def demo_em1_def demo_em0_def by code_simp+

lemma demo_em_run:
  "mac_run (em_handleMessage (\<lambda>_. 0)) em_due demo_em0 [UpperIn (Some
     \<lparr> ef_dest = 2, ef_src = 0, ef_byteLength = 64, ef_kind = EthernetIIFrame 0x800, ef_payload = None \<rparr>), EndAutoconfig] demo_em2"
proof -
  let ?u = "UpperIn (Some \<lparr> ef_dest = 2, ef_src = 0, ef_byteLength = 64, ef_kind = EthernetIIFrame 0x800, ef_payload = None \<rparr>)"
  have "mac_run (em_handleMessage (\<lambda>_. 0)) em_due demo_em0 ([] @ [?u]) demo_em1"
    by (rule mac_step [where step = "em_handleMessage (\<lambda>_. 0)", OF mac_start _ demo_em_steps(2)]) (simp add: external_def)
  then have "mac_run (em_handleMessage (\<lambda>_. 0)) em_due demo_em0 (([] @ [?u]) @ [EndAutoconfig]) demo_em2"
    by (rule mac_step [where step = "em_handleMessage (\<lambda>_. 0)", OF _ _ demo_em_steps(3)]) (simp add: demo_em_steps(4))
  then show ?thesis by simp
qed

theorem ether_mac_consistent_witness:
  "(endIFGMsg demo_em2 \<noteq> None \<longleftrightarrow> transmitState demo_em2 = WAIT_IFG_STATE) \<and> 0 \<le> backoffs demo_em2"
  using ether_mac_consistent [OF demo_em_steps(1) demo_em_run] by blast

end
