(* ===== verification/Spec2Isabelle.thy ===== *)
theory Spec2Isabelle
  imports TCP_Tables IP_Safety ARP_Props Queue_Props Service_Queue Stack_Path TED_Rebuild TED_Flooding Switch_Buffer MPLS_Props PPP_Link Ether_Path Ether_Collision
begin

text \<open>
  A verification of the TCP/IP protocol stack of the INET framework, a library of protocol modules for the OMNeT++
  simulation kernel.  The sources are the C++ files and message definitions under \<open>src/src\<close>; paths below are relative to
  that directory.

  \<^bold>\<open>The program.\<close>  A host or router is a set of simple modules connected by gates.  The kernel calls \<open>handleMessage\<close> of a
  module for every message, which updates the members of the module, sends messages through gates and schedules messages
  to itself.  An application talks to \<open>TCP\<close> or \<open>UDP\<close> by commands; these talk to \<open>IP\<close> by packets with control
  information; \<open>IP\<close> asks the \<open>RoutingTable\<close> for a route over the \<open>InterfaceTable\<close>, fragments, and hands datagrams to
  \<open>ARP\<close> or directly to a link layer, behind a passive output queue.  \<open>ICMP\<close> answers errors.  \<open>MPLS\<close> sits between
  network and link layer and forwards by label.  \<open>LinkStateRouting\<close> floods link state into the traffic engineering
  database \<open>TED\<close>, which computes shortest paths and rebuilds the routing table.  An Ethernet switch relays frames by the
  addresses it has learnt; below IP packets are put into frames by \<open>EtherEncap\<close> or \<open>EtherLLC\<close> and transmitted by
  \<open>EtherMAC\<close> or \<open>EtherMAC2\<close>.

  \<^bold>\<open>How the code is modelled.\<close>  A class is a record of its members; pointers that are shared are addresses into an explicit
  heap (connections of TCP, sockets of UDP, entries of the ARP cache), containers are lists or maps as the code orders
  them.  A member function is a function from the old to the new record; the messages it sends are appended to an output
  component or returned.  Every throw, failed \<open>ASSERT\<close>, null or dangling pointer is a value of the datatype of errors of
  \<open>TCP_Prelude\<close>, and the result type \<open>res\<close> is the sum of errors and values.  Sequence numbers, addresses and ports have
  their width (32-bit and 16-bit words, \<open>c_short\<close> and \<open>c_int\<close> for signed conversions); other integers, which the code
  does not bring near their limits, are unbounded.  Simulation time is a rational number; \<open>double\<close> and \<open>float\<close> are
  the IEEE formats with rounding to nearest (\<open>C_Float\<close>) in the number of fragments, in RED, in the metric and the
  distances of routes and in the pause interval of the switch.  Random numbers, the clock, names
  resolved by the simulator and data rates of channels are arguments.  The display strings, statistics and log output of
  the modules do not influence the protocols and are left out.

  \<^bold>\<open>Theories.\<close>

  \<^item> \<open>TCP_Prelude\<close>: errors, sequencing (\<open>bindE\<close>, \<open>seqE\<close>, \<open>whenE\<close>, \<open>assertE\<close>), a calculus of weakest preconditions in a
    partial and a total form, lemmas on words, lists and maps.

  \<^item> TCP (\<open>transport/tcp\<close>).  \<open>TCP_Seq\<close>: comparison of sequence numbers (\<open>TCPConnection.h\<close>).  \<open>TCP_Segment\<close>: addresses,
    segments, payload (\<open>TCPSegment.cc\<close>).  \<open>TCP_SendQueue\<close>, \<open>TCP_RcvQueue\<close>: the queues of \<open>queues/\<close>, with the locales
    \<open>send_queue\<close> and \<open>recv_queue\<close> for the interfaces and an interpretation for every implementation; the segments
    of the message based send queue carry every message of the stream once, merging of regions is the union of sets of octets, and the
    delivery loops hand over what has been received in sequence.  \<open>TCP_State\<close>: state
    variables and timers.  \<open>TCP_Util\<close>: \<open>TCPConnectionUtil.cc\<close>; \<open>TCP_Transmit\<close> shows what it sends.  \<open>TCP_Flavours\<close>:
    \<open>DumbTCP\<close>, \<open>TCPBaseAlg\<close>, no congestion control, Tahoe and Reno, each an interpretation of the locale
    \<open>tcp_algorithm\<close>.  \<open>TCP_FSM\<close>: \<open>performStateTransition\<close>, which keeps account of the SYNs and FINs
    that the two ends have exchanged.  \<open>TCP_Maps\<close>:
    connection tables and ephemeral ports of \<open>TCP.cc\<close>; the table of socket pairs is a function of the key, which agrees
    with the \<open>std::map\<close> of the source while its order tells the keys apart (\<open>keys_apart\<close>).  \<open>TCP_RcvSegment\<close>: \<open>TCPConnectionRcvSegment.cc\<close>.  \<open>TCP_Module\<close>:
    commands and \<open>TCP::handleMessage\<close>.  \<open>TCP_Arrival\<close>, \<open>TCP_Tables\<close>: what segments do to a connection, and that heap and
    maps agree in every reachable state.

  \<^item> IPv4 (\<open>networklayer/ipv4\<close>, \<open>networklayer/common\<close>, \<open>base\<close>).  \<open>IP_Address\<close>: \<open>IPAddress.cc\<close>.  \<open>IP_Datagram\<close>: packets and
    control information.  \<open>IP_Reassembly\<close>, \<open>IP_Count\<close>, \<open>IP_Frag\<close>: fragmentation, its floating point count, reassembly.
    \<open>IP_Interface\<close>: interfaces and their table.  \<open>IP_Routing\<close>: \<open>RoutingTable.cc\<close> with its caches; \<open>IP_Lookup\<close> and
    \<open>IP_RouteRun\<close> show that lookups find the best route under the invariant \<open>rt_ok\<close>, which a node keeps as long as no operation is used
    that changes routes or interfaces behind the caches (\<open>setMetric\<close>, \<open>flushTable\<close>, \<open>scrambleRoutes\<close>, \<open>setTimeToLiveRoutingEntry\<close>) (locale \<open>ranking\<close> for the loops
    that pick a best route).  \<open>IP_Module\<close>: \<open>IP.cc\<close> and \<open>ICMP.cc\<close>; \<open>IP_Forward\<close>, \<open>IP_Safety\<close>: what IP lets out.
    \<open>Service_Queue\<close>: the server in front of IP (\<open>AbstractQueue.cc\<close>, \<open>QueueBase.cc\<close>, \<open>ProtocolMap.cc\<close>).

  \<^item> Link layer.  \<open>MAC_Address\<close>; \<open>ARP_Module\<close> with \<open>ARP_Safety\<close>, \<open>ARP_Learn\<close>, \<open>ARP_Run\<close>, \<open>ARP_Props\<close> (\<open>arp/ARP.cc\<close>);
    \<open>Queue_Base\<close>, \<open>Queue_Props\<close> (passive queues, locales \<open>passive_queue\<close> and \<open>fifo_queue\<close> with interpretations for drop
    tail, RED and QoS queues); \<open>PPP_Link\<close> (\<open>ppp/PPP.cc\<close> and a queue in front of it); \<open>Switch_Relay\<close>, \<open>Switch_Buffer\<close>
    (\<open>etherswitch/\<close>, locale \<open>relay_buffer\<close> interpreted for both relay units).  Ethernet (\<open>linklayer/ethernet\<close>):
    \<open>Ether_Frame\<close> (frames, \<open>EtherEncap.cc\<close>, \<open>EtherLLC.cc\<close>), \<open>Ether_MAC\<close> (\<open>EtherMACBase.cc\<close>, \<open>EtherMAC2.cc\<close>, \<open>EtherMAC.cc\<close>; the
    record of a MAC extends that of the base class), \<open>Ether_Duplex\<close> (states and timers of \<open>EtherMAC2\<close>, locale \<open>event_machine\<close>),
    \<open>Ether_Order\<close> (what it transmits, and what PAUSE frames do), \<open>Ether_Collision\<close> (states and timers of \<open>EtherMAC\<close>, the
    second interpretation of the locale), \<open>Ether_Path\<close> (two hosts and a switch composed).

  \<^item> UDP (\<open>transport/udp\<close>).  \<open>UDP_Module\<close>, \<open>UDP_Props\<close>: sockets and delivery, refinement to a list of sockets.
    \<open>Stack_Path\<close>: UDP and IP of two hosts and any number of routers composed.

  \<^item> Traffic engineering and MPLS.  \<open>TED_Module\<close>: \<open>ted/TED.cc\<close>; \<open>TED_Paths\<close>, \<open>TED_Routes\<close>: the shortest path computation
    of Bellman and Ford is correct; \<open>TED_Rebuild\<close>: the routing table built from it.  \<open>TED_Flooding\<close>:
    \<open>ted/LinkStateRouting.cc\<close>, with the locale \<open>replica\<close> for state that depends on the set of messages only.  \<open>XML_Utils\<close>:
    \<open>util/XMLUtils.cc\<close>.  \<open>MPLS_Objects\<close>, \<open>MPLS_Module\<close>, \<open>MPLS_Props\<close>: \<open>mpls/\<close> and \<open>rsvp_te/SimpleClassifier.cc\<close>, label
    switched paths.

  \<^bold>\<open>Reachable states.\<close>  Invariants are proved by induction over relations that contain every message a module accepts
  (the reachable states of the TCP module, \<open>ip_run\<close> for a node's routing table, \<open>pq_run\<close> for queues, \<open>sender_run\<close> for a
  queue with PPP, \<open>mac_run\<close> for the Ethernet MACs, and their like for ARP, UDP, the switch and the database); no invariant is assumed of a state that
  these relations do not establish.

  \<^bold>\<open>Loops and bounds.\<close>  Loops over containers are structural recursions.  The search for an ephemeral port has a fuel of
  65536 rounds: the loop changes nothing but a \<open>short\<close>, which has that many values, so that a loop that has not ended by
  then never ends; it is shown to find a free port or to have seen all of them.  The walk over parent pointers of a shortest path and the search for the next hop have as fuel the number of
  vertices, which a path without repetition does not exceed.  The retransmission and extraction loops are recursive
  functions with a measure on the octets that are left; that they end and deliver everything is part of their
  properties.

  \<^bold>\<open>What is not modelled.\<close>  The wireless standards, radio, propagation and mobility depend on floating point models and on
  the channels of the kernel; for the Ethernet MACs the line is an arbitrary sequence of signals, so that nothing is said
  about the probability of collisions.  OSPF, the ad hoc routing protocols, LDP, RSVP,
  IPv6, SCTP and RTP are protocols of their own beside the stack; where they meet it, at the routing table, the label
  base and the protocol map, the operations they call are modelled.  Applications are arbitrary sequences of commands.
  Configurators and serializers work on files, on the topology of the simulator and on headers of the host system.  The
  readers of doubles in \<open>XMLUtils.cc\<close> and the IPv6 branches of \<open>IPvXAddress\<close> conversions are left out.
\<close>

end
